(* ===== verification/Prelude.thy ===== *)
theory Prelude
  imports Complex_Main "HOL-Library.AList"
begin

text \<open>
  What the components share: the dynamic values and strings of the source language, the
  insertion-ordered dictionary, the row operations that stand for SQL statements, and the
  interface of a protocol with an invariant.

  Strings. A Python \<open>str\<close> is a list of characters with code points below 256 (Latin-1), one
  HOL \<open>char\<close> per code point, which covers the Spanish texts the program handles; the two
  characters of that range whose upper case lies outside it (micro sign, y with diaeresis) are
  left unchanged by \<open>py_upper\<close>.

  Numbers. \<open>int\<close> is \<open>int\<close>. A finite \<open>float\<close> is its exact rational value; a float
  read from outside also carries its \<open>repr\<close> text. Infinities, NaN and binary rounding are not
  modelled. Times are seconds, as \<open>int\<close>.
\<close>

named_theorems py_simps \<open>evaluation rules of the string and dictionary operations\<close>
named_theorems sql_simps \<open>how the row operations act on membership, keys and lookups\<close>

section \<open>Exceptions and dynamic values\<close>

datatype py_exc =
    ValueError string
  | TypeError string
  | KeyError string
  | RuntimeError string
  | OtherError string

datatype pyval =
    PNone
  | PBool bool
  | PInt int
  | PFloat rat string
  | PStr string

fun py_truthy :: "pyval \<Rightarrow> bool" where
  "py_truthy PNone = False"
| "py_truthy (PBool b) = b"
| "py_truthy (PInt i) = (i \<noteq> 0)"
| "py_truthy (PFloat q _) = (q \<noteq> 0)"
| "py_truthy (PStr s) = (s \<noteq> [])"

section \<open>Strings\<close>

definition py_space :: "char \<Rightarrow> bool" where
  "py_space c = (let n = (of_char c :: nat) in
     (9 \<le> n \<and> n \<le> 13) \<or> (28 \<le> n \<and> n \<le> 32) \<or> n = 133 \<or> n = 160)"

definition is_digit :: "char \<Rightarrow> bool" where
  "is_digit c = (let n = (of_char c :: nat) in 48 \<le> n \<and> n \<le> 57)"

definition digit_val :: "char \<Rightarrow> nat" where
  "digit_val c = of_char c - 48"

definition lower_char :: "char \<Rightarrow> char" where
  "lower_char c = (let n = (of_char c :: nat) in
     if (65 \<le> n \<and> n \<le> 90) \<or> (192 \<le> n \<and> n \<le> 222 \<and> n \<noteq> 215) then char_of (n + 32) else c)"

definition upper_char :: "char \<Rightarrow> string" where
  "upper_char c = (let n = (of_char c :: nat) in
     if (97 \<le> n \<and> n \<le> 122) \<or> (224 \<le> n \<and> n \<le> 254 \<and> n \<noteq> 247) then [char_of (n - 32)]
     else if n = 223 then ''SS'' else [c])"

definition py_lower :: "string \<Rightarrow> string" where
  "py_lower s = map lower_char s"

definition py_upper :: "string \<Rightarrow> string" where
  "py_upper s = concat (map upper_char s)"

definition py_lstrip :: "string \<Rightarrow> string" where
  "py_lstrip s = dropWhile py_space s"

definition py_strip :: "string \<Rightarrow> string" where
  "py_strip s = rev (dropWhile py_space (rev (dropWhile py_space s)))"

definition strip_chars :: "char list \<Rightarrow> string \<Rightarrow> string" where
  "strip_chars cs s =
     rev (dropWhile (\<lambda>c. c \<in> set cs) (rev (dropWhile (\<lambda>c. c \<in> set cs) s)))"

fun splits :: "(char \<Rightarrow> bool) \<Rightarrow> string \<Rightarrow> string list" where
  "splits P [] = [[]]"
| "splits P (c # cs) =
     (if P c then [] # splits P cs
      else (case splits P cs of [] \<Rightarrow> [[c]] | w # ws \<Rightarrow> (c # w) # ws))"

definition split_ws :: "string \<Rightarrow> string list" where
  "split_ws s = filter (\<lambda>w. w \<noteq> []) (splits py_space s)"

fun join_with :: "string \<Rightarrow> string list \<Rightarrow> string" where
  "join_with sep [] = []"
| "join_with sep [x] = x"
| "join_with sep (x # y # r) = x @ sep @ join_with sep (y # r)"

definition starts_with :: "string \<Rightarrow> string \<Rightarrow> bool" where
  "starts_with p s = (take (length p) s = p)"

fun str_contains :: "string \<Rightarrow> string \<Rightarrow> bool" where
  "str_contains p [] = (p = [])"
| "str_contains p (c # cs) = (starts_with p (c # cs) \<or> str_contains p cs)"

text \<open>
  The ASCII text left of a character after NFKD decomposition and \<open>encode("ascii", "ignore")\<close>,
  for the code points below 256.
\<close>

definition ascii_fold_char :: "char \<Rightarrow> string" where
  "ascii_fold_char c = (let n = (of_char c :: nat) in
     if n < 128 then [c]
     else if n = 160 then '' '' else if n = 168 \<or> n = 175 \<or> n = 180 \<or> n = 184 then '' ''
     else if n = 170 then ''a'' else if n = 178 then ''2'' else if n = 179 then ''3''
     else if n = 185 then ''1'' else if n = 186 then ''o''
     else if n = 188 then ''14'' else if n = 189 then ''12'' else if n = 190 then ''34''
     else if 192 \<le> n \<and> n \<le> 197 then ''A'' else if n = 199 then ''C''
     else if 200 \<le> n \<and> n \<le> 203 then ''E'' else if 204 \<le> n \<and> n \<le> 207 then ''I''
     else if n = 209 then ''N'' else if 210 \<le> n \<and> n \<le> 214 then ''O''
     else if 217 \<le> n \<and> n \<le> 220 then ''U'' else if n = 221 then ''Y''
     else if 224 \<le> n \<and> n \<le> 229 then ''a'' else if n = 231 then ''c''
     else if 232 \<le> n \<and> n \<le> 235 then ''e'' else if 236 \<le> n \<and> n \<le> 239 then ''i''
     else if n = 241 then ''n'' else if 242 \<le> n \<and> n \<le> 246 then ''o''
     else if 249 \<le> n \<and> n \<le> 252 then ''u'' else if n = 253 \<or> n = 255 then ''y''
     else '''')"

definition ascii_fold :: "string \<Rightarrow> string" where
  "ascii_fold s = concat (map ascii_fold_char s)"

text \<open>\<open>re.sub(r"X+", r, s)\<close> for a class \<open>X\<close> of single characters: each maximal run
  becomes \<open>r\<close>. The flag says whether the previous character was in the class.\<close>

fun sub_runs_aux :: "(char \<Rightarrow> bool) \<Rightarrow> string \<Rightarrow> bool \<Rightarrow> string \<Rightarrow> string" where
  "sub_runs_aux P r b [] = []"
| "sub_runs_aux P r b (c # cs) =
     (if P c then (if b then [] else r) @ sub_runs_aux P r True cs
      else c # sub_runs_aux P r False cs)"

definition sub_runs :: "(char \<Rightarrow> bool) \<Rightarrow> string \<Rightarrow> string \<Rightarrow> string" where
  "sub_runs P r s = sub_runs_aux P r False s"

section \<open>Conversions\<close>

fun show_nat :: "nat \<Rightarrow> string" where
  "show_nat n = (if n < 10 then [char_of (48 + n)]
                 else show_nat (n div 10) @ [char_of (48 + n mod 10)])"

declare show_nat.simps [simp del]

definition show_int :: "int \<Rightarrow> string" where
  "show_int i = (if i < 0 then CHR ''-'' # show_nat (nat (- i)) else show_nat (nat i))"

fun py_str :: "pyval \<Rightarrow> string" where
  "py_str PNone = ''None''"
| "py_str (PBool b) = (if b then ''True'' else ''False'')"
| "py_str (PInt i) = show_int i"
| "py_str (PFloat _ t) = t"
| "py_str (PStr s) = s"

text \<open>\<open>str(value or "")\<close>.\<close>

definition str_or_empty :: "pyval \<Rightarrow> string" where
  "str_or_empty v = (if py_truthy v then py_str v else [])"

text \<open>Digits with single underscores between them, as \<open>int(text)\<close> takes them.\<close>

fun parse_digits :: "nat \<Rightarrow> bool \<Rightarrow> string \<Rightarrow> nat option" where
  "parse_digits acc prev [] = (if prev then Some acc else None)"
| "parse_digits acc prev (c # cs) =
     (if is_digit c then parse_digits (10 * acc + digit_val c) True cs
      else if c = CHR ''_'' \<and> prev then parse_digits acc False cs
      else None)"

definition parse_int :: "string \<Rightarrow> int option" where
  "parse_int s = (case py_strip s of
      [] \<Rightarrow> None
    | c # cs \<Rightarrow>
        (if c = CHR ''-'' then map_option (\<lambda>n. - int n) (parse_digits 0 False cs)
         else if c = CHR ''+'' then map_option int (parse_digits 0 False cs)
         else map_option int (parse_digits 0 False (c # cs))))"

definition trunc_rat :: "rat \<Rightarrow> int" where
  "trunc_rat q = (if q < 0 then - \<lfloor>- q\<rfloor> else \<lfloor>q\<rfloor>)"

fun py_int :: "pyval \<Rightarrow> py_exc + int" where
  "py_int PNone = Inl (TypeError ''int'')"
| "py_int (PBool b) = Inr (if b then 1 else 0)"
| "py_int (PInt i) = Inr i"
| "py_int (PFloat q _) = Inr (trunc_rat q)"
| "py_int (PStr s) = (case parse_int s of None \<Rightarrow> Inl (ValueError ''int'') | Some i \<Rightarrow> Inr i)"

text \<open>
  \<open>float(text)\<close> for plain decimal literals: a sign, digits with an optional fraction (not both
  empty) and an optional exponent. The words for infinities and NaN are refused here.
\<close>

fun span_digits :: "string \<Rightarrow> string \<times> string" where
  "span_digits [] = ([], [])"
| "span_digits (c # cs) =
     (if is_digit c then (case span_digits cs of (a, b) \<Rightarrow> (c # a, b)) else ([], c # cs))"

definition digits_value :: "string \<Rightarrow> nat" where
  "digits_value ds = foldl (\<lambda>a c. 10 * a + digit_val c) 0 ds"

definition pow10 :: "int \<Rightarrow> rat" where
  "pow10 e = (if 0 \<le> e then 10 ^ nat e else 1 / 10 ^ nat (- e))"

definition parse_exponent :: "string \<Rightarrow> int option" where
  "parse_exponent s = (case s of
      [] \<Rightarrow> Some 0
    | c # cs \<Rightarrow>
       (if c = CHR ''e'' \<or> c = CHR ''E'' then
          (case cs of
             [] \<Rightarrow> None
           | d # ds \<Rightarrow>
              (let (sg, body) = (if d = CHR ''-'' then (- 1, ds) else if d = CHR ''+'' then (1, ds)
                                 else (1 :: int, d # ds)) in
               (case span_digits body of (a, r) \<Rightarrow>
                  if a \<noteq> [] \<and> r = [] then Some (sg * int (digits_value a)) else None)))
        else None))"

definition parse_unsigned :: "string \<Rightarrow> rat option" where
  "parse_unsigned s = (case span_digits s of (a, r) \<Rightarrow>
     (let (f, r') = (case r of [] \<Rightarrow> ([], [])
                     | c # cs \<Rightarrow> if c = CHR ''.'' then span_digits cs else ([], r)) in
      if a = [] \<and> f = [] then None
      else (case parse_exponent r' of
              None \<Rightarrow> None
            | Some e \<Rightarrow> Some (of_nat (digits_value (a @ f)) * pow10 (e - int (length f))))))"

definition parse_float :: "string \<Rightarrow> rat option" where
  "parse_float s = (case py_strip s of
      [] \<Rightarrow> None
    | c # cs \<Rightarrow>
        (if c = CHR ''-'' then map_option uminus (parse_unsigned cs)
         else if c = CHR ''+'' then parse_unsigned cs
         else parse_unsigned (c # cs)))"

fun py_float :: "pyval \<Rightarrow> py_exc + rat" where
  "py_float PNone = Inl (TypeError ''float'')"
| "py_float (PBool b) = Inr (if b then 1 else 0)"
| "py_float (PInt i) = Inr (of_int i)"
| "py_float (PFloat q _) = Inr q"
| "py_float (PStr s) = (case parse_float s of None \<Rightarrow> Inl (ValueError ''float'') | Some q \<Rightarrow> Inr q)"

text \<open>\<open>round(x, k)\<close>: the nearest multiple of \<open>10 ^ - k\<close>, ties to the even one.\<close>

definition round_half_even :: "rat \<Rightarrow> int" where
  "round_half_even q =
     (let f = \<lfloor>q\<rfloor>; d = q - of_int f in
      if d < 1/2 then f else if d > 1/2 then f + 1 else if even f then f else f + 1)"

definition round_to :: "nat \<Rightarrow> rat \<Rightarrow> rat" where
  "round_to k q = of_int (round_half_even (q * 10 ^ k)) / 10 ^ k"

section \<open>Dictionaries\<close>

text \<open>
  A \<open>dict\<close> is an association list with distinct keys in insertion order; \<open>AList.update\<close>
  is Python's item assignment (a present key keeps its place, a new one goes last).
\<close>

type_synonym py_dict = "(string \<times> pyval) list"

definition dget :: "('k \<times> 'v) list \<Rightarrow> 'k \<Rightarrow> 'v \<Rightarrow> 'v" where
  "dget d k v0 = (case map_of d k of None \<Rightarrow> v0 | Some v \<Rightarrow> v)"

text \<open>\<open>list(dict.fromkeys(xs))\<close> and the \<open>seen\<close> loops: first occurrences in order.\<close>

fun dedupe_from :: "'a list \<Rightarrow> 'a list \<Rightarrow> 'a list" where
  "dedupe_from seen [] = []"
| "dedupe_from seen (x # xs) =
     (if x \<in> set seen then dedupe_from seen xs else x # dedupe_from (x # seen) xs)"

definition dedupe :: "'a list \<Rightarrow> 'a list" where
  "dedupe xs = dedupe_from [] xs"

section \<open>Nested values\<close>

text \<open>
  Values with structure, as JSON columns and request bodies hold them. Like a float, a list or an
  object carries the text \<open>str\<close> gives for it.
\<close>

datatype json =
    JVal pyval
  | JList "json list" string
  | JObj "(string \<times> json) list" string

fun j_truthy :: "json \<Rightarrow> bool" where
  "j_truthy (JVal v) = py_truthy v"
| "j_truthy (JList xs _) = (xs \<noteq> [])"
| "j_truthy (JObj d _) = (d \<noteq> [])"

fun j_str :: "json \<Rightarrow> string" where
  "j_str (JVal v) = py_str v"
| "j_str (JList _ t) = t"
| "j_str (JObj _ t) = t"

definition j_str_or_empty :: "json \<Rightarrow> string" where
  "j_str_or_empty v = (if j_truthy v then j_str v else [])"

definition jget :: "(string \<times> json) list \<Rightarrow> string \<Rightarrow> json" where
  "jget d k = (case map_of d k of None \<Rightarrow> JVal PNone | Some v \<Rightarrow> v)"

fun j_float :: "json \<Rightarrow> py_exc + rat" where
  "j_float (JVal v) = py_float v"
| "j_float (JList _ _) = Inl (TypeError ''float'')"
| "j_float (JObj _ _) = Inl (TypeError ''float'')"

section \<open>Rows and SQL statements\<close>

text \<open>
  A table is a list of records. \<open>UPDATE t SET f WHERE p\<close> maps \<open>f\<close> over the rows that
  satisfy \<open>p\<close>; \<open>DELETE\<close> and \<open>SELECT\<close> filter.
\<close>

definition upd_where :: "('r \<Rightarrow> bool) \<Rightarrow> ('r \<Rightarrow> 'r) \<Rightarrow> 'r list \<Rightarrow> 'r list" where
  "upd_where p f t = map (\<lambda>r. if p r then f r else r) t"

definition del_where :: "('r \<Rightarrow> bool) \<Rightarrow> 'r list \<Rightarrow> 'r list" where
  "del_where p t = filter (\<lambda>r. \<not> p r) t"

definition find_by :: "('r \<Rightarrow> 'k) \<Rightarrow> 'k \<Rightarrow> 'r list \<Rightarrow> 'r option" where
  "find_by key k t = find (\<lambda>r. key r = k) t"

section \<open>Lemmas on the shared operations\<close>

lemma dropWhile_rev_dropWhile:
  assumes "dropWhile P xs = xs"
  shows "dropWhile P (rev (dropWhile P (rev xs))) = rev (dropWhile P (rev xs))"
proof (cases "rev (dropWhile P (rev xs))")
  case (Cons y ys)
  have "rev xs = takeWhile P (rev xs) @ dropWhile P (rev xs)" by simp
  then have "xs = rev (dropWhile P (rev xs)) @ rev (takeWhile P (rev xs))"
    by (metis rev_append rev_rev_ident)
  then have "hd xs = y" "xs \<noteq> []" using Cons by (auto simp del: rev_rev_ident, metis append_Cons list.sel(1))
  moreover have "\<not> P (hd xs)" using assms calculation(2) by (metis hd_dropWhile)
  ultimately show ?thesis using Cons by simp
next
  case Nil
  then show ?thesis by (simp only: dropWhile.simps)
qed

lemma py_strip_idem [simp]: "py_strip (py_strip s) = py_strip s"
proof -
  have "dropWhile py_space (py_strip s) = py_strip s"
    unfolding py_strip_def by (rule dropWhile_rev_dropWhile) simp
  then show ?thesis unfolding py_strip_def by simp
qed

lemma str_or_empty_PStr [simp]: "str_or_empty (PStr s) = s"
  by (simp add: str_or_empty_def)

lemma set_dedupe_from: "set (dedupe_from seen xs) = set xs - set seen"
  by (induction seen xs rule: dedupe_from.induct) auto

lemma distinct_dedupe_from: "distinct (dedupe_from seen xs)"
  by (induction seen xs rule: dedupe_from.induct) (auto simp: set_dedupe_from)

lemma set_dedupe [simp]: "set (dedupe xs) = set xs"
  by (simp add: dedupe_def set_dedupe_from)

lemma distinct_dedupe [simp]: "distinct (dedupe xs)"
  by (simp add: dedupe_def distinct_dedupe_from)

lemma dedupe_from_distinct:
  "distinct xs \<Longrightarrow> set xs \<inter> set seen = {} \<Longrightarrow> dedupe_from seen xs = xs"
  by (induction seen xs rule: dedupe_from.induct) auto

lemma dedupe_distinct: "distinct xs \<Longrightarrow> dedupe xs = xs"
  by (simp add: dedupe_def dedupe_from_distinct)

lemma dedupe_idem [simp]: "dedupe (dedupe xs) = dedupe xs"
  by (simp add: dedupe_distinct)

lemma dget_update [py_simps]:
  "dget (AList.update k v d) k' v0 = (if k' = k then v else dget d k' v0)"
  by (simp add: dget_def update_conv')

lemma jget_update: "jget (AList.update k v d) k' = (if k' = k then v else jget d k')"
  by (simp add: jget_def update_conv')

lemma dom_map_of_update [py_simps]:
  "fst ` set (AList.update k v d) = insert k (fst ` set d)"
  by (simp add: dom_update)

lemma distinct_keys_update [simp, intro]:
  "distinct (map fst d) \<Longrightarrow> distinct (map fst (AList.update k v d))"
  by (rule distinct_update)

lemma dget_in: "map_of d k = Some v \<Longrightarrow> dget d k v0 = v"
  by (simp add: dget_def)

lemma map_of_key_image:
  "distinct (map k xs) \<Longrightarrow> x \<in> set xs \<Longrightarrow> map_of (map (\<lambda>x. (k x, f x)) xs) (k x) = Some (f x)"
  by (induction xs) (auto, metis image_eqI)

lemma upd_where_Nil [sql_simps]: "upd_where p f [] = []"
  by (simp add: upd_where_def)

lemma upd_where_Cons [sql_simps]:
  "upd_where p f (r # t) = (if p r then f r else r) # upd_where p f t"
  by (simp add: upd_where_def)

lemma set_upd_where [sql_simps]:
  "set (upd_where p f t) = {if p r then f r else r | r. r \<in> set t}"
  by (auto simp: upd_where_def)

lemma in_upd_where: "r \<in> set (upd_where p f t) \<longleftrightarrow> (\<exists>r0 \<in> set t. r = (if p r0 then f r0 else r0))"
  by (auto simp: upd_where_def)

lemma length_upd_where [simp]: "length (upd_where p f t) = length t"
  by (simp add: upd_where_def)

lemma map_key_upd_where:
  assumes "\<And>r. p r \<Longrightarrow> key (f r) = key r"
  shows "map key (upd_where p f t) = map key t"
  using assms by (simp add: upd_where_def)

lemma upd_where_none: "(\<And>r. r \<in> set t \<Longrightarrow> \<not> p r) \<Longrightarrow> upd_where p f t = t"
  by (induction t) (auto simp: upd_where_def)

lemma find_by_Nil [sql_simps]: "find_by key k [] = None"
  by (simp add: find_by_def)

lemma find_by_Cons [sql_simps]:
  "find_by key k (r # t) = (if key r = k then Some r else find_by key k t)"
  by (simp add: find_by_def)

lemma find_by_SomeD: "find_by key k t = Some r \<Longrightarrow> r \<in> set t \<and> key r = k"
  by (induction t) (auto simp: find_by_def split: if_splits)

lemma find_by_None: "find_by key k t = None \<longleftrightarrow> k \<notin> key ` set t"
  by (induction t) (auto simp: find_by_def)

lemma find_by_distinct:
  "distinct (map key t) \<Longrightarrow> r \<in> set t \<Longrightarrow> find_by key (key r) t = Some r"
  by (induction t) (auto simp: find_by_def)

lemma find_by_unique:
  "distinct (map key t) \<Longrightarrow> find_by key k t = Some r \<Longrightarrow> r' \<in> set t \<Longrightarrow> key r' = k \<Longrightarrow> r' = r"
  by (induction t) (auto simp: find_by_def split: if_splits)

lemma find_by_upd_where:
  assumes "\<And>r. key (f r) = key r"
  shows "find_by key k (upd_where p f t) =
         map_option (\<lambda>r. if p r then f r else r) (find_by key k t)"
  using assms by (induction t) (auto simp: upd_where_def find_by_def)

lemma find_by_append:
  "find_by key k (t @ u) = (case find_by key k t of None \<Rightarrow> find_by key k u | Some r \<Rightarrow> Some r)"
  by (induction t) (auto simp: find_by_def)

lemma set_del_where [sql_simps]: "set (del_where p t) = {r \<in> set t. \<not> p r}"
  by (auto simp: del_where_def)

lemma distinct_map_del_where:
  "distinct (map key t) \<Longrightarrow> distinct (map key (del_where p t))"
  by (induction t) (auto simp: del_where_def)

lemma find_by_del_where:
  "find_by key k (del_where (\<lambda>r. key r = k') t) = (if k = k' then None else find_by key k t)"
  by (induction t) (auto simp: del_where_def find_by_def)

text \<open>A sum over a table changes by the row that an update by key changes, or a deletion removes.\<close>

lemma sum_upd_where:
  fixes g :: "'r \<Rightarrow> 'n::ab_group_add"
  assumes "distinct (map key t)" "find_by key k t = Some r"
  shows "sum_list (map g (upd_where (\<lambda>x. key x = k) f t)) = sum_list (map g t) + (g (f r) - g r)"
  using assms
proof (induction t)
  case (Cons x t)
  show ?case
  proof (cases "key x = k")
    case True
    then have "upd_where (\<lambda>x. key x = k) f t = t"
      using Cons.prems(1) by (intro upd_where_none) (auto simp: image_iff)
    then show ?thesis using True Cons.prems(2) by (simp add: sql_simps algebra_simps)
  next
    case False
    then show ?thesis using Cons by (simp add: sql_simps algebra_simps)
  qed
qed (simp add: sql_simps)

lemma sum_del_where:
  fixes g :: "'r \<Rightarrow> 'n::ab_group_add"
  assumes "distinct (map key t)" "find_by key k t = Some r"
  shows "sum_list (map g (del_where (\<lambda>x. key x = k) t)) = sum_list (map g t) - g r"
  using assms
proof (induction t)
  case (Cons x t)
  show ?case
  proof (cases "key x = k")
    case True
    then have "del_where (\<lambda>x. key x = k) t = t"
      using Cons.prems(1) by (auto simp: del_where_def image_iff intro!: filter_True)
    then show ?thesis using True Cons.prems(2) by (simp add: sql_simps del_where_def)
  next
    case False
    then show ?thesis using Cons by (simp add: sql_simps del_where_def algebra_simps)
  qed
qed (simp add: sql_simps)

section \<open>Cents\<close>

definition cents :: "rat \<Rightarrow> bool" where
  "cents q \<longleftrightarrow> q * 100 \<in> \<int>"

lemma round_half_even_int [simp]: "round_half_even (of_int n) = n"
  by (simp add: round_half_even_def)

lemma round_half_even_near: "\<bar>of_int (round_half_even q) - q\<bar> \<le> 1 / 2"
proof -
  have "of_int \<lfloor>q\<rfloor> \<le> q" "q < of_int \<lfloor>q\<rfloor> + 1" by linarith+
  then show ?thesis by (auto simp: round_half_even_def Let_def abs_le_iff)
qed

lemma round_half_even_mono:
  assumes "p \<le> q" shows "round_half_even p \<le> round_half_even q"
proof (cases "\<lfloor>p\<rfloor> = \<lfloor>q\<rfloor>")
  case True
  then show ?thesis using assms by (auto simp: round_half_even_def Let_def)
next
  case False
  then have "\<lfloor>p\<rfloor> + 1 \<le> \<lfloor>q\<rfloor>" using floor_mono[OF assms] by simp
  moreover have "round_half_even p \<le> \<lfloor>p\<rfloor> + 1" "\<lfloor>q\<rfloor> \<le> round_half_even q"
    by (simp_all add: round_half_even_def Let_def)
  ultimately show ?thesis by simp
qed

lemma cents_round [simp]: "cents (round_to 2 q)"
  by (simp add: cents_def round_to_def)

lemma round_cents: "cents q \<Longrightarrow> round_to 2 q = q"
  by (auto simp: cents_def round_to_def elim!: Ints_cases)

lemma cents_diff [intro]: "cents p \<Longrightarrow> cents q \<Longrightarrow> cents (p - q)"
  by (simp add: cents_def left_diff_distrib)

lemma cents_add [intro]: "cents p \<Longrightarrow> cents q \<Longrightarrow> cents (p + q)"
  by (simp add: cents_def distrib_right)

lemma cents_zero [simp]: "cents 0"
  by (simp add: cents_def)

lemma round_to_mono: "p \<le> q \<Longrightarrow> round_to k p \<le> round_to k q"
  by (simp add: round_to_def divide_right_mono round_half_even_mono mult_right_mono)

lemma round_to_nonneg: "0 \<le> q \<Longrightarrow> 0 \<le> round_to k q"
  using round_to_mono[of 0 q k] by (simp add: round_to_def round_half_even_def)

section \<open>Protocols\<close>

text \<open>
  The states a step relation reaches from its initial states, and the interface of a protocol
  whose steps keep an invariant. Each component with a step relation interprets it.
\<close>

inductive reach :: "('s \<Rightarrow> bool) \<Rightarrow> ('s \<Rightarrow> 's \<Rightarrow> bool) \<Rightarrow> 's \<Rightarrow> bool" for init step where
  reach_init: "init s \<Longrightarrow> reach init step s"
| reach_step: "reach init step s \<Longrightarrow> step s t \<Longrightarrow> reach init step t"

lemma reach_steps: "step\<^sup>*\<^sup>* s t \<Longrightarrow> reach ini step s \<Longrightarrow> reach ini step t"
  by (induction rule: rtranclp_induct) (auto intro: reach_step)

locale protocol =
  fixes init :: "'s \<Rightarrow> bool"
    and step :: "'s \<Rightarrow> 's \<Rightarrow> bool"
    and inv :: "'s \<Rightarrow> bool"
  assumes init_inv: "init s \<Longrightarrow> inv s"
    and step_inv: "step s t \<Longrightarrow> inv s \<Longrightarrow> inv t"
begin

lemma reach_inv: "reach init step s \<Longrightarrow> inv s"
  by (induction rule: reach.induct) (auto intro: init_inv step_inv)

lemma steps_inv: "step\<^sup>*\<^sup>* s t \<Longrightarrow> inv s \<Longrightarrow> inv t"
  by (induction rule: rtranclp_induct) (auto intro: step_inv)

end

end
