(* ===== verification/Catalog.thy ===== *)
theory Catalog
  imports Prelude "HOL-Library.Product_Lexorder" "HOL-Library.List_Lexorder" "HOL-Library.Char_ord"
begin

text \<open>
  The product catalog of \<open>store/app/catalog/sheets.py\<close>: parsing of sheet rows, the cached
  catalog with its refresh back-off and staleness rule, sizes and presentations, derived product
  SKUs, and the grouping of variant rows into customer-facing products.

  A sheet row is the dictionary \<open>get_all_records\<close> returns. The image address normalisation
  rests on \<open>urllib.parse\<close> and is the argument \<open>norm_image\<close>. The refresh lock is modelled
  by giving \<open>refresh_catalog\<close> the state read before the lock and the state found under it.
\<close>

section \<open>Sizes and presentations\<close>

definition normalize_variant_value :: "pyval \<Rightarrow> string" where
  "normalize_variant_value v = join_with '' '' (split_ws (py_upper (py_strip (str_or_empty v))))"

definition safe_int :: "pyval \<Rightarrow> int" where
  "safe_int v = (case (if py_truthy v then py_int v else Inr 0) of Inl _ \<Rightarrow> 0 | Inr i \<Rightarrow> i)"

definition safe_float :: "pyval \<Rightarrow> rat option" where
  "safe_float v = (case py_float v of Inl _ \<Rightarrow> None | Inr q \<Rightarrow> Some q)"

definition dedupe_sizes :: "string list \<Rightarrow> string list" where
  "dedupe_sizes sizes =
     dedupe (filter (\<lambda>s. s \<noteq> []) (map (\<lambda>s. normalize_variant_value (PStr s)) sizes))"

record product =
  p_sku :: string
  p_parent_sku :: string
  p_name :: string
  p_brand :: string
  p_category :: string
  p_description :: string
  p_size :: string
  p_sizes :: string
  p_price :: rat
  p_stock :: int
  p_image :: string

definition get_product_sizes :: "product \<Rightarrow> string list" where
  "get_product_sizes p =
     (let explicit = normalize_variant_value (PStr (p_size p)) in
      if explicit \<noteq> [] then [explicit]
      else (let raw = py_strip (p_sizes p) in
            if raw = [] then []
            else dedupe_sizes
                   (filter (\<lambda>s. s \<noteq> [])
                      (map (\<lambda>s. normalize_variant_value (PStr s))
                           (splits (\<lambda>c. c = CHR '','') raw)))))"

definition size_order :: "string list" where
  "size_order = [''XXS'', ''XS'', ''S'', ''M'', ''L'', ''XL'', ''XXL'', ''XXXL'']"

fun index_of :: "'a \<Rightarrow> 'a list \<Rightarrow> nat option" where
  "index_of x [] = None"
| "index_of x (y # ys) = (if x = y then Some 0 else map_option Suc (index_of x ys))"

definition is_upper_ascii :: "char \<Rightarrow> bool" where
  "is_upper_ascii c = (let n = (of_char c :: nat) in 65 \<le> n \<and> n \<le> 90)"

text \<open>The pattern of a quantity such as \<open>100 ML\<close>: its value and its unit.\<close>

definition match_quantity :: "string \<Rightarrow> (rat \<times> string) option" where
  "match_quantity s = (case span_digits s of (a, r) \<Rightarrow>
     if a = [] then None
     else (let (f, r') = (case r of [] \<Rightarrow> ([], [])
                          | c # cs \<Rightarrow> if c = CHR ''.'' \<and> fst (span_digits cs) \<noteq> []
                                      then span_digits cs else ([], r));
               unit = dropWhile py_space r' in
           if list_all is_upper_ascii unit
           then Some (of_nat (digits_value (a @ f)) / 10 ^ length f, unit) else None))"

definition size_sort_key :: "string \<Rightarrow> nat \<times> rat \<times> string" where
  "size_sort_key sz =
     (let normalized = normalize_variant_value (PStr sz) in
      case index_of normalized size_order of
        Some i \<Rightarrow> (0, of_nat i, normalized)
      | None \<Rightarrow> (case match_quantity normalized of
                   Some (v, u) \<Rightarrow> (1, v, u)
                 | None \<Rightarrow> (2, 0, normalized)))"

section \<open>Sheet rows and the cached catalog\<close>

definition parse_catalog_row ::
  "(pyval \<Rightarrow> string) \<Rightarrow> py_dict \<Rightarrow> py_dict \<Rightarrow> py_exc + product" where
  "parse_catalog_row norm_image row formula_row =
     (let field = (\<lambda>k. py_strip (py_str (dget row k (PStr ''''))));
          f_image = dget formula_row ''Image URL'' PNone;
          raw_image = (if py_truthy f_image then f_image else dget row ''Image URL'' (PStr ''''));
          size_value = normalize_variant_value (dget row ''Size'' (PStr ''''));
          sizes_value = field ''Sizes'';
          name = py_strip (py_str (dget row ''Product Name'' (dget row ''Product name'' (PStr '''')))) in
      case py_float (dget row ''Price USD'' (PInt 0)) of
        Inl e \<Rightarrow> Inl e
      | Inr price \<Rightarrow>
         (case py_int (dget row ''Stock'' (PInt 0)) of
            Inl e \<Rightarrow> Inl e
          | Inr stock \<Rightarrow> Inr \<lparr>
              p_sku = field ''SKU'', p_parent_sku = field ''Parent SKU'', p_name = name,
              p_brand = field ''Brand'', p_category = field ''Category'',
              p_description = field ''Description'', p_size = size_value,
              p_sizes = (if size_value \<noteq> [] then size_value else sizes_value),
              p_price = price, p_stock = stock, p_image = norm_image raw_image\<rparr>))"

fun parse_rows ::
  "(pyval \<Rightarrow> string) \<Rightarrow> py_dict list \<Rightarrow> py_dict list \<Rightarrow> py_exc + product list" where
  "parse_rows ni [] fs = Inr []"
| "parse_rows ni (row # rows) fs =
     (let f = (case fs of [] \<Rightarrow> [] | g # _ \<Rightarrow> g) in
      if py_lower (py_strip (py_str (dget row ''Active'' (PStr '''')))) \<noteq> ''yes''
      then parse_rows ni rows (tl fs)
      else (case parse_catalog_row ni row f of
              Inl e \<Rightarrow> Inl e
            | Inr p \<Rightarrow> (case parse_rows ni rows (tl fs) of
                          Inl e \<Rightarrow> Inl e | Inr ps \<Rightarrow> Inr (p # ps))))"

record catalog_state =
  cs_cache :: "product list"
  cs_reference :: "product list"
  cs_ts :: int
  cs_interval :: int
  cs_failures :: nat
  cs_next_allowed :: int
  cs_generation :: nat
  cs_last_ok :: bool

definition catalog_init :: catalog_state where
  "catalog_init = \<lparr>cs_cache = [], cs_reference = [], cs_ts = 0, cs_interval = 900,
     cs_failures = 0, cs_next_allowed = 0, cs_generation = 0, cs_last_ok = False\<rparr>"

definition refresh_backoff :: "nat \<Rightarrow> int" where
  "refresh_backoff failures = min (60 * 2 ^ min (failures - 1) 4) 900"

text \<open>What the Sheets client answers: an exception, or the rows with the formula rows (which may
  fail on their own; the rows then stand in for them).\<close>

type_synonym sheet_fetch = "py_exc + py_dict list \<times> (py_exc + py_dict list)"

definition fetch_products :: "(pyval \<Rightarrow> string) \<Rightarrow> sheet_fetch \<Rightarrow> py_exc + product list" where
  "fetch_products ni fetch = (case fetch of
      Inl e \<Rightarrow> Inl e
    | Inr (records, formulas) \<Rightarrow>
        parse_rows ni records (case formulas of Inl _ \<Rightarrow> records | Inr fs \<Rightarrow> fs))"

definition refresh_locked ::
  "(pyval \<Rightarrow> string) \<Rightarrow> bool \<Rightarrow> nat \<Rightarrow> int \<Rightarrow> int \<Rightarrow> sheet_fetch \<Rightarrow> catalog_state
   \<Rightarrow> bool \<times> catalog_state" where
  "refresh_locked ni force observed mclk now fetch st =
     (if \<not> force \<and> cs_generation st \<noteq> observed then (cs_last_ok st, st)
      else if \<not> force \<and> mclk < cs_next_allowed st then (False, st)
      else (case fetch_products ni fetch of
              Inr refs \<Rightarrow>
                (True, st\<lparr>cs_cache := filter (\<lambda>p. 0 < p_stock p) refs, cs_reference := refs,
                          cs_ts := now, cs_failures := 0, cs_next_allowed := 0,
                          cs_generation := Suc (cs_generation st), cs_last_ok := True\<rparr>)
            | Inl _ \<Rightarrow>
                (let n = Suc (cs_failures st) in
                 (False, st\<lparr>cs_failures := n, cs_next_allowed := mclk + refresh_backoff n,
                            cs_generation := Suc (cs_generation st), cs_last_ok := False\<rparr>))))"

definition refresh_catalog ::
  "(pyval \<Rightarrow> string) \<Rightarrow> bool \<Rightarrow> int \<Rightarrow> int \<Rightarrow> sheet_fetch \<Rightarrow> catalog_state \<Rightarrow> catalog_state
   \<Rightarrow> bool \<times> catalog_state" where
  "refresh_catalog ni force mclk now fetch st0 st =
     (if \<not> force \<and> mclk < cs_next_allowed st0 then (False, st)
      else refresh_locked ni force (cs_generation st0) mclk now fetch st)"

definition catalog_cache_age :: "int \<Rightarrow> catalog_state \<Rightarrow> int option" where
  "catalog_cache_age now st = (if cs_ts st = 0 then None else Some (max (now - cs_ts st) 0))"

definition catalog_max_age :: "catalog_state \<Rightarrow> int" where
  "catalog_max_age st = max (cs_interval st * 2) 300"

definition is_catalog_cache_stale :: "int \<Rightarrow> catalog_state \<Rightarrow> bool" where
  "is_catalog_cache_stale now st =
     (case catalog_cache_age now st of None \<Rightarrow> True | Some age \<Rightarrow> age > catalog_max_age st)"

definition set_refresh_interval :: "int \<Rightarrow> catalog_state \<Rightarrow> catalog_state" where
  "set_refresh_interval seconds st = st\<lparr>cs_interval := seconds\<rparr>"

text \<open>\<open>now\<close> is the time of the first staleness test, \<open>now'\<close> that of the second one.\<close>

definition ensure_fresh_catalog ::
  "(pyval \<Rightarrow> string) \<Rightarrow> int \<Rightarrow> int \<Rightarrow> int \<Rightarrow> sheet_fetch \<Rightarrow> catalog_state
   \<Rightarrow> (py_exc + product list) \<times> catalog_state" where
  "ensure_fresh_catalog ni mclk now now' fetch st =
     (let st' = (if is_catalog_cache_stale now st
                 then snd (refresh_catalog ni False mclk now' fetch st st) else st) in
      if is_catalog_cache_stale now' st'
      then (Inl (ValueError ''Product catalog is stale or unavailable''), st')
      else (Inr (cs_cache st'), st'))"

section \<open>Derived product SKUs\<close>

definition is_size_suffix :: "string \<Rightarrow> bool" where
  "is_size_suffix s = (py_lower s \<in> set [''xxs'', ''xs'', ''s'', ''m'', ''l'', ''xl'', ''xxl'', ''xxxl''])"

text \<open>The match of \<open>base[-_]size\<close>: the last separator splits, since no size holds one.\<close>

definition match_size_suffix :: "string \<Rightarrow> (string \<times> string) option" where
  "match_size_suffix s =
     (let is_sep = (\<lambda>c. c = CHR ''-'' \<or> c = CHR ''_'');
          suffix = rev (takeWhile (\<lambda>c. \<not> is_sep c) (rev s));
          rest = rev (dropWhile (\<lambda>c. \<not> is_sep c) (rev s)) in
      if rest = [] then None
      else (let base = butlast rest in
            if base \<noteq> [] \<and> CHR 0x0A \<notin> set base \<and> is_size_suffix suffix
            then Some (base, suffix) else None))"

definition derived_candidate :: "product \<Rightarrow> (string \<times> string \<times> string) option" where
  "derived_candidate p =
     (if py_strip (p_parent_sku p) \<noteq> [] then None
      else (let sku = py_strip (p_sku p); sizes = get_product_sizes p in
            case match_size_suffix sku of
              None \<Rightarrow> None
            | Some (base, sz) \<Rightarrow>
                if length sizes \<noteq> 1 \<or> py_upper sz \<noteq> hd sizes then None
                else Some (sku, base, hd sizes)))"

fun collect_candidates ::
  "(string \<times> (string \<times> string \<times> string) list) list \<Rightarrow> product list
   \<Rightarrow> (string \<times> (string \<times> string \<times> string) list) list" where
  "collect_candidates cand [] = cand"
| "collect_candidates cand (p # ps) =
     (case derived_candidate p of
        None \<Rightarrow> collect_candidates cand ps
      | Some (sku, base, sz) \<Rightarrow>
          (let k = py_lower base in
           collect_candidates (AList.update k (dget cand k [] @ [(sku, base, sz)]) cand) ps))"

definition confirm_group ::
  "(string \<times> string \<times> string) list \<Rightarrow> (string \<times> string) list \<Rightarrow> (string \<times> string) list" where
  "confirm_group rows confirmed =
     (if card (set (map fst rows)) < 2 \<or> card (set (map (\<lambda>r. snd (snd r)) rows)) < 2
      then confirmed
      else fold (\<lambda>r acc. AList.update (fst r) (fst (snd (hd rows))) acc) rows confirmed)"

definition get_confirmed_derived_product_skus :: "product list \<Rightarrow> (string \<times> string) list" where
  "get_confirmed_derived_product_skus ps =
     fold (\<lambda>e acc. confirm_group (snd e) acc) (collect_candidates [] ps) []"

section \<open>Grouping\<close>

record variant =
  v_sku :: string
  v_parent_sku :: string
  v_name :: string
  v_brand :: string
  v_size :: string
  v_sizes :: "string list"
  v_price :: rat
  v_stock :: int
  v_in_stock :: bool
  v_image :: string

record group_entry =
  g_sku :: string
  g_parent_sku :: string
  g_name :: string
  g_brand :: string
  g_category :: string
  g_description :: string
  g_stock :: int
  g_image :: string
  g_variants :: "variant list"
  g_size_skus :: "(string \<times> string) list"
  g_size_set :: "string list"
  g_price_set :: "rat list"

definition catalog_group_key :: "product \<Rightarrow> (string \<times> string) list \<Rightarrow> string" where
  "catalog_group_key p derived =
     (let parent = py_strip (p_parent_sku p); sku = py_strip (p_sku p) in
      if parent \<noteq> [] then py_lower parent
      else if sku \<noteq> [] then py_lower (dget derived sku sku)
      else join_with ''|'' [py_lower (py_strip (p_brand p)), py_lower (py_strip (p_name p)),
                            py_lower (py_strip (p_category p))])"

definition first_nonempty :: "string list \<Rightarrow> string" where
  "first_nonempty xs = (case filter (\<lambda>s. s \<noteq> []) xs of [] \<Rightarrow> [] | s # _ \<Rightarrow> s)"

definition group_parent_sku :: "(string \<times> string) list \<Rightarrow> product \<Rightarrow> string" where
  "group_parent_sku derived p =
     first_nonempty [py_strip (p_parent_sku p), dget derived (py_strip (p_sku p)) [],
                     py_strip (p_sku p)]"

definition new_group_entry :: "(string \<times> string) list \<Rightarrow> product \<Rightarrow> group_entry" where
  "new_group_entry derived p =
     (let parent = group_parent_sku derived p; sku = py_strip (p_sku p) in
      \<lparr>g_sku = (if parent \<noteq> [] then parent else sku),
       g_parent_sku = (if parent \<noteq> [] then parent else sku),
       g_name = py_strip (p_name p), g_brand = py_strip (p_brand p),
       g_category = py_strip (p_category p), g_description = py_strip (p_description p),
       g_stock = 0, g_image = py_strip (p_image p), g_variants = [], g_size_skus = [],
       g_size_set = [], g_price_set = []\<rparr>)"

definition make_variant :: "(string \<times> string) list \<Rightarrow> product \<Rightarrow> variant" where
  "make_variant derived p =
     (let sizes = get_product_sizes p in
      \<lparr>v_sku = py_strip (p_sku p), v_parent_sku = group_parent_sku derived p,
       v_name = py_strip (p_name p), v_brand = py_strip (p_brand p),
       v_size = (if length sizes = 1 then hd sizes else []), v_sizes = sizes,
       v_price = p_price p, v_stock = p_stock p, v_in_stock = (0 < p_stock p),
       v_image = py_strip (p_image p)\<rparr>)"

definition setdefault :: "'k \<Rightarrow> 'v \<Rightarrow> ('k \<times> 'v) list \<Rightarrow> ('k \<times> 'v) list" where
  "setdefault k v d = (case map_of d k of None \<Rightarrow> d @ [(k, v)] | Some _ \<Rightarrow> d)"

definition add_to_entry :: "(string \<times> string) list \<Rightarrow> product \<Rightarrow> group_entry \<Rightarrow> group_entry" where
  "add_to_entry derived p e =
     (let sizes = get_product_sizes p; sku = py_strip (p_sku p) in
      e\<lparr>g_stock := g_stock e + max (p_stock p) 0,
        g_price_set := List.insert (p_price p) (g_price_set e),
        g_brand := (if g_brand e = [] \<and> p_brand p \<noteq> [] then py_strip (p_brand p) else g_brand e),
        g_image := (if g_image e = [] \<and> p_image p \<noteq> [] then py_strip (p_image p) else g_image e),
        g_size_set := dedupe (g_size_set e @ sizes),
        g_variants := g_variants e @ [make_variant derived p],
        g_size_skus := (if sku \<noteq> [] then fold (\<lambda>s d. setdefault s sku d) sizes (g_size_skus e)
                        else g_size_skus e)\<rparr>)"

definition group_step ::
  "(string \<times> string) list \<Rightarrow> product \<Rightarrow> (string \<times> group_entry) list
   \<Rightarrow> (string \<times> group_entry) list" where
  "group_step derived p d =
     (let k = catalog_group_key p derived in
      AList.update k (add_to_entry derived p (dget d k (new_group_entry derived p))) d)"

record catalog_group =
  cg_entry :: group_entry
  cg_sizes :: string
  cg_price :: "rat option"
  cg_price_min :: "rat option"
  cg_price_max :: "rat option"
  cg_has_variant_prices :: bool
  cg_variants :: "variant list"

definition finish_group :: "group_entry \<Rightarrow> catalog_group" where
  "finish_group e =
     (let prices = sort (g_price_set e) in
      \<lparr>cg_entry = e,
       cg_sizes = join_with '','' (sort_key size_sort_key (g_size_set e)),
       cg_price = (if length prices = 1 then Some (hd prices) else None),
       cg_price_min = (if prices = [] then None else Some (hd prices)),
       cg_price_max = (if prices = [] then None else Some (last prices)),
       cg_has_variant_prices = (1 < length prices),
       cg_variants = sort_key (\<lambda>v. size_sort_key (v_size v)) (g_variants e)\<rparr>)"

definition group_catalog_products :: "product list \<Rightarrow> catalog_group list" where
  "group_catalog_products ps =
     (let derived = get_confirmed_derived_product_skus ps;
          grouped = fold (group_step derived) ps [] in
      sort_key (\<lambda>g. (py_lower (g_category (cg_entry g)), py_lower (g_brand (cg_entry g)),
                     py_lower (g_name (cg_entry g))))
               (map (\<lambda>e. finish_group (snd e)) grouped))"

definition count_grouped_catalog_products :: "product list \<Rightarrow> nat" where
  "count_grouped_catalog_products ps = length (group_catalog_products ps)"

end
