(* ===== verification/Inventory.thy ===== *)
theory Inventory
  imports Catalog
begin

text \<open>
  Stock mutations of \<open>store/app/catalog/sheets.py\<close>: the inventory sheet, the ledger worksheet
  that records every applied operation under its operation id, the process-local copy of the
  ledger, and \<open>_update_stock\<close> with its callers. Google Sheets is the record \<open>sheets\<close>; a
  call to it that fails is named by the \<open>inv_fault\<close> of the run, and a batch update may fail
  without having been applied (\<open>F_commit_lost\<close>) or after it was (\<open>F_commit_unknown\<close>).
\<close>

section \<open>State\<close>

datatype inv_error = InventoryUpdateError string | InvValueError string

record ledger_row =
  l_op :: pyval
  l_type :: pyval
  l_sku :: pyval
  l_qty :: pyval
  l_before :: pyval
  l_after :: pyval
  l_created :: pyval

record ledger_ws =
  lw_headers :: "string list"
  lw_rows :: "ledger_row list"
  lw_row_count :: int

record sheets =
  sh_id :: string
  sh_headers :: "string list"
  sh_rows :: "py_dict list"
  sh_ledger :: "ledger_ws option"

record inv_world =
  w_sheets :: sheets
  w_cache :: "(string \<times> ledger_row list \<times> nat) list"
  w_catalog :: catalog_state

datatype inv_fault =
    F_none | F_open | F_ledger_open | F_ledger_create | F_ledger_headers | F_ledger_records
  | F_rows | F_headers | F_capacity | F_commit_lost | F_commit_unknown

text \<open>What a call sees of the outside: the fault of this run, the clocks, and the answer of the
  catalog refresh, which reads the rows as the sheet then holds them.\<close>

record inv_env =
  env_fault :: inv_fault
  env_created_at :: string
  env_clock :: int
  env_time :: int
  env_refresh :: "py_dict list \<Rightarrow> sheet_fetch"
  env_image :: "pyval \<Rightarrow> string"

definition ledger_headers :: "string list" where
  "ledger_headers = [''Operation ID'', ''Type'', ''SKU'', ''Quantity'', ''Stock Before'',
                     ''Stock After'', ''Created At'']"

definition sheets_failed :: "inv_error" where
  "sheets_failed = InventoryUpdateError ''Google Sheets inventory update failed''"

definition lookup_failed :: "inv_error" where
  "lookup_failed = InventoryUpdateError ''Google Sheets inventory ledger lookup failed''"

definition refresh_forced :: "inv_env \<Rightarrow> inv_world \<Rightarrow> inv_world" where
  "refresh_forced env w =
     w\<lparr>w_catalog := snd (refresh_catalog (env_image env) True (env_clock env) (env_time env)
        (env_refresh env (sh_rows (w_sheets w))) (w_catalog w) (w_catalog w))\<rparr>"

section \<open>The ledger worksheet and its cached copy\<close>

definition get_or_create_inventory_ledger ::
  "inv_env \<Rightarrow> inv_world \<Rightarrow> (inv_error + ledger_ws) \<times> inv_world" where
  "get_or_create_inventory_ledger env w =
     (let sh = w_sheets w in
      if env_fault env = F_ledger_open then (Inl sheets_failed, w)
      else (case sh_ledger sh of
        None \<Rightarrow>
          (if env_fault env = F_ledger_create then (Inl sheets_failed, w)
           else if env_fault env = F_ledger_headers
           then (Inl sheets_failed,
                 w\<lparr>w_sheets := sh\<lparr>sh_ledger := Some \<lparr>lw_headers = [], lw_rows = [],
                                                     lw_row_count = 1000\<rparr>\<rparr>\<rparr>)
           else (let ws = \<lparr>lw_headers = ledger_headers, lw_rows = [], lw_row_count = 1000\<rparr> in
                 (Inr ws, w\<lparr>w_sheets := sh\<lparr>sh_ledger := Some ws\<rparr>,
                            w_cache := AList.update (sh_id sh) ([], 2) (w_cache w)\<rparr>)))
      | Some ws \<Rightarrow>
          (let headers = map py_strip (lw_headers ws) in
           if env_fault env = F_ledger_headers then (Inl sheets_failed, w)
           else if list_all (\<lambda>h. h = []) headers
           then (let ws' = ws\<lparr>lw_headers := ledger_headers\<rparr> in
                 (Inr ws', w\<lparr>w_sheets := sh\<lparr>sh_ledger := Some ws'\<rparr>\<rparr>))
           else if take (length ledger_headers) headers \<noteq> ledger_headers
           then (Inl (InventoryUpdateError ''Inventory ledger worksheet has unexpected headers''), w)
           else (Inr ws, w))))"

definition cached_inventory_ledger_records ::
  "inv_env \<Rightarrow> bool \<Rightarrow> ledger_ws \<Rightarrow> inv_world \<Rightarrow> (ledger_row list \<times> nat) option \<times> inv_world" where
  "cached_inventory_ledger_records env force_reload ws w =
     (let key = sh_id (w_sheets w) in
      case (if force_reload then None else map_of (w_cache w) key) of
        Some cached \<Rightarrow> (Some cached, w)
      | None \<Rightarrow>
          (if env_fault env = F_ledger_records then (None, w)
           else (let cached = (lw_rows ws, length (lw_rows ws) + 2) in
                 (Some cached, w\<lparr>w_cache := AList.update key cached (w_cache w)\<rparr>))))"

definition append_cached_ledger_rows :: "ledger_row list \<Rightarrow> inv_world \<Rightarrow> inv_world" where
  "append_cached_ledger_rows rows w =
     (let key = sh_id (w_sheets w) in
      case map_of (w_cache w) key of
        None \<Rightarrow> w
      | Some (records, next_row) \<Rightarrow>
          w\<lparr>w_cache := AList.update key (records @ rows, next_row + length rows) (w_cache w)\<rparr>)"

definition ensure_ledger_capacity :: "int \<Rightarrow> ledger_ws \<Rightarrow> ledger_ws" where
  "ensure_ledger_capacity last_row ws =
     (if last_row > lw_row_count ws
      then ws\<lparr>lw_row_count := lw_row_count ws + max (last_row - lw_row_count ws) 1000\<rparr> else ws)"

definition read_inventory_ledger ::
  "inv_env \<Rightarrow> bool \<Rightarrow> inv_world \<Rightarrow> (inv_error + ledger_row list) \<times> inv_world" where
  "read_inventory_ledger env force_reload w =
     (if env_fault env = F_ledger_open then (Inl lookup_failed, w)
      else (case sh_ledger (w_sheets w) of
        None \<Rightarrow> (Inr [], w)
      | Some ws \<Rightarrow>
          (let headers = map py_strip (lw_headers ws) in
           if env_fault env = F_ledger_headers then (Inl lookup_failed, w)
           else if list_all (\<lambda>h. h = []) headers then (Inr [], w)
           else if take (length ledger_headers) headers \<noteq> ledger_headers
           then (Inl (InventoryUpdateError ''Inventory ledger worksheet has unexpected headers''), w)
           else (case cached_inventory_ledger_records env force_reload ws w of
                   (None, w') \<Rightarrow> (Inl lookup_failed, w')
                 | (Some (records, _), w') \<Rightarrow> (Inr records, w')))))"

definition ledger_operation_rows :: "ledger_row list \<Rightarrow> string \<Rightarrow> ledger_row list" where
  "ledger_operation_rows records op_id = filter (\<lambda>r. py_strip (str_or_empty (l_op r)) = op_id) records"

definition operation_type :: "int \<Rightarrow> string" where
  "operation_type direction = (if direction = - 1 then ''deduct'' else ''restore'')"

fun validate_rows ::
  "ledger_row list \<Rightarrow> (string \<times> int) list \<Rightarrow> string \<Rightarrow> (string \<times> int) list
   \<Rightarrow> inv_error + (string \<times> int) list" where
  "validate_rows [] requested ty applied = Inr applied"
| "validate_rows (r # rs) requested ty applied =
     (let sku = py_strip (str_or_empty (l_sku r)); qty = safe_int (l_qty r) in
      if py_strip (str_or_empty (l_type r)) \<noteq> ty \<or> map_of requested sku \<noteq> Some qty
      then Inl (InventoryUpdateError ''Inventory operation does not match the requested mutation'')
      else validate_rows rs requested ty (AList.update sku (safe_int (l_after r)) applied))"

definition validate_existing_inventory_operation ::
  "ledger_row list \<Rightarrow> (string \<times> int) list \<Rightarrow> int \<Rightarrow> inv_error + (string \<times> int) list" where
  "validate_existing_inventory_operation rows requested direction =
     (if length rows \<noteq> length requested
      then Inl (InventoryUpdateError ''Inventory operation has an incomplete ledger entry'')
      else (case validate_rows rows requested (operation_type direction) [] of
              Inl e \<Rightarrow> Inl e
            | Inr applied \<Rightarrow>
                if fst ` set applied \<noteq> fst ` set requested
                then Inl (InventoryUpdateError ''Inventory operation is missing one or more SKUs'')
                else Inr applied))"

section \<open>Requests and plans\<close>

definition item_sku :: "py_dict \<Rightarrow> string" where
  "item_sku item = py_strip (str_or_empty (dget item ''sku'' PNone))"

fun build_request_from ::
  "(string \<times> int) list \<Rightarrow> py_dict list \<Rightarrow> inv_error + (string \<times> int) list" where
  "build_request_from requested [] = Inr requested"
| "build_request_from requested (item # items) =
     (let sku = item_sku item in
      case py_int (dget item ''quantity'' (PInt 1)) of
        Inl _ \<Rightarrow> Inl (InventoryUpdateError ''Invalid inventory quantity'')
      | Inr quantity \<Rightarrow>
          if sku = [] \<or> quantity \<le> 0
          then Inl (InventoryUpdateError ''Every inventory item requires a SKU and positive quantity'')
          else build_request_from
                 (AList.update sku (dget requested sku 0 + quantity) requested) items)"

definition build_inventory_request :: "py_dict list \<Rightarrow> inv_error + (string \<times> int) list" where
  "build_inventory_request items = build_request_from [] items"

definition row_sku :: "py_dict \<Rightarrow> string" where
  "row_sku record = py_strip (py_str (dget record ''SKU'' (PStr '''')))"

fun index_rows ::
  "nat \<Rightarrow> (string \<times> nat) list \<Rightarrow> py_dict list \<Rightarrow> inv_error + (string \<times> nat) list" where
  "index_rows i acc [] = Inr acc"
| "index_rows i acc (record # records) =
     (let sku = row_sku record in
      if sku = [] then index_rows (Suc i) acc records
      else if map_of acc sku \<noteq> None
      then Inl (InventoryUpdateError ''Duplicate SKU found in Google Sheets'')
      else index_rows (Suc i) (acc @ [(sku, i)]) records)"

definition expected_price :: "py_dict list \<Rightarrow> string \<Rightarrow> rat option" where
  "expected_price items sku =
     (case filter (\<lambda>it. item_sku it = sku \<and> dget it ''unit_price'' PNone \<noteq> PNone) items of
        [] \<Rightarrow> None
      | it # _ \<Rightarrow> safe_float (dget it ''unit_price'' PNone))"

definition deduct_check :: "py_dict list \<Rightarrow> string \<Rightarrow> py_dict \<Rightarrow> inv_error option" where
  "deduct_check items sku record =
     (if py_lower (py_strip (py_str (dget record ''Active'' (PStr '''')))) \<noteq> ''yes''
      then Some (InventoryUpdateError ''SKU is not active in Google Sheets'')
      else (case expected_price items sku of
              None \<Rightarrow> None
            | Some ep \<Rightarrow>
                (case safe_float (dget record ''Price USD'' PNone) of
                   None \<Rightarrow> Some (InventoryUpdateError ''SKU price changed or is invalid'')
                 | Some cp \<Rightarrow> if abs (cp - ep) > 1 / 100
                              then Some (InventoryUpdateError ''SKU price changed or is invalid'')
                              else None)))"

record stock_move =
  m_sku :: string
  m_row :: nat
  m_qty :: int
  m_before :: int
  m_after :: int

fun plan_moves ::
  "int \<Rightarrow> py_dict list \<Rightarrow> py_dict list \<Rightarrow> (string \<times> nat) list \<Rightarrow> (string \<times> int) list
   \<Rightarrow> inv_error + stock_move list" where
  "plan_moves direction items rows idx [] = Inr []"
| "plan_moves direction items rows idx ((sku, quantity) # rest) =
     (case map_of idx sku of
        None \<Rightarrow> Inl (InventoryUpdateError ''SKU was not found in Google Sheets'')
      | Some i \<Rightarrow>
          (let record = rows ! i;
               current = safe_int (dget record ''Stock'' (PInt 0));
               updated = current + direction * quantity in
           case (if direction = - 1 then deduct_check items sku record else None) of
             Some e \<Rightarrow> Inl e
           | None \<Rightarrow>
               if updated < 0 then Inl (InventoryUpdateError ''Insufficient stock'')
               else (case plan_moves direction items rows idx rest of
                       Inl e \<Rightarrow> Inl e
                     | Inr ms \<Rightarrow> Inr (\<lparr>m_sku = sku, m_row = i, m_qty = quantity,
                                       m_before = current, m_after = updated\<rparr> # ms))))"

definition move_ledger_row :: "string \<Rightarrow> int \<Rightarrow> string \<Rightarrow> stock_move \<Rightarrow> ledger_row" where
  "move_ledger_row op_id direction created m =
     \<lparr>l_op = PStr op_id, l_type = PStr (operation_type direction), l_sku = PStr (m_sku m),
      l_qty = PInt (m_qty m), l_before = PInt (m_before m), l_after = PInt (m_after m),
      l_created = PStr created\<rparr>"

definition write_stock :: "string \<Rightarrow> stock_move list \<Rightarrow> py_dict list \<Rightarrow> py_dict list" where
  "write_stock col moves rows =
     fold (\<lambda>m rs. rs[m_row m := AList.update col (PInt (m_after m)) (rs ! m_row m)]) moves rows"

definition blank_ledger_row :: ledger_row where
  "blank_ledger_row = \<lparr>l_op = PStr '''', l_type = PStr '''', l_sku = PStr '''', l_qty = PStr '''',
     l_before = PStr '''', l_after = PStr '''', l_created = PStr ''''\<rparr>"

text \<open>Writing \<open>new\<close> over the rows from position \<open>k\<close> on, as a range update does.\<close>

definition write_at :: "nat \<Rightarrow> ledger_row list \<Rightarrow> ledger_row list \<Rightarrow> ledger_row list" where
  "write_at k new rows =
     take k rows @ replicate (k - length rows) blank_ledger_row @ new @ drop (k + length new) rows"

definition stock_column :: "string list \<Rightarrow> string option" where
  "stock_column headers = find (\<lambda>h. py_strip h = ''Stock'') headers"

section \<open>Stock updates\<close>

text \<open>The batch update itself: the stock cells and, with an operation id, the ledger rows in one
  request, from the row the local copy says is next.\<close>

definition commit_moves ::
  "inv_env \<Rightarrow> string option \<Rightarrow> int \<Rightarrow> string \<Rightarrow> nat \<Rightarrow> stock_move list \<Rightarrow> inv_world
   \<Rightarrow> (inv_error + (string \<times> int) list) \<times> inv_world" where
  "commit_moves env op_id direction col next_row moves w =
     (let sh = w_sheets w;
          new_stock = map (\<lambda>m. (m_sku m, m_after m)) moves;
          rows' = write_stock col moves (sh_rows sh) in
      if moves = [] then (Inr new_stock, refresh_forced env w)
      else (case op_id of
        None \<Rightarrow>
          (if env_fault env = F_commit_lost then (Inl sheets_failed, w)
           else (let w' = w\<lparr>w_sheets := sh\<lparr>sh_rows := rows'\<rparr>\<rparr> in
                 if env_fault env = F_commit_unknown then (Inl sheets_failed, w')
                 else (Inr new_stock, refresh_forced env w')))
      | Some opid \<Rightarrow>
          (let values = map (move_ledger_row opid direction (env_created_at env)) moves;
               last_row = int next_row + int (length values) - 1 in
           case sh_ledger sh of
             None \<Rightarrow> (Inl sheets_failed, w)
           | Some ws0 \<Rightarrow>
              (if last_row > lw_row_count ws0 \<and> env_fault env = F_capacity then (Inl sheets_failed, w)
               else (let ws = ensure_ledger_capacity last_row ws0;
                         w1 = w\<lparr>w_sheets := sh\<lparr>sh_ledger := Some ws\<rparr>\<rparr> in
                 if env_fault env = F_commit_lost then (Inl sheets_failed, w1)
                 else (let ws' = ws\<lparr>lw_rows := write_at (next_row - 2) values (lw_rows ws)\<rparr>;
                           w2 = w\<lparr>w_sheets := sh\<lparr>sh_rows := rows', sh_ledger := Some ws'\<rparr>\<rparr> in
                       if env_fault env = F_commit_unknown then (Inl sheets_failed, w2)
                       else (Inr new_stock,
                             refresh_forced env (append_cached_ledger_rows values w2))))))))"

definition mutate_stock ::
  "inv_env \<Rightarrow> py_dict list \<Rightarrow> (string \<times> int) list \<Rightarrow> int \<Rightarrow> string option \<Rightarrow> nat \<Rightarrow> inv_world
   \<Rightarrow> (inv_error + (string \<times> int) list) \<times> inv_world" where
  "mutate_stock env items requested direction op_id next_row w =
     (let sh = w_sheets w in
      if env_fault env = F_rows then (Inl sheets_failed, w)
      else if env_fault env = F_headers then (Inl sheets_failed, w)
      else (case stock_column (sh_headers sh) of
        None \<Rightarrow> (Inl (InventoryUpdateError ''Stock column not found in Google Sheets''), w)
      | Some col \<Rightarrow>
          (case index_rows 0 [] (sh_rows sh) of
             Inl e \<Rightarrow> (Inl e, w)
           | Inr idx \<Rightarrow>
               (case plan_moves direction items (sh_rows sh) idx requested of
                  Inl e \<Rightarrow> (Inl e, w)
                | Inr moves \<Rightarrow> commit_moves env op_id direction col next_row moves w))))"

definition update_stock ::
  "inv_env \<Rightarrow> py_dict list \<Rightarrow> int \<Rightarrow> string option \<Rightarrow> inv_world
   \<Rightarrow> (inv_error + (string \<times> int) list) \<times> inv_world" where
  "update_stock env items direction op_id w =
     (if direction \<notin> {- 1, 1}
      then (Inl (InvValueError ''Inventory direction must be -1 or 1''), w)
      else (case build_inventory_request items of
        Inl e \<Rightarrow> (Inl e, w)
      | Inr requested \<Rightarrow>
          (if env_fault env = F_open then (Inl sheets_failed, w)
           else (case op_id of
             None \<Rightarrow> mutate_stock env items requested direction None 0 w
           | Some opid \<Rightarrow>
               (if opid = [] then mutate_stock env items requested direction None 0 w
                else (case get_or_create_inventory_ledger env w of
                  (Inl e, w1) \<Rightarrow> (Inl e, w1)
                | (Inr ws, w1) \<Rightarrow>
                    (case cached_inventory_ledger_records env False ws w1 of
                       (None, w2) \<Rightarrow> (Inl sheets_failed, w2)
                     | (Some (records, next_row), w2) \<Rightarrow>
                         (let existing = ledger_operation_rows records opid in
                          if existing \<noteq> []
                          then (validate_existing_inventory_operation existing requested direction,
                                refresh_forced env w2)
                          else mutate_stock env items requested direction (Some opid) next_row w2))))))))"

definition inventory_operation_applied ::
  "inv_env \<Rightarrow> string \<Rightarrow> py_dict list \<Rightarrow> int \<Rightarrow> inv_world \<Rightarrow> (inv_error + bool) \<times> inv_world" where
  "inventory_operation_applied env operation_id items direction w =
     (let opid = py_strip operation_id in
      if opid = [] then (Inr False, w)
      else if direction \<notin> {- 1, 1}
      then (Inl (InvValueError ''Inventory direction must be -1 or 1''), w)
      else (case build_inventory_request items of
        Inl e \<Rightarrow> (Inl e, w)
      | Inr requested \<Rightarrow>
          (if env_fault env = F_open then (Inl lookup_failed, w)
           else (case read_inventory_ledger env True w of
             (Inl e, w') \<Rightarrow> (Inl e, w')
           | (Inr records, w') \<Rightarrow>
               (let rows = ledger_operation_rows records opid in
                if rows = [] then (Inr False, w')
                else (case validate_existing_inventory_operation rows requested direction of
                        Inl e \<Rightarrow> (Inl e, w')
                      | Inr _ \<Rightarrow> (Inr True, w')))))))"

definition inventory_operation_exists ::
  "inv_env \<Rightarrow> string \<Rightarrow> inv_world \<Rightarrow> (inv_error + bool) \<times> inv_world" where
  "inventory_operation_exists env operation_id w =
     (let opid = py_strip operation_id in
      if opid = [] then (Inr False, w)
      else if env_fault env = F_open then (Inl lookup_failed, w)
      else (case read_inventory_ledger env True w of
              (Inl e, w') \<Rightarrow> (Inl e, w')
            | (Inr records, w') \<Rightarrow> (Inr (ledger_operation_rows records opid \<noteq> []), w')))"

definition deduct_stock ::
  "inv_env \<Rightarrow> py_dict list \<Rightarrow> string option \<Rightarrow> inv_world
   \<Rightarrow> (inv_error + (string \<times> int) list) \<times> inv_world" where
  "deduct_stock env items op_id w = update_stock env items (- 1) op_id w"

definition restore_stock ::
  "inv_env \<Rightarrow> py_dict list \<Rightarrow> string option \<Rightarrow> inv_world
   \<Rightarrow> (inv_error + (string \<times> int) list) \<times> inv_world" where
  "restore_stock env items op_id w = update_stock env items 1 op_id w"

section \<open>Requests, indexes and plans\<close>

definition item_qty :: "py_dict \<Rightarrow> int" where
  "item_qty item = (case py_int (dget item ''quantity'' (PInt 1)) of Inl _ \<Rightarrow> 0 | Inr q \<Rightarrow> q)"

definition good_request :: "(string \<times> int) list \<Rightarrow> bool" where
  "good_request req \<longleftrightarrow> distinct (map fst req) \<and> (\<forall>(s, q) \<in> set req. s \<noteq> [] \<and> py_strip s = s \<and> 0 < q)"

lemma good_request_update:
  assumes "good_request req" "s \<noteq> []" "py_strip s = s" "0 < q"
  shows "good_request (AList.update s q req)"
  using assms unfolding good_request_def
  by (induction req) (auto simp: dom_map_of_update split: if_splits)

lemma dget_nonneg: "good_request req \<Longrightarrow> 0 \<le> dget req s 0"
  by (force simp: good_request_def dget_def split: option.splits dest: map_of_SomeD)

lemma build_request_from_good:
  "build_request_from acc items = Inr req \<Longrightarrow> good_request acc \<Longrightarrow> good_request req"
proof (induction acc items rule: build_request_from.induct)
  case (2 acc item items)
  from "2.prems" obtain q where q: "py_int (dget item ''quantity'' (PInt 1)) = Inr q"
    "item_sku item \<noteq> []" "0 < q"
    and rec: "build_request_from (AList.update (item_sku item) (dget acc (item_sku item) 0 + q) acc) items
              = Inr req"
    by (auto simp: Let_def split: sum.splits if_splits)
  have "good_request (AList.update (item_sku item) (dget acc (item_sku item) 0 + q) acc)"
    using "2.prems"(2) q dget_nonneg[OF "2.prems"(2), of "item_sku item"]
    by (intro good_request_update) (auto simp: item_sku_def)
  with "2.IH"[of "item_sku item" q] q rec show ?case by auto
qed simp

lemma build_request_good: "build_inventory_request items = Inr req \<Longrightarrow> good_request req"
  unfolding build_inventory_request_def
  by (erule build_request_from_good) (simp add: good_request_def)

lemma build_request_from_sum:
  "build_request_from acc items = Inr req \<Longrightarrow>
   dget req s 0 = dget acc s 0 + sum_list (map item_qty (filter (\<lambda>it. item_sku it = s) items))"
proof (induction acc items rule: build_request_from.induct)
  case (2 acc item items)
  from "2.prems" obtain q where q: "py_int (dget item ''quantity'' (PInt 1)) = Inr q"
    "item_sku item \<noteq> []" "0 < q"
    and rec: "build_request_from (AList.update (item_sku item) (dget acc (item_sku item) 0 + q) acc) items
              = Inr req"
    by (auto simp: Let_def split: sum.splits if_splits)
  from "2.IH"[of "item_sku item" q] q rec
  have "dget req s 0 = dget (AList.update (item_sku item) (dget acc (item_sku item) 0 + q) acc) s 0
        + sum_list (map item_qty (filter (\<lambda>it. item_sku it = s) items))" by auto
  moreover have "item_qty item = q" using q by (simp add: item_qty_def)
  ultimately show ?case by (auto simp: dget_update)
qed simp

lemma build_request_from_keys:
  "build_request_from acc items = Inr req \<Longrightarrow> fst ` set req = fst ` set acc \<union> item_sku ` set items"
proof (induction acc items rule: build_request_from.induct)
  case (2 acc item items)
  from "2.prems" obtain q where q: "py_int (dget item ''quantity'' (PInt 1)) = Inr q"
    "item_sku item \<noteq> []" "0 < q"
    and rec: "build_request_from (AList.update (item_sku item) (dget acc (item_sku item) 0 + q) acc) items
              = Inr req"
    by (auto simp: Let_def split: sum.splits if_splits)
  from "2.IH"[of "item_sku item" q] q rec show ?case by (auto simp: dom_map_of_update)
qed simp

lemma index_rows_find:
  "index_rows k acc rows = Inr idx \<Longrightarrow> i < length rows \<Longrightarrow> row_sku (rows ! i) = s \<Longrightarrow> s \<noteq> [] \<Longrightarrow>
   map_of idx s = Some (k + i)"
proof (induction k acc rows arbitrary: i rule: index_rows.induct)
  case (2 k acc r rs)
  have keep: "index_rows k' acc' rs' = Inr idx \<Longrightarrow> map_of acc' s' = Some j \<Longrightarrow> map_of idx s' = Some j"
    for k' acc' rs' s' j
    by (induction k' acc' rs' rule: index_rows.induct)
      (auto simp: Let_def map_add_def split: if_splits option.splits)
  show ?case
  proof (cases i)
    case 0
    with "2.prems" show ?thesis
      by (auto simp: Let_def map_add_def split: if_splits option.splits intro: keep)
  next
    case (Suc j)
    with "2.prems" "2.IH" show ?thesis by (auto simp: Let_def split: if_splits)
  qed
qed simp

lemma index_rows_sound:
  "index_rows k acc rows = Inr idx \<Longrightarrow> map_of idx s = Some i \<Longrightarrow>
   map_of acc s = Some i \<or> (s \<noteq> [] \<and> k \<le> i \<and> i < k + length rows \<and> row_sku (rows ! (i - k)) = s)"
proof (induction k acc rows rule: index_rows.induct)
  case (2 k acc r rs)
  show ?case
  proof (cases "row_sku r = []")
    case True
    with "2.prems" have "map_of acc s = Some i \<or>
      (s \<noteq> [] \<and> Suc k \<le> i \<and> i < Suc k + length rs \<and> row_sku (rs ! (i - Suc k)) = s)"
      by (intro "2.IH"(1)) (auto simp: Let_def)
    then show ?thesis by (auto simp: nth_Cons')
  next
    case False
    with "2.prems" have "map_of (acc @ [(row_sku r, k)]) s = Some i \<or>
      (s \<noteq> [] \<and> Suc k \<le> i \<and> i < Suc k + length rs \<and> row_sku (rs ! (i - Suc k)) = s)"
      by (intro "2.IH"(2)) (auto simp: Let_def split: if_splits)
    with False show ?thesis
      by (auto simp: nth_Cons' map_add_def split: option.splits if_splits)
  qed
qed simp

lemma plan_moves_spec:
  "plan_moves d items rows idx req = Inr ms \<Longrightarrow>
   map (\<lambda>m. (m_sku m, m_qty m)) ms = req \<and>
   (\<forall>m \<in> set ms. map_of idx (m_sku m) = Some (m_row m)
      \<and> m_before m = safe_int (dget (rows ! m_row m) ''Stock'' (PInt 0))
      \<and> m_after m = m_before m + d * m_qty m \<and> 0 \<le> m_after m)"
proof (induction req arbitrary: ms)
  case (Cons r rest)
  obtain sku q where r: "r = (sku, q)" by (cases r)
  from Cons.prems r obtain i ms' where
    "map_of idx sku = Some i" "plan_moves d items rows idx rest = Inr ms'"
    "0 \<le> safe_int (dget (rows ! i) ''Stock'' (PInt 0)) + d * q"
    "ms = \<lparr>m_sku = sku, m_row = i, m_qty = q, m_before = safe_int (dget (rows ! i) ''Stock'' (PInt 0)),
           m_after = safe_int (dget (rows ! i) ''Stock'' (PInt 0)) + d * q\<rparr> # ms'"
    by (auto simp: Let_def not_less split: option.splits if_splits sum.splits)
  then show ?case using Cons.IH[of ms'] r by auto
qed simp


definition sheet_stock :: "py_dict list \<Rightarrow> string \<Rightarrow> int" where
  "sheet_stock rows s =
     (case find (\<lambda>r. row_sku r = s) rows of
        None \<Rightarrow> 0 | Some r \<Rightarrow> safe_int (dget r ''Stock'' (PInt 0)))"

definition unique_skus :: "py_dict list \<Rightarrow> bool" where
  "unique_skus rows \<longleftrightarrow> distinct (filter (\<lambda>s. s \<noteq> []) (map row_sku rows))"

lemma row_sku_update_stock [simp]: "row_sku (AList.update ''Stock'' v r) = row_sku r"
  by (simp add: row_sku_def dget_update)

lemma safe_int_PInt [simp]: "safe_int (PInt n) = n"
  by (simp add: safe_int_def)

lemma index_rows_fresh:
  "index_rows k acc rows = Inr idx \<Longrightarrow> map_of acc s \<noteq> None \<Longrightarrow> s \<noteq> [] \<Longrightarrow> s \<notin> row_sku ` set rows"
proof (induction k acc rows rule: index_rows.induct)
  case (2 k acc r rs)
  show ?case
  proof (cases "row_sku r = []")
    case True
    then show ?thesis using 2 by (auto simp: Let_def)
  next
    case False
    then have "s \<notin> row_sku ` set rs" using "2.prems"
      by (intro "2.IH"(2)) (auto simp: Let_def map_add_def split: if_splits option.splits)
    then show ?thesis using False "2.prems" by (auto simp: Let_def split: if_splits)
  qed
qed simp

lemma index_rows_unique: "index_rows k acc rows = Inr idx \<Longrightarrow> unique_skus rows"
proof (induction k acc rows rule: index_rows.induct)
  case (2 k acc r rs)
  show ?case
  proof (cases "row_sku r = []")
    case True
    then show ?thesis using 2 by (auto simp: Let_def unique_skus_def)
  next
    case False
    then have rec: "index_rows (Suc k) (acc @ [(row_sku r, k)]) rs = Inr idx" "map_of acc (row_sku r) = None"
      using "2.prems" by (auto simp: Let_def split: if_splits)
    then have "unique_skus rs" using "2.IH"(2) False by simp
    moreover have "row_sku r \<notin> row_sku ` set rs"
      using index_rows_fresh[OF rec(1), of "row_sku r"] False rec(2) by (simp add: map_add_def)
    ultimately show ?thesis using False by (auto simp: unique_skus_def)
  qed
qed (simp add: unique_skus_def)

lemma sheet_stock_Cons:
  "sheet_stock (r # rows) s =
     (if row_sku r = s then safe_int (dget r ''Stock'' (PInt 0)) else sheet_stock rows s)"
  by (simp add: sheet_stock_def)

lemma sheet_stock_nth:
  "unique_skus rows \<Longrightarrow> i < length rows \<Longrightarrow> row_sku (rows ! i) \<noteq> [] \<Longrightarrow>
   sheet_stock rows (row_sku (rows ! i)) = safe_int (dget (rows ! i) ''Stock'' (PInt 0))"
proof (induction rows arbitrary: i)
  case (Cons r rows)
  have "unique_skus rows" using Cons.prems(1) by (auto simp: unique_skus_def split: if_splits)
  then show ?case using Cons
    by (cases i) (auto simp: sheet_stock_Cons unique_skus_def split: if_splits)
qed simp

lemma sheet_stock_list_update:
  "unique_skus rows \<Longrightarrow> i < length rows \<Longrightarrow> row_sku (rows ! i) = s \<Longrightarrow> s \<noteq> [] \<Longrightarrow>
   sheet_stock (rows[i := AList.update ''Stock'' (PInt n) (rows ! i)]) t
   = (if t = s then n else sheet_stock rows t)"
proof (induction rows arbitrary: i)
  case (Cons r rows)
  have "unique_skus rows" using Cons.prems(1) by (auto simp: unique_skus_def split: if_splits)
  then show ?case using Cons
    by (cases i) (auto simp: sheet_stock_Cons unique_skus_def dget_update split: if_splits)
qed simp

lemma map_row_sku_list_update:
  "i < length rows \<Longrightarrow>
   map row_sku (rows[i := AList.update ''Stock'' v (rows ! i)]) = map row_sku rows"
  by (simp add: map_update list_update_same_conv)

lemma write_stock_Cons:
  "write_stock col (m # ms) rows =
   write_stock col ms (rows[m_row m := AList.update col (PInt (m_after m)) (rows ! m_row m)])"
  by (simp add: write_stock_def)

lemma write_stock_spec:
  assumes "unique_skus rows" "distinct (map m_sku ms)"
    and "\<forall>m \<in> set ms. m_row m < length rows \<and> row_sku (rows ! m_row m) = m_sku m \<and> m_sku m \<noteq> []"
  shows "sheet_stock (write_stock ''Stock'' ms rows) t =
           (case map_of (map (\<lambda>m. (m_sku m, m_after m)) ms) t of
              None \<Rightarrow> sheet_stock rows t | Some n \<Rightarrow> n)
         \<and> map row_sku (write_stock ''Stock'' ms rows) = map row_sku rows"
  using assms
proof (induction ms arbitrary: rows)
  case (Cons m ms)
  let ?rows = "rows[m_row m := AList.update ''Stock'' (PInt (m_after m)) (rows ! m_row m)]"
  have m: "m_row m < length rows" "row_sku (rows ! m_row m) = m_sku m" "m_sku m \<noteq> []"
    using Cons.prems(3) by auto
  have skus: "map row_sku ?rows = map row_sku rows" using m(1) by (rule map_row_sku_list_update)
  then have u: "unique_skus ?rows" using Cons.prems(1) by (simp add: unique_skus_def)
  have "\<forall>x \<in> set ms. m_row x < length ?rows \<and> row_sku (?rows ! m_row x) = m_sku x \<and> m_sku x \<noteq> []"
    using Cons.prems(3) skus by (metis length_list_update list.set_intros(2) nth_map)
  from Cons.IH[OF u _ this] Cons.prems(2) skus
  have "sheet_stock (write_stock ''Stock'' ms ?rows) t =
           (case map_of (map (\<lambda>m. (m_sku m, m_after m)) ms) t of
              None \<Rightarrow> sheet_stock ?rows t | Some n \<Rightarrow> n)
         \<and> map row_sku (write_stock ''Stock'' ms ?rows) = map row_sku rows" by simp
  moreover have "m_sku m = t \<Longrightarrow> map_of (map (\<lambda>m. (m_sku m, m_after m)) ms) t = None"
    using Cons.prems(2) by (force simp: map_of_eq_None_iff)
  ultimately show ?case
    using sheet_stock_list_update[OF Cons.prems(1) m, of "m_after m" t]
    by (auto simp: write_stock_Cons split: option.splits)
qed (simp add: write_stock_def)

text \<open>What a planned and written batch does to the stock of each SKU.\<close>

lemma planned_moves_wf:
  assumes idx: "index_rows 0 [] rows = Inr idx"
    and plan: "plan_moves d items rows idx req = Inr ms"
    and req: "good_request req"
  shows "distinct (map m_sku ms)"
    and "\<forall>m \<in> set ms. m_row m < length rows \<and> row_sku (rows ! m_row m) = m_sku m \<and> m_sku m \<noteq> []"
    and "\<forall>m \<in> set ms. m_before m = sheet_stock rows (m_sku m)"
proof -
  note spec = plan_moves_spec[OF plan]
  have "map m_sku ms = map fst req" using spec by (auto simp: comp_def)
  then show "distinct (map m_sku ms)" using req by (simp add: good_request_def)
  show wf: "\<forall>m \<in> set ms. m_row m < length rows \<and> row_sku (rows ! m_row m) = m_sku m \<and> m_sku m \<noteq> []"
    using spec index_rows_sound[OF idx] by fastforce
  show "\<forall>m \<in> set ms. m_before m = sheet_stock rows (m_sku m)"
  proof
    fix m assume m: "m \<in> set ms"
    then have "m_before m = safe_int (dget (rows ! m_row m) ''Stock'' (PInt 0))" using spec by blast
    then show "m_before m = sheet_stock rows (m_sku m)"
      using sheet_stock_nth[OF index_rows_unique[OF idx], of "m_row m"] wf m by simp
  qed
qed

lemma write_stock_effect:
  assumes idx: "index_rows 0 [] rows = Inr idx"
    and plan: "plan_moves d items rows idx req = Inr ms"
    and req: "good_request req"
  shows "sheet_stock (write_stock ''Stock'' ms rows) s = sheet_stock rows s + d * dget req s 0"
    and "map row_sku (write_stock ''Stock'' ms rows) = map row_sku rows"
    and "s \<in> fst ` set req \<Longrightarrow> 0 \<le> sheet_stock (write_stock ''Stock'' ms rows) s"
proof -
  note wf = planned_moves_wf[OF assms]
  note w = write_stock_spec[OF index_rows_unique[OF idx] wf(1,2)]
  note spec = plan_moves_spec[OF plan]
  have gen: "map_of (map (\<lambda>m. (m_sku m, m_after m)) ms) s
      = map_option (\<lambda>q. sheet_stock rows s + d * q) (map_of (map (\<lambda>m. (m_sku m, m_qty m)) ms) s)"
    if "\<forall>m \<in> set ms. m_after m = sheet_stock rows (m_sku m) + d * m_qty m" for ms s
    using that by (induction ms) auto
  have h1: "\<forall>m \<in> set ms. m_after m = sheet_stock rows (m_sku m) + d * m_qty m"
  proof
    fix m assume "m \<in> set ms"
    then have "m_after m = m_before m + d * m_qty m" "m_before m = sheet_stock rows (m_sku m)"
      using spec wf(3) by blast+
    then show "m_after m = sheet_stock rows (m_sku m) + d * m_qty m" by simp
  qed
  have h2: "map (\<lambda>m. (m_sku m, m_qty m)) ms = req" using spec by blast
  have af: "map_of (map (\<lambda>m. (m_sku m, m_after m)) ms) s
      = map_option (\<lambda>q. sheet_stock rows s + d * q) (map_of req s)"
    using gen[OF h1] by (simp add: h2)
  show "sheet_stock (write_stock ''Stock'' ms rows) s = sheet_stock rows s + d * dget req s 0"
    using w[of s] af by (auto simp: dget_def split: option.splits)
  show "map row_sku (write_stock ''Stock'' ms rows) = map row_sku rows" using w by blast
  assume "s \<in> fst ` set req"
  then obtain m where m: "m \<in> set ms" "m_sku m = s" using spec by force
  then have "map_of (map (\<lambda>m. (m_sku m, m_after m)) ms) s = Some (m_after m)"
    using map_of_key_image[OF wf(1) m(1)] by simp
  then have "sheet_stock (write_stock ''Stock'' ms rows) s = m_after m" using w[of s] by simp
  moreover have "0 \<le> m_after m" using spec m(1) by blast
  ultimately show "0 \<le> sheet_stock (write_stock ''Stock'' ms rows) s" by simp
qed

section \<open>The ledger and its local copy\<close>

definition ledger_rows :: "inv_world \<Rightarrow> ledger_row list" where
  "ledger_rows w = (case sh_ledger (w_sheets w) of None \<Rightarrow> [] | Some ws \<Rightarrow> lw_rows ws)"

definition cache_coherent :: "inv_world \<Rightarrow> bool" where
  "cache_coherent w \<longleftrightarrow>
     map_of (w_cache w) (sh_id (w_sheets w)) \<in>
       {None, Some (ledger_rows w, length (ledger_rows w) + 2)}"

definition same_store :: "inv_world \<Rightarrow> inv_world \<Rightarrow> bool" where
  "same_store w w' \<longleftrightarrow> sh_rows (w_sheets w') = sh_rows (w_sheets w) \<and> ledger_rows w' = ledger_rows w
     \<and> sh_headers (w_sheets w') = sh_headers (w_sheets w) \<and> sh_id (w_sheets w') = sh_id (w_sheets w)"

lemma same_store_refl [simp]: "same_store w w"
  by (simp add: same_store_def)

lemma same_store_trans [trans]: "same_store a b \<Longrightarrow> same_store b c \<Longrightarrow> same_store a c"
  by (simp add: same_store_def)

lemma refresh_forced_sheets [simp]:
  "w_sheets (refresh_forced env w) = w_sheets w" "w_cache (refresh_forced env w) = w_cache w"
  by (simp_all add: refresh_forced_def)

lemma refresh_forced_same [simp]:
  "same_store w (refresh_forced env w)" "cache_coherent (refresh_forced env w) = cache_coherent w"
  "ledger_rows (refresh_forced env w) = ledger_rows w"
  by (simp_all add: same_store_def ledger_rows_def cache_coherent_def)

lemma get_or_create_same:
  assumes "get_or_create_inventory_ledger env w = (r, w')" "cache_coherent w"
  shows "same_store w w' \<and> cache_coherent w' \<and> (\<forall>ws. r = Inr ws \<longrightarrow> sh_ledger (w_sheets w') = Some ws)"
  using assms unfolding get_or_create_inventory_ledger_def cache_coherent_def same_store_def ledger_rows_def
  by (auto simp: Let_def update_conv' split: option.splits if_splits)

lemma cached_records_same:
  assumes "cached_inventory_ledger_records env force ws w = (r, w')"
    and "sh_ledger (w_sheets w) = Some ws" "force \<or> cache_coherent w"
  shows "w_sheets w' = w_sheets w \<and> (cache_coherent w \<longrightarrow> cache_coherent w')
     \<and> (\<forall>rs n. r = Some (rs, n) \<longrightarrow> rs = ledger_rows w \<and> n = length (ledger_rows w) + 2
          \<and> cache_coherent w' \<and> map_of (w_cache w') (sh_id (w_sheets w)) = Some (rs, n))"
  using assms unfolding cached_inventory_ledger_records_def cache_coherent_def ledger_rows_def
  by (auto simp: Let_def update_conv' split: option.splits if_splits)

lemma write_at_end: "write_at (length rows) new rows = rows @ new"
  by (simp add: write_at_def)

text \<open>What a batch update does to the store, by its outcome.\<close>

lemma commit_moves_with_id:
  assumes "commit_moves env (Some opid) d col n ms w = (res, w')" "ms \<noteq> []"
    and "sh_ledger (w_sheets w) = Some ws" "n = length (ledger_rows w) + 2"
    and "map_of (w_cache w) (sh_id (w_sheets w)) = Some (ledger_rows w, n)"
  shows "(same_store w w' \<and> cache_coherent w' \<and> (\<exists>e. res = Inl e)) \<or>
     (sh_rows (w_sheets w') = write_stock col ms (sh_rows (w_sheets w))
      \<and> ledger_rows w' = ledger_rows w @ map (move_ledger_row opid d (env_created_at env)) ms
      \<and> sh_headers (w_sheets w') = sh_headers (w_sheets w) \<and> sh_id (w_sheets w') = sh_id (w_sheets w)
      \<and> sh_ledger (w_sheets w') \<noteq> None
      \<and> ((res = Inr (map (\<lambda>m. (m_sku m, m_after m)) ms) \<and> cache_coherent w')
         \<or> ((\<exists>e. res = Inl e) \<and> env_fault env = F_commit_unknown)))"
  using assms unfolding commit_moves_def
  by (auto simp: Let_def same_store_def ledger_rows_def cache_coherent_def ensure_ledger_capacity_def
      write_at_end append_cached_ledger_rows_def update_conv' split: if_splits)


definition stock_committed ::
  "inv_env \<Rightarrow> py_dict list \<Rightarrow> string \<Rightarrow> int \<Rightarrow> (string \<times> int) list \<Rightarrow> inv_world
   \<Rightarrow> (inv_error + (string \<times> int) list) \<Rightarrow> inv_world \<Rightarrow> bool" where
  "stock_committed env items opid d req w res w' \<longleftrightarrow>
     (\<exists>col idx ms. stock_column (sh_headers (w_sheets w)) = Some col
        \<and> index_rows 0 [] (sh_rows (w_sheets w)) = Inr idx
        \<and> plan_moves d items (sh_rows (w_sheets w)) idx req = Inr ms \<and> ms \<noteq> []
        \<and> sh_rows (w_sheets w') = write_stock col ms (sh_rows (w_sheets w))
        \<and> ledger_rows w' = ledger_rows w @ map (move_ledger_row opid d (env_created_at env)) ms
        \<and> sh_headers (w_sheets w') = sh_headers (w_sheets w) \<and> sh_id (w_sheets w') = sh_id (w_sheets w)
        \<and> ((res = Inr (map (\<lambda>m. (m_sku m, m_after m)) ms) \<and> cache_coherent w')
           \<or> ((\<exists>e. res = Inl e) \<and> env_fault env = F_commit_unknown)))"

lemma mutate_stock_with_id:
  assumes m: "mutate_stock env items req d (Some opid) n w = (res, w')"
    and w: "sh_ledger (w_sheets w) = Some ws" "n = length (ledger_rows w) + 2"
      "map_of (w_cache w) (sh_id (w_sheets w)) = Some (ledger_rows w, n)"
  shows "(same_store w w' \<and> cache_coherent w' \<and> ((\<exists>e. res = Inl e) \<or> (req = [] \<and> res = Inr [])))
         \<or> stock_committed env items opid d req w res w'"
proof -
  have coh: "cache_coherent w" using w by (simp add: cache_coherent_def)
  show ?thesis
  proof (cases "\<exists>col idx ms. stock_column (sh_headers (w_sheets w)) = Some col
        \<and> index_rows 0 [] (sh_rows (w_sheets w)) = Inr idx
        \<and> plan_moves d items (sh_rows (w_sheets w)) idx req = Inr ms
        \<and> commit_moves env (Some opid) d col n ms w = (res, w')")
    case True
    then obtain col idx ms where p: "stock_column (sh_headers (w_sheets w)) = Some col"
      "index_rows 0 [] (sh_rows (w_sheets w)) = Inr idx"
      "plan_moves d items (sh_rows (w_sheets w)) idx req = Inr ms"
      "commit_moves env (Some opid) d col n ms w = (res, w')" by blast
    show ?thesis
    proof (cases "ms = []")
      case True
      then have "req = []" using plan_moves_spec[OF p(3)] by simp
      then show ?thesis using True p(4) coh by (auto simp: commit_moves_def)
    next
      case False
      from commit_moves_with_id[OF p(4) False w] False p(1-3) show ?thesis
        unfolding stock_committed_def by blast
    qed
  next
    case False
    then have "same_store w w' \<and> cache_coherent w' \<and> (\<exists>e. res = Inl e)"
      using m coh unfolding mutate_stock_def
      by (auto simp: Let_def split: if_splits option.splits sum.splits)
    then show ?thesis by blast
  qed
qed

definition ledger_loaded :: "inv_world \<Rightarrow> nat \<Rightarrow> bool" where
  "ledger_loaded w n \<longleftrightarrow> sh_ledger (w_sheets w) \<noteq> None \<and> n = length (ledger_rows w) + 2
     \<and> map_of (w_cache w) (sh_id (w_sheets w)) = Some (ledger_rows w, n)"

lemma update_stock_after_ledger:
  assumes u: "update_stock env items d (Some opid) w = (res, w')"
    and pre: "d \<in> {- 1, 1}" "build_inventory_request items = Inr req" "env_fault env \<noteq> F_open"
      "opid \<noteq> []" "cache_coherent w"
  shows "\<exists>w2. same_store w w2 \<and> cache_coherent w2 \<and>
     ((w' = w2 \<and> (\<exists>e. res = Inl e))
      \<or> (w' = refresh_forced env w2 \<and> ledger_operation_rows (ledger_rows w) opid \<noteq> []
         \<and> res = validate_existing_inventory_operation (ledger_operation_rows (ledger_rows w) opid) req d)
      \<or> (ledger_operation_rows (ledger_rows w) opid = []
         \<and> (\<exists>n. ledger_loaded w2 n \<and> mutate_stock env items req d (Some opid) n w2 = (res, w'))))"
proof -
  obtain r w1 where g: "get_or_create_inventory_ledger env w = (r, w1)" by fastforce
  note same1 = get_or_create_same[OF g pre(5)]
  show ?thesis
  proof (cases r)
    case (Inl e)
    then have "res = Inl e" "w' = w1" using u pre g by (auto simp: update_stock_def)
    then show ?thesis using same1 by blast
  next
    case (Inr ws)
    obtain c w2 where c: "cached_inventory_ledger_records env False ws w1 = (c, w2)" by fastforce
    have ws: "sh_ledger (w_sheets w1) = Some ws" using same1 Inr by blast
    note same2 = cached_records_same[OF c ws]
    have s12: "w_sheets w2 = w_sheets w1" "cache_coherent w2" using same2 same1 by blast+
    then have led: "ledger_rows w2 = ledger_rows w" "same_store w w2"
      using same1 by (auto simp: same_store_def ledger_rows_def)
    show ?thesis
    proof (cases c)
      case None
      then have "res = Inl sheets_failed" "w' = w2" using u pre g Inr c by (auto simp: update_stock_def)
      then show ?thesis using led(2) s12(2) by blast
    next
      case (Some p)
      obtain records n where p: "p = (records, n)" by (cases p)
      have rn: "records = ledger_rows w" "ledger_loaded w2 n"
        using same2 same1 Some p led s12 ws by (auto simp: ledger_rows_def ledger_loaded_def)
      show ?thesis
        using u pre g Inr c Some p rn led(2) s12(2) by (auto simp: update_stock_def Let_def split: if_splits)
    qed
  qed
qed

lemma update_stock_cases:
  assumes u: "update_stock env items d (Some opid) w = (res, w')"
    and opid: "opid \<noteq> []" and coh: "cache_coherent w"
  obtains (failed) e where "same_store w w'" "cache_coherent w'" "res = Inl e"
  | (existing) req where "same_store w w'" "cache_coherent w'" "build_inventory_request items = Inr req"
      "ledger_operation_rows (ledger_rows w) opid \<noteq> []"
      "res = validate_existing_inventory_operation (ledger_operation_rows (ledger_rows w) opid) req d"
  | (empty) "same_store w w'" "cache_coherent w'" "build_inventory_request items = Inr []" "res = Inr []"
  | (committed) req where "build_inventory_request items = Inr req" "d \<in> {- 1, 1}"
      "ledger_operation_rows (ledger_rows w) opid = []" "stock_committed env items opid d req w res w'"
proof (cases "d \<in> {- 1, 1} \<and> env_fault env \<noteq> F_open \<and> (\<exists>req. build_inventory_request items = Inr req)")
  case False
  have "w' = w \<and> (\<exists>e. res = Inl e)"
  proof (cases "build_inventory_request items")
    case (Inl a)
    then have "update_stock env items d (Some opid) w =
        (Inl (if d \<in> {- 1, 1} then a else InvValueError ''Inventory direction must be -1 or 1''), w)"
      by (simp add: update_stock_def)
    then show ?thesis using u by simp
  next
    case (Inr req)
    then show ?thesis using u False unfolding update_stock_def by (auto split: if_splits)
  qed
  then show thesis using failed coh by auto
next
  case True
  then obtain req where d: "d \<in> {- 1, 1}" and req: "build_inventory_request items = Inr req"
    and fault: "env_fault env \<noteq> F_open" by blast
  from update_stock_after_ledger[OF u d req fault opid coh] obtain w2 where
    same: "same_store w w2" "cache_coherent w2" and alt:
    "(w' = w2 \<and> (\<exists>e. res = Inl e))
      \<or> (w' = refresh_forced env w2 \<and> ledger_operation_rows (ledger_rows w) opid \<noteq> []
         \<and> res = validate_existing_inventory_operation (ledger_operation_rows (ledger_rows w) opid) req d)
      \<or> (ledger_operation_rows (ledger_rows w) opid = []
         \<and> (\<exists>n. ledger_loaded w2 n \<and> mutate_stock env items req d (Some opid) n w2 = (res, w')))"
    by blast
  from alt show thesis
  proof (elim disjE conjE exE)
    fix e assume "w' = w2" "res = Inl e"
    then show thesis using failed same by blast
  next
    assume "w' = refresh_forced env w2" "ledger_operation_rows (ledger_rows w) opid \<noteq> []"
      "res = validate_existing_inventory_operation (ledger_operation_rows (ledger_rows w) opid) req d"
    then show thesis using existing[OF _ _ req] same
      by (metis refresh_forced_same(1,2) same_store_trans)
  next
    fix n assume fresh: "ledger_operation_rows (ledger_rows w) opid = []" and "ledger_loaded w2 n"
      and m: "mutate_stock env items req d (Some opid) n w2 = (res, w')"
    then obtain ws where "sh_ledger (w_sheets w2) = Some ws" "n = length (ledger_rows w2) + 2"
      "map_of (w_cache w2) (sh_id (w_sheets w2)) = Some (ledger_rows w2, n)"
      by (auto simp: ledger_loaded_def)
    from mutate_stock_with_id[OF m this] show thesis
    proof (elim disjE conjE exE)
      assume "stock_committed env items opid d req w2 res w'"
      then have "stock_committed env items opid d req w res w'"
        using same unfolding stock_committed_def same_store_def by simp
      then show thesis using committed[OF req d fresh] by blast
    qed (use failed empty same same_store_trans req in blast)+
  qed
qed


section \<open>Validation of recorded operations\<close>

lemma update_absent: "k \<notin> fst ` set d \<Longrightarrow> AList.update k v d = d @ [(k, v)]"
  by (induction d) auto

lemma validate_rows_moves:
  assumes "\<forall>m \<in> set ms. map_of req (m_sku m) = Some (m_qty m) \<and> py_strip (m_sku m) = m_sku m"
    and "distinct (map m_sku ms)" "m_sku ` set ms \<inter> fst ` set acc = {}"
  shows "validate_rows (map (move_ledger_row opid d created) ms) req (operation_type d) acc
         = Inr (acc @ map (\<lambda>m. (m_sku m, m_after m)) ms)"
proof -
  have ty: "py_strip (operation_type d) = operation_type d"
    by (simp add: operation_type_def py_strip_def py_space_def)
  show ?thesis using assms
    by (induction ms arbitrary: acc) (auto simp: move_ledger_row_def ty update_absent Let_def)
qed

lemma validate_moves:
  assumes "map (\<lambda>m. (m_sku m, m_qty m)) ms = req" "good_request req"
  shows "validate_existing_inventory_operation (map (move_ledger_row opid d created) ms) req d
         = Inr (map (\<lambda>m. (m_sku m, m_after m)) ms)"
proof -
  have keys: "map m_sku ms = map fst req" using assms(1) by (auto simp: comp_def)
  then have dist: "distinct (map m_sku ms)" using assms(2) by (simp add: good_request_def)
  have "map_of req (m_sku m) = Some (m_qty m) \<and> py_strip (m_sku m) = m_sku m" if "m \<in> set ms" for m
  proof -
    have "(m_sku m, m_qty m) \<in> set req" using assms(1) that by force
    then show ?thesis using assms(2) by (auto simp: good_request_def)
  qed
  then have "validate_rows (map (move_ledger_row opid d created) ms) req (operation_type d) []
         = Inr (map (\<lambda>m. (m_sku m, m_after m)) ms)"
    using dist by (subst validate_rows_moves) auto
  moreover have "fst ` set req = m_sku ` set ms" using keys by (metis image_set list.set_map)
  moreover have "length ms = length req" using assms(1) by (metis length_map)
  ultimately show ?thesis
    by (simp add: validate_existing_inventory_operation_def image_image)
qed

lemma ledger_operation_rows_append:
  "ledger_operation_rows (a @ b) opid = ledger_operation_rows a opid @ ledger_operation_rows b opid"
  by (simp add: ledger_operation_rows_def)

lemma ledger_operation_rows_moves:
  "py_strip opid = opid \<Longrightarrow>
   ledger_operation_rows (map (move_ledger_row opid d c) ms) opid'
   = (if opid' = opid then map (move_ledger_row opid d c) ms else [])"
  by (induction ms) (auto simp: ledger_operation_rows_def move_ledger_row_def)

lemma validate_empty_request:
  "rows \<noteq> [] \<Longrightarrow> \<exists>e. validate_existing_inventory_operation rows [] d = Inl e"
  by (simp add: validate_existing_inventory_operation_def)

section \<open>Correctness of the stock update\<close>

definition valid_op_id :: "string \<Rightarrow> bool" where
  "valid_op_id opid \<longleftrightarrow> opid \<noteq> [] \<and> py_strip opid = opid"

definition op_rows :: "inv_world \<Rightarrow> string \<Rightarrow> ledger_row list" where
  "op_rows w opid = ledger_operation_rows (ledger_rows w) opid"

lemma same_store_op_rows: "same_store w w' \<Longrightarrow> op_rows w' opid = op_rows w opid"
  by (simp add: same_store_def op_rows_def)

lemma stock_committed_rows:
  assumes "stock_committed env items opid d req w res w'" "valid_op_id opid" "good_request req"
  shows "opid' \<noteq> opid \<Longrightarrow> op_rows w' opid' = op_rows w opid'"
    and "op_rows w opid = [] \<Longrightarrow> op_rows w' opid \<noteq> []"
    and "op_rows w opid = [] \<Longrightarrow> \<exists>ns. validate_existing_inventory_operation (op_rows w' opid) req d = Inr ns
           \<and> (\<forall>r. res = Inr r \<longrightarrow> r = ns)"
proof -
  from assms(1) obtain idx ms where
    p: "plan_moves d items (sh_rows (w_sheets w)) idx req = Inr ms" "ms \<noteq> []"
    and l: "ledger_rows w' = ledger_rows w @ map (move_ledger_row opid d (env_created_at env)) ms"
    and r: "res = Inr (map (\<lambda>m. (m_sku m, m_after m)) ms) \<or> (\<exists>e. res = Inl e)"
    unfolding stock_committed_def by blast
  have rows: "op_rows w' o' = op_rows w o' @ (if o' = opid
      then map (move_ledger_row opid d (env_created_at env)) ms else [])" for o'
    using assms(2) by (simp add: op_rows_def l ledger_operation_rows_append ledger_operation_rows_moves
        valid_op_id_def)
  show "opid' \<noteq> opid \<Longrightarrow> op_rows w' opid' = op_rows w opid'" by (simp add: rows)
  show "op_rows w opid = [] \<Longrightarrow> op_rows w' opid \<noteq> []" using p(2) by (simp add: rows)
  assume "op_rows w opid = []"
  then show "\<exists>ns. validate_existing_inventory_operation (op_rows w' opid) req d = Inr ns
           \<and> (\<forall>r. res = Inr r \<longrightarrow> r = ns)"
    using validate_moves[OF conjunct1[OF plan_moves_spec[OF p(1)]] assms(3)] r by (auto simp: rows)
qed

text \<open>C2. Exactly-once stock mutations: once an update under an operation id has returned, running
  it again with the same items leaves the sheet and the ledger as they are and, if it returns,
  returns the same stock levels, whatever fault the second run meets.\<close>

theorem update_stock_exactly_once:
  assumes "cache_coherent w" "valid_op_id opid"
    and first: "update_stock env items d (Some opid) w = (Inr ns, w1)"
    and retry: "update_stock env' items d (Some opid) w1 = (res, w2)"
  shows "same_store w1 w2 \<and> (\<forall>ns'. res = Inr ns' \<longrightarrow> ns' = ns)"
proof -
  have opid: "opid \<noteq> []" using assms(2) by (simp add: valid_op_id_def)
  have after: "cache_coherent w1 \<and> (\<exists>req. build_inventory_request items = Inr req \<and>
      ((req = [] \<and> ns = []) \<or> (op_rows w1 opid \<noteq> [] \<and>
        validate_existing_inventory_operation (op_rows w1 opid) req d = Inr ns)))"
    using first opid assms(1)
  proof (cases rule: update_stock_cases)
    case (existing req)
    then show ?thesis using same_store_op_rows[OF existing(1), of opid] by (auto simp: op_rows_def)
  next
    case (committed req)
    have coh: "cache_coherent w1" using committed(4) unfolding stock_committed_def by auto
    show ?thesis
      using stock_committed_rows[OF committed(4) assms(2) build_request_good[OF committed(1)]]
        committed(1,3) coh by (auto simp: op_rows_def)
  qed auto
  then have coh: "cache_coherent w1" by blast
  from retry opid coh show ?thesis
  proof (cases rule: update_stock_cases)
    case (existing req)
    then show ?thesis using after validate_empty_request[OF existing(4), of d]
      by (auto simp: op_rows_def)
  next
    case empty
    then show ?thesis using after by (auto simp: validate_existing_inventory_operation_def op_rows_def)
  next
    case (committed req)
    then have "req = []" using after by (auto simp: op_rows_def)
    then have False using committed(4) unfolding stock_committed_def by auto
    then show ?thesis ..
  qed auto
qed


text \<open>C10. Effect of a stock update: it adds the direction times the total quantity requested for
  a SKU to its stock and to no other SKU, leaves no requested SKU negative, and keeps the rows.\<close>

theorem update_stock_effect:
  assumes "cache_coherent w" "valid_op_id opid" "op_rows w opid = []"
    and col: "stock_column (sh_headers (w_sheets w)) = Some ''Stock''"
    and u: "update_stock env items d (Some opid) w = (Inr ns, w')"
  shows "sheet_stock (sh_rows (w_sheets w')) s
           = sheet_stock (sh_rows (w_sheets w)) s
             + d * sum_list (map item_qty (filter (\<lambda>it. item_sku it = s) items))
       \<and> (s \<in> item_sku ` set items \<longrightarrow> 0 \<le> sheet_stock (sh_rows (w_sheets w')) s)
       \<and> map row_sku (sh_rows (w_sheets w')) = map row_sku (sh_rows (w_sheets w))"
proof -
  have opid: "opid \<noteq> []" using assms(2) by (simp add: valid_op_id_def)
  have sum: "dget req s 0 = sum_list (map item_qty (filter (\<lambda>it. item_sku it = s) items))"
    if "build_inventory_request items = Inr req" for req
    using build_request_from_sum[of "[]" items req s] that
    by (simp add: build_inventory_request_def dget_def)
  have keys: "fst ` set req = item_sku ` set items" if "build_inventory_request items = Inr req" for req
    using that build_request_from_keys[of "[]" items req] by (simp add: build_inventory_request_def)
  from u opid assms(1) show ?thesis
  proof (cases rule: update_stock_cases)
    case (existing req)
    then show ?thesis using assms(3) by (simp add: op_rows_def)
  next
    case empty
    then show ?thesis using sum[OF empty(3)] keys[OF empty(3)] by (auto simp: same_store_def dget_def)
  next
    case (committed req)
    from committed(4) obtain idx ms where
      c: "index_rows 0 [] (sh_rows (w_sheets w)) = Inr idx"
        "plan_moves d items (sh_rows (w_sheets w)) idx req = Inr ms"
        "sh_rows (w_sheets w') = write_stock ''Stock'' ms (sh_rows (w_sheets w))"
      unfolding stock_committed_def using col by auto
    note eff = write_stock_effect[OF c(1,2) build_request_good[OF committed(1)]]
    show ?thesis using eff(1)[of s] eff(2) eff(3)[of s] keys[OF committed(1)] by (simp add: c(3) sum[OF committed(1)])
  qed auto
qed

text \<open>C11. Failures: an update that raises has changed neither the sheet nor the ledger, unless the
  batch was applied although the client reported an error; then the ledger holds the operation.\<close>

theorem update_stock_failure_atomic:
  assumes "cache_coherent w" "valid_op_id opid"
    and u: "update_stock env items d (Some opid) w = (Inl e, w')"
  shows "if env_fault env = F_commit_unknown \<and> \<not> same_store w w'
         then op_rows w opid = [] \<and> op_rows w' opid \<noteq> []
         else same_store w w' \<and> cache_coherent w'"
proof -
  have opid: "opid \<noteq> []" using assms(2) by (simp add: valid_op_id_def)
  from u opid assms(1) show ?thesis
  proof (cases rule: update_stock_cases)
    case (committed req)
    have "env_fault env = F_commit_unknown" "\<not> same_store w w'"
      using committed(4) unfolding stock_committed_def same_store_def by auto
    then show ?thesis using committed
        stock_committed_rows(2)[OF committed(4) assms(2) build_request_good[OF committed(1)]]
      by (auto simp: op_rows_def)
  qed auto
qed

definition row_effect :: "string \<Rightarrow> ledger_row \<Rightarrow> int" where
  "row_effect s r = (if py_strip (str_or_empty (l_sku r)) \<noteq> s then 0
     else if py_strip (str_or_empty (l_type r)) = ''deduct'' then - safe_int (l_qty r)
     else safe_int (l_qty r))"

definition ledger_net :: "inv_world \<Rightarrow> string \<Rightarrow> int" where
  "ledger_net w s = sum_list (map (row_effect s) (ledger_rows w))"

lemma row_effect_moves:
  assumes "d \<in> {- 1, 1}" "\<forall>m \<in> set ms. py_strip (m_sku m) = m_sku m"
    and "distinct (map m_sku ms)"
  shows "sum_list (map (row_effect s) (map (move_ledger_row opid d c) ms))
         = d * dget (map (\<lambda>m. (m_sku m, m_qty m)) ms) s 0"
proof -
  have *: "row_effect s (move_ledger_row opid d c m) = (if m_sku m = s then d * m_qty m else 0)"
    if "m \<in> set ms" for m
  proof -
    have "py_strip (operation_type d) = operation_type d"
      by (simp add: operation_type_def py_strip_def py_space_def)
    then show ?thesis using assms(1,2) that
      by (auto simp: row_effect_def move_ledger_row_def operation_type_def)
  qed
  show ?thesis using * assms(3)
  proof (induction ms)
    case (Cons m ms)
    have "m_sku m = s \<Longrightarrow> map_of (map (\<lambda>m. (m_sku m, m_qty m)) ms) s = None"
      using Cons.prems(2) by (force simp: map_of_eq_None_iff)
    then show ?case using Cons by (auto simp: dget_def)
  qed (simp add: dget_def)
qed

text \<open>The ledger accounts for the stock: whatever an update does or however it fails, the
  stock of every SKU minus the net of its ledger rows stays the same.\<close>

theorem update_stock_accounted:
  assumes "cache_coherent w" "valid_op_id opid"
    and col: "stock_column (sh_headers (w_sheets w)) = Some ''Stock''"
    and u: "update_stock env items d (Some opid) w = (res, w')"
  shows "sheet_stock (sh_rows (w_sheets w')) s - ledger_net w' s
       = sheet_stock (sh_rows (w_sheets w)) s - ledger_net w s"
proof -
  have opid: "opid \<noteq> []" using assms(2) by (simp add: valid_op_id_def)
  from u opid assms(1) show ?thesis
  proof (cases rule: update_stock_cases)
    case (committed req)
    from committed(4) obtain idx ms where
      c: "index_rows 0 [] (sh_rows (w_sheets w)) = Inr idx"
        "plan_moves d items (sh_rows (w_sheets w)) idx req = Inr ms"
        "sh_rows (w_sheets w') = write_stock ''Stock'' ms (sh_rows (w_sheets w))"
        "ledger_rows w' = ledger_rows w @ map (move_ledger_row opid d (env_created_at env)) ms"
      unfolding stock_committed_def using col by auto
    have good: "good_request req" by (rule build_request_good[OF committed(1)])
    have moves: "map (\<lambda>m. (m_sku m, m_qty m)) ms = req" using plan_moves_spec[OF c(2)] by blast
    have "\<forall>m \<in> set ms. py_strip (m_sku m) = m_sku m"
      using good moves by (auto simp: good_request_def)
    then have "sum_list (map (row_effect s) (map (move_ledger_row opid d (env_created_at env)) ms))
        = d * dget req s 0"
      using row_effect_moves[OF committed(2)] planned_moves_wf(1)[OF c(1,2) good] by (simp add: moves)
    then show ?thesis
      using write_stock_effect(1)[OF c(1,2) good, of s] by (simp add: c(3,4) ledger_net_def)
  qed (auto simp: same_store_def ledger_net_def)
qed



definition ledger_readable :: "inv_world \<Rightarrow> bool" where
  "ledger_readable w \<longleftrightarrow> (\<forall>ws. sh_ledger (w_sheets w) = Some ws \<longrightarrow>
     lw_rows ws = [] \<or> \<not> list_all (\<lambda>h. py_strip h = []) (lw_headers ws))"

text \<open>The reconciliation query answers whether the operation is in the ledger, changes nothing,
  and after a positive answer the local copy of the ledger is up to date.\<close>

theorem operation_applied_decides:
  assumes "ledger_readable w" "valid_op_id opid"
    and q: "inventory_operation_applied env opid items d w = (Inr b, w')"
  shows "b = (op_rows w opid \<noteq> []) \<and> same_store w w' \<and> (b \<longrightarrow> cache_coherent w')"
proof -
  from assms(2) have opid: "py_strip opid = opid" "opid \<noteq> []" by (auto simp: valid_op_id_def)
  have dir: "d \<in> {- 1, 1}" and "env_fault env \<noteq> F_open" using q opid
    by (auto simp: inventory_operation_applied_def split: if_splits sum.splits)
  then obtain req records where req: "build_inventory_request items = Inr req"
    and r: "read_inventory_ledger env True w = (Inr records, w')"
    and b: "b = (ledger_operation_rows records opid \<noteq> [])"
    using q opid unfolding inventory_operation_applied_def
    by (auto simp: Let_def split: sum.splits prod.splits if_splits)
  show ?thesis
  proof (cases "records = ledger_rows w \<and> w_sheets w' = w_sheets w \<and> cache_coherent w'")
    case True
    then show ?thesis using b by (auto simp: op_rows_def same_store_def ledger_rows_def)
  next
    case False
    then have "records = [] \<and> ledger_rows w = [] \<and> w' = w"
      using r assms(1) cached_records_same[of env True _ w]
      unfolding read_inventory_ledger_def ledger_readable_def ledger_rows_def
      by (auto simp: Let_def list_all_iff split: if_splits option.splits prod.splits)
    then show ?thesis using b by (simp add: op_rows_def ledger_operation_rows_def)
  qed
qed


section \<open>A concrete store\<close>

definition sample_env :: "inv_fault \<Rightarrow> inv_env" where
  "sample_env f = \<lparr>env_fault = f, env_created_at = ''2025-01-01'', env_clock = 0, env_time = 1,
     env_refresh = (\<lambda>rows. Inr (rows, Inr rows)), env_image = py_str\<rparr>"

definition sample_row :: "string \<Rightarrow> int \<Rightarrow> py_dict" where
  "sample_row sku n = [(''SKU'', PStr sku), (''Stock'', PInt n), (''Active'', PStr ''yes''),
                       (''Price USD'', PInt 10)]"

definition sample_world :: inv_world where
  "sample_world = \<lparr>w_sheets = \<lparr>sh_id = ''sheet'', sh_headers = [''SKU'', ''Stock'', ''Active'', ''Price USD''],
       sh_rows = [sample_row ''A'' 5, sample_row ''B'' 3], sh_ledger = None\<rparr>,
     w_cache = [], w_catalog = catalog_init\<rparr>"

definition sample_item :: "string \<Rightarrow> int \<Rightarrow> py_dict" where
  "sample_item sku n = [(''sku'', PStr sku), (''quantity'', PInt n)]"

definition sample_op :: string where
  "sample_op = ''order:1:reserve''"

lemma sample_facts:
  "cache_coherent sample_world" "valid_op_id sample_op" "op_rows sample_world sample_op = []"
  "stock_column (sh_headers (w_sheets sample_world)) = Some ''Stock''" "ledger_readable sample_world"
  by (code_simp, code_simp, code_simp, code_simp, simp add: ledger_readable_def sample_world_def)

lemma sample_run: "deduct_stock (sample_env F_none) [sample_item ''A'' 2] (Some sample_op) sample_world
   = (Inr [(''A'', 3)], snd (deduct_stock (sample_env F_none) [sample_item ''A'' 2] (Some sample_op) sample_world))"
  by code_simp

text \<open>An uncertain reservation retried by the same process deducts twice: the batch was applied,
  the client saw an error, the verification failed too, so the local copy of the ledger still lacks
  the operation; the retry writes the stock again and overwrites the first ledger row.\<close>

theorem uncertain_retry_deducts_twice:
  "let items = [sample_item ''A'' 2];
       w1 = snd (deduct_stock (sample_env F_commit_unknown) items (Some sample_op) sample_world);
       (query, w2) = inventory_operation_applied (sample_env F_open) sample_op items (- 1) w1;
       (result, w3) = deduct_stock (sample_env F_none) items (Some sample_op) w2
   in query = Inl lookup_failed \<and> result = Inr [(''A'', 1)]
      \<and> sheet_stock (sh_rows (w_sheets sample_world)) ''A'' = 5
      \<and> sheet_stock (sh_rows (w_sheets w3)) ''A'' = 1
      \<and> ledger_net w3 ''A'' = - 2"
  by code_simp

theorem update_stock_exactly_once_witness:
  "\<exists>w2. same_store (snd (update_stock (sample_env F_none) [sample_item ''A'' 2] (- 1) (Some sample_op) sample_world)) w2
     \<and> sheet_stock (sh_rows (w_sheets w2)) ''A'' = 3"
proof -
  let ?w1 = "snd (update_stock (sample_env F_none) [sample_item ''A'' 2] (- 1) (Some sample_op) sample_world)"
  let ?r = "update_stock (sample_env F_none) [sample_item ''A'' 2] (- 1) (Some sample_op) ?w1"
  have first: "update_stock (sample_env F_none) [sample_item ''A'' 2] (- 1) (Some sample_op) sample_world
      = (Inr [(''A'', 3)], ?w1)" by code_simp
  have "update_stock (sample_env F_none) [sample_item ''A'' 2] (- 1) (Some sample_op) ?w1 = (fst ?r, snd ?r)"
    by simp
  from update_stock_exactly_once[OF sample_facts(1,2) first this]
  have "same_store ?w1 (snd ?r)" by blast
  moreover have "sheet_stock (sh_rows (w_sheets ?w1)) ''A'' = 3" by code_simp
  ultimately show ?thesis unfolding same_store_def by metis
qed

theorem update_stock_effect_witness:
  "sheet_stock (sh_rows (w_sheets (snd (update_stock (sample_env F_none) [sample_item ''A'' 2] (- 1)
     (Some sample_op) sample_world)))) ''A'' = 5 + (- 1) * 2"
proof -
  let ?w1 = "snd (update_stock (sample_env F_none) [sample_item ''A'' 2] (- 1) (Some sample_op) sample_world)"
  have first: "update_stock (sample_env F_none) [sample_item ''A'' 2] (- 1) (Some sample_op) sample_world
      = (Inr [(''A'', 3)], ?w1)" by code_simp
  have "sheet_stock (sh_rows (w_sheets sample_world)) ''A'' = 5" by code_simp
  moreover have "sum_list (map item_qty (filter (\<lambda>it. item_sku it = ''A'') [sample_item ''A'' 2])) = 2"
    by code_simp
  ultimately show ?thesis
    using update_stock_effect[OF sample_facts(1-4) first, of "''A''"] by simp
qed

theorem update_stock_failure_atomic_witness:
  "same_store sample_world
     (snd (update_stock (sample_env F_rows) [sample_item ''A'' 2] (- 1) (Some sample_op) sample_world))"
proof -
  let ?w1 = "snd (update_stock (sample_env F_rows) [sample_item ''A'' 2] (- 1) (Some sample_op) sample_world)"
  have first: "update_stock (sample_env F_rows) [sample_item ''A'' 2] (- 1) (Some sample_op) sample_world
      = (Inl sheets_failed, ?w1)" by code_simp
  have "env_fault (sample_env F_rows) = F_rows" by (simp add: sample_env_def)
  then show ?thesis using update_stock_failure_atomic[OF sample_facts(1,2) first] by simp
qed

theorem update_stock_accounted_witness:
  "sheet_stock (sh_rows (w_sheets (snd (update_stock (sample_env F_commit_unknown) [sample_item ''A'' 2]
       (- 1) (Some sample_op) sample_world)))) ''A''
   - ledger_net (snd (update_stock (sample_env F_commit_unknown) [sample_item ''A'' 2]
       (- 1) (Some sample_op) sample_world)) ''A'' = 5"
proof -
  let ?r = "update_stock (sample_env F_commit_unknown) [sample_item ''A'' 2] (- 1) (Some sample_op) sample_world"
  have "?r = (fst ?r, snd ?r)" by simp
  moreover have "sheet_stock (sh_rows (w_sheets sample_world)) ''A'' - ledger_net sample_world ''A'' = 5"
    by code_simp
  ultimately show ?thesis using update_stock_accounted[OF sample_facts(1,2,4)] by metis
qed

theorem operation_applied_decides_witness:
  "fst (inventory_operation_applied (sample_env F_none) sample_op [sample_item ''A'' 2] (- 1) sample_world)
   = Inr False \<and> op_rows sample_world sample_op = []"
proof -
  let ?r = "inventory_operation_applied (sample_env F_none) sample_op [sample_item ''A'' 2] (- 1) sample_world"
  have r: "?r = (Inr False, snd ?r)" by code_simp
  from operation_applied_decides[OF sample_facts(5,2) this] r show ?thesis by (metis fst_conv)
qed


end
