(* ===== verification/Payment_Methods.thy ===== *)
theory Payment_Methods
  imports Prelude
begin

text \<open>
  Store-defined payment methods, \<open>store/app/payment_methods.py\<close>: validation of the configured
  list, the conversion of the legacy settings, and the texts built from it. The random id given to
  a method without one is \<open>new_id\<close> of its position.
\<close>

record payment_method =
  pm_id :: string
  pm_name :: string
  pm_info :: string

definition normalize_name_key :: "string \<Rightarrow> string" where
  "normalize_name_key name = py_strip (sub_runs py_space '' '' (ascii_fold (py_lower name)))"

definition text_field :: "(string \<times> json) list \<Rightarrow> string \<Rightarrow> string" where
  "text_field d k = (case map_of d k of None \<Rightarrow> [] | Some v \<Rightarrow> py_strip (j_str v))"

fun normalize_methods_from ::
  "(nat \<Rightarrow> string) \<Rightarrow> nat \<Rightarrow> string list \<Rightarrow> json list \<Rightarrow> py_exc + payment_method list" where
  "normalize_methods_from new_id i seen [] = Inr []"
| "normalize_methods_from new_id i seen (item # items) =
     (case item of
        JObj d _ \<Rightarrow>
          (let name = text_field d ''name''; information = text_field d ''information'';
               key = normalize_name_key name in
           if name = [] then Inl (ValueError ''Each payment method must have a name'')
           else if information = [] then Inl (ValueError ''Payment method must have information'')
           else if key \<in> set seen then Inl (ValueError ''Payment method names must be unique'')
           else (case normalize_methods_from new_id (Suc i) (key # seen) items of
                   Inl e \<Rightarrow> Inl e
                 | Inr ms \<Rightarrow>
                     Inr (\<lparr>pm_id = (if j_truthy (jget d ''id'') then j_str (jget d ''id'') else new_id i),
                           pm_name = name, pm_info = information\<rparr> # ms)))
      | _ \<Rightarrow> Inl (ValueError ''Each payment method must be an object''))"

definition normalize_payment_methods ::
  "(nat \<Rightarrow> string) \<Rightarrow> json \<Rightarrow> py_exc + payment_method list" where
  "normalize_payment_methods new_id raw =
     (case raw of
        JVal PNone \<Rightarrow> Inr []
      | JList items _ \<Rightarrow> normalize_methods_from new_id 0 [] items
      | _ \<Rightarrow> Inl (ValueError ''payment_methods must be a list''))"

definition legacy_payment_method_settings :: "(string \<times> string) list" where
  "legacy_payment_method_settings =
     [(''payment_zelle_details'', ''Zelle''), (''payment_binance_details'', ''Binance Pay''),
      (''payment_zinli_details'', ''Zinli''),
      (''payment_bolivares_details'', ''Bol'' @ [CHR 0xED] @ ''vares'')]"

definition build_payment_methods_from_legacy ::
  "(string \<Rightarrow> string) \<Rightarrow> py_dict \<Rightarrow> payment_method list" where
  "build_payment_methods_from_legacy new_id settings =
     concat (map (\<lambda>(key, display).
       (let details = py_strip (str_or_empty (dget settings key (PStr [])))
        in if details = [] then []
           else [\<lparr>pm_id = new_id key, pm_name = display, pm_info = details\<rparr>]))
       legacy_payment_method_settings)"

text \<open>\<open>payment_methods or []\<close>.\<close>

definition or_empty_list :: "json \<Rightarrow> json" where
  "or_empty_list v = (if j_truthy v then v else JList [] ''[]'')"

definition payment_method_names :: "(nat \<Rightarrow> string) \<Rightarrow> json \<Rightarrow> py_exc + string list" where
  "payment_method_names new_id raw =
     map_sum id (map pm_name) (normalize_payment_methods new_id (or_empty_list raw))"

definition payment_method_names_text :: "(nat \<Rightarrow> string) \<Rightarrow> json \<Rightarrow> py_exc + string" where
  "payment_method_names_text new_id raw =
     map_sum id (\<lambda>names. if names = [] then ''ninguno configurado'' else join_with '', '' names)
       (payment_method_names new_id raw)"

definition name_char :: "char \<Rightarrow> bool" where
  "name_char c = (let n = (of_char c :: nat) in (97 \<le> n \<and> n \<le> 122) \<or> is_digit c \<or> n = 95)"

definition payment_method_tag_value :: "string \<Rightarrow> string" where
  "payment_method_tag_value name =
     (let u = CHR ''_'';
          slug0 = map (\<lambda>c. if c = CHR '' '' then u else c) (normalize_name_key name);
          slug1 = sub_runs (\<lambda>c. \<not> name_char c) [u] slug0;
          slug = strip_chars [u] (sub_runs (\<lambda>c. c = u) [u] slug1) in
      if slug = [] then ''unknown'' else slug)"

section \<open>Lookup by name\<close>

text \<open>The configured name a customer's wording stands for.\<close>

definition match_payment_method :: "payment_method list \<Rightarrow> string \<Rightarrow> string option" where
  "match_payment_method methods wanted =
     map_option pm_name (find (\<lambda>m. normalize_name_key (pm_name m) = normalize_name_key wanted) methods)"

lemma normalize_methods_from_keys:
  "normalize_methods_from new_id i seen items = Inr ms \<Longrightarrow>
   distinct (map (\<lambda>m. normalize_name_key (pm_name m)) ms)
   \<and> set (map (\<lambda>m. normalize_name_key (pm_name m)) ms) \<inter> set seen = {}
   \<and> (\<forall>m \<in> set ms. pm_name m \<noteq> [] \<and> pm_info m \<noteq> [])"
proof (induction new_id i seen items arbitrary: ms rule: normalize_methods_from.induct)
  case (2 new_id i seen item items)
  from "2.prems" obtain d t where item: "item = JObj d t" by (cases item) auto
  define name where "name = text_field d ''name''"
  from "2.prems" obtain ms' m where rest:
    "normalize_methods_from new_id (Suc i) (normalize_name_key name # seen) items = Inr ms'"
    "ms = m # ms'" "pm_name m = name" "name \<noteq> []" "pm_info m \<noteq> []" "normalize_name_key name \<notin> set seen"
    by (auto simp: item name_def Let_def split: if_splits sum.splits)
  have "text_field d ''information'' \<noteq> []"
    using "2.prems" by (auto simp: item Let_def split: if_splits)
  then have "distinct (map (\<lambda>m. normalize_name_key (pm_name m)) ms')
   \<and> set (map (\<lambda>m. normalize_name_key (pm_name m)) ms') \<inter> set (normalize_name_key name # seen) = {}
   \<and> (\<forall>m \<in> set ms'. pm_name m \<noteq> [] \<and> pm_info m \<noteq> [])"
    using "2.IH"[OF item refl refl refl, of ms'] rest unfolding name_def by blast
  then show ?case using rest by auto
qed auto

text \<open>A validated list decides each wording: names are unique up to case, accents and spacing,
  so every configured method is found by any wording with its key, whatever its position.\<close>

theorem payment_methods_decide:
  assumes "normalize_payment_methods new_id raw = Inr ms" "m \<in> set ms"
    and "normalize_name_key wanted = normalize_name_key (pm_name m)"
  shows "match_payment_method ms wanted = Some (pm_name m) \<and> pm_name m \<noteq> [] \<and> pm_info m \<noteq> []"
proof -
  have k: "distinct (map (\<lambda>m. normalize_name_key (pm_name m)) ms)" "\<forall>m \<in> set ms. pm_name m \<noteq> [] \<and> pm_info m \<noteq> []"
    using normalize_methods_from_keys assms(1)
    by (fastforce simp: normalize_payment_methods_def split: json.splits pyval.splits)+
  have "find (\<lambda>x. normalize_name_key (pm_name x) = normalize_name_key wanted) ms = Some m"
    using k(1) assms(2,3) by (induction ms) (auto simp: image_iff)
  then show ?thesis using k assms(2) by (simp add: match_payment_method_def)
qed

theorem payment_methods_decide_witness:
  "match_payment_method [\<lparr>pm_id = ''1'', pm_name = ''Pago Movil'', pm_info = ''0102''\<rparr>] '' PAGO  movil ''
     = Some ''Pago Movil''"
proof -
  let ?raw = "JList [JObj [(''id'', JVal (PStr ''1'')), (''name'', JVal (PStr ''Pago Movil'')),
                           (''information'', JVal (PStr ''0102''))] []] []"
  let ?m = "\<lparr>pm_id = ''1'', pm_name = ''Pago Movil'', pm_info = ''0102''\<rparr>"
  have "normalize_payment_methods (\<lambda>_. []) ?raw = Inr [?m]" by code_simp
  moreover have "normalize_name_key '' PAGO  movil '' = normalize_name_key (pm_name ?m)" by code_simp
  ultimately show ?thesis using payment_methods_decide[of "\<lambda>_. []" ?raw "[?m]" ?m] by simp
qed

end
