(* ===== verification/Shipping.thy ===== *)
theory Shipping
  imports Prelude
begin

text \<open>
  The store's delivery policy and its quotes, \<open>store/app/shipping.py\<close>: validation of home cities,
  home zones and courier rates, and the resolution of a city, a zone and a courier to a fee.
  Raw policies are \<open>json\<close> values. Messages built from a fee keep the fee in the quote.
\<close>

section \<open>Locations, texts and fees\<close>

definition location_key :: "string \<Rightarrow> string" where
  "location_key s = py_strip (sub_runs py_space '' '' (ascii_fold (py_lower s)))"

definition normalize_location :: "json \<Rightarrow> string" where
  "normalize_location value = location_key (j_str_or_empty value)"

definition clean_text :: "json \<Rightarrow> bool \<Rightarrow> py_exc + string" where
  "clean_text value required =
     (let t = py_strip (sub_runs py_space '' '' (j_str_or_empty value)) in
      if t = [] \<and> required then Inl (ValueError ''es obligatorio'')
      else if 100 < length t then Inl (ValueError ''no puede superar 100 caracteres'')
      else Inr t)"

definition clean_fee :: "json \<Rightarrow> py_exc + rat" where
  "clean_fee value =
     (case j_float value of
        Inl _ \<Rightarrow> Inl (ValueError ''Cada tarifa debe ser un monto en USD'')
      | Inr q \<Rightarrow> (let fee = round_to 2 q in
          if 0 \<le> fee \<and> fee \<le> 100000 then Inr fee
          else Inl (ValueError ''Cada tarifa debe estar entre 0 y 100000 USD'')))"

fun aliases_from :: "string list \<Rightarrow> json list \<Rightarrow> py_exc + string list" where
  "aliases_from seen [] = Inr []"
| "aliases_from seen (raw # raws) =
     (case clean_text raw True of
        Inl e \<Rightarrow> Inl e
      | Inr alias \<Rightarrow>
          (if location_key alias \<in> set seen then aliases_from seen raws
           else (case aliases_from (location_key alias # seen) raws of
                   Inl e \<Rightarrow> Inl e | Inr as \<Rightarrow> Inr (alias # as))))"

definition normalize_aliases :: "json \<Rightarrow> string \<Rightarrow> py_exc + string list" where
  "normalize_aliases raw name =
     (case raw of
        JVal PNone \<Rightarrow> Inr []
      | JVal (PStr []) \<Rightarrow> Inr []
      | JList raws _ \<Rightarrow> aliases_from [location_key name] raws
      | _ \<Rightarrow> Inl (ValueError ''Los alias deben ser una lista''))"

section \<open>Entries\<close>

record home_city =
  hc_name :: string
  hc_aliases :: "string list"

record home_zone =
  hz_city :: string
  hz_name :: string
  hz_aliases :: "string list"
  hz_fee :: rat

record courier_rate =
  cr_city :: string
  cr_aliases :: "string list"
  cr_mrw_fee :: rat
  cr_zoom_fee :: rat

record shipping_policy =
  sp_currency :: string
  sp_cities :: "home_city list"
  sp_zones :: "home_zone list"
  sp_rates :: "courier_rate list"

text \<open>The names an entry answers to, and the first entry that answers to a name.\<close>

definition entry_keys :: "('e \<Rightarrow> string) \<Rightarrow> ('e \<Rightarrow> string list) \<Rightarrow> 'e \<Rightarrow> string list" where
  "entry_keys name aliases e = map location_key (name e # aliases e)"

definition match_location ::
  "('e \<Rightarrow> string) \<Rightarrow> ('e \<Rightarrow> string list) \<Rightarrow> 'e list \<Rightarrow> string \<Rightarrow> 'e option" where
  "match_location name aliases entries value =
     find (\<lambda>e. location_key value \<in> set (entry_keys name aliases e)) entries"

abbreviation city_keys :: "home_city \<Rightarrow> string list" where
  "city_keys \<equiv> entry_keys hc_name hc_aliases"

abbreviation zone_keys :: "home_zone \<Rightarrow> string list" where
  "zone_keys \<equiv> entry_keys hz_name hz_aliases"

abbreviation rate_keys :: "courier_rate \<Rightarrow> string list" where
  "rate_keys \<equiv> entry_keys cr_city cr_aliases"

fun cities_from :: "string list \<Rightarrow> json list \<Rightarrow> py_exc + home_city list" where
  "cities_from seen [] = Inr []"
| "cities_from seen (raw # raws) =
     (case raw of
        JObj d _ \<Rightarrow>
          (case clean_text (jget d ''name'') True of
             Inl e \<Rightarrow> Inl e
           | Inr name \<Rightarrow>
               (case normalize_aliases (jget d ''aliases'') name of
                  Inl e \<Rightarrow> Inl e
                | Inr aliases \<Rightarrow>
                    (let c = \<lparr>hc_name = name, hc_aliases = aliases\<rparr> in
                     if set seen \<inter> set (city_keys c) \<noteq> {}
                     then Inl (ValueError ''Las ciudades y alias no pueden repetirse'')
                     else (case cities_from (city_keys c @ seen) raws of
                             Inl e \<Rightarrow> Inl e | Inr cs \<Rightarrow> Inr (c # cs)))))
      | _ \<Rightarrow> Inl (ValueError ''Cada ciudad de entrega a domicilio debe ser un objeto''))"

definition normalize_home_cities :: "json \<Rightarrow> py_exc + home_city list" where
  "normalize_home_cities raw =
     (case raw of JList raws _ \<Rightarrow> cities_from [] raws
      | _ \<Rightarrow> Inl (ValueError ''Las ciudades con entrega a domicilio deben ser una lista''))"

definition zone_pairs :: "home_zone \<Rightarrow> (string \<times> string) list" where
  "zone_pairs z = map (Pair (location_key (hz_city z))) (zone_keys z)"

fun zones_from ::
  "home_city list \<Rightarrow> (string \<times> string) list \<Rightarrow> json list \<Rightarrow> py_exc + home_zone list" where
  "zones_from cities seen [] = Inr []"
| "zones_from cities seen (raw # raws) =
     (case raw of
        JObj d _ \<Rightarrow>
          (case clean_text (jget d ''city'') True of
             Inl e \<Rightarrow> Inl e
           | Inr city \<Rightarrow>
          (case match_location hc_name hc_aliases cities city of
             None \<Rightarrow> Inl (ValueError ''Cada zona debe pertenecer a una ciudad con entrega a domicilio'')
           | Some home \<Rightarrow>
          (case clean_text (jget d ''name'') True of
             Inl e \<Rightarrow> Inl e
           | Inr name \<Rightarrow>
          (case normalize_aliases (jget d ''aliases'') name of
             Inl e \<Rightarrow> Inl e
           | Inr aliases \<Rightarrow>
               (let z0 = \<lparr>hz_city = hc_name home, hz_name = name, hz_aliases = aliases, hz_fee = 0\<rparr> in
                if set seen \<inter> set (zone_pairs z0) \<noteq> {}
                then Inl (ValueError ''Las zonas y alias no pueden repetirse dentro de la misma ciudad'')
                else (case clean_fee (jget d ''fee_usd'') of
                        Inl e \<Rightarrow> Inl e
                      | Inr fee \<Rightarrow>
                          (case zones_from cities (zone_pairs z0 @ seen) raws of
                             Inl e \<Rightarrow> Inl e | Inr zs \<Rightarrow> Inr (z0\<lparr>hz_fee := fee\<rparr> # zs))))))))
      | _ \<Rightarrow> Inl (ValueError ''Cada zona de entrega debe ser un objeto''))"

definition normalize_home_zones :: "json \<Rightarrow> home_city list \<Rightarrow> py_exc + home_zone list" where
  "normalize_home_zones raw cities =
     (case raw of JList raws _ \<Rightarrow> zones_from cities [] raws
      | _ \<Rightarrow> Inl (ValueError ''Las zonas de entrega a domicilio deben ser una lista''))"

fun rates_from ::
  "string list \<Rightarrow> string list \<Rightarrow> json list \<Rightarrow> py_exc + courier_rate list" where
  "rates_from home seen [] = Inr []"
| "rates_from home seen (raw # raws) =
     (case raw of
        JObj d _ \<Rightarrow>
          (case clean_text (jget d ''city'') True of
             Inl e \<Rightarrow> Inl e
           | Inr city \<Rightarrow>
          (case normalize_aliases (jget d ''aliases'') city of
             Inl e \<Rightarrow> Inl e
           | Inr aliases \<Rightarrow>
               (let r0 = \<lparr>cr_city = city, cr_aliases = aliases, cr_mrw_fee = 0, cr_zoom_fee = 0\<rparr> in
                if set seen \<inter> set (rate_keys r0) \<noteq> {}
                then Inl (ValueError ''Las ciudades y alias de agencia no pueden repetirse'')
                else if set home \<inter> set (rate_keys r0) \<noteq> {}
                then Inl (ValueError ''Una ciudad con entrega a domicilio no puede tener tarifa de agencia'')
                else (case clean_fee (jget d ''mrw_fee_usd'') of
                        Inl e \<Rightarrow> Inl e
                      | Inr mrw \<Rightarrow>
                     (case clean_fee (jget d ''zoom_fee_usd'') of
                        Inl e \<Rightarrow> Inl e
                      | Inr zoom \<Rightarrow>
                          (case rates_from home (rate_keys r0 @ seen) raws of
                             Inl e \<Rightarrow> Inl e
                           | Inr rs \<Rightarrow> Inr (r0\<lparr>cr_mrw_fee := mrw, cr_zoom_fee := zoom\<rparr> # rs)))))))
      | _ \<Rightarrow> Inl (ValueError ''Cada tarifa por ciudad debe ser un objeto''))"

definition normalize_courier_rates :: "json \<Rightarrow> string list \<Rightarrow> py_exc + courier_rate list" where
  "normalize_courier_rates raw home =
     (case raw of JList raws _ \<Rightarrow> rates_from home [] raws
      | _ \<Rightarrow> Inl (ValueError ''Las tarifas a agencia deben ser una lista''))"

section \<open>The policy\<close>

text \<open>\<open>raw_policy.get(key, [])\<close>.\<close>

definition jget_list :: "(string \<times> json) list \<Rightarrow> string \<Rightarrow> json" where
  "jget_list d k = (case map_of d k of None \<Rightarrow> JList [] ''[]'' | Some v \<Rightarrow> v)"

definition default_shipping_policy :: "(string \<times> json) list" where
  "default_shipping_policy =
     (let city = (\<lambda>name aliases. JObj [(''name'', JVal (PStr name)),
                    (''aliases'', JList (map (\<lambda>a. JVal (PStr a)) aliases) [])] []) in
      [(''currency'', JVal (PStr ''USD'')),
       (''home_delivery_cities'', JList [city ''Valencia'' [''Valencia, Carabobo''],
          city ''Naguanagua'' [], city ''San Diego'' [''San Diego, Carabobo'']] []),
       (''home_delivery_zones'', JList [] []),
       (''courier_destination_rates'', JList [] [])])"

definition normalize_policy_object :: "(string \<times> json) list \<Rightarrow> py_exc + shipping_policy" where
  "normalize_policy_object d =
     (let c = jget d ''currency'';
          currency = py_upper (py_strip (if j_truthy c then j_str c else ''USD'')) in
      if currency \<noteq> ''USD'' then Inl (ValueError ''Las tarifas deben estar en USD'')
      else (case normalize_home_cities (jget_list d ''home_delivery_cities'') of
              Inl e \<Rightarrow> Inl e
            | Inr cities \<Rightarrow>
           (case normalize_home_zones (jget_list d ''home_delivery_zones'') cities of
              Inl e \<Rightarrow> Inl e
            | Inr zones \<Rightarrow>
           (case normalize_courier_rates (jget_list d ''courier_destination_rates'')
                   (concat (map city_keys cities)) of
              Inl e \<Rightarrow> Inl e
            | Inr rates \<Rightarrow> Inr \<lparr>sp_currency = currency, sp_cities = cities, sp_zones = zones,
                                sp_rates = rates\<rparr>))))"

definition normalize_shipping_policy :: "json \<Rightarrow> py_exc + shipping_policy" where
  "normalize_shipping_policy raw =
     (case raw of
        JVal PNone \<Rightarrow> normalize_policy_object default_shipping_policy
      | JObj d _ \<Rightarrow> normalize_policy_object d
      | _ \<Rightarrow> Inl (ValueError ''La politica debe ser un objeto''))"

section \<open>Quotes\<close>

datatype quote =
    NeedsCity
  | NeedsShippingMethod
  | AgencyRateUnavailable string string
  | AgencyQuoted string string rat string
  | NeedsDeliveryZone string "string list"
  | HomeRateUnavailable string "string list"
  | HomeQuoted string string rat string

definition resolve_home_delivery :: "shipping_policy \<Rightarrow> home_city \<Rightarrow> json \<Rightarrow> py_exc + quote" where
  "resolve_home_delivery policy city zone =
     (case clean_text zone False of
        Inl e \<Rightarrow> Inl e
      | Inr zone_text \<Rightarrow>
          (let zones = filter (\<lambda>z. location_key (hz_city z) = location_key (hc_name city))
                              (sp_zones policy) in
           if zone_text = [] then Inr (NeedsDeliveryZone (hc_name city) (map hz_name zones))
           else (case match_location hz_name hz_aliases zones zone_text of
                   None \<Rightarrow> Inr (HomeRateUnavailable (hc_name city) (map hz_name zones))
                 | Some z \<Rightarrow> Inr (HomeQuoted (hc_name city) (hz_name z) (hz_fee z)
                                            (sp_currency policy)))))"

definition valid_couriers :: "string list" where
  "valid_couriers = [''mrw'', ''zoom'']"

definition courier_fee :: "string \<Rightarrow> courier_rate \<Rightarrow> rat" where
  "courier_fee courier r = (if courier = ''mrw'' then cr_mrw_fee r else cr_zoom_fee r)"

definition resolve_delivery_quote ::
  "json \<Rightarrow> json \<Rightarrow> json \<Rightarrow> json \<Rightarrow> py_exc + quote" where
  "resolve_delivery_quote policy city zone shipping_method =
     (case normalize_shipping_policy policy of
        Inl e \<Rightarrow> Inl e
      | Inr p \<Rightarrow>
     (case clean_text city False of
        Inl e \<Rightarrow> Inl e
      | Inr city_text \<Rightarrow>
          (if city_text = [] then Inr NeedsCity
           else (case match_location hc_name hc_aliases (sp_cities p) city_text of
                   Some home \<Rightarrow> resolve_home_delivery p home zone
                 | None \<Rightarrow>
                     (let courier = py_lower (py_strip (j_str_or_empty shipping_method)) in
                      if courier \<notin> set valid_couriers then Inr NeedsShippingMethod
                      else (case match_location cr_city cr_aliases (sp_rates p) city_text of
                              None \<Rightarrow> Inr (AgencyRateUnavailable city_text courier)
                            | Some r \<Rightarrow> Inr (AgencyQuoted (cr_city r) courier (courier_fee courier r)
                                                         (sp_currency p))))))))"

section \<open>A name decides one entry\<close>

definition keys_disjoint :: "('e \<Rightarrow> 'k list) \<Rightarrow> 'e list \<Rightarrow> bool" where
  "keys_disjoint keys es \<longleftrightarrow>
     (\<forall>e \<in> set es. \<forall>e' \<in> set es. set (keys e) \<inter> set (keys e') \<noteq> {} \<longrightarrow> e = e')"

lemma keys_disjoint_Cons:
  "keys_disjoint keys es \<Longrightarrow> (\<forall>e \<in> set es. set (keys e) \<inter> set (keys x) = {}) \<Longrightarrow> keys_disjoint keys (x # es)"
  by (auto simp: keys_disjoint_def; fast)

lemma keys_disjoint_step:
  assumes "keys_disjoint keys es" "\<forall>e \<in> set es. set (keys e) \<inter> set (ks @ seen) = {}"
    and "set seen \<inter> set ks = {}" "keys x = ks"
  shows "keys_disjoint keys (x # es) \<and> (\<forall>e \<in> set (x # es). set (keys e) \<inter> set seen = {})"
  using assms by (intro conjI keys_disjoint_Cons) (simp_all, blast+)

lemma match_location_decides:
  assumes "keys_disjoint (entry_keys nm al) es" "e \<in> set es" "location_key v \<in> set (entry_keys nm al e)"
  shows "match_location nm al es v = Some e"
proof (cases "match_location nm al es v")
  case None
  then show ?thesis using assms by (auto simp: match_location_def find_None_iff)
next
  case (Some e')
  then have "e' \<in> set es" "location_key v \<in> set (entry_keys nm al e')"
    by (auto simp: match_location_def find_Some_iff)
  then have "e' = e" using assms unfolding keys_disjoint_def by blast
  then show ?thesis using Some by simp
qed

lemma match_location_SomeD:
  "match_location nm al es v = Some e \<Longrightarrow> e \<in> set es \<and> location_key v \<in> set (entry_keys nm al e)"
  by (auto simp: match_location_def find_Some_iff)

lemma cities_from_keys:
  "cities_from seen raws = Inr cs \<Longrightarrow>
   keys_disjoint city_keys cs \<and> (\<forall>c \<in> set cs. set (city_keys c) \<inter> set seen = {})"
proof (induction seen raws arbitrary: cs rule: cities_from.induct)
  case (2 seen raw raws)
  then obtain d t name al cs' where c: "raw = JObj d t" "clean_text (jget d ''name'') True = Inr name"
    "normalize_aliases (jget d ''aliases'') name = Inr al"
    "set seen \<inter> set (city_keys \<lparr>hc_name = name, hc_aliases = al\<rparr>) = {}"
    "cities_from (city_keys \<lparr>hc_name = name, hc_aliases = al\<rparr> @ seen) raws = Inr cs'"
    "cs = \<lparr>hc_name = name, hc_aliases = al\<rparr> # cs'"
    by (auto simp: Let_def split: json.splits sum.splits if_splits)
  have "keys_disjoint city_keys cs' \<and> (\<forall>c \<in> set cs'. set (city_keys c) \<inter>
      set (city_keys \<lparr>hc_name = name, hc_aliases = al\<rparr> @ seen) = {})"
    using "2.IH"[OF c(1,2,3) refl] c(4,5) by simp
  then show ?case using keys_disjoint_step[where keys = city_keys, OF _ _ c(4) refl] unfolding c(6) by blast
qed (simp add: keys_disjoint_def)

lemma clean_fee_bounds: "clean_fee v = Inr q \<Longrightarrow> 0 \<le> q \<and> q \<le> 100000"
  by (auto simp: clean_fee_def Let_def split: sum.splits if_splits)

lemma zones_from_keys:
  "zones_from cities seen raws = Inr zs \<Longrightarrow>
   keys_disjoint zone_pairs zs \<and> (\<forall>z \<in> set zs. set (zone_pairs z) \<inter> set seen = {})
   \<and> (\<forall>z \<in> set zs. 0 \<le> hz_fee z \<and> hz_fee z \<le> 100000 \<and> hz_city z \<in> hc_name ` set cities)"
proof (induction cities seen raws arbitrary: zs rule: zones_from.induct)
  case (2 cities seen raw raws)
  then obtain d t city home name al fee zs' where c: "raw = JObj d t"
    "clean_text (jget d ''city'') True = Inr city"
    "match_location hc_name hc_aliases cities city = Some home"
    "clean_text (jget d ''name'') True = Inr name"
    "normalize_aliases (jget d ''aliases'') name = Inr al"
    and z: "set seen \<inter> set (zone_pairs \<lparr>hz_city = hc_name home, hz_name = name, hz_aliases = al, hz_fee = 0\<rparr>) = {}"
    "clean_fee (jget d ''fee_usd'') = Inr fee"
    "zones_from cities (zone_pairs \<lparr>hz_city = hc_name home, hz_name = name, hz_aliases = al, hz_fee = 0\<rparr> @ seen) raws = Inr zs'"
    "zs = \<lparr>hz_city = hc_name home, hz_name = name, hz_aliases = al, hz_fee = fee\<rparr> # zs'"
    by (auto simp: Let_def split: json.splits sum.splits if_splits option.splits)
  define z0 where "z0 = \<lparr>hz_city = hc_name home, hz_name = name, hz_aliases = al, hz_fee = 0\<rparr>"
  define z1 where "z1 = \<lparr>hz_city = hc_name home, hz_name = name, hz_aliases = al, hz_fee = fee\<rparr>"
  have p: "zone_pairs z1 = zone_pairs z0"
    by (simp add: z0_def z1_def zone_pairs_def entry_keys_def)
  have "keys_disjoint zone_pairs zs' \<and> (\<forall>z \<in> set zs'. set (zone_pairs z) \<inter> set (zone_pairs z0 @ seen) = {})
      \<and> (\<forall>z \<in> set zs'. 0 \<le> hz_fee z \<and> hz_fee z \<le> 100000 \<and> hz_city z \<in> hc_name ` set cities)"
    using "2.IH"[OF c refl _ z(2), of zs'] z(1,3) unfolding z0_def by blast
  moreover have "hc_name home \<in> hc_name ` set cities" using match_location_SomeD[OF c(3)] by simp
  moreover have "hz_fee z1 = fee" "hz_city z1 = hc_name home" by (simp_all add: z1_def)
  ultimately show ?case using clean_fee_bounds[OF z(2)]
      keys_disjoint_step[where keys = zone_pairs and x = z1 and es = zs', OF _ _ z(1)[folded z0_def] p]
    unfolding z(4) z1_def[symmetric] by simp
qed (simp add: keys_disjoint_def)

lemma rates_from_keys:
  "rates_from home seen raws = Inr rs \<Longrightarrow>
   keys_disjoint rate_keys rs \<and> (\<forall>r \<in> set rs. set (rate_keys r) \<inter> set seen = {})
   \<and> (\<forall>r \<in> set rs. set (rate_keys r) \<inter> set home = {}
       \<and> 0 \<le> cr_mrw_fee r \<and> cr_mrw_fee r \<le> 100000 \<and> 0 \<le> cr_zoom_fee r \<and> cr_zoom_fee r \<le> 100000)"
proof (induction home seen raws arbitrary: rs rule: rates_from.induct)
  case (2 home seen raw raws)
  then obtain d t city al mrw zoom rs' where c: "raw = JObj d t"
    "clean_text (jget d ''city'') True = Inr city"
    "normalize_aliases (jget d ''aliases'') city = Inr al"
    and z: "set seen \<inter> set (rate_keys \<lparr>cr_city = city, cr_aliases = al, cr_mrw_fee = 0, cr_zoom_fee = 0\<rparr>) = {}"
    "set home \<inter> set (rate_keys \<lparr>cr_city = city, cr_aliases = al, cr_mrw_fee = 0, cr_zoom_fee = 0\<rparr>) = {}"
    "clean_fee (jget d ''mrw_fee_usd'') = Inr mrw" "clean_fee (jget d ''zoom_fee_usd'') = Inr zoom"
    "rates_from home (rate_keys \<lparr>cr_city = city, cr_aliases = al, cr_mrw_fee = 0, cr_zoom_fee = 0\<rparr> @ seen) raws = Inr rs'"
    "rs = \<lparr>cr_city = city, cr_aliases = al, cr_mrw_fee = mrw, cr_zoom_fee = zoom\<rparr> # rs'"
    by (auto simp: Let_def split: json.splits sum.splits if_splits)
  define r0 where "r0 = \<lparr>cr_city = city, cr_aliases = al, cr_mrw_fee = 0, cr_zoom_fee = 0\<rparr>"
  define r1 where "r1 = \<lparr>cr_city = city, cr_aliases = al, cr_mrw_fee = mrw, cr_zoom_fee = zoom\<rparr>"
  have p: "rate_keys r1 = rate_keys r0" by (simp add: r0_def r1_def entry_keys_def)
  have "keys_disjoint rate_keys rs' \<and> (\<forall>r \<in> set rs'. set (rate_keys r) \<inter> set (rate_keys r0 @ seen) = {})
      \<and> (\<forall>r \<in> set rs'. set (rate_keys r) \<inter> set home = {}
       \<and> 0 \<le> cr_mrw_fee r \<and> cr_mrw_fee r \<le> 100000 \<and> 0 \<le> cr_zoom_fee r \<and> cr_zoom_fee r \<le> 100000)"
    using "2.IH"[OF c refl _ _ z(3,4), of rs'] z(1,2,5) unfolding r0_def by blast
  moreover have "cr_mrw_fee r1 = mrw" "cr_zoom_fee r1 = zoom" by (simp_all add: r1_def)
  moreover have "set (rate_keys r1) \<inter> set home = {}" using z(2) unfolding p r0_def by blast
  ultimately show ?case using clean_fee_bounds[OF z(3)] clean_fee_bounds[OF z(4)]
      keys_disjoint_step[where keys = rate_keys and x = r1 and es = rs', OF _ _ z(1)[folded r0_def] p]
    unfolding z(6) r1_def[symmetric] by simp
qed (simp add: keys_disjoint_def)

text \<open>What a validated policy guarantees.\<close>

definition policy_ok :: "shipping_policy \<Rightarrow> bool" where
  "policy_ok p \<longleftrightarrow> sp_currency p = ''USD'' \<and> keys_disjoint city_keys (sp_cities p)
     \<and> keys_disjoint zone_pairs (sp_zones p) \<and> keys_disjoint rate_keys (sp_rates p)
     \<and> (\<forall>z \<in> set (sp_zones p). 0 \<le> hz_fee z \<and> hz_fee z \<le> 100000 \<and> hz_city z \<in> hc_name ` set (sp_cities p))
     \<and> (\<forall>r \<in> set (sp_rates p). 0 \<le> cr_mrw_fee r \<and> cr_mrw_fee r \<le> 100000
          \<and> 0 \<le> cr_zoom_fee r \<and> cr_zoom_fee r \<le> 100000
          \<and> (\<forall>c \<in> set (sp_cities p). set (rate_keys r) \<inter> set (city_keys c) = {}))"

lemma normalize_policy_ok: "normalize_shipping_policy raw = Inr p \<Longrightarrow> policy_ok p"
proof -
  assume n: "normalize_shipping_policy raw = Inr p"
  then obtain d where "normalize_policy_object d = Inr p"
    by (auto simp: normalize_shipping_policy_def split: json.splits pyval.splits)
  then obtain r1 t1 r2 t2 r3 t3 where c: "sp_currency p = ''USD''" "cities_from [] r1 = Inr (sp_cities p)"
    "zones_from (sp_cities p) [] r2 = Inr (sp_zones p)"
    "rates_from (concat (map city_keys (sp_cities p))) [] r3 = Inr (sp_rates p)"
    by (auto simp: normalize_policy_object_def normalize_home_cities_def normalize_home_zones_def
          normalize_courier_rates_def Let_def split: if_splits sum.splits json.splits)
  show "policy_ok p"
    using c(1) cities_from_keys[OF c(2)] zones_from_keys[OF c(3)] rates_from_keys[OF c(4)]
    unfolding policy_ok_def by auto
qed

lemma zone_keys_pairs:
  "location_key (hz_city z) = location_key (hz_city z') \<Longrightarrow> set (zone_keys z) \<inter> set (zone_keys z') \<noteq> {}
   \<Longrightarrow> set (zone_pairs z) \<inter> set (zone_pairs z') \<noteq> {}"
  by (auto simp: zone_pairs_def)

text \<open>A configured zone is quoted at its fee: under a policy that validates, any wording of a
  home city and of one of its zones resolves to that zone's fee, wherever the entries stand in the
  policy and whatever courier is named.\<close>

theorem home_zone_quoted:
  assumes "normalize_shipping_policy policy = Inr p" "c \<in> set (sp_cities p)" "z \<in> set (sp_zones p)"
    and "hz_city z = hc_name c"
    and "clean_text city False = Inr ct" "ct \<noteq> []" "location_key ct \<in> set (city_keys c)"
    and "clean_text zone False = Inr zt" "zt \<noteq> []" "location_key zt \<in> set (zone_keys z)"
  shows "resolve_delivery_quote policy city zone m
       = Inr (HomeQuoted (hc_name c) (hz_name z) (hz_fee z) ''USD'')
     \<and> 0 \<le> hz_fee z \<and> hz_fee z \<le> 100000"
proof -
  have ok: "policy_ok p" by (rule normalize_policy_ok[OF assms(1)])
  let ?zs = "filter (\<lambda>z. location_key (hz_city z) = location_key (hc_name c)) (sp_zones p)"
  have "match_location hc_name hc_aliases (sp_cities p) ct = Some c"
    using ok assms(2,7) by (intro match_location_decides) (auto simp: policy_ok_def)
  moreover have "match_location hz_name hz_aliases ?zs zt = Some z"
  proof (rule match_location_decides)
    show "keys_disjoint zone_keys ?zs" unfolding keys_disjoint_def
    proof (intro ballI impI)
      fix e e' assume e: "e \<in> set ?zs" "e' \<in> set ?zs" "set (zone_keys e) \<inter> set (zone_keys e') \<noteq> {}"
      then have "set (zone_pairs e) \<inter> set (zone_pairs e') \<noteq> {}"
        by (intro zone_keys_pairs) simp_all
      then show "e = e'" using ok e(1,2) by (simp add: policy_ok_def keys_disjoint_def)
    qed
  qed (use assms in simp_all)
  moreover have "sp_currency p = ''USD''" "0 \<le> hz_fee z \<and> hz_fee z \<le> 100000"
    using ok assms(3) by (simp_all add: policy_ok_def)
  ultimately show ?thesis
    using assms by (simp add: resolve_delivery_quote_def resolve_home_delivery_def Let_def)
qed

text \<open>Agency rates: a configured destination is quoted at the fee of the courier named, and no
  home city has one; a quote never answers an unconfigured price.\<close>

theorem agency_rate_quoted:
  assumes "normalize_shipping_policy policy = Inr p" "r \<in> set (sp_rates p)"
    and "clean_text city False = Inr ct" "ct \<noteq> []" "location_key ct \<in> set (rate_keys r)"
    and "py_lower (py_strip (j_str_or_empty m)) = courier" "courier \<in> set valid_couriers"
  shows "resolve_delivery_quote policy city zone m
       = Inr (AgencyQuoted (cr_city r) courier (courier_fee courier r) ''USD'')
     \<and> 0 \<le> courier_fee courier r \<and> courier_fee courier r \<le> 100000
     \<and> (\<forall>c \<in> set (sp_cities p). location_key ct \<notin> set (city_keys c))"
proof -
  have ok: "policy_ok p" by (rule normalize_policy_ok[OF assms(1)])
  then have home: "\<forall>c \<in> set (sp_cities p). location_key ct \<notin> set (city_keys c)"
    using assms(2,5) unfolding policy_ok_def by blast
  then have "match_location hc_name hc_aliases (sp_cities p) ct = None"
    by (simp add: match_location_def find_None_iff)
  moreover have "match_location cr_city cr_aliases (sp_rates p) ct = Some r"
    using ok assms(2,5) by (intro match_location_decides) (auto simp: policy_ok_def)
  moreover have "sp_currency p = ''USD''" "0 \<le> courier_fee courier r \<and> courier_fee courier r \<le> 100000"
    using ok assms(2) by (auto simp: policy_ok_def courier_fee_def)
  ultimately show ?thesis using assms home by (simp add: resolve_delivery_quote_def Let_def)
qed

definition sample_policy :: json where
  "sample_policy = JObj
     [(''home_delivery_cities'', JList [JObj [(''name'', JVal (PStr ''Valencia''))] []] []),
      (''home_delivery_zones'', JList [JObj [(''city'', JVal (PStr ''valencia'')),
         (''name'', JVal (PStr ''Norte'')), (''fee_usd'', JVal (PInt 3))] []] []),
      (''courier_destination_rates'', JList [JObj [(''city'', JVal (PStr ''Merida'')),
         (''mrw_fee_usd'', JVal (PInt 5)), (''zoom_fee_usd'', JVal (PInt 6))] []] [])] []"

definition sample_normal :: shipping_policy where
  "sample_normal = \<lparr>sp_currency = ''USD'', sp_cities = [\<lparr>hc_name = ''Valencia'', hc_aliases = []\<rparr>],
     sp_zones = [\<lparr>hz_city = ''Valencia'', hz_name = ''Norte'', hz_aliases = [], hz_fee = 3\<rparr>],
     sp_rates = [\<lparr>cr_city = ''Merida'', cr_aliases = [], cr_mrw_fee = 5, cr_zoom_fee = 6\<rparr>]\<rparr>"

lemma sample_normalized: "normalize_shipping_policy sample_policy = Inr sample_normal"
  by code_simp

theorem home_zone_quoted_witness:
  "resolve_delivery_quote sample_policy (JVal (PStr '' VALENCIA'')) (JVal (PStr ''norte'')) (JVal PNone)
     = Inr (HomeQuoted ''Valencia'' ''Norte'' 3 ''USD'')"
proof -
  let ?c = "hd (sp_cities sample_normal)" and ?z = "hd (sp_zones sample_normal)"
  have "?c \<in> set (sp_cities sample_normal)" "?z \<in> set (sp_zones sample_normal)" "hz_city ?z = hc_name ?c"
    "clean_text (JVal (PStr '' VALENCIA'')) False = Inr ''VALENCIA''" "''VALENCIA'' \<noteq> []"
    "location_key ''VALENCIA'' \<in> set (city_keys ?c)"
    "clean_text (JVal (PStr ''norte'')) False = Inr ''norte''" "''norte'' \<noteq> []"
    "location_key ''norte'' \<in> set (zone_keys ?z)"
    by code_simp+
  from home_zone_quoted[OF sample_normalized this, of "JVal PNone"] show ?thesis
    by (simp add: sample_normal_def)
qed

theorem agency_rate_quoted_witness:
  "resolve_delivery_quote sample_policy (JVal (PStr ''merida'')) (JVal PNone) (JVal (PStr '' Zoom''))
     = Inr (AgencyQuoted ''Merida'' ''zoom'' 6 ''USD'')"
proof -
  let ?r = "hd (sp_rates sample_normal)"
  have "?r \<in> set (sp_rates sample_normal)" "clean_text (JVal (PStr ''merida'')) False = Inr ''merida''"
    "''merida'' \<noteq> []" "location_key ''merida'' \<in> set (rate_keys ?r)"
    "py_lower (py_strip (j_str_or_empty (JVal (PStr '' Zoom'')))) = ''zoom''" "''zoom'' \<in> set valid_couriers"
    by code_simp+
  from agency_rate_quoted[OF sample_normalized this, of "JVal PNone"] show ?thesis
    by (simp add: sample_normal_def courier_fee_def)
qed

end
