(* ===== verification/Customers.thy ===== *)
theory Customers
  imports Prelude
begin

text \<open>
  Customers: \<open>store/app/customer_identity.py\<close> (phone normalisation, first names safe to
  reuse) and \<open>store/app/crm/customers.py\<close> (lookup and creation, tags, purchase totals and
  the tags derived from them, updates, deletion). The \<open>customers\<close> table is a list of records,
  its row lock and transactions make each operation one step. A generated id is the argument
  \<open>new_id\<close> and \<open>NOW()\<close> the argument \<open>now\<close>.
\<close>

section \<open>Customer identity\<close>

definition is_hex :: "char \<Rightarrow> bool" where
  "is_hex c = (is_digit c \<or> (let n = (of_char (lower_char c) :: nat) in 97 \<le> n \<and> n \<le> 102))"

definition is_ascii_letter :: "char \<Rightarrow> bool" where
  "is_ascii_letter c =
     (let n = (of_char c :: nat) in (65 \<le> n \<and> n \<le> 90) \<or> (97 \<le> n \<and> n \<le> 122))"

text \<open>\<open>str.isdigit\<close> also accepts the superscripts one, two and three.\<close>

definition py_isdigit :: "char \<Rightarrow> bool" where
  "py_isdigit c = (is_digit c \<or> (of_char c :: nat) \<in> {178, 179, 185})"

definition is_uuid_like :: "string option \<Rightarrow> bool" where
  "is_uuid_like value =
     (let s = py_strip (case value of None \<Rightarrow> [] | Some v \<Rightarrow> v);
          parts = splits (\<lambda>c. c = CHR ''-'') s in
      map length parts = [8, 4, 4, 4, 12] \<and> list_all (list_all is_hex) parts
      \<and> hd (parts ! 2) \<in> set ''12345'' \<and> lower_char (hd (parts ! 3)) \<in> set ''89ab'')"

definition drop_phone_scheme :: "string \<Rightarrow> string" where
  "drop_phone_scheme raw =
     (if starts_with ''tel:'' (py_lower raw) then drop 4 raw
      else if starts_with ''phone:'' (py_lower raw) then drop 6 raw else raw)"

definition normalize_phone_number :: "string option \<Rightarrow> string option" where
  "normalize_phone_number value =
     (let raw0 = py_strip (case value of None \<Rightarrow> [] | Some v \<Rightarrow> v) in
      if raw0 = [] \<or> is_uuid_like (Some raw0) then None
      else (let raw = py_strip (drop_phone_scheme raw0) in
            if list_ex is_ascii_letter raw then None
            else (let compact0 = filter (\<lambda>c. \<not> py_space c \<and> c \<notin> set ''().-'') raw;
                      compact = (if starts_with ''+'' raw
                                 then CHR ''+'' # dropWhile (\<lambda>c. c = CHR ''+'') compact0
                                 else compact0);
                      plus = starts_with ''+'' compact;
                      digits = (if plus then tl compact else compact) in
                  if digits = [] \<or> \<not> list_all py_isdigit digits then None
                  else if \<not> (10 \<le> length digits \<and> length digits \<le> 15) then None
                  else Some (if plus then CHR ''+'' # digits else digits))))"

definition looks_like_phone_number :: "string option \<Rightarrow> bool" where
  "looks_like_phone_number value = (normalize_phone_number value \<noteq> None)"

text \<open>Tokens that are not names. The accented spellings of the source list contain characters
  that \<open>_normalize_token\<close> has already removed, so they can never be met.\<close>

definition non_name_tokens :: "string list" where
  "non_name_tokens = [''admin'', ''amen'', ''amor'', ''bendecida'', ''bendecido'', ''bendicion'',
     ''blessed'', ''boss'', ''cristo'', ''dios'', ''equipo'', ''es'', ''familia'', ''fe'', ''hija'',
     ''hijas'', ''hijo'', ''hijos'', ''jesus'', ''manager'', ''mama'', ''mi'', ''mis'', ''mom'',
     ''official'', ''oficial'', ''papa'', ''para'', ''pastor'', ''pastore'', ''por'', ''princesa'',
     ''principe'', ''queen'', ''reina'', ''rey'', ''senor'', ''shop'', ''soldado'', ''store'',
     ''team'', ''tienda'', ''todo'', ''ventas'']"

definition is_spanish_letter :: "char \<Rightarrow> bool" where
  "is_spanish_letter c = (is_ascii_letter c \<or>
     (of_char c :: nat) \<in> {193, 201, 205, 211, 218, 220, 209, 225, 233, 237, 243, 250, 252, 241})"

definition is_word_char :: "char \<Rightarrow> bool" where
  "is_word_char c = (let n = (of_char c :: nat) in
     is_digit c \<or> is_ascii_letter c \<or> n = 95 \<or> n \<in> {170, 178, 179, 181, 185, 186, 188, 189, 190}
     \<or> (192 \<le> n \<and> n \<noteq> 215 \<and> n \<noteq> 247))"

definition quote_char :: char where
  "quote_char = CHR 0x27"

definition name_token_ok :: "string \<Rightarrow> bool" where
  "name_token_ok t = (case t of [] \<Rightarrow> False
     | c # cs \<Rightarrow> is_spanish_letter c \<and> length cs \<le> 24
                \<and> list_all (\<lambda>d. is_spanish_letter d \<or> d = quote_char \<or> d = CHR ''-'') cs)"

definition capitalize :: "string \<Rightarrow> string" where
  "capitalize s = (case s of [] \<Rightarrow> [] | c # cs \<Rightarrow> upper_char c @ py_lower cs)"

text \<open>\<open>re.split\<close> on a dash or a quote, with the separators kept in between.\<close>

fun titlecase_aux :: "string \<Rightarrow> string \<Rightarrow> string" where
  "titlecase_aux acc [] = capitalize (rev acc)"
| "titlecase_aux acc (c # cs) =
     (if c = CHR ''-'' \<or> c = quote_char then capitalize (rev acc) @ c # titlecase_aux [] cs
      else titlecase_aux (c # acc) cs)"

definition titlecase_token :: "string \<Rightarrow> string" where
  "titlecase_token t = titlecase_aux [] t"

definition normalize_token :: "string \<Rightarrow> string" where
  "normalize_token t = ascii_fold (py_lower t)"

definition extract_safe_first_name :: "string option \<Rightarrow> string option" where
  "extract_safe_first_name display_name =
     (let raw = py_strip (case display_name of None \<Rightarrow> [] | Some v \<Rightarrow> v) in
      if raw = [] \<or> starts_with ''@'' raw then None
      else if list_ex py_isdigit raw then None
      else if list_ex (\<lambda>c. \<not> (is_word_char c \<or> py_space c \<or> c = quote_char \<or> c \<in> set ''-.'')) raw
      then None
      else (let strip = strip_chars (CHR ''.'' # CHR ''-'' # [quote_char]);
                tokens = filter (\<lambda>t. t \<noteq> []) (map strip (split_ws raw)) in
            if tokens = [] \<or> 4 < length tokens then None
            else if list_ex (\<lambda>t. normalize_token t \<in> set non_name_tokens) tokens then None
            else if list_ex (\<lambda>t. \<not> name_token_ok t) tokens then None
            else if length (hd tokens) < 2 then None
            else Some (titlecase_token (hd tokens))))"

definition is_safe_customer_name :: "string option \<Rightarrow> bool" where
  "is_safe_customer_name display_name =
     (case extract_safe_first_name display_name of None \<Rightarrow> False | Some n \<Rightarrow> n \<noteq> [])"

section \<open>Tags\<close>

definition is_slug_char :: "char \<Rightarrow> bool" where
  "is_slug_char c = (let n = (of_char c :: nat) in (97 \<le> n \<and> n \<le> 122) \<or> is_digit c \<or> n = 95)"

definition us :: char where
  "us = CHR ''_''"

definition slugify_tag_value :: "string \<Rightarrow> string" where
  "slugify_tag_value value =
     (let t0 = map (\<lambda>c. if c = CHR ''-'' then us else c) (ascii_fold (py_lower value));
          t1 = sub_runs py_space [us] t0;
          t2 = sub_runs (\<lambda>c. \<not> is_slug_char c) [us] t1;
          t3 = sub_runs (\<lambda>c. c = us) [us] t2 in
      take 64 (strip_chars [us] t3))"

fun split_colon :: "string \<Rightarrow> (string \<times> string) option" where
  "split_colon [] = None"
| "split_colon (c # cs) =
     (if c = CHR '':'' then Some ([], cs)
      else map_option (\<lambda>(a, b). (c # a, b)) (split_colon cs))"

definition normalize_tag :: "string \<Rightarrow> string" where
  "normalize_tag tag =
     (let raw = py_strip tag in
      if raw = [] then []
      else (case split_colon raw of
              None \<Rightarrow> slugify_tag_value raw
            | Some (pre0, val0) \<Rightarrow>
                (let pre = take 32 (slugify_tag_value pre0);
                     v = slugify_tag_value (py_strip val0);
                     w = (if pre = ''size'' then py_upper v else v) in
                 if pre = [] then [] else if w = [] then [] else pre @ '':'' @ w)))"

definition normalize_tags :: "string list \<Rightarrow> string list" where
  "normalize_tags tags = dedupe (filter (\<lambda>t. t \<noteq> []) (map normalize_tag tags))"

section \<open>The customers table\<close>

record customer =
  c_id :: string
  c_channel :: string
  c_platform_id :: string
  c_name :: "string option"
  c_phone :: "string option"
  c_handle :: "string option"
  c_tags :: "string list"
  c_orders :: int
  c_spent :: rat
  c_last_active :: int
  c_state :: string
  c_esc_source :: "string option"
  c_esc_at :: "int option"
  c_esc_expires :: "int option"
  c_blocked :: bool
  c_opt_in :: bool
  c_opt_in_at :: "int option"
  c_opt_out_at :: "int option"

definition nonempty :: "string \<Rightarrow> string option" where
  "nonempty s = (if s = [] then None else Some s)"

definition opt_str :: "string option \<Rightarrow> string" where
  "opt_str v = (case v of None \<Rightarrow> [] | Some s \<Rightarrow> s)"

definition new_customer ::
  "string \<Rightarrow> int \<Rightarrow> string \<Rightarrow> string \<Rightarrow> string option \<Rightarrow> string option \<Rightarrow> string option \<Rightarrow> customer" where
  "new_customer new_id now channel pid name phone handle =
     \<lparr>c_id = new_id, c_channel = channel, c_platform_id = pid, c_name = name, c_phone = phone,
      c_handle = handle, c_tags = [''new_lead''], c_orders = 0, c_spent = 0, c_last_active = now,
      c_state = ''active'', c_esc_source = None, c_esc_at = None, c_esc_expires = None,
      c_blocked = False, c_opt_in = False, c_opt_in_at = None, c_opt_out_at = None\<rparr>"

definition find_platform :: "string \<Rightarrow> string \<Rightarrow> customer list \<Rightarrow> customer option" where
  "find_platform channel pid t = find (\<lambda>c. c_channel c = channel \<and> c_platform_id c = pid) t"

definition normalize_handle :: "string option \<Rightarrow> string option" where
  "normalize_handle h = nonempty (dropWhile (\<lambda>c. c = CHR ''@'') (py_strip (opt_str h)))"

text \<open>An update that would break the unique pair of channel and platform id raises.\<close>

definition platform_key :: "customer \<Rightarrow> string \<times> string" where
  "platform_key c = (c_channel c, c_platform_id c)"

definition refresh_profile ::
  "int \<Rightarrow> string option \<Rightarrow> string option \<Rightarrow> string option \<Rightarrow> customer \<Rightarrow> customer" where
  "refresh_profile now name phone handle c =
     c\<lparr>c_last_active := now,
       c_name := (if name \<noteq> None then name else c_name c),
       c_phone := (if phone \<noteq> None then phone else c_phone c),
       c_handle := (if handle \<noteq> None then handle else c_handle c)\<rparr>"

definition get_or_create_customer ::
  "string \<Rightarrow> int \<Rightarrow> string \<Rightarrow> string \<Rightarrow> string option \<Rightarrow> string option \<Rightarrow> string option \<Rightarrow> bool
   \<Rightarrow> customer list \<Rightarrow> customer \<times> customer list" where
  "get_or_create_customer new_id now channel pid display_name phone handle fallback t =
     (let name0 = nonempty (py_strip (opt_str display_name));
          nphone = normalize_phone_number phone;
          nhandle = normalize_handle handle;
          at_handle = map_option (\<lambda>h. CHR ''@'' # h) nhandle;
          name1 = (if channel = ''instagram'' \<and> name0 = None \<and> nhandle \<noteq> None
                   then at_handle else name0) in
      case find_platform channel pid t of
        Some row \<Rightarrow>
          (let current = nonempty (py_strip (opt_str (c_name row)));
               name2 = (if nhandle \<noteq> None \<and> channel = ''instagram'' \<and> name1 = None
                          \<and> (current = None \<or> current = Some (c_platform_id row))
                        then at_handle else name1);
               t' = upd_where (\<lambda>c. c_id c = c_id row) (refresh_profile now name2 nphone nhandle) t in
           (case find_by c_id (c_id row) t' of Some c \<Rightarrow> (c, t') | None \<Rightarrow> (row, t')))
      | None \<Rightarrow>
          (let phone' = (if nphone = None \<and> fallback \<and> channel = ''whatsapp''
                         then normalize_phone_number (Some pid) else nphone);
               c = new_customer new_id now channel pid name1 phone' nhandle in
           (c, t @ [c])))"

definition add_tags :: "string \<Rightarrow> string list \<Rightarrow> customer list \<Rightarrow> customer list" where
  "add_tags cid new_tags t =
     upd_where (\<lambda>c. c_id c = cid) (\<lambda>c. c\<lparr>c_tags := normalize_tags (c_tags c @ new_tags)\<rparr>) t"

definition remove_tag :: "string \<Rightarrow> string \<Rightarrow> customer list \<Rightarrow> customer list" where
  "remove_tag cid tag t =
     upd_where (\<lambda>c. c_id c = cid)
       (\<lambda>c. c\<lparr>c_tags := dedupe (filter (\<lambda>x. x \<noteq> [] \<and> x \<noteq> normalize_tag tag)
                                        (map normalize_tag (c_tags c)))\<rparr>) t"

definition set_conversation_state :: "string \<Rightarrow> string \<Rightarrow> customer list \<Rightarrow> customer list" where
  "set_conversation_state cid state t = upd_where (\<lambda>c. c_id c = cid) (\<lambda>c. c\<lparr>c_state := state\<rparr>) t"

definition increment_orders :: "string \<Rightarrow> rat \<Rightarrow> customer list \<Rightarrow> customer list" where
  "increment_orders cid amount t =
     upd_where (\<lambda>c. c_id c = cid)
       (\<lambda>c. c\<lparr>c_orders := c_orders c + 1, c_spent := c_spent c + amount\<rparr>) t"

definition decrement_orders :: "string \<Rightarrow> rat \<Rightarrow> customer list \<Rightarrow> customer list" where
  "decrement_orders cid amount t =
     upd_where (\<lambda>c. c_id c = cid)
       (\<lambda>c. c\<lparr>c_orders := max (c_orders c - 1) 0, c_spent := max (c_spent c - amount) 0\<rparr>) t"

definition desired_tiers :: "int \<Rightarrow> rat \<Rightarrow> string list" where
  "desired_tiers n spent =
     (if 2 \<le> n then [''repeat_buyer''] else []) @ (if 3 \<le> n \<or> 100 \<le> spent then [''vip''] else [])"

definition tier_tags :: "string list" where
  "tier_tags = [''repeat_buyer'', ''vip'']"

definition reconcile_tiers :: "int \<Rightarrow> rat \<Rightarrow> string list \<Rightarrow> string list" where
  "reconcile_tiers n spent existing =
     (let kept = filter (\<lambda>t. t \<notin> set tier_tags \<or> t \<in> set (desired_tiers n spent)) existing in
      fold (\<lambda>tag u. if tag \<in> set (desired_tiers n spent) \<and> tag \<notin> set u then u @ [tag] else u)
           tier_tags kept)"

definition sync_purchase_tier_tags :: "string \<Rightarrow> customer list \<Rightarrow> customer list" where
  "sync_purchase_tier_tags cid t =
     (case find_by c_id cid t of
        None \<Rightarrow> t
      | Some row \<Rightarrow>
          (let existing = normalize_tags (c_tags row);
               updated = reconcile_tiers (c_orders row) (c_spent row) existing in
           if updated \<noteq> existing
           then upd_where (\<lambda>c. c_id c = cid) (\<lambda>c. c\<lparr>c_tags := updated\<rparr>) t else t))"

definition update_customer ::
  "int \<Rightarrow> string \<Rightarrow> string option \<Rightarrow> string option \<Rightarrow> bool option \<Rightarrow> customer list
   \<Rightarrow> (py_exc + customer option) \<times> customer list" where
  "update_customer now cid channel state opt_in t =
     (case find_by c_id cid t of
        None \<Rightarrow> (Inr None, t)
      | Some row \<Rightarrow>
          (if channel = None \<and> state = None \<and> opt_in = None then (Inr (Some row), t)
           else (let f = (\<lambda>c. let c1 = (case channel of None \<Rightarrow> c | Some ch \<Rightarrow> c\<lparr>c_channel := ch\<rparr>);
                                  c2 = (case state of None \<Rightarrow> c1 | Some s \<Rightarrow> c1\<lparr>c_state := s\<rparr>) in
                              case opt_in of None \<Rightarrow> c2
                              | Some b \<Rightarrow> c2\<lparr>c_opt_in := b,
                                   c_opt_in_at := (if b then Some now else c_opt_in_at c2),
                                   c_opt_out_at := (if b then None else Some now)\<rparr>);
                     t' = upd_where (\<lambda>c. c_id c = cid) f t in
                 if distinct (map platform_key t') then (Inr (find_by c_id cid t'), t')
                 else (Inl (OtherError ''unique violation''), t))))"

definition delete_customer :: "string \<Rightarrow> customer list \<Rightarrow> bool \<times> customer list" where
  "delete_customer cid t =
     (case find_by c_id cid t of
        None \<Rightarrow> (False, t) | Some _ \<Rightarrow> (True, del_where (\<lambda>c. c_id c = cid) t))"

section \<open>Tags: shape and idempotence\<close>

definition single_us :: "string \<Rightarrow> bool" where
  "single_us s = successively (\<lambda>a b. \<not> (a = us \<and> b = us)) s"

text \<open>What a slug looks like before it is cut to 64 characters.\<close>

definition slug_shape :: "string \<Rightarrow> bool" where
  "slug_shape s = (list_all is_slug_char s \<and> single_us s
     \<and> (s = [] \<or> hd s \<noteq> us \<and> last s \<noteq> us))"

lemma slug_char_facts:
  assumes "is_slug_char c"
  shows "lower_char c = c" "ascii_fold_char c = [c]" "c \<noteq> CHR ''-''" "\<not> py_space c" "c \<noteq> CHR '':''"
proof -
  define n :: nat where "n = of_char c"
  have c: "c = char_of n" by (simp add: n_def)
  have n: "(97 \<le> n \<and> n \<le> 122) \<or> (48 \<le> n \<and> n \<le> 57) \<or> n = 95"
    using assms by (simp add: is_slug_char_def is_digit_def n_def Let_def)
  show "lower_char c = c" using n by (auto simp: lower_char_def n_def[symmetric] Let_def)
  have "n < 128" using n by auto
  then show "ascii_fold_char c = [c]" by (simp add: ascii_fold_char_def n_def[symmetric] Let_def)
  show "\<not> py_space c" using n by (auto simp: py_space_def n_def[symmetric] Let_def)
  have "c = CHR ''-'' \<Longrightarrow> n = 45" "c = CHR '':'' \<Longrightarrow> n = 58" by (simp_all add: n_def)
  then show "c \<noteq> CHR ''-''" "c \<noteq> CHR '':''" using n by auto
qed

lemma slug_upper_facts:
  assumes "is_slug_char c"
  shows "\<exists>d. upper_char c = [d] \<and> lower_char d = c \<and> \<not> py_space d"
proof -
  define n :: nat where "n = of_char c"
  have c: "c = char_of n" by (simp add: n_def)
  have n: "(97 \<le> n \<and> n \<le> 122) \<or> (48 \<le> n \<and> n \<le> 57) \<or> n = 95"
    using assms by (simp add: is_slug_char_def is_digit_def n_def Let_def)
  show ?thesis
  proof (cases "97 \<le> n")
    case True
    then have "n \<le> 122" using n by auto
    then have "upper_char c = [char_of (n - 32)]" using True
      by (simp add: upper_char_def n_def[symmetric] Let_def)
    moreover have o: "of_char (char_of (n - 32)) = n - 32" using True \<open>n \<le> 122\<close> by simp
    moreover have "65 \<le> n - 32 \<and> n - 32 \<le> 90 \<and> n - 32 + 32 = n" using True \<open>n \<le> 122\<close> by arith
    then have "lower_char (char_of (n - 32)) = c"
      unfolding lower_char_def Let_def o by (simp add: c)
    moreover have "\<not> py_space (char_of (n - 32))" using True \<open>n \<le> 122\<close>
      unfolding py_space_def Let_def o by auto
    ultimately show ?thesis by blast
  next
    case False
    then have "upper_char c = [c]" using n by (auto simp: upper_char_def n_def[symmetric] Let_def)
    then show ?thesis using slug_char_facts[OF assms] by blast
  qed
qed

lemma us_slug [simp]: "is_slug_char us"
  by (simp add: us_def is_slug_char_def)

lemma sub_runs_aux_none: "list_all (\<lambda>c. \<not> P c) s \<Longrightarrow> sub_runs_aux P r b s = s"
  by (induction s arbitrary: b) auto

lemma sub_runs_none: "list_all (\<lambda>c. \<not> P c) s \<Longrightarrow> sub_runs P r s = s"
  by (simp add: sub_runs_def sub_runs_aux_none)

lemma sub_us_id: "single_us s \<Longrightarrow> (b \<longrightarrow> s = [] \<or> hd s \<noteq> us) \<Longrightarrow> sub_runs_aux (\<lambda>c. c = us) [us] b s = s"
proof (induction s arbitrary: b)
  case (Cons c s)
  then show ?case by (cases s) (auto simp: single_us_def)
qed simp

lemma sub_us_single:
  "single_us (sub_runs_aux (\<lambda>c. c = us) [us] b s)
   \<and> (b \<longrightarrow> (let r = sub_runs_aux (\<lambda>c. c = us) [us] b s in r = [] \<or> hd r \<noteq> us))"
proof (induction s arbitrary: b)
  case (Cons c s)
  show ?case using Cons[of True] Cons[of False]
    by (cases "c = us"; cases b)
       (auto simp: single_us_def successively_Cons Let_def)
qed (simp add: single_us_def)

lemma sub_runs_set: "set (sub_runs_aux P r b s) \<subseteq> {c \<in> set s. \<not> P c} \<union> set r"
  by (induction s arbitrary: b) (auto split: if_splits)

lemma sub_runs_length: "length r \<le> 1 \<Longrightarrow> length (sub_runs_aux P r b s) \<le> length s"
proof (induction s arbitrary: b)
  case (Cons c s)
  show ?case using Cons(1)[OF Cons(2), of True] Cons(1)[OF Cons(2), of False] Cons(2) by auto
qed simp

lemma single_us_dropWhile: "single_us s \<Longrightarrow> single_us (dropWhile P s)"
proof (induction s)
  case (Cons a s)
  then show ?case by (auto simp: single_us_def successively_Cons)
qed simp

lemma single_us_rev: "single_us (rev s) = single_us s"
proof -
  have "(\<lambda>x y. \<not> (y = us \<and> x = us)) = (\<lambda>a b. \<not> (a = us \<and> b = us))" by (intro ext) blast
  then show ?thesis unfolding single_us_def successively_rev by (simp only:)
qed

lemma strip_chars_set: "set (strip_chars cs s) \<subseteq> set s"
  unfolding strip_chars_def by (auto dest!: set_dropWhileD)

lemma strip_chars_length: "length (strip_chars cs s) \<le> length s"
  unfolding strip_chars_def
  by (metis (no_types, lifting) length_dropWhile_le length_rev order_trans)

lemma strip_chars_ends:
  "strip_chars cs s = [] \<or> hd (strip_chars cs s) \<notin> set cs \<and> last (strip_chars cs s) \<notin> set cs"
proof -
  let ?P = "\<lambda>c. c \<in> set cs"
  have d: "dropWhile ?P (strip_chars cs s) = strip_chars cs s"
    unfolding strip_chars_def by (rule dropWhile_rev_dropWhile) simp
  have r: "dropWhile ?P (rev (strip_chars cs s)) = rev (strip_chars cs s)"
    unfolding strip_chars_def by simp
  show ?thesis
  proof (cases "strip_chars cs s = []")
    case False
    then have "\<not> ?P (hd (strip_chars cs s))" "\<not> ?P (hd (rev (strip_chars cs s)))"
      using d r by (metis hd_dropWhile, metis hd_dropWhile rev_is_Nil_conv)
    then show ?thesis by (simp add: hd_rev)
  qed simp
qed

lemma strip_chars_id: "s = [] \<or> hd s \<notin> set cs \<and> last s \<notin> set cs \<Longrightarrow> strip_chars cs s = s"
proof (cases "s = []")
  case False
  assume "s = [] \<or> hd s \<notin> set cs \<and> last s \<notin> set cs"
  then have "dropWhile (\<lambda>c. c \<in> set cs) s = s" "dropWhile (\<lambda>c. c \<in> set cs) (rev s) = rev s"
    using False by (cases s, simp_all, cases "rev s", simp_all flip: hd_rev)
  then show ?thesis by (simp add: strip_chars_def)
qed (simp add: strip_chars_def)

lemma slug_shape_strip: "list_all is_slug_char s \<Longrightarrow> single_us s \<Longrightarrow> slug_shape (strip_chars [us] s)"
proof -
  assume "list_all is_slug_char s" "single_us s"
  then have "list_all is_slug_char (strip_chars [us] s)"
    using strip_chars_set[of "[us]" s] by (auto simp: list_all_iff)
  moreover have "single_us (strip_chars [us] s)" using \<open>single_us s\<close>
    unfolding strip_chars_def single_us_rev by (intro single_us_dropWhile) (simp add: single_us_rev single_us_dropWhile)
  ultimately show ?thesis using strip_chars_ends[of "[us]" s] by (auto simp: slug_shape_def)
qed

definition slug_uncut :: "string \<Rightarrow> string" where
  "slug_uncut value =
     strip_chars [us] (sub_runs (\<lambda>c. c = us) [us] (sub_runs (\<lambda>c. \<not> is_slug_char c) [us]
       (sub_runs py_space [us] (map (\<lambda>c. if c = CHR ''-'' then us else c)
         (ascii_fold (py_lower value))))))"

lemma slugify_uncut: "slugify_tag_value v = take 64 (slug_uncut v)"
  by (simp add: slugify_tag_value_def slug_uncut_def Let_def)

lemma slug_uncut_shape: "slug_shape (slug_uncut v)"
proof -
  let ?t1 = "sub_runs py_space [us] (map (\<lambda>c. if c = CHR ''-'' then us else c) (ascii_fold (py_lower v)))"
  have "list_all is_slug_char (sub_runs (\<lambda>c. \<not> is_slug_char c) [us] ?t1)"
    using sub_runs_set[of "\<lambda>c. \<not> is_slug_char c" "[us]" False ?t1]
    by (auto simp: sub_runs_def list_all_iff)
  then have "list_all is_slug_char (sub_runs (\<lambda>c. c = us) [us] (sub_runs (\<lambda>c. \<not> is_slug_char c) [us] ?t1))"
    using sub_runs_set[of "\<lambda>c. c = us" "[us]" False "sub_runs (\<lambda>c. \<not> is_slug_char c) [us] ?t1"]
    by (auto simp: sub_runs_def list_all_iff)
  then show ?thesis unfolding slug_uncut_def
    by (rule slug_shape_strip) (simp add: sub_runs_def sub_us_single)
qed

lemma slug_uncut_length: "length (slug_uncut v) \<le> length (ascii_fold (py_lower v))"
proof -
  have l: "length (sub_runs P [us] s) \<le> length s" for P s
    by (simp add: sub_runs_def sub_runs_length)
  let ?m = "map (\<lambda>c. if c = CHR ''-'' then us else c) (ascii_fold (py_lower v))"
  have "length (slug_uncut v) \<le> length ?m"
    unfolding slug_uncut_def
    by (meson l strip_chars_length order_trans)
  then show ?thesis by simp
qed

lemma slug_chars_lower: "list_all is_slug_char s \<Longrightarrow> py_lower s = s"
  by (induction s) (simp_all add: py_lower_def slug_char_facts)

lemma slug_chars_fold: "list_all is_slug_char s \<Longrightarrow> ascii_fold s = s"
  by (induction s) (simp_all add: ascii_fold_def slug_char_facts)

lemma slug_uncut_id:
  assumes "slug_shape s" shows "slug_uncut s = s"
proof -
  have c: "list_all is_slug_char s" using assms by (simp add: slug_shape_def)
  have "map (\<lambda>c. if c = CHR ''-'' then us else c) s = s"
    using c by (induction s) (simp_all add: slug_char_facts)
  moreover have "sub_runs py_space [us] s = s" "sub_runs (\<lambda>c. \<not> is_slug_char c) [us] s = s"
    using c by (auto intro!: sub_runs_none simp: list_all_iff slug_char_facts)
  moreover have "sub_runs (\<lambda>c. c = us) [us] s = s"
    using assms by (simp add: sub_runs_def sub_us_id slug_shape_def)
  moreover have "strip_chars [us] s = s"
    using assms by (intro strip_chars_id) (auto simp: slug_shape_def)
  ultimately show ?thesis using c
    by (simp add: slug_uncut_def slug_chars_lower slug_chars_fold)
qed

lemma slugify_shape:
  assumes "length (ascii_fold (py_lower v)) \<le> 64"
  shows "slug_shape (slugify_tag_value v)" "slugify_tag_value (slugify_tag_value v) = slugify_tag_value v"
    "length (slugify_tag_value v) \<le> length (ascii_fold (py_lower v))"
proof -
  have e: "slugify_tag_value v = slug_uncut v"
    using slug_uncut_length[of v] assms by (simp add: slugify_uncut)
  show "slug_shape (slugify_tag_value v)" "length (slugify_tag_value v) \<le> length (ascii_fold (py_lower v))"
    using slug_uncut_shape slug_uncut_length by (simp_all add: e)
  show "slugify_tag_value (slugify_tag_value v) = slugify_tag_value v"
    using slug_uncut_length[of v] assms
    by (simp add: e slugify_uncut slug_uncut_id slug_uncut_shape)
qed

lemma slug_shape_chars: "slug_shape s \<Longrightarrow> c \<in> set s \<Longrightarrow> is_slug_char c"
  by (simp add: slug_shape_def list_all_iff)

lemma py_strip_no_space: "(\<forall>c \<in> set s. \<not> py_space c) \<Longrightarrow> py_strip s = s"
proof -
  assume a: "\<forall>c \<in> set s. \<not> py_space c"
  then have "dropWhile py_space s = s" "dropWhile py_space (rev s) = rev s"
    by (auto simp add: dropWhile_eq_self_iff hd_rev)
  then show ?thesis by (simp add: py_strip_def)
qed

lemma upper_slug:
  assumes "list_all is_slug_char v"
  shows "py_lower (py_upper v) = v" "\<forall>c \<in> set (py_upper v). \<not> py_space c"
proof -
  have "py_lower (py_upper v) = v \<and> (\<forall>c \<in> set (py_upper v). \<not> py_space c)"
    using assms
  proof (induction v)
    case (Cons c v)
    then obtain d where d: "upper_char c = [d]" "lower_char d = c" "\<not> py_space d"
      using slug_upper_facts[of c] by auto
    then show ?case using Cons by (simp add: py_lower_def py_upper_def)
  qed (simp add: py_lower_def py_upper_def)
  then show "py_lower (py_upper v) = v" "\<forall>c \<in> set (py_upper v). \<not> py_space c" by blast+
qed

lemma split_colon_None: "CHR '':'' \<notin> set s \<Longrightarrow> split_colon s = None"
  by (induction s) auto

lemma split_colon_app: "CHR '':'' \<notin> set a \<Longrightarrow> split_colon (a @ CHR '':'' # b) = Some (a, b)"
  by (induction a) auto

lemma split_colon_Some: "split_colon s = Some (a, b) \<Longrightarrow> s = a @ CHR '':'' # b"
  by (induction s arbitrary: a) (auto split: if_splits)

definition fold_length :: "string \<Rightarrow> nat" where
  "fold_length s = length (ascii_fold (py_lower s))"

lemma fold_length_append: "fold_length (a @ b) = fold_length a + fold_length b"
  by (simp add: fold_length_def py_lower_def ascii_fold_def)

lemma py_strip_infix: "\<exists>a b. s = a @ py_strip s @ b"
proof -
  let ?d = "dropWhile py_space s"
  have "s = takeWhile py_space s @ ?d" by simp
  moreover have "rev ?d = takeWhile py_space (rev ?d) @ dropWhile py_space (rev ?d)"
    by (rule takeWhile_dropWhile_id[symmetric])
  then have "?d = py_strip s @ rev (takeWhile py_space (rev ?d))"
    unfolding py_strip_def by (metis rev_append rev_rev_ident)
  ultimately show ?thesis by metis
qed

lemma fold_length_strip: "fold_length (py_strip s) \<le> fold_length s"
proof -
  obtain a b where "s = a @ py_strip s @ b" using py_strip_infix by blast
  then have "fold_length s = fold_length a + fold_length (py_strip s) + fold_length b"
    using fold_length_append by (metis add.assoc)
  then show ?thesis by simp
qed

lemma normalize_tag_idem:
  assumes "fold_length t \<le> 32"
  shows "normalize_tag (normalize_tag t) = normalize_tag t"
proof -
  have raw: "fold_length (py_strip t) \<le> 32" using fold_length_strip[of t] assms by simp
  have nil: "normalize_tag [] = []" by (simp add: normalize_tag_def py_strip_def)
  show ?thesis
  proof (cases "split_colon (py_strip t)")
    case None
    have s: "slug_shape (slugify_tag_value (py_strip t))"
      "slugify_tag_value (slugify_tag_value (py_strip t)) = slugify_tag_value (py_strip t)"
      using slugify_shape[of "py_strip t"] raw by (simp_all add: fold_length_def)
    have "CHR '':'' \<notin> set (slugify_tag_value (py_strip t))"
      "py_strip (slugify_tag_value (py_strip t)) = slugify_tag_value (py_strip t)"
      using slug_shape_chars[OF s(1)] slug_char_facts
      by (blast, intro py_strip_no_space ballI, blast)
    then show ?thesis using None s(2) nil by (simp add: normalize_tag_def split_colon_None Let_def)
  next
    case (Some ab)
    obtain pre0 val0 where ab: "ab = (pre0, val0)" by (cases ab)
    have "py_strip t = (pre0 @ [CHR '':'']) @ val0" using split_colon_Some Some ab by simp
    then have "fold_length (py_strip t) = fold_length (pre0 @ [CHR '':'']) + fold_length val0"
      by (simp only: fold_length_append)
    then have len: "fold_length pre0 \<le> 32" "fold_length (py_strip val0) \<le> 32"
      using raw fold_length_strip[of val0] fold_length_append[of pre0 "[CHR '':'']"] by simp_all
    define pre where "pre = slugify_tag_value pre0"
    define v where "v = slugify_tag_value (py_strip val0)"
    have p: "slug_shape pre" "slugify_tag_value pre = pre" "take 32 pre = pre"
      using slugify_shape[of pre0] len(1) by (simp_all add: pre_def fold_length_def)
    have v: "slug_shape v" "slugify_tag_value v = v"
      using slugify_shape[of "py_strip val0"] len(2) by (simp_all add: v_def fold_length_def)
    define w where "w = (if pre = ''size'' then py_upper v else v)"
    have vc: "list_all is_slug_char v" using v(1) by (simp add: slug_shape_def)
    have n: "normalize_tag t = (if pre = [] \<or> w = [] then [] else pre @ CHR '':'' # w)"
      using Some ab p(3) by (simp add: normalize_tag_def Let_def pre_def v_def w_def) (metis (no_types, opaque_lifting) split_colon.simps(1) option.distinct(1))
    have ws: "\<forall>c \<in> set w. \<not> py_space c"
      using upper_slug(2)[OF vc] slug_shape_chars[OF v(1)] slug_char_facts(4) by (auto simp: w_def)
    have sw: "slugify_tag_value w = v"
      using v(2) upper_slug(1)[OF vc] slug_chars_lower[OF vc]
      by (simp add: w_def slugify_tag_value_def)
    have ps: "\<forall>c \<in> set pre. \<not> py_space c" and pc: "CHR '':'' \<notin> set pre"
      using slug_shape_chars[OF p(1)] slug_char_facts(4,5) by blast+
    have st: "py_strip (pre @ CHR '':'' # w) = pre @ CHR '':'' # w" "py_strip w = w"
      using ws ps by (auto intro!: py_strip_no_space simp: py_space_def)
    show ?thesis
    proof (cases "pre = [] \<or> w = []")
      case True
      then show ?thesis using n nil by simp
    next
      case False
      then have "normalize_tag (pre @ CHR '':'' # w) = pre @ CHR '':'' # w"
        using st p(2,3) sw unfolding normalize_tag_def
        by (auto simp: split_colon_app[OF pc] Let_def w_def)
      then show ?thesis using n False by simp
    qed
  qed
qed

text \<open>Normalising a tag list again changes nothing, for tags whose ASCII transliteration has at
  most 32 characters; the result has neither duplicates nor empty tags.\<close>

theorem normalize_tags_idempotent:
  assumes "\<forall>t \<in> set ts. fold_length t \<le> 32"
  shows "normalize_tags (normalize_tags ts) = normalize_tags ts
       \<and> distinct (normalize_tags ts) \<and> [] \<notin> set (normalize_tags ts)"
proof -
  have "map normalize_tag (normalize_tags ts) = normalize_tags ts"
    using assms by (intro map_idI) (auto simp: normalize_tags_def normalize_tag_idem)
  moreover have "filter (\<lambda>t. t \<noteq> []) (normalize_tags ts) = normalize_tags ts"
    by (simp add: filter_id_conv normalize_tags_def)
  ultimately show ?thesis unfolding normalize_tags_def by simp
qed

theorem normalize_tags_idempotent_witness:
  "normalize_tags (normalize_tags [''Size: xl'', ''VIP'', ''size:XL'']) = [''size:XL'', ''vip'']"
proof -
  have "\<forall>t \<in> set [''Size: xl'', ''VIP'', ''size:XL'']. fold_length t \<le> 32" by code_simp
  from normalize_tags_idempotent[OF this]
  have "normalize_tags (normalize_tags [''Size: xl'', ''VIP'', ''size:XL''])
      = normalize_tags [''Size: xl'', ''VIP'', ''size:XL'']" by (rule conjunct1)
  also have "\<dots> = [''size:XL'', ''vip'']" by code_simp
  finally show ?thesis .
qed

text \<open>A long tag is not stable: cutting a slug to 64 characters can leave an underscore at its
  end, which the next normalisation removes, so a stored tag changes when another tag is added.\<close>

theorem long_tag_unstable:
  "let t = replicate 63 (CHR ''a'') @ '' b'';
       c = new_customer ''c1'' 0 ''whatsapp'' ''p'' None None None;
       once = add_tags ''c1'' [t] [c];
       twice = add_tags ''c1'' [''vip''] once
   in map c_tags once = [[''new_lead'', replicate 63 (CHR ''a'') @ ''_'']]
      \<and> map c_tags twice = [[''new_lead'', replicate 63 (CHR ''a''), ''vip'']]"
  by code_simp

section \<open>Purchase tiers\<close>

lemma reconcile_tiers_set:
  "set (reconcile_tiers n spent tags) = (set tags - set tier_tags) \<union> set (desired_tiers n spent)"
  by (auto simp: reconcile_tiers_def tier_tags_def desired_tiers_def Let_def)

lemma reconcile_tiers_rest:
  "filter (\<lambda>t. t \<notin> set tier_tags) (reconcile_tiers n spent tags) = filter (\<lambda>t. t \<notin> set tier_tags) tags"
  by (auto simp: reconcile_tiers_def tier_tags_def desired_tiers_def Let_def intro!: filter_cong)

lemma reconcile_tiers_stable:
  assumes "set tags \<inter> set tier_tags = set (desired_tiers n spent)"
  shows "reconcile_tiers n spent tags = tags"
proof -
  have "filter (\<lambda>t. t \<notin> set tier_tags \<or> t \<in> set (desired_tiers n spent)) tags = tags"
    using assms by (auto simp: filter_id_conv)
  moreover have "t \<in> set (desired_tiers n spent) \<Longrightarrow> t \<in> set tags" for t using assms by blast
  ultimately show ?thesis by (simp add: reconcile_tiers_def tier_tags_def Let_def)
qed

lemma find_sync:
  assumes "find_by c_id cid t = Some row"
  shows "find_by c_id cid (sync_purchase_tier_tags cid t)
       = Some (if reconcile_tiers (c_orders row) (c_spent row) (normalize_tags (c_tags row)) \<noteq> normalize_tags (c_tags row)
               then row\<lparr>c_tags := reconcile_tiers (c_orders row) (c_spent row) (normalize_tags (c_tags row))\<rparr>
               else row)"
  using assms find_by_SomeD[OF assms]
  by (auto simp: sync_purchase_tier_tags_def Let_def find_by_upd_where)

text \<open>Tier tags follow the totals: for a customer whose stored tags are normalised, after the
  reconciliation the repeat-buyer tag is present exactly from two orders on, the VIP tag exactly
  from three orders or a hundred spent on, and every other tag keeps its place.\<close>

theorem tier_tags_follow_totals:
  assumes "find_by c_id cid t = Some row" "normalize_tags (c_tags row) = c_tags row"
  shows "\<exists>row'. find_by c_id cid (sync_purchase_tier_tags cid t) = Some row'
     \<and> (''repeat_buyer'' \<in> set (c_tags row') \<longleftrightarrow> 2 \<le> c_orders row)
     \<and> (''vip'' \<in> set (c_tags row') \<longleftrightarrow> 3 \<le> c_orders row \<or> 100 \<le> c_spent row)
     \<and> filter (\<lambda>x. x \<notin> set tier_tags) (c_tags row') = filter (\<lambda>x. x \<notin> set tier_tags) (c_tags row)"
proof -
  let ?u = "reconcile_tiers (c_orders row) (c_spent row) (c_tags row)"
  have "find_by c_id cid (sync_purchase_tier_tags cid t) = Some (row\<lparr>c_tags := ?u\<rparr>)"
    using find_sync[OF assms(1)] assms(2) by simp
  moreover have "''repeat_buyer'' \<in> set ?u \<longleftrightarrow> 2 \<le> c_orders row"
    "''vip'' \<in> set ?u \<longleftrightarrow> 3 \<le> c_orders row \<or> 100 \<le> c_spent row"
    by (auto simp: reconcile_tiers_set tier_tags_def desired_tiers_def)
  ultimately show ?thesis using reconcile_tiers_rest by simp
qed

theorem tier_tags_follow_totals_witness:
  "\<exists>row'. find_by c_id ''c1'' (sync_purchase_tier_tags ''c1''
       [(new_customer ''c1'' 0 ''whatsapp'' ''p'' None None None)\<lparr>c_orders := 2, c_spent := 40\<rparr>]) = Some row'
     \<and> ''repeat_buyer'' \<in> set (c_tags row') \<and> ''vip'' \<notin> set (c_tags row')"
proof -
  let ?row = "(new_customer ''c1'' 0 ''whatsapp'' ''p'' None None None)\<lparr>c_orders := 2, c_spent := 40\<rparr>"
  have "find_by c_id ''c1'' [?row] = Some ?row" by (simp add: find_by_def new_customer_def)
  moreover have "normalize_tags (c_tags ?row) = c_tags ?row" by code_simp
  ultimately show ?thesis using tier_tags_follow_totals[of "''c1''" "[?row]" ?row] by auto
qed

section \<open>Lookup and creation\<close>

definition customers_ok :: "customer list \<Rightarrow> bool" where
  "customers_ok t \<longleftrightarrow> distinct (map c_id t) \<and> distinct (map platform_key t)"

lemma find_platform_None:
  "find_platform channel pid t = None \<longleftrightarrow> (channel, pid) \<notin> platform_key ` set t"
  by (auto simp: find_platform_def find_None_iff platform_key_def)

lemma find_platform_SomeD:
  "find_platform channel pid t = Some c \<Longrightarrow> c \<in> set t \<and> platform_key c = (channel, pid)"
  by (auto simp: find_platform_def find_Some_iff platform_key_def)

lemma find_platform_unique:
  "distinct (map platform_key t) \<Longrightarrow> c \<in> set t \<Longrightarrow> platform_key c = (channel, pid)
   \<Longrightarrow> find_platform channel pid t = Some c"
  by (induction t) (auto simp: find_platform_def platform_key_def)

lemma refresh_profile_same:
  "c_id (refresh_profile now n p h c) = c_id c" "platform_key (refresh_profile now n p h c) = platform_key c"
  by (simp_all add: refresh_profile_def platform_key_def)

lemma get_or_create_found:
  assumes "find_platform channel pid t = Some row"
  shows "\<exists>n. get_or_create_customer new_id now channel pid dn ph ih fb t =
     (case find_by c_id (c_id row) (upd_where (\<lambda>c. c_id c = c_id row)
        (refresh_profile now n (normalize_phone_number ph) (normalize_handle ih)) t) of
        Some c \<Rightarrow> (c, upd_where (\<lambda>c. c_id c = c_id row)
           (refresh_profile now n (normalize_phone_number ph) (normalize_handle ih)) t)
      | None \<Rightarrow> (row, upd_where (\<lambda>c. c_id c = c_id row)
           (refresh_profile now n (normalize_phone_number ph) (normalize_handle ih)) t))"
  unfolding get_or_create_customer_def Let_def assms option.case by (rule exI, rule refl)

text \<open>Looking a customer up or creating them keeps ids and the pair of channel and platform id
  unique, returns a customer with that pair, touches no other customer, and a second contact finds
  the same customer and inserts nothing.\<close>

theorem get_or_create_customer_once:
  assumes "customers_ok t" "new_id \<notin> c_id ` set t"
    and g: "get_or_create_customer new_id now channel pid dn ph ih fb t = (c, t')"
  shows "customers_ok t' \<and> platform_key c = (channel, pid) \<and> c \<in> set t'
    \<and> (\<forall>x \<in> set t. platform_key x \<noteq> (channel, pid) \<longrightarrow> x \<in> set t')
    \<and> length t' \<le> length t + 1
    \<and> (let (c2, t2) = get_or_create_customer new_id2 now2 channel pid dn2 ph2 ih2 fb2 t'
       in c_id c2 = c_id c \<and> length t2 = length t')"
proof -
  have again: "let (c2, t2) = get_or_create_customer i2 n2 channel pid d2 p2 h2 f2 u
               in c_id c2 = c_id x \<and> length t2 = length u"
    if "customers_ok u" "x \<in> set u" "platform_key x = (channel, pid)" for u x i2 n2 d2 p2 h2 f2
  proof -
    have "find_platform channel pid u = Some x"
      using find_platform_unique that by (auto simp: customers_ok_def)
    moreover have "find_by c_id (c_id x) u = Some x"
      using that(1,2) by (auto simp: customers_ok_def intro: find_by_distinct)
    ultimately show ?thesis
      by (simp add: get_or_create_customer_def Let_def find_by_upd_where refresh_profile_same)
  qed
  have main: "customers_ok t' \<and> platform_key c = (channel, pid) \<and> c \<in> set t'
    \<and> (\<forall>x \<in> set t. platform_key x \<noteq> (channel, pid) \<longrightarrow> x \<in> set t') \<and> length t' \<le> length t + 1"
  proof (cases "find_platform channel pid t")
    case None
    then obtain n p h where c: "c = new_customer new_id now channel pid n p h" "t' = t @ [c]"
      using g by (auto simp: get_or_create_customer_def Let_def)
    have "(channel, pid) \<notin> platform_key ` set t" using None by (simp add: find_platform_None)
    moreover have "c_id c = new_id" "platform_key c = (channel, pid)"
      by (simp_all add: c(1) new_customer_def platform_key_def)
    ultimately show ?thesis using assms(1,2) by (simp add: c(2) customers_ok_def)
  next
    case (Some row)
    note r = find_platform_SomeD[OF Some]
    obtain n where n: "(c, t') = (case find_by c_id (c_id row) (upd_where (\<lambda>c. c_id c = c_id row)
        (refresh_profile now n (normalize_phone_number ph) (normalize_handle ih)) t) of
        Some c \<Rightarrow> (c, upd_where (\<lambda>c. c_id c = c_id row)
           (refresh_profile now n (normalize_phone_number ph) (normalize_handle ih)) t)
      | None \<Rightarrow> (row, upd_where (\<lambda>c. c_id c = c_id row)
           (refresh_profile now n (normalize_phone_number ph) (normalize_handle ih)) t))"
      using get_or_create_found[OF Some] g by metis
    define f where "f = refresh_profile now n (normalize_phone_number ph) (normalize_handle ih)"
    have f: "\<And>x. c_id (f x) = c_id x" "\<And>x. platform_key (f x) = platform_key x"
      by (simp_all add: f_def refresh_profile_same)
    have t': "t' = upd_where (\<lambda>c. c_id c = c_id row) f t"
      and c: "c = (case find_by c_id (c_id row) t' of Some c \<Rightarrow> c | None \<Rightarrow> row)"
      using n by (auto simp flip: f_def split: option.splits)
    have "find_by c_id (c_id row) t = Some row"
      using r assms(1) by (auto simp: customers_ok_def intro: find_by_distinct)
    then have "c = f row" "c \<in> set t'"
      using c r by (auto simp: t' find_by_upd_where[of c_id f] f in_upd_where)
    moreover have "customers_ok t'"
      using assms(1) map_key_upd_where[of _ c_id f t] map_key_upd_where[of _ platform_key f t] f
      by (simp add: t' customers_ok_def)
    moreover have "x \<in> set t'" if "x \<in> set t" "platform_key x \<noteq> (channel, pid)" for x
    proof -
      have "c_id x \<noteq> c_id row" using that r assms(1)
        by (auto simp: customers_ok_def distinct_map dest: inj_onD)
      then show ?thesis using that(1) by (force simp: t' in_upd_where)
    qed
    ultimately show ?thesis using r f by (simp add: t')
  qed
  then show ?thesis using again by blast
qed

theorem get_or_create_customer_once_witness:
  "customers_ok (snd (get_or_create_customer ''c1'' 5 ''whatsapp'' ''584125551234'' None None None True []))"
proof -
  have "customers_ok []" "''c1'' \<notin> c_id ` set []" by (simp_all add: customers_ok_def)
  from get_or_create_customer_once[OF this prod.collapse[symmetric]] show ?thesis by blast
qed

end
