(* ===== verification/Orders.thy ===== *)
theory Orders
  imports Catalog Customers Payment_Methods "HOL-Library.Multiset"
begin

text \<open>
  Orders, \<open>store/app/crm/orders.py\<close>: items checked against the catalog, amounts and discounts,
  the requests a new order must satisfy, the queries on the \<open>orders\<close> table, and the status
  transitions that run in one database transaction (payment, shipping, the last transaction of a
  deletion). The reservation of stock, which spans several transactions, is in \<open>Reservations\<close>.

  Rows are records; \<open>NOW()\<close> is the argument \<open>now\<close> (seconds). \<open>NUMERIC(10,2)\<close> columns hold
  amounts rounded to cents.
\<close>

section \<open>Statuses\<close>

definition paid_statuses :: "string list" where
  "paid_statuses = [''proof_received'', ''confirmed'']"

definition valid_payment_statuses :: "string list" where
  "valid_payment_statuses = [''pending'', ''proof_received'', ''confirmed'', ''failed'', ''rejected'']"

definition valid_shipping_statuses :: "string list" where
  "valid_shipping_statuses = [''pending'', ''shipped'', ''delivered'']"

definition reservation_in_progress :: string where
  "reservation_in_progress = ''reservation_pending''"

definition reservation_failed :: string where
  "reservation_failed = ''reservation_failed''"

definition release_in_progress :: string where
  "release_in_progress = ''release_pending''"

definition released :: string where
  "released = ''released''"

definition reservation_ttl_hours :: int where
  "reservation_ttl_hours = 48"

definition max_active_unpaid_orders :: nat where
  "max_active_unpaid_orders = 3"

lemmas status_defs = reservation_in_progress_def reservation_failed_def release_in_progress_def
  released_def paid_statuses_def

section \<open>Items against the catalog\<close>

definition normalize_catalog_text :: "string \<Rightarrow> string" where
  "normalize_catalog_text s = py_strip (sub_runs py_space '' '' (ascii_fold (py_lower s)))"

definition catalog_variant_matches_size :: "product \<Rightarrow> string \<Rightarrow> bool" where
  "catalog_variant_matches_size p sz =
     (let sizes = get_product_sizes p in
      if sz = [] then True
      else if sizes \<noteq> [] then sz \<in> set sizes else py_upper (py_strip (p_size p)) = sz)"

definition first_catalog_size :: "product \<Rightarrow> string" where
  "first_catalog_size p = (case get_product_sizes p of [] \<Rightarrow> [] | s # _ \<Rightarrow> s)"

definition first_some :: "'a option \<Rightarrow> 'a option \<Rightarrow> 'a option" where
  "first_some a b = (case a of None \<Rightarrow> b | Some _ \<Rightarrow> a)"

definition resolve_by_sku :: "product list \<Rightarrow> string \<Rightarrow> string \<Rightarrow> product option" where
  "resolve_by_sku catalog sku sz =
     (let derived = get_confirmed_derived_product_skus catalog in
      first_some (find (\<lambda>p. py_strip (p_sku p) = sku \<and> catalog_variant_matches_size p sz) catalog)
     (first_some (find (\<lambda>p. py_strip (p_parent_sku p) = sku \<and> catalog_variant_matches_size p sz) catalog)
        (find (\<lambda>p. py_strip (p_parent_sku p) = [] \<and> map_of derived (py_strip (p_sku p)) = Some sku
                   \<and> catalog_variant_matches_size p sz) catalog)))"

definition resolve_by_name :: "product list \<Rightarrow> string \<Rightarrow> string \<Rightarrow> product option" where
  "resolve_by_name catalog name sz =
     find (\<lambda>p. normalize_catalog_text (p_name p) = name \<and> catalog_variant_matches_size p sz) catalog"

definition resolve_catalog_variant :: "product list \<Rightarrow> string \<Rightarrow> string \<Rightarrow> string \<Rightarrow> product option" where
  "resolve_catalog_variant catalog sku product_name sz =
     (let nsku = py_strip sku; nname = normalize_catalog_text product_name;
          nsize = py_upper (py_strip sz) in
      first_some (if nsku \<noteq> [] then resolve_by_sku catalog nsku nsize else None)
                 (if nname \<noteq> [] then resolve_by_name catalog nname nsize else None))"

text \<open>A computed float is never printed, so it carries no text.\<close>

definition computed_float :: "rat \<Rightarrow> pyval" where
  "computed_float q = PFloat q []"

definition order_item :: "product \<Rightarrow> string \<Rightarrow> int \<Rightarrow> py_dict" where
  "order_item p requested_size quantity =
     [(''product_name'', PStr (py_strip (p_name p))), (''sku'', PStr (py_strip (p_sku p))),
      (''size'', PStr (if requested_size \<noteq> [] then requested_size else first_catalog_size p)),
      (''quantity'', PInt quantity), (''unit_price'', computed_float (round_to 2 (p_price p)))]"

definition normalize_order_item :: "product list \<Rightarrow> py_dict \<Rightarrow> py_exc + py_dict" where
  "normalize_order_item catalog item =
     (let field = (\<lambda>k. py_strip (py_str (dget item k (PStr []))));
          requested_size = py_upper (field ''size'') in
      case resolve_catalog_variant catalog (field ''sku'') (field ''product_name'') requested_size of
        None \<Rightarrow> Inl (ValueError ''Product or size was not found in the current catalog'')
      | Some p \<Rightarrow>
          (let raw = dget item ''quantity'' (PInt 1) in
           case py_int (if py_truthy raw then raw else PInt 1) of
             Inl e \<Rightarrow> Inl e
           | Inr n \<Rightarrow>
               (let quantity = max n 1 in
                if quantity > p_stock p
                then Inl (ValueError ''Requested quantity is not available in the current catalog'')
                else Inr (order_item p requested_size quantity))))"

fun normalize_order_items :: "product list \<Rightarrow> py_dict list \<Rightarrow> py_exc + py_dict list" where
  "normalize_order_items catalog [] = Inr []"
| "normalize_order_items catalog (item # items) =
     (case normalize_order_item catalog item of
        Inl e \<Rightarrow> Inl e
      | Inr it \<Rightarrow> (case normalize_order_items catalog items of
                     Inl e \<Rightarrow> Inl e | Inr its \<Rightarrow> Inr (it # its)))"

section \<open>Amounts\<close>

definition coerce_non_negative_float :: "json \<Rightarrow> rat \<Rightarrow> rat" where
  "coerce_non_negative_float v dflt = (case j_float v of Inl _ \<Rightarrow> dflt | Inr q \<Rightarrow> max q 0)"

record discount_config =
  dc_threshold :: rat
  dc_percent :: rat
  dc_rate :: rat

definition resolve_order_discount_config :: "(string \<times> json) list \<Rightarrow> discount_config" where
  "resolve_order_discount_config settings =
     (let threshold = coerce_non_negative_float (jget settings ''order_discount_threshold_usd'') 350;
          percent = coerce_non_negative_float (jget settings ''order_discount_percent'') 10 in
      \<lparr>dc_threshold = round_to 2 threshold, dc_percent = round_to 2 percent,
       dc_rate = round_to 4 (percent / 100)\<rparr>)"

text \<open>\<open>float(item.get("unit_price", 0)) * int(item.get("quantity", 0))\<close>, summed.\<close>

fun lines_sum :: "py_dict list \<Rightarrow> py_exc + rat" where
  "lines_sum [] = Inr 0"
| "lines_sum (item # items) =
     (case py_float (dget item ''unit_price'' (PInt 0)) of
        Inl e \<Rightarrow> Inl e
      | Inr price \<Rightarrow> (case py_int (dget item ''quantity'' (PInt 0)) of
                        Inl e \<Rightarrow> Inl e
                      | Inr n \<Rightarrow> (case lines_sum items of
                                    Inl e \<Rightarrow> Inl e | Inr s \<Rightarrow> Inr (price * of_int n + s))))"

record pricing =
  pg_subtotal :: rat
  pg_discount_applied :: bool
  pg_discount_rate :: rat
  pg_discount_percent :: rat
  pg_threshold :: rat
  pg_discount_amount :: rat
  pg_total :: rat

definition price_subtotal :: "discount_config \<Rightarrow> rat \<Rightarrow> pricing" where
  "price_subtotal dc subtotal =
     (let applied = (0 < dc_percent dc \<and> 0 < dc_threshold dc \<and> dc_threshold dc < subtotal);
          amount = (if applied then round_to 2 (subtotal * dc_rate dc) else 0) in
      \<lparr>pg_subtotal = subtotal, pg_discount_applied = applied,
       pg_discount_rate = (if applied then dc_rate dc else 0),
       pg_discount_percent = (if applied then dc_percent dc else 0),
       pg_threshold = dc_threshold dc, pg_discount_amount = amount,
       pg_total = round_to 2 (subtotal - amount)\<rparr>)"

definition calculate_order_amounts :: "py_dict list \<Rightarrow> (string \<times> json) list \<Rightarrow> py_exc + pricing" where
  "calculate_order_amounts items settings =
     (case lines_sum items of
        Inl e \<Rightarrow> Inl e
      | Inr s \<Rightarrow> Inr (price_subtotal (resolve_order_discount_config settings) (round_to 2 s)))"

section \<open>The orders table\<close>

record order =
  o_id :: string
  o_customer :: "string option"
  o_items :: "py_dict list"
  o_total :: rat
  o_merch :: "rat option"
  o_fee :: rat
  o_fee_currency :: string
  o_method :: "string option"
  o_pay_status :: string
  o_proof :: "string option"
  o_proof_hash :: "string option"
  o_reference :: "string option"
  o_ref_key :: "string option"
  o_pay_currency :: "string option"
  o_pay_amount :: "rat option"
  o_pay_tx_at :: "int option"
  o_verified_at :: "int option"
  o_inv :: string
  o_reserved_at :: "int option"
  o_released_at :: "int option"
  o_applied :: bool
  o_ship_method :: "string option"
  o_ship_city :: "string option"
  o_ship_addr :: "string option"
  o_fulfil :: "string option"
  o_zone :: "string option"
  o_agency :: "string option"
  o_ship_status :: string
  o_tracking :: "string option"
  o_created_at :: int
  o_updated_at :: int

record proof_replay =
  rp_hash :: "string option"
  rp_key :: "string option"
  rp_order :: string

record store_db =
  db_customers :: "customer list"
  db_orders :: "order list"
  db_replays :: "proof_replay list"

definition get_row :: "store_db \<Rightarrow> string \<Rightarrow> order option" where
  "get_row d oid = find_by o_id oid (db_orders d)"

definition set_rows :: "string \<Rightarrow> (order \<Rightarrow> order) \<Rightarrow> store_db \<Rightarrow> store_db" where
  "set_rows oid f d = d\<lparr>db_orders := upd_where (\<lambda>o'. o_id o' = oid) f (db_orders d)\<rparr>"

text \<open>\<open>ON DELETE SET NULL\<close> on the orders of a deleted customer.\<close>

definition delete_customer_row :: "string \<Rightarrow> store_db \<Rightarrow> bool \<times> store_db" where
  "delete_customer_row cid d =
     (case delete_customer cid (db_customers d) of
        (b, cs) \<Rightarrow> (b, if b then d\<lparr>db_customers := cs, db_orders :=
                         upd_where (\<lambda>o'. o_customer o' = Some cid) (\<lambda>o'. o'\<lparr>o_customer := None\<rparr>)
                                   (db_orders d)\<rparr> else d))"

definition customer_spend_amount :: "order \<Rightarrow> rat" where
  "customer_spend_amount o' = (case o_merch o' of Some m \<Rightarrow> m | None \<Rightarrow> o_total o')"

section \<open>Order views\<close>

record order_pricing =
  op_subtotal :: rat
  op_merch :: rat
  op_fee :: rat
  op_fee_currency :: string
  op_discount_applied :: bool
  op_discount_amount :: rat
  op_discount_percent :: rat
  op_discount_rate :: rat

definition hydrate_amounts :: "rat \<Rightarrow> rat \<Rightarrow> rat option \<Rightarrow> rat \<Rightarrow> string \<Rightarrow> order_pricing" where
  "hydrate_amounts lines total0 stored fee0 currency =
     (let subtotal = round_to 2 lines; total = round_to 2 total0; fee = round_to 2 fee0;
          merch = round_to 2 (case stored of Some m \<Rightarrow> m | None \<Rightarrow> max (total - fee) 0);
          amount = round_to 2 (max (subtotal - merch) 0);
          applied = (0 < amount);
          percent = (if applied \<and> 0 < subtotal then round_to 2 (amount / subtotal * 100) else 0) in
      \<lparr>op_subtotal = subtotal, op_merch = merch, op_fee = fee,
       op_fee_currency = (if currency \<noteq> [] then currency else ''USD''),
       op_discount_applied = applied, op_discount_amount = amount, op_discount_percent = percent,
       op_discount_rate = (if applied then round_to 4 (percent / 100) else 0)\<rparr>)"

definition hydrate_order_pricing :: "order \<Rightarrow> py_exc + order_pricing" where
  "hydrate_order_pricing o' =
     (case lines_sum (o_items o') of
        Inl e \<Rightarrow> Inl e
      | Inr s \<Rightarrow> Inr (hydrate_amounts s (o_total o') (o_merch o') (o_fee o') (o_fee_currency o')))"

text \<open>\<open>get_order\<close>: the row with its pricing, \<open>None\<close> when there is no such order.\<close>

definition get_order :: "store_db \<Rightarrow> string \<Rightarrow> py_exc + (order \<times> order_pricing) option" where
  "get_order d oid =
     (case get_row d oid of
        None \<Rightarrow> Inr None
      | Some o' \<Rightarrow> map_sum id (\<lambda>p. Some (o', p)) (hydrate_order_pricing o'))"

text \<open>\<open>ORDER BY created_at DESC\<close>; rows created at the same second keep the order of the table,
  which SQL leaves open.\<close>

definition newest_first :: "order list \<Rightarrow> order list" where
  "newest_first os = sort_key (\<lambda>o'. - o_created_at o') os"

definition customer_orders_of :: "store_db \<Rightarrow> string \<Rightarrow> order list" where
  "customer_orders_of d cid = newest_first (filter (\<lambda>o'. o_customer o' = Some cid) (db_orders d))"

definition get_customer_orders :: "store_db \<Rightarrow> string \<Rightarrow> nat \<Rightarrow> order list" where
  "get_customer_orders d cid limit = take limit (customer_orders_of d cid)"

record order_detail =
  od_order :: order
  od_pricing :: order_pricing
  od_customer :: "customer option"
  od_recent :: "(string \<times> rat \<times> string \<times> string \<times> int) list"

definition get_order_detail :: "store_db \<Rightarrow> string \<Rightarrow> py_exc + order_detail option" where
  "get_order_detail d oid =
     (case get_row d oid of
        None \<Rightarrow> Inr None
      | Some o' \<Rightarrow>
          (let c = (case o_customer o' of None \<Rightarrow> None | Some cid \<Rightarrow> find_by c_id cid (db_customers d));
               recent = (case c of None \<Rightarrow> []
                         | Some cu \<Rightarrow> map (\<lambda>r. (o_id r, o_total r, o_pay_status r, o_ship_status r, o_created_at r))
                                         (take 5 (customer_orders_of d (c_id cu)))) in
           map_sum id (\<lambda>p. Some \<lparr>od_order = o', od_pricing = p, od_customer = c, od_recent = recent\<rparr>)
             (hydrate_order_pricing o')))"

section \<open>Queries\<close>

definition is_open :: "order \<Rightarrow> bool" where
  "is_open o' = (o_pay_status o' \<in> set [''pending'', ''proof_received'']
                 \<and> o_inv o' \<in> set [''reserved'', ''legacy_unknown''])"

definition is_active_unpaid :: "order \<Rightarrow> bool" where
  "is_active_unpaid o' = (o_pay_status o' \<in> set [''pending'', ''proof_received'']
     \<and> o_inv o' \<in> set [''reservation_pending'', ''reserved'', ''legacy_unknown''])"

definition get_active_unpaid_order_count :: "store_db \<Rightarrow> string \<Rightarrow> nat" where
  "get_active_unpaid_order_count d cid =
     length (filter (\<lambda>o'. o_customer o' = Some cid \<and> is_active_unpaid o') (db_orders d))"

definition select_orders :: "store_db \<Rightarrow> string \<Rightarrow> (order \<Rightarrow> bool) \<Rightarrow> order list" where
  "select_orders d cid p = filter p (customer_orders_of d cid)"

definition get_latest_open_order :: "store_db \<Rightarrow> string \<Rightarrow> py_exc + (order \<times> order_pricing) option" where
  "get_latest_open_order d cid =
     (case select_orders d cid is_open of [] \<Rightarrow> Inr None | o' # _ \<Rightarrow> get_order d (o_id o'))"

definition is_pending_order :: "order \<Rightarrow> bool" where
  "is_pending_order o' = (o_pay_status o' = ''pending'' \<and> o_inv o' \<in> set [''reserved'', ''legacy_unknown''])"

definition get_latest_pending_order :: "store_db \<Rightarrow> string \<Rightarrow> py_exc + (order \<times> order_pricing) option" where
  "get_latest_pending_order d cid =
     (case select_orders d cid is_pending_order of [] \<Rightarrow> Inr None | o' # _ \<Rightarrow> get_order d (o_id o'))"

text \<open>The sole open order, and whether several are open.\<close>

definition get_unambiguous_open_order ::
  "store_db \<Rightarrow> string \<Rightarrow> (py_exc + (order \<times> order_pricing) option) \<times> bool" where
  "get_unambiguous_open_order d cid =
     (case take 2 (select_orders d cid is_open) of
        [] \<Rightarrow> (Inr None, False)
      | [o'] \<Rightarrow> (get_order d (o_id o'), False)
      | _ \<Rightarrow> (Inr None, True))"

definition get_customer_open_order_by_id ::
  "store_db \<Rightarrow> string \<Rightarrow> string \<Rightarrow> py_exc + (order \<times> order_pricing) option" where
  "get_customer_open_order_by_id d cid oid =
     (case find (\<lambda>o'. o_id o' = oid \<and> o_customer o' = Some cid \<and> is_open o') (db_orders d) of
        None \<Rightarrow> Inr None | Some o' \<Rightarrow> get_order d (o_id o'))"

section \<open>Payment status\<close>

record proof_metadata =
  px_hash :: string
  px_reference :: string
  px_ref_key :: string
  px_currency :: string
  px_amount :: rat
  px_tx_at :: int

datatype payment_result =
    ReplayDetected string string
  | PaymentUpdated string string bool

definition apply_paid_customer_updates :: "string \<Rightarrow> rat \<Rightarrow> store_db \<Rightarrow> store_db" where
  "apply_paid_customer_updates cid amount d =
     d\<lparr>db_customers := sync_purchase_tier_tags cid (increment_orders cid amount (db_customers d))\<rparr>"

definition revert_paid_customer_updates :: "string \<Rightarrow> rat \<Rightarrow> store_db \<Rightarrow> store_db" where
  "revert_paid_customer_updates cid amount d =
     d\<lparr>db_customers := sync_purchase_tier_tags cid (decrement_orders cid amount (db_customers d))\<rparr>"

text \<open>The order or the replay record that already holds the proof or its reference.\<close>

definition find_replay :: "store_db \<Rightarrow> string \<Rightarrow> proof_metadata \<Rightarrow> string option" where
  "find_replay d oid px =
     (case find (\<lambda>o'. o_id o' \<noteq> oid \<and> (o_proof_hash o' = Some (px_hash px)
                                        \<or> o_ref_key o' = Some (px_ref_key px))) (db_orders d) of
        Some o' \<Rightarrow> Some (o_id o')
      | None \<Rightarrow>
         (case find (\<lambda>r. rp_hash r = Some (px_hash px) \<or> rp_key r = Some (px_ref_key px)) (db_replays d) of
            Some r \<Rightarrow> Some (rp_order r) | None \<Rightarrow> None))"

definition write_payment ::
  "int \<Rightarrow> string \<Rightarrow> string option \<Rightarrow> proof_metadata option \<Rightarrow> order \<Rightarrow> order" where
  "write_payment now status note proof o' =
     (let o1 = o'\<lparr>o_pay_status := status, o_proof := first_some note (o_proof o'), o_updated_at := now\<rparr> in
      case proof of
        None \<Rightarrow> o1
      | Some px \<Rightarrow> o1\<lparr>o_proof_hash := Some (px_hash px), o_reference := Some (px_reference px),
                      o_ref_key := Some (px_ref_key px), o_pay_currency := Some (px_currency px),
                      o_pay_amount := Some (px_amount px), o_pay_tx_at := Some (px_tx_at px),
                      o_verified_at := Some now\<rparr>)"

definition set_applied :: "int \<Rightarrow> bool \<Rightarrow> order \<Rightarrow> order" where
  "set_applied now b o' = o'\<lparr>o_applied := b, o_updated_at := now\<rparr>"

definition settle_totals ::
  "int \<Rightarrow> string \<Rightarrow> string \<Rightarrow> order \<Rightarrow> store_db \<Rightarrow> bool \<times> store_db" where
  "settle_totals now oid status row d =
     (if status \<in> set paid_statuses \<and> \<not> o_applied row \<and> o_customer row \<noteq> None
      then (True, set_rows oid (set_applied now True)
                    (apply_paid_customer_updates (the (o_customer row)) (customer_spend_amount row) d))
      else if status \<notin> set paid_statuses \<and> o_applied row
      then (False, set_rows oid (set_applied now False)
                     (case o_customer row of None \<Rightarrow> d
                      | Some cid \<Rightarrow> revert_paid_customer_updates cid (customer_spend_amount row) d))
      else (o_applied row, d))"

definition update_order_payment_status ::
  "int \<Rightarrow> string \<Rightarrow> string \<Rightarrow> string option \<Rightarrow> proof_metadata option \<Rightarrow> store_db
   \<Rightarrow> (py_exc + payment_result option) \<times> store_db" where
  "update_order_payment_status now oid status note proof d =
     (if status \<notin> set valid_payment_statuses then (Inl (ValueError ''Invalid payment status''), d)
      else (case (case proof of None \<Rightarrow> None | Some px \<Rightarrow> find_replay d oid px) of
        Some existing \<Rightarrow> (Inr (Some (ReplayDetected oid existing)), d)
      | None \<Rightarrow>
     (case get_row d oid of
        None \<Rightarrow> (Inr None, d)
      | Some row \<Rightarrow>
          (if status \<in> set paid_statuses \<and> o_inv row \<notin> set [''reserved'', ''legacy_unknown'']
           then ((if proof = None then Inl (ValueError ''Order cannot be marked paid'') else Inr None), d)
           else if proof \<noteq> None \<and> o_pay_status row \<noteq> ''pending'' then (Inr None, d)
           else (case settle_totals now oid status row (set_rows oid (write_payment now status note proof) d) of
                   (b, d') \<Rightarrow> (Inr (Some (PaymentUpdated oid status b)), d'))))))"

definition update_payment_status ::
  "int \<Rightarrow> string \<Rightarrow> string \<Rightarrow> string option \<Rightarrow> store_db \<Rightarrow> (py_exc + payment_result option) \<times> store_db" where
  "update_payment_status now cid status note d =
     (case get_latest_open_order d cid of
        Inl e \<Rightarrow> (Inl e, d)
      | Inr None \<Rightarrow> (Inr None, d)
      | Inr (Some (o', _)) \<Rightarrow> update_order_payment_status now (o_id o') status note None d)"

section \<open>Shipping status\<close>

definition write_shipping :: "int \<Rightarrow> string option \<Rightarrow> string option \<Rightarrow> order \<Rightarrow> order" where
  "write_shipping now status tracking o' =
     o'\<lparr>o_ship_status := (case status of None \<Rightarrow> o_ship_status o' | Some s \<Rightarrow> s),
        o_tracking := (case tracking of None \<Rightarrow> o_tracking o' | Some t \<Rightarrow> nonempty (py_strip t)),
        o_updated_at := now\<rparr>"

definition update_order_shipping ::
  "int \<Rightarrow> string \<Rightarrow> string option \<Rightarrow> string option \<Rightarrow> store_db
   \<Rightarrow> (py_exc + (string \<times> string \<times> string option) option) \<times> store_db" where
  "update_order_shipping now oid status tracking d =
     (if status \<noteq> None \<and> the status \<notin> set valid_shipping_statuses
      then (Inl (ValueError ''Invalid shipping status''), d)
      else (case get_row d oid of
        None \<Rightarrow> (Inr None, d)
      | Some _ \<Rightarrow>
          (let d' = set_rows oid (write_shipping now status tracking) d in
           case get_order d' oid of
             Inl e \<Rightarrow> (Inl e, d')
           | Inr None \<Rightarrow> (Inr None, d')
           | Inr (Some (o', _)) \<Rightarrow> (Inr (Some (o_id o', o_ship_status o', o_tracking o')), d'))))"

section \<open>The last transaction of a deletion\<close>

text \<open>\<open>INSERT ... ON CONFLICT DO NOTHING\<close>: both columns are unique.\<close>

definition insert_replay :: "proof_replay \<Rightarrow> proof_replay list \<Rightarrow> proof_replay list" where
  "insert_replay r rs =
     (if list_ex (\<lambda>x. (rp_hash r \<noteq> None \<and> rp_hash x = rp_hash r)
                      \<or> (rp_key r \<noteq> None \<and> rp_key x = rp_key r)) rs
      then rs else rs @ [r])"

definition nonempty_opt :: "string option \<Rightarrow> bool" where
  "nonempty_opt v = (v \<noteq> None \<and> v \<noteq> Some [])"

definition finish_delete :: "string \<Rightarrow> store_db \<Rightarrow> bool \<times> store_db" where
  "finish_delete oid d =
     (case get_row d oid of
        None \<Rightarrow> (False, d)
      | Some row \<Rightarrow>
          (let d1 = (case o_customer row of
                       Some cid \<Rightarrow> if o_applied row
                                   then revert_paid_customer_updates cid (customer_spend_amount row) d else d
                     | None \<Rightarrow> d);
               d2 = (if nonempty_opt (o_proof_hash row) \<or> nonempty_opt (o_ref_key row)
                     then d1\<lparr>db_replays := insert_replay \<lparr>rp_hash = o_proof_hash row, rp_key = o_ref_key row,
                                                          rp_order = oid\<rparr> (db_replays d1)\<rparr>
                     else d1) in
           (True, d2\<lparr>db_orders := del_where (\<lambda>o'. o_id o' = oid) (db_orders d2)\<rparr>)))"

section \<open>Requests for a new order\<close>

datatype raw_items = NotAList | RawItems "py_dict option list"

record order_request =
  rq_customer :: string
  rq_items :: raw_items
  rq_method :: "string option"
  rq_city :: "string option"
  rq_addr :: "string option"
  rq_ship_method :: "string option"
  rq_fulfil :: "string option"
  rq_zone :: "string option"
  rq_agency :: "string option"
  rq_fee :: json
  rq_currency :: string

definition required_fields :: "order_request \<Rightarrow> (string \<times> string option) list" where
  "required_fields rq =
     [(''payment method'', rq_method rq), (''shipping city'', rq_city rq)] @
     (if rq_fulfil rq = Some ''home_delivery''
      then [(''shipping address'', rq_addr rq), (''shipping zone'', rq_zone rq)]
      else if rq_fulfil rq = Some ''courier_agency_pickup''
      then [(''shipping method'', rq_ship_method rq), (''pickup agency'', rq_agency rq)]
      else [(''shipping address'', rq_addr rq), (''shipping method'', rq_ship_method rq)])"

definition missing_required :: "order_request \<Rightarrow> string list" where
  "missing_required rq =
     map fst (filter (\<lambda>(_, v). v = None \<or> py_strip (opt_str v) = []) (required_fields rq))"

definition clean_opt :: "string option \<Rightarrow> string option" where
  "clean_opt v = nonempty (py_strip (opt_str v))"

record prepared_order =
  po_items :: "py_dict list"
  po_pricing :: pricing
  po_fee :: rat
  po_total :: rat
  po_currency :: string
  po_method :: string
  po_city :: string
  po_addr :: "string option"
  po_ship_method :: "string option"
  po_zone :: "string option"
  po_agency :: "string option"

text \<open>The checks before the catalog is read: the items and the configured payment method.\<close>

definition check_order_request ::
  "(nat \<Rightarrow> string) \<Rightarrow> (string \<times> json) list \<Rightarrow> order_request \<Rightarrow> py_exc + py_dict list \<times> string" where
  "check_order_request new_id settings rq =
     (case rq_items rq of
        NotAList \<Rightarrow> Inl (ValueError ''Order must contain at least one item'')
      | RawItems items \<Rightarrow>
          (if items = [] \<or> None \<in> set items
           then Inl (ValueError ''Order must contain at least one item'')
           else if missing_required rq \<noteq> [] then Inl (ValueError ''Missing required order field'')
           else if rq_ship_method rq \<noteq> None \<and> rq_ship_method rq \<noteq> Some []
             \<and> py_lower (py_strip (opt_str (rq_ship_method rq))) \<notin> set [''mrw'', ''zoom'']
           then Inl (ValueError ''Shipping method must be MRW or Zoom'')
           else (case normalize_payment_methods new_id (or_empty_list (jget settings ''payment_methods'')) of
                   Inl e \<Rightarrow> Inl e
                 | Inr methods \<Rightarrow>
                     (case find (\<lambda>m. normalize_catalog_text (pm_name m)
                                     = normalize_catalog_text (opt_str (rq_method rq))) methods of
                        None \<Rightarrow> Inl (ValueError ''Payment method is not configured for this store'')
                      | Some m \<Rightarrow> Inr (map the items, pm_name m)))))"

definition prepare_order ::
  "(string \<times> json) list \<Rightarrow> product list \<Rightarrow> py_dict list \<Rightarrow> string \<Rightarrow> order_request
   \<Rightarrow> py_exc + prepared_order" where
  "prepare_order settings catalog items method rq =
     (case normalize_order_items catalog items of
        Inl e \<Rightarrow> Inl e
      | Inr its \<Rightarrow>
          (case calculate_order_amounts its settings of
             Inl e \<Rightarrow> Inl e
           | Inr pg \<Rightarrow>
               (let fee = coerce_non_negative_float (rq_fee rq) 0;
                    cur0 = py_upper (py_strip (if rq_currency rq \<noteq> [] then rq_currency rq else ''USD'')) in
                Inr \<lparr>po_items = its, po_pricing = pg, po_fee = fee,
                     po_total = round_to 2 (pg_total pg + fee),
                     po_currency = (if cur0 \<noteq> [] then cur0 else ''USD''), po_method = method,
                     po_city = py_strip (opt_str (rq_city rq)), po_addr = clean_opt (rq_addr rq),
                     po_ship_method = map_option py_lower (clean_opt (rq_ship_method rq)),
                     po_zone = clean_opt (rq_zone rq), po_agency = clean_opt (rq_agency rq)\<rparr>)))"

section \<open>Amounts are consistent\<close>

definition item_line :: "py_dict \<Rightarrow> rat" where
  "item_line it = (case (py_float (dget it ''unit_price'' (PInt 0)), py_int (dget it ''quantity'' (PInt 0))) of
     (Inr p, Inr n) \<Rightarrow> p * of_int n | _ \<Rightarrow> 0)"

lemma lines_sum_items: "lines_sum items = Inr s \<Longrightarrow> s = sum_list (map item_line items)"
  by (induction items arbitrary: s) (auto simp: item_line_def split: sum.splits)

lemma order_item_fields:
  "dget (order_item p z n) ''quantity'' v = PInt n"
  "dget (order_item p z n) ''unit_price'' v = computed_float (round_to 2 (p_price p))"
  "dget (order_item p z n) ''sku'' v = PStr (py_strip (p_sku p))"
  by (simp_all add: order_item_def dget_def)

lemma first_some_Some: "first_some a b = Some x \<longleftrightarrow> a = Some x \<or> (a = None \<and> b = Some x)"
  by (simp add: first_some_def split: option.split)

lemma resolve_catalog_variant_in: "resolve_catalog_variant cat s n z = Some p \<Longrightarrow> p \<in> set cat"
  by (auto simp: resolve_catalog_variant_def resolve_by_sku_def resolve_by_name_def Let_def
        first_some_Some find_Some_iff split: if_splits)

lemma normalize_order_item_cases:
  assumes "normalize_order_item catalog item = Inr it"
  obtains p z n where "p \<in> set catalog" "it = order_item p z n" "1 \<le> n" "n \<le> p_stock p"
proof -
  from assms obtain s nm z p where r: "resolve_catalog_variant catalog s nm z = Some p"
    and n: "\<exists>n. it = order_item p z (max n 1) \<and> max n 1 \<le> p_stock p"
    by (auto simp: normalize_order_item_def Let_def not_less split: option.splits sum.splits if_splits)
       (metis not_less, metis max.idem)
  then obtain n where "it = order_item p z (max n 1)" "max n 1 \<le> p_stock p" by blast
  then show thesis using that[OF resolve_catalog_variant_in[OF r], of z "max n 1"] by simp
qed

text \<open>A normalised order is priced by the catalog: every line is a variant of the catalog, at
  the catalog's price in cents, in a positive quantity the catalog has in stock.\<close>

theorem order_items_from_catalog:
  assumes "normalize_order_items catalog items = Inr its"
  shows "length its = length items
    \<and> (\<forall>it \<in> set its. \<exists>p \<in> set catalog. \<exists>n. 1 \<le> n \<and> n \<le> p_stock p
         \<and> dget it ''sku'' PNone = PStr (py_strip (p_sku p))
         \<and> dget it ''quantity'' PNone = PInt n
         \<and> dget it ''unit_price'' PNone = computed_float (round_to 2 (p_price p)))"
  using assms
proof (induction items arbitrary: its)
  case (Cons item items)
  then obtain it its' where r: "normalize_order_item catalog item = Inr it"
    "normalize_order_items catalog items = Inr its'" "its = it # its'"
    by (auto split: sum.splits)
  from normalize_order_item_cases[OF r(1)] obtain p z n where
    p: "p \<in> set catalog" "it = order_item p z n" "1 \<le> n" "n \<le> p_stock p" .
  have "\<exists>p \<in> set catalog. \<exists>n. 1 \<le> n \<and> n \<le> p_stock p
         \<and> dget it ''sku'' PNone = PStr (py_strip (p_sku p)) \<and> dget it ''quantity'' PNone = PInt n
         \<and> dget it ''unit_price'' PNone = computed_float (round_to 2 (p_price p))"
    using p by (intro bexI[of _ p] exI[of _ n]) (simp_all add: order_item_fields)
  then show ?case using Cons.IH[OF r(2)] r(3) by simp
qed simp

lemma discount_bounds:
  assumes "0 \<le> s" "cents s" "0 \<le> dc_rate dc" "dc_rate dc \<le> 1"
  shows "0 \<le> pg_discount_amount (price_subtotal dc s)" "pg_discount_amount (price_subtotal dc s) \<le> s"
    "pg_total (price_subtotal dc s) = s - pg_discount_amount (price_subtotal dc s)"
    "cents (pg_discount_amount (price_subtotal dc s))"
proof -
  have b: "0 \<le> s * dc_rate dc" "s * dc_rate dc \<le> s"
    using assms mult_left_mono[of "dc_rate dc" 1 s] by simp_all
  have r: "round_to 2 (s * dc_rate dc) \<le> s"
    using round_to_mono[OF b(2), of 2] round_cents[OF assms(2)] by simp
  show c: "cents (pg_discount_amount (price_subtotal dc s))" by (simp add: price_subtotal_def Let_def)
  show "0 \<le> pg_discount_amount (price_subtotal dc s)" "pg_discount_amount (price_subtotal dc s) \<le> s"
    using b r assms(1) by (simp_all add: price_subtotal_def Let_def round_to_nonneg)
  show "pg_total (price_subtotal dc s) = s - pg_discount_amount (price_subtotal dc s)"
    using round_cents[OF cents_diff[OF assms(2) c]] by (simp add: price_subtotal_def Let_def)
qed

text \<open>Amounts: with a discount of at most a hundred percent and lines that do not sum below
  zero, the discount lies between zero and the subtotal, the total is the difference and in cents,
  and reading the stored order back computes the same subtotal, discount and merchandise total.\<close>

theorem order_amounts_consistent:
  assumes "calculate_order_amounts its settings = Inr pg" "0 \<le> sum_list (map item_line its)"
    and "dc_rate (resolve_order_discount_config settings) \<le> 1"
    and "o_items o' = its" "o_merch o' = Some (pg_total pg)"
  shows "0 \<le> pg_discount_amount pg \<and> pg_discount_amount pg \<le> pg_subtotal pg
    \<and> pg_total pg = pg_subtotal pg - pg_discount_amount pg \<and> cents (pg_total pg)
    \<and> (\<exists>op. hydrate_order_pricing o' = Inr op \<and> op_subtotal op = pg_subtotal pg
          \<and> op_discount_amount op = pg_discount_amount pg \<and> op_merch op = pg_total pg)"
proof -
  let ?dc = "resolve_order_discount_config settings"
  from assms(1) obtain s where s: "lines_sum its = Inr s" "pg = price_subtotal ?dc (round_to 2 s)"
    by (auto simp: calculate_order_amounts_def split: sum.splits)
  have nn: "0 \<le> round_to 2 s" using assms(2) lines_sum_items[OF s(1)] by (simp add: round_to_nonneg)
  have sub: "pg_subtotal pg = round_to 2 s" by (simp add: s(2) price_subtotal_def Let_def)
  have "0 \<le> dc_rate ?dc"
    by (simp add: resolve_order_discount_config_def Let_def coerce_non_negative_float_def
          round_to_nonneg split: sum.split)
  note b = discount_bounds[OF nn cents_round this assms(3), folded s(2)]
  have c: "cents (pg_total pg)" using b(3,4) by (simp add: cents_diff)
  define op where "op = hydrate_amounts s (o_total o') (o_merch o') (o_fee o') (o_fee_currency o')"
  have h: "hydrate_order_pricing o' = Inr op"
    by (simp add: hydrate_order_pricing_def assms(4) s(1) op_def)
  have "op_subtotal op = pg_subtotal pg" "op_merch op = pg_total pg"
    using round_cents[OF c] by (simp_all add: op_def hydrate_amounts_def Let_def assms(5) sub)
  moreover have "op_discount_amount op = pg_discount_amount pg"
  proof -
    have "max (round_to 2 s - pg_total pg) 0 = pg_discount_amount pg" using b by simp
    then show ?thesis using round_cents[OF c] round_cents[OF b(4)]
      by (simp add: op_def hydrate_amounts_def Let_def assms(5))
  qed
  ultimately show ?thesis using b c h sub by (simp add: h)
qed

section \<open>Invariants of the tables\<close>

definition counted :: "string \<Rightarrow> order \<Rightarrow> bool" where
  "counted cid o' \<longleftrightarrow> o_customer o' = Some cid \<and> o_applied o'"

definition order_weight :: "string \<Rightarrow> order \<Rightarrow> int" where
  "order_weight cid o' = (if counted cid o' then 1 else 0)"

definition spend_weight :: "string \<Rightarrow> order \<Rightarrow> rat" where
  "spend_weight cid o' = (if counted cid o' then customer_spend_amount o' else 0)"

text \<open>Every customer's totals are those of their orders marked as applied.\<close>

definition totals_ok :: "store_db \<Rightarrow> bool" where
  "totals_ok d \<longleftrightarrow> distinct (map o_id (db_orders d)) \<and> distinct (map c_id (db_customers d))
     \<and> (\<forall>o' \<in> set (db_orders d). 0 \<le> customer_spend_amount o'
          \<and> (\<forall>cid. o_customer o' = Some cid \<longrightarrow> cid \<in> c_id ` set (db_customers d)))
     \<and> (\<forall>c \<in> set (db_customers d).
          c_orders c = sum_list (map (order_weight (c_id c)) (db_orders d))
        \<and> c_spent c = sum_list (map (spend_weight (c_id c)) (db_orders d)))"

text \<open>No payment proof and no payment reference is held twice.\<close>

definition proofs_ok :: "store_db \<Rightarrow> bool" where
  "proofs_ok d \<longleftrightarrow>
     (\<forall>a \<in> set (db_orders d). \<forall>b \<in> set (db_orders d). o_id a \<noteq> o_id b \<longrightarrow>
        (o_proof_hash a = o_proof_hash b \<longrightarrow> o_proof_hash a = None)
      \<and> (o_ref_key a = o_ref_key b \<longrightarrow> o_ref_key a = None))
   \<and> (\<forall>a \<in> set (db_orders d). \<forall>r \<in> set (db_replays d).
        (o_proof_hash a = rp_hash r \<longrightarrow> o_proof_hash a = None)
      \<and> (o_ref_key a = rp_key r \<longrightarrow> o_ref_key a = None))"

definition c_core :: "customer \<Rightarrow> string \<times> int \<times> rat" where
  "c_core c = (c_id c, c_orders c, c_spent c)"

lemma core_ball:
  "(\<forall>c \<in> set cs. P (c_id c) (c_orders c) (c_spent c)) \<longleftrightarrow> (\<forall>(i, n, s) \<in> set (map c_core cs). P i n s)"
  by (auto simp: c_core_def)

lemma core_ids: "map c_id cs = map fst (map c_core cs)"
  by (simp add: c_core_def)

lemma core_sync: "map c_core (sync_purchase_tier_tags cid cs) = map c_core cs"
  by (simp add: sync_purchase_tier_tags_def Let_def map_key_upd_where c_core_def split: option.split)

definition bump :: "string \<Rightarrow> (int \<Rightarrow> int) \<Rightarrow> (rat \<Rightarrow> rat) \<Rightarrow> string \<times> int \<times> rat \<Rightarrow> string \<times> int \<times> rat" where
  "bump cid f g = (\<lambda>(i, n, s). if i = cid then (i, f n, g s) else (i, n, s))"

lemma core_apply:
  "map c_core (db_customers (apply_paid_customer_updates cid a d))
   = map (bump cid (\<lambda>n. n + 1) (\<lambda>s. s + a)) (map c_core (db_customers d))"
  by (simp add: apply_paid_customer_updates_def core_sync increment_orders_def upd_where_def c_core_def bump_def)

lemma core_revert:
  "map c_core (db_customers (revert_paid_customer_updates cid a d))
   = map (bump cid (\<lambda>n. max (n - 1) 0) (\<lambda>s. max (s - a) 0)) (map c_core (db_customers d))"
  by (simp add: revert_paid_customer_updates_def core_sync decrement_orders_def upd_where_def c_core_def bump_def)

lemma paid_updates_rest [simp]:
  "db_orders (apply_paid_customer_updates cid a d) = db_orders d"
  "db_orders (revert_paid_customer_updates cid a d) = db_orders d"
  "db_replays (apply_paid_customer_updates cid a d) = db_replays d"
  "db_replays (revert_paid_customer_updates cid a d) = db_replays d"
  by (simp_all add: apply_paid_customer_updates_def revert_paid_customer_updates_def)

lemma set_rows_sel [simp]:
  "db_customers (set_rows oid f d) = db_customers d" "db_replays (set_rows oid f d) = db_replays d"
  "db_orders (set_rows oid f d) = upd_where (\<lambda>o'. o_id o' = oid) f (db_orders d)"
  by (simp_all add: set_rows_def)

lemma core_ids_bump: "map fst (map (bump cid f g) xs) = map fst xs"
  by (auto simp: bump_def)

text \<open>The totals as a condition on the cores, the orders' ids and their weights.\<close>

lemma totals_ok_core:
  "totals_ok d \<longleftrightarrow> distinct (map o_id (db_orders d)) \<and> distinct (map fst (map c_core (db_customers d)))
     \<and> (\<forall>o' \<in> set (db_orders d). 0 \<le> customer_spend_amount o'
          \<and> (\<forall>cid. o_customer o' = Some cid \<longrightarrow> cid \<in> set (map fst (map c_core (db_customers d)))))
     \<and> (\<forall>(i, n, s) \<in> set (map c_core (db_customers d)).
          n = sum_list (map (order_weight i) (db_orders d)) \<and> s = sum_list (map (spend_weight i) (db_orders d)))"
  unfolding totals_ok_def core_ball[symmetric] core_ids[symmetric] by simp

text \<open>An update of one row that keeps what the totals depend on keeps them.\<close>

lemma totals_ok_set_rows:
  assumes "totals_ok d"
    and "\<And>o'. o_id (f o') = o_id o' \<and> o_customer (f o') = o_customer o' \<and> o_applied (f o') = o_applied o'
             \<and> customer_spend_amount (f o') = customer_spend_amount o'"
  shows "totals_ok (set_rows oid f d)"
proof -
  let ?t = "upd_where (\<lambda>o'. o_id o' = oid) f (db_orders d)"
  have "map o_id ?t = map o_id (db_orders d)" "map (order_weight i) ?t = map (order_weight i) (db_orders d)"
    "map (spend_weight i) ?t = map (spend_weight i) (db_orders d)" for i
    using assms(2) by (intro map_key_upd_where; simp add: order_weight_def spend_weight_def counted_def)+
  moreover have "0 \<le> customer_spend_amount o' \<and> (\<forall>cid. o_customer o' = Some cid \<longrightarrow> cid \<in> c_id ` set (db_customers d))"
    if "o' \<in> set ?t" for o'
  proof -
    from that obtain r0 where r0: "r0 \<in> set (db_orders d)" "o' = (if o_id r0 = oid then f r0 else r0)"
      unfolding in_upd_where by blast
    then have "o_customer o' = o_customer r0" "customer_spend_amount o' = customer_spend_amount r0"
      using assms(2) by auto
    then show ?thesis using r0(1) assms(1) by (simp add: totals_ok_def)
  qed
  ultimately show ?thesis using assms(1) unfolding totals_ok_def by simp
qed

lemma weight_sum_nonneg: "0 \<le> sum_list (map (order_weight i) os)"
  by (induction os) (auto simp: order_weight_def)

lemma spend_sum_nonneg:
  "(\<forall>o' \<in> set os. 0 \<le> customer_spend_amount o') \<Longrightarrow> 0 \<le> sum_list (map (spend_weight i) os)"
  by (induction os) (auto simp: spend_weight_def)

lemma weight_le:
  assumes "distinct (map o_id os)" "find_by o_id oid os = Some r"
    and "\<forall>o' \<in> set os. 0 \<le> customer_spend_amount o'"
  shows "order_weight i r \<le> sum_list (map (order_weight i) os)"
    "spend_weight i r \<le> sum_list (map (spend_weight i) os)"
  using sum_del_where[OF assms(1,2), of "order_weight i"] sum_del_where[OF assms(1,2), of "spend_weight i"]
    weight_sum_nonneg[of i "del_where (\<lambda>x. o_id x = oid) os"]
    spend_sum_nonneg[of "del_where (\<lambda>x. o_id x = oid) os" i] assms(3)
  by (simp_all add: set_del_where)

lemma in_map_bump:
  "(i, n, s) \<in> set (map (bump cid fn gs) xs) \<Longrightarrow>
   \<exists>n0 s0. (i, n0, s0) \<in> set xs \<and> n = (if i = cid then fn n0 else n0) \<and> s = (if i = cid then gs s0 else s0)"
proof -
  assume "(i, n, s) \<in> set (map (bump cid fn gs) xs)"
  then obtain x where "x \<in> set xs" "bump cid fn gs x = (i, n, s)" by auto
  moreover obtain a b c where "x = (a, b, c)" by (rule prod_cases3)
  ultimately show ?thesis by (auto simp: bump_def split: if_splits)
qed

lemma set_applied_same [simp]:
  "o_id (set_applied now b r) = o_id r" "o_customer (set_applied now b r) = o_customer r"
  "o_applied (set_applied now b r) = b" "o_inv (set_applied now b r) = o_inv r"
  "o_pay_status (set_applied now b r) = o_pay_status r"
  "o_proof_hash (set_applied now b r) = o_proof_hash r" "o_ref_key (set_applied now b r) = o_ref_key r"
  "customer_spend_amount (set_applied now b r) = customer_spend_amount r"
  by (simp_all add: set_applied_def customer_spend_amount_def split: option.split)

text \<open>Changing the mark of one row together with the totals of its customer.\<close>

lemma totals_ok_change:
  assumes ok: "totals_ok d" and row: "find_by o_id oid (db_orders d) = Some r"
    and f: "o_id (f r) = oid" "o_customer (f r) = o_customer r"
      "customer_spend_amount (f r) = customer_spend_amount r"
    and cust: "db_orders d' = upd_where (\<lambda>o'. o_id o' = oid) f (db_orders d)"
      "map c_core (db_customers d') = map (bump cid fn gs) (map c_core (db_customers d))"
    and w: "\<And>i n s. (i, n, s) \<in> set (map c_core (db_customers d)) \<Longrightarrow>
       (if i = cid then fn n else n) = n + (order_weight i (f r) - order_weight i r)
     \<and> (if i = cid then gs s else s) = s + (spend_weight i (f r) - spend_weight i r)"
  shows "totals_ok d'"
proof -
  have r: "r \<in> set (db_orders d)" "o_id r = oid" using find_by_SomeD[OF row] by auto
  have d: "distinct (map o_id (db_orders d))" using ok by (simp add: totals_ok_def)
  have only: "o' = r" if "o' \<in> set (db_orders d)" "o_id o' = oid" for o'
    using find_by_unique[OF d row that] .
  have ids: "map o_id (db_orders d') = map o_id (db_orders d)"
    using only f(1) by (auto simp: cust(1) upd_where_def)
  have fst: "map fst (map c_core (db_customers d')) = map fst (map c_core (db_customers d))"
    unfolding cust(2) core_ids_bump ..
  have rows: "0 \<le> customer_spend_amount o' \<and>
       (\<forall>cid. o_customer o' = Some cid \<longrightarrow> cid \<in> set (map fst (map c_core (db_customers d'))))"
    if "o' \<in> set (db_orders d')" for o'
  proof -
    from that obtain o0 where o0: "o0 \<in> set (db_orders d)" "o' = (if o_id o0 = oid then f o0 else o0)"
      unfolding cust(1) in_upd_where by blast
    then have "customer_spend_amount o' = customer_spend_amount o0" "o_customer o' = o_customer o0"
      using only[OF o0(1)] f by auto
    then show ?thesis using ok o0(1) unfolding totals_ok_core fst by auto
  qed
  have sums: "n = sum_list (map (order_weight i) (db_orders d')) \<and> s = sum_list (map (spend_weight i) (db_orders d'))"
    if in': "(i, n, s) \<in> set (map c_core (db_customers d'))" for i n s
  proof -
    from in' obtain n0 s0 where c: "(i, n0, s0) \<in> set (map c_core (db_customers d))"
      "n = (if i = cid then fn n0 else n0)" "s = (if i = cid then gs s0 else s0)"
      unfolding cust(2) using in_map_bump by blast
    have "n0 = sum_list (map (order_weight i) (db_orders d))" "s0 = sum_list (map (spend_weight i) (db_orders d))"
      using ok c(1) unfolding totals_ok_core by blast+
    then show ?thesis
      using w[OF c(1)] sum_upd_where[OF d row, of "order_weight i" f] sum_upd_where[OF d row, of "spend_weight i" f]
      by (simp add: cust(1) c(2,3))
  qed
  show ?thesis using ok rows sums unfolding totals_ok_core ids fst by blast
qed

lemma totals_ok_apply:
  assumes ok: "totals_ok d" and row: "find_by o_id oid (db_orders d) = Some r"
    and r: "o_customer r = Some cid" "\<not> o_applied r" "a = customer_spend_amount r"
  shows "totals_ok (set_rows oid (set_applied now True) (apply_paid_customer_updates cid a d))"
proof (rule totals_ok_change[OF ok row, where cid = cid and f = "set_applied now True"])
  show "map c_core (db_customers (set_rows oid (set_applied now True) (apply_paid_customer_updates cid a d)))
    = map (bump cid (\<lambda>n. n + 1) (\<lambda>s. s + a)) (map c_core (db_customers d))"
    by (simp only: set_rows_sel core_apply)
qed (use r find_by_SomeD[OF row] in
     \<open>auto simp: order_weight_def spend_weight_def counted_def\<close>)

lemma totals_ok_core_lookup:
  assumes "totals_ok d" "find_by o_id oid (db_orders d) = Some r" "(i, n, s) \<in> set (map c_core (db_customers d))"
  shows "order_weight i r \<le> n" "spend_weight i r \<le> s"
proof -
  have "n = sum_list (map (order_weight i) (db_orders d))" "s = sum_list (map (spend_weight i) (db_orders d))"
    using assms(1,3) unfolding totals_ok_core by blast+
  then show "order_weight i r \<le> n" "spend_weight i r \<le> s"
    using weight_le[OF _ assms(2)] assms(1) by (auto simp: totals_ok_def)
qed

lemma totals_ok_revert:
  assumes ok: "totals_ok d" and row: "find_by o_id oid (db_orders d) = Some r"
    and r: "o_customer r = Some cid" "o_applied r" "a = customer_spend_amount r"
  shows "totals_ok (set_rows oid (set_applied now False) (revert_paid_customer_updates cid a d))"
proof (rule totals_ok_change[OF ok row, where cid = cid and f = "set_applied now False"])
  show "map c_core (db_customers (set_rows oid (set_applied now False) (revert_paid_customer_updates cid a d)))
    = map (bump cid (\<lambda>n. max (n - 1) 0) (\<lambda>s. max (s - a) 0)) (map c_core (db_customers d))"
    by (simp only: set_rows_sel core_revert)
  fix i n s assume c: "(i, n, s) \<in> set (map c_core (db_customers d))"
  have "order_weight i r \<le> n" "spend_weight i r \<le> s" by (rule totals_ok_core_lookup[OF ok row c])+
  then show "(if i = cid then max (n - 1) 0 else n) = n + (order_weight i (set_applied now False r) - order_weight i r)
     \<and> (if i = cid then max (s - a) 0 else s) = s + (spend_weight i (set_applied now False r) - spend_weight i r)"
    using r by (auto simp: order_weight_def spend_weight_def counted_def)
qed (use find_by_SomeD[OF row] in auto)

lemma totals_ok_unmark:
  assumes ok: "totals_ok d" and row: "find_by o_id oid (db_orders d) = Some r" "o_customer r = None"
  shows "totals_ok (set_rows oid (set_applied now False) d)"
proof (rule totals_ok_change[OF ok row(1), where cid = "[]" and f = "set_applied now False"
        and fn = "\<lambda>n. n" and gs = "\<lambda>s. s"])
  have "bump [] (\<lambda>n. n) (\<lambda>s. s) = (\<lambda>x. x)" by (auto simp: bump_def)
  then show "map c_core (db_customers (set_rows oid (set_applied now False) d))
    = map (bump [] (\<lambda>n. n) (\<lambda>s. s)) (map c_core (db_customers d))" by simp
qed (use row find_by_SomeD[OF row(1)] in
     \<open>auto simp: order_weight_def spend_weight_def counted_def\<close>)

lemma write_payment_same:
  "o_id (write_payment now s n p r) = o_id r" "o_customer (write_payment now s n p r) = o_customer r"
  "o_applied (write_payment now s n p r) = o_applied r"
  "customer_spend_amount (write_payment now s n p r) = customer_spend_amount r"
  "o_inv (write_payment now s n p r) = o_inv r"
  by (simp_all add: write_payment_def customer_spend_amount_def Let_def split: option.split)

lemma settle_totals_ok:
  assumes ok: "totals_ok d" and row: "find_by o_id oid (db_orders d) = Some r"
    and r: "o_customer r = o_customer row" "o_applied r = o_applied row"
      "customer_spend_amount r = customer_spend_amount row"
  shows "totals_ok (snd (settle_totals now oid status row d))"
proof (cases "o_customer row")
  case None
  then show ?thesis using ok totals_ok_unmark[OF ok row] r by (simp add: settle_totals_def)
next
  case (Some cid)
  then show ?thesis
    using ok r totals_ok_apply[OF ok row, of cid] totals_ok_revert[OF ok row, of cid]
    by (simp add: settle_totals_def)
qed

lemma settle_totals_row:
  assumes "find_by o_id oid (db_orders d) = Some r"
  shows "find_by o_id oid (db_orders (snd (settle_totals now oid status row d)))
      = Some (if status \<in> set paid_statuses \<and> \<not> o_applied row \<and> o_customer row \<noteq> None then set_applied now True r
              else if status \<notin> set paid_statuses \<and> o_applied row then set_applied now False r else r)"
    "fst (settle_totals now oid status row d)
      = (if status \<in> set paid_statuses \<and> \<not> o_applied row \<and> o_customer row \<noteq> None then True
         else if status \<notin> set paid_statuses \<and> o_applied row then False else o_applied row)"
  using assms find_by_SomeD[OF assms]
  by (auto simp: settle_totals_def find_by_upd_where split: option.split)

text \<open>The two ways a payment update ends: nothing changed, or the row was written and the totals
  settled.\<close>

lemma payment_update_cases [consumes 1, case_names unchanged written]:
  assumes "update_order_payment_status now oid status note proof d = (res, d')"
  obtains "d' = d" "\<And>i s b. res \<noteq> Inr (Some (PaymentUpdated i s b))"
  | row b where "find_by o_id oid (db_orders d) = Some row"
      "res = Inr (Some (PaymentUpdated oid status b))" "status \<in> set valid_payment_statuses"
      "(case proof of None \<Rightarrow> True | Some px \<Rightarrow> find_replay d oid px = None \<and> o_pay_status row = ''pending'')"
      "status \<in> set paid_statuses \<longrightarrow> o_inv row \<in> set [''reserved'', ''legacy_unknown'']"
      "settle_totals now oid status row (set_rows oid (write_payment now status note proof) d) = (b, d')"
  using assms unfolding update_order_payment_status_def get_row_def
  by (auto split: if_splits option.splits prod.splits)

lemma find_set_rows:
  "(\<And>r. o_id (f r) = o_id r) \<Longrightarrow> find_by o_id oid (db_orders d) = Some row
   \<Longrightarrow> find_by o_id oid (db_orders (set_rows oid f d)) = Some (f row)"
  using find_by_SomeD[of o_id oid "db_orders d" row] by (simp add: find_by_upd_where)

lemma payment_totals:
  assumes "totals_ok d" "update_order_payment_status now oid status note proof d = (res, d')"
  shows "totals_ok d'"
  using assms(2)
proof (cases rule: payment_update_cases)
  case (written row b)
  let ?f = "write_payment now status note proof"
  have "totals_ok (set_rows oid ?f d)"
    by (rule totals_ok_set_rows[OF assms(1)]) (simp add: write_payment_same)
  moreover have "find_by o_id oid (db_orders (set_rows oid ?f d)) = Some (?f row)"
    using written(1) by (intro find_set_rows) (simp_all add: write_payment_same)
  ultimately show ?thesis
    using settle_totals_ok[of "set_rows oid ?f d" oid "?f row" row now status] written(6)
    by (simp add: write_payment_same)
qed (use assms(1) in simp)

text \<open>C4. Lifetime totals are exact: a payment update of whatever outcome keeps, for every customer,
  the order count and the amount spent equal to those of the orders marked as counted; so paying,
  re-confirming and un-paying an order count it once, and not at all in the end.\<close>

theorem payment_totals_exact:
  assumes "totals_ok d" "update_order_payment_status now oid status note proof d = (res, d')"
  shows "totals_ok d'"
  by (rule payment_totals[OF assms])

text \<open>An order becomes paid only with stock behind it: when an update reports a paid status the
  order's stock was reserved (or predates reservations), the row carries the status, and a paid
  order with a customer is counted; an update that reports nothing changed nothing.\<close>

theorem paid_needs_stock:
  assumes "update_order_payment_status now oid status note proof d = (res, d')"
  shows "(case res of
      Inr (Some (PaymentUpdated i s b)) \<Rightarrow> i = oid \<and> s = status \<and> (\<exists>row row'. get_row d oid = Some row
         \<and> get_row d' oid = Some row' \<and> o_pay_status row' = status \<and> o_inv row' = o_inv row
         \<and> (status \<in> set paid_statuses \<longrightarrow> o_inv row \<in> set [''reserved'', ''legacy_unknown''])
         \<and> b = o_applied row' \<and> (o_customer row \<noteq> None \<longrightarrow> b = (status \<in> set paid_statuses)))
    | _ \<Rightarrow> d' = d)"
  using assms
proof (cases rule: payment_update_cases)
  case unchanged
  then show ?thesis
    using assms by (auto simp: update_order_payment_status_def split: sum.splits option.splits payment_result.splits if_splits prod.splits)
next
  case (written row b)
  let ?f = "write_payment now status note proof"
  have "find_by o_id oid (db_orders (set_rows oid ?f d)) = Some (?f row)"
    using written(1) by (intro find_set_rows) (simp_all add: write_payment_same)
  note r = settle_totals_row[OF this, of now status row, unfolded written(6) snd_conv fst_conv]
  have "o_pay_status (?f row) = status" by (simp add: write_payment_def Let_def split: option.split)
  then show ?thesis using written(1-3,5) r
    by (auto simp: get_row_def write_payment_same)
qed

section \<open>Deletions and the invariants\<close>

lemma del_upd_where:
  "(\<And>r. key (f r) = key r) \<Longrightarrow>
   del_where (\<lambda>x. key x = k) (upd_where (\<lambda>x. key x = k) f t) = del_where (\<lambda>x. key x = k) t"
  by (induction t) (simp_all add: del_where_def upd_where_def)

lemma totals_ok_remove:
  assumes ok: "totals_ok d" and row: "find_by o_id oid (db_orders d) = Some r" "\<And>i. \<not> counted i r"
  shows "totals_ok (d\<lparr>db_orders := del_where (\<lambda>o'. o_id o' = oid) (db_orders d)\<rparr>)"
proof -
  have d: "distinct (map o_id (db_orders d))" using ok by (simp add: totals_ok_def)
  have "sum_list (map (order_weight i) (del_where (\<lambda>o'. o_id o' = oid) (db_orders d)))
      = sum_list (map (order_weight i) (db_orders d))"
    "sum_list (map (spend_weight i) (del_where (\<lambda>o'. o_id o' = oid) (db_orders d)))
      = sum_list (map (spend_weight i) (db_orders d))" for i
    using sum_del_where[OF d row(1), of "order_weight i"] sum_del_where[OF d row(1), of "spend_weight i"] row(2)[of i]
    by (simp_all add: order_weight_def spend_weight_def)
  then show ?thesis using ok unfolding totals_ok_def
    by (auto simp: set_del_where distinct_map_del_where)
qed

text \<open>A deletion on the row it finds: the totals, the replay record, the row.\<close>

definition reverted :: "order \<Rightarrow> store_db \<Rightarrow> store_db" where
  "reverted row d = (case o_customer row of
      Some cid \<Rightarrow> if o_applied row then revert_paid_customer_updates cid (customer_spend_amount row) d else d
    | None \<Rightarrow> d)"

definition replay_of :: "order \<Rightarrow> proof_replay" where
  "replay_of row = \<lparr>rp_hash = o_proof_hash row, rp_key = o_ref_key row, rp_order = o_id row\<rparr>"

definition remembered :: "order \<Rightarrow> proof_replay list \<Rightarrow> proof_replay list" where
  "remembered row rs = (if nonempty_opt (o_proof_hash row) \<or> nonempty_opt (o_ref_key row)
                        then insert_replay (replay_of row) rs else rs)"

lemma reverted_rest [simp]: "db_orders (reverted row d) = db_orders d" "db_replays (reverted row d) = db_replays d"
  by (simp_all add: reverted_def split: option.split)

lemma finish_delete_found:
  assumes "find_by o_id oid (db_orders d) = Some row"
  shows "finish_delete oid d = (True, \<lparr>db_customers = db_customers (reverted row d),
     db_orders = del_where (\<lambda>o'. o_id o' = oid) (db_orders d), db_replays = remembered row (db_replays d)\<rparr>)"
proof -
  have oid: "o_id row = oid" using find_by_SomeD[OF assms] by simp
  have "finish_delete oid d = (let d1 = reverted row d;
       d2 = (if nonempty_opt (o_proof_hash row) \<or> nonempty_opt (o_ref_key row)
             then d1\<lparr>db_replays := insert_replay (replay_of row) (db_replays d1)\<rparr> else d1) in
     (True, d2\<lparr>db_orders := del_where (\<lambda>o'. o_id o' = oid) (db_orders d2)\<rparr>))"
    using assms unfolding finish_delete_def get_row_def reverted_def replay_of_def oid by simp
  then show ?thesis by (simp add: Let_def remembered_def)
qed

lemma remembered_subset: "set (remembered row rs) \<subseteq> insert (replay_of row) (set rs)"
  by (auto simp: remembered_def insert_replay_def)

lemma finish_delete_totals:
  assumes "totals_ok d" shows "totals_ok (snd (finish_delete oid d))"
proof (cases "find_by o_id oid (db_orders d)")
  case None
  then show ?thesis using assms by (simp add: finish_delete_def get_row_def)
next
  case (Some row)
  let ?del = "\<lambda>x::store_db. x\<lparr>db_orders := del_where (\<lambda>o'. o_id o' = oid) (db_orders x)\<rparr>"
  have "totals_ok (?del (reverted row d))"
  proof (cases "o_customer row \<noteq> None \<and> o_applied row")
    case True
    then obtain cid where cid: "o_customer row = Some cid" by auto
    let ?d = "set_rows oid (set_applied 0 False) (reverted row d)"
    have "totals_ok ?d" using totals_ok_revert[OF assms Some cid _ refl] True cid by (simp add: reverted_def)
    moreover have "find_by o_id oid (db_orders ?d) = Some (set_applied 0 False row)"
      using Some by (intro find_set_rows) simp_all
    ultimately have "totals_ok (?del ?d)" by (rule totals_ok_remove) (simp add: counted_def)
    moreover have "?del ?d = ?del (reverted row d)" by (simp add: set_rows_def del_upd_where)
    ultimately show ?thesis by simp
  next
    case False
    then have d1: "reverted row d = d" by (auto simp: reverted_def split: option.split)
    show ?thesis unfolding d1
      by (rule totals_ok_remove[OF assms Some]) (use False in \<open>auto simp: counted_def\<close>)
  qed
  then show ?thesis unfolding finish_delete_found[OF Some] by (simp add: totals_ok_def)
qed

lemma totals_okI:
  assumes "db_customers d = cs" "db_orders d = os" "distinct (map o_id os)" "distinct (map c_id cs)"
    and "\<And>o'. o' \<in> set os \<Longrightarrow> 0 \<le> customer_spend_amount o'
          \<and> (\<forall>cid. o_customer o' = Some cid \<longrightarrow> cid \<in> c_id ` set cs)"
    and "\<And>c. c \<in> set cs \<Longrightarrow> c_orders c = sum_list (map (order_weight (c_id c)) os)
          \<and> c_spent c = sum_list (map (spend_weight (c_id c)) os)"
  shows "totals_ok d"
  unfolding totals_ok_def assms(1,2) using assms(3-6) by blast

lemma delete_customer_totals:
  assumes "totals_ok d" shows "totals_ok (snd (delete_customer_row cid d))"
proof (cases "find_by c_id cid (db_customers d)")
  case None
  then show ?thesis using assms by (simp add: delete_customer_row_def delete_customer_def)
next
  case (Some c)
  let ?u = "upd_where (\<lambda>o'. o_customer o' = Some cid) (\<lambda>o'. o'\<lparr>o_customer := None\<rparr>) (db_orders d)"
  have ids: "map o_id ?u = map o_id (db_orders d)" by (rule map_key_upd_where) simp
  have spend: "customer_spend_amount (o'\<lparr>o_customer := None\<rparr>) = customer_spend_amount o'" for o'
    by (simp add: customer_spend_amount_def split: option.split)
  have w: "map (order_weight i) ?u = map (order_weight i) (db_orders d)"
    "map (spend_weight i) ?u = map (spend_weight i) (db_orders d)" if "i \<noteq> cid" for i
    using that by (intro map_key_upd_where; simp add: order_weight_def spend_weight_def counted_def)+
  have rows: "0 \<le> customer_spend_amount o' \<and> (\<forall>i. o_customer o' = Some i \<longrightarrow> i \<noteq> cid \<and> i \<in> c_id ` set (db_customers d))"
    if "o' \<in> set ?u" for o'
  proof -
    from that obtain r0 where r0: "r0 \<in> set (db_orders d)"
      "o' = (if o_customer r0 = Some cid then r0\<lparr>o_customer := None\<rparr> else r0)"
      unfolding in_upd_where by blast
    then have "0 \<le> customer_spend_amount r0" "\<forall>i. o_customer r0 = Some i \<longrightarrow> i \<in> c_id ` set (db_customers d)"
      using assms unfolding totals_ok_def by blast+
    then show ?thesis using r0(2) spend by auto
  qed
  have d': "db_customers (snd (delete_customer_row cid d)) = del_where (\<lambda>c. c_id c = cid) (db_customers d)"
    "db_orders (snd (delete_customer_row cid d)) = ?u"
    using Some by (simp_all add: delete_customer_row_def delete_customer_def)
  show ?thesis
  proof (rule totals_okI[OF d'])
    show "distinct (map o_id ?u)" "distinct (map c_id (del_where (\<lambda>c. c_id c = cid) (db_customers d)))"
      using assms ids by (simp_all add: totals_ok_def distinct_map_del_where)
    show "0 \<le> customer_spend_amount o' \<and> (\<forall>i. o_customer o' = Some i \<longrightarrow>
        i \<in> c_id ` set (del_where (\<lambda>c. c_id c = cid) (db_customers d)))" if "o' \<in> set ?u" for o'
      using rows[OF that] unfolding set_del_where by blast
    show "c_orders c' = sum_list (map (order_weight (c_id c')) ?u)
        \<and> c_spent c' = sum_list (map (spend_weight (c_id c')) ?u)"
      if "c' \<in> set (del_where (\<lambda>c. c_id c = cid) (db_customers d))" for c'
      using that assms w[of "c_id c'"] by (simp add: set_del_where totals_ok_def)
  qed
qed

definition p_core :: "order \<Rightarrow> string \<times> string option \<times> string option" where
  "p_core o' = (o_id o', o_proof_hash o', o_ref_key o')"

definition proofs_core :: "(string \<times> string option \<times> string option) set \<Rightarrow> proof_replay set \<Rightarrow> bool" where
  "proofs_core P R \<longleftrightarrow>
     (\<forall>i h k i' h' k'. (i, h, k) \<in> P \<longrightarrow> (i', h', k') \<in> P \<longrightarrow> i \<noteq> i' \<longrightarrow>
        (h = h' \<longrightarrow> h = None) \<and> (k = k' \<longrightarrow> k = None))
   \<and> (\<forall>i h k r. (i, h, k) \<in> P \<longrightarrow> r \<in> R \<longrightarrow> (h = rp_hash r \<longrightarrow> h = None) \<and> (k = rp_key r \<longrightarrow> k = None))"

lemma proofs_coreI:
  assumes "\<And>i h k i' h' k'. (i, h, k) \<in> P \<Longrightarrow> (i', h', k') \<in> P \<Longrightarrow> i \<noteq> i' \<Longrightarrow>
      (h = h' \<longrightarrow> h = None) \<and> (k = k' \<longrightarrow> k = None)"
    and "\<And>i h k r. (i, h, k) \<in> P \<Longrightarrow> r \<in> R \<Longrightarrow> (h = rp_hash r \<longrightarrow> h = None) \<and> (k = rp_key r \<longrightarrow> k = None)"
  shows "proofs_core P R"
  unfolding proofs_core_def using assms by presburger

lemma proofs_coreD:
  assumes "proofs_core P R" "(i, h, k) \<in> P"
  shows "(i', h', k') \<in> P \<Longrightarrow> i \<noteq> i' \<Longrightarrow> (h = h' \<longrightarrow> h = None) \<and> (k = k' \<longrightarrow> k = None)"
    "r \<in> R \<Longrightarrow> (h = rp_hash r \<longrightarrow> h = None) \<and> (k = rp_key r \<longrightarrow> k = None)"
  using assms(2) assms(1)[unfolded proofs_core_def, THEN conjunct1, rule_format, of i h k i' h' k']
    assms(1)[unfolded proofs_core_def, THEN conjunct2, rule_format, of i h k r] by simp_all

lemma proofs_core_release:
  assumes "proofs_core P R" "(i, h, k) \<in> P" "rp_hash r = h" "rp_key r = k"
  shows "proofs_core {x \<in> P. fst x \<noteq> i} (insert r R)"
proof (rule proofs_coreI)
  fix i1 h1 k1 r'
  assume a: "(i1, h1, k1) \<in> {x \<in> P. fst x \<noteq> i}" "r' \<in> insert r R"
  then have p: "(i1, h1, k1) \<in> P" "i1 \<noteq> i" by simp_all
  from a(2) show "(h1 = rp_hash r' \<longrightarrow> h1 = None) \<and> (k1 = rp_key r' \<longrightarrow> k1 = None)"
  proof
    assume "r' = r"
    then show ?thesis using proofs_coreD(1)[OF assms(1) p(1) assms(2) p(2)] assms(3,4) by simp
  qed (rule proofs_coreD(2)[OF assms(1) p(1)])
qed (rule proofs_coreD(1)[OF assms(1)], simp_all)

lemma proofs_core_extend:
  assumes "proofs_core P R" "\<And>i' h' k'. (i', h', k') \<in> P \<Longrightarrow> i' \<noteq> i \<Longrightarrow> h' \<noteq> Some h \<and> k' \<noteq> Some k"
    and "\<And>r. r \<in> R \<Longrightarrow> rp_hash r \<noteq> Some h \<and> rp_key r \<noteq> Some k"
  shows "proofs_core (insert (i, Some h, Some k) {x \<in> P. fst x \<noteq> i}) R"
proof (rule proofs_coreI)
  fix i1 h1 k1 i2 h2 k2
  assume a: "(i1, h1, k1) \<in> insert (i, Some h, Some k) {x \<in> P. fst x \<noteq> i}"
    "(i2, h2, k2) \<in> insert (i, Some h, Some k) {x \<in> P. fst x \<noteq> i}" "i1 \<noteq> i2"
  then consider "i1 = i" "h1 = Some h" "k1 = Some k" "(i2, h2, k2) \<in> P" "i2 \<noteq> i"
    | "i2 = i" "h2 = Some h" "k2 = Some k" "(i1, h1, k1) \<in> P" "i1 \<noteq> i"
    | "(i1, h1, k1) \<in> P" "(i2, h2, k2) \<in> P" by auto
  then show "(h1 = h2 \<longrightarrow> h1 = None) \<and> (k1 = k2 \<longrightarrow> k1 = None)"
    using assms(2) proofs_coreD(1)[OF assms(1) _ _ a(3)] by cases auto
next
  fix i1 h1 k1 r
  assume "(i1, h1, k1) \<in> insert (i, Some h, Some k) {x \<in> P. fst x \<noteq> i}" "r \<in> R"
  then show "(h1 = rp_hash r \<longrightarrow> h1 = None) \<and> (k1 = rp_key r \<longrightarrow> k1 = None)"
    using assms(3)[of r] proofs_coreD(2)[OF assms(1), of i1 h1 k1 r] by auto
qed

lemma proofs_ok_core: "proofs_ok d \<longleftrightarrow> proofs_core (p_core ` set (db_orders d)) (set (db_replays d))"
proof
  assume "proofs_ok d"
  then show "proofs_core (p_core ` set (db_orders d)) (set (db_replays d))"
    unfolding proofs_ok_def by (intro proofs_coreI) (auto simp: p_core_def)
next
  assume c: "proofs_core (p_core ` set (db_orders d)) (set (db_replays d))"
  have "(o_id a, o_proof_hash a, o_ref_key a) \<in> p_core ` set (db_orders d)" if "a \<in> set (db_orders d)" for a
    using that by (simp add: p_core_def image_iff) blast
  then show "proofs_ok d" using proofs_coreD[OF c] unfolding proofs_ok_def by meson
qed

lemma proofs_core_mono: "proofs_core P R \<Longrightarrow> P' \<subseteq> P \<Longrightarrow> R' \<subseteq> R \<Longrightarrow> proofs_core P' R'"
proof (rule proofs_coreI)
  assume a: "proofs_core P R" "P' \<subseteq> P" "R' \<subseteq> R"
  fix i h k i' h' k' r assume p: "(i, h, k) \<in> P'"
  show "(h = h' \<longrightarrow> h = None) \<and> (k = k' \<longrightarrow> k = None)" if "(i', h', k') \<in> P'" "i \<noteq> i'"
    by (rule proofs_coreD(1)[OF a(1) subsetD[OF a(2) p] subsetD[OF a(2) that(1)] that(2)])
  show "(h = rp_hash r \<longrightarrow> h = None) \<and> (k = rp_key r \<longrightarrow> k = None)" if "r \<in> R'"
    by (rule proofs_coreD(2)[OF a(1) subsetD[OF a(2) p] subsetD[OF a(3) that]])
qed

lemma settle_p_core:
  "map p_core (db_orders (snd (settle_totals now oid status row d))) = map p_core (db_orders d)"
  "db_replays (snd (settle_totals now oid status row d)) = db_replays d"
  by (simp_all add: settle_totals_def map_key_upd_where p_core_def split: option.split)

lemma find_replay_None:
  "find_replay d oid px = None \<longleftrightarrow>
     (\<forall>o' \<in> set (db_orders d). o_id o' \<noteq> oid \<longrightarrow>
        o_proof_hash o' \<noteq> Some (px_hash px) \<and> o_ref_key o' \<noteq> Some (px_ref_key px))
   \<and> (\<forall>r \<in> set (db_replays d). rp_hash r \<noteq> Some (px_hash px) \<and> rp_key r \<noteq> Some (px_ref_key px))"
proof -
  have "find_replay d oid px = None \<longleftrightarrow>
      find (\<lambda>o'. o_id o' \<noteq> oid \<and> (o_proof_hash o' = Some (px_hash px) \<or> o_ref_key o' = Some (px_ref_key px)))
           (db_orders d) = None
    \<and> find (\<lambda>r. rp_hash r = Some (px_hash px) \<or> rp_key r = Some (px_ref_key px)) (db_replays d) = None"
    by (simp add: find_replay_def split: option.split)
  then show ?thesis unfolding find_None_iff by blast
qed

lemma payment_proofs:
  assumes "proofs_ok d" "update_order_payment_status now oid status note proof d = (res, d')"
  shows "proofs_ok d'"
  using assms(2)
proof (cases rule: payment_update_cases)
  case (written row b)
  let ?d1 = "set_rows oid (write_payment now status note proof) d"
  have "p_core ` set (db_orders d') = p_core ` set (db_orders ?d1)" "db_replays d' = db_replays d"
    using settle_p_core[of now oid status row ?d1] written(6)
    by (simp_all flip: set_map)
  moreover have "proofs_core (p_core ` set (db_orders ?d1)) (set (db_replays d))"
  proof (cases "proof")
    case None
    then have "map p_core (db_orders ?d1) = map p_core (db_orders d)"
      unfolding set_rows_sel by (intro map_key_upd_where) (simp add: p_core_def write_payment_def)
    then show ?thesis using assms(1) unfolding proofs_ok_core by (metis list.set_map)
  next
    case (Some px)
    then have new: "find_replay d oid px = None" using written(4) by simp
    have sub: "p_core ` set (db_orders ?d1) \<subseteq>
        insert (oid, Some (px_hash px), Some (px_ref_key px)) {x \<in> p_core ` set (db_orders d). fst x \<noteq> oid}"
      by (auto simp: upd_where_def Some p_core_def write_payment_def Let_def)
    have "proofs_core (insert (oid, Some (px_hash px), Some (px_ref_key px))
        {x \<in> p_core ` set (db_orders d). fst x \<noteq> oid}) (set (db_replays d))"
      using assms(1)[unfolded proofs_ok_core] new unfolding find_replay_None
      by (intro proofs_core_extend) (auto simp: p_core_def)
    then show ?thesis by (rule proofs_core_mono[OF _ sub subset_refl])
  qed
  ultimately show ?thesis by (simp add: proofs_ok_core)
qed (use assms(1) in simp)

text \<open>No proof is accepted twice: a payment update keeps every proof hash and every payment
  reference in at most one order or replay record, so the unique indexes never fail.\<close>

theorem payment_proofs_unique:
  assumes "proofs_ok d" "update_order_payment_status now oid status note proof d = (res, d')"
  shows "proofs_ok d'"
  by (rule payment_proofs[OF assms])

lemma finish_delete_proofs:
  assumes "proofs_ok d" "distinct (map o_id (db_orders d))"
  shows "proofs_ok (snd (finish_delete oid d))"
proof (cases "find_by o_id oid (db_orders d)")
  case None
  then show ?thesis using assms by (simp add: finish_delete_def get_row_def)
next
  case (Some row)
  let ?P = "p_core ` set (del_where (\<lambda>o'. o_id o' = oid) (db_orders d))"
  have row: "row \<in> set (db_orders d)" "o_id row = oid" using find_by_SomeD[OF Some] by auto
  have sub: "?P \<subseteq> {x \<in> p_core ` set (db_orders d). fst x \<noteq> oid}" by (auto simp: set_del_where p_core_def)
  have "(oid, o_proof_hash row, o_ref_key row) \<in> p_core ` set (db_orders d)"
    using row by (force simp: p_core_def)
  then have "proofs_core {x \<in> p_core ` set (db_orders d). fst x \<noteq> oid} (insert (replay_of row) (set (db_replays d)))"
    using assms(1) unfolding proofs_ok_core by (intro proofs_core_release) (auto simp: replay_of_def)
  then have "proofs_core ?P (set (remembered row (db_replays d)))"
    by (rule proofs_core_mono[OF _ sub remembered_subset])
  then show ?thesis unfolding finish_delete_found[OF Some] by (simp add: proofs_ok_core)
qed


section \<open>Insertions and customers\<close>

lemma totals_ok_insert:
  assumes ok: "totals_ok d" and o': "o_id o' \<notin> o_id ` set (db_orders d)" "\<not> o_applied o'"
      "0 \<le> customer_spend_amount o'" "\<forall>cid. o_customer o' = Some cid \<longrightarrow> cid \<in> c_id ` set (db_customers d)"
  shows "totals_ok (d\<lparr>db_orders := db_orders d @ [o']\<rparr>)"
proof (rule totals_okI[where cs = "db_customers d" and os = "db_orders d @ [o']"])
  show "distinct (map o_id (db_orders d @ [o']))" "distinct (map c_id (db_customers d))"
    using ok o'(1) by (auto simp: totals_ok_def)
  show "0 \<le> customer_spend_amount x \<and> (\<forall>cid. o_customer x = Some cid \<longrightarrow> cid \<in> c_id ` set (db_customers d))"
    if "x \<in> set (db_orders d @ [o'])" for x
    using that ok o'(3,4) unfolding totals_ok_def by auto
  have "order_weight i o' = 0" "spend_weight i o' = 0" for i
    using o'(2) by (simp_all add: order_weight_def spend_weight_def counted_def)
  then show "c_orders c = sum_list (map (order_weight (c_id c)) (db_orders d @ [o']))
      \<and> c_spent c = sum_list (map (spend_weight (c_id c)) (db_orders d @ [o']))"
    if "c \<in> set (db_customers d)" for c
    using that ok by (simp add: totals_ok_def)
qed simp_all

lemma totals_ok_same_core:
  "map c_core cs' = map c_core (db_customers d) \<Longrightarrow> totals_ok (d\<lparr>db_customers := cs'\<rparr>) = totals_ok d"
  by (simp add: totals_ok_core)

lemma totals_ok_new_customer:
  assumes ok: "totals_ok d" and c: "c_id c \<notin> c_id ` set (db_customers d)" "c_orders c = 0" "c_spent c = 0"
  shows "totals_ok (d\<lparr>db_customers := db_customers d @ [c]\<rparr>)"
proof -
  have "order_weight (c_id c) o' = 0 \<and> spend_weight (c_id c) o' = 0" if "o' \<in> set (db_orders d)" for o'
    using that ok c(1) unfolding totals_ok_def order_weight_def spend_weight_def counted_def by auto
  then have z: "sum_list (map (order_weight (c_id c)) (db_orders d)) = 0"
    "sum_list (map (spend_weight (c_id c)) (db_orders d)) = 0"
    by (simp_all add: sum_list_0 cong: map_cong)
  show ?thesis
    by (rule totals_okI[where cs = "db_customers d @ [c]" and os = "db_orders d"])
       (use ok c z in \<open>auto simp: totals_ok_def\<close>)
qed

lemma core_refresh_profile: "c_core (refresh_profile now n p h c) = c_core c"
  by (simp add: refresh_profile_def c_core_def)

lemma get_or_create_totals:
  assumes ok: "totals_ok d" and i: "i \<notin> c_id ` set (db_customers d)"
    and g: "get_or_create_customer i now ch pid dn ph ih fb (db_customers d) = (c, cs')"
  shows "totals_ok (d\<lparr>db_customers := cs'\<rparr>)"
proof (cases "find_platform ch pid (db_customers d)")
  case None
  then obtain n p h where c: "cs' = db_customers d @ [new_customer i now ch pid n p h]"
    using g by (auto simp: get_or_create_customer_def Let_def)
  show ?thesis unfolding c
    by (rule totals_ok_new_customer[OF ok]) (use i in \<open>simp_all add: new_customer_def\<close>)
next
  case (Some row)
  obtain n where "cs' = upd_where (\<lambda>c. c_id c = c_id row)
      (refresh_profile now n (normalize_phone_number ph) (normalize_handle ih)) (db_customers d)"
    using get_or_create_found[OF Some, of i now dn ph ih fb] g by (auto split: option.splits)
  then have "map c_core cs' = map c_core (db_customers d)"
    by (simp add: map_key_upd_where core_refresh_profile)
  then show ?thesis using ok by (simp add: totals_ok_same_core)
qed

lemma add_tags_core: "map c_core (add_tags cid ts cs) = map c_core cs"
  by (simp add: add_tags_def map_key_upd_where c_core_def)

section \<open>Concrete orders\<close>

definition new_order_row :: "string \<Rightarrow> string \<Rightarrow> py_dict list \<Rightarrow> rat \<Rightarrow> order" where
  "new_order_row oid cid items amount = \<lparr>o_id = oid, o_customer = Some cid, o_items = items, o_total = amount,
     o_merch = Some amount, o_fee = 0, o_fee_currency = ''USD'', o_method = Some ''Zelle'',
     o_pay_status = ''pending'', o_proof = None, o_proof_hash = None, o_reference = None, o_ref_key = None,
     o_pay_currency = None, o_pay_amount = None, o_pay_tx_at = None, o_verified_at = None,
     o_inv = ''reserved'', o_reserved_at = Some 0, o_released_at = None, o_applied = False,
     o_ship_method = None, o_ship_city = None, o_ship_addr = None, o_fulfil = None, o_zone = None,
     o_agency = None, o_ship_status = ''pending'', o_tracking = None, o_created_at = 0, o_updated_at = 0\<rparr>"

definition sample_db :: store_db where
  "sample_db = \<lparr>db_customers = [new_customer ''c1'' 0 ''whatsapp'' ''p'' None None None],
     db_orders = [new_order_row ''A'' ''c1'' [] 20, new_order_row ''B'' ''c1'' [] 30], db_replays = []\<rparr>"

definition sample_proof :: "string \<Rightarrow> proof_metadata" where
  "sample_proof h = \<lparr>px_hash = h, px_reference = h, px_ref_key = ''ref:'' @ h, px_currency = ''USD'',
     px_amount = 20, px_tx_at = 0\<rparr>"

text \<open>A proof replaced on its own order can be used again: the first proof of an order is
  overwritten when the order is set back to pending and a second proof is accepted for it, and then
  nothing remembers the first one, which another order may present.\<close>

theorem replaced_proof_reusable:
  "let (r1, d1) = update_order_payment_status 1 ''A'' ''proof_received'' None (Some (sample_proof ''h1'')) sample_db;
       (r2, d2) = update_order_payment_status 2 ''A'' ''pending'' None None d1;
       (r3, d3) = update_order_payment_status 3 ''A'' ''proof_received'' None (Some (sample_proof ''h2'')) d2;
       (r4, d4) = update_order_payment_status 4 ''B'' ''proof_received'' None (Some (sample_proof ''h1'')) d3
   in r1 = Inr (Some (PaymentUpdated ''A'' ''proof_received'' True))
    \<and> r3 = Inr (Some (PaymentUpdated ''A'' ''proof_received'' True))
    \<and> r4 = Inr (Some (PaymentUpdated ''B'' ''proof_received'' True))"
  by code_simp

lemma sample_db_ok: "totals_ok sample_db" "proofs_ok sample_db"
  by (simp add: totals_ok_def sample_db_def new_order_row_def new_customer_def order_weight_def
        spend_weight_def counted_def customer_spend_amount_def,
      simp add: proofs_ok_def sample_db_def new_order_row_def)

theorem order_items_from_catalog_witness:
  "\<exists>its. normalize_order_items [\<lparr>p_sku = ''A-M'', p_parent_sku = [], p_name = ''Pijama'', p_brand = [],
       p_category = [], p_description = [], p_size = ''M'', p_sizes = ''M'', p_price = 10, p_stock = 4, p_image = []\<rparr>]
     [[(''sku'', PStr ''A-M''), (''quantity'', PInt 2)]] = Inr its \<and> length its = 1"
proof -
  let ?cat = "[\<lparr>p_sku = ''A-M'', p_parent_sku = [], p_name = ''Pijama'', p_brand = [],
       p_category = [], p_description = [], p_size = ''M'', p_sizes = ''M'', p_price = 10, p_stock = 4, p_image = []\<rparr>]"
  let ?it = "order_item (hd ?cat) [] 2"
  have "normalize_order_items ?cat [[(''sku'', PStr ''A-M''), (''quantity'', PInt 2)]] = Inr [?it]"
    by code_simp
  from order_items_from_catalog[OF this] this show ?thesis by simp
qed

theorem order_amounts_consistent_witness:
  "\<exists>op. hydrate_order_pricing ((new_order_row ''A'' ''c1'' [[(''unit_price'', PInt 100), (''quantity'', PInt 4)]] 360)) = Inr op
     \<and> op_discount_amount op = 40"
proof -
  let ?its = "[[(''unit_price'', PInt 100), (''quantity'', PInt 4)]]"
  let ?o = "new_order_row ''A'' ''c1'' ?its 360"
  let ?pg = "price_subtotal (resolve_order_discount_config []) 400"
  have 1: "calculate_order_amounts ?its [] = Inr ?pg" by code_simp
  have 2: "0 \<le> sum_list (map item_line ?its)" by code_simp
  have 3: "dc_rate (resolve_order_discount_config []) \<le> 1" by code_simp
  have 4: "o_items ?o = ?its" by (simp add: new_order_row_def)
  have 5: "o_merch ?o = Some (pg_total ?pg)" by code_simp
  have 6: "pg_discount_amount ?pg = 40" by code_simp
  from order_amounts_consistent[OF 1 2 3 4 5] 6 show ?thesis by auto
qed

theorem payment_totals_exact_witness:
  "totals_ok (snd (update_order_payment_status 1 ''A'' ''confirmed'' None None sample_db))
   \<and> map c_orders (db_customers (snd (update_order_payment_status 1 ''A'' ''confirmed'' None None sample_db))) = [1]"
proof -
  have "map c_orders (db_customers (snd (update_order_payment_status 1 ''A'' ''confirmed'' None None sample_db))) = [1]"
    by code_simp
  with payment_totals_exact[OF sample_db_ok(1) prod.collapse[symmetric]] show ?thesis by blast
qed

theorem paid_needs_stock_witness:
  "snd (update_order_payment_status 1 ''Z'' ''confirmed'' None None sample_db) = sample_db"
proof -
  have "update_order_payment_status 1 ''Z'' ''confirmed'' None None sample_db = (Inr None, sample_db)"
    by code_simp
  from paid_needs_stock[OF this] this show ?thesis by simp
qed

theorem payment_proofs_unique_witness:
  "proofs_ok (snd (update_order_payment_status 1 ''A'' ''proof_received'' None (Some (sample_proof ''h1'')) sample_db))"
  by (rule payment_proofs_unique[OF sample_db_ok(2) prod.collapse[symmetric]])


section \<open>Open orders\<close>

lemma length_customer_filter:
  "length (select_orders d cid p) = length (filter (\<lambda>o'. o_customer o' = Some cid \<and> p o') (db_orders d))"
proof -
  have "mset (select_orders d cid p) = filter_mset p (filter_mset (\<lambda>o'. o_customer o' = Some cid) (mset (db_orders d)))"
    by (simp add: select_orders_def customer_orders_of_def newest_first_def)
  also have "\<dots> = mset (filter (\<lambda>o'. o_customer o' = Some cid \<and> p o') (db_orders d))"
    by (simp add: filter_filter_mset conj_commute)
  finally show ?thesis by (metis size_mset)
qed

lemma select_orders_set: "set (select_orders d cid p) = {o' \<in> set (db_orders d). o_customer o' = Some cid \<and> p o'}"
  by (auto simp: select_orders_def customer_orders_of_def newest_first_def)

text \<open>An order is picked for a customer without an order id only when there is no choice: the
  query flags ambiguity exactly when at least two orders are open, and otherwise answers the
  customer's only open order, which is theirs and open, or none.\<close>

theorem unambiguous_open_order:
  assumes "distinct (map o_id (db_orders d))"
    and "get_unambiguous_open_order d cid = (res, amb)"
  shows "amb = (2 \<le> length (filter (\<lambda>o'. o_customer o' = Some cid \<and> is_open o') (db_orders d)))
    \<and> (\<forall>o' op. res = Inr (Some (o', op)) \<longrightarrow>
         {x \<in> set (db_orders d). o_customer x = Some cid \<and> is_open x} = {o'})"
proof -
  let ?s = "select_orders d cid is_open"
  consider "?s = []" | x where "?s = [x]" | x y zs where "?s = x # y # zs"
    by (metis neq_Nil_conv)
  then show ?thesis
  proof cases
    case 1
    then show ?thesis using assms(2) length_customer_filter[of d cid is_open]
      by (auto simp: get_unambiguous_open_order_def)
  next
    case (2 x)
    then have x: "{x \<in> set (db_orders d). o_customer x = Some cid \<and> is_open x} = {x}"
      using select_orders_set[of d cid is_open] by simp
    then have "find_by o_id (o_id x) (db_orders d) = Some x"
      using assms(1) by (intro find_by_distinct) auto
    then have "o' = x" if "get_order d (o_id x) = Inr (Some (o', op))" for o' op
      using that by (auto simp: get_order_def get_row_def map_sum_def split: sum.splits)
    then show ?thesis using 2 x assms(2) length_customer_filter[of d cid is_open]
      by (auto simp: get_unambiguous_open_order_def)
  next
    case (3 x y zs)
    then show ?thesis using assms(2) length_customer_filter[of d cid is_open]
      by (auto simp: get_unambiguous_open_order_def numeral_2_eq_2)
  qed
qed

theorem unambiguous_open_order_witness:
  "snd (get_unambiguous_open_order sample_db ''c1'')"
proof -
  have "distinct (map o_id (db_orders sample_db))" by code_simp
  from unambiguous_open_order[OF this prod.collapse[symmetric]]
  have "snd (get_unambiguous_open_order sample_db ''c1'') =
      (2 \<le> length (filter (\<lambda>o'. o_customer o' = Some ''c1'' \<and> is_open o') (db_orders sample_db)))" by blast
  moreover have "2 \<le> length (filter (\<lambda>o'. o_customer o' = Some ''c1'' \<and> is_open o') (db_orders sample_db))"
    by code_simp
  ultimately show ?thesis by simp
qed

end
