(* ===== verification/Reservations.thy ===== *)
theory Reservations
  imports Orders Inventory
begin

text \<open>
  Stock reservations of orders, the rest of \<open>store/app/crm/orders.py\<close>: an order is inserted, its
  stock deducted in the sheet under the operation id \<open>order:<id>:reserve\<close> and the row marked
  reserved; a deletion and the clean-up of expired reservations restore it under
  \<open>order:<id>:release\<close>. The database and the sheet cannot share a transaction, so each procedure
  is a sequence of transactions and sheet calls under one advisory lock, and may stop after any of
  them. The transactions are functions on \<open>store_db\<close>, the procedures compose them with the sheet
  calls of \<open>Inventory\<close>, and the step relation \<open>rstep\<close> interleaves their atomic steps with
  everything that does not take the lock, with crashes and with restarts.
\<close>

section \<open>Sheet operations of an order\<close>

definition reserve_operation_id :: "string \<Rightarrow> string" where
  "reserve_operation_id oid = ''order:'' @ oid @ '':reserve''"

definition release_operation_id :: "string \<Rightarrow> string" where
  "release_operation_id oid = ''order:'' @ oid @ '':release''"

definition order_operation_id :: "string \<Rightarrow> int \<Rightarrow> string" where
  "order_operation_id oid direction =
     (if direction = - 1 then reserve_operation_id oid else release_operation_id oid)"

datatype sheet_outcome = Applied | Refused inv_error | Uncertain inv_error

definition order_operation_applied ::
  "inv_env \<Rightarrow> string \<Rightarrow> py_dict list \<Rightarrow> int \<Rightarrow> inv_world \<Rightarrow> (inv_error + bool) \<times> inv_world" where
  "order_operation_applied env oid items direction w =
     inventory_operation_applied env (order_operation_id oid direction) items direction w"

text \<open>A failed mutation is verified against the ledger; \<open>env2\<close> is what the verification meets.\<close>

definition verify_outcome ::
  "inv_env \<Rightarrow> string \<Rightarrow> py_dict list \<Rightarrow> int \<Rightarrow> (inv_error + (string \<times> int) list) \<times> inv_world
   \<Rightarrow> sheet_outcome \<times> inv_world" where
  "verify_outcome env2 oid items direction r =
     (case r of
        (Inr _, w1) \<Rightarrow> (Applied, w1)
      | (Inl e, w1) \<Rightarrow>
          (case order_operation_applied env2 oid items direction w1 of
             (Inl _, w2) \<Rightarrow> (Uncertain e, w2)
           | (Inr b, w2) \<Rightarrow> (if b then Applied else Refused e, w2)))"

definition deduct_order_inventory ::
  "inv_env \<Rightarrow> inv_env \<Rightarrow> string \<Rightarrow> py_dict list \<Rightarrow> inv_world \<Rightarrow> sheet_outcome \<times> inv_world" where
  "deduct_order_inventory env1 env2 oid items w =
     verify_outcome env2 oid items (- 1) (deduct_stock env1 items (Some (reserve_operation_id oid)) w)"

definition restore_order_inventory ::
  "inv_env \<Rightarrow> inv_env \<Rightarrow> string \<Rightarrow> py_dict list \<Rightarrow> inv_world \<Rightarrow> sheet_outcome \<times> inv_world" where
  "restore_order_inventory env1 env2 oid items w =
     verify_outcome env2 oid items 1 (restore_stock env1 items (Some (release_operation_id oid)) w)"

fun exc_of :: "inv_error \<Rightarrow> py_exc" where
  "exc_of (InventoryUpdateError s) = ValueError s"
| "exc_of (InvValueError s) = ValueError s"

section \<open>Transactions\<close>

text \<open>\<open>NUMERIC(10,2)\<close> rounds a non-negative amount half up.\<close>

definition numeric2 :: "rat \<Rightarrow> rat" where
  "numeric2 q = of_int \<lfloor>q * 100 + 1 / 2\<rfloor> / 100"

definition matches_request :: "int \<Rightarrow> order_request \<Rightarrow> prepared_order \<Rightarrow> order \<Rightarrow> bool" where
  "matches_request now rq po o' =
     (o_customer o' = Some (rq_customer rq) \<and> o_items o' = po_items po
      \<and> opt_str (o_method o') = po_method po \<and> opt_str (o_ship_city o') = po_city po
      \<and> opt_str (o_ship_addr o') = opt_str (po_addr po)
      \<and> opt_str (o_ship_method o') = opt_str (po_ship_method po)
      \<and> opt_str (o_fulfil o') = opt_str (rq_fulfil rq) \<and> opt_str (o_zone o') = opt_str (po_zone po)
      \<and> opt_str (o_agency o') = opt_str (po_agency po) \<and> o_fee o' = po_fee po
      \<and> o_pay_status o' \<in> set [''pending'', ''proof_received'']
      \<and> o_inv o' \<in> set [reservation_in_progress, ''reserved'']
      \<and> (o_inv o' = reservation_in_progress \<or> now - 1800 \<le> o_created_at o'))"

definition inserted_order :: "string \<Rightarrow> int \<Rightarrow> order_request \<Rightarrow> prepared_order \<Rightarrow> order" where
  "inserted_order new_id now rq po =
     \<lparr>o_id = new_id, o_customer = Some (rq_customer rq), o_items = po_items po,
      o_total = numeric2 (po_total po), o_merch = Some (numeric2 (pg_total (po_pricing po))),
      o_fee = numeric2 (po_fee po), o_fee_currency = po_currency po, o_method = Some (po_method po),
      o_pay_status = ''pending'', o_proof = None, o_proof_hash = None, o_reference = None,
      o_ref_key = None, o_pay_currency = None, o_pay_amount = None, o_pay_tx_at = None,
      o_verified_at = None, o_inv = reservation_in_progress, o_reserved_at = None,
      o_released_at = None, o_applied = False, o_ship_method = po_ship_method po,
      o_ship_city = Some (po_city po), o_ship_addr = po_addr po, o_fulfil = rq_fulfil rq,
      o_zone = po_zone po, o_agency = po_agency po, o_ship_status = ''pending'', o_tracking = None,
      o_created_at = now, o_updated_at = now\<rparr>"

text \<open>The order a request is served by: a matching recent one, or a new row. The answer is the row and
  whether it is new.\<close>

definition open_order_tx ::
  "string \<Rightarrow> int \<Rightarrow> order_request \<Rightarrow> prepared_order \<Rightarrow> store_db \<Rightarrow> (py_exc + order \<times> bool) \<times> store_db" where
  "open_order_tx new_id now rq po d =
     (case newest_first (filter (matches_request now rq po) (db_orders d)) of
        o' # _ \<Rightarrow> (Inr (o', False), d)
      | [] \<Rightarrow>
          (if max_active_unpaid_orders \<le> get_active_unpaid_order_count d (rq_customer rq)
           then (Inl (ValueError ''pending order limit''), d)
           else (let o' = inserted_order new_id now rq po in
                 (Inr (o', True), d\<lparr>db_orders := db_orders d @ [o']\<rparr>))))"

definition mark_reserved :: "int \<Rightarrow> order \<Rightarrow> order" where
  "mark_reserved now o' = o'\<lparr>o_inv := ''reserved'', o_reserved_at := Some now, o_updated_at := now\<rparr>"

definition reserve_order_tx :: "int \<Rightarrow> string \<Rightarrow> store_db \<Rightarrow> (py_exc + string) \<times> store_db" where
  "reserve_order_tx now oid d =
     (case get_row d oid of
        None \<Rightarrow> (Inl (RuntimeError ''order row is missing; manual reconciliation is required''), d)
      | Some cur \<Rightarrow>
          (if o_inv cur = reservation_in_progress
           then (Inr (o_pay_status cur), set_rows oid (mark_reserved now) d)
           else if o_inv cur = ''reserved'' then (Inr (o_pay_status cur), d)
           else (Inl (RuntimeError ''manual reconciliation is required''), d)))"

text \<open>\<open>CASE WHEN payment_status = 'pending' THEN 'rejected' ELSE payment_status END\<close>.\<close>

definition reject_pending :: "string \<Rightarrow> string" where
  "reject_pending s = (if s = ''pending'' then ''rejected'' else s)"

definition mark_inventory_reservation_failed :: "int \<Rightarrow> string \<Rightarrow> store_db \<Rightarrow> store_db" where
  "mark_inventory_reservation_failed now oid d =
     set_rows oid (\<lambda>o'. if o_inv o' = reservation_in_progress
                        then o'\<lparr>o_inv := reservation_failed, o_pay_status := reject_pending (o_pay_status o'),
                                o_updated_at := now\<rparr> else o') d"

definition releasable_statuses :: "string list" where
  "releasable_statuses = [''pending'', ''failed'', ''rejected'']"

definition mark_release_pending :: "int \<Rightarrow> order \<Rightarrow> order" where
  "mark_release_pending now o' = o'\<lparr>o_inv := release_in_progress, o_updated_at := now\<rparr>"

text \<open>The first transaction of a deletion and of a release: the row as it was, and whether stock has
  to be restored. A release refuses rows that are not releasable.\<close>

definition begin_delete_tx :: "int \<Rightarrow> string \<Rightarrow> store_db \<Rightarrow> (order \<times> bool) option \<times> store_db" where
  "begin_delete_tx now oid d =
     (case get_row d oid of
        None \<Rightarrow> (None, d)
      | Some row \<Rightarrow>
          (if o_inv row = ''reserved'' then (Some (row, True), set_rows oid (mark_release_pending now) d)
           else (Some (row, o_inv row = release_in_progress), d)))"

definition begin_release_tx :: "int \<Rightarrow> string \<Rightarrow> store_db \<Rightarrow> (order \<times> bool) option \<times> store_db" where
  "begin_release_tx now oid d =
     (case get_row d oid of
        None \<Rightarrow> (None, d)
      | Some row \<Rightarrow>
          (if o_pay_status row \<notin> set releasable_statuses then (None, d)
           else if o_inv row = ''reserved'' then (Some (row, True), set_rows oid (mark_release_pending now) d)
           else if o_inv row = release_in_progress then (Some (row, True), d)
           else if o_inv row \<noteq> reservation_in_progress then (None, d)
           else (Some (row, False), d)))"

definition claim_release_tx :: "int \<Rightarrow> string \<Rightarrow> store_db \<Rightarrow> store_db" where
  "claim_release_tx now oid d =
     set_rows oid (\<lambda>o'. if o_inv o' = reservation_in_progress then mark_release_pending now o' else o') d"

definition mark_released :: "int \<Rightarrow> order \<Rightarrow> order" where
  "mark_released now o' = o'\<lparr>o_inv := released, o_released_at := Some now,
     o_pay_status := reject_pending (o_pay_status o'), o_updated_at := now\<rparr>"

definition finish_release_tx :: "int \<Rightarrow> string \<Rightarrow> store_db \<Rightarrow> bool \<times> store_db" where
  "finish_release_tx now oid d =
     (case get_row d oid of
        None \<Rightarrow> (False, d)
      | Some row \<Rightarrow> (if o_pay_status row \<notin> set releasable_statuses then (False, d)
                     else (True, set_rows oid (mark_released now) d)))"

section \<open>The procedures\<close>

record create_env =
  ce_new_id :: string
  ce_now :: int
  ce_settings :: "(string \<times> json) list"
  ce_method_id :: "nat \<Rightarrow> string"
  ce_clock :: int
  ce_time1 :: int
  ce_time2 :: int
  ce_fetch :: sheet_fetch
  ce_image :: "pyval \<Rightarrow> string"
  ce_sheet :: inv_env
  ce_verify :: inv_env
  ce_mark_fails :: bool

record order_created =
  oc_id :: string
  oc_total :: rat
  oc_status :: string
  oc_new :: bool
  oc_prepared :: prepared_order

text \<open>After the row is there: deduct, then mark the row reserved or failed.\<close>

definition reserve_opened ::
  "create_env \<Rightarrow> prepared_order \<Rightarrow> order \<Rightarrow> bool \<Rightarrow> store_db \<Rightarrow> inv_world
   \<Rightarrow> (py_exc + order_created) \<times> store_db \<times> inv_world" where
  "reserve_opened ce po o' new d w =
     (case deduct_order_inventory (ce_sheet ce) (ce_verify ce) (o_id o') (po_items po) w of
        (Uncertain _, w') \<Rightarrow> (Inl (RuntimeError ''reservation outcome could not be verified''), d, w')
      | (Refused e, w') \<Rightarrow>
          (Inl (exc_of e),
           if ce_mark_fails ce then d else mark_inventory_reservation_failed (ce_now ce) (o_id o') d, w')
      | (Applied, w') \<Rightarrow>
          (case reserve_order_tx (ce_now ce) (o_id o') d of
             (Inl e, d') \<Rightarrow> (Inl e, d', w')
           | (Inr status, d') \<Rightarrow>
               (Inr \<lparr>oc_id = o_id o', oc_total = o_total o', oc_status = status, oc_new = new,
                     oc_prepared = po\<rparr>, d', w')))"

definition create_order ::
  "create_env \<Rightarrow> order_request \<Rightarrow> store_db \<Rightarrow> inv_world
   \<Rightarrow> (py_exc + order_created) \<times> store_db \<times> inv_world" where
  "create_order ce rq d w =
     (case check_order_request (ce_method_id ce) (ce_settings ce) rq of
        Inl e \<Rightarrow> (Inl e, d, w)
      | Inr (items, method) \<Rightarrow>
     (case ensure_fresh_catalog (ce_image ce) (ce_clock ce) (ce_time1 ce) (ce_time2 ce) (ce_fetch ce)
             (w_catalog w) of
        (Inl e, cs) \<Rightarrow> (Inl e, d, w\<lparr>w_catalog := cs\<rparr>)
      | (Inr catalog, cs) \<Rightarrow>
     (case prepare_order (ce_settings ce) catalog items method rq of
        Inl e \<Rightarrow> (Inl e, d, w\<lparr>w_catalog := cs\<rparr>)
      | Inr po \<Rightarrow>
          (if find_by c_id (rq_customer rq) (db_customers d) = None
           then (Inl (ValueError ''Customer was not found''), d, w\<lparr>w_catalog := cs\<rparr>)
           else (case open_order_tx (ce_new_id ce) (ce_now ce) rq po d of
                   (Inl e, d') \<Rightarrow> (Inl e, d', w\<lparr>w_catalog := cs\<rparr>)
                 | (Inr (o', new), d') \<Rightarrow>
                     (if o_inv o' = ''reserved''
                      then (Inr \<lparr>oc_id = o_id o', oc_total = o_total o', oc_status = o_pay_status o',
                                 oc_new = False, oc_prepared = po\<rparr>, d', w\<lparr>w_catalog := cs\<rparr>)
                      else if o_inv o' \<noteq> reservation_in_progress
                      then (Inl (RuntimeError ''cannot be reserved''), d', w\<lparr>w_catalog := cs\<rparr>)
                      else reserve_opened ce po o' new d' (w\<lparr>w_catalog := cs\<rparr>)))))))"

text \<open>What a deletion or a release meets: the clock, the query for an unfinished reservation, the
  restore and its verification.\<close>

record release_env =
  re_now :: int
  re_query :: inv_env
  re_restore :: inv_env
  re_verify :: inv_env

text \<open>Between the first and the last transaction: restore the stock if the reservation took any.\<close>

definition settle_reservation ::
  "release_env \<Rightarrow> order \<Rightarrow> bool \<Rightarrow> store_db \<Rightarrow> inv_world \<Rightarrow> (py_exc + bool) \<times> store_db \<times> inv_world" where
  "settle_reservation re row restore d w =
     (let restore_now = (\<lambda>d1 w1.
            case restore_order_inventory (re_restore re) (re_verify re) (o_id row) (o_items row) w1 of
              (Applied, w2) \<Rightarrow> (Inr True, d1, w2)
            | (Refused e, w2) \<Rightarrow> (Inl (exc_of e), d1, w2)
            | (Uncertain e, w2) \<Rightarrow> (Inl (exc_of e), d1, w2)) in
      if restore then restore_now d w
      else if o_inv row = reservation_in_progress
      then (case order_operation_applied (re_query re) (o_id row) (o_items row) (- 1) w of
              (Inl e, w1) \<Rightarrow> (Inl (exc_of e), d, w1)
            | (Inr False, w1) \<Rightarrow> (Inr False, d, w1)
            | (Inr True, w1) \<Rightarrow> restore_now (claim_release_tx (re_now re) (o_id row) d) w1)
      else (Inr False, d, w))"

definition delete_order ::
  "release_env \<Rightarrow> string \<Rightarrow> store_db \<Rightarrow> inv_world
   \<Rightarrow> (py_exc + (string \<times> nat) option) \<times> store_db \<times> inv_world" where
  "delete_order re oid d w =
     (case begin_delete_tx (re_now re) oid d of
        (None, d1) \<Rightarrow> (Inr None, d1, w)
      | (Some (row, restore), d1) \<Rightarrow>
          (case settle_reservation re row restore d1 w of
             (Inl e, d2, w2) \<Rightarrow> (Inl e, d2, w2)
           | (Inr restored, d2, w2) \<Rightarrow>
               (case finish_delete oid d2 of
                  (True, d3) \<Rightarrow> (Inr (Some (oid, if restored then length (o_items row) else 0)), d3, w2)
                | (False, d3) \<Rightarrow> (Inr None, d3, w2))))"

definition release_inventory_reservation ::
  "release_env \<Rightarrow> string \<Rightarrow> store_db \<Rightarrow> inv_world \<Rightarrow> (py_exc + bool) \<times> store_db \<times> inv_world" where
  "release_inventory_reservation re oid d w =
     (case begin_release_tx (re_now re) oid d of
        (None, d1) \<Rightarrow> (Inr False, d1, w)
      | (Some (row, restore), d1) \<Rightarrow>
          (case settle_reservation re row restore d1 w of
             (Inl e, d2, w2) \<Rightarrow> (Inl e, d2, w2)
           | (Inr _, d2, w2) \<Rightarrow>
               (case finish_release_tx (re_now re) oid d2 of (b, d3) \<Rightarrow> (Inr b, d3, w2))))"

definition held_since :: "order \<Rightarrow> int" where
  "held_since o' = (case o_reserved_at o' of Some t \<Rightarrow> t | None \<Rightarrow> o_created_at o')"

definition is_expired :: "int \<Rightarrow> order \<Rightarrow> bool" where
  "is_expired now o' =
     (o_inv o' \<in> set [''reserved'', release_in_progress, reservation_in_progress]
      \<and> (o_pay_status o' \<in> set [''failed'', ''rejected'']
         \<or> (o_pay_status o' = ''pending'' \<and> held_since o' \<le> now - reservation_ttl_hours * 3600)))"

fun release_all ::
  "(string \<Rightarrow> release_env) \<Rightarrow> string list \<Rightarrow> nat \<times> nat \<Rightarrow> store_db \<Rightarrow> inv_world
   \<Rightarrow> (nat \<times> nat) \<times> store_db \<times> inv_world" where
  "release_all env [] counts d w = (counts, d, w)"
| "release_all env (oid # oids) (rel, fl) d w =
     (case release_inventory_reservation (env oid) oid d w of
        (Inl _, d', w') \<Rightarrow> release_all env oids (rel, Suc fl) d' w'
      | (Inr b, d', w') \<Rightarrow> release_all env oids (if b then Suc rel else rel, fl) d' w')"

definition release_expired_inventory_reservations ::
  "int \<Rightarrow> (string \<Rightarrow> release_env) \<Rightarrow> nat \<Rightarrow> store_db \<Rightarrow> inv_world
   \<Rightarrow> (nat \<times> nat \<times> nat) \<times> store_db \<times> inv_world" where
  "release_expired_inventory_reservations now env limit d w =
     (let rows = take limit (sort_key held_since (filter (is_expired now) (db_orders d))) in
      case release_all env (map o_id rows) (0, 0) d w of
        ((rel, fl), d', w') \<Rightarrow> ((length rows, rel, fl), d', w'))"

end
