(* ===== verification/Stock_Ledger.thy ===== *)
theory Stock_Ledger
  imports Inventory
begin

text \<open>
  The interface the order procedures rely on: a store whose mutations are recorded in a ledger under
  an operation id, and a query that answers from the ledger itself. The laws are those of
  \<open>_update_stock\<close> and \<open>inventory_operation_applied\<close>, and the interpretations at the end discharge
  them for deductions and for restorations.
\<close>

section \<open>The interface\<close>

locale stock_ledger =
  fixes mutate :: "'e \<Rightarrow> 'i \<Rightarrow> string \<Rightarrow> 'w \<Rightarrow> bool \<times> 'w"
    and query :: "'e \<Rightarrow> string \<Rightarrow> 'i \<Rightarrow> 'w \<Rightarrow> bool option \<times> 'w"
    and recorded :: "'w \<Rightarrow> string \<Rightarrow> bool"
    and coherent :: "'w \<Rightarrow> bool"
    and readable :: "'w \<Rightarrow> bool"
    and valid :: "string \<Rightarrow> bool"
    and nontrivial :: "'i \<Rightarrow> bool"
  assumes mutate_done: "mutate e i opid w = (True, w') \<Longrightarrow> coherent w \<Longrightarrow> valid opid \<Longrightarrow> nontrivial i
      \<Longrightarrow> recorded w' opid \<and> coherent w'"
    and mutate_failed: "mutate e i opid w = (False, w') \<Longrightarrow> coherent w \<Longrightarrow> valid opid
      \<Longrightarrow> coherent w' \<or> recorded w' opid"
    and mutate_frame: "mutate e i opid w = (b, w') \<Longrightarrow> coherent w \<Longrightarrow> valid opid
      \<Longrightarrow> (opid' \<noteq> opid \<longrightarrow> recorded w' opid' = recorded w opid')
        \<and> (recorded w opid \<longrightarrow> recorded w' opid) \<and> (readable w \<longrightarrow> readable w')"
    and query_answer: "query e opid i w = (Some b, w') \<Longrightarrow> readable w \<Longrightarrow> valid opid
      \<Longrightarrow> b = recorded w opid \<and> (b \<longrightarrow> coherent w')"
    and query_frame: "query e opid i w = (a, w') \<Longrightarrow> readable w
      \<Longrightarrow> (\<forall>op'. recorded w' op' = recorded w op') \<and> readable w' \<and> (coherent w \<longrightarrow> coherent w')"
begin

text \<open>A mutation whose failure is checked against the ledger.\<close>

definition verified :: "'e \<Rightarrow> 'e \<Rightarrow> 'i \<Rightarrow> string \<Rightarrow> 'w \<Rightarrow> bool option \<times> 'w" where
  "verified e1 e2 i opid w =
     (case mutate e1 i opid w of (True, w1) \<Rightarrow> (Some True, w1) | (False, w1) \<Rightarrow> query e2 opid i w1)"

lemma verified_cases:
  assumes "verified e1 e2 i opid w = (a, w')"
  obtains "mutate e1 i opid w = (True, w')" "a = Some True"
  | w1 where "mutate e1 i opid w = (False, w1)" "query e2 opid i w1 = (a, w')"
  using assms unfolding verified_def by (auto split: prod.splits bool.splits)

lemma verified_frame:
  assumes "verified e1 e2 i opid w = (a, w')" "coherent w" "readable w" "valid opid"
  shows "(opid' \<noteq> opid \<longrightarrow> recorded w' opid' = recorded w opid')
    \<and> (recorded w opid \<longrightarrow> recorded w' opid) \<and> readable w'"
  using assms(1)
proof (cases rule: verified_cases)
  case 1
  then show ?thesis using mutate_frame[OF 1(1) assms(2,4)] assms(3) by blast
next
  case (2 w1)
  then show ?thesis using mutate_frame[OF 2(1) assms(2,4)] query_frame[OF 2(2)] assms(3) by auto
qed

lemma verified_true:
  assumes "verified e1 e2 i opid w = (Some True, w')" "coherent w" "readable w" "valid opid" "nontrivial i"
  shows "recorded w' opid \<and> coherent w'"
  using assms(1)
proof (cases rule: verified_cases)
  case 1
  then show ?thesis using mutate_done[OF 1(1) assms(2,4,5)] by simp
next
  case (2 w1)
  then have "readable w1" using mutate_frame[OF 2(1) assms(2,4)] assms(3) by blast
  then show ?thesis using query_answer[OF 2(2) _ assms(4)] query_frame[OF 2(2)] by simp
qed

text \<open>A refusal is final: the operation is not in the ledger and the local copy is current.\<close>

lemma verified_false:
  assumes "verified e1 e2 i opid w = (Some False, w')" "coherent w" "readable w" "valid opid"
  shows "\<not> recorded w' opid \<and> coherent w'"
  using assms(1)
proof (cases rule: verified_cases)
  case (2 w1)
  then have r: "readable w1" using mutate_frame[OF 2(1) assms(2,4)] assms(3) by blast
  then have n: "\<not> recorded w1 opid" using query_answer[OF 2(2) _ assms(4)] by simp
  then have "coherent w1" using mutate_failed[OF 2(1) assms(2,4)] by blast
  then show ?thesis using n query_frame[OF 2(2) r] by simp
qed simp

end

section \<open>The stock updates provide it\<close>

definition stock_mutate ::
  "int \<Rightarrow> inv_env \<Rightarrow> py_dict list \<Rightarrow> string \<Rightarrow> inv_world \<Rightarrow> bool \<times> inv_world" where
  "stock_mutate d env items opid w =
     (case update_stock env items d (Some opid) w of (r, w') \<Rightarrow> (\<not> isl r, w'))"

definition stock_query ::
  "int \<Rightarrow> inv_env \<Rightarrow> string \<Rightarrow> py_dict list \<Rightarrow> inv_world \<Rightarrow> bool option \<times> inv_world" where
  "stock_query d env opid items w =
     (case inventory_operation_applied env opid items d w of
        (Inl _, w') \<Rightarrow> (None, w') | (Inr b, w') \<Rightarrow> (Some b, w'))"

definition op_recorded :: "inv_world \<Rightarrow> string \<Rightarrow> bool" where
  "op_recorded w opid = (op_rows w opid \<noteq> [])"

lemma readable_rows: "ledger_readable w \<longleftrightarrow> (case sh_ledger (w_sheets w) of None \<Rightarrow> True
    | Some ws \<Rightarrow> lw_rows ws = [] \<or> \<not> list_all (\<lambda>h. py_strip h = []) (lw_headers ws))"
  by (auto simp: ledger_readable_def split: option.split)

definition titled :: "inv_world \<Rightarrow> bool" where
  "titled w \<longleftrightarrow> (\<exists>ws. sh_ledger (w_sheets w) = Some ws \<and> \<not> list_all (\<lambda>h. py_strip h = []) (lw_headers ws))"

lemma titled_readable: "titled w \<Longrightarrow> ledger_readable w"
  by (auto simp: titled_def ledger_readable_def)

lemma ledger_headers_titled: "\<not> list_all (\<lambda>h. py_strip h = []) ledger_headers"
  by code_simp

lemma take_headers_titled:
  "take (length ledger_headers) (map py_strip hs) = ledger_headers \<Longrightarrow> \<not> list_all (\<lambda>h. py_strip h = []) hs"
proof
  assume a: "take (length ledger_headers) (map py_strip hs) = ledger_headers" "list_all (\<lambda>h. py_strip h = []) hs"
  then have "\<forall>h \<in> set ledger_headers. h = []"
    by (metis (mono_tags, lifting) image_iff list.set_map list_all_iff set_take_subset subsetD)
  then show False by (simp add: ledger_headers_def)
qed

lemma get_or_create_titled:
  assumes "get_or_create_inventory_ledger env w = (r, w')"
  shows "(ledger_readable w \<longrightarrow> ledger_readable w') \<and> (\<forall>ws. r = Inr ws \<longrightarrow> titled w')"
  using assms ledger_headers_titled take_headers_titled
  unfolding get_or_create_inventory_ledger_def titled_def ledger_readable_def
  by (auto simp: Let_def split: option.splits if_splits)

lemma cached_sheets:
  "cached_inventory_ledger_records env f ws w = (r, w') \<Longrightarrow> w_sheets w' = w_sheets w"
  by (auto simp: cached_inventory_ledger_records_def Let_def split: option.splits if_splits)

lemma titled_sheets: "w_sheets w' = w_sheets w \<Longrightarrow> titled w' = titled w"
  by (simp add: titled_def)

lemma mutate_titled:
  "mutate_stock env items req d opid n w = (res, w') \<Longrightarrow> titled w \<Longrightarrow> titled w'"
  unfolding mutate_stock_def commit_moves_def titled_def
  by (auto simp: Let_def ensure_ledger_capacity_def append_cached_ledger_rows_def
      split: option.splits if_splits sum.splits prod.splits)

lemma update_stock_readable:
  assumes "update_stock env items d (Some opid) w = (res, w')" "opid \<noteq> []" "ledger_readable w"
  shows "ledger_readable w'"
proof (cases "d \<in> {- 1, 1} \<and> env_fault env \<noteq> F_open \<and> (\<exists>req. build_inventory_request items = Inr req)")
  case False
  then have "w' = w" using assms(1) unfolding update_stock_def by (auto split: if_splits sum.splits)
  then show ?thesis using assms(3) by simp
next
  case True
  then obtain req where req: "build_inventory_request items = Inr req" by blast
  obtain r w1 where g: "get_or_create_inventory_ledger env w = (r, w1)" by fastforce
  note t = get_or_create_titled[OF g]
  show ?thesis
  proof (cases r)
    case (Inl e)
    then have "w' = w1" using assms(1,2) True req g by (auto simp: update_stock_def)
    then show ?thesis using t assms(3) by simp
  next
    case (Inr ws)
    obtain c w2 where c: "cached_inventory_ledger_records env False ws w1 = (c, w2)" by fastforce
    have t2: "titled w2" using t Inr titled_sheets[OF cached_sheets[OF c]] by blast
    have "w' = w2 \<or> w' = refresh_forced env w2 \<or> (\<exists>n. mutate_stock env items req d (Some opid) n w2 = (res, w'))"
      using assms(1,2) True req g Inr c
      by (auto simp: update_stock_def Let_def split: option.splits if_splits)
    then have "titled w'" using t2 mutate_titled titled_sheets[of "refresh_forced env w2" w2] by auto
    then show ?thesis by (rule titled_readable)
  qed
qed

lemma build_request_nonempty: "build_inventory_request items = Inr [] \<Longrightarrow> items = []"
  using build_request_from_keys[of "[]" items "[]"] by (auto simp: build_inventory_request_def)

lemma stock_mutate_laws:
  assumes m: "stock_mutate d env items opid w = (b, w')" and w: "cache_coherent w" "valid_op_id opid"
  shows "(b \<longrightarrow> items \<noteq> [] \<longrightarrow> op_recorded w' opid \<and> cache_coherent w')
    \<and> (\<not> b \<longrightarrow> cache_coherent w' \<or> op_recorded w' opid)
    \<and> (opid' \<noteq> opid \<longrightarrow> op_recorded w' opid' = op_recorded w opid')
    \<and> (op_recorded w opid \<longrightarrow> op_recorded w' opid) \<and> (ledger_readable w \<longrightarrow> ledger_readable w')"
proof -
  obtain res where u: "update_stock env items d (Some opid) w = (res, w')" and b: "b = (\<not> isl res)"
    using m unfolding stock_mutate_def by (auto split: prod.splits)
  have opid: "opid \<noteq> []" using w(2) by (simp add: valid_op_id_def)
  note rd = update_stock_readable[OF u opid]
  from u opid w(1) show ?thesis
  proof (cases rule: update_stock_cases)
    case (failed e)
    then show ?thesis using b rd by (simp add: op_recorded_def same_store_op_rows[OF failed(1)])
  next
    case (existing req)
    then show ?thesis using rd
      by (simp add: op_recorded_def same_store_op_rows[OF existing(1)]) (simp add: op_rows_def)
  next
    case empty
    then show ?thesis using rd build_request_nonempty
      by (simp add: op_recorded_def same_store_op_rows[OF empty(1)])
  next
    case (committed req)
    note rows = stock_committed_rows[OF committed(4) w(2) build_request_good[OF committed(1)]]
    have "op_rows w opid = []" using committed(3) by (simp add: op_rows_def)
    moreover have "b \<longrightarrow> cache_coherent w'" using committed(4) b by (auto simp: stock_committed_def)
    ultimately show ?thesis using rows(1)[of opid'] rows(2) rd by (simp add: op_recorded_def)
  qed
qed

lemma read_ledger_frame:
  assumes "read_inventory_ledger env True w = (r, w')"
  shows "w_sheets w' = w_sheets w \<and> (cache_coherent w \<longrightarrow> cache_coherent w')"
  using assms cached_records_same[of env True _ w]
  unfolding read_inventory_ledger_def
  by (auto simp: Let_def split: option.splits if_splits prod.splits)

lemma operation_applied_frame:
  assumes "inventory_operation_applied env opid items d w = (r, w')"
  shows "w_sheets w' = w_sheets w \<and> (cache_coherent w \<longrightarrow> cache_coherent w')"
  using assms read_ledger_frame[of env w]
  unfolding inventory_operation_applied_def
  by (auto simp: Let_def split: sum.splits prod.splits if_splits)

lemma stock_query_frame:
  assumes "stock_query d env opid items w = (a, w')" "ledger_readable w"
  shows "(\<forall>op'. op_recorded w' op' = op_recorded w op') \<and> ledger_readable w'
    \<and> (cache_coherent w \<longrightarrow> cache_coherent w')"
proof -
  have "w_sheets w' = w_sheets w \<and> (cache_coherent w \<longrightarrow> cache_coherent w')"
    using assms(1) operation_applied_frame[of env opid items d w]
    unfolding stock_query_def by (auto split: prod.splits sum.splits)
  then show ?thesis using assms(2)
    by (simp add: op_recorded_def op_rows_def ledger_rows_def ledger_readable_def)
qed

text \<open>The query's answer, read off the definition: the same facts the reconciliation property states.\<close>

lemma stock_query_answer:
  assumes "stock_query d env opid items w = (Some b, w')" "ledger_readable w" "valid_op_id opid"
  shows "b = op_recorded w opid \<and> (b \<longrightarrow> cache_coherent w')"
proof -
  from assms(3) have opid: "py_strip opid = opid" "opid \<noteq> []" by (auto simp: valid_op_id_def)
  have q: "inventory_operation_applied env opid items d w = (Inr b, w')"
    using assms(1) by (auto simp: stock_query_def split: prod.splits sum.splits)
  then obtain records where r: "read_inventory_ledger env True w = (Inr records, w')"
    and b: "b = (ledger_operation_rows records opid \<noteq> [])"
    using opid unfolding inventory_operation_applied_def
    by (auto simp: Let_def split: sum.splits prod.splits if_splits)
  show ?thesis
  proof (cases "records = ledger_rows w \<and> cache_coherent w'")
    case True
    then show ?thesis using b by (auto simp: op_recorded_def op_rows_def)
  next
    case False
    then have "records = [] \<and> ledger_rows w = []"
      using r assms(2) cached_records_same[of env True _ w]
      unfolding read_inventory_ledger_def ledger_readable_def ledger_rows_def
      by (auto simp: Let_def list_all_iff split: if_splits option.splits prod.splits)
    then show ?thesis using b by (simp add: op_recorded_def op_rows_def ledger_operation_rows_def)
  qed
qed

lemma stock_ledger_laws:
  "stock_ledger (stock_mutate d) (stock_query d) op_recorded cache_coherent ledger_readable valid_op_id
     (\<lambda>items. items \<noteq> [])"
proof (unfold_locales, goal_cases)
  case (1 e i opid w w')
  then show ?case using stock_mutate_laws[OF 1(1-3)] by simp
next
  case (2 e i opid w w')
  then show ?case using stock_mutate_laws[OF 2(1-3)] by simp
next
  case (3 e i opid w b w' opid')
  then show ?case using stock_mutate_laws[OF 3(1-3), of opid'] by simp
next
  case (4 e opid i w b w')
  then show ?case by (rule stock_query_answer)
next
  case (5 e opid i w a w')
  then show ?case by (rule stock_query_frame)
qed

interpretation deducting: stock_ledger "stock_mutate (- 1)" "stock_query (- 1)" op_recorded cache_coherent
  ledger_readable valid_op_id "\<lambda>items. items \<noteq> []"
  by (rule stock_ledger_laws)

interpretation restoring: stock_ledger "stock_mutate 1" "stock_query 1" op_recorded cache_coherent
  ledger_readable valid_op_id "\<lambda>items. items \<noteq> []"
  by (rule stock_ledger_laws)

end
