(* ===== verification/Order_Protocol.thy ===== *)
theory Order_Protocol
  imports Reservations Stock_Ledger
begin

text \<open>
  The order procedures as a protocol. A state is the database, the sheet with the process-local copy
  of its ledger, and what the holder of the inventory lock has still to do. \<open>rstep\<close> has one rule
  per transaction and per sheet call, rules for everything that runs without the lock (payment and
  shipping updates, customers, edits of the sheet), and rules for an abandoned procedure and for a
  restart. A sheet mutation needs the local copy of the ledger to be current, which a restart and
  every positive reconciliation establish; the \<open>Inventory\<close> theory shows what happens otherwise.
\<close>

section \<open>States and steps\<close>

datatype pc =
    Idle
  | Reserving string "py_dict list"
  | Deducted string
  | Failing string
  | Unsettled bool string "py_dict list"
  | Claiming bool string "py_dict list"
  | Restoring bool string "py_dict list"
  | Finishing bool string

record rstate =
  rs_db :: store_db
  rs_w :: inv_world
  rs_pc :: pc

definition unused_id :: "string \<Rightarrow> rstate \<Rightarrow> bool" where
  "unused_id i s \<longleftrightarrow> get_row (rs_db s) i = None
     \<and> \<not> op_recorded (rs_w s) (reserve_operation_id i) \<and> \<not> op_recorded (rs_w s) (release_operation_id i)"

definition after_begin :: "bool \<Rightarrow> order \<Rightarrow> bool \<Rightarrow> pc" where
  "after_begin del row restore =
     (if restore then Restoring del (o_id row) (o_items row)
      else if o_inv row = reservation_in_progress then Unsettled del (o_id row) (o_items row)
      else Finishing del (o_id row))"

fun after_deduct :: "string \<Rightarrow> sheet_outcome \<Rightarrow> pc" where
  "after_deduct oid Applied = Deducted oid"
| "after_deduct oid (Refused _) = Failing oid"
| "after_deduct oid (Uncertain _) = Idle"

fun after_query :: "bool \<Rightarrow> string \<Rightarrow> py_dict list \<Rightarrow> inv_error + bool \<Rightarrow> pc" where
  "after_query del oid items (Inl _) = Idle"
| "after_query del oid items (Inr b) = (if b then Claiming del oid items else Finishing del oid)"

fun after_restore :: "bool \<Rightarrow> string \<Rightarrow> sheet_outcome \<Rightarrow> pc" where
  "after_restore del oid Applied = Finishing del oid"
| "after_restore del oid (Refused _) = Idle"
| "after_restore del oid (Uncertain _) = Idle"

inductive rstep :: "rstate \<Rightarrow> rstate \<Rightarrow> bool" where
  open_order: "rs_pc s = Idle \<Longrightarrow> open_order_tx i now rq po (rs_db s) = (Inr (o', new), d') \<Longrightarrow>
    unused_id i s \<Longrightarrow> po_items po \<noteq> [] \<Longrightarrow> 0 \<le> pg_total (po_pricing po) \<Longrightarrow>
    find_by c_id (rq_customer rq) (db_customers (rs_db s)) \<noteq> None \<Longrightarrow>
    o_inv o' = reservation_in_progress \<Longrightarrow>
    rstep s (s\<lparr>rs_db := d', rs_pc := Reserving (o_id o') (po_items po)\<rparr>)"
| deduct: "rs_pc s = Reserving oid items \<Longrightarrow> cache_coherent (rs_w s) \<Longrightarrow>
    deduct_order_inventory e1 e2 oid items (rs_w s) = (out, w') \<Longrightarrow>
    rstep s (s\<lparr>rs_w := w', rs_pc := after_deduct oid out\<rparr>)"
| mark_reserved: "rs_pc s = Deducted oid \<Longrightarrow> reserve_order_tx now oid (rs_db s) = (r, d') \<Longrightarrow>
    rstep s (s\<lparr>rs_db := d', rs_pc := Idle\<rparr>)"
| mark_failed: "rs_pc s = Failing oid \<Longrightarrow>
    rstep s (s\<lparr>rs_db := mark_inventory_reservation_failed now oid (rs_db s), rs_pc := Idle\<rparr>)"
| begin_delete: "rs_pc s = Idle \<Longrightarrow> begin_delete_tx now oid (rs_db s) = (Some (row, restore), d') \<Longrightarrow>
    rstep s (s\<lparr>rs_db := d', rs_pc := after_begin True row restore\<rparr>)"
| begin_release: "rs_pc s = Idle \<Longrightarrow> begin_release_tx now oid (rs_db s) = (Some (row, restore), d') \<Longrightarrow>
    rstep s (s\<lparr>rs_db := d', rs_pc := after_begin False row restore\<rparr>)"
| query: "rs_pc s = Unsettled del oid items \<Longrightarrow>
    order_operation_applied e oid items (- 1) (rs_w s) = (r, w') \<Longrightarrow>
    rstep s (s\<lparr>rs_w := w', rs_pc := after_query del oid items r\<rparr>)"
| claim: "rs_pc s = Claiming del oid items \<Longrightarrow>
    rstep s (s\<lparr>rs_db := claim_release_tx now oid (rs_db s), rs_pc := Restoring del oid items\<rparr>)"
| restore: "rs_pc s = Restoring del oid items \<Longrightarrow> cache_coherent (rs_w s) \<Longrightarrow>
    restore_order_inventory e1 e2 oid items (rs_w s) = (out, w') \<Longrightarrow>
    rstep s (s\<lparr>rs_w := w', rs_pc := after_restore del oid out\<rparr>)"
| finish_delete: "rs_pc s = Finishing True oid \<Longrightarrow>
    rstep s (s\<lparr>rs_db := snd (finish_delete oid (rs_db s)), rs_pc := Idle\<rparr>)"
| finish_release: "rs_pc s = Finishing False oid \<Longrightarrow>
    rstep s (s\<lparr>rs_db := snd (finish_release_tx now oid (rs_db s)), rs_pc := Idle\<rparr>)"
| abandon: "rstep s (s\<lparr>rs_pc := Idle\<rparr>)"
| restart: "rstep s (s\<lparr>rs_w := (rs_w s)\<lparr>w_cache := []\<rparr>, rs_pc := Idle\<rparr>)"
| payment: "update_order_payment_status now oid status nt px (rs_db s) = (res, d') \<Longrightarrow>
    rstep s (s\<lparr>rs_db := d'\<rparr>)"
| shipping: "update_order_shipping now oid st tr (rs_db s) = (r, d') \<Longrightarrow> rstep s (s\<lparr>rs_db := d'\<rparr>)"
| customer: "get_or_create_customer i now ch pid dn ph ih fb (db_customers (rs_db s)) = (c, cs') \<Longrightarrow>
    i \<notin> c_id ` set (db_customers (rs_db s)) \<Longrightarrow>
    rstep s (s\<lparr>rs_db := (rs_db s)\<lparr>db_customers := cs'\<rparr>\<rparr>)"
| tags: "rstep s (s\<lparr>rs_db := (rs_db s)\<lparr>db_customers := add_tags cid ts (db_customers (rs_db s))\<rparr>\<rparr>)"
| delete_customer: "rstep s (s\<lparr>rs_db := snd (delete_customer_row cid (rs_db s))\<rparr>)"
| sheet_edit: "rstep s (s\<lparr>rs_w := (rs_w s)\<lparr>w_sheets := (w_sheets (rs_w s))\<lparr>sh_rows := rows\<rparr>\<rparr>\<rparr>)"
| catalog: "rstep s (s\<lparr>rs_w := (rs_w s)\<lparr>w_catalog := cs\<rparr>\<rparr>)"

section \<open>Operation ids\<close>

lemma operation_ids [simp]:
  "reserve_operation_id a = reserve_operation_id b \<longleftrightarrow> a = b"
  "release_operation_id a = release_operation_id b \<longleftrightarrow> a = b"
  "reserve_operation_id a \<noteq> release_operation_id b" "release_operation_id b \<noteq> reserve_operation_id a"
proof -
  have ends: "take 4 (rev (reserve_operation_id a)) = ''evre''" "take 4 (rev (release_operation_id b)) = ''esae''"
    by (simp_all add: reserve_operation_id_def release_operation_id_def)
  then show "reserve_operation_id a \<noteq> release_operation_id b" "release_operation_id b \<noteq> reserve_operation_id a"
    by auto
qed (simp_all add: reserve_operation_id_def release_operation_id_def)

lemma valid_framed:
  assumes "a \<noteq> []" "b \<noteq> []" "\<not> py_space (hd a)" "\<not> py_space (last b)"
  shows "valid_op_id (a @ s @ b)"
proof -
  have 1: "dropWhile py_space (a @ s @ b) = a @ s @ b" using assms(1,3) by (cases a) simp_all
  have "dropWhile py_space (rev (a @ s @ b)) = rev (a @ s @ b)"
    using assms(2,4) by (cases b rule: rev_cases) simp_all
  then show ?thesis using assms(1) unfolding valid_op_id_def py_strip_def 1 by simp
qed

lemma valid_operation_ids [simp]:
  "valid_op_id (reserve_operation_id oid)" "valid_op_id (release_operation_id oid)"
  unfolding reserve_operation_id_def release_operation_id_def
  by (rule valid_framed; simp add: py_space_def)+

section \<open>Sheet calls through the ledger's interface\<close>

fun outcome_flag :: "sheet_outcome \<Rightarrow> bool option" where
  "outcome_flag Applied = Some True"
| "outcome_flag (Refused _) = Some False"
| "outcome_flag (Uncertain _) = None"

lemma deduct_verified:
  "deduct_order_inventory e1 e2 oid items w = (out, w') \<Longrightarrow>
   deducting.verified e1 e2 items (reserve_operation_id oid) w = (outcome_flag out, w')"
  unfolding deduct_order_inventory_def verify_outcome_def deduct_stock_def deducting.verified_def
    stock_mutate_def stock_query_def order_operation_applied_def order_operation_id_def
  by (auto split: prod.splits sum.splits bool.splits if_splits)

lemma restore_verified:
  "restore_order_inventory e1 e2 oid items w = (out, w') \<Longrightarrow>
   restoring.verified e1 e2 items (release_operation_id oid) w = (outcome_flag out, w')"
  unfolding restore_order_inventory_def verify_outcome_def restore_stock_def restoring.verified_def
    stock_mutate_def stock_query_def order_operation_applied_def order_operation_id_def
  by (auto split: prod.splits sum.splits bool.splits if_splits)

section \<open>The invariant\<close>

definition inv_map :: "store_db \<Rightarrow> string \<Rightarrow> (string \<times> py_dict list) option" where
  "inv_map d oid = map_option (\<lambda>o'. (o_inv o', o_items o')) (get_row d oid)"

text \<open>What a row's inventory status says of its two operations.\<close>

definition row_ok :: "string \<Rightarrow> py_dict list \<Rightarrow> bool \<Rightarrow> bool \<Rightarrow> bool" where
  "row_ok st items taken returned =
     (if st = reservation_in_progress then \<not> returned \<and> items \<noteq> []
      else if st = ''reserved'' then taken \<and> \<not> returned \<and> items \<noteq> []
      else if st = reservation_failed then \<not> taken \<and> \<not> returned
      else if st = release_in_progress then taken \<and> items \<noteq> []
      else taken = returned)"

lemma row_ok_simps [simp]:
  "row_ok reservation_in_progress items tk rt \<longleftrightarrow> \<not> rt \<and> items \<noteq> []"
  "row_ok ''reserved'' items tk rt \<longleftrightarrow> tk \<and> \<not> rt \<and> items \<noteq> []"
  "row_ok reservation_failed items tk rt \<longleftrightarrow> \<not> tk \<and> \<not> rt"
  "row_ok release_in_progress items tk rt \<longleftrightarrow> tk \<and> items \<noteq> []"
  "row_ok released items tk rt \<longleftrightarrow> tk = rt"
  by (simp_all add: row_ok_def status_defs)

abbreviation taken :: "inv_world \<Rightarrow> string \<Rightarrow> bool" where
  "taken w oid \<equiv> op_recorded w (reserve_operation_id oid)"

abbreviation returned :: "inv_world \<Rightarrow> string \<Rightarrow> bool" where
  "returned w oid \<equiv> op_recorded w (release_operation_id oid)"

fun entry_ok :: "(string \<times> py_dict list) option \<Rightarrow> bool \<Rightarrow> bool \<Rightarrow> bool" where
  "entry_ok None tk rt = (tk = rt)"
| "entry_ok (Some (st, items)) tk rt = row_ok st items tk rt"

definition rows_ok :: "(string \<Rightarrow> (string \<times> py_dict list) option) \<Rightarrow> inv_world \<Rightarrow> bool" where
  "rows_ok T w \<longleftrightarrow> (\<forall>oid. entry_ok (T oid) (taken w oid) (returned w oid))"

fun pc_ok :: "(string \<Rightarrow> (string \<times> py_dict list) option) \<Rightarrow> inv_world \<Rightarrow> pc \<Rightarrow> bool" where
  "pc_ok T w Idle = True"
| "pc_ok T w (Reserving oid items) = (T oid = Some (reservation_in_progress, items))"
| "pc_ok T w (Deducted oid) = (taken w oid \<and> (\<exists>items. T oid = Some (reservation_in_progress, items)))"
| "pc_ok T w (Failing oid) = (\<not> taken w oid \<and> (\<exists>items. T oid = Some (reservation_in_progress, items)))"
| "pc_ok T w (Unsettled del oid items) = (T oid = Some (reservation_in_progress, items))"
| "pc_ok T w (Claiming del oid items) = (taken w oid \<and> T oid = Some (reservation_in_progress, items))"
| "pc_ok T w (Restoring del oid items) = (T oid = Some (release_in_progress, items))"
| "pc_ok T w (Finishing del oid) = (taken w oid = returned w oid \<and> T oid \<noteq> None)"

definition rinv :: "rstate \<Rightarrow> bool" where
  "rinv s \<longleftrightarrow> totals_ok (rs_db s) \<and> proofs_ok (rs_db s) \<and> ledger_readable (rs_w s)
     \<and> rows_ok (inv_map (rs_db s)) (rs_w s) \<and> pc_ok (inv_map (rs_db s)) (rs_w s) (rs_pc s)"

definition r_init :: "rstate \<Rightarrow> bool" where
  "r_init s \<longleftrightarrow> rs_pc s = Idle \<and> db_orders (rs_db s) = [] \<and> db_replays (rs_db s) = []
     \<and> distinct (map c_id (db_customers (rs_db s)))
     \<and> (\<forall>c \<in> set (db_customers (rs_db s)). c_orders c = 0 \<and> c_spent c = 0)
     \<and> ledger_readable (rs_w s) \<and> ledger_rows (rs_w s) = []"

lemma rows_okD: "rows_ok T w \<Longrightarrow> entry_ok (T oid) (taken w oid) (returned w oid)"
  by (simp add: rows_ok_def)

text \<open>Changing one row, the ledger staying as it is.\<close>

lemma rows_ok_upd:
  "rows_ok T w \<Longrightarrow> entry_ok x (taken w oid) (returned w oid) \<Longrightarrow> rows_ok (T(oid := x)) w"
  by (simp add: rows_ok_def)

text \<open>Changing the operations of one order, the rows staying as they are.\<close>

lemma rows_ok_ledger:
  assumes "rows_ok T w" "\<And>i. i \<noteq> oid \<Longrightarrow> taken w' i = taken w i \<and> returned w' i = returned w i"
    and "entry_ok (T oid) (taken w' oid) (returned w' oid)"
  shows "rows_ok T w'"
  unfolding rows_ok_def
proof
  fix i
  show "entry_ok (T i) (taken w' i) (returned w' i)"
    using rows_okD[OF assms(1), of i] assms(2)[of i] assms(3) by (cases "i = oid") simp_all
qed

lemma rows_ok_same:
  "rows_ok T w \<Longrightarrow> (\<And>i. taken w' i = taken w i \<and> returned w' i = returned w i) \<Longrightarrow> rows_ok T w'"
  by (simp add: rows_ok_def)

lemma pc_ok_same:
  "(\<And>i. taken w' i = taken w i \<and> returned w' i = returned w i) \<Longrightarrow> pc_ok T w' p = pc_ok T w p"
  by (cases p) auto

section \<open>Transactions on the rows\<close>

lemma inv_map_set_rows:
  assumes "\<And>r. o_id (f r) = o_id r \<and> o_items (f r) = o_items r"
  shows "inv_map (set_rows oid f d) =
     (inv_map d)(oid := map_option (\<lambda>r. (o_inv (f r), o_items r)) (get_row d oid))"
proof
  fix i
  show "inv_map (set_rows oid f d) i = ((inv_map d)(oid := map_option (\<lambda>r. (o_inv (f r), o_items r)) (get_row d oid))) i"
    using assms find_by_SomeD[of o_id i "db_orders d"]
    by (cases "find_by o_id i (db_orders d)") (auto simp: inv_map_def get_row_def find_by_upd_where)
qed

lemma inv_map_keep:
  assumes "\<And>r. o_id (f r) = o_id r \<and> o_items (f r) = o_items r \<and> o_inv (f r) = o_inv r"
  shows "map_option (\<lambda>o'. (o_inv o', o_items o')) (find_by o_id i (upd_where p f os))
       = map_option (\<lambda>o'. (o_inv o', o_items o')) (find_by o_id i os)"
  using assms by (simp add: find_by_upd_where option.map_comp o_def if_distrib cong: if_cong)

lemma inv_map_payment:
  assumes "update_order_payment_status now oid status note proof d = (res, d')"
  shows "inv_map d' = inv_map d"
proof -
  have s: "inv_map (snd (settle_totals now i st row x)) = inv_map x" for i st row x
    by (rule ext) (simp add: inv_map_def get_row_def settle_totals_def inv_map_keep set_applied_def split: option.split)
  have w: "inv_map (set_rows oid (write_payment now status note proof) d) = inv_map d"
    by (rule ext) (simp add: inv_map_def get_row_def inv_map_keep write_payment_def Let_def split: option.split)
  from assms show ?thesis
    by (cases rule: payment_update_cases) (simp, metis s w snd_conv)
qed

section \<open>Transactions keep the table invariants\<close>

definition db_ok :: "store_db \<Rightarrow> bool" where
  "db_ok d \<longleftrightarrow> totals_ok d \<and> proofs_ok d"

text \<open>A change of a row that touches only statuses and times.\<close>

definition keeps :: "(order \<Rightarrow> order) \<Rightarrow> bool" where
  "keeps f \<longleftrightarrow> (\<forall>r. o_id (f r) = o_id r \<and> o_items (f r) = o_items r \<and> o_customer (f r) = o_customer r
     \<and> o_applied (f r) = o_applied r \<and> customer_spend_amount (f r) = customer_spend_amount r
     \<and> o_proof_hash (f r) = o_proof_hash r \<and> o_ref_key (f r) = o_ref_key r)"

lemma keepsD:
  assumes "keeps f"
  shows "o_id (f r) = o_id r" "o_items (f r) = o_items r" "p_core (f r) = p_core r"
    "o_id (f r) = o_id r \<and> o_customer (f r) = o_customer r \<and> o_applied (f r) = o_applied r
      \<and> customer_spend_amount (f r) = customer_spend_amount r"
    "o_id (f r) = o_id r \<and> o_items (f r) = o_items r"
  using assms by (simp_all add: keeps_def p_core_def)

lemma keeps_marks [simp]:
  "keeps (mark_reserved now)" "keeps (mark_release_pending now)" "keeps (mark_released now)"
  "keeps (\<lambda>o'. if o_inv o' = reservation_in_progress then mark_release_pending now o' else o')"
  "keeps (\<lambda>o'. if o_inv o' = reservation_in_progress
     then o'\<lparr>o_inv := reservation_failed, o_pay_status := reject_pending (o_pay_status o'), o_updated_at := now\<rparr>
     else o')"
  by (auto simp: keeps_def mark_reserved_def mark_release_pending_def mark_released_def
      customer_spend_amount_def split: option.split)

lemma proofs_set_rows:
  assumes "keeps f" shows "proofs_ok (set_rows oid f d) = proofs_ok d"
proof -
  have "map p_core (db_orders (set_rows oid f d)) = map p_core (db_orders d)"
    unfolding set_rows_sel by (rule map_key_upd_where) (rule keepsD[OF assms])
  then have "p_core ` set (db_orders (set_rows oid f d)) = p_core ` set (db_orders d)"
    by (metis list.set_map)
  then show ?thesis unfolding proofs_ok_core by simp
qed

lemma db_ok_set_rows:
  assumes "keeps f" "db_ok d" shows "db_ok (set_rows oid f d)"
proof -
  have "totals_ok (set_rows oid f d)"
    by (rule totals_ok_set_rows) (use assms keepsD(4)[OF assms(1)] in \<open>simp_all add: db_ok_def\<close>)
  then show ?thesis using assms by (simp add: db_ok_def proofs_set_rows)
qed

lemma db_ok_delete_customer:
  assumes "db_ok d" shows "db_ok (snd (delete_customer_row cid d))"
proof -
  have "map p_core (upd_where (\<lambda>o'. o_customer o' = Some cid) (\<lambda>o'. o'\<lparr>o_customer := None\<rparr>) (db_orders d))
      = map p_core (db_orders d)" by (rule map_key_upd_where) (simp add: p_core_def)
  then have "p_core ` set (upd_where (\<lambda>o'. o_customer o' = Some cid) (\<lambda>o'. o'\<lparr>o_customer := None\<rparr>) (db_orders d))
      = p_core ` set (db_orders d)" by (metis list.set_map)
  then have "proofs_ok (snd (delete_customer_row cid d))" using assms
    by (simp add: db_ok_def proofs_ok_core delete_customer_row_def split: prod.split)
  then show ?thesis using assms delete_customer_totals by (simp add: db_ok_def)
qed

lemma db_ok_finish_delete:
  assumes "db_ok d" shows "db_ok (snd (finish_delete oid d))"
proof -
  have "distinct (map o_id (db_orders d))" using assms by (simp add: db_ok_def totals_ok_def)
  then show ?thesis using assms finish_delete_totals finish_delete_proofs by (simp add: db_ok_def)
qed

lemma db_ok_payment:
  assumes "db_ok d" "update_order_payment_status now oid status note proof d = (res, d')"
  shows "db_ok d'"
  using assms(1) payment_totals[OF _ assms(2)] payment_proofs[OF _ assms(2)] by (simp add: db_ok_def)

lemma shipping_keeps: "keeps (write_shipping now st tr)"
  by (simp add: keeps_def write_shipping_def customer_spend_amount_def split: option.split)

section \<open>Every step keeps the invariant\<close>

lemma rinv_db_ok: "rinv s \<longleftrightarrow> db_ok (rs_db s) \<and> ledger_readable (rs_w s)
     \<and> rows_ok (inv_map (rs_db s)) (rs_w s) \<and> pc_ok (inv_map (rs_db s)) (rs_w s) (rs_pc s)"
  by (auto simp: rinv_def db_ok_def)

lemma get_row_inv_map: "get_row d oid = Some r \<Longrightarrow> inv_map d oid = Some (o_inv r, o_items r)"
  by (simp add: inv_map_def)

lemma inv_map_get_row: "inv_map d oid = Some (st, items) \<Longrightarrow>
    \<exists>r. get_row d oid = Some r \<and> o_id r = oid \<and> o_inv r = st \<and> o_items r = items"
  by (auto simp: inv_map_def get_row_def dest: find_by_SomeD)

lemma inv_map_keeps:
  assumes "keeps f" "get_row d oid = Some r"
  shows "inv_map (set_rows oid f d) = (inv_map d)(oid := Some (o_inv (f r), o_items r))"
  using inv_map_set_rows[of f oid d] keepsD(5)[OF assms(1)] assms(2) by simp

text \<open>The rows a procedure opens.\<close>

lemma open_order_cases:
  assumes "open_order_tx i now rq po d = (Inr (o', new), d')"
  obtains "d' = d" "o' \<in> set (db_orders d)" "matches_request now rq po o'" "\<not> new"
  | "d' = d\<lparr>db_orders := db_orders d @ [o']\<rparr>" "o' = inserted_order i now rq po" "new"
      "get_active_unpaid_order_count d (rq_customer rq) < max_active_unpaid_orders"
proof (cases "newest_first (filter (matches_request now rq po) (db_orders d))")
  case Nil
  then have "d' = d\<lparr>db_orders := db_orders d @ [inserted_order i now rq po]\<rparr>" "o' = inserted_order i now rq po"
    "new" "get_active_unpaid_order_count d (rq_customer rq) < max_active_unpaid_orders"
    using assms by (auto simp: open_order_tx_def Let_def simp del: max_active_unpaid_orders_def split: if_split_asm)
  then show thesis by (intro that(2)) simp_all
next
  case (Cons x xs)
  then have "x \<in> set (newest_first (filter (matches_request now rq po) (db_orders d)))" by simp
  then have "x \<in> set (db_orders d)" "matches_request now rq po x" by (simp_all add: newest_first_def)
  moreover have "d' = d" "o' = x" "\<not> new" using assms Cons by (simp_all add: open_order_tx_def)
  ultimately show thesis by (intro that(1)) simp_all
qed

lemma numeric2_nonneg: "0 \<le> q \<Longrightarrow> 0 \<le> numeric2 q"
  by (simp add: numeric2_def)

lemma open_order_inv:
  assumes s: "rinv s" "rs_pc s = Idle"
    and o': "open_order_tx i now rq po (rs_db s) = (Inr (o', new), d')" "unused_id i s" "po_items po \<noteq> []"
      "0 \<le> pg_total (po_pricing po)" "find_by c_id (rq_customer rq) (db_customers (rs_db s)) \<noteq> None"
      "o_inv o' = reservation_in_progress"
  shows "rinv (s\<lparr>rs_db := d', rs_pc := Reserving (o_id o') (po_items po)\<rparr>)"
  using o'(1)
proof (cases rule: open_order_cases)
  case 1
  have "distinct (map o_id (db_orders (rs_db s)))" using s(1) by (simp add: rinv_def totals_ok_def)
  then have "get_row (rs_db s) (o_id o') = Some o'" using 1(2) by (simp add: get_row_def find_by_distinct)
  moreover have "o_items o' = po_items po" using 1(3) by (simp add: matches_request_def)
  ultimately show ?thesis using s 1(1) o'(6) by (simp add: rinv_def get_row_inv_map)
next
  case 2
  have f: "o_id o' = i" "\<not> o_applied o'" "o_customer o' = Some (rq_customer rq)" "o_items o' = po_items po"
    "customer_spend_amount o' = numeric2 (pg_total (po_pricing po))" "o_proof_hash o' = None" "o_ref_key o' = None"
    by (simp_all add: 2(2) inserted_order_def customer_spend_amount_def)
  have new: "find_by o_id i (db_orders (rs_db s)) = None" "\<not> taken (rs_w s) i" "\<not> returned (rs_w s) i"
    using o'(2) by (simp_all add: unused_id_def get_row_def)
  have "rq_customer rq \<in> c_id ` set (db_customers (rs_db s))"
    using o'(5) by (auto simp: find_by_None)
  then have "totals_ok d'" unfolding 2(1)
    by (intro totals_ok_insert) (use s f new(1) numeric2_nonneg[OF o'(4)] in \<open>auto simp: rinv_def find_by_None\<close>)
  moreover have "proofs_ok d'" using s(1) f by (auto simp: 2(1) rinv_def proofs_ok_def)
  moreover have m: "inv_map d' = (inv_map (rs_db s))(i := Some (reservation_in_progress, po_items po))"
    using new(1) f o'(6) by (auto simp: inv_map_def get_row_def 2(1) find_by_append sql_simps split: option.split)
  moreover have "rows_ok (inv_map d') (rs_w s)" unfolding m
    using s(1) new o'(3) by (intro rows_ok_upd) (simp_all add: rinv_def)
  ultimately show ?thesis using s f(1) by (simp add: rinv_def)
qed

text \<open>A sheet call for one order: the other orders' operations stay.\<close>

lemma deduct_inv:
  assumes s: "rinv s" "rs_pc s = Reserving oid items" "cache_coherent (rs_w s)"
    and c: "deduct_order_inventory e1 e2 oid items (rs_w s) = (out, w')"
  shows "rinv (s\<lparr>rs_w := w', rs_pc := after_deduct oid out\<rparr>)"
proof -
  let ?T = "inv_map (rs_db s)" and ?w = "rs_w s"
  have T: "?T oid = Some (reservation_in_progress, items)" using s(1,2) by (simp add: rinv_def)
  then have row: "\<not> returned ?w oid" "items \<noteq> []"
    using rows_okD[of ?T ?w oid] s(1) by (simp_all add: rinv_def)
  note v = deduct_verified[OF c]
  have rd: "ledger_readable ?w" using s(1) by (simp add: rinv_def)
  have frame: "ledger_readable w'" "\<And>opid. opid \<noteq> reserve_operation_id oid \<Longrightarrow> op_recorded w' opid = op_recorded ?w opid"
    using deducting.verified_frame[OF v s(3) rd valid_operation_ids(1)] by blast+
  have rows: "rows_ok ?T w'"
  proof (rule rows_ok_ledger[where oid = oid and w = ?w])
    show "entry_ok (?T oid) (taken w' oid) (returned w' oid)" using T row frame(2) by simp
  qed (use s(1) frame(2) in \<open>simp_all add: rinv_def\<close>)
  have "pc_ok ?T w' (after_deduct oid out)"
  proof (cases out)
    case Applied
    then have "taken w' oid"
      using deducting.verified_true[OF _ s(3) rd valid_operation_ids(1) row(2)] v by simp
    then show ?thesis using T Applied by simp
  next
    case (Refused e)
    then have "\<not> taken w' oid"
      using deducting.verified_false[OF _ s(3) rd valid_operation_ids(1)] v by simp
    then show ?thesis using T Refused by simp
  qed simp
  then show ?thesis using s(1) rows frame(1) by (simp add: rinv_def)
qed

lemma restore_inv:
  assumes s: "rinv s" "rs_pc s = Restoring del oid items" "cache_coherent (rs_w s)"
    and c: "restore_order_inventory e1 e2 oid items (rs_w s) = (out, w')"
  shows "rinv (s\<lparr>rs_w := w', rs_pc := after_restore del oid out\<rparr>)"
proof -
  let ?T = "inv_map (rs_db s)" and ?w = "rs_w s"
  have T: "?T oid = Some (release_in_progress, items)" using s(1,2) by (simp add: rinv_def)
  then have row: "taken ?w oid" "items \<noteq> []"
    using rows_okD[of ?T ?w oid] s(1) by (simp_all add: rinv_def)
  note v = restore_verified[OF c]
  have rd: "ledger_readable ?w" using s(1) by (simp add: rinv_def)
  have frame: "ledger_readable w'" "\<And>opid. opid \<noteq> release_operation_id oid \<Longrightarrow> op_recorded w' opid = op_recorded ?w opid"
    using restoring.verified_frame[OF v s(3) rd valid_operation_ids(2)] by blast+
  have tk: "taken w' oid" using row(1) frame(2) by simp
  have rows: "rows_ok ?T w'"
  proof (rule rows_ok_ledger[where oid = oid and w = ?w])
    show "entry_ok (?T oid) (taken w' oid) (returned w' oid)" using T row(2) tk by simp
  qed (use s(1) frame(2) in \<open>simp_all add: rinv_def\<close>)
  have "pc_ok ?T w' (after_restore del oid out)"
  proof (cases out)
    case Applied
    then have "returned w' oid"
      using restoring.verified_true[OF _ s(3) rd valid_operation_ids(2) row(2)] v by simp
    then show ?thesis using T tk Applied by simp
  qed simp_all
  then show ?thesis using s(1) rows frame(1) by (simp add: rinv_def)
qed

lemma order_query:
  assumes "order_operation_applied e oid items (- 1) w = (r, w')" "ledger_readable w"
  shows "(\<forall>op'. op_recorded w' op' = op_recorded w op') \<and> ledger_readable w'
    \<and> (cache_coherent w \<longrightarrow> cache_coherent w')
    \<and> (\<forall>b. r = Inr b \<longrightarrow> b = taken w oid \<and> (b \<longrightarrow> cache_coherent w'))"
proof -
  have q: "stock_query (- 1) e (reserve_operation_id oid) items w
      = (case r of Inl _ \<Rightarrow> None | Inr b \<Rightarrow> Some b, w')"
    using assms(1) by (simp add: stock_query_def order_operation_applied_def order_operation_id_def split: sum.split)
  note f = deducting.query_frame[OF q assms(2)]
  show ?thesis
  proof (cases r)
    case (Inr b)
    then show ?thesis using f deducting.query_answer[OF _ assms(2) valid_operation_ids(1)] q by simp
  qed (use f in simp)
qed

lemma query_inv:
  assumes s: "rinv s" "rs_pc s = Unsettled del oid items"
    and c: "order_operation_applied e oid items (- 1) (rs_w s) = (r, w')"
  shows "rinv (s\<lparr>rs_w := w', rs_pc := after_query del oid items r\<rparr>)"
proof -
  let ?T = "inv_map (rs_db s)" and ?w = "rs_w s"
  have T: "?T oid = Some (reservation_in_progress, items)" using s(1,2) by (simp add: rinv_def)
  then have row: "\<not> returned ?w oid"
    using rows_okD[of ?T ?w oid] s(1) by (simp add: rinv_def)
  have "ledger_readable ?w" using s(1) by (simp add: rinv_def)
  note q = order_query[OF c this]
  have "rows_ok ?T ?w" using s(1) by (simp add: rinv_def)
  then have "rows_ok ?T w'" by (rule rows_ok_same) (use q in blast)
  moreover have "pc_ok ?T w' (after_query del oid items r)"
  proof (cases r)
    case (Inr b)
    then have "b = taken w' oid" "\<not> returned w' oid" using q row by blast+
    then show ?thesis using Inr T by simp
  qed simp
  ultimately show ?thesis using s(1) q by (simp add: rinv_def)
qed

text \<open>A transaction on one row.\<close>

lemma set_rows_inv:
  assumes s: "rinv s" and f: "keeps f" and r: "get_row (rs_db s) oid = Some r"
    and ok: "row_ok (o_inv (f r)) (o_items r) (taken (rs_w s) oid) (returned (rs_w s) oid)"
    and pc: "pc_ok ((inv_map (rs_db s))(oid := Some (o_inv (f r), o_items r))) (rs_w s) pc'"
  shows "rinv (s\<lparr>rs_db := set_rows oid f (rs_db s), rs_pc := pc'\<rparr>)"
  using s db_ok_set_rows[OF f] ok pc by (simp add: rinv_db_ok inv_map_keeps[OF f r] rows_ok_upd)

lemma row_fact:
  assumes "rinv s" "get_row (rs_db s) oid = Some r"
  shows "row_ok (o_inv r) (o_items r) (taken (rs_w s) oid) (returned (rs_w s) oid)"
  using rows_okD[of "inv_map (rs_db s)" "rs_w s" oid] assms by (simp add: rinv_def get_row_inv_map)

lemma pending_row:
  assumes "rinv s" "inv_map (rs_db s) oid = Some (reservation_in_progress, items)"
  obtains r where "get_row (rs_db s) oid = Some r" "o_id r = oid" "o_inv r = reservation_in_progress"
    "o_items r = items" "\<not> returned (rs_w s) oid" "items \<noteq> []"
proof -
  from inv_map_get_row[OF assms(2)] obtain r where r: "get_row (rs_db s) oid = Some r" "o_id r = oid"
    "o_inv r = reservation_in_progress" "o_items r = items" by blast
  then show thesis using row_fact[OF assms(1) r(1)] that by simp
qed

lemma mark_inv [simp]:
  "o_inv (mark_reserved now r) = ''reserved''" "o_inv (mark_release_pending now r) = release_in_progress"
  "o_inv (mark_released now r) = released"
  by (simp_all add: mark_reserved_def mark_release_pending_def mark_released_def)

lemma mark_reserved_inv:
  assumes s: "rinv s" "rs_pc s = Deducted oid" and t: "reserve_order_tx now oid (rs_db s) = (r, d')"
  shows "rinv (s\<lparr>rs_db := d', rs_pc := Idle\<rparr>)"
proof -
  obtain items where T: "inv_map (rs_db s) oid = Some (reservation_in_progress, items)" "taken (rs_w s) oid"
    using s by (auto simp: rinv_def)
  from pending_row[OF s(1) T(1)] obtain row where row: "get_row (rs_db s) oid = Some row"
    "o_inv row = reservation_in_progress" "o_items row = items" "\<not> returned (rs_w s) oid" "items \<noteq> []" by blast
  have "d' = set_rows oid (mark_reserved now) (rs_db s)" using t row by (simp add: reserve_order_tx_def)
  then show ?thesis using set_rows_inv[OF s(1) keeps_marks(1) row(1)] row T by simp
qed

lemma mark_failed_inv:
  assumes s: "rinv s" "rs_pc s = Failing oid"
  shows "rinv (s\<lparr>rs_db := mark_inventory_reservation_failed now oid (rs_db s), rs_pc := Idle\<rparr>)"
proof -
  obtain items where T: "inv_map (rs_db s) oid = Some (reservation_in_progress, items)" "\<not> taken (rs_w s) oid"
    using s by (auto simp: rinv_def)
  from pending_row[OF s(1) T(1)] obtain row where row: "get_row (rs_db s) oid = Some row"
    "o_inv row = reservation_in_progress" "o_items row = items" "\<not> returned (rs_w s) oid" by blast
  show ?thesis unfolding mark_inventory_reservation_failed_def
    by (rule set_rows_inv[OF s(1) keeps_marks(5) row(1)]) (use row T in simp_all)
qed

text \<open>The first transaction of a deletion or a release leaves the procedure where the row says.\<close>

lemma begin_same:
  assumes s: "rinv s" and r: "get_row (rs_db s) oid = Some row" "o_inv row \<noteq> ''reserved''"
  shows "rinv (s\<lparr>rs_pc := after_begin del row (o_inv row = release_in_progress)\<rparr>)"
proof -
  have id: "o_id row = oid" using r(1) by (auto simp: get_row_def dest: find_by_SomeD)
  have "o_inv row \<noteq> reservation_in_progress \<Longrightarrow> o_inv row \<noteq> release_in_progress \<Longrightarrow>
      taken (rs_w s) oid = returned (rs_w s) oid"
    using row_fact[OF s r(1)] r(2) by (auto simp: row_ok_def split: if_splits)
  then show ?thesis using s r(1) id by (simp add: rinv_def after_begin_def get_row_inv_map)
qed

lemma begin_reserved:
  assumes s: "rinv s" and r: "get_row (rs_db s) oid = Some row" "o_inv row = ''reserved''"
  shows "rinv (s\<lparr>rs_db := set_rows oid (mark_release_pending now) (rs_db s), rs_pc := after_begin del row True\<rparr>)"
proof -
  have id: "o_id row = oid" using r(1) by (auto simp: get_row_def dest: find_by_SomeD)
  show ?thesis
    by (rule set_rows_inv[OF s keeps_marks(2) r(1)])
      (use row_fact[OF s r(1)] r(2) id in \<open>simp_all add: after_begin_def\<close>)
qed

lemma begin_delete_cases:
  assumes "begin_delete_tx now oid d = (Some (row, restore), d')"
  obtains "get_row d oid = Some row" "o_inv row = ''reserved''" "restore" "d' = set_rows oid (mark_release_pending now) d"
  | "get_row d oid = Some row" "o_inv row \<noteq> ''reserved''" "restore = (o_inv row = release_in_progress)" "d' = d"
  using assms unfolding begin_delete_tx_def by (cases "get_row d oid") (simp_all split: if_split_asm)

lemma begin_release_cases:
  assumes "begin_release_tx now oid d = (Some (row, restore), d')"
  obtains "get_row d oid = Some row" "o_inv row = ''reserved''" "restore" "d' = set_rows oid (mark_release_pending now) d"
  | "get_row d oid = Some row" "o_inv row \<noteq> ''reserved''" "restore = (o_inv row = release_in_progress)" "d' = d"
proof (cases "get_row d oid")
  case (Some x)
  have "reservation_in_progress \<noteq> release_in_progress" by (simp add: status_defs)
  then show thesis using assms that Some unfolding begin_release_tx_def by (simp split: if_split_asm)
qed (use assms in \<open>simp add: begin_release_tx_def\<close>)

lemma begin_delete_inv:
  assumes "rinv s" "begin_delete_tx now oid (rs_db s) = (Some (row, restore), d')"
  shows "rinv (s\<lparr>rs_db := d', rs_pc := after_begin True row restore\<rparr>)"
  using assms(2) begin_reserved[OF assms(1)] begin_same[OF assms(1)]
  by (cases rule: begin_delete_cases) simp_all

lemma begin_release_inv:
  assumes "rinv s" "begin_release_tx now oid (rs_db s) = (Some (row, restore), d')"
  shows "rinv (s\<lparr>rs_db := d', rs_pc := after_begin False row restore\<rparr>)"
  using assms(2) begin_reserved[OF assms(1)] begin_same[OF assms(1)]
  by (cases rule: begin_release_cases) simp_all

lemma claim_inv:
  assumes s: "rinv s" "rs_pc s = Claiming del oid items"
  shows "rinv (s\<lparr>rs_db := claim_release_tx now oid (rs_db s), rs_pc := Restoring del oid items\<rparr>)"
proof -
  have T: "inv_map (rs_db s) oid = Some (reservation_in_progress, items)" "taken (rs_w s) oid"
    using s by (simp_all add: rinv_def)
  from pending_row[OF s(1) T(1)] obtain row where row: "get_row (rs_db s) oid = Some row"
    "o_inv row = reservation_in_progress" "o_items row = items" "items \<noteq> []" by blast
  show ?thesis unfolding claim_release_tx_def
    by (rule set_rows_inv[OF s(1) keeps_marks(4) row(1)]) (use row T in simp_all)
qed

lemma inv_map_finish_delete: "inv_map (snd (finish_delete oid d)) = (inv_map d)(oid := None)"
proof (cases "find_by o_id oid (db_orders d)")
  case None
  then show ?thesis by (auto simp: finish_delete_def inv_map_def get_row_def)
next
  case (Some row)
  show ?thesis
    by (rule ext) (auto simp: finish_delete_found[OF Some] inv_map_def get_row_def find_by_del_where)
qed

lemma finish_delete_inv:
  assumes s: "rinv s" "rs_pc s = Finishing del oid"
  shows "rinv (s\<lparr>rs_db := snd (finish_delete oid (rs_db s)), rs_pc := Idle\<rparr>)"
  using s db_ok_finish_delete[of "rs_db s" oid]
  by (simp add: rinv_db_ok inv_map_finish_delete rows_ok_upd)

lemma finish_release_inv:
  assumes s: "rinv s" "rs_pc s = Finishing del oid"
  shows "rinv (s\<lparr>rs_db := snd (finish_release_tx now oid (rs_db s)), rs_pc := Idle\<rparr>)"
proof (cases "get_row (rs_db s) oid")
  case None
  then show ?thesis using s by (simp add: finish_release_tx_def rinv_def)
next
  case (Some row)
  have "taken (rs_w s) oid = returned (rs_w s) oid" using s by (simp add: rinv_def)
  then have "rinv (s\<lparr>rs_db := set_rows oid (mark_released now) (rs_db s), rs_pc := Idle\<rparr>)"
    by (intro set_rows_inv[OF s(1) keeps_marks(3) Some]) simp_all
  then show ?thesis using s(1) Some by (simp add: finish_release_tx_def rinv_def)
qed

text \<open>Steps outside the lock.\<close>

lemma rinv_same_rows:
  assumes "rinv s" "db_ok d'" "inv_map d' = inv_map (rs_db s)"
  shows "rinv (s\<lparr>rs_db := d'\<rparr>)"
  using assms by (simp add: rinv_db_ok)

lemma inv_map_customers [simp]: "inv_map (d\<lparr>db_customers := cs\<rparr>) = inv_map d"
  by (rule ext) (simp add: inv_map_def get_row_def)

lemma proofs_customers [simp]: "proofs_ok (d\<lparr>db_customers := cs\<rparr>) = proofs_ok d"
  by (simp add: proofs_ok_core)

lemma inv_map_delete_customer: "inv_map (snd (delete_customer_row cid d)) = inv_map d"
  by (rule ext) (simp add: delete_customer_row_def inv_map_def get_row_def inv_map_keep split: prod.split)

lemma shipping_inv:
  assumes "rinv s" "update_order_shipping now oid st tr (rs_db s) = (r, d')"
  shows "rinv (s\<lparr>rs_db := d'\<rparr>)"
proof -
  have "d' = rs_db s \<or> d' = set_rows oid (write_shipping now st tr) (rs_db s)"
    using assms(2) by (auto simp: update_order_shipping_def Let_def split: if_splits option.splits sum.splits)
  moreover have "inv_map (set_rows oid (write_shipping now st tr) (rs_db s)) = inv_map (rs_db s)"
    by (rule ext) (simp add: inv_map_def get_row_def inv_map_keep write_shipping_def)
  ultimately show ?thesis
    using rinv_same_rows[OF assms(1)] db_ok_set_rows[OF shipping_keeps] assms(1) by (auto simp: rinv_db_ok)
qed

lemma same_ops:
  "w_sheets w' = w_sheets w \<or> w_sheets w' = (w_sheets w)\<lparr>sh_rows := rows\<rparr> \<Longrightarrow>
   op_recorded w' i = op_recorded w i \<and> ledger_readable w' = ledger_readable w"
  by (auto simp: op_recorded_def op_rows_def ledger_rows_def ledger_readable_def)

lemma rinv_same_ops:
  assumes "rinv s" "w_sheets w' = w_sheets (rs_w s) \<or> w_sheets w' = (w_sheets (rs_w s))\<lparr>sh_rows := rows\<rparr>"
  shows "rinv (s\<lparr>rs_w := w'\<rparr>)"
proof -
  note e = same_ops[OF assms(2)]
  have "rows_ok (inv_map (rs_db s)) w'" using assms(1) e by (simp add: rinv_def rows_ok_def)
  moreover have "pc_ok (inv_map (rs_db s)) w' (rs_pc s)"
    using assms(1) pc_ok_same[of w' "rs_w s"] e by (simp add: rinv_def)
  ultimately show ?thesis using assms(1) e by (simp add: rinv_def)
qed

lemma rinv_idle: "rinv s \<Longrightarrow> rinv (s\<lparr>rs_pc := Idle\<rparr>)"
  by (simp add: rinv_def)

lemma rstep_inv: "rstep s t \<Longrightarrow> rinv s \<Longrightarrow> rinv t"
proof (induction rule: rstep.induct)
  case (open_order s i now rq po o' new d')
  then show ?case by (intro open_order_inv)
next
  case (restart s)
  have "rinv (s\<lparr>rs_w := (rs_w s)\<lparr>w_cache := []\<rparr>\<rparr>)" by (rule rinv_same_ops[OF restart]) simp
  then show ?case by (rule rinv_idle[of "s\<lparr>rs_w := (rs_w s)\<lparr>w_cache := []\<rparr>\<rparr>", simplified])
next
  case (payment now oid status nt pr s res d')
  then show ?case
    by (intro rinv_same_rows inv_map_payment[OF payment(1)] db_ok_payment[OF _ payment(1)]) (simp_all add: rinv_db_ok)
next
  case (customer i now ch pid dn ph ih fb s c cs')
  then show ?case using get_or_create_totals[OF _ customer(2,1)]
    by (intro rinv_same_rows) (simp_all add: rinv_db_ok db_ok_def)
next
  case (tags s cid ts)
  then show ?case
    by (intro rinv_same_rows) (simp_all add: rinv_db_ok db_ok_def totals_ok_same_core add_tags_core)
next
  case (delete_customer s cid)
  then show ?case
    by (intro rinv_same_rows) (simp_all add: rinv_db_ok db_ok_delete_customer inv_map_delete_customer)
next
  case (sheet_edit s rows)
  then show ?case by (intro rinv_same_ops[where rows = rows]) simp_all
next
  case (catalog s cs)
  then show ?case by (intro rinv_same_ops[where rows = "sh_rows (w_sheets (rs_w s))"]) simp_all
qed (auto intro: deduct_inv mark_reserved_inv mark_failed_inv begin_delete_inv begin_release_inv query_inv
      claim_inv restore_inv finish_delete_inv finish_release_inv rinv_idle shipping_inv)

lemma rinit_inv: "r_init s \<Longrightarrow> rinv s"
  by (auto simp: r_init_def rinv_def totals_ok_def proofs_ok_def rows_ok_def inv_map_def get_row_def
      sql_simps op_recorded_def op_rows_def ledger_operation_rows_def)

interpretation order_protocol: protocol r_init rstep rinv
  by unfold_locales (fact rinit_inv, fact rstep_inv)

end
