(* ===== verification/Order_Runs.thy ===== *)
theory Order_Runs
  imports Order_Protocol
begin

text \<open>
  The procedures of \<open>store/app/crm/orders.py\<close> against their protocol: creating, deleting and
  releasing an order are runs of \<open>rstep\<close>, so whatever state the protocol can reach describes them
  too, and what the inventory status of a reachable row says of the stock ledger.
\<close>

section \<open>Procedures are runs\<close>

definition rst :: "store_db \<Rightarrow> inv_world \<Rightarrow> pc \<Rightarrow> rstate" where
  "rst d w p = \<lparr>rs_db = d, rs_w = w, rs_pc = p\<rparr>"

lemma rst_sel [simp]: "rs_db (rst d w p) = d" "rs_w (rst d w p) = w" "rs_pc (rst d w p) = p"
  by (simp_all add: rst_def)

lemma rst_upd [simp]:
  "rst d w p\<lparr>rs_db := d'\<rparr> = rst d' w p" "rst d w p\<lparr>rs_w := w'\<rparr> = rst d w' p" "rst d w p\<lparr>rs_pc := q\<rparr> = rst d w q"
  by (simp_all add: rst_def)

abbreviation rsteps :: "rstate \<Rightarrow> rstate \<Rightarrow> bool" where
  "rsteps \<equiv> rstep\<^sup>*\<^sup>*"

lemma rsteps_inv: "rsteps s t \<Longrightarrow> rinv s \<Longrightarrow> rinv t"
  by (rule order_protocol.steps_inv)

lemma step_abandon: "rstep (rst d w p) (rst d w Idle)"
  using abandon[of "rst d w p"] by simp

lemma run_abandon: "rsteps s (rst d w p) \<Longrightarrow> rsteps s (rst d w Idle)"
  by (meson rtranclp.rtrancl_into_rtrancl step_abandon)

lemma operation_applied_coherent:
  "order_operation_applied e oid items d w = (r, w') \<Longrightarrow> cache_coherent w \<Longrightarrow> cache_coherent w'"
  unfolding order_operation_applied_def by (drule operation_applied_frame) simp

lemma restore_run:
  assumes "restore_order_inventory e1 e2 oid items w = (out, w')" "cache_coherent w"
  shows "rsteps (rst d w (Restoring del oid items)) (rst d w' (after_restore del oid out))"
  using restore[of "rst d w (Restoring del oid items)" del oid items e1 e2 out w'] assms by auto

lemma settle_runs:
  assumes "settle_reservation re row restore d w = (res, d', w')" "cache_coherent w"
  shows "\<exists>p. rsteps (rst d w (after_begin del row restore)) (rst d' w' p)
     \<and> (\<forall>b. res = Inr b \<longrightarrow> p = Finishing del (o_id row))"
proof -
  let ?oid = "o_id row" and ?items = "o_items row"
  have restored: "\<exists>p. rsteps (rst d1 w1 (Restoring del ?oid ?items)) (rst d' w' p)
      \<and> (\<forall>b. res = Inr b \<longrightarrow> p = Finishing del ?oid)"
    if "(case restore_order_inventory (re_restore re) (re_verify re) ?oid ?items w1 of
              (Applied, w2) \<Rightarrow> (Inr True, d1, w2)
            | (Refused e, w2) \<Rightarrow> (Inl (exc_of e), d1, w2)
            | (Uncertain e, w2) \<Rightarrow> (Inl (exc_of e), d1, w2)) = (res, d', w')" "cache_coherent w1" for d1 w1
  proof -
    obtain out w2 where o: "restore_order_inventory (re_restore re) (re_verify re) ?oid ?items w1 = (out, w2)"
      by fastforce
    then show ?thesis using restore_run[OF o that(2), of d1 del] that(1) by (cases out) auto
  qed
  consider "restore" | "\<not> restore" "o_inv row = reservation_in_progress" | "\<not> restore" "o_inv row \<noteq> reservation_in_progress"
    by blast
  then show ?thesis
  proof cases
    case 1
    then show ?thesis using restored[of d w] assms by (simp add: settle_reservation_def after_begin_def Let_def)
  next
    case 2
    obtain r w1 where q: "order_operation_applied (re_query re) ?oid ?items (- 1) w = (r, w1)" by fastforce
    have "rstep (rst d w (Unsettled del ?oid ?items)) (rst d w1 (after_query del ?oid ?items r))"
      using query[of "rst d w (Unsettled del ?oid ?items)"] q by auto
    then have start: "rsteps (rst d w (after_begin del row restore)) (rst d w1 (after_query del ?oid ?items r))"
      using 2 by (simp add: after_begin_def)
    show ?thesis
    proof (cases "r = Inr True")
      case True
      have "rstep (rst d w1 (Claiming del ?oid ?items))
          (rst (claim_release_tx (re_now re) ?oid d) w1 (Restoring del ?oid ?items))"
        using claim[of "rst d w1 (Claiming del ?oid ?items)"] by auto
      then have "rsteps (rst d w (after_begin del row restore))
          (rst (claim_release_tx (re_now re) ?oid d) w1 (Restoring del ?oid ?items))"
        using start True by simp
      moreover obtain p where "rsteps (rst (claim_release_tx (re_now re) ?oid d) w1 (Restoring del ?oid ?items)) (rst d' w' p)"
        "\<forall>b. res = Inr b \<longrightarrow> p = Finishing del ?oid"
        using restored[of "claim_release_tx (re_now re) ?oid d" w1] assms 2 q True
          operation_applied_coherent[OF q assms(2)]
        by (auto simp: settle_reservation_def Let_def)
      ultimately show ?thesis by (meson rtranclp_trans)
    next
      case False
      then show ?thesis using start assms(1) 2 q
        by (cases r) (auto simp: settle_reservation_def Let_def split: bool.splits)
    qed
  next
    case 3
    then show ?thesis using assms(1) by (auto simp: settle_reservation_def after_begin_def Let_def)
  qed
qed

lemma delete_runs:
  assumes "delete_order re oid d w = (res, d', w')" "cache_coherent w"
  shows "rsteps (rst d w Idle) (rst d' w' Idle)"
proof (cases "begin_delete_tx (re_now re) oid d")
  case (Pair b d1)
  show ?thesis
  proof (cases b)
    case None
    then have "get_row d oid = None" using Pair by (cases "get_row d oid") (auto simp: begin_delete_tx_def split: if_splits)
    then show ?thesis using assms(1) by (simp add: delete_order_def begin_delete_tx_def)
  next
    case (Some rr)
    then obtain row restore where b: "begin_delete_tx (re_now re) oid d = (Some (row, restore), d1)"
      using Pair by (cases rr) auto
    then have oid: "o_id row = oid" by (cases rule: begin_delete_cases) (auto simp: get_row_def dest: find_by_SomeD)
    have s1: "rsteps (rst d w Idle) (rst d1 w (after_begin True row restore))"
      using begin_delete[of "rst d w Idle", OF _ , of "re_now re" oid row restore d1] b by auto
    obtain r d2 w2 where st: "settle_reservation re row restore d1 w = (r, d2, w2)" by (cases "settle_reservation re row restore d1 w")
    from settle_runs[OF st assms(2)] obtain p where p: "rsteps (rst d1 w (after_begin True row restore)) (rst d2 w2 p)"
      "\<forall>b. r = Inr b \<longrightarrow> p = Finishing True oid" unfolding oid by blast
    have run: "rsteps (rst d w Idle) (rst d2 w2 p)" using s1 p(1) by simp
    show ?thesis
    proof (cases r)
      case (Inl e)
      then show ?thesis using run_abandon[OF run] assms(1) b st by (simp add: delete_order_def)
    next
      case (Inr x)
      have "d' = snd (finish_delete oid d2)" "w' = w2"
        using assms(1) b st Inr by (auto simp: delete_order_def split: prod.splits bool.splits)
      then show ?thesis using run p(2) Inr finish_delete[of "rst d2 w2 p" oid] by auto
    qed
  qed
qed

lemma release_runs:
  assumes "release_inventory_reservation re oid d w = (res, d', w')" "cache_coherent w"
  shows "rsteps (rst d w Idle) (rst d' w' Idle)"
proof (cases "begin_release_tx (re_now re) oid d")
  case (Pair b d1)
  show ?thesis
  proof (cases b)
    case None
    then have "d1 = d" using Pair by (cases "get_row d oid") (auto simp: begin_release_tx_def split: if_splits)
    then show ?thesis using assms(1) None Pair by (simp add: release_inventory_reservation_def)
  next
    case (Some rr)
    then obtain row restore where b: "begin_release_tx (re_now re) oid d = (Some (row, restore), d1)"
      using Pair by (cases rr) auto
    then have oid: "o_id row = oid" by (cases rule: begin_release_cases) (auto simp: get_row_def dest: find_by_SomeD)
    have s1: "rsteps (rst d w Idle) (rst d1 w (after_begin False row restore))"
      using begin_release[of "rst d w Idle", OF _ , of "re_now re" oid row restore d1] b by auto
    obtain r d2 w2 where st: "settle_reservation re row restore d1 w = (r, d2, w2)" by (cases "settle_reservation re row restore d1 w")
    from settle_runs[OF st assms(2)] obtain p where p: "rsteps (rst d1 w (after_begin False row restore)) (rst d2 w2 p)"
      "\<forall>b. r = Inr b \<longrightarrow> p = Finishing False oid" unfolding oid by blast
    have run: "rsteps (rst d w Idle) (rst d2 w2 p)" using s1 p(1) by simp
    show ?thesis
    proof (cases r)
      case (Inl e)
      then show ?thesis using run_abandon[OF run] assms(1) b st by (simp add: release_inventory_reservation_def)
    next
      case (Inr x)
      have "d' = snd (finish_release_tx (re_now re) oid d2)" "w' = w2"
        using assms(1) b st Inr by (auto simp: release_inventory_reservation_def split: prod.splits)
      then show ?thesis using run p(2) Inr finish_release[of "rst d2 w2 p" oid "re_now re"] by auto
    qed
  qed
qed

section \<open>Creating an order\<close>

lemma prepared_amount:
  assumes "prepare_order settings catalog items pm rq = Inr po"
    and "\<forall>p \<in> set catalog. 0 \<le> p_price p" "dc_rate (resolve_order_discount_config settings) \<le> 1"
  shows "0 \<le> pg_total (po_pricing po)" "length (po_items po) = length items"
proof -
  from assms(1) obtain its pg where n: "normalize_order_items catalog items = Inr its"
    "calculate_order_amounts its settings = Inr pg" "po_items po = its" "po_pricing po = pg"
    by (auto simp: prepare_order_def Let_def split: sum.splits)
  have its: "length its = length items \<and> (\<forall>it \<in> set its. 0 \<le> item_line it)" using n(1)
  proof (induction items arbitrary: its)
    case (Cons item items)
    then obtain it its' where r: "normalize_order_item catalog item = Inr it"
      "normalize_order_items catalog items = Inr its'" "its = it # its'"
      by (auto split: sum.splits)
    from normalize_order_item_cases[OF r(1)] obtain p z k where
      "p \<in> set catalog" "it = order_item p z k" "1 \<le> k" by metis
    then have "0 \<le> item_line it" using assms(2)
      by (simp add: item_line_def order_item_fields computed_float_def round_to_nonneg)
    then show ?case using Cons.IH[OF r(2)] r(3) by simp
  qed simp
  let ?dc = "resolve_order_discount_config settings"
  from n(2) obtain s where s: "lines_sum its = Inr s" "pg = price_subtotal ?dc (round_to 2 s)"
    by (auto simp: calculate_order_amounts_def split: sum.splits)
  have "0 \<le> sum_list (map item_line its)" using its by (intro sum_list_nonneg) auto
  then have "0 \<le> round_to 2 s" using lines_sum_items[OF s(1)] by (simp add: round_to_nonneg)
  moreover have "0 \<le> dc_rate ?dc"
    by (simp add: resolve_order_discount_config_def Let_def coerce_non_negative_float_def
          round_to_nonneg split: sum.split)
  ultimately show "0 \<le> pg_total (po_pricing po)"
    using discount_bounds[of "round_to 2 s" ?dc] assms(3) by (simp add: n(4) s(2))
  show "length (po_items po) = length items" using its n(3) by simp
qed

lemma checked_items:
  "check_order_request nid settings rq = Inr (items, pm) \<Longrightarrow> items \<noteq> []"
  by (auto simp: check_order_request_def split: raw_items.splits if_splits sum.splits option.splits)

lemma unused_catalog [simp]: "unused_id i (rst d (w\<lparr>w_catalog := cs\<rparr>) p) = unused_id i (rst d w p)"
  by (simp add: unused_id_def op_recorded_def op_rows_def ledger_rows_def)

lemma coherent_catalog [simp]: "cache_coherent (w\<lparr>w_catalog := cs\<rparr>) = cache_coherent w"
  by (simp add: cache_coherent_def ledger_rows_def)

lemma reserve_opened_runs:
  assumes "reserve_opened ce po o' new d w = (res, d', w')" "cache_coherent w"
  shows "rsteps (rst d w (Reserving (o_id o') (po_items po))) (rst d' w' Idle)"
proof -
  let ?oid = "o_id o'"
  obtain out w1 where o: "deduct_order_inventory (ce_sheet ce) (ce_verify ce) ?oid (po_items po) w = (out, w1)" by fastforce
  have "rstep (rst d w (Reserving ?oid (po_items po))) (rst d w1 (after_deduct ?oid out))"
    using deduct[of "rst d w (Reserving ?oid (po_items po))", OF _ _ , of ?oid "po_items po"] o assms(2) by auto
  then have run: "rsteps (rst d w (Reserving ?oid (po_items po))) (rst d w1 (after_deduct ?oid out))" by blast
  show ?thesis
  proof (cases out)
    case Applied
    have "rstep (rst d w1 (Deducted ?oid)) (rst (snd (reserve_order_tx (ce_now ce) ?oid d)) w1 Idle)"
      using mark_reserved[of "rst d w1 (Deducted ?oid)", OF _ prod.collapse[symmetric]] by auto
    moreover have "d' = snd (reserve_order_tx (ce_now ce) ?oid d)" "w' = w1"
      using assms(1) o Applied by (auto simp: reserve_opened_def split: prod.splits sum.splits)
    ultimately show ?thesis using run Applied by (auto intro: rtranclp.rtrancl_into_rtrancl)
  next
    case (Refused e)
    have "rstep (rst d w1 (Failing ?oid)) (rst (mark_inventory_reservation_failed (ce_now ce) ?oid d) w1 Idle)"
      using mark_failed[of "rst d w1 (Failing ?oid)"] by auto
    then have "rsteps (rst d w (Reserving ?oid (po_items po))) (rst (mark_inventory_reservation_failed (ce_now ce) ?oid d) w1 Idle)"
      using run Refused by (auto intro: rtranclp.rtrancl_into_rtrancl)
    moreover have "rsteps (rst d w (Reserving ?oid (po_items po))) (rst d w1 Idle)" by (rule run_abandon[OF run])
    ultimately show ?thesis using assms(1) o Refused by (auto simp: reserve_opened_def split: if_splits)
  next
    case (Uncertain e)
    then show ?thesis using run assms(1) o by (simp add: reserve_opened_def)
  qed
qed

definition fair_prices :: "create_env \<Rightarrow> inv_world \<Rightarrow> bool" where
  "fair_prices ce w \<longleftrightarrow> dc_rate (resolve_order_discount_config (ce_settings ce)) \<le> 1
     \<and> (case ensure_fresh_catalog (ce_image ce) (ce_clock ce) (ce_time1 ce) (ce_time2 ce) (ce_fetch ce) (w_catalog w) of
          (Inl _, _) \<Rightarrow> True | (Inr catalog, _) \<Rightarrow> \<forall>p \<in> set catalog. 0 \<le> p_price p)"

text \<open>The shapes of a run of \<open>create_order\<close>.\<close>

lemma create_order_cases [consumes 1, case_names stopped reused opened]:
  assumes "create_order ce rq d w = (res, d', w')"
  obtains cs e where "d' = d" "w' = w \<or> w' = w\<lparr>w_catalog := cs\<rparr>" "res = Inl e"
  | cs o' po where "w' = w\<lparr>w_catalog := cs\<rparr>" "d' = d" "open_order_tx (ce_new_id ce) (ce_now ce) rq po d = (Inr (o', False), d)"
      "res = Inr \<lparr>oc_id = o_id o', oc_total = o_total o', oc_status = o_pay_status o', oc_new = False, oc_prepared = po\<rparr>"
      "o_inv o' = ''reserved''"
  | cs catalog items pm po o' new d1 where
      "check_order_request (ce_method_id ce) (ce_settings ce) rq = Inr (items, pm)"
      "ensure_fresh_catalog (ce_image ce) (ce_clock ce) (ce_time1 ce) (ce_time2 ce) (ce_fetch ce) (w_catalog w) = (Inr catalog, cs)"
      "prepare_order (ce_settings ce) catalog items pm rq = Inr po"
      "find_by c_id (rq_customer rq) (db_customers d) \<noteq> None"
      "open_order_tx (ce_new_id ce) (ce_now ce) rq po d = (Inr (o', new), d1)" "o_inv o' = reservation_in_progress"
      "reserve_opened ce po o' new d1 (w\<lparr>w_catalog := cs\<rparr>) = (res, d', w')"
proof (cases "check_order_request (ce_method_id ce) (ce_settings ce) rq")
  case (Inl e)
  then have "d' = d" "w' = w" "res = Inl e" using assms by (simp_all add: create_order_def)
  then show thesis using that(1) by blast
next
  case chk: (Inr im)
  obtain items pm where im: "im = (items, pm)" by (cases im)
  obtain r cs where f: "ensure_fresh_catalog (ce_image ce) (ce_clock ce) (ce_time1 ce) (ce_time2 ce) (ce_fetch ce)
      (w_catalog w) = (r, cs)" by fastforce
  note start = assms[unfolded create_order_def, simplified chk im f sum.case prod.case]
  show thesis
  proof (cases r)
    case (Inl e)
    then show thesis using start that(1)[of cs e] by simp
  next
    case catalog: (Inr catalog)
    show thesis
    proof (cases "prepare_order (ce_settings ce) catalog items pm rq")
      case (Inl e)
      then show thesis using start catalog that(1)[of cs e] by simp
    next
      case po: (Inr po)
      show thesis
      proof (cases "find_by c_id (rq_customer rq) (db_customers d) = None")
        case True
        then have "d' = d" "w' = w\<lparr>w_catalog := cs\<rparr>" "\<exists>e. res = Inl e" using start catalog po by auto
        then show thesis using that(1) by blast
      next
        case customer: False
        obtain ro d1 where t: "open_order_tx (ce_new_id ce) (ce_now ce) rq po d = (ro, d1)" by fastforce
        show thesis
        proof (cases ro)
          case (Inl e)
          then have "d1 = d" using t by (auto simp: open_order_tx_def Let_def split: list.splits if_splits)
          then show thesis using start catalog po customer t Inl that(1)[of cs e] by simp
        next
          case (Inr on)
          then obtain o' new where t': "open_order_tx (ce_new_id ce) (ce_now ce) rq po d = (Inr (o', new), d1)"
            using t by (cases on) auto
          consider "o_inv o' = reservation_in_progress" | "o_inv o' = ''reserved''" "\<not> new" "d1 = d"
            using t' by (cases rule: open_order_cases) (auto simp: matches_request_def inserted_order_def)
          then show thesis
          proof cases
            case 1
            moreover have "reservation_in_progress \<noteq> ''reserved''" by (simp add: status_defs)
            ultimately show thesis
              using start catalog po customer t' that(3)[OF chk[unfolded im] f[unfolded catalog] po customer t'] by simp
          next
            case 2
            then show thesis using start catalog po customer t' that(2)[of cs po o'] by simp
          qed
        qed
      qed
    qed
  qed
qed

lemma create_runs:
  assumes "create_order ce rq d w = (res, d', w')" "cache_coherent w" "fair_prices ce w"
    "unused_id (ce_new_id ce) (rst d w Idle)"
  shows "rsteps (rst d w Idle) (rst d' w' Idle)"
proof -
  have cat: "rsteps (rst d w Idle) (rst d (w\<lparr>w_catalog := cs\<rparr>) Idle)" for cs
    using catalog[of "rst d w Idle" cs] by auto
  from assms(1) show ?thesis
  proof (cases rule: create_order_cases)
    case (opened cs catalog items pm po o' new d1)
    let ?w = "w\<lparr>w_catalog := cs\<rparr>"
    have fair: "\<forall>p \<in> set catalog. 0 \<le> p_price p" "dc_rate (resolve_order_discount_config (ce_settings ce)) \<le> 1"
      using assms(3) opened(2) by (simp_all add: fair_prices_def)
    have "po_items po \<noteq> []" "0 \<le> pg_total (po_pricing po)"
      using prepared_amount[OF opened(3) fair] checked_items[OF opened(1)] by auto
    then have "rstep (rst d ?w Idle) (rst d1 ?w (Reserving (o_id o') (po_items po)))"
      using open_order[of "rst d ?w Idle" "ce_new_id ce" "ce_now ce" rq po o' new d1] assms(4) opened(4-6) by simp
    then show ?thesis
      using cat[of cs] reserve_opened_runs[OF opened(7)] assms(2) by simp
  qed (use cat in auto)
qed

section \<open>A concrete order\<close>

definition store_method :: json where
  "store_method = JObj [(''name'', JVal (PStr ''Zelle'')), (''information'', JVal (PStr ''pay@store''))] []"

definition store_settings :: "(string \<times> json) list" where
  "store_settings = [(''payment_methods'', JList [store_method] [])]"

definition listed_row :: "string \<Rightarrow> int \<Rightarrow> py_dict" where
  "listed_row sku n = sample_row sku n @ [(''Product Name'', PStr sku)]"

definition sample_create :: "inv_fault \<Rightarrow> inv_fault \<Rightarrow> create_env" where
  "sample_create f g = \<lparr>ce_new_id = ''1'', ce_now = 10, ce_settings = store_settings, ce_method_id = (\<lambda>_. ''m''),
     ce_clock = 0, ce_time1 = 1, ce_time2 = 1, ce_fetch = Inr ([listed_row ''A'' 5], Inr [listed_row ''A'' 5]),
     ce_image = py_str, ce_sheet = sample_env f, ce_verify = sample_env g, ce_mark_fails = False\<rparr>"

definition sample_request :: order_request where
  "sample_request = \<lparr>rq_customer = ''c1'', rq_items = RawItems [Some [(''sku'', PStr ''A''), (''quantity'', PInt 2)]],
     rq_method = Some ''zelle'', rq_city = Some ''Caracas'', rq_addr = Some ''Calle 1'', rq_ship_method = Some ''MRW'',
     rq_fulfil = None, rq_zone = None, rq_agency = None, rq_fee = JVal (PInt 3), rq_currency = ''USD''\<rparr>"

definition sample_store :: store_db where
  "sample_store = \<lparr>db_customers = [new_customer ''c1'' 0 ''whatsapp'' ''p'' None None None], db_orders = [], db_replays = []\<rparr>"

definition created :: "(py_exc + order_created) \<times> store_db \<times> inv_world" where
  "created = create_order (sample_create F_none F_none) sample_request sample_store sample_world"

definition db1 :: store_db where "db1 = fst (snd created)"
definition w1 :: inv_world where "w1 = snd (snd created)"

definition sample_release :: release_env where
  "sample_release = \<lparr>re_now = 20, re_query = sample_env F_none, re_restore = sample_env F_none, re_verify = sample_env F_none\<rparr>"

lemma created_eq: "create_order (sample_create F_none F_none) sample_request sample_store sample_world = (fst created, db1, w1)"
  by (simp add: db1_def w1_def created_def)

lemma created_ok: "\<exists>oc. fst created = Inr oc \<and> oc_id oc = ''1'' \<and> oc_new oc"
proof -
  have "case fst created of Inl _ \<Rightarrow> False | Inr oc \<Rightarrow> oc_id oc = ''1'' \<and> oc_new oc" by code_simp
  then show ?thesis by (auto split: sum.splits)
qed

lemma sample_start: "r_init (rst sample_store sample_world Idle)" "fair_prices (sample_create f g) sample_world"
  "unused_id ''1'' (rst sample_store sample_world Idle)"
proof -
  have "ledger_rows sample_world = []" by code_simp
  then show "r_init (rst sample_store sample_world Idle)"
    using sample_facts(5) by (simp add: r_init_def sample_store_def new_customer_def)
  show "unused_id ''1'' (rst sample_store sample_world Idle)" by code_simp
  show "fair_prices (sample_create f g) sample_world" unfolding sample_create_def by code_simp
qed

lemma created_run: "rsteps (rst sample_store sample_world Idle) (rst db1 w1 Idle)"
  by (rule create_runs[OF created_eq sample_facts(1) sample_start(2)])
    (use sample_start(3) in \<open>simp add: sample_create_def\<close>)

lemma created_reach: "reach r_init rstep (rst db1 w1 Idle)"
  by (rule reach_steps[OF created_run reach_init[where init = r_init, OF sample_start(1)]])

lemma created_coherent: "cache_coherent w1"
  unfolding w1_def by code_simp

section \<open>What reachable states say\<close>



text \<open>No stock leaks through a deletion: in every reachable state an order that does not exist has
  its stock back if it ever took any.\<close>

theorem missing_order_settled:
  assumes "reach r_init rstep s" "get_row (rs_db s) oid = None"
  shows "taken (rs_w s) oid = returned (rs_w s) oid"
  using rows_okD[of "inv_map (rs_db s)" "rs_w s" oid] order_protocol.reach_inv[OF assms(1)] assms(2)
  by (simp add: rinv_def inv_map_def)

text \<open>Lifetime totals are exact and payment proofs are used once in every reachable state.\<close>

theorem reachable_books_balance:
  assumes "reach r_init rstep s"
  shows "totals_ok (rs_db s) \<and> proofs_ok (rs_db s)"
  using order_protocol.reach_inv[OF assms] by (simp add: rinv_def)

theorem reachable_books_balance_witness: "totals_ok db1 \<and> proofs_ok db1"
  using reachable_books_balance[OF created_reach] by simp

section \<open>The procedures refine the protocol\<close>



text \<open>Deleting an order is a run of the protocol.\<close>

theorem delete_order_refines:
  assumes "delete_order re oid d w = (res, d', w')" "cache_coherent w"
  shows "rstep\<^sup>*\<^sup>* (rst d w Idle) (rst d' w' Idle)"
  using assms by (rule delete_runs)

theorem delete_order_refines_witness:
  "rstep\<^sup>*\<^sup>* (rst db1 w1 Idle) (case delete_order sample_release ''1'' db1 w1 of (_, d', w') \<Rightarrow> rst d' w' Idle)"
proof -
  obtain res d' w' where d: "delete_order sample_release ''1'' db1 w1 = (res, d', w')"
    by (cases "delete_order sample_release ''1'' db1 w1")
  show ?thesis using delete_order_refines[OF d created_coherent] d by simp
qed

text \<open>Releasing an expired reservation is a run of the protocol.\<close>

theorem release_refines:
  assumes "release_inventory_reservation re oid d w = (res, d', w')" "cache_coherent w"
  shows "rstep\<^sup>*\<^sup>* (rst d w Idle) (rst d' w' Idle)"
  using assms by (rule release_runs)

theorem release_refines_witness:
  "rstep\<^sup>*\<^sup>* (rst db1 w1 Idle) (case release_inventory_reservation sample_release ''1'' db1 w1 of (_, d', w') \<Rightarrow> rst d' w' Idle)"
proof -
  obtain res d' w' where d: "release_inventory_reservation sample_release ''1'' db1 w1 = (res, d', w')"
    by (cases "release_inventory_reservation sample_release ''1'' db1 w1")
  show ?thesis using release_refines[OF d created_coherent] d by simp
qed

section \<open>What the procedures achieve\<close>

definition deleted :: "(py_exc + (string \<times> nat) option) \<times> store_db \<times> inv_world" where
  "deleted = delete_order sample_release ''1'' db1 w1"

definition db2 :: store_db where "db2 = fst (snd deleted)"
definition w2 :: inv_world where "w2 = snd (snd deleted)"

lemma deleted_eq: "delete_order sample_release ''1'' db1 w1 = (Inr (Some (''1'', 1)), db2, w2)"
proof -
  have "case fst deleted of Inl _ \<Rightarrow> False | Inr r \<Rightarrow> r = Some (''1'', 1)" by code_simp
  then have "fst deleted = Inr (Some (''1'', 1))" by (auto split: sum.splits)
  then show ?thesis by (simp add: db2_def w2_def prod_eq_iff flip: deleted_def)
qed

theorem missing_order_settled_witness:
  "get_row db2 ''1'' = None \<and> taken w2 ''1'' \<and> returned w2 ''1''"
proof -
  have r: "reach r_init rstep (rst db2 w2 Idle)"
    by (rule reach_steps[OF delete_runs[OF deleted_eq created_coherent] created_reach])
  have g: "get_row db2 ''1'' = None" unfolding db2_def by code_simp
  moreover have "taken w2 ''1''" unfolding w2_def by code_simp
  ultimately show ?thesis using missing_order_settled[OF r, of "''1''"] by simp
qed

lemma finish_delete_gone: "get_row (snd (finish_delete oid d)) oid = None"
  using fun_cong[OF inv_map_finish_delete[of oid d], of oid] by (simp add: inv_map_def)



lemma get_row_set_rows:
  "(\<And>r. o_id (f r) = o_id r) \<Longrightarrow> get_row (set_rows oid f d) oid = map_option f (get_row d oid)"
  by (cases "find_by o_id oid (db_orders d)") (auto simp: get_row_def find_by_upd_where dest: find_by_SomeD)

lemma reserve_opened_row:
  assumes "reserve_opened ce po o' new d w = (Inr oc, d', w')" "get_row d (o_id o') = Some o'"
    "o_inv o' = reservation_in_progress"
  shows "d' = set_rows (o_id o') (mark_reserved (ce_now ce)) d" "oc_id oc = o_id o'" "oc_new oc = new"
  using assms by (auto simp: reserve_opened_def reserve_order_tx_def split: prod.splits sheet_outcome.splits sum.splits if_splits)

lemma opened_row:
  assumes "open_order_tx i now rq po d = (Inr (o', new), d1)" "distinct (map o_id (db_orders d))" "get_row d i = None"
  shows "get_row d1 (o_id o') = Some o'"
  using assms(1)
proof (cases rule: open_order_cases)
  case 1
  then show ?thesis using assms(2) by (simp add: get_row_def find_by_distinct)
next
  case 2
  then have "o_id o' = i" by (simp add: inserted_order_def)
  then show ?thesis using 2(1) assms(3) by (simp add: get_row_def find_by_append sql_simps)
qed

lemma reserved_order:
  assumes "rinv (rst d w Idle)" "cache_coherent w" "fair_prices ce w" "unused_id (ce_new_id ce) (rst d w Idle)"
    and c: "create_order ce rq d w = (Inr oc, d', w')"
  shows "\<exists>row. get_row d' (oc_id oc) = Some row \<and> o_inv row = ''reserved''
    \<and> taken w' (oc_id oc) \<and> \<not> returned w' (oc_id oc)"
proof -
  have i: "rinv (rst d' w' Idle)" by (rule rsteps_inv[OF create_runs[OF c assms(2-4)] assms(1)])
  have dist: "distinct (map o_id (db_orders d))" "get_row d (ce_new_id ce) = None"
    using assms(1,4) by (simp_all add: rinv_def totals_ok_def unused_id_def)
  have "\<exists>row. get_row d' (oc_id oc) = Some row \<and> o_inv row = ''reserved''"
    using c
  proof (cases rule: create_order_cases)
    case (reused cs o' po)
    then show ?thesis using opened_row[OF reused(3) dist] by simp
  next
    case (opened cs catalog items pm po o' new d1)
    note row = opened_row[OF opened(5) dist]
    note r = reserve_opened_row[OF opened(7) row opened(6)]
    have "get_row d' (o_id o') = map_option (mark_reserved (ce_now ce)) (get_row d1 (o_id o'))"
      unfolding r(1) by (rule get_row_set_rows) (simp add: mark_reserved_def)
    then show ?thesis using r(2) row by simp
  qed simp
  then show ?thesis using row_fact[OF i] by fastforce
qed

text \<open>C6. An order that is answered as created is reserved: its row has that status and the stock
  ledger holds its deduction and no restoration.\<close>

theorem create_order_reserves:
  assumes "rinv (rst d w Idle)" "cache_coherent w" "fair_prices ce w" "unused_id (ce_new_id ce) (rst d w Idle)"
    and c: "create_order ce rq d w = (Inr oc, d', w')"
  shows "\<exists>row. get_row d' (oc_id oc) = Some row \<and> o_inv row = ''reserved''
    \<and> taken w' (oc_id oc) \<and> \<not> returned w' (oc_id oc)"
  by (rule reserved_order[OF assms])

theorem create_order_reserves_witness:
  "\<exists>row. get_row db1 ''1'' = Some row \<and> o_inv row = ''reserved'' \<and> taken w1 ''1'' \<and> \<not> returned w1 ''1''"
proof -
  from created_ok obtain oc where oc: "fst created = Inr oc" "oc_id oc = ''1''" by blast
  have i: "rinv (rst sample_store sample_world Idle)" by (rule rinit_inv[OF sample_start(1)])
  have u: "unused_id (ce_new_id (sample_create F_none F_none)) (rst sample_store sample_world Idle)"
    using sample_start(3) by (simp add: sample_create_def)
  show ?thesis
    using create_order_reserves[OF i sample_facts(1) sample_start(2) u created_eq[unfolded oc(1)]] oc(2) by simp
qed

text \<open>C12. The limit on unpaid orders holds: an order that is answered as new leaves its customer with at
  most three active unpaid orders.\<close>

theorem active_order_limit:
  assumes "distinct (map o_id (db_orders d))" "get_row d (ce_new_id ce) = None"
    and c: "create_order ce rq d w = (Inr oc, d', w')" "oc_new oc"
  shows "get_active_unpaid_order_count d' (rq_customer rq) \<le> max_active_unpaid_orders"
  using c(1)
proof (cases rule: create_order_cases)
  case (opened cs catalog items pm po o' new d1)
  note row = opened_row[OF opened(5) assms(1,2)]
  note r = reserve_opened_row[OF opened(7) row opened(6)]
  from opened(5) r(3) c(2) have d1: "d1 = d\<lparr>db_orders := db_orders d @ [o']\<rparr>" "o' = inserted_order (ce_new_id ce) (ce_now ce) rq po"
    "get_active_unpaid_order_count d (rq_customer rq) < max_active_unpaid_orders"
    by (cases rule: open_order_cases; simp)+
  let ?p = "\<lambda>x. o_customer x = Some (rq_customer rq) \<and> is_active_unpaid x"
  have "\<forall>x \<in> set (db_orders d). o_id x \<noteq> o_id o'"
    using assms(2) d1(2) by (force simp: get_row_def find_by_None inserted_order_def)
  then have "upd_where (\<lambda>x. o_id x = o_id o') (mark_reserved (ce_now ce)) (db_orders d) = db_orders d"
    by (intro upd_where_none) simp
  then have "db_orders d' = db_orders d @ [mark_reserved (ce_now ce) o']"
    by (simp add: r(1) d1(1) upd_where_def)
  then show ?thesis using d1(3) by (simp add: get_active_unpaid_order_count_def)
qed (use c in auto)

theorem active_order_limit_witness:
  "get_active_unpaid_order_count db1 ''c1'' \<le> 3"
proof -
  from created_ok obtain oc where oc: "fst created = Inr oc" "oc_new oc" by blast
  have "distinct (map o_id (db_orders sample_store))" "get_row sample_store (ce_new_id (sample_create F_none F_none)) = None"
    by (simp_all add: sample_store_def get_row_def sql_simps)
  from active_order_limit[OF this created_eq[unfolded oc(1)] oc(2)] show ?thesis
    by (simp add: sample_request_def max_active_unpaid_orders_def)
qed

end
