(* ===== verification/Inbound_Buffer.thy ===== *)
theory Inbound_Buffer
  imports Prelude "HOL-Library.Sublist"
begin

text \<open>
  The durable debounce queue of inbound messages, \<open>store/app/webhooks/inbound_buffer.py\<close>: messages of
  one sender are collected in a pending job, a worker leases a due job, processes it and completes,
  fails or requeues it, and abandoned leases are recovered. Every transaction is a function on the two
  tables; times are arguments, in seconds; new ids and lease tokens are arguments too. The processor
  (\<open>_deliver_ai_response\<close> of the channel) and the send function of the Meta client are parameters: only
  their outcome enters. Columns of JSON text are the values they encode.
\<close>

section \<open>Tables\<close>

datatype inbound_status = Pending | Processing | Completed | Failed

record inbound_job =
  ib_id :: string
  ib_channel :: string
  ib_sender :: string
  ib_parts :: "string list"
  ib_media :: "string option"
  ib_profile :: py_dict
  ib_status :: inbound_status
  ib_available :: int
  ib_attempts :: nat
  ib_started :: "int option"
  ib_beat :: "int option"
  ib_token :: "string option"
  ib_out_started :: "int option"
  ib_out_ids :: "string list"
  ib_completed :: "int option"
  ib_error :: "string option"
  ib_created :: int
  ib_updated :: int

record inbound_receipt =
  rc_channel :: string
  rc_message :: string
  rc_job :: string

record inbound_db =
  iq_jobs :: "inbound_job list"
  iq_receipts :: "inbound_receipt list"

definition message_debounce_seconds :: int where "message_debounce_seconds = 15"
definition processing_lease_minutes :: int where "processing_lease_minutes = 5"
definition max_processing_attempts :: nat where "max_processing_attempts = 5"
definition max_meta_send_attempts :: nat where "max_meta_send_attempts = 3"
definition max_concurrent_inbound_processors :: nat where "max_concurrent_inbound_processors = 3"

definition job_key :: "inbound_job \<Rightarrow> string \<times> string" where
  "job_key j = (ib_channel j, ib_sender j)"

text \<open>The row of a sender with a status, of which the unique indexes allow one.\<close>

definition slot :: "inbound_status \<Rightarrow> string \<times> string \<Rightarrow> inbound_db \<Rightarrow> inbound_job option" where
  "slot st k d = find (\<lambda>j. ib_status j = st \<and> job_key j = k) (iq_jobs d)"

definition set_job :: "string \<Rightarrow> (inbound_job \<Rightarrow> inbound_job) \<Rightarrow> inbound_db \<Rightarrow> inbound_db" where
  "set_job jid f d = d\<lparr>iq_jobs := upd_where (\<lambda>j. ib_id j = jid) f (iq_jobs d)\<rparr>"

definition coalesce :: "'a option \<Rightarrow> 'a option \<Rightarrow> 'a option" where
  "coalesce a b = (case a of Some x \<Rightarrow> Some x | None \<Rightarrow> b)"

section \<open>Enqueueing\<close>

definition merge_profile :: "py_dict \<Rightarrow> py_dict \<Rightarrow> py_dict" where
  "merge_profile current new_values =
     foldl (\<lambda>m (k, v). if py_truthy v then AList.update k v m else m) current new_values"

definition combine_parts :: "string list \<Rightarrow> string" where
  "combine_parts parts = join_with [CHR 0x0A] (filter (\<lambda>p. p \<noteq> []) (map py_strip parts))"

definition extend_job :: "int \<Rightarrow> string \<Rightarrow> string option \<Rightarrow> py_dict \<Rightarrow> inbound_job \<Rightarrow> inbound_job" where
  "extend_job now text media profile j =
     j\<lparr>ib_parts := ib_parts j @ [text], ib_media := coalesce media (ib_media j),
       ib_profile := merge_profile (ib_profile j) profile,
       ib_available := now + message_debounce_seconds, ib_updated := now\<rparr>"

definition new_job ::
  "string \<Rightarrow> int \<Rightarrow> string \<Rightarrow> string \<Rightarrow> string \<Rightarrow> string option \<Rightarrow> py_dict \<Rightarrow> inbound_job" where
  "new_job jid now ch sender text media profile =
     \<lparr>ib_id = jid, ib_channel = ch, ib_sender = sender, ib_parts = [text], ib_media = media,
      ib_profile = profile, ib_status = Pending, ib_available = now + message_debounce_seconds,
      ib_attempts = 0, ib_started = None, ib_beat = None, ib_token = None, ib_out_started = None,
      ib_out_ids = [], ib_completed = None, ib_error = None, ib_created = now, ib_updated = now\<rparr>"

definition has_receipt :: "string \<Rightarrow> string \<Rightarrow> inbound_db \<Rightarrow> bool" where
  "has_receipt ch mid d = list_ex (\<lambda>r. rc_channel r = ch \<and> rc_message r = mid) (iq_receipts d)"

definition enqueue_inbound_message ::
  "string \<Rightarrow> int \<Rightarrow> string \<Rightarrow> string \<Rightarrow> string \<Rightarrow> string \<Rightarrow> string option \<Rightarrow> py_dict \<Rightarrow> inbound_db
   \<Rightarrow> (py_exc + bool) \<times> inbound_db" where
  "enqueue_inbound_message new_id now ch sender mid text media profile d =
     (if ch \<notin> set [''whatsapp'', ''instagram''] then (Inl (ValueError ''Unsupported inbound channel''), d)
      else if sender = [] \<or> mid = [] then (Inl (ValueError ''sender_id and message_id are required''), d)
      else if has_receipt ch mid d then (Inr False, d)
      else (let (jid, d1) = (case slot Pending (ch, sender) d of
                  Some p \<Rightarrow> (ib_id p, set_job (ib_id p) (extend_job now text media profile) d)
                | None \<Rightarrow> (new_id, d\<lparr>iq_jobs := iq_jobs d @ [new_job new_id now ch sender text media profile]\<rparr>)) in
            (Inr True, d1\<lparr>iq_receipts := iq_receipts d1 @ [\<lparr>rc_channel = ch, rc_message = mid, rc_job = jid\<rparr>]\<rparr>)))"

section \<open>Leases\<close>

definition lease_job :: "int \<Rightarrow> string \<Rightarrow> inbound_job \<Rightarrow> inbound_job" where
  "lease_job now tok j = j\<lparr>ib_status := Processing, ib_started := Some now, ib_beat := Some now,
     ib_token := Some tok, ib_attempts := Suc (ib_attempts j), ib_updated := now\<rparr>"

text \<open>\<open>ORDER BY available_at ASC, created_at ASC LIMIT 1\<close>.\<close>

definition first_due :: "inbound_job list \<Rightarrow> inbound_job option" where
  "first_due js = (case sort_key ib_available (sort_key ib_created js) of [] \<Rightarrow> None | j # _ \<Rightarrow> Some j)"

definition claim :: "int \<Rightarrow> string \<Rightarrow> inbound_job option \<Rightarrow> inbound_db \<Rightarrow> inbound_job option \<times> inbound_db" where
  "claim now tok candidate d =
     (case candidate of
        None \<Rightarrow> (None, d)
      | Some j \<Rightarrow> (Some (lease_job now tok j), set_job (ib_id j) (lease_job now tok) d))"

definition claim_due_job :: "int \<Rightarrow> string \<Rightarrow> inbound_db \<Rightarrow> inbound_job option \<times> inbound_db" where
  "claim_due_job now tok d =
     claim now tok (first_due (filter (\<lambda>j. ib_status j = Pending \<and> ib_available j \<le> now
        \<and> slot Processing (job_key j) d = None) (iq_jobs d))) d"

definition claim_sender_job ::
  "int \<Rightarrow> string \<Rightarrow> string \<Rightarrow> string \<Rightarrow> inbound_db \<Rightarrow> inbound_job option \<times> inbound_db" where
  "claim_sender_job now tok ch sender d =
     (if slot Processing (ch, sender) d \<noteq> None then (None, d)
      else claim now tok (first_due (filter (\<lambda>j. job_key j = (ch, sender) \<and> ib_status j = Pending
        \<and> ib_available j \<le> now) (iq_jobs d))) d)"

definition leased :: "string \<Rightarrow> string \<Rightarrow> inbound_job \<Rightarrow> bool" where
  "leased jid tok j = (ib_id j = jid \<and> ib_status j = Processing \<and> ib_token j = Some tok)"

definition update_leased ::
  "string \<Rightarrow> string \<Rightarrow> (inbound_job \<Rightarrow> inbound_job) \<Rightarrow> inbound_db \<Rightarrow> bool \<times> inbound_db" where
  "update_leased jid tok f d =
     (list_ex (leased jid tok) (iq_jobs d), d\<lparr>iq_jobs := upd_where (leased jid tok) f (iq_jobs d)\<rparr>)"

definition heartbeat_claimed_job :: "int \<Rightarrow> string \<Rightarrow> string \<Rightarrow> inbound_db \<Rightarrow> inbound_db" where
  "heartbeat_claimed_job now jid tok d =
     (if tok = [] then d
      else snd (update_leased jid tok (\<lambda>j. j\<lparr>ib_beat := Some now, ib_updated := now\<rparr>) d))"

text \<open>Ending a lease.\<close>

definition end_lease :: "int \<Rightarrow> inbound_status \<Rightarrow> string option \<Rightarrow> inbound_job \<Rightarrow> inbound_job" where
  "end_lease now st err j = j\<lparr>ib_status := st, ib_started := None, ib_beat := None, ib_token := None,
     ib_error := err, ib_updated := now\<rparr>"

definition complete_job :: "int \<Rightarrow> string option \<Rightarrow> inbound_job \<Rightarrow> inbound_job" where
  "complete_job now err j = (end_lease now Completed err j)\<lparr>ib_completed := Some now\<rparr>"

definition complete_leased :: "int \<Rightarrow> string \<Rightarrow> string \<Rightarrow> inbound_db \<Rightarrow> bool \<times> inbound_db" where
  "complete_leased now jid tok d = update_leased jid tok (complete_job now None) d"

section \<open>Sending\<close>

definition mark_outbound_send_started :: "int \<Rightarrow> string \<Rightarrow> string \<Rightarrow> inbound_db \<Rightarrow> bool \<times> inbound_db" where
  "mark_outbound_send_started now jid tok d =
     (if jid = [] \<or> tok = [] then (False, d)
      else update_leased jid tok
        (\<lambda>j. j\<lparr>ib_out_started := coalesce (ib_out_started j) (Some now), ib_updated := now\<rparr>) d)"

text \<open>The message ids of a response; a malformed one raises \<open>AttributeError\<close> or \<open>TypeError\<close>.\<close>

definition clean_id :: "json \<Rightarrow> string" where
  "clean_id v = py_strip (j_str_or_empty v)"

fun message_ids :: "json list \<Rightarrow> py_exc + string list" where
  "message_ids [] = Inr []"
| "message_ids (m # ms) =
     (case (if j_truthy m then (case m of JObj d _ \<Rightarrow> Inr (clean_id (jget d ''id''))
                                | _ \<Rightarrow> Inl (OtherError ''AttributeError'')) else Inr []) of
        Inl e \<Rightarrow> Inl e
      | Inr i \<Rightarrow> (case message_ids ms of Inl e \<Rightarrow> Inl e | Inr is \<Rightarrow> Inr (if i \<noteq> [] then i # is else is)))"

definition extract_meta_message_ids :: "(string \<times> json) list \<Rightarrow> py_exc + string list" where
  "extract_meta_message_ids response =
     (let messages = jget response ''messages'';
          a = jget response ''message_id''; b = jget response ''id'';
          direct = clean_id (if j_truthy a then a else b) in
      case (if \<not> j_truthy messages then Inr []
            else (case messages of JList ms _ \<Rightarrow> message_ids ms | _ \<Rightarrow> Inl (OtherError ''AttributeError''))) of
        Inl e \<Rightarrow> Inl e
      | Inr is \<Rightarrow> Inr (is @ (if direct \<noteq> [] then [direct] else [])))"

text \<open>\<open>jsonb_agg(DISTINCT value)\<close>; the order it gives them does not matter here.\<close>

definition record_outbound_message ::
  "int \<Rightarrow> string \<Rightarrow> string \<Rightarrow> (string \<times> json) list \<Rightarrow> inbound_db \<Rightarrow> (py_exc + unit) \<times> inbound_db" where
  "record_outbound_message now jid tok response d =
     (case extract_meta_message_ids response of
        Inl e \<Rightarrow> (Inl e, d)
      | Inr is \<Rightarrow>
          (if jid = [] \<or> tok = [] \<or> is = [] then (Inr (), d)
           else (Inr (), snd (update_leased jid tok
             (\<lambda>j. j\<lparr>ib_out_ids := dedupe (ib_out_ids j @ is), ib_updated := now\<rparr>) d))))"

datatype send_outcome =
    SendOk "(string \<times> json) list"
  | SendMeta bool
  | SendOther string

datatype failure = MetaFailure bool | OtherFailure string

text \<open>The attempts from number \<open>k\<close> on: the result and the number of the last attempt plus one.\<close>

function send_tries :: "(nat \<Rightarrow> send_outcome) \<Rightarrow> nat \<Rightarrow> (failure + (string \<times> json) list) \<times> nat" where
  "send_tries send k =
     (case send k of
        SendOk r \<Rightarrow> (Inr r, Suc k)
      | SendOther e \<Rightarrow> (Inl (OtherFailure e), Suc k)
      | SendMeta retryable \<Rightarrow>
          (if \<not> retryable \<or> max_meta_send_attempts \<le> Suc k then (Inl (MetaFailure retryable), Suc k)
           else send_tries send (Suc k)))"
  by pat_completeness auto
termination
  by (relation "measure (\<lambda>(_, k). max_meta_send_attempts - k)") auto

definition send_with_delivery_record ::
  "int \<Rightarrow> (nat \<Rightarrow> send_outcome) \<Rightarrow> string \<Rightarrow> string \<Rightarrow> inbound_db
   \<Rightarrow> (failure + (string \<times> json) list) \<times> nat \<times> inbound_db" where
  "send_with_delivery_record now send jid tok d =
     (let fenced = (jid \<noteq> [] \<and> tok \<noteq> []);
          (marked, d1) = (if fenced then mark_outbound_send_started now jid tok d else (True, d)) in
      if \<not> marked then (Inl (OtherFailure ''RuntimeError''), 0, d1)
      else (case send_tries send 0 of
              (Inl e, n) \<Rightarrow> (Inl e, n, d1)
            | (Inr r, n) \<Rightarrow>
                (if \<not> fenced then (Inr r, n, d1)
                 else (case record_outbound_message now jid tok r d1 of
                         (Inl _, d2) \<Rightarrow> (Inl (OtherFailure ''AttributeError''), n, d2)
                       | (Inr _, d2) \<Rightarrow> (Inr r, n, d2)))))"

section \<open>Failed and abandoned leases\<close>

text \<open>The parts of a lease that ends go in front of those of the sender's newer pending job.\<close>

definition prepend_job :: "int \<Rightarrow> int \<Rightarrow> inbound_job \<Rightarrow> inbound_job \<Rightarrow> inbound_job" where
  "prepend_job now available old j =
     j\<lparr>ib_parts := ib_parts old @ ib_parts j, ib_media := coalesce (ib_media j) (ib_media old),
       ib_profile := merge_profile (ib_profile old) (ib_profile j), ib_available := available, ib_updated := now\<rparr>"

definition requeue_failed_job :: "int \<Rightarrow> inbound_job \<Rightarrow> failure \<Rightarrow> inbound_db \<Rightarrow> inbound_db" where
  "requeue_failed_job now job err d =
     (let tok = (case ib_token job of Some t \<Rightarrow> t | None \<Rightarrow> []);
          retry = (ib_attempts job < max_processing_attempts);
          known_safe = (err = MetaFailure True);
          name = (case err of MetaFailure _ \<Rightarrow> ''MetaSendError'' | OtherFailure s \<Rightarrow> take 100 s) in
      case find (leased (ib_id job) tok) (iq_jobs d) of
        None \<Rightarrow> d
      | Some cur \<Rightarrow>
          (if ib_out_ids cur \<noteq> []
           then set_job (ib_id cur) (end_lease now Failed (Some ''partial_delivery_requires_reconciliation'')) d
           else if ib_out_started cur \<noteq> None \<and> \<not> known_safe
           then set_job (ib_id cur) (end_lease now Failed (Some ''delivery_unknown_after_send_attempt'')) d
           else (case (if retry then slot Pending (ib_channel job, ib_sender job) d else None) of
                   Some p \<Rightarrow> set_job (ib_id cur) (end_lease now Failed (Some name))
                               (set_job (ib_id p) (prepend_job now (now + 30) cur) d)
                 | None \<Rightarrow> set_job (ib_id cur)
                     (\<lambda>j. (end_lease now (if retry then Pending else Failed) (Some name) j)
                        \<lparr>ib_available := (if retry then now + 30 else ib_available j)\<rparr>) d)))"

definition stale_lease :: "int \<Rightarrow> inbound_job \<Rightarrow> bool" where
  "stale_lease now j = (ib_status j = Processing \<and>
     (case coalesce (ib_beat j) (ib_started j) of None \<Rightarrow> False | Some t \<Rightarrow> t < now - processing_lease_minutes * 60))"

definition recover_lease :: "int \<Rightarrow> string \<Rightarrow> string option \<Rightarrow> inbound_db \<Rightarrow> bool \<times> inbound_db" where
  "recover_lease now jid tok d =
     (case find (\<lambda>j. ib_id j = jid \<and> stale_lease now j \<and> ib_token j = tok) (iq_jobs d) of
        None \<Rightarrow> (False, d)
      | Some j \<Rightarrow>
          (True,
           if ib_out_ids j \<noteq> [] then set_job jid (complete_job now (Some ''stale_lease_completed_after_meta_accept'')) d
           else if ib_out_started j \<noteq> None
           then set_job jid (end_lease now Failed (Some ''delivery_unknown_after_stale_lease'')) d
           else (case slot Pending (job_key j) d of
                   Some p \<Rightarrow> set_job jid (end_lease now Failed (Some ''stale_lease_merged''))
                               (set_job (ib_id p) (prepend_job now now j) d)
                 | None \<Rightarrow> set_job jid (\<lambda>j. (end_lease now Pending (Some ''stale_lease_recovered'') j)
                                           \<lparr>ib_available := now\<rparr>) d)))"

fun recover_all :: "int \<Rightarrow> inbound_job list \<Rightarrow> nat \<Rightarrow> inbound_db \<Rightarrow> nat \<times> inbound_db" where
  "recover_all now [] n d = (n, d)"
| "recover_all now (j # js) n d =
     (case recover_lease now (ib_id j) (ib_token j) d of (b, d') \<Rightarrow> recover_all now js (if b then Suc n else n) d')"

definition recover_stale_inbound_jobs :: "int \<Rightarrow> inbound_db \<Rightarrow> nat \<times> inbound_db" where
  "recover_stale_inbound_jobs now d =
     recover_all now (take 20 (sort_key (\<lambda>j. case coalesce (ib_beat j) (ib_started j) of None \<Rightarrow> 0 | Some t \<Rightarrow> t)
       (filter (stale_lease now) (iq_jobs d)))) 0 d"

text \<open>\<open>ON DELETE CASCADE\<close> on the receipts.\<close>

definition cleanup_completed_inbound_jobs :: "int \<Rightarrow> int \<Rightarrow> inbound_db \<Rightarrow> inbound_db" where
  "cleanup_completed_inbound_jobs now days d =
     (let jobs = del_where (\<lambda>j. ib_status j \<in> {Completed, Failed} \<and> ib_updated j < now - days * 86400) (iq_jobs d) in
      d\<lparr>iq_jobs := jobs, iq_receipts := filter (\<lambda>r. rc_job r \<in> ib_id ` set jobs) (iq_receipts d)\<rparr>)"

section \<open>Workers\<close>

text \<open>What a processor does: an outcome and its sends, as a change of the queue.\<close>

type_synonym processor = "inbound_job \<Rightarrow> string \<Rightarrow> inbound_db \<Rightarrow> failure option \<times> inbound_db"

definition process_claimed_job :: "int \<Rightarrow> processor \<Rightarrow> inbound_job \<Rightarrow> inbound_db \<Rightarrow> inbound_db" where
  "process_claimed_job now run job d =
     (let text = combine_parts (ib_parts job);
          tok = (case ib_token job of Some t \<Rightarrow> t | None \<Rightarrow> []);
          (failed, d1) = (if text \<noteq> [] then run job text d else (None, d)) in
      case failed of
        None \<Rightarrow> snd (complete_leased now (ib_id job) tok d1)
      | Some e \<Rightarrow> requeue_failed_job now job e d1)"

fun claim_batch :: "int \<Rightarrow> string list \<Rightarrow> nat \<Rightarrow> inbound_db \<Rightarrow> inbound_job list \<times> inbound_db" where
  "claim_batch now toks 0 d = ([], d)"
| "claim_batch now [] (Suc n) d = ([], d)"
| "claim_batch now (tok # toks) (Suc n) d =
     (case claim_due_job now tok d of
        (None, d1) \<Rightarrow> ([], d1)
      | (Some j, d1) \<Rightarrow> (case claim_batch now toks n d1 of (js, d2) \<Rightarrow> (j # js, d2)))"

fun process_batch :: "int \<Rightarrow> processor \<Rightarrow> inbound_job list \<Rightarrow> inbound_db \<Rightarrow> inbound_db" where
  "process_batch now run [] d = d"
| "process_batch now run (j # js) d = process_batch now run js (process_claimed_job now run j d)"

text \<open>One pass of the worker, its claimed jobs processed one after the other; \<open>toks\<close> are the fresh
  tokens, at least as many as slots.\<close>

definition process_due_inbound_jobs ::
  "bool \<Rightarrow> int \<Rightarrow> string list \<Rightarrow> processor \<Rightarrow> nat \<Rightarrow> inbound_db \<Rightarrow> nat \<times> inbound_db" where
  "process_due_inbound_jobs enabled now toks run limit d =
     (if \<not> enabled then (0, d)
      else (let d1 = snd (recover_stale_inbound_jobs now d);
                (js, d2) = claim_batch now toks (min limit max_concurrent_inbound_processors) d1 in
            (length js, process_batch now run js d2)))"

text \<open>The accelerator started by an enqueue, after its delay.\<close>

definition process_after_delay ::
  "bool \<Rightarrow> int \<Rightarrow> string \<Rightarrow> processor \<Rightarrow> string \<Rightarrow> string \<Rightarrow> inbound_db \<Rightarrow> inbound_db" where
  "process_after_delay enabled now tok run ch sender d =
     (if \<not> enabled then d
      else (case claim_sender_job now tok ch sender d of
              (None, d1) \<Rightarrow> d1
            | (Some j, d1) \<Rightarrow> process_claimed_job now run j d1))"

end
