(* ===== verification/Inbound_Queue.thy ===== *)
theory Inbound_Queue
  imports Inbound_Buffer
begin

text \<open>
  The inbound queue as a protocol: each transaction of \<open>Inbound_Buffer\<close> is a step, in any order and
  with any arguments, and every sender's inbox is a first-in first-out queue of message parts.
\<close>

section \<open>The invariant of the tables\<close>

text \<open>The unique indexes, and what a status says of the lease columns.\<close>

fun status_ok :: "inbound_status \<Rightarrow> string option \<Rightarrow> string list \<Rightarrow> bool" where
  "status_ok Pending tok ids = (tok = None \<and> ids = [])"
| "status_ok Processing tok ids = (tok \<noteq> None \<and> tok \<noteq> Some [])"
| "status_ok Completed tok ids = (tok = None)"
| "status_ok Failed tok ids = (tok = None)"

definition job_ok :: "inbound_job \<Rightarrow> bool" where
  "job_ok j = status_ok (ib_status j) (ib_token j) (ib_out_ids j)"

abbreviation live :: "inbound_status \<Rightarrow> bool" where
  "live st \<equiv> st = Pending \<or> st = Processing"

definition iq_inv :: "inbound_db \<Rightarrow> bool" where
  "iq_inv d \<longleftrightarrow> distinct (map ib_id (iq_jobs d)) \<and> (\<forall>j \<in> set (iq_jobs d). job_ok j)
     \<and> (\<forall>j \<in> set (iq_jobs d). \<forall>j' \<in> set (iq_jobs d). live (ib_status j) \<longrightarrow> ib_status j' = ib_status j
          \<longrightarrow> job_key j' = job_key j \<longrightarrow> j' = j)
     \<and> distinct (map (\<lambda>r. (rc_channel r, rc_message r)) (iq_receipts d))
     \<and> rc_job ` set (iq_receipts d) \<subseteq> ib_id ` set (iq_jobs d)"

lemma iq_invD:
  assumes "iq_inv d"
  shows "distinct (map ib_id (iq_jobs d))" "j \<in> set (iq_jobs d) \<Longrightarrow> job_ok j"
    "j \<in> set (iq_jobs d) \<Longrightarrow> j' \<in> set (iq_jobs d) \<Longrightarrow> live (ib_status j) \<Longrightarrow> ib_status j' = ib_status j
       \<Longrightarrow> job_key j' = job_key j \<Longrightarrow> j' = j"
  using assms unfolding iq_inv_def by blast+

lemma slot_SomeD: "slot st k d = Some j \<Longrightarrow> j \<in> set (iq_jobs d) \<and> ib_status j = st \<and> job_key j = k"
  by (auto simp: slot_def find_Some_iff)

lemma slot_None: "slot st k d = None \<longleftrightarrow> (\<forall>j \<in> set (iq_jobs d). ib_status j = st \<longrightarrow> job_key j \<noteq> k)"
  by (auto simp: slot_def find_None_iff)

lemma slot_eq:
  assumes "iq_inv d" "live st" "j \<in> set (iq_jobs d)" "ib_status j = st" "job_key j = k"
  shows "slot st k d = Some j"
proof (cases "slot st k d")
  case None
  then show ?thesis using assms slot_None by blast
next
  case (Some j')
  then have "j' \<in> set (iq_jobs d)" "ib_status j' = st" "job_key j' = k" using slot_SomeD by blast+
  then show ?thesis using Some iq_invD(3)[OF assms(1), of j j'] assms by simp
qed

lemma same_id:
  "iq_inv d \<Longrightarrow> j \<in> set (iq_jobs d) \<Longrightarrow> j' \<in> set (iq_jobs d) \<Longrightarrow> ib_id j' = ib_id j \<Longrightarrow> j' = j"
  using iq_invD(1) by (metis find_by_distinct find_by_unique)

section \<open>Changing one row\<close>

text \<open>An update of a row that keeps its id and its sender.\<close>

definition keeps_row :: "(inbound_job \<Rightarrow> inbound_job) \<Rightarrow> bool" where
  "keeps_row f \<longleftrightarrow> (\<forall>j. ib_id (f j) = ib_id j \<and> ib_channel (f j) = ib_channel j \<and> ib_sender (f j) = ib_sender j)"

lemma keeps_rowD: "keeps_row f \<Longrightarrow> ib_id (f j) = ib_id j \<and> job_key (f j) = job_key j"
  by (simp add: keeps_row_def job_key_def)

lemma set_job_sel [simp]:
  "iq_jobs (set_job jid f d) = upd_where (\<lambda>j. ib_id j = jid) f (iq_jobs d)" "iq_receipts (set_job jid f d) = iq_receipts d"
  by (simp_all add: set_job_def)

lemma set_set_job:
  assumes "iq_inv d" "j0 \<in> set (iq_jobs d)"
  shows "set (iq_jobs (set_job (ib_id j0) f d)) = insert (f j0) (set (iq_jobs d) - {j0})"
  using assms same_id[OF assms(1) assms(2)] by (fastforce simp: set_upd_where)

lemma set_job_inv:
  assumes d: "iq_inv d" "j0 \<in> set (iq_jobs d)" and f: "keeps_row f" and ok: "job_ok (f j0)"
    and free: "live (ib_status (f j0)) \<Longrightarrow> ib_status (f j0) \<noteq> ib_status j0 \<Longrightarrow> slot (ib_status (f j0)) (job_key j0) d = None"
  shows "iq_inv (set_job (ib_id j0) f d)"
proof -
  note s = set_set_job[OF d, of f]
  have ids: "map ib_id (iq_jobs (set_job (ib_id j0) f d)) = map ib_id (iq_jobs d)"
    unfolding set_job_sel by (rule map_key_upd_where) (simp add: keeps_rowD[OF f])
  have key: "job_key (f j0) = job_key j0" using f by (simp add: keeps_rowD)
  have alone: "False" if "j \<in> set (iq_jobs d)" "j \<noteq> j0" "live (ib_status (f j0))" "ib_status j = ib_status (f j0)"
    "job_key j = job_key j0" for j
    using that free d iq_invD(3)[OF d(1) d(2) that(1)] slot_None by metis
  have uniq: "live (ib_status j) \<longrightarrow> ib_status j' = ib_status j \<longrightarrow> job_key j' = job_key j \<longrightarrow> j' = j"
    if "j \<in> insert (f j0) (set (iq_jobs d) - {j0})" "j' \<in> insert (f j0) (set (iq_jobs d) - {j0})" for j j'
  proof (intro impI)
    assume a: "live (ib_status j)" "ib_status j' = ib_status j" "job_key j' = job_key j"
    show "j' = j"
    proof (cases "j = f j0")
      case True
      then have "live (ib_status (f j0))" "ib_status j' = ib_status (f j0)" "job_key j' = job_key j0" using a key by simp_all
      then show ?thesis using True that(2) alone[of j'] by blast
    next
      case j: False
      then have "j \<in> set (iq_jobs d)" "j \<noteq> j0" using that(1) by blast+
      show ?thesis
      proof (cases "j' = f j0")
        case True
        then have "live (ib_status (f j0))" "ib_status j = ib_status (f j0)" "job_key j = job_key j0" using a key by simp_all
        then show ?thesis using \<open>j \<in> set (iq_jobs d)\<close> \<open>j \<noteq> j0\<close> alone[of j] by blast
      next
        case False
        then show ?thesis using that j a iq_invD(3)[OF d(1), of j j'] by blast
      qed
    qed
  qed
  have idset: "ib_id ` set (iq_jobs (set_job (ib_id j0) f d)) = ib_id ` set (iq_jobs d)"
    using ids by (metis list.set_map)
  show ?thesis unfolding iq_inv_def
  proof (intro conjI)
    show "distinct (map ib_id (iq_jobs (set_job (ib_id j0) f d)))" using ids iq_invD(1)[OF d(1)] by argo
    show "\<forall>j \<in> set (iq_jobs (set_job (ib_id j0) f d)). job_ok j" unfolding s using ok iq_invD(2)[OF d(1)] by blast
    show "\<forall>j \<in> set (iq_jobs (set_job (ib_id j0) f d)). \<forall>j' \<in> set (iq_jobs (set_job (ib_id j0) f d)).
        live (ib_status j) \<longrightarrow> ib_status j' = ib_status j \<longrightarrow> job_key j' = job_key j \<longrightarrow> j' = j"
      unfolding s by (intro ballI) (rule uniq)
    show "rc_job ` set (iq_receipts (set_job (ib_id j0) f d)) \<subseteq> ib_id ` set (iq_jobs (set_job (ib_id j0) f d))"
      unfolding idset using d(1) by (simp add: iq_inv_def)
  qed (use d(1) in \<open>simp add: iq_inv_def\<close>)
qed

lemma set_job_slot:
  assumes d: "iq_inv d" "j0 \<in> set (iq_jobs d)" and f: "keeps_row f" and d': "iq_inv (set_job (ib_id j0) f d)" and st: "live st"
  shows "slot st k (set_job (ib_id j0) f d) =
    (if job_key j0 = k \<and> ib_status (f j0) = st then Some (f j0)
     else if job_key j0 = k \<and> ib_status j0 = st then None else slot st k d)"
proof -
  note s = set_set_job[OF d, of f]
  have key: "job_key (f j0) = job_key j0" using f by (simp add: keeps_rowD)
  consider "job_key j0 = k" "ib_status (f j0) = st" | "job_key j0 = k" "ib_status (f j0) \<noteq> st" "ib_status j0 = st"
    | "job_key j0 \<noteq> k \<or> (ib_status (f j0) \<noteq> st \<and> ib_status j0 \<noteq> st)" by blast
  then show ?thesis
  proof cases
    case 1
    then show ?thesis using slot_eq[OF d' st, of "f j0" k] s key by simp
  next
    case 2
    have "slot st k (set_job (ib_id j0) f d) = None" unfolding slot_None s
      using 2 iq_invD(3)[OF d(1) d(2)] st by auto
    then show ?thesis using 2 by simp
  next
    case 3
    have "slot st k (set_job (ib_id j0) f d) = slot st k d"
    proof (cases "slot st k d")
      case None
      then have "slot st k (set_job (ib_id j0) f d) = None" unfolding slot_None s using 3 key by auto
      then show ?thesis using None by simp
    next
      case (Some j)
      then have "j \<in> set (iq_jobs d)" "ib_status j = st" "job_key j = k" "j \<noteq> j0" using slot_SomeD[OF Some] 3 by auto
      then show ?thesis using slot_eq[OF d' st, of j k] s Some by simp
    qed
    then show ?thesis using 3 by auto
  qed
qed

section \<open>Inboxes\<close>

definition parts_of :: "inbound_job option \<Rightarrow> string list" where
  "parts_of j = (case j of None \<Rightarrow> [] | Some j \<Rightarrow> ib_parts j)"

text \<open>What a sender wrote and nobody has finished with, oldest first.\<close>

definition inbox :: "string \<times> string \<Rightarrow> inbound_db \<Rightarrow> string list" where
  "inbox k d = parts_of (slot Processing k d) @ parts_of (slot Pending k d)"

lemma parts_of_simps [simp]: "parts_of None = []" "parts_of (Some j) = ib_parts j"
  by (simp_all add: parts_of_def)

section \<open>Rows under the operations\<close>

lemma keeps_rows [simp]:
  "keeps_row (extend_job now t m pr)" "keeps_row (lease_job now tok)" "keeps_row (end_lease now st e)"
  "keeps_row (complete_job now e)" "keeps_row (prepend_job now a old)"
  "keeps_row (\<lambda>j. (end_lease now st e j)\<lparr>ib_available := g j\<rparr>)"
  "keeps_row (\<lambda>j. j\<lparr>ib_beat := b, ib_updated := now\<rparr>)"
  "keeps_row (\<lambda>j. j\<lparr>ib_out_started := h j, ib_updated := now\<rparr>)"
  "keeps_row (\<lambda>j. j\<lparr>ib_out_ids := l j, ib_updated := now\<rparr>)"
  by (simp_all add: keeps_row_def extend_job_def lease_job_def end_lease_def complete_job_def prepend_job_def)

lemma op_fields [simp]:
  "ib_status (extend_job now t m pr j) = ib_status j" "ib_status (lease_job now tok j) = Processing"
  "ib_status (end_lease now st e j) = st" "ib_status (complete_job now e j) = Completed"
  "ib_status (prepend_job now a old j) = ib_status j"
  "ib_token (extend_job now t m pr j) = ib_token j" "ib_token (lease_job now tok j) = Some tok"
  "ib_token (end_lease now st e j) = None" "ib_token (complete_job now e j) = None"
  "ib_token (prepend_job now a old j) = ib_token j"
  "ib_out_ids (extend_job now t m pr j) = ib_out_ids j" "ib_out_ids (lease_job now tok j) = ib_out_ids j"
  "ib_out_ids (end_lease now st e j) = ib_out_ids j" "ib_out_ids (complete_job now e j) = ib_out_ids j"
  "ib_out_ids (prepend_job now a old j) = ib_out_ids j"
  "ib_parts (extend_job now t m pr j) = ib_parts j @ [t]" "ib_parts (lease_job now tok j) = ib_parts j"
  "ib_parts (end_lease now st e j) = ib_parts j" "ib_parts (prepend_job now a old j) = ib_parts old @ ib_parts j"
  by (simp_all add: extend_job_def lease_job_def end_lease_def complete_job_def prepend_job_def)

lemma leasedD: "leased jid tok j \<Longrightarrow> ib_id j = jid \<and> ib_status j = Processing \<and> ib_token j = Some tok"
  by (simp add: leased_def)

lemma update_leased_cases:
  assumes "iq_inv d"
  obtains "update_leased jid tok f d = (False, d)" "\<forall>j \<in> set (iq_jobs d). \<not> leased jid tok j"
  | j where "j \<in> set (iq_jobs d)" "leased jid tok j" "update_leased jid tok f d = (True, set_job (ib_id j) f d)"
proof (cases "\<exists>j \<in> set (iq_jobs d). leased jid tok j")
  case False
  then have "upd_where (leased jid tok) f (iq_jobs d) = iq_jobs d" by (intro upd_where_none) blast
  then show thesis using False that(1) by (auto simp: update_leased_def list_ex_iff)
next
  case True
  then obtain j where j: "j \<in> set (iq_jobs d)" "leased jid tok j" by blast
  have "upd_where (leased jid tok) f (iq_jobs d) = upd_where (\<lambda>x. ib_id x = ib_id j) f (iq_jobs d)"
    unfolding upd_where_def
  proof (intro map_cong refl)
    fix x assume x: "x \<in> set (iq_jobs d)"
    have "leased jid tok x \<longleftrightarrow> ib_id x = ib_id j"
      using same_id[OF assms j(1) x] j(2) by (metis leased_def)
    then show "(if leased jid tok x then f x else x) = (if ib_id x = ib_id j then f x else x)" by simp
  qed
  then show thesis using j that(2) by (auto simp: update_leased_def set_job_def list_ex_iff)
qed

lemma leased_row:
  assumes "iq_inv d" "j \<in> set (iq_jobs d)" "ib_status j = Processing"
  shows "slot Processing (job_key j) d = Some j" "job_ok j" "ib_token j \<noteq> None" "ib_token j \<noteq> Some []"
  using slot_eq[OF assms(1) _ assms(2)] iq_invD(2)[OF assms(1,2)] assms(3) by (auto simp: job_ok_def)

text \<open>An update that leaves the status and the parts of a row alone.\<close>

lemma touch_row:
  assumes d: "iq_inv d" "j \<in> set (iq_jobs d)" "ib_status j = Processing"
    and f: "keeps_row f" "ib_status (f j) = Processing" "ib_token (f j) = ib_token j" "ib_parts (f j) = ib_parts j"
  shows "iq_inv (set_job (ib_id j) f d) \<and> inbox k (set_job (ib_id j) f d) = inbox k d"
proof -
  have "job_ok (f j)" using leased_row[OF d] f by (simp add: job_ok_def)
  then have i: "iq_inv (set_job (ib_id j) f d)" using set_job_inv[OF d(1,2) f(1)] d(3) f(2) by simp
  then show ?thesis using leased_row(1)[OF d] d(3) f
    by (auto simp: inbox_def set_job_slot[OF d(1,2) f(1) i])
qed

text \<open>A lease that ends for good takes its parts with it.\<close>

lemma finish_row:
  assumes d: "iq_inv d" "j \<in> set (iq_jobs d)" "ib_status j = Processing"
    and f: "keeps_row f" "\<not> live (ib_status (f j))" "ib_token (f j) = None"
  shows "iq_inv (set_job (ib_id j) f d) \<and> inbox k (set_job (ib_id j) f d) =
     (if k = job_key j then parts_of (slot Pending k d) else inbox k d)"
proof -
  have "job_ok (f j)" using f by (cases "ib_status (f j)") (simp_all add: job_ok_def)
  then have i: "iq_inv (set_job (ib_id j) f d)" using set_job_inv[OF d(1,2) f(1)] f(2) by blast
  show ?thesis using i leased_row(1)[OF d] d(3) f(2)
    by (auto simp: inbox_def set_job_slot[OF d(1,2) f(1) i])
qed

text \<open>A lease that goes back to pending keeps its parts where they are.\<close>

lemma repend_row:
  assumes d: "iq_inv d" "j \<in> set (iq_jobs d)" "ib_status j = Processing"
    and f: "keeps_row f" "ib_status (f j) = Pending" "ib_token (f j) = None" "ib_out_ids (f j) = []" "ib_parts (f j) = ib_parts j"
    and free: "slot Pending (job_key j) d = None"
  shows "iq_inv (set_job (ib_id j) f d) \<and> inbox k (set_job (ib_id j) f d) = inbox k d"
proof -
  have "job_ok (f j)" using f by (simp add: job_ok_def)
  then have i: "iq_inv (set_job (ib_id j) f d)" using set_job_inv[OF d(1,2) f(1)] free f(2) by simp
  show ?thesis using i leased_row(1)[OF d] d(3) f free
    by (auto simp: inbox_def set_job_slot[OF d(1,2) f(1) i])
qed

text \<open>A lease merged into the newer pending row.\<close>

lemma merge_row:
  assumes d: "iq_inv d" "j \<in> set (iq_jobs d)" "ib_status j = Processing" and p: "slot Pending (job_key j) d = Some p"
  shows "iq_inv (set_job (ib_id j) (end_lease now Failed e) (set_job (ib_id p) (prepend_job now a j) d)) \<and>
    inbox k (set_job (ib_id j) (end_lease now Failed e) (set_job (ib_id p) (prepend_job now a j) d)) = inbox k d"
proof -
  let ?d = "set_job (ib_id p) (prepend_job now a j) d"
  from slot_SomeD[OF p] have pr: "p \<in> set (iq_jobs d)" "ib_status p = Pending" "job_key p = job_key j" by blast+
  have "job_ok (prepend_job now a j p)" using iq_invD(2)[OF d(1) pr(1)] by (simp add: job_ok_def)
  then have i: "iq_inv ?d" by (intro set_job_inv[OF d(1) pr(1)]) simp_all
  have "j \<noteq> p" using d(3) pr(2) by auto
  then have j: "j \<in> set (iq_jobs ?d)" unfolding set_set_job[OF d(1) pr(1)] using d(2) by blast
  note fin = finish_row[OF i j d(3), of "end_lease now Failed e" k]
  have s: "slot st k ?d = (if job_key p = k \<and> Pending = st then Some (prepend_job now a j p) else slot st k d)" if "live st" for st
    using set_job_slot[OF d(1) pr(1) _ i that, of k] pr(2) by simp
  have "k = job_key j \<Longrightarrow> inbox k d = ib_parts j @ ib_parts p" using leased_row(1)[OF d] p by (simp add: inbox_def)
  moreover have "k \<noteq> job_key j \<Longrightarrow> inbox k ?d = inbox k d" using pr(3) by (simp add: inbox_def s)
  moreover have "k = job_key j \<Longrightarrow> slot Pending k ?d = Some (prepend_job now a j p)" using s[of Pending] pr(3) by simp
  ultimately show ?thesis using fin pr(3) by auto
qed

section \<open>Steps\<close>

inductive istep :: "inbound_db \<Rightarrow> inbound_db \<Rightarrow> bool" where
  enqueue: "enqueue_inbound_message i now ch sender mid text media profile d = (r, d') \<Longrightarrow>
    i \<notin> ib_id ` set (iq_jobs d) \<Longrightarrow> istep d d'"
| claim_due: "claim_due_job now tok d = (j, d') \<Longrightarrow> tok \<noteq> [] \<Longrightarrow> istep d d'"
| claim_sender: "claim_sender_job now tok ch sender d = (j, d') \<Longrightarrow> tok \<noteq> [] \<Longrightarrow> istep d d'"
| beat: "istep d (heartbeat_claimed_job now jid tok d)"
| send_started: "mark_outbound_send_started now jid tok d = (b, d') \<Longrightarrow> istep d d'"
| sent: "record_outbound_message now jid tok response d = (r, d') \<Longrightarrow> istep d d'"
| complete: "complete_leased now jid tok d = (b, d') \<Longrightarrow> istep d d'"
| requeue: "\<forall>j \<in> set (iq_jobs d). ib_id j = ib_id job \<longrightarrow> job_key j = job_key job \<Longrightarrow>
    istep d (requeue_failed_job now job err d)"
| recover: "recover_lease now jid tok d = (b, d') \<Longrightarrow> istep d d'"
| cleanup: "istep d (cleanup_completed_inbound_jobs now days d)"

text \<open>How a step may move a sender's inbox: not at all, a new part at its end, or the leased batch out.\<close>

definition fifo :: "string \<times> string \<Rightarrow> inbound_db \<Rightarrow> inbound_db \<Rightarrow> bool" where
  "fifo k d d' \<longleftrightarrow> inbox k d' = inbox k d \<or> (\<exists>text. inbox k d' = inbox k d @ [text])
     \<or> (\<exists>j. slot Processing k d = Some j \<and> inbox k d = ib_parts j @ inbox k d')"

lemma fifo_same: "inbox k d' = inbox k d \<Longrightarrow> fifo k d d'"
  by (simp add: fifo_def)

lemma fifo_finish:
  assumes d: "iq_inv d" "j \<in> set (iq_jobs d)" "ib_status j = Processing"
    and f: "keeps_row f" "\<not> live (ib_status (f j))" "ib_token (f j) = None"
  shows "iq_inv (set_job (ib_id j) f d) \<and> fifo k d (set_job (ib_id j) f d)"
proof -
  note fr = finish_row[OF d f, of k]
  show ?thesis
  proof (cases "k = job_key j")
    case True
    then show ?thesis using fr leased_row(1)[OF d] by (auto simp: fifo_def inbox_def[of "job_key j" d])
  qed (use fr fifo_same in simp)
qed

lemma claim_step:
  assumes d: "iq_inv d" and tok: "tok \<noteq> []"
    and c: "\<And>j. candidate = Some j \<Longrightarrow> j \<in> set (iq_jobs d) \<and> ib_status j = Pending \<and> slot Processing (job_key j) d = None"
    and s: "claim now tok candidate d = (r, d')"
  shows "iq_inv d' \<and> inbox k d' = inbox k d"
proof (cases candidate)
  case None
  then show ?thesis using s d by (simp add: claim_def)
next
  case (Some j)
  let ?f = "lease_job now tok"
  have j: "j \<in> set (iq_jobs d)" "ib_status j = Pending" "slot Processing (job_key j) d = None" using c[OF Some] by blast+
  have "job_ok (?f j)" using tok by (simp add: job_ok_def)
  then have i: "iq_inv (set_job (ib_id j) ?f d)" using set_job_inv[OF d j(1), of ?f] j(3) by simp
  have "slot Pending (job_key j) d = Some j" using slot_eq[OF d _ j(1)] j(2) by simp
  then have "inbox k (set_job (ib_id j) ?f d) = inbox k d"
    using j by (auto simp: inbox_def set_job_slot[OF d j(1) _ i])
  then show ?thesis using i s Some by (simp add: claim_def)
qed

lemma first_due_in:
  assumes "first_due js = Some j" shows "j \<in> set js"
proof -
  from assms obtain xs where "sort_key ib_available (sort_key ib_created js) = j # xs"
    unfolding first_due_def by (cases "sort_key ib_available (sort_key ib_created js)") simp_all
  then have "j \<in> set (sort_key ib_available (sort_key ib_created js))" by simp
  then show ?thesis by simp
qed

lemma claim_due_step:
  assumes "iq_inv d" "claim_due_job now tok d = (r, d')" "tok \<noteq> []"
  shows "iq_inv d' \<and> inbox k d' = inbox k d"
  using assms(2) unfolding claim_due_job_def
  by (rule claim_step[OF assms(1,3), rotated]) (auto dest: first_due_in)

lemma claim_sender_step:
  assumes "iq_inv d" "claim_sender_job now tok ch sender d = (r, d')" "tok \<noteq> []"
  shows "iq_inv d' \<and> inbox k d' = inbox k d"
proof (cases "slot Processing (ch, sender) d")
  case None
  have "claim now tok (first_due (filter (\<lambda>j. job_key j = (ch, sender) \<and> ib_status j = Pending
        \<and> ib_available j \<le> now) (iq_jobs d))) d = (r, d')"
    using assms(2) None by (simp add: claim_sender_job_def)
  then show ?thesis by (rule claim_step[OF assms(1,3), rotated]) (auto dest!: first_due_in simp: None)
qed (use assms in \<open>simp add: claim_sender_job_def\<close>)

lemma touch_step:
  assumes d: "iq_inv d"
    and f: "keeps_row f" "\<And>j. ib_status (f j) = ib_status j" "\<And>j. ib_token (f j) = ib_token j" "\<And>j. ib_parts (f j) = ib_parts j"
  shows "iq_inv (snd (update_leased jid tok f d)) \<and> inbox k (snd (update_leased jid tok f d)) = inbox k d"
  using d
proof (cases rule: update_leased_cases[where jid = jid and tok = tok and f = f])
  case (2 j)
  then show ?thesis using touch_row[OF d 2(1) _ f(1), of k] leasedD[OF 2(2)] f by simp
qed (use d in simp)

lemma complete_step:
  assumes d: "iq_inv d"
  shows "iq_inv (snd (complete_leased now jid tok d)) \<and> fifo k d (snd (complete_leased now jid tok d))"
  using d
proof (cases rule: update_leased_cases[where jid = jid and tok = tok and f = "complete_job now None"])
  case (2 j)
  then show ?thesis using fifo_finish[OF d 2(1), of "complete_job now None" k] leasedD[OF 2(2)]
    by (simp add: complete_leased_def)
qed (use d fifo_same in \<open>simp add: complete_leased_def\<close>)

lemma requeue_step:
  assumes d: "iq_inv d" and key: "\<forall>j \<in> set (iq_jobs d). ib_id j = ib_id job \<longrightarrow> job_key j = job_key job"
  shows "iq_inv (requeue_failed_job now job err d) \<and> fifo k d (requeue_failed_job now job err d)"
proof (cases "find (leased (ib_id job) (case ib_token job of Some t \<Rightarrow> t | None \<Rightarrow> [])) (iq_jobs d)")
  case None
  then show ?thesis using d fifo_same by (simp add: requeue_failed_job_def)
next
  case (Some j)
  note start = Some
  from Some have j: "j \<in> set (iq_jobs d)" "ib_status j = Processing" "ib_id j = ib_id job"
    by (auto simp: find_Some_iff leased_def)
  then have kj: "(ib_channel job, ib_sender job) = job_key j" using key by (simp add: job_key_def)
  note fin = fifo_finish[OF d j(1,2), of "end_lease now Failed e" k for e, simplified]
  show ?thesis
  proof (cases "ib_out_ids j \<noteq> [] \<or> (ib_out_started j \<noteq> None \<and> err \<noteq> MetaFailure True)")
    case True
    then show ?thesis using fin Some by (auto simp: requeue_failed_job_def Let_def)
  next
    case False
    show ?thesis
    proof (cases "ib_attempts job < max_processing_attempts")
      case retry: True
      show ?thesis
      proof (cases "slot Pending (job_key j) d")
        case (Some p)
        then show ?thesis using merge_row[OF d j(1,2) Some, of now _ "now + 30" k] False retry start kj fifo_same[of k]
          by (auto simp: requeue_failed_job_def Let_def)
      next
        case None
        let ?f = "\<lambda>j. (end_lease now Pending (Some (case err of MetaFailure _ \<Rightarrow> ''MetaSendError'' | OtherFailure s \<Rightarrow> take 100 s)) j)
            \<lparr>ib_available := now + 30\<rparr>"
        have "iq_inv (set_job (ib_id j) ?f d) \<and> inbox k (set_job (ib_id j) ?f d) = inbox k d"
          by (rule repend_row[OF d j(1,2)]) (use False None in simp_all)
        then show ?thesis using False retry start kj None fifo_same[of k] by (auto simp: requeue_failed_job_def Let_def)
      qed
    next
      case no: False
      let ?f = "\<lambda>j. (end_lease now Failed (Some (case err of MetaFailure _ \<Rightarrow> ''MetaSendError'' | OtherFailure s \<Rightarrow> take 100 s)) j)
          \<lparr>ib_available := ib_available j\<rparr>"
      have "iq_inv (set_job (ib_id j) ?f d) \<and> fifo k d (set_job (ib_id j) ?f d)"
        by (rule fifo_finish[OF d j(1,2)]) simp_all
      then show ?thesis using False no start by (auto simp: requeue_failed_job_def Let_def)
    qed
  qed
qed

lemma recover_step:
  assumes d: "iq_inv d" and r: "recover_lease now jid tok d = (b, d')"
  shows "iq_inv d' \<and> fifo k d d'"
proof (cases "find (\<lambda>j. ib_id j = jid \<and> stale_lease now j \<and> ib_token j = tok) (iq_jobs d)")
  case None
  then show ?thesis using d r fifo_same by (simp add: recover_lease_def)
next
  case (Some j)
  note start = Some
  from Some have j: "j \<in> set (iq_jobs d)" "ib_status j = Processing" "ib_id j = jid"
    by (auto simp: find_Some_iff stale_lease_def)
  note fin = fifo_finish[OF d j(1,2), of "end_lease now Failed e" k for e, simplified]
  note fin2 = fifo_finish[OF d j(1,2), of "complete_job now e" k for e, simplified]
  show ?thesis
  proof (cases "ib_out_ids j \<noteq> [] \<or> ib_out_started j \<noteq> None")
    case True
    then show ?thesis using fin fin2 Some r j(3) by (auto simp: recover_lease_def)
  next
    case False
    show ?thesis
    proof (cases "slot Pending (job_key j) d")
      case (Some p)
      then show ?thesis using merge_row[OF d j(1,2) Some, of now _ now k] False start r j(3) fifo_same[of k]
        by (auto simp: recover_lease_def)
    next
      case None
      let ?f = "\<lambda>j. (end_lease now Pending (Some ''stale_lease_recovered'') j)\<lparr>ib_available := now\<rparr>"
      have "iq_inv (set_job (ib_id j) ?f d) \<and> inbox k (set_job (ib_id j) ?f d) = inbox k d"
        by (rule repend_row[OF d j(1,2)]) (use False None in simp_all)
      then show ?thesis using False start r j(3) None fifo_same[of k] by (auto simp: recover_lease_def)
    qed
  qed
qed

lemma receipts_inv:
  assumes "iq_inv d" "(ch, mid) \<notin> (\<lambda>r. (rc_channel r, rc_message r)) ` set (iq_receipts d)" "jid \<in> ib_id ` set (iq_jobs d)"
  shows "iq_inv (d\<lparr>iq_receipts := iq_receipts d @ [\<lparr>rc_channel = ch, rc_message = mid, rc_job = jid\<rparr>]\<rparr>)"
  using assms unfolding iq_inv_def by auto

lemma slot_receipts [simp]: "slot st k (d\<lparr>iq_receipts := rs\<rparr>) = slot st k d"
  by (simp add: slot_def)

lemma has_receipt_iff: "has_receipt ch mid d \<longleftrightarrow> (ch, mid) \<in> (\<lambda>r. (rc_channel r, rc_message r)) ` set (iq_receipts d)"
  by (auto simp: has_receipt_def list_ex_iff)

lemma find_snoc: "find P (xs @ [x]) = (case find P xs of Some y \<Rightarrow> Some y | None \<Rightarrow> if P x then Some x else None)"
  by (induction xs) auto

lemma enqueue_step:
  assumes d: "iq_inv d" and i: "i \<notin> ib_id ` set (iq_jobs d)"
    and e: "enqueue_inbound_message i now ch sender mid text media profile d = (r, d')"
  shows "iq_inv d' \<and> inbox k d' = (if r = Inr True \<and> k = (ch, sender) then inbox k d @ [text] else inbox k d)"
proof (cases "ch \<in> set [''whatsapp'', ''instagram''] \<and> sender \<noteq> [] \<and> mid \<noteq> [] \<and> \<not> has_receipt ch mid d")
  case False
  then show ?thesis using e d by (auto simp: enqueue_inbound_message_def split: if_splits)
next
  case True
  then have new: "(ch, mid) \<notin> (\<lambda>r. (rc_channel r, rc_message r)) ` set (iq_receipts d)" by (simp add: has_receipt_iff)
  let ?add = "\<lambda>jid d1. d1\<lparr>iq_receipts := iq_receipts d1 @ [\<lparr>rc_channel = ch, rc_message = mid, rc_job = jid\<rparr>]\<rparr>"
  show ?thesis
  proof (cases "slot Pending (ch, sender) d")
    case (Some p)
    let ?f = "extend_job now text media profile"
    let ?d = "set_job (ib_id p) ?f d"
    from slot_SomeD[OF Some] have p: "p \<in> set (iq_jobs d)" "ib_status p = Pending" "job_key p = (ch, sender)" by blast+
    have "job_ok (?f p)" using iq_invD(2)[OF d p(1)] by (simp add: job_ok_def)
    then have i: "iq_inv ?d" by (intro set_job_inv[OF d p(1)]) simp_all
    have "ib_id p \<in> ib_id ` set (iq_jobs ?d)" unfolding set_set_job[OF d p(1)] by (simp add: extend_job_def)
    then have "iq_inv (?add (ib_id p) ?d)" using receipts_inv[OF i] new by simp
    moreover have "inbox k (?add (ib_id p) ?d) = (if k = (ch, sender) then inbox k d @ [text] else inbox k d)"
      using p Some by (auto simp: inbox_def set_job_slot[OF d p(1) _ i])
    moreover have "d' = ?add (ib_id p) ?d" "r = Inr True" using e True Some by (auto simp: enqueue_inbound_message_def Let_def)
    ultimately show ?thesis by simp
  next
    case None
    let ?j = "new_job i now ch sender text media profile"
    let ?d = "d\<lparr>iq_jobs := iq_jobs d @ [?j]\<rparr>"
    have key: "job_key ?j = (ch, sender)" "ib_id ?j = i" "ib_status ?j = Pending" "job_ok ?j" "ib_parts ?j = [text]"
      by (simp_all add: new_job_def job_key_def job_ok_def)
    have "iq_inv ?d" using d key i None[unfolded slot_None] unfolding iq_inv_def by auto
    then have "iq_inv (?add i ?d)" using receipts_inv[of ?d] new key(2) by simp
    moreover have "slot st k ?d = (if k = (ch, sender) \<and> st = Pending then Some ?j else slot st k d)" for st
      using None key by (auto simp: slot_def find_snoc split: option.split)
    then have "inbox k (?add i ?d) = (if k = (ch, sender) then inbox k d @ [text] else inbox k d)"
      using None key by (simp add: inbox_def)
    moreover have "d' = ?add i ?d" "r = Inr True" using e True None by (auto simp: enqueue_inbound_message_def Let_def)
    ultimately show ?thesis by simp
  qed
qed

lemma cleanup_step:
  assumes d: "iq_inv d"
  shows "iq_inv (cleanup_completed_inbound_jobs now days d) \<and> inbox k (cleanup_completed_inbound_jobs now days d) = inbox k d"
proof -
  let ?p = "\<lambda>j. ib_status j \<in> {Completed, Failed} \<and> ib_updated j < now - days * 86400"
  let ?d = "cleanup_completed_inbound_jobs now days d"
  have jobs: "iq_jobs ?d = del_where ?p (iq_jobs d)" by (simp add: cleanup_completed_inbound_jobs_def Let_def)
  have rc: "iq_receipts ?d = filter (\<lambda>r. rc_job r \<in> ib_id ` set (iq_jobs ?d)) (iq_receipts d)"
    by (simp add: cleanup_completed_inbound_jobs_def Let_def)
  have sub: "set (iq_jobs ?d) \<subseteq> set (iq_jobs d)" unfolding jobs by (auto simp: sql_simps)
  have "distinct (map ib_id (iq_jobs ?d))" unfolding jobs by (rule distinct_map_del_where[OF iq_invD(1)[OF d]])
  moreover have "rc_job ` set (iq_receipts ?d) \<subseteq> ib_id ` set (iq_jobs ?d)" unfolding rc by auto
  moreover have "distinct (map (\<lambda>r. (rc_channel r, rc_message r)) (iq_receipts ?d))"
    unfolding rc using d by (simp add: iq_inv_def distinct_map_filter)
  moreover have "\<forall>j \<in> set (iq_jobs ?d). \<forall>j' \<in> set (iq_jobs ?d). live (ib_status j) \<longrightarrow> ib_status j' = ib_status j
      \<longrightarrow> job_key j' = job_key j \<longrightarrow> j' = j"
    using iq_invD(3)[OF d] sub by blast
  moreover have "\<forall>j \<in> set (iq_jobs ?d). job_ok j" using iq_invD(2)[OF d] sub by blast
  ultimately have i: "iq_inv ?d" unfolding iq_inv_def by blast
  have "slot st k ?d = slot st k d" if "live st" for st
  proof (cases "slot st k d")
    case None
    then have "slot st k ?d = None" unfolding slot_None using sub by blast
    then show ?thesis using None by simp
  next
    case (Some j)
    then have "j \<in> set (iq_jobs ?d)" using slot_SomeD[OF Some] that unfolding jobs by (auto simp: sql_simps)
    then show ?thesis using slot_eq[OF i that] slot_SomeD[OF Some] Some by simp
  qed
  then show ?thesis using i by (simp add: inbox_def)
qed

section \<open>The protocol\<close>

definition iq_init :: "inbound_db \<Rightarrow> bool" where
  "iq_init d \<longleftrightarrow> iq_jobs d = [] \<and> iq_receipts d = []"

lemma istep_keeps: "istep d d' \<Longrightarrow> iq_inv d \<Longrightarrow> iq_inv d' \<and> fifo k d d'"
proof (induction rule: istep.induct)
  case (enqueue i now ch sender mid body media profile d r d')
  then show ?case using enqueue_step[OF enqueue(3,2,1), of k] by (auto simp: fifo_def split: if_splits)
next
  case (claim_due now tok d j d')
  then show ?case using claim_due_step[OF claim_due(3,1,2), of k] fifo_same[of k] by simp
next
  case (claim_sender now tok ch sender d j d')
  then show ?case using claim_sender_step[OF claim_sender(3,1,2), of k] fifo_same[of k] by simp
next
  case (beat d now jid tok)
  then show ?case using touch_step[OF beat, of "\<lambda>j. j\<lparr>ib_beat := Some now, ib_updated := now\<rparr>" jid tok k] fifo_same[of k]
    by (simp add: heartbeat_claimed_job_def)
next
  case (send_started now jid tok d b d')
  then show ?case
    using touch_step[OF send_started(2), of "\<lambda>j. j\<lparr>ib_out_started := coalesce (ib_out_started j) (Some now), ib_updated := now\<rparr>" jid tok k]
      fifo_same[of k] by (auto simp: mark_outbound_send_started_def split: if_splits)
next
  case (sent now jid tok response d r d')
  then show ?case
    using touch_step[OF sent(2), of "\<lambda>j. j\<lparr>ib_out_ids := dedupe (ib_out_ids j @ ids), ib_updated := now\<rparr>" jid tok k for ids]
      fifo_same[of k] by (auto simp: record_outbound_message_def split: sum.splits if_splits)
next
  case (complete now jid tok d b d')
  then show ?case using complete_step[OF complete(2), of now jid tok k] by simp
next
  case (requeue d job now err)
  then show ?case using requeue_step by blast
next
  case (recover now jid tok d b d')
  then show ?case using recover_step by blast
next
  case (cleanup d now days)
  then show ?case using cleanup_step[OF cleanup] fifo_same[of k] by simp
qed

interpretation inbound: protocol iq_init istep iq_inv
proof
  show "iq_init s \<Longrightarrow> iq_inv s" for s by (simp add: iq_init_def iq_inv_def)
  show "istep s t \<Longrightarrow> iq_inv s \<Longrightarrow> iq_inv t" for s t using istep_keeps by blast
qed

inductive_cases istep_elim: "istep d d'"

section \<open>How rows evolve\<close>

definition evolves :: "inbound_job \<Rightarrow> inbound_job \<Rightarrow> bool" where
  "evolves j j' \<longleftrightarrow> set (ib_out_ids j) \<subseteq> set (ib_out_ids j') \<and> (\<not> live (ib_status j) \<longrightarrow> ib_status j' = ib_status j)
     \<and> (ib_status j = Processing \<longrightarrow> ib_status j' = Processing \<longrightarrow> ib_token j' = ib_token j)"

definition rows_evolve :: "inbound_db \<Rightarrow> inbound_db \<Rightarrow> bool" where
  "rows_evolve d d' \<longleftrightarrow> (\<forall>j \<in> set (iq_jobs d). \<forall>j' \<in> set (iq_jobs d'). ib_id j' = ib_id j \<longrightarrow> evolves j j')"

lemma evolves_refl [simp]: "evolves j j"
  by (simp add: evolves_def)

lemma rows_evolve_subset: "iq_inv d \<Longrightarrow> set (iq_jobs d') \<subseteq> set (iq_jobs d) \<Longrightarrow> rows_evolve d d'"
  unfolding rows_evolve_def using same_id evolves_refl by (metis subsetD)

lemma rows_evolve_set_job:
  assumes "iq_inv d" "j0 \<in> set (iq_jobs d)" "evolves j0 (f j0)" "keeps_row f"
  shows "rows_evolve d (set_job (ib_id j0) f d)"
  unfolding rows_evolve_def set_set_job[OF assms(1,2)]
proof (intro ballI impI)
  fix j j' assume j: "j \<in> set (iq_jobs d)" "j' \<in> insert (f j0) (set (iq_jobs d) - {j0})" "ib_id j' = ib_id j"
  show "evolves j j'"
  proof (cases "j' = f j0")
    case True
    then have "j = j0" using same_id[OF assms(1,2) j(1)] j(3) keeps_rowD[OF assms(4)] by simp
    then show ?thesis using True assms(3) by simp
  next
    case False
    then have "j' = j" using j same_id[OF assms(1) j(1)] by blast
    then show ?thesis by simp
  qed
qed

lemma rows_evolve_merge:
  assumes d: "iq_inv d" "j \<in> set (iq_jobs d)" "ib_status j = Processing" and p: "slot Pending (job_key j) d = Some p"
  shows "rows_evolve d (set_job (ib_id j) (end_lease now Failed e) (set_job (ib_id p) (prepend_job now a j) d))"
proof -
  let ?d = "set_job (ib_id p) (prepend_job now a j) d"
  from slot_SomeD[OF p] have pr: "p \<in> set (iq_jobs d)" "ib_status p = Pending" by blast+
  have "job_ok (prepend_job now a j p)" using iq_invD(2)[OF d(1) pr(1)] by (simp add: job_ok_def)
  then have i: "iq_inv ?d" by (intro set_job_inv[OF d(1) pr(1)]) simp_all
  have jp: "j \<noteq> p" using d(3) pr(2) by auto
  then have j: "j \<in> set (iq_jobs ?d)" unfolding set_set_job[OF d(1) pr(1)] using d(2) by blast
  have 1: "rows_evolve d ?d" by (rule rows_evolve_set_job[OF d(1) pr(1)]) (simp_all add: evolves_def pr(2))
  have 2: "rows_evolve ?d (set_job (ib_id j) (end_lease now Failed e) ?d)"
    by (rule rows_evolve_set_job[OF i j]) (simp_all add: evolves_def d(3))
  show ?thesis unfolding rows_evolve_def
  proof (intro ballI impI)
    fix x y assume x: "x \<in> set (iq_jobs d)" "y \<in> set (iq_jobs (set_job (ib_id j) (end_lease now Failed e) ?d))" "ib_id y = ib_id x"
    show "evolves x y"
    proof (cases "x = p")
      case True
      have "ib_id y \<noteq> ib_id j" using x(3) True same_id[OF d(1) d(2) pr(1)] jp by auto
      then have "y \<in> set (iq_jobs ?d)" using x(2) keeps_rowD[OF keeps_rows(3)] unfolding set_set_job[OF i j] by auto
      then show ?thesis using 1 x unfolding rows_evolve_def by blast
    next
      case False
      then have "x \<in> set (iq_jobs ?d)" unfolding set_set_job[OF d(1) pr(1)] using x(1) by blast
      then show ?thesis using 2 x unfolding rows_evolve_def by blast
    qed
  qed
qed

lemma rows_evolve_leased:
  assumes d: "iq_inv d" and f: "keeps_row f" "\<And>j. ib_status j = Processing \<Longrightarrow> evolves j (f j)"
  shows "rows_evolve d (snd (update_leased jid tok f d))"
  using d
proof (cases rule: update_leased_cases[where jid = jid and tok = tok and f = f])
  case (2 j)
  then show ?thesis using rows_evolve_set_job[OF d 2(1) f(2) f(1)] leasedD[OF 2(2)] by simp
qed (use rows_evolve_subset[OF d] in simp)

lemma claim_evolves:
  assumes "iq_inv d" "\<And>j. candidate = Some j \<Longrightarrow> j \<in> set (iq_jobs d) \<and> ib_status j = Pending" "claim now tok candidate d = (r, d')"
  shows "rows_evolve d d'"
proof (cases candidate)
  case None
  then show ?thesis using assms rows_evolve_subset by (simp add: claim_def)
next
  case (Some j)
  then show ?thesis using assms(3) assms(2)[OF Some] rows_evolve_set_job[OF assms(1), of j "lease_job now tok"]
    by (auto simp: claim_def evolves_def)
qed

lemma rows_evolve_end:
  assumes "iq_inv d" "j \<in> set (iq_jobs d)" "ib_status j = Processing" "st \<noteq> Processing"
  shows "rows_evolve d (set_job (ib_id j) (end_lease now st er) d)"
    "rows_evolve d (set_job (ib_id j) (\<lambda>x. (end_lease now st er x)\<lparr>ib_available := g x\<rparr>) d)"
  by (rule rows_evolve_set_job[OF assms(1,2)]; use assms(3,4) in \<open>simp add: evolves_def\<close>)+

lemma rows_evolve_complete:
  "iq_inv d \<Longrightarrow> j \<in> set (iq_jobs d) \<Longrightarrow> ib_status j = Processing \<Longrightarrow>
   rows_evolve d (set_job (ib_id j) (complete_job now er) d)"
  by (rule rows_evolve_set_job) (simp_all add: evolves_def)

lemma requeue_evolves:
  assumes d: "iq_inv d" and key: "\<forall>j \<in> set (iq_jobs d). ib_id j = ib_id job \<longrightarrow> job_key j = job_key job"
  shows "rows_evolve d (requeue_failed_job now job err d)"
proof (cases "find (leased (ib_id job) (case ib_token job of Some t \<Rightarrow> t | None \<Rightarrow> [])) (iq_jobs d)")
  case None
  then show ?thesis using rows_evolve_subset[OF d] by (simp add: requeue_failed_job_def)
next
  case (Some j)
  from Some have j: "j \<in> set (iq_jobs d)" "ib_status j = Processing" "ib_id j = ib_id job"
    by (auto simp: find_Some_iff leased_def)
  then have kj: "(ib_channel job, ib_sender job) = job_key j" using key by (simp add: job_key_def)
  show ?thesis using Some rows_evolve_end[OF d j(1,2)] rows_evolve_merge[OF d j(1,2)] kj
    by (auto simp: requeue_failed_job_def Let_def split: option.split)
qed

lemma recover_evolves:
  assumes d: "iq_inv d" and r: "recover_lease now jid tok d = (b, d')"
  shows "rows_evolve d d'"
proof (cases "find (\<lambda>j. ib_id j = jid \<and> stale_lease now j \<and> ib_token j = tok) (iq_jobs d)")
  case None
  then show ?thesis using r rows_evolve_subset[OF d] by (simp add: recover_lease_def)
next
  case (Some j)
  from Some have j: "j \<in> set (iq_jobs d)" "ib_status j = Processing" "ib_id j = jid"
    by (auto simp: find_Some_iff stale_lease_def)
  show ?thesis using Some r rows_evolve_end[OF d j(1,2)] rows_evolve_complete[OF d j(1,2)] rows_evolve_merge[OF d j(1,2)] j(3)
    by (auto simp: recover_lease_def split: if_splits option.splits)
qed

lemma enqueue_evolves:
  assumes d: "iq_inv d" and i: "i \<notin> ib_id ` set (iq_jobs d)"
    and e: "enqueue_inbound_message i now ch sender mid text media profile d = (r, d')"
  shows "rows_evolve d d'"
proof (cases "slot Pending (ch, sender) d")
  case (Some p)
  from slot_SomeD[OF Some] have p: "p \<in> set (iq_jobs d)" "ib_status p = Pending" by blast+
  have "rows_evolve d (set_job (ib_id p) (extend_job now text media profile) d)"
    by (rule rows_evolve_set_job[OF d p(1)]) (simp_all add: evolves_def p(2))
  then show ?thesis using e Some rows_evolve_subset[OF d, of d]
    by (auto simp: enqueue_inbound_message_def Let_def rows_evolve_def split: if_splits)
next
  case None
  have "rows_evolve d (d\<lparr>iq_jobs := iq_jobs d @ [new_job i now ch sender text media profile]\<rparr>)"
    using rows_evolve_subset[OF d, of d] i by (auto simp: rows_evolve_def new_job_def)
  then show ?thesis using e None rows_evolve_subset[OF d, of d]
    by (auto simp: enqueue_inbound_message_def Let_def rows_evolve_def split: if_splits)
qed

lemma istep_evolves: "istep d d' \<Longrightarrow> iq_inv d \<Longrightarrow> rows_evolve d d'"
proof (induction rule: istep.induct)
  case (enqueue i now ch sender mid body media profile d r d')
  then show ?case by (intro enqueue_evolves)
next
  case (claim_due now tok d j d')
  show ?case by (rule claim_evolves[OF claim_due(3) _ claim_due(1)[unfolded claim_due_job_def]]) (auto dest: first_due_in)
next
  case (claim_sender now tok ch sender d j d')
  show ?case
  proof (cases "slot Processing (ch, sender) d")
    case None
    have "claim now tok (first_due (filter (\<lambda>j. job_key j = (ch, sender) \<and> ib_status j = Pending
        \<and> ib_available j \<le> now) (iq_jobs d))) d = (j, d')"
      using claim_sender(1) None by (simp add: claim_sender_job_def)
    then show ?thesis by (rule claim_evolves[OF claim_sender(3), rotated]) (auto dest!: first_due_in)
  qed (use claim_sender rows_evolve_subset in \<open>simp add: claim_sender_job_def\<close>)
next
  case (beat d now jid tok)
  then show ?case using rows_evolve_leased[OF beat, of "\<lambda>j. j\<lparr>ib_beat := Some now, ib_updated := now\<rparr>" jid tok]
    rows_evolve_subset[OF beat, of d] by (simp add: heartbeat_claimed_job_def evolves_def)
next
  case (send_started now jid tok d b d')
  then show ?case
    using rows_evolve_leased[OF send_started(2), of "\<lambda>j. j\<lparr>ib_out_started := coalesce (ib_out_started j) (Some now), ib_updated := now\<rparr>" jid tok]
      rows_evolve_subset[OF send_started(2), of d] by (auto simp: mark_outbound_send_started_def evolves_def split: if_splits)
next
  case (sent now jid tok response d r d')
  then show ?case
    using rows_evolve_leased[OF sent(2), of "\<lambda>j. j\<lparr>ib_out_ids := dedupe (ib_out_ids j @ ids), ib_updated := now\<rparr>" jid tok for ids]
      rows_evolve_subset[OF sent(2), of d] by (auto simp: record_outbound_message_def evolves_def split: sum.splits if_splits)
next
  case (complete now jid tok d b d')
  then show ?case using rows_evolve_leased[OF complete(2), of "complete_job now None" jid tok]
    by (simp add: complete_leased_def evolves_def)
next
  case (requeue d job now err)
  then show ?case using requeue_evolves by blast
next
  case (recover now jid tok d b d')
  then show ?case using recover_evolves by blast
next
  case (cleanup d now days)
  then show ?case using rows_evolve_subset by (auto simp: cleanup_completed_inbound_jobs_def Let_def sql_simps)
qed

section \<open>Properties\<close>

text \<open>C28. A sender's messages are handled in the order they arrived and none is skipped: in every
  reachable state, a step leaves the inbox of each sender as it is, appends one message, or takes
  away the leased batch, which is the front of it.\<close>

theorem inbox_fifo:
  assumes "reach iq_init istep d" "istep d d'"
  shows "inbox k d' = inbox k d \<or> (\<exists>text. inbox k d' = inbox k d @ [text])
    \<or> (\<exists>j. slot Processing k d = Some j \<and> inbox k d = ib_parts j @ inbox k d')"
  using istep_keeps[OF assms(2) inbound.reach_inv[OF assms(1)], of k] by (simp add: fifo_def)

text \<open>C31. The queue respects its indexes: in every reachable state a sender has at most one pending and
  at most one leased batch, a pending one has no lease and none of its replies was accepted.\<close>

theorem one_batch_per_sender:
  assumes "reach iq_init istep d" "j \<in> set (iq_jobs d)" "j' \<in> set (iq_jobs d)"
    and "ib_status j \<in> {Pending, Processing}" "ib_status j' = ib_status j"
    and "ib_channel j' = ib_channel j" "ib_sender j' = ib_sender j"
  shows "j' = j \<and> (ib_status j = Pending \<longrightarrow> ib_token j = None \<and> ib_out_ids j = [])"
  using iq_invD(2,3)[OF inbound.reach_inv[OF assms(1)], of j] assms(2-) by (auto simp: job_key_def job_ok_def)

text \<open>C29. Replies are not sent twice: once Meta accepted a message of a batch, the batch is never leased
  again, and a completed or failed batch stays so.\<close>

theorem accepted_never_leased_again:
  assumes "reach iq_init istep d" "istep d d'" "j \<in> set (iq_jobs d)" "j' \<in> set (iq_jobs d')" "ib_id j' = ib_id j"
  shows "(ib_status j \<in> {Completed, Failed} \<longrightarrow> ib_status j' = ib_status j)
    \<and> (ib_out_ids j \<noteq> [] \<longrightarrow> ib_status j' \<noteq> Pending
         \<and> (ib_status j' = Processing \<longrightarrow> ib_status j = Processing \<and> ib_token j' = ib_token j))"
proof -
  have i: "iq_inv d" by (rule inbound.reach_inv[OF assms(1)])
  then have i': "iq_inv d'" using istep_keeps[OF assms(2)] by blast
  have e: "evolves j j'" using istep_evolves[OF assms(2) i] assms(3-5) by (simp add: rows_evolve_def)
  have ok: "job_ok j" "job_ok j'" using iq_invD(2)[OF i assms(3)] iq_invD(2)[OF i' assms(4)] by simp_all
  show ?thesis using e ok by (cases "ib_status j") (auto simp: evolves_def job_ok_def)
qed

text \<open>C30. A worker whose lease was taken away can do no harm: it completes, requeues and records
  nothing, and it is refused before it sends anything.\<close>

theorem lost_lease_harmless:
  assumes "\<forall>j \<in> set (iq_jobs d). \<not> leased jid tok j" "jid \<noteq> []" "tok \<noteq> []"
  shows "complete_leased now jid tok d = (False, d) \<and> heartbeat_claimed_job now jid tok d = d
    \<and> snd (record_outbound_message now jid tok response d) = d
    \<and> (ib_id job = jid \<and> ib_token job = Some tok \<longrightarrow> requeue_failed_job now job err d = d)
    \<and> send_with_delivery_record now send jid tok d = (Inl (OtherFailure ''RuntimeError''), 0, d)"
proof -
  have u: "update_leased jid tok f d = (False, d)" for f
    using assms(1) upd_where_none[of "iq_jobs d" "leased jid tok" f] by (auto simp: update_leased_def list_ex_iff)
  have "find (leased jid tok) (iq_jobs d) = None" using assms(1) by (auto simp: find_None_iff)
  then show ?thesis using assms(2,3)
    by (simp add: u complete_leased_def heartbeat_claimed_job_def record_outbound_message_def requeue_failed_job_def
        send_with_delivery_record_def mark_outbound_send_started_def split: sum.split)
qed

lemma send_tries_calls:
  "send_tries send k = (res, n) \<Longrightarrow> k < max_meta_send_attempts \<Longrightarrow> k < n \<and> n \<le> max_meta_send_attempts
    \<and> (\<forall>i. k \<le> i \<and> i < n - 1 \<longrightarrow> send i = SendMeta True)
    \<and> (\<forall>r. res = Inr r \<longrightarrow> send (n - 1) = SendOk r)"
proof (induction send k arbitrary: res n rule: send_tries.induct)
  case (1 send k)
  show ?case
  proof (cases "send k")
    case (SendMeta retryable)
    show ?thesis
    proof (cases "\<not> retryable \<or> max_meta_send_attempts \<le> Suc k")
      case True
      then show ?thesis using "1.prems" SendMeta by auto
    next
      case False
      have "send_tries send (Suc k) = (res, n)" using "1.prems"(1) SendMeta False by simp
      from "1.IH"[OF SendMeta False this] False SendMeta show ?thesis
        by (auto simp: Suc_le_eq dest: le_neq_implies_less)
    qed
  qed (use "1.prems" in auto)
qed

text \<open>C32. A reply is attempted at most three times, again only after a failure that is known not to have
  reached Meta, and not at all without the lease.\<close>

theorem sends_bounded:
  assumes "send_with_delivery_record now send jid tok d = (res, n, d')"
  shows "n \<le> 3 \<and> (\<forall>i. Suc i < n \<longrightarrow> send i = SendMeta True) \<and> (\<forall>r. res = Inr r \<longrightarrow> 0 < n \<and> send (n - 1) = SendOk r)"
proof (cases "n = 0")
  case True
  have "send_tries send 0 = (r, m) \<Longrightarrow> 0 < m" for r m
    using send_tries_calls[of send 0 r m] by (simp add: max_meta_send_attempts_def)
  then show ?thesis using assms True
    by (force simp: send_with_delivery_record_def Let_def split: prod.splits sum.splits if_splits)
next
  case False
  then obtain r where t: "send_tries send 0 = (r, n)" "\<forall>x. res = Inr x \<longrightarrow> r = Inr x"
    using assms by (auto simp: send_with_delivery_record_def Let_def split: prod.splits sum.splits if_splits)
  then show ?thesis using send_tries_calls[OF t(1)] by (auto simp: max_meta_send_attempts_def)
qed

section \<open>Duplicates\<close>

lemma set_job_ids: "keeps_row f \<Longrightarrow> ib_id ` set (iq_jobs (set_job jid f d)) = ib_id ` set (iq_jobs d)"
  using map_key_upd_where[of "\<lambda>j. ib_id j = jid" ib_id f "iq_jobs d"] keeps_rowD
  by (metis list.set_map set_job_sel(1))

lemma update_leased_receipts [simp]: "iq_receipts (snd (update_leased jid tok f d)) = iq_receipts d"
  by (simp add: update_leased_def)

text \<open>A message is accepted once: a delivery whose id has a receipt changes nothing and is answered
  as a duplicate, an accepted one leaves a receipt and its text at the end of the inbox, and receipts
  go only with the batches the clean-up deletes.\<close>

theorem message_accepted_once:
  assumes "iq_inv d" "i \<notin> ib_id ` set (iq_jobs d)"
    and e: "enqueue_inbound_message i now ch sender mid text media profile d = (r, d')"
  shows "(has_receipt ch mid d \<longrightarrow> r \<noteq> Inr True \<and> d' = d)
    \<and> (r = Inr True \<longrightarrow> has_receipt ch mid d' \<and> inbox (ch, sender) d' = inbox (ch, sender) d @ [text])
    \<and> (r \<noteq> Inr True \<longrightarrow> d' = d)
    \<and> (\<forall>d2. istep d' d2 \<longrightarrow> has_receipt ch mid d' \<longrightarrow> has_receipt ch mid d2
          \<or> (\<exists>now days. d2 = cleanup_completed_inbound_jobs now days d'))"
proof -
  have "has_receipt ch mid d2 \<or> (\<exists>now days. d2 = cleanup_completed_inbound_jobs now days d')"
    if s: "istep d' d2" and h: "has_receipt ch mid d'" for d2
  proof -
    have "set (iq_receipts d') \<subseteq> set (iq_receipts d2) \<or> (\<exists>now days. d2 = cleanup_completed_inbound_jobs now days d')"
      using s
    proof (cases rule: istep.cases)
      case (enqueue i now ch sender mid body media profile r)
      then show ?thesis by (auto simp: enqueue_inbound_message_def Let_def split: if_splits option.splits)
    next
      case (sent now jid tok response r)
      then show ?thesis by (auto simp: record_outbound_message_def split: sum.splits if_splits)
    next
      case (send_started now jid tok b)
      then show ?thesis by (auto simp: mark_outbound_send_started_def update_leased_def split: if_splits)
    next
      case (claim_sender now tok ch sender j)
      then show ?thesis by (auto simp: claim_sender_job_def claim_def split: if_splits option.splits)
    next
      case (claim_due now tok j)
      then show ?thesis by (auto simp: claim_due_job_def claim_def split: option.splits)
    next
      case (recover now jid tok b)
      then show ?thesis by (auto simp: recover_lease_def split: if_splits option.splits)
    next
      case (complete now jid tok b)
      then show ?thesis by (auto simp: complete_leased_def update_leased_def)
    next
      case (requeue job now err)
      then show ?thesis by (auto simp: requeue_failed_job_def Let_def split: option.split)
    qed (auto simp: heartbeat_claimed_job_def)
    then show ?thesis using h by (auto simp: has_receipt_iff)
  qed
  moreover have "has_receipt ch mid d \<longrightarrow> r \<noteq> Inr True \<and> d' = d" "r \<noteq> Inr True \<longrightarrow> d' = d"
    using e by (auto simp: enqueue_inbound_message_def Let_def split: if_splits option.splits prod.splits)
  moreover have "r = Inr True \<longrightarrow> has_receipt ch mid d'"
    using e by (auto simp: enqueue_inbound_message_def Let_def has_receipt_iff split: if_splits option.splits)
  ultimately show ?thesis using enqueue_step[OF assms(1,2) e, of "(ch, sender)"] by auto
qed

section \<open>A concrete queue\<close>

definition iq0 :: inbound_db where "iq0 = \<lparr>iq_jobs = [], iq_receipts = []\<rparr>"

definition iq1 :: inbound_db where
  "iq1 = snd (enqueue_inbound_message ''1'' 0 ''whatsapp'' ''u'' ''m1'' ''hola'' None [] iq0)"

definition iq2 :: inbound_db where "iq2 = snd (claim_due_job 20 ''t'' iq1)"

definition iq3 :: inbound_db where
  "iq3 = snd (record_outbound_message 21 ''1'' ''t'' [(''message_id'', JVal (PStr ''w1''))]
     (snd (mark_outbound_send_started 21 ''1'' ''t'' iq2)))"

lemma iq_reach: "reach iq_init istep iq1" "reach iq_init istep iq2" "reach iq_init istep iq3"
proof -
  have 0: "reach iq_init istep iq0" by (rule reach_init) (simp add: iq_init_def iq0_def)
  have "istep iq0 iq1" unfolding iq1_def by (rule enqueue[OF prod.collapse[symmetric]]) (simp add: iq0_def)
  with 0 show 1: "reach iq_init istep iq1" by (rule reach_step)
  have "istep iq1 iq2" unfolding iq2_def by (rule claim_due[OF prod.collapse[symmetric]]) simp
  with 1 show 2: "reach iq_init istep iq2" by (rule reach_step)
  have "istep iq2 (snd (mark_outbound_send_started 21 ''1'' ''t'' iq2))" by (rule send_started[OF prod.collapse[symmetric]])
  with 2 have "reach iq_init istep (snd (mark_outbound_send_started 21 ''1'' ''t'' iq2))" by (rule reach_step)
  moreover have "istep (snd (mark_outbound_send_started 21 ''1'' ''t'' iq2)) iq3"
    unfolding iq3_def by (rule sent[OF prod.collapse[symmetric]])
  ultimately show "reach iq_init istep iq3" by (rule reach_step)
qed

lemma iq_step: "istep iq3 (snd (complete_leased 22 ''1'' ''t'' iq3))"
  by (rule complete[OF prod.collapse[symmetric]])

theorem inbox_fifo_witness:
  "inbox (''whatsapp'', ''u'') iq3 = [''hola''] \<and> inbox (''whatsapp'', ''u'') (snd (complete_leased 22 ''1'' ''t'' iq3)) \<in> {[], [''hola'']}"
proof -
  have "inbox (''whatsapp'', ''u'') iq3 = [''hola'']" by code_simp
  moreover have "inbox (''whatsapp'', ''u'') (snd (complete_leased 22 ''1'' ''t'' iq3)) = []" by code_simp
  ultimately show ?thesis using inbox_fifo[OF iq_reach(3) iq_step, of "(''whatsapp'', ''u'')"] by simp
qed

theorem one_batch_per_sender_witness:
  "\<exists>j. iq_jobs iq1 = [j] \<and> ib_status j = Pending \<and> ib_token j = None \<and> ib_out_ids j = []"
proof -
  have "case iq_jobs iq1 of [j] \<Rightarrow> ib_status j = Pending | _ \<Rightarrow> False" by code_simp
  then obtain j where j: "iq_jobs iq1 = [j]" "ib_status j = Pending" by (auto split: list.splits)
  then show ?thesis using one_batch_per_sender[OF iq_reach(1), of j j] by simp
qed

theorem accepted_never_leased_again_witness:
  "\<exists>j j'. iq_jobs iq3 = [j] \<and> ib_out_ids j \<noteq> [] \<and> iq_jobs (snd (complete_leased 22 ''1'' ''t'' iq3)) = [j'] \<and> ib_status j' \<noteq> Pending"
proof -
  have "case iq_jobs iq3 of [j] \<Rightarrow> ib_id j = ''1'' \<and> ib_out_ids j \<noteq> [] | _ \<Rightarrow> False" by code_simp
  then obtain j where j: "iq_jobs iq3 = [j]" "ib_id j = ''1''" "ib_out_ids j \<noteq> []" by (auto split: list.splits)
  have "case iq_jobs (snd (complete_leased 22 ''1'' ''t'' iq3)) of [j] \<Rightarrow> ib_id j = ''1'' | _ \<Rightarrow> False" by code_simp
  then obtain j' where j': "iq_jobs (snd (complete_leased 22 ''1'' ''t'' iq3)) = [j']" "ib_id j' = ''1''" by (auto split: list.splits)
  have "j \<in> set (iq_jobs iq3)" "j' \<in> set (iq_jobs (snd (complete_leased 22 ''1'' ''t'' iq3)))" "ib_id j' = ib_id j"
    using j(1,2) j' by simp_all
  from accepted_never_leased_again[OF iq_reach(3) iq_step this] j(3) have "ib_status j' \<noteq> Pending" by blast
  then show ?thesis using j(1,3) j'(1) by blast
qed

theorem lost_lease_harmless_witness:
  "complete_leased 30 ''1'' ''old'' iq2 = (False, iq2)"
proof -
  have "\<not> list_ex (leased ''1'' ''old'') (iq_jobs iq2)" by code_simp
  then have "\<forall>j \<in> set (iq_jobs iq2). \<not> leased ''1'' ''old'' j" by (simp add: list_ex_iff)
  from lost_lease_harmless[OF this] show ?thesis by simp
qed

theorem sends_bounded_witness:
  "fst (snd (send_with_delivery_record 21 (\<lambda>_. SendMeta True) ''1'' ''t'' iq2)) = 3"
proof -
  let ?r = "send_with_delivery_record 21 (\<lambda>_. SendMeta True) ''1'' ''t'' iq2"
  have "3 \<le> fst (snd ?r)" by code_simp
  moreover have "?r = (fst ?r, fst (snd ?r), snd (snd ?r))" by simp
  moreover from this have "fst (snd ?r) \<le> 3" using sends_bounded by blast
  ultimately show ?thesis by simp
qed

theorem message_accepted_once_witness:
  "enqueue_inbound_message ''2'' 5 ''whatsapp'' ''u'' ''m1'' ''otra'' None [] iq1 = (Inr False, iq1)"
proof -
  let ?r = "enqueue_inbound_message ''2'' 5 ''whatsapp'' ''u'' ''m1'' ''otra'' None [] iq1"
  have i: "''2'' \<notin> ib_id ` set (iq_jobs iq1)" by code_simp
  have h: "has_receipt ''whatsapp'' ''m1'' iq1" by code_simp
  have f: "fst ?r = Inr False" using h by (simp add: enqueue_inbound_message_def)
  have "snd ?r = iq1" using message_accepted_once[OF inbound.reach_inv[OF iq_reach(1)] i prod.collapse[symmetric]] h by blast
  then show ?thesis using f by (simp add: prod_eq_iff)
qed

text \<open>A send that failed safely spoils the next attempt: the batch goes back to the queue with its
  send mark, so when the next lease fails before it sends anything (here while the reply is being
  generated) the batch is given up as possibly delivered, in its second of five attempts.\<close>

theorem safe_failure_spoils_retry:
  "let d3 = snd (mark_outbound_send_started 21 ''1'' ''t'' iq2);
       job = hd (iq_jobs d3);
       d4 = requeue_failed_job 22 job (MetaFailure True) d3;
       (j, d5) = claim_due_job 60 ''t2'' d4;
       d6 = (case j of Some job2 \<Rightarrow> requeue_failed_job 61 job2 (OtherFailure ''TimeoutError'') d5 | None \<Rightarrow> d5)
   in map ib_status (iq_jobs d4) = [Pending] \<and> map ib_out_ids (iq_jobs d5) = [[]]
      \<and> map (\<lambda>j. (ib_status j, ib_attempts j, ib_error j)) (iq_jobs d6)
        = [(Failed, 2, Some ''delivery_unknown_after_send_attempt'')]"
  by code_simp

end
