(* ===== verification/Conversations.thy ===== *)
theory Conversations
  imports Prelude
begin

text \<open>
  Conversation history, \<open>store/app/crm/conversations.py\<close>: messages are stored with normalised
  attachments, read back as the chronological window a model is prompted with, and prepared so that
  user and assistant turns alternate.
\<close>

section \<open>Messages\<close>

definition private_message_scope :: string where "private_message_scope = ''private_message''"
definition instagram_comment_scope :: string where "instagram_comment_scope = ''instagram_comment''"

type_synonym attachment = "(string \<times> string) list"

record message =
  cm_customer :: string
  cm_role :: string
  cm_content :: string
  cm_channel :: string
  cm_scope :: string
  cm_media :: "string option"
  cm_attachments :: "attachment list option"
  cm_calls :: "string option"
  cm_source :: "string option"
  cm_created :: int

definition normalize_interaction_type :: "string option \<Rightarrow> py_exc + string" where
  "normalize_interaction_type v =
     (let t = py_lower (py_strip (case v of Some s \<Rightarrow> if s \<noteq> [] then s else private_message_scope
                                  | None \<Rightarrow> private_message_scope)) in
      if t \<in> set [private_message_scope, instagram_comment_scope] then Inr t
      else Inl (ValueError ''Unsupported conversation interaction type''))"

definition attachment_fields :: "string \<Rightarrow> string list option" where
  "attachment_fields t =
     (if t = ''product_image'' then Some [''product_name'', ''sku'']
      else if t = ''catalog_pdf'' then Some [''filename'', ''catalog_fingerprint''] else None)"

definition clean_field :: "(string \<times> json) list \<Rightarrow> string \<Rightarrow> attachment" where
  "clean_field d f = (case jget d f of
      JVal (PStr s) \<Rightarrow> if py_strip s \<noteq> [] then [(f, py_strip s)] else []
    | _ \<Rightarrow> [])"

definition normalize_attachment :: "json \<Rightarrow> py_exc + attachment" where
  "normalize_attachment a = (case a of
      JObj d _ \<Rightarrow>
        (case jget d ''type'' of
           JVal (PStr t) \<Rightarrow>
             (case attachment_fields t of
                Some fs \<Rightarrow> Inr ((''type'', t) # concat (map (clean_field d) fs))
              | None \<Rightarrow> Inl (ValueError ''Unsupported semantic conversation attachment type''))
         | JVal _ \<Rightarrow> Inl (ValueError ''Unsupported semantic conversation attachment type'')
         | _ \<Rightarrow> Inl (TypeError ''unhashable type''))
    | _ \<Rightarrow> Inl (ValueError ''Conversation attachments must contain objects''))"

fun normalize_attachment_list :: "json list \<Rightarrow> py_exc + attachment list" where
  "normalize_attachment_list [] = Inr []"
| "normalize_attachment_list (a # as) =
     (case normalize_attachment a of
        Inl e \<Rightarrow> Inl e
      | Inr x \<Rightarrow> (case normalize_attachment_list as of Inl e \<Rightarrow> Inl e | Inr xs \<Rightarrow> Inr (x # xs)))"

definition normalize_semantic_attachments :: "json \<Rightarrow> py_exc + attachment list option" where
  "normalize_semantic_attachments v = (case v of
      JVal PNone \<Rightarrow> Inr None
    | JList as _ \<Rightarrow> map_sum id Some (normalize_attachment_list as)
    | _ \<Rightarrow> Inl (ValueError ''Conversation attachments must be a list''))"

text \<open>\<open>INSERT ... ON CONFLICT (channel, role, source_id) WHERE source_id IS NOT NULL DO NOTHING\<close>.\<close>

definition store_message ::
  "int \<Rightarrow> string \<Rightarrow> string \<Rightarrow> string \<Rightarrow> string \<Rightarrow> string option \<Rightarrow> string option \<Rightarrow> string option \<Rightarrow> json
   \<Rightarrow> string option \<Rightarrow> message list \<Rightarrow> (py_exc + unit) \<times> message list" where
  "store_message now cid role content channel media calls source attachments scope t =
     (case normalize_semantic_attachments attachments of
        Inl e \<Rightarrow> (Inl e, t)
      | Inr att \<Rightarrow>
     (case normalize_interaction_type scope of
        Inl e \<Rightarrow> (Inl e, t)
      | Inr sc \<Rightarrow>
          (if source \<noteq> None \<and> list_ex (\<lambda>m. cm_channel m = channel \<and> cm_role m = role \<and> cm_source m = source) t
           then (Inr (), t)
           else (Inr (), t @ [\<lparr>cm_customer = cid, cm_role = role, cm_content = content, cm_channel = channel,
                  cm_scope = sc, cm_media = media, cm_attachments = att, cm_calls = calls,
                  cm_source = source, cm_created = now\<rparr>]))))"

section \<open>Reading\<close>

text \<open>\<open>ORDER BY created_at DESC LIMIT n\<close>; rows of one second are ordered latest insertion first, which
  SQL leaves open.\<close>

definition recent_rows :: "string \<Rightarrow> string \<Rightarrow> nat \<Rightarrow> message list \<Rightarrow> message list" where
  "recent_rows cid scope limit t =
     take limit (sort_key (\<lambda>m. - cm_created m) (rev (filter (\<lambda>m. cm_customer m = cid \<and> cm_scope m = scope) t)))"

definition safe_context_value :: "string option \<Rightarrow> string" where
  "safe_context_value v = (case v of None \<Rightarrow> []
     | Some s \<Rightarrow> take 160 (map (\<lambda>c. if c = CHR 0x22 then CHR 0x27 else c) (py_strip (sub_runs py_space '' '' s))))"

definition image_detail :: "attachment \<Rightarrow> string" where
  "image_detail a =
     (let name = safe_context_value (map_of a ''product_name''); sku = safe_context_value (map_of a ''sku'') in
      if name \<noteq> [] \<and> sku \<noteq> [] then '' del producto '' @ [CHR 0x22] @ name @ [CHR 0x22] @ '', SKU '' @ sku
      else if name \<noteq> [] then '' del producto '' @ [CHR 0x22] @ name @ [CHR 0x22]
      else '' del producto'')"

definition annotation :: "attachment \<Rightarrow> string list" where
  "annotation a =
     (if map_of a ''type'' = Some ''product_image''
      then [''[Contexto de entrega: Eva tambi'' @ [CHR 0xE9] @ ''n envi'' @ [CHR 0xF3] @ '' una imagen'' @ image_detail a @ ''.]'']
      else if map_of a ''type'' = Some ''catalog_pdf''
      then [''[Contexto de entrega: Eva envi'' @ [CHR 0xF3] @ '' el cat'' @ [CHR 0xE1] @ ''logo PDF actualizado.]''] else [])"

definition newline :: string where "newline = [CHR 0x0A]"

definition content_with_delivery_context :: "string \<Rightarrow> attachment list \<Rightarrow> string" where
  "content_with_delivery_context content as =
     (let annotations = concat (map annotation as); txt = join_with newline annotations in
      if annotations = [] then content
      else if content \<noteq> [] then content @ newline @ newline @ txt else txt)"

type_synonym turn = "string \<times> string"

definition history_turn :: "message \<Rightarrow> turn" where
  "history_turn m = (cm_role m,
     if cm_role m = ''assistant''
     then content_with_delivery_context (cm_content m) (case cm_attachments m of None \<Rightarrow> [] | Some as \<Rightarrow> as)
     else cm_content m)"

definition get_history :: "string \<Rightarrow> nat \<Rightarrow> string option \<Rightarrow> message list \<Rightarrow> py_exc + turn list" where
  "get_history cid limit scope t =
     map_sum id (\<lambda>sc. map history_turn (rev (recent_rows cid sc limit t))) (normalize_interaction_type scope)"

definition summary_line :: "message \<Rightarrow> string" where
  "summary_line m = ''['' @ (if cm_role m = ''user'' then ''Cliente'' else ''Eva'') @ '']: '' @ cm_content m"

definition get_recent_summary :: "string \<Rightarrow> nat \<Rightarrow> string option \<Rightarrow> message list \<Rightarrow> py_exc + string" where
  "get_recent_summary cid limit scope t =
     map_sum id (\<lambda>sc. case map summary_line (rev (recent_rows cid sc limit t)) of
                        [] \<Rightarrow> ''(Sin mensajes previos)'' | ls \<Rightarrow> join_with newline ls) (normalize_interaction_type scope)"

section \<open>Preparing a prompt\<close>

text \<open>The loop, with the prepared turns newest first: a first turn must be the user's, and a turn of the
  same role as the last one replaces it.\<close>

fun prepare_from :: "turn list \<Rightarrow> turn list \<Rightarrow> turn list" where
  "prepare_from acc [] = acc"
| "prepare_from acc ((role, content) # ms) =
     (if role \<notin> set [''user'', ''assistant''] \<or> content = [] then prepare_from acc ms
      else (case acc of
              [] \<Rightarrow> prepare_from (if role = ''user'' then [(role, content)] else []) ms
            | (r, c) # rest \<Rightarrow>
                prepare_from (if r = role then (role, content) # rest else (role, content) # acc) ms))"

definition prepare_history_for_generation :: "turn list \<Rightarrow> string option \<Rightarrow> turn list" where
  "prepare_history_for_generation history latest =
     (let prepared = prepare_from [] history in
      rev (case latest of None \<Rightarrow> prepared
           | Some m \<Rightarrow> (''user'', m) # dropWhile (\<lambda>(r, _). r = ''user'') prepared))"

section \<open>Clearing\<close>

definition clear_history :: "string \<Rightarrow> message list \<Rightarrow> message list" where
  "clear_history cid t = del_where (\<lambda>m. cm_customer m = cid) t"

definition clear_history_for_customers :: "string list \<Rightarrow> message list \<Rightarrow> message list" where
  "clear_history_for_customers cids t =
     foldl (\<lambda>u cid. clear_history cid u) t (filter (\<lambda>c. c \<noteq> []) (dedupe cids))"

section \<open>Prompts alternate\<close>

fun alternates :: "string \<Rightarrow> turn list \<Rightarrow> bool" where
  "alternates r [] = True"
| "alternates r ((role, content) # ms) = (role = r \<and> alternates (if r = ''user'' then ''assistant'' else ''user'') ms)"

definition other_role :: "string \<Rightarrow> string" where
  "other_role r = (if r = ''user'' then ''assistant'' else ''user'')"

text \<open>The same read from the newest turn: the oldest one is the user's and neighbours differ.\<close>

fun turns_ok :: "turn list \<Rightarrow> bool" where
  "turns_ok [] = True"
| "turns_ok [(r, c)] = (r = ''user'')"
| "turns_ok ((r, c) # (r', c') # ms) = (r = other_role r' \<and> r \<in> set [''user'', ''assistant''] \<and> turns_ok ((r', c') # ms))"

lemma turns_roles: "turns_ok ((r, c) # ms) \<Longrightarrow> r = ''user'' \<or> r = ''assistant''"
  by (cases ms rule: turns_ok.cases) (auto simp: other_role_def)

lemma turns_replace: "turns_ok ((r, c) # ms) \<Longrightarrow> turns_ok ((r, c') # ms)"
  by (cases ms) auto

lemma turns_tail: "turns_ok (m # ms) \<Longrightarrow> turns_ok ms"
  by (cases m; cases ms) auto

lemma prepare_from_ok: "turns_ok acc \<Longrightarrow> turns_ok (prepare_from acc ms)"
proof (induction acc ms rule: prepare_from.induct)
  case (2 acc role content ms)
  show ?case
  proof (cases "role \<notin> set [''user'', ''assistant''] \<or> content = []")
    case True
    then show ?thesis using 2 by simp
  next
    case False
    show ?thesis
    proof (cases acc)
      case Nil
      then show ?thesis using 2 False by simp
    next
      case (Cons a rest)
      obtain r c where a: "a = (r, c)" by fastforce
      show ?thesis
      proof (cases "r = role")
        case True
        then have "turns_ok ((role, content) # rest)" using 2(4) Cons a turns_replace by blast
        then show ?thesis using 2(3)[OF False Cons[unfolded a] refl] True Cons a False by simp
      next
        case r: False
        have "role = other_role r" using turns_roles 2(4) Cons a False r by (fastforce simp: other_role_def)
        then have "turns_ok ((role, content) # acc)" using 2(4) Cons a False by auto
        then show ?thesis using 2(3)[OF False Cons[unfolded a] refl] r Cons a False by simp
      qed
    qed
  qed
qed simp

lemma alternates_snoc:
  "alternates r (xs @ [(role, c)]) = (alternates r xs \<and> role = (if even (length xs) then r
      else if r = ''user'' then ''assistant'' else ''user''))"
  if "r = ''user'' \<or> r = ''assistant''"
  using that by (induction r xs rule: alternates.induct) auto

lemma turns_parity: "turns_ok ((r, c) # ms) \<Longrightarrow> r = (if even (length ms) then ''user'' else ''assistant'')"
proof (induction ms arbitrary: r c)
  case (Cons m ms)
  obtain r' c' where m: "m = (r', c')" by fastforce
  have "r' = (if even (length ms) then ''user'' else ''assistant'')"
    using Cons.IH[of r' c'] Cons.prems m turns_tail by blast
  then show ?case using Cons.prems m by (auto simp: other_role_def)
qed simp

lemma alternates_rev: "turns_ok ms \<Longrightarrow> alternates ''user'' (rev ms)"
proof (induction ms)
  case (Cons m ms)
  obtain r c where m: "m = (r, c)" by fastforce
  show ?case using Cons.IH turns_tail[OF Cons.prems] turns_parity[OF Cons.prems[unfolded m]] m
    by (simp add: alternates_snoc)
qed simp

lemma prepare_from_set: "set (prepare_from acc ms) \<subseteq> set acc \<union> {m \<in> set ms. snd m \<noteq> []}"
proof (induction ms arbitrary: acc)
  case (Cons m ms)
  obtain role content where m: "m = (role, content)" by fastforce
  have step: "\<exists>acc'. prepare_from acc (m # ms) = prepare_from acc' ms
      \<and> set acc' \<subseteq> set acc \<union> (if content = [] then {} else {m})"
    by (cases acc) (auto simp: m split: prod.split)
  then show ?case using Cons.IH m by (fastforce split: if_splits)
qed simp

lemma turns_dropWhile: "turns_ok ms \<Longrightarrow> turns_ok (dropWhile P ms)"
  by (induction ms) (auto dest: turns_tail)

lemma turns_push_user:
  assumes "turns_ok ms"
  shows "turns_ok ((''user'', c) # dropWhile (\<lambda>(r, _). r = ''user'') ms)"
proof (cases "dropWhile (\<lambda>(r, _). r = ''user'') ms")
  case (Cons m rest)
  obtain r d where m: "m = (r, d)" by fastforce
  have ok: "turns_ok ((r, d) # rest)" using turns_dropWhile[OF assms] Cons m by metis
  have "r \<noteq> ''user''" using hd_dropWhile[of "\<lambda>(r, _). r = ''user''" ms] Cons m by auto
  then show ?thesis using turns_roles[OF ok] ok Cons m by (simp add: other_role_def)
next
  case Nil
  show ?thesis by (simp only: Nil turns_ok.simps)
qed

text \<open>Whatever rows a conversation holds, the history prepared for a model starts with the
  customer, alternates between the two sides, ends with the message being answered, and has no turn
  that is neither a stored non-empty message nor that message.\<close>

theorem prompt_alternates:
  "alternates ''user'' (prepare_history_for_generation history latest)
   \<and> (\<forall>m. latest = Some m \<longrightarrow> (\<exists>earlier. prepare_history_for_generation history latest = earlier @ [(''user'', m)]))
   \<and> set (prepare_history_for_generation history latest)
      \<subseteq> {t \<in> set history. snd t \<noteq> []} \<union> (case latest of None \<Rightarrow> {} | Some m \<Rightarrow> {(''user'', m)})"
proof -
  have ok: "turns_ok (prepare_from [] history)" by (rule prepare_from_ok) simp
  have sub: "set (prepare_from [] history) \<subseteq> {t \<in> set history. snd t \<noteq> []}"
    using prepare_from_set[of "[]" history] by simp
  show ?thesis
  proof (cases latest)
    case None
    then show ?thesis using alternates_rev[OF ok] sub by (simp add: prepare_history_for_generation_def)
  next
    case (Some m)
    then show ?thesis using alternates_rev[OF turns_push_user[OF ok, of m]] sub
      by (auto simp: prepare_history_for_generation_def dest: set_dropWhileD)
  qed
qed

theorem prompt_alternates_witness:
  "prepare_history_for_generation
     [(''assistant'', ''a''), (''user'', ''b''), (''user'', ''c''), (''assistant'', ''d''), (''user'', ''e'')] (Some ''f'')
     = [(''user'', ''c''), (''assistant'', ''d''), (''user'', ''f'')]
   \<and> (\<exists>earlier. prepare_history_for_generation
     [(''assistant'', ''a''), (''user'', ''b''), (''user'', ''c''), (''assistant'', ''d''), (''user'', ''e'')] (Some ''f'')
     = earlier @ [(''user'', ''f'')])"
  using prompt_alternates[of "[(''assistant'', ''a''), (''user'', ''b''), (''user'', ''c''), (''assistant'', ''d''), (''user'', ''e'')]" "Some ''f''"]
  by (simp add: prepare_history_for_generation_def)

end
