(* ===== verification/Sessions.thy ===== *)
theory Sessions
  imports Customers
begin

text \<open>
  Workflow sessions, \<open>store/app/crm/sessions.py\<close>: the checkout draft a model fills in piece by
  piece, the session row of a customer with its active agent and stage, and the short-lived context
  of an Instagram story. The row lock makes each operation one step on the table; foreign keys are
  not modelled. A JSON column is the value it encodes. The models of the validation library accept a
  dictionary, run the validators of the fields it holds and refuse the whole value when one of them
  refuses, which is what the \<open>validate_\<close> functions do (\<open>None\<close> is the refusal).
\<close>

section \<open>Checkout drafts\<close>

definition valid_active_agents :: "string list" where
  "valid_active_agents = [''legacy'', ''sales'', ''checkout'', ''payment'', ''support'']"

definition valid_workflow_stages :: "string list" where
  "valid_workflow_stages = [''idle'', ''sales'', ''checkout_collecting'', ''checkout_ready'',
     ''waiting_for_payment'', ''support'', ''completed'', ''cancelled'']"

definition valid_shipping_methods :: "string list" where
  "valid_shipping_methods = [''mrw'', ''zoom'']"

definition valid_fulfillment_types :: "string list" where
  "valid_fulfillment_types = [''home_delivery'', ''courier_agency_pickup'']"

record draft_item =
  di_query :: "string option"
  di_sku :: "string option"
  di_parent :: "string option"
  di_name :: "string option"
  di_canonical :: "string option"
  di_size :: "string option"
  di_quantity :: "int option"

record checkout_draft =
  dr_items :: "draft_item list"
  dr_method :: "string option"
  dr_city :: "string option"
  dr_address :: "string option"
  dr_fulfillment :: "string option"
  dr_zone :: "string option"
  dr_agency :: "string option"
  dr_payment :: "string option"

definition or_none :: "string \<Rightarrow> string option" where
  "or_none t = (if t = [] then None else Some t)"

definition clean_text :: "json \<Rightarrow> string option" where
  "clean_text v = or_none (py_strip (j_str_or_empty v))"

definition clean_size :: "json \<Rightarrow> string option" where
  "clean_size v = or_none (py_upper (py_strip (j_str_or_empty v)))"

definition clean_quantity :: "json \<Rightarrow> int option" where
  "clean_quantity v = (case v of
      JVal p \<Rightarrow> (case py_int p of Inl _ \<Rightarrow> None | Inr q \<Rightarrow> if 0 < q then Some q else None)
    | _ \<Rightarrow> None)"

definition clean_choice :: "string list \<Rightarrow> json \<Rightarrow> string option" where
  "clean_choice choices v =
     (let t = py_lower (py_strip (j_str_or_empty v)) in if t \<in> set choices then Some t else None)"

definition validate_item :: "json \<Rightarrow> draft_item option" where
  "validate_item v = (case v of
      JObj d _ \<Rightarrow> Some \<lparr>di_query = clean_text (jget d ''product_query''), di_sku = clean_text (jget d ''sku''),
        di_parent = clean_text (jget d ''parent_sku''), di_name = clean_text (jget d ''product_name''),
        di_canonical = clean_text (jget d ''canonical_sku''), di_size = clean_size (jget d ''size''),
        di_quantity = clean_quantity (jget d ''quantity'')\<rparr>
    | _ \<Rightarrow> None)"

definition clean_items :: "json \<Rightarrow> json list" where
  "clean_items v = (case v of JList xs _ \<Rightarrow> xs | _ \<Rightarrow> [])"

definition validate_draft :: "(string \<times> json) list \<Rightarrow> checkout_draft option" where
  "validate_draft d = map_option (\<lambda>items.
      \<lparr>dr_items = items, dr_method = clean_choice valid_shipping_methods (jget d ''shipping_method''),
       dr_city = clean_text (jget d ''shipping_city''), dr_address = clean_text (jget d ''shipping_address''),
       dr_fulfillment = clean_choice valid_fulfillment_types (jget d ''fulfillment_type''),
       dr_zone = clean_text (jget d ''shipping_zone''), dr_agency = clean_text (jget d ''pickup_agency''),
       dr_payment = clean_text (jget d ''payment_method'')\<rparr>)
     (those (map validate_item (clean_items (jget d ''items''))))"

definition empty_draft :: checkout_draft where
  "empty_draft = \<lparr>dr_items = [], dr_method = None, dr_city = None, dr_address = None, dr_fulfillment = None,
     dr_zone = None, dr_agency = None, dr_payment = None\<rparr>"

text \<open>The three kinds of argument: a draft, a text (given by the value it encodes, if any) and any
  other value.\<close>

datatype raw_draft = RawDraft checkout_draft | RawText "json option" | RawValue json

definition validate_or_empty :: "json \<Rightarrow> checkout_draft" where
  "validate_or_empty v = (case v of
      JObj d _ \<Rightarrow> (case validate_draft d of None \<Rightarrow> empty_draft | Some x \<Rightarrow> x)
    | _ \<Rightarrow> (case validate_draft [] of None \<Rightarrow> empty_draft | Some x \<Rightarrow> x))"

definition normalize_checkout_draft :: "raw_draft \<Rightarrow> checkout_draft" where
  "normalize_checkout_draft raw = (case raw of
      RawDraft d \<Rightarrow> d
    | RawText None \<Rightarrow> validate_or_empty (JObj [] [])
    | RawText (Some v) \<Rightarrow> validate_or_empty v
    | RawValue v \<Rightarrow> validate_or_empty v)"

text \<open>\<open>public_dict\<close>: the dictionary without absent and default fields. The printed text of its
  lists and objects, which nothing reads, is left empty.\<close>

definition opt_entry :: "string \<Rightarrow> string option \<Rightarrow> (string \<times> json) list" where
  "opt_entry k v = (case v of None \<Rightarrow> [] | Some s \<Rightarrow> [(k, JVal (PStr s))])"

definition item_dict :: "draft_item \<Rightarrow> (string \<times> json) list" where
  "item_dict i = opt_entry ''product_query'' (di_query i) @ opt_entry ''sku'' (di_sku i)
     @ opt_entry ''parent_sku'' (di_parent i) @ opt_entry ''product_name'' (di_name i)
     @ opt_entry ''canonical_sku'' (di_canonical i) @ opt_entry ''size'' (di_size i)
     @ (case di_quantity i of None \<Rightarrow> [] | Some q \<Rightarrow> [(''quantity'', JVal (PInt q))])"

definition public_dict :: "checkout_draft \<Rightarrow> (string \<times> json) list" where
  "public_dict d =
     (if dr_items d = [] then [] else [(''items'', JList (map (\<lambda>i. JObj (item_dict i) []) (dr_items d)) [])])
     @ opt_entry ''shipping_method'' (dr_method d) @ opt_entry ''shipping_city'' (dr_city d)
     @ opt_entry ''shipping_address'' (dr_address d) @ opt_entry ''fulfillment_type'' (dr_fulfillment d)
     @ opt_entry ''shipping_zone'' (dr_zone d) @ opt_entry ''pickup_agency'' (dr_agency d)
     @ opt_entry ''payment_method'' (dr_payment d)"

definition draft_json :: "checkout_draft \<Rightarrow> json" where
  "draft_json d = JObj (public_dict d) []"

definition blank :: "string option \<Rightarrow> bool" where
  "blank v = (case v of None \<Rightarrow> True | Some s \<Rightarrow> s = [])"

definition missing_item_fields :: "nat \<Rightarrow> draft_item \<Rightarrow> string list" where
  "missing_item_fields n i =
     (let prefix = ''items['' @ show_nat n @ '']'' in
      (if blank (di_canonical i) \<and> blank (di_sku i) \<and> blank (di_query i) \<and> blank (di_name i)
       then [prefix @ ''.product''] else [])
      @ (if blank (di_size i) then [prefix @ ''.size''] else [])
      @ (if di_quantity i = None \<or> di_quantity i = Some 0 then [prefix @ ''.quantity''] else []))"

definition missing_if :: "string \<Rightarrow> string option \<Rightarrow> string list" where
  "missing_if name v = (if blank v then [name] else [])"

definition missing_fields :: "checkout_draft \<Rightarrow> string list" where
  "missing_fields d =
     (if dr_items d = [] then [''items'']
      else concat (map (\<lambda>(n, i). missing_item_fields n i) (enumerate 0 (dr_items d))))
     @ missing_if ''shipping_city'' (dr_city d)
     @ (if dr_fulfillment d = Some ''home_delivery''
        then missing_if ''shipping_zone'' (dr_zone d) @ missing_if ''shipping_address'' (dr_address d)
        else if dr_fulfillment d = Some ''courier_agency_pickup''
        then missing_if ''shipping_method'' (dr_method d) @ missing_if ''pickup_agency'' (dr_agency d)
        else missing_if ''shipping_method'' (dr_method d) @ missing_if ''shipping_address'' (dr_address d))
     @ missing_if ''payment_method'' (dr_payment d)"

definition item_keys :: "string list" where
  "item_keys = [''product_query'', ''sku'', ''parent_sku'', ''product_name'', ''canonical_sku'', ''size'', ''quantity'']"

definition draft_keys :: "string list" where
  "draft_keys = [''shipping_method'', ''shipping_city'', ''shipping_address'', ''fulfillment_type'',
     ''shipping_zone'', ''pickup_agency'', ''payment_method'']"

definition copy_keys :: "string list \<Rightarrow> (string \<times> json) list \<Rightarrow> (string \<times> json) list \<Rightarrow> (string \<times> json) list" where
  "copy_keys ks u d = foldl (\<lambda>d k. case map_of u k of None \<Rightarrow> d | Some v \<Rightarrow> AList.update k v d) d ks"

definition patch_first :: "(string \<times> json) list \<Rightarrow> json \<Rightarrow> json" where
  "patch_first u items =
     (let xs = (case clean_items items of [] \<Rightarrow> [JObj [] []] | xs \<Rightarrow> xs);
          first = (case hd xs of JObj d _ \<Rightarrow> d | _ \<Rightarrow> []) in
      JList (JObj (copy_keys item_keys u first) [] # tl xs) [])"

definition merge_checkout_draft :: "raw_draft \<Rightarrow> json \<Rightarrow> checkout_draft" where
  "merge_checkout_draft existing partial =
     (let data = public_dict (normalize_checkout_draft existing);
          u = (case partial of JObj d _ \<Rightarrow> d | _ \<Rightarrow> []);
          data1 = (case jget u ''items'' of
             JList xs t \<Rightarrow> AList.update ''items'' (JList xs t) data
           | _ \<Rightarrow> (if list_ex (\<lambda>k. map_of u k \<noteq> None) item_keys
                  then AList.update ''items'' (patch_first u (jget data ''items'')) data else data)) in
      normalize_checkout_draft (RawValue (JObj (copy_keys draft_keys u data1) [])))"

section \<open>Session rows\<close>

record session_row =
  sr_customer :: string
  sr_agent :: string
  sr_intent :: "string option"
  sr_stage :: string
  sr_draft :: json
  sr_order :: "string option"
  sr_confidence :: "rat option"
  sr_context :: json
  sr_context_expires :: "int option"
  sr_created :: int
  sr_updated :: int

record session =
  se_customer :: string
  se_agent :: string
  se_intent :: "string option"
  se_stage :: string
  se_draft :: checkout_draft
  se_order :: "string option"
  se_confidence :: "rat option"
  se_created :: "int option"
  se_updated :: "int option"

definition customer_id_text :: "string option \<Rightarrow> string" where
  "customer_id_text v = py_strip (case v of None \<Rightarrow> [] | Some s \<Rightarrow> s)"

definition normalize_choice :: "string list \<Rightarrow> string \<Rightarrow> string \<Rightarrow> string" where
  "normalize_choice choices dflt v =
     (let t = py_lower (py_strip (if v = [] then dflt else v)) in if t \<in> set choices then t else dflt)"

definition normalize_active_agent :: "string \<Rightarrow> string" where
  "normalize_active_agent v = normalize_choice valid_active_agents ''legacy'' v"

definition normalize_workflow_stage :: "string \<Rightarrow> string" where
  "normalize_workflow_stage v = normalize_choice valid_workflow_stages ''idle'' v"

definition normalize_optional_text :: "string option \<Rightarrow> string option" where
  "normalize_optional_text v = or_none (py_strip (case v of None \<Rightarrow> [] | Some s \<Rightarrow> s))"

definition normalize_confidence :: "rat option \<Rightarrow> rat option" where
  "normalize_confidence v = map_option (\<lambda>q. max 0 (min q 1)) v"

definition row_to_session :: "session_row \<Rightarrow> session" where
  "row_to_session r =
     \<lparr>se_customer = customer_id_text (Some (sr_customer r)), se_agent = normalize_active_agent (sr_agent r),
      se_intent = normalize_optional_text (sr_intent r), se_stage = normalize_workflow_stage (sr_stage r),
      se_draft = normalize_checkout_draft (RawValue (sr_draft r)),
      se_order = normalize_optional_text (sr_order r),
      se_confidence = normalize_confidence (sr_confidence r),
      se_created = Some (sr_created r), se_updated = Some (sr_updated r)\<rparr>"

text \<open>The defaults of the table.\<close>

definition new_row :: "int \<Rightarrow> string \<Rightarrow> session_row" where
  "new_row now cid = \<lparr>sr_customer = cid, sr_agent = ''legacy'', sr_intent = None, sr_stage = ''idle'',
     sr_draft = JObj [] [], sr_order = None, sr_confidence = None, sr_context = JObj [] [],
     sr_context_expires = None, sr_created = now, sr_updated = now\<rparr>"

text \<open>\<open>INSERT ... ON CONFLICT (customer_id) DO UPDATE ... RETURNING\<close>.\<close>

definition upsert :: "session_row \<Rightarrow> (session_row \<Rightarrow> session_row) \<Rightarrow> session_row list \<Rightarrow> session \<times> session_row list" where
  "upsert new f t =
     (case find_by sr_customer (sr_customer new) t of
        None \<Rightarrow> (row_to_session new, t @ [new])
      | Some r \<Rightarrow> (row_to_session (f r), upd_where (\<lambda>r. sr_customer r = sr_customer new) f t))"

definition get_session :: "string option \<Rightarrow> session_row list \<Rightarrow> session option" where
  "get_session cid t = map_option row_to_session (find_by sr_customer (customer_id_text cid) t)"

definition get_or_create_session :: "int \<Rightarrow> string option \<Rightarrow> session_row list \<Rightarrow> session \<times> session_row list" where
  "get_or_create_session now cid t = upsert (new_row now (customer_id_text cid)) id t"

definition set_active_agent ::
  "int \<Rightarrow> string option \<Rightarrow> string \<Rightarrow> string option \<Rightarrow> string option \<Rightarrow> rat option \<Rightarrow> session_row list
   \<Rightarrow> session \<times> session_row list" where
  "set_active_agent now cid agent intent stage conf t =
     (let a = normalize_active_agent agent; i = normalize_optional_text intent;
          st = map_option normalize_workflow_stage stage in
      upsert (new_row now (customer_id_text cid) \<lparr>sr_agent := a, sr_intent := i,
                sr_stage := (case st of None \<Rightarrow> ''idle'' | Some s \<Rightarrow> s), sr_confidence := conf\<rparr>)
        (\<lambda>r. r \<lparr>sr_agent := a, sr_intent := i, sr_stage := (case st of None \<Rightarrow> sr_stage r | Some s \<Rightarrow> s),
                sr_confidence := conf, sr_updated := now\<rparr>) t)"

definition set_workflow_stage :: "int \<Rightarrow> string option \<Rightarrow> string \<Rightarrow> session_row list \<Rightarrow> session \<times> session_row list" where
  "set_workflow_stage now cid stage t =
     (let c = customer_id_text cid; st = normalize_workflow_stage stage;
          f = (\<lambda>r. r \<lparr>sr_stage := st, sr_updated := now\<rparr>) in
      (case find_by sr_customer c t of
         Some r \<Rightarrow> (row_to_session (f r), upd_where (\<lambda>r. sr_customer r = c) f t)
       | None \<Rightarrow> set_active_agent now (Some c) ''legacy'' None (Some st) None t))"

definition draft_stage :: "checkout_draft \<Rightarrow> string" where
  "draft_stage d = (if missing_fields d = [] then ''checkout_ready'' else ''checkout_collecting'')"

definition update_checkout_draft :: "int \<Rightarrow> string option \<Rightarrow> json \<Rightarrow> session_row list \<Rightarrow> session \<times> session_row list" where
  "update_checkout_draft now cid partial t =
     (let c = customer_id_text cid; t1 = snd (get_or_create_session now (Some c) t);
          current = find_by sr_customer c t1;
          draft = merge_checkout_draft (RawValue (case current of None \<Rightarrow> JVal PNone | Some r \<Rightarrow> sr_draft r)) partial;
          f = (\<lambda>r. r \<lparr>sr_draft := draft_json draft, sr_agent := ''checkout'',
                     sr_stage := draft_stage draft, sr_updated := now\<rparr>) in
      (row_to_session (f (case current of None \<Rightarrow> new_row now c | Some r \<Rightarrow> r)),
       upd_where (\<lambda>r. sr_customer r = c) f t1))"

definition set_current_order ::
  "int \<Rightarrow> string option \<Rightarrow> string option \<Rightarrow> string \<Rightarrow> string \<Rightarrow> session_row list \<Rightarrow> session \<times> session_row list" where
  "set_current_order now cid order stage agent t =
     (let a = normalize_active_agent agent; st = normalize_workflow_stage stage in
      upsert (new_row now (customer_id_text cid) \<lparr>sr_agent := a, sr_stage := st, sr_order := order\<rparr>)
        (\<lambda>r. r \<lparr>sr_agent := a, sr_stage := st, sr_order := order, sr_draft := JObj [] [], sr_updated := now\<rparr>) t)"

definition reset_session :: "int \<Rightarrow> string option \<Rightarrow> session_row list \<Rightarrow> session \<times> session_row list" where
  "reset_session now cid t =
     upsert (new_row now (customer_id_text cid))
       (\<lambda>r. r \<lparr>sr_agent := ''legacy'', sr_intent := None, sr_stage := ''idle'', sr_draft := JObj [] [],
               sr_order := None, sr_confidence := None, sr_context := JObj [] [], sr_context_expires := None,
               sr_updated := now\<rparr>) t"

section \<open>Story context\<close>

record ig_context =
  ix_content :: "string option"
  ix_story :: string
  ix_skus :: "string list"
  ix_selected :: "string option"
  ix_status :: string
  ix_event :: "string option"

definition clean_context_skus :: "json \<Rightarrow> string list" where
  "clean_context_skus v = (case v of
      JList xs _ \<Rightarrow> take 20 (dedupe (filter (\<lambda>s. s \<noteq> []) (map (\<lambda>x. py_strip (j_str x)) xs)))
    | _ \<Rightarrow> [])"

definition validate_context :: "json \<Rightarrow> ig_context option" where
  "validate_context v = (case v of
      JObj d _ \<Rightarrow>
        (case (jget d ''source'', clean_text (jget d ''story_id''),
               case map_of d ''mapping_status'' of None \<Rightarrow> JVal (PStr ''resolved'') | Some s \<Rightarrow> s) of
           (JVal (PStr src), Some story, JVal (PStr status)) \<Rightarrow>
             (if py_strip src \<noteq> ''story_reply'' then None
              else Some \<lparr>ix_content = clean_text (jget d ''content_id''), ix_story = story,
                         ix_skus = clean_context_skus (jget d ''product_skus''),
                         ix_selected = clean_text (jget d ''selected_product_sku''), ix_status = status,
                         ix_event = clean_text (jget d ''meta_context_event_id'')\<rparr>)
         | _ \<Rightarrow> None)
    | _ \<Rightarrow> None)"

definition context_dict :: "ig_context \<Rightarrow> (string \<times> json) list" where
  "context_dict c = (''source'', JVal (PStr ''story_reply'')) # opt_entry ''content_id'' (ix_content c)
     @ [(''story_id'', JVal (PStr (ix_story c))), (''product_skus'', JList (map (\<lambda>s. JVal (PStr s)) (ix_skus c)) [])]
     @ opt_entry ''selected_product_sku'' (ix_selected c) @ [(''mapping_status'', JVal (PStr (ix_status c)))]
     @ opt_entry ''meta_context_event_id'' (ix_event c)"

definition clear_instagram_content_context :: "int \<Rightarrow> string option \<Rightarrow> session_row list \<Rightarrow> session_row list" where
  "clear_instagram_content_context now cid t =
     upd_where (\<lambda>r. sr_customer r = customer_id_text cid)
       (\<lambda>r. r \<lparr>sr_context := JObj [] [], sr_context_expires := None, sr_updated := now\<rparr>) t"

definition store_instagram_content_context ::
  "int \<Rightarrow> string option \<Rightarrow> json \<Rightarrow> int \<Rightarrow> session_row list
   \<Rightarrow> (py_exc + (string \<times> json) list) \<times> session_row list" where
  "store_instagram_content_context now cid context ttl_hours t =
     (case validate_context context of
        None \<Rightarrow> (Inl (ValueError ''InstagramContentContext''), t)
      | Some c \<Rightarrow>
         (if ix_status c \<noteq> ''resolved'' \<or> ix_skus c = []
          then (Inr [], clear_instagram_content_context now cid t)
          else (let c1 = (if \<not> blank (ix_selected c) \<and> the (ix_selected c) \<notin> set (ix_skus c)
                          then c \<lparr>ix_selected := None\<rparr> else c);
                    f = (\<lambda>r. r \<lparr>sr_context := JObj (context_dict c1) [],
                               sr_context_expires := Some (now + ttl_hours * 3600)\<rparr>) in
                (Inr (context_dict c1),
                 snd (upsert (f (new_row now (customer_id_text cid))) (\<lambda>r. f r \<lparr>sr_updated := now\<rparr>) t)))))"

record ig_content =
  ic_id :: string
  ic_type :: string
  ic_status :: string
  ic_media :: string

text \<open>The table of mapped products: content, SKU and display order.\<close>

type_synonym ig_products = "(string \<times> string \<times> int) list"

definition active_story_skus :: "ig_content list \<Rightarrow> ig_products \<Rightarrow> string \<Rightarrow> string \<Rightarrow> string list" where
  "active_story_skus contents products cid story =
     map (fst \<circ> snd) (filter (\<lambda>(c, _, _). c = cid \<and> list_ex (\<lambda>x. ic_id x = cid \<and> ic_type x = ''story''
        \<and> ic_status x = ''active'' \<and> ic_media x = story) contents) products)"

text \<open>\<open>str(UUID(text))\<close>: the prefixes, braces and dashes are dropped and the rest must be 32 characters
  that \<open>int\<close> reads in base 16.\<close>

fun remove_sub :: "string \<Rightarrow> nat \<Rightarrow> string \<Rightarrow> string" where
  "remove_sub p k [] = []"
| "remove_sub p (Suc k) (c # cs) = remove_sub p k cs"
| "remove_sub p 0 (c # cs) =
     (if starts_with p (c # cs) then remove_sub p (length p - 1) cs else c # remove_sub p 0 cs)"

definition hex_val :: "char \<Rightarrow> nat" where
  "hex_val c = (if is_digit c then digit_val c else of_char (lower_char c) - 87)"

fun parse_hex :: "nat \<Rightarrow> bool \<Rightarrow> string \<Rightarrow> nat option" where
  "parse_hex acc prev [] = (if prev then Some acc else None)"
| "parse_hex acc prev (c # cs) =
     (if is_hex c then parse_hex (16 * acc + hex_val c) True cs
      else if c = CHR ''_'' \<and> prev then parse_hex acc False cs
      else None)"

definition parse_base16 :: "string \<Rightarrow> int option" where
  "parse_base16 s =
     (let t = py_strip s; minus = starts_with ''-'' t;
          u = (if minus \<or> starts_with ''+'' t then tl t else t);
          v = (if starts_with ''0x'' (py_lower u) then (if starts_with ''_'' (drop 2 u) then drop 3 u else drop 2 u)
               else u) in
      map_option (\<lambda>n. if minus then - int n else int n) (parse_hex 0 False v))"

fun hex_digits :: "nat \<Rightarrow> nat \<Rightarrow> string" where
  "hex_digits 0 n = []"
| "hex_digits (Suc w) n =
     hex_digits w (n div 16) @ [char_of (if n mod 16 < 10 then 48 + n mod 16 else 87 + n mod 16)]"

definition uuid_text :: "string \<Rightarrow> string option" where
  "uuid_text s =
     (let h = filter (\<lambda>c. c \<noteq> CHR ''-'') (strip_chars ''{}'' (remove_sub ''uuid:'' 0 (remove_sub ''urn:'' 0 s))) in
      if length h \<noteq> 32 then None
      else (case parse_base16 h of
              None \<Rightarrow> None
            | Some n \<Rightarrow> (if n < 0 then None
                else (let x = hex_digits 32 (nat n) in
                  Some (take 8 x @ ''-'' @ take 4 (drop 8 x) @ ''-'' @ take 4 (drop 12 x) @ ''-''
                        @ take 4 (drop 16 x) @ ''-'' @ drop 20 x)))))"

text \<open>Whether the story still is mapped to every product of the context.\<close>

definition context_mapped :: "ig_content list \<Rightarrow> ig_products \<Rightarrow> ig_context \<Rightarrow> bool" where
  "context_mapped contents products c =
     (case ix_content c of
        None \<Rightarrow> True
      | Some content \<Rightarrow>
         (case uuid_text content of
            None \<Rightarrow> False
          | Some u \<Rightarrow> (let active = map py_strip (active_story_skus contents products u (ix_story c)) in
              active \<noteq> [] \<and> set (ix_skus c) \<subseteq> set active)))"

definition load_active_instagram_content_context ::
  "int \<Rightarrow> ig_content list \<Rightarrow> ig_products \<Rightarrow> string option \<Rightarrow> session_row list
   \<Rightarrow> (string \<times> json) list \<times> session_row list" where
  "load_active_instagram_content_context now contents products cid t =
     (let cleared = clear_instagram_content_context now cid t in
      case find_by sr_customer (customer_id_text cid) t of
        None \<Rightarrow> ([], t)
      | Some r \<Rightarrow>
         (case sr_context_expires r of
            None \<Rightarrow> ([], cleared)
          | Some expires \<Rightarrow>
             (if expires \<le> now then ([], cleared)
              else (case validate_context (sr_context r) of
                      None \<Rightarrow> ([], cleared)
                    | Some c \<Rightarrow>
                       (if ix_status c \<noteq> ''resolved'' \<or> ix_skus c = [] \<or> \<not> context_mapped contents products c
                        then ([], cleared) else (context_dict c, t))))))"

definition sku_elements :: "json \<Rightarrow> string list" where
  "sku_elements v = (case v of
      JObj d _ \<Rightarrow> (case jget d ''product_skus'' of JList xs _ \<Rightarrow> map j_str xs | _ \<Rightarrow> [])
    | _ \<Rightarrow> [])"

definition text_field :: "json \<Rightarrow> string \<Rightarrow> string option" where
  "text_field v k = (case v of
      JObj d _ \<Rightarrow> (case jget d k of JVal PNone \<Rightarrow> None | x \<Rightarrow> Some (j_str x))
    | _ \<Rightarrow> None)"

definition selectable :: "int \<Rightarrow> ig_content list \<Rightarrow> ig_products \<Rightarrow> string \<Rightarrow> session_row \<Rightarrow> bool" where
  "selectable now contents products sku r =
     ((case sr_context_expires r of None \<Rightarrow> False | Some e \<Rightarrow> now < e)
      \<and> sku \<in> set (sku_elements (sr_context r))
      \<and> (case (text_field (sr_context r) ''content_id'', text_field (sr_context r) ''story_id'') of
           (Some content, Some story) \<Rightarrow> sku \<in> set (active_story_skus contents products content story)
         | _ \<Rightarrow> False))"

definition select_product :: "string \<Rightarrow> json \<Rightarrow> json" where
  "select_product sku v = (case v of
      JObj d t \<Rightarrow> JObj (AList.update ''selected_product_sku'' (JVal (PStr sku)) d) t | x \<Rightarrow> x)"

definition update_instagram_selected_product ::
  "int \<Rightarrow> ig_content list \<Rightarrow> ig_products \<Rightarrow> string option \<Rightarrow> string option \<Rightarrow> session_row list
   \<Rightarrow> (string \<times> json) list \<times> session_row list" where
  "update_instagram_selected_product now contents products cid sku t =
     (let c = customer_id_text cid; s = customer_id_text sku;
          p = (\<lambda>r. sr_customer r = c \<and> selectable now contents products s r);
          f = (\<lambda>r. r \<lparr>sr_context := select_product s (sr_context r), sr_updated := now\<rparr>) in
      case find p t of
        None \<Rightarrow> ([], t)
      | Some r \<Rightarrow> (case sr_context (f r) of JObj d _ \<Rightarrow> d | _ \<Rightarrow> [], upd_where p f t))"

section \<open>Cleaning is idempotent\<close>

lemma clean_text_json [simp]: "clean_text (JVal (PStr s)) = or_none (py_strip s)"
  by (simp add: clean_text_def j_str_or_empty_def py_strip_def)

lemma clean_text_none [simp]: "clean_text (JVal PNone) = None"
  by (simp add: clean_text_def j_str_or_empty_def or_none_def py_strip_def)

lemma clean_text_again: "clean_text v = Some s \<Longrightarrow> clean_text (JVal (PStr s)) = Some s"
  by (auto simp: clean_text_def[of v] or_none_def split: if_splits)

lemma clean_choice_none [simp]: "[] \<notin> set choices \<Longrightarrow> clean_choice choices (JVal PNone) = None"
  by (simp add: clean_choice_def j_str_or_empty_def py_strip_def py_lower_def)

lemma clean_choice_again:
  assumes "clean_choice choices v = Some s" "list_all (\<lambda>t. py_lower (py_strip t) = t \<and> t \<noteq> []) choices"
  shows "clean_choice choices (JVal (PStr s)) = Some s"
  using assms by (auto simp: clean_choice_def j_str_or_empty_def Let_def list_all_iff split: if_splits)

lemma upper_char_space: "c' \<in> set (upper_char c) \<Longrightarrow> py_space c' = py_space c"
proof -
  assume c': "c' \<in> set (upper_char c)"
  have lt: "(of_char c :: nat) < 256" by (rule nat_of_char_less_256)
  define n where "n = (of_char c :: nat)"
  have S: "py_space (char_of m) = ((9 \<le> m \<and> m \<le> 13) \<or> (28 \<le> m \<and> m \<le> 32) \<or> m = 133 \<or> m = 160)"
    if "m < 256" for m :: nat using that by (simp add: py_space_def Let_def)
  consider "(97 \<le> n \<and> n \<le> 122) \<or> (224 \<le> n \<and> n \<le> 254 \<and> n \<noteq> 247)" | "n = 223"
    | "\<not> ((97 \<le> n \<and> n \<le> 122) \<or> (224 \<le> n \<and> n \<le> 254 \<and> n \<noteq> 247))" "n \<noteq> 223" by blast
  then show ?thesis
  proof cases
    case 1
    then have "c' = char_of (n - 32)" using c' by (auto simp: upper_char_def n_def Let_def)
    then show ?thesis using 1 lt by (auto simp: S py_space_def n_def Let_def)
  next
    case 2
    then have "c' = CHR ''S''" using c' by (auto simp: upper_char_def n_def Let_def)
    then show ?thesis using 2 by (simp add: py_space_def n_def Let_def)
  next
    case 3
    then show ?thesis using c' by (auto simp: upper_char_def n_def Let_def split: if_splits)
  qed
qed

lemma upper_char_nonempty: "upper_char c \<noteq> []"
  by (simp add: upper_char_def Let_def)

lemma upper_char_again: "c' \<in> set (upper_char c) \<Longrightarrow> upper_char c' = [c']"
proof -
  assume c': "c' \<in> set (upper_char c)"
  have lt: "(of_char c :: nat) < 256" by (rule nat_of_char_less_256)
  show ?thesis
  proof (cases "(of_char c :: nat) = 223")
    case True
    then show ?thesis using c' by (simp add: upper_char_def Let_def)
  next
    case False
    then show ?thesis using c' lt
      by (auto simp: upper_char_def Let_def split: if_splits)
  qed
qed

lemma py_upper_again [simp]: "py_upper (py_upper s) = py_upper s"
proof -
  have "concat (map upper_char t) = t" if "\<forall>c' \<in> set t. upper_char c' = [c']" for t
    using that by (induction t) auto
  then show ?thesis by (auto simp: py_upper_def upper_char_again)
qed

lemma strip_fixed: "py_strip s = s \<longleftrightarrow> s = [] \<or> \<not> py_space (hd s) \<and> \<not> py_space (last s)"
proof (cases s)
  case (Cons c cs)
  show ?thesis
  proof
    assume a: "py_strip s = s"
    have h: "\<not> py_space (hd s)"
    proof
      assume "py_space (hd s)"
      then have "length (dropWhile py_space s) < length s"
        using Cons length_dropWhile_le[of py_space cs] by simp
      moreover have "length (py_strip s) \<le> length (dropWhile py_space s)"
        using length_dropWhile_le[of py_space "rev (dropWhile py_space s)"] by (simp add: py_strip_def)
      ultimately show False using a by simp
    qed
    then have d: "dropWhile py_space s = s" using Cons by simp
    have "\<not> py_space (last s)"
    proof
      assume "py_space (last s)"
      moreover obtain x xs where r: "rev s = x # xs" using Cons by (cases "rev s") auto
      moreover have "x = last s" using r by (metis hd_rev list.sel(1))
      ultimately have "length (py_strip s) \<le> length xs"
        using length_dropWhile_le[of py_space xs] by (simp add: py_strip_def d r)
      moreover have "length s = Suc (length xs)" using r by (metis length_rev length_Cons)
      ultimately show False using a by simp
    qed
    then show "s = [] \<or> \<not> py_space (hd s) \<and> \<not> py_space (last s)" using h by simp
  next
    assume a: "s = [] \<or> \<not> py_space (hd s) \<and> \<not> py_space (last s)"
    then have d: "dropWhile py_space s = s" using Cons by auto
    have "dropWhile py_space (rev s) = rev s"
      using a Cons by (metis dropWhile_eq_self_iff hd_rev list.distinct(1))
    then show "py_strip s = s" by (simp add: py_strip_def d)
  qed
qed (simp add: py_strip_def)

lemma upper_strip: "py_strip s = s \<Longrightarrow> py_strip (py_upper s) = py_upper s"
proof -
  assume s: "py_strip s = s"
  show ?thesis
  proof (cases "s = []")
    case False
    then obtain c cs d ds where c: "s = c # cs" and d: "s = ds @ [d]"
      by (metis neq_Nil_conv rev_exhaust)
    have sp: "\<not> py_space c" "\<not> py_space d" using s strip_fixed[of s] False c d by (simp, metis last_snoc s strip_fixed)
    have "hd (py_upper s) \<in> set (upper_char c)"
      using upper_char_nonempty[of c] by (simp add: py_upper_def c)
    moreover have "last (py_upper s) \<in> set (upper_char d)"
      using upper_char_nonempty[of d] by (simp add: py_upper_def d)
    ultimately have "\<not> py_space (hd (py_upper s))" "\<not> py_space (last (py_upper s))"
      using sp upper_char_space by blast+
    then show ?thesis unfolding strip_fixed by blast
  qed (simp add: py_upper_def py_strip_def)
qed

lemma clean_size_again: "clean_size v = Some s \<Longrightarrow> clean_size (JVal (PStr s)) = Some s"
  by (auto simp: clean_size_def j_str_or_empty_def or_none_def upper_strip split: if_splits)

lemma clean_size_none [simp]: "clean_size (JVal PNone) = None"
  by (simp add: clean_size_def j_str_or_empty_def or_none_def py_strip_def py_upper_def)

lemma clean_quantity_again: "clean_quantity v = Some q \<Longrightarrow> clean_quantity (JVal (PInt q)) = Some q"
  by (auto simp: clean_quantity_def split: json.splits sum.splits if_splits)

lemma clean_quantity_none [simp]: "clean_quantity (JVal PNone) = None"
  by (simp add: clean_quantity_def)

section \<open>Drafts survive being stored\<close>

definition text_ok :: "string option \<Rightarrow> bool" where
  "text_ok v = (case v of None \<Rightarrow> True | Some s \<Rightarrow> clean_text (JVal (PStr s)) = Some s)"

definition item_ok :: "draft_item \<Rightarrow> bool" where
  "item_ok i = (list_all text_ok [di_query i, di_sku i, di_parent i, di_name i, di_canonical i]
     \<and> (case di_size i of None \<Rightarrow> True | Some s \<Rightarrow> clean_size (JVal (PStr s)) = Some s)
     \<and> (case di_quantity i of None \<Rightarrow> True | Some q \<Rightarrow> clean_quantity (JVal (PInt q)) = Some q))"

definition choice_ok :: "string list \<Rightarrow> string option \<Rightarrow> bool" where
  "choice_ok choices v = (case v of None \<Rightarrow> True | Some s \<Rightarrow> clean_choice choices (JVal (PStr s)) = Some s)"

definition draft_ok :: "checkout_draft \<Rightarrow> bool" where
  "draft_ok d = (list_all item_ok (dr_items d)
     \<and> list_all text_ok [dr_city d, dr_address d, dr_zone d, dr_agency d, dr_payment d]
     \<and> choice_ok valid_shipping_methods (dr_method d) \<and> choice_ok valid_fulfillment_types (dr_fulfillment d))"

definition present_or :: "string option \<Rightarrow> json \<Rightarrow> json" where
  "present_or v e = (case v of None \<Rightarrow> e | Some s \<Rightarrow> JVal (PStr s))"

lemma jget_opt_entry [simp]:
  "jget (opt_entry k v @ d) k' = (if k = k' then present_or v (jget d k') else jget d k')"
  by (simp add: jget_def opt_entry_def present_or_def split: option.split)

lemma jget_opt_entry_last [simp]:
  "jget (opt_entry k v) k' = (if k = k' then present_or v (JVal PNone) else JVal PNone)"
  by (simp add: jget_def opt_entry_def present_or_def split: option.split)

lemma jget_Cons [simp]: "jget ((k, x) # d) k' = (if k = k' then x else jget d k')"
  by (simp add: jget_def)

lemma jget_Nil [simp]: "jget [] k = JVal PNone"
  by (simp add: jget_def)

lemma text_ok_clean [simp]: "text_ok (clean_text v)"
  by (cases "clean_text v") (auto simp: text_ok_def clean_text_again simp del: clean_text_json)

lemma choice_ok_clean:
  "list_all (\<lambda>t. py_lower (py_strip t) = t \<and> t \<noteq> []) choices \<Longrightarrow> choice_ok choices (clean_choice choices v)"
  by (auto simp: choice_ok_def split: option.split intro: clean_choice_again)

lemma valid_choices_clean:
  "list_all (\<lambda>t. py_lower (py_strip t) = t \<and> t \<noteq> []) valid_shipping_methods"
  "list_all (\<lambda>t. py_lower (py_strip t) = t \<and> t \<noteq> []) valid_fulfillment_types"
  by code_simp+

lemma validate_item_ok: "validate_item v = Some i \<Longrightarrow> item_ok i"
  by (auto simp: validate_item_def item_ok_def clean_size_again clean_quantity_again
           split: json.splits option.splits)

lemma clean_ok_text: "text_ok v \<Longrightarrow> clean_text (present_or v (JVal PNone)) = v"
  by (cases v) (auto simp: text_ok_def present_or_def)

lemma validate_item_dict: "item_ok i \<Longrightarrow> validate_item (JObj (item_dict i) t) = Some i"
  by (cases "di_size i"; cases "di_quantity i")
     (auto simp: validate_item_def item_dict_def item_ok_def clean_ok_text present_or_def[of "Some _"] present_or_def[of None]
           simp del: clean_text_json)

lemma those_map_Some: "list_all (\<lambda>x. f x = Some (g x)) xs \<Longrightarrow> those (map f xs) = Some (map g xs)"
  by (induction xs) auto

lemma those_Some_all: "those (map f xs) = Some ys \<Longrightarrow> (\<And>x y. f x = Some y \<Longrightarrow> P y) \<Longrightarrow> list_all P ys"
  by (induction xs arbitrary: ys) (auto split: option.splits)

lemma validate_draft_ok: "validate_draft d = Some x \<Longrightarrow> draft_ok x"
  using those_Some_all[of validate_item "clean_items (jget d ''items'')" _ item_ok] validate_item_ok
  by (auto simp: validate_draft_def draft_ok_def choice_ok_clean valid_choices_clean)

lemma empty_draft_ok [simp]: "draft_ok empty_draft"
  by (simp add: empty_draft_def draft_ok_def text_ok_def choice_ok_def)

lemma validate_or_empty_ok [simp]: "draft_ok (validate_or_empty v)"
  by (auto simp: validate_or_empty_def validate_draft_ok split: json.splits option.splits)

lemma clean_ok_choice:
  "choice_ok choices v \<Longrightarrow> [] \<notin> set choices
   \<Longrightarrow> clean_choice choices (present_or v (JVal PNone)) = v"
  by (cases v) (auto simp: choice_ok_def present_or_def)

lemma validate_public_dict: "draft_ok d \<Longrightarrow> validate_draft (public_dict d) = Some d"
proof -
  assume d: "draft_ok d"
  have items: "those (map validate_item (map (\<lambda>i. JObj (item_dict i) []) (dr_items d))) = Some (dr_items d)"
    using d those_map_Some[of "\<lambda>i. validate_item (JObj (item_dict i) [])" id "dr_items d"]
    by (simp add: draft_ok_def comp_def list_all_iff validate_item_dict)
  have ne: "[] \<notin> set valid_shipping_methods" "[] \<notin> set valid_fulfillment_types"
    by (simp_all add: valid_shipping_methods_def valid_fulfillment_types_def)
  show ?thesis
    using d items ne
    by (cases "dr_items d = []")
       (auto simp: validate_draft_def public_dict_def clean_items_def draft_ok_def clean_ok_text clean_ok_choice)
qed

lemma normalize_draft_json: "draft_ok d \<Longrightarrow> normalize_checkout_draft (RawValue (draft_json d)) = d"
  by (simp add: normalize_checkout_draft_def validate_or_empty_def draft_json_def validate_public_dict)

lemma merge_ok [simp]: "draft_ok (merge_checkout_draft existing partial)"
  by (simp add: merge_checkout_draft_def normalize_checkout_draft_def Let_def)

text \<open>C35. Whatever a session column or a model sends as a checkout draft, the draft read from it is
  read back unchanged after it has been stored, so no field of a draft is lost or altered by being
  saved.\<close>

theorem checkout_draft_roundtrip:
  "normalize_checkout_draft (RawValue (draft_json (normalize_checkout_draft (RawValue v))))
     = normalize_checkout_draft (RawValue v)
   \<and> normalize_checkout_draft (RawText (Some (draft_json (normalize_checkout_draft (RawText x)))))
     = normalize_checkout_draft (RawText x)"
  using normalize_draft_json[of "normalize_checkout_draft (RawValue v)"]
        normalize_draft_json[of "normalize_checkout_draft (RawText x)"]
  by (simp add: normalize_checkout_draft_def split: option.split)

section \<open>The table as a map of sessions\<close>

definition session_view :: "session_row list \<Rightarrow> string \<rightharpoonup> session" where
  "session_view t c = map_option row_to_session (find_by sr_customer c t)"

definition view_draft :: "session option \<Rightarrow> checkout_draft" where
  "view_draft s = (case s of None \<Rightarrow> empty_draft | Some x \<Rightarrow> se_draft x)"

lemma new_row_customer [simp]: "sr_customer (new_row now c) = c"
  by (simp add: new_row_def)

lemma customer_id_text_again [simp]: "customer_id_text (Some (customer_id_text v)) = customer_id_text v"
  by (simp add: customer_id_text_def)

lemma view_upd_where:
  assumes "\<And>r. sr_customer (f r) = sr_customer r" "find_by sr_customer c t = Some r"
  shows "session_view (upd_where (\<lambda>r. sr_customer r = c) f t) = (session_view t)(c \<mapsto> row_to_session (f r))"
  using find_by_SomeD[OF assms(2)] assms
  by (intro ext) (auto simp: session_view_def find_by_upd_where map_option_case dest: find_by_SomeD split: option.splits)

lemma view_upsert:
  assumes "\<And>r. sr_customer (f r) = sr_customer r"
  shows "session_view (snd (upsert new f t)) = (session_view t)(sr_customer new \<mapsto> fst (upsert new f t))"
proof (cases "find_by sr_customer (sr_customer new) t")
  case None
  then show ?thesis
    by (intro ext) (auto simp: upsert_def session_view_def find_by_append sql_simps split: option.splits)
next
  case (Some r)
  then show ?thesis using view_upd_where[OF assms Some] by (simp add: upsert_def)
qed

lemma find_upsert: "find_by sr_customer (sr_customer new) (snd (upsert new id t)) \<noteq> None"
  by (auto simp: upsert_def find_by_append find_by_upd_where sql_simps split: option.splits)

lemma normalize_empty_object [simp]:
  "normalize_checkout_draft (RawValue (JObj [] [])) = empty_draft"
  "normalize_checkout_draft (RawValue (JVal PNone)) = empty_draft"
  by code_simp+

lemma merge_normalized:
  "merge_checkout_draft (RawValue v) p = merge_checkout_draft (RawDraft (normalize_checkout_draft (RawValue v))) p"
  by (simp add: merge_checkout_draft_def normalize_checkout_draft_def)

lemma draft_stage_normal [simp]: "normalize_workflow_stage (draft_stage d) = draft_stage d"
proof -
  have "normalize_workflow_stage ''checkout_ready'' = ''checkout_ready''"
    "normalize_workflow_stage ''checkout_collecting'' = ''checkout_collecting''" by code_simp+
  then show ?thesis by (simp add: draft_stage_def)
qed

lemma checkout_agent_normal [simp]: "normalize_active_agent ''checkout'' = ''checkout''"
  by code_simp

lemma normalize_merge:
  "normalize_checkout_draft (RawValue (draft_json (merge_checkout_draft e p))) = merge_checkout_draft e p"
  by (rule normalize_draft_json) simp

lemma view_get_or_create:
  "session_view (snd (get_or_create_session now cid t))
     = (session_view t)(customer_id_text cid \<mapsto> fst (get_or_create_session now cid t))"
  using view_upsert[of id "new_row now (customer_id_text cid)" t] by (simp add: get_or_create_session_def)

lemma get_or_create_draft:
  "se_draft (fst (get_or_create_session now cid t)) = view_draft (session_view t (customer_id_text cid))"
  by (auto simp: get_or_create_session_def upsert_def session_view_def view_draft_def row_to_session_def new_row_def
           split: option.splits)

text \<open>The sessions a table holds change only at the customer of the call.\<close>

lemma view_set_active_agent:
  "session_view (snd (set_active_agent now cid agent intent stage conf t))
     = (session_view t)(customer_id_text cid \<mapsto> fst (set_active_agent now cid agent intent stage conf t))"
  unfolding set_active_agent_def Let_def by (subst view_upsert) simp_all

lemma view_set_workflow_stage:
  "session_view (snd (set_workflow_stage now cid stage t))
     = (session_view t)(customer_id_text cid \<mapsto> fst (set_workflow_stage now cid stage t))"
  by (cases "find_by sr_customer (customer_id_text cid) t")
     (simp_all add: set_workflow_stage_def Let_def view_set_active_agent view_upd_where)

lemma view_set_current_order:
  "session_view (snd (set_current_order now cid order stage agent t))
     = (session_view t)(customer_id_text cid \<mapsto> fst (set_current_order now cid order stage agent t))"
  unfolding set_current_order_def Let_def by (subst view_upsert) simp_all

lemma view_reset_session:
  "session_view (snd (reset_session now cid t))
     = (session_view t)(customer_id_text cid \<mapsto> fst (reset_session now cid t))"
  unfolding reset_session_def by (subst view_upsert) simp_all

lemma reset_session_fresh:
  "fst (reset_session now cid t) \<lparr>se_created := None, se_updated := None\<rparr>
     = (row_to_session (new_row now (customer_id_text cid))) \<lparr>se_created := None, se_updated := None\<rparr>"
  by (auto simp: reset_session_def upsert_def row_to_session_def new_row_def dest: find_by_SomeD split: option.splits)

lemma draft_update_facts:
  shows "session_view (snd (update_checkout_draft now cid p t))
      = (session_view t)(customer_id_text cid \<mapsto> fst (update_checkout_draft now cid p t))"
    and "se_draft (fst (update_checkout_draft now cid p t))
      = merge_checkout_draft (RawDraft (view_draft (session_view t (customer_id_text cid)))) p"
    and "se_agent (fst (update_checkout_draft now cid p t)) = ''checkout''"
    and "se_stage (fst (update_checkout_draft now cid p t))
      = draft_stage (se_draft (fst (update_checkout_draft now cid p t)))"
proof -
  define c where "c = customer_id_text cid"
  define t1 where "t1 = snd (get_or_create_session now (Some c) t)"
  have c: "customer_id_text (Some c) = c" by (simp add: c_def)
  obtain r where r: "find_by sr_customer c t1 = Some r"
    using find_upsert[of "new_row now c" t] by (auto simp: t1_def get_or_create_session_def c)
  define draft where "draft = merge_checkout_draft (RawValue (sr_draft r)) p"
  define f :: "session_row \<Rightarrow> session_row" where "f = (\<lambda>r. r \<lparr>sr_draft := draft_json draft, sr_agent := ''checkout'', sr_stage := draft_stage draft, sr_updated := now\<rparr>)"
  have u: "update_checkout_draft now cid p t = (row_to_session (f r), upd_where (\<lambda>r. sr_customer r = c) f t1)"
    using r by (simp add: update_checkout_draft_def Let_def c_def t1_def f_def draft_def)
  have view: "session_view t1 = (session_view t)(c \<mapsto> fst (get_or_create_session now (Some c) t))"
    using view_get_or_create[of now "Some c" t] by (simp add: t1_def c)
  have "session_view t1 c = Some (row_to_session r)" by (simp add: session_view_def r)
  then have row: "row_to_session r = fst (get_or_create_session now (Some c) t)" by (simp add: view)
  then have old: "normalize_checkout_draft (RawValue (sr_draft r)) = view_draft (session_view t c)"
    using get_or_create_draft[of now "Some c" t] by (simp add: c row_to_session_def flip: row)
  have d: "draft = merge_checkout_draft (RawDraft (view_draft (session_view t c))) p"
    unfolding draft_def by (subst merge_normalized) (simp add: old)
  have f: "se_draft (row_to_session (f r)) = draft" "se_agent (row_to_session (f r)) = ''checkout''"
    "se_stage (row_to_session (f r)) = draft_stage draft"
    by (simp_all add: row_to_session_def f_def draft_def normalize_merge)
  have v: "session_view (upd_where (\<lambda>r. sr_customer r = c) f t1) = (session_view t)(c \<mapsto> row_to_session (f r))"
    using view_upd_where[of f, OF _ r] by (simp add: view f_def)
  show "session_view (snd (update_checkout_draft now cid p t))
      = (session_view t)(customer_id_text cid \<mapsto> fst (update_checkout_draft now cid p t))"
    unfolding u by (simp add: v flip: c_def)
  show "se_draft (fst (update_checkout_draft now cid p t))
      = merge_checkout_draft (RawDraft (view_draft (session_view t (customer_id_text cid)))) p"
    unfolding u by (simp add: f d flip: c_def)
  show "se_agent (fst (update_checkout_draft now cid p t)) = ''checkout''"
    "se_stage (fst (update_checkout_draft now cid p t)) = draft_stage (se_draft (fst (update_checkout_draft now cid p t)))"
    unfolding u by (simp_all add: f)
qed

text \<open>Updating a checkout draft replaces one customer's session and no other; the draft it answers
  and stores is the previous draft of that customer merged with the update, the checkout agent becomes
  active, and the session is ready for checkout exactly if that draft lacks nothing.\<close>

theorem draft_update_refines:
  "session_view (snd (update_checkout_draft now cid p t))
     = (session_view t)(customer_id_text cid \<mapsto> fst (update_checkout_draft now cid p t))
   \<and> se_draft (fst (update_checkout_draft now cid p t))
     = merge_checkout_draft (RawDraft (view_draft (session_view t (customer_id_text cid)))) p
   \<and> se_agent (fst (update_checkout_draft now cid p t)) = ''checkout''
   \<and> se_stage (fst (update_checkout_draft now cid p t))
     = (if missing_fields (se_draft (fst (update_checkout_draft now cid p t))) = []
        then ''checkout_ready'' else ''checkout_collecting'')"
  using draft_update_facts[of now cid p t] by (simp add: draft_stage_def)

text \<open>One item that is not an object makes the whole merged draft invalid, and an invalid draft is
  replaced by the empty one: the address, city and payment already collected would be lost with it. The checkout service drops such
  items before it calls.\<close>

lemma those_None: "f x = None \<Longrightarrow> x \<in> set xs \<Longrightarrow> those (map f xs) = None"
  by (induction xs) (auto split: option.splits)

lemma jget_copy_keys: "k \<notin> set ks \<Longrightarrow> jget (copy_keys ks u d) k = jget d k"
  unfolding copy_keys_def
  by (induction ks arbitrary: d) (auto simp: jget_update split: option.splits)

theorem malformed_item_blanks_draft:
  assumes "jget u ''items'' = JList xs t" "x \<in> set xs" "validate_item x = None"
  shows "merge_checkout_draft existing (JObj u t') = empty_draft"
proof -
  have "jget (copy_keys draft_keys u d) ''items'' = jget d ''items''" for d
    by (rule jget_copy_keys) (simp add: draft_keys_def)
  then show ?thesis using assms those_None[of validate_item x xs]
    by (simp add: merge_checkout_draft_def normalize_checkout_draft_def validate_or_empty_def validate_draft_def
          Let_def jget_update clean_items_def)
qed

end
