(* ===== verification/Kommo_State.thy ===== *)
theory Kommo_State
  imports Customers
begin

text \<open>
  Kommo automation state, \<open>store/app/integrations/kommo/state.py\<close>: the AI mode field of a lead, the
  decision whether the assistant may answer, the error texts of \<open>client.py\<close> with secrets removed, and
  the first steps of a conversation with the Kommo service. The service itself is the argument of the
  definitions that call it: what a call answered, or the text of the exception it raised.
\<close>

record kommo_config =
  kc_backend :: string
  kc_field :: "int option"
  kc_active :: "int option"
  kc_human :: "int option"
  kc_paused :: "int option"
  kc_responsible :: "int option"

datatype 'a answer = Answer 'a | Raised string

section \<open>Error texts\<close>

definition is_url_char :: "char \<Rightarrow> bool" where
  "is_url_char c = (\<not> py_space c \<and> c \<noteq> CHR 0x22 \<and> c \<noteq> quote_char)"

definition url_here :: "string \<Rightarrow> bool" where
  "url_here s = (starts_with ''https://'' s \<and> (case drop 8 s of [] \<Rightarrow> False | c # _ \<Rightarrow> is_url_char c))"

text \<open>The flag says that the characters read belong to an address already replaced.\<close>

fun redact_urls :: "bool \<Rightarrow> string \<Rightarrow> string" where
  "redact_urls inside [] = []"
| "redact_urls inside (c # cs) =
     (if inside \<and> is_url_char c then redact_urls True cs
      else if url_here (c # cs) then ''[url redacted]'' @ redact_urls True cs
      else c # redact_urls False cs)"

definition redacted_markers :: "string list" where
  "redacted_markers = [''Bearer '', ''authorization'', ''access_token'', ''token'', ''secret'', ''jwt'']"

definition sanitize_kommo_error :: "string \<Rightarrow> string" where
  "sanitize_kommo_error msg =
     (let t = redact_urls False (py_strip (sub_runs py_space '' '' (if msg = [] then ''Kommo API error'' else msg))) in
      if list_ex (\<lambda>m. str_contains (py_lower m) (py_lower t)) redacted_markers
      then ''Kommo API error (details redacted)'' else take 500 t)"

section \<open>The AI mode of a lead\<close>

fun j_int :: "json \<Rightarrow> py_exc + int" where
  "j_int (JVal v) = py_int v"
| "j_int (JList _ _) = Inl (TypeError ''int'')"
| "j_int (JObj _ _) = Inl (TypeError ''int'')"

definition j_or :: "json \<Rightarrow> json \<Rightarrow> json" where
  "j_or a b = (if j_truthy a then a else b)"

definition attribute_error :: "py_exc" where
  "attribute_error = OtherError ''AttributeError''"

text \<open>What the field of the configured id says: its enumeration value, if it has one.\<close>

definition field_enum :: "(string \<times> json) list \<Rightarrow> py_exc + int option" where
  "field_enum field = (case jget field ''values'' of
      JList (JObj v _ # _) _ \<Rightarrow>
        Inr (case j_int (j_or (j_or (jget v ''enum_id'') (jget v ''enum'')) (jget v ''value'')) of
               Inr i \<Rightarrow> Some i | Inl _ \<Rightarrow> None)
    | x \<Rightarrow> (if j_truthy x then Inl attribute_error else Inr None))"

fun find_enum :: "int \<Rightarrow> json list \<Rightarrow> py_exc + int option" where
  "find_enum fid [] = Inr None"
| "find_enum fid (JObj f t # fs) =
     (case j_int (j_or (j_or (jget f ''field_id'') (jget f ''id'')) (JVal (PInt 0))) of
        Inr i \<Rightarrow> (if i = fid then field_enum f else find_enum fid fs)
      | Inl _ \<Rightarrow> find_enum fid fs)"
| "find_enum fid (x # fs) = Inl attribute_error"

definition extract_ai_mode_enum_from_lead :: "(string \<times> json) list \<Rightarrow> kommo_config \<Rightarrow> py_exc + int option" where
  "extract_ai_mode_enum_from_lead lead cfg =
     (case jget lead ''custom_fields_values'' of
        JList fs _ \<Rightarrow> find_enum (case kc_field cfg of None \<Rightarrow> 0 | Some i \<Rightarrow> i) fs
      | x \<Rightarrow> (if j_truthy x then Inl attribute_error else Inr None))"

definition ai_mode_enum_to_local_state :: "int option \<Rightarrow> kommo_config \<Rightarrow> string option" where
  "ai_mode_enum_to_local_state enum cfg =
     (if enum = None then None
      else if enum = kc_active cfg then Some ''active''
      else if enum = kc_human cfg \<or> enum = kc_paused cfg then Some ''escalated''
      else None)"

section \<open>May the assistant answer?\<close>

record decision =
  ad_allowed :: bool
  ad_reason :: string
  ad_initialize :: bool

definition refuse :: "string \<Rightarrow> decision" where
  "refuse reason = \<lparr>ad_allowed = False, ad_reason = reason, ad_initialize = False\<rparr>"

definition closed_job_statuses :: "string list" where
  "closed_job_statuses = [''waiting_for_delivery'', ''sent'', ''discarded'', ''failed'', ''delivery_unknown'']"

definition evaluate_automation_state ::
  "bool \<Rightarrow> string option \<Rightarrow> int option \<Rightarrow> string option \<Rightarrow> kommo_config \<Rightarrow> decision" where
  "evaluate_automation_state ai_enabled local_state enum job_status cfg =
     (if \<not> ai_enabled then refuse ''global_ai_paused''
      else if local_state = Some ''blocked'' then refuse ''local_blocked''
      else if local_state = Some ''escalated'' then refuse ''local_escalated''
      else if job_status \<noteq> None \<and> the job_status \<in> set closed_job_statuses
      then refuse (''job_'' @ the job_status)
      else if enum = None then (refuse ''kommo_ai_mode_empty'') \<lparr>ad_initialize := True\<rparr>
      else if enum = kc_active cfg then \<lparr>ad_allowed = True, ad_reason = ''allowed'', ad_initialize = False\<rparr>
      else if enum = kc_human cfg then refuse ''kommo_human_mode''
      else if enum = kc_paused cfg then refuse ''kommo_paused_mode''
      else refuse ''kommo_unknown_ai_mode'')"

text \<open>Initialising the AI mode: a second look before the write, and a third after it. The service
  answers the lead to each look and whether the write succeeded.\<close>

definition read_enum ::
  "(string \<times> json) list answer \<Rightarrow> kommo_config \<Rightarrow> py_exc + int option" where
  "read_enum a cfg = (case a of Raised t \<Rightarrow> Inl (OtherError t) | Answer lead \<Rightarrow> extract_ai_mode_enum_from_lead lead cfg)"

definition ensure_ai_mode_initialized ::
  "kommo_config \<Rightarrow> (string \<times> json) list \<Rightarrow> (string \<times> json) list answer \<Rightarrow> unit answer
   \<Rightarrow> (string \<times> json) list answer \<Rightarrow> py_exc + (int option \<times> bool)" where
  "ensure_ai_mode_initialized cfg lead before write after =
     (case extract_ai_mode_enum_from_lead lead cfg of
        Inl e \<Rightarrow> Inl e
      | Inr (Some i) \<Rightarrow> Inr (Some i, False)
      | Inr None \<Rightarrow>
     (case read_enum before cfg of
        Inl e \<Rightarrow> Inl e
      | Inr (Some i) \<Rightarrow> Inr (Some i, False)
      | Inr None \<Rightarrow>
         (if kc_active cfg = None then Inl (TypeError ''int'')
          else (case write of
                  Raised t \<Rightarrow> Inl (OtherError t)
                | Answer _ \<Rightarrow>
                   (case read_enum after cfg of
                      Inl e \<Rightarrow> Inl e
                    | Inr i \<Rightarrow> (if i \<noteq> kc_active cfg
                         then Inl (RuntimeError ''Kommo AI Mode initialization was not confirmed'')
                         else Inr (i, True)))))))"

lemma automation_allowed_iff:
  "ad_allowed (evaluate_automation_state ai loc enum job cfg) \<longleftrightarrow>
     ai \<and> loc \<noteq> Some ''blocked'' \<and> loc \<noteq> Some ''escalated''
     \<and> (\<forall>j. job = Some j \<longrightarrow> j \<notin> set closed_job_statuses) \<and> enum \<noteq> None \<and> enum = kc_active cfg"
  by (auto simp: evaluate_automation_state_def refuse_def)

end
