(* ===== verification/Channel_Mappings.thy ===== *)
theory Channel_Mappings
  imports Customers
begin

text \<open>
  Channel mappings, \<open>store/app/crm/channel_mappings.py\<close>: which external identifiers of a provider
  belong to which customer. The \<open>customer_channel_mappings\<close> table is a list of records with the unique
  indexes of its migrations; \<open>ON CONFLICT DO NOTHING\<close> inserts nothing when one of them is hit, an
  update that hits one raises.
\<close>

record mapping_row =
  mp_id :: string
  mp_customer :: string
  mp_provider :: string
  mp_channel :: string
  mp_contact :: "string option"
  mp_lead :: "string option"
  mp_chat :: "string option"
  mp_talk :: "string option"
  mp_author :: "string option"
  mp_origin :: "string option"
  mp_updated :: int

datatype ext_column = Contact | Lead | Chat | Talk | Author

fun mp_external :: "ext_column \<Rightarrow> mapping_row \<Rightarrow> string option" where
  "mp_external Contact m = mp_contact m"
| "mp_external Lead m = mp_lead m"
| "mp_external Chat m = mp_chat m"
| "mp_external Talk m = mp_talk m"
| "mp_external Author m = mp_author m"

text \<open>\<open>ORDER BY updated_at DESC LIMIT 1\<close>; among rows of one second the first of the table.\<close>

definition latest_mapping :: "(mapping_row \<Rightarrow> bool) \<Rightarrow> mapping_row list \<Rightarrow> mapping_row option" where
  "latest_mapping p t =
     (case sort_key (\<lambda>m. - mp_updated m) (filter p t) of [] \<Rightarrow> None | m # _ \<Rightarrow> Some m)"

definition get_mapping_by_customer :: "string \<Rightarrow> string \<Rightarrow> mapping_row list \<Rightarrow> mapping_row option" where
  "get_mapping_by_customer cid provider t =
     latest_mapping (\<lambda>m. mp_customer m = cid \<and> mp_provider m = provider) t"

definition by_column :: "string \<Rightarrow> string \<Rightarrow> ext_column \<Rightarrow> string \<Rightarrow> mapping_row list \<Rightarrow> mapping_row option" where
  "by_column provider channel col v t =
     latest_mapping (\<lambda>m. mp_provider m = provider \<and> mp_channel m = channel \<and> mp_external col m = Some v) t"

fun first_some :: "('a \<Rightarrow> 'b option) \<Rightarrow> 'a list \<Rightarrow> 'b option" where
  "first_some f [] = None"
| "first_some f (x # xs) = (case f x of Some y \<Rightarrow> Some y | None \<Rightarrow> first_some f xs)"

definition lookup_by_provider :: "string \<Rightarrow> string \<Rightarrow> string \<Rightarrow> mapping_row list \<Rightarrow> mapping_row option" where
  "lookup_by_provider provider channel v t =
     first_some (\<lambda>col. by_column provider channel col v t) [Contact, Lead, Chat, Talk, Author]"

definition lookup_one :: "string \<Rightarrow> ext_column \<Rightarrow> string \<Rightarrow> mapping_row list \<Rightarrow> mapping_row option" where
  "lookup_one provider col v t = latest_mapping (\<lambda>m. mp_provider m = provider \<and> mp_external col m = Some v) t"

definition lookup_by_external_contact_id :: "string \<Rightarrow> string \<Rightarrow> mapping_row list \<Rightarrow> mapping_row option" where
  "lookup_by_external_contact_id provider v t = lookup_one provider Contact v t"

definition lookup_by_lead_id :: "string \<Rightarrow> string \<Rightarrow> mapping_row list \<Rightarrow> mapping_row option" where
  "lookup_by_lead_id provider v t = lookup_one provider Lead v t"

definition lookup_by_chat_id :: "string \<Rightarrow> string \<Rightarrow> mapping_row list \<Rightarrow> mapping_row option" where
  "lookup_by_chat_id provider v t = lookup_one provider Chat v t"

definition lookup_by_talk_id :: "string \<Rightarrow> string \<Rightarrow> mapping_row list \<Rightarrow> mapping_row option" where
  "lookup_by_talk_id provider v t = lookup_one provider Talk v t"

definition lookup_by_author_id :: "string \<Rightarrow> string \<Rightarrow> mapping_row list \<Rightarrow> mapping_row option" where
  "lookup_by_author_id provider v t = lookup_one provider Author v t"

section \<open>Constraints\<close>

definition meta_instagram :: "mapping_row \<Rightarrow> bool" where
  "meta_instagram m = (mp_provider m = ''meta'' \<and> mp_channel m = ''instagram'' \<and> mp_author m \<noteq> None)"

text \<open>Two rows that one of the unique indexes forbids.\<close>

definition collides :: "mapping_row \<Rightarrow> mapping_row \<Rightarrow> bool" where
  "collides m n = (mp_provider m = mp_provider n \<and> mp_channel m = mp_channel n
     \<and> ((mp_chat m \<noteq> None \<and> mp_chat m = mp_chat n) \<or> (mp_talk m \<noteq> None \<and> mp_talk m = mp_talk n)
        \<or> (meta_instagram m \<and> meta_instagram n \<and> (mp_author m = mp_author n \<or> mp_customer m = mp_customer n))))"

definition any_external :: "mapping_row \<Rightarrow> bool" where
  "any_external m = list_ex (\<lambda>col. mp_external col m \<noteq> None) [Contact, Lead, Chat, Talk, Author]"

definition mappings_ok :: "mapping_row list \<Rightarrow> bool" where
  "mappings_ok t = (distinct (map mp_id t) \<and> (\<forall>m \<in> set t. any_external m)
     \<and> (\<forall>m \<in> set t. \<forall>n \<in> set t. mp_id m \<noteq> mp_id n \<longrightarrow> \<not> collides m n))"

section \<open>Writing\<close>

record mapping_values =
  mv_customer :: string
  mv_provider :: string
  mv_channel :: string
  mv_contact :: "string option"
  mv_lead :: "string option"
  mv_chat :: "string option"
  mv_talk :: "string option"
  mv_author :: "string option"
  mv_origin :: "string option"

fun mv_external :: "ext_column \<Rightarrow> mapping_values \<Rightarrow> string option" where
  "mv_external Contact v = mv_contact v"
| "mv_external Lead v = mv_lead v"
| "mv_external Chat v = mv_chat v"
| "mv_external Talk v = mv_talk v"
| "mv_external Author v = mv_author v"

definition new_mapping :: "string \<Rightarrow> int \<Rightarrow> mapping_values \<Rightarrow> mapping_row" where
  "new_mapping new_id now v = \<lparr>mp_id = new_id, mp_customer = mv_customer v, mp_provider = mv_provider v,
     mp_channel = mv_channel v, mp_contact = mv_contact v, mp_lead = mv_lead v, mp_chat = mv_chat v,
     mp_talk = mv_talk v, mp_author = mv_author v, mp_origin = mv_origin v, mp_updated = now\<rparr>"

definition coalesce_opt :: "'a option \<Rightarrow> 'a option \<Rightarrow> 'a option" where
  "coalesce_opt a b = (case a of None \<Rightarrow> b | Some x \<Rightarrow> Some x)"

definition merged_mapping :: "int \<Rightarrow> mapping_values \<Rightarrow> mapping_row \<Rightarrow> mapping_row" where
  "merged_mapping now v m = m \<lparr>mp_customer := mv_customer v, mp_contact := coalesce_opt (mv_contact v) (mp_contact m),
     mp_lead := coalesce_opt (mv_lead v) (mp_lead m), mp_chat := coalesce_opt (mv_chat v) (mp_chat m),
     mp_talk := coalesce_opt (mv_talk v) (mp_talk m), mp_author := coalesce_opt (mv_author v) (mp_author m),
     mp_origin := coalesce_opt (mv_origin v) (mp_origin m), mp_updated := now\<rparr>"

definition present :: "string option \<Rightarrow> bool" where
  "present v = (case v of None \<Rightarrow> False | Some s \<Rightarrow> s \<noteq> [])"

definition lookup_order :: "mapping_values \<Rightarrow> ext_column list" where
  "lookup_order v = (if list_ex (\<lambda>c. present (mv_external c v)) [Contact, Chat, Talk]
     then [Contact, Chat, Talk] else [Contact, Chat, Talk, Author, Lead])"

definition find_mapping_for_upsert :: "mapping_values \<Rightarrow> mapping_row list \<Rightarrow> mapping_row option" where
  "find_mapping_for_upsert v t =
     first_some (\<lambda>c. if present (mv_external c v)
                     then by_column (mv_provider v) (mv_channel v) c (the (mv_external c v)) t else None)
       (lookup_order v)"

text \<open>The update of one row by its id; the constraints are checked on the row written.\<close>

definition update_mapping :: "int \<Rightarrow> mapping_values \<Rightarrow> mapping_row \<Rightarrow> mapping_row list \<Rightarrow> (py_exc + mapping_row) \<times> mapping_row list" where
  "update_mapping now v m t =
     (let m' = merged_mapping now v m in
      if list_ex (\<lambda>n. mp_id n \<noteq> mp_id m \<and> collides m' n) t then (Inl (OtherError ''UniqueViolationError''), t)
      else (Inr m', upd_where (\<lambda>n. mp_id n = mp_id m) (\<lambda>_. m') t))"

definition insert_mapping :: "string \<Rightarrow> int \<Rightarrow> mapping_values \<Rightarrow> mapping_row list \<Rightarrow> (py_exc + bool) \<times> mapping_row list" where
  "insert_mapping new_id now v t =
     (let m = new_mapping new_id now v in
      if \<not> any_external m then (Inl (OtherError ''CheckViolationError''), t)
      else if list_ex (\<lambda>n. collides m n) t then (Inr False, t)
      else (Inr True, t @ [m]))"

text \<open>A failed insert means that another session has committed a colliding row: \<open>others\<close> maps the
  table to the one the second lookup finds.\<close>

definition upsert_mapping ::
  "string \<Rightarrow> int \<Rightarrow> (mapping_row list \<Rightarrow> mapping_row list) \<Rightarrow> mapping_values \<Rightarrow> mapping_row list
   \<Rightarrow> (py_exc + mapping_row) \<times> mapping_row list" where
  "upsert_mapping new_id now others v t =
     (case find_mapping_for_upsert v t of
        Some m \<Rightarrow> update_mapping now v m t
      | None \<Rightarrow>
         (case insert_mapping new_id now v t of
            (Inl e, t1) \<Rightarrow> (Inl e, t1)
          | (Inr True, t1) \<Rightarrow> (Inr (new_mapping new_id now v), t1)
          | (Inr False, t1) \<Rightarrow>
             (let t2 = others t1 in
              case find_mapping_for_upsert v t2 of
                None \<Rightarrow> (Inl (RuntimeError ''Could not upsert customer channel mapping''), t2)
              | Some m \<Rightarrow> update_mapping now v m t2)))"

section \<open>Verified senders\<close>

datatype sender_status = Ignored | Conflict | Existing string | Created string

definition sender_values :: "string \<Rightarrow> string \<Rightarrow> mapping_values" where
  "sender_values cid author = \<lparr>mv_customer = cid, mv_provider = ''meta'', mv_channel = ''instagram'',
     mv_contact = None, mv_lead = None, mv_chat = None, mv_talk = None, mv_author = Some author,
     mv_origin = Some ''story_reply''\<rparr>"

definition persist_verified_meta_instagram_sender ::
  "string \<Rightarrow> int \<Rightarrow> string \<Rightarrow> string \<Rightarrow> mapping_row list \<Rightarrow> sender_status \<times> mapping_row list" where
  "persist_verified_meta_instagram_sender new_id now customer author t =
     (let cid = py_strip customer; aid = py_strip author;
          meta = (\<lambda>m. mp_provider m = ''meta'' \<and> mp_channel m = ''instagram'') in
      if cid = [] \<or> aid = [] then (Ignored, t)
      else (case find (\<lambda>m. meta m \<and> mp_author m = Some aid) t of
              Some m \<Rightarrow> (if mp_customer m \<noteq> cid then Conflict else Existing (mp_id m), t)
            | None \<Rightarrow>
               (case find (\<lambda>m. mp_customer m = cid \<and> meta m) t of
                  Some m \<Rightarrow> (if (case mp_author m of None \<Rightarrow> ''None'' | Some a \<Rightarrow> a) \<noteq> aid then Conflict
                             else Existing (mp_id m), t)
                | None \<Rightarrow>
                   (case insert_mapping new_id now (sender_values cid aid) t of
                      (Inr True, t1) \<Rightarrow> (Created new_id, t1) | (_, t1) \<Rightarrow> (Conflict, t1)))))"

section \<open>The indexes hold\<close>

lemma collides_sym: "collides m n = collides n m"
  unfolding collides_def by metis

lemma merged_fields [simp]: "mp_id (merged_mapping now v m) = mp_id m"
  by (simp add: merged_mapping_def)

lemma merged_external: "any_external m \<Longrightarrow> any_external (merged_mapping now v m)"
  by (auto simp: any_external_def merged_mapping_def coalesce_opt_def split: option.splits)

lemma latest_mapping_in: "latest_mapping p t = Some m \<Longrightarrow> m \<in> set t \<and> p m"
proof -
  assume a: "latest_mapping p t = Some m"
  obtain ms where "sort_key (\<lambda>m. - mp_updated m) (filter p t) = m # ms"
    using a by (auto simp: latest_mapping_def split: list.splits)
  then have "m \<in> set (sort_key (\<lambda>m. - mp_updated m) (filter p t))" by (metis list.set_intros(1))
  then show ?thesis by simp
qed

lemma first_some_in: "first_some f xs = Some y \<Longrightarrow> \<exists>x \<in> set xs. f x = Some y"
  by (induction xs) (auto split: option.splits)

lemma find_mapping_in: "find_mapping_for_upsert v t = Some m \<Longrightarrow> m \<in> set t"
  by (auto simp: find_mapping_for_upsert_def by_column_def dest!: first_some_in latest_mapping_in split: if_splits)

lemma insert_mapping_ok:
  assumes "mappings_ok t" "new_id \<notin> mp_id ` set t"
  shows "mappings_ok (snd (insert_mapping new_id now v t))"
proof (cases "any_external (new_mapping new_id now v) \<and> \<not> list_ex (\<lambda>n. collides (new_mapping new_id now v) n) t")
  case True
  have "mp_id (new_mapping new_id now v) = new_id" by (simp add: new_mapping_def)
  then show ?thesis
    using True assms by (auto simp: insert_mapping_def Let_def mappings_ok_def list_ex_iff collides_sym)
next
  case False
  then show ?thesis using assms(1) by (auto simp: insert_mapping_def Let_def)
qed

lemma update_mapping_ok:
  assumes "mappings_ok t" "m \<in> set t"
  shows "mappings_ok (snd (update_mapping now v m t))"
proof (cases "list_ex (\<lambda>n. mp_id n \<noteq> mp_id m \<and> collides (merged_mapping now v m) n) t")
  case False
  define m' where "m' = merged_mapping now v m"
  have free: "\<not> collides m' n" if "n \<in> set t" "mp_id n \<noteq> mp_id m" for n
    using False that by (auto simp: list_ex_iff m'_def)
  have rows: "n = m' \<or> (n \<in> set t \<and> mp_id n \<noteq> mp_id m)" if "n \<in> set (upd_where (\<lambda>n. mp_id n = mp_id m) (\<lambda>_. m') t)" for n
    using that by (auto simp: in_upd_where split: if_splits)
  have ids: "map mp_id (upd_where (\<lambda>n. mp_id n = mp_id m) (\<lambda>_. m') t) = map mp_id t"
    by (rule map_key_upd_where) (simp add: m'_def)
  have "any_external m'" using assms by (auto simp: mappings_ok_def m'_def merged_external)
  then have "mappings_ok (upd_where (\<lambda>n. mp_id n = mp_id m) (\<lambda>_. m') t)"
    using assms(1) rows free ids collides_sym unfolding mappings_ok_def by metis
  then show ?thesis using False by (simp add: update_mapping_def Let_def m'_def)
next
  case True
  then show ?thesis using assms(1) by (simp add: update_mapping_def Let_def)
qed

lemma upsert_mapping_ok:
  assumes "mappings_ok t" "new_id \<notin> mp_id ` set t" "mappings_ok (others t)"
  shows "mappings_ok (snd (upsert_mapping new_id now others v t))"
proof (cases "find_mapping_for_upsert v t")
  case (Some m)
  then show ?thesis using update_mapping_ok[OF assms(1) find_mapping_in] by (simp add: upsert_mapping_def)
next
  case None
  obtain r t1 where i: "insert_mapping new_id now v t = (r, t1)" by fastforce
  have ok: "mappings_ok t1" using insert_mapping_ok[OF assms(1,2), of now v] i by simp
  have same: "t1 = t" if "r = Inr False" using that i by (auto simp: insert_mapping_def Let_def split: if_splits)
  show ?thesis
  proof (cases "r = Inr False")
    case True
    then show ?thesis
      using None i same assms(3) update_mapping_ok[OF assms(3) find_mapping_in]
      by (auto simp: upsert_mapping_def Let_def split: option.split)
  next
    case False
    then show ?thesis using None i ok
      by (cases r) (auto simp: upsert_mapping_def split: bool.splits)
  qed
qed

lemma persist_result:
  assumes "py_strip author \<noteq> ''None''"
    and "fst (persist_verified_meta_instagram_sender new_id now customer author t) \<in> {Existing i, Created i}"
  shows "\<exists>m \<in> set (snd (persist_verified_meta_instagram_sender new_id now customer author t)).
           mp_id m = i \<and> mp_customer m = py_strip customer \<and> mp_author m = Some (py_strip author)
           \<and> mp_provider m = ''meta'' \<and> mp_channel m = ''instagram''"
proof -
  define cid where "cid = py_strip customer"
  define aid where "aid = py_strip author"
  define p :: "mapping_row \<Rightarrow> bool" where "p = (\<lambda>m. (mp_provider m = ''meta'' \<and> mp_channel m = ''instagram'') \<and> mp_author m = Some aid)"
  define q :: "mapping_row \<Rightarrow> bool" where "q = (\<lambda>m. mp_customer m = cid \<and> mp_provider m = ''meta'' \<and> mp_channel m = ''instagram'')"
  let ?r = "persist_verified_meta_instagram_sender new_id now customer author t"
  have run: "?r = (if cid = [] \<or> aid = [] then (Ignored, t)
      else (case find p t of
              Some m \<Rightarrow> (if mp_customer m \<noteq> cid then Conflict else Existing (mp_id m), t)
            | None \<Rightarrow>
               (case find q t of
                  Some m \<Rightarrow> (if (case mp_author m of None \<Rightarrow> ''None'' | Some a \<Rightarrow> a) \<noteq> aid then Conflict
                             else Existing (mp_id m), t)
                | None \<Rightarrow> (case insert_mapping new_id now (sender_values cid aid) t of
                      (Inr True, t1) \<Rightarrow> (Created new_id, t1) | (_, t1) \<Rightarrow> (Conflict, t1)))))"
    unfolding persist_verified_meta_instagram_sender_def Let_def cid_def aid_def p_def q_def by (rule refl)
  have ne: "\<not> (cid = [] \<or> aid = [])" using assms(2) unfolding run by auto
  consider m where "find p t = Some m" | m where "find p t = None" "find q t = Some m"
    | "find p t = None" "find q t = None" by (cases "find p t"; cases "find q t") auto
  then show ?thesis
  proof cases
    case 1
    then have "m \<in> set t" "p m" by (auto simp: find_Some_iff)
    then show ?thesis using assms(2) ne 1 unfolding run
      by (auto simp: p_def cid_def aid_def split: if_splits)
  next
    case 2
    then have "m \<in> set t" "q m" by (auto simp: find_Some_iff)
    then show ?thesis using assms ne 2 unfolding run
      by (auto simp: q_def cid_def aid_def split: if_splits option.splits)
  next
    case 3
    then show ?thesis using assms(2) ne unfolding run
      by (auto simp: insert_mapping_def Let_def new_mapping_def sender_values_def cid_def aid_def split: if_splits)
  qed
qed

text \<open>Channel mappings keep their unique identifiers: storing the identifiers of a customer and binding a
  verified Instagram sender leave at most one customer per chat, per conversation and per verified
  sender. Binding a sender changes no existing row, so a sender is never moved to another customer, and
  an answer other than ignored or conflict names a row that binds exactly this sender to this customer.\<close>

theorem mappings_stay_unique:
  assumes "mappings_ok t" "new_id \<notin> mp_id ` set t" "mappings_ok (others t)" "py_strip author \<noteq> ''None''"
  shows "mappings_ok (snd (upsert_mapping new_id now others v t))
    \<and> mappings_ok (snd (persist_verified_meta_instagram_sender new_id now customer author t))
    \<and> set t \<subseteq> set (snd (persist_verified_meta_instagram_sender new_id now customer author t))
    \<and> (\<forall>i. fst (persist_verified_meta_instagram_sender new_id now customer author t) \<in> {Existing i, Created i} \<longrightarrow>
        (\<exists>m \<in> set (snd (persist_verified_meta_instagram_sender new_id now customer author t)).
           mp_id m = i \<and> mp_customer m = py_strip customer \<and> mp_author m = Some (py_strip author)
           \<and> mp_provider m = ''meta'' \<and> mp_channel m = ''instagram''))"
proof -
  have ins: "mappings_ok (snd (insert_mapping new_id now v t))" "set t \<subseteq> set (snd (insert_mapping new_id now v t))" for v
    using insert_mapping_ok[OF assms(1,2)] by (auto simp: insert_mapping_def Let_def)
  have t': "snd (persist_verified_meta_instagram_sender new_id now customer author t) \<in>
      {t, snd (insert_mapping new_id now (sender_values (py_strip customer) (py_strip author)) t)}"
    by (auto simp: persist_verified_meta_instagram_sender_def Let_def split: option.splits prod.splits sum.splits bool.splits)
  then have "mappings_ok (snd (persist_verified_meta_instagram_sender new_id now customer author t))"
    "set t \<subseteq> set (snd (persist_verified_meta_instagram_sender new_id now customer author t))"
    using ins assms(1) by (metis (no_types, lifting) empty_iff insert_iff order_refl)+
  then show ?thesis using upsert_mapping_ok[of t new_id others now v] assms(1-3) persist_result[OF assms(4)] by blast
qed

definition sample_mappings :: "mapping_row list" where
  "sample_mappings = snd (persist_verified_meta_instagram_sender ''m1'' 0 ''c1'' ''ig1'' [])"

theorem mappings_stay_unique_witness:
  "fst (persist_verified_meta_instagram_sender ''m2'' 1 ''c2'' ''ig1'' sample_mappings) = Conflict
   \<and> mappings_ok (snd (persist_verified_meta_instagram_sender ''m2'' 1 ''c2'' ''ig1'' sample_mappings))
   \<and> fst (persist_verified_meta_instagram_sender ''m2'' 1 ''c2'' ''ig2'' sample_mappings) = Created ''m2''
   \<and> mappings_ok (snd (persist_verified_meta_instagram_sender ''m2'' 1 ''c2'' ''ig2'' sample_mappings))"
proof -
  have pre: "mappings_ok sample_mappings" "''m2'' \<notin> mp_id ` set sample_mappings"
    "py_strip ''ig1'' \<noteq> ''None''" "py_strip ''ig2'' \<noteq> ''None''"
    "fst (persist_verified_meta_instagram_sender ''m2'' 1 ''c2'' ''ig1'' sample_mappings) = Conflict"
    "fst (persist_verified_meta_instagram_sender ''m2'' 1 ''c2'' ''ig2'' sample_mappings) = Created ''m2''"
    by code_simp+
  then show ?thesis
    using mappings_stay_unique[of sample_mappings "''m2''" id "''ig1''" 1 "sender_values [] []" "''c2''"]
          mappings_stay_unique[of sample_mappings "''m2''" id "''ig2''" 1 "sender_values [] []" "''c2''"] by simp
qed

end
