(* ===== verification/Escalations.thy ===== *)
theory Escalations
  imports Kommo_State Channel_Mappings Conversations Sessions
begin

text \<open>
  Escalations, \<open>store/app/crm/escalations.py\<close>: pausing the assistant for a customer, automatically with an
  expiry, by an administrator or from Kommo, and resuming it, with the reset of the conversation that
  goes with it. The state is the three tables involved; a transaction is one step. Times are seconds.
  The Kommo service is an argument: for each lead, the answer to setting its AI mode and reading it
  back. The part of \<open>kommo/state.py\<close> that calls these operations is here as well. Failures of the
  database itself are not modelled.
\<close>

record crm_store =
  cs_customers :: "customer list"
  cs_messages :: "message list"
  cs_sessions :: "session_row list"

section \<open>Timeouts\<close>

definition default_timeout_minutes :: int where "default_timeout_minutes = 180"
definition min_timeout_minutes :: int where "min_timeout_minutes = 5"
definition max_timeout_minutes :: int where "max_timeout_minutes = 10080"
definition expired_batch_limit :: int where "expired_batch_limit = 10"

definition normalize_automatic_timeout_minutes :: "json \<Rightarrow> int" where
  "normalize_automatic_timeout_minutes v =
     (case j_int v of
        Inl _ \<Rightarrow> default_timeout_minutes
      | Inr m \<Rightarrow> (if m = 0 then 0
                  else if min_timeout_minutes \<le> m \<and> m \<le> max_timeout_minutes then m
                  else default_timeout_minutes))"

definition automatic_expiration_from_settings :: "(string \<times> json) list \<Rightarrow> int \<Rightarrow> int option" where
  "automatic_expiration_from_settings settings now =
     (let minutes = normalize_automatic_timeout_minutes
            (dget settings ''automatic_escalation_timeout_minutes'' (JVal (PInt default_timeout_minutes))) in
      if minutes = 0 then None else Some (now + minutes * 60))"

section \<open>Pausing and mirroring\<close>

definition update_customers ::
  "(customer \<Rightarrow> bool) \<Rightarrow> (customer \<Rightarrow> customer) \<Rightarrow> crm_store \<Rightarrow> customer option \<times> crm_store" where
  "update_customers p f s =
     (map_option f (find p (cs_customers s)), s \<lparr>cs_customers := upd_where p f (cs_customers s)\<rparr>)"

definition unprotected :: "string \<Rightarrow> customer \<Rightarrow> bool" where
  "unprotected cid c = (c_id c = cid \<and> \<not> c_blocked c \<and> c_state c \<noteq> ''blocked'')"

definition paused :: "int \<Rightarrow> string \<Rightarrow> int option \<Rightarrow> customer \<Rightarrow> customer" where
  "paused now source expires c = c \<lparr>c_state := ''escalated'', c_esc_source := Some source, c_esc_at := Some now,
     c_esc_expires := expires, c_last_active := now\<rparr>"

definition cleared :: "int \<Rightarrow> string \<Rightarrow> customer \<Rightarrow> customer" where
  "cleared now state c = c \<lparr>c_state := state, c_esc_source := None, c_esc_at := None, c_esc_expires := None,
     c_last_active := now\<rparr>"

definition set_channel :: "string option \<Rightarrow> customer \<Rightarrow> customer" where
  "set_channel channel c = (case channel of None \<Rightarrow> c | Some ch \<Rightarrow> c \<lparr>c_channel := ch\<rparr>)"

definition escalate_customer_automatically ::
  "string \<Rightarrow> (string \<times> json) list \<Rightarrow> int \<Rightarrow> crm_store \<Rightarrow> customer option \<times> crm_store" where
  "escalate_customer_automatically cid settings now s =
     update_customers (\<lambda>c. unprotected cid c \<and> (c_state c \<noteq> ''escalated'' \<or> c_esc_source c = Some ''automatic''))
       (paused now ''automatic'' (automatic_expiration_from_settings settings now)) s"

definition escalate_customer_manually ::
  "string \<Rightarrow> string option \<Rightarrow> int \<Rightarrow> crm_store \<Rightarrow> customer option \<times> crm_store" where
  "escalate_customer_manually cid channel now s =
     update_customers (\<lambda>c. c_id c = cid) (\<lambda>c. paused now ''manual'' None (set_channel channel c)) s"

definition mark_external_escalation :: "string \<Rightarrow> int \<Rightarrow> crm_store \<Rightarrow> customer option \<times> crm_store" where
  "mark_external_escalation cid now s =
     update_customers (unprotected cid)
       (\<lambda>c. if c_state c = ''escalated'' \<and> c_esc_source c = Some ''automatic''
            then c \<lparr>c_last_active := now\<rparr> else paused now ''external'' None c) s"

definition mark_external_active :: "string \<Rightarrow> int \<Rightarrow> crm_store \<Rightarrow> customer option \<times> crm_store" where
  "mark_external_active cid now s =
     update_customers (\<lambda>c. unprotected cid c \<and> (c_state c \<noteq> ''escalated'' \<or> c_esc_source c = Some ''external''))
       (cleared now ''active'') s"

definition reset_customer_context :: "int \<Rightarrow> string \<Rightarrow> crm_store \<Rightarrow> crm_store" where
  "reset_customer_context now cid s =
     s \<lparr>cs_messages := clear_history cid (cs_messages s),
        cs_sessions := snd (reset_session now (Some cid) (cs_sessions s))\<rparr>"

definition mark_customer_active_for_admin ::
  "string \<Rightarrow> string option \<Rightarrow> int \<Rightarrow> crm_store \<Rightarrow> customer option \<times> crm_store" where
  "mark_customer_active_for_admin cid channel now s =
     (case update_customers (\<lambda>c. c_id c = cid) (\<lambda>c. cleared now ''active'' (set_channel channel c)) s of
        (None, s1) \<Rightarrow> (None, s1)
      | (Some c, s1) \<Rightarrow> (Some c, reset_customer_context now cid s1))"

definition mark_customer_blocked ::
  "string \<Rightarrow> string option \<Rightarrow> int \<Rightarrow> crm_store \<Rightarrow> customer option \<times> crm_store" where
  "mark_customer_blocked cid channel now s =
     update_customers (\<lambda>c. c_id c = cid) (\<lambda>c. cleared now ''blocked'' (set_channel channel c)) s"

section \<open>Automatic resumption\<close>

record reactivation =
  rr_customer :: "string option"
  rr_status :: string
  rr_reason :: string
  rr_provider :: string
  rr_row :: "customer option"
  rr_lead :: "string option"

definition reactivation_result :: "string option \<Rightarrow> string \<Rightarrow> string \<Rightarrow> reactivation" where
  "reactivation_result cid status reason = \<lparr>rr_customer = cid, rr_status = status, rr_reason = reason,
     rr_provider = ''meta'', rr_row = None, rr_lead = None\<rparr>"

definition quick_skip_reason :: "customer \<Rightarrow> int \<Rightarrow> string option" where
  "quick_skip_reason c now =
     (if c_state c = ''blocked'' \<or> c_blocked c then Some ''blocked''
      else if c_state c \<noteq> ''escalated'' then Some ''not_escalated''
      else if c_esc_source c \<noteq> Some ''automatic'' then Some ''not_automatic''
      else (case c_esc_expires c of
              None \<Rightarrow> Some ''no_expiration''
            | Some e \<Rightarrow> (if now < e then Some ''not_expired'' else None)))"

text \<open>What the Kommo service does with a lead, and the tables and settings consulted.\<close>

record reactivation_env =
  re_config :: kommo_config
  re_mappings :: "mapping_row list"
  re_kommo :: "string \<Rightarrow> (string \<times> json) list answer"

definition reactivate_delivery_provider_if_needed :: "reactivation_env \<Rightarrow> string \<Rightarrow> string + string \<times> string option" where
  "reactivate_delivery_provider_if_needed env cid =
     (let cfg = re_config env in
      if kc_backend cfg \<noteq> ''kommo'' then Inr (''meta'', None)
      else (case get_mapping_by_customer cid ''kommo'' (re_mappings env) of
              None \<Rightarrow> Inr (''meta'', None)
            | Some m \<Rightarrow>
               (if \<not> present (mp_lead m) then Inr (''meta'', None)
                else if kc_active cfg = None then Inl ''kommo_active_enum_missing''
                else (let lead = the (mp_lead m) in
                  (case re_kommo env lead of
                     Raised t \<Rightarrow> (if str_contains ''not confirmed'' (py_lower (sanitize_kommo_error t))
                                then Inl ''kommo_active_not_confirmed'' else Inl ''kommo_sync_failed'')
                   | Answer lead_json \<Rightarrow>
                      (case extract_ai_mode_enum_from_lead lead_json cfg of
                         Inl _ \<Rightarrow> Inl ''kommo_sync_failed''
                       | Inr e \<Rightarrow> (if e \<noteq> kc_active cfg then Inl ''kommo_active_not_confirmed''
                                  else Inr (''kommo'', Some lead))))))))"

definition due :: "int \<Rightarrow> customer \<Rightarrow> bool" where
  "due now c = (c_state c = ''escalated'' \<and> c_esc_source c = Some ''automatic''
     \<and> (case c_esc_expires c of None \<Rightarrow> False | Some e \<Rightarrow> e \<le> now) \<and> \<not> c_blocked c)"

definition reactivate_expired_locked ::
  "reactivation_env \<Rightarrow> customer \<Rightarrow> int \<Rightarrow> crm_store \<Rightarrow> reactivation \<times> crm_store" where
  "reactivate_expired_locked env c now s =
     (let cid = c_id c; result = reactivation_result (Some cid) in
      case quick_skip_reason c now of
        Some reason \<Rightarrow> (result ''skipped'' reason, s)
      | None \<Rightarrow>
         (case reactivate_delivery_provider_if_needed env cid of
            Inl reason \<Rightarrow> ((result ''failed'' reason) \<lparr>rr_provider := ''kommo''\<rparr>, s)
          | Inr (provider, lead) \<Rightarrow>
             (case update_customers (\<lambda>r. c_id r = cid \<and> due now r \<and> c_esc_expires r = c_esc_expires c
                      \<and> c_esc_at r = c_esc_at c) (cleared now ''active'') s of
                (None, s1) \<Rightarrow> ((result ''skipped'' ''stale_state'') \<lparr>rr_provider := provider, rr_lead := lead\<rparr>, s1)
              | (Some row, s1) \<Rightarrow>
                  ((result ''reactivated'' ''expired'') \<lparr>rr_provider := provider, rr_row := Some row, rr_lead := lead\<rparr>,
                   reset_customer_context now cid s1))))"

datatype customer_arg = Row customer | Id string

definition reactivate_if_expired ::
  "reactivation_env \<Rightarrow> customer_arg \<Rightarrow> int \<Rightarrow> crm_store \<Rightarrow> reactivation \<times> crm_store" where
  "reactivate_if_expired env arg now s =
     (let cid = (case arg of Row c \<Rightarrow> c_id c | Id i \<Rightarrow> i) in
      if cid = [] then (reactivation_result None ''skipped'' ''missing_customer_id'', s)
      else (case (case arg of Row c \<Rightarrow> quick_skip_reason c now | Id _ \<Rightarrow> None) of
              Some reason \<Rightarrow> (reactivation_result (Some cid) ''skipped'' reason, s)
            | None \<Rightarrow>
               (case find_by c_id cid (cs_customers s) of
                  None \<Rightarrow> (reactivation_result (Some cid) ''skipped'' ''not_found'', s)
                | Some c \<Rightarrow> reactivate_expired_locked env c now s)))"

text \<open>The batch: the rows due, earliest expiry first, without those another session has locked.\<close>

definition batch_size :: "int \<Rightarrow> nat" where
  "batch_size limit = nat (max 1 (min (if limit = 0 then expired_batch_limit else limit) 100))"

definition due_rows :: "(string \<Rightarrow> bool) \<Rightarrow> int \<Rightarrow> int \<Rightarrow> crm_store \<Rightarrow> customer list" where
  "due_rows locked limit now s =
     take (batch_size limit) (sort_key (\<lambda>c. the (c_esc_expires c))
       (filter (\<lambda>c. due now c \<and> \<not> locked (c_id c)) (cs_customers s)))"

fun reactivate_rows :: "reactivation_env \<Rightarrow> int \<Rightarrow> customer list \<Rightarrow> crm_store \<Rightarrow> reactivation list \<times> crm_store" where
  "reactivate_rows env now [] s = ([], s)"
| "reactivate_rows env now (c # cs) s =
     (case reactivate_expired_locked env c now s of
        (r, s1) \<Rightarrow> (case reactivate_rows env now cs s1 of (rs, s2) \<Rightarrow> (r # rs, s2)))"

record batch_summary =
  bs_checked :: nat
  bs_reactivated :: nat
  bs_failed :: nat
  bs_skipped :: nat
  bs_results :: "reactivation list"

definition count_status :: "string \<Rightarrow> reactivation list \<Rightarrow> nat" where
  "count_status status rs = length (filter (\<lambda>r. rr_status r = status) rs)"

definition process_expired_automatic_escalations ::
  "reactivation_env \<Rightarrow> (string \<Rightarrow> bool) \<Rightarrow> int \<Rightarrow> int \<Rightarrow> crm_store \<Rightarrow> batch_summary \<times> crm_store" where
  "process_expired_automatic_escalations env locked limit now s =
     (case reactivate_rows env now (due_rows locked limit now s) s of
        (rs, s1) \<Rightarrow> (\<lparr>bs_checked = length rs, bs_reactivated = count_status ''reactivated'' rs,
          bs_failed = count_status ''failed'' rs, bs_skipped = count_status ''skipped'' rs, bs_results = rs\<rparr>, s1))"

section \<open>Kommo and the local state\<close>

definition sync_local_state_from_ai_mode ::
  "kommo_config \<Rightarrow> string \<Rightarrow> int option \<Rightarrow> int \<Rightarrow> crm_store \<Rightarrow> customer option \<times> crm_store" where
  "sync_local_state_from_ai_mode cfg cid enum now s =
     (case ai_mode_enum_to_local_state enum cfg of
        None \<Rightarrow> (None, s)
      | Some st \<Rightarrow> (if st = ''active'' then mark_external_active cid now s else mark_external_escalation cid now s))"

text \<open>The calls a local escalation makes, up to the first one that fails.\<close>

datatype kommo_call = UpdateAiMode string int | ChangeResponsible string int | AddNote string string

fun run_calls :: "(kommo_call \<Rightarrow> bool) \<Rightarrow> kommo_call list \<Rightarrow> kommo_call list" where
  "run_calls ok [] = []"
| "run_calls ok (c # cs) = c # (if ok c then run_calls ok cs else [])"

definition escalation_note :: "string \<Rightarrow> string \<Rightarrow> string \<Rightarrow> string" where
  "escalation_note reason urgency summary =
     ''Eva escalated this conversation to a human.'' @ newline @ ''Urgency: '' @ urgency @ newline
     @ ''Reason: '' @ reason @ newline @ newline @ ''Recent summary:'' @ newline @ summary"

definition sync_escalation_to_kommo ::
  "kommo_config \<Rightarrow> mapping_row list \<Rightarrow> (kommo_call \<Rightarrow> bool) \<Rightarrow> string \<Rightarrow> string \<Rightarrow> string \<Rightarrow> string
   \<Rightarrow> string option \<Rightarrow> kommo_call list" where
  "sync_escalation_to_kommo cfg mappings ok cid reason urgency summary lead =
     (if kc_backend cfg \<noteq> ''kommo'' then []
      else (case (if present lead then lead
                  else (case get_mapping_by_customer cid ''kommo'' mappings of
                          None \<Rightarrow> None | Some m \<Rightarrow> if present (mp_lead m) then mp_lead m else None)) of
              None \<Rightarrow> []
            | Some target \<Rightarrow>
               (case kc_human cfg of
                  None \<Rightarrow> []
                | Some human \<Rightarrow>
                   run_calls ok ([UpdateAiMode target human]
                     @ (case kc_responsible cfg of None \<Rightarrow> [] | Some u \<Rightarrow> if u = 0 then [] else [ChangeResponsible target u])
                     @ [AddNote target (escalation_note reason urgency summary)]))))"

section \<open>What the expiry of escalations may change\<close>

definition resumed :: "int \<Rightarrow> customer \<Rightarrow> customer \<Rightarrow> bool" where
  "resumed now r r' = (r' = r \<or> (due now r \<and> r' = cleared now ''active'' r))"

definition due_customer :: "int \<Rightarrow> crm_store \<Rightarrow> string \<Rightarrow> bool" where
  "due_customer now s cid = (\<exists>r \<in> set (cs_customers s). c_id r = cid \<and> due now r)"

text \<open>Only due rows are resumed, and only the conversations and sessions of their customers change.\<close>

definition expiry_step :: "int \<Rightarrow> crm_store \<Rightarrow> crm_store \<Rightarrow> bool" where
  "expiry_step now s s' \<longleftrightarrow>
     list_all2 (resumed now) (cs_customers s) (cs_customers s')
     \<and> (\<forall>m. m \<in> set (cs_messages s) \<longrightarrow> m \<in> set (cs_messages s') \<or> due_customer now s (cm_customer m))
     \<and> (\<forall>c. session_view (cs_sessions s') c = session_view (cs_sessions s) c
            \<or> (\<exists>cid. due_customer now s cid \<and> c = customer_id_text (Some cid)))"

lemma cleared_fields [simp]:
  "c_id (cleared now st c) = c_id c" "c_state (cleared now st c) = st" "c_blocked (cleared now st c) = c_blocked c"
  by (simp_all add: cleared_def)

lemma cleared_not_due [simp]: "\<not> due now (cleared now' ''active'' r)"
  by (simp add: due_def)

lemma resumed_refl [simp]: "resumed now r r"
  by (simp add: resumed_def)

lemma resumed_trans: "resumed now a b \<Longrightarrow> resumed now b c \<Longrightarrow> resumed now a c"
  by (auto simp: resumed_def)

lemma resumed_due: "resumed now r r' \<Longrightarrow> due now r' \<Longrightarrow> r' = r"
  by (auto simp: resumed_def)

lemma expiry_refl [simp]: "expiry_step now s s"
  by (simp add: expiry_step_def list_all2_refl)

lemma due_customer_back:
  assumes "list_all2 (resumed now) (cs_customers s) (cs_customers s')" "due_customer now s' cid"
  shows "due_customer now s cid"
proof -
  obtain r' where r': "r' \<in> set (cs_customers s')" "c_id r' = cid" "due now r'"
    using assms(2) by (auto simp: due_customer_def)
  then obtain r where "r \<in> set (cs_customers s)" "resumed now r r'"
    by (metis assms(1) in_set_conv_nth list_all2_conv_all_nth)
  then show ?thesis using r' resumed_due by (auto simp: due_customer_def)
qed

lemma expiry_trans:
  assumes "expiry_step now s t" "expiry_step now t u" shows "expiry_step now s u"
proof -
  have rows: "list_all2 (resumed now) (cs_customers s) (cs_customers t)"
    "list_all2 (resumed now) (cs_customers t) (cs_customers u)"
    using assms by (simp_all add: expiry_step_def)
  have before: "due_customer now t cid \<Longrightarrow> due_customer now s cid" for cid
    using due_customer_back[OF rows(1)] .
  have all: "list_all2 (resumed now) (cs_customers s) (cs_customers u)"
    using list_all2_trans[OF _ rows] resumed_trans by blast
  moreover have "m \<in> set (cs_messages s) \<longrightarrow> m \<in> set (cs_messages u) \<or> due_customer now s (cm_customer m)" for m
    using assms before unfolding expiry_step_def by meson
  moreover have "session_view (cs_sessions u) c = session_view (cs_sessions s) c
      \<or> (\<exists>cid. due_customer now s cid \<and> c = customer_id_text (Some cid))" for c
    using assms before unfolding expiry_step_def by metis
  ultimately show ?thesis by (simp add: expiry_step_def)
qed

lemma expiry_locked: "expiry_step now s (snd (reactivate_expired_locked env c now s))"
proof -
  define p where "p = (\<lambda>r. c_id r = c_id c \<and> due now r \<and> c_esc_expires r = c_esc_expires c \<and> c_esc_at r = c_esc_at c)"
  define s1 where "s1 = s \<lparr>cs_customers := upd_where p (cleared now ''active'') (cs_customers s)\<rparr>"
  have upd: "update_customers p (cleared now ''active'') s = (map_option (cleared now ''active'') (find p (cs_customers s)), s1)"
    by (simp add: update_customers_def s1_def)
  have rows: "list_all2 (resumed now) (cs_customers s) (cs_customers s1)"
    by (auto simp: s1_def upd_where_def list_all2_map2 p_def resumed_def list_all2_same)
  have s1: "find p (cs_customers s) = None \<Longrightarrow> s1 = s"
    by (simp add: s1_def upd_where_none find_None_iff)
  have full: "expiry_step now s (reset_customer_context now (c_id c) s1)" if "find p (cs_customers s) \<noteq> None"
  proof -
    have d: "due_customer now s (c_id c)"
      using that unfolding due_customer_def find_None_iff p_def by blast
    have "session_view (snd (reset_session now (Some (c_id c)) (cs_sessions s))) x = session_view (cs_sessions s) x
        \<or> x = customer_id_text (Some (c_id c))" for x
      by (simp add: view_reset_session)
    then show ?thesis using rows d
      by (auto simp: expiry_step_def reset_customer_context_def s1_def clear_history_def sql_simps)
  qed
  show ?thesis
    unfolding reactivate_expired_locked_def Let_def p_def[symmetric]
    using full s1 by (auto simp: upd split: option.splits sum.splits)
qed

lemma reactivate_rows_Cons:
  "reactivate_rows env now (c # cs) s =
     (let a = reactivate_expired_locked env c now s; b = reactivate_rows env now cs (snd a) in (fst a # fst b, snd b))"
  by (simp add: split_def Let_def)

declare reactivate_rows.simps(2) [simp del]

lemma expiry_rows: "expiry_step now s (snd (reactivate_rows env now cs s))"
proof (induction cs arbitrary: s)
  case (Cons c cs)
  then show ?case using expiry_locked[of now s env c] expiry_trans by (fastforce simp: reactivate_rows_Cons Let_def)
qed simp

lemma status_cases:
  "rr_status (fst (reactivate_expired_locked env c now s)) \<in> {''reactivated'', ''failed'', ''skipped''}"
  by (auto simp: reactivate_expired_locked_def Let_def reactivation_result_def split: option.splits sum.splits prod.splits)

lemma rows_length: "length (fst (reactivate_rows env now cs s)) = length cs"
  by (induction cs arbitrary: s) (simp_all add: reactivate_rows_Cons Let_def)

lemma rows_counted:
  "(\<forall>r \<in> set rs. rr_status r \<in> {''reactivated'', ''failed'', ''skipped''})
   \<Longrightarrow> count_status ''reactivated'' rs + count_status ''failed'' rs + count_status ''skipped'' rs = length rs"
  by (induction rs) (auto simp: count_status_def)

lemma rows_status:
  "\<forall>r \<in> set (fst (reactivate_rows env now cs s)). rr_status r \<in> {''reactivated'', ''failed'', ''skipped''}"
proof (induction cs arbitrary: s)
  case (Cons c cs)
  then show ?case using status_cases[of env c now s] by (simp add: reactivate_rows_Cons Let_def)
qed simp

text \<open>C33. Whatever the tables hold, whatever Kommo answers and whatever rows other sessions have locked,
  a run of the expiry job changes customer rows only by resuming rows that were escalated
  automatically, are not blocked and whose expiry has passed, clears the conversations and sessions of
  those customers only, and looks at between zero and a hundred rows, each of which it reports as
  resumed, failed or skipped.\<close>

theorem expiry_resumes_only_due:
  "expiry_step now s (snd (process_expired_automatic_escalations env locked limit now s))
   \<and> bs_checked (fst (process_expired_automatic_escalations env locked limit now s)) \<le> 100
   \<and> bs_reactivated (fst (process_expired_automatic_escalations env locked limit now s))
     + bs_failed (fst (process_expired_automatic_escalations env locked limit now s))
     + bs_skipped (fst (process_expired_automatic_escalations env locked limit now s))
     = bs_checked (fst (process_expired_automatic_escalations env locked limit now s))"
proof -
  define rs where "rs = due_rows locked limit now s"
  have "length rs \<le> 100"
    by (simp add: rs_def due_rows_def batch_size_def)
  then show ?thesis
    using expiry_rows[of now s env rs] rows_length[of env now rs s] rows_counted[OF rows_status[of env now rs s]]
    by (simp add: process_expired_automatic_escalations_def split_def flip: rs_def)
qed

section \<open>Expiry is not forgotten\<close>

lemma locked_resumes:
  assumes "due now c" "c \<in> set (cs_customers s)" "distinct (map c_id (cs_customers s))"
    and "reactivate_delivery_provider_if_needed env (c_id c) = Inr x"
  shows "cs_customers (snd (reactivate_expired_locked env c now s))
       = map (\<lambda>r. if r = c then cleared now ''active'' r else r) (cs_customers s)"
proof -
  define p where "p = (\<lambda>r. c_id r = c_id c \<and> due now r \<and> c_esc_expires r = c_esc_expires c \<and> c_esc_at r = c_esc_at c)"
  have p: "p r = (r = c)" if "r \<in> set (cs_customers s)" for r
    using that assms by (auto simp: p_def distinct_map inj_on_def)
  have q: "quick_skip_reason c now = None"
    using assms(1) by (auto simp: due_def quick_skip_reason_def split: option.splits)
  have "find p (cs_customers s) \<noteq> None" using assms(2) p by (auto simp: find_None_iff)
  then obtain r where r: "find p (cs_customers s) = Some r" by blast
  obtain provider lead where x: "x = (provider, lead)" by fastforce
  show ?thesis
    unfolding reactivate_expired_locked_def Let_def p_def[symmetric]
    using assms(4) q r p by (auto simp: x update_customers_def reset_customer_context_def upd_where_def)
qed

lemma rows_resumed:
  assumes "distinct cs" "set cs \<subseteq> set (cs_customers s)" "\<forall>c \<in> set cs. due now c"
    and "distinct (map c_id (cs_customers s))"
    and "\<And>cid. \<exists>x. reactivate_delivery_provider_if_needed env cid = Inr x"
  shows "cs_customers (snd (reactivate_rows env now cs s))
       = map (\<lambda>r. if r \<in> set cs then cleared now ''active'' r else r) (cs_customers s)"
  using assms(1-4)
proof (induction cs arbitrary: s)
  case (Cons c cs)
  obtain x where "reactivate_delivery_provider_if_needed env (c_id c) = Inr x" using assms(5) by blast
  then have s1: "cs_customers (snd (reactivate_expired_locked env c now s))
      = map (\<lambda>r. if r = c then cleared now ''active'' r else r) (cs_customers s)"
    using locked_resumes Cons.prems by simp
  define f where "f = (\<lambda>r. if r = c then cleared now ''active'' r else r)"
  have "c_id (f r) = c_id r" for r by (simp add: f_def)
  then have ids: "map c_id (map f (cs_customers s)) = map c_id (cs_customers s)" by simp
  have sub: "set cs \<subseteq> set (map f (cs_customers s))" using Cons.prems by (force simp: f_def)
  have new: "cleared now ''active'' c \<notin> set cs" using Cons.prems(3) cleared_not_due by force
  have "cs_customers (snd (reactivate_rows env now cs (snd (reactivate_expired_locked env c now s))))
      = map (\<lambda>r. if r \<in> set cs then cleared now ''active'' r else r) (map f (cs_customers s))"
    using Cons.IH[of "snd (reactivate_expired_locked env c now s)"] Cons.prems ids sub s1
    by (simp flip: f_def del: map_map)
  moreover have "(if f r \<in> set cs then cleared now ''active'' (f r) else f r)
      = (if r \<in> set (c # cs) then cleared now ''active'' r else r)" for r
    using new Cons.prems(1) by (auto simp: f_def)
  ultimately show ?case by (simp add: reactivate_rows_Cons Let_def)
qed simp

text \<open>Where customers are not served through Kommo, a run of the expiry job with room for all expired
  escalations leaves no unlocked customer in an expired automatic escalation.\<close>

theorem expired_escalations_end:
  assumes "kc_backend (re_config env) \<noteq> ''kommo''" "distinct (map c_id (cs_customers s))"
    and "length (filter (\<lambda>c. due now c \<and> \<not> locked (c_id c)) (cs_customers s)) \<le> batch_size limit"
    and "c \<in> set (cs_customers (snd (process_expired_automatic_escalations env locked limit now s)))"
    and "\<not> locked (c_id c)"
  shows "\<not> due now c"
proof -
  define cs where "cs = due_rows locked limit now s"
  have set: "set cs = {c \<in> set (cs_customers s). due now c \<and> \<not> locked (c_id c)}"
    using assms(3) by (simp add: cs_def due_rows_def)
  have dis: "distinct cs"
    using assms(2) by (simp add: cs_def due_rows_def distinct_map)
  have "cs_customers (snd (reactivate_rows env now cs s))
      = map (\<lambda>r. if r \<in> set cs then cleared now ''active'' r else r) (cs_customers s)"
    using dis assms(1,2) set by (intro rows_resumed) (auto simp: reactivate_delivery_provider_if_needed_def Let_def)
  then show ?thesis
    using assms(4,5) set by (auto simp: process_expired_automatic_escalations_def split_def simp flip: cs_def split: if_splits)
qed

lemma process_length:
  "length (cs_customers (snd (process_expired_automatic_escalations env locked limit now s))) = length (cs_customers s)"
  using expiry_rows[of now s env "due_rows locked limit now s"]
  by (auto simp: process_expired_automatic_escalations_def split_def expiry_step_def dest: list_all2_lengthD)

definition sample_kommo :: kommo_config where
  "sample_kommo = \<lparr>kc_backend = ''kommo'', kc_field = Some 7, kc_active = Some 1, kc_human = Some 2,
     kc_paused = Some 3, kc_responsible = None\<rparr>"

definition sample_env :: "string \<Rightarrow> (string \<times> json) list answer \<Rightarrow> reactivation_env" where
  "sample_env backend a = \<lparr>re_config = sample_kommo \<lparr>kc_backend := backend\<rparr>,
     re_mappings = [new_mapping ''m1'' 0 \<lparr>mv_customer = ''c1'', mv_provider = ''kommo'', mv_channel = ''whatsapp'',
       mv_contact = None, mv_lead = Some ''9'', mv_chat = None, mv_talk = None, mv_author = None, mv_origin = None\<rparr>],
     re_kommo = (\<lambda>_. a)\<rparr>"

definition sample_crm :: crm_store where
  "sample_crm = snd (escalate_customer_automatically ''c1'' [] 0
     \<lparr>cs_customers = [new_customer ''c1'' 0 ''whatsapp'' ''58'' None None None], cs_messages = [], cs_sessions = []\<rparr>)"

theorem expired_escalations_end_witness:
  "due 10800 (hd (cs_customers sample_crm))
   \<and> \<not> due 10800 (hd (cs_customers (snd (process_expired_automatic_escalations (sample_env ''meta'' (Raised '''')) (\<lambda>_. False) 10 10800 sample_crm))))"
proof -
  let ?s' = "snd (process_expired_automatic_escalations (sample_env ''meta'' (Raised '''')) (\<lambda>_. False) 10 10800 sample_crm)"
  have "kc_backend (re_config (sample_env ''meta'' (Raised ''''))) \<noteq> ''kommo''"
    "distinct (map c_id (cs_customers sample_crm))"
    "length (filter (\<lambda>c. due 10800 c \<and> \<not> False) (cs_customers sample_crm)) \<le> batch_size 10"
    "due 10800 (hd (cs_customers sample_crm))" by code_simp+
  moreover have "cs_customers ?s' \<noteq> []"
    using process_length[of "sample_env ''meta'' (Raised '''')" "\<lambda>_. False" 10 10800 sample_crm]
    by (simp add: sample_crm_def escalate_customer_automatically_def update_customers_def upd_where_def del: length_0_conv flip: length_0_conv)
  ultimately show ?thesis
    using expired_escalations_end[of "sample_env ''meta'' (Raised '''')" sample_crm 10800 "\<lambda>_. False" 10 "hd (cs_customers ?s')"]
    by simp
qed

section \<open>Resumption is confirmed by the provider\<close>

definition kommo_confirms :: "reactivation_env \<Rightarrow> string \<Rightarrow> bool" where
  "kommo_confirms env cid =
     (kc_backend (re_config env) \<noteq> ''kommo''
      \<or> (case get_mapping_by_customer cid ''kommo'' (re_mappings env) of
           None \<Rightarrow> True
         | Some m \<Rightarrow> \<not> present (mp_lead m) \<or>
            (case re_kommo env (the (mp_lead m)) of
               Raised _ \<Rightarrow> False
             | Answer lead_json \<Rightarrow> kc_active (re_config env) \<noteq> None
                 \<and> extract_ai_mode_enum_from_lead lead_json (re_config env) = Inr (kc_active (re_config env)))))"

lemma provider_confirms:
  "reactivate_delivery_provider_if_needed env cid = Inr x \<Longrightarrow> kommo_confirms env cid"
  by (auto simp: reactivate_delivery_provider_if_needed_def kommo_confirms_def Let_def
           split: option.splits if_splits answer.splits sum.splits)

lemma locked_confirmed:
  "rr_status (fst (reactivate_expired_locked env c now s)) = ''reactivated'' \<Longrightarrow> kommo_confirms env (c_id c)"
  by (auto simp: reactivate_expired_locked_def Let_def reactivation_result_def provider_confirms
           split: option.splits sum.splits)

lemma locked_unchanged:
  "rr_status (fst (reactivate_expired_locked env c now s)) \<noteq> ''reactivated''
   \<Longrightarrow> snd (reactivate_expired_locked env c now s) = s"
  by (auto simp: reactivate_expired_locked_def Let_def reactivation_result_def update_customers_def
                 find_None_iff upd_where_none
           split: option.splits sum.splits)


section \<open>Pauses set by a person\<close>

text \<open>A pause set by an administrator is relabelled by the mirror of an external one, and the mirror of an
  external activation then clears it.\<close>

theorem manual_pause_relabelled:
  "map (\<lambda>c. (c_state c, c_esc_source c)) (cs_customers (snd (escalate_customer_manually ''c1'' None 5 sample_crm)))
     = [(''escalated'', Some ''manual'')]
   \<and> map (\<lambda>c. (c_state c, c_esc_source c)) (cs_customers (snd (mark_external_active ''c1'' 7
        (snd (escalate_customer_manually ''c1'' None 5 sample_crm))))) = [(''escalated'', Some ''manual'')]
   \<and> map (\<lambda>c. (c_state c, c_esc_source c)) (cs_customers (snd (mark_external_active ''c1'' 7
        (snd (mark_external_escalation ''c1'' 6 (snd (escalate_customer_manually ''c1'' None 5 sample_crm)))))))
     = [(''active'', None)]"
  by (intro conjI; code_simp)

end
