(* ===== verification/Checkout.thy ===== *)
theory Checkout
  imports Reservations Shipping Sessions
begin

text \<open>
  The checkout service, \<open>store/app/ai/checkout/service.py\<close>, with the catalog search of
  \<open>ai/tools/catalog.py\<close> it uses: a model's partial update becomes a server draft whose products and delivery
  are resolved against the catalog and the delivery policy, and a complete draft becomes an order. It
  composes Sessions, Shipping and Reservations. Messages are constructors; the notification of the
  owner about a new order is left out.
\<close>

section \<open>Searching the catalog\<close>

definition stop_words :: "string list" where
  "stop_words = [''de'', ''la'', ''el'', ''los'', ''las'', ''un'', ''una'', ''del'']"

definition searchable_text :: "product \<Rightarrow> string" where
  "searchable_text p = normalize_catalog_text (join_with '' ''
     [p_sku p, p_parent_sku p, p_name p, p_brand p, p_category p, p_description p, p_size p])"

definition find_catalog_matches :: "product list \<Rightarrow> string \<Rightarrow> string \<Rightarrow> product list" where
  "find_catalog_matches catalog product_query size_filter =
     (let query = normalize_catalog_text product_query;
          terms = filter (\<lambda>t. 1 < length t \<and> t \<notin> set stop_words) (split_ws query);
          sz = normalize_variant_value (PStr size_filter) in
      if query = [] then []
      else filter (\<lambda>p. (str_contains query (searchable_text p)
                        \<or> (terms \<noteq> [] \<and> list_all (\<lambda>t. str_contains t (searchable_text p)) terms))
                     \<and> (sz = [] \<or> sz \<in> set (get_product_sizes p))) catalog)"

definition direct_catalog_matches :: "product list \<Rightarrow> string \<Rightarrow> string \<Rightarrow> product list" where
  "direct_catalog_matches catalog query sz =
     (let q = normalize_catalog_text query in
      filter (\<lambda>p. (let name = normalize_catalog_text (p_name p); brand = normalize_catalog_text (p_brand p) in
                   q \<in> set [normalize_catalog_text (p_sku p), normalize_catalog_text (p_parent_sku p), name,
                            join_with '' '' (filter (\<lambda>s. s \<noteq> []) [brand, name])])
                  \<and> (sz = [] \<or> sz \<in> set (get_product_sizes p))) catalog)"

text \<open>What resolving an item answers. Only the presentation that has to be chosen is not an error of its
  own.\<close>

datatype resolve_error =
    MissingProduct
  | NotInCatalog
  | PresentationUnavailable
  | OutOfStock
  | PresentationNeeded
  | NotEnoughUnits

fun error_field :: "resolve_error \<Rightarrow> string" where
  "error_field MissingProduct = ''items.product''"
| "error_field NotInCatalog = ''items''"
| "error_field PresentationUnavailable = ''items.size''"
| "error_field OutOfStock = ''items''"
| "error_field PresentationNeeded = ''items.size''"
| "error_field NotEnoughUnits = ''items.quantity''"

definition or_blank :: "string option \<Rightarrow> string option \<Rightarrow> string option" where
  "or_blank a b = (if blank a then b else a)"

definition item_query :: "draft_item \<Rightarrow> string" where
  "item_query i = opt_str (or_blank (di_canonical i) (or_blank (di_sku i) (or_blank (di_query i) (di_name i))))"

definition item_size :: "draft_item \<Rightarrow> string" where
  "item_size i = normalize_variant_value (PStr (opt_str (di_size i)))"

text \<open>A row of the catalog carries its stock as a number (see Catalog), so it is never unknown.\<close>

definition is_in_stock :: "product \<Rightarrow> bool" where
  "is_in_stock p = (0 < p_stock p)"

definition choose_product :: "draft_item \<Rightarrow> string \<Rightarrow> product list \<Rightarrow> resolve_error + product" where
  "choose_product i sz matches =
     (let stocked = filter is_in_stock matches in
      if stocked = [] then Inl OutOfStock
      else if sz = [] \<and> 1 < length stocked
        \<and> (1 < length (remdups (filter (\<lambda>v. v \<noteq> []) (concat (map get_product_sizes stocked))))
           \<or> 1 < length (remdups (map p_sku stocked)))
      then Inl PresentationNeeded
      else if (case di_quantity i of None \<Rightarrow> False | Some q \<Rightarrow> q \<noteq> 0 \<and> p_stock (hd stocked) < q)
      then Inl NotEnoughUnits
      else Inr (hd stocked))"

definition resolve_catalog_item :: "product list \<Rightarrow> draft_item \<Rightarrow> resolve_error + product" where
  "resolve_catalog_item catalog i =
     (let query = item_query i; sz = item_size i;
          found = find_catalog_matches catalog query sz;
          matches = (if found = [] then direct_catalog_matches catalog query sz else found);
          sized = filter (\<lambda>p. sz \<in> set (get_product_sizes p)) matches in
      if query = [] then Inl MissingProduct
      else if matches = [] then Inl NotInCatalog
      else if sz \<noteq> [] \<and> sized = [] then Inl PresentationUnavailable
      else choose_product i sz (if sz \<noteq> [] then sized else matches))"

definition canonical_order_item :: "draft_item \<Rightarrow> product \<Rightarrow> py_dict" where
  "canonical_order_item i p =
     [(''product_name'', PStr (p_name p)), (''sku'', PStr (p_sku p)),
      (''size'', PStr (if item_size i \<noteq> [] then item_size i
                      else (case get_product_sizes p of [s] \<Rightarrow> s | _ \<Rightarrow> []))),
      (''quantity'', case di_quantity i of None \<Rightarrow> PNone | Some q \<Rightarrow> PInt q),
      (''unit_price'', computed_float (p_price p))]"

section \<open>Normalising an update\<close>

record saved_delivery =
  sd_type :: "string option"
  sd_address :: "string option"
  sd_city :: "string option"
  sd_method :: "string option"
  sd_zone :: "string option"
  sd_agency :: "string option"

definition set_if :: "string \<Rightarrow> string option \<Rightarrow> (string \<times> json) list \<Rightarrow> (string \<times> json) list" where
  "set_if k v d = (if blank v then d else AList.update k (JVal (PStr (the v))) d)"

definition use_saved :: "saved_delivery \<Rightarrow> (string \<times> json) list \<Rightarrow> (string \<times> json) list" where
  "use_saved sd d = set_if ''pickup_agency'' (sd_agency sd) (set_if ''shipping_zone'' (sd_zone sd)
     (set_if ''shipping_method'' (sd_method sd) (set_if ''shipping_city'' (sd_city sd)
     (set_if ''shipping_address'' (sd_address sd) (set_if ''fulfillment_type'' (sd_type sd) d)))))"

definition find_payment_method_name :: "payment_method list \<Rightarrow> string \<Rightarrow> string option" where
  "find_payment_method_name methods name =
     map_option pm_name (find (\<lambda>m. normalize_catalog_text (pm_name m) = normalize_catalog_text name) methods)"

definition j_int :: "json \<Rightarrow> py_exc + int" where
  "j_int v = (case v of JVal p \<Rightarrow> py_int p | _ \<Rightarrow> Inl (TypeError ''int''))"

definition drop_keys :: "string list \<Rightarrow> (string \<times> json) list \<Rightarrow> (string \<times> json) list" where
  "drop_keys ks d = filter (\<lambda>(k, _). k \<notin> set ks) d"

definition clean_patch :: "(string \<times> json) list \<Rightarrow> (string \<times> json) list" where
  "clean_patch item =
     (let d0 = drop_keys [''unit_price'', ''price''] item;
          d1 = (if jget d0 ''quantity'' = JVal PNone then d0
                else (case j_int (jget d0 ''quantity'') of
                        Inl _ \<Rightarrow> drop_keys [''quantity''] d0
                      | Inr n \<Rightarrow> AList.update ''quantity'' (JVal (PInt (max n 1))) d0)) in
      if jget d1 ''size'' = JVal PNone then d1
      else AList.update ''size'' (JVal (PStr (normalize_variant_value (PStr (j_str_or_empty (jget d1 ''size'')))))) d1)"

definition apply_product :: "product \<Rightarrow> (string \<times> json) list \<Rightarrow> (string \<times> json) list" where
  "apply_product p d =
     (let s = (\<lambda>x. JVal (PStr x));
          d1 = AList.update ''parent_sku'' (s (p_parent_sku p)) (AList.update ''canonical_sku'' (s (p_sku p))
               (AList.update ''sku'' (s (p_sku p)) (AList.update ''product_name'' (s (p_name p)) d))) in
      (case get_product_sizes p of
         [sz] \<Rightarrow> (if j_truthy (jget d1 ''size'') then d1 else AList.update ''size'' (s sz) d1)
       | _ \<Rightarrow> d1))"

definition normalize_item_patch :: "product list \<Rightarrow> (string \<times> json) list \<Rightarrow> (string \<times> json) list" where
  "normalize_item_patch catalog item =
     (let clean = clean_patch item in
      case validate_item (JObj clean []) of
        None \<Rightarrow> clean
      | Some candidate \<Rightarrow>
         (if blank (di_query candidate) \<and> blank (di_sku candidate) \<and> blank (di_name candidate) \<and> blank (di_canonical candidate)
          then clean
          else (case resolve_catalog_item catalog candidate of Inl _ \<Rightarrow> clean | Inr p \<Rightarrow> apply_product p clean)))"

definition normalize_update ::
  "product list \<Rightarrow> saved_delivery \<Rightarrow> (string \<times> json) list \<Rightarrow> payment_method list \<Rightarrow> (string \<times> json) list" where
  "normalize_update catalog saved update methods =
     (let d0 = (if j_truthy (jget update ''use_saved_address'') then use_saved saved update else update);
          d1 = (case map_of d0 ''payment_method'' of
                  None \<Rightarrow> d0
                | Some v \<Rightarrow> (case find_payment_method_name methods (j_str_or_empty v) of
                               None \<Rightarrow> d0
                             | Some n \<Rightarrow> (if n = [] then d0 else AList.update ''payment_method'' (JVal (PStr n)) d0))) in
      case jget d1 ''items'' of
        JList items _ \<Rightarrow>
          AList.update ''items'' (JList (concat (map (\<lambda>x. case x of
             JObj d _ \<Rightarrow> [JObj (normalize_item_patch catalog d) []] | _ \<Rightarrow> []) items)) []) d1
      | _ \<Rightarrow> foldl (\<lambda>d (k, v). AList.update k v d) d1 (normalize_item_patch catalog d1))"

section \<open>Quotes\<close>

text \<open>The normalised policy as the dictionary that is handed on.\<close>

definition names_json :: "string list \<Rightarrow> json" where
  "names_json xs = JList (map (\<lambda>x. JVal (PStr x)) xs) []"

definition policy_json :: "shipping_policy \<Rightarrow> json" where
  "policy_json p = JObj
     [(''currency'', JVal (PStr (sp_currency p))),
      (''home_delivery_cities'', JList (map (\<lambda>c. JObj [(''name'', JVal (PStr (hc_name c))), (''aliases'', names_json (hc_aliases c))] []) (sp_cities p)) []),
      (''home_delivery_zones'', JList (map (\<lambda>z. JObj [(''city'', JVal (PStr (hz_city z))), (''name'', JVal (PStr (hz_name z))),
          (''aliases'', names_json (hz_aliases z)), (''fee_usd'', JVal (computed_float (hz_fee z)))] []) (sp_zones p)) []),
      (''courier_destination_rates'', JList (map (\<lambda>r. JObj [(''city'', JVal (PStr (cr_city r))), (''aliases'', names_json (cr_aliases r)),
          (''mrw_fee_usd'', JVal (computed_float (cr_mrw_fee r))), (''zoom_fee_usd'', JVal (computed_float (cr_zoom_fee r)))] []) (sp_rates p)) [])] []"

text \<open>\<open>None\<close>: the settings cannot be read because the database is not connected.\<close>

definition get_shipping_policy :: "(string \<times> json) list option \<Rightarrow> py_exc + shipping_policy" where
  "get_shipping_policy settings = normalize_shipping_policy (case settings of
     None \<Rightarrow> JObj default_shipping_policy [] | Some s \<Rightarrow> jget s ''shipping_policy'')"

definition opt_json :: "string option \<Rightarrow> json" where
  "opt_json v = JVal (case v of None \<Rightarrow> PNone | Some s \<Rightarrow> PStr s)"

definition quote_for_draft :: "checkout_draft \<Rightarrow> shipping_policy \<Rightarrow> py_exc + quote" where
  "quote_for_draft d policy =
     resolve_delivery_quote (policy_json policy) (opt_json (dr_city d)) (opt_json (dr_zone d)) (opt_json (dr_method d))"

fun quote_type :: "quote \<Rightarrow> string option" where
  "quote_type NeedsCity = None"
| "quote_type NeedsShippingMethod = Some ''courier_agency_pickup''"
| "quote_type (AgencyRateUnavailable _ _) = Some ''courier_agency_pickup''"
| "quote_type (AgencyQuoted _ _ _ _) = Some ''courier_agency_pickup''"
| "quote_type (NeedsDeliveryZone _ _) = Some ''home_delivery''"
| "quote_type (HomeRateUnavailable _ _) = Some ''home_delivery''"
| "quote_type (HomeQuoted _ _ _ _) = Some ''home_delivery''"

fun quote_city :: "quote \<Rightarrow> string option" where
  "quote_city (AgencyRateUnavailable c _) = Some c"
| "quote_city (AgencyQuoted c _ _ _) = Some c"
| "quote_city (NeedsDeliveryZone c _) = Some c"
| "quote_city (HomeRateUnavailable c _) = Some c"
| "quote_city (HomeQuoted c _ _ _) = Some c"
| "quote_city _ = None"

fun quote_zone :: "quote \<Rightarrow> string option" where
  "quote_zone (HomeQuoted _ z _ _) = Some z"
| "quote_zone _ = None"

fun quote_method :: "quote \<Rightarrow> string option" where
  "quote_method (AgencyRateUnavailable _ m) = Some m"
| "quote_method (AgencyQuoted _ m _ _) = Some m"
| "quote_method _ = None"

fun quote_fee :: "quote \<Rightarrow> rat" where
  "quote_fee (AgencyQuoted _ _ f _) = f"
| "quote_fee (HomeQuoted _ _ f _) = f"
| "quote_fee _ = 0"

fun quote_currency :: "quote \<Rightarrow> string" where
  "quote_currency (AgencyQuoted _ _ _ c) = c"
| "quote_currency (HomeQuoted _ _ _ c) = c"
| "quote_currency _ = ''USD''"

fun rate_unavailable :: "quote \<Rightarrow> bool" where
  "rate_unavailable (AgencyRateUnavailable _ _) = True"
| "rate_unavailable (HomeRateUnavailable _ _) = True"
| "rate_unavailable _ = False"

fun is_quoted :: "quote \<Rightarrow> bool" where
  "is_quoted (AgencyQuoted _ _ _ _) = True"
| "is_quoted (HomeQuoted _ _ _ _) = True"
| "is_quoted _ = False"

definition apply_delivery_context ::
  "(string \<times> json) list \<Rightarrow> shipping_policy \<Rightarrow> py_exc + (string \<times> json) list" where
  "apply_delivery_context update policy =
     (if map_of update ''shipping_city'' = None then Inr update
      else (case resolve_delivery_quote (policy_json policy) (jget update ''shipping_city'')
                   (jget update ''shipping_zone'') (jget update ''shipping_method'') of
              Inl e \<Rightarrow> Inl e
            | Inr q \<Rightarrow>
               (case quote_type q of
                  None \<Rightarrow> Inr update
                | Some t \<Rightarrow>
                   (let d1 = set_if ''shipping_city'' (quote_city q) (AList.update ''fulfillment_type'' (JVal (PStr t)) update) in
                    Inr (if t = ''home_delivery''
                         then set_if ''shipping_zone'' (quote_zone q)
                                (AList.update ''pickup_agency'' (JVal PNone) (AList.update ''shipping_method'' (JVal PNone) d1))
                         else AList.update ''shipping_zone'' (JVal PNone) (AList.update ''shipping_address'' (JVal PNone) d1))))))"

section \<open>Checking a draft\<close>

datatype checkout_error = ItemError resolve_error | RateError

definition validate_checkout :: "product list \<Rightarrow> checkout_draft \<Rightarrow> quote \<Rightarrow> checkout_error list" where
  "validate_checkout catalog d q =
     concat (map (\<lambda>i. case resolve_catalog_item catalog i of
                        Inl e \<Rightarrow> (if e = PresentationNeeded then [] else [ItemError e])
                      | Inr _ \<Rightarrow> []) (dr_items d))
     @ (if rate_unavailable q then [RateError] else [])"

definition ends_with :: "string \<Rightarrow> string \<Rightarrow> bool" where
  "ends_with suffix s = (length suffix \<le> length s \<and> drop (length s - length suffix) s = suffix)"

definition missing_presentation :: "product list \<Rightarrow> nat \<Rightarrow> draft_item \<Rightarrow> string list" where
  "missing_presentation catalog n i =
     (if \<not> blank (di_size i) \<or> (blank (di_canonical i) \<and> blank (di_sku i) \<and> blank (di_query i) \<and> blank (di_name i))
      then []
      else (if resolve_catalog_item catalog i = Inl PresentationNeeded
            then [''items['' @ show_nat n @ ''].size''] else []))"

definition checkout_missing_fields :: "product list \<Rightarrow> checkout_draft \<Rightarrow> quote \<Rightarrow> string list" where
  "checkout_missing_fields catalog d q = dedupe
     (filter (\<lambda>f. \<not> ends_with ''.size'' f
           \<and> f \<notin> set [''shipping_method'', ''shipping_address'', ''shipping_zone'', ''pickup_agency'']) (missing_fields d)
      @ concat (map (\<lambda>(n, i). missing_presentation catalog n i) (enumerate 0 (dr_items d)))
      @ (case or_blank (quote_type q) (dr_fulfillment d) of
           Some t \<Rightarrow>
             (if t = ''home_delivery'' then missing_if ''shipping_zone'' (dr_zone d) @ missing_if ''shipping_address'' (dr_address d)
              else if t = ''courier_agency_pickup''
              then missing_if ''shipping_method'' (dr_method d) @ missing_if ''pickup_agency'' (dr_agency d)
              else missing_if ''shipping_method'' (dr_method d) @ missing_if ''shipping_address'' (dr_address d))
         | None \<Rightarrow> missing_if ''shipping_method'' (dr_method d) @ missing_if ''shipping_address'' (dr_address d)))"

section \<open>Updating the draft\<close>

record update_answer =
  ua_status :: string
  ua_draft :: checkout_draft
  ua_missing :: "string list"
  ua_errors :: "checkout_error list"
  ua_quote :: quote
  ua_stage :: string

definition answer_update ::
  "int \<Rightarrow> string \<Rightarrow> product list \<Rightarrow> quote \<Rightarrow> session \<Rightarrow> session_row list \<Rightarrow> update_answer \<times> session_row list" where
  "answer_update now cid catalog q se t =
     (let d = se_draft se; errors = validate_checkout catalog d q; missing = checkout_missing_fields catalog d q;
          complete = (errors = [] \<and> missing = []) in
      if se_stage se = ''waiting_for_payment''
      then (\<lparr>ua_status = ''payment_pending'', ua_draft = d, ua_missing = [], ua_errors = [], ua_quote = q,
              ua_stage = se_stage se\<rparr>, t)
      else (case (if complete \<and> se_stage se \<noteq> ''checkout_ready''
                  then (let (se', t') = set_workflow_stage now (Some cid) ''checkout_ready'' t in (se_stage se', t'))
                  else (se_stage se, t)) of
              (stage, t') \<Rightarrow> (\<lparr>ua_status = (if complete then ''ok'' else ''needs_more_info''), ua_draft = d,
                 ua_missing = missing, ua_errors = errors, ua_quote = q, ua_stage = stage\<rparr>, t')))"

definition checkout_update_draft ::
  "int \<Rightarrow> (string \<times> json) list option \<Rightarrow> product list \<Rightarrow> string \<Rightarrow> saved_delivery \<Rightarrow> (string \<times> json) list
   \<Rightarrow> payment_method list \<Rightarrow> session_row list \<Rightarrow> (py_exc + update_answer) \<times> session_row list" where
  "checkout_update_draft now settings catalog cid saved update methods t =
     (case get_shipping_policy settings of
        Inl e \<Rightarrow> (Inl e, t)
      | Inr policy \<Rightarrow>
     (case apply_delivery_context (normalize_update catalog saved update methods) policy of
        Inl e \<Rightarrow> (Inl e, t)
      | Inr u \<Rightarrow>
     (case update_checkout_draft now (Some cid) (JObj u []) t of
        (se, t1) \<Rightarrow>
          (case quote_for_draft (se_draft se) policy of
             Inl e \<Rightarrow> (Inl e, t1)
           | Inr q \<Rightarrow> (case answer_update now cid catalog q se t1 of (a, t2) \<Rightarrow> (Inr a, t2))))))"

definition cancel_checkout :: "int \<Rightarrow> string \<Rightarrow> session_row list \<Rightarrow> session_row list" where
  "cancel_checkout now cid t = snd (reset_session now (Some cid) t)"

section \<open>Making the order\<close>

record checkout_world =
  cw_sessions :: "session_row list"
  cw_db :: store_db
  cw_stock :: inv_world
  cw_saved :: "(string \<times> saved_delivery) list"

record finalized =
  fz_already :: bool
  fz_order :: string
  fz_items :: "py_dict list"
  fz_total :: rat
  fz_subtotal :: rat
  fz_discount_applied :: bool
  fz_discount_amount :: rat
  fz_merch :: rat
  fz_fee :: rat
  fz_currency :: string
  fz_type :: "string option"
  fz_city :: "string option"
  fz_zone :: "string option"
  fz_method :: "string option"
  fz_agency :: "string option"
  fz_payment :: "string option"
  fz_instructions :: string

definition payment_instructions :: "payment_method list \<Rightarrow> string option \<Rightarrow> string" where
  "payment_instructions methods name =
     (if blank name then []
      else (case find (\<lambda>m. normalize_catalog_text (pm_name m) = normalize_catalog_text (the name)) methods of
              None \<Rightarrow> [] | Some m \<Rightarrow> py_strip (pm_info m)))"

definition or_rat :: "rat \<Rightarrow> rat \<Rightarrow> rat" where
  "or_rat a b = (if a = 0 then b else a)"

definition existing_response :: "order \<times> order_pricing \<Rightarrow> payment_method list \<Rightarrow> finalized" where
  "existing_response = (\<lambda>(o', p) methods.
     \<lparr>fz_already = True, fz_order = o_id o', fz_items = o_items o', fz_total = o_total o',
      fz_subtotal = or_rat (op_subtotal p) (o_total o'), fz_discount_applied = op_discount_applied p,
      fz_discount_amount = op_discount_amount p, fz_merch = or_rat (op_merch p) (o_total o'),
      fz_fee = op_fee p, fz_currency = (if op_fee_currency p = [] then ''USD'' else op_fee_currency p),
      fz_type = o_fulfil o', fz_city = o_ship_city o', fz_zone = o_zone o', fz_method = o_ship_method o',
      fz_agency = o_agency o', fz_payment = o_method o',
      fz_instructions = payment_instructions methods (o_method o')\<rparr>)"

definition created_response :: "order_created \<Rightarrow> string option \<Rightarrow> payment_method list \<Rightarrow> finalized" where
  "created_response oc fulfil methods =
     (let po = oc_prepared oc; pg = po_pricing po; method = Some (po_method po) in
      \<lparr>fz_already = (\<not> oc_new oc), fz_order = oc_id oc, fz_items = po_items po, fz_total = oc_total oc,
       fz_subtotal = or_rat (pg_subtotal pg) (oc_total oc), fz_discount_applied = pg_discount_applied pg,
       fz_discount_amount = pg_discount_amount pg, fz_merch = or_rat (pg_total pg) (oc_total oc),
       fz_fee = po_fee po, fz_currency = po_currency po, fz_type = fulfil, fz_city = Some (po_city po),
       fz_zone = po_zone po, fz_method = po_ship_method po, fz_agency = po_agency po, fz_payment = method,
       fz_instructions = payment_instructions methods method\<rparr>)"

datatype finalize_answer =
    Finalized finalized
  | ExistingUnpaid string
  | LimitReached nat
  | DraftMissing checkout_draft "string list" quote
  | DraftErrors checkout_draft "checkout_error list"
  | ItemRefused checkout_draft resolve_error

fun resolve_items :: "product list \<Rightarrow> draft_item list \<Rightarrow> resolve_error + py_dict list" where
  "resolve_items catalog [] = Inr []"
| "resolve_items catalog (i # is) =
     (case resolve_catalog_item catalog i of
        Inl e \<Rightarrow> Inl e
      | Inr p \<Rightarrow> (case resolve_items catalog is of Inl e \<Rightarrow> Inl e | Inr xs \<Rightarrow> Inr (canonical_order_item i p # xs)))"

definition checkout_request :: "string \<Rightarrow> checkout_draft \<Rightarrow> quote \<Rightarrow> py_dict list \<Rightarrow> order_request" where
  "checkout_request cid d q items =
     \<lparr>rq_customer = cid, rq_items = RawItems (map Some items), rq_method = Some (opt_str (dr_payment d)),
      rq_city = or_blank (quote_city q) (dr_city d),
      rq_addr = (if quote_type q = Some ''home_delivery'' then dr_address d else None),
      rq_ship_method = quote_method q, rq_fulfil = quote_type q, rq_zone = quote_zone q,
      rq_agency = (if quote_type q = Some ''courier_agency_pickup'' then dr_agency d else None),
      rq_fee = JVal (computed_float (quote_fee q)), rq_currency = quote_currency q\<rparr>"

definition delivery_to_save :: "checkout_draft \<Rightarrow> quote \<Rightarrow> saved_delivery" where
  "delivery_to_save d q =
     \<lparr>sd_type = quote_type q, sd_address = (if quote_type q = Some ''home_delivery'' then dr_address d else None),
      sd_city = Some (opt_str (or_blank (quote_city q) (dr_city d))), sd_method = Some (opt_str (quote_method q)),
      sd_zone = quote_zone q,
      sd_agency = (if quote_type q = Some ''courier_agency_pickup'' then dr_agency d else None)\<rparr>"

definition save_shipping_address :: "string \<Rightarrow> checkout_draft \<Rightarrow> quote \<Rightarrow> checkout_world \<Rightarrow> checkout_world" where
  "save_shipping_address cid d q w =
     (if find_by c_id cid (db_customers (cw_db w)) = None then w
      else w \<lparr>cw_saved := AList.update cid (delivery_to_save d q) (cw_saved w)\<rparr>)"

definition tag_payment :: "string \<Rightarrow> checkout_draft \<Rightarrow> checkout_world \<Rightarrow> checkout_world" where
  "tag_payment cid d w =
     (if blank (dr_payment d) then w
      else w \<lparr>cw_db := (cw_db w) \<lparr>db_customers :=
         add_tags cid [''payment:'' @ payment_method_tag_value (the (dr_payment d))] (db_customers (cw_db w))\<rparr>\<rparr>)"

text \<open>The exception of the order limit, which is answered; every other exception is passed on.\<close>

definition pending_order_limit :: py_exc where
  "pending_order_limit = ValueError ''pending order limit''"

definition place_order ::
  "int \<Rightarrow> create_env \<Rightarrow> string \<Rightarrow> payment_method list \<Rightarrow> checkout_draft \<Rightarrow> quote \<Rightarrow> py_dict list \<Rightarrow> checkout_world
   \<Rightarrow> (py_exc + finalize_answer) \<times> checkout_world" where
  "place_order now ce cid methods d q items w =
     (case create_order ce (checkout_request cid d q items) (cw_db w) (cw_stock w) of
        (Inl e, db', st') \<Rightarrow>
          (let w1 = w \<lparr>cw_db := db', cw_stock := st'\<rparr> in
           (if e = pending_order_limit then Inr (LimitReached (get_active_unpaid_order_count db' cid)) else Inl e, w1))
      | (Inr oc, db', st') \<Rightarrow>
          (let w1 = w \<lparr>cw_db := db', cw_stock := st'\<rparr>;
               w2 = (if quote_type q = None then w1 else save_shipping_address cid d q w1);
               w3 = tag_payment cid d w2;
               t = snd (set_current_order now (Some cid) (Some (oc_id oc)) ''waiting_for_payment'' ''checkout'' (cw_sessions w3)) in
           (Inr (Finalized (created_response oc (quote_type q) methods)), w3 \<lparr>cw_sessions := t\<rparr>)))"

definition finalize_draft ::
  "int \<Rightarrow> create_env \<Rightarrow> shipping_policy \<Rightarrow> string \<Rightarrow> payment_method list \<Rightarrow> checkout_draft \<Rightarrow> checkout_world
   \<Rightarrow> (py_exc + finalize_answer) \<times> checkout_world" where
  "finalize_draft now ce policy cid methods d w =
     (let catalog = cs_cache (w_catalog (cw_stock w)) in
      case quote_for_draft d policy of
        Inl e \<Rightarrow> (Inl e, w)
      | Inr q \<Rightarrow>
         (let missing = checkout_missing_fields catalog d q; errors = validate_checkout catalog d q in
          if missing \<noteq> [] then (Inr (DraftMissing d missing q), w)
          else if errors \<noteq> [] then (Inr (DraftErrors d errors), w)
          else (case resolve_items catalog (dr_items d) of
                  Inl e \<Rightarrow> (Inr (ItemRefused d e), w)
                | Inr items \<Rightarrow> place_order now ce cid methods d q items w)))"

definition finalize_checkout ::
  "int \<Rightarrow> (string \<times> json) list option \<Rightarrow> create_env \<Rightarrow> string \<Rightarrow> payment_method list \<Rightarrow> bool \<Rightarrow> checkout_world
   \<Rightarrow> (py_exc + finalize_answer) \<times> checkout_world" where
  "finalize_checkout now settings ce cid methods start_new w0 =
     (case get_shipping_policy settings of
        Inl e \<Rightarrow> (Inl e, w0)
      | Inr policy \<Rightarrow>
         (let (se, t) = get_or_create_session now (Some cid) (cw_sessions w0);
              w = w0 \<lparr>cw_sessions := t\<rparr> in
          case (if \<not> blank (se_order se) \<and> se_stage se = ''waiting_for_payment'' \<and> \<not> start_new
                then get_order (cw_db w) (the (se_order se)) else Inr None) of
            Inl e \<Rightarrow> (Inl e, w)
          | Inr (Some existing) \<Rightarrow> (Inr (Finalized (existing_response existing methods)), w)
          | Inr None \<Rightarrow>
             (case get_latest_pending_order (cw_db w) cid of
                Inl e \<Rightarrow> (Inl e, w)
              | Inr open_order \<Rightarrow>
                 (case (open_order, start_new) of
                    (Some (o', _), False) \<Rightarrow> (Inr (ExistingUnpaid (o_id o')), w)
                  | _ \<Rightarrow>
                     (let n = get_active_unpaid_order_count (cw_db w) cid in
                      if start_new \<and> max_active_unpaid_orders \<le> n then (Inr (LimitReached n), w)
                      else finalize_draft now ce policy cid methods (se_draft se) w)))))"

section \<open>The direct order tool\<close>

text \<open>The draft a direct order stands for; a draft the validation refuses raises.\<close>

definition legacy_draft :: "(string \<times> json) list \<Rightarrow> checkout_draft option" where
  "legacy_draft args = validate_draft
     ((''items'', if j_truthy (jget args ''items'') then jget args ''items'' else JList [] [])
      # map (\<lambda>k. (k, jget args k)) [''shipping_city'', ''shipping_address'', ''shipping_method'', ''shipping_zone'',
             ''pickup_agency'', ''payment_method''])"

datatype legacy_answer = LegacyOk quote "py_dict list" | LegacyIncomplete "string list" "checkout_error list" quote
  | LegacyRefused resolve_error quote

definition validate_legacy_delivery ::
  "(string \<times> json) list option \<Rightarrow> product list \<Rightarrow> (string \<times> json) list \<Rightarrow> py_exc + legacy_answer" where
  "validate_legacy_delivery settings catalog args =
     (case legacy_draft args of
        None \<Rightarrow> Inl (ValueError ''CheckoutDraft'')
      | Some d \<Rightarrow>
     (case get_shipping_policy settings of
        Inl e \<Rightarrow> Inl e
      | Inr policy \<Rightarrow>
     (case quote_for_draft d policy of
        Inl e \<Rightarrow> Inl e
      | Inr q \<Rightarrow>
         (let missing = checkout_missing_fields catalog d q; errors = validate_checkout catalog d q in
          if missing \<noteq> [] \<or> errors \<noteq> [] \<or> \<not> is_quoted q then Inr (LegacyIncomplete missing errors q)
          else (case resolve_items catalog (dr_items d) of
                  Inl e \<Rightarrow> Inr (LegacyRefused e q)
                | Inr items \<Rightarrow> Inr (LegacyOk q items))))))"

section \<open>Fees of a quote\<close>

lemma clean_fee_nonneg: "clean_fee v = Inr f \<Longrightarrow> 0 \<le> f"
  by (auto simp: clean_fee_def Let_def split: sum.splits if_splits)

lemma zones_from_fees: "zones_from cities seen raws = Inr zs \<Longrightarrow> \<forall>z \<in> set zs. 0 \<le> hz_fee z"
proof (induction raws arbitrary: seen zs)
  case (Cons raw raws)
  then obtain d t where raw: "raw = JObj d t" by (cases raw) auto
  show ?case
    using Cons by (fastforce simp: raw Let_def dest: clean_fee_nonneg split: sum.splits option.splits if_splits)
qed simp

lemma rates_from_fees: "rates_from home seen raws = Inr rs \<Longrightarrow> \<forall>r \<in> set rs. 0 \<le> cr_mrw_fee r \<and> 0 \<le> cr_zoom_fee r"
proof (induction raws arbitrary: seen rs)
  case (Cons raw raws)
  then obtain d t where raw: "raw = JObj d t" by (cases raw) auto
  show ?case
    using Cons by (fastforce simp: raw Let_def dest: clean_fee_nonneg split: sum.splits option.splits if_splits)
qed simp

lemma policy_fees:
  assumes "normalize_shipping_policy raw = Inr p"
  shows "(\<forall>z \<in> set (sp_zones p). 0 \<le> hz_fee z) \<and> (\<forall>r \<in> set (sp_rates p). 0 \<le> cr_mrw_fee r \<and> 0 \<le> cr_zoom_fee r)"
proof -
  obtain d where d: "normalize_policy_object d = Inr p"
    using assms by (auto simp: normalize_shipping_policy_def split: json.splits pyval.splits)
  then show ?thesis
    by (auto simp: normalize_policy_object_def normalize_home_zones_def normalize_courier_rates_def Let_def
             dest: zones_from_fees rates_from_fees split: if_splits sum.splits json.splits)
qed

lemma match_location_in: "match_location n a es v = Some e \<Longrightarrow> e \<in> set es"
  by (auto simp: match_location_def find_Some_iff)

lemma quote_fee_nonneg: "resolve_delivery_quote policy city zone m = Inr q \<Longrightarrow> 0 \<le> quote_fee q"
  by (auto simp: resolve_delivery_quote_def resolve_home_delivery_def courier_fee_def Let_def
           dest!: match_location_in policy_fees split: sum.splits if_splits option.splits)

section \<open>A complete draft has a quote\<close>

lemma text_ok_strip: "text_ok (Some s) \<Longrightarrow> s \<noteq> [] \<and> py_strip s = s"
  unfolding text_ok_def option.case clean_text_json or_none_def by (metis option.distinct(1) option.inject)

lemma sub_runs_aux_keeps: "c \<in> set s \<Longrightarrow> \<not> P c \<Longrightarrow> c \<in> set (sub_runs_aux P r b s)"
  by (induction P r b s rule: sub_runs_aux.induct) auto

lemma strip_keeps: "c \<in> set s \<Longrightarrow> \<not> py_space c \<Longrightarrow> py_strip s \<noteq> []"
proof -
  assume c: "c \<in> set s" "\<not> py_space c"
  have keep: "d \<in> set (dropWhile py_space u)" if "d \<in> set u" "\<not> py_space d" for d u
    using that by (induction u) auto
  have "c \<in> set (dropWhile py_space (rev (dropWhile py_space s)))"
    using c by (intro keep) (simp_all add: keep)
  then show "py_strip s \<noteq> []" unfolding py_strip_def by (metis empty_iff list.set(1) rev_is_Nil_conv)
qed

lemma collapsed_nonempty:
  assumes "text_ok (Some s)" shows "py_strip (sub_runs py_space '' '' s) \<noteq> []"
proof -
  have s: "s \<noteq> []" "py_strip s = s" using text_ok_strip[OF assms] by simp_all
  then have "\<not> py_space (hd s)" "hd s \<in> set s" using strip_fixed[of s] by auto
  then show ?thesis using sub_runs_aux_keeps[of "hd s" s py_space] strip_keeps unfolding sub_runs_def by blast
qed

lemma text_ok_quoted: "text_ok v \<Longrightarrow> py_strip (sub_runs py_space '' '' (j_str_or_empty (opt_json v))) = [] \<Longrightarrow> blank v"
  using collapsed_nonempty by (cases v) (auto simp: blank_def opt_json_def j_str_or_empty_def text_ok_def split: if_splits)

lemma choice_ok_courier:
  "choice_ok valid_shipping_methods v \<Longrightarrow> py_lower (py_strip (j_str_or_empty (opt_json v))) \<notin> set valid_couriers \<Longrightarrow> blank v"
  by (cases v) (auto simp: choice_ok_def clean_choice_def opt_json_def j_str_or_empty_def Let_def blank_def
      valid_couriers_def valid_shipping_methods_def split: if_splits)

lemma quote_gaps:
  assumes "quote_for_draft d policy = Inr q" "draft_ok d"
  shows "(q = NeedsCity \<longrightarrow> blank (dr_city d)) \<and> (q = NeedsShippingMethod \<longrightarrow> blank (dr_method d))
    \<and> (\<forall>c zs. q = NeedsDeliveryZone c zs \<longrightarrow> blank (dr_zone d))"
proof -
  have ok: "text_ok (dr_city d)" "text_ok (dr_zone d)" "choice_ok valid_shipping_methods (dr_method d)"
    using assms(2) by (simp_all add: draft_ok_def)
  show ?thesis
    using assms(1) text_ok_quoted[OF ok(1)] text_ok_quoted[OF ok(2)] choice_ok_courier[OF ok(3)]
    by (auto simp: quote_for_draft_def resolve_delivery_quote_def resolve_home_delivery_def Shipping.clean_text_def Let_def
             split: sum.splits option.splits if_splits)
qed

lemma dedupe_Nil: "dedupe xs = [] \<longleftrightarrow> xs = []"
  by (metis set_dedupe set_empty)

lemma missing_city: "blank (dr_city d) \<Longrightarrow> checkout_missing_fields catalog d q \<noteq> []"
proof -
  assume "blank (dr_city d)"
  then have "''shipping_city'' \<in> set (filter (\<lambda>f. \<not> ends_with ''.size'' f
      \<and> f \<notin> set [''shipping_method'', ''shipping_address'', ''shipping_zone'', ''pickup_agency'']) (missing_fields d))"
    by (simp add: missing_fields_def missing_if_def ends_with_def)
  then have "''shipping_city'' \<in> set (checkout_missing_fields catalog d q)"
    unfolding checkout_missing_fields_def set_dedupe set_append by (rule UnI1)
  then show ?thesis by force
qed

lemma complete_quoted:
  assumes "draft_ok d" "quote_for_draft d policy = Inr q" "checkout_missing_fields catalog d q = []"
    and "validate_checkout catalog d q = []"
  shows "is_quoted q"
proof -
  note gaps = quote_gaps[OF assms(2,1)]
  have "\<not> rate_unavailable q" using assms(4) by (auto simp: validate_checkout_def split: if_splits)
  moreover have "q \<noteq> NeedsCity" using gaps missing_city assms(3) by blast
  moreover have "q \<noteq> NeedsShippingMethod"
    using gaps assms(3) by (auto simp: checkout_missing_fields_def dedupe_Nil or_blank_def blank_def missing_if_def split: if_splits)
  moreover have "q \<noteq> NeedsDeliveryZone c zs" for c zs
    using gaps assms(3) by (auto simp: checkout_missing_fields_def dedupe_Nil or_blank_def blank_def missing_if_def split: if_splits)
  ultimately show ?thesis by (cases q) auto
qed

section \<open>When an order is placed\<close>

definition same_books :: "checkout_world \<Rightarrow> checkout_world \<Rightarrow> bool" where
  "same_books w w' = (cw_db w' = cw_db w \<and> cw_stock w' = cw_stock w \<and> cw_saved w' = cw_saved w)"

definition old_answer :: "py_exc + finalize_answer \<Rightarrow> bool" where
  "old_answer r = (\<forall>f. r = Inr (Finalized f) \<longrightarrow> fz_already f)"

text \<open>What holds when the draft of a session is turned into an order: there was room for the order, the
  delivery is quoted, nothing is missing or wrong and every item is resolved.\<close>

definition may_place ::
  "(string \<times> json) list option \<Rightarrow> string \<Rightarrow> bool \<Rightarrow> checkout_world \<Rightarrow> checkout_draft \<Rightarrow> quote \<Rightarrow> py_dict list \<Rightarrow> bool" where
  "may_place settings cid start_new w d q items =
     ((\<exists>policy. get_shipping_policy settings = Inr policy \<and> quote_for_draft d policy = Inr q)
      \<and> d = view_draft (session_view (cw_sessions w) (customer_id_text (Some cid)))
      \<and> (if start_new then get_active_unpaid_order_count (cw_db w) cid < max_active_unpaid_orders
         else get_latest_pending_order (cw_db w) cid = Inr None)
      \<and> is_quoted q \<and> checkout_missing_fields (cs_cache (w_catalog (cw_stock w))) d q = []
      \<and> validate_checkout (cs_cache (w_catalog (cw_stock w))) d q = []
      \<and> resolve_items (cs_cache (w_catalog (cw_stock w))) (dr_items d) = Inr items)"

lemma session_draft_ok: "draft_ok (view_draft (session_view t c))"
  by (auto simp: view_draft_def session_view_def row_to_session_def normalize_checkout_draft_def split: option.split)

lemma finalize_draft_cases:
  assumes "finalize_draft now ce policy cid methods d w = (r, w')" "draft_ok d"
  shows "(w' = w \<and> old_answer r) \<or>
    (\<exists>q items. quote_for_draft d policy = Inr q \<and> is_quoted q
       \<and> checkout_missing_fields (cs_cache (w_catalog (cw_stock w))) d q = []
       \<and> validate_checkout (cs_cache (w_catalog (cw_stock w))) d q = []
       \<and> resolve_items (cs_cache (w_catalog (cw_stock w))) (dr_items d) = Inr items
       \<and> (r, w') = place_order now ce cid methods d q items w)"
proof (cases "quote_for_draft d policy")
  case (Inr q)
  let ?c = "cs_cache (w_catalog (cw_stock w))"
  show ?thesis
  proof (cases "checkout_missing_fields ?c d q = [] \<and> validate_checkout ?c d q = []")
    case True
    then have "is_quoted q" using complete_quoted[OF assms(2) Inr] by blast
    then show ?thesis using assms(1) Inr True
      by (cases "resolve_items ?c (dr_items d)") (auto simp: finalize_draft_def Let_def old_answer_def)
  next
    case False
    then show ?thesis using assms(1) Inr by (auto simp: finalize_draft_def Let_def old_answer_def split: if_splits)
  qed
qed (use assms(1) in \<open>auto simp: finalize_draft_def Let_def old_answer_def\<close>)

lemma finalize_cases:
  assumes "finalize_checkout now settings ce cid methods start_new w0 = (r, w1)"
  obtains (kept) "same_books w0 w1" "old_answer r"
  | (placed) d q items t where "may_place settings cid start_new w0 d q items"
      "(r, w1) = place_order now ce cid methods d q items (w0 \<lparr>cw_sessions := t\<rparr>)"
proof -
  obtain se t where s: "get_or_create_session now (Some cid) (cw_sessions w0) = (se, t)" by fastforce
  define w where "w = w0 \<lparr>cw_sessions := t\<rparr>"
  have d: "se_draft se = view_draft (session_view (cw_sessions w0) (customer_id_text (Some cid)))"
    using get_or_create_draft[of now "Some cid" "cw_sessions w0"] s by simp
  have same: "same_books w0 w" by (simp add: same_books_def w_def)
  show thesis
  proof (cases "get_shipping_policy settings")
    case (Inl e)
    then have "w1 = w0" "old_answer r" using assms by (auto simp: finalize_checkout_def old_answer_def)
    then show thesis by (intro kept) (simp_all add: same_books_def)
  next
    case (Inr policy)
    let ?lookup = "if \<not> blank (se_order se) \<and> se_stage se = ''waiting_for_payment'' \<and> \<not> start_new
                then get_order (cw_db w) (the (se_order se)) else Inr None"
    let ?n = "get_active_unpaid_order_count (cw_db w) cid"
    have run: "finalize_checkout now settings ce cid methods start_new w0 =
       (case ?lookup of
            Inl e \<Rightarrow> (Inl e, w)
          | Inr (Some existing) \<Rightarrow> (Inr (Finalized (existing_response existing methods)), w)
          | Inr None \<Rightarrow>
             (case get_latest_pending_order (cw_db w) cid of
                Inl e \<Rightarrow> (Inl e, w)
              | Inr open_order \<Rightarrow>
                 (case (open_order, start_new) of
                    (Some (o', _), False) \<Rightarrow> (Inr (ExistingUnpaid (o_id o')), w)
                  | _ \<Rightarrow> (if start_new \<and> max_active_unpaid_orders \<le> ?n then (Inr (LimitReached ?n), w)
                         else finalize_draft now ce policy cid methods (se_draft se) w))))"
      unfolding finalize_checkout_def Inr sum.case s Let_def prod.case w_def by (rule refl)
    have "(w1 = w \<and> old_answer r)
       \<or> (finalize_draft now ce policy cid methods (se_draft se) w = (r, w1)
          \<and> (if start_new then ?n < max_active_unpaid_orders else get_latest_pending_order (cw_db w) cid = Inr None))"
      using assms unfolding run
      by (cases ?lookup; cases start_new)
         (auto simp: old_answer_def existing_response_def not_le split: sum.splits option.splits prod.splits if_splits)
    then show thesis
    proof
      assume "w1 = w \<and> old_answer r"
      then show thesis using same by (intro kept) simp_all
    next
      assume a: "finalize_draft now ce policy cid methods (se_draft se) w = (r, w1)
          \<and> (if start_new then ?n < max_active_unpaid_orders else get_latest_pending_order (cw_db w) cid = Inr None)"
      have ok: "draft_ok (se_draft se)" unfolding d by (rule session_draft_ok)
      show thesis
      proof (cases "w1 = w \<and> old_answer r")
        case True
        then show thesis using same by (intro kept) simp_all
      next
        case False
        then obtain q items where "quote_for_draft (se_draft se) policy = Inr q" "is_quoted q"
          "checkout_missing_fields (cs_cache (w_catalog (cw_stock w))) (se_draft se) q = []"
          "validate_checkout (cs_cache (w_catalog (cw_stock w))) (se_draft se) q = []"
          "resolve_items (cs_cache (w_catalog (cw_stock w))) (dr_items (se_draft se)) = Inr items"
          "(r, w1) = place_order now ce cid methods (se_draft se) q items w"
          using finalize_draft_cases[OF conjunct1[OF a] ok] by blast
        then show thesis using a Inr d by (intro placed[of "se_draft se" q items t]) (simp_all add: may_place_def w_def split: if_splits)
      qed
    qed
  qed
qed

section \<open>What an update answers\<close>

lemma update_stage: "se_stage (fst (update_checkout_draft now cid p t)) \<noteq> ''waiting_for_payment''"
  by (simp add: draft_update_facts(4) draft_stage_def)

lemma ready_normal [simp]: "normalize_workflow_stage ''checkout_ready'' = ''checkout_ready''"
  by code_simp

lemma set_ready_view:
  assumes "session_view t (customer_id_text cid) = Some se"
    and "set_workflow_stage now cid ''checkout_ready'' t = (se', t')"
  shows "session_view t' (customer_id_text cid) = Some se' \<and> se_stage se' = ''checkout_ready'' \<and> se_draft se' = se_draft se"
proof -
  obtain r where r: "find_by sr_customer (customer_id_text cid) t = Some r" "se = row_to_session r"
    using assms(1) by (auto simp: session_view_def)
  have "se' = row_to_session (r \<lparr>sr_stage := ''checkout_ready'', sr_updated := now\<rparr>)"
    using assms(2) r(1) by (simp add: set_workflow_stage_def Let_def)
  moreover have "session_view t' (customer_id_text cid) = Some se'"
    using view_set_workflow_stage[of now cid "''checkout_ready''" t] assms(2) by simp
  ultimately show ?thesis by (simp add: r(2) row_to_session_def)
qed

lemma answer_update_facts:
  assumes "answer_update now cid catalog q se t = (a, t')" "se_stage se \<noteq> ''waiting_for_payment''"
    and "session_view t (customer_id_text (Some cid)) = Some se"
  shows "ua_status a = (if ua_missing a = [] \<and> ua_errors a = [] then ''ok'' else ''needs_more_info'')"
    and "ua_status a = ''ok'' \<Longrightarrow> ua_stage a = ''checkout_ready''"
    and "\<exists>se'. session_view t' (customer_id_text (Some cid)) = Some se' \<and> se_draft se' = ua_draft a \<and> se_stage se' = ua_stage a"
    and "ua_draft a = se_draft se" "ua_quote a = q"
    and "ua_missing a = checkout_missing_fields catalog (se_draft se) q" "ua_errors a = validate_checkout catalog (se_draft se) q"
proof -
  obtain se' t1 where w: "set_workflow_stage now (Some cid) ''checkout_ready'' t = (se', t1)" by fastforce
  note ready = set_ready_view[OF assms(3) w]
  define complete where "complete = (validate_checkout catalog (se_draft se) q = [] \<and> checkout_missing_fields catalog (se_draft se) q = [])"
  have run: "(a, t') = (case (if complete \<and> se_stage se \<noteq> ''checkout_ready'' then (se_stage se', t1) else (se_stage se, t)) of
      (stage, t') \<Rightarrow> (\<lparr>ua_status = (if complete then ''ok'' else ''needs_more_info''), ua_draft = se_draft se,
         ua_missing = checkout_missing_fields catalog (se_draft se) q, ua_errors = validate_checkout catalog (se_draft se) q,
         ua_quote = q, ua_stage = stage\<rparr>, t'))"
    using assms(1) unfolding answer_update_def Let_def w complete_def prod.case if_not_P[OF assms(2)] by (rule sym)
  show "ua_status a = (if ua_missing a = [] \<and> ua_errors a = [] then ''ok'' else ''needs_more_info'')"
    "ua_status a = ''ok'' \<Longrightarrow> ua_stage a = ''checkout_ready''"
    "ua_draft a = se_draft se" "ua_quote a = q"
    "ua_missing a = checkout_missing_fields catalog (se_draft se) q" "ua_errors a = validate_checkout catalog (se_draft se) q"
    using run ready by (auto simp: complete_def split: if_splits)
  show "\<exists>se'. session_view t' (customer_id_text (Some cid)) = Some se' \<and> se_draft se' = ua_draft a \<and> se_stage se' = ua_stage a"
    using run ready assms(3) by (auto split: if_splits)
qed

text \<open>An update of a checkout answers ok exactly when nothing is missing and nothing is wrong, and then
  the delivery is quoted and the session is ready for checkout; whatever it answers, the draft and the
  stage in the answer are those stored for the customer.\<close>

theorem checkout_update_answers:
  assumes "checkout_update_draft now settings catalog cid saved update methods t = (Inr a, t')"
  shows "ua_status a = (if ua_missing a = [] \<and> ua_errors a = [] then ''ok'' else ''needs_more_info'')
    \<and> (ua_status a = ''ok'' \<longrightarrow> ua_stage a = ''checkout_ready'' \<and> is_quoted (ua_quote a))
    \<and> (\<exists>se. session_view t' (customer_id_text (Some cid)) = Some se \<and> se_draft se = ua_draft a \<and> se_stage se = ua_stage a)"
proof -
  from assms obtain policy u q where p: "get_shipping_policy settings = Inr policy"
    "apply_delivery_context (normalize_update catalog saved update methods) policy = Inr u"
    by (auto simp: checkout_update_draft_def split: sum.splits prod.splits)
  define se where "se = fst (update_checkout_draft now (Some cid) (JObj u []) t)"
  define t1 where "t1 = snd (update_checkout_draft now (Some cid) (JObj u []) t)"
  from assms p obtain q where q: "quote_for_draft (se_draft se) policy = Inr q" "answer_update now cid catalog q se t1 = (a, t')"
    by (auto simp: checkout_update_draft_def se_def t1_def split: sum.splits prod.splits)
  have v: "session_view t1 (customer_id_text (Some cid)) = Some se"
    using draft_update_facts(1)[of now "Some cid" "JObj u []" t] by (simp add: se_def t1_def)
  have ok: "draft_ok (se_draft se)" by (simp add: se_def draft_update_facts(2))
  note facts = answer_update_facts[OF q(2) _ v]
  have st: "se_stage se \<noteq> ''waiting_for_payment''" unfolding se_def by (rule update_stage)
  have "is_quoted (ua_quote a)" if "ua_status a = ''ok''"
    using that facts(1,5,6,7)[OF st] complete_quoted[OF ok q(1)] by (auto split: if_splits)
  then show ?thesis using facts[OF st] by blast
qed

section \<open>Observations\<close>

text \<open>The branch for a session that waits for payment is never taken: storing the draft has moved the
  session to a checkout stage before the branch looks at it.\<close>

theorem payment_pending_unreachable:
  "fst (checkout_update_draft now settings catalog cid saved update methods t) = Inr a \<Longrightarrow> ua_status a \<noteq> ''payment_pending''"
proof -
  assume a: "fst (checkout_update_draft now settings catalog cid saved update methods t) = Inr a"
  then obtain u se t1 q t2 where u: "update_checkout_draft now (Some cid) (JObj u []) t = (se, t1)"
    "answer_update now cid catalog q se t1 = (a, t2)"
    by (auto simp: checkout_update_draft_def split: sum.splits prod.splits)
  have "se_stage se \<noteq> ''waiting_for_payment''"
    using update_stage[of now "Some cid" "JObj u []" t] u(1) by simp
  then have "ua_status a \<in> {''ok'', ''needs_more_info''}"
    using u(2) by (auto simp: answer_update_def Let_def split: prod.splits if_splits)
  then show ?thesis by auto
qed

text \<open>A product name without any letter the catalog search can read stands for any product without a parent
  SKU, here the inverted exclamation mark for a ring.\<close>

definition sample_ring :: product where
  "sample_ring = \<lparr>p_sku = ''R1'', p_parent_sku = [], p_name = ''Anillo'', p_brand = [], p_category = [],
     p_description = [], p_size = ''M'', p_sizes = [], p_price = 5, p_stock = 3, p_image = []\<rparr>"

theorem unreadable_name_resolves:
  "resolve_catalog_item [sample_ring] \<lparr>di_query = Some [CHR 0xA1], di_sku = None, di_parent = None, di_name = None,
     di_canonical = None, di_size = Some ''M'', di_quantity = Some 1\<rparr> = Inr sample_ring"
  by code_simp

definition sample_settings :: "(string \<times> json) list" where
  "sample_settings = [(''shipping_policy'', sample_policy)]"

definition nothing_saved :: saved_delivery where
  "nothing_saved = \<lparr>sd_type = None, sd_address = None, sd_city = None, sd_method = None, sd_zone = None, sd_agency = None\<rparr>"

definition sample_update :: "string \<Rightarrow> (string \<times> json) list" where
  "sample_update product = [(''items'', JList [JObj [(''product_query'', JVal (PStr product)), (''quantity'', JVal (PInt 2))] []] []),
     (''shipping_city'', JVal (PStr ''valencia'')), (''shipping_zone'', JVal (PStr ''norte'')),
     (''shipping_address'', JVal (PStr ''Calle 1'')), (''payment_method'', JVal (PStr ''Zelle''))]"

definition sample_wanted :: "(string \<times> json) list" where
  "sample_wanted = normalize_update [sample_ring] nothing_saved (sample_update ''anillo'') []"

lemma sample_wanted_items:
  "sample_wanted = [(''items'', JList [JObj [(''product_query'', JVal (PStr ''anillo'')), (''quantity'', JVal (PInt 2)),
       (''product_name'', JVal (PStr ''Anillo'')), (''sku'', JVal (PStr ''R1'')), (''canonical_sku'', JVal (PStr ''R1'')),
       (''parent_sku'', JVal (PStr [])), (''size'', JVal (PStr ''M''))] []] []),
     (''shipping_city'', JVal (PStr ''valencia'')), (''shipping_zone'', JVal (PStr ''norte'')),
     (''shipping_address'', JVal (PStr ''Calle 1'')), (''payment_method'', JVal (PStr ''Zelle''))]"
  by code_simp

definition sample_context :: "(string \<times> json) list" where
  "sample_context = [(''items'', JList [JObj [(''product_query'', JVal (PStr ''anillo'')), (''quantity'', JVal (PInt 2)),
       (''product_name'', JVal (PStr ''Anillo'')), (''sku'', JVal (PStr ''R1'')), (''canonical_sku'', JVal (PStr ''R1'')),
       (''parent_sku'', JVal (PStr [])), (''size'', JVal (PStr ''M''))] []] []),
     (''shipping_city'', JVal (PStr ''Valencia'')), (''shipping_zone'', JVal (PStr ''Norte'')),
     (''shipping_address'', JVal (PStr ''Calle 1'')), (''payment_method'', JVal (PStr ''Zelle'')),
     (''fulfillment_type'', JVal (PStr ''home_delivery'')), (''shipping_method'', JVal PNone), (''pickup_agency'', JVal PNone)]"

lemma sample_applied: "apply_delivery_context sample_wanted sample_normal = Inr sample_context"
  unfolding sample_wanted_items by code_simp

definition sample_draft :: "string \<Rightarrow> string \<Rightarrow> string \<Rightarrow> string \<Rightarrow> checkout_draft" where
  "sample_draft query sku name sz = \<lparr>dr_items = [\<lparr>di_query = Some query, di_sku = Some sku, di_parent = None, di_name = Some name,
       di_canonical = Some sku, di_size = or_none sz, di_quantity = Some 2\<rparr>], dr_method = None, dr_city = Some ''Valencia'',
     dr_address = Some ''Calle 1'', dr_fulfillment = Some ''home_delivery'', dr_zone = Some ''Norte'', dr_agency = None,
     dr_payment = Some ''Zelle''\<rparr>"

definition sample_quote :: quote where
  "sample_quote = HomeQuoted ''Valencia'' ''Norte'' 3 ''USD''"

lemma sample_merged: "merge_checkout_draft (RawDraft empty_draft) (JObj sample_context []) = sample_draft ''anillo'' ''R1'' ''Anillo'' ''M''"
  by code_simp

lemma sample_quoted: "quote_for_draft (sample_draft a b c e) sample_normal = Inr sample_quote"
proof -
  have "resolve_delivery_quote (policy_json sample_normal) (opt_json (Some ''Valencia'')) (opt_json (Some ''Norte'')) (opt_json None) = Inr sample_quote"
    by code_simp
  then show ?thesis by (simp add: quote_for_draft_def sample_draft_def)
qed

lemma sample_complete:
  "validate_checkout [sample_ring] (sample_draft ''anillo'' ''R1'' ''Anillo'' ''M'') sample_quote = []"
  "checkout_missing_fields [sample_ring] (sample_draft ''anillo'' ''R1'' ''Anillo'' ''M'') sample_quote = []"
  by code_simp+

lemma sample_policy_read: "get_shipping_policy (Some sample_settings) = Inr sample_normal"
  by (simp add: get_shipping_policy_def sample_settings_def sample_normalized)

theorem checkout_update_answers_witness:
  "\<exists>a t'. checkout_update_draft 0 (Some sample_settings) [sample_ring] ''c1'' nothing_saved (sample_update ''anillo'') [] [] = (Inr a, t')
     \<and> ua_status a = ''ok'' \<and> ua_stage a = ''checkout_ready'' \<and> is_quoted (ua_quote a)"
proof -
  let ?d = "sample_draft ''anillo'' ''R1'' ''Anillo'' ''M''"
  obtain se t1 where u: "update_checkout_draft 0 (Some ''c1'') (JObj sample_context []) [] = (se, t1)" by fastforce
  have d: "se_draft se = ?d"
    using draft_update_facts(2)[of 0 "Some ''c1''" "JObj sample_context []" "[]"] u sample_merged
    by (simp add: session_view_def view_draft_def find_by_def)
  have v: "session_view t1 (customer_id_text (Some ''c1'')) = Some se"
    using draft_update_facts(1)[of 0 "Some ''c1''" "JObj sample_context []" "[]"] u by simp
  have st: "se_stage se \<noteq> ''waiting_for_payment''"
    using update_stage[of 0 "Some ''c1''" "JObj sample_context []" "[]"] u by simp
  obtain a t' where a: "answer_update 0 ''c1'' [sample_ring] sample_quote se t1 = (a, t')" by fastforce
  have run: "checkout_update_draft 0 (Some sample_settings) [sample_ring] ''c1'' nothing_saved (sample_update ''anillo'') [] [] = (Inr a, t')"
    by (simp add: checkout_update_draft_def sample_policy_read sample_applied u d sample_quoted a flip: sample_wanted_def)
  have "ua_missing a = []" "ua_errors a = []"
    using answer_update_facts(6,7)[OF a st v] by (simp_all add: d sample_complete)
  then show ?thesis using run checkout_update_answers[OF run] by auto
qed

end
