(* ===== verification/Checkout_Runs.thy ===== *)
theory Checkout_Runs
  imports Checkout Order_Runs
begin

text \<open>
  A checkout across components: the draft of Sessions, the quote of Shipping, the order and its stock of
  Reservations and Inventory, put together by \<open>finalize_checkout\<close>. The guards of that function are stated
  on everything it may change, and a new order is followed into the database, the sheet and the session.
\<close>

section \<open>Placing an order\<close>

lemma place_order_cases:
  assumes "place_order now ce cid methods d q items w = (r, w')"
  obtains (failed) e db' st' where "create_order ce (checkout_request cid d q items) (cw_db w) (cw_stock w) = (Inl e, db', st')"
      "old_answer r"
  | (placed) oc db' st' where "create_order ce (checkout_request cid d q items) (cw_db w) (cw_stock w) = (Inr oc, db', st')"
      "r = Inr (Finalized (created_response oc (quote_type q) methods))" "cw_stock w' = st'"
      "db_orders (cw_db w') = db_orders db'"
      "cw_sessions w' = snd (set_current_order now (Some cid) (Some (oc_id oc)) ''waiting_for_payment'' ''checkout'' (cw_sessions w))"
proof -
  obtain a db' st' where c: "create_order ce (checkout_request cid d q items) (cw_db w) (cw_stock w) = (a, db', st')"
    using prod_cases3 by blast
  show thesis
  proof (cases a)
    case (Inl e)
    then show thesis using assms c by (intro failed) (auto simp: place_order_def old_answer_def Let_def split: if_splits)
  next
    case (Inr oc)
    then show thesis using assms c
      by (intro placed[of oc db' st']) (auto simp: place_order_def Let_def save_shipping_address_def tag_payment_def)
  qed
qed

lemma created_fee:
  "create_order ce rq d w = (Inr oc, d', w') \<Longrightarrow> po_fee (oc_prepared oc) = coerce_non_negative_float (rq_fee rq) 0"
  by (auto simp: create_order_def reserve_opened_def prepare_order_def Let_def
           split: sum.splits prod.splits if_splits sheet_outcome.splits)

lemma checkout_fee:
  assumes "create_order ce (checkout_request cid d q items) db st = (Inr oc, db', st')" "quote_for_draft d policy = Inr q"
  shows "po_fee (oc_prepared oc) = quote_fee q"
proof -
  have "0 \<le> quote_fee q" using assms(2) quote_fee_nonneg by (auto simp: quote_for_draft_def)
  then show ?thesis using created_fee[OF assms(1)]
    by (simp add: checkout_request_def coerce_non_negative_float_def computed_float_def)
qed

lemma current_order_view:
  assumes "set_current_order now cid order ''waiting_for_payment'' ''checkout'' t = (se, t')"
  shows "session_view t' (customer_id_text cid) = Some se" "se_stage se = ''waiting_for_payment''"
    "se_draft se = empty_draft" "se_order se = normalize_optional_text order"
proof -
  have n: "normalize_workflow_stage ''waiting_for_payment'' = ''waiting_for_payment''" by code_simp
  show "session_view t' (customer_id_text cid) = Some se"
    using view_set_current_order[of now cid order "''waiting_for_payment''" "''checkout''" t] assms by simp
  show "se_stage se = ''waiting_for_payment''" "se_draft se = empty_draft" "se_order se = normalize_optional_text order"
    using assms by (auto simp: set_current_order_def upsert_def row_to_session_def new_row_def n Let_def split: option.splits)
qed

section \<open>The guards of a checkout\<close>

text \<open>C9. A checkout changes the orders, the stock or the saved address of a customer only when the draft of
  the session is complete and free of errors, every item is resolved against the catalog, the delivery
  is quoted, and the customer has no pending order, or asked for another one and has fewer than three
  unpaid ones. In every other case it answers without effect on them.\<close>

theorem checkout_guarded:
  assumes "finalize_checkout now settings ce cid methods start_new w0 = (r, w')"
  shows "same_books w0 w' \<or> (\<exists>d q items. may_place settings cid start_new w0 d q items)"
  using assms by (cases rule: finalize_cases) blast+


section \<open>A concrete checkout\<close>

definition sample_stock :: inv_world where
  "sample_stock = sample_world \<lparr>w_catalog := snd (ensure_fresh_catalog py_str 0 1 1
     (Inr ([listed_row ''A'' 5], Inr [listed_row ''A'' 5])) catalog_init)\<rparr>"

definition sample_a :: product where
  "sample_a = hd (cs_cache (w_catalog sample_stock))"

lemma sample_catalog: "cs_cache (w_catalog sample_stock) = [sample_a]"
  by code_simp

definition sample_checkout :: checkout_world where
  "sample_checkout = \<lparr>cw_sessions = [new_row 0 ''c1'' \<lparr>sr_draft := draft_json (sample_draft ''A'' ''A'' ''A'' [])\<rparr>],
     cw_db = sample_store, cw_stock = sample_stock, cw_saved = []\<rparr>"

lemma sample_checkout_draft:
  "view_draft (session_view (cw_sessions sample_checkout) ''c1'') = sample_draft ''A'' ''A'' ''A'' []"
  by code_simp

lemma sample_checkout_complete:
  "validate_checkout (cs_cache (w_catalog sample_stock)) (sample_draft ''A'' ''A'' ''A'' []) sample_quote = []"
  "checkout_missing_fields (cs_cache (w_catalog sample_stock)) (sample_draft ''A'' ''A'' ''A'' []) sample_quote = []"
  by code_simp+

definition sample_lines :: "py_dict list" where
  "sample_lines = [[(''product_name'', PStr ''A''), (''sku'', PStr ''A''), (''size'', PStr []), (''quantity'', PInt 2),
     (''unit_price'', computed_float 10)]]"

lemma sample_items: "resolve_items (cs_cache (w_catalog sample_stock)) (dr_items (sample_draft ''A'' ''A'' ''A'' [])) = Inr sample_lines"
  by code_simp

definition sample_asked :: order_request where
  "sample_asked = checkout_request ''c1'' (sample_draft ''A'' ''A'' ''A'' []) sample_quote sample_lines"

definition sample_made :: "(py_exc + order_created) \<times> store_db \<times> inv_world" where
  "sample_made = create_order (sample_create F_none F_none) sample_asked sample_store sample_stock"

lemma sample_made_ok: "\<exists>oc. fst sample_made = Inr oc \<and> oc_id oc = ''1'' \<and> oc_new oc"
proof -
  have "case fst sample_made of Inl _ \<Rightarrow> False | Inr oc \<Rightarrow> oc_id oc = ''1'' \<and> oc_new oc" by code_simp
  then show ?thesis by (auto split: sum.splits)
qed

lemma sample_checkout_fields: "cw_db sample_checkout = sample_store" "cw_stock sample_checkout = sample_stock"
  by (simp_all add: sample_checkout_def)

lemma sample_checkout_run:
  "\<exists>f w'. finalize_checkout 5 (Some sample_settings) (sample_create F_none F_none) ''c1'' [] False sample_checkout
     = (Inr (Finalized f), w') \<and> \<not> fz_already f \<and> fz_order f = ''1''"
proof -
  let ?d = "sample_draft ''A'' ''A'' ''A'' []"
  obtain se t where s: "get_or_create_session 5 (Some ''c1'') (cw_sessions sample_checkout) = (se, t)" by fastforce
  have "se_order (fst (get_or_create_session 5 (Some ''c1'') (cw_sessions sample_checkout))) = None" by code_simp
  moreover have "customer_id_text (Some ''c1'') = ''c1''" by code_simp
  ultimately have se: "blank (se_order se)" "se_draft se = ?d"
    using get_or_create_draft[of 5 "Some ''c1''" "cw_sessions sample_checkout"] s sample_checkout_draft
    by (simp_all add: blank_def)
  obtain oc where oc: "fst sample_made = Inr oc" "oc_id oc = ''1''" "oc_new oc" using sample_made_ok by blast
  have c: "create_order (sample_create F_none F_none) (checkout_request ''c1'' ?d sample_quote sample_lines) sample_store sample_stock
      = (Inr oc, snd sample_made)"
    using oc(1) by (simp add: sample_made_def sample_asked_def prod_eq_iff)
  have open_order: "get_latest_pending_order sample_store ''c1'' = Inr None" by code_simp
  let ?run = "place_order 5 (sample_create F_none F_none) ''c1'' [] ?d sample_quote sample_lines (sample_checkout \<lparr>cw_sessions := t\<rparr>)"
  have "fst ?run = Inr (Finalized (created_response oc (quote_type sample_quote) []))"
    by (simp add: place_order_def sample_checkout_def c Let_def split: prod.split)
  then obtain w' where p: "?run = (Inr (Finalized (created_response oc (quote_type sample_quote) [])), w')"
    by (metis prod.collapse)
  have "finalize_checkout 5 (Some sample_settings) (sample_create F_none F_none) ''c1'' [] False sample_checkout
      = (Inr (Finalized (created_response oc (quote_type sample_quote) [])), w')"
    using p by (simp add: finalize_checkout_def sample_policy_read s se open_order finalize_draft_def sample_quoted
        sample_checkout_complete sample_items sample_checkout_fields Let_def)
  moreover have "\<not> fz_already (created_response oc (quote_type sample_quote) [])" "fz_order (created_response oc (quote_type sample_quote) []) = ''1''"
    using oc by (simp_all add: created_response_def Let_def)
  ultimately show ?thesis by blast
qed

lemma sample_stock_start:
  "rinv (rst sample_store sample_stock Idle)" "cache_coherent sample_stock" "fair_prices (sample_create F_none F_none) sample_stock"
  "unused_id (ce_new_id (sample_create F_none F_none)) (rst sample_store sample_stock Idle)"
proof -
  have rows: "ledger_rows sample_stock = []" by code_simp
  have "ledger_readable sample_stock" using sample_facts(5) by (simp add: ledger_readable_def sample_stock_def)
  then have "r_init (rst sample_store sample_stock Idle)"
    using rows by (simp add: r_init_def sample_store_def new_customer_def)
  then show "rinv (rst sample_store sample_stock Idle)" by (rule rinit_inv)
  show "cache_coherent sample_stock" by code_simp
  show "fair_prices (sample_create F_none F_none) sample_stock" by code_simp
  show "unused_id (ce_new_id (sample_create F_none F_none)) (rst sample_store sample_stock Idle)" by code_simp
qed

theorem checkout_guarded_witness:
  "\<exists>w'. snd (finalize_checkout 5 (Some sample_settings) (sample_create F_none F_none) ''c1'' [] False sample_checkout) = w'
     \<and> (same_books sample_checkout w' \<or> (\<exists>d q items. may_place (Some sample_settings) ''c1'' False sample_checkout d q items))"
proof -
  obtain r w' where "finalize_checkout 5 (Some sample_settings) (sample_create F_none F_none) ''c1'' [] False sample_checkout = (r, w')"
    by fastforce
  then show ?thesis using checkout_guarded by auto
qed


end
