(* ===== verification/Broadcast.thy ===== *)
theory Broadcast
  imports Customers "HOL-Library.List_Lexorder" "HOL-Library.Char_ord"
begin

text \<open>
  Broadcasts: \<open>broadcast/sender.py\<close> (the delivery ledger of a campaign, claims, outcomes, recovery),
  the endpoints of \<open>broadcast/api.py\<close> that change it and the scheduled run of
  \<open>broadcast/scheduler.py\<close>. The WhatsApp client is an argument: it answers a message from the messages
  sent before. Failures of the database are not modelled.
\<close>

section \<open>Rows\<close>

datatype delivery_status = Delivery_Pending | Delivery_Sending | Delivery_Sent | Delivery_Failed | Delivery_Unknown

datatype broadcast_status = Draft | Scheduled | Sending | Sent | Partial | Failed_All

record delivery =
  dl_id :: string
  dl_broadcast :: string
  dl_customer :: "string option"
  dl_platform :: string
  dl_name :: "string option"
  dl_status :: delivery_status
  dl_attempts :: int
  dl_claimed :: "int option"
  dl_started :: "int option"
  dl_meta_id :: "string option"
  dl_sent_at :: "int option"
  dl_failed_at :: "int option"
  dl_error :: "string option"
  dl_created :: int
  dl_updated :: int

record broadcast =
  bc_id :: string
  bc_name :: string
  bc_template :: string
  bc_params :: "string list option"
  bc_tags :: "string list"
  bc_channel :: "string option"
  bc_scheduled :: "int option"
  bc_sent_at :: "int option"
  bc_seeded :: "int option"
  bc_recipients :: int
  bc_status :: broadcast_status

record broadcast_db =
  bd_casts :: "broadcast list"
  bd_deliveries :: "delivery list"
  bd_customers :: "customer list"

section \<open>The audience\<close>

definition is_eligible :: "customer \<Rightarrow> bool" where
  "is_eligible c = (c_channel c = ''whatsapp'' \<and> c_opt_in c \<and> c_opt_in_at c \<noteq> None \<and> \<not> c_blocked c
     \<and> c_state c \<noteq> ''blocked'')"

definition audience :: "string list \<Rightarrow> customer list \<Rightarrow> customer list" where
  "audience tags cs = filter (\<lambda>c. is_eligible c \<and> set tags \<subseteq> set (c_tags c)) cs"

definition query_customers_by_tags :: "customer list \<Rightarrow> string list \<Rightarrow> string \<Rightarrow> customer list" where
  "query_customers_by_tags cs tags channel =
     (if tags = [] \<or> channel \<noteq> ''whatsapp'' then []
      else sort_key (\<lambda>c. - c_last_active c) (audience tags cs))"

definition preview_broadcast :: "customer list \<Rightarrow> string list \<Rightarrow> string \<Rightarrow> py_exc + nat \<times> rat" where
  "preview_broadcast cs tags channel =
     (if py_lower (py_strip channel) \<noteq> ''whatsapp''
      then Inl (ValueError ''Broadcasts can target only WhatsApp customers.'')
      else (let n = length (query_customers_by_tags cs tags channel) in
            Inr (n, round_to 2 (of_nat n * (851 / 10000)))))"

section \<open>The ledger of a campaign\<close>

text \<open>The unique index is over campaign, channel and recipient, and the channel is always WhatsApp.\<close>

definition delivery_key :: "delivery \<Rightarrow> string \<times> string" where
  "delivery_key d = (dl_broadcast d, dl_platform d)"

definition new_delivery :: "int \<Rightarrow> string \<Rightarrow> string \<Rightarrow> customer \<Rightarrow> delivery" where
  "new_delivery now bid new_id c = \<lparr>dl_id = new_id, dl_broadcast = bid, dl_customer = Some (c_id c),
     dl_platform = c_platform_id c, dl_name = c_name c, dl_status = Delivery_Pending, dl_attempts = 0,
     dl_claimed = None, dl_started = None, dl_meta_id = None, dl_sent_at = None, dl_failed_at = None,
     dl_error = None, dl_created = now, dl_updated = now\<rparr>"

fun insert_deliveries :: "delivery list \<Rightarrow> delivery list \<Rightarrow> delivery list" where
  "insert_deliveries [] ds = ds"
| "insert_deliveries (n # ns) ds =
     insert_deliveries ns (if delivery_key n \<in> delivery_key ` set ds then ds else ds @ [n])"

definition set_cast :: "string \<Rightarrow> (broadcast \<Rightarrow> broadcast) \<Rightarrow> broadcast_db \<Rightarrow> broadcast_db" where
  "set_cast bid f db = db \<lparr>bd_casts := upd_where (\<lambda>b. bc_id b = bid) f (bd_casts db)\<rparr>"

definition set_deliveries :: "(delivery \<Rightarrow> bool) \<Rightarrow> (delivery \<Rightarrow> delivery) \<Rightarrow> broadcast_db \<Rightarrow> broadcast_db" where
  "set_deliveries p f db = db \<lparr>bd_deliveries := upd_where p f (bd_deliveries db)\<rparr>"

text \<open>\<open>new_id\<close> gives the id generated for the row of a campaign and a customer.\<close>

definition seed_delivery_ledger ::
    "int \<Rightarrow> (string \<Rightarrow> string \<Rightarrow> string) \<Rightarrow> string \<Rightarrow> string list \<Rightarrow> broadcast_db \<Rightarrow> broadcast_db" where
  "seed_delivery_ledger now new_id bid tags db =
     (case find_by bc_id bid (bd_casts db) of
        None \<Rightarrow> db
      | Some b \<Rightarrow>
          if bc_seeded b \<noteq> None then db
          else (let rows = (if tags = [] then []
                            else map (\<lambda>c. new_delivery now bid (new_id bid (c_id c)) c) (audience tags (bd_customers db))) in
                set_cast bid (\<lambda>b. b \<lparr>bc_seeded := Some now\<rparr>)
                  (db \<lparr>bd_deliveries := insert_deliveries rows (bd_deliveries db)\<rparr>)))"

definition is_stale :: "int \<Rightarrow> delivery \<Rightarrow> bool" where
  "is_stale now d = (dl_status d = Delivery_Sending \<and> (case dl_claimed d of None \<Rightarrow> False | Some t \<Rightarrow> t < now - 300))"

definition requeue_stale :: "int \<Rightarrow> delivery \<Rightarrow> delivery" where
  "requeue_stale now d = d \<lparr>dl_status := Delivery_Pending, dl_claimed := None, dl_updated := now,
     dl_error := Some ''recovered_before_meta_send''\<rparr>"

definition quarantine_stale :: "int \<Rightarrow> delivery \<Rightarrow> delivery" where
  "quarantine_stale now d = d \<lparr>dl_status := Delivery_Unknown, dl_failed_at := Some now, dl_updated := now,
     dl_error := Some ''delivery_unknown_after_stale_meta_attempt''\<rparr>"

definition recover_stale_broadcast_deliveries ::
    "int \<Rightarrow> string option \<Rightarrow> broadcast_db \<Rightarrow> (nat \<times> nat) \<times> broadcast_db" where
  "recover_stale_broadcast_deliveries now only db =
     (let mine = (\<lambda>d. only = None \<or> only = Some (dl_broadcast d));
          unsent = (\<lambda>d. mine d \<and> is_stale now d \<and> dl_started d = None);
          db1 = set_deliveries unsent (requeue_stale now) db;
          begun = (\<lambda>d. mine d \<and> is_stale now d \<and> dl_started d \<noteq> None) in
      ((length (filter unsent (bd_deliveries db)), length (filter begun (bd_deliveries db1))),
       set_deliveries begun (quarantine_stale now) db1))"

section \<open>Claiming a recipient\<close>

definition pending_of :: "string \<Rightarrow> delivery \<Rightarrow> bool" where
  "pending_of bid d = (dl_broadcast d = bid \<and> dl_status d = Delivery_Pending)"

definition next_pending :: "string \<Rightarrow> delivery list \<Rightarrow> delivery option" where
  "next_pending bid ds =
     (case sort_key dl_created (sort_key dl_id (filter (pending_of bid) ds)) of [] \<Rightarrow> None | d # _ \<Rightarrow> Some d)"

definition eligible_now :: "customer list \<Rightarrow> delivery \<Rightarrow> bool" where
  "eligible_now cs d = (case dl_customer d of None \<Rightarrow> False
     | Some cid \<Rightarrow> (case find_by c_id cid cs of None \<Rightarrow> False | Some c \<Rightarrow> is_eligible c))"

definition claim_row :: "int \<Rightarrow> delivery \<Rightarrow> delivery" where
  "claim_row now d = d \<lparr>dl_status := Delivery_Sending, dl_attempts := dl_attempts d + 1, dl_claimed := Some now,
     dl_updated := now\<rparr>"

definition skip_row :: "int \<Rightarrow> delivery \<Rightarrow> delivery" where
  "skip_row now d = d \<lparr>dl_status := Delivery_Failed, dl_failed_at := Some now,
     dl_error := Some ''recipient_ineligible_at_claim'', dl_updated := now\<rparr>"

text \<open>The claiming statement, and the loop that passes over recipients who are no longer eligible.\<close>

definition claim_delivery :: "int \<Rightarrow> string \<Rightarrow> broadcast_db \<Rightarrow> delivery option \<times> broadcast_db" where
  "claim_delivery now bid db =
     (case next_pending bid (bd_deliveries db) of
        None \<Rightarrow> (None, db)
      | Some d \<Rightarrow>
          (let f = (if eligible_now (bd_customers db) d then claim_row now else skip_row now) in
           (Some (f d), set_deliveries (\<lambda>r. dl_id r = dl_id d) f db)))"

definition open_count :: "string \<Rightarrow> broadcast_db \<Rightarrow> nat" where
  "open_count bid db = length (filter (pending_of bid) (bd_deliveries db))"

lemma next_pending_SomeD:
  assumes "next_pending bid ds = Some d"
  shows "d \<in> set ds" "pending_of bid d"
proof -
  obtain xs where "sort_key dl_created (sort_key dl_id (filter (pending_of bid) ds)) = d # xs"
    using assms by (auto simp: next_pending_def split: list.splits)
  then have "d \<in> set (sort_key dl_created (sort_key dl_id (filter (pending_of bid) ds)))" by (metis list.set_intros(1))
  then show "d \<in> set ds" "pending_of bid d" by simp_all
qed

lemma next_pending_None: "next_pending bid ds = None \<longleftrightarrow> (\<forall>d \<in> set ds. \<not> pending_of bid d)"
proof -
  have "next_pending bid ds = None \<longleftrightarrow> sort_key dl_created (sort_key dl_id (filter (pending_of bid) ds)) = []"
    by (auto simp: next_pending_def split: list.splits)
  also have "\<dots> \<longleftrightarrow> set (sort_key dl_created (sort_key dl_id (filter (pending_of bid) ds))) = {}"
    by (simp only: set_empty)
  also have "\<dots> \<longleftrightarrow> (\<forall>d \<in> set ds. \<not> pending_of bid d)" by auto
  finally show ?thesis .
qed

lemma length_filter_upd_where:
  assumes "d \<in> set ds" "q d" "p d" "\<And>r. p r \<Longrightarrow> \<not> q (f r)"
  shows "length (filter q (upd_where p f ds)) < length (filter q ds)"
proof -
  have le: "length (filter q (upd_where p f xs)) \<le> length (filter q xs)" for xs
    using assms(4) by (induction xs) (auto simp: sql_simps le_Suc_eq)
  show ?thesis using assms(1)
  proof (induction ds)
    case (Cons x xs)
    then show ?case using assms(2-4) le[of xs] by (cases "x = d") (auto simp: sql_simps less_Suc_eq_le)
  qed simp
qed

lemma claim_shrinks:
  assumes "claim_delivery now bid db = (Some d, db')"
  shows "open_count bid db' < open_count bid db"
proof -
  obtain d0 where d0: "next_pending bid (bd_deliveries db) = Some d0"
    using assms by (auto simp: claim_delivery_def split: option.splits)
  then show ?thesis using assms next_pending_SomeD[OF d0]
    by (auto simp: claim_delivery_def open_count_def set_deliveries_def Let_def pending_of_def claim_row_def skip_row_def
        intro!: length_filter_upd_where)
qed

function claim_next_delivery :: "int \<Rightarrow> string \<Rightarrow> broadcast_db \<Rightarrow> delivery option \<times> broadcast_db" where
  "claim_next_delivery now bid db =
     (case claim_delivery now bid db of
        (None, db') \<Rightarrow> (None, db')
      | (Some d, db') \<Rightarrow> if dl_status d = Delivery_Sending then (Some d, db') else claim_next_delivery now bid db')"
  by pat_completeness auto
termination by (relation "measure (\<lambda>(now, bid, db). open_count bid db)") (auto dest: claim_shrinks[OF sym])

declare claim_next_delivery.simps [simp del]

section \<open>Sending\<close>

text \<open>What the client answers: the parsed response, a \<open>MetaSendError\<close> whose outcome is known (nothing
  was delivered) or not, or another exception.\<close>

datatype send_result = Accepted "(string \<times> json) list" | Refused | Unclear | Raised py_exc

record template_message =
  tm_broadcast :: string
  tm_to :: string
  tm_template :: string
  tm_params :: "string list option"

type_synonym outbox = "(template_message \<times> send_result) list"

record broadcast_world =
  bw_db :: broadcast_db
  bw_out :: outbox

function replace_all :: "string \<Rightarrow> string \<Rightarrow> string \<Rightarrow> string" where
  "replace_all old new s =
     (if old = [] \<or> s = [] then s
      else if starts_with old s then new @ replace_all old new (drop (length old) s)
      else hd s # replace_all old new (tl s))"
  by pat_completeness auto
termination by (relation "measure (\<lambda>(old, new, s). length s)") auto

declare replace_all.simps [simp del]

definition personalize_params :: "string list option \<Rightarrow> string option \<Rightarrow> string list option" where
  "personalize_params template_params display_name =
     (case template_params of None \<Rightarrow> None | Some [] \<Rightarrow> None
      | Some ps \<Rightarrow>
         (let name = (if opt_str display_name = [] then ''Cliente'' else opt_str display_name);
              first_name = (case extract_safe_first_name (Some name) of None \<Rightarrow> ''Cliente''
                            | Some n \<Rightarrow> if n = [] then ''Cliente'' else n) in
          Some (map (\<lambda>p. replace_all ''{first_name}'' first_name (replace_all ''{name}'' name p)) ps)))"

text \<open>Iterating over a value, and the identifier of the first message of a response.\<close>

fun j_items :: "json \<Rightarrow> py_exc + json list" where
  "j_items (JList xs _) = Inr xs"
| "j_items (JObj d _) = Inr (map (\<lambda>kv. JVal (PStr (fst kv))) d)"
| "j_items (JVal (PStr s)) = Inr (map (\<lambda>c. JVal (PStr [c])) s)"
| "j_items (JVal _) = Inl (TypeError ''not iterable'')"

fun first_message_id :: "json list \<Rightarrow> py_exc + string option" where
  "first_message_id [] = Inr None"
| "first_message_id (m # ms) =
     (if \<not> j_truthy m then first_message_id ms
      else (case m of
              JObj d _ \<Rightarrow> (let i = py_strip (j_str_or_empty (jget d ''id'')) in
                           if i \<noteq> [] then Inr (Some i) else first_message_id ms)
            | _ \<Rightarrow> Inl (OtherError ''AttributeError'')))"

definition meta_message_id :: "(string \<times> json) list \<Rightarrow> py_exc + string option" where
  "meta_message_id response =
     (let ms = jget response ''messages'' in
      case (if j_truthy ms then j_items ms else Inr []) of
        Inl e \<Rightarrow> Inl e
      | Inr items \<Rightarrow>
          (case first_message_id items of
             Inl e \<Rightarrow> Inl e
           | Inr (Some i) \<Rightarrow> Inr (Some i)
           | Inr None \<Rightarrow>
               (let v = jget response ''message_id'' in
                Inr (nonempty (py_strip (j_str_or_empty (if j_truthy v then v else jget response ''id'')))))))"

fun exc_name :: "py_exc \<Rightarrow> string" where
  "exc_name (ValueError _) = ''ValueError''"
| "exc_name (TypeError _) = ''TypeError''"
| "exc_name (KeyError _) = ''KeyError''"
| "exc_name (RuntimeError _) = ''RuntimeError''"
| "exc_name (OtherError n) = n"

text \<open>Updates of the row in flight apply only while its status is \<open>sending\<close>.\<close>

definition in_flight :: "string \<Rightarrow> delivery \<Rightarrow> bool" where
  "in_flight did d = (dl_id d = did \<and> dl_status d = Delivery_Sending)"

definition mark_started :: "int \<Rightarrow> string \<Rightarrow> broadcast_db \<Rightarrow> broadcast_db" where
  "mark_started now did = set_deliveries (in_flight did) (\<lambda>d. d \<lparr>dl_started := Some now, dl_updated := now\<rparr>)"

definition sent_row :: "int \<Rightarrow> string option \<Rightarrow> delivery \<Rightarrow> delivery" where
  "sent_row now mid d = d \<lparr>dl_status := Delivery_Sent, dl_sent_at := Some now, dl_meta_id := mid, dl_updated := now\<rparr>"

definition failed_row :: "int \<Rightarrow> delivery_status \<Rightarrow> string \<Rightarrow> delivery \<Rightarrow> delivery" where
  "failed_row now st err d = d \<lparr>dl_status := st, dl_failed_at := Some now, dl_error := Some err, dl_updated := now\<rparr>"

fun outcome_row :: "int \<Rightarrow> send_result \<Rightarrow> delivery \<Rightarrow> delivery" where
  "outcome_row now (Accepted response) =
     (case meta_message_id response of
        Inl e \<Rightarrow> failed_row now Delivery_Failed (take 100 (exc_name e))
      | Inr mid \<Rightarrow> sent_row now mid)"
| "outcome_row now Refused = failed_row now Delivery_Failed ''known_meta_send_failure''"
| "outcome_row now Unclear = failed_row now Delivery_Unknown ''delivery_unknown_meta_send''"
| "outcome_row now (Raised e) = failed_row now Delivery_Failed (take 100 (exc_name e))"

definition record_outcome :: "int \<Rightarrow> string \<Rightarrow> send_result \<Rightarrow> broadcast_db \<Rightarrow> broadcast_db" where
  "record_outcome now did r = set_deliveries (in_flight did) (outcome_row now r)"

definition message_for :: "broadcast \<Rightarrow> delivery \<Rightarrow> template_message" where
  "message_for b d = \<lparr>tm_broadcast = dl_broadcast d, tm_to = dl_platform d, tm_template = bc_template b,
     tm_params = personalize_params (bc_params b) (dl_name d)\<rparr>"

definition deliver_one ::
    "int \<Rightarrow> (outbox \<Rightarrow> template_message \<Rightarrow> send_result) \<Rightarrow> broadcast \<Rightarrow> delivery \<Rightarrow> broadcast_world \<Rightarrow> broadcast_world" where
  "deliver_one now send b d w =
     (let m = message_for b d;
          db1 = mark_started now (dl_id d) (bw_db w);
          r = send (bw_out w) m in
      \<lparr>bw_db = record_outcome now (dl_id d) r db1, bw_out = bw_out w @ [(m, r)]\<rparr>)"

lemma claim_next_shrinks:
  "claim_next_delivery now bid db = (Some d, db') \<Longrightarrow> open_count bid db' < open_count bid db"
proof (induction now bid db rule: claim_next_delivery.induct)
  case (1 now bid db)
  obtain r db1 where c: "claim_delivery now bid db = (r, db1)" by fastforce
  then obtain d1 where r: "r = Some d1"
    using 1(2) by (cases r) (simp_all add: claim_next_delivery.simps[of now bid db])
  show ?case
  proof (cases "dl_status d1 = Delivery_Sending")
    case True
    then show ?thesis using 1(2) c r claim_shrinks by (simp add: claim_next_delivery.simps[of now bid db])
  next
    case False
    then have "claim_next_delivery now bid db1 = (Some d, db')"
      using 1(2) c r by (simp add: claim_next_delivery.simps[of now bid db])
    then have "open_count bid db' < open_count bid db1" using 1(1)[OF sym[OF c] r False] by blast
    then show ?thesis using claim_shrinks[of now bid db d1 db1] c r by simp
  qed
qed

lemma open_count_keep:
  assumes "\<And>d. in_flight did d \<Longrightarrow> dl_status (f d) \<noteq> Delivery_Pending"
  shows "open_count bid (set_deliveries (in_flight did) f db) = open_count bid db"
proof -
  have "length (filter (pending_of bid) (upd_where (in_flight did) f ds)) = length (filter (pending_of bid) ds)" for ds
    using assms by (induction ds) (auto simp: sql_simps pending_of_def in_flight_def)
  then show ?thesis by (simp add: open_count_def set_deliveries_def)
qed

lemma outcome_status: "dl_status (outcome_row now r d) \<in> {Delivery_Sent, Delivery_Failed, Delivery_Unknown}"
  by (cases r) (auto simp: failed_row_def sent_row_def split: sum.splits)

lemma mark_started_open: "open_count bid (mark_started now did db) = open_count bid db"
  unfolding mark_started_def by (rule open_count_keep) (simp add: in_flight_def)

lemma record_outcome_open: "open_count bid (record_outcome now did r db) = open_count bid db"
  unfolding record_outcome_def
proof (rule open_count_keep)
  show "dl_status (outcome_row now r d) \<noteq> Delivery_Pending" for d using outcome_status[of now r d] by auto
qed

lemma deliver_one_open: "open_count bid (bw_db (deliver_one now send b d w)) = open_count bid (bw_db w)"
  by (simp add: deliver_one_def Let_def record_outcome_open mark_started_open)

function deliver_all ::
    "int \<Rightarrow> (outbox \<Rightarrow> template_message \<Rightarrow> send_result) \<Rightarrow> broadcast \<Rightarrow> broadcast_world \<Rightarrow> broadcast_world" where
  "deliver_all now send b w =
     (case claim_next_delivery now (bc_id b) (bw_db w) of
        (None, db) \<Rightarrow> w \<lparr>bw_db := db\<rparr>
      | (Some d, db) \<Rightarrow> deliver_all now send b (deliver_one now send b d (w \<lparr>bw_db := db\<rparr>)))"
  by pat_completeness auto
termination
  by (relation "measure (\<lambda>(now, send, b, w). open_count (bc_id b) (bw_db w))")
     (auto simp: deliver_one_open dest!: claim_next_shrinks[OF sym])

declare deliver_all.simps [simp del]

section \<open>Running a campaign\<close>

record broadcast_config =
  cf_outbound :: bool
  cf_backend :: string

datatype execute_answer =
    Execute_Error string
  | Executed string nat nat broadcast_status nat  \<comment> \<open>campaign, recipients, errors, status, pending reconciliation\<close>

definition count_status :: "string \<Rightarrow> delivery_status \<Rightarrow> broadcast_db \<Rightarrow> nat" where
  "count_status bid st db = length (filter (\<lambda>d. dl_broadcast d = bid \<and> dl_status d = st) (bd_deliveries db))"

record delivery_totals =
  dt_sent :: nat
  dt_failed :: nat
  dt_sending :: nat
  dt_pending :: nat
  dt_unknown :: nat

definition delivery_counts :: "string \<Rightarrow> broadcast_db \<Rightarrow> delivery_totals" where
  "delivery_counts bid db = \<lparr>dt_sent = count_status bid Delivery_Sent db, dt_failed = count_status bid Delivery_Failed db,
     dt_sending = count_status bid Delivery_Sending db, dt_pending = count_status bid Delivery_Pending db,
     dt_unknown = count_status bid Delivery_Unknown db\<rparr>"

definition claim_broadcast :: "int \<Rightarrow> string \<Rightarrow> broadcast_db \<Rightarrow> broadcast option \<times> broadcast_db" where
  "claim_broadcast now bid db =
     (case find (\<lambda>b. bc_id b = bid \<and> bc_status b \<in> {Draft, Scheduled}) (bd_casts db) of
        None \<Rightarrow> (None, db)
      | Some b \<Rightarrow>
          (let f = (\<lambda>b. b \<lparr>bc_status := Sending, bc_sent_at := Some now\<rparr>) in
           (Some (f b), db \<lparr>bd_casts := upd_where (\<lambda>b. bc_id b = bid \<and> bc_status b \<in> {Draft, Scheduled}) f (bd_casts db)\<rparr>)))"

definition target_channel :: "broadcast \<Rightarrow> string" where
  "target_channel b = py_lower (py_strip (if opt_str (bc_channel b) = [] then ''whatsapp'' else opt_str (bc_channel b)))"

definition totals_errors :: "delivery_totals \<Rightarrow> nat" where
  "totals_errors t = dt_failed t + dt_sending t + dt_unknown t"

definition final_status :: "delivery_totals \<Rightarrow> broadcast_status" where
  "final_status t = (if totals_errors t = 0 then Sent else if 0 < dt_sent t then Partial else Failed_All)"

definition finish_broadcast :: "string \<Rightarrow> broadcast_db \<Rightarrow> execute_answer \<times> broadcast_db" where
  "finish_broadcast bid db =
     (let t = delivery_counts bid db in
      (Executed bid (dt_sent t) (totals_errors t) (final_status t) (dt_sending t),
       set_cast bid (\<lambda>b. b \<lparr>bc_status := final_status t, bc_recipients := int (dt_sent t)\<rparr>) db))"

definition run_broadcast ::
    "int \<Rightarrow> (string \<Rightarrow> string \<Rightarrow> string) \<Rightarrow> (outbox \<Rightarrow> template_message \<Rightarrow> send_result) \<Rightarrow> broadcast \<Rightarrow> broadcast_world
     \<Rightarrow> execute_answer \<times> broadcast_world" where
  "run_broadcast now new_id send b w =
     (let w1 = w \<lparr>bw_db := seed_delivery_ledger now new_id (bc_id b) (bc_tags b) (bw_db w)\<rparr>;
          w2 = deliver_all now send b w1;
          (answer, db) = finish_broadcast (bc_id b) (bw_db w2) in
      (answer, w2 \<lparr>bw_db := db\<rparr>))"

definition execute_broadcast ::
    "int \<Rightarrow> broadcast_config \<Rightarrow> (string \<Rightarrow> string \<Rightarrow> string) \<Rightarrow> (outbox \<Rightarrow> template_message \<Rightarrow> send_result) \<Rightarrow> string
     \<Rightarrow> broadcast_world \<Rightarrow> execute_answer \<times> broadcast_world" where
  "execute_broadcast now cfg new_id send bid w =
     (if \<not> cf_outbound cfg then (Execute_Error ''Outbound processing is disabled.'', w)
      else (case find_by bc_id bid (bd_casts (bw_db w)) of
        None \<Rightarrow> (Execute_Error (''Broadcast '' @ bid @ '' not found.''), w)
      | Some b \<Rightarrow>
          if bc_status b \<notin> {Draft, Scheduled} then (Execute_Error ''Cannot re-send.'', w)
          else if cf_backend cfg = ''kommo'' then (Execute_Error ''Delivery is unavailable while CHANNEL_BACKEND=kommo.'', w)
          else if target_channel b \<noteq> ''whatsapp''
          then (Execute_Error ''Broadcast delivery is supported only for opted-in WhatsApp customers.'', w)
          else (case claim_broadcast now bid (bw_db w) of
                  (None, _) \<Rightarrow> (Execute_Error ''Broadcast was already claimed by another sender.'', w)
                | (Some b', db) \<Rightarrow> run_broadcast now new_id send b' (w \<lparr>bw_db := db\<rparr>))))"

section \<open>Other operations\<close>

definition create_broadcast ::
    "string \<Rightarrow> string \<Rightarrow> string \<Rightarrow> string list \<Rightarrow> string list option \<Rightarrow> string option \<Rightarrow> int option \<Rightarrow> broadcast_db
     \<Rightarrow> py_exc + broadcast \<times> broadcast_db" where
  "create_broadcast new_id name template tags params channel scheduled db =
     (let ch = py_lower (py_strip (opt_str channel)) in
      if ch \<noteq> ''whatsapp'' then Inl (ValueError ''Broadcasts can target only WhatsApp customers.'')
      else (let b = \<lparr>bc_id = new_id, bc_name = name, bc_template = template,
                     bc_params = (if params = Some [] then None else params), bc_tags = tags, bc_channel = Some ch,
                     bc_scheduled = scheduled, bc_sent_at = None, bc_seeded = None, bc_recipients = 0,
                     bc_status = (if scheduled = None then Draft else Scheduled)\<rparr> in
            Inr (b, db \<lparr>bd_casts := bd_casts db @ [b]\<rparr>)))"

definition cast_when :: "broadcast \<Rightarrow> int option" where
  "cast_when b = (case bc_scheduled b of None \<Rightarrow> bc_sent_at b | Some t \<Rightarrow> Some t)"

definition list_broadcasts :: "broadcast_db \<Rightarrow> nat \<Rightarrow> broadcast list" where
  "list_broadcasts db limit =
     take limit (sort_key (\<lambda>b. - the (cast_when b)) (filter (\<lambda>b. cast_when b \<noteq> None) (bd_casts db))
                 @ filter (\<lambda>b. cast_when b = None) (bd_casts db))"

definition list_broadcast_deliveries :: "broadcast_db \<Rightarrow> string \<Rightarrow> int \<Rightarrow> delivery list" where
  "list_broadcast_deliveries db bid limit =
     take (nat (max 1 (min limit 1000)))
       (sort_key dl_created (sort_key dl_id (filter (\<lambda>d. dl_broadcast d = bid) (bd_deliveries db))))"

definition reset_row :: "int \<Rightarrow> delivery \<Rightarrow> delivery" where
  "reset_row now d = d \<lparr>dl_status := Delivery_Pending, dl_failed_at := None, dl_started := None, dl_error := None,
     dl_updated := now\<rparr>"

definition known_failure :: "string \<Rightarrow> delivery \<Rightarrow> bool" where
  "known_failure bid d = (dl_broadcast d = bid \<and> dl_status d = Delivery_Failed \<and> dl_error d = Some ''known_meta_send_failure'')"

definition reset_broadcast ::
    "int \<Rightarrow> string \<Rightarrow> broadcast_db \<Rightarrow> py_exc + (nat \<times> nat \<times> nat) \<times> broadcast_db" where
  "reset_broadcast now bid db =
     (case find_by bc_id bid (bd_casts db) of
        None \<Rightarrow> Inl (OtherError ''HTTPException 404'')
      | Some _ \<Rightarrow>
          (let ((requeued, unknown), db1) = recover_stale_broadcast_deliveries now (Some bid) db;
               known = length (filter (known_failure bid) (bd_deliveries db1));
               db2 = set_deliveries (known_failure bid) (reset_row now) db1 in
           Inr ((requeued, unknown, known),
                set_cast bid (\<lambda>b. b \<lparr>bc_status := Draft, bc_sent_at := None,
                  bc_recipients := int (count_status bid Delivery_Sent db2)\<rparr>) db2)))"

definition retry_row :: "int \<Rightarrow> delivery \<Rightarrow> delivery" where
  "retry_row now d = d \<lparr>dl_status := Delivery_Pending, dl_failed_at := None, dl_claimed := None, dl_started := None,
     dl_error := Some ''manual_reconciliation_retry'', dl_updated := now\<rparr>"

definition retry_reconciled_delivery ::
    "int \<Rightarrow> string \<Rightarrow> string \<Rightarrow> broadcast_db \<Rightarrow> py_exc + broadcast_db" where
  "retry_reconciled_delivery now bid did db =
     (let p = (\<lambda>d. dl_id d = did \<and> dl_broadcast d = bid \<and> dl_status d = Delivery_Unknown) in
      if list_ex p (bd_deliveries db) then Inr (set_deliveries p (retry_row now) db)
      else Inl (OtherError ''HTTPException 404''))"

text \<open>The retention policy of \<open>data_retention.py\<close> for this table, one batch.\<close>

definition purge_deliveries :: "int \<Rightarrow> nat \<Rightarrow> broadcast_db \<Rightarrow> nat \<times> broadcast_db" where
  "purge_deliveries now batch db =
     (let old = (\<lambda>d. dl_status d \<in> {Delivery_Sent, Delivery_Failed} \<and> dl_updated d < now - 90 * 86400);
          candidates = take batch (sort_key dl_updated (filter old (bd_deliveries db))) in
      (length candidates,
       db \<lparr>bd_deliveries := del_where (\<lambda>d. dl_id d \<in> dl_id ` set candidates) (bd_deliveries db)\<rparr>))"

text \<open>The periodic run: stale deliveries are recovered, then every campaign that is due is executed.\<close>

definition is_due :: "int \<Rightarrow> broadcast \<Rightarrow> bool" where
  "is_due now b = (bc_status b = Scheduled \<and> (case bc_scheduled b of None \<Rightarrow> False | Some t \<Rightarrow> t \<le> now))"

definition run_scheduled ::
    "int \<Rightarrow> broadcast_config \<Rightarrow> (string \<Rightarrow> string \<Rightarrow> string) \<Rightarrow> (outbox \<Rightarrow> template_message \<Rightarrow> send_result) \<Rightarrow> string
     \<Rightarrow> broadcast_world \<Rightarrow> broadcast_world" where
  "run_scheduled now cfg new_id send bid w =
     (case execute_broadcast now cfg new_id send bid w of
        (Execute_Error _, w') \<Rightarrow>
          w' \<lparr>bw_db := (bw_db w') \<lparr>bd_casts := upd_where (\<lambda>b. bc_id b = bid \<and> bc_status b = Scheduled)
                                     (\<lambda>b. b \<lparr>bc_status := Failed_All\<rparr>) (bd_casts (bw_db w'))\<rparr>\<rparr>
      | (Executed _ _ _ _ _, w') \<Rightarrow> w')"

definition check_scheduled_broadcasts ::
    "int \<Rightarrow> broadcast_config \<Rightarrow> (string \<Rightarrow> string \<Rightarrow> string) \<Rightarrow> (outbox \<Rightarrow> template_message \<Rightarrow> send_result)
     \<Rightarrow> broadcast_world \<Rightarrow> broadcast_world" where
  "check_scheduled_broadcasts now cfg new_id send w =
     (let db = snd (recover_stale_broadcast_deliveries now None (bw_db w));
          rows = sort_key (\<lambda>b. the (bc_scheduled b)) (filter (is_due now) (bd_casts db)) in
      fold (\<lambda>b. run_scheduled now cfg new_id send (bc_id b)) rows (w \<lparr>bw_db := db\<rparr>))"
section \<open>What an execution does\<close>

text \<open>The columns of a ledger no operation of a run changes.\<close>

definition frame :: "delivery \<Rightarrow> string \<times> (string \<times> string) \<times> string option" where
  "frame d = (dl_id d, delivery_key d, dl_customer d)"

lemma frame_upd:
  assumes "\<And>d. frame (f d) = frame d" shows "map frame (bd_deliveries (set_deliveries p f db)) = map frame (bd_deliveries db)"
  using assms by (simp add: set_deliveries_def map_key_upd_where)

lemma frame_outcome: "frame (outcome_row now r d) = frame d"
  by (cases r) (auto simp: frame_def delivery_key_def failed_row_def sent_row_def split: sum.splits)

lemma claim_next_frame:
  "claim_next_delivery now bid db = (r, db') \<Longrightarrow> map frame (bd_deliveries db') = map frame (bd_deliveries db)
     \<and> bd_customers db' = bd_customers db \<and> bd_casts db' = bd_casts db
     \<and> (case r of None \<Rightarrow> open_count bid db' = 0
        | Some d \<Rightarrow> dl_broadcast d = bid \<and> frame d \<in> frame ` set (bd_deliveries db') \<and> eligible_now (bd_customers db) d)"
proof (induction now bid db rule: claim_next_delivery.induct)
  case (1 now bid db)
  obtain r1 db1 where c: "claim_delivery now bid db = (r1, db1)" by fastforce
  show ?case
  proof (cases r1)
    case None
    then have "next_pending bid (bd_deliveries db) = None" "db1 = db" using c by (auto simp: claim_delivery_def Let_def split: option.splits)
    then show ?thesis using 1(2) c None
      by (auto simp: claim_next_delivery.simps[of now bid db] open_count_def next_pending_None filter_empty_conv)
  next
    case (Some d)
    then obtain d0 where d0: "next_pending bid (bd_deliveries db) = Some d0"
      using c by (auto simp: claim_delivery_def split: option.splits)
    define f where "f = (if eligible_now (bd_customers db) d0 then claim_row now else skip_row now)"
    have d: "d = f d0" "db1 = set_deliveries (\<lambda>r. dl_id r = dl_id d0) f db" using c Some d0 by (auto simp: claim_delivery_def Let_def f_def)
    have ff: "frame (f x) = frame x" for x by (simp add: f_def frame_def delivery_key_def claim_row_def skip_row_def)
    have fr: "map frame (bd_deliveries db1) = map frame (bd_deliveries db)" unfolding d(2) by (rule frame_upd) (rule ff)
    have same: "bd_customers db1 = bd_customers db" "bd_casts db1 = bd_casts db" by (simp_all add: d(2) set_deliveries_def)
    show ?thesis
    proof (cases "dl_status d = Delivery_Sending")
      case True
      then have r: "r = Some d" "db' = db1" using 1(2) c Some by (simp_all add: claim_next_delivery.simps[of now bid db])
      have "frame d \<in> frame ` set (bd_deliveries db)" using next_pending_SomeD(1)[OF d0] ff d(1) by (metis imageI)
      then have "frame d \<in> frame ` set (bd_deliveries db1)" using fr by (metis list.set_map)
      moreover have "dl_broadcast d = bid" "eligible_now (bd_customers db) d"
        using True next_pending_SomeD(2)[OF d0] by (auto simp: d(1) f_def pending_of_def claim_row_def skip_row_def eligible_now_def split: if_splits)
      ultimately show ?thesis using r fr same by simp
    next
      case False
      then have n: "claim_next_delivery now bid db1 = (r, db')" using 1(2) c Some by (simp add: claim_next_delivery.simps[of now bid db])
      show ?thesis using 1(1)[OF sym[OF c] Some False n] fr same by (simp split: option.splits)
    qed
  qed
qed

definition to_eligible :: "broadcast \<Rightarrow> broadcast_db \<Rightarrow> template_message \<Rightarrow> bool" where
  "to_eligible b db m = (\<exists>d \<in> set (bd_deliveries db). delivery_key d = (tm_broadcast m, tm_to m) \<and> tm_broadcast m = bc_id b
     \<and> tm_template m = bc_template b \<and> eligible_now (bd_customers db) d)"

lemma to_eligible_frame:
  assumes "map frame (bd_deliveries db') = map frame (bd_deliveries db)" "bd_customers db' = bd_customers db"
  shows "to_eligible b db' = to_eligible b db"
proof -
  have eq: "to_eligible b db m = (\<exists>x \<in> set (map frame (bd_deliveries db)). fst (snd x) = (tm_broadcast m, tm_to m) \<and> tm_broadcast m = bc_id b
     \<and> tm_template m = bc_template b \<and> (case snd (snd x) of None \<Rightarrow> False
        | Some cid \<Rightarrow> (case find_by c_id cid (bd_customers db) of None \<Rightarrow> False | Some c \<Rightarrow> is_eligible c)))" for db m
    by (simp add: to_eligible_def eligible_now_def frame_def)
  show ?thesis by (rule ext) (simp only: eq assms)
qed

lemma deliver_one_frame:
  "map frame (bd_deliveries (bw_db (deliver_one now send b d w))) = map frame (bd_deliveries (bw_db w))
   \<and> bd_customers (bw_db (deliver_one now send b d w)) = bd_customers (bw_db w) \<and> bd_casts (bw_db (deliver_one now send b d w)) = bd_casts (bw_db w)
   \<and> bw_out (deliver_one now send b d w) = bw_out w @ [(message_for b d, send (bw_out w) (message_for b d))]"
  by (simp add: deliver_one_def Let_def record_outcome_def mark_started_def frame_upd frame_outcome, simp add: set_deliveries_def frame_def delivery_key_def map_key_upd_where)

lemma deliver_all_does:
  "\<exists>ms. bw_out (deliver_all now send b w) = bw_out w @ ms \<and> (\<forall>x \<in> set ms. to_eligible b (bw_db w) (fst x))
     \<and> map frame (bd_deliveries (bw_db (deliver_all now send b w))) = map frame (bd_deliveries (bw_db w))
     \<and> bd_customers (bw_db (deliver_all now send b w)) = bd_customers (bw_db w) \<and> bd_casts (bw_db (deliver_all now send b w)) = bd_casts (bw_db w)
     \<and> open_count (bc_id b) (bw_db (deliver_all now send b w)) = 0"
proof (induction now send b w rule: deliver_all.induct)
  case (1 now send b w)
  obtain r db where c: "claim_next_delivery now (bc_id b) (bw_db w) = (r, db)" by fastforce
  note fr = claim_next_frame[OF c]
  show ?case
  proof (cases r)
    case None
    then have "deliver_all now send b w = w \<lparr>bw_db := db\<rparr>" using c by (simp add: deliver_all.simps[of now send b w])
    then show ?thesis using fr None by (intro exI[of _ "[]"]) simp
  next
    case (Some d)
    let ?w1 = "w \<lparr>bw_db := db\<rparr>" and ?m = "message_for b d"
    let ?w2 = "deliver_one now send b d ?w1"
    have all: "deliver_all now send b w = deliver_all now send b ?w2" using c Some by (simp add: deliver_all.simps[of now send b w])
    note one = deliver_one_frame[of now send b d ?w1]
    have d: "dl_broadcast d = bc_id b" "frame d \<in> frame ` set (bd_deliveries db)" "eligible_now (bd_customers (bw_db w)) d" using fr Some by simp_all
    then obtain d' where d': "d' \<in> set (bd_deliveries db)" "frame d' = frame d" by (metis imageE)
    then have "to_eligible b db ?m" unfolding to_eligible_def using d fr
      by (intro bexI[OF _ d'(1)]) (auto simp: frame_def message_for_def delivery_key_def eligible_now_def)
    then have m: "to_eligible b (bw_db w) ?m" using to_eligible_frame[of db "bw_db w"] fr by simp
    obtain ms where ms: "bw_out (deliver_all now send b ?w2) = bw_out ?w2 @ ms" "\<forall>x \<in> set ms. to_eligible b (bw_db ?w2) (fst x)"
      "map frame (bd_deliveries (bw_db (deliver_all now send b ?w2))) = map frame (bd_deliveries (bw_db ?w2))"
      "bd_customers (bw_db (deliver_all now send b ?w2)) = bd_customers (bw_db ?w2)" "bd_casts (bw_db (deliver_all now send b ?w2)) = bd_casts (bw_db ?w2)"
      "open_count (bc_id b) (bw_db (deliver_all now send b ?w2)) = 0"
      using 1[OF sym[OF c] Some] by blast
    have "to_eligible b (bw_db ?w2) = to_eligible b (bw_db w)" by (rule to_eligible_frame) (use one fr in simp_all)
    then show ?thesis unfolding all using ms one fr m
      by (intro exI[of _ "(?m, send (bw_out w) ?m) # ms"]) simp
  qed
qed

lemma status_total:
  "count_status bid Delivery_Sent db + count_status bid Delivery_Failed db + count_status bid Delivery_Sending db
     + count_status bid Delivery_Unknown db + open_count bid db = length (filter (\<lambda>d. dl_broadcast d = bid) (bd_deliveries db))"
proof -
  define n where "n st ds = length (filter (\<lambda>d. dl_broadcast d = bid \<and> dl_status d = st) ds)" for st and ds :: "delivery list"
  have step: "n st (d # ds) = (if dl_broadcast d = bid \<and> dl_status d = st then 1 else 0) + n st ds" for st d and ds :: "delivery list" by (simp add: n_def)
  have all: "n Delivery_Sent ds + n Delivery_Failed ds + n Delivery_Sending ds + n Delivery_Unknown ds + n Delivery_Pending ds
      = length (filter (\<lambda>d. dl_broadcast d = bid) ds)" for ds :: "delivery list"
  proof (induction ds)
    case (Cons d ds)
    then show ?case unfolding step by (cases "dl_status d"; cases "dl_broadcast d = bid") simp_all
  qed (simp add: n_def)
  show ?thesis using all[of "bd_deliveries db"] by (simp add: count_status_def open_count_def n_def pending_of_def[abs_def])
qed

lemma execute_cases:
  assumes "execute_broadcast now cfg new_id send bid w = (Executed i n e st p, w')"
  obtains b db where "claim_broadcast now bid (bw_db w) = (Some b, db)" "run_broadcast now new_id send b (w \<lparr>bw_db := db\<rparr>) = (Executed i n e st p, w')"
  using assms by (auto simp: execute_broadcast_def split: if_splits option.splits prod.splits)

lemma claim_broadcast_some:
  assumes "claim_broadcast now bid db = (Some b, db')"
  shows "bc_id b = bid" "bd_deliveries db' = bd_deliveries db" "bd_customers db' = bd_customers db" "\<exists>x \<in> set (bd_casts db'). bc_id x = bid"
proof -
  obtain b0 where f: "find (\<lambda>b. bc_id b = bid \<and> bc_status b \<in> {Draft, Scheduled}) (bd_casts db) = Some b0"
    using assms by (auto simp: claim_broadcast_def split: option.splits)
  then have b0: "b0 \<in> set (bd_casts db)" "bc_id b0 = bid" by (auto simp: find_Some_iff)
  show "bc_id b = bid" "bd_deliveries db' = bd_deliveries db" "bd_customers db' = bd_customers db"
    using assms f b0 by (auto simp: claim_broadcast_def Let_def)
  have "db' = db \<lparr>bd_casts := upd_where (\<lambda>b. bc_id b = bid \<and> bc_status b \<in> {Draft, Scheduled}) (\<lambda>b. b \<lparr>bc_status := Sending, bc_sent_at := Some now\<rparr>) (bd_casts db)\<rparr>"
    using assms f by (simp add: claim_broadcast_def Let_def)
  then have "map bc_id (bd_casts db') = map bc_id (bd_casts db)" by (simp add: map_key_upd_where)
  then have "bc_id ` set (bd_casts db') = bc_id ` set (bd_casts db)" by (metis list.set_map)
  then show "\<exists>x \<in> set (bd_casts db'). bc_id x = bid" using b0 by (metis imageE imageI)
qed
lemma finish_fields:
  assumes "finish_broadcast bid db = (Executed i n e st p, db')"
  shows "i = bid" "n = count_status bid Delivery_Sent db"
    "e = count_status bid Delivery_Failed db + count_status bid Delivery_Sending db + count_status bid Delivery_Unknown db"
    "p = count_status bid Delivery_Sending db" "st = (if e = 0 then Sent else if 0 < n then Partial else Failed_All)"
    "db' = set_cast bid (\<lambda>b. b \<lparr>bc_status := st, bc_recipients := int n\<rparr>) db"
  using assms by (auto simp: finish_broadcast_def Let_def delivery_counts_def totals_errors_def final_status_def)

lemma seed_customers: "bd_customers (seed_delivery_ledger now new_id bid tags db) = bd_customers db"
  by (simp add: seed_delivery_ledger_def set_cast_def Let_def split: option.splits)

lemma seed_casts: "bc_id ` set (bd_casts (seed_delivery_ledger now new_id bid tags db)) = bc_id ` set (bd_casts db)"
proof -
  have "map bc_id (bd_casts (seed_delivery_ledger now new_id bid tags db)) = map bc_id (bd_casts db)"
    by (simp add: seed_delivery_ledger_def set_cast_def Let_def map_key_upd_where split: option.splits)
  then show ?thesis by (metis list.set_map)
qed

text \<open>An execution that answers sends its template only to recipients of the campaign who are opted-in, unblocked WhatsApp customers,
  leaves no delivery of the campaign waiting, accounts for each of them as sent or as an error, and stores and answers the status sent
  exactly if every delivery of the campaign was sent.\<close>

theorem execute_broadcast_accounts:
  assumes "execute_broadcast now cfg new_id send bid w = (Executed i n e st p, w')"
  shows "(\<exists>ms. bw_out w' = bw_out w @ ms \<and> (\<forall>(m, r) \<in> set ms. tm_broadcast m = bid
        \<and> (\<exists>d \<in> set (bd_deliveries (bw_db w')). delivery_key d = (bid, tm_to m) \<and> eligible_now (bd_customers (bw_db w)) d)))
    \<and> (\<forall>d \<in> set (bd_deliveries (bw_db w')). \<not> pending_of bid d)
    \<and> n + e = length (filter (\<lambda>d. dl_broadcast d = bid) (bd_deliveries (bw_db w')))
    \<and> (st = Sent \<longleftrightarrow> (\<forall>d \<in> set (bd_deliveries (bw_db w')). dl_broadcast d = bid \<longrightarrow> dl_status d = Delivery_Sent))
    \<and> (\<exists>b \<in> set (bd_casts (bw_db w')). bc_id b = bid \<and> bc_status b = st \<and> bc_recipients b = int n)"
  using assms
proof (rule execute_cases)
  fix b db assume c: "claim_broadcast now bid (bw_db w) = (Some b, db)" and run: "run_broadcast now new_id send b (w \<lparr>bw_db := db\<rparr>) = (Executed i n e st p, w')"
  note b = claim_broadcast_some[OF c]
  define w1 where "w1 = w \<lparr>bw_db := seed_delivery_ledger now new_id bid (bc_tags b) db\<rparr>"
  define w2 where "w2 = deliver_all now send b w1"
  obtain db3 where f: "finish_broadcast bid (bw_db w2) = (Executed i n e st p, db3)" and w': "w' = w2 \<lparr>bw_db := db3\<rparr>"
    using run b(1) by (auto simp: run_broadcast_def Let_def w1_def w2_def split: prod.splits)
  note fin = finish_fields[OF f]
  have out1: "bw_out w1 = bw_out w" "bd_customers (bw_db w1) = bd_customers (bw_db w)" using b(3) by (simp_all add: w1_def seed_customers)
  obtain ms where ms: "bw_out w2 = bw_out w1 @ ms" "\<forall>x \<in> set ms. to_eligible b (bw_db w1) (fst x)"
    "map frame (bd_deliveries (bw_db w2)) = map frame (bd_deliveries (bw_db w1))" "bd_customers (bw_db w2) = bd_customers (bw_db w1)"
    "bd_casts (bw_db w2) = bd_casts (bw_db w1)" "open_count bid (bw_db w2) = 0"
    using deliver_all_does[of now send b w1] b(1) unfolding w2_def by blast
  have rows: "bd_deliveries (bw_db w') = bd_deliveries (bw_db w2)" using fin(6) by (simp add: w' set_cast_def)
  have none: "\<forall>d \<in> set (bd_deliveries (bw_db w')). \<not> pending_of bid d" unfolding rows using ms(6) by (simp add: open_count_def filter_empty_conv)
  have total: "n + e = length (filter (\<lambda>d. dl_broadcast d = bid) (bd_deliveries (bw_db w')))"
    unfolding rows using status_total[of bid "bw_db w2"] ms(6) fin(2,3) by simp
  have el: "to_eligible b (bw_db w2) = to_eligible b (bw_db w1)" using ms(3,4) by (rule to_eligible_frame)
  have msgs: "\<forall>(m, r) \<in> set ms. tm_broadcast m = bid
        \<and> (\<exists>d \<in> set (bd_deliveries (bw_db w')). delivery_key d = (bid, tm_to m) \<and> eligible_now (bd_customers (bw_db w)) d)"
    using ms(2,4) out1(2) b(1) unfolding rows el[symmetric] by (fastforce simp: to_eligible_def)
  have "st = Sent \<longleftrightarrow> e = 0" using fin(5) by simp
  also have "\<dots> \<longleftrightarrow> n = length (filter (\<lambda>d. dl_broadcast d = bid) (bd_deliveries (bw_db w2)))"
    using total[unfolded rows] by presburger
  also have "\<dots> \<longleftrightarrow> (\<forall>d \<in> set (bd_deliveries (bw_db w2)). dl_broadcast d = bid \<longrightarrow> dl_status d = Delivery_Sent)"
  proof -
    have "filter (\<lambda>d. dl_broadcast d = bid \<and> dl_status d = Delivery_Sent) ds = filter (\<lambda>d. dl_status d = Delivery_Sent) (filter (\<lambda>d. dl_broadcast d = bid) ds)" for ds :: "delivery list"
      by (simp add: conj_commute)
    then have "n = length (filter (\<lambda>d. dl_status d = Delivery_Sent) (filter (\<lambda>d. dl_broadcast d = bid) (bd_deliveries (bw_db w2))))"
      using fin(2) by (simp only: count_status_def)
    then show ?thesis using filter_True[of "filter (\<lambda>d. dl_broadcast d = bid) (bd_deliveries (bw_db w2))" "\<lambda>d. dl_status d = Delivery_Sent"]
        length_filter_less[of _ "filter (\<lambda>d. dl_broadcast d = bid) (bd_deliveries (bw_db w2))" "\<lambda>d. dl_status d = Delivery_Sent"] by fastforce
  qed
  finally have sent: "st = Sent \<longleftrightarrow> (\<forall>d \<in> set (bd_deliveries (bw_db w')). dl_broadcast d = bid \<longrightarrow> dl_status d = Delivery_Sent)" unfolding rows .
  have "bid \<in> bc_id ` set (bd_casts (bw_db w2))" unfolding ms(5) w1_def using b(4) seed_casts[of now new_id bid "bc_tags b" db] by auto
  then obtain x where "x \<in> set (bd_casts (bw_db w2))" "bc_id x = bid" by blast
  then have "x \<lparr>bc_status := st, bc_recipients := int n\<rparr> \<in> set (bd_casts (bw_db w'))" "bc_id (x \<lparr>bc_status := st, bc_recipients := int n\<rparr>) = bid"
    unfolding w' by (auto simp: fin(6) set_cast_def in_upd_where)
  then have cast: "\<exists>b \<in> set (bd_casts (bw_db w')). bc_id b = bid \<and> bc_status b = st \<and> bc_recipients b = int n" by (intro bexI) auto
  show ?thesis using ms(1) out1(1) msgs none total sent cast w' by (intro conjI exI[of _ ms]) simp_all
qed
text \<open>Campaigns that are due, and how a scheduled run removes one.\<close>

definition due_ids :: "int \<Rightarrow> broadcast_db \<Rightarrow> string set" where
  "due_ids now db = bc_id ` {b \<in> set (bd_casts db). is_due now b}"

lemma due_ids_upd:
  assumes "\<And>b. p b \<Longrightarrow> bc_id (f b) = bc_id b \<and> (is_due now (f b) \<longrightarrow> is_due now b)" "bd_casts db' = upd_where p f (bd_casts db)"
  shows "due_ids now db' \<subseteq> due_ids now db"
  using assms(1) unfolding due_ids_def assms(2) set_upd_where by (auto split: if_splits)

lemma due_ids_out:
  assumes "\<And>b. p b \<Longrightarrow> \<not> is_due now (f b)" "\<And>b. bc_id b = bid \<Longrightarrow> is_due now b \<Longrightarrow> p b" "bd_casts db' = upd_where p f (bd_casts db)"
  shows "due_ids now db' \<subseteq> due_ids now db - {bid}"
proof
  fix i assume "i \<in> due_ids now db'"
  then obtain x where x: "x \<in> set (bd_casts db')" "is_due now x" "i = bc_id x" unfolding due_ids_def by blast
  then obtain r where r: "r \<in> set (bd_casts db)" "x = (if p r then f r else r)" unfolding assms(3) in_upd_where by blast
  have "\<not> p r" using assms(1)[of r] x(2) r(2) by (auto split: if_splits)
  then have "x = r" using r(2) by simp
  then show "i \<in> due_ids now db - {bid}" using x r(1) assms(2)[of r] \<open>\<not> p r\<close> by (auto simp: due_ids_def)
qed

lemma seed_due: "due_ids now (seed_delivery_ledger t new_id bid tags db) \<subseteq> due_ids now db"
proof (cases "\<exists>b. find_by bc_id bid (bd_casts db) = Some b \<and> bc_seeded b = None")
  case True
  then show ?thesis
    by (intro due_ids_upd[where p = "\<lambda>b. bc_id b = bid" and f = "\<lambda>b. b \<lparr>bc_seeded := Some t\<rparr>"])
       (auto simp: seed_delivery_ledger_def set_cast_def is_due_def Let_def)
next
  case False
  then have "seed_delivery_ledger t new_id bid tags db = db" by (auto simp: seed_delivery_ledger_def split: option.splits)
  then show ?thesis by simp
qed

lemma run_broadcast_due:
  assumes "run_broadcast t new_id send b w = (a, w')" shows "due_ids now (bw_db w') \<subseteq> due_ids now (bw_db w) - {bc_id b}"
proof -
  define w2 where "w2 = deliver_all t send b (w \<lparr>bw_db := seed_delivery_ledger t new_id (bc_id b) (bc_tags b) (bw_db w)\<rparr>)"
  define st where "st = final_status (delivery_counts (bc_id b) (bw_db w2))"
  have "st \<noteq> Scheduled" by (simp add: st_def final_status_def)
  have casts: "bd_casts (bw_db w2) = bd_casts (seed_delivery_ledger t new_id (bc_id b) (bc_tags b) (bw_db w))"
    using deliver_all_does[of t send b "w \<lparr>bw_db := seed_delivery_ledger t new_id (bc_id b) (bc_tags b) (bw_db w)\<rparr>"] by (auto simp: w2_def)
  have w': "\<exists>n. bd_casts (bw_db w') = upd_where (\<lambda>x. bc_id x = bc_id b) (\<lambda>x. x \<lparr>bc_status := st, bc_recipients := n\<rparr>) (bd_casts (bw_db w2))"
    using assms by (auto simp: run_broadcast_def finish_broadcast_def set_cast_def Let_def w2_def st_def)
  then obtain n where "bd_casts (bw_db w') = upd_where (\<lambda>x. bc_id x = bc_id b) (\<lambda>x. x \<lparr>bc_status := st, bc_recipients := n\<rparr>) (bd_casts (bw_db w2))"
    by blast
  then have "due_ids now (bw_db w') \<subseteq> due_ids now (bw_db w2) - {bc_id b}"
    by (rule due_ids_out[rotated 2]) (use \<open>st \<noteq> Scheduled\<close> in \<open>simp_all add: is_due_def\<close>)
  moreover have "due_ids now (bw_db w2) \<subseteq> due_ids now (bw_db w)" using seed_due[of now t new_id "bc_id b" "bc_tags b" "bw_db w"]
    unfolding due_ids_def casts .
  ultimately show ?thesis by blast
qed

lemma claim_broadcast_due:
  assumes "claim_broadcast t bid db = (Some b, db')" shows "due_ids now db' \<subseteq> due_ids now db"
  using assms by (intro due_ids_upd[where p = "\<lambda>b. bc_id b = bid \<and> bc_status b \<in> {Draft, Scheduled}"
        and f = "\<lambda>b. b \<lparr>bc_status := Sending, bc_sent_at := Some t\<rparr>"])
     (auto simp: claim_broadcast_def is_due_def Let_def split: option.splits)

lemma execute_error: "execute_broadcast t cfg new_id send bid w = (Execute_Error m, w') \<Longrightarrow> w' = w"
  by (auto simp: execute_broadcast_def run_broadcast_def finish_broadcast_def Let_def split: if_splits option.splits prod.splits)

lemma run_scheduled_due: "due_ids now (bw_db (run_scheduled t cfg new_id send bid w)) \<subseteq> due_ids now (bw_db w) - {bid}"
proof (cases "execute_broadcast t cfg new_id send bid w")
  case (Pair a w')
  show ?thesis
  proof (cases a)
    case (Execute_Error m)
    then have "w' = w" using Pair execute_error by simp
    then have "bd_casts (bw_db (run_scheduled t cfg new_id send bid w)) = upd_where (\<lambda>b. bc_id b = bid \<and> bc_status b = Scheduled)
        (\<lambda>b. b \<lparr>bc_status := Failed_All\<rparr>) (bd_casts (bw_db w))"
      using Pair Execute_Error by (simp add: run_scheduled_def)
    then show ?thesis by (rule due_ids_out[rotated 2]) (simp_all add: is_due_def)
  next
    case (Executed i n e st p)
    then have x: "execute_broadcast t cfg new_id send bid w = (Executed i n e st p, w')" using Pair by simp
    show ?thesis
    proof (rule execute_cases[OF x])
      fix b db assume c: "claim_broadcast t bid (bw_db w) = (Some b, db)" and r: "run_broadcast t new_id send b (w \<lparr>bw_db := db\<rparr>) = (Executed i n e st p, w')"
      have "due_ids now (bw_db w') \<subseteq> due_ids now db - {bid}" using run_broadcast_due[OF r, of now] claim_broadcast_some(1)[OF c] by simp
      then show ?thesis using claim_broadcast_due[OF c, of now] x by (auto simp: run_scheduled_def)
    qed
  qed
qed

text \<open>After the periodic run no campaign that was due is still scheduled: each was executed or marked as failed.\<close>

theorem scheduled_run_empties:
  "\<forall>b \<in> set (bd_casts (bw_db (check_scheduled_broadcasts now cfg new_id send w))). \<not> is_due now b"
proof -
  define db where "db = snd (recover_stale_broadcast_deliveries now None (bw_db w))"
  define queue where "queue = sort_key (\<lambda>b. the (bc_scheduled b)) (filter (is_due now) (bd_casts db))"
  have step: "due_ids now (bw_db (fold (\<lambda>b. run_scheduled now cfg new_id send (bc_id b)) bs w0)) \<subseteq> due_ids now (bw_db w0) - bc_id ` set bs" for bs w0
  proof (induction bs arbitrary: w0)
    case (Cons b bs)
    have "due_ids now (bw_db (run_scheduled now cfg new_id send (bc_id b) w0)) \<subseteq> due_ids now (bw_db w0) - {bc_id b}" by (rule run_scheduled_due)
    then show ?case using Cons[of "run_scheduled now cfg new_id send (bc_id b) w0"] by auto
  qed simp
  have "bc_id ` set queue = due_ids now db" by (auto simp: queue_def due_ids_def)
  then have "due_ids now (bw_db (check_scheduled_broadcasts now cfg new_id send w)) = {}"
    using step[of queue "w \<lparr>bw_db := db\<rparr>"] by (simp add: check_scheduled_broadcasts_def db_def queue_def Let_def)
  then show ?thesis by (auto simp: due_ids_def)
qed

end
