(* ===== verification/Broadcast_Protocol.thy ===== *)
theory Broadcast_Protocol
  imports Broadcast
begin

text \<open>
  Broadcasts as a protocol: any number of senders, recoveries, resets and manual retries, one step per
  statement (per transaction where the code opens one) or call, in any order. A sender may stop between any two steps. The ghost list \<open>bs_got\<close> holds
  the recipients a message reached.
\<close>

section \<open>Senders\<close>

datatype sender_phase =
    Seeding broadcast
  | Looping broadcast
  | Claimed broadcast delivery
  | Begun broadcast delivery
  | Answered broadcast delivery send_result

record broadcast_state =
  bs_now :: int
  bs_db :: broadcast_db
  bs_out :: outbox
  bs_got :: "(string \<times> string) list"
  bs_senders :: "string \<Rightarrow> sender_phase option"

fun holds :: "sender_phase \<Rightarrow> delivery option" where
  "holds (Claimed b d) = Some d"
| "holds (Begun b d) = Some d"
| "holds (Answered b d r) = Some d"
| "holds (Seeding b) = None"
| "holds (Looping b) = None"

text \<open>A sender is prompt while the delivery it claimed is not older than the five minutes of the recovery.\<close>

definition prompt :: "int \<Rightarrow> delivery \<Rightarrow> bool" where
  "prompt now d = (case dl_claimed d of None \<Rightarrow> False | Some t \<Rightarrow> now \<le> t + 300)"

text \<open>What an answer says of the message: accepted messages were delivered, refused ones were not.\<close>

fun truthful :: "send_result \<Rightarrow> bool \<Rightarrow> bool" where
  "truthful (Accepted _) g = g"
| "truthful Refused g = (\<not> g)"
| "truthful Unclear g = True"
| "truthful (Raised e) g = (take 100 (exc_name e) \<noteq> ''known_meta_send_failure'')"

definition fresh_rows :: "(string \<Rightarrow> string \<Rightarrow> string) \<Rightarrow> string \<Rightarrow> broadcast_db \<Rightarrow> bool" where
  "fresh_rows new_id bid db = (distinct (map (\<lambda>c. new_id bid (c_id c)) (bd_customers db))
     \<and> (\<forall>c \<in> set (bd_customers db). new_id bid (c_id c) \<notin> dl_id ` set (bd_deliveries db)))"

text \<open>The rows each statement of the recovery changes, and the last updates of an execution and of a reset, whose counts were
  read in an earlier statement.\<close>

definition recover_rows :: "int \<Rightarrow> string option \<Rightarrow> bool \<Rightarrow> delivery \<Rightarrow> bool" where
  "recover_rows now only begun d = ((only = None \<or> only = Some (dl_broadcast d)) \<and> is_stale now d \<and> (dl_started d \<noteq> None) = begun)"

definition finish_cast :: "delivery_totals \<Rightarrow> broadcast \<Rightarrow> broadcast" where
  "finish_cast t b = b \<lparr>bc_status := final_status t, bc_recipients := int (dt_sent t)\<rparr>"

definition draft_again :: "nat \<Rightarrow> broadcast \<Rightarrow> broadcast" where
  "draft_again n b = b \<lparr>bc_status := Draft, bc_sent_at := None, bc_recipients := int n\<rparr>"

text \<open>The flag says whether senders that are not prompt still take steps.\<close>

inductive bstep :: "bool \<Rightarrow> broadcast_state \<Rightarrow> broadcast_state \<Rightarrow> bool" for late where
  tick: "bs_now s \<le> t \<Longrightarrow> bstep late s (s \<lparr>bs_now := t\<rparr>)"
| customers: "bstep late s (s \<lparr>bs_db := (bs_db s) \<lparr>bd_customers := cs\<rparr>\<rparr>)"
| forget: "bstep late s (s \<lparr>bs_db := set_deliveries (\<lambda>d. dl_customer d = Some c) (\<lambda>d. d \<lparr>dl_customer := None\<rparr>) (bs_db s)\<rparr>)"
| create: "create_broadcast i name tmpl tags ps ch sch (bs_db s) = Inr (b, db) \<Longrightarrow> i \<notin> bc_id ` set (bd_casts (bs_db s))
    \<Longrightarrow> bstep late s (s \<lparr>bs_db := db\<rparr>)"
| begin_run: "bs_senders s w = None \<Longrightarrow> claim_broadcast (bs_now s) bid (bs_db s) = (Some b, db)
    \<Longrightarrow> bstep late s (s \<lparr>bs_db := db, bs_senders := (bs_senders s)(w \<mapsto> Seeding b)\<rparr>)"
| seed: "bs_senders s w = Some (Seeding b) \<Longrightarrow> fresh_rows new_id (bc_id b) (bs_db s)
    \<Longrightarrow> bstep late s (s \<lparr>bs_db := seed_delivery_ledger (bs_now s) new_id (bc_id b) (bc_tags b) (bs_db s),
         bs_senders := (bs_senders s)(w \<mapsto> Looping b)\<rparr>)"
| claim: "bs_senders s w = Some (Looping b) \<Longrightarrow> claim_delivery (bs_now s) (bc_id b) (bs_db s) = (Some d, db)
    \<Longrightarrow> bstep late s (s \<lparr>bs_db := db,
         bs_senders := (bs_senders s)(w \<mapsto> (if dl_status d = Delivery_Sending then Claimed b d else Looping b))\<rparr>)"
| start: "bs_senders s w = Some (Claimed b d) \<Longrightarrow> late \<or> prompt (bs_now s) d
    \<Longrightarrow> bstep late s (s \<lparr>bs_db := mark_started (bs_now s) (dl_id d) (bs_db s), bs_senders := (bs_senders s)(w \<mapsto> Begun b d)\<rparr>)"
| send: "bs_senders s w = Some (Begun b d) \<Longrightarrow> late \<or> prompt (bs_now s) d \<Longrightarrow> truthful r g
    \<Longrightarrow> bstep late s (s \<lparr>bs_out := bs_out s @ [(message_for b d, r)],
         bs_got := (if g then delivery_key d # bs_got s else bs_got s), bs_senders := (bs_senders s)(w \<mapsto> Answered b d r)\<rparr>)"
| record_answer: "bs_senders s w = Some (Answered b d r) \<Longrightarrow> late \<or> prompt (bs_now s) d
    \<Longrightarrow> bstep late s (s \<lparr>bs_db := record_outcome (bs_now s) (dl_id d) r (bs_db s), bs_senders := (bs_senders s)(w \<mapsto> Looping b)\<rparr>)"
| finish: "bs_senders s w = Some (Looping b)
    \<Longrightarrow> bstep late s (s \<lparr>bs_db := set_cast (bc_id b) (finish_cast t) (bs_db s), bs_senders := (bs_senders s)(w := None)\<rparr>)"
| crash: "bstep late s (s \<lparr>bs_senders := (bs_senders s)(w := None)\<rparr>)"
| fail_cast: "bstep late s (s \<lparr>bs_db := (bs_db s) \<lparr>bd_casts := upd_where p (\<lambda>b. b \<lparr>bc_status := Failed_All\<rparr>) (bd_casts (bs_db s))\<rparr>\<rparr>)"
| recover_unsent: "bstep late s (s \<lparr>bs_db := set_deliveries (recover_rows (bs_now s) only False) (requeue_stale (bs_now s)) (bs_db s)\<rparr>)"
| recover_begun: "bstep late s (s \<lparr>bs_db := set_deliveries (recover_rows (bs_now s) only True) (quarantine_stale (bs_now s)) (bs_db s)\<rparr>)"
| reset_known: "bstep late s (s \<lparr>bs_db := set_deliveries (known_failure bid) (reset_row (bs_now s)) (bs_db s)\<rparr>)"
| reset_cast: "bstep late s (s \<lparr>bs_db := set_cast bid (draft_again n) (bs_db s)\<rparr>)"
| retry: "retry_reconciled_delivery (bs_now s) bid did (bs_db s) = Inr db
    \<Longrightarrow> \<forall>d \<in> set (bd_deliveries (bs_db s)). dl_id d = did \<longrightarrow> delivery_key d \<notin> set (bs_got s)
    \<Longrightarrow> bstep late s (s \<lparr>bs_db := db\<rparr>)"
| purge: "bstep late s (s \<lparr>bs_db := snd (purge_deliveries (bs_now s) batch (bs_db s))\<rparr>)"

definition b_init :: "broadcast_state \<Rightarrow> bool" where
  "b_init s = (bd_casts (bs_db s) = [] \<and> bd_deliveries (bs_db s) = [] \<and> bs_got s = [] \<and> bs_out s = []
     \<and> bs_senders s = Map.empty)"

section \<open>The invariant\<close>

abbreviation rows :: "broadcast_state \<Rightarrow> delivery list" where
  "rows s \<equiv> bd_deliveries (bs_db s)"

definition seeded :: "broadcast_db \<Rightarrow> string \<Rightarrow> bool" where
  "seeded db bid = (\<exists>b \<in> set (bd_casts db). bc_id b = bid \<and> bc_seeded b \<noteq> None)"

text \<open>A prompt sender with a delivery, and what it knows of the row.\<close>

definition active :: "broadcast_state \<Rightarrow> string \<Rightarrow> sender_phase \<Rightarrow> delivery \<Rightarrow> bool" where
  "active s w ph d = (bs_senders s w = Some ph \<and> holds ph = Some d \<and> prompt (bs_now s) d)"

definition tracks :: "sender_phase \<Rightarrow> delivery \<Rightarrow> delivery \<Rightarrow> bool" where
  "tracks ph d r = (dl_id r = dl_id d \<and> delivery_key r = delivery_key d \<and> dl_status r = Delivery_Sending
     \<and> dl_claimed r = dl_claimed d \<and> (dl_started r = None \<longleftrightarrow> (\<exists>b. ph = Claimed b d)))"

definition row_ok :: "delivery \<Rightarrow> bool" where
  "row_ok r = ((dl_status r = Delivery_Pending \<longrightarrow> dl_started r = None) \<and> (dl_status r = Delivery_Sending \<longrightarrow> dl_claimed r \<noteq> None))"

definition settled :: "delivery \<Rightarrow> bool" where
  "settled r = (dl_status r = Delivery_Sent \<or> dl_status r = Delivery_Unknown
     \<or> (dl_status r = Delivery_Failed \<and> dl_error r \<noteq> Some ''known_meta_send_failure''))"

definition after_send :: "sender_phase \<Rightarrow> bool" where
  "after_send ph = (\<exists>b d r. ph = Answered b d r \<and> r \<noteq> Refused \<and> (\<forall>e. r = Raised e \<longrightarrow> take 100 (exc_name e) \<noteq> ''known_meta_send_failure''))"

definition spent :: "broadcast_state \<Rightarrow> delivery \<Rightarrow> bool" where
  "spent s r = (settled r \<or> (dl_status r = Delivery_Sending \<and> dl_started r \<noteq> None
     \<and> (\<forall>w ph d. active s w ph d \<longrightarrow> dl_id d = dl_id r \<longrightarrow> after_send ph)))"

definition binv :: "broadcast_state \<Rightarrow> bool" where
  "binv s \<longleftrightarrow> distinct (map bc_id (bd_casts (bs_db s))) \<and> distinct (map dl_id (rows s)) \<and> distinct (map delivery_key (rows s))
     \<and> (\<forall>r \<in> set (rows s). seeded (bs_db s) (dl_broadcast r)) \<and> (\<forall>k \<in> set (bs_got s). seeded (bs_db s) (fst k))
     \<and> (\<forall>r \<in> set (rows s). row_ok r)
     \<and> (\<forall>w ph d. active s w ph d \<longrightarrow> (\<exists>r \<in> set (rows s). tracks ph d r))
     \<and> (\<forall>w ph d w' ph' d'. active s w ph d \<longrightarrow> active s w' ph' d' \<longrightarrow> dl_id d' = dl_id d \<longrightarrow> w' = w)
     \<and> distinct (bs_got s) \<and> (\<forall>r \<in> set (rows s). delivery_key r \<in> set (bs_got s) \<longrightarrow> spent s r)"

lemma binvD:
  assumes "binv s"
  shows "distinct (map bc_id (bd_casts (bs_db s)))" "distinct (map dl_id (rows s))" "distinct (map delivery_key (rows s))"
    "r \<in> set (rows s) \<Longrightarrow> seeded (bs_db s) (dl_broadcast r)" "k \<in> set (bs_got s) \<Longrightarrow> seeded (bs_db s) (fst k)"
    "r \<in> set (rows s) \<Longrightarrow> row_ok r"
    "active s w ph d \<Longrightarrow> \<exists>r \<in> set (rows s). tracks ph d r"
    "active s w ph d \<Longrightarrow> active s w' ph' d' \<Longrightarrow> dl_id d' = dl_id d \<Longrightarrow> w' = w"
    "distinct (bs_got s)" "r \<in> set (rows s) \<Longrightarrow> delivery_key r \<in> set (bs_got s) \<Longrightarrow> spent s r"
  using assms unfolding binv_def by blast+

lemma binvI:
  assumes "distinct (map bc_id (bd_casts (bs_db s)))" "distinct (map dl_id (rows s))" "distinct (map delivery_key (rows s))"
    "\<And>r. r \<in> set (rows s) \<Longrightarrow> seeded (bs_db s) (dl_broadcast r)" "\<And>k. k \<in> set (bs_got s) \<Longrightarrow> seeded (bs_db s) (fst k)"
    "\<And>r. r \<in> set (rows s) \<Longrightarrow> row_ok r"
    "\<And>w ph d. active s w ph d \<Longrightarrow> \<exists>r \<in> set (rows s). tracks ph d r"
    "\<And>w ph d w' ph' d'. active s w ph d \<Longrightarrow> active s w' ph' d' \<Longrightarrow> dl_id d' = dl_id d \<Longrightarrow> w' = w"
    "distinct (bs_got s)" "\<And>r. r \<in> set (rows s) \<Longrightarrow> delivery_key r \<in> set (bs_got s) \<Longrightarrow> spent s r"
  shows "binv s"
  using assms unfolding binv_def by blast

lemma same_row: "binv s \<Longrightarrow> r \<in> set (rows s) \<Longrightarrow> r' \<in> set (rows s) \<Longrightarrow> dl_id r' = dl_id r \<Longrightarrow> r' = r"
  using binvD(2) by (metis find_by_distinct find_by_unique)

text \<open>Rows that are not in the hands of a prompt sender.\<close>

lemma not_sending_free:
  assumes "binv s" "r \<in> set (rows s)" "dl_status r \<noteq> Delivery_Sending" "active s w ph d"
  shows "dl_id d \<noteq> dl_id r"
proof
  assume i: "dl_id d = dl_id r"
  obtain r' where r': "r' \<in> set (rows s)" "tracks ph d r'" using binvD(7)[OF assms(1,4)] by blast
  then have "r' = r" using same_row[OF assms(1,2)] i by (simp add: tracks_def)
  then show False using r' assms(3) by (simp add: tracks_def)
qed

lemma stale_free:
  assumes "binv s" "r \<in> set (rows s)" "is_stale (bs_now s) r" "active s w ph d"
  shows "dl_id d \<noteq> dl_id r"
proof
  assume i: "dl_id d = dl_id r"
  obtain r' where r': "r' \<in> set (rows s)" "tracks ph d r'" using binvD(7)[OF assms(1,4)] by blast
  then have "r' = r" using same_row[OF assms(1,2)] i by (simp add: tracks_def)
  then show False using r' assms(3,4) by (auto simp: tracks_def is_stale_def active_def prompt_def split: option.splits)
qed

lemma pending_not_got:
  assumes "binv s" "r \<in> set (rows s)" "dl_status r = Delivery_Pending" shows "delivery_key r \<notin> set (bs_got s)"
  using binvD(10)[OF assms(1,2)] assms(3) by (auto simp: spent_def settled_def)

section \<open>Changes that keep the invariant\<close>

text \<open>An update of rows that keeps what the prompt senders know and what is spent.\<close>

lemma rows_inv:
  assumes s: "binv s"
    and id: "\<And>r. r \<in> set (rows s) \<Longrightarrow> p r \<Longrightarrow> dl_id (f r) = dl_id r \<and> delivery_key (f r) = delivery_key r \<and> row_ok (f r)"
    and free: "\<And>r w ph d. r \<in> set (rows s) \<Longrightarrow> p r \<Longrightarrow> active s w ph d \<Longrightarrow> tracks ph d r \<Longrightarrow> tracks ph d (f r)"
    and got: "\<And>r. r \<in> set (rows s) \<Longrightarrow> p r \<Longrightarrow> delivery_key r \<in> set (bs_got s) \<Longrightarrow> spent s r \<Longrightarrow> spent s (f r)"
  shows "binv (s \<lparr>bs_db := set_deliveries p f (bs_db s)\<rparr>)"
proof -
  let ?t = "s \<lparr>bs_db := set_deliveries p f (bs_db s)\<rparr>"
  have act: "active ?t = active s" by (simp add: active_def fun_eq_iff)
  have rw: "rows ?t = upd_where p f (rows s)" by (simp add: set_deliveries_def)
  have casts: "bd_casts (bs_db ?t) = bd_casts (bs_db s)" by (simp add: set_deliveries_def)
  have seed: "seeded (bs_db ?t) = seeded (bs_db s)" unfolding seeded_def casts ..
  have m: "map dl_id (rows ?t) = map dl_id (rows s)" "map delivery_key (rows ?t) = map delivery_key (rows s)"
    unfolding rw using id by (auto simp: upd_where_def delivery_key_def)
  have row: "\<exists>r0 \<in> set (rows s). r = (if p r0 then f r0 else r0) \<and> dl_id r = dl_id r0 \<and> delivery_key r = delivery_key r0"
    if "r \<in> set (rows ?t)" for r
    using that id unfolding rw in_upd_where by auto
  show ?thesis
  proof (rule binvI)
    show "distinct (map bc_id (bd_casts (bs_db ?t)))" unfolding casts by (rule binvD(1)[OF s])
    show "distinct (map dl_id (rows ?t))" "distinct (map delivery_key (rows ?t))" unfolding m using binvD(2,3)[OF s] .
    show "seeded (bs_db ?t) (dl_broadcast r)" if "r \<in> set (rows ?t)" for r
      using row[OF that] binvD(4)[OF s] unfolding seed delivery_key_def by auto
    show "seeded (bs_db ?t) (fst k)" if "k \<in> set (bs_got ?t)" for k using that binvD(5)[OF s] unfolding seed by simp
    show "row_ok r" if "r \<in> set (rows ?t)" for r using row[OF that] id binvD(6)[OF s] by auto
    show "\<exists>r \<in> set (rows ?t). tracks ph d r" if a: "active ?t w ph d" for w ph d
    proof -
      obtain r where r: "r \<in> set (rows s)" "tracks ph d r" using a binvD(7)[OF s] unfolding act by blast
      have "(if p r then f r else r) \<in> set (rows ?t)" unfolding rw in_upd_where using r(1) by blast
      moreover have "tracks ph d (if p r then f r else r)" using free[OF r(1) _ _ r(2)] a r(2) unfolding act by auto
      ultimately show ?thesis by blast
    qed
    show "w' = w" if "active ?t w ph d" "active ?t w' ph' d'" "dl_id d' = dl_id d" for w ph d w' ph' d'
      using that binvD(8)[OF s] unfolding act by blast
    show "distinct (bs_got ?t)" using binvD(9)[OF s] by simp
    show "spent ?t r" if r: "r \<in> set (rows ?t)" "delivery_key r \<in> set (bs_got ?t)" for r
    proof -
      obtain r0 where r0: "r0 \<in> set (rows s)" "r = (if p r0 then f r0 else r0)" "delivery_key r = delivery_key r0"
        using row[OF r(1)] by blast
      then have "spent s r" using r(2) got binvD(10)[OF s, of r0] by (cases "p r0") simp_all
      then show ?thesis unfolding spent_def act .
    qed
  qed
qed

lemma free_rows_inv:
  assumes s: "binv s"
    and id: "\<And>r. r \<in> set (rows s) \<Longrightarrow> p r \<Longrightarrow> dl_id (f r) = dl_id r \<and> delivery_key (f r) = delivery_key r \<and> row_ok (f r)"
    and free: "\<And>r w ph d. r \<in> set (rows s) \<Longrightarrow> p r \<Longrightarrow> active s w ph d \<Longrightarrow> dl_id d \<noteq> dl_id r"
    and got: "\<And>r. r \<in> set (rows s) \<Longrightarrow> p r \<Longrightarrow> delivery_key r \<in> set (bs_got s) \<Longrightarrow> settled (f r)"
  shows "binv (s \<lparr>bs_db := set_deliveries p f (bs_db s)\<rparr>)"
proof (rule rows_inv[OF s])
  show "tracks ph d (f r)" if "r \<in> set (rows s)" "p r" "active s w ph d" "tracks ph d r" for r w ph d
    using free[OF that(1-3)] that(4) by (simp add: tracks_def)
  show "spent s (f r)" if "r \<in> set (rows s)" "p r" "delivery_key r \<in> set (bs_got s)" for r
    using got[OF that] by (simp add: spent_def)
qed (rule id)

text \<open>Fewer prompt senders, and changes elsewhere.\<close>

lemma fewer_active_inv:
  assumes s: "binv s" and a: "\<And>w ph d. active t w ph d \<Longrightarrow> active s w ph d"
    and same: "bd_deliveries (bs_db t) = rows s" "bs_got t = bs_got s" "distinct (map bc_id (bd_casts (bs_db t)))"
    and seed: "\<And>b. seeded (bs_db s) b \<Longrightarrow> seeded (bs_db t) b"
  shows "binv t"
proof (rule binvI)
  show "\<exists>r \<in> set (rows t). tracks ph d r" if "active t w ph d" for w ph d
    using binvD(7)[OF s a[OF that]] same by simp
  show "w' = w" if "active t w ph d" "active t w' ph' d'" "dl_id d' = dl_id d" for w ph d w' ph' d'
    using binvD(8)[OF s a[OF that(1)] a[OF that(2)] that(3)] .
  show "spent t r" if "r \<in> set (rows t)" "delivery_key r \<in> set (bs_got t)" for r
    using binvD(10)[OF s, of r] that same a unfolding spent_def by (metis (no_types, lifting))
qed (use same binvD[OF s] seed in auto)

text \<open>A step of one sender on the row it holds.\<close>

lemma one_row_inv:
  assumes s: "binv s" and r0: "r0 \<in> set (rows s)"
    and p: "p r0" "\<And>r. r \<in> set (rows s) \<Longrightarrow> p r \<Longrightarrow> r = r0"
    and f: "dl_id (f r0) = dl_id r0" "delivery_key (f r0) = delivery_key r0" "row_ok (f r0)"
    and others: "\<And>w' ph d. w' \<noteq> w \<Longrightarrow> active s w' ph d \<Longrightarrow> dl_id d \<noteq> dl_id r0"
    and t: "rows t = upd_where p f (rows s)" "bd_casts (bs_db t) = bd_casts (bs_db s)" "bs_now t = bs_now s"
    and senders: "\<And>w'. w' \<noteq> w \<Longrightarrow> bs_senders t w' = bs_senders s w'"
    and mine: "\<And>ph d. active t w ph d \<Longrightarrow> dl_id d = dl_id r0 \<and> tracks ph d (f r0)"
    and got: "bs_got t = bs_got s \<or> (bs_got t = delivery_key r0 # bs_got s \<and> delivery_key r0 \<notin> set (bs_got s))"
    and spent: "delivery_key r0 \<in> set (bs_got t) \<Longrightarrow> settled (f r0) \<or> (dl_status (f r0) = Delivery_Sending \<and> dl_started (f r0) \<noteq> None
        \<and> (\<forall>ph d. active t w ph d \<longrightarrow> after_send ph))"
  shows "binv t"
proof -
  have act: "active t w' = active s w'" if "w' \<noteq> w" for w'
    using senders[OF that] t(3) by (simp add: active_def fun_eq_iff)
  have seed: "seeded (bs_db t) = seeded (bs_db s)" unfolding seeded_def t(2) ..
  have st: "set (rows t) = insert (f r0) (set (rows s) - {r0})" 
  proof -
    have "(if p r then f r else r) = (if r = r0 then f r0 else r)" if "r \<in> set (rows s)" for r using p that by metis
    then have "set (rows t) = (\<lambda>r. if r = r0 then f r0 else r) ` set (rows s)"
      unfolding t(1) upd_where_def set_map by (intro image_cong) auto
    then show ?thesis using r0 by auto
  qed
  have m: "map dl_id (rows t) = map dl_id (rows s)" "map delivery_key (rows t) = map delivery_key (rows s)"
    unfolding t(1) using p f by (auto simp: upd_where_def)
  show ?thesis
  proof (rule binvI)
    show "distinct (map bc_id (bd_casts (bs_db t)))" unfolding t(2) by (rule binvD(1)[OF s])
    show "distinct (map dl_id (rows t))" "distinct (map delivery_key (rows t))" unfolding m using binvD(2,3)[OF s] .
    show "seeded (bs_db t) (dl_broadcast r)" if "r \<in> set (rows t)" for r
      using that st f(2) binvD(4)[OF s] r0 unfolding seed by (auto simp: delivery_key_def)
    show "seeded (bs_db t) (fst k)" if "k \<in> set (bs_got t)" for k
      using that got binvD(5)[OF s, of k] binvD(4)[OF s r0] unfolding seed by (auto simp: delivery_key_def)
    show "row_ok r" if "r \<in> set (rows t)" for r using that st f(3) binvD(6)[OF s] by auto
    show "\<exists>r \<in> set (rows t). tracks ph d r" if a: "active t w' ph d" for w' ph d
    proof (cases "w' = w")
      case True
      then show ?thesis using a mine unfolding st by blast
    next
      case False
      then have a': "active s w' ph d" using a act by metis
      then obtain r where "r \<in> set (rows s)" "tracks ph d r" using binvD(7)[OF s] by blast
      moreover have "r \<noteq> r0" using others[OF False a'] calculation(2) by (auto simp: tracks_def)
      ultimately show ?thesis unfolding st by blast
    qed
    show "w2 = w1" if a: "active t w1 ph d" "active t w2 ph' d'" "dl_id d' = dl_id d" for w1 ph d w2 ph' d'
      using a mine others act binvD(8)[OF s] by (cases "w1 = w"; cases "w2 = w") metis+
    show "distinct (bs_got t)" using got binvD(9)[OF s] by auto
    show "spent t r" if r: "r \<in> set (rows t)" "delivery_key r \<in> set (bs_got t)" for r
    proof (cases "r = f r0")
      case True
      have "after_send ph" if "active t w' ph d" "dl_id d = dl_id r" "\<forall>ph d. active t w ph d \<longrightarrow> after_send ph" for w' ph d
        using that True f(1) others act by metis
      then show ?thesis using True r(2) f(2) spent unfolding spent_def by metis
    next
      case False
      then have r': "r \<in> set (rows s)" "r \<noteq> r0" using r(1) st by auto
      then have ids: "dl_id r \<noteq> dl_id r0" "delivery_key r \<noteq> delivery_key r0"
        using same_row[OF s r0] binvD(3)[OF s] r0 by (blast, metis find_by_distinct find_by_unique)
      then have sp: "spent s r" using r(2) got binvD(10)[OF s r'(1)] by auto
      have "after_send ph" if "active t w' ph d" "dl_id d = dl_id r" "\<forall>w ph d. active s w ph d \<longrightarrow> dl_id d = dl_id r \<longrightarrow> after_send ph"
        for w' ph d using that ids(1) mine act by metis
      then show ?thesis using sp unfolding spent_def by metis
    qed
  qed
qed

lemma prompt_before: "prompt t d \<Longrightarrow> now \<le> t \<Longrightarrow> prompt now d"
  by (auto simp: prompt_def split: option.splits)

lemma tick_inv:
  assumes s: "binv s" and t: "bs_now s \<le> t" shows "binv (s \<lparr>bs_now := t\<rparr>)"
  by (rule fewer_active_inv[OF s]) (use binvD(1)[OF s] t in \<open>auto simp: active_def seeded_def intro: prompt_before\<close>)

lemma crash_inv:
  assumes s: "binv s" shows "binv (s \<lparr>bs_senders := (bs_senders s)(w := None)\<rparr>)"
  by (rule fewer_active_inv[OF s]) (use binvD(1)[OF s] in \<open>auto simp: active_def seeded_def split: if_splits\<close>)

lemma customers_inv:
  assumes s: "binv s" shows "binv (s \<lparr>bs_db := (bs_db s) \<lparr>bd_customers := cs\<rparr>\<rparr>)"
  by (rule fewer_active_inv[OF s]) (use binvD(1)[OF s] in \<open>auto simp: active_def seeded_def\<close>)

text \<open>Changes of the campaigns that forget no snapshot, with senders that hold nothing.\<close>

lemma casts_inv:
  assumes "binv s" "bd_deliveries db = rows s" "distinct (map bc_id (bd_casts db))" "\<And>b. seeded (bs_db s) b \<Longrightarrow> seeded db b"
    and "W = bs_senders s \<or> W = (bs_senders s)(w := None) \<or> (\<exists>ph. W = (bs_senders s)(w \<mapsto> ph) \<and> holds ph = None)"
  shows "binv (s \<lparr>bs_db := db, bs_senders := W\<rparr>)"
  by (rule fewer_active_inv[OF assms(1)]) (use assms in \<open>auto simp: active_def split: if_splits\<close>)

lemma casts_inv':
  assumes "binv s" "bd_deliveries db = rows s" "distinct (map bc_id (bd_casts db))" "\<And>b. seeded (bs_db s) b \<Longrightarrow> seeded db b"
  shows "binv (s \<lparr>bs_db := db\<rparr>)"
  using casts_inv[OF assms, of "bs_senders s"] by simp

lemma seeded_upd:
  assumes "\<And>b. bc_id (f b) = bc_id b" "\<And>b. bc_seeded b \<noteq> None \<Longrightarrow> bc_seeded (f b) \<noteq> None" "bd_casts db' = upd_where p f (bd_casts db)"
    "seeded db bid"
  shows "seeded db' bid"
proof -
  obtain b where b: "b \<in> set (bd_casts db)" "bc_id b = bid" "bc_seeded b \<noteq> None" using assms(4) unfolding seeded_def by blast
  have "(if p b then f b else b) \<in> set (bd_casts db')" unfolding assms(3) in_upd_where using b(1) by blast
  then show ?thesis unfolding seeded_def using assms(1,2) b by (metis (full_types))
qed

lemma distinct_casts_upd:
  assumes "binv s" "\<And>b. bc_id (f b) = bc_id b"
  shows "distinct (map bc_id (upd_where p f (bd_casts (bs_db s))))"
  using binvD(1)[OF assms(1)] map_key_upd_where[of p bc_id f] assms(2) by metis

lemma set_cast_sel [simp]: "bd_deliveries (set_cast bid f db) = bd_deliveries db" "bd_customers (set_cast bid f db) = bd_customers db"
  "bd_casts (set_cast bid f db) = upd_where (\<lambda>b. bc_id b = bid) f (bd_casts db)"
  by (simp_all add: set_cast_def)

lemma set_deliveries_sel [simp]: "bd_casts (set_deliveries p f db) = bd_casts db" "bd_customers (set_deliveries p f db) = bd_customers db"
  "bd_deliveries (set_deliveries p f db) = upd_where p f (bd_deliveries db)"
  by (simp_all add: set_deliveries_def)

lemma create_inv:
  assumes s: "binv s" and c: "create_broadcast i name tmpl tags ps ch sch (bs_db s) = Inr (b, db)" "i \<notin> bc_id ` set (bd_casts (bs_db s))"
  shows "binv (s \<lparr>bs_db := db\<rparr>)"
  by (rule casts_inv'[OF s]) (use c binvD(1)[OF s] in \<open>auto simp: create_broadcast_def seeded_def Let_def split: if_splits\<close>)

lemma begin_inv:
  assumes s: "binv s" and c: "claim_broadcast now bid (bs_db s) = (Some b, db)"
  shows "binv (s \<lparr>bs_db := db, bs_senders := (bs_senders s)(w \<mapsto> Seeding b)\<rparr>)"
proof -
  let ?p = "\<lambda>b. bc_id b = bid \<and> bc_status b \<in> {Draft, Scheduled}" and ?f = "\<lambda>b. b \<lparr>bc_status := Sending, bc_sent_at := Some now\<rparr>"
  have casts: "bd_casts db = upd_where ?p ?f (bd_casts (bs_db s))" and rw: "bd_deliveries db = rows s"
    using c by (auto simp: claim_broadcast_def Let_def split: option.splits)
  show ?thesis
  proof (rule casts_inv[OF s rw])
    show "distinct (map bc_id (bd_casts db))" unfolding casts by (rule distinct_casts_upd[OF s]) simp
    show "seeded db b" if "seeded (bs_db s) b" for b by (rule seeded_upd[OF _ _ casts that]) simp_all
  qed auto
qed

lemma set_cast_inv:
  assumes s: "binv s" and f: "\<And>b. bc_id (f b) = bc_id b" "\<And>b. bc_seeded (f b) = bc_seeded b"
    and W: "W = bs_senders s \<or> W = (bs_senders s)(w := None)"
  shows "binv (s \<lparr>bs_db := set_cast bid f (bs_db s), bs_senders := W\<rparr>)"
proof (rule casts_inv[OF s])
  show "distinct (map bc_id (bd_casts (set_cast bid f (bs_db s))))" unfolding set_cast_sel by (rule distinct_casts_upd[OF s]) (rule f)
  show "seeded (set_cast bid f (bs_db s)) b" if "seeded (bs_db s) b" for b by (rule seeded_upd[OF _ _ _ that]) (simp_all add: f)
qed (use W in auto)

lemma finish_inv: "binv s \<Longrightarrow> binv (s \<lparr>bs_db := set_cast bid (finish_cast t) (bs_db s), bs_senders := (bs_senders s)(w := None)\<rparr>)"
  by (rule set_cast_inv) (auto simp: finish_cast_def)

lemma reset_cast_inv: "binv s \<Longrightarrow> binv (s \<lparr>bs_db := set_cast bid (draft_again n) (bs_db s)\<rparr>)"
  using set_cast_inv[of s "draft_again n" "bs_senders s"] by (simp add: draft_again_def)

lemma fail_inv:
  assumes s: "binv s"
  shows "binv (s \<lparr>bs_db := (bs_db s) \<lparr>bd_casts := upd_where p (\<lambda>b. b \<lparr>bc_status := Failed_All\<rparr>) (bd_casts (bs_db s))\<rparr>\<rparr>)"
proof (rule casts_inv'[OF s])
  show "distinct (map bc_id (bd_casts (bs_db s \<lparr>bd_casts := upd_where p (\<lambda>b. b \<lparr>bc_status := Failed_All\<rparr>) (bd_casts (bs_db s))\<rparr>)))"
    using distinct_casts_upd[OF s] by simp
  show "seeded (bs_db s \<lparr>bd_casts := upd_where p (\<lambda>b. b \<lparr>bc_status := Failed_All\<rparr>) (bd_casts (bs_db s))\<rparr>) b"
    if "seeded (bs_db s) b" for b by (rule seeded_upd[OF _ _ _ that]) simp_all
qed simp

lemma forget_inv:
  assumes s: "binv s"
  shows "binv (s \<lparr>bs_db := set_deliveries (\<lambda>d. dl_customer d = Some c) (\<lambda>d. d \<lparr>dl_customer := None\<rparr>) (bs_db s)\<rparr>)"
  by (rule rows_inv[OF s])
     (use binvD(6)[OF s] in \<open>auto simp: delivery_key_def row_ok_def tracks_def spent_def settled_def\<close>)

lemma recover_unsent_inv:
  assumes s: "binv s"
  shows "binv (s \<lparr>bs_db := set_deliveries (recover_rows (bs_now s) only False) (requeue_stale (bs_now s)) (bs_db s)\<rparr>)"
proof (rule free_rows_inv[OF s])
  show "settled (requeue_stale (bs_now s) r)"
    if "r \<in> set (rows s)" "recover_rows (bs_now s) only False r" "delivery_key r \<in> set (bs_got s)" for r
    using binvD(10)[OF s that(1,3)] that(2) by (auto simp: recover_rows_def spent_def settled_def is_stale_def)
  show "dl_id d \<noteq> dl_id r" if "r \<in> set (rows s)" "recover_rows (bs_now s) only False r" "active s w ph d" for r w ph d
    using stale_free[OF s that(1) _ that(3)] that(2) by (simp add: recover_rows_def)
qed (auto simp: requeue_stale_def delivery_key_def row_ok_def recover_rows_def)

lemma recover_begun_inv:
  assumes s: "binv s"
  shows "binv (s \<lparr>bs_db := set_deliveries (recover_rows (bs_now s) only True) (quarantine_stale (bs_now s)) (bs_db s)\<rparr>)"
proof (rule free_rows_inv[OF s])
  show "dl_id d \<noteq> dl_id r" if "r \<in> set (rows s)" "recover_rows (bs_now s) only True r" "active s w ph d" for r w ph d
    using stale_free[OF s that(1) _ that(3)] that(2) by (simp add: recover_rows_def)
qed (auto simp: quarantine_stale_def delivery_key_def row_ok_def settled_def)

lemma reset_known_inv:
  assumes s: "binv s"
  shows "binv (s \<lparr>bs_db := set_deliveries (known_failure bid) (reset_row (bs_now s)) (bs_db s)\<rparr>)"
proof (rule free_rows_inv[OF s])
  fix r assume r: "r \<in> set (rows s)" "known_failure bid r"
  show "dl_id d \<noteq> dl_id r" if "active s w ph d" for w ph d using not_sending_free[OF s r(1) _ that] r(2) by (simp add: known_failure_def)
  show "settled (reset_row (bs_now s) r)" if "delivery_key r \<in> set (bs_got s)"
    using binvD(10)[OF s r(1) that] r(2) by (auto simp: known_failure_def spent_def settled_def)
qed (auto simp: reset_row_def delivery_key_def row_ok_def)

text \<open>The recovery and the reset of the code are runs of these steps.\<close>

lemma recover_eq:
  "snd (recover_stale_broadcast_deliveries now only db) =
     set_deliveries (recover_rows now only True) (quarantine_stale now) (set_deliveries (recover_rows now only False) (requeue_stale now) db)"
  by (simp add: recover_stale_broadcast_deliveries_def recover_rows_def[abs_def] Let_def)

lemma recover_run: "(bstep late)\<^sup>*\<^sup>* s (s \<lparr>bs_db := snd (recover_stale_broadcast_deliveries (bs_now s) only (bs_db s))\<rparr>)"
proof -
  let ?s1 = "s \<lparr>bs_db := set_deliveries (recover_rows (bs_now s) only False) (requeue_stale (bs_now s)) (bs_db s)\<rparr>"
  have "bstep late s ?s1" by (rule bstep.recover_unsent)
  moreover have "bstep late ?s1 (?s1 \<lparr>bs_db := set_deliveries (recover_rows (bs_now ?s1) only True) (quarantine_stale (bs_now ?s1)) (bs_db ?s1)\<rparr>)"
    by (rule bstep.recover_begun)
  ultimately show ?thesis by (simp add: recover_eq)
qed

lemma reset_run:
  assumes "reset_broadcast (bs_now s) bid (bs_db s) = Inr (n, db)" shows "(bstep late)\<^sup>*\<^sup>* s (s \<lparr>bs_db := db\<rparr>)"
proof -
  let ?s1 = "s \<lparr>bs_db := snd (recover_stale_broadcast_deliveries (bs_now s) (Some bid) (bs_db s))\<rparr>"
  let ?s2 = "?s1 \<lparr>bs_db := set_deliveries (known_failure bid) (reset_row (bs_now ?s1)) (bs_db ?s1)\<rparr>"
  let ?s3 = "?s2 \<lparr>bs_db := set_cast bid (draft_again (count_status bid Delivery_Sent (bs_db ?s2))) (bs_db ?s2)\<rparr>"
  have "(bstep late)\<^sup>*\<^sup>* s ?s1" by (rule recover_run)
  moreover have "bstep late ?s1 ?s2" by (rule bstep.reset_known)
  moreover have "bstep late ?s2 ?s3" by (rule bstep.reset_cast)
  moreover have "?s3 = s \<lparr>bs_db := db\<rparr>"
    using assms by (auto simp: reset_broadcast_def draft_again_def[abs_def] Let_def split: option.splits prod.splits)
  ultimately show ?thesis by (metis rtranclp.rtrancl_into_rtrancl)
qed

lemma retry_inv:
  assumes s: "binv s" and r: "retry_reconciled_delivery (bs_now s) bid did (bs_db s) = Inr db"
    and told: "\<forall>d \<in> set (rows s). dl_id d = did \<longrightarrow> delivery_key d \<notin> set (bs_got s)"
  shows "binv (s \<lparr>bs_db := db\<rparr>)"
proof -
  let ?p = "\<lambda>d. dl_id d = did \<and> dl_broadcast d = bid \<and> dl_status d = Delivery_Unknown"
  have db: "db = set_deliveries ?p (retry_row (bs_now s)) (bs_db s)"
    using r by (simp add: retry_reconciled_delivery_def Let_def split: if_splits)
  show ?thesis unfolding db
  proof (rule free_rows_inv[OF s])
    show "dl_id d \<noteq> dl_id r" if "r \<in> set (rows s)" "?p r" "active s w ph d" for r w ph d
      using not_sending_free[OF s that(1) _ that(3)] that(2) by simp
    show "settled (retry_row (bs_now s) r)" if "r \<in> set (rows s)" "?p r" "delivery_key r \<in> set (bs_got s)" for r
      using told that by blast
  qed (auto simp: retry_row_def delivery_key_def row_ok_def)
qed

lemma purge_inv:
  assumes s: "binv s"
  shows "binv (s \<lparr>bs_db := snd (purge_deliveries (bs_now s) batch (bs_db s))\<rparr>)"
proof -
  define gone where "gone = take batch (sort_key dl_updated (filter (\<lambda>d. dl_status d \<in> {Delivery_Sent, Delivery_Failed}
     \<and> dl_updated d < bs_now s - 90 * 86400) (rows s)))"
  let ?t = "s \<lparr>bs_db := snd (purge_deliveries (bs_now s) batch (bs_db s))\<rparr>"
  have t: "rows ?t = del_where (\<lambda>d. dl_id d \<in> dl_id ` set gone) (rows s)" "bd_casts (bs_db ?t) = bd_casts (bs_db s)"
    by (simp_all add: purge_deliveries_def Let_def gone_def)
  have gone: "g \<in> set (rows s) \<and> dl_status g \<noteq> Delivery_Sending" if "g \<in> set gone" for g
    using that set_take_subset unfolding gone_def by fastforce
  have act: "active ?t = active s" by (simp add: active_def fun_eq_iff)
  have seed: "seeded (bs_db ?t) = seeded (bs_db s)" unfolding seeded_def t(2) ..
  have sub: "r \<in> set (rows s)" if "r \<in> set (rows ?t)" for r using that unfolding t(1) by (simp add: sql_simps)
  show ?thesis
  proof (rule binvI)
    show "\<exists>r \<in> set (rows ?t). tracks ph d r" if a: "active ?t w ph d" for w ph d
    proof -
      have a': "active s w ph d" using a unfolding act .
      then obtain r where r: "r \<in> set (rows s)" "tracks ph d r" using binvD(7)[OF s] by blast
      have "dl_id r \<notin> dl_id ` set gone" using gone not_sending_free[OF s _ _ a'] r(2) by (auto simp: tracks_def)
      then show ?thesis using r unfolding t(1) by (auto simp: sql_simps)
    qed
    show "w' = w" if "active ?t w ph d" "active ?t w' ph' d'" "dl_id d' = dl_id d" for w ph d w' ph' d'
      using binvD(8)[OF s] that unfolding act by blast
    show "spent ?t r" if "r \<in> set (rows ?t)" "delivery_key r \<in> set (bs_got ?t)" for r
      using binvD(10)[OF s sub[OF that(1)]] that(2) unfolding spent_def act by simp
    show "distinct (map dl_id (rows ?t))" "distinct (map delivery_key (rows ?t))"
      unfolding t(1) using binvD(2,3)[OF s] by (simp_all add: distinct_map_del_where)
    show "seeded (bs_db ?t) (dl_broadcast r)" if "r \<in> set (rows ?t)" for r using binvD(4)[OF s sub[OF that]] unfolding seed .
    show "seeded (bs_db ?t) (fst k)" if "k \<in> set (bs_got ?t)" for k using binvD(5)[OF s] that unfolding seed by simp
    show "row_ok r" if "r \<in> set (rows ?t)" for r using binvD(6)[OF s sub[OF that]] .
    show "distinct (map bc_id (bd_casts (bs_db ?t)))" using binvD(1)[OF s] unfolding t(2) .
    show "distinct (bs_got ?t)" using binvD(9)[OF s] by simp
  qed
qed

section \<open>The steps of a sender\<close>

lemma insert_deliveries_set:
  assumes "r \<in> set (insert_deliveries ns ds)"
  shows "r \<in> set ds \<or> (r \<in> set ns \<and> delivery_key r \<notin> delivery_key ` set ds)"
  using assms by (induction ns ds rule: insert_deliveries.induct) (auto split: if_splits)

lemma insert_deliveries_sup: "set ds \<subseteq> set (insert_deliveries ns ds)"
proof (induction ns ds rule: insert_deliveries.induct)
  case (2 n ns ds)
  then show ?case by (cases "delivery_key n \<in> delivery_key ` set ds") auto
qed simp

lemma insert_deliveries_distinct:
  assumes "distinct (map delivery_key ds)" "distinct (map dl_id ds)" "distinct (map dl_id ns)"
    "dl_id ` set ns \<inter> dl_id ` set ds = {}"
  shows "distinct (map delivery_key (insert_deliveries ns ds)) \<and> distinct (map dl_id (insert_deliveries ns ds))"
  using assms by (induction ns ds rule: insert_deliveries.induct) auto

lemma seed_cases:
  assumes "seed_delivery_ledger now new_id bid tags db = db'"
  obtains "db' = db"
  | cs where "set cs \<subseteq> set (bd_customers db)" "distinct (map (\<lambda>c. new_id bid (c_id c)) (bd_customers db)) \<Longrightarrow> distinct (map (\<lambda>c. new_id bid (c_id c)) cs)"
      "\<not> seeded db bid \<or> \<not> distinct (map bc_id (bd_casts db))" "\<exists>b. find_by bc_id bid (bd_casts db) = Some b"
      "bd_deliveries db' = insert_deliveries (map (\<lambda>c. new_delivery now bid (new_id bid (c_id c)) c) cs) (bd_deliveries db)"
      "bd_casts db' = upd_where (\<lambda>b. bc_id b = bid) (\<lambda>b. b \<lparr>bc_seeded := Some now\<rparr>) (bd_casts db)"
proof (cases "find_by bc_id bid (bd_casts db)")
  case None
  then show ?thesis using assms that(1) by (simp add: seed_delivery_ledger_def)
next
  case (Some b)
  show ?thesis
  proof (cases "bc_seeded b")
    case s: None
    define cs where "cs = (if tags = [] then [] else audience tags (bd_customers db))"
    have sub: "set cs \<subseteq> set (bd_customers db)" by (auto simp: cs_def audience_def)
    have dis: "distinct (map (\<lambda>c. new_id bid (c_id c)) cs)" if "distinct (map (\<lambda>c. new_id bid (c_id c)) (bd_customers db))"
      using that by (simp add: cs_def audience_def distinct_map_filter)
    have uns: "\<not> seeded db bid \<or> \<not> distinct (map bc_id (bd_casts db))"
      using find_by_unique[OF _ Some] s unfolding seeded_def by metis
    have map_if: "(if tags = [] then [] else map g (audience tags (bd_customers db))) = map g cs" for g :: "customer \<Rightarrow> delivery"
      by (simp add: cs_def)
    have "db' = set_cast bid (\<lambda>b. b \<lparr>bc_seeded := Some now\<rparr>)
        (db \<lparr>bd_deliveries := insert_deliveries (map (\<lambda>c. new_delivery now bid (new_id bid (c_id c)) c) cs) (bd_deliveries db)\<rparr>)"
      using assms Some s unfolding seed_delivery_ledger_def map_if by simp
    then show ?thesis using that(2)[OF sub dis uns] Some by (simp add: set_cast_def)
  next
    case (Some t)
    then show ?thesis using \<open>find_by bc_id bid (bd_casts db) = Some b\<close> assms that(1) by (simp add: seed_delivery_ledger_def)
  qed
qed

lemma seed_inv:
  assumes s: "binv s" and fr: "fresh_rows new_id bid (bs_db s)"
  shows "binv (s \<lparr>bs_db := seed_delivery_ledger (bs_now s) new_id bid tags (bs_db s), bs_senders := (bs_senders s)(w \<mapsto> Looping b)\<rparr>)"
  using refl[of "seed_delivery_ledger (bs_now s) new_id bid tags (bs_db s)"]
proof (cases rule: seed_cases)
  case 1
  have "\<exists>ph. (bs_senders s)(w \<mapsto> Looping b) = (bs_senders s)(w \<mapsto> ph) \<and> holds ph = None" by (rule exI[of _ "Looping b"]) simp
  then show ?thesis using casts_inv[OF s, of "bs_db s" "(bs_senders s)(w \<mapsto> Looping b)" w] binvD(1)[OF s] 1 by simp
next
  case (2 cs)
  define db where "db = seed_delivery_ledger (bs_now s) new_id bid tags (bs_db s)"
  define ns where "ns = map (\<lambda>c. new_delivery (bs_now s) bid (new_id bid (c_id c)) c) cs"
  let ?t = "s \<lparr>bs_db := db, bs_senders := (bs_senders s)(w \<mapsto> Looping b)\<rparr>"
  have rw: "rows ?t = insert_deliveries ns (rows s)" and casts: "bd_casts (bs_db ?t) = upd_where (\<lambda>b. bc_id b = bid) (\<lambda>b. b \<lparr>bc_seeded := Some (bs_now s)\<rparr>) (bd_casts (bs_db s))"
    using 2(5,6) by (simp_all add: db_def ns_def)
  have out: "new_id bid (c_id c) \<notin> dl_id ` set (rows s)" if "c \<in> set cs" for c
    using fr that 2(1) unfolding fresh_rows_def by blast
  have new: "dl_status n = Delivery_Pending \<and> dl_started n = None \<and> dl_broadcast n = bid \<and> dl_id n \<notin> dl_id ` set (rows s)"
    if n: "n \<in> set ns" for n
  proof -
    obtain c where c: "c \<in> set cs" "n = new_delivery (bs_now s) bid (new_id bid (c_id c)) c" using n by (auto simp: ns_def)
    then have "dl_id n = new_id bid (c_id c)" by (simp add: new_delivery_def)
    then show ?thesis using out[OF c(1)] c(2) by (simp add: new_delivery_def del: image_iff)
  qed
  have ids: "map dl_id ns = map (\<lambda>c. new_id bid (c_id c)) cs" by (simp add: ns_def new_delivery_def)
  have apart: "dl_id ` set ns \<inter> dl_id ` set (rows s) = {}" using new by blast
  have "distinct (map dl_id ns)" using 2(2) fr unfolding ids fresh_rows_def by blast
  then have dist: "distinct (map delivery_key (rows ?t)) \<and> distinct (map dl_id (rows ?t))"
    using insert_deliveries_distinct[OF binvD(3,2)[OF s] _ apart] unfolding rw by blast
  have keep: "seeded (bs_db ?t) k" if "seeded (bs_db s) k" for k by (rule seeded_upd[OF _ _ casts that]) simp_all
  obtain b0 where b0: "find_by bc_id bid (bd_casts (bs_db s)) = Some b0" using 2(4) by blast
  note found = find_by_SomeD[OF b0]
  have "b0 \<lparr>bc_seeded := Some (bs_now s)\<rparr> \<in> set (bd_casts (bs_db ?t))"
    unfolding casts in_upd_where by (rule bexI[of _ b0]) (simp_all add: found)
  moreover have "bc_id (b0 \<lparr>bc_seeded := Some (bs_now s)\<rparr>) = bid" using found by simp
  ultimately have now: "seeded (bs_db ?t) bid" unfolding seeded_def by (intro bexI) auto
  have not: "\<not> seeded (bs_db s) bid" using 2(3) binvD(1)[OF s] by blast
  have act: "active s w' ph d" if "active ?t w' ph d" for w' ph d using that by (auto simp: active_def split: if_splits)
  have old: "r \<in> set (rows s) \<or> r \<in> set ns" if "r \<in> set (rows ?t)" for r using insert_deliveries_set that unfolding rw by blast
  have "binv ?t"
  proof (rule binvI)
    show "distinct (map bc_id (bd_casts (bs_db ?t)))" unfolding casts by (rule distinct_casts_upd[OF s]) simp
    show "distinct (map dl_id (rows ?t))" "distinct (map delivery_key (rows ?t))" using dist by blast+
    show "seeded (bs_db ?t) (dl_broadcast r)" if "r \<in> set (rows ?t)" for r using old[OF that] keep now new binvD(4)[OF s] by metis
    show "seeded (bs_db ?t) (fst k)" if "k \<in> set (bs_got ?t)" for k using that keep binvD(5)[OF s] by simp
    show "row_ok r" if "r \<in> set (rows ?t)" for r using old[OF that] new binvD(6)[OF s] by (auto simp: row_ok_def)
    show "\<exists>r \<in> set (rows ?t). tracks ph d r" if "active ?t w' ph d" for w' ph d
      using binvD(7)[OF s act[OF that]] insert_deliveries_sup unfolding rw by blast
    show "w2 = w1" if "active ?t w1 ph d" "active ?t w2 ph' d'" "dl_id d' = dl_id d" for w1 ph d w2 ph' d'
      using binvD(8)[OF s act[OF that(1)] act[OF that(2)] that(3)] .
    show "distinct (bs_got ?t)" using binvD(9)[OF s] by simp
    show "spent ?t r" if r: "r \<in> set (rows ?t)" "delivery_key r \<in> set (bs_got ?t)" for r
    proof -
      have "r \<notin> set ns" using r(2) new not binvD(5)[OF s, of "delivery_key r"] by (auto simp: delivery_key_def)
      then have "spent s r" using old[OF r(1)] binvD(10)[OF s] r(2) by simp
      then show ?thesis using act unfolding spent_def by metis
    qed
  qed
  then show ?thesis by (simp add: db_def)
qed

lemma claim_delivery_cases:
  assumes "claim_delivery now bid db = (Some d, db')"
  obtains r where "r \<in> set (bd_deliveries db)" "pending_of bid r" "d = (if eligible_now (bd_customers db) r then claim_row now r else skip_row now r)"
    "db' = set_deliveries (\<lambda>x. dl_id x = dl_id r) (if eligible_now (bd_customers db) r then claim_row now else skip_row now) db"
proof -
  obtain r where r: "next_pending bid (bd_deliveries db) = Some r"
    using assms by (auto simp: claim_delivery_def split: option.splits)
  show ?thesis using that[of r] next_pending_SomeD[OF r] r assms by (simp add: claim_delivery_def Let_def split: if_splits)
qed

lemma claim_delivery_inv:
  assumes s: "binv s" and w: "bs_senders s w = Some (Looping b)" and c: "claim_delivery (bs_now s) (bc_id b) (bs_db s) = (Some d, db)"
  shows "binv (s \<lparr>bs_db := db, bs_senders := (bs_senders s)(w \<mapsto> (if dl_status d = Delivery_Sending then Claimed b d else Looping b))\<rparr>)"
  using c
proof (rule claim_delivery_cases)
  fix r assume r: "r \<in> set (rows s)" "pending_of (bc_id b) r"
    "d = (if eligible_now (bd_customers (bs_db s)) r then claim_row (bs_now s) r else skip_row (bs_now s) r)"
    "db = set_deliveries (\<lambda>x. dl_id x = dl_id r) (if eligible_now (bd_customers (bs_db s)) r then claim_row (bs_now s) else skip_row (bs_now s)) (bs_db s)"
  have pend: "dl_status r = Delivery_Pending" using r(2) by (simp add: pending_of_def)
  have got: "delivery_key r \<notin> set (bs_got s)" by (rule pending_not_got[OF s r(1) pend])
  have started: "dl_started r = None" using binvD(6)[OF s r(1)] pend by (simp add: row_ok_def)
  have free: "dl_id d' \<noteq> dl_id r" if "active s w' ph d'" for w' ph d' using not_sending_free[OF s r(1) _ that] pend by simp
  show ?thesis
  proof (cases "eligible_now (bd_customers (bs_db s)) r")
    case True
    then have d: "d = claim_row (bs_now s) r" "db = set_deliveries (\<lambda>x. dl_id x = dl_id r) (claim_row (bs_now s)) (bs_db s)"
      "dl_status d = Delivery_Sending" using r(3,4) by (simp_all add: claim_row_def)
    show ?thesis
    proof (rule one_row_inv[OF s r(1), where p = "\<lambda>x. dl_id x = dl_id r" and f = "claim_row (bs_now s)" and w = w])
      show "x = r" if "x \<in> set (rows s)" "dl_id x = dl_id r" for x using same_row[OF s r(1)] that by blast
    qed (use d free got started in \<open>auto simp: claim_row_def delivery_key_def row_ok_def active_def tracks_def\<close>)
  next
    case False
    then have d: "db = set_deliveries (\<lambda>x. dl_id x = dl_id r) (skip_row (bs_now s)) (bs_db s)" "dl_status d \<noteq> Delivery_Sending"
      using r(3,4) by (simp_all add: skip_row_def)
    show ?thesis
    proof (rule one_row_inv[OF s r(1), where p = "\<lambda>x. dl_id x = dl_id r" and f = "skip_row (bs_now s)" and w = w])
      show "x = r" if "x \<in> set (rows s)" "dl_id x = dl_id r" for x using same_row[OF s r(1)] that by blast
    qed (use d free got started in \<open>auto simp: skip_row_def delivery_key_def row_ok_def active_def tracks_def\<close>)
  qed
qed

text \<open>What the invariant says of the row of a prompt sender.\<close>

lemma my_row:
  assumes s: "binv s" and a: "active s w ph d"
  obtains r where "r \<in> set (rows s)" "tracks ph d r" "\<And>x. x \<in> set (rows s) \<Longrightarrow> dl_id x = dl_id d \<Longrightarrow> x = r"
    "\<And>w' ph' d'. w' \<noteq> w \<Longrightarrow> active s w' ph' d' \<Longrightarrow> dl_id d' \<noteq> dl_id r"
    "delivery_key r \<in> set (bs_got s) \<Longrightarrow> after_send ph"
proof -
  obtain r where r: "r \<in> set (rows s)" "tracks ph d r" using binvD(7)[OF s a] by blast
  then have i: "dl_id d = dl_id r" "dl_status r = Delivery_Sending" by (simp_all add: tracks_def)
  show ?thesis
  proof (rule that[OF r])
    show "x = r" if "x \<in> set (rows s)" "dl_id x = dl_id d" for x using same_row[OF s r(1)] that i by simp
    show "dl_id d' \<noteq> dl_id r" if "w' \<noteq> w" "active s w' ph' d'" for w' ph' d' using binvD(8)[OF s a that(2)] that(1) i by auto
    show "after_send ph" if "delivery_key r \<in> set (bs_got s)"
      using binvD(10)[OF s r(1) that] i a by (auto simp: spent_def settled_def)
  qed
qed

lemma start_inv:
  assumes s: "binv s" and w: "bs_senders s w = Some (Claimed b d)" "prompt (bs_now s) d"
  shows "binv (s \<lparr>bs_db := mark_started (bs_now s) (dl_id d) (bs_db s), bs_senders := (bs_senders s)(w \<mapsto> Begun b d)\<rparr>)"
proof -
  have a: "active s w (Claimed b d) d" using w by (simp add: active_def)
  show ?thesis
  proof (rule my_row[OF s a])
    fix r assume r: "r \<in> set (rows s)" "tracks (Claimed b d) d r" "\<And>x. x \<in> set (rows s) \<Longrightarrow> dl_id x = dl_id d \<Longrightarrow> x = r"
      "\<And>w' ph' d'. w' \<noteq> w \<Longrightarrow> active s w' ph' d' \<Longrightarrow> dl_id d' \<noteq> dl_id r" "delivery_key r \<in> set (bs_got s) \<Longrightarrow> after_send (Claimed b d)"
    then have got: "delivery_key r \<notin> set (bs_got s)" by (auto simp: after_send_def)
    show ?thesis
    proof (rule one_row_inv[OF s r(1), where p = "in_flight (dl_id d)" and f = "\<lambda>x. x \<lparr>dl_started := Some (bs_now s), dl_updated := bs_now s\<rparr>" and w = w])
      show "x = r" if "x \<in> set (rows s)" "in_flight (dl_id d) x" for x using r(3) that by (simp add: in_flight_def)
      show "in_flight (dl_id d) r" using r(2) by (simp add: in_flight_def tracks_def)
    qed (use r(2,4) got w binvD(6)[OF s r(1)] in \<open>auto simp: mark_started_def delivery_key_def row_ok_def active_def tracks_def\<close>)
  qed
qed

lemma send_inv:
  assumes s: "binv s" and w: "bs_senders s w = Some (Begun b d)" "prompt (bs_now s) d" and g: "truthful r g"
  shows "binv (s \<lparr>bs_out := out, bs_got := (if g then delivery_key d # bs_got s else bs_got s), bs_senders := (bs_senders s)(w \<mapsto> Answered b d r)\<rparr>)"
proof -
  have a: "active s w (Begun b d) d" using w by (simp add: active_def)
  have sent: "after_send (Answered b d r)" if g using g that by (cases r) (auto simp: after_send_def)
  show ?thesis
  proof (rule my_row[OF s a])
    fix x assume x: "x \<in> set (rows s)" "tracks (Begun b d) d x" "\<And>y. y \<in> set (rows s) \<Longrightarrow> dl_id y = dl_id d \<Longrightarrow> y = x"
      "\<And>w' ph' d'. w' \<noteq> w \<Longrightarrow> active s w' ph' d' \<Longrightarrow> dl_id d' \<noteq> dl_id x" "delivery_key x \<in> set (bs_got s) \<Longrightarrow> after_send (Begun b d)"
    then have got: "delivery_key x \<notin> set (bs_got s)" by (auto simp: after_send_def)
    have key: "delivery_key d = delivery_key x" using x(2) by (simp add: tracks_def)
    show ?thesis
    proof (rule one_row_inv[OF s x(1), where p = "\<lambda>y. y = x" and f = "\<lambda>y. y" and w = w])
      show "row_ok x" by (rule binvD(6)[OF s x(1)])
    qed (use x(2,4) got key w sent in \<open>auto simp: active_def tracks_def upd_where_def split: if_splits\<close>)
  qed
qed

lemma outcome_settled:
  assumes "after_send (Answered b d r)" shows "settled (outcome_row now r x)"
proof (cases r)
  case (Accepted resp)
  have items: "j_items v = Inl e \<Longrightarrow> exc_name e = ''TypeError''" for v e by (cases v rule: j_items.cases) auto
  have first: "first_message_id ms = Inl e \<Longrightarrow> exc_name e = ''AttributeError''" for ms e
    by (induction ms rule: first_message_id.induct) (auto simp: Let_def split: if_splits json.splits)
  have "exc_name e \<in> {''TypeError'', ''AttributeError''}" if "meta_message_id resp = Inl e" for e
    using that items first by (fastforce simp: meta_message_id_def Let_def split: sum.splits option.splits if_splits)
  then show ?thesis using Accepted by (fastforce simp: settled_def failed_row_def sent_row_def split: sum.splits)
qed (use assms in \<open>auto simp: after_send_def settled_def failed_row_def\<close>)

lemma record_inv:
  assumes s: "binv s" and w: "bs_senders s w = Some (Answered b d r)" "prompt (bs_now s) d"
  shows "binv (s \<lparr>bs_db := record_outcome (bs_now s) (dl_id d) r (bs_db s), bs_senders := (bs_senders s)(w \<mapsto> Looping b)\<rparr>)"
proof -
  have a: "active s w (Answered b d r) d" using w by (simp add: active_def)
  have f: "dl_id (outcome_row now r x) = dl_id x \<and> delivery_key (outcome_row now r x) = delivery_key x \<and> row_ok (outcome_row now r x)" for now x
    using outcome_status[of now r x] by (cases r) (auto simp: failed_row_def sent_row_def delivery_key_def row_ok_def split: sum.splits)
  show ?thesis
  proof (rule my_row[OF s a])
    fix x assume x: "x \<in> set (rows s)" "tracks (Answered b d r) d x" "\<And>y. y \<in> set (rows s) \<Longrightarrow> dl_id y = dl_id d \<Longrightarrow> y = x"
      "\<And>w' ph' d'. w' \<noteq> w \<Longrightarrow> active s w' ph' d' \<Longrightarrow> dl_id d' \<noteq> dl_id x" "delivery_key x \<in> set (bs_got s) \<Longrightarrow> after_send (Answered b d r)"
    show ?thesis
    proof (rule one_row_inv[OF s x(1), where p = "in_flight (dl_id d)" and f = "outcome_row (bs_now s) r" and w = w])
      show "y = x" if "y \<in> set (rows s)" "in_flight (dl_id d) y" for y using x(3) that by (simp add: in_flight_def)
      show "in_flight (dl_id d) x" using x(2) by (simp add: in_flight_def tracks_def)
    qed (use x(4,5) f outcome_settled in \<open>auto simp: record_outcome_def active_def\<close>)
  qed
qed

theorem bstep_inv: "bstep False s t \<Longrightarrow> binv s \<Longrightarrow> binv t"
proof (induction rule: bstep.induct)
  case (send s w b d r g)
  then show ?case using send_inv[of s w b d r g] by simp
next
  case (claim s w b d db)
  then show ?case using claim_delivery_inv by blast
qed (auto intro: tick_inv customers_inv forget_inv create_inv begin_inv seed_inv claim_delivery_inv start_inv record_inv finish_inv
      crash_inv fail_inv recover_unsent_inv recover_begun_inv reset_known_inv reset_cast_inv retry_inv purge_inv)

lemma b_init_inv: "b_init s \<Longrightarrow> binv s"
  by (simp add: b_init_def binv_def active_def)

interpretation broadcasts: protocol b_init "bstep False" binv
  by unfold_locales (auto intro: b_init_inv bstep_inv)

section \<open>A message reaches a recipient once\<close>

definition accepted_to :: "outbox \<Rightarrow> (string \<times> string) list" where
  "accepted_to out = map (\<lambda>(m, r). (tm_broadcast m, tm_to m)) (filter (\<lambda>(m, r). \<exists>resp. r = Accepted resp) out)"

lemma accepted_to_snoc:
  "accepted_to (out @ [(m, r)]) = accepted_to out @ (case r of Accepted _ \<Rightarrow> [(tm_broadcast m, tm_to m)] | _ \<Rightarrow> [])"
  by (cases r) (simp_all add: accepted_to_def)

lemma accepted_step:
  assumes "bstep False s t" "binv s" "distinct (accepted_to (bs_out s)) \<and> set (accepted_to (bs_out s)) \<subseteq> set (bs_got s)"
  shows "distinct (accepted_to (bs_out t)) \<and> set (accepted_to (bs_out t)) \<subseteq> set (bs_got t)"
  using assms
proof (cases rule: bstep.cases)
  case (send w b d r g)
  have key: "(tm_broadcast (message_for b d), tm_to (message_for b d)) = delivery_key d" by (simp add: message_for_def delivery_key_def)
  have "delivery_key d \<notin> set (bs_got s)" if "g" using binvD(9)[OF bstep_inv[OF assms(1,2)]] that unfolding send(1) by simp
  then show ?thesis using assms(3) send(1,4) key by (cases r) (auto simp: accepted_to_snoc)
qed (use assms(3) in simp_all)

lemma reach_accepted:
  "reach b_init (bstep False) s \<Longrightarrow> distinct (accepted_to (bs_out s)) \<and> set (accepted_to (bs_out s)) \<subseteq> set (bs_got s)"
proof (induction rule: reach.induct)
  case (reach_init s)
  then show ?case by (simp add: b_init_def accepted_to_def)
next
  case (reach_step s t)
  then show ?case using accepted_step broadcasts.reach_inv by blast
qed

text \<open>C13. With any number of senders, crashes, recoveries, resets, retries of deliveries confirmed as lost and retention runs,
  a campaign reaches a recipient at most once and at most one of its messages to a recipient is accepted, as long as a sender does not go on
  with a delivery it claimed more than five minutes ago.\<close>

theorem broadcast_at_most_once:
  assumes "reach b_init (bstep False) s"
  shows "distinct (bs_got s) \<and> distinct (accepted_to (bs_out s))"
  using binvD(9)[OF broadcasts.reach_inv[OF assms]] reach_accepted[OF assms] by blast

section \<open>Executions are runs of the protocol\<close>

definition names_ok :: "(outbox \<Rightarrow> template_message \<Rightarrow> send_result) \<Rightarrow> bool" where
  "names_ok send = (\<forall>out m e. send out m = Raised e \<longrightarrow> take 100 (exc_name e) \<noteq> ''known_meta_send_failure'')"

lemma claim_next_run:
  assumes "claim_next_delivery (bs_now s) (bc_id b) (bs_db s) = (r, db)" "bs_senders s w = Some (Looping b)"
  shows "(bstep False)\<^sup>*\<^sup>* s (s \<lparr>bs_db := db, bs_senders := (case r of None \<Rightarrow> bs_senders s | Some d \<Rightarrow> (bs_senders s)(w \<mapsto> Claimed b d))\<rparr>)
    \<and> (case r of None \<Rightarrow> next_pending (bc_id b) (bd_deliveries db) = None | Some d \<Rightarrow> dl_claimed d = Some (bs_now s))"
  using assms
proof (induction "bs_now s" "bc_id b" "bs_db s" arbitrary: s rule: claim_next_delivery.induct)
  case 1
  obtain r1 db1 where c: "claim_delivery (bs_now s) (bc_id b) (bs_db s) = (r1, db1)" by fastforce
  show ?case
  proof (cases r1)
    case None
    then have "db1 = bs_db s" "next_pending (bc_id b) (rows s) = None" using c by (auto simp: claim_delivery_def Let_def split: option.splits)
    moreover have "r = None" "db = db1" using 1(2) c None by (simp_all add: claim_next_delivery.simps[of "bs_now s"])
    ultimately show ?thesis by simp
  next
    case (Some d)
    let ?s1 = "s \<lparr>bs_db := db1, bs_senders := (bs_senders s)(w \<mapsto> (if dl_status d = Delivery_Sending then Claimed b d else Looping b))\<rparr>"
    have st: "bstep False s ?s1" by (rule bstep.claim[OF 1(3)]) (use c Some in simp)
    show ?thesis
    proof (cases "dl_status d = Delivery_Sending")
      case True
      then have r: "r = Some d" "db = db1" using 1(2) c Some by (simp_all add: claim_next_delivery.simps[of "bs_now s"])
      have "dl_claimed d = Some (bs_now s)"
        by (rule claim_delivery_cases[OF c[unfolded Some]]) (use True in \<open>auto simp: claim_row_def skip_row_def split: if_splits\<close>)
      then show ?thesis using st True r by auto
    next
      case False
      then have n: "claim_next_delivery (bs_now s) (bc_id b) db1 = (r, db)" using 1(2) c Some by (simp add: claim_next_delivery.simps[of "bs_now s"])
      have "(bstep False)\<^sup>*\<^sup>* ?s1 (?s1 \<lparr>bs_db := db, bs_senders := (case r of None \<Rightarrow> bs_senders ?s1 | Some d \<Rightarrow> (bs_senders ?s1)(w \<mapsto> Claimed b d))\<rparr>)
        \<and> (case r of None \<Rightarrow> next_pending (bc_id b) (bd_deliveries db) = None | Some d \<Rightarrow> dl_claimed d = Some (bs_now ?s1))"
        by (rule 1(1)[of r1 ?s1 d]) (use c Some False n in simp_all)
      moreover have "(bs_senders s)(w \<mapsto> Looping b) = bs_senders s" using 1(3) by auto
      ultimately show ?thesis using st False by (auto split: option.splits intro: converse_rtranclp_into_rtranclp)
    qed
  qed
qed

lemma deliver_one_run:
  assumes "bs_senders s w = Some (Claimed b d)" "dl_claimed d = Some (bs_now s)" "names_ok send"
  shows "\<exists>t. (bstep False)\<^sup>*\<^sup>* s t \<and> \<lparr>bw_db = bs_db t, bw_out = bs_out t\<rparr> = deliver_one (bs_now s) send b d \<lparr>bw_db = bs_db s, bw_out = bs_out s\<rparr>
    \<and> bs_senders t = (bs_senders s)(w \<mapsto> Looping b) \<and> bs_now t = bs_now s"
proof -
  define r where "r = send (bs_out s) (message_for b d)"
  define g where "g = (case r of Accepted _ \<Rightarrow> True | _ \<Rightarrow> False)"
  have g: "truthful r g" using assms(3) by (cases r) (auto simp: g_def names_ok_def r_def)
  have p: "prompt (bs_now s) d" using assms(2) by (simp add: prompt_def)
  let ?s1 = "s \<lparr>bs_db := mark_started (bs_now s) (dl_id d) (bs_db s), bs_senders := (bs_senders s)(w \<mapsto> Begun b d)\<rparr>"
  let ?s2 = "?s1 \<lparr>bs_out := bs_out ?s1 @ [(message_for b d, r)], bs_got := (if g then delivery_key d # bs_got ?s1 else bs_got ?s1),
    bs_senders := (bs_senders ?s1)(w \<mapsto> Answered b d r)\<rparr>"
  let ?s3 = "?s2 \<lparr>bs_db := record_outcome (bs_now ?s2) (dl_id d) r (bs_db ?s2), bs_senders := (bs_senders ?s2)(w \<mapsto> Looping b)\<rparr>"
  have "bstep False s ?s1" by (rule bstep.start) (use assms(1) p in simp_all)
  moreover have "bstep False ?s1 ?s2" by (rule bstep.send) (use p g in simp_all)
  moreover have "bstep False ?s2 ?s3" by (rule bstep.record_answer) (use p in simp_all)
  ultimately have "(bstep False)\<^sup>*\<^sup>* s ?s3" by (meson converse_rtranclp_into_rtranclp rtranclp.rtrancl_refl)
  then show ?thesis by (intro exI[of _ ?s3]) (simp add: deliver_one_def Let_def r_def)
qed

lemma deliver_all_run:
  assumes "names_ok send" "bs_senders s w = Some (Looping b)"
  shows "\<exists>t. (bstep False)\<^sup>*\<^sup>* s t \<and> \<lparr>bw_db = bs_db t, bw_out = bs_out t\<rparr> = deliver_all (bs_now s) send b \<lparr>bw_db = bs_db s, bw_out = bs_out s\<rparr>
    \<and> bs_senders t = bs_senders s \<and> bs_now t = bs_now s \<and> next_pending (bc_id b) (rows t) = None"
  using assms
proof (induction "bs_now s" send b "\<lparr>bw_db = bs_db s, bw_out = bs_out s\<rparr>" arbitrary: s rule: deliver_all.induct)
  case (1 send b)
  let ?w = "\<lparr>bw_db = bs_db s, bw_out = bs_out s\<rparr>"
  obtain r db where c: "claim_next_delivery (bs_now s) (bc_id b) (bs_db s) = (r, db)" by fastforce
  then have c': "claim_next_delivery (bs_now s) (bc_id b) (bw_db ?w) = (r, db)" by simp
  note run = claim_next_run[OF c 1(3)]
  show ?case
  proof (cases r)
    case None
    then have "deliver_all (bs_now s) send b ?w = \<lparr>bw_db = db, bw_out = bs_out s\<rparr>" using c by (simp add: deliver_all.simps[of "bs_now s"])
    then show ?thesis using run None by (intro exI[of _ "s \<lparr>bs_db := db\<rparr>"]) simp
  next
    case (Some d)
    let ?s1 = "s \<lparr>bs_db := db, bs_senders := (bs_senders s)(w \<mapsto> Claimed b d)\<rparr>"
    have s1: "(bstep False)\<^sup>*\<^sup>* s ?s1" "dl_claimed d = Some (bs_now s)" using run Some by simp_all
    obtain s2 where s2: "(bstep False)\<^sup>*\<^sup>* ?s1 s2" "\<lparr>bw_db = bs_db s2, bw_out = bs_out s2\<rparr> = deliver_one (bs_now s) send b d \<lparr>bw_db = db, bw_out = bs_out s\<rparr>"
      "bs_senders s2 = (bs_senders ?s1)(w \<mapsto> Looping b)" "bs_now s2 = bs_now s"
      using deliver_one_run[of ?s1 w b d send] s1(2) 1(2) by auto
    have W: "bs_senders s2 = bs_senders s" using s2(3) 1(3) by auto
    have all: "deliver_all (bs_now s) send b ?w = deliver_all (bs_now s2) send b \<lparr>bw_db = bs_db s2, bw_out = bs_out s2\<rparr>"
      using c Some s2(2,4) by (simp add: deliver_all.simps[of "bs_now s" send b ?w])
    have "\<exists>t. (bstep False)\<^sup>*\<^sup>* s2 t \<and> \<lparr>bw_db = bs_db t, bw_out = bs_out t\<rparr> = deliver_all (bs_now s2) send b \<lparr>bw_db = bs_db s2, bw_out = bs_out s2\<rparr>
      \<and> bs_senders t = bs_senders s2 \<and> bs_now t = bs_now s2 \<and> next_pending (bc_id b) (rows t) = None"
      by (rule 1(1)[OF sym[OF c'] Some]) (use s2 W 1(2,3) in simp_all)
    then show ?thesis using all W s2(1,4) s1(1) by (metis rtranclp_trans)
  qed
qed

lemma claim_broadcast_id: "claim_broadcast now bid db = (Some b, db') \<Longrightarrow> bc_id b = bid"
  by (auto simp: claim_broadcast_def Let_def find_Some_iff split: option.splits)

lemma run_broadcast_run:
  assumes "names_ok send" "fresh_rows new_id (bc_id b) (bs_db s)" "bs_senders s w = Some (Seeding b)"
    and r: "run_broadcast (bs_now s) new_id send b \<lparr>bw_db = bs_db s, bw_out = bs_out s\<rparr> = (a, w')"
  shows "\<exists>t. (bstep False)\<^sup>*\<^sup>* s t \<and> \<lparr>bw_db = bs_db t, bw_out = bs_out t\<rparr> = w' \<and> bs_senders t = (bs_senders s)(w := None) \<and> bs_now t = bs_now s"
proof -
  let ?s1 = "s \<lparr>bs_db := seed_delivery_ledger (bs_now s) new_id (bc_id b) (bc_tags b) (bs_db s), bs_senders := (bs_senders s)(w \<mapsto> Looping b)\<rparr>"
  have s1: "bstep False s ?s1" by (rule bstep.seed[OF assms(3,2)])
  obtain s2 where s2: "(bstep False)\<^sup>*\<^sup>* ?s1 s2" "\<lparr>bw_db = bs_db s2, bw_out = bs_out s2\<rparr> = deliver_all (bs_now s) send b \<lparr>bw_db = bs_db ?s1, bw_out = bs_out s\<rparr>"
    "bs_senders s2 = bs_senders ?s1" "bs_now s2 = bs_now s" "next_pending (bc_id b) (rows s2) = None"
    using deliver_all_run[OF assms(1), of ?s1 w b] by auto
  let ?s3 = "s2 \<lparr>bs_db := set_cast (bc_id b) (finish_cast (delivery_counts (bc_id b) (bs_db s2))) (bs_db s2), bs_senders := (bs_senders s2)(w := None)\<rparr>"
  have s3: "bstep False s2 ?s3" by (rule bstep.finish) (use s2(3) in simp_all)
  have "\<lparr>bw_db = bs_db ?s3, bw_out = bs_out ?s3\<rparr> = w'"
    using r s2(2)[symmetric] by (auto simp: run_broadcast_def finish_broadcast_def finish_cast_def[abs_def] Let_def split: prod.splits)
  moreover have "(bstep False)\<^sup>*\<^sup>* s ?s3" using s1 s2(1) s3 by (meson converse_rtranclp_into_rtranclp rtranclp.rtrancl_into_rtrancl)
  ultimately show ?thesis using s2(3,4) by (intro exI[of _ ?s3]) simp
qed

text \<open>C14. Executing a campaign is a run of the protocol by one sender that is always prompt: the tables and the messages it ends with are reached
  by protocol steps, so what holds in every reachable state holds after any executions, interleaved or not.\<close>

theorem execute_broadcast_refines:
  assumes "execute_broadcast (bs_now s) cfg new_id send bid \<lparr>bw_db = bs_db s, bw_out = bs_out s\<rparr> = (answer, w')"
    and "names_ok send" "fresh_rows new_id bid (bs_db s)" "bs_senders s w = None"
  shows "\<exists>t. (bstep False)\<^sup>*\<^sup>* s t \<and> \<lparr>bw_db = bs_db t, bw_out = bs_out t\<rparr> = w' \<and> bs_senders t = bs_senders s"
proof (cases "w' = \<lparr>bw_db = bs_db s, bw_out = bs_out s\<rparr>")
  case True
  then show ?thesis by (intro exI[of _ s]) simp
next
  case False
  let ?w = "\<lparr>bw_db = bs_db s, bw_out = bs_out s\<rparr>"
  obtain b db where b: "claim_broadcast (bs_now s) bid (bs_db s) = (Some b, db)"
    "run_broadcast (bs_now s) new_id send b (?w \<lparr>bw_db := db\<rparr>) = (answer, w')"
    using assms(1) False by (auto simp: execute_broadcast_def split: if_splits option.splits prod.splits)
  let ?s1 = "s \<lparr>bs_db := db, bs_senders := (bs_senders s)(w \<mapsto> Seeding b)\<rparr>"
  have s1: "bstep False s ?s1" by (rule bstep.begin_run[OF assms(4) b(1)])
  have id: "bc_id b = bid" by (rule claim_broadcast_id[OF b(1)])
  have "bd_customers db = bd_customers (bs_db s)" "bd_deliveries db = rows s"
    using b(1) by (auto simp: claim_broadcast_def Let_def split: option.splits)
  then have "fresh_rows new_id bid db" using assms(3) unfolding fresh_rows_def by simp
  then obtain t where "(bstep False)\<^sup>*\<^sup>* ?s1 t" "\<lparr>bw_db = bs_db t, bw_out = bs_out t\<rparr> = w'" "bs_senders t = (bs_senders ?s1)(w := None)"
    using run_broadcast_run[of send new_id b ?s1 w answer w'] assms(2) b(2) id by auto
  moreover have "(bs_senders ?s1)(w := None) = bs_senders s" using assms(4) by auto
  ultimately show ?thesis using s1 by (metis converse_rtranclp_into_rtranclp)
qed
section \<open>A sender that comes back late\<close>

definition sample_recipient :: customer where
  "sample_recipient = (new_customer ''c1'' 0 ''whatsapp'' ''584121234567'' (Some ''Ana'') None None)
     \<lparr>c_tags := [''vip''], c_opt_in := True, c_opt_in_at := Some 0\<rparr>"

definition sample_cast :: broadcast where
  "sample_cast = \<lparr>bc_id = ''b1'', bc_name = ''Promo'', bc_template = ''promo'', bc_params = Some [''Hola {first_name}''], bc_tags = [''vip''],
     bc_channel = Some ''whatsapp'', bc_scheduled = None, bc_sent_at = None, bc_seeded = None, bc_recipients = 0, bc_status = Draft\<rparr>"

definition sample_bdb :: broadcast_db where
  "sample_bdb = \<lparr>bd_casts = [sample_cast], bd_deliveries = [], bd_customers = [sample_recipient]\<rparr>"

definition sample_ids :: "string \<Rightarrow> string \<Rightarrow> string" where
  "sample_ids bid cid = bid @ ''/'' @ cid"

definition more_ids :: "string \<Rightarrow> string \<Rightarrow> string" where
  "more_ids bid cid = bid @ ''//'' @ cid"

definition sample_bstate :: broadcast_state where
  "sample_bstate = \<lparr>bs_now = 0, bs_db = sample_bdb, bs_out = [], bs_got = [], bs_senders = Map.empty\<rparr>"

lemma sample_bstate_reach: "reach b_init (bstep late) sample_bstate"
proof -
  let ?s0 = "sample_bstate \<lparr>bs_db := \<lparr>bd_casts = [], bd_deliveries = [], bd_customers = [sample_recipient]\<rparr>\<rparr>"
  have "reach b_init (bstep late) ?s0" by (rule reach_init) (simp add: b_init_def sample_bstate_def)
  moreover have "create_broadcast ''b1'' ''Promo'' ''promo'' [''vip''] (Some [''Hola {first_name}'']) (Some ''WhatsApp '') None (bs_db ?s0)
      = Inr (sample_cast, sample_bdb)" by code_simp
  then have "bstep late ?s0 (?s0 \<lparr>bs_db := sample_bdb\<rparr>)" by (rule bstep.create) simp
  moreover have "?s0 \<lparr>bs_db := sample_bdb\<rparr> = sample_bstate" by (simp add: sample_bstate_def)
  ultimately show ?thesis by (metis reach_step)
qed

text \<open>The first sender claims the recipient and stalls; an operator resets the campaign after five minutes and a second sender runs it;
  then the first one goes on.\<close>

definition late_claimed :: "(broadcast option \<times> broadcast_db)" where
  "late_claimed = claim_broadcast 0 ''b1'' sample_bdb"

definition late_first :: "delivery option \<times> broadcast_db" where
  "late_first = claim_delivery 0 ''b1'' (seed_delivery_ledger 0 sample_ids ''b1'' [''vip''] (snd late_claimed))"

definition late_reset :: "py_exc + (nat \<times> nat \<times> nat) \<times> broadcast_db" where
  "late_reset = reset_broadcast 301 ''b1'' (snd late_first)"

definition late_again :: "broadcast option \<times> broadcast_db" where
  "late_again = claim_broadcast 301 ''b1'' (snd (projr late_reset))"

definition late_second :: "delivery option \<times> broadcast_db" where
  "late_second = claim_delivery 301 ''b1'' (seed_delivery_ledger 301 more_ids ''b1'' [''vip''] (snd late_again))"

abbreviation late_b :: broadcast where "late_b \<equiv> the (fst late_claimed)"
abbreviation late_b' :: broadcast where "late_b' \<equiv> the (fst late_again)"
abbreviation late_d :: delivery where "late_d \<equiv> the (fst late_first)"
abbreviation late_d' :: delivery where "late_d' \<equiv> the (fst late_second)"

lemma late_facts:
  "fst late_claimed = Some late_b" "bc_id late_b = ''b1''" "bc_tags late_b = [''vip'']" "fst late_first = Some late_d" "dl_status late_d = Delivery_Sending"
  "late_reset = Inr (projr late_reset)" "fst late_again = Some late_b'" "bc_id late_b' = ''b1''" "bc_tags late_b' = [''vip'']"
  "fst late_second = Some late_d'" "dl_status late_d' = Delivery_Sending" "delivery_key late_d' = delivery_key late_d"
  "fresh_rows sample_ids ''b1'' (snd late_claimed)" "fresh_rows more_ids ''b1'' (snd late_again)" "delivery_key late_d = (''b1'', ''584121234567'')"
  by code_simp+

lemma pair_some: "fst x = Some y \<Longrightarrow> x = (Some y, snd x)"
  by (cases x) simp

lemma late_first_run: "\<exists>s. reach b_init (bstep True) s \<and> bs_now s = 301 \<and> bs_db s = snd late_first \<and> bs_got s = [] \<and> bs_senders s = [''w1'' \<mapsto> Claimed late_b late_d]"
proof -
  let ?s1 = "sample_bstate \<lparr>bs_db := snd late_claimed, bs_senders := (bs_senders sample_bstate)(''w1'' \<mapsto> Seeding late_b)\<rparr>"
  let ?s2 = "?s1 \<lparr>bs_db := seed_delivery_ledger (bs_now ?s1) sample_ids (bc_id late_b) (bc_tags late_b) (bs_db ?s1), bs_senders := (bs_senders ?s1)(''w1'' \<mapsto> Looping late_b)\<rparr>"
  let ?s3 = "?s2 \<lparr>bs_db := snd late_first, bs_senders := (bs_senders ?s2)(''w1'' \<mapsto> (if dl_status late_d = Delivery_Sending then Claimed late_b late_d else Looping late_b))\<rparr>"
  have now: "bs_now sample_bstate = 0" "bs_db sample_bstate = sample_bdb" "bs_senders sample_bstate = Map.empty" "bs_got sample_bstate = []"
    by (simp_all add: sample_bstate_def)
  have "bstep True sample_bstate ?s1"
    by (rule bstep.begin_run[where bid = "''b1''"]) (use pair_some[OF late_facts(1)] now in \<open>simp_all add: late_claimed_def\<close>)
  moreover have "bstep True ?s1 ?s2" by (rule bstep.seed) (use late_facts in simp_all)
  moreover have "bstep True ?s2 ?s3"
    by (rule bstep.claim) (use pair_some[OF late_facts(4)] late_facts(2,3) now in \<open>simp_all add: late_first_def\<close>)
  moreover have "bstep True ?s3 (?s3 \<lparr>bs_now := 301\<rparr>)" by (rule bstep.tick) (simp add: now)
  ultimately have "reach b_init (bstep True) (?s3 \<lparr>bs_now := 301\<rparr>)" using sample_bstate_reach by (meson reach_step)
  then show ?thesis using late_facts(5) now by (intro exI[of _ "?s3 \<lparr>bs_now := 301\<rparr>"]) simp
qed

text \<open>Without the five-minute condition a campaign can reach a recipient twice: the update before the call is not checked for having found
  the sender's own claim.\<close>

theorem late_sender_repeats: "\<exists>s. reach b_init (bstep True) s \<and> bs_got s = [(''b1'', ''584121234567''), (''b1'', ''584121234567'')]"
proof -
  obtain s where s: "reach b_init (bstep True) s" "bs_now s = 301" "bs_db s = snd late_first" "bs_got s = []" "bs_senders s = [''w1'' \<mapsto> Claimed late_b late_d]"
    using late_first_run by blast
  let ?s1 = "s \<lparr>bs_db := snd (projr late_reset)\<rparr>"
  let ?s2 = "?s1 \<lparr>bs_db := snd late_again, bs_senders := (bs_senders ?s1)(''w2'' \<mapsto> Seeding late_b')\<rparr>"
  let ?s3 = "?s2 \<lparr>bs_db := seed_delivery_ledger (bs_now ?s2) more_ids (bc_id late_b') (bc_tags late_b') (bs_db ?s2), bs_senders := (bs_senders ?s2)(''w2'' \<mapsto> Looping late_b')\<rparr>"
  let ?s4 = "?s3 \<lparr>bs_db := snd late_second, bs_senders := (bs_senders ?s3)(''w2'' \<mapsto> (if dl_status late_d' = Delivery_Sending then Claimed late_b' late_d' else Looping late_b'))\<rparr>"
  let ?s5 = "?s4 \<lparr>bs_db := mark_started (bs_now ?s4) (dl_id late_d') (bs_db ?s4), bs_senders := (bs_senders ?s4)(''w2'' \<mapsto> Begun late_b' late_d')\<rparr>"
  let ?s6 = "?s5 \<lparr>bs_out := bs_out ?s5 @ [(message_for late_b' late_d', Accepted [])], bs_got := (if True then delivery_key late_d' # bs_got ?s5 else bs_got ?s5),
    bs_senders := (bs_senders ?s5)(''w2'' \<mapsto> Answered late_b' late_d' (Accepted []))\<rparr>"
  let ?s7 = "?s6 \<lparr>bs_db := mark_started (bs_now ?s6) (dl_id late_d) (bs_db ?s6), bs_senders := (bs_senders ?s6)(''w1'' \<mapsto> Begun late_b late_d)\<rparr>"
  let ?s8 = "?s7 \<lparr>bs_out := bs_out ?s7 @ [(message_for late_b late_d, Accepted [])], bs_got := (if True then delivery_key late_d # bs_got ?s7 else bs_got ?s7),
    bs_senders := (bs_senders ?s7)(''w1'' \<mapsto> Answered late_b late_d (Accepted []))\<rparr>"
  have "reset_broadcast (bs_now s) ''b1'' (bs_db s) = Inr (fst (projr late_reset), snd (projr late_reset))"
    using late_facts(6) s by (simp add: late_reset_def)
  then have "(bstep True)\<^sup>*\<^sup>* s ?s1" by (rule reset_run)
  then have "reach b_init (bstep True) ?s1" using s(1) by (rule reach_steps)
  moreover have "bstep True ?s1 ?s2"
    by (rule bstep.begin_run[where bid = "''b1''"]) (use pair_some[OF late_facts(7)] s in \<open>simp_all add: late_again_def\<close>)
  moreover have "bstep True ?s2 ?s3" by (rule bstep.seed) (use late_facts s in simp_all)
  moreover have "bstep True ?s3 ?s4"
    by (rule bstep.claim) (use pair_some[OF late_facts(10)] late_facts(8,9) s in \<open>simp_all add: late_second_def\<close>)
  moreover have "bstep True ?s4 ?s5" by (rule bstep.start) (use late_facts(11) in simp_all)
  moreover have "bstep True ?s5 ?s6" by (rule bstep.send) simp_all
  moreover have "bstep True ?s6 ?s7" by (rule bstep.start) (use late_facts(11) s in simp_all)
  moreover have "bstep True ?s7 ?s8" by (rule bstep.send) simp_all
  ultimately have "reach b_init (bstep True) ?s8" by (meson reach_step)
  moreover have "bs_got ?s8 = [(''b1'', ''584121234567''), (''b1'', ''584121234567'')]" using s late_facts by simp
  ultimately show ?thesis by blast
qed

section \<open>Witnesses\<close>

definition sample_sender :: "outbox \<Rightarrow> template_message \<Rightarrow> send_result" where
  "sample_sender out m = Accepted [(''id'', JVal (PStr ''wamid-1''))]"

definition sample_config :: broadcast_config where
  "sample_config = \<lparr>cf_outbound = True, cf_backend = ''meta''\<rparr>"

definition sample_execution :: "execute_answer \<times> broadcast_world" where
  "sample_execution = execute_broadcast 0 sample_config sample_ids sample_sender ''b1'' \<lparr>bw_db = sample_bdb, bw_out = []\<rparr>"

lemma sample_execution_facts:
  "fst sample_execution = Executed ''b1'' 1 0 Sent 0" "bw_out (snd sample_execution) \<noteq> []" "fresh_rows sample_ids ''b1'' sample_bdb"
  by code_simp+

lemma sample_execution_eq:
  "execute_broadcast (bs_now sample_bstate) sample_config sample_ids sample_sender ''b1'' \<lparr>bw_db = bs_db sample_bstate, bw_out = bs_out sample_bstate\<rparr>
     = (Executed ''b1'' 1 0 Sent 0, snd sample_execution)"
  using sample_execution_facts(1) by (simp add: sample_execution_def sample_bstate_def prod_eq_iff)

theorem execute_broadcast_accounts_witness: "\<exists>b \<in> set (bd_casts (bw_db (snd sample_execution))). bc_status b = Sent \<and> bc_recipients b = 1"
proof -
  have "execute_broadcast 0 sample_config sample_ids sample_sender ''b1'' \<lparr>bw_db = sample_bdb, bw_out = []\<rparr> = (Executed ''b1'' 1 0 Sent 0, snd sample_execution)"
    using sample_execution_eq by (simp add: sample_bstate_def)
  from execute_broadcast_accounts[OF this] show ?thesis by auto
qed

theorem execute_broadcast_refines_witness: "\<exists>t. (bstep False)\<^sup>*\<^sup>* sample_bstate t \<and> bs_out t \<noteq> []"
proof -
  have "names_ok sample_sender" by (simp add: names_ok_def sample_sender_def)
  moreover have "fresh_rows sample_ids ''b1'' (bs_db sample_bstate)" using sample_execution_facts(3) by (simp add: sample_bstate_def)
  ultimately obtain t where t: "(bstep False)\<^sup>*\<^sup>* sample_bstate t" "\<lparr>bw_db = bs_db t, bw_out = bs_out t\<rparr> = snd sample_execution"
    using execute_broadcast_refines[OF sample_execution_eq, where w = "''w1''"] by (auto simp: sample_bstate_def)
  then have "bs_out t = bw_out (snd sample_execution)" by (metis broadcast_world.select_convs(2))
  then show ?thesis using t(1) sample_execution_facts(2) by auto
qed

lemma sample_first_send: "\<exists>s. reach b_init (bstep False) s \<and> bs_got s = [(''b1'', ''584121234567'')]"
proof -
  let ?s1 = "sample_bstate \<lparr>bs_db := snd late_claimed, bs_senders := (bs_senders sample_bstate)(''w1'' \<mapsto> Seeding late_b)\<rparr>"
  let ?s2 = "?s1 \<lparr>bs_db := seed_delivery_ledger (bs_now ?s1) sample_ids (bc_id late_b) (bc_tags late_b) (bs_db ?s1), bs_senders := (bs_senders ?s1)(''w1'' \<mapsto> Looping late_b)\<rparr>"
  let ?s3 = "?s2 \<lparr>bs_db := snd late_first, bs_senders := (bs_senders ?s2)(''w1'' \<mapsto> (if dl_status late_d = Delivery_Sending then Claimed late_b late_d else Looping late_b))\<rparr>"
  let ?s4 = "?s3 \<lparr>bs_db := mark_started (bs_now ?s3) (dl_id late_d) (bs_db ?s3), bs_senders := (bs_senders ?s3)(''w1'' \<mapsto> Begun late_b late_d)\<rparr>"
  let ?s5 = "?s4 \<lparr>bs_out := bs_out ?s4 @ [(message_for late_b late_d, Accepted [])], bs_got := (if True then delivery_key late_d # bs_got ?s4 else bs_got ?s4),
    bs_senders := (bs_senders ?s4)(''w1'' \<mapsto> Answered late_b late_d (Accepted []))\<rparr>"
  have now: "bs_now sample_bstate = 0" "bs_db sample_bstate = sample_bdb" "bs_senders sample_bstate = Map.empty" "bs_got sample_bstate = []"
    by (simp_all add: sample_bstate_def)
  have p: "prompt 0 late_d" by code_simp
  have "bstep False sample_bstate ?s1"
    by (rule bstep.begin_run[where bid = "''b1''"]) (use pair_some[OF late_facts(1)] now in \<open>simp_all add: late_claimed_def\<close>)
  moreover have "bstep False ?s1 ?s2" by (rule bstep.seed) (use late_facts in simp_all)
  moreover have "bstep False ?s2 ?s3"
    by (rule bstep.claim) (use pair_some[OF late_facts(4)] late_facts(2,3) now in \<open>simp_all add: late_first_def\<close>)
  moreover have "bstep False ?s3 ?s4" by (rule bstep.start) (use late_facts(5) p now in simp_all)
  moreover have "bstep False ?s4 ?s5" by (rule bstep.send) (use p now in simp_all)
  ultimately have "reach b_init (bstep False) ?s5" using sample_bstate_reach by (meson reach_step)
  then show ?thesis using now late_facts by (intro exI[of _ ?s5]) simp
qed

theorem broadcast_at_most_once_witness: "\<exists>s. reach b_init (bstep False) s \<and> bs_got s = [(''b1'', ''584121234567'')] \<and> distinct (accepted_to (bs_out s))"
  using sample_first_send broadcast_at_most_once by blast

end
