(* ===== verification/Kommo_Jobs.thy ===== *)
theory Kommo_Jobs
  imports Kommo_State Conversations
begin

text \<open>
  The durable queue of Kommo messages, \<open>integrations/kommo/jobs.py\<close>: the tables, how an inbound
  message joins or opens a job, the claims, the updates a worker makes under its lease, the waiting
  direct deliveries and the recovery of stale jobs. An update that a unique index refuses raises.
  The hash function, generated identifiers, the rendering of times and the Kommo service are arguments.
\<close>

section \<open>Rows\<close>

datatype job_status =
    JPending | JPrepared | JSalesbot | JContext | JDelivery | JReady | JProcessing | JContinuing
  | JSent | JDiscarded | JUnknown | JFailed

fun status_text :: "job_status \<Rightarrow> string" where
  "status_text JPending = ''pending''"
| "status_text JPrepared = ''prepared''"
| "status_text JSalesbot = ''waiting_for_salesbot''"
| "status_text JContext = ''waiting_for_context''"
| "status_text JDelivery = ''waiting_for_delivery''"
| "status_text JReady = ''ready''"
| "status_text JProcessing = ''processing''"
| "status_text JContinuing = ''continuing''"
| "status_text JSent = ''sent''"
| "status_text JDiscarded = ''discarded''"
| "status_text JUnknown = ''delivery_unknown''"
| "status_text JFailed = ''failed''"

definition active_statuses :: "job_status list" where
  "active_statuses = [JPrepared, JSalesbot, JContext, JDelivery, JReady, JProcessing, JContinuing]"

definition terminal_statuses :: "job_status list" where
  "terminal_statuses = [JSent, JDiscarded, JFailed, JUnknown]"

record inbound_attachment =
  ia_message :: string
  ia_type :: string
  ia_url :: "string option"

record kommo_names =
  kn_name :: "string option"
  kn_username :: "string option"
  kn_url :: "string option"
  kn_sender :: "string option"
  kn_sender_url :: "string option"

record kommo_event =
  ev_kind :: string
  ev_message :: "string option"
  ev_chat :: "string option"
  ev_talk :: "string option"
  ev_contact :: "string option"
  ev_lead :: "string option"
  ev_entity :: "string option"
  ev_entity_type :: "string option"
  ev_text :: "string option"
  ev_type :: "string option"
  ev_origin :: "string option"
  ev_channel :: "string option"
  ev_author :: "string option"
  ev_author_type :: "string option"
  ev_names :: kommo_names
  ev_created :: "int option"
  ev_mode :: "int option"
  ev_media :: "string option"
  ev_interaction :: string

text \<open>The assistant message held until a direct delivery is confirmed.\<close>

record assistant_payload =
  pa_customer :: "string option"
  pa_channel :: string
  pa_content :: string
  pa_calls :: "string option"
  pa_attachments :: "attachment list"
  pa_final :: string
  pa_fallback :: bool

record kommo_job =
  jb_id :: string
  jb_correlation :: string
  jb_external :: "string option"
  jb_lead :: "string option"
  jb_contact :: "string option"
  jb_chat :: "string option"
  jb_talk :: "string option"
  jb_author :: "string option"
  jb_names :: kommo_names
  jb_origin :: "string option"
  jb_channel :: "string option"
  jb_interaction :: string
  jb_message :: string
  jb_media :: "string option"
  jb_type :: "string option"
  jb_attachments :: "inbound_attachment list"
  jb_url :: "string option"
  jb_status :: job_status
  jb_attempts :: int
  jb_error :: "string option"
  jb_buffer :: int
  jb_launched :: "int option"
  jb_created :: int
  jb_updated :: int
  jb_started :: "int option"
  jb_lease :: "string option"
  jb_ai :: "int option"
  jb_completed :: "int option"
  jb_claims :: "(string \<times> json) list option"
  jb_public :: "(string \<times> json) list"
  jb_suppress :: bool
  jb_block :: "string option"
  jb_jti :: "string option"
  jb_account :: "string option"
  jb_user :: "string option"
  jb_client :: "string option"
  jb_payload :: "json option"
  jb_response :: "json option"
  jb_persisted :: "int option"
  jb_assistant :: "assistant_payload option"
  jb_waiting :: "int option"
  jb_reconcile :: "int option"
  jb_reconciles :: int
  jb_context :: string
  jb_deadline :: "int option"
  jb_event :: "string option"
  jb_content :: "(string \<times> json) list"
  jb_score :: "int option"

record kommo_receipt =
  kr_message :: string
  kr_job :: string
  kr_correlation :: string
  kr_lead :: "string option"
  kr_contact :: "string option"
  kr_chat :: "string option"
  kr_talk :: "string option"
  kr_author :: "string option"
  kr_origin :: "string option"
  kr_channel :: "string option"
  kr_interaction :: string
  kr_status :: string
  kr_received :: "int option"
  kr_text :: string
  kr_hash :: string
  kr_created :: int

datatype outbound_status = OPending | OPrepared | OSending | OAccepted | OConfirmed | OFailed | OUnknown

text \<open>The counter and the month that the metadata of a delivery hold are columns here.\<close>

record outbound =
  ob_job :: string
  ob_transport :: string
  ob_media :: "string option"
  ob_status :: outbound_status
  ob_provider :: "string option"
  ob_print :: "string option"
  ob_meta :: "(string \<times> string) list"
  ob_attempts :: "nat option"
  ob_month :: "int option"
  ob_accepted :: "int option"
  ob_confirmed :: "int option"
  ob_error :: "string option"
  ob_created :: int
  ob_updated :: int

record kommo_db =
  kj_jobs :: "kommo_job list"
  kj_receipts :: "kommo_receipt list"
  kj_outbound :: "outbound list"
  kj_history :: "message list"

section \<open>Indexes\<close>

text \<open>The partial unique indexes of the jobs: the values of a column among the rows it covers.\<close>

definition unique_among :: "('r \<Rightarrow> bool) \<Rightarrow> ('r \<Rightarrow> 'k) \<Rightarrow> 'r list \<Rightarrow> bool" where
  "unique_among p key t = distinct (map key (filter p t))"

definition is_active :: "kommo_job \<Rightarrow> bool" where
  "is_active j = (jb_status j \<in> set active_statuses)"

definition is_pending :: "kommo_job \<Rightarrow> bool" where
  "is_pending j = (jb_status j = JPending)"

definition jobs_indexed :: "kommo_job list \<Rightarrow> bool" where
  "jobs_indexed t = (distinct (map jb_id t)
     \<and> unique_among (\<lambda>j. jb_external j \<noteq> None) jb_external t
     \<and> unique_among is_pending jb_correlation t
     \<and> unique_among is_active jb_correlation t
     \<and> unique_among (\<lambda>j. jb_event j \<noteq> None) jb_event t)"

definition unique_violation :: "py_exc" where
  "unique_violation = OtherError ''UniqueViolationError''"

definition store_jobs :: "kommo_job list \<Rightarrow> kommo_db \<Rightarrow> (py_exc + unit) \<times> kommo_db" where
  "store_jobs t db = (if jobs_indexed t then (Inr (), db\<lparr>kj_jobs := t\<rparr>) else (Inl unique_violation, db))"

definition set_jobs :: "(kommo_job \<Rightarrow> bool) \<Rightarrow> (kommo_job \<Rightarrow> kommo_job) \<Rightarrow> kommo_db \<Rightarrow> kommo_db" where
  "set_jobs p f db = db\<lparr>kj_jobs := upd_where p f (kj_jobs db)\<rparr>"

definition set_outbound :: "(outbound \<Rightarrow> bool) \<Rightarrow> (outbound \<Rightarrow> outbound) \<Rightarrow> kommo_db \<Rightarrow> kommo_db" where
  "set_outbound p f db = db\<lparr>kj_outbound := upd_where p f (kj_outbound db)\<rparr>"

text \<open>\<open>ORDER BY key LIMIT 1\<close>; among rows of one key the first of the table.\<close>

definition first_by :: "('r \<Rightarrow> int) \<Rightarrow> ('r \<Rightarrow> bool) \<Rightarrow> 'r list \<Rightarrow> 'r option" where
  "first_by key p t = (case sort_key key (filter p t) of [] \<Rightarrow> None | r # _ \<Rightarrow> Some r)"
section \<open>An inbound message\<close>

definition opt_or :: "string option \<Rightarrow> string option \<Rightarrow> string option" where
  "opt_or a b = (if opt_str a \<noteq> [] then a else b)"

definition coalesce :: "'a option \<Rightarrow> 'a option \<Rightarrow> 'a option" where
  "coalesce a b = (case a of None \<Rightarrow> b | Some _ \<Rightarrow> a)"

definition stable_entity_id :: "kommo_event \<Rightarrow> string option" where
  "stable_entity_id e =
     opt_or (ev_chat e) (opt_or (ev_contact e) (opt_or (ev_talk e) (opt_or (ev_entity e) (ev_lead e))))"

definition correlation_id :: "kommo_event \<Rightarrow> string" where
  "correlation_id e = ''kommo:'' @ ev_interaction e @ '':'' @
     opt_str (opt_or (stable_entity_id e) (opt_or (ev_message e) (Some ''unknown'')))"

definition clean_type :: "string option \<Rightarrow> string" where
  "clean_type t = py_lower (py_strip (opt_str t))"

definition audio_message_types :: "string list" where "audio_message_types = [''voice'', ''audio'']"
definition image_message_types :: "string list" where "image_message_types = [''image'', ''picture'']"

definition is_audio_message_type :: "string option \<Rightarrow> bool" where
  "is_audio_message_type t = (clean_type t \<in> set audio_message_types)"

definition audio_placeholder :: "string option \<Rightarrow> string option \<Rightarrow> string" where
  "audio_placeholder t ext =
     (let n = clean_type (opt_or t (Some ''voice'')) in
      if opt_str ext \<noteq> [] then ''[Kommo '' @ n @ '':'' @ py_strip (opt_str ext) @ '' pendiente de transcripcion]''
      else ''[Kommo '' @ n @ '' pendiente de transcripcion]'')"

definition message_placeholder :: "kommo_event \<Rightarrow> string option \<Rightarrow> string" where
  "message_placeholder e ext =
     (if is_audio_message_type (ev_type e) then audio_placeholder (ev_type e) (opt_or ext (ev_message e))
      else if opt_str (ev_media e) \<noteq> [] then ''El cliente envio una imagen por Kommo.''
      else if opt_str (ev_type e) \<noteq> []
      then ''[Mensaje de tipo no soportado por Kommo: '' @ opt_str (ev_type e) @ '']''
      else ''[Mensaje recibido sin texto por Kommo]'')"

definition event_text :: "kommo_event \<Rightarrow> string \<Rightarrow> string" where
  "event_text e ext =
     (let t = py_strip (opt_str (ev_text e)) in
      if is_audio_message_type (ev_type e) \<or> t = [] then message_placeholder e (Some ext) else t)"

definition event_inbound_attachments :: "kommo_event \<Rightarrow> string \<Rightarrow> inbound_attachment list" where
  "event_inbound_attachments e ext =
     (if clean_type (ev_type e) \<notin> set (audio_message_types @ image_message_types) then []
      else [\<lparr>ia_message = ext, ia_type = clean_type (ev_type e), ia_url = ev_media e\<rparr>])"

definition merged_legacy_media ::
    "string option \<Rightarrow> string option \<Rightarrow> kommo_event \<Rightarrow> string option \<times> string option" where
  "merged_legacy_media media type e =
     (if opt_str (ev_media e) \<noteq> [] then (ev_media e, opt_or (ev_type e) type) else (media, opt_or type (ev_type e)))"

definition merge_attachments ::
    "inbound_attachment list \<Rightarrow> inbound_attachment list \<Rightarrow> string \<Rightarrow> inbound_attachment list" where
  "merge_attachments old new ext =
     (if new = [] then old else if list_ex (\<lambda>a. ia_message a = ext) old then old else old @ new)"

definition merge_names :: "kommo_names \<Rightarrow> kommo_names \<Rightarrow> kommo_names" where
  "merge_names new old = \<lparr>kn_name = coalesce (kn_name new) (kn_name old),
     kn_username = coalesce (kn_username new) (kn_username old), kn_url = coalesce (kn_url new) (kn_url old),
     kn_sender = coalesce (kn_sender new) (kn_sender old),
     kn_sender_url = coalesce (kn_sender_url new) (kn_sender_url old)\<rparr>"

definition join_lines :: "string list \<Rightarrow> string" where
  "join_lines parts = join_with [CHR 0x0A] (filter (\<lambda>p. p \<noteq> []) parts)"

definition merge_event :: "int \<Rightarrow> kommo_event \<Rightarrow> string \<Rightarrow> kommo_job \<Rightarrow> kommo_job" where
  "merge_event now e ext j =
     (let (media, type) = merged_legacy_media (jb_media j) (jb_type j) e in
      j\<lparr>jb_message := join_lines [jb_message j, event_text e ext], jb_media := media, jb_type := type,
        jb_attachments := merge_attachments (jb_attachments j) (event_inbound_attachments e ext) ext,
        jb_lead := coalesce (jb_lead j) (ev_lead e), jb_contact := coalesce (jb_contact j) (ev_contact e),
        jb_chat := coalesce (jb_chat j) (ev_chat e), jb_talk := coalesce (jb_talk j) (ev_talk e),
        jb_author := coalesce (ev_author e) (jb_author j), jb_names := merge_names (ev_names e) (jb_names j),
        jb_origin := coalesce (jb_origin j) (ev_origin e), jb_channel := coalesce (jb_channel j) (ev_channel e),
        jb_interaction := ev_interaction e, jb_updated := now, jb_buffer := now + 15\<rparr>)"

definition blank_job :: "int \<Rightarrow> string \<Rightarrow> string \<Rightarrow> kommo_job" where
  "blank_job now new_id correlation = \<lparr>jb_id = new_id, jb_correlation = correlation, jb_external = None,
     jb_lead = None, jb_contact = None, jb_chat = None, jb_talk = None, jb_author = None,
     jb_names = \<lparr>kn_name = None, kn_username = None, kn_url = None, kn_sender = None, kn_sender_url = None\<rparr>,
     jb_origin = None, jb_channel = None, jb_interaction = private_message_scope, jb_message = [],
     jb_media = None, jb_type = None, jb_attachments = [], jb_url = None, jb_status = JPending, jb_attempts = 0,
     jb_error = None, jb_buffer = now, jb_launched = None, jb_created = now, jb_updated = now, jb_started = None,
     jb_lease = None, jb_ai = None, jb_completed = None, jb_claims = None, jb_public = [], jb_suppress = False,
     jb_block = None, jb_jti = None, jb_account = None, jb_user = None, jb_client = None, jb_payload = None,
     jb_response = None, jb_persisted = None, jb_assistant = None, jb_waiting = None, jb_reconcile = None,
     jb_reconciles = 0, jb_context = ''not_required'', jb_deadline = None, jb_event = None, jb_content = [],
     jb_score = None\<rparr>"

definition event_job :: "int \<Rightarrow> string \<Rightarrow> kommo_event \<Rightarrow> string \<Rightarrow> kommo_job" where
  "event_job now new_id e ext = (blank_job now new_id (correlation_id e))
     \<lparr>jb_external := Some ext, jb_lead := ev_lead e, jb_contact := ev_contact e, jb_chat := ev_chat e,
      jb_talk := ev_talk e, jb_author := ev_author e, jb_names := ev_names e, jb_origin := ev_origin e,
      jb_channel := ev_channel e, jb_interaction := ev_interaction e, jb_message := event_text e ext,
      jb_media := ev_media e, jb_type := ev_type e, jb_attachments := event_inbound_attachments e ext,
      jb_buffer := now + 15\<rparr>"

text \<open>Lower case as \<open>str.casefold\<close> has it; the micro sign stays, its folding lies outside the range.\<close>

definition casefold_char :: "char \<Rightarrow> string" where
  "casefold_char c = (if (of_char c :: nat) = 223 then ''ss'' else [lower_char c])"

definition normalize_message_text :: "string \<Rightarrow> string" where
  "normalize_message_text s = py_strip (sub_runs py_space '' '' (concat (map casefold_char s)))"

definition event_receipt ::
    "int \<Rightarrow> (string \<Rightarrow> string) \<Rightarrow> kommo_event \<Rightarrow> string \<Rightarrow> string \<Rightarrow> string \<Rightarrow> kommo_receipt" where
  "event_receipt now sha e ext jid status = \<lparr>kr_message = ext, kr_job = jid, kr_correlation = correlation_id e,
     kr_lead = ev_lead e, kr_contact = ev_contact e, kr_chat = ev_chat e, kr_talk = ev_talk e,
     kr_author = ev_author e, kr_origin = ev_origin e, kr_channel = ev_channel e,
     kr_interaction = ev_interaction e, kr_status = status, kr_received = ev_created e,
     kr_text = event_text e ext, kr_hash = sha (normalize_message_text (event_text e ext)), kr_created = now\<rparr>"

definition add_receipt :: "kommo_receipt \<Rightarrow> kommo_db \<Rightarrow> kommo_db" where
  "add_receipt r db =
     (if kr_message r \<in> kr_message ` set (kj_receipts db) then db else db\<lparr>kj_receipts := kj_receipts db @ [r]\<rparr>)"

datatype event_result = Duplicate string | Merged string | Created string

definition latest_pending :: "kommo_event \<Rightarrow> kommo_db \<Rightarrow> kommo_job option" where
  "latest_pending e db = first_by (\<lambda>j. - jb_created j)
     (\<lambda>j. jb_correlation j = correlation_id e \<and> jb_interaction j = ev_interaction e \<and> is_pending j) (kj_jobs db)"

text \<open>The transaction; \<open>stamp\<close> renders the time that stands for a missing message id.\<close>

definition external_id :: "string \<Rightarrow> kommo_event \<Rightarrow> string" where
  "external_id stamp e = opt_str (opt_or (ev_message e) (Some (correlation_id e @ '':'' @ stamp)))"

definition record_incoming_event ::
    "int \<Rightarrow> string \<Rightarrow> string \<Rightarrow> (string \<Rightarrow> string) \<Rightarrow> kommo_event \<Rightarrow> kommo_db \<Rightarrow> (py_exc + event_result) \<times> kommo_db" where
  "record_incoming_event now new_id stamp sha e db =
     (let ext = external_id stamp e in
      case find_by kr_message ext (kj_receipts db) of
        Some r \<Rightarrow> (Inr (Duplicate (kr_job r)), db)
      | None \<Rightarrow>
          (case latest_pending e db of
             Some j \<Rightarrow>
               (Inr (Merged (jb_id j)),
                add_receipt (event_receipt now sha e ext (jb_id j) ''merged'')
                  (set_jobs (\<lambda>r. jb_id r = jb_id j) (merge_event now e ext) db))
           | None \<Rightarrow>
               (case store_jobs (kj_jobs db @ [event_job now new_id e ext]) db of
                  (Inl x, db') \<Rightarrow> (Inl x, db')
                | (Inr _, db') \<Rightarrow>
                    (Inr (Created new_id), add_receipt (event_receipt now sha e ext new_id ''created'') db'))))"
section \<open>What a job is\<close>

definition job_interaction_type :: "kommo_job \<Rightarrow> string" where
  "job_interaction_type j =
     (let t = py_lower (py_strip (if jb_interaction j = [] then private_message_scope else jb_interaction j)) in
      if t \<in> set [private_message_scope, instagram_comment_scope] then t else private_message_scope)"

definition is_direct_instagram_dm :: "kommo_job \<Rightarrow> bool" where
  "is_direct_instagram_dm j =
     (jb_channel j = Some ''instagram'' \<and> py_lower (py_strip (jb_interaction j)) = private_message_scope)"

definition is_instagram_private_message_job :: "kommo_job \<Rightarrow> bool" where
  "is_instagram_private_message_job j = (job_interaction_type j = private_message_scope
     \<and> (jb_channel j = Some ''instagram'' \<or> str_contains ''instagram'' (py_lower (opt_str (jb_origin j)))))"

text \<open>\<open>str.isdigit\<close> also accepts the three superscripts of the range, which \<open>int\<close> then refuses.\<close>

definition is_valid_kommo_id :: "string option \<Rightarrow> py_exc + bool" where
  "is_valid_kommo_id v = (case v of None \<Rightarrow> Inr False
     | Some s \<Rightarrow>
        (let t = py_strip s; sup = (\<lambda>c. (of_char c :: nat) \<in> {178, 179, 185}) in
         if t = [] \<or> \<not> list_all (\<lambda>c. is_digit c \<or> sup c) t then Inr False
         else if list_ex sup t then Inl (ValueError ''int'')
         else Inr (digits_value t > 0)))"

definition local_sender_id :: "kommo_job \<Rightarrow> string" where
  "local_sender_id j =
     opt_str (opt_or (jb_chat j) (opt_or (jb_contact j) (opt_or (jb_lead j) (Some (jb_correlation j)))))"

definition conversation_source_id :: "kommo_job \<Rightarrow> string" where
  "conversation_source_id j = ''kommo-job:'' @ jb_id j"

definition has_unsupported_attachment :: "kommo_job \<Rightarrow> bool" where
  "has_unsupported_attachment j = (clean_type (jb_type j) \<noteq> []
     \<and> clean_type (jb_type j) \<notin> set (audio_message_types @ image_message_types @ [''text'']))"

text \<open>The attachments of a job: of the supported types, one per message; one without a message id is an
  error of the metadata. Audio that cannot be transcribed carries whether a retry may help.\<close>

fun supported_attachments :: "string list \<Rightarrow> inbound_attachment list \<Rightarrow> inbound_attachment list option" where
  "supported_attachments seen [] = Some []"
| "supported_attachments seen (a # as) =
     (if py_lower (py_strip (ia_type a)) \<notin> set (audio_message_types @ image_message_types) then supported_attachments seen as
      else if py_strip (ia_message a) = [] then None
      else if py_strip (ia_message a) \<in> set seen then supported_attachments seen as
      else map_option (\<lambda>r. a # r) (supported_attachments (py_strip (ia_message a) # seen) as))"

datatype audio_error = Audio_Error string bool

definition job_inbound_attachments :: "kommo_job \<Rightarrow> audio_error + inbound_attachment list" where
  "job_inbound_attachments j = (case supported_attachments [] (jb_attachments j) of
     None \<Rightarrow> Inl (Audio_Error ''Inbound attachment metadata is invalid'' False) | Some as \<Rightarrow> Inr as)"

definition is_image_attachment :: "inbound_attachment \<Rightarrow> bool" where
  "is_image_attachment a = (py_lower (py_strip (ia_type a)) \<in> set image_message_types)"

definition job_image_media_url :: "kommo_job \<Rightarrow> audio_error + string option" where
  "job_image_media_url j = (case job_inbound_attachments j of
     Inl e \<Rightarrow> Inl e
   | Inr as \<Rightarrow>
      (case filter (\<lambda>u. u \<noteq> []) (map (\<lambda>a. py_strip (opt_str (ia_url a))) (filter is_image_attachment (rev as))) of
         u # _ \<Rightarrow> Inr (Some u)
       | [] \<Rightarrow> Inr (if is_audio_message_type (jb_type j) then None else jb_media j)))"

text \<open>\<open>text.replace(old, new, 1)\<close>.\<close>

fun replace_first :: "string \<Rightarrow> string \<Rightarrow> string \<Rightarrow> string" where
  "replace_first old new [] = (if old = [] then new else [])"
| "replace_first old new (c # cs) =
     (if starts_with old (c # cs) then new @ drop (length old) (c # cs) else c # replace_first old new cs)"

text \<open>\<open>transcribe\<close> stands for the speech service: the text of a recording, or an error.\<close>

fun transcribe_all ::
    "(string \<Rightarrow> audio_error + string) \<Rightarrow> inbound_attachment list \<Rightarrow> string \<Rightarrow> audio_error + string" where
  "transcribe_all transcribe [] msg = Inr msg"
| "transcribe_all transcribe (a # as) msg =
     (let url = py_strip (opt_str (ia_url a)) in
      if url = [] then Inl (Audio_Error ''Audio attachment URL is missing'' False)
      else (case transcribe url of
              Inl e \<Rightarrow> Inl e
            | Inr raw \<Rightarrow>
               (let t = py_strip raw; p = audio_placeholder (Some (ia_type a)) (Some (ia_message a)) in
                if t = [] then Inl (Audio_Error ''Audio transcription was empty'' False)
                else if \<not> str_contains p msg then Inl (Audio_Error ''Audio attachment placeholder is missing'' False)
                else transcribe_all transcribe as (replace_first p t msg))))"

text \<open>A job from before the attachments were kept has one address. Its type is tried in an order the
  set of types leaves open, here \<open>voice\<close> first.\<close>

definition effective_customer_message ::
    "(string \<Rightarrow> audio_error + string) \<Rightarrow> kommo_job \<Rightarrow> audio_error + string" where
  "effective_customer_message transcribe j =
     (let combined = py_strip (jb_message j) in
      case job_inbound_attachments j of
        Inl e \<Rightarrow> Inl e
      | Inr as \<Rightarrow>
         (let audio = filter (\<lambda>a. is_audio_message_type (Some (ia_type a))) as in
          if audio \<noteq> [] then transcribe_all transcribe audio combined
          else if \<not> is_audio_message_type (jb_type j) then Inr combined
          else (let url = py_strip (opt_str (jb_media j)) in
                if url = [] then Inl (Audio_Error ''Audio attachment URL is missing'' False)
                else (case transcribe url of
                        Inl e \<Rightarrow> Inl e
                      | Inr raw \<Rightarrow>
                         (let t = py_strip raw in
                          if t = [] then Inl (Audio_Error ''Audio transcription was empty'' False)
                          else (case filter (\<lambda>p. str_contains p combined)
                                       (map (\<lambda>ty. audio_placeholder (Some ty) None) audio_message_types) of
                                  p # _ \<Rightarrow> Inr (replace_first p t combined)
                                | [] \<Rightarrow> Inr (join_lines [combined, t])))))))"

section \<open>Claims\<close>

text \<open>\<open>WHERE id = ...\<close>, with \<open>RETURNING *\<close>. A lock that another transaction holds makes a claim pass
  over the row; here every transaction has ended.\<close>

definition by_id :: "string \<Rightarrow> kommo_job \<Rightarrow> bool" where
  "by_id jid j = (jb_id j = jid)"

definition blocks :: "kommo_job \<Rightarrow> kommo_job \<Rightarrow> bool" where
  "blocks a c = (is_active a \<and> jb_id a \<noteq> jb_id c
     \<and> ((jb_lead c \<noteq> None \<and> jb_lead a = jb_lead c) \<or> (jb_contact c \<noteq> None \<and> jb_contact a = jb_contact c)
        \<or> (jb_lead c = None \<and> jb_contact c = None \<and> jb_correlation a = jb_correlation c)))"

definition due_pending :: "int \<Rightarrow> kommo_job list \<Rightarrow> kommo_job \<Rightarrow> bool" where
  "due_pending now t c = (is_pending c \<and> jb_buffer c \<le> now \<and> \<not> list_ex (\<lambda>a. blocks a c) t)"

definition claimed :: "int \<Rightarrow> string \<Rightarrow> int option \<Rightarrow> kommo_job \<Rightarrow> kommo_job" where
  "claimed now lease ai j = j\<lparr>jb_status := JProcessing, jb_started := Some now, jb_lease := Some lease,
     jb_ai := ai, jb_attempts := jb_attempts j + 1, jb_updated := now\<rparr>"

definition claim_due_pending_job ::
    "int \<Rightarrow> string \<Rightarrow> kommo_db \<Rightarrow> (py_exc + kommo_job option) \<times> kommo_db" where
  "claim_due_pending_job now lease db =
     (case first_by jb_created (due_pending now (kj_jobs db)) (kj_jobs db) of
        None \<Rightarrow> (Inr None, db)
      | Some j \<Rightarrow>
          (case store_jobs (upd_where (by_id (jb_id j)) (claimed now lease None) (kj_jobs db)) db of
             (Inl x, db') \<Rightarrow> (Inl x, db')
           | (Inr _, db') \<Rightarrow> (Inr (Some (claimed now lease None j)), db')))"

text \<open>The test the statements make on the stored columns.\<close>

definition stored_direct :: "kommo_job \<Rightarrow> bool" where
  "stored_direct j = (jb_channel j = Some ''instagram'' \<and> jb_interaction j = private_message_scope)"

definition claimable :: "kommo_job \<Rightarrow> bool" where
  "claimable j = (jb_url j \<noteq> None \<or> (stored_direct j \<and> jb_talk j \<noteq> None))"

definition claim_ready_job :: "int \<Rightarrow> string \<Rightarrow> kommo_db \<Rightarrow> kommo_job option \<times> kommo_db" where
  "claim_ready_job now lease db =
     (case first_by jb_updated (\<lambda>j. jb_status j = JReady \<and> claimable j) (kj_jobs db) of
        None \<Rightarrow> (None, db)
      | Some j \<Rightarrow> (Some (claimed now lease (Some now) j), set_jobs (by_id (jb_id j)) (claimed now lease (Some now)) db))"

text \<open>The order is by the time of the next look, then by creation.\<close>

definition awaits_look :: "int \<Rightarrow> kommo_job \<Rightarrow> bool" where
  "awaits_look now j = (jb_status j = JDelivery \<and> stored_direct j
     \<and> (case jb_reconcile j of None \<Rightarrow> False | Some t \<Rightarrow> t \<le> now))"

definition looked_at :: "int \<Rightarrow> kommo_job \<Rightarrow> kommo_job" where
  "looked_at now j = j\<lparr>jb_reconcile := Some (now + 15), jb_reconciles := jb_reconciles j + 1, jb_updated := now\<rparr>"

definition claim_waiting_for_delivery_job :: "int \<Rightarrow> kommo_db \<Rightarrow> kommo_job option \<times> kommo_db" where
  "claim_waiting_for_delivery_job now db =
     (case sort_key (\<lambda>j. the (jb_reconcile j)) (sort_key jb_created (filter (awaits_look now) (kj_jobs db))) of
        [] \<Rightarrow> (None, db)
      | j # _ \<Rightarrow> (Some (looked_at now j), set_jobs (by_id (jb_id j)) (looked_at now) db))"
section \<open>Updates of a worker\<close>

text \<open>The row of a worker: its id, its lease and the status the statement asks for. \<open>RETURNING\<close> tells
  whether a row was found.\<close>

definition held :: "string \<Rightarrow> job_status \<Rightarrow> string option \<Rightarrow> kommo_job \<Rightarrow> bool" where
  "held jid st lease j = (jb_id j = jid \<and> jb_status j = st \<and> lease \<noteq> None \<and> jb_lease j = lease)"

definition upd_held ::
    "string \<Rightarrow> job_status \<Rightarrow> string option \<Rightarrow> (kommo_job \<Rightarrow> kommo_job) \<Rightarrow> kommo_db \<Rightarrow> bool \<times> kommo_db" where
  "upd_held jid st lease f db = (list_ex (held jid st lease) (kj_jobs db), set_jobs (held jid st lease) f db)"

definition finished :: "int \<Rightarrow> job_status \<Rightarrow> string option \<Rightarrow> kommo_job \<Rightarrow> kommo_job" where
  "finished now st err j = j\<lparr>jb_status := st, jb_error := err, jb_started := None, jb_lease := None,
     jb_completed := Some now, jb_updated := now\<rparr>"

definition error_text :: "string option \<Rightarrow> string option" where
  "error_text err = (if opt_str err = [] then None else Some (sanitize_kommo_error (opt_str err)))"

text \<open>\<open>_mark_job\<close> compares the lease only when it has one, and never the status.\<close>

definition marked :: "int \<Rightarrow> job_status \<Rightarrow> string option \<Rightarrow> kommo_job \<Rightarrow> kommo_job" where
  "marked now st err j = j\<lparr>jb_status := st, jb_error := error_text err, jb_started := None, jb_lease := None,
     jb_completed := (if st \<in> set terminal_statuses then Some now else jb_completed j), jb_updated := now\<rparr>"

definition mark_job :: "int \<Rightarrow> string \<Rightarrow> job_status \<Rightarrow> string option \<Rightarrow> string option \<Rightarrow> kommo_db \<Rightarrow> kommo_db" where
  "mark_job now jid st err lease db =
     set_jobs (\<lambda>j. jb_id j = jid \<and> (lease = None \<or> jb_lease j = lease)) (marked now st err) db"

definition prepared_row :: "int \<Rightarrow> bool \<Rightarrow> int \<Rightarrow> bool \<Rightarrow> string option \<Rightarrow> kommo_job \<Rightarrow> kommo_job" where
  "prepared_row now wait_context wait_seconds suppress block j =
     j\<lparr>jb_status := (if wait_context then JContext else JReady),
       jb_context := (if wait_context then ''pending'' else ''not_required''),
       jb_deadline := (if wait_context then Some (now + wait_seconds) else None),
       jb_suppress := suppress, jb_block := block, jb_started := None, jb_lease := None, jb_ai := None,
       jb_updated := now\<rparr>"

definition mark_direct_instagram_job_prepared ::
    "int \<Rightarrow> string \<Rightarrow> string option \<Rightarrow> bool \<Rightarrow> int \<Rightarrow> bool \<Rightarrow> string option \<Rightarrow> kommo_db \<Rightarrow> bool \<times> kommo_db" where
  "mark_direct_instagram_job_prepared now jid lease wait_context wait_seconds suppress block db =
     upd_held jid JProcessing lease (prepared_row now wait_context wait_seconds suppress block) db"

definition mark_job_waiting_for_salesbot :: "int \<Rightarrow> string \<Rightarrow> string option \<Rightarrow> kommo_db \<Rightarrow> bool \<times> kommo_db" where
  "mark_job_waiting_for_salesbot now jid lease db = upd_held jid JProcessing lease
     (\<lambda>j. j\<lparr>jb_status := JSalesbot, jb_launched := Some now, jb_started := None, jb_updated := now\<rparr>) db"

definition mark_waiting_job_failed :: "int \<Rightarrow> string \<Rightarrow> string option \<Rightarrow> string \<Rightarrow> kommo_db \<Rightarrow> kommo_db" where
  "mark_waiting_job_failed now jid lease err db =
     snd (upd_held jid JSalesbot lease (finished now JFailed (Some (sanitize_kommo_error err))) db)"

definition record_uncertain_launch_warning :: "int \<Rightarrow> string \<Rightarrow> string \<Rightarrow> kommo_db \<Rightarrow> kommo_db" where
  "record_uncertain_launch_warning now jid err db =
     set_jobs (\<lambda>j. jb_id j = jid \<and> jb_status j = JSalesbot)
       (\<lambda>j. j\<lparr>jb_error := Some (''Salesbot launch outcome uncertain: '' @ sanitize_kommo_error err), jb_updated := now\<rparr>) db"

definition mark_job_continuing :: "int \<Rightarrow> string \<Rightarrow> string option \<Rightarrow> json \<Rightarrow> kommo_db \<Rightarrow> bool \<times> kommo_db" where
  "mark_job_continuing now jid lease data db = upd_held jid JProcessing lease
     (\<lambda>j. j\<lparr>jb_status := JContinuing, jb_payload := Some (JObj [(''data'', data)] []), jb_started := Some now,
           jb_updated := now\<rparr>) db"

definition retry_ready_job :: "int \<Rightarrow> string \<Rightarrow> string option \<Rightarrow> string \<Rightarrow> kommo_db \<Rightarrow> kommo_db" where
  "retry_ready_job now jid lease err db = snd (upd_held jid JProcessing lease
     (\<lambda>j. j\<lparr>jb_status := JReady, jb_error := Some (sanitize_kommo_error err), jb_started := None, jb_lease := None,
           jb_ai := None, jb_updated := now\<rparr>) db)"

definition response_json :: "json \<Rightarrow> json" where
  "response_json r = JObj [(''response'', r)] []"

definition mark_job_sent :: "int \<Rightarrow> string \<Rightarrow> string option \<Rightarrow> json \<Rightarrow> kommo_db \<Rightarrow> bool \<times> kommo_db" where
  "mark_job_sent now jid lease response db = upd_held jid JContinuing lease
     (\<lambda>j. (finished now JSent None j)\<lparr>jb_response := Some (response_json response)\<rparr>) db"

definition mark_job_discarded ::
    "int \<Rightarrow> string \<Rightarrow> string option \<Rightarrow> string option \<Rightarrow> json \<Rightarrow> kommo_db \<Rightarrow> bool \<times> kommo_db" where
  "mark_job_discarded now jid lease reason response db = upd_held jid JContinuing lease
     (\<lambda>j. (finished now JDiscarded (error_text reason) j)\<lparr>jb_response := Some (response_json response)\<rparr>) db"

text \<open>\<open>_store_assistant_message_after_delivery\<close>: once per job, under the lease when a status is expected.\<close>

definition store_assistant_after_delivery ::
    "int \<Rightarrow> string \<Rightarrow> string \<Rightarrow> kommo_job \<Rightarrow> string \<Rightarrow> string option \<Rightarrow> attachment list \<Rightarrow> job_status option
     \<Rightarrow> kommo_db \<Rightarrow> (py_exc + unit) \<times> kommo_db" where
  "store_assistant_after_delivery now cid channel job content calls attachments expected db =
     (let mine = (\<lambda>j. jb_id j = jb_id job
            \<and> (case expected of None \<Rightarrow> True | Some st \<Rightarrow> held (jb_id job) st (jb_lease job) j)) in
      if content = [] \<and> attachments = [] then (Inr (), db)
      else (case find mine (kj_jobs db) of
              None \<Rightarrow> (Inr (), db)
            | Some row \<Rightarrow>
               if jb_persisted row \<noteq> None then (Inr (), db)
               else (case store_message now cid ''assistant'' content channel None calls (Some (conversation_source_id job))
                            (if attachments = [] then JVal PNone
                             else JList (map (\<lambda>a. JObj (map (\<lambda>kv. (fst kv, JVal (PStr (snd kv)))) a) []) attachments) [])
                            (Some (job_interaction_type job)) (kj_history db) of
                       (Inl x, _) \<Rightarrow> (Inl x, db)
                     | (Inr _, h) \<Rightarrow>
                         (Inr (), set_jobs (\<lambda>j. mine j \<and> jb_persisted j = None)
                            (\<lambda>j. j\<lparr>jb_persisted := Some now, jb_updated := now\<rparr>) (db\<lparr>kj_history := h\<rparr>)))))"

text \<open>An error of the Kommo service, with the status of the answer when there was one.\<close>

datatype api_error = API_Error string "int option"

definition is_definitive_launch_error :: "api_error \<Rightarrow> bool" where
  "is_definitive_launch_error e = (case e of API_Error _ st \<Rightarrow>
     (case st of None \<Rightarrow> False | Some c \<Rightarrow> 400 \<le> c \<and> c < 500 \<and> c \<noteq> 429))"

definition status_after_continuation_error :: "api_error \<Rightarrow> bool \<Rightarrow> job_status" where
  "status_after_continuation_error e started = (case e of API_Error _ st \<Rightarrow>
     (if \<not> started then JFailed
      else (case st of None \<Rightarrow> JUnknown | Some c \<Rightarrow> if c \<in> set [429, 500, 502, 503, 504] then JUnknown else JFailed)))"
section \<open>Direct deliveries\<close>

definition chats_of :: "string \<Rightarrow> outbound \<Rightarrow> bool" where
  "chats_of jid d = (ob_job d = jid \<and> ob_transport d = ''chats_api'')"

definition ids_json :: "string list \<Rightarrow> json" where
  "ids_json ids = JList (map (\<lambda>i. JVal (PStr i)) ids) []"

definition waiting_row ::
    "int \<Rightarrow> string list \<Rightarrow> assistant_payload \<Rightarrow> string option \<Rightarrow> kommo_job \<Rightarrow> kommo_job" where
  "waiting_row now ids payload reason j =
     j\<lparr>jb_status := JDelivery, jb_error := error_text reason,
       jb_response := Some (JObj [(''transport'', JVal (PStr ''chats_api'')), (''provider_message_ids'', ids_json ids)] []),
       jb_assistant := Some payload, jb_waiting := Some now, jb_reconcile := Some now, jb_reconciles := 0,
       jb_started := None, jb_lease := None, jb_completed := None, jb_updated := now\<rparr>"

definition mark_direct_job_waiting_for_delivery ::
    "int \<Rightarrow> string \<Rightarrow> string option \<Rightarrow> string list \<Rightarrow> assistant_payload \<Rightarrow> string option \<Rightarrow> kommo_db \<Rightarrow> bool \<times> kommo_db" where
  "mark_direct_job_waiting_for_delivery now jid lease ids payload reason db =
     (let sent = list_ex (\<lambda>d. chats_of jid d \<and> ob_status d \<in> {OAccepted, OConfirmed}
                   \<and> (case ob_provider d of None \<Rightarrow> False | Some i \<Rightarrow> i \<in> set ids)) (kj_outbound db);
          p = (\<lambda>j. held jid JProcessing lease j \<and> sent) in
      (list_ex p (kj_jobs db), set_jobs p (waiting_row now ids payload reason) db))"

definition pending_assistant_payload ::
    "string option \<Rightarrow> string \<Rightarrow> string option \<Rightarrow> string option \<Rightarrow> attachment list \<Rightarrow> string \<Rightarrow> assistant_payload" where
  "pending_assistant_payload cid text result_text calls attachments final =
     \<lparr>pa_customer = opt_or cid None, pa_channel = ''instagram'',
      pa_content = (if text \<noteq> [] then text else opt_str result_text), pa_calls = calls,
      pa_attachments = attachments, pa_final = final, pa_fallback = False\<rparr>"

definition request_delivery_reconciliation :: "int \<Rightarrow> string option \<Rightarrow> kommo_db \<Rightarrow> bool \<times> kommo_db" where
  "request_delivery_reconciliation now mid db =
     (let i = py_strip (opt_str mid);
          p = (\<lambda>j. jb_status j = JDelivery \<and> stored_direct j
                 \<and> list_ex (\<lambda>d. chats_of (jb_id j) d \<and> ob_provider d = Some i) (kj_outbound db)) in
      if i = [] then (False, db)
      else (list_ex p (kj_jobs db), set_jobs p (\<lambda>j. j\<lparr>jb_reconcile := Some now, jb_updated := now\<rparr>) db))"

definition provider_message_ids :: "kommo_job \<Rightarrow> string list" where
  "provider_message_ids j = (case jb_response j of
     Some (JObj d _) \<Rightarrow> (case jget d ''provider_message_ids'' of JList xs _ \<Rightarrow> map j_str xs | _ \<Rightarrow> []) | _ \<Rightarrow> [])"

definition confirm_waiting_delivery :: "int \<Rightarrow> string \<Rightarrow> string \<Rightarrow> kommo_db \<Rightarrow> kommo_db" where
  "confirm_waiting_delivery now jid mid db =
     set_outbound (\<lambda>d. chats_of jid d \<and> ob_provider d = Some mid \<and> ob_status d = OAccepted)
       (\<lambda>d. d\<lparr>ob_status := OConfirmed, ob_confirmed := coalesce (ob_confirmed d) (Some now), ob_error := None,
             ob_updated := now\<rparr>) db"

text \<open>A definite rejection of media is answered once more in text; \<open>handoff\<close> gives that text for the
  product whose picture was refused.\<close>

definition queues_text_fallback :: "string \<Rightarrow> string \<Rightarrow> assistant_payload option \<Rightarrow> bool" where
  "queues_text_fallback media status p = (media \<in> set [''product_image'', ''catalog_pdf''] \<and> status = ''error''
     \<and> (case p of None \<Rightarrow> False | Some a \<Rightarrow> pa_content a \<noteq> [] \<and> \<not> pa_fallback a))"

definition first_product_name :: "attachment list \<Rightarrow> string" where
  "first_product_name as = (case filter (\<lambda>a. map_of a ''type'' = Some ''product_image'') as of
     [] \<Rightarrow> [] | a # _ \<Rightarrow> py_strip (opt_str (map_of a ''product_name'')))"

definition fallback_payload :: "(string option \<Rightarrow> string) \<Rightarrow> assistant_payload \<Rightarrow> assistant_payload" where
  "fallback_payload handoff a = a\<lparr>pa_content := handoff (nonempty (first_product_name (pa_attachments a))),
     pa_attachments := [], pa_final := ''sent'', pa_fallback := True\<rparr>"

definition delivery_diagnostic :: "string \<Rightarrow> string \<Rightarrow> string" where
  "delivery_diagnostic status mid =
     sanitize_kommo_error (''Kommo provider delivery_status='' @ status @ '' for message '' @ mid)"

definition fallback_row :: "int \<Rightarrow> string \<Rightarrow> assistant_payload \<Rightarrow> kommo_job \<Rightarrow> kommo_job" where
  "fallback_row now err a j = j\<lparr>jb_status := JReady, jb_error := Some err, jb_assistant := Some a,
     jb_response := None, jb_reconcile := None, jb_reconciles := 0, jb_ai := None, jb_completed := None,
     jb_updated := now\<rparr>"

definition refused_row :: "int \<Rightarrow> string \<Rightarrow> kommo_job \<Rightarrow> kommo_job" where
  "refused_row now err j = j\<lparr>jb_status := JFailed, jb_error := Some err, jb_assistant := None,
     jb_reconcile := None, jb_completed := Some now, jb_updated := now\<rparr>"

definition fail_waiting_delivery ::
    "int \<Rightarrow> (string option \<Rightarrow> string) \<Rightarrow> kommo_job \<Rightarrow> string \<Rightarrow> string \<Rightarrow> string \<Rightarrow> kommo_db \<Rightarrow> kommo_db" where
  "fail_waiting_delivery now handoff job mid status media db =
     (let err = delivery_diagnostic status mid;
          db1 = set_outbound (\<lambda>d. chats_of (jb_id job) d \<and> ob_provider d = Some mid \<and> ob_status d \<in> {OAccepted, OFailed})
                  (\<lambda>d. d\<lparr>ob_status := OFailed, ob_error := Some err, ob_updated := now\<rparr>) db;
          f = (case jb_assistant job of
                 Some a \<Rightarrow> if queues_text_fallback media status (Some a)
                           then fallback_row now err (fallback_payload handoff a) else refused_row now err
               | None \<Rightarrow> refused_row now err) in
      set_jobs (\<lambda>j. jb_id j = jb_id job \<and> jb_status j = JDelivery) f db1)"

definition persist_waiting_assistant_message ::
    "int \<Rightarrow> kommo_job \<Rightarrow> assistant_payload \<Rightarrow> kommo_db \<Rightarrow> (py_exc + unit) \<times> kommo_db" where
  "persist_waiting_assistant_message now job a db =
     (let cid = py_strip (opt_str (pa_customer a));
          waiting = (\<lambda>j. jb_id j = jb_id job \<and> jb_status j = JDelivery) in
      if cid = [] \<or> (pa_content a = [] \<and> pa_attachments a = []) then (Inr (), db)
      else (case find waiting (kj_jobs db) of
              None \<Rightarrow> (Inr (), db)
            | Some row \<Rightarrow>
               if jb_persisted row \<noteq> None then (Inr (), db)
               else (case store_message now cid ''assistant'' (pa_content a)
                            (if pa_channel a = [] then ''instagram'' else pa_channel a) None (pa_calls a)
                            (Some (conversation_source_id job))
                            (if pa_attachments a = [] then JVal PNone
                             else JList (map (\<lambda>x. JObj (map (\<lambda>kv. (fst kv, JVal (PStr (snd kv)))) x) []) (pa_attachments a)) [])
                            (Some private_message_scope) (kj_history db) of
                       (Inl x, _) \<Rightarrow> (Inl x, db)
                     | (Inr _, h) \<Rightarrow>
                         (Inr (), set_jobs (\<lambda>j. waiting j \<and> jb_persisted j = None)
                            (\<lambda>j. j\<lparr>jb_persisted := Some now, jb_updated := now\<rparr>) (db\<lparr>kj_history := h\<rparr>)))))"

definition delivered_row :: "int \<Rightarrow> job_status \<Rightarrow> kommo_job \<Rightarrow> kommo_job" where
  "delivered_row now st j = j\<lparr>jb_status := st, jb_error := (if st = JSent then None else jb_error j),
     jb_assistant := None, jb_reconcile := None, jb_completed := Some now, jb_updated := now\<rparr>"

definition finalize_waiting_delivery :: "int \<Rightarrow> string \<Rightarrow> kommo_db \<Rightarrow> (py_exc + unit) \<times> kommo_db" where
  "finalize_waiting_delivery now jid db =
     (case find (\<lambda>j. jb_id j = jid \<and> jb_status j = JDelivery) (kj_jobs db) of
        None \<Rightarrow> (Inr (), db)
      | Some job \<Rightarrow>
          (case (case jb_assistant job of None \<Rightarrow> (Inr (), db) | Some a \<Rightarrow> persist_waiting_assistant_message now job a db) of
             (Inl x, db') \<Rightarrow> (Inl x, db')
           | (Inr _, db') \<Rightarrow>
               (let st = (case jb_assistant job of None \<Rightarrow> JSent
                          | Some a \<Rightarrow> if pa_final a = ''discarded'' then JDiscarded else JSent) in
                (Inr (), set_jobs (\<lambda>j. jb_id j = jid \<and> jb_status j = JDelivery
                           \<and> (jb_persisted j \<noteq> None
                              \<or> (case jb_assistant j of None \<Rightarrow> True | Some a \<Rightarrow> opt_str (pa_customer a) = [])))
                         (delivered_row now st) db'))))"

text \<open>One look at the provider for each message of the job, in the order of the rows.
  \<open>provider\<close> answers the delivery status of a message, or an exception.\<close>

fun look_at_deliveries ::
    "int \<Rightarrow> (string option \<Rightarrow> string) \<Rightarrow> (string \<Rightarrow> string answer) \<Rightarrow> kommo_job \<Rightarrow> outbound list \<Rightarrow> bool \<Rightarrow> kommo_db
     \<Rightarrow> bool \<times> kommo_db" where
  "look_at_deliveries now handoff provider job [] all_delivered db = (all_delivered, db)"
| "look_at_deliveries now handoff provider job (d # ds) all_delivered db =
     (let mid = py_strip (opt_str (ob_provider d)); media = opt_str (ob_media d) in
      if ob_status d = OConfirmed then look_at_deliveries now handoff provider job ds all_delivered db
      else if ob_status d = OFailed then (False, fail_waiting_delivery now handoff job mid ''error'' media db)
      else if ob_status d \<noteq> OAccepted \<or> mid = [] then look_at_deliveries now handoff provider job ds False db
      else (case provider mid of
              Raised _ \<Rightarrow> (False, db)
            | Answer st \<Rightarrow>
                if st \<in> set [''delivered'', ''seen'']
                then look_at_deliveries now handoff provider job ds all_delivered (confirm_waiting_delivery now (jb_id job) mid db)
                else if st = ''error'' then (False, fail_waiting_delivery now handoff job mid st media db)
                else look_at_deliveries now handoff provider job ds False db))"

definition reconcile_waiting_for_delivery_job ::
    "int \<Rightarrow> (string option \<Rightarrow> string) \<Rightarrow> (string \<Rightarrow> string answer) \<Rightarrow> kommo_job \<Rightarrow> kommo_db \<Rightarrow> (py_exc + unit) \<times> kommo_db" where
  "reconcile_waiting_for_delivery_job now handoff provider job db =
     (let ids = provider_message_ids job;
          rows = sort_key ob_created (filter (\<lambda>d. chats_of (jb_id job) d
                   \<and> (case ob_provider d of None \<Rightarrow> False | Some i \<Rightarrow> i \<in> set ids)) (kj_outbound db)) in
      if rows = [] then (Inr (), db)
      else (case look_at_deliveries now handoff provider job rows True db of
              (True, db') \<Rightarrow> finalize_waiting_delivery now (jb_id job) db'
            | (False, db') \<Rightarrow> (Inr (), db')))"

fun process_waiting_for_delivery_jobs ::
    "nat \<Rightarrow> int \<Rightarrow> (string option \<Rightarrow> string) \<Rightarrow> (string \<Rightarrow> string answer) \<Rightarrow> kommo_db \<Rightarrow> (py_exc + nat) \<times> kommo_db" where
  "process_waiting_for_delivery_jobs 0 now handoff provider db = (Inr 0, db)"
| "process_waiting_for_delivery_jobs (Suc n) now handoff provider db =
     (case claim_waiting_for_delivery_job now db of
        (None, db') \<Rightarrow> (Inr 0, db')
      | (Some j, db') \<Rightarrow>
          (case reconcile_waiting_for_delivery_job now handoff provider j db' of
             (Inl x, db2) \<Rightarrow> (Inl x, db2)
           | (Inr _, db2) \<Rightarrow>
               (case process_waiting_for_delivery_jobs n now handoff provider db2 of (r, db3) \<Rightarrow> (map_sum id Suc r, db3))))"
section \<open>Stale jobs\<close>

definition started_before :: "int \<Rightarrow> kommo_job \<Rightarrow> bool" where
  "started_before t j = (case jb_started j of None \<Rightarrow> False | Some s \<Rightarrow> s < t)"

definition stale_waiting :: "int \<Rightarrow> kommo_job \<Rightarrow> bool" where
  "stale_waiting now j = (jb_status j = JSalesbot
     \<and> (case jb_launched j of None \<Rightarrow> jb_updated j | Some t \<Rightarrow> t) < now - 180)"

definition stale_unstarted :: "int \<Rightarrow> kommo_job \<Rightarrow> bool" where
  "stale_unstarted now j = (jb_status j = JProcessing \<and> started_before (now - 300) j \<and> jb_ai j = None)"

definition stale_uncertain :: "int \<Rightarrow> kommo_job \<Rightarrow> bool" where
  "stale_uncertain now j = ((jb_status j = JContinuing \<or> (jb_status j = JProcessing \<and> jb_ai j \<noteq> None))
     \<and> started_before (now - 300) j)"

definition max_job_attempts :: int where "max_job_attempts = 3"

definition timed_out_row :: "int \<Rightarrow> kommo_job \<Rightarrow> kommo_job" where
  "timed_out_row now j = j\<lparr>jb_status := JFailed, jb_error := Some ''Salesbot callback did not arrive before stale timeout'',
     jb_updated := now, jb_lease := None, jb_completed := Some now\<rparr>"

definition reset_row :: "int \<Rightarrow> kommo_job \<Rightarrow> kommo_job" where
  "reset_row now j = j\<lparr>jb_status := (if stored_direct j \<and> jb_talk j \<noteq> None then JReady
        else if jb_url j = None then JPending else JReady),
     jb_started := None, jb_lease := None, jb_updated := now, jb_error := Some ''Recovered stale processing job''\<rparr>"

definition uncertain_row :: "int \<Rightarrow> kommo_job \<Rightarrow> kommo_job" where
  "uncertain_row now j = finished now JUnknown (Some (if jb_status j = JContinuing
     then ''Continuation outcome unknown after stale timeout''
     else ''AI execution outcome unknown; manual reconciliation required'')) j"

definition exhausted_row :: "int \<Rightarrow> kommo_job \<Rightarrow> kommo_job" where
  "exhausted_row now j = finished now JFailed (Some ''Max attempts exceeded during stale recovery'') j"

text \<open>Four statements, each committed alone; the second may collide with a job that is pending.\<close>

definition recover_stale_jobs :: "int \<Rightarrow> kommo_db \<Rightarrow> (py_exc + nat list) \<times> kommo_db" where
  "recover_stale_jobs now db =
     (let count = (\<lambda>p d. length (filter p (kj_jobs d)));
          db1 = set_jobs (stale_waiting now) (timed_out_row now) db;
          again = (\<lambda>j. stale_unstarted now j \<and> jb_attempts j < max_job_attempts);
          over = (\<lambda>j. stale_unstarted now j \<and> max_job_attempts \<le> jb_attempts j) in
      case store_jobs (upd_where again (reset_row now) (kj_jobs db1)) db1 of
        (Inl x, db2) \<Rightarrow> (Inl x, db2)
      | (Inr _, db2) \<Rightarrow>
          (let db3 = set_jobs (stale_uncertain now) (uncertain_row now) db2;
               db4 = set_jobs over (exhausted_row now) db3 in
           (Inr [count (stale_waiting now) db, count again db1, count (stale_uncertain now) db2, count over db3], db4)))"

definition diagnostics_counts :: "kommo_db \<Rightarrow> (string \<times> nat) list" where
  "diagnostics_counts db =
     (let n = (\<lambda>sts. length (filter (\<lambda>j. jb_status j \<in> set sts) (kj_jobs db))) in
      [(''pending_job_count'', n (JPending # active_statuses)), (''failed_job_count'', n [JFailed, JUnknown]),
       (''waiting_for_delivery_job_count'', n [JDelivery]), (''delivery_unknown_job_count'', n [JUnknown])])"

definition stale_job_count :: "int \<Rightarrow> kommo_db \<Rightarrow> nat" where
  "stale_job_count now db =
     length (filter (\<lambda>j. jb_status j \<in> {JProcessing, JContinuing} \<and> started_before (now - 300) j) (kj_jobs db))"

section \<open>Lemmas on the statements\<close>

lemmas job_rows = claimed_def finished_def marked_def prepared_row_def waiting_row_def fallback_row_def refused_row_def
  delivered_row_def looked_at_def timed_out_row_def reset_row_def uncertain_row_def exhausted_row_def

lemma first_by_SomeD: "first_by key p t = Some r \<Longrightarrow> r \<in> set t \<and> p r"
proof -
  assume "first_by key p t = Some r"
  then obtain rs where "sort_key key (filter p t) = r # rs" by (auto simp: first_by_def split: list.splits)
  then have "r \<in> set (sort_key key (filter p t))" by simp
  then show ?thesis by simp
qed

lemma first_by_None: "first_by key p t = None \<longleftrightarrow> (\<forall>r \<in> set t. \<not> p r)"
proof -
  have "first_by key p t = None \<longleftrightarrow> set (sort_key key (filter p t)) = {}"
    by (auto simp: first_by_def simp del: set_sort split: list.splits)
  then show ?thesis by auto
qed

lemma filter_map_cong:
  assumes "\<And>r. r \<in> set t \<Longrightarrow> p (f r) \<longleftrightarrow> p r" "\<And>r. r \<in> set t \<Longrightarrow> p r \<Longrightarrow> key (f r) = key r"
  shows "map key (filter p (map f t)) = map key (filter p t)"
  using assms by (induction t) auto

text \<open>An update that keeps the column of an index and only takes rows out of it keeps the index.\<close>

lemma unique_among_upd:
  assumes "unique_among p key t" "\<And>r. r \<in> set t \<Longrightarrow> q r \<Longrightarrow> p (f r) \<Longrightarrow> p r \<and> key (f r) = key r"
  shows "unique_among p key (upd_where q f t)"
  using assms
proof (induction t)
  case (Cons x t)
  have d: "distinct (map key (filter p t))" and x: "p x \<Longrightarrow> key x \<notin> key ` set (filter p t)"
    using Cons.prems(1) by (auto simp: unique_among_def split: if_splits)
  then have ih: "distinct (map key (filter p (upd_where q f t)))"
    using Cons.IH Cons.prems(2) by (simp add: unique_among_def)
  have sub: "key ` set (filter p (upd_where q f t)) \<subseteq> key ` set (filter p t)"
    using Cons.prems(2) by (force simp: in_upd_where split: if_splits)
  have fx: "q x \<Longrightarrow> p (f x) \<Longrightarrow> p x \<and> key (f x) = key x" using Cons.prems(2) by simp
  have nx: "p x \<Longrightarrow> key x \<notin> set (map key (filter p (upd_where q f t)))" using sub x by auto
  show ?case
  proof (cases "q x \<and> p (f x) \<or> \<not> q x \<and> p x")
    case True
    then have "filter p (upd_where q f (x # t)) = (if q x then f x else x) # filter p (upd_where q f t)"
      by (auto simp: upd_where_Cons)
    moreover have "p x" "key (if q x then f x else x) = key x" using True fx by auto
    ultimately show ?thesis using ih nx unfolding unique_among_def by simp
  next
    case False
    then have "filter p (upd_where q f (x # t)) = filter p (upd_where q f t)" by (auto simp: upd_where_Cons)
    then show ?thesis using ih unfolding unique_among_def by simp
  qed
qed (simp add: unique_among_def sql_simps)

lemma unique_amongD:
  "unique_among p key t \<Longrightarrow> r \<in> set t \<Longrightarrow> r' \<in> set t \<Longrightarrow> p r \<Longrightarrow> p r' \<Longrightarrow> key r = key r' \<Longrightarrow> r = r'"
  by (auto simp: unique_among_def distinct_map inj_on_def)

lemma store_jobs_sel:
  "store_jobs t db = (r, db') \<Longrightarrow> (r = Inr () \<and> jobs_indexed t \<and> db' = db\<lparr>kj_jobs := t\<rparr>) \<or> (r = Inl unique_violation \<and> db' = db)"
  by (auto simp: store_jobs_def split: if_splits)

end
