(* ===== verification/Kommo_Callbacks.thy ===== *)
theory Kommo_Callbacks
  imports Kommo_Jobs "HOL-Library.List_Lexorder" "HOL-Library.Char_ord"
begin

text \<open>
  Salesbot callbacks, \<open>integrations/kommo/jobs.py\<close> and \<open>models.py\<close>: what a signed callback says, the
  waiting job it makes ready, the job a native Instagram comment opens, and the private copy of a
  comment that is discarded. The hash function and the events received from Meta are arguments.
\<close>

section \<open>The widget data\<close>

definition is_template :: "string \<Rightarrow> bool" where
  "is_template t = (starts_with ''{{'' t \<and> starts_with ''}}'' (rev t))"

definition blank_to_none :: "json \<Rightarrow> string option" where
  "blank_to_none v = (case v of
      JVal PNone \<Rightarrow> None
    | JVal (PStr []) \<Rightarrow> None
    | _ \<Rightarrow> (let t = py_strip (j_str v) in if is_template t then None else Some t))"

definition widget_interaction :: "json \<Rightarrow> string option" where
  "widget_interaction v = (case v of
      JVal PNone \<Rightarrow> None
    | JVal (PStr []) \<Rightarrow> None
    | _ \<Rightarrow> (let t = py_lower (py_strip (j_str v)) in
           if t \<in> set [private_message_scope, instagram_comment_scope] then Some t else None))"

definition widget_channel :: "json \<Rightarrow> py_exc + string option" where
  "widget_channel v = (case v of
      JVal PNone \<Rightarrow> Inr None
    | JVal (PStr []) \<Rightarrow> Inr None
    | _ \<Rightarrow> (let t = py_lower (py_strip (j_str v)) in
           if is_template t then Inr None
           else if t \<in> set [''whatsapp'', ''instagram''] then Inr (Some t)
           else Inl (ValueError ''expected_channel'')))"

text \<open>The fields without a validator must be strings or absent.\<close>

definition plain_text :: "json \<Rightarrow> py_exc + string option" where
  "plain_text v = (case v of JVal PNone \<Rightarrow> Inr None | JVal (PStr s) \<Rightarrow> Inr (Some s) | _ \<Rightarrow> Inl (ValueError ''string_type''))"

record widget_data =
  wd_message :: "string option"
  wd_lead :: "string option"
  wd_contact :: "string option"
  wd_origin :: "string option"
  wd_author :: "string option"
  wd_author_url :: "string option"
  wd_sender :: "string option"
  wd_sender_url :: "string option"
  wd_interaction :: "string option"
  wd_channel :: "string option"
  wd_context :: "(string \<times> string) list"

definition public_comment_context_fields :: "string list" where
  "public_comment_context_fields = [''post_id'', ''comment_id'', ''parent_comment_id'', ''media_id'', ''post_url'',
     ''comment_url'', ''post_caption'', ''media_type'', ''media_product_type'', ''content_type'', ''post_text'',
     ''media_caption'', ''product_name'', ''post_product_name'', ''product_sku'', ''parent_sku'', ''image_url'',
     ''post_image_url'', ''post_media_url'']"

definition present :: "(string \<Rightarrow> string option) \<Rightarrow> string list \<Rightarrow> (string \<times> string) list" where
  "present f ks = concat (map (\<lambda>k. case f k of None \<Rightarrow> [] | Some v \<Rightarrow> [(k, v)]) ks)"

definition parse_widget_data :: "(string \<times> json) list \<Rightarrow> py_exc + widget_data" where
  "parse_widget_data d =
     (case plain_text (jget d ''message'') of
        Inl e \<Rightarrow> Inl e
      | Inr msg \<Rightarrow>
     (case plain_text (jget d ''origin'') of
        Inl e \<Rightarrow> Inl e
      | Inr origin \<Rightarrow>
     (case widget_channel (jget d ''expected_channel'') of
        Inl e \<Rightarrow> Inl e
      | Inr channel \<Rightarrow>
          (let b = (\<lambda>k. blank_to_none (jget d k)) in
           Inr \<lparr>wd_message = msg, wd_lead = b ''lead_id'', wd_contact = b ''contact_id'', wd_origin = origin,
                wd_author = b ''author_username'', wd_author_url = b ''author_profile_url'',
                wd_sender = b ''sender_username'', wd_sender_url = b ''sender_profile_url'',
                wd_interaction = widget_interaction (jget d ''interaction_type''), wd_channel = channel,
                wd_context = present b public_comment_context_fields\<rparr>))))"

section \<open>What the callback says\<close>

definition claim_as_str :: "(string \<times> json) list \<Rightarrow> string \<Rightarrow> string option" where
  "claim_as_str claims k = (case jget claims k of
      JVal PNone \<Rightarrow> None | JVal (PStr []) \<Rightarrow> None | v \<Rightarrow> Some (j_str v))"

definition safe_claim_keys :: "string list" where
  "safe_claim_keys = [''iss'', ''aud'', ''jti'', ''iat'', ''nbf'', ''exp'', ''account_id'', ''user_id'', ''subdomain'',
     ''client_uuid'', ''client_uid'', ''entity_id'', ''entity_type'']"

definition safe_claims :: "(string \<times> json) list \<Rightarrow> (string \<times> json) list" where
  "safe_claims claims = filter (\<lambda>kv. fst kv \<in> set safe_claim_keys) claims"

definition clean_widget_text :: "string \<Rightarrow> string" where
  "clean_widget_text v = (let t = py_strip (join_with '' '' (split_ws v)) in if is_template t then [] else t)"

definition clean_widget_id :: "string option \<Rightarrow> string option" where
  "clean_widget_id v = nonempty (clean_widget_text (opt_str v))"

definition clean_public_comment_context_value :: "string \<Rightarrow> string" where
  "clean_public_comment_context_value v = take 1000 (clean_widget_text v)"

definition public_comment_context_from_callback :: "widget_data \<Rightarrow> (string \<times> string) list" where
  "public_comment_context_from_callback d =
     filter (\<lambda>kv. snd kv \<noteq> []) (map (\<lambda>kv. (fst kv, clean_public_comment_context_value (snd kv))) (wd_context d))"

definition has_public_comment_context :: "widget_data \<Rightarrow> bool" where
  "has_public_comment_context d = list_ex (\<lambda>kv. clean_public_comment_context_value (snd kv) \<noteq> []) (wd_context d)"

record callback_values =
  cv_url :: string
  cv_entity :: string
  cv_entity_type :: string
  cv_contact :: "string option"
  cv_claims :: "(string \<times> json) list"
  cv_jti :: "string option"
  cv_iat :: rat
  cv_iat_text :: string
  cv_account :: "string option"
  cv_user :: "string option"
  cv_client :: "string option"
  cv_interaction :: string
  cv_channel :: "string option"
  cv_author :: "string option"
  cv_author_url :: "string option"
  cv_sender :: "string option"
  cv_sender_url :: "string option"

definition callback_values :: "widget_data \<Rightarrow> string \<Rightarrow> (string \<times> json) list \<Rightarrow> py_exc + callback_values" where
  "callback_values d url claims =
     (let et = jget claims ''entity_type''; entity = opt_str (claim_as_str claims ''entity_id'');
          inter = opt_str (opt_or (wd_interaction d) (Some private_message_scope)) in
      case et of
        JList _ _ \<Rightarrow> Inl (TypeError ''unhashable type'')
      | JObj _ _ \<Rightarrow> Inl (TypeError ''unhashable type'')
      | JVal tv \<Rightarrow>
          if tv \<notin> set [PStr ''leads'', PStr ''contacts''] \<or> entity = [] then Inl (ValueError ''missing_signed_entity_identity'')
          else if tv = PStr ''leads'' \<and> opt_str (wd_lead d) \<noteq> [] \<and> wd_lead d \<noteq> Some entity
          then Inl (ValueError ''widget_lead_id_mismatch'')
          else if tv = PStr ''contacts'' \<and> opt_str (wd_contact d) \<noteq> [] \<and> wd_contact d \<noteq> Some entity
          then Inl (ValueError ''widget_contact_id_mismatch'')
          else (case j_float (jget claims ''iat'') of
                  Inl _ \<Rightarrow> Inl (ValueError ''missing_signed_issued_at'')
                | Inr iat \<Rightarrow>
                    if iat \<le> 0 then Inl (ValueError ''invalid_signed_issued_at'')
                    else if has_public_comment_context d \<and> inter \<noteq> instagram_comment_scope
                    then Inl (ValueError ''comment_callback_interaction_type_mismatch'')
                    else if inter = instagram_comment_scope \<and> wd_channel d \<notin> set [None, Some ''instagram'']
                    then Inl (ValueError ''comment_callback_expected_channel_mismatch'')
                    else Inr \<lparr>cv_url = url, cv_entity = entity, cv_entity_type = py_str tv,
                           cv_contact = clean_widget_id (wd_contact d), cv_claims = safe_claims claims,
                           cv_jti = claim_as_str claims ''jti'', cv_iat = iat, cv_iat_text = j_str (jget claims ''iat''),
                           cv_account = claim_as_str claims ''account_id'', cv_user = claim_as_str claims ''user_id'',
                           cv_client = opt_or (claim_as_str claims ''client_uid'') (claim_as_str claims ''client_uuid''),
                           cv_interaction = inter, cv_channel = wd_channel d, cv_author = wd_author d,
                           cv_author_url = wd_author_url d, cv_sender = wd_sender d, cv_sender_url = wd_sender_url d\<rparr>))"

definition callback_comment_text :: "widget_data \<Rightarrow> py_exc + string" where
  "callback_comment_text d = (let t = py_strip (opt_str (wd_message d)) in
     if t = [] \<or> is_template t then Inl (ValueError ''missing_comment_message'') else Inr t)"

definition instagram_callback_origin :: "string option \<Rightarrow> string" where
  "instagram_callback_origin v = (let t = py_strip (opt_str v) in if t = [] \<or> is_template t then ''instagram'' else t)"

definition comment_callback_ids :: "(string \<Rightarrow> string) \<Rightarrow> callback_values \<Rightarrow> string \<Rightarrow> string \<times> string" where
  "comment_callback_ids sha v msg =
     (let digest = sha (join_with ''|'' [opt_str (cv_account v), cv_entity_type v, cv_entity v, cv_url v,
             opt_str (cv_jti v), cv_iat_text v, sha (normalize_message_text msg)]) in
      (''kommo:instagram_comment_callback:'' @ digest, ''kommo:instagram_comment:'' @ take 32 digest))"
section \<open>The job a callback belongs to\<close>

text \<open>\<open>callback_claims ->> 'iat'\<close>: the text of a JSON value.\<close>

definition json_text :: "json \<Rightarrow> string option" where
  "json_text v = (case v of JVal PNone \<Rightarrow> None | JVal (PBool b) \<Rightarrow> Some (if b then ''true'' else ''false'') | _ \<Rightarrow> Some (j_str v))"

definition claims_iat :: "kommo_job \<Rightarrow> string option" where
  "claims_iat j = (case jb_claims j of None \<Rightarrow> None | Some c \<Rightarrow> json_text (jget c ''iat''))"

definition same_callback :: "callback_values \<Rightarrow> kommo_job \<Rightarrow> bool" where
  "same_callback v j = (claims_iat j = Some (cv_iat_text v)
     \<and> (jb_url j = Some (cv_url v) \<or> (cv_jti v \<noteq> None \<and> jb_jti j = cv_jti v)))"

definition signed_entity :: "callback_values \<Rightarrow> kommo_job \<Rightarrow> bool" where
  "signed_entity v j = ((cv_entity_type v = ''leads'' \<and> jb_lead j = Some (cv_entity v))
     \<or> (cv_entity_type v = ''contacts'' \<and> jb_contact j = Some (cv_entity v)))"

definition widget_contact :: "callback_values \<Rightarrow> kommo_job \<Rightarrow> bool" where
  "widget_contact v j = (cv_contact v = None \<or> jb_contact j = cv_contact v)"

definition awaits_callback :: "callback_values \<Rightarrow> kommo_job \<Rightarrow> bool" where
  "awaits_callback v j = (jb_status j = JSalesbot
     \<and> (case jb_launched j of None \<Rightarrow> False | Some t \<Rightarrow> of_int t < cv_iat v + 1)
     \<and> signed_entity v j \<and> widget_contact v j \<and> jb_interaction j = cv_interaction v
     \<and> (cv_channel v = None \<or> jb_channel j = cv_channel v))"

definition callback_names :: "callback_values \<Rightarrow> kommo_names \<Rightarrow> kommo_names" where
  "callback_names v n = n\<lparr>kn_username := coalesce (cv_author v) (kn_username n),
     kn_url := coalesce (cv_author_url v) (kn_url n), kn_sender := coalesce (cv_sender v) (kn_sender n),
     kn_sender_url := coalesce (cv_sender_url v) (kn_sender_url n)\<rparr>"

definition called_back :: "int \<Rightarrow> callback_values \<Rightarrow> kommo_job \<Rightarrow> kommo_job" where
  "called_back now v j = j\<lparr>jb_url := Some (cv_url v), jb_status := JReady, jb_lease := None, jb_ai := None,
     jb_claims := Some (cv_claims v), jb_jti := cv_jti v, jb_account := cv_account v, jb_user := cv_user v,
     jb_client := cv_client v, jb_names := callback_names v (jb_names j), jb_updated := now\<rparr>"

text \<open>The last launched of the waiting jobs, unless some job has used the callback.\<close>

definition callback_target :: "callback_values \<Rightarrow> kommo_job list \<Rightarrow> kommo_job option" where
  "callback_target v t =
     (if list_ex (same_callback v) t then None
      else (case sort_key (\<lambda>j. - the (jb_launched j)) (sort_key (\<lambda>j. - jb_created j) (filter (awaits_callback v) t)) of
              [] \<Rightarrow> None | j # _ \<Rightarrow> Some j))"

definition find_job_for_callback_identity :: "callback_values \<Rightarrow> kommo_job list \<Rightarrow> kommo_job option" where
  "find_job_for_callback_identity v t = first_by (\<lambda>j. - jb_updated j) (same_callback v) t"

definition has_waiting_job_for_other_channel :: "callback_values \<Rightarrow> kommo_job list \<Rightarrow> bool" where
  "has_waiting_job_for_other_channel v t = list_ex (\<lambda>j. jb_status j = JSalesbot \<and> jb_interaction j = private_message_scope
     \<and> jb_channel j \<noteq> None \<and> cv_channel v \<noteq> None \<and> jb_channel j \<noteq> cv_channel v
     \<and> signed_entity v j \<and> widget_contact v j) t"

section \<open>A comment and its private copy\<close>

record meta_event =
  me_id :: string
  me_type :: string
  me_job :: "string option"
  me_hash :: string
  me_time :: int

text \<open>\<open>LOWER(REGEXP_REPLACE(BTRIM(x), '\s+', ' ', 'g'))\<close> of the database.\<close>

definition pg_space :: "char \<Rightarrow> bool" where
  "pg_space c = (let n = (of_char c :: nat) in (9 \<le> n \<and> n \<le> 13) \<or> n = 32)"

definition normalized_message_sql :: "string \<Rightarrow> string" where
  "normalized_message_sql s = py_lower (sub_runs pg_space '' '' (strip_chars '' '' s))"

definition comment_event :: "string \<Rightarrow> string \<Rightarrow> meta_event list \<Rightarrow> meta_event option" where
  "comment_event jid hash ms =
     (case sort_key me_time (sort_key me_id (filter (\<lambda>m. me_type m = ''comment'' \<and> me_job m = Some jid \<and> me_hash m = hash) ms)) of
        [] \<Rightarrow> None | m # _ \<Rightarrow> Some m)"

definition rat_dist :: "int \<Rightarrow> rat \<Rightarrow> rat" where
  "rat_dist t r = \<bar>of_int t - r\<bar>"

definition receipt_time :: "kommo_receipt \<Rightarrow> int" where
  "receipt_time r = (case kr_received r of None \<Rightarrow> kr_created r | Some t \<Rightarrow> t)"

definition nearest_receipt :: "string \<Rightarrow> string \<Rightarrow> rat \<Rightarrow> kommo_receipt list \<Rightarrow> kommo_receipt option" where
  "nearest_receipt jid hash ref rs =
     (case sort_key (\<lambda>r. rat_dist (receipt_time r) ref) (sort_key kr_created
             (filter (\<lambda>r. kr_job r = jid \<and> kr_channel r = Some ''instagram'' \<and> kr_interaction r = private_message_scope
                        \<and> kr_hash r = hash) rs)) of
        [] \<Rightarrow> None | r # _ \<Rightarrow> Some r)"

definition mirror_statuses :: "job_status list" where
  "mirror_statuses = [JPending, JPrepared, JProcessing, JSalesbot, JContext, JReady]"

record mirror_row =
  mr_id :: string
  mr_delta :: rat
  mr_receipt :: bool
  mr_meta :: bool

text \<open>A candidate and its distance in time from the comment: the time of its nearest receipt, or its own,
  against the time Meta gave the comment, or the time of the token.\<close>

definition mirror_row_of ::
    "(string \<Rightarrow> string) \<Rightarrow> meta_event list \<Rightarrow> kommo_db \<Rightarrow> string \<Rightarrow> rat \<Rightarrow> kommo_job \<Rightarrow> mirror_row" where
  "mirror_row_of sha ms db msg iat j =
     (let hash = sha (normalize_message_text msg);
          meta = comment_event (jb_id j) hash ms;
          ref = (case meta of None \<Rightarrow> iat | Some m \<Rightarrow> of_int (me_time m));
          receipt = nearest_receipt (jb_id j) hash ref (kj_receipts db) in
      \<lparr>mr_id = jb_id j,
       mr_delta = rat_dist (case receipt of None \<Rightarrow> jb_created j | Some r \<Rightarrow> receipt_time r) ref,
       mr_receipt = (receipt \<noteq> None), mr_meta = (meta \<noteq> None)\<rparr>)"

definition may_discard :: "kommo_job \<Rightarrow> bool" where
  "may_discard j = (jb_status j \<in> set mirror_statuses \<and> jb_payload j = None \<and> jb_persisted j = None)"

definition private_mirror :: "callback_values \<Rightarrow> string \<Rightarrow> kommo_job \<Rightarrow> bool" where
  "private_mirror v msg j = (jb_interaction j = private_message_scope \<and> jb_channel j = Some ''instagram'' \<and> may_discard j
     \<and> signed_entity v j \<and> normalized_message_sql (jb_message j) = msg)"

definition unique_best_mirror_candidate :: "mirror_row list \<Rightarrow> mirror_row option" where
  "unique_best_mirror_candidate rows =
     (case sort_key mr_delta (sort_key mr_id rows) of
        [] \<Rightarrow> None
      | best # others \<Rightarrow>
          if mr_meta best then Some best
          else if (case others of [] \<Rightarrow> False | r # _ \<Rightarrow> mr_delta r - mr_delta best \<le> 1) then None
          else if \<not> mr_meta best \<and> mr_delta best > 5 then None
          else if \<not> mr_receipt best \<and> mr_delta best > 5 then None
          else Some best)"

definition superseded_row :: "int \<Rightarrow> kommo_job \<Rightarrow> kommo_job" where
  "superseded_row now j = finished now JDiscarded (Some ''superseded_by_instagram_comment'') j"

definition send_begun :: "string \<Rightarrow> kommo_db \<Rightarrow> bool" where
  "send_begun jid db = list_ex (\<lambda>d. chats_of jid d \<and> ob_status d \<in> {OSending, OAccepted, OConfirmed, OUnknown}) (kj_outbound db)"

definition discard_superseded :: "int \<Rightarrow> string \<Rightarrow> kommo_db \<Rightarrow> bool \<times> kommo_db" where
  "discard_superseded now jid db =
     (let p = (\<lambda>j. jb_id j = jid \<and> may_discard j \<and> \<not> send_begun (jb_id j) db) in
      (list_ex p (kj_jobs db), set_jobs p (superseded_row now) db))"

definition comment_mirror_window_seconds :: "int option \<Rightarrow> int" where
  "comment_mirror_window_seconds configured = (case configured of None \<Rightarrow> 45 | Some n \<Rightarrow> max 5 (min n 300))"

definition discard_recent_private_jobs ::
    "int \<Rightarrow> (string \<Rightarrow> string) \<Rightarrow> int option \<Rightarrow> meta_event list \<Rightarrow> callback_values \<Rightarrow> string \<Rightarrow> kommo_db \<Rightarrow> nat \<times> kommo_db" where
  "discard_recent_private_jobs now sha window ms v msg db =
     (if msg = [] then (0, db)
      else (let rows = filter (\<lambda>r. mr_delta r \<le> of_int (comment_mirror_window_seconds window))
                         (map (mirror_row_of sha ms db msg (cv_iat v)) (filter (private_mirror v msg) (kj_jobs db))) in
            case unique_best_mirror_candidate rows of
              None \<Rightarrow> (0, db)
            | Some r \<Rightarrow> (case discard_superseded now (mr_id r) db of (b, db') \<Rightarrow> (if b then 1 else 0, db'))))"

definition find_duplicate_comment_callback_job ::
    "int \<Rightarrow> string \<Rightarrow> callback_values \<Rightarrow> string \<Rightarrow> kommo_job list \<Rightarrow> kommo_job option" where
  "find_duplicate_comment_callback_job now ext v msg t =
     first_by (\<lambda>j. - jb_created j) (\<lambda>j. jb_interaction j = instagram_comment_scope
       \<and> (jb_external j = Some ext
          \<or> (cv_jti v \<noteq> None \<and> jb_jti j = cv_jti v \<and> claims_iat j = Some (cv_iat_text v))
          \<or> (jb_created j \<ge> now - 300 \<and> signed_entity v j \<and> normalized_message_sql (jb_message j) = msg
             \<and> jb_url j = Some (cv_url v) \<and> claims_iat j = Some (cv_iat_text v)))) t"
section \<open>Answering a callback\<close>

record context_config =
  xc_comments :: bool
  xc_wait :: int
  xc_window :: "int option"

definition comment_job :: "int \<Rightarrow> string \<Rightarrow> context_config \<Rightarrow> widget_data \<Rightarrow> callback_values \<Rightarrow> string \<Rightarrow> string \<Rightarrow> string \<Rightarrow> kommo_job" where
  "comment_job now new_id cfg d v msg ext correlation = (blank_job now new_id correlation)
     \<lparr>jb_external := Some ext,
      jb_lead := (if cv_entity_type v = ''leads'' then Some (cv_entity v) else None),
      jb_contact := (if cv_entity_type v = ''contacts'' then Some (cv_entity v) else None),
      jb_origin := Some (instagram_callback_origin (wd_origin d)), jb_channel := Some ''instagram'',
      jb_names := \<lparr>kn_name = None, kn_username = cv_author v, kn_url = cv_author_url v, kn_sender = cv_sender v,
                   kn_sender_url = cv_sender_url v\<rparr>,
      jb_interaction := instagram_comment_scope, jb_message := msg, jb_url := Some (cv_url v),
      jb_status := (if xc_comments cfg then JContext else JReady),
      jb_context := (if xc_comments cfg then ''pending'' else ''not_required''),
      jb_deadline := (if xc_comments cfg then Some (now + xc_wait cfg) else None),
      jb_claims := Some (cv_claims v), jb_public := map (\<lambda>kv. (fst kv, JVal (PStr (snd kv)))) (public_comment_context_from_callback d), jb_jti := cv_jti v,
      jb_account := cv_account v, jb_user := cv_user v, jb_client := cv_client v\<rparr>"

definition callback_receipt :: "int \<Rightarrow> (string \<Rightarrow> string) \<Rightarrow> kommo_job \<Rightarrow> kommo_receipt" where
  "callback_receipt now sha j = \<lparr>kr_message = opt_str (jb_external j), kr_job = jb_id j, kr_correlation = jb_correlation j,
     kr_lead = jb_lead j, kr_contact = jb_contact j, kr_chat = None, kr_talk = None, kr_author = None,
     kr_origin = jb_origin j, kr_channel = jb_channel j, kr_interaction = jb_interaction j, kr_status = ''created'',
     kr_received = None, kr_text = jb_message j, kr_hash = sha (normalize_message_text (jb_message j)), kr_created = now\<rparr>"

datatype callback_result = CB_Ready string | CB_Waiting string | CB_Duplicate string | CB_Ignored string

text \<open>One transaction: an exception takes back the discarding too.\<close>

definition create_ready_comment_job ::
    "int \<Rightarrow> string \<Rightarrow> (string \<Rightarrow> string) \<Rightarrow> context_config \<Rightarrow> meta_event list \<Rightarrow> widget_data \<Rightarrow> callback_values \<Rightarrow> kommo_db
     \<Rightarrow> (py_exc + callback_result) \<times> kommo_db" where
  "create_ready_comment_job now new_id sha cfg ms d v db =
     (case callback_comment_text d of
        Inl e \<Rightarrow> (Inl e, db)
      | Inr msg \<Rightarrow>
          (let (ext, correlation) = comment_callback_ids sha v msg;
               norm = normalize_message_text msg;
               db1 = snd (discard_recent_private_jobs now sha (xc_window cfg) ms v norm db) in
           case find_duplicate_comment_callback_job now ext v norm (kj_jobs db1) of
             Some j \<Rightarrow> (Inr (CB_Duplicate (jb_id j)), db1)
           | None \<Rightarrow>
               (let j = comment_job now new_id cfg d v msg ext correlation in
                case store_jobs (kj_jobs db1 @ [j]) db1 of
                  (Inl x, _) \<Rightarrow> (Inl x, db)
                | (Inr _, db2) \<Rightarrow>
                    (Inr (if xc_comments cfg then CB_Waiting new_id else CB_Ready new_id),
                     add_receipt (callback_receipt now sha j) db2))))"

definition answer_callback ::
    "int \<Rightarrow> string \<Rightarrow> (string \<Rightarrow> string) \<Rightarrow> context_config \<Rightarrow> meta_event list \<Rightarrow> widget_data \<Rightarrow> callback_values \<Rightarrow> kommo_db
     \<Rightarrow> (py_exc + callback_result) \<times> kommo_db" where
  "answer_callback now new_id sha cfg ms d v db =
     (case callback_target v (kj_jobs db) of
        Some j \<Rightarrow> (Inr (CB_Ready (jb_id j)), set_jobs (by_id (jb_id j)) (called_back now v) db)
      | None \<Rightarrow>
          if cv_interaction v = instagram_comment_scope
          then (case find_job_for_callback_identity v (kj_jobs db) of
                  Some j \<Rightarrow> (Inr (CB_Duplicate (jb_id j)), db)
                | None \<Rightarrow> create_ready_comment_job now new_id sha cfg ms d v db)
          else if opt_str (cv_channel v) \<noteq> [] \<and> has_waiting_job_for_other_channel v (kj_jobs db)
          then (Inr (CB_Ignored ''expected_channel_mismatch''), db)
          else (case find_job_for_callback_identity v (kj_jobs db) of
                  Some j \<Rightarrow> if jb_status j \<in> set (terminal_statuses @ active_statuses)
                            then (Inr (CB_Duplicate (jb_id j)), db) else (Inr (CB_Ignored ''no_waiting_job''), db)
                | None \<Rightarrow> (Inr (CB_Ignored ''no_waiting_job''), db)))"

definition persist_salesbot_callback ::
    "int \<Rightarrow> string \<Rightarrow> (string \<Rightarrow> string) \<Rightarrow> context_config \<Rightarrow> meta_event list \<Rightarrow> widget_data \<Rightarrow> string \<Rightarrow> (string \<times> json) list
     \<Rightarrow> kommo_db \<Rightarrow> (py_exc + callback_result) \<times> kommo_db" where
  "persist_salesbot_callback now new_id sha cfg ms d url claims db =
     (case callback_values d url claims of
        Inl e \<Rightarrow> (Inl e, db)
      | Inr v \<Rightarrow> answer_callback now new_id sha cfg ms d v db)"

section \<open>A private job whose comment has a job of its own\<close>

text \<open>The time of a comment job: Meta's, that of the token when it is a plain number, or its own.\<close>

definition plain_number :: "string \<Rightarrow> rat option" where
  "plain_number s = (case span_digits s of (a, r) \<Rightarrow>
     (if a = [] then None
      else (case r of [] \<Rightarrow> parse_unsigned s
            | c # f \<Rightarrow> if c = CHR ''.'' \<and> f \<noteq> [] \<and> list_all is_digit f then parse_unsigned s else None)))"

definition comment_time :: "string \<Rightarrow> meta_event list \<Rightarrow> kommo_job \<Rightarrow> rat" where
  "comment_time hash ms j = (case comment_event (jb_id j) hash ms of
      Some m \<Rightarrow> of_int (me_time m)
    | None \<Rightarrow> (case (case claims_iat j of None \<Rightarrow> None | Some t \<Rightarrow> plain_number t) of
                 Some q \<Rightarrow> q | None \<Rightarrow> of_int (jb_created j)))"

definition job_entity_match :: "kommo_job \<Rightarrow> kommo_job \<Rightarrow> bool" where
  "job_entity_match job c = ((opt_str (jb_lead job) \<noteq> [] \<and> jb_lead c = jb_lead job)
     \<or> (opt_str (jb_contact job) \<noteq> [] \<and> jb_contact c = jb_contact job))"

definition comment_copy :: "string \<Rightarrow> kommo_job \<Rightarrow> kommo_job \<Rightarrow> bool" where
  "comment_copy msg job c = (jb_interaction c = instagram_comment_scope \<and> jb_channel c = Some ''instagram''
     \<and> jb_status c \<notin> {JDiscarded, JFailed} \<and> job_entity_match job c \<and> normalized_message_sql (jb_message c) = msg)"

definition comment_times :: "(string \<Rightarrow> string) \<Rightarrow> meta_event list \<Rightarrow> string \<Rightarrow> kommo_job \<Rightarrow> kommo_db \<Rightarrow> rat list" where
  "comment_times sha ms msg job db =
     (let hash = sha (normalize_message_text msg) in
      map (comment_time hash ms) (filter (comment_copy msg job) (kj_jobs db))
      @ map (\<lambda>m. of_int (me_time m)) (filter (\<lambda>m. me_type m = ''comment'' \<and> me_job m = Some (jb_id job) \<and> me_hash m = hash) ms))"

definition discard_private_job_if_superseded ::
    "int \<Rightarrow> (string \<Rightarrow> string) \<Rightarrow> int option \<Rightarrow> meta_event list \<Rightarrow> kommo_job \<Rightarrow> kommo_db \<Rightarrow> bool \<times> kommo_db" where
  "discard_private_job_if_superseded now sha window ms job db =
     (let msg = normalize_message_text (jb_message job) in
      if \<not> is_instagram_private_message_job job \<or> msg = [] then (False, db)
      else if list_ex (\<lambda>t. rat_dist (jb_created job) t \<le> of_int (comment_mirror_window_seconds window))
                (comment_times sha ms msg job db)
      then discard_superseded now (jb_id job) db
      else (False, db))"

end
