(* ===== verification/Kommo_Delivery.thy ===== *)
theory Kommo_Delivery
  imports Kommo_Jobs
begin

text \<open>
  Outbound messages, \<open>integrations/kommo/delivery.py\<close>: the delivery row that is claimed before a message
  is sent and records what came of it, direct text, media, and the monthly usage. The service that sends a
  message, the preparation and upload of media, the hash function and the calendar month of a time are
  arguments. Sent messages are kept in order in the state.
\<close>

section \<open>Errors and answers\<close>

datatype delivery_error =
    Delivery_State string
  | Delivery_Aborted string
  | Delivery_Unsure string
  | Delivery_Partial string "attachment list" "string list"
  | Delivery_API api_error
  | Delivery_Other string

datatype send_answer = Sent_Response json | Sent_Error delivery_error

text \<open>A file in the drive of the service: its identifiers, name, MIME type and size.\<close>

record uploaded_file =
  uf_drive :: string
  uf_version :: string
  uf_name :: string
  uf_mime :: string
  uf_size :: int

record talk_message =
  tk_job :: string
  tk_print :: string
  tk_talk :: string
  tk_text :: "string option"
  tk_file :: "(uploaded_file \<times> string) option"

text \<open>The tables and the calls made so far: messages sent, Salesbots launched for a job, replies generated for
  a job, and the data a Salesbot was continued with for a job.\<close>

record kommo_world =
  kw_db :: kommo_db
  kw_out :: "talk_message list"
  kw_launched :: "string list"
  kw_replies :: "string list"
  kw_continued :: "(string \<times> json) list"

record delivery_result =
  dr_transport :: string
  dr_text :: string
  dr_attachments :: "attachment list"
  dr_ids :: "string list"

record delivery_claim =
  dm_status :: outbound_status
  dm_provider :: "string option"
  dm_send :: bool

section \<open>Claiming a delivery\<close>

definition request_row :: "string \<Rightarrow> string \<Rightarrow> outbound \<Rightarrow> bool" where
  "request_row jid print d = (chats_of jid d \<and> ob_print d = Some print)"

text \<open>Another message of the job that was sent, or may have been.\<close>

definition conflicting :: "string \<Rightarrow> string \<Rightarrow> bool \<Rightarrow> outbound \<Rightarrow> bool" where
  "conflicting jid print allow d = (chats_of jid d \<and> ob_print d \<noteq> Some print
     \<and> (ob_status d \<in> {OSending, OAccepted, OConfirmed, OUnknown}
        \<or> ((case ob_attempts d of None \<Rightarrow> False | Some n \<Rightarrow> 1 \<le> n)
            \<and> \<not> (allow \<and> ob_status d = OFailed \<and> ob_provider d \<noteq> None
                   \<and> starts_with ''Kommo provider delivery_status=error'' (opt_str (ob_error d))))))"

definition fenced_job :: "string \<Rightarrow> string option \<Rightarrow> kommo_job \<Rightarrow> bool" where
  "fenced_job jid lease j = (held jid JProcessing lease j \<and> stored_direct j)"

definition allows_provider_error_fallback :: "(string \<times> string) list \<Rightarrow> kommo_job \<Rightarrow> bool" where
  "allows_provider_error_fallback meta j = (map_of meta ''delivery_purpose'' = Some ''provider_error_fallback''
     \<and> (case jb_assistant j of None \<Rightarrow> False | Some a \<Rightarrow> pa_fallback a))"

definition fence_error ::
    "string \<Rightarrow> string \<Rightarrow> (string \<times> string) list \<Rightarrow> string option \<Rightarrow> kommo_db \<Rightarrow> delivery_error option" where
  "fence_error jid print meta lease db =
     (case find (fenced_job jid lease) (kj_jobs db) of
        None \<Rightarrow> Some (Delivery_Aborted ''Kommo direct delivery aborted because its processing lease was lost'')
      | Some j \<Rightarrow>
          if list_ex (conflicting jid print (allows_provider_error_fallback meta j)) (kj_outbound db)
          then Some (Delivery_Aborted ''Kommo direct delivery aborted because another customer send already began'')
          else None)"

definition new_outbound :: "int \<Rightarrow> string \<Rightarrow> string \<Rightarrow> string \<Rightarrow> (string \<times> string) list \<Rightarrow> outbound" where
  "new_outbound now jid media print meta = \<lparr>ob_job = jid, ob_transport = ''chats_api'', ob_media = Some media,
     ob_status = OPrepared, ob_provider = None, ob_print = Some print, ob_meta = meta, ob_attempts = None,
     ob_month = None, ob_accepted = None, ob_confirmed = None, ob_error = None, ob_created = now, ob_updated = now\<rparr>"

definition insert_outbound :: "outbound \<Rightarrow> kommo_db \<Rightarrow> kommo_db" where
  "insert_outbound d db =
     (if list_ex (\<lambda>r. ob_job r = ob_job d \<and> ob_transport r = ob_transport d \<and> ob_print r = ob_print d) (kj_outbound db)
      then db else db\<lparr>kj_outbound := kj_outbound db @ [d]\<rparr>)"

definition may_send :: "bool \<Rightarrow> outbound \<Rightarrow> bool" where
  "may_send fence d = (ob_status d = OPrepared \<or> (ob_status d = OFailed \<and> (\<not> fence \<or> ob_provider d = None)))"

definition sends_before :: "(int \<Rightarrow> int) \<Rightarrow> int \<Rightarrow> outbound \<Rightarrow> nat" where
  "sends_before month now d =
     (let this = (month now \<le> month (ob_updated d)) in
      case ob_attempts d of
        Some n \<Rightarrow> if ob_month d = Some (month now) \<or> (ob_month d = None \<and> this) then n
                  else if ob_status d = OFailed \<and> this then 1 else 0
      | None \<Rightarrow> if ob_status d = OFailed \<and> this then 1 else 0)"

definition sending_row :: "(int \<Rightarrow> int) \<Rightarrow> int \<Rightarrow> (string \<times> string) list \<Rightarrow> outbound \<Rightarrow> outbound" where
  "sending_row month now meta d = d\<lparr>ob_status := OSending, ob_meta := meta,
     ob_attempts := Some (sends_before month now d + 1), ob_month := Some (month now), ob_provider := None,
     ob_accepted := None, ob_error := None, ob_updated := now\<rparr>"

definition claim_outbound ::
    "(int \<Rightarrow> int) \<Rightarrow> int \<Rightarrow> string \<Rightarrow> string \<Rightarrow> string \<Rightarrow> (string \<times> string) list \<Rightarrow> string option \<Rightarrow> bool \<Rightarrow> kommo_db
     \<Rightarrow> (delivery_error + delivery_claim) \<times> kommo_db" where
  "claim_outbound month now jid media print meta lease fence db =
     (case (if \<not> fence then None
            else if opt_str lease = [] then Some (Delivery_Aborted ''Kommo direct delivery requires an active processing lease'')
            else fence_error jid print meta lease db) of
        Some e \<Rightarrow> (Inl e, db)
      | None \<Rightarrow>
          (let db1 = insert_outbound (new_outbound now jid media print meta) db;
               p = (\<lambda>d. request_row jid print d \<and> may_send fence d) in
           if list_ex p (kj_outbound db1)
           then (Inr \<lparr>dm_status = OSending, dm_provider = None, dm_send = True\<rparr>, set_outbound p (sending_row month now meta) db1)
           else (case find (request_row jid print) (kj_outbound db1) of
                   None \<Rightarrow> (Inl (Delivery_State ''Kommo delivery claim could not be established''), db)
                 | Some d \<Rightarrow> (Inr \<lparr>dm_status = ob_status d, dm_provider = opt_or (ob_provider d) None, dm_send = False\<rparr>, db1))))"

section \<open>Sending\<close>

definition is_definitive_failure :: "delivery_error \<Rightarrow> bool" where
  "is_definitive_failure e = (case e of Delivery_API (API_Error _ (Some c)) \<Rightarrow> c < 500 \<and> c \<noteq> 408 | _ \<Rightarrow> False)"

fun delivery_error_text :: "delivery_error \<Rightarrow> string" where
  "delivery_error_text (Delivery_State m) = m"
| "delivery_error_text (Delivery_Aborted m) = m"
| "delivery_error_text (Delivery_Unsure m) = m"
| "delivery_error_text (Delivery_Partial _ _ _) = ''Kommo media response was only partially delivered''"
| "delivery_error_text (Delivery_API (API_Error m _)) = m"
| "delivery_error_text (Delivery_Other m) = m"

definition in_sending :: "string \<Rightarrow> string \<Rightarrow> outbound \<Rightarrow> bool" where
  "in_sending jid print d = (request_row jid print d \<and> ob_status d = OSending)"

definition mark_delivery_error ::
    "int \<Rightarrow> string \<Rightarrow> string \<Rightarrow> outbound_status \<Rightarrow> delivery_error \<Rightarrow> kommo_db \<Rightarrow> kommo_db" where
  "mark_delivery_error now jid print st e db = set_outbound (in_sending jid print)
     (\<lambda>d. d\<lparr>ob_status := st, ob_error := Some (sanitize_kommo_error (delivery_error_text e)), ob_updated := now\<rparr>) db"

definition response_message_id :: "send_answer \<Rightarrow> delivery_error + string" where
  "response_message_id a = (case a of
      Sent_Error e \<Rightarrow> Inl e
    | Sent_Response (JObj d _) \<Rightarrow>
        (case jget d ''id'' of
           JVal (PStr s) \<Rightarrow> if py_strip s \<noteq> [] then Inr (py_strip s)
             else Inl (Delivery_API (API_Error ''Kommo send-message response is missing the message ID'' None))
         | _ \<Rightarrow> Inl (Delivery_API (API_Error ''Kommo send-message response is missing the message ID'' None)))
    | Sent_Response _ \<Rightarrow> Inl (Delivery_API (API_Error ''Kommo send-message response is missing the message ID'' None)))"

text \<open>The provider's message id is unique among the rows of the transport.\<close>

definition accept_delivery :: "int \<Rightarrow> string \<Rightarrow> string \<Rightarrow> string \<Rightarrow> kommo_db \<Rightarrow> (delivery_error + string) \<times> kommo_db" where
  "accept_delivery now jid print mid db =
     (if list_ex (in_sending jid print) (kj_outbound db)
      then (if list_ex (\<lambda>d. ob_transport d = ''chats_api'' \<and> ob_provider d = Some mid \<and> \<not> in_sending jid print d) (kj_outbound db)
            then (Inl (Delivery_Unsure ''Kommo accepted the Chats API send but its delivery state could not be persisted''), db)
            else (Inr mid, set_outbound (in_sending jid print)
                    (\<lambda>d. d\<lparr>ob_status := OAccepted, ob_provider := Some mid, ob_accepted := Some now, ob_error := None,
                          ob_updated := now\<rparr>) db))
      else (Inl (Delivery_State ''Kommo delivery acceptance could not be persisted''), db))"

definition send_claimed_delivery ::
    "int \<Rightarrow> (talk_message list \<Rightarrow> talk_message \<Rightarrow> send_answer) \<Rightarrow> talk_message \<Rightarrow> kommo_world
     \<Rightarrow> (delivery_error + string) \<times> kommo_world" where
  "send_claimed_delivery now send m w =
     (let a = response_message_id (send (kw_out w) m);
          w1 = w\<lparr>kw_out := kw_out w @ [m]\<rparr>;
          jid = tk_job m; print = tk_print m in
      case a of
        Inl e \<Rightarrow>
          (let st = (if is_definitive_failure e then OFailed else OUnknown) in
           (Inl (if st = OUnknown then Delivery_Unsure (sanitize_kommo_error (delivery_error_text e)) else e),
            w1\<lparr>kw_db := mark_delivery_error now jid print st e (kw_db w1)\<rparr>))
      | Inr mid \<Rightarrow> (case accept_delivery now jid print mid (kw_db w1) of (r, db) \<Rightarrow> (r, w1\<lparr>kw_db := db\<rparr>)))"

fun outbound_text :: "outbound_status \<Rightarrow> string" where
  "outbound_text OPending = ''pending''"
| "outbound_text OPrepared = ''prepared''"
| "outbound_text OSending = ''sending''"
| "outbound_text OAccepted = ''accepted''"
| "outbound_text OConfirmed = ''confirmed''"
| "outbound_text OFailed = ''failed''"
| "outbound_text OUnknown = ''delivery_unknown''"

text \<open>From the claim to the provider's message id: an earlier acceptance is reused, anything unclear is
  not sent again.\<close>

definition deliver_claimed ::
    "(int \<Rightarrow> int) \<Rightarrow> int \<Rightarrow> (talk_message list \<Rightarrow> talk_message \<Rightarrow> send_answer) \<Rightarrow> string \<Rightarrow> (string \<times> string) list
     \<Rightarrow> string option \<Rightarrow> bool \<Rightarrow> talk_message \<Rightarrow> kommo_world \<Rightarrow> (delivery_error + string) \<times> kommo_world" where
  "deliver_claimed month now send media meta lease fence m w =
     (case claim_outbound month now (tk_job m) media (tk_print m) meta lease fence (kw_db w) of
        (Inl e, db) \<Rightarrow> (Inl e, w\<lparr>kw_db := db\<rparr>)
      | (Inr c, db) \<Rightarrow>
          (let w1 = w\<lparr>kw_db := db\<rparr> in
           if dm_status c \<in> {OAccepted, OConfirmed}
           then ((case dm_provider c of
                    None \<Rightarrow> Inl (Delivery_State (''Kommo delivery '' @ tk_print m @ '' is '' @ outbound_text (dm_status c)
                           @ '' without a provider message ID''))
                  | Some i \<Rightarrow> Inr i), w1)
           else if dm_status c = OSending \<and> dm_send c then send_claimed_delivery now send m w1
           else (Inl (Delivery_State (''Kommo delivery '' @ tk_print m @ '' is '' @ outbound_text (dm_status c)
                 @ ''; refusing an unsafe resend'')), w1)))"
section \<open>Requests\<close>

definition quoted :: "string \<Rightarrow> string" where
  "quoted s = [CHR 0x22] @ s @ [CHR 0x22]"

definition json_pair :: "string \<Rightarrow> string \<Rightarrow> string" where
  "json_pair k v = quoted k @ '':'' @ v"

definition json_object :: "string list \<Rightarrow> string" where
  "json_object ps = ''{'' @ join_with '','' ps @ ''}''"

text \<open>The hash of the request, as JSON with sorted keys; the values need no escapes.\<close>

definition text_request_fingerprint :: "(string \<Rightarrow> string) \<Rightarrow> string \<Rightarrow> string \<Rightarrow> string \<Rightarrow> string \<Rightarrow> string" where
  "text_request_fingerprint sha jid talk text_hash purpose = sha (json_object
     [json_pair ''delivery_purpose'' (quoted purpose), json_pair ''delivery_type'' (quoted ''text''),
      json_pair ''job_id'' (quoted jid), json_pair ''talk_id'' (quoted talk), json_pair ''text_hash'' (quoted text_hash)])"

record media_request =
  mq_type :: string
  mq_key :: string
  mq_attachment :: string
  mq_semantic :: attachment

definition request_fingerprint ::
    "(string \<Rightarrow> string) \<Rightarrow> string \<Rightarrow> string \<Rightarrow> media_request \<Rightarrow> string \<Rightarrow> nat \<Rightarrow> string" where
  "request_fingerprint sha jid talk q text position = sha (json_object
     [json_pair ''attachment_type'' (quoted (mq_attachment q)), json_pair ''cache_key'' (quoted (mq_key q)),
      json_pair ''job_id'' (quoted jid), json_pair ''media_type'' (quoted (mq_type q)),
      json_pair ''position'' (show_nat position), json_pair ''talk_id'' (quoted talk),
      json_pair ''text_hash'' (quoted (sha text))])"

definition validated_talk_id :: "string option \<Rightarrow> delivery_error + string" where
  "validated_talk_id v = (case parse_int (case v of None \<Rightarrow> ''None'' | Some s \<Rightarrow> s) of
      None \<Rightarrow> Inl (Delivery_API (API_Error ''Kommo talk ID is invalid'' None))
    | Some i \<Rightarrow> if i \<le> 0 then Inl (Delivery_API (API_Error ''Kommo talk ID is invalid'' None)) else Inr (show_int i))"

definition salesbot_result :: "string \<Rightarrow> delivery_result" where
  "salesbot_result text = \<lparr>dr_transport = ''salesbot'', dr_text = text, dr_attachments = [], dr_ids = []\<rparr>"

record delivery_env =
  de_now :: int
  de_month :: "int \<Rightarrow> int"
  de_sha :: "string \<Rightarrow> string"
  de_send :: "talk_message list \<Rightarrow> talk_message \<Rightarrow> send_answer"

definition deliver_direct_text ::
    "delivery_env \<Rightarrow> kommo_job \<Rightarrow> string \<Rightarrow> string \<Rightarrow> kommo_world \<Rightarrow> (delivery_error + delivery_result) \<times> kommo_world" where
  "deliver_direct_text env job text purpose w =
     (if text = [] then (Inl (Delivery_API (API_Error ''Kommo direct text delivery requires a message'' None)), w)
      else if py_strip (jb_id job) = []
      then (Inl (Delivery_API (API_Error ''Kommo direct text delivery requires a durable job ID'' None)), w)
      else (case validated_talk_id (jb_talk job) of
              Inl e \<Rightarrow> (Inl e, w)
            | Inr talk \<Rightarrow>
               (let jid = py_strip (jb_id job); h = de_sha env text;
                    print = text_request_fingerprint (de_sha env) jid talk h purpose;
                    meta = [(''delivery_type'', ''text''), (''talk_id'', talk), (''text_hash'', h), (''delivery_purpose'', purpose)];
                    m = \<lparr>tk_job = jid, tk_print = print, tk_talk = talk, tk_text = Some text, tk_file = None\<rparr> in
                case deliver_claimed (de_month env) (de_now env) (de_send env) ''text'' meta (jb_lease job) True m w of
                  (Inl e, w') \<Rightarrow> (Inl e, w')
                | (Inr i, w') \<Rightarrow>
                    (Inr \<lparr>dr_transport = ''chats_api'', dr_text = text, dr_attachments = [], dr_ids = [i]\<rparr>, w'))))"

section \<open>Media\<close>

text \<open>The channel is compared without case here, unlike in the job processor.\<close>

definition delivers_direct :: "kommo_job \<Rightarrow> bool" where
  "delivers_direct j = (py_lower (py_strip (opt_str (jb_channel j))) = ''instagram''
     \<and> py_lower (py_strip (jb_interaction j)) = private_message_scope)"

definition product_image_payload :: "(string \<times> json) list \<Rightarrow> (string \<times> json) list option" where
  "product_image_payload result = (case jget result ''product_image'' of
      JObj d _ \<Rightarrow> if jget d ''type'' \<noteq> JVal (PStr ''product_image'') then None
                  else (case jget d ''image_url'' of JVal (PStr u) \<Rightarrow> if py_strip u \<noteq> [] then Some d else None | _ \<Rightarrow> None)
    | _ \<Rightarrow> None)"

definition catalog_pdf_payload :: "(string \<times> json) list \<Rightarrow> (string \<times> json) list option" where
  "catalog_pdf_payload result = (case jget result ''catalog_pdf'' of
      JObj d _ \<Rightarrow> if jget d ''type'' = JVal (PStr ''catalog_pdf'') then Some d else None | _ \<Rightarrow> None)"

record media_config =
  mc_media :: bool
  mc_images :: bool
  mc_pdf :: bool
  mc_pdf_type :: "string option"

definition media_allowed :: "media_config \<Rightarrow> kommo_job \<Rightarrow> bool" where
  "media_allowed cfg j = (py_lower (py_strip (opt_str (jb_channel j))) \<in> set [''instagram'', ''whatsapp'']
     \<and> py_lower (py_strip (if jb_interaction j = [] then private_message_scope else jb_interaction j)) = private_message_scope
     \<and> mc_media cfg)"

definition image_enabled :: "media_config \<Rightarrow> kommo_job \<Rightarrow> (string \<times> json) list \<Rightarrow> bool" where
  "image_enabled cfg j result = (media_allowed cfg j \<and> product_image_payload result \<noteq> None \<and> mc_images cfg)"

definition pdf_enabled :: "media_config \<Rightarrow> kommo_job \<Rightarrow> (string \<times> json) list \<Rightarrow> bool" where
  "pdf_enabled cfg j result = (media_allowed cfg j \<and> py_lower (py_strip (opt_str (jb_channel j))) = ''whatsapp''
     \<and> catalog_pdf_payload result \<noteq> None \<and> mc_pdf cfg)"

definition get_enabled_media_types :: "media_config \<Rightarrow> kommo_job \<Rightarrow> (string \<times> json) list \<Rightarrow> string list" where
  "get_enabled_media_types cfg j result =
     (if image_enabled cfg j result then [''product_image''] else [])
     @ (if pdf_enabled cfg j result then [''catalog_pdf''] else [])"

text \<open>The requests of a response, and for each the file in the drive with the hash of its content:
  \<open>build\<close> and \<open>upload\<close> stand for \<open>files.py\<close> and the catalog document.\<close>

record media_source =
  ms_build :: "bool \<Rightarrow> bool \<Rightarrow> delivery_error + media_request list"
  ms_upload :: "media_request \<Rightarrow> delivery_error + uploaded_file \<times> string"

definition media_metadata :: "media_request \<Rightarrow> uploaded_file \<Rightarrow> string \<Rightarrow> (string \<times> string) list" where
  "media_metadata q f content_hash = [(''media_type'', mq_type q), (''cache_key'', mq_key q),
     (''content_hash'', content_hash), (''drive_uuid'', uf_drive f), (''drive_version_uuid'', uf_version f),
     (''file_name'', uf_name f), (''mime_type'', uf_mime f), (''file_size'', show_int (uf_size f)),
     (''attachment_type'', mq_attachment q)]"

definition deliver_one_media ::
    "delivery_env \<Rightarrow> media_source \<Rightarrow> kommo_job \<Rightarrow> string \<Rightarrow> string \<Rightarrow> nat \<Rightarrow> media_request \<Rightarrow> kommo_world
     \<Rightarrow> (delivery_error + string) \<times> kommo_world" where
  "deliver_one_media env src job talk text position q w =
     (case ms_upload src q of
        Inl e \<Rightarrow> (Inl e, w)
      | Inr (f, content_hash) \<Rightarrow>
          (let send_text = (if position = 0 then text else []);
               print = request_fingerprint (de_sha env) (jb_id job) talk q send_text position;
               m = \<lparr>tk_job = jb_id job, tk_print = print, tk_talk = talk, tk_text = nonempty send_text,
                    tk_file = Some (f, mq_attachment q)\<rparr> in
           deliver_claimed (de_month env) (de_now env) (de_send env) (mq_type q) (media_metadata q f content_hash)
             (jb_lease job) (delivers_direct job) m w))"

fun deliver_media ::
    "delivery_env \<Rightarrow> media_source \<Rightarrow> kommo_job \<Rightarrow> string \<Rightarrow> string \<Rightarrow> nat \<Rightarrow> media_request list \<Rightarrow> attachment list \<Rightarrow> string list
     \<Rightarrow> kommo_world \<Rightarrow> (delivery_error + delivery_result) \<times> kommo_world" where
  "deliver_media env src job talk text position [] done ids w =
     (Inr \<lparr>dr_transport = ''chats_api'', dr_text = text, dr_attachments = done, dr_ids = ids\<rparr>, w)"
| "deliver_media env src job talk text position (q # qs) done ids w =
     (case deliver_one_media env src job talk text position q w of
        (Inl e, w') \<Rightarrow> (Inl (if ids = [] then e else Delivery_Partial text done ids), w')
      | (Inr i, w') \<Rightarrow> deliver_media env src job talk text (position + 1) qs (done @ [mq_semantic q]) (ids @ [i]) w')"

definition deliver_response ::
    "delivery_env \<Rightarrow> media_config \<Rightarrow> media_source \<Rightarrow> kommo_job \<Rightarrow> string \<Rightarrow> (string \<times> json) list \<Rightarrow> string \<Rightarrow> kommo_world
     \<Rightarrow> (delivery_error + delivery_result) \<times> kommo_world" where
  "deliver_response env cfg src job purpose result customer_text w =
     (let text = py_strip customer_text; image = image_enabled cfg job result; pdf = pdf_enabled cfg job result in
      if \<not> image \<and> \<not> pdf
      then (if delivers_direct job then deliver_direct_text env job text purpose w else (Inr (salesbot_result text), w))
      else if pdf \<and> opt_str (mc_pdf_type cfg) = []
      then (Inl (Delivery_API (API_Error ''PDF Chats attachment type is not configured and must be validated in Kommo'' None)), w)
      else (case validated_talk_id (jb_talk job) of
              Inl e \<Rightarrow> (Inl e, w)
            | Inr talk \<Rightarrow>
               (case ms_build src image pdf of
                  Inl e \<Rightarrow> (Inl e, w)
                | Inr qs \<Rightarrow> deliver_media env src job talk text 0 qs [] [] w)))"

section \<open>Usage\<close>

definition counted_sends :: "(int \<Rightarrow> int) \<Rightarrow> int \<Rightarrow> outbound \<Rightarrow> nat" where
  "counted_sends month now d =
     (if ob_status d \<in> {OSending, OAccepted, OConfirmed, OFailed, OUnknown}
      then (case ob_attempts d of
              Some n \<Rightarrow> if ob_month d = Some (month now) \<or> ob_month d = None then max n 1 else 1
            | None \<Rightarrow> 1)
      else 0)"

definition of_this_month :: "(int \<Rightarrow> int) \<Rightarrow> int \<Rightarrow> outbound \<Rightarrow> bool" where
  "of_this_month month now d = (ob_transport d = ''chats_api''
     \<and> month now \<le> month (case ob_accepted d of None \<Rightarrow> ob_updated d | Some t \<Rightarrow> t))"

definition usage_warning_level :: "rat option \<Rightarrow> string" where
  "usage_warning_level u = (case u of None \<Rightarrow> ''normal''
     | Some p \<Rightarrow> if p < 50 then ''normal'' else if p \<ge> 100 then ''exhausted'' else if p \<ge> 90 then ''90_percent''
                 else if p \<ge> 75 then ''75_percent'' else ''50_percent'')"

record usage =
  us_attempted :: nat
  us_by_media :: "(string \<times> nat) list"
  us_delivered :: nat
  us_failed :: nat
  us_unknown :: nat
  us_remaining :: "int option"
  us_percent :: "rat option"
  us_level :: string

definition monthly_usage_summary :: "(int \<Rightarrow> int) \<Rightarrow> int \<Rightarrow> int option \<Rightarrow> outbound list \<Rightarrow> usage" where
  "monthly_usage_summary month now limit t =
     (let rows = filter (of_this_month month now) t;
          total = (\<lambda>p. sum_list (map (counted_sends month now) (filter p rows)));
          n = (\<lambda>sts. length (filter (\<lambda>d. ob_status d \<in> sts) rows));
          attempted = total (\<lambda>_. True);
          percent = (case limit of None \<Rightarrow> None
                     | Some l \<Rightarrow> if l = 0 then None else Some (round_to 1 (of_nat attempted / of_int l * 100))) in
      \<lparr>us_attempted = attempted,
       us_by_media = map (\<lambda>m. (m, total (\<lambda>d. ob_media d = Some m))) [''text'', ''product_image'', ''catalog_pdf''],
       us_delivered = n {OAccepted, OConfirmed}, us_failed = n {OFailed}, us_unknown = n {OUnknown},
       us_remaining = (case limit of None \<Rightarrow> None | Some l \<Rightarrow> if l = 0 then None else Some (max (l - int attempted) 0)),
       us_percent = percent, us_level = usage_warning_level percent\<rparr>)"

end
