(* ===== verification/Kommo_Workers.thy ===== *)
theory Kommo_Workers
  imports Kommo_Callbacks Kommo_Delivery Customers
begin

text \<open>
  The workers of the Kommo queue, \<open>integrations/kommo/jobs.py\<close>: preparing a claimed pending job (the
  Salesbot launch, or the direct Instagram path), answering a ready job, and the ways an answer is given
  up. Arguments stand for the service, for the customer and lead lookups, the assistant, and the text
  formatting; the story context of a reply and the customer's channel mappings are left to them.
\<close>

section \<open>Arguments\<close>

datatype worker_error = WE_Audio audio_error | WE_Delivery delivery_error

text \<open>What the lookups before a decision found: the customer and whether the assistant may act.\<close>

record worker_env =
  we_now :: int
  we_delivery :: delivery_env
  we_media :: media_config
  we_source :: media_source
  we_context :: "int option"
  we_events :: "meta_event list"
  we_window :: "int option"
  we_salesbots :: "int option \<times> int option"
  we_launch :: "string list \<Rightarrow> string \<Rightarrow> string \<Rightarrow> int \<Rightarrow> delivery_error + unit"
  we_continue :: "(string \<times> json) list \<Rightarrow> string \<Rightarrow> json \<Rightarrow> delivery_error + json"
  we_transcribe :: "string \<Rightarrow> audio_error + string"
  we_map :: "(string \<times> json) list \<Rightarrow> string list \<Rightarrow> string \<times> string option"
  we_prepare :: "string \<Rightarrow> string \<Rightarrow> string \<Rightarrow> string"
  we_decide :: "kommo_job \<Rightarrow> delivery_error + customer \<times> decision"
  we_resolve :: "kommo_job \<Rightarrow> delivery_error + customer"
  we_before :: "kommo_job \<Rightarrow> customer \<Rightarrow> delivery_error + decision"
  we_reply :: "kommo_job \<Rightarrow> string \<Rightarrow> string option \<Rightarrow> delivery_error + (string \<times> json) list"
  we_after :: "kommo_job \<Rightarrow> (string \<times> json) list \<Rightarrow> delivery_error + decision"

definition on_db :: "(kommo_db \<Rightarrow> kommo_db) \<Rightarrow> kommo_world \<Rightarrow> kommo_world" where
  "on_db f w = w\<lparr>kw_db := f (kw_db w)\<rparr>"

definition worker_mark :: "worker_env \<Rightarrow> kommo_job \<Rightarrow> job_status \<Rightarrow> string option \<Rightarrow> kommo_world \<Rightarrow> kommo_world" where
  "worker_mark env job st err w = on_db (mark_job (we_now env) (jb_id job) st err (jb_lease job)) w"

text \<open>\<open>sanitize_job_error\<close> of an exception.\<close>

definition error_note :: "delivery_error \<Rightarrow> string option" where
  "error_note e = (let m = delivery_error_text e in Some (if m = [] then [] else sanitize_kommo_error m))"

fun exc_message :: "py_exc \<Rightarrow> string" where
  "exc_message (ValueError m) = m"
| "exc_message (TypeError m) = m"
| "exc_message (KeyError m) = m"
| "exc_message (RuntimeError m) = m"
| "exc_message (OtherError m) = m"

definition job_channel :: "kommo_job \<Rightarrow> string" where
  "job_channel j = opt_str (opt_or (jb_channel j) (Some ''whatsapp''))"

definition message_channel :: "kommo_job \<Rightarrow> customer \<Rightarrow> string" where
  "message_channel j c = opt_str (opt_or (jb_channel j) (opt_or (Some (c_channel c)) (Some ''whatsapp'')))"

definition store_user_message_if_suppressed ::
    "worker_env \<Rightarrow> customer \<Rightarrow> kommo_job \<Rightarrow> kommo_world \<Rightarrow> (delivery_error + unit) \<times> kommo_world" where
  "store_user_message_if_suppressed env c j w =
     (case store_message (we_now env) (c_id c) ''user'' (jb_message j) (message_channel j c) (jb_media j) None
             (Some (conversation_source_id j)) (JVal PNone) (Some (job_interaction_type j)) (kj_history (kw_db w)) of
        (Inl x, _) \<Rightarrow> (Inl (Delivery_Other (exc_message x)), w)
      | (Inr _, h) \<Rightarrow> (Inr (), on_db (\<lambda>d. d\<lparr>kj_history := h\<rparr>) w))"

definition refused_status :: "decision \<Rightarrow> job_status" where
  "refused_status d = (if ad_initialize d then JFailed else JDiscarded)"

section \<open>A claimed pending job\<close>

text \<open>The two places where a private copy of a comment is discarded instead.\<close>

definition superseded :: "worker_env \<Rightarrow> kommo_job \<Rightarrow> kommo_world \<Rightarrow> bool \<times> kommo_world" where
  "superseded env job w =
     (case discard_private_job_if_superseded (we_now env) (de_sha (we_delivery env)) (we_window env) (we_events env) job (kw_db w) of
        (b, d) \<Rightarrow> (b, w\<lparr>kw_db := d\<rparr>))"

definition suppress_job ::
    "worker_env \<Rightarrow> kommo_job \<Rightarrow> customer \<Rightarrow> decision \<Rightarrow> kommo_world \<Rightarrow> kommo_world" where
  "suppress_job env job c d w =
     (case store_user_message_if_suppressed env c job w of
        (Inl e, w') \<Rightarrow> worker_mark env job JFailed (error_note e) w'
      | (Inr _, w') \<Rightarrow> worker_mark env job (refused_status d) (Some (ad_reason d)) w')"

text \<open>\<open>we_context\<close> is the wait for the context of a story, when that is enabled; a refusal is then
  remembered and obeyed after the wait.\<close>

definition prepare_after_decision ::
    "worker_env \<Rightarrow> kommo_job \<Rightarrow> customer \<Rightarrow> decision \<Rightarrow> kommo_world \<Rightarrow> kommo_world" where
  "prepare_after_decision env job c d w =
     (let waits = (we_context env \<noteq> None); defers = (\<not> ad_allowed d \<and> waits) in
      if \<not> ad_allowed d \<and> \<not> defers then suppress_job env job c d w
      else (case superseded env job w of
              (True, w1) \<Rightarrow> w1
            | (False, w1) \<Rightarrow>
               (case mark_direct_instagram_job_prepared (we_now env) (jb_id job) (jb_lease job) waits
                       (case we_context env of None \<Rightarrow> 0 | Some s \<Rightarrow> s) defers
                       (if defers then Some (ad_reason d) else None) (kw_db w1) of
                  (False, d2) \<Rightarrow> w1\<lparr>kw_db := d2\<rparr>
                | (True, d2) \<Rightarrow> snd (superseded env job (w1\<lparr>kw_db := d2\<rparr>)))))"

definition prepare_direct_instagram_dm :: "worker_env \<Rightarrow> kommo_job \<Rightarrow> kommo_world \<Rightarrow> (py_exc + unit) \<times> kommo_world" where
  "prepare_direct_instagram_dm env job w =
     (case is_valid_kommo_id (jb_talk job) of
        Inl x \<Rightarrow> (Inl x, w)
      | Inr False \<Rightarrow> (Inr (), worker_mark env job JFailed (Some ''missing_instagram_talk_id'') w)
      | Inr True \<Rightarrow>
          (case superseded env job w of
             (True, w1) \<Rightarrow> (Inr (), w1)
           | (False, w1) \<Rightarrow>
               (case we_decide env job of
                  Inl e \<Rightarrow> (Inr (), worker_mark env job JFailed (error_note e) w1)
                | Inr (c, d) \<Rightarrow> (Inr (), prepare_after_decision env job c d w1))))"

definition is_definitive_launch :: "delivery_error \<Rightarrow> bool" where
  "is_definitive_launch e = (case e of Delivery_API a \<Rightarrow> is_definitive_launch_error a | _ \<Rightarrow> False)"

text \<open>The identifiers configured for WhatsApp and for any channel.\<close>

definition salesbot_id_for_channel :: "int option \<times> int option \<Rightarrow> string option \<Rightarrow> delivery_error + int" where
  "salesbot_id_for_channel ids channel =
     (let ch = py_lower (py_strip (opt_str channel));
          i = (case fst ids of None \<Rightarrow> snd ids | Some n \<Rightarrow> if n = 0 then snd ids else Some n) in
      if ch = ''instagram'' then Inl (Delivery_API (API_Error ''Instagram private messages do not use Salesbot'' None))
      else if ch \<noteq> ''whatsapp'' then Inl (Delivery_API (API_Error ''Unsupported Kommo private-message channel'' None))
      else (case i of
              None \<Rightarrow> Inl (Delivery_API (API_Error ''Kommo Salesbot ID is not configured for whatsapp'' None))
            | Some n \<Rightarrow> if n \<le> 0 then Inl (Delivery_API (API_Error ''Kommo Salesbot ID is not configured for whatsapp'' None))
                        else Inr n))"

definition run_salesbot :: "worker_env \<Rightarrow> kommo_job \<Rightarrow> int \<Rightarrow> kommo_world \<Rightarrow> kommo_world" where
  "run_salesbot env job salesbot w =
     (let entity = opt_str (opt_or (jb_lead job) (jb_contact job));
          kind = (if opt_str (jb_lead job) \<noteq> [] then ''leads'' else ''contacts'');
          w1 = w\<lparr>kw_launched := kw_launched w @ [jb_id job]\<rparr> in
      case we_launch env (kw_launched w) entity kind salesbot of
        Inr _ \<Rightarrow> w1
      | Inl e \<Rightarrow>
          (let m = opt_str (error_note e) in
           on_db (if is_definitive_launch e then mark_waiting_job_failed (we_now env) (jb_id job) (jb_lease job) m
                  else record_uncertain_launch_warning (we_now env) (jb_id job) m) w1))"

definition launch_after_decision ::
    "worker_env \<Rightarrow> kommo_job \<Rightarrow> int \<Rightarrow> customer \<Rightarrow> decision \<Rightarrow> kommo_world \<Rightarrow> kommo_world" where
  "launch_after_decision env job salesbot c d w =
     (if \<not> ad_allowed d then suppress_job env job c d w
      else if opt_str (opt_or (jb_lead job) (jb_contact job)) = []
      then worker_mark env job JFailed (Some ''missing_entity_id'') w
      else (case mark_job_waiting_for_salesbot (we_now env) (jb_id job) (jb_lease job) (kw_db w) of
              (False, db) \<Rightarrow> w\<lparr>kw_db := db\<rparr>
            | (True, db) \<Rightarrow> run_salesbot env job salesbot (w\<lparr>kw_db := db\<rparr>)))"

definition launch_salesbot_for_job :: "worker_env \<Rightarrow> kommo_job \<Rightarrow> kommo_world \<Rightarrow> kommo_world" where
  "launch_salesbot_for_job env job w =
     (if job_interaction_type job = instagram_comment_scope
      then worker_mark env job JFailed (Some ''instagram_comment_requires_native_salesbot_callback'') w
      else (case salesbot_id_for_channel (we_salesbots env) (jb_channel job) of
              Inl e \<Rightarrow> worker_mark env job JFailed (error_note e) w
            | Inr salesbot \<Rightarrow>
               (case we_decide env job of
                  Inl e \<Rightarrow> worker_mark env job JFailed (error_note e) w
                | Inr (c, d) \<Rightarrow> launch_after_decision env job salesbot c d w)))"

definition work_pending :: "worker_env \<Rightarrow> kommo_job \<Rightarrow> kommo_world \<Rightarrow> (py_exc + unit) \<times> kommo_world" where
  "work_pending env job w =
     (if is_direct_instagram_dm job then prepare_direct_instagram_dm env job w else (Inr (), launch_salesbot_for_job env job w))"

text \<open>The lease of the next claim is generated from the number of jobs processed so far.\<close>

fun process_pending_jobs :: "nat \<Rightarrow> worker_env \<Rightarrow> (nat \<Rightarrow> string) \<Rightarrow> nat \<Rightarrow> kommo_world \<Rightarrow> (py_exc + nat) \<times> kommo_world" where
  "process_pending_jobs 0 env lease k w = (Inr k, w)"
| "process_pending_jobs (Suc n) env lease k w =
     (case claim_due_pending_job (we_now env) (lease k) (kw_db w) of
        (Inl x, db) \<Rightarrow> (Inl x, w\<lparr>kw_db := db\<rparr>)
      | (Inr None, db) \<Rightarrow> (Inr k, w\<lparr>kw_db := db\<rparr>)
      | (Inr (Some j), db) \<Rightarrow>
          (case work_pending env j (w\<lparr>kw_db := db\<rparr>) of
             (Inl x, w') \<Rightarrow> (Inl x, w')
           | (Inr _, w') \<Rightarrow> process_pending_jobs n env lease (k + 1) w'))"
section \<open>Giving up an answer\<close>

definition delivery_failure_message :: "string" where
  "delivery_failure_message = ''Disculpa, tuve un problema al enviarte el archivo. Por favor int'' @ [CHR 0xE9]
     @ ''ntalo de nuevo en unos minutos.''"

definition unsupported_attachment_message :: "string" where
  "unsupported_attachment_message = ''No pude identificar el archivo que me enviaste. Por favor env'' @ [CHR 0xED]
     @ ''ame una imagen del comprobante o escr'' @ [CHR 0xED] @ ''beme qu'' @ [CHR 0xE9] @ '' necesitas.''"

definition continuation_json :: "string \<Rightarrow> string \<Rightarrow> json" where
  "continuation_json status msg = JObj [(''status'', JVal (PStr status)), (''message'', JVal (PStr msg))] []"

definition delivery_json :: "string \<Rightarrow> string \<Rightarrow> json" where
  "delivery_json mode msg = JObj [(''status'', JVal (PStr ''success'')), (''delivery_mode'', JVal (PStr mode)),
     (''message'', JVal (PStr msg))] []"

text \<open>\<open>client.continue_salesbot\<close>: the call is recorded whatever it answers.\<close>

definition continue_salesbot :: "worker_env \<Rightarrow> kommo_job \<Rightarrow> json \<Rightarrow> kommo_world \<Rightarrow> (delivery_error + json) \<times> kommo_world" where
  "continue_salesbot env job data w =
     (we_continue env (kw_continued w) (opt_str (jb_url job)) data, w\<lparr>kw_continued := kw_continued w @ [(jb_id job, data)]\<rparr>)"

definition begin_continuing :: "worker_env \<Rightarrow> kommo_job \<Rightarrow> json \<Rightarrow> kommo_world \<Rightarrow> bool \<times> kommo_world" where
  "begin_continuing env job data w =
     (case mark_job_continuing (we_now env) (jb_id job) (jb_lease job) data (kw_db w) of (b, db) \<Rightarrow> (b, w\<lparr>kw_db := db\<rparr>))"

text \<open>The unclear outcome of a direct message is an error of the service without a status.\<close>

definition continuation_status :: "delivery_error \<Rightarrow> bool \<Rightarrow> job_status" where
  "continuation_status e started = (case e of
      Delivery_API a \<Rightarrow> status_after_continuation_error a started
    | Delivery_Unsure m \<Rightarrow> status_after_continuation_error (API_Error m None) started
    | Delivery_Partial m _ _ \<Rightarrow> status_after_continuation_error (API_Error m None) started
    | _ \<Rightarrow> if started then JUnknown else JFailed)"

definition direct_failure_status :: "delivery_error \<Rightarrow> job_status" where
  "direct_failure_status e = (case e of
      Delivery_Unsure _ \<Rightarrow> JUnknown | Delivery_Partial _ _ _ \<Rightarrow> JUnknown | Delivery_State _ \<Rightarrow> JUnknown | _ \<Rightarrow> JFailed)"

definition await_delivery ::
    "worker_env \<Rightarrow> kommo_job \<Rightarrow> delivery_result \<Rightarrow> assistant_payload \<Rightarrow> string option \<Rightarrow> kommo_world \<Rightarrow> bool \<times> kommo_world" where
  "await_delivery env job r payload reason w =
     (case mark_direct_job_waiting_for_delivery (we_now env) (jb_id job) (jb_lease job) (dr_ids r) payload reason (kw_db w) of
        (b, db) \<Rightarrow> (b, w\<lparr>kw_db := db\<rparr>))"

definition lost_reconciliation :: delivery_error where
  "lost_reconciliation = Delivery_State ''Kommo direct Instagram fallback could not enter delivery reconciliation''"

definition discard_direct ::
    "worker_env \<Rightarrow> kommo_job \<Rightarrow> string option \<Rightarrow> string option \<Rightarrow> customer option \<Rightarrow> kommo_world \<Rightarrow> kommo_world" where
  "discard_direct env job reason msg cust w =
     (case msg of
        None \<Rightarrow> worker_mark env job JDiscarded reason w
      | Some text \<Rightarrow>
          (case deliver_response (we_delivery env) (we_media env) (we_source env) job ''fallback'' [] text w of
             (Inl e, w1) \<Rightarrow> worker_mark env job (direct_failure_status e) (error_note e) w1
           | (Inr r, w1) \<Rightarrow>
              (case await_delivery env job r
                      (pending_assistant_payload (map_option c_id cust) (dr_text r) None None [] ''discarded'') reason w1 of
                 (True, w2) \<Rightarrow> w2
               | (False, w2) \<Rightarrow> worker_mark env job JUnknown (error_note lost_reconciliation) w2)))"

definition discard_continuing :: "worker_env \<Rightarrow> kommo_job \<Rightarrow> string option \<Rightarrow> json \<Rightarrow> kommo_world \<Rightarrow> kommo_world" where
  "discard_continuing env job reason data w =
     (case begin_continuing env job data w of
        (False, w1) \<Rightarrow> w1
      | (True, w1) \<Rightarrow>
          (case continue_salesbot env job data w1 of
             (Inl e, w2) \<Rightarrow> worker_mark env job (continuation_status e True) (error_note e) w2
           | (Inr resp, w2) \<Rightarrow> on_db (\<lambda>d. snd (mark_job_discarded (we_now env) (jb_id job) (jb_lease job) reason resp d)) w2))"

definition continue_and_discard_job ::
    "worker_env \<Rightarrow> kommo_job \<Rightarrow> string option \<Rightarrow> bool \<Rightarrow> string option \<Rightarrow> customer option \<Rightarrow> kommo_world \<Rightarrow> kommo_world" where
  "continue_and_discard_job env job reason fallback msg cust w =
     (let say = (if opt_str msg \<noteq> [] then msg else if fallback then Some delivery_failure_message else None) in
      if is_direct_instagram_dm job then discard_direct env job reason say cust w
      else discard_continuing env job reason
             (continuation_json ''fail'' (case say of None \<Rightarrow> []
                | Some m \<Rightarrow> we_prepare env m (job_channel job) (job_interaction_type job))) w)"

definition fail_ready_job ::
    "worker_env \<Rightarrow> kommo_job \<Rightarrow> string \<Rightarrow> customer option \<Rightarrow> kommo_world \<Rightarrow> kommo_world" where
  "fail_ready_job env job err cust w =
     (if is_direct_instagram_dm job
      then (if cust = None then worker_mark env job JFailed (Some err) w
            else continue_and_discard_job env job (Some err) True None cust w)
      else if opt_str (jb_url job) \<noteq> []
      then (let data = continuation_json ''fail'' (we_prepare env delivery_failure_message (job_channel job) (job_interaction_type job)) in
            case begin_continuing env job data w of
              (False, w1) \<Rightarrow> worker_mark env job JFailed (Some err) w1
            | (True, w1) \<Rightarrow>
                (case continue_salesbot env job data w1 of
                   (Inl e, w2) \<Rightarrow> worker_mark env job JUnknown (error_note e) w2
                 | (Inr _, w2) \<Rightarrow> worker_mark env job JFailed (Some err) w2))
      else worker_mark env job JFailed (Some err) w)"

text \<open>A fallback message is sent only when nothing of the job was sent, as far as the rows tell.\<close>

definition direct_customer_send_begun :: "string \<Rightarrow> kommo_db \<Rightarrow> bool" where
  "direct_customer_send_begun jid db = list_ex (\<lambda>d. chats_of jid d
     \<and> (ob_status d \<in> {OSending, OAccepted, OConfirmed, OUnknown}
        \<or> (case ob_attempts d of None \<Rightarrow> False | Some n \<Rightarrow> 1 \<le> n))) (kj_outbound db)"

definition send_direct_failure_fallback_if_safe ::
    "worker_env \<Rightarrow> kommo_job \<Rightarrow> customer option \<Rightarrow> string \<Rightarrow> kommo_world \<Rightarrow> bool \<times> kommo_world" where
  "send_direct_failure_fallback_if_safe env job cust err w =
     (if \<not> is_direct_instagram_dm job \<or> cust = None \<or> direct_customer_send_begun (jb_id job) (kw_db w) then (False, w)
      else (True, continue_and_discard_job env job (Some err) True None cust w))"

definition process_provider_error_text_fallback :: "worker_env \<Rightarrow> kommo_job \<Rightarrow> assistant_payload \<Rightarrow> kommo_world \<Rightarrow> kommo_world" where
  "process_provider_error_text_fallback env job a w =
     (let text = py_strip (pa_content a) in
      if \<not> is_direct_instagram_dm job \<or> text = []
      then worker_mark env job JFailed (Some ''invalid_provider_error_text_fallback'') w
      else (case deliver_response (we_delivery env) (we_media env) (we_source env) job ''provider_error_fallback'' [] text w of
              (Inl e, w1) \<Rightarrow> worker_mark env job JFailed (error_note e) w1
            | (Inr r, w1) \<Rightarrow>
               (case await_delivery env job r
                       (a\<lparr>pa_content := dr_text r, pa_attachments := [], pa_final := ''sent'', pa_fallback := True\<rparr>) (jb_error job) w1 of
                  (True, w2) \<Rightarrow> w2
                | (False, w2) \<Rightarrow> worker_mark env job JUnknown
                    (error_note (Delivery_State ''Kommo provider-error text fallback could not enter delivery reconciliation'')) w2)))"
section \<open>A claimed ready job\<close>

text \<open>The outcome of an attempt: done, or an exception with the customer known so far, the result of the
  assistant, and whether a continuation or a message had gone out.\<close>

record failure =
  fl_error :: worker_error
  fl_customer :: "customer option"
  fl_calls :: "string option"
  fl_continued :: bool
  fl_sent :: bool

definition early :: "worker_error \<Rightarrow> customer option \<Rightarrow> failure" where
  "early e c = \<lparr>fl_error = e, fl_customer = c, fl_calls = None, fl_continued = False, fl_sent = False\<rparr>"

type_synonym attempt = "(failure + unit) \<times> kommo_world"

definition result_calls :: "(string \<times> json) list \<Rightarrow> string option" where
  "result_calls result = (case jget result ''function_calls'' of JVal PNone \<Rightarrow> None | v \<Rightarrow> Some (j_str v))"

definition store_assistant ::
    "worker_env \<Rightarrow> kommo_job \<Rightarrow> customer \<Rightarrow> string option \<Rightarrow> string \<Rightarrow> attachment list \<Rightarrow> job_status option \<Rightarrow> kommo_world
     \<Rightarrow> (delivery_error + unit) \<times> kommo_world" where
  "store_assistant env job c calls text attachments expected w =
     (case store_assistant_after_delivery (we_now env) (c_id c) (message_channel job c) job text calls attachments expected (kw_db w) of
        (Inl x, d) \<Rightarrow> (Inl (Delivery_Other (exc_message x)), w\<lparr>kw_db := d\<rparr>)
      | (Inr _, d) \<Rightarrow> (Inr (), w\<lparr>kw_db := d\<rparr>))"

text \<open>Continuing the Salesbot with the answer, after the history when a message has already gone out.\<close>

definition continue_with_answer ::
    "worker_env \<Rightarrow> kommo_job \<Rightarrow> customer \<Rightarrow> string option \<Rightarrow> bool \<Rightarrow> string \<Rightarrow> json \<Rightarrow> kommo_world \<Rightarrow> attempt" where
  "continue_with_answer env job c calls sent text data w =
     (let fail = (\<lambda>e started. \<lparr>fl_error = WE_Delivery e, fl_customer = Some c, fl_calls = calls, fl_continued = started, fl_sent = sent\<rparr>) in
      case begin_continuing env job data w of
        (False, w1) \<Rightarrow> (Inr (), w1)
      | (True, w1) \<Rightarrow>
          (case continue_salesbot env job data w1 of
             (Inl e, w2) \<Rightarrow> (Inl (fail e True), w2)
           | (Inr resp, w2) \<Rightarrow>
              (case (if sent then (Inr (), w2) else store_assistant env job c calls text [] (Some JContinuing) w2) of
                 (Inl e, w3) \<Rightarrow> (Inl (fail e True), w3)
               | (Inr _, w3) \<Rightarrow> (Inr (), on_db (\<lambda>d. snd (mark_job_sent (we_now env) (jb_id job) (jb_lease job) resp d)) w3))))"

definition deliver_answer ::
    "worker_env \<Rightarrow> kommo_job \<Rightarrow> customer \<Rightarrow> (string \<times> json) list \<Rightarrow> string \<Rightarrow> kommo_world \<Rightarrow> attempt" where
  "deliver_answer env job c result text w =
     (let calls = result_calls result;
          fail = (\<lambda>e sent. \<lparr>fl_error = WE_Delivery e, fl_customer = Some c, fl_calls = calls, fl_continued = False, fl_sent = sent\<rparr>) in
      case deliver_response (we_delivery env) (we_media env) (we_source env) job ''response'' result text w of
        (Inl e, w1) \<Rightarrow> (Inl (fail e False), w1)
      | (Inr r, w1) \<Rightarrow>
          if is_direct_instagram_dm job
          then (case await_delivery env job r
                       (pending_assistant_payload (Some (c_id c)) (dr_text r)
                          (case jget result ''text'' of JVal (PStr t) \<Rightarrow> Some t | _ \<Rightarrow> None) calls (dr_attachments r) ''sent'') None w1 of
                  (True, w2) \<Rightarrow> (Inr (), w2)
                | (False, w2) \<Rightarrow>
                    (Inl (fail (Delivery_State ''Kommo direct Instagram job could not enter delivery reconciliation'') True), w2))
          else if dr_transport r = ''salesbot''
          then (let (raw, reason) = we_map env result []; t = py_strip raw in
                if t = [] then (Inr (), continue_and_discard_job env job (opt_or reason (Some ''empty_response'')) False None None w1)
                else (let msg = we_prepare env t (job_channel job) (job_interaction_type job) in
                      continue_with_answer env job c calls False msg (delivery_json ''salesbot'' msg) w1))
          else (case store_assistant env job c calls (dr_text r) (dr_attachments r) None w1 of
                  (Inl e, w2) \<Rightarrow> (Inl (fail e True), w2)
                | (Inr _, w2) \<Rightarrow> continue_with_answer env job c calls True (dr_text r) (delivery_json ''chats_api'' []) w2))"

definition answer_text ::
    "worker_env \<Rightarrow> kommo_job \<Rightarrow> customer \<Rightarrow> (string \<times> json) list \<Rightarrow> kommo_world \<Rightarrow> attempt" where
  "answer_text env job c result w =
     (let (raw, reason) = we_map env result (get_enabled_media_types (we_media env) job result); t = py_strip raw in
      if t = [] then (Inr (), continue_and_discard_job env job (opt_or reason (Some ''empty_response'')) False None None w)
      else (let msg = we_prepare env t (job_channel job) (job_interaction_type job) in
            if msg = [] then (Inr (), continue_and_discard_job env job (Some ''empty_after_sanitization'') False None None w)
            else deliver_answer env job c result msg w))"

text \<open>The assistant replies; unless it escalated, the state is looked at again before the answer goes out.\<close>

definition reply_to_customer ::
    "worker_env \<Rightarrow> kommo_job \<Rightarrow> customer \<Rightarrow> string \<Rightarrow> string option \<Rightarrow> kommo_world \<Rightarrow> attempt" where
  "reply_to_customer env job c msg media w =
     (let w1 = w\<lparr>kw_replies := kw_replies w @ [jb_id job]\<rparr> in
      case we_reply env job msg media of
        Inl e \<Rightarrow> (Inl (early (WE_Delivery e) (Some c)), w1)
      | Inr result \<Rightarrow>
          if j_truthy (jget result ''escalated'') then answer_text env job c result w1
          else (case we_after env job result of
                  Inl e \<Rightarrow> (Inl (early (WE_Delivery e) (Some c)), w1)
                | Inr d \<Rightarrow>
                    if \<not> ad_allowed d then (Inr (), continue_and_discard_job env job (Some (ad_reason d)) False None None w1)
                    else answer_text env job c result w1))"

definition suppress_ready ::
    "worker_env \<Rightarrow> kommo_job \<Rightarrow> customer \<Rightarrow> string \<Rightarrow> kommo_world \<Rightarrow> attempt" where
  "suppress_ready env job c reason w =
     (case store_user_message_if_suppressed env c job w of
        (Inl e, w1) \<Rightarrow> (Inl (early (WE_Delivery e) (Some c)), w1)
      | (Inr _, w1) \<Rightarrow> (Inr (), continue_and_discard_job env job (Some reason) False None None w1))"

definition attempt_answer :: "worker_env \<Rightarrow> kommo_job \<Rightarrow> kommo_world \<Rightarrow> attempt" where
  "attempt_answer env job w =
     (case we_resolve env job of
        Inl e \<Rightarrow> (Inl (early (WE_Delivery e) None), w)
      | Inr c \<Rightarrow>
          if has_unsupported_attachment job
          then (Inr (), continue_and_discard_job env job (Some ''unsupported_attachment'') False
                  (Some unsupported_attachment_message) (Some c) w)
          else (case effective_customer_message (we_transcribe env) job of
                  Inl a \<Rightarrow> (Inl (early (WE_Audio a) (Some c)), w)
                | Inr msg \<Rightarrow>
               (case job_image_media_url job of
                  Inl a \<Rightarrow> (Inl (early (WE_Audio a) (Some c)), w)
                | Inr media \<Rightarrow>
                    (let job1 = job\<lparr>jb_message := msg, jb_media := media\<rparr> in
                     if jb_suppress job
                     then suppress_ready env job1 c (opt_str (opt_or (jb_block job) (Some ''automation_suppressed_before_context''))) w
                     else (case we_before env job1 c of
                             Inl e \<Rightarrow> (Inl (early (WE_Delivery e) (Some c)), w)
                           | Inr d \<Rightarrow>
                               if \<not> ad_allowed d then suppress_ready env job1 c (ad_reason d) w
                               else reply_to_customer env job1 c msg media w)))))"

definition is_fallback_job :: "kommo_job \<Rightarrow> bool" where
  "is_fallback_job j = (case jb_assistant j of None \<Rightarrow> False | Some a \<Rightarrow> pa_fallback a)"

text \<open>The exception handlers. Before anything has gone out a customer with a Salesbot waiting, or a direct
  message not begun, gets the failure message; after that the outcome is unknown.\<close>

definition give_up :: "worker_env \<Rightarrow> kommo_job \<Rightarrow> failure \<Rightarrow> delivery_error \<Rightarrow> job_status \<Rightarrow> kommo_world \<Rightarrow> kommo_world" where
  "give_up env job f e st w =
     (let note = opt_str (error_note e); untouched = (\<not> fl_continued f \<and> \<not> fl_sent f) in
      if untouched \<and> opt_str (jb_url job) \<noteq> [] \<and> \<not> is_direct_instagram_dm job
      then continue_and_discard_job env job (Some note) True None (fl_customer f) w
      else (case (if untouched then send_direct_failure_fallback_if_safe env job (fl_customer f) note w else (False, w)) of
              (True, w1) \<Rightarrow> w1
            | (False, w1) \<Rightarrow> worker_mark env job st (Some note) w1))"

definition store_partial ::
    "worker_env \<Rightarrow> kommo_job \<Rightarrow> failure \<Rightarrow> string \<Rightarrow> attachment list \<Rightarrow> kommo_world \<Rightarrow> kommo_world" where
  "store_partial env job f text attachments w = (case fl_customer f of
     None \<Rightarrow> w | Some c \<Rightarrow> snd (store_assistant env job c (fl_calls f) text attachments None w))"

definition handle_failure :: "worker_env \<Rightarrow> kommo_job \<Rightarrow> failure \<Rightarrow> kommo_world \<Rightarrow> kommo_world" where
  "handle_failure env job f w =
     (case fl_error f of
        WE_Audio (Audio_Error m retry) \<Rightarrow>
          (let note = sanitize_kommo_error m in
           if retry \<and> jb_attempts job < max_job_attempts
           then on_db (retry_ready_job (we_now env) (jb_id job) (jb_lease job) note) w
           else fail_ready_job env job note (fl_customer f) w)
      | WE_Delivery e \<Rightarrow>
          (case e of
             Delivery_Aborted _ \<Rightarrow> worker_mark env job JFailed (error_note e) w
           | Delivery_Partial text attachments _ \<Rightarrow>
               worker_mark env job JUnknown (error_note e) (store_partial env job f text attachments w)
           | Delivery_Unsure _ \<Rightarrow> worker_mark env job JUnknown (error_note e) w
           | Delivery_State _ \<Rightarrow>
               (case send_direct_failure_fallback_if_safe env job (fl_customer f) (opt_str (error_note e)) w of
                  (True, w1) \<Rightarrow> w1
                | (False, w1) \<Rightarrow> worker_mark env job JUnknown (error_note e) w1)
           | Delivery_API a \<Rightarrow>
               give_up env job f e (if fl_sent f then JUnknown else status_after_continuation_error a (fl_continued f)) w
           | Delivery_Other _ \<Rightarrow> give_up env job f e (if fl_continued f \<or> fl_sent f then JUnknown else JFailed) w))"

definition process_ready_job :: "worker_env \<Rightarrow> kommo_job \<Rightarrow> kommo_world \<Rightarrow> kommo_world" where
  "process_ready_job env job w =
     (if is_fallback_job job
      then (case jb_assistant job of None \<Rightarrow> w | Some a \<Rightarrow> process_provider_error_text_fallback env job a w)
      else (case attempt_answer env job w of
              (Inr _, w1) \<Rightarrow> w1
            | (Inl f, w1) \<Rightarrow> handle_failure env job f w1))"

fun process_ready_jobs :: "nat \<Rightarrow> worker_env \<Rightarrow> (nat \<Rightarrow> string) \<Rightarrow> nat \<Rightarrow> kommo_world \<Rightarrow> nat \<times> kommo_world" where
  "process_ready_jobs 0 env lease k w = (k, w)"
| "process_ready_jobs (Suc n) env lease k w =
     (case claim_ready_job (we_now env) (lease k) (kw_db w) of
        (None, db) \<Rightarrow> (k, w\<lparr>kw_db := db\<rparr>)
      | (Some j, db) \<Rightarrow> process_ready_jobs n env lease (k + 1) (process_ready_job env j (w\<lparr>kw_db := db\<rparr>)))"

end
