(* ===== verification/Kommo_Protocol.thy ===== *)
theory Kommo_Protocol
  imports Kommo_Workers
begin

text \<open>
  The Kommo queue as a protocol: every statement of a worker, a webhook, a callback, the reconciliation
  and the recovery is a step, in any order and at any time, and a worker may stop anywhere. Workers hold
  the row their claim returned; a worker whose lease is gone goes on all the same. One look at a direct
  delivery, from its claim to its result, is one step: the next look at the same job is 15 seconds away.
\<close>

section \<open>States\<close>

datatype phase =
    K_Preparing | K_Launching | K_Launched | K_Answering | K_Falling | K_Answered | K_Continuing | K_Concluding

record kommo_run =
  kn_world :: kommo_world
  kn_workers :: "(phase \<times> kommo_job) list"

abbreviation run_db :: "kommo_run \<Rightarrow> kommo_db" where
  "run_db s \<equiv> kw_db (kn_world s)"

abbreviation run_jobs :: "kommo_run \<Rightarrow> kommo_job list" where
  "run_jobs s \<equiv> kj_jobs (run_db s)"

definition with_db :: "kommo_db \<Rightarrow> kommo_run \<Rightarrow> kommo_run" where
  "with_db db s = s\<lparr>kn_world := (kn_world s)\<lparr>kw_db := db\<rparr>\<rparr>"

text \<open>A worker moves to another phase, or is gone.\<close>

definition moves :: "phase \<times> kommo_job \<Rightarrow> (phase \<times> kommo_job) list \<Rightarrow> kommo_run \<Rightarrow> kommo_run" where
  "moves x ys s = s\<lparr>kn_workers := ys @ remove1 x (kn_workers s)\<rparr>"

definition joins :: "phase \<times> kommo_job \<Rightarrow> kommo_run \<Rightarrow> kommo_run" where
  "joins x s = s\<lparr>kn_workers := x # kn_workers s\<rparr>"

definition fresh_lease :: "string \<Rightarrow> kommo_run \<Rightarrow> bool" where
  "fresh_lease l s = (Some l \<notin> jb_lease ` set (run_jobs s) \<and> Some l \<notin> (jb_lease \<circ> snd) ` set (kn_workers s))"

section \<open>The context of a job\<close>

text \<open>\<open>integrations/meta_context\<close>: a job that waits for the context of a comment or a story is matched with
  an event of Meta, released with it, or released when its deadline has passed.\<close>

definition awaits_context :: "string \<Rightarrow> kommo_job \<Rightarrow> bool" where
  "awaits_context jid j = (jb_id j = jid \<and> jb_status j = JContext)"

definition release_timed_out :: "int \<Rightarrow> string \<Rightarrow> kommo_db \<Rightarrow> bool \<times> kommo_db" where
  "release_timed_out now jid db =
     (let p = (\<lambda>j. awaits_context jid j \<and> (case jb_deadline j of None \<Rightarrow> False | Some t \<Rightarrow> t \<le> now)) in
      (list_ex p (kj_jobs db),
       set_jobs p (\<lambda>j. j\<lparr>jb_status := JReady, jb_context := ''timed_out'',
          jb_public := (if jb_interaction j = instagram_comment_scope
                        then AList.update ''mapping_status'' (JVal (PStr ''timed_out'')) (jb_public j) else jb_public j),
          jb_content := (if jb_interaction j = private_message_scope then [] else jb_content j),
          jb_error := Some ''Meta Instagram context deadline elapsed'', jb_updated := now\<rparr>) db))"

text \<open>The context goes into the column of the interaction: a story belongs to a private message.\<close>

definition put_context :: "bool \<Rightarrow> (string \<times> json) list \<Rightarrow> kommo_job \<Rightarrow> kommo_job" where
  "put_context story context j =
     (if story then j\<lparr>jb_content := AList.merge context (jb_content j)\<rparr> else j\<lparr>jb_public := AList.merge context (jb_public j)\<rparr>)"

definition drop_products :: "bool \<Rightarrow> kommo_job \<Rightarrow> kommo_job" where
  "drop_products story j =
     (let rid = (\<lambda>d. AList.delete ''product_skus'' (AList.delete ''product_sku'' d)) in
      if story then j\<lparr>jb_content := rid (jb_content j)\<rparr> else j\<lparr>jb_public := rid (jb_public j)\<rparr>)"

definition matched_row :: "int \<Rightarrow> string \<Rightarrow> bool \<Rightarrow> int \<Rightarrow> string option \<Rightarrow> (string \<times> json) list \<Rightarrow> kommo_job \<Rightarrow> kommo_job" where
  "matched_row now event story score sender context j = put_context story context
     (j\<lparr>jb_event := Some event, jb_context := ''matched'', jb_score := Some score,
        jb_names := (jb_names j)\<lparr>kn_sender := coalesce (kn_sender (jb_names j)) sender\<rparr>, jb_error := None,
        jb_updated := now\<rparr>)"

definition match_context ::
    "int \<Rightarrow> string \<Rightarrow> string \<Rightarrow> bool \<Rightarrow> int \<Rightarrow> string option \<Rightarrow> (string \<times> json) list \<Rightarrow> kommo_db \<Rightarrow> (py_exc + unit) \<times> kommo_db" where
  "match_context now jid event story score sender context db =
     store_jobs (upd_where (\<lambda>j. awaits_context jid j \<and> jb_event j = None) (matched_row now event story score sender context)
       (kj_jobs db)) db"

definition mark_job_ambiguous :: "int \<Rightarrow> string \<Rightarrow> kommo_db \<Rightarrow> kommo_db" where
  "mark_job_ambiguous now jid db =
     set_jobs (\<lambda>j. jb_id j = jid \<and> jb_event j = None) (\<lambda>j. j\<lparr>jb_context := ''ambiguous'', jb_updated := now\<rparr>) db"

definition enrich_matched :: "int \<Rightarrow> string \<Rightarrow> string \<Rightarrow> (string \<times> json) list \<Rightarrow> kommo_db \<Rightarrow> kommo_db" where
  "enrich_matched now jid event context db =
     set_jobs (\<lambda>j. jb_id j = jid \<and> jb_event j = Some event) (\<lambda>j. put_context False context (j\<lparr>jb_updated := now\<rparr>)) db"

definition release_matched :: "int \<Rightarrow> string \<Rightarrow> bool \<Rightarrow> (string \<times> json) list \<Rightarrow> kommo_db \<Rightarrow> kommo_db" where
  "release_matched now jid story context db =
     set_jobs (\<lambda>j. awaits_context jid j \<and> jb_context j = ''matched'')
       (\<lambda>j. (put_context story context (drop_products story j))\<lparr>jb_status := JReady, jb_updated := now\<rparr>) db"

lemma put_context_sel [simp]:
  "jb_id (put_context st c j) = jb_id j" "jb_status (put_context st c j) = jb_status j" "jb_lease (put_context st c j) = jb_lease j"
  "jb_event (put_context st c j) = jb_event j" "jb_context (put_context st c j) = jb_context j" "jb_ai (put_context st c j) = jb_ai j"
  "jb_attempts (put_context st c j) = jb_attempts j" "jb_interaction (put_context st c j) = jb_interaction j"
  "jb_deadline (put_context st c j) = jb_deadline j" "jb_correlation (put_context st c j) = jb_correlation j"
  "jb_external (put_context st c j) = jb_external j" "jb_channel (put_context st c j) = jb_channel j" "jb_assistant (put_context st c j) = jb_assistant j"
  "jb_talk (put_context st c j) = jb_talk j" "jb_url (put_context st c j) = jb_url j" "jb_started (put_context st c j) = jb_started j" "jb_reconcile (put_context st c j) = jb_reconcile j"
  by (simp_all add: put_context_def)

lemma drop_products_sel [simp]:
  "jb_id (drop_products st j) = jb_id j" "jb_status (drop_products st j) = jb_status j" "jb_lease (drop_products st j) = jb_lease j"
  "jb_event (drop_products st j) = jb_event j" "jb_context (drop_products st j) = jb_context j" "jb_ai (drop_products st j) = jb_ai j"
  "jb_attempts (drop_products st j) = jb_attempts j" "jb_interaction (drop_products st j) = jb_interaction j"
  "jb_deadline (drop_products st j) = jb_deadline j" "jb_correlation (drop_products st j) = jb_correlation j"
  "jb_external (drop_products st j) = jb_external j" "jb_channel (drop_products st j) = jb_channel j" "jb_assistant (drop_products st j) = jb_assistant j"
  "jb_talk (drop_products st j) = jb_talk j" "jb_url (drop_products st j) = jb_url j" "jb_started (drop_products st j) = jb_started j" "jb_reconcile (drop_products st j) = jb_reconcile j"
  by (simp_all add: drop_products_def Let_def)

lemma matched_row_sel [simp]:
  "jb_id (matched_row now e st n u c j) = jb_id j" "jb_status (matched_row now e st n u c j) = jb_status j"
  "jb_lease (matched_row now e st n u c j) = jb_lease j" "jb_event (matched_row now e st n u c j) = Some e"
  "jb_context (matched_row now e st n u c j) = ''matched''" "jb_ai (matched_row now e st n u c j) = jb_ai j"
  "jb_attempts (matched_row now e st n u c j) = jb_attempts j" "jb_interaction (matched_row now e st n u c j) = jb_interaction j"
  "jb_deadline (matched_row now e st n u c j) = jb_deadline j" "jb_correlation (matched_row now e st n u c j) = jb_correlation j"
  "jb_external (matched_row now e st n u c j) = jb_external j" "jb_channel (matched_row now e st n u c j) = jb_channel j"
  "jb_assistant (matched_row now e st n u c j) = jb_assistant j"
  "jb_talk (matched_row now e st n u c j) = jb_talk j" "jb_url (matched_row now e st n u c j) = jb_url j" "jb_started (matched_row now e st n u c j) = jb_started j" "jb_reconcile (matched_row now e st n u c j) = jb_reconcile j"
  by (simp_all add: matched_row_def)

section \<open>Steps\<close>

inductive kstep :: "kommo_run \<Rightarrow> kommo_run \<Rightarrow> bool" where
  k_receive: "ev_interaction e \<in> set [private_message_scope, instagram_comment_scope] \<Longrightarrow>
     kstep s (with_db (snd (record_incoming_event now new_id stamp sha e (run_db s))) s)"
| k_claim_pending: "claim_due_pending_job now l (run_db s) = (Inr (Some j), db) \<Longrightarrow> fresh_lease l s \<Longrightarrow>
     kstep s (joins (K_Preparing, j) (with_db db s))"
| k_claim_ready: "claim_ready_job now l (run_db s) = (Some j, db) \<Longrightarrow> fresh_lease l s \<Longrightarrow>
     kstep s (joins (if is_fallback_job j then K_Falling else K_Answering, j) (with_db db s))"
| k_prepared: "(K_Preparing, j) \<in> set (kn_workers s) \<Longrightarrow> is_direct_instagram_dm j \<Longrightarrow> is_valid_kommo_id (jb_talk j) = Inr True \<Longrightarrow>
     kstep s (moves (K_Preparing, j) [] (with_db (snd (mark_direct_instagram_job_prepared now (jb_id j) (jb_lease j)
       wait_context secs suppress reason (run_db s))) s))"
| k_superseded: "kstep s (with_db (snd (discard_private_job_if_superseded now sha window ms job (run_db s))) s)"
| k_wait: "(K_Preparing, j) \<in> set (kn_workers s) \<Longrightarrow>
     mark_job_waiting_for_salesbot now (jb_id j) (jb_lease j) (run_db s) = (True, db) \<Longrightarrow>
     kstep s (moves (K_Preparing, j) [(K_Launching, j)] (with_db db s))"
| k_launch: "(K_Launching, j) \<in> set (kn_workers s) \<Longrightarrow>
     kstep s (moves (K_Launching, j) [(K_Launched, j)]
       (s\<lparr>kn_world := (kn_world s)\<lparr>kw_launched := kw_launched (kn_world s) @ [jb_id j]\<rparr>\<rparr>))"
| k_launch_failed: "(K_Launched, j) \<in> set (kn_workers s) \<Longrightarrow>
     kstep s (moves (K_Launched, j) [] (with_db (mark_waiting_job_failed now (jb_id j) (jb_lease j) err (run_db s)) s))"
| k_launch_unsure: "(K_Launched, j) \<in> set (kn_workers s) \<Longrightarrow>
     kstep s (moves (K_Launched, j) [] (with_db (record_uncertain_launch_warning now (jb_id j) err (run_db s)) s))"
| k_reply: "(K_Answering, j) \<in> set (kn_workers s) \<Longrightarrow>
     kstep s (moves (K_Answering, j) [(K_Answered, j)]
       (s\<lparr>kn_world := (kn_world s)\<lparr>kw_replies := kw_replies (kn_world s) @ [jb_id j]\<rparr>\<rparr>))"
| k_retry: "(K_Answering, j) \<in> set (kn_workers s) \<Longrightarrow> jb_attempts j < max_job_attempts \<Longrightarrow>
     kstep s (moves (K_Answering, j) [] (with_db (retry_ready_job now (jb_id j) (jb_lease j) err (run_db s)) s))"
| k_persist: "kstep s (with_db (snd (store_assistant_after_delivery now cid channel job content calls atts expected (run_db s))) s)"
| k_history: "kstep s (with_db ((run_db s)\<lparr>kj_history := h\<rparr>) s)"
| k_begin: "(ph, j) \<in> set (kn_workers s) \<Longrightarrow> ph \<in> {K_Answering, K_Answered} \<Longrightarrow>
     mark_job_continuing now (jb_id j) (jb_lease j) data (run_db s) = (True, db) \<Longrightarrow>
     kstep s (moves (ph, j) [(K_Continuing, j)] (with_db db s))"
| k_continue: "(K_Continuing, j) \<in> set (kn_workers s) \<Longrightarrow>
     kstep s (moves (K_Continuing, j) [(K_Concluding, j)]
       (s\<lparr>kn_world := (kn_world s)\<lparr>kw_continued := kw_continued (kn_world s) @ [(jb_id j, data)]\<rparr>\<rparr>))"
| k_sent: "(K_Concluding, j) \<in> set (kn_workers s) \<Longrightarrow>
     kstep s (moves (K_Concluding, j) [] (with_db (snd (mark_job_sent now (jb_id j) (jb_lease j) resp (run_db s))) s))"
| k_discarded: "(K_Concluding, j) \<in> set (kn_workers s) \<Longrightarrow>
     kstep s (moves (K_Concluding, j) [] (with_db (snd (mark_job_discarded now (jb_id j) (jb_lease j) reason resp (run_db s))) s))"
| k_mark: "(ph, j) \<in> set (kn_workers s) \<Longrightarrow> st \<in> {JFailed, JDiscarded, JUnknown} \<Longrightarrow>
     kstep s (moves (ph, j) [] (with_db (mark_job now (jb_id j) st err (jb_lease j) (run_db s)) s))"
| k_claim_delivery: "(ph, j) \<in> set (kn_workers s) \<Longrightarrow>
     kstep s (with_db (snd (claim_outbound month now jid media print meta (jb_lease j) fence (run_db s))) s)"
| k_send: "kstep s (s\<lparr>kn_world := snd (send_claimed_delivery now send m (kn_world s))\<rparr>)"
| k_await: "(ph, j) \<in> set (kn_workers s) \<Longrightarrow> ph \<in> {K_Answering, K_Answered, K_Falling} \<Longrightarrow> is_direct_instagram_dm j \<Longrightarrow>
     pa_fallback payload = (ph = K_Falling) \<Longrightarrow>
     mark_direct_job_waiting_for_delivery now (jb_id j) (jb_lease j) ids payload reason (run_db s) = (True, db) \<Longrightarrow>
     kstep s (moves (ph, j) [] (with_db db s))"
| k_look: "claim_waiting_for_delivery_job now (run_db s) = (Some j, db) \<Longrightarrow>
     kstep s (with_db (snd (reconcile_waiting_for_delivery_job now handoff provider j db)) s)"
| k_request: "kstep s (with_db (snd (request_delivery_reconciliation now mid (run_db s))) s)"
| k_callback: "kstep s (with_db (snd (persist_salesbot_callback now new_id sha cfg ms d url claims (run_db s))) s)"
| k_recover: "kstep s (with_db (snd (recover_stale_jobs now (run_db s))) s)"
| k_timed_out: "kstep s (with_db (snd (release_timed_out now jid (run_db s))) s)"
| k_match: "kstep s (with_db (snd (match_context now jid event story score sender context (run_db s))) s)"
| k_ambiguous: "kstep s (with_db (mark_job_ambiguous now jid (run_db s)) s)"
| k_enrich: "kstep s (with_db (enrich_matched now jid event context (run_db s)) s)"
| k_release: "kstep s (with_db (release_matched now jid story context (run_db s)) s)"
| k_crash: "x \<in> set (kn_workers s) \<Longrightarrow> kstep s (moves x [] s)"

definition kinit :: "kommo_run \<Rightarrow> bool" where
  "kinit s = (run_jobs s = [] \<and> kn_workers s = [] \<and> kw_launched (kn_world s) = [] \<and> kw_replies (kn_world s) = []
     \<and> kw_continued (kn_world s) = [])"

section \<open>The invariant\<close>

abbreviation terminal :: "kommo_job \<Rightarrow> bool" where
  "terminal j \<equiv> jb_status j \<in> set terminal_statuses"

text \<open>How often a job can have been claimed when it has a status.\<close>

definition attempt_bound :: "kommo_job \<Rightarrow> int" where
  "attempt_bound j = (case jb_status j of
      JPending \<Rightarrow> 2 | JPrepared \<Rightarrow> 0 | JSalesbot \<Rightarrow> 3 | JContext \<Rightarrow> 3
    | JReady \<Rightarrow> if is_fallback_job j then 4 else 3
    | JProcessing \<Rightarrow> if jb_ai j = None then 3 else if is_fallback_job j then 5 else 4
    | JDelivery \<Rightarrow> if is_fallback_job j then 5 else 4
    | JContinuing \<Rightarrow> 4 | _ \<Rightarrow> 5)"

text \<open>What a status says of the other columns.\<close>

definition job_ok :: "kommo_job \<Rightarrow> bool" where
  "job_ok j = (jb_status j \<noteq> JPrepared \<and> 0 \<le> jb_attempts j \<and> jb_attempts j \<le> attempt_bound j
     \<and> jb_interaction j \<in> set [private_message_scope, instagram_comment_scope]
     \<and> (jb_lease j \<noteq> None \<longrightarrow> jb_status j \<in> {JProcessing, JSalesbot, JContinuing})
     \<and> (jb_status j \<in> {JProcessing, JContinuing} \<longrightarrow> jb_lease j \<noteq> None \<and> jb_started j \<noteq> None)
     \<and> (jb_status j \<in> {JReady, JContext, JDelivery} \<or> (jb_status j = JProcessing \<and> jb_ai j \<noteq> None) \<longrightarrow> claimable j)
     \<and> (jb_status j = JContext \<longrightarrow> jb_deadline j \<noteq> None)
     \<and> (jb_status j = JDelivery \<longrightarrow> stored_direct j \<and> jb_reconcile j \<noteq> None)
     \<and> (is_fallback_job j \<longrightarrow> jb_status j \<in> {JReady, JProcessing, JDelivery} \<union> set terminal_statuses)
     \<and> (is_fallback_job j \<and> jb_status j = JProcessing \<longrightarrow> jb_ai j \<noteq> None))"

text \<open>What a worker knows of the row while its lease stands.\<close>

fun phase_fits :: "phase \<Rightarrow> kommo_job \<Rightarrow> bool" where
  "phase_fits K_Preparing j = (jb_status j = JProcessing \<and> jb_ai j = None)"
| "phase_fits K_Launching j = (jb_status j = JSalesbot)"
| "phase_fits K_Launched j = (jb_status j = JSalesbot)"
| "phase_fits K_Answering j = (jb_status j = JProcessing \<and> jb_ai j \<noteq> None \<and> \<not> is_fallback_job j)"
| "phase_fits K_Answered j = (jb_status j = JProcessing \<and> jb_ai j \<noteq> None \<and> \<not> is_fallback_job j)"
| "phase_fits K_Falling j = (jb_status j = JProcessing \<and> jb_ai j \<noteq> None \<and> is_fallback_job j)"
| "phase_fits K_Continuing j = (jb_status j = JContinuing)"
| "phase_fits K_Concluding j = (jb_status j = JContinuing)"

definition same_columns :: "kommo_job \<Rightarrow> kommo_job \<Rightarrow> bool" where
  "same_columns r j = (jb_attempts j = jb_attempts r \<and> jb_channel j = jb_channel r \<and> jb_interaction j = jb_interaction r
     \<and> jb_talk j = jb_talk r \<and> jb_url j = jb_url r)"

definition fits :: "phase \<times> kommo_job \<Rightarrow> kommo_job \<Rightarrow> bool" where
  "fits x j = (jb_id j = jb_id (snd x) \<and> jb_lease j = jb_lease (snd x) \<and> jb_lease j \<noteq> None \<longrightarrow>
     phase_fits (fst x) j \<and> same_columns (snd x) j)"

text \<open>The stages a job passes once: the Salesbot awaited, the reply asked for, the Salesbot continued.\<close>

datatype act = Act_Launch | Act_Reply | Act_Continue

fun ready_phase :: "act \<Rightarrow> phase" where
  "ready_phase Act_Launch = K_Launching"
| "ready_phase Act_Reply = K_Answering"
| "ready_phase Act_Continue = K_Continuing"

fun acted :: "act \<Rightarrow> kommo_world \<Rightarrow> string list" where
  "acted Act_Launch w = kw_launched w"
| "acted Act_Reply w = kw_replies w"
| "acted Act_Continue w = map fst (kw_continued w)"

fun past :: "act \<Rightarrow> kommo_job \<Rightarrow> bool" where
  "past Act_Launch j = (\<not> (jb_status j = JPending \<or> (jb_status j = JProcessing \<and> jb_ai j = None)))"
| "past Act_Reply j = (terminal j \<or> jb_status j \<in> {JContinuing, JDelivery} \<or> is_fallback_job j
     \<or> (jb_status j = JProcessing \<and> jb_ai j \<noteq> None))"
| "past Act_Continue j = (terminal j \<or> jb_status j = JContinuing)"

text \<open>The acts of a job, done or about to be done.\<close>

definition acts_of :: "act \<Rightarrow> string \<Rightarrow> kommo_run \<Rightarrow> nat" where
  "acts_of a jid s = count_list (acted a (kn_world s)) jid
     + length (filter (\<lambda>x. fst x = ready_phase a \<and> jb_id (snd x) = jid) (kn_workers s))"

definition kinv :: "kommo_run \<Rightarrow> bool" where
  "kinv s = (jobs_indexed (run_jobs s) \<and> (\<forall>j \<in> set (run_jobs s). job_ok j)
     \<and> (\<forall>x \<in> set (kn_workers s). jb_lease (snd x) \<noteq> None \<and> jb_id (snd x) \<in> jb_id ` set (run_jobs s))
     \<and> distinct (map (jb_lease \<circ> snd) (kn_workers s))
     \<and> (\<forall>x \<in> set (kn_workers s). \<forall>j \<in> set (run_jobs s). fits x j)
     \<and> (\<forall>a jid. acts_of a jid s \<le> 1)
     \<and> (\<forall>a. set (acted a (kn_world s)) \<subseteq> jb_id ` set (run_jobs s))
     \<and> (\<forall>a. \<forall>j \<in> set (run_jobs s). 0 < acts_of a (jb_id j) s \<longrightarrow> past a j))"
section \<open>Lemmas on states\<close>

lemma with_db_sel [simp]: "kw_db (kn_world (with_db db s)) = db" "kn_workers (with_db db s) = kn_workers s"
  "kn_world (with_db db s) = (kn_world s)\<lparr>kw_db := db\<rparr>"
  by (simp_all add: with_db_def)

lemma moves_sel [simp]: "kn_world (moves x ys s) = kn_world s" "kn_workers (moves x ys s) = ys @ remove1 x (kn_workers s)"
  by (simp_all add: moves_def)

lemma joins_sel [simp]: "kn_world (joins x s) = kn_world s" "kn_workers (joins x s) = x # kn_workers s"
  by (simp_all add: joins_def)

lemma moves_one: "moves x [y] s = joins y (moves x [] s)"
  by (simp add: moves_def joins_def)

lemma acted_db [simp]: "acted a (w\<lparr>kw_db := db\<rparr>) = acted a w"
  by (cases a) simp_all

lemma acts_of_db [simp]: "acts_of a jid (with_db db s) = acts_of a jid s"
  by (simp add: acts_of_def)

lemma kinvD:
  assumes "kinv s"
  shows "jobs_indexed (run_jobs s)" "j \<in> set (run_jobs s) \<Longrightarrow> job_ok j"
    "x \<in> set (kn_workers s) \<Longrightarrow> jb_lease (snd x) \<noteq> None" "x \<in> set (kn_workers s) \<Longrightarrow> jb_id (snd x) \<in> jb_id ` set (run_jobs s)"
    "distinct (map (jb_lease \<circ> snd) (kn_workers s))"
    "x \<in> set (kn_workers s) \<Longrightarrow> j \<in> set (run_jobs s) \<Longrightarrow> fits x j"
    "acts_of a jid s \<le> 1" "set (acted a (kn_world s)) \<subseteq> jb_id ` set (run_jobs s)"
    "j \<in> set (run_jobs s) \<Longrightarrow> 0 < acts_of a (jb_id j) s \<Longrightarrow> past a j"
  using assms unfolding kinv_def by blast+

lemma same_job_id:
  "jobs_indexed t \<Longrightarrow> j \<in> set t \<Longrightarrow> k \<in> set t \<Longrightarrow> jb_id j = jb_id k \<Longrightarrow> j = k"
  by (auto simp: jobs_indexed_def distinct_map inj_on_def)

text \<open>What an update of a row must keep.\<close>

definition settles :: "kommo_run \<Rightarrow> kommo_job \<Rightarrow> kommo_job \<Rightarrow> bool" where
  "settles s j k = (jb_id k = jb_id j \<and> job_ok k \<and> (\<forall>a. 0 < acts_of a (jb_id j) s \<longrightarrow> past a j \<longrightarrow> past a k)
     \<and> (\<forall>x \<in> set (kn_workers s). fits x j \<longrightarrow> fits x k))"

definition keeps_keys :: "kommo_job \<Rightarrow> kommo_job \<Rightarrow> bool" where
  "keeps_keys j k = (jb_id k = jb_id j \<and> jb_correlation k = jb_correlation j \<and> jb_external k = jb_external j
     \<and> jb_event k = jb_event j \<and> (is_pending k \<longrightarrow> is_pending j) \<and> (is_active k \<longrightarrow> is_active j))"

lemma indexed_rows:
  assumes t: "jobs_indexed t" and f: "\<And>j. j \<in> set t \<Longrightarrow> p j \<Longrightarrow> keeps_keys j (f j)"
  shows "jobs_indexed (upd_where p f t)"
proof -
  have ids: "map jb_id (upd_where p f t) = map jb_id t" using f by (auto simp: upd_where_def keeps_keys_def)
  show ?thesis unfolding jobs_indexed_def
  proof (intro conjI)
    show "distinct (map jb_id (upd_where p f t))" using t ids by (simp add: jobs_indexed_def)
    show "unique_among (\<lambda>j. jb_external j \<noteq> None) jb_external (upd_where p f t)"
      using t f by (intro unique_among_upd) (auto simp: jobs_indexed_def keeps_keys_def)
    show "unique_among is_pending jb_correlation (upd_where p f t)"
      using t f by (intro unique_among_upd) (auto simp: jobs_indexed_def keeps_keys_def)
    show "unique_among is_active jb_correlation (upd_where p f t)"
      using t f by (intro unique_among_upd) (auto simp: jobs_indexed_def keeps_keys_def)
    show "unique_among (\<lambda>j. jb_event j \<noteq> None) jb_event (upd_where p f t)"
      using t f by (intro unique_among_upd) (auto simp: jobs_indexed_def keeps_keys_def)
  qed
qed

lemma kinv_rows_indexed:
  assumes s: "kinv s" and t: "kj_jobs db = upd_where p f (run_jobs s)" "jobs_indexed (kj_jobs db)"
    and f: "\<And>j. j \<in> set (run_jobs s) \<Longrightarrow> p j \<Longrightarrow> settles s j (f j)"
  shows "kinv (with_db db s)"
proof -
  have row: "\<exists>j \<in> set (run_jobs s). jb_id k = jb_id j \<and> job_ok k \<and> (\<forall>a. 0 < acts_of a (jb_id j) s \<longrightarrow> past a k)
      \<and> (\<forall>x \<in> set (kn_workers s). fits x k)" if k: "k \<in> set (kj_jobs db)" for k
  proof -
    obtain j where j: "j \<in> set (run_jobs s)" "k = (if p j then f j else j)" using k unfolding t(1) in_upd_where by blast
    note old = kinvD(2)[OF s j(1)] kinvD(9)[OF s j(1)] kinvD(6)[OF s _ j(1)]
    show ?thesis
    proof (cases "p j")
      case True
      then show ?thesis using j f[OF j(1) True] old(2,3) unfolding settles_def by (intro bexI[OF _ j(1)]) simp
    next
      case False
      then show ?thesis using j old by (intro bexI[OF _ j(1)]) simp
    qed
  qed
  have "map jb_id (kj_jobs db) = map jb_id (run_jobs s)"
    using f unfolding t(1) settles_def by (auto simp: upd_where_def)
  then have ids: "jb_id ` set (kj_jobs db) = jb_id ` set (run_jobs s)" by (metis list.set_map)
  show ?thesis unfolding kinv_def
  proof (intro conjI)
    show "jobs_indexed (run_jobs (with_db db s))" using t(2) by simp
    show "\<forall>j \<in> set (run_jobs (with_db db s)). job_ok j" using row unfolding with_db_sel(1,2) by blast
    show "\<forall>x \<in> set (kn_workers (with_db db s)). jb_lease (snd x) \<noteq> None \<and> jb_id (snd x) \<in> jb_id ` set (run_jobs (with_db db s))"
      using kinvD(3,4)[OF s] ids by simp
    show "distinct (map (jb_lease \<circ> snd) (kn_workers (with_db db s)))" using kinvD(5)[OF s] by simp
    show "\<forall>x \<in> set (kn_workers (with_db db s)). \<forall>j \<in> set (run_jobs (with_db db s)). fits x j" using row unfolding with_db_sel(1,2) by blast
    show "\<forall>a jid. acts_of a jid (with_db db s) \<le> 1" using kinvD(7)[OF s] by simp
    show "\<forall>a. set (acted a (kn_world (with_db db s))) \<subseteq> jb_id ` set (run_jobs (with_db db s))"
      using kinvD(8)[OF s] ids by simp
    show "\<forall>a. \<forall>j \<in> set (run_jobs (with_db db s)). 0 < acts_of a (jb_id j) (with_db db s) \<longrightarrow> past a j"
      using row unfolding with_db_sel(1,2) acts_of_db by metis
  qed
qed

lemma kinv_rows:
  assumes s: "kinv s" and t: "kj_jobs db = upd_where p f (run_jobs s)"
    and f: "\<And>j. j \<in> set (run_jobs s) \<Longrightarrow> p j \<Longrightarrow> settles s j (f j)" "\<And>j. j \<in> set (run_jobs s) \<Longrightarrow> p j \<Longrightarrow> keeps_keys j (f j)"
  shows "kinv (with_db db s)"
  using kinv_rows_indexed[OF s t _ f(1)] indexed_rows[OF kinvD(1)[OF s] f(2)] t by simp

lemma kinv_same_jobs: "kinv s \<Longrightarrow> kj_jobs db = run_jobs s \<Longrightarrow> kinv (with_db db s)"
  using kinv_rows[of s db "\<lambda>_. False" id] by (simp add: upd_where_def)

lemma kinv_insert:
  assumes s: "kinv s" and t: "kj_jobs db = run_jobs s @ [j]" "jobs_indexed (kj_jobs db)" and j: "job_ok j" "jb_lease j = None"
  shows "kinv (with_db db s)"
proof -
  have new: "jb_id j \<notin> jb_id ` set (run_jobs s)" using t by (auto simp: jobs_indexed_def)
  have none: "acts_of a (jb_id j) s = 0" for a
  proof -
    have "jb_id j \<notin> set (acted a (kn_world s))" using new kinvD(8)[OF s, of a] by blast
    moreover have "jb_id (snd x) \<noteq> jb_id j" if "x \<in> set (kn_workers s)" for x using kinvD(4)[OF s that] new by metis
    ultimately show ?thesis by (auto simp: acts_of_def count_list_0_iff filter_empty_conv)
  qed
  have fit: "fits x j" for x using j(2) by (simp add: fits_def)
  show ?thesis unfolding kinv_def
  proof (intro conjI)
    show "\<forall>x \<in> set (kn_workers (with_db db s)). \<forall>j \<in> set (run_jobs (with_db db s)). fits x j"
      using fit kinvD(6)[OF s] t(1) by simp
    show "\<forall>a. \<forall>j \<in> set (run_jobs (with_db db s)). 0 < acts_of a (jb_id j) (with_db db s) \<longrightarrow> past a j"
      using none kinvD(9)[OF s] t(1) by simp
  qed (use s t j in \<open>auto simp: kinv_def\<close>)
qed
lemma acts_of_drop:
  "x \<in> set (kn_workers s) \<Longrightarrow> acts_of a jid s = acts_of a jid (moves x [] s)
     + (if fst x = ready_phase a \<and> jb_id (snd x) = jid then 1 else 0)"
proof -
  assume x: "x \<in> set (kn_workers s)"
  have "length (filter P ws) = length (filter P (remove1 x ws)) + (if P x then 1 else 0)"
    if "x \<in> set ws" for P :: "phase \<times> kommo_job \<Rightarrow> bool" and ws
    using that by (induction ws) auto
  from this[OF x] show ?thesis by (simp add: acts_of_def)
qed

lemma acts_of_join:
  "acts_of a jid (joins x s) = acts_of a jid s + (if fst x = ready_phase a \<and> jb_id (snd x) = jid then 1 else 0)"
  by (simp add: acts_of_def)

lemma kinv_drop:
  assumes s: "kinv s" and x: "x \<in> set (kn_workers s)"
  shows "kinv (moves x [] s)"
proof -
  have le: "acts_of a jid (moves x [] s) \<le> acts_of a jid s" for a jid using acts_of_drop[OF x, of a jid] by simp
  have sub: "set (remove1 x (kn_workers s)) \<subseteq> set (kn_workers s)" by (rule set_remove1_subset)
  have dis: "distinct (map g (remove1 x ws))" if "distinct (map g ws)" for g :: "_ \<Rightarrow> string option" and ws :: "(phase \<times> kommo_job) list"
    using that by (induction ws) (auto dest!: subsetD[OF set_remove1_subset])
  show ?thesis unfolding kinv_def
  proof (intro conjI)
    show "\<forall>a jid. acts_of a jid (moves x [] s) \<le> 1" using le kinvD(7)[OF s] order_trans by blast
    show "\<forall>a. \<forall>j \<in> set (run_jobs (moves x [] s)). 0 < acts_of a (jb_id j) (moves x [] s) \<longrightarrow> past a j"
      using le kinvD(9)[OF s] by (metis less_le_trans moves_sel(1))
    show "distinct (map (jb_lease \<circ> snd) (kn_workers (moves x [] s)))" using dis kinvD(5)[OF s] by simp
    show "\<forall>y \<in> set (kn_workers (moves x [] s)). jb_lease (snd y) \<noteq> None \<and> jb_id (snd y) \<in> jb_id ` set (run_jobs (moves x [] s))"
      using sub kinvD(3,4)[OF s] by auto
    show "\<forall>y \<in> set (kn_workers (moves x [] s)). \<forall>j \<in> set (run_jobs (moves x [] s)). fits y j"
      using sub kinvD(6)[OF s] by auto
  qed (use s in \<open>simp_all add: kinv_def\<close>)
qed

text \<open>A lease is gone from the workers with the worker that held it.\<close>

lemma lease_dropped:
  assumes s: "kinv s" and x: "x \<in> set (kn_workers s)"
  shows "jb_lease (snd x) \<notin> (jb_lease \<circ> snd) ` set (kn_workers (moves x [] s))"
proof -
  have "g x \<notin> g ` set (remove1 x ws)" if "distinct (map g ws)" "x \<in> set ws"
    for g :: "phase \<times> kommo_job \<Rightarrow> string option" and ws
    using that by (induction ws) (auto dest: notin_set_remove1 intro: rev_image_eqI)
  from this[OF kinvD(5)[OF s] x] show ?thesis by simp
qed

lemma kinv_join:
  assumes s: "kinv s" and x: "jb_lease (snd x) \<noteq> None" "jb_lease (snd x) \<notin> (jb_lease \<circ> snd) ` set (kn_workers s)"
    and k: "k \<in> set (run_jobs s)" "jb_id k = jb_id (snd x)" "fits x k"
    and a: "\<And>a. fst x = ready_phase a \<Longrightarrow> acts_of a (jb_id (snd x)) s = 0 \<and> past a k"
  shows "kinv (joins x s)"
proof -
  note only = same_job_id[OF kinvD(1)[OF s] _ k(1)]
  have idx: "jb_id (snd x) \<in> jb_id ` set (run_jobs s)" using k(1) k(2)[symmetric] by simp
  show ?thesis unfolding kinv_def
  proof (intro conjI)
    show "\<forall>b jid. acts_of b jid (joins x s) \<le> 1"
    proof (intro allI)
      fix b jid show "acts_of b jid (joins x s) \<le> 1"
        using a[of b] kinvD(7)[OF s, of b jid] by (cases "fst x = ready_phase b \<and> jb_id (snd x) = jid") (auto simp: acts_of_join)
    qed
    show "\<forall>b. \<forall>j \<in> set (run_jobs (joins x s)). 0 < acts_of b (jb_id j) (joins x s) \<longrightarrow> past b j"
    proof (intro allI ballI impI)
      fix b j assume j: "j \<in> set (run_jobs (joins x s))" "0 < acts_of b (jb_id j) (joins x s)"
      show "past b j"
      proof (cases "fst x = ready_phase b \<and> jb_id (snd x) = jb_id j")
        case True
        then have "j = k" using only[of j] j(1) k(2) by simp
        then show ?thesis using a True by blast
      next
        case False
        then have "0 < acts_of b (jb_id j) s" using j(2) by (auto simp: acts_of_join split: if_splits)
        then show ?thesis using kinvD(9)[OF s] j(1) by simp
      qed
    qed
    show "\<forall>y \<in> set (kn_workers (joins x s)). \<forall>j \<in> set (run_jobs (joins x s)). fits y j"
    proof (intro ballI)
      fix y j assume y: "y \<in> set (kn_workers (joins x s))" and j: "j \<in> set (run_jobs (joins x s))"
      show "fits y j"
      proof (cases "y = x")
        case True
        have "j = k" if "jb_id j = jb_id k" using only[OF _ that] j by simp
        then show ?thesis using True k(2,3) unfolding fits_def by metis
      next
        case False
        then show ?thesis using y j kinvD(6)[OF s] by simp
      qed
    qed
    show "\<forall>y \<in> set (kn_workers (joins x s)). jb_lease (snd y) \<noteq> None \<and> jb_id (snd y) \<in> jb_id ` set (run_jobs (joins x s))"
      using kinvD(3,4)[OF s] x(1) idx by simp
  qed (use s x in \<open>auto simp: kinv_def\<close>)
qed

text \<open>An act: the worker that was about to do it records it.\<close>

lemma kinv_act:
  assumes s: "kinv s" and x: "(ready_phase a, j) \<in> set (kn_workers s)" and y: "\<And>b. ph \<noteq> ready_phase b"
    and fit: "\<And>k. phase_fits (ready_phase a) k \<Longrightarrow> phase_fits ph k"
    and w: "kw_db w = run_db s" "acted a w = acted a (kn_world s) @ [jb_id j]" "\<And>b. b \<noteq> a \<Longrightarrow> acted b w = acted b (kn_world s)"
  shows "kinv (moves (ready_phase a, j) [(ph, j)] (s\<lparr>kn_world := w\<rparr>))"
proof -
  let ?x = "(ready_phase a, j)" and ?s = "moves (ready_phase a, j) [(ph, j)] (s\<lparr>kn_world := w\<rparr>)"
  have inj: "ready_phase b = ready_phase c \<Longrightarrow> b = c" for b c by (cases b; cases c) simp_all
  have same: "acts_of b jid ?s = acts_of b jid s" for b jid
  proof (cases "b = a")
    case True
    then show ?thesis using acts_of_drop[OF x, of b jid] w y by (simp add: acts_of_def)
  next
    case False
    then have "ready_phase a \<noteq> ready_phase b" using inj by blast
    then show ?thesis using acts_of_drop[OF x, of b jid] w(3)[OF False] y by (simp add: acts_of_def)
  qed
  have jobs: "run_jobs ?s = run_jobs s" using w(1) by simp
  have sub: "set (kn_workers ?s) \<subseteq> insert (ph, j) (set (kn_workers s))" using set_remove1_subset by fastforce
  have nl: "jb_lease j \<notin> (jb_lease \<circ> snd) ` set (kn_workers (moves ?x [] s))" using lease_dropped[OF s x] by simp
  show ?thesis unfolding kinv_def
  proof (intro conjI)
    show "jobs_indexed (run_jobs ?s)" "\<forall>k \<in> set (run_jobs ?s). job_ok k" unfolding jobs using s by (simp_all add: kinv_def)
    show "\<forall>y \<in> set (kn_workers ?s). jb_lease (snd y) \<noteq> None \<and> jb_id (snd y) \<in> jb_id ` set (run_jobs ?s)"
      unfolding jobs using sub kinvD(3,4)[OF s] kinvD(3,4)[OF s x] by fastforce
    show "distinct (map (jb_lease \<circ> snd) (kn_workers ?s))"
      using kinvD(5)[OF kinv_drop[OF s x]] nl by simp
    show "\<forall>y \<in> set (kn_workers ?s). \<forall>k \<in> set (run_jobs ?s). fits y k"
    proof (intro ballI)
      fix y k assume yk: "y \<in> set (kn_workers ?s)" "k \<in> set (run_jobs ?s)"
      then have k: "k \<in> set (run_jobs s)" unfolding jobs by blast
      show "fits y k"
      proof (cases "y = (ph, j)")
        case True
        then show ?thesis using kinvD(6)[OF s x k] fit unfolding True fits_def fst_conv snd_conv by blast
      next
        case False
        then show ?thesis using yk(1) sub kinvD(6)[OF s _ k] by blast
      qed
    qed
    show "\<forall>b jid. acts_of b jid ?s \<le> 1" unfolding same using kinvD(7)[OF s] by simp
    show "\<forall>b. set (acted b (kn_world ?s)) \<subseteq> jb_id ` set (run_jobs ?s)"
    proof
      fix b show "set (acted b (kn_world ?s)) \<subseteq> jb_id ` set (run_jobs ?s)"
        unfolding jobs using kinvD(8)[OF s, of b] kinvD(4)[OF s x] w(2,3) by (cases "b = a") auto
    qed
    show "\<forall>b. \<forall>k \<in> set (run_jobs ?s). 0 < acts_of b (jb_id k) ?s \<longrightarrow> past b k"
      unfolding same jobs using kinvD(9)[OF s] by blast
  qed
qed
section \<open>Changes of a row\<close>

lemma attempt_bound_le: "attempt_bound j \<le> 5"
  by (simp add: attempt_bound_def split: job_status.split)

lemma past_terminal: "terminal j \<Longrightarrow> past a j"
  by (cases a) (auto simp: terminal_statuses_def)

lemma not_active_terminal: "terminal j \<Longrightarrow> \<not> is_active j \<and> \<not> is_pending j"
  by (auto simp: terminal_statuses_def is_active_def is_pending_def active_statuses_def)

text \<open>A row reaches a terminal status; a row is released to be claimed; a row keeps its place.\<close>

definition same_keys :: "kommo_job \<Rightarrow> kommo_job \<Rightarrow> bool" where
  "same_keys j k = (jb_id k = jb_id j \<and> jb_correlation k = jb_correlation j \<and> jb_external k = jb_external j
     \<and> jb_event k = jb_event j \<and> jb_interaction k = jb_interaction j \<and> jb_attempts k = jb_attempts j)"

definition ends :: "kommo_job \<Rightarrow> kommo_job \<Rightarrow> bool" where
  "ends j k = (same_keys j k \<and> jb_lease k = None \<and> terminal k)"

definition stays :: "kommo_job \<Rightarrow> kommo_job \<Rightarrow> bool" where
  "stays j k = (same_keys j k \<and> jb_lease k = jb_lease j \<and> jb_status k = jb_status j \<and> jb_ai k = jb_ai j
     \<and> is_fallback_job k = is_fallback_job j \<and> same_columns j k \<and> jb_started k = jb_started j
     \<and> jb_deadline k = jb_deadline j \<and> (jb_reconcile j \<noteq> None \<longrightarrow> jb_reconcile k \<noteq> None))"

lemma ends_settles:
  assumes "job_ok j" "ends j k" shows "settles s j k" "keeps_keys j k"
proof -
  have st: "jb_status k \<in> set terminal_statuses" "jb_status k \<notin> {JPending, JPrepared, JSalesbot, JContext, JDelivery, JReady, JProcessing, JContinuing}"
    using assms(2) by (auto simp: ends_def terminal_statuses_def)
  have k: "jb_id k = jb_id j" "jb_interaction k = jb_interaction j" "jb_attempts k = jb_attempts j" "jb_lease k = None"
    using assms(2) by (simp_all add: ends_def same_keys_def)
  have "jb_attempts k \<le> 5" "0 \<le> jb_attempts k"
    using assms(1) attempt_bound_le[of j] k(3) unfolding job_ok_def by auto
  moreover have "attempt_bound k = 5" using st(2) by (simp add: attempt_bound_def split: job_status.split)
  moreover have "jb_interaction k \<in> set [private_message_scope, instagram_comment_scope]"
    using assms(1) k(2) unfolding job_ok_def by simp
  ultimately have ok: "job_ok k" using st k(4) unfolding job_ok_def by simp
  have "fits x k" for x using k(4) by (simp add: fits_def)
  then show "settles s j k" using ok k(1) past_terminal[OF st(1)] by (simp add: settles_def)
  show "keeps_keys j k" using assms not_active_terminal[of k] by (simp add: keeps_keys_def ends_def same_keys_def)
qed

lemma past_cong:
  "jb_status k = jb_status j \<Longrightarrow> jb_ai k = jb_ai j \<Longrightarrow> is_fallback_job k = is_fallback_job j \<Longrightarrow> past a k = past a j"
  by (cases a) simp_all

lemma phase_fits_cong:
  "jb_status k = jb_status j \<Longrightarrow> jb_ai k = jb_ai j \<Longrightarrow> is_fallback_job k = is_fallback_job j \<Longrightarrow> phase_fits ph k = phase_fits ph j"
  by (cases ph) simp_all

lemma stays_settles:
  assumes "job_ok j" "stays j k" shows "settles s j k" "keeps_keys j k"
proof -
  have cols: "same_columns j k" "jb_status k = jb_status j" "jb_ai k = jb_ai j" "is_fallback_job k = is_fallback_job j"
    "jb_lease k = jb_lease j" "same_keys j k" using assms(2) by (simp_all add: stays_def)
  have bound: "attempt_bound k = attempt_bound j" using cols by (simp add: attempt_bound_def split: job_status.split)
  have claim: "claimable k = claimable j" "stored_direct k = stored_direct j"
    using cols(1) by (simp_all add: claimable_def stored_direct_def same_columns_def)
  have ok: "job_ok k" using assms bound claim unfolding job_ok_def stays_def same_keys_def by simp
  have fit: "fits x k" if "fits x j" for x
    using that cols phase_fits_cong[OF cols(2,3,4)] unfolding fits_def same_columns_def same_keys_def by auto
  show "settles s j k" using ok fit cols past_cong[OF cols(2,3,4)] by (simp add: settles_def same_keys_def)
  show "keeps_keys j k" using cols by (simp add: keeps_keys_def same_keys_def is_active_def is_pending_def)
qed

lemma kinv_ends:
  assumes s: "kinv s" and t: "kj_jobs db = upd_where p f (run_jobs s)" and f: "\<And>j. p j \<Longrightarrow> ends j (f j)"
  shows "kinv (with_db db s)"
  by (rule kinv_rows[OF s t]) (use f ends_settles kinvD(2)[OF s] in blast)+

lemma kinv_stays:
  assumes s: "kinv s" and t: "kj_jobs db = upd_where p f (run_jobs s)" and f: "\<And>j. p j \<Longrightarrow> stays j (f j)"
  shows "kinv (with_db db s)"
  by (rule kinv_rows[OF s t]) (use f stays_settles kinvD(2)[OF s] in blast)+

text \<open>A row is released: no lease, an active status, and nothing undone.\<close>

lemma kinv_frees:
  assumes s: "kinv s" and t: "kj_jobs db = upd_where p f (run_jobs s)"
    and f: "\<And>j. j \<in> set (run_jobs s) \<Longrightarrow> p j \<Longrightarrow> same_keys j (f j) \<and> jb_lease (f j) = None \<and> job_ok (f j)
       \<and> is_active j \<and> is_active (f j) \<and> (\<forall>a. 0 < acts_of a (jb_id j) s \<longrightarrow> past a j \<longrightarrow> past a (f j))"
  shows "kinv (with_db db s)"
proof (rule kinv_rows[OF s t])
  fix j assume "j \<in> set (run_jobs s)" "p j"
  note fj = f[OF this]
  show "settles s j (f j)" using fj by (auto simp: settles_def same_keys_def fits_def)
  show "keeps_keys j (f j)" using fj by (auto simp: keeps_keys_def same_keys_def is_active_def is_pending_def active_statuses_def)
qed

lemma set_jobs_sel [simp]: "kj_jobs (set_jobs p f db) = upd_where p f (kj_jobs db)"
  "kj_outbound (set_jobs p f db) = kj_outbound db" "kj_receipts (set_jobs p f db) = kj_receipts db"
  by (simp_all add: set_jobs_def)

lemma set_outbound_sel [simp]: "kj_jobs (set_outbound p f db) = kj_jobs db"
  by (simp add: set_outbound_def)

lemma add_receipt_sel [simp]: "kj_jobs (add_receipt r db) = kj_jobs db"
  by (simp add: add_receipt_def)

lemma upd_held_sel [simp]: "kj_jobs (snd (upd_held jid st l f db)) = upd_where (held jid st l) f (kj_jobs db)"
  "upd_held jid st l f db = (b, db') \<Longrightarrow> db' = set_jobs (held jid st l) f db"
  by (auto simp: upd_held_def)

section \<open>Steps that end a job\<close>

lemma keeps_mark:
  assumes "kinv s" "st \<in> {JFailed, JDiscarded, JUnknown}" "jb_lease j \<noteq> None"
  shows "kinv (with_db (mark_job now (jb_id j) st err (jb_lease j) (run_db s)) s)"
  unfolding mark_job_def
  by (rule kinv_ends[OF assms(1) set_jobs_sel(1)]) (use assms(2) in \<open>auto simp: ends_def same_keys_def marked_def terminal_statuses_def\<close>)

lemma keeps_held_end:
  assumes "kinv s" "\<And>j. ends j (f j)"
  shows "kinv (with_db (snd (upd_held jid st l f (run_db s))) s)"
  by (rule kinv_ends[OF assms(1) upd_held_sel(1)]) (rule assms(2))

lemma keeps_superseded:
  assumes "kinv s" shows "kinv (with_db (snd (discard_superseded now jid (run_db s))) s)"
proof -
  have "kj_jobs (snd (discard_superseded now jid (run_db s)))
      = upd_where (\<lambda>j. jb_id j = jid \<and> may_discard j \<and> \<not> send_begun (jb_id j) (run_db s)) (superseded_row now) (run_jobs s)"
    by (simp add: discard_superseded_def Let_def)
  then show ?thesis
    by (rule kinv_ends[OF assms]) (simp add: ends_def same_keys_def superseded_row_def finished_def terminal_statuses_def)
qed

lemma keeps_discard:
  assumes "kinv s" shows "kinv (with_db (snd (discard_private_job_if_superseded now sha window ms job (run_db s))) s)"
  using keeps_superseded[OF assms] kinv_same_jobs[OF assms refl]
  by (simp add: discard_private_job_if_superseded_def Let_def)
section \<open>Steps that release a job\<close>

lemma direct_stored:
  assumes "is_direct_instagram_dm j" "jb_interaction j \<in> set [private_message_scope, instagram_comment_scope]"
  shows "stored_direct j"
proof -
  have "py_lower (py_strip instagram_comment_scope) \<noteq> private_message_scope" by code_simp
  then show ?thesis using assms by (auto simp: is_direct_instagram_dm_def stored_direct_def)
qed

lemma held_fits:
  assumes "kinv s" "(ph, j) \<in> set (kn_workers s)" "r \<in> set (run_jobs s)" "held (jb_id j) st (jb_lease j) r"
  shows "phase_fits ph r" "same_columns j r" "job_ok r" "jb_status r = st" "jb_lease r = jb_lease j" "jb_id r = jb_id j"
proof -
  have h: "jb_id r = jb_id j" "jb_lease r = jb_lease j" "jb_lease r \<noteq> None" "jb_status r = st"
    using assms(4) by (auto simp: held_def)
  show "phase_fits ph r" "same_columns j r" using kinvD(6)[OF assms(1,2,3)] h by (auto simp: fits_def)
  show "job_ok r" "jb_status r = st" "jb_lease r = jb_lease j" "jb_id r = jb_id j" using kinvD(2)[OF assms(1,3)] h by simp_all
qed

lemma valid_talk: "is_valid_kommo_id t = Inr True \<Longrightarrow> t \<noteq> None"
  by (cases t) (simp_all add: is_valid_kommo_id_def)

lemma is_fallback_cong: "jb_assistant k = jb_assistant j \<Longrightarrow> is_fallback_job k = is_fallback_job j"
  by (simp add: is_fallback_job_def)

lemma keeps_prepared:
  assumes s: "kinv s" and j: "(K_Preparing, j) \<in> set (kn_workers s)" "is_direct_instagram_dm j" "is_valid_kommo_id (jb_talk j) = Inr True"
  shows "kinv (with_db (snd (mark_direct_instagram_job_prepared now (jb_id j) (jb_lease j) wc secs supp reason (run_db s))) s)"
  unfolding mark_direct_instagram_job_prepared_def
proof (rule kinv_frees[OF s upd_held_sel(1)])
  fix r assume r: "r \<in> set (run_jobs s)" "held (jb_id j) JProcessing (jb_lease j) r"
  note h = held_fits[OF s j(1) r]
  let ?k = "prepared_row now wc secs supp reason r"
  have ai: "jb_ai r = None" using h(1) by simp
  have nf: "\<not> is_fallback_job r" using h(3,4) ai by (auto simp: job_ok_def)
  have k: "jb_status ?k \<in> {JContext, JReady}" "jb_status ?k = JContext \<longrightarrow> jb_deadline ?k \<noteq> None"
    "jb_interaction ?k = jb_interaction r" "jb_talk ?k = jb_talk r" "jb_channel ?k = jb_channel r" "jb_lease ?k = None"
    "jb_attempts ?k = jb_attempts r" "is_fallback_job ?k = is_fallback_job r" "jb_ai ?k = None"
    by (simp_all add: prepared_row_def is_fallback_job_def)
  have "jb_interaction j \<in> set [private_message_scope, instagram_comment_scope]"
    using h(2,3) by (simp add: job_ok_def same_columns_def)
  then have "stored_direct r" "jb_talk r \<noteq> None"
    using direct_stored[OF j(2)] valid_talk[OF j(3)] h(2) by (simp_all add: stored_direct_def same_columns_def)
  then have "claimable ?k" using k by (simp add: claimable_def stored_direct_def)
  moreover have "jb_attempts r \<le> 3" using h(3,4) ai by (simp add: job_ok_def attempt_bound_def)
  moreover have "attempt_bound ?k = 3" using k(1,8) nf by (auto simp: attempt_bound_def)
  moreover have "jb_status ?k \<notin> {JPrepared, JProcessing, JContinuing, JDelivery}" using k(1) by auto
  ultimately have "job_ok ?k" using h(3) nf k(2-8) unfolding job_ok_def by simp
  moreover have "is_active r" "is_active ?k" using h(4) k(1) by (auto simp: is_active_def active_statuses_def)
  moreover have "same_keys r ?k" by (simp add: same_keys_def prepared_row_def)
  moreover have "past a r \<longrightarrow> past a ?k" for a using h(4) ai nf by (cases a) (auto simp: terminal_statuses_def)
  ultimately show "same_keys r ?k \<and> jb_lease ?k = None \<and> job_ok ?k \<and> is_active r \<and> is_active ?k
      \<and> (\<forall>a. 0 < acts_of a (jb_id r) s \<longrightarrow> past a r \<longrightarrow> past a ?k)" using k(6) by blast
qed

text \<open>A job is retried by its worker, which is gone with the same step: its reply was never asked for.\<close>

lemma keeps_retry:
  assumes s: "kinv s" and j: "(K_Answering, j) \<in> set (kn_workers s)" "jb_attempts j < max_job_attempts"
  shows "kinv (moves (K_Answering, j) [] (with_db (retry_ready_job now (jb_id j) (jb_lease j) err (run_db s)) s))"
proof -
  let ?s = "moves (K_Answering, j) [] s"
  have s': "kinv ?s" by (rule kinv_drop[OF s j(1)])
  have none: "acts_of Act_Reply (jb_id j) ?s = 0"
    using acts_of_drop[OF j(1), of Act_Reply "jb_id j"] kinvD(7)[OF s, of Act_Reply "jb_id j"] by simp
  have eq: "moves (K_Answering, j) [] (with_db (retry_ready_job now (jb_id j) (jb_lease j) err (run_db s)) s)
      = with_db (retry_ready_job now (jb_id j) (jb_lease j) err (run_db ?s)) ?s"
    by (simp add: with_db_def moves_def)
  show ?thesis unfolding eq unfolding retry_ready_job_def
  proof (rule kinv_frees[OF s' upd_held_sel(1)])
    fix r assume r0: "r \<in> set (run_jobs ?s)" and hr: "held (jb_id j) JProcessing (jb_lease j) r"
    then have r: "r \<in> set (run_jobs s)" by simp
    note h = held_fits[OF s j(1) r hr]
    define k where "k = r\<lparr>jb_status := JReady, jb_error := Some (sanitize_kommo_error err), jb_started := None,
       jb_lease := None, jb_ai := None, jb_updated := now\<rparr>"
    have k: "jb_status k = JReady" "jb_lease k = None" "jb_attempts k = jb_attempts r" "jb_interaction k = jb_interaction r"
      "claimable k = claimable r" "is_fallback_job k = is_fallback_job r" "same_keys r k" "jb_id k = jb_id r"
      by (simp_all add: k_def claimable_def stored_direct_def is_fallback_job_def same_keys_def)
    have nf: "\<not> is_fallback_job r" "jb_ai r \<noteq> None" using h(1) by simp_all
    have "claimable r" using h(3,4) nf by (simp add: job_ok_def)
    moreover have "jb_attempts r < 3" using h(2) j(2) by (simp add: same_columns_def max_job_attempts_def)
    ultimately have "job_ok k" using h(3) k nf unfolding job_ok_def by (simp add: attempt_bound_def)
    moreover have "0 < acts_of a (jb_id r) ?s \<longrightarrow> past a r \<longrightarrow> past a k" for a
      using h(4,6) none k(1) nf by (cases a) (auto simp: terminal_statuses_def)
    ultimately show "same_keys r k \<and> jb_lease k = None \<and> job_ok k \<and> is_active r \<and> is_active k
        \<and> (\<forall>a. 0 < acts_of a (jb_id r) ?s \<longrightarrow> past a r \<longrightarrow> past a k)"
      using h(4) k by (simp add: is_active_def active_statuses_def)
  qed
qed

lemma keeps_release:
  assumes s: "kinv s" and t: "kj_jobs db = upd_where p f (run_jobs s)"
    and f: "\<And>j. p j \<Longrightarrow> jb_status j = JContext \<and> jb_status (f j) = JReady \<and> same_keys j (f j)
      \<and> jb_lease (f j) = jb_lease j \<and> claimable (f j) = claimable j \<and> jb_assistant (f j) = jb_assistant j \<and> jb_ai (f j) = jb_ai j"
  shows "kinv (with_db db s)"
proof (rule kinv_frees[OF s t])
  fix j assume j: "j \<in> set (run_jobs s)" "p j"
  have ok: "job_ok j" using kinvD(2)[OF s j(1)] .
  note fj = f[OF j(2)] is_fallback_cong[of "f j" j]
  have nf: "\<not> is_fallback_job j" "jb_lease j = None" using ok fj by (auto simp: job_ok_def terminal_statuses_def)
  have "job_ok (f j)" using ok fj nf unfolding job_ok_def same_keys_def by (simp add: attempt_bound_def)
  moreover have "past a j \<longrightarrow> past a (f j)" for a using fj nf by (cases a) (auto simp: terminal_statuses_def)
  ultimately show "same_keys j (f j) \<and> jb_lease (f j) = None \<and> job_ok (f j) \<and> is_active j \<and> is_active (f j)
      \<and> (\<forall>a. 0 < acts_of a (jb_id j) s \<longrightarrow> past a j \<longrightarrow> past a (f j))"
    using fj nf by (simp add: is_active_def active_statuses_def)
qed

lemma keeps_timed_out: "kinv s \<Longrightarrow> kinv (with_db (snd (release_timed_out now jid (run_db s))) s)"
  unfolding release_timed_out_def Let_def snd_conv
  by (erule keeps_release[OF _ set_jobs_sel(1)]) (simp add: awaits_context_def same_keys_def claimable_def stored_direct_def)

lemma keeps_ambiguous: "kinv s \<Longrightarrow> kinv (with_db (mark_job_ambiguous now jid (run_db s)) s)"
  unfolding mark_job_ambiguous_def
  by (erule kinv_stays[OF _ set_jobs_sel(1)]) (simp add: stays_def same_keys_def same_columns_def is_fallback_job_def)

lemma keeps_enrich: "kinv s \<Longrightarrow> kinv (with_db (enrich_matched now jid event context (run_db s)) s)"
  unfolding enrich_matched_def
  by (erule kinv_stays[OF _ set_jobs_sel(1)]) (simp add: stays_def same_keys_def same_columns_def is_fallback_job_def)

lemma keeps_release_matched: "kinv s \<Longrightarrow> kinv (with_db (release_matched now jid story context (run_db s)) s)"
  unfolding release_matched_def
  by (erule keeps_release[OF _ set_jobs_sel(1)]) (simp add: awaits_context_def same_keys_def claimable_def stored_direct_def)
section \<open>Steps that keep the lease\<close>

lemma swap_db: "moves x ys (with_db db s) = with_db db (moves x ys s)"
  by (simp add: moves_def with_db_def)

lemma kinv_hold:
  assumes s: "kinv s" and x: "(ph, j) \<in> set (kn_workers s)"
    and t: "kj_jobs db = upd_where (held (jb_id j) st (jb_lease j)) f (run_jobs s)" "list_ex (held (jb_id j) st (jb_lease j)) (run_jobs s)"
    and f: "\<And>r. r \<in> set (run_jobs s) \<Longrightarrow> held (jb_id j) st (jb_lease j) r \<Longrightarrow>
       same_keys r (f r) \<and> jb_lease (f r) = jb_lease r \<and> job_ok (f r) \<and> same_columns r (f r) \<and> phase_fits ph' (f r)
       \<and> is_active r \<and> is_active (f r) \<and> (\<forall>a. past a r \<longrightarrow> past a (f r))
       \<and> (\<forall>a. ph' = ready_phase a \<longrightarrow> \<not> past a r \<and> past a (f r))"
  shows "kinv (moves (ph, j) [(ph', j)] (with_db db s))"
proof -
  let ?s = "moves (ph, j) [] s"
  have s1: "kinv ?s" by (rule kinv_drop[OF s x])
  have nl: "jb_lease j \<notin> (jb_lease \<circ> snd) ` set (kn_workers ?s)" using lease_dropped[OF s x] by simp
  obtain r where r: "r \<in> set (run_jobs s)" "held (jb_id j) st (jb_lease j) r" using t(2) by (auto simp: list_ex_iff)
  note fr = f[OF r] and h = held_fits[OF s x r]
  have lease: "jb_lease r = jb_lease j" "jb_id r = jb_id j" "jb_lease j \<noteq> None" using r(2) by (auto simp: held_def)
  have s2: "kinv (with_db db ?s)"
  proof (rule kinv_rows[OF s1])
    show "kj_jobs db = upd_where (held (jb_id j) st (jb_lease j)) f (run_jobs ?s)" using t(1) by simp
    fix q assume "q \<in> set (run_jobs ?s)" and hq: "held (jb_id j) st (jb_lease j) q"
    then have q: "q \<in> set (run_jobs s)" by simp
    note fq = f[OF q hq]
    have "jb_lease (f q) = jb_lease j" using fq hq by (simp add: held_def)
    then have "fits y (f q)" if "y \<in> set (kn_workers ?s)" for y using nl that by (auto simp: fits_def)
    then show "settles ?s q (f q)" using fq by (auto simp: settles_def same_keys_def)
    show "keeps_keys q (f q)" using fq
      by (auto simp: keeps_keys_def same_keys_def is_active_def is_pending_def active_statuses_def)
  qed
  have "kinv (joins (ph', j) (with_db db ?s))"
  proof (rule kinv_join[OF s2])
    show "jb_lease (snd (ph', j)) \<noteq> None" using lease by simp
    show "jb_lease (snd (ph', j)) \<notin> (jb_lease \<circ> snd) ` set (kn_workers (with_db db ?s))" using nl by simp
    show "f r \<in> set (run_jobs (with_db db ?s))" using r t(1) by (simp add: in_upd_where) (metis)
    show "jb_id (f r) = jb_id (snd (ph', j))" using fr lease by (simp add: same_keys_def)
    show "fits (ph', j) (f r)" using fr h(2) by (auto simp: fits_def same_columns_def)
    fix a assume "fst (ph', j) = ready_phase a"
    then have "\<not> past a r" "past a (f r)" using fr by simp_all
    moreover have "acts_of a (jb_id r) s = 0" using kinvD(9)[OF s r(1), of a] calculation(1) by blast
    moreover have "acts_of a (jb_id r) ?s \<le> acts_of a (jb_id r) s" using acts_of_drop[OF x, of a "jb_id r"] by simp
    ultimately show "acts_of a (jb_id (snd (ph', j))) (with_db db ?s) = 0 \<and> past a (f r)" using lease by simp
  qed
  then show ?thesis by (simp add: moves_def joins_def with_db_def)
qed

lemma keeps_wait:
  assumes s: "kinv s" and x: "(K_Preparing, j) \<in> set (kn_workers s)"
    and m: "mark_job_waiting_for_salesbot now (jb_id j) (jb_lease j) (run_db s) = (True, db)"
  shows "kinv (moves (K_Preparing, j) [(K_Launching, j)] (with_db db s))"
proof (rule kinv_hold[OF s x, where st = JProcessing])
  show "kj_jobs db = upd_where (held (jb_id j) JProcessing (jb_lease j))
      (\<lambda>j. j\<lparr>jb_status := JSalesbot, jb_launched := Some now, jb_started := None, jb_updated := now\<rparr>) (run_jobs s)"
    "list_ex (held (jb_id j) JProcessing (jb_lease j)) (run_jobs s)"
    using m by (auto simp: mark_job_waiting_for_salesbot_def upd_held_def)
  fix r assume r: "r \<in> set (run_jobs s)" "held (jb_id j) JProcessing (jb_lease j) r"
  note h = held_fits[OF s x r]
  define k where "k = r\<lparr>jb_status := JSalesbot, jb_launched := Some now, jb_started := None, jb_updated := now\<rparr>"
  have k: "jb_status k = JSalesbot" "jb_lease k = jb_lease r" "same_keys r k" "same_columns r k" "is_fallback_job k = is_fallback_job r"
    "jb_attempts k = jb_attempts r" "jb_interaction k = jb_interaction r"
    by (simp_all add: k_def same_keys_def same_columns_def is_fallback_job_def)
  have ai: "jb_ai r = None" "\<not> is_fallback_job r" using h(1,3,4) by (auto simp: job_ok_def)
  have ok: "job_ok k" using h(3,4) ai k unfolding job_ok_def by (simp add: attempt_bound_def)
  have p: "past a r \<longrightarrow> past a k" "K_Launching = ready_phase a \<longrightarrow> \<not> past a r \<and> past a k" for a
    using h(4) ai k by (cases a; simp add: terminal_statuses_def)+
  show "same_keys r k \<and> jb_lease k = jb_lease r \<and> job_ok k \<and> same_columns r k \<and> phase_fits K_Launching k
      \<and> is_active r \<and> is_active k \<and> (\<forall>a. past a r \<longrightarrow> past a k) \<and> (\<forall>a. K_Launching = ready_phase a \<longrightarrow> \<not> past a r \<and> past a k)"
    using k ok p h(4) by (simp add: is_active_def active_statuses_def)
qed

lemma keeps_begin:
  assumes s: "kinv s" and x: "(ph, j) \<in> set (kn_workers s)" "ph \<in> {K_Answering, K_Answered}"
    and m: "mark_job_continuing now (jb_id j) (jb_lease j) data (run_db s) = (True, db)"
  shows "kinv (moves (ph, j) [(K_Continuing, j)] (with_db db s))"
proof (rule kinv_hold[OF s x(1), where st = JProcessing])
  show "kj_jobs db = upd_where (held (jb_id j) JProcessing (jb_lease j))
      (\<lambda>j. j\<lparr>jb_status := JContinuing, jb_payload := Some (JObj [(''data'', data)] []), jb_started := Some now, jb_updated := now\<rparr>)
      (run_jobs s)" "list_ex (held (jb_id j) JProcessing (jb_lease j)) (run_jobs s)"
    using m by (auto simp: mark_job_continuing_def upd_held_def)
  fix r assume r: "r \<in> set (run_jobs s)" "held (jb_id j) JProcessing (jb_lease j) r"
  note h = held_fits[OF s x(1) r]
  define k where "k = r\<lparr>jb_status := JContinuing, jb_payload := Some (JObj [(''data'', data)] []), jb_started := Some now, jb_updated := now\<rparr>"
  have k: "jb_status k = JContinuing" "jb_lease k = jb_lease r" "same_keys r k" "same_columns r k" "is_fallback_job k = is_fallback_job r"
    "jb_attempts k = jb_attempts r" "jb_interaction k = jb_interaction r" "jb_started k = Some now"
    by (simp_all add: k_def same_keys_def same_columns_def is_fallback_job_def)
  have ai: "jb_ai r \<noteq> None" "\<not> is_fallback_job r" using h(1) x(2) by auto
  have ok: "job_ok k" using h(3,4) ai k unfolding job_ok_def by (simp add: attempt_bound_def)
  have p: "past a r \<longrightarrow> past a k" "K_Continuing = ready_phase a \<longrightarrow> \<not> past a r \<and> past a k" for a
    using h(4) ai k by (cases a; simp add: terminal_statuses_def)+
  show "same_keys r k \<and> jb_lease k = jb_lease r \<and> job_ok k \<and> same_columns r k \<and> phase_fits K_Continuing k
      \<and> is_active r \<and> is_active k \<and> (\<forall>a. past a r \<longrightarrow> past a k) \<and> (\<forall>a. K_Continuing = ready_phase a \<longrightarrow> \<not> past a r \<and> past a k)"
    using k ok p h(4) by (simp add: is_active_def active_statuses_def)
qed
section \<open>Claims\<close>

lemma kinv_claim:
  assumes s: "kinv s" and t: "kj_jobs db = upd_where (by_id (jb_id j)) f (run_jobs s)" "jobs_indexed (kj_jobs db)"
    and j: "j \<in> set (run_jobs s)" "jb_id (f j) = jb_id j" "jb_lease (f j) = Some l" "fresh_lease l s" "job_ok (f j)" "phase_fits ph (f j)"
    and a: "\<And>a. past a j \<longrightarrow> past a (f j)" "\<And>a. ph = ready_phase a \<Longrightarrow> \<not> past a j \<and> past a (f j)"
  shows "kinv (joins (ph, f j) (with_db db s))"
proof -
  note only = same_job_id[OF kinvD(1)[OF s] _ j(1)]
  have s2: "kinv (with_db db s)"
  proof (rule kinv_rows_indexed[OF s t])
    fix r assume "r \<in> set (run_jobs s)" "by_id (jb_id j) r"
    then have r: "r = j" using only by (simp add: by_id_def)
    have "fits y (f j)" if "y \<in> set (kn_workers s)" for y
      using that j(3,4) unfolding fresh_lease_def fits_def by (metis comp_apply image_eqI)
    then show "settles s r (f r)" using r j a(1) by (simp add: settles_def)
  qed
  show ?thesis
  proof (rule kinv_join[OF s2])
    show "jb_lease (snd (ph, f j)) \<noteq> None" using j(3) by simp
    show "jb_lease (snd (ph, f j)) \<notin> (jb_lease \<circ> snd) ` set (kn_workers (with_db db s))" using j(3,4) by (simp add: fresh_lease_def)
    show "f j \<in> set (run_jobs (with_db db s))" using j(1) t(1) by (simp add: in_upd_where by_id_def) (metis)
    show "jb_id (f j) = jb_id (snd (ph, f j))" by simp
    show "fits (ph, f j) (f j)" using j(6) by (simp add: fits_def same_columns_def)
    fix a assume "fst (ph, f j) = ready_phase a"
    then have "\<not> past a j" "past a (f j)" using a(2) by simp_all
    moreover have "acts_of a (jb_id j) s = 0" using kinvD(9)[OF s j(1), of a] calculation(1) by blast
    ultimately show "acts_of a (jb_id (snd (ph, f j))) (with_db db s) = 0 \<and> past a (f j)" using j(2) by simp
  qed
qed

lemma keeps_claim_pending:
  assumes s: "kinv s" and c: "claim_due_pending_job now l (run_db s) = (Inr (Some k), db)" and l: "fresh_lease l s"
  shows "kinv (joins (K_Preparing, k) (with_db db s))"
proof -
  obtain j where j: "first_by jb_created (due_pending now (run_jobs s)) (run_jobs s) = Some j" "k = claimed now l None j"
    and st: "store_jobs (upd_where (by_id (jb_id j)) (claimed now l None) (run_jobs s)) (run_db s) = (Inr (), db)"
    using c by (auto simp: claim_due_pending_job_def split: option.splits prod.splits sum.splits)
  have mem: "j \<in> set (run_jobs s)" "is_pending j" using first_by_SomeD[OF j(1)] by (simp_all add: due_pending_def)
  have db: "kj_jobs db = upd_where (by_id (jb_id j)) (claimed now l None) (run_jobs s)" "jobs_indexed (kj_jobs db)"
    using store_jobs_sel[OF st] by auto
  have ok: "job_ok j" by (rule kinvD(2)[OF s mem(1)])
  have stp: "jb_status j = JPending" using mem(2) by (simp add: is_pending_def)
  have nf: "\<not> is_fallback_job j" using ok stp by (auto simp: job_ok_def terminal_statuses_def)
  have k: "jb_status (claimed now l None j) = JProcessing" "jb_attempts (claimed now l None j) = jb_attempts j + 1"
    "is_fallback_job (claimed now l None j) = is_fallback_job j" "jb_ai (claimed now l None j) = None"
    "jb_interaction (claimed now l None j) = jb_interaction j" "jb_lease (claimed now l None j) = Some l"
    "jb_started (claimed now l None j) = Some now" "jb_id (claimed now l None j) = jb_id j"
    by (simp_all add: claimed_def is_fallback_job_def)
  have okk: "job_ok (claimed now l None j)" using ok stp nf k unfolding job_ok_def by (simp add: attempt_bound_def)
  have past: "past a j \<longrightarrow> past a (claimed now l None j)" for a
    using stp nf by (cases a) (simp_all add: terminal_statuses_def)
  have "K_Preparing \<noteq> ready_phase a" for a by (cases a) simp_all
  then show ?thesis unfolding j(2) using kinv_claim[OF s db mem(1) k(8) k(6) l okk, of K_Preparing] past k by simp
qed

lemma keeps_claim_ready:
  assumes s: "kinv s" and c: "claim_ready_job now l (run_db s) = (Some k, db)" and l: "fresh_lease l s"
  shows "kinv (joins (if is_fallback_job k then K_Falling else K_Answering, k) (with_db db s))"
proof -
  obtain j where j: "first_by jb_updated (\<lambda>j. jb_status j = JReady \<and> claimable j) (run_jobs s) = Some j"
    "k = claimed now l (Some now) j" "db = set_jobs (by_id (jb_id j)) (claimed now l (Some now)) (run_db s)"
    using c by (auto simp: claim_ready_job_def split: option.splits)
  have mem: "j \<in> set (run_jobs s)" "jb_status j = JReady" "claimable j" using first_by_SomeD[OF j(1)] by simp_all
  have ok: "job_ok j" by (rule kinvD(2)[OF s mem(1)])
  let ?f = "claimed now l (Some now)"
  have k: "jb_status (?f j) = JProcessing" "jb_attempts (?f j) = jb_attempts j + 1"
    "is_fallback_job (?f j) = is_fallback_job j" "jb_ai (?f j) = Some now" "claimable (?f j) = claimable j"
    "jb_interaction (?f j) = jb_interaction j" "jb_lease (?f j) = Some l" "jb_started (?f j) = Some now" "jb_id (?f j) = jb_id j"
    by (simp_all add: claimed_def is_fallback_job_def claimable_def stored_direct_def)
  have db: "kj_jobs db = upd_where (by_id (jb_id j)) ?f (run_jobs s)" using j(3) by simp
  have ind: "jobs_indexed (kj_jobs db)" unfolding db
  proof (rule indexed_rows[OF kinvD(1)[OF s]])
    fix r assume "r \<in> set (run_jobs s)" "by_id (jb_id j) r"
    then have "r = j" using same_job_id[OF kinvD(1)[OF s] _ mem(1)] by (simp add: by_id_def)
    then show "keeps_keys r (?f r)" using mem(2)
      by (simp add: keeps_keys_def claimed_def is_active_def is_pending_def active_statuses_def)
  qed
  have okk: "job_ok (?f j)" using ok mem k unfolding job_ok_def by (simp add: attempt_bound_def split: if_splits)
  have past: "past a j \<longrightarrow> past a (?f j)" for a
    using mem k by (cases a) (simp_all add: terminal_statuses_def)
  show ?thesis unfolding j(2)
  proof (rule kinv_claim[OF s db ind mem(1) k(9) k(7) l okk])
    show "phase_fits (if is_fallback_job (?f j) then K_Falling else K_Answering) (?f j)" using k by simp
    show "past a j \<longrightarrow> past a (?f j)" for a by (rule past)
    fix a assume "(if is_fallback_job (?f j) then K_Falling else K_Answering) = ready_phase a"
    then have "a = Act_Reply" "\<not> is_fallback_job j" using k(3) by (cases a; simp split: if_splits)+
    then show "\<not> past a j \<and> past a (?f j)" using mem k by (simp add: terminal_statuses_def)
  qed
qed
section \<open>The other steps\<close>

lemma keeps_await:
  assumes s: "kinv s" and x: "(ph, j) \<in> set (kn_workers s)" "ph \<in> {K_Answering, K_Answered, K_Falling}" "is_direct_instagram_dm j"
    and p: "pa_fallback payload = (ph = K_Falling)"
  shows "kinv (with_db (snd (mark_direct_job_waiting_for_delivery now (jb_id j) (jb_lease j) ids payload reason (run_db s))) s)"
  unfolding mark_direct_job_waiting_for_delivery_def Let_def snd_conv
proof (rule kinv_frees[OF s set_jobs_sel(1)])
  fix r assume r: "r \<in> set (run_jobs s)" and "held (jb_id j) JProcessing (jb_lease j) r
      \<and> list_ex (\<lambda>d. chats_of (jb_id j) d \<and> ob_status d \<in> {OAccepted, OConfirmed}
           \<and> (case ob_provider d of None \<Rightarrow> False | Some i \<Rightarrow> i \<in> set ids)) (kj_outbound (run_db s))"
  then have hr: "held (jb_id j) JProcessing (jb_lease j) r" by blast
  note h = held_fits[OF s x(1) r hr]
  let ?k = "waiting_row now ids payload reason r"
  have ai: "jb_ai r \<noteq> None" "is_fallback_job r = (ph = K_Falling)" using h(1) x(2) by auto
  have k: "jb_status ?k = JDelivery" "jb_lease ?k = None" "jb_reconcile ?k = Some now" "is_fallback_job ?k = (ph = K_Falling)"
    "claimable ?k = claimable r" "stored_direct ?k = stored_direct r" "jb_attempts ?k = jb_attempts r" "jb_ai ?k = jb_ai r"
    "jb_interaction ?k = jb_interaction r" "same_keys r ?k"
    using p by (simp_all add: waiting_row_def is_fallback_job_def claimable_def stored_direct_def same_keys_def)
  have "jb_interaction j \<in> set [private_message_scope, instagram_comment_scope]" using h(2,3) by (simp add: job_ok_def same_columns_def)
  then have sd: "stored_direct r" using direct_stored[OF x(3)] h(2) by (simp add: stored_direct_def same_columns_def)
  have ok: "job_ok ?k" using h(3,4) ai k sd unfolding job_ok_def by (simp add: attempt_bound_def)
  have "past a r \<longrightarrow> past a ?k" for a using h(4) ai k by (cases a) (simp_all add: terminal_statuses_def)
  then show "same_keys r ?k \<and> jb_lease ?k = None \<and> job_ok ?k \<and> is_active r \<and> is_active ?k
      \<and> (\<forall>a. 0 < acts_of a (jb_id r) s \<longrightarrow> past a r \<longrightarrow> past a ?k)"
    using k ok h(4) by (simp add: is_active_def active_statuses_def)
qed

lemma store_assistant_cases:
  "snd (store_assistant_after_delivery now cid ch job content calls atts expected db) = db
   \<or> (\<exists>p h. snd (store_assistant_after_delivery now cid ch job content calls atts expected db)
        = set_jobs p (\<lambda>j. j\<lparr>jb_persisted := Some now, jb_updated := now\<rparr>) (db\<lparr>kj_history := h\<rparr>))"
  by (simp add: store_assistant_after_delivery_def Let_def split: option.split prod.split sum.split) blast

lemma keeps_persist:
  assumes s: "kinv s"
  shows "kinv (with_db (snd (store_assistant_after_delivery now cid ch job content calls atts expected (run_db s))) s)"
    (is "kinv (with_db ?db s)")
proof -
  consider "kj_jobs ?db = run_jobs s" | p where "kj_jobs ?db = upd_where p (\<lambda>j. j\<lparr>jb_persisted := Some now, jb_updated := now\<rparr>) (run_jobs s)"
    using store_assistant_cases[of now cid ch job content calls atts expected "run_db s"] by fastforce
  then show ?thesis
  proof cases
    case 1
    then show ?thesis by (rule kinv_same_jobs[OF s])
  next
    case 2
    then show ?thesis by (rule kinv_stays[OF s]) (simp add: stays_def same_keys_def same_columns_def is_fallback_job_def)
  qed
qed

lemma keeps_warning: "kinv s \<Longrightarrow> kinv (with_db (record_uncertain_launch_warning now jid err (run_db s)) s)"
  unfolding record_uncertain_launch_warning_def
  by (erule kinv_stays[OF _ set_jobs_sel(1)]) (simp add: stays_def same_keys_def same_columns_def is_fallback_job_def)

lemma keeps_request: "kinv s \<Longrightarrow> kinv (with_db (snd (request_delivery_reconciliation now mid (run_db s))) s)"
proof -
  assume s: "kinv s"
  show ?thesis
  proof (cases "py_strip (opt_str mid) = []")
    case True
    then show ?thesis using kinv_same_jobs[OF s refl] by (simp add: request_delivery_reconciliation_def)
  next
    case False
    show ?thesis
      by (rule kinv_stays[OF s, where f = "\<lambda>j. j\<lparr>jb_reconcile := Some now, jb_updated := now\<rparr>"])
        (use False in \<open>simp add: request_delivery_reconciliation_def Let_def\<close>,
          simp add: stays_def same_keys_def same_columns_def is_fallback_job_def)
  qed
qed

lemma keeps_match:
  assumes s: "kinv s" shows "kinv (with_db (snd (match_context now jid event story score sender context (run_db s))) s)"
proof -
  let ?f = "matched_row now event story score sender context"
  let ?p = "\<lambda>j. awaits_context jid j \<and> jb_event j = None"
  show ?thesis
  proof (cases "jobs_indexed (upd_where ?p ?f (run_jobs s))")
    case False
    then show ?thesis using kinv_same_jobs[OF s refl] by (simp add: match_context_def store_jobs_def)
  next
    case True
    then have db: "snd (match_context now jid event story score sender context (run_db s)) = (run_db s)\<lparr>kj_jobs := upd_where ?p ?f (run_jobs s)\<rparr>"
      by (simp add: match_context_def store_jobs_def)
    show ?thesis unfolding db
    proof (rule kinv_rows_indexed[OF s])
      fix j assume j: "j \<in> set (run_jobs s)" "?p j"
      have ok: "job_ok j" by (rule kinvD(2)[OF s j(1)])
      have st: "jb_status j = JContext" "jb_lease j = None" using j(2) ok by (auto simp: awaits_context_def job_ok_def)
      have k: "jb_status (?f j) = JContext" "jb_lease (?f j) = None" "is_fallback_job (?f j) = is_fallback_job j"
        "claimable (?f j) = claimable j" "jb_ai (?f j) = jb_ai j" "jb_attempts (?f j) = jb_attempts j"
        "jb_interaction (?f j) = jb_interaction j" "jb_deadline (?f j) = jb_deadline j" "jb_id (?f j) = jb_id j"
        using st by (simp_all add: is_fallback_job_def claimable_def stored_direct_def)
      have "job_ok (?f j)" using ok st k unfolding job_ok_def by (simp add: attempt_bound_def)
      moreover have "past a j \<longrightarrow> past a (?f j)" for a using st k by (cases a) simp_all
      ultimately show "settles s j (?f j)" using k by (simp add: settles_def fits_def)
    qed (use True in simp_all)
  qed
qed

lemma keeps_merge:
  assumes s: "kinv s" and e: "ev_interaction e \<in> set [private_message_scope, instagram_comment_scope]"
    and j: "j \<in> set (run_jobs s)" "is_pending j"
  shows "kinv (with_db (add_receipt r (set_jobs (\<lambda>r. jb_id r = jb_id j) (merge_event now e ext) (run_db s))) s)"
proof (rule kinv_rows[OF s])
  show "kj_jobs (add_receipt r (set_jobs (\<lambda>r. jb_id r = jb_id j) (merge_event now e ext) (run_db s)))
      = upd_where (\<lambda>r. jb_id r = jb_id j) (merge_event now e ext) (run_jobs s)" by simp
  fix q assume q: "q \<in> set (run_jobs s)" "jb_id q = jb_id j"
  then have qj: "q = j" using same_job_id[OF kinvD(1)[OF s] q(1) j(1)] by blast
  have ok: "job_ok q" by (rule kinvD(2)[OF s q(1)])
  have st: "jb_status q = JPending" using j(2) qj by (simp add: is_pending_def)
  let ?k = "merge_event now e ext q"
  have k: "jb_status ?k = JPending" "jb_lease ?k = jb_lease q" "jb_attempts ?k = jb_attempts q" "jb_ai ?k = jb_ai q"
    "is_fallback_job ?k = is_fallback_job q" "jb_interaction ?k = ev_interaction e" "jb_id ?k = jb_id q"
    using st by (simp_all add: merge_event_def merged_legacy_media_def is_fallback_job_def split: prod.split)
  have nl: "jb_lease q = None" using ok st by (auto simp: job_ok_def)
  have "job_ok ?k" using ok st k e nl unfolding job_ok_def by (simp add: attempt_bound_def)
  moreover have "past a q \<longrightarrow> past a ?k" for a using st k by (cases a) simp_all
  ultimately show "settles s q ?k" using k nl by (simp add: settles_def fits_def)
  show "keeps_keys q ?k" using st k
    by (simp add: keeps_keys_def is_active_def is_pending_def active_statuses_def merge_event_def merged_legacy_media_def split: prod.split)
qed

lemma keeps_receive:
  assumes s: "kinv s" and e: "ev_interaction e \<in> set [private_message_scope, instagram_comment_scope]"
  shows "kinv (with_db (snd (record_incoming_event now new_id stamp sha e (run_db s))) s)"
proof -
  let ?ext = "external_id stamp e"
  show ?thesis
  proof (cases "find_by kr_message ?ext (kj_receipts (run_db s))")
    case (Some r)
    then show ?thesis using kinv_same_jobs[OF s refl] by (simp add: record_incoming_event_def Let_def)
  next
    case None
    show ?thesis
    proof (cases "latest_pending e (run_db s)")
      case (Some j)
      then have j: "j \<in> set (run_jobs s)" "is_pending j" using first_by_SomeD[OF Some[unfolded latest_pending_def]] by simp_all
      have eq: "snd (record_incoming_event now new_id stamp sha e (run_db s))
          = add_receipt (event_receipt now sha e ?ext (jb_id j) ''merged'') (set_jobs (\<lambda>r. jb_id r = jb_id j) (merge_event now e ?ext) (run_db s))"
        using None Some by (simp add: record_incoming_event_def Let_def)
      show ?thesis unfolding eq by (rule keeps_merge[OF s e j])
    next
      case none: None
      let ?j = "event_job now new_id e ?ext"
      show ?thesis
      proof (cases "jobs_indexed (run_jobs s @ [?j])")
        case True
        have "job_ok ?j" "jb_lease ?j = None"
          using e by (simp_all add: event_job_def blank_job_def job_ok_def attempt_bound_def is_fallback_job_def)
        then have "kinv (with_db (add_receipt (event_receipt now sha e ?ext new_id ''created'') ((run_db s)\<lparr>kj_jobs := run_jobs s @ [?j]\<rparr>)) s)"
          by (intro kinv_insert[OF s]) (use True in simp_all)
        then show ?thesis using None none True by (simp add: record_incoming_event_def store_jobs_def Let_def)
      next
        case False
        then show ?thesis using None none kinv_same_jobs[OF s refl] by (simp add: record_incoming_event_def store_jobs_def Let_def)
      qed
    qed
  qed
qed
text \<open>A callback.\<close>

lemma keeps_called_back:
  assumes s: "kinv s" and c: "callback_target v (run_jobs s) = Some j"
  shows "kinv (with_db (set_jobs (by_id (jb_id j)) (called_back now v) (run_db s)) s)"
proof (rule kinv_frees[OF s set_jobs_sel(1)])
  have "j \<in> set (sort_key (\<lambda>j. - the (jb_launched j)) (sort_key (\<lambda>j. - jb_created j) (filter (awaits_callback v) (run_jobs s))))"
    using c by (auto simp: callback_target_def simp del: set_sort split: if_splits list.splits)
  then have j: "j \<in> set (run_jobs s)" "jb_status j = JSalesbot" by (simp_all add: awaits_callback_def)
  fix r assume r: "r \<in> set (run_jobs s)" "by_id (jb_id j) r"
  then have "r = j" using same_job_id[OF kinvD(1)[OF s] r(1) j(1)] by (simp add: by_id_def)
  then have st: "jb_status r = JSalesbot" using j(2) by simp
  have ok: "job_ok r" by (rule kinvD(2)[OF s r(1)])
  have nf: "\<not> is_fallback_job r" using ok st by (auto simp: job_ok_def terminal_statuses_def)
  let ?k = "called_back now v r"
  have k: "jb_status ?k = JReady" "jb_lease ?k = None" "claimable ?k" "is_fallback_job ?k = is_fallback_job r"
    "jb_attempts ?k = jb_attempts r" "jb_interaction ?k = jb_interaction r" "same_keys r ?k"
    by (simp_all add: called_back_def claimable_def is_fallback_job_def same_keys_def)
  have "job_ok ?k" using ok st nf k unfolding job_ok_def by (simp add: attempt_bound_def)
  moreover have "past a r \<longrightarrow> past a ?k" for a using st nf k by (cases a) (simp_all add: terminal_statuses_def)
  ultimately show "same_keys r ?k \<and> jb_lease ?k = None \<and> job_ok ?k \<and> is_active r \<and> is_active ?k
      \<and> (\<forall>a. 0 < acts_of a (jb_id r) s \<longrightarrow> past a r \<longrightarrow> past a ?k)"
    using k st by (simp add: is_active_def active_statuses_def)
qed

lemma keeps_recent:
  assumes s: "kinv s" shows "kinv (with_db (snd (discard_recent_private_jobs now sha window ms v msg (run_db s))) s)"
  using keeps_superseded[OF s, of now] kinv_same_jobs[OF s refl]
  by (simp add: discard_recent_private_jobs_def Let_def split: option.split prod.split) (metis snd_conv)

lemma keeps_comment_job:
  assumes s: "kinv s" shows "kinv (with_db (snd (create_ready_comment_job now new_id sha cfg ms d v (run_db s))) s)"
proof (cases "callback_comment_text d")
  case (Inl e)
  then show ?thesis using kinv_same_jobs[OF s refl] by (simp add: create_ready_comment_job_def)
next
  case (Inr msg)
  obtain ext corr where ids: "comment_callback_ids sha v msg = (ext, corr)" by fastforce
  define db1 where "db1 = snd (discard_recent_private_jobs now sha (xc_window cfg) ms v (normalize_message_text msg) (run_db s))"
  have s1: "kinv (with_db db1 s)" unfolding db1_def by (rule keeps_recent[OF s])
  define j where "j = comment_job now new_id cfg d v msg ext corr"
  have j: "job_ok j" "jb_lease j = None"
    by (simp_all add: j_def comment_job_def blank_job_def job_ok_def attempt_bound_def is_fallback_job_def claimable_def)
  have eq: "snd (create_ready_comment_job now new_id sha cfg ms d v (run_db s)) =
     (case find_duplicate_comment_callback_job now ext v (normalize_message_text msg) (kj_jobs db1) of
        Some j \<Rightarrow> db1
      | None \<Rightarrow> if jobs_indexed (kj_jobs db1 @ [j]) then add_receipt (callback_receipt now sha j) (db1\<lparr>kj_jobs := kj_jobs db1 @ [j]\<rparr>)
                else run_db s)"
    using Inr ids by (simp add: create_ready_comment_job_def db1_def j_def store_jobs_def Let_def split: option.split)
  have new: "kinv (with_db (add_receipt (callback_receipt now sha j) (db1\<lparr>kj_jobs := kj_jobs db1 @ [j]\<rparr>)) s)"
    if "jobs_indexed (kj_jobs db1 @ [j])"
  proof -
    have "kinv (with_db (add_receipt (callback_receipt now sha j) (db1\<lparr>kj_jobs := kj_jobs db1 @ [j]\<rparr>)) (with_db db1 s))"
      by (rule kinv_insert[OF s1]) (use that j in simp_all)
    then show ?thesis by (simp add: with_db_def)
  qed
  show ?thesis unfolding eq using s1 new kinv_same_jobs[OF s refl] by (simp split: option.split)
qed

lemma keeps_callback:
  assumes s: "kinv s" shows "kinv (with_db (snd (persist_salesbot_callback now new_id sha cfg ms d url claims (run_db s))) s)"
proof (cases "callback_values d url claims")
  case (Inl e)
  then show ?thesis using kinv_same_jobs[OF s refl] by (simp add: persist_salesbot_callback_def)
next
  case (Inr v)
  show ?thesis
  proof (cases "callback_target v (run_jobs s)")
    case (Some j)
    then show ?thesis using Inr keeps_called_back[OF s Some] by (simp add: persist_salesbot_callback_def answer_callback_def)
  next
    case None
    have "snd (answer_callback now new_id sha cfg ms d v (run_db s)) = run_db s
      \<or> snd (answer_callback now new_id sha cfg ms d v (run_db s)) = snd (create_ready_comment_job now new_id sha cfg ms d v (run_db s))"
      using None by (simp add: answer_callback_def split: option.split)
    then show ?thesis using Inr kinv_same_jobs[OF s refl] keeps_comment_job[OF s]
      unfolding persist_salesbot_callback_def by (auto simp del: with_db_sel)
  qed
qed

text \<open>The recovery.\<close>

lemma keeps_reset:
  assumes s: "kinv s" and ind: "jobs_indexed (upd_where (\<lambda>j. stale_unstarted now j \<and> jb_attempts j < max_job_attempts) (reset_row now) (run_jobs s))"
  shows "kinv (with_db ((run_db s)\<lparr>kj_jobs := upd_where (\<lambda>j. stale_unstarted now j \<and> jb_attempts j < max_job_attempts) (reset_row now) (run_jobs s)\<rparr>) s)"
proof (rule kinv_rows_indexed[OF s])
  fix j assume j: "j \<in> set (run_jobs s)" "stale_unstarted now j \<and> jb_attempts j < max_job_attempts"
  have ok: "job_ok j" by (rule kinvD(2)[OF s j(1)])
  have st: "jb_status j = JProcessing" "jb_ai j = None" "jb_attempts j < 3"
    using j(2) by (simp_all add: stale_unstarted_def max_job_attempts_def)
  have nf: "\<not> is_fallback_job j" using ok st by (auto simp: job_ok_def)
  let ?k = "reset_row now j"
  have k: "jb_lease ?k = None" "jb_ai ?k = None" "claimable ?k = claimable j" "is_fallback_job ?k = is_fallback_job j"
    "jb_attempts ?k = jb_attempts j" "jb_interaction ?k = jb_interaction j" "jb_id ?k = jb_id j"
    "jb_status ?k = JReady \<and> claimable j \<or> jb_status ?k = JPending"
    using st by (auto simp: reset_row_def claimable_def stored_direct_def is_fallback_job_def)
  have "job_ok ?k" using ok st nf k unfolding job_ok_def by (auto simp: attempt_bound_def)
  moreover have "\<not> past a j" for a using st nf by (cases a) (simp_all add: terminal_statuses_def)
  ultimately show "settles s j ?k" using k by (simp add: settles_def fits_def)
qed (use ind in simp_all)

lemma keeps_recover:
  assumes s: "kinv s" shows "kinv (with_db (snd (recover_stale_jobs now (run_db s))) s)"
proof -
  define db1 where "db1 = set_jobs (stale_waiting now) (timed_out_row now) (run_db s)"
  define t where "t = upd_where (\<lambda>j. stale_unstarted now j \<and> jb_attempts j < max_job_attempts) (reset_row now) (kj_jobs db1)"
  define db3 where "db3 = set_jobs (stale_uncertain now) (uncertain_row now) (db1\<lparr>kj_jobs := t\<rparr>)"
  define db4 where "db4 = set_jobs (\<lambda>j. stale_unstarted now j \<and> max_job_attempts \<le> jb_attempts j) (exhausted_row now) db3"
  have eq: "snd (recover_stale_jobs now (run_db s)) = (if jobs_indexed t then db4 else db1)"
    by (simp add: recover_stale_jobs_def Let_def db1_def t_def db3_def db4_def store_jobs_def)
  have s1: "kinv (with_db db1 s)" unfolding db1_def
    by (rule kinv_ends[OF s set_jobs_sel(1)]) (simp add: ends_def same_keys_def timed_out_row_def terminal_statuses_def)
  have "kinv (with_db db4 s)" if "jobs_indexed t"
  proof -
    have "kinv (with_db (db1\<lparr>kj_jobs := t\<rparr>) (with_db db1 s))" using keeps_reset[OF s1, of now] that by (simp add: t_def)
    then have s2: "kinv (with_db (db1\<lparr>kj_jobs := t\<rparr>) s)" by (simp add: with_db_def)
    have "kinv (with_db db3 (with_db (db1\<lparr>kj_jobs := t\<rparr>) s))"
      by (rule kinv_ends[OF s2, of db3 "stale_uncertain now" "uncertain_row now"])
        (simp_all add: db3_def ends_def same_keys_def uncertain_row_def finished_def terminal_statuses_def)
    then have s3: "kinv (with_db db3 s)" by (simp add: with_db_def)
    have "kinv (with_db db4 (with_db db3 s))"
      by (rule kinv_ends[OF s3, of db4 "\<lambda>j. stale_unstarted now j \<and> max_job_attempts \<le> jb_attempts j" "exhausted_row now"])
        (simp_all add: db4_def ends_def same_keys_def exhausted_row_def finished_def terminal_statuses_def)
    then show ?thesis by (simp add: with_db_def)
  qed
  then show ?thesis unfolding eq using s1 by simp
qed
text \<open>A look at a direct delivery.\<close>

lemma with_db_twice [simp]: "with_db db' (with_db db s) = with_db db' s"
  by (simp add: with_db_def)

lemma keeps_refuse:
  assumes s: "kinv (with_db db s)" and a: "\<And>r. r \<in> set (kj_jobs db) \<Longrightarrow> jb_id r = jb_id job \<Longrightarrow> jb_assistant r = jb_assistant job"
  shows "kinv (with_db (fail_waiting_delivery now handoff job mid st media db) s)"
proof -
  let ?p = "\<lambda>j. jb_id j = jb_id job \<and> jb_status j = JDelivery"
  define err where "err = delivery_diagnostic st mid"
  define db1 where "db1 = set_outbound (\<lambda>d. chats_of (jb_id job) d \<and> ob_provider d = Some mid \<and> ob_status d \<in> {OAccepted, OFailed})
                  (\<lambda>d. d\<lparr>ob_status := OFailed, ob_error := Some err, ob_updated := now\<rparr>) db"
  have jobs1: "kj_jobs db1 = kj_jobs db" by (simp add: db1_def)
  have refuse: "kinv (with_db (set_jobs ?p (refused_row now err) db1) s)"
  proof -
    have "kinv (with_db (set_jobs ?p (refused_row now err) db1) (with_db db s))"
    proof (rule kinv_rows[OF s])
      show "kj_jobs (set_jobs ?p (refused_row now err) db1) = upd_where ?p (refused_row now err) (run_jobs (with_db db s))"
        using jobs1 by simp
      fix j assume j: "j \<in> set (run_jobs (with_db db s))" "?p j"
      have ok: "job_ok j" using kinvD(2)[OF s j(1)] .
      then have "jb_lease j = None" using j(2) by (auto simp: job_ok_def)
      then have e: "ends j (refused_row now err j)"
        by (simp add: ends_def same_keys_def refused_row_def terminal_statuses_def)
      show "settles (with_db db s) j (refused_row now err j)" by (rule ends_settles(1)[OF ok e])
      show "keeps_keys j (refused_row now err j)" by (rule ends_settles(2)[OF ok e])
    qed
    then show ?thesis by simp
  qed
  show ?thesis
  proof (cases "jb_assistant job")
    case None
    then show ?thesis using refuse by (simp add: fail_waiting_delivery_def Let_def db1_def err_def)
  next
    case (Some b)
    show ?thesis
    proof (cases "queues_text_fallback media st (Some b)")
      case False
      then show ?thesis using Some refuse by (simp add: fail_waiting_delivery_def Let_def db1_def err_def)
    next
      case True
      let ?f = "fallback_row now err (fallback_payload handoff b)"
      have "kinv (with_db (set_jobs ?p ?f db1) (with_db db s))"
      proof (rule kinv_frees[OF s])
        show "kj_jobs (set_jobs ?p ?f db1) = upd_where ?p ?f (run_jobs (with_db db s))" using jobs1 by simp
        fix j assume j: "j \<in> set (run_jobs (with_db db s))" "?p j"
        have ok: "job_ok j" using kinvD(2)[OF s j(1)] .
        have st: "jb_status j = JDelivery" "jb_lease j = None" using j(2) ok by (auto simp: job_ok_def)
        have "jb_assistant j = Some b" using a[of j] j Some by simp
        then have nf: "\<not> is_fallback_job j" using True by (simp add: is_fallback_job_def queues_text_fallback_def)
        have k: "jb_status (?f j) = JReady" "is_fallback_job (?f j)" "claimable (?f j) = claimable j" "jb_lease (?f j) = jb_lease j"
          "jb_attempts (?f j) = jb_attempts j" "jb_interaction (?f j) = jb_interaction j" "same_keys j (?f j)"
          by (simp_all add: fallback_row_def is_fallback_job_def fallback_payload_def claimable_def stored_direct_def same_keys_def)
        have "job_ok (?f j)" using ok st nf k unfolding job_ok_def by (simp add: attempt_bound_def)
        moreover have "past a j \<longrightarrow> past a (?f j)" for a using st k by (cases a) (simp_all add: terminal_statuses_def)
        ultimately show "same_keys j (?f j) \<and> jb_lease (?f j) = None \<and> job_ok (?f j) \<and> is_active j \<and> is_active (?f j)
            \<and> (\<forall>a. 0 < acts_of a (jb_id j) (with_db db s) \<longrightarrow> past a j \<longrightarrow> past a (?f j))"
          using k st by (simp add: is_active_def active_statuses_def)
      qed
      then show ?thesis using Some True by (simp add: fail_waiting_delivery_def Let_def db1_def err_def)
    qed
  qed
qed

lemma confirm_jobs [simp]: "kj_jobs (confirm_waiting_delivery now jid mid db) = kj_jobs db"
  by (simp add: confirm_waiting_delivery_def)

lemma keeps_looking:
  assumes "kinv (with_db db s)" and "\<And>r. r \<in> set (kj_jobs db) \<Longrightarrow> jb_id r = jb_id job \<Longrightarrow> jb_assistant r = jb_assistant job"
  shows "kinv (with_db (snd (look_at_deliveries now handoff provider job ds b db)) s)"
  using assms
proof (induction now handoff provider job ds b db rule: look_at_deliveries.induct)
  case (2 now handoff provider job d ds b db)
  have conf: "kinv (with_db (confirm_waiting_delivery now (jb_id job) mid db) s)" for mid
    using kinv_same_jobs[OF "2.prems"(1), of "confirm_waiting_delivery now (jb_id job) mid db"] by simp
  show ?case using "2.prems" "2.IH" keeps_refuse[OF "2.prems"] conf
    by (simp add: Let_def split: answer.split)
qed simp

lemma keeps_history: "kinv s \<Longrightarrow> kinv (with_db ((run_db s)\<lparr>kj_history := h\<rparr>) s)"
  by (rule kinv_same_jobs) simp_all

lemma persist_waiting_cases:
  "snd (persist_waiting_assistant_message now job b db) = db
   \<or> (\<exists>p h. snd (persist_waiting_assistant_message now job b db)
        = set_jobs p (\<lambda>j. j\<lparr>jb_persisted := Some now, jb_updated := now\<rparr>) (db\<lparr>kj_history := h\<rparr>))"
  by (simp add: persist_waiting_assistant_message_def Let_def split: option.split prod.split sum.split) blast

lemma keeps_finalize:
  assumes s: "kinv (with_db db s)" shows "kinv (with_db (snd (finalize_waiting_delivery now jid db)) s)"
proof (cases "find (\<lambda>j. jb_id j = jid \<and> jb_status j = JDelivery) (kj_jobs db)")
  case None
  then show ?thesis using s by (simp add: finalize_waiting_delivery_def)
next
  case (Some job)
  let ?r = "case jb_assistant job of None \<Rightarrow> (Inr (), db) | Some b \<Rightarrow> persist_waiting_assistant_message now job b db"
  have s1: "kinv (with_db (snd ?r) s)"
  proof (cases "jb_assistant job")
    case (Some b)
    consider "snd ?r = db" | p h where "snd ?r = set_jobs p (\<lambda>j. j\<lparr>jb_persisted := Some now, jb_updated := now\<rparr>) (db\<lparr>kj_history := h\<rparr>)"
      using persist_waiting_cases[of now job b db] Some by auto
    then show ?thesis
    proof cases
      case 2
      have "kinv (with_db (snd ?r) (with_db db s))"
        by (rule kinv_stays[OF s, of _ p "\<lambda>j. j\<lparr>jb_persisted := Some now, jb_updated := now\<rparr>"])
          (simp_all add: 2 stays_def same_keys_def same_columns_def is_fallback_job_def)
      then show ?thesis by simp
    qed (use s in simp)
  qed (use s in simp)
  obtain e db1 where r: "?r = (e, db1)" by fastforce
  have s1': "kinv (with_db db1 s)" using s1 r by simp
  define st where "st = (case jb_assistant job of None \<Rightarrow> JSent | Some b \<Rightarrow> if pa_final b = ''discarded'' then JDiscarded else JSent)"
  define p where "p = (\<lambda>j :: kommo_job. jb_id j = jid \<and> jb_status j = JDelivery \<and> (jb_persisted j \<noteq> None
      \<or> (case jb_assistant j of None \<Rightarrow> True | Some b \<Rightarrow> opt_str (pa_customer b) = [])))"
  have eq: "snd (finalize_waiting_delivery now jid db) = (case e of Inl x \<Rightarrow> db1 | Inr _ \<Rightarrow> set_jobs p (delivered_row now st) db1)"
    using Some r by (simp add: finalize_waiting_delivery_def st_def p_def split: sum.split)
  have "kinv (with_db (set_jobs p (delivered_row now st) db1) (with_db db1 s))"
  proof (rule kinv_rows[OF s1', of _ p "delivered_row now st"])
    fix j assume j: "j \<in> set (run_jobs (with_db db1 s))" "p j"
    have ok: "job_ok j" using kinvD(2)[OF s1' j(1)] .
    then have "jb_lease j = None" using j(2) by (auto simp: job_ok_def p_def)
    moreover have "st \<in> {JSent, JDiscarded}" by (simp add: st_def split: option.split)
    ultimately have e: "ends j (delivered_row now st j)"
      by (auto simp: ends_def same_keys_def delivered_row_def terminal_statuses_def)
    show "settles (with_db db1 s) j (delivered_row now st j)" by (rule ends_settles(1)[OF ok e])
    show "keeps_keys j (delivered_row now st j)" by (rule ends_settles(2)[OF ok e])
  qed simp
  then show ?thesis unfolding eq using s1' by (simp split: sum.split)
qed

lemma keeps_look:
  assumes s: "kinv s" and c: "claim_waiting_for_delivery_job now (run_db s) = (Some j, db)"
  shows "kinv (with_db (snd (reconcile_waiting_for_delivery_job now handoff provider j db)) s)"
proof -
  have cl: "\<exists>j0. j0 \<in> set (run_jobs s) \<and> j = looked_at now j0 \<and> db = set_jobs (by_id (jb_id j0)) (looked_at now) (run_db s)"
  proof -
    obtain j0 js where *: "sort_key (\<lambda>j. the (jb_reconcile j)) (sort_key jb_created (filter (awaits_look now) (run_jobs s))) = j0 # js"
      "j = looked_at now j0" "db = set_jobs (by_id (jb_id j0)) (looked_at now) (run_db s)"
      using c by (auto simp: claim_waiting_for_delivery_job_def split: list.splits)
    have "j0 \<in> set (sort_key (\<lambda>j. the (jb_reconcile j)) (sort_key jb_created (filter (awaits_look now) (run_jobs s))))"
      unfolding *(1) by simp
    then have "j0 \<in> set (run_jobs s)" by simp
    then show ?thesis using *(2,3) by blast
  qed
  then obtain j0 where j0: "j0 \<in> set (run_jobs s)" "j = looked_at now j0" "db = set_jobs (by_id (jb_id j0)) (looked_at now) (run_db s)"
    by blast
  have s1: "kinv (with_db db s)" unfolding j0(3)
    by (rule kinv_stays[OF s set_jobs_sel(1)])
      (simp add: looked_at_def stays_def same_keys_def same_columns_def is_fallback_job_def)
  have same: "jb_assistant r = jb_assistant j" if r: "r \<in> set (kj_jobs db)" "jb_id r = jb_id j" for r
  proof -
    obtain q where q: "q \<in> set (run_jobs s)" "r = (if by_id (jb_id j0) q then looked_at now q else q)"
      using r(1) unfolding j0(3) set_jobs_sel in_upd_where by blast
    have "jb_id q = jb_id j0" using r(2) q(2) j0(2) by (simp add: looked_at_def by_id_def split: if_splits)
    then have "q = j0" using same_job_id[OF kinvD(1)[OF s] q(1) j0(1)] by simp
    then show ?thesis using q(2) j0(2) by (simp add: looked_at_def)
  qed
  define rows where "rows = sort_key ob_created (filter (\<lambda>d. chats_of (jb_id j) d
      \<and> (case ob_provider d of None \<Rightarrow> False | Some i \<Rightarrow> i \<in> set (provider_message_ids j))) (kj_outbound db))"
  obtain b db2 where look: "look_at_deliveries now handoff provider j rows True db = (b, db2)" by fastforce
  have s2: "kinv (with_db db2 s)" using keeps_looking[OF s1 same, of now handoff provider rows True] look by simp
  have "snd (reconcile_waiting_for_delivery_job now handoff provider j db)
      = (if rows = [] then db else if b then snd (finalize_waiting_delivery now (jb_id j) db2) else db2)"
    using look unfolding reconcile_waiting_for_delivery_job_def Let_def rows_def[symmetric] by (simp split: bool.split)
  then show ?thesis using s1 s2 keeps_finalize[OF s2, of now "jb_id j"] by simp
qed

section \<open>Every step keeps the invariant\<close>

lemma kinv_world:
  assumes s: "kinv s" and w: "kj_jobs (kw_db w) = run_jobs s" "\<And>a. acted a w = acted a (kn_world s)"
  shows "kinv (s\<lparr>kn_world := w\<rparr>)"
proof -
  have "acts_of a jid (s\<lparr>kn_world := w\<rparr>) = acts_of a jid s" for a jid using w(2) by (simp add: acts_of_def)
  then show ?thesis using s w unfolding kinv_def by simp
qed

lemma claim_outbound_jobs [simp]: "kj_jobs (snd (claim_outbound month now jid media print meta l fence db)) = kj_jobs db"
proof -
  have ins: "kj_jobs (insert_outbound d db) = kj_jobs db" for d by (simp add: insert_outbound_def)
  show ?thesis
    by (simp add: claim_outbound_def Let_def ins split: option.split)
qed

lemma send_claimed_sel:
  "kj_jobs (kw_db (snd (send_claimed_delivery now send m w))) = kj_jobs (kw_db w)"
  "acted a (snd (send_claimed_delivery now send m w)) = acted a w"
proof -
  have acc: "kj_jobs (snd (accept_delivery now jid print mid db)) = kj_jobs db" for jid print mid db
    by (simp add: accept_delivery_def)
  have err: "kj_jobs (mark_delivery_error now jid print st e db) = kj_jobs db" for jid print st e db
    by (simp add: mark_delivery_error_def)
  show "kj_jobs (kw_db (snd (send_claimed_delivery now send m w))) = kj_jobs (kw_db w)"
  proof (cases "response_message_id (send (kw_out w) m)")
    case (Inl e)
    then show ?thesis by (simp add: send_claimed_delivery_def Let_def err)
  next
    case (Inr mid)
    obtain r db where r: "accept_delivery now (tk_job m) (tk_print m) mid (kw_db w) = (r, db)" by fastforce
    then have "kj_jobs db = kj_jobs (kw_db w)" using acc[of "tk_job m" "tk_print m" mid "kw_db w"] by simp
    then show ?thesis using Inr r by (simp add: send_claimed_delivery_def Let_def)
  qed
  show "acted a (snd (send_claimed_delivery now send m w)) = acted a w"
  proof (cases "response_message_id (send (kw_out w) m)")
    case (Inl e)
    then show ?thesis by (cases a) (simp_all add: send_claimed_delivery_def Let_def)
  next
    case (Inr mid)
    obtain r db where "accept_delivery now (tk_job m) (tk_print m) mid (kw_db w) = (r, db)" by fastforce
    then show ?thesis using Inr by (cases a) (simp_all add: send_claimed_delivery_def Let_def)
  qed
qed

lemma keeps_launch:
  assumes "kinv s" "(K_Launching, j) \<in> set (kn_workers s)"
  shows "kinv (moves (K_Launching, j) [(K_Launched, j)] (s\<lparr>kn_world := (kn_world s)\<lparr>kw_launched := kw_launched (kn_world s) @ [jb_id j]\<rparr>\<rparr>))"
proof -
  have "K_Launched \<noteq> ready_phase b" for b by (cases b) simp_all
  moreover have "acted b ((kn_world s)\<lparr>kw_launched := kw_launched (kn_world s) @ [jb_id j]\<rparr>) = acted b (kn_world s)" if "b \<noteq> Act_Launch" for b using that by (cases b) simp_all
  ultimately show ?thesis using kinv_act[OF assms(1), of Act_Launch j K_Launched "(kn_world s)\<lparr>kw_launched := kw_launched (kn_world s) @ [jb_id j]\<rparr>"] assms(2) by simp
qed

lemma keeps_reply:
  assumes "kinv s" "(K_Answering, j) \<in> set (kn_workers s)"
  shows "kinv (moves (K_Answering, j) [(K_Answered, j)] (s\<lparr>kn_world := (kn_world s)\<lparr>kw_replies := kw_replies (kn_world s) @ [jb_id j]\<rparr>\<rparr>))"
proof -
  have "K_Answered \<noteq> ready_phase b" for b by (cases b) simp_all
  moreover have "acted b ((kn_world s)\<lparr>kw_replies := kw_replies (kn_world s) @ [jb_id j]\<rparr>) = acted b (kn_world s)" if "b \<noteq> Act_Reply" for b using that by (cases b) simp_all
  ultimately show ?thesis using kinv_act[OF assms(1), of Act_Reply j K_Answered "(kn_world s)\<lparr>kw_replies := kw_replies (kn_world s) @ [jb_id j]\<rparr>"] assms(2) by simp
qed

lemma keeps_continue:
  assumes "kinv s" "(K_Continuing, j) \<in> set (kn_workers s)"
  shows "kinv (moves (K_Continuing, j) [(K_Concluding, j)] (s\<lparr>kn_world := (kn_world s)\<lparr>kw_continued := kw_continued (kn_world s) @ [(jb_id j, data)]\<rparr>\<rparr>))"
proof -
  have "K_Concluding \<noteq> ready_phase b" for b by (cases b) simp_all
  moreover have "acted b ((kn_world s)\<lparr>kw_continued := kw_continued (kn_world s) @ [(jb_id j, data)]\<rparr>) = acted b (kn_world s)" if "b \<noteq> Act_Continue" for b using that by (cases b) simp_all
  ultimately show ?thesis using kinv_act[OF assms(1), of Act_Continue j K_Concluding "(kn_world s)\<lparr>kw_continued := kw_continued (kn_world s) @ [(jb_id j, data)]\<rparr>"] assms(2) by simp
qed

lemma kstep_inv: "kstep s t \<Longrightarrow> kinv s \<Longrightarrow> kinv t"
proof (induction rule: kstep.induct)
  case (k_receive e s now new_id stamp sha)
  then show ?case by (intro keeps_receive)
next
  case (k_claim_pending now l s j db)
  then show ?case by (intro keeps_claim_pending)
next
  case (k_claim_ready now l s j db)
  then show ?case by (intro keeps_claim_ready)
next
  case (k_prepared j s now wait_context secs suppress reason)
  then show ?case by (intro kinv_drop keeps_prepared) simp_all
next
  case (k_superseded s now sha window ms job)
  then show ?case by (rule keeps_discard)
next
  case (k_wait j s now db)
  then show ?case by (intro keeps_wait)
next
  case (k_launch j s)
  then show ?case by (intro keeps_launch)
next
  case (k_launch_failed j s now err)
  then show ?case unfolding mark_waiting_job_failed_def
    by (intro kinv_drop keeps_held_end) (simp_all add: ends_def same_keys_def finished_def terminal_statuses_def)
next
  case (k_launch_unsure j s now err)
  then show ?case by (intro kinv_drop keeps_warning) simp_all
next
  case (k_reply j s)
  then show ?case by (intro keeps_reply)
next
  case (k_retry j s now err)
  then show ?case by (intro keeps_retry)
next
  case (k_persist s now cid channel job content calls atts expected)
  then show ?case by (intro keeps_persist)
next
  case (k_history s h)
  then show ?case by (rule keeps_history)
next
  case (k_begin ph j s now data db)
  then show ?case by (intro keeps_begin)
next
  case (k_continue j s data)
  then show ?case by (intro keeps_continue)
next
  case (k_sent j s now resp)
  then show ?case unfolding mark_job_sent_def
    by (intro kinv_drop keeps_held_end) (simp_all add: ends_def same_keys_def finished_def terminal_statuses_def)
next
  case (k_discarded j s now reason resp)
  then show ?case unfolding mark_job_discarded_def
    by (intro kinv_drop keeps_held_end) (simp_all add: ends_def same_keys_def finished_def terminal_statuses_def)
next
  case (k_mark ph j s st now err)
  then show ?case using kinvD(3)[OF k_mark.prems k_mark.hyps(1)] by (intro kinv_drop keeps_mark) simp_all
next
  case (k_claim_delivery ph j s month now jid media print meta fence)
  then show ?case by (intro kinv_same_jobs) simp_all
next
  case (k_send s now send m)
  then show ?case by (intro kinv_world) (simp_all add: send_claimed_sel)
next
  case (k_await ph j s payload now ids reason db)
  then show ?case using keeps_await[of s ph j payload now ids reason] by (intro kinv_drop) simp_all
next
  case (k_look now s j db handoff provider)
  then show ?case by (intro keeps_look)
next
  case (k_request s now mid)
  then show ?case by (rule keeps_request)
next
  case (k_callback s now new_id sha cfg ms d url claims)
  then show ?case by (rule keeps_callback)
next
  case (k_recover s now)
  then show ?case by (rule keeps_recover)
next
  case (k_timed_out s now jid)
  then show ?case by (rule keeps_timed_out)
next
  case (k_match s now jid event story score sender ctx)
  then show ?case by (rule keeps_match)
next
  case (k_ambiguous s now jid)
  then show ?case by (rule keeps_ambiguous)
next
  case (k_enrich s now jid event ctx)
  then show ?case by (rule keeps_enrich)
next
  case (k_release s now jid story ctx)
  then show ?case by (rule keeps_release_matched)
next
  case (k_crash x s)
  then show ?case by (intro kinv_drop)
qed

end
