(* ===== verification/Kommo_Runs.thy ===== *)
theory Kommo_Runs
  imports Kommo_Protocol
begin

text \<open>
  Runs of the Kommo queue: the invariant of the protocol gives the properties of every reachable state,
  and concrete runs show that its states are reached. A job that waits always has a step ahead, except for
  a recovery that a newer message of the same conversation makes fail.
\<close>

lemma kinit_inv: "kinit s \<Longrightarrow> kinv s"
proof -
  assume s: "kinit s"
  have "acted a (kn_world s) = []" for a using s by (cases a) (simp_all add: kinit_def)
  then show "kinv s" using s
    by (simp add: kinv_def kinit_def acts_of_def jobs_indexed_def unique_among_def)
qed

interpretation kommo_queue: protocol kinit kstep kinv
  by unfold_locales (auto intro: kinit_inv kstep_inv)

abbreviation kreach :: "kommo_run \<Rightarrow> bool" where
  "kreach \<equiv> reach kinit kstep"

section \<open>What a reachable state has\<close>

lemma acted_once:
  assumes "kinv s" shows "distinct (acted a (kn_world s))"
proof -
  have "count_list (acted a (kn_world s)) jid \<le> 1" for jid
    using kinvD(7)[OF assms, of a jid] by (simp add: acts_of_def)
  moreover have "(\<And>x. count_list xs x \<le> 1) \<Longrightarrow> distinct xs" for xs :: "string list"
  proof (induction xs)
    case (Cons x xs)
    have "count_list xs y \<le> 1" for y using Cons.prems[of y] by (simp split: if_splits)
    moreover have "count_list xs x = 0" using Cons.prems[of x] by simp
    ultimately show ?case using Cons.IH by (simp add: count_list_0_iff)
  qed simp
  ultimately show ?thesis by blast
qed

text \<open>C15: In every reachable state, whatever crashed or was recovered, a job launched the Salesbot at most
  once, was answered by the assistant at most once, and continued the Salesbot at most once.\<close>

theorem kommo_job_acts_once:
  "kreach s \<Longrightarrow> distinct (kw_launched (kn_world s)) \<and> distinct (kw_replies (kn_world s)) \<and> distinct (map fst (kw_continued (kn_world s)))"
  using kommo_queue.reach_inv[of s] acted_once[of s Act_Launch] acted_once[of s Act_Reply] acted_once[of s Act_Continue] by simp

text \<open>In every reachable state a job was claimed at most five times, a lease marks exactly the jobs that
  are worked on or wait for their Salesbot, and two workers never hold the same lease.\<close>

theorem kommo_claims_bounded:
  "kreach s \<Longrightarrow> j \<in> set (run_jobs s) \<Longrightarrow> 0 \<le> jb_attempts j \<and> jb_attempts j \<le> 5
     \<and> (jb_lease j \<noteq> None \<longrightarrow> jb_status j \<in> {JProcessing, JSalesbot, JContinuing})
     \<and> (jb_status j \<in> {JProcessing, JContinuing} \<longrightarrow> jb_lease j \<noteq> None)
     \<and> distinct (map (jb_lease \<circ> snd) (kn_workers s))"
proof -
  assume s: "kreach s" and j: "j \<in> set (run_jobs s)"
  have i: "kinv s" by (rule kommo_queue.reach_inv[OF s])
  have "0 \<le> jb_attempts j" "jb_attempts j \<le> attempt_bound j" "jb_lease j \<noteq> None \<longrightarrow> jb_status j \<in> {JProcessing, JSalesbot, JContinuing}"
    "jb_status j \<in> {JProcessing, JContinuing} \<longrightarrow> jb_lease j \<noteq> None"
    using kinvD(2)[OF i j] unfolding job_ok_def by simp_all
  then show ?thesis using kinvD(5)[OF i] attempt_bound_le[of j] by simp
qed

section \<open>What lies ahead of a job\<close>

text \<open>The statement that takes a job on, at a given time.\<close>

definition has_next :: "int \<Rightarrow> kommo_db \<Rightarrow> kommo_job \<Rightarrow> bool" where
  "has_next now db j = (case jb_status j of
      JPending \<Rightarrow> due_pending now (kj_jobs db) j \<or> (\<exists>a \<in> set (kj_jobs db). blocks a j)
    | JSalesbot \<Rightarrow> stale_waiting now j
    | JContext \<Rightarrow> fst (release_timed_out now (jb_id j) db)
    | JDelivery \<Rightarrow> awaits_look now j
    | JReady \<Rightarrow> fst (claim_ready_job now [] db) \<noteq> None
    | JProcessing \<Rightarrow> stale_unstarted now j \<or> stale_uncertain now j
    | JContinuing \<Rightarrow> stale_uncertain now j
    | _ \<Rightarrow> False)"

lemma claims_ready: "r \<in> set (kj_jobs db) \<Longrightarrow> jb_status r = JReady \<Longrightarrow> claimable r \<Longrightarrow> fst (claim_ready_job now l db) \<noteq> None"
  using first_by_None[of jb_updated "\<lambda>j. jb_status j = JReady \<and> claimable j" "kj_jobs db"]
  by (auto simp: claim_ready_job_def split: option.split)


section \<open>A run\<close>

definition sample_message :: "string \<Rightarrow> string \<Rightarrow> kommo_event" where
  "sample_message channel mid = \<lparr>ev_kind = ''message'', ev_message = Some mid, ev_chat = Some ''chat-1'', ev_talk = Some ''77'',
     ev_contact = Some ''c1'', ev_lead = Some ''l1'', ev_entity = None, ev_entity_type = None, ev_text = Some ''hola'',
     ev_type = Some ''text'', ev_origin = None, ev_channel = Some channel, ev_author = None, ev_author_type = None,
     ev_names = \<lparr>kn_name = None, kn_username = None, kn_url = None, kn_sender = None, kn_sender_url = None\<rparr>,
     ev_created = Some 0, ev_mode = None, ev_media = None, ev_interaction = private_message_scope\<rparr>"

definition no_jobs :: kommo_run where
  "no_jobs = \<lparr>kn_world = \<lparr>kw_db = \<lparr>kj_jobs = [], kj_receipts = [], kj_outbound = [], kj_history = []\<rparr>, kw_out = [],
     kw_launched = [], kw_replies = [], kw_continued = []\<rparr>, kn_workers = []\<rparr>"

definition received :: "int \<Rightarrow> string \<Rightarrow> kommo_event \<Rightarrow> kommo_db \<Rightarrow> kommo_db" where
  "received now new_id e db = snd (record_incoming_event now new_id [] id e db)"

text \<open>A WhatsApp message opens a job that is claimed at once; a second message opens another.\<close>

definition one_job :: kommo_db where
  "one_job = received 0 ''j1'' (sample_message ''whatsapp'' ''m1'') (run_db no_jobs)"

definition first_claim :: "(py_exc + kommo_job option) \<times> kommo_db" where
  "first_claim = claim_due_pending_job 20 ''lease-1'' one_job"

definition first_job :: kommo_job where
  "first_job = (case fst first_claim of Inr (Some j) \<Rightarrow> j | _ \<Rightarrow> blank_job 0 [] [])"

definition two_jobs :: kommo_db where
  "two_jobs = received 30 ''j2'' (sample_message ''whatsapp'' ''m2'') (snd first_claim)"

definition launch_claimed :: "bool \<times> kommo_db" where
  "launch_claimed = mark_job_waiting_for_salesbot 21 ''j1'' (Some ''lease-1'') (snd first_claim)"

lemma first_facts:
  "fst first_claim = Inr (Some first_job)" "jb_id first_job = ''j1''" "jb_lease first_job = Some ''lease-1''"
  "Some ''lease-1'' \<notin> set (map jb_lease (kj_jobs one_job))" "fst launch_claimed" "map jb_id (kj_jobs (snd first_claim)) = [''j1'']"
  "map (\<lambda>j. (jb_id j, jb_status j)) (kj_jobs two_jobs) = [(''j1'', JProcessing), (''j2'', JPending)]"
  "ev_interaction (sample_message c m) = private_message_scope" "jb_correlation first_job = ''kommo:private_message:chat-1''"
  by (simp add: sample_message_def | code_simp)+

abbreviation claimed_run :: kommo_run where
  "claimed_run \<equiv> joins (K_Preparing, first_job) (with_db (snd first_claim) (with_db one_job no_jobs))"

lemma claimed_run_reach: "kreach claimed_run"
proof -
  have "kreach no_jobs" by (rule reach_init) (simp add: kinit_def no_jobs_def)
  moreover have "kstep no_jobs (with_db one_job no_jobs)"
    unfolding one_job_def received_def by (rule k_receive) (simp add: first_facts)
  moreover have "kstep (with_db one_job no_jobs) claimed_run"
    by (rule k_claim_pending[where now = 20 and l = "''lease-1''"])
      (use first_facts in \<open>simp_all add: first_claim_def prod_eq_iff fresh_lease_def no_jobs_def\<close>)
  ultimately show ?thesis by (meson reach_step)
qed

lemma launched_run_reach: "\<exists>s. kreach s \<and> kw_launched (kn_world s) = [''j1'']"
proof -
  let ?s1 = "moves (K_Preparing, first_job) [(K_Launching, first_job)] (with_db (snd launch_claimed) claimed_run)"
  let ?s2 = "moves (K_Launching, first_job) [(K_Launched, first_job)]
    (?s1\<lparr>kn_world := (kn_world ?s1)\<lparr>kw_launched := kw_launched (kn_world ?s1) @ [jb_id first_job]\<rparr>\<rparr>)"
  have "kstep claimed_run ?s1"
    by (rule k_wait[where now = 21]) (use first_facts in \<open>simp_all add: launch_claimed_def prod_eq_iff\<close>)
  moreover have "kstep ?s1 ?s2" by (rule k_launch) simp
  ultimately have "kreach ?s2" using claimed_run_reach by (meson reach_step)
  then show ?thesis using first_facts by (intro exI[of _ ?s2]) (simp add: no_jobs_def)
qed

theorem kommo_job_acts_once_witness: "\<exists>s. kreach s \<and> kw_launched (kn_world s) = [''j1''] \<and> distinct (kw_launched (kn_world s))"
  using launched_run_reach kommo_job_acts_once by blast

lemma first_row: "\<exists>j. j \<in> set (run_jobs claimed_run) \<and> jb_status j = JProcessing"
proof -
  have "map jb_status (kj_jobs (snd first_claim)) = [JProcessing]" by code_simp
  then show ?thesis by auto
qed

theorem kommo_claims_bounded_witness: "\<exists>s j. kreach s \<and> j \<in> set (run_jobs s) \<and> jb_attempts j \<le> 5 \<and> jb_lease j \<noteq> None"
proof -
  obtain j where j: "j \<in> set (run_jobs claimed_run)" "jb_status j = JProcessing" using first_row by blast
  show ?thesis using kommo_claims_bounded[OF claimed_run_reach j(1)] j claimed_run_reach
    by (intro exI[of _ claimed_run] exI[of _ j]) simp
qed


section \<open>The recovery may fail\<close>


lemma two_facts: "\<exists>a b. kj_jobs two_jobs = [a, b] \<and> jb_status a = JProcessing \<and> jb_started a = Some 20 \<and> jb_ai a = None
    \<and> jb_attempts a = 1 \<and> jb_url a = None \<and> jb_channel a = Some ''whatsapp'' \<and> jb_status b = JPending
    \<and> jb_correlation a = jb_correlation b \<and> jb_lead a = Some ''l1'' \<and> jb_lead b = Some ''l1'' \<and> jb_id a \<noteq> jb_id b"
proof -
  have "map (\<lambda>j. (jb_status j, jb_started j, jb_ai j, jb_attempts j, jb_url j, jb_channel j, jb_correlation j, jb_lead j, jb_id j)) (kj_jobs two_jobs)
    = [(JProcessing, Some 20, None, 1, None, Some ''whatsapp'', ''kommo:private_message:chat-1'', Some ''l1'', ''j1''),
       (JPending, None, None, 0, None, Some ''whatsapp'', ''kommo:private_message:chat-1'', Some ''l1'', ''j2'')]" by code_simp
  then show ?thesis by (auto simp: map_eq_Cons_conv)
qed


section \<open>Finished jobs\<close>

text \<open>Every finished row is still there, with its status.\<close>

definition finished_kept :: "kommo_job list \<Rightarrow> kommo_job list \<Rightarrow> bool" where
  "finished_kept t t' = (\<forall>j \<in> set t. terminal j \<longrightarrow> (\<exists>k \<in> set t'. jb_id k = jb_id j \<and> jb_status k = jb_status j))"

lemma finished_kept_refl [simp]: "finished_kept t t"
  by (auto simp: finished_kept_def)

lemma finished_kept_trans: "finished_kept t u \<Longrightarrow> finished_kept u v \<Longrightarrow> finished_kept t v"
  unfolding finished_kept_def by metis

lemma finished_kept_append [simp]: "finished_kept t (t @ u)"
  by (auto simp: finished_kept_def)

lemma finished_kept_upd:
  assumes "\<And>j. j \<in> set t \<Longrightarrow> terminal j \<Longrightarrow> p j \<Longrightarrow> jb_id (f j) = jb_id j \<and> jb_status (f j) = jb_status j"
  shows "finished_kept t (upd_where p f t)"
  unfolding finished_kept_def
proof (intro ballI impI)
  fix j assume j: "j \<in> set t" "terminal j"
  show "\<exists>k \<in> set (upd_where p f t). jb_id k = jb_id j \<and> jb_status k = jb_status j"
    by (rule bexI[of _ "if p j then f j else j"]) (use assms j in \<open>auto simp: in_upd_where\<close>)
qed

lemma finished_kept_store: "finished_kept (kj_jobs db) t \<Longrightarrow> finished_kept (kj_jobs db) (kj_jobs (snd (store_jobs t db)))"
  by (simp add: store_jobs_def)

lemma kept_held:
  assumes "st \<notin> set terminal_statuses" shows "finished_kept t (upd_where (held jid st l) f t)"
  by (rule finished_kept_upd) (use assms in \<open>auto simp: held_def\<close>)

lemma kept_receive: "finished_kept (kj_jobs db) (kj_jobs (snd (record_incoming_event now new_id stamp sha e db)))"
proof (cases "find_by kr_message (external_id stamp e) (kj_receipts db)")
  case None
  show ?thesis
  proof (cases "latest_pending e db")
    case (Some j)
    have "finished_kept (kj_jobs db) (upd_where (\<lambda>r. jb_id r = jb_id j) (merge_event now e (external_id stamp e)) (kj_jobs db))"
      by (rule finished_kept_upd) (simp add: merge_event_def split: prod.split)
    then show ?thesis using None Some by (simp add: record_incoming_event_def Let_def)
  qed (use None in \<open>simp add: record_incoming_event_def Let_def store_jobs_def\<close>)
qed (simp add: record_incoming_event_def Let_def)

lemma kept_superseded: "finished_kept (kj_jobs db) (kj_jobs (snd (discard_superseded now jid db)))"
  unfolding discard_superseded_def Let_def snd_conv set_jobs_sel
  by (rule finished_kept_upd) (auto simp: may_discard_def mirror_statuses_def terminal_statuses_def)

lemma kept_recent: "finished_kept (kj_jobs db) (kj_jobs (snd (discard_recent_private_jobs now sha window ms v msg db)))"
  using kept_superseded[of db now] by (simp add: discard_recent_private_jobs_def Let_def split: option.split prod.split) (metis snd_conv)

lemma kept_callback:
  assumes ids: "distinct (map jb_id (kj_jobs db))"
  shows "finished_kept (kj_jobs db) (kj_jobs (snd (persist_salesbot_callback now new_id sha cfg ms d url claims db)))"
proof (cases "callback_values d url claims")
  case (Inr v)
  have made: "finished_kept (kj_jobs db) (kj_jobs (snd (create_ready_comment_job now new_id sha cfg ms d v db)))"
    using kept_recent[of db now sha "xc_window cfg" ms v]
    by (auto simp: create_ready_comment_job_def Let_def store_jobs_def split: sum.split prod.split option.split
        intro: finished_kept_trans[OF _ finished_kept_append])
  show ?thesis
  proof (cases "callback_target v (kj_jobs db)")
    case (Some j)
    have "j \<in> set (sort_key (\<lambda>j. - the (jb_launched j)) (sort_key (\<lambda>j. - jb_created j) (filter (awaits_callback v) (kj_jobs db))))"
      using Some by (auto simp: callback_target_def simp del: set_sort split: if_splits list.splits)
    then have j: "j \<in> set (kj_jobs db)" "jb_status j = JSalesbot" by (simp_all add: awaits_callback_def)
    have "finished_kept (kj_jobs db) (upd_where (by_id (jb_id j)) (called_back now v) (kj_jobs db))"
    proof (rule finished_kept_upd)
      fix r assume r: "r \<in> set (kj_jobs db)" "terminal r" "by_id (jb_id j) r"
      then have "r = j" using ids j(1) by (auto simp: distinct_map inj_on_def by_id_def)
      then show "jb_id (called_back now v r) = jb_id r \<and> jb_status (called_back now v r) = jb_status r"
        using r(2) j(2) by (simp add: terminal_statuses_def)
    qed
    then show ?thesis using Inr Some by (simp add: persist_salesbot_callback_def answer_callback_def)
  qed (use Inr made in \<open>simp add: persist_salesbot_callback_def answer_callback_def split: option.split\<close>)
qed (simp add: persist_salesbot_callback_def)

lemma kept_persist:
  assumes "db2 = db \<or> (\<exists>p h. db2 = set_jobs p (\<lambda>j. j\<lparr>jb_persisted := Some now, jb_updated := now\<rparr>) (db\<lparr>kj_history := h\<rparr>))"
  shows "finished_kept (kj_jobs db) (kj_jobs db2)"
  using assms by (auto intro!: finished_kept_upd)

lemma kept_looking: "finished_kept (kj_jobs db) (kj_jobs (snd (look_at_deliveries now handoff provider job ds b db)))"
proof (induction now handoff provider job ds b db rule: look_at_deliveries.induct)
  case (2 now handoff provider job d ds b db)
  have "finished_kept (kj_jobs db) (kj_jobs (fail_waiting_delivery now handoff job mid st media db))" for mid st media
    by (auto simp: fail_waiting_delivery_def Let_def terminal_statuses_def split: option.split intro!: finished_kept_upd)
  then show ?case using "2.IH" by (simp add: Let_def split: answer.split)
qed simp

lemma kept_finalize: "finished_kept (kj_jobs db) (kj_jobs (snd (finalize_waiting_delivery now jid db)))"
proof (cases "find (\<lambda>j. jb_id j = jid \<and> jb_status j = JDelivery) (kj_jobs db)")
  case (Some job)
  obtain e db1 where r: "(case jb_assistant job of None \<Rightarrow> (Inr (), db) | Some b \<Rightarrow> persist_waiting_assistant_message now job b db) = (e, db1)"
    by fastforce
  have "finished_kept (kj_jobs db) (kj_jobs db1)"
  proof (cases "jb_assistant job")
    case (Some b)
    then show ?thesis using kept_persist[OF persist_waiting_cases[of now job b db]] r by simp
  qed (use r in simp)
  moreover have "finished_kept (kj_jobs db1) (kj_jobs (set_jobs (\<lambda>j. jb_id j = jid \<and> jb_status j = JDelivery \<and> q j) f db1))" for q f
    unfolding set_jobs_sel by (rule finished_kept_upd) (auto simp: terminal_statuses_def)
  ultimately show ?thesis using Some r
    by (auto simp: finalize_waiting_delivery_def split: sum.split intro: finished_kept_trans)
qed (simp add: finalize_waiting_delivery_def)

lemma kept_look: "finished_kept (kj_jobs db) (kj_jobs (snd (reconcile_waiting_for_delivery_job now handoff provider j db)))"
proof -
  define rows where "rows = sort_key ob_created (filter (\<lambda>d. chats_of (jb_id j) d
      \<and> (case ob_provider d of None \<Rightarrow> False | Some i \<Rightarrow> i \<in> set (provider_message_ids j))) (kj_outbound db))"
  obtain b db2 where look: "look_at_deliveries now handoff provider j rows True db = (b, db2)" by fastforce
  have kept: "finished_kept (kj_jobs db) (kj_jobs db2)" using kept_looking[of db now handoff provider j rows True] look by simp
  have "snd (reconcile_waiting_for_delivery_job now handoff provider j db)
      = (if rows = [] then db else if b then snd (finalize_waiting_delivery now (jb_id j) db2) else db2)"
    using look unfolding reconcile_waiting_for_delivery_job_def Let_def rows_def[symmetric] by (simp split: bool.split)
  then show ?thesis using kept finished_kept_trans[OF kept kept_finalize] by simp
qed

lemma kept_claim_delivery: "claim_waiting_for_delivery_job now db = (Some j, db') \<Longrightarrow> finished_kept (kj_jobs db) (kj_jobs db')"
  by (auto simp: claim_waiting_for_delivery_job_def looked_at_def split: list.splits intro!: finished_kept_upd)

lemma kept_recover: "finished_kept (kj_jobs db) (kj_jobs (snd (recover_stale_jobs now db)))"
proof -
  let ?again = "\<lambda>j. stale_unstarted now j \<and> jb_attempts j < max_job_attempts"
  define db1 where "db1 = set_jobs (stale_waiting now) (timed_out_row now) db"
  obtain r db2 where s: "store_jobs (upd_where ?again (reset_row now) (kj_jobs db1)) db1 = (r, db2)" by fastforce
  have one: "finished_kept (kj_jobs db) (kj_jobs db1)" unfolding db1_def set_jobs_sel
    by (rule finished_kept_upd) (auto simp: stale_waiting_def terminal_statuses_def)
  have "finished_kept (kj_jobs db1) (upd_where ?again (reset_row now) (kj_jobs db1))"
    by (rule finished_kept_upd) (auto simp: stale_unstarted_def terminal_statuses_def)
  from finished_kept_store[OF this] have two: "finished_kept (kj_jobs db1) (kj_jobs db2)" using s by simp
  have three: "finished_kept (kj_jobs db3) (kj_jobs (set_jobs (stale_uncertain now) f db3))" for f db3
    unfolding set_jobs_sel by (rule finished_kept_upd) (auto simp: stale_uncertain_def terminal_statuses_def)
  have four: "finished_kept (kj_jobs db3) (kj_jobs (set_jobs (\<lambda>j. stale_unstarted now j \<and> max_job_attempts \<le> jb_attempts j) f db3))" for f db3
    unfolding set_jobs_sel by (rule finished_kept_upd) (auto simp: stale_unstarted_def terminal_statuses_def)
  have "snd (recover_stale_jobs now db) = (case r of Inl x \<Rightarrow> db2 | Inr _ \<Rightarrow>
      set_jobs (\<lambda>j. stale_unstarted now j \<and> max_job_attempts \<le> jb_attempts j) (exhausted_row now)
        (set_jobs (stale_uncertain now) (uncertain_row now) db2))"
    using s by (simp add: recover_stale_jobs_def Let_def db1_def split: sum.split)
  then show ?thesis using finished_kept_trans[OF one finished_kept_trans[OF two]] finished_kept_trans[OF three four]
    by (simp split: sum.split)
qed

lemma kept_step: "kstep s t \<Longrightarrow> kinv s \<Longrightarrow> finished_kept (run_jobs s) (run_jobs t)"
proof (induction rule: kstep.induct)
  case (k_receive e s now new_id stamp sha)
  then show ?case using kept_receive by simp
next
  case (k_claim_pending now l s j db)
  obtain c where c: "first_by jb_created (due_pending now (run_jobs s)) (run_jobs s) = Some c"
      "db = snd (store_jobs (upd_where (by_id (jb_id c)) (claimed now l None) (run_jobs s)) (run_db s))"
    using k_claim_pending.hyps(1) by (auto simp: claim_due_pending_job_def split: option.splits sum.splits prod.splits)
  have cc: "c \<in> set (run_jobs s)" "is_pending c" using first_by_SomeD[OF c(1)] by (simp_all add: due_pending_def)
  have "finished_kept (run_jobs s) (upd_where (by_id (jb_id c)) (claimed now l None) (run_jobs s))"
  proof (rule finished_kept_upd)
    fix r assume r: "r \<in> set (run_jobs s)" "terminal r" "by_id (jb_id c) r"
    then have "r = c" using same_job_id[OF kinvD(1)[OF k_claim_pending.prems] r(1) cc(1)] by (simp add: by_id_def)
    then show "jb_id (claimed now l None r) = jb_id r \<and> jb_status (claimed now l None r) = jb_status r"
      using r(2) cc(2) by (simp add: is_pending_def terminal_statuses_def)
  qed
  then show ?case using finished_kept_store[of "run_db s"] c(2) by simp
next
  case (k_claim_ready now l s j db)
  obtain c where c: "first_by jb_updated (\<lambda>j. jb_status j = JReady \<and> claimable j) (run_jobs s) = Some c"
      "db = set_jobs (by_id (jb_id c)) (claimed now l (Some now)) (run_db s)"
    using k_claim_ready.hyps(1) by (auto simp: claim_ready_job_def split: option.splits)
  have cc: "c \<in> set (run_jobs s)" "jb_status c = JReady" using first_by_SomeD[OF c(1)] by simp_all
  have "finished_kept (run_jobs s) (upd_where (by_id (jb_id c)) (claimed now l (Some now)) (run_jobs s))"
  proof (rule finished_kept_upd)
    fix r assume r: "r \<in> set (run_jobs s)" "terminal r" "by_id (jb_id c) r"
    then have "r = c" using same_job_id[OF kinvD(1)[OF k_claim_ready.prems] r(1) cc(1)] by (simp add: by_id_def)
    then show "jb_id (claimed now l (Some now) r) = jb_id r \<and> jb_status (claimed now l (Some now) r) = jb_status r"
      using r(2) cc(2) by (simp add: terminal_statuses_def)
  qed
  then show ?case using c(2) by simp
next
  case (k_prepared j s now wait_context secs suppress reason)
  then show ?case
    by (auto simp: mark_direct_instagram_job_prepared_def terminal_statuses_def held_def intro!: finished_kept_upd)
next
  case (k_superseded s now sha window ms job)
  then show ?case using kept_superseded by (simp add: discard_private_job_if_superseded_def Let_def)
next
  case (k_wait j s now db)
  then have "db = snd (mark_job_waiting_for_salesbot now (jb_id j) (jb_lease j) (run_db s))" by simp
  then show ?case using kept_held[of JProcessing] by (simp add: mark_job_waiting_for_salesbot_def terminal_statuses_def)
next
  case (k_launch_failed j s now err)
  then show ?case using kept_held[of JSalesbot] by (simp add: mark_waiting_job_failed_def terminal_statuses_def)
next
  case (k_launch_unsure j s now err)
  then show ?case by (auto simp: record_uncertain_launch_warning_def intro!: finished_kept_upd)
next
  case (k_retry j s now err)
  then show ?case using kept_held[of JProcessing] by (simp add: retry_ready_job_def terminal_statuses_def)
next
  case (k_persist s now cid channel job content calls atts expected)
  then show ?case using kept_persist[OF store_assistant_cases] by simp
next
  case (k_begin ph j s now data db)
  then have "db = snd (mark_job_continuing now (jb_id j) (jb_lease j) data (run_db s))" by simp
  then show ?case using kept_held[of JProcessing] by (simp add: mark_job_continuing_def terminal_statuses_def)
next
  case (k_sent j s now resp)
  then show ?case using kept_held[of JContinuing] by (simp add: mark_job_sent_def terminal_statuses_def)
next
  case (k_discarded j s now reason resp)
  then show ?case using kept_held[of JContinuing] by (simp add: mark_job_discarded_def terminal_statuses_def)
next
  case (k_mark ph j s st now err)
  have l: "jb_lease j \<noteq> None" using kinvD(3)[OF k_mark.prems k_mark.hyps(1)] by simp
  have "finished_kept (run_jobs s) (upd_where (\<lambda>r. jb_id r = jb_id j \<and> (jb_lease j = None \<or> jb_lease r = jb_lease j)) f (run_jobs s))" for f
  proof (rule finished_kept_upd)
    fix r assume r: "r \<in> set (run_jobs s)" "terminal r" "jb_id r = jb_id j \<and> (jb_lease j = None \<or> jb_lease r = jb_lease j)"
    have "jb_lease r \<noteq> None \<longrightarrow> jb_status r \<in> {JProcessing, JSalesbot, JContinuing}"
      using kinvD(2)[OF k_mark.prems r(1)] unfolding job_ok_def by simp
    then have "jb_lease r = None" using r(2) by (auto simp: terminal_statuses_def)
    then show "jb_id (f r) = jb_id r \<and> jb_status (f r) = jb_status r" using r(3) l by simp
  qed
  then show ?case by (simp add: mark_job_def)
next
  case (k_send s now send m)
  then show ?case by (simp add: send_claimed_sel)
next
  case (k_await ph j s payload now ids reason db)
  then have "db = snd (mark_direct_job_waiting_for_delivery now (jb_id j) (jb_lease j) ids payload reason (run_db s))" by simp
  then show ?case
    by (auto simp: mark_direct_job_waiting_for_delivery_def Let_def held_def terminal_statuses_def intro!: finished_kept_upd)
next
  case (k_look now s j db handoff provider)
  then show ?case using finished_kept_trans[OF kept_claim_delivery kept_look] by simp
next
  case (k_request s now mid)
  then show ?case by (auto simp: request_delivery_reconciliation_def Let_def intro!: finished_kept_upd)
next
  case (k_callback s now new_id sha cfg ms d url claims)
  then show ?case using kept_callback kinvD(1)[OF k_callback.prems] by (simp add: jobs_indexed_def)
next
  case (k_recover s now)
  then show ?case using kept_recover by simp
next
  case (k_timed_out s now jid)
  then show ?case by (auto simp: release_timed_out_def Let_def awaits_context_def terminal_statuses_def intro!: finished_kept_upd)
next
  case (k_match s now jid event story score sender ctx)
  have "finished_kept (run_jobs s) (upd_where (\<lambda>j. awaits_context jid j \<and> jb_event j = None) f (run_jobs s))" for f
    by (rule finished_kept_upd) (auto simp: awaits_context_def terminal_statuses_def)
  then show ?case using finished_kept_store[of "run_db s"] by (simp add: match_context_def)
next
  case (k_ambiguous s now jid)
  then show ?case by (auto simp: mark_job_ambiguous_def intro!: finished_kept_upd)
next
  case (k_enrich s now jid event ctx)
  then show ?case by (auto simp: enrich_matched_def intro!: finished_kept_upd)
next
  case (k_release s now jid story ctx)
  then show ?case by (auto simp: release_matched_def awaits_context_def terminal_statuses_def intro!: finished_kept_upd)
qed (simp_all)

lemma kept_run: "kstep\<^sup>*\<^sup>* s t \<Longrightarrow> kinv s \<Longrightarrow> finished_kept (run_jobs s) (run_jobs t)"
proof (induction rule: rtranclp_induct)
  case (step t u)
  then show ?case using kept_step[OF step.hyps(2) kommo_queue.steps_inv[OF step.hyps(1) step.prems]] finished_kept_trans by blast
qed simp

text \<open>C18: A job that was sent, discarded, failed or left as unknown keeps that status for good: no later claim,
  callback, recovery, look at a delivery or late worker changes it.\<close>

theorem finished_kommo_jobs_final:
  "kreach s \<Longrightarrow> kstep\<^sup>*\<^sup>* s t \<Longrightarrow> j \<in> set (run_jobs s) \<Longrightarrow> terminal j
   \<Longrightarrow> \<exists>k \<in> set (run_jobs t). jb_id k = jb_id j \<and> jb_status k = jb_status j"
  using kept_run[OF _ kommo_queue.reach_inv, of s t] unfolding finished_kept_def by blast
definition failed_db :: kommo_db where
  "failed_db = mark_job 22 ''j1'' JFailed None (Some ''lease-1'') (snd first_claim)"

theorem finished_kommo_jobs_final_witness:
  "\<exists>t. kreach t \<and> (\<exists>k \<in> set (run_jobs t). jb_id k = ''j1'' \<and> jb_status k = JFailed) \<and> (\<exists>k \<in> set (kj_receipts (run_db t)). kr_message k = ''m2'')"
proof -
  let ?s = "moves (K_Preparing, first_job) [] (with_db failed_db claimed_run)"
  define t where "t = with_db (received 30 ''j2'' (sample_message ''whatsapp'' ''m2'') failed_db) ?s"
  have "kstep claimed_run ?s"
    using k_mark[of K_Preparing first_job claimed_run JFailed 22 None] first_facts by (simp add: failed_db_def with_db_def moves_def joins_def)
  then have s: "kreach ?s" using claimed_run_reach by (rule reach_step[rotated])
  have "kstep ?s t" using k_receive[of "sample_message ''whatsapp'' ''m2''" ?s 30 "''j2''" "[]" id]
    by (simp add: first_facts t_def received_def)
  then have st: "kstep\<^sup>*\<^sup>* ?s t" and t: "kreach t" using s by (blast, blast intro: reach_step)
  have "map (\<lambda>j. (jb_id j, jb_status j)) (kj_jobs failed_db) = [(''j1'', JFailed)]" by code_simp
  then obtain j where j: "j \<in> set (run_jobs ?s)" "jb_id j = ''j1''" "jb_status j = JFailed" by auto
  have "\<exists>k \<in> set (run_jobs t). jb_id k = jb_id j \<and> jb_status k = jb_status j"
    by (rule finished_kommo_jobs_final[OF s st j(1)]) (simp add: j terminal_statuses_def)
  moreover have "\<exists>k \<in> set (kj_receipts (run_db t)). kr_message k = ''m2''"
  proof -
    have "''m2'' \<in> set (map kr_message (kj_receipts (received 30 ''j2'' (sample_message ''whatsapp'' ''m2'') failed_db)))" by code_simp
    then show ?thesis by (auto simp: t_def)
  qed
  ultimately show ?thesis using t j by auto
qed

end
