(* ===== verification/Kommo_Sends.thy ===== *)
theory Kommo_Sends
  imports Kommo_Delivery
begin

text \<open>
  The fence of direct messages: the rows of one job, claimed, sent and settled in any order by any number
  of workers, while the provider's reports arrive and workers stop between a claim, a send and the record
  of its answer. All but one of the messages of a job were refused, at once or later.
\<close>

section \<open>States and steps\<close>

text \<open>\<open>sn_claims\<close> are the messages a worker has claimed and not sent yet.\<close>

record send_run =
  sn_world :: kommo_world
  sn_claims :: "talk_message list"

abbreviation sn_rows :: "send_run \<Rightarrow> outbound list" where
  "sn_rows s \<equiv> kj_outbound (kw_db (sn_world s))"

definition sn_db :: "kommo_db \<Rightarrow> send_run \<Rightarrow> send_run" where
  "sn_db db s = s\<lparr>sn_world := (sn_world s)\<lparr>kw_db := db\<rparr>\<rparr>"

inductive send_step :: "(int \<Rightarrow> int) \<Rightarrow> (talk_message list \<Rightarrow> talk_message \<Rightarrow> send_answer) \<Rightarrow> string \<Rightarrow> send_run \<Rightarrow> send_run \<Rightarrow> bool"
  for month send jid where
  claim: "claim_outbound month now jid media (tk_print m) meta lease True (kw_db (sn_world s)) = (Inr c, db) \<Longrightarrow>
     tk_job m = jid \<Longrightarrow> dm_send c \<Longrightarrow>
     send_step month send jid s ((sn_db db s)\<lparr>sn_claims := m # sn_claims s\<rparr>)"
| unsent: "claim_outbound month now jid media print meta lease True (kw_db (sn_world s)) = (r, db) \<Longrightarrow>
     (case r of Inl _ \<Rightarrow> True | Inr c \<Rightarrow> \<not> dm_send c) \<Longrightarrow> send_step month send jid s (sn_db db s)"
| deliver: "m \<in> set (sn_claims s) \<Longrightarrow>
     send_step month send jid s (s\<lparr>sn_world := snd (send_claimed_delivery now send m (sn_world s)), sn_claims := remove1 m (sn_claims s)\<rparr>)"
| lost: "m \<in> set (sn_claims s) \<Longrightarrow>
     send_step month send jid s (s\<lparr>sn_world := (sn_world s)\<lparr>kw_out := kw_out (sn_world s) @ [m]\<rparr>, sn_claims := remove1 m (sn_claims s)\<rparr>)"
| stop: "m \<in> set (sn_claims s) \<Longrightarrow> send_step month send jid s (s\<lparr>sn_claims := remove1 m (sn_claims s)\<rparr>)"
| confirmed: "send_step month send jid s (sn_db (confirm_waiting_delivery now jid mid (kw_db (sn_world s))) s)"
| refused: "jb_id job = jid \<Longrightarrow>
     send_step month send jid s (sn_db (fail_waiting_delivery now handoff job mid st media (kw_db (sn_world s))) s)"
| others: "filter (chats_of jid) (kj_outbound db) = filter (chats_of jid) (sn_rows s) \<Longrightarrow> send_step month send jid s (sn_db db s)"

definition send_start :: "string \<Rightarrow> send_run \<Rightarrow> bool" where
  "send_start jid s = (filter (chats_of jid) (sn_rows s) = [] \<and> sn_claims s = [] \<and> \<not> list_ex (\<lambda>m. tk_job m = jid) (kw_out (sn_world s)))"

section \<open>Messages that may have arrived\<close>

text \<open>The service answered the message with a definite refusal.\<close>

definition turned_down :: "send_answer \<Rightarrow> bool" where
  "turned_down a = (case response_message_id a of Inl e \<Rightarrow> is_definitive_failure e | Inr _ \<Rightarrow> False)"

fun gone_out :: "(talk_message list \<Rightarrow> talk_message \<Rightarrow> send_answer) \<Rightarrow> string \<Rightarrow> talk_message list \<Rightarrow> talk_message list \<Rightarrow> talk_message list" where
  "gone_out send jid before [] = []"
| "gone_out send jid before (m # ms) =
     (if tk_job m = jid \<and> \<not> turned_down (send before m) then [m] else []) @ gone_out send jid (before @ [m]) ms"

text \<open>The messages of a job that the service did not refuse, and the rows it reported as failed later.\<close>

definition may_have_arrived :: "(talk_message list \<Rightarrow> talk_message \<Rightarrow> send_answer) \<Rightarrow> string \<Rightarrow> send_run \<Rightarrow> talk_message list" where
  "may_have_arrived send jid s = gone_out send jid [] (kw_out (sn_world s))"

definition reported_failed :: "string \<Rightarrow> send_run \<Rightarrow> outbound list" where
  "reported_failed jid s = filter (\<lambda>d. chats_of jid d \<and> ob_status d = OFailed \<and> ob_provider d \<noteq> None) (sn_rows s)"

lemma gone_out_append: "gone_out send jid b (ms @ [m]) =
    gone_out send jid b ms @ (if tk_job m = jid \<and> \<not> turned_down (send (b @ ms) m) then [m] else [])"
  by (induction ms arbitrary: b) simp_all

lemma gone_out_other: "\<not> list_ex (\<lambda>m. tk_job m = jid) ms \<Longrightarrow> gone_out send jid b ms = []"
  by (induction ms arbitrary: b) simp_all

section \<open>The invariant\<close>

definition live_row :: "string \<Rightarrow> outbound \<Rightarrow> bool" where
  "live_row jid d = (chats_of jid d \<and> ob_status d \<in> {OSending, OAccepted, OConfirmed, OUnknown})"

definition spent_row :: "string \<Rightarrow> outbound \<Rightarrow> bool" where
  "spent_row jid d = (live_row jid d \<or> chats_of jid d \<and> ob_status d = OFailed \<and> ob_provider d \<noteq> None)"

definition send_inv :: "(talk_message list \<Rightarrow> talk_message \<Rightarrow> send_answer) \<Rightarrow> string \<Rightarrow> send_run \<Rightarrow> bool" where
  "send_inv send jid s =
     (unique_among (chats_of jid) ob_print (sn_rows s) \<and> (\<forall>m \<in> set (sn_claims s). tk_job m = jid)
      \<and> length (filter (live_row jid) (sn_rows s)) \<le> 1
      \<and> length (sn_claims s) + length (may_have_arrived send jid s) \<le> length (filter (spent_row jid) (sn_rows s)))"

lemma spent_split: "length (filter (spent_row jid) t) = length (filter (live_row jid) t)
    + length (filter (\<lambda>d. chats_of jid d \<and> ob_status d = OFailed \<and> ob_provider d \<noteq> None) t)"
  by (induction t) (auto simp: spent_row_def live_row_def)

lemma count_le: "(\<And>r. r \<in> set t \<Longrightarrow> p (f r) \<Longrightarrow> q r) \<Longrightarrow> length (filter p (map f t)) \<le> length (filter q t)"
  by (induction t) (auto simp: le_SucI)

lemma count_ge: "(\<And>r. r \<in> set t \<Longrightarrow> q r \<Longrightarrow> p (f r)) \<Longrightarrow> length (filter q t) \<le> length (filter p (map f t))"
  by (induction t) (auto simp: le_SucI)

lemma sole_row:
  assumes "unique_among (chats_of jid) ob_print t" "r \<in> set t" "request_row jid print r"
  obtains xs ys where "t = xs @ r # ys" "\<And>y. y \<in> set xs \<union> set ys \<Longrightarrow> \<not> request_row jid print y"
proof -
  obtain xs ys where t: "t = xs @ r # ys" using split_list[OF assms(2)] by blast
  have "\<not> request_row jid print y" if y: "y \<in> set xs \<union> set ys" for y
  proof
    assume "request_row jid print y"
    then have "chats_of jid y" "ob_print y = ob_print r" using assms(3) by (simp_all add: request_row_def)
    moreover have "distinct (map ob_print (filter (chats_of jid) xs @ r # filter (chats_of jid) ys))"
      using assms(1,3) t by (simp add: unique_among_def request_row_def)
    ultimately show False using y by (auto simp: image_iff)
  qed
  then show thesis using that t by blast
qed

lemma upd_sole:
  assumes "p r" "\<And>y. y \<in> set xs \<union> set ys \<Longrightarrow> \<not> p y"
  shows "upd_where p f (xs @ r # ys) = xs @ f r # ys"
  using assms by (auto simp: upd_where_def intro!: map_idI)

text \<open>A change of a job's rows that keeps their prints, leaves no more of them under way, and takes none off
  the account.\<close>

lemma send_inv_rows:
  assumes s: "send_inv send jid s" and t: "kj_outbound db = upd_where p f (sn_rows s)"
    and f: "\<And>d. d \<in> set (sn_rows s) \<Longrightarrow> p d \<Longrightarrow> ob_print (f d) = ob_print d \<and> chats_of jid (f d) = chats_of jid d
      \<and> (live_row jid (f d) \<longrightarrow> live_row jid d) \<and> (spent_row jid d \<longrightarrow> spent_row jid (f d))"
  shows "send_inv send jid (sn_db db s)"
proof -
  let ?g = "\<lambda>d. if p d then f d else d"
  have m: "kj_outbound db = map ?g (sn_rows s)" using t by (simp add: upd_where_def)
  have "length (filter (live_row jid) (kj_outbound db)) \<le> length (filter (live_row jid) (sn_rows s))"
    unfolding m by (rule count_le) (use f in \<open>auto split: if_splits\<close>)
  moreover have "length (filter (spent_row jid) (sn_rows s)) \<le> length (filter (spent_row jid) (kj_outbound db))"
    unfolding m by (rule count_ge) (use f in \<open>auto split: if_splits\<close>)
  moreover have "unique_among (chats_of jid) ob_print (kj_outbound db)"
    unfolding t by (rule unique_among_upd) (use s f in \<open>auto simp: send_inv_def\<close>)
  moreover have "may_have_arrived send jid (sn_db db s) = may_have_arrived send jid s" by (simp add: may_have_arrived_def sn_db_def)
  ultimately show ?thesis using s unfolding send_inv_def by (simp add: sn_db_def)
qed

lemma send_inv_same: "send_inv send jid s \<Longrightarrow> kj_outbound db = sn_rows s \<Longrightarrow> send_inv send jid (sn_db db s)"
  using send_inv_rows[of send jid s db "\<lambda>_. False" id] by (simp add: upd_where_def)

lemma send_inv_insert:
  assumes s: "send_inv send jid s" and d: "ob_status d = OPrepared"
  shows "send_inv send jid (sn_db (insert_outbound d (kw_db (sn_world s))) s)"
proof (cases "list_ex (\<lambda>r. ob_job r = ob_job d \<and> ob_transport r = ob_transport d \<and> ob_print r = ob_print d) (sn_rows s)")
  case True
  then show ?thesis using send_inv_same[OF s refl] by (simp add: insert_outbound_def)
next
  case False
  then have new: "chats_of jid d \<Longrightarrow> ob_print d \<notin> ob_print ` set (filter (chats_of jid) (sn_rows s))"
    by (auto simp: list_ex_iff chats_of_def)
  have "\<not> live_row jid d" "\<not> spent_row jid d" using d by (simp_all add: live_row_def spent_row_def)
  moreover have "unique_among (chats_of jid) ob_print (sn_rows s @ [d])"
    using s new by (auto simp: send_inv_def unique_among_def)
  moreover have "kj_outbound (insert_outbound d (kw_db (sn_world s))) = sn_rows s @ [d]" using False by (simp add: insert_outbound_def)
  ultimately show ?thesis using s unfolding send_inv_def by (simp add: sn_db_def may_have_arrived_def)
qed

lemma claimed_rows:
  assumes s: "send_inv send jid s" and c: "claim_outbound month now jid media print meta lease True (kw_db (sn_world s)) = (Inr c, db)"
    and send: "dm_send c" and m: "tk_job m = jid"
  shows "send_inv send jid ((sn_db db s)\<lparr>sn_claims := m # sn_claims s\<rparr>)"
proof -
  define db1 where "db1 = insert_outbound (new_outbound now jid media print meta) (kw_db (sn_world s))"
  let ?p = "\<lambda>d. request_row jid print d \<and> may_send True d"
  have fence: "fence_error jid print meta lease (kw_db (sn_world s)) = None"
    using c by (auto simp: claim_outbound_def Let_def split: if_splits option.splits)
  have db: "list_ex ?p (kj_outbound db1)" "db = set_outbound ?p (sending_row month now meta) db1"
    using c send fence by (auto simp: claim_outbound_def Let_def db1_def split: if_splits option.splits)
  have s1: "send_inv send jid (sn_db db1 s)" unfolding db1_def by (rule send_inv_insert[OF s]) (simp add: new_outbound_def)
  have u: "unique_among (chats_of jid) ob_print (kj_outbound db1)" using s1 by (simp add: send_inv_def sn_db_def)
  obtain r where r: "r \<in> set (kj_outbound db1)" "?p r" using db(1) by (auto simp: list_ex_iff)
  obtain xs ys where t: "kj_outbound db1 = xs @ r # ys" "\<And>y. y \<in> set xs \<union> set ys \<Longrightarrow> \<not> request_row jid print y"
    using sole_row[OF u r(1)] r(2) by metis
  have other: "\<not> live_row jid y" if y: "y \<in> set xs \<union> set ys" for y
  proof
    assume live: "live_row jid y"
    then have "ob_status y \<noteq> OPrepared" by (auto simp: live_row_def)
    moreover have "y \<in> set (kj_outbound db1)" using y t(1) by auto
    ultimately have "y \<in> set (sn_rows s)"
      by (auto simp: db1_def insert_outbound_def new_outbound_def split: if_splits)
    moreover have "conflicting jid print b y" for b
      using live t(2)[OF y] by (auto simp: conflicting_def live_row_def request_row_def)
    ultimately show False using fence by (auto simp: fence_error_def list_ex_iff split: option.splits if_splits)
  qed
  let ?r = "sending_row month now meta r"
  have rows: "kj_outbound db = xs @ ?r # ys"
    unfolding db(2) set_outbound_def using upd_sole[of ?p r xs ys] r(2) t by auto
  have k: "live_row jid ?r" "spent_row jid ?r" "ob_print ?r = ob_print r" "chats_of jid ?r" "chats_of jid r"
    using r(2) by (simp_all add: spent_row_def live_row_def sending_row_def request_row_def chats_of_def)
  have nr: "\<not> spent_row jid r" using r(2) by (auto simp: spent_row_def live_row_def may_send_def)
  have none: "filter (live_row jid) xs = []" "filter (live_row jid) ys = []" using other by (auto simp: filter_empty_conv)
  show ?thesis using s1 k nr none m unfolding send_inv_def
    by (simp add: sn_db_def rows t(1) may_have_arrived_def unique_among_def)
qed

lemma unclaimed_rows:
  assumes s: "send_inv send jid s" and c: "claim_outbound month now jid media print meta lease True (kw_db (sn_world s)) = (r, db)"
    and no: "case r of Inl _ \<Rightarrow> True | Inr c \<Rightarrow> \<not> dm_send c"
  shows "send_inv send jid (sn_db db s)"
proof -
  have "db = kw_db (sn_world s) \<or> db = insert_outbound (new_outbound now jid media print meta) (kw_db (sn_world s))"
    using c no by (auto simp: claim_outbound_def Let_def split: if_splits option.splits)
  then show ?thesis
  proof
    assume "db = kw_db (sn_world s)"
    then show ?thesis using send_inv_same[OF s] by simp
  next
    assume "db = insert_outbound (new_outbound now jid media print meta) (kw_db (sn_world s))"
    then show ?thesis using send_inv_insert[OF s, of "new_outbound now jid media print meta"] by (simp add: new_outbound_def)
  qed
qed

lemma send_inv_world:
  assumes "send_inv send jid s" "kj_outbound (kw_db w) = sn_rows s" "m \<in> set (sn_claims s)" "kw_out w = kw_out (sn_world s) @ [m]"
  shows "send_inv send jid (s\<lparr>sn_world := w, sn_claims := remove1 m (sn_claims s)\<rparr>)"
proof -
  have "length (sn_claims s) = Suc (length (remove1 m (sn_claims s)))" using length_pos_if_in_set[OF assms(3)] assms(3) by (simp add: length_remove1)
  moreover have "length (may_have_arrived send jid (s\<lparr>sn_world := w, sn_claims := remove1 m (sn_claims s)\<rparr>))
      \<le> Suc (length (may_have_arrived send jid s))"
    using assms(4) by (simp add: may_have_arrived_def gone_out_append)
  ultimately show ?thesis using assms(1,2) set_remove1_subset[of m "sn_claims s"] unfolding send_inv_def by auto
qed

lemma delivered_rows:
  assumes s: "send_inv send jid s" and m: "m \<in> set (sn_claims s)"
  shows "send_inv send jid (s\<lparr>sn_world := snd (send_claimed_delivery now send m (sn_world s)), sn_claims := remove1 m (sn_claims s)\<rparr>)"
proof -
  let ?w = "sn_world s" and ?q = "in_sending (tk_job m) (tk_print m)"
  have job: "tk_job m = jid" using s m by (auto simp: send_inv_def)
  define db where "db = kw_db (snd (send_claimed_delivery now send m ?w))"
  have out: "kw_out (snd (send_claimed_delivery now send m ?w)) = kw_out ?w @ [m]"
    by (auto simp: send_claimed_delivery_def Let_def split: sum.split prod.split)
  show ?thesis
  proof (cases "response_message_id (send (kw_out ?w) m)")
    case (Inr mid)
    have "kj_outbound db = sn_rows s \<or> kj_outbound db = upd_where ?q (\<lambda>d. d\<lparr>ob_status := OAccepted, ob_provider := Some mid,
        ob_accepted := Some now, ob_error := None, ob_updated := now\<rparr>) (sn_rows s)"
      using Inr by (auto simp: db_def send_claimed_delivery_def Let_def accept_delivery_def set_outbound_def)
    then have "send_inv send jid (sn_db db s)"
    proof
      assume eq: "kj_outbound db = sn_rows s"
      show ?thesis by (rule send_inv_same[OF s eq])
    next
      assume eq: "kj_outbound db = upd_where ?q (\<lambda>d. d\<lparr>ob_status := OAccepted, ob_provider := Some mid,
        ob_accepted := Some now, ob_error := None, ob_updated := now\<rparr>) (sn_rows s)"
      show ?thesis
        by (rule send_inv_rows[OF s eq]) (auto simp: live_row_def spent_row_def chats_of_def in_sending_def request_row_def)
    qed
    from send_inv_world[OF this, of "snd (send_claimed_delivery now send m ?w)" m] show ?thesis
      using m out by (simp add: sn_db_def db_def)
  next
    case (Inl e)
    define st where "st = (if is_definitive_failure e then OFailed else OUnknown)"
    let ?f = "\<lambda>d. d\<lparr>ob_status := st, ob_error := Some (sanitize_kommo_error (delivery_error_text e)), ob_updated := now\<rparr>"
    have rows: "kj_outbound db = upd_where ?q ?f (sn_rows s)"
      using Inl by (simp add: db_def send_claimed_delivery_def Let_def mark_delivery_error_def set_outbound_def st_def)
    show ?thesis
    proof (cases "is_definitive_failure e")
      case False
      have "send_inv send jid (sn_db db s)"
        by (rule send_inv_rows[OF s rows]) (auto simp: st_def False live_row_def spent_row_def chats_of_def in_sending_def request_row_def)
      from send_inv_world[OF this, of "snd (send_claimed_delivery now send m ?w)" m] show ?thesis
        using m out by (simp add: sn_db_def db_def)
    next
      case True
      let ?s = "s\<lparr>sn_world := snd (send_claimed_delivery now send m ?w), sn_claims := remove1 m (sn_claims s)\<rparr>"
      have rows': "sn_rows ?s = upd_where ?q ?f (sn_rows s)" using rows by (simp add: db_def)
      have down: "turned_down (send (kw_out ?w) m)" using Inl True by (simp add: turned_down_def)
      have arr: "may_have_arrived send jid ?s = may_have_arrived send jid s"
        using out down by (simp add: may_have_arrived_def gone_out_append)
      have len: "length (sn_claims s) = Suc (length (sn_claims ?s))" using length_pos_if_in_set[OF m] m by (simp add: length_remove1)
      have live: "length (filter (live_row jid) (sn_rows ?s)) \<le> length (filter (live_row jid) (sn_rows s))"
        unfolding rows' upd_where_def by (rule count_le) (auto simp: st_def True live_row_def split: if_splits)
      have uni: "unique_among (chats_of jid) ob_print (sn_rows ?s)"
        unfolding rows' by (rule unique_among_upd) (use s in \<open>auto simp: send_inv_def chats_of_def\<close>)
      have "length (filter (spent_row jid) (sn_rows s)) \<le> Suc (length (filter (spent_row jid) (sn_rows ?s)))"
      proof (cases "list_ex ?q (sn_rows s)")
        case False
        then have "upd_where ?q ?f (sn_rows s) = sn_rows s" by (auto simp: upd_where_def list_ex_iff intro!: map_idI)
        then show ?thesis using rows' by simp
      next
        case True
        then obtain r where r: "r \<in> set (sn_rows s)" "?q r" by (auto simp: list_ex_iff)
        have u: "unique_among (chats_of jid) ob_print (sn_rows s)" using s by (simp add: send_inv_def)
        have "request_row jid (tk_print m) r" using r(2) job by (simp add: in_sending_def)
        from sole_row[OF u r(1) this] obtain xs ys where t: "sn_rows s = xs @ r # ys"
          "\<And>y. y \<in> set xs \<union> set ys \<Longrightarrow> \<not> request_row jid (tk_print m) y" by blast
        have "upd_where ?q ?f (xs @ r # ys) = xs @ ?f r # ys"
          by (rule upd_sole[where p = ?q, OF r(2)]) (use t(2) job in \<open>auto simp: in_sending_def\<close>)
        then show ?thesis unfolding rows' t(1) by simp
      qed
      then show ?thesis using s arr len live uni set_remove1_subset[of m "sn_claims s"] unfolding send_inv_def by fastforce
    qed
  qed
qed

lemma send_step_inv: "send_step month send jid s t \<Longrightarrow> send_inv send jid s \<Longrightarrow> send_inv send jid t"
proof (induction rule: send_step.induct)
  case (claim now media m meta lease s c db)
  then show ?case by (intro claimed_rows)
next
  case (unsent now media print meta lease s r db)
  then show ?case by (intro unclaimed_rows)
next
  case (deliver m s now)
  then show ?case by (intro delivered_rows)
next
  case (lost m s)
  then show ?case by (intro send_inv_world) simp_all
next
  case (stop m s)
  then show ?case using set_remove1_subset[of m "sn_claims s"] length_remove1[of m "sn_claims s"]
    unfolding send_inv_def may_have_arrived_def by fastforce
next
  case (confirmed s now mid)
  show ?case
    by (rule send_inv_rows[OF confirmed.prems, where p = "\<lambda>d. chats_of jid d \<and> ob_provider d = Some mid \<and> ob_status d = OAccepted"])
      (auto simp: confirm_waiting_delivery_def set_outbound_def live_row_def spent_row_def chats_of_def)
next
  case (refused job s now handoff mid st media)
  let ?p = "\<lambda>d. chats_of (jb_id job) d \<and> ob_provider d = Some mid \<and> ob_status d \<in> {OAccepted, OFailed}"
  let ?f = "\<lambda>d. d\<lparr>ob_status := OFailed, ob_error := Some (delivery_diagnostic st mid), ob_updated := now\<rparr>"
  have "kj_outbound (fail_waiting_delivery now handoff job mid st media (kw_db (sn_world s))) = upd_where ?p ?f (sn_rows s)"
    by (simp add: fail_waiting_delivery_def Let_def set_jobs_def set_outbound_def)
  then show ?case
    by (rule send_inv_rows[OF refused.prems]) (use refused.hyps in \<open>auto simp: live_row_def spent_row_def chats_of_def\<close>)
next
  case (others db s)
  have same: "filter (\<lambda>d. chats_of jid d \<and> q d) (kj_outbound db) = filter (\<lambda>d. chats_of jid d \<and> q d) (sn_rows s)" for q
    using arg_cong[OF others.hyps, of "filter q"] by (simp add: conj_commute)
  have "filter (live_row jid) (kj_outbound db) = filter (live_row jid) (sn_rows s)"
    using same[of "\<lambda>d. ob_status d \<in> {OSending, OAccepted, OConfirmed, OUnknown}"] by (simp add: live_row_def[abs_def])
  moreover have "spent_row jid = (\<lambda>d. chats_of jid d \<and> (ob_status d \<in> {OSending, OAccepted, OConfirmed, OUnknown} \<or> ob_status d = OFailed \<and> ob_provider d \<noteq> None))"
    by (auto simp: spent_row_def live_row_def)
  then have "filter (spent_row jid) (kj_outbound db) = filter (spent_row jid) (sn_rows s)" using same by simp
  ultimately show ?case using others by (simp add: send_inv_def sn_db_def may_have_arrived_def unique_among_def)
qed

lemma send_start_inv: "send_start jid s \<Longrightarrow> send_inv send jid s"
proof -
  assume s: "send_start jid s"
  then have none: "filter (live_row jid) (sn_rows s) = []" by (auto simp: send_start_def filter_empty_conv live_row_def)
  then show "send_inv send jid s"
    using s by (simp add: send_inv_def send_start_def may_have_arrived_def gone_out_other unique_among_def)
qed

interpretation kommo_sends: protocol "send_start jid" "send_step month send jid" "send_inv send jid" for month send jid
  by unfold_locales (auto intro: send_start_inv send_step_inv)

text \<open>C17: Whatever workers, reports and crashes do, at most one message of a job is under way or accepted, and
  every message that may have arrived, but one, is one the provider reported as failed afterwards.\<close>

theorem direct_messages_accounted:
  "reach (send_start jid) (send_step month send jid) s \<Longrightarrow>
     length (may_have_arrived send jid s) \<le> 1 + length (reported_failed jid s) \<and> length (filter (live_row jid) (sn_rows s)) \<le> 1"
proof -
  assume "reach (send_start jid) (send_step month send jid) s"
  then have i: "send_inv send jid s" by (rule kommo_sends.reach_inv)
  then show ?thesis using spent_split[of jid "sn_rows s"] unfolding send_inv_def reported_failed_def by linarith
qed

definition sample_talk :: talk_message where
  "sample_talk = \<lparr>tk_job = ''j1'', tk_print = ''p1'', tk_talk = ''77'', tk_text = Some ''hola'', tk_file = None\<rparr>"

definition sample_service :: "talk_message list \<Rightarrow> talk_message \<Rightarrow> send_answer" where
  "sample_service out m = Sent_Response (JObj [(''id'', JVal (PStr ''mid-1''))] [])"

definition sample_sends :: send_run where
  "sample_sends = \<lparr>sn_world = \<lparr>kw_db = \<lparr>kj_jobs = [(blank_job 0 ''j1'' ''c'')\<lparr>jb_status := JProcessing, jb_lease := Some ''l'',
      jb_channel := Some ''instagram''\<rparr>], kj_receipts = [], kj_outbound = [], kj_history = []\<rparr>, kw_out = [],
      kw_launched = [], kw_replies = [], kw_continued = []\<rparr>, sn_claims = []\<rparr>"

definition sample_claim :: "(delivery_error + delivery_claim) \<times> kommo_db" where
  "sample_claim = claim_outbound (\<lambda>_. 0) 0 ''j1'' ''text'' ''p1'' [] (Some ''l'') True (kw_db (sn_world sample_sends))"

definition sample_sent :: "(delivery_error + string) \<times> kommo_world" where
  "sample_sent = send_claimed_delivery 0 sample_service sample_talk ((sn_world sample_sends)\<lparr>kw_db := snd sample_claim\<rparr>)"

lemma sample_claim_facts:
  "fst sample_claim = Inr \<lparr>dm_status = OSending, dm_provider = None, dm_send = True\<rparr>"
  "kw_out (snd sample_sent) = [sample_talk]" "map ob_status (kj_outbound (kw_db (snd sample_sent))) = [OAccepted]"
  "length (gone_out sample_service ''j1'' [] [sample_talk]) = 1"
  by code_simp+

theorem direct_messages_accounted_witness:
  "\<exists>s. reach (send_start ''j1'') (send_step (\<lambda>_. 0) sample_service ''j1'') s \<and> length (may_have_arrived sample_service ''j1'' s) = 1
     \<and> length (filter (live_row ''j1'') (sn_rows s)) \<le> 1"
proof -
  let ?s1 = "(sn_db (snd sample_claim) sample_sends)\<lparr>sn_claims := sample_talk # sn_claims sample_sends\<rparr>"
  let ?s2 = "?s1\<lparr>sn_world := snd sample_sent, sn_claims := remove1 sample_talk (sn_claims ?s1)\<rparr>"
  have "reach (send_start ''j1'') (send_step (\<lambda>_. 0) sample_service ''j1'') sample_sends"
    by (rule reach_init) (simp add: send_start_def sample_sends_def)
  moreover have "send_step (\<lambda>_. 0) sample_service ''j1'' sample_sends ?s1"
  proof (rule send_step.claim)
    show "claim_outbound (\<lambda>_. 0) 0 ''j1'' ''text'' (tk_print sample_talk) [] (Some ''l'') True (kw_db (sn_world sample_sends))
        = (Inr \<lparr>dm_status = OSending, dm_provider = None, dm_send = True\<rparr>, snd sample_claim)"
      using sample_claim_facts(1) by (simp add: sample_claim_def sample_talk_def prod_eq_iff)
  qed (simp_all add: sample_talk_def)
  moreover have "send_step (\<lambda>_. 0) sample_service ''j1'' ?s1 ?s2"
    using send_step.deliver[of sample_talk ?s1 "\<lambda>_. 0" sample_service "''j1''" 0] by (simp add: sample_sent_def sn_db_def)
  ultimately have r: "reach (send_start ''j1'') (send_step (\<lambda>_. 0) sample_service ''j1'') ?s2" by (meson reach_step)
  moreover have "length (may_have_arrived sample_service ''j1'' ?s2) = 1" using sample_claim_facts(2,4) by (simp add: may_have_arrived_def)
  ultimately show ?thesis using direct_messages_accounted[OF r] by blast
qed

end
