(* ===== verification/Kommo_Refinement.thy ===== *)
theory Kommo_Refinement
  imports Kommo_Runs
begin

text \<open>
  The workers of Kommo_Workers are runs of the protocol: from the claim of a job on, whatever the service,
  the assistant and the look-ups answer, each of their changes is a step, and the worker is gone at the end.
  The rules go by the structure of the functions, from the statements up to a claimed job.
\<close>

section \<open>Runs of one worker\<close>

definition run_of :: "kommo_world \<Rightarrow> (phase \<times> kommo_job) list \<Rightarrow> kommo_run" where
  "run_of w ys = \<lparr>kn_world = w, kn_workers = ys\<rparr>"

definition runs :: "kommo_world \<Rightarrow> (phase \<times> kommo_job) list \<Rightarrow> kommo_world \<Rightarrow> (phase \<times> kommo_job) list \<Rightarrow> bool" where
  "runs w ys w' ys' = kstep\<^sup>*\<^sup>* (run_of w ys) (run_of w' ys')"

text \<open>The row a worker claimed and the copy it goes on with.\<close>

definition alike :: "kommo_job \<Rightarrow> kommo_job \<Rightarrow> bool" where
  "alike j j' = (jb_id j' = jb_id j \<and> jb_lease j' = jb_lease j \<and> is_direct_instagram_dm j' = is_direct_instagram_dm j)"

lemma alike_refl [simp]: "alike j j"
  by (simp add: alike_def)

lemma alike_message [simp]: "alike j (j\<lparr>jb_message := m, jb_media := u\<rparr>)"
  by (simp add: alike_def is_direct_instagram_dm_def)

lemma runs_refl [simp, intro]: "runs w ys w ys"
  by (simp add: runs_def)

lemma runs_trans [trans]: "runs w ys w1 ys1 \<Longrightarrow> runs w1 ys1 w2 ys2 \<Longrightarrow> runs w ys w2 ys2"
  by (simp add: runs_def)

lemma at_sel [simp]: "kn_world (run_of w ys) = w" "kn_workers (run_of w ys) = ys"
  by (simp_all add: run_of_def)

lemma at_upd: "with_db db (run_of w ys) = run_of (w\<lparr>kw_db := db\<rparr>) ys" "moves x zs (run_of w (x # ys)) = run_of w (zs @ ys)"
  "joins x (run_of w ys) = run_of w (x # ys)" "(run_of w ys)\<lparr>kn_world := w'\<rparr> = run_of w' ys"
  by (simp_all add: run_of_def with_db_def moves_def joins_def)

lemma runs_step: "kstep (run_of w ys) (run_of w' ys') \<Longrightarrow> runs w ys w' ys'"
  by (simp add: runs_def r_into_rtranclp)

lemma set_jobs_none: "\<not> list_ex p (kj_jobs db) \<Longrightarrow> set_jobs p f db = db"
proof -
  assume "\<not> list_ex p (kj_jobs db)"
  then have "upd_where p f (kj_jobs db) = kj_jobs db" by (auto simp: upd_where_def list_ex_iff intro!: map_idI)
  then show "set_jobs p f db = db" by (simp add: set_jobs_def)
qed

section \<open>Statements\<close>

lemma run_mark:
  assumes "alike j j'" "st \<in> {JFailed, JDiscarded, JUnknown}"
  shows "runs w ((ph, j) # zs) (worker_mark env j' st err w) zs"
proof -
  have "kstep (run_of w ((ph, j) # zs)) (moves (ph, j) [] (with_db (mark_job (we_now env) (jb_id j) st err (jb_lease j) (kw_db w)) (run_of w ((ph, j) # zs))))"
    using k_mark[of ph j "run_of w ((ph, j) # zs)" st "we_now env" err] assms(2) by simp
  then show ?thesis using assms(1) by (intro runs_step) (simp add: at_upd worker_mark_def on_db_def alike_def)
qed

lemma run_drop: "runs w (x # zs) w zs"
  using k_crash[of x "run_of w (x # zs)"] by (intro runs_step) (simp add: at_upd)

lemma run_history: "runs w ys (on_db (\<lambda>d. d\<lparr>kj_history := h\<rparr>) w) ys"
  using k_history[of "run_of w ys" h] by (intro runs_step) (simp add: at_upd on_db_def)

lemma run_superseded: "runs w ys (snd (superseded env job w)) ys"
  using k_superseded[of "run_of w ys" "we_now env" "de_sha (we_delivery env)" "we_window env" "we_events env" job]
  by (intro runs_step) (simp add: at_upd superseded_def case_prod_beta)

lemma run_persist: "runs w ys (snd (store_assistant env job c calls body atts expected w)) ys"
  using k_persist[of "run_of w ys" "we_now env" "c_id c" "message_channel job c" job body calls atts expected]
  by (intro runs_step) (auto simp: at_upd store_assistant_def split: prod.split sum.split)

lemma run_user: "runs w ys (snd (store_user_message_if_suppressed env c j w)) ys"
  using run_history[of w ys] by (simp add: store_user_message_if_suppressed_def split: prod.split sum.split)

lemma run_claim_delivery:
  "runs w ((ph, j) # zs) (w\<lparr>kw_db := snd (claim_outbound month now jid media print meta (jb_lease j) fence (kw_db w))\<rparr>) ((ph, j) # zs)"
  using k_claim_delivery[of ph j "run_of w ((ph, j) # zs)" month now jid media print meta fence] by (intro runs_step) (simp add: at_upd)

lemma run_send: "runs w ys (snd (send_claimed_delivery now send m w)) ys"
  using k_send[of "run_of w ys" now send m] by (intro runs_step) (simp add: at_upd)

lemma run_await:
  assumes a: "alike j j'" "is_direct_instagram_dm j" "ph \<in> {K_Answering, K_Answered, K_Falling}" "pa_fallback payload = (ph = K_Falling)"
    and r: "await_delivery env j' r payload reason w = (b, w')"
  shows "if b then runs w ((ph, j) # zs) w' zs else w' = w"
proof -
  obtain db where m: "mark_direct_job_waiting_for_delivery (we_now env) (jb_id j) (jb_lease j) (dr_ids r) payload reason (kw_db w) = (b, db)"
    "w' = w\<lparr>kw_db := db\<rparr>" using r a(1) by (auto simp: await_delivery_def alike_def split: prod.splits)
  show ?thesis
  proof (cases b)
    case True
    then show ?thesis
      using k_await[of ph j "run_of w ((ph, j) # zs)" payload "we_now env" "dr_ids r" reason db] a m by (simp add: at_upd runs_step)
  next
    case False
    then have "db = kw_db w" using m(1) by (auto simp: mark_direct_job_waiting_for_delivery_def Let_def set_jobs_none)
    then show ?thesis using False m(2) by simp
  qed
qed

lemma run_begin:
  assumes a: "alike j j'" "ph \<in> {K_Answering, K_Answered}" and r: "begin_continuing env j' data w = (b, w')"
  shows "if b then runs w ((ph, j) # zs) w' ((K_Continuing, j) # zs) else w' = w"
proof -
  obtain db where m: "mark_job_continuing (we_now env) (jb_id j) (jb_lease j) data (kw_db w) = (b, db)" "w' = w\<lparr>kw_db := db\<rparr>"
    using r a(1) by (auto simp: begin_continuing_def alike_def split: prod.splits)
  show ?thesis
  proof (cases b)
    case True
    then show ?thesis using k_begin[of ph j "run_of w ((ph, j) # zs)" "we_now env" data db] a m by (simp add: at_upd runs_step)
  next
    case False
    then have "db = kw_db w" using m(1) by (auto simp: mark_job_continuing_def upd_held_def set_jobs_none)
    then show ?thesis using False m(2) by simp
  qed
qed

lemma run_continue:
  assumes "alike j j'" "continue_salesbot env j' data w = (r, w')"
  shows "runs w ((K_Continuing, j) # zs) w' ((K_Concluding, j) # zs)"
  using k_continue[of j "run_of w ((K_Continuing, j) # zs)" data] assms
  by (intro runs_step) (auto simp: at_upd continue_salesbot_def alike_def)

section \<open>Deliveries\<close>

lemma run_deliver_claimed:
  "runs w ((ph, j) # zs) (snd (deliver_claimed month now send media meta (jb_lease j) fence m w)) ((ph, j) # zs)"
proof -
  obtain r db where c: "claim_outbound month now (tk_job m) media (tk_print m) meta (jb_lease j) fence (kw_db w) = (r, db)" by fastforce
  have "runs w ((ph, j) # zs) (w\<lparr>kw_db := db\<rparr>) ((ph, j) # zs)"
    using run_claim_delivery[of w ph j zs month now "tk_job m" media "tk_print m" meta fence] c by simp
  then show ?thesis using c runs_trans[OF _ run_send] by (auto simp: deliver_claimed_def Let_def split: sum.split)
qed

lemma run_direct_text:
  assumes "alike j j'" shows "runs w ((ph, j) # zs) (snd (deliver_direct_text env j' body purpose w)) ((ph, j) # zs)"
  using assms run_deliver_claimed[of w ph j zs]
  by (auto simp: deliver_direct_text_def Let_def alike_def split: sum.split prod.split) (metis snd_conv)+

lemma run_one_media:
  assumes "alike j j'" shows "runs w ((ph, j) # zs) (snd (deliver_one_media env src j' talk body position q w)) ((ph, j) # zs)"
  using assms run_deliver_claimed[of w ph j zs] by (auto simp: deliver_one_media_def Let_def alike_def split: sum.split prod.split)

lemma run_media:
  assumes "alike j j'"
  shows "runs w ((ph, j) # zs) (snd (deliver_media env src j' talk body position qs atts ids w)) ((ph, j) # zs)"
  using assms
proof (induction qs arbitrary: position atts ids w)
  case (Cons q qs)
  obtain r w1 where one: "deliver_one_media env src j' talk body position q w = (r, w1)" by fastforce
  then have step: "runs w ((ph, j) # zs) w1 ((ph, j) # zs)" using run_one_media[OF Cons.prems, of w ph zs env src talk body position q] by simp
  show ?case
  proof (cases r)
    case (Inl e)
    then show ?thesis using one step by simp
  next
    case (Inr i)
    then show ?thesis using one runs_trans[OF step Cons.IH[OF Cons.prems]] by simp
  qed
qed simp

lemma run_response:
  assumes "alike j j'"
  shows "runs w ((ph, j) # zs) (snd (deliver_response env cfg src j' purpose result body w)) ((ph, j) # zs)"
  using run_direct_text[OF assms] run_media[OF assms] by (simp add: deliver_response_def Let_def split: sum.split)

section \<open>Giving up\<close>

lemma failure_statuses:
  "direct_failure_status e \<in> {JFailed, JDiscarded, JUnknown}" "continuation_status e b \<in> {JFailed, JDiscarded, JUnknown}"
  "status_after_continuation_error a b \<in> {JFailed, JDiscarded, JUnknown}" "refused_status d \<in> {JFailed, JDiscarded, JUnknown}"
proof -
  show "status_after_continuation_error a b \<in> {JFailed, JDiscarded, JUnknown}" for a b
    by (simp add: status_after_continuation_error_def split: api_error.split option.split)
  then show "continuation_status e b \<in> {JFailed, JDiscarded, JUnknown}"
    by (auto simp: continuation_status_def split: delivery_error.split)
  show "direct_failure_status e \<in> {JFailed, JDiscarded, JUnknown}" by (simp add: direct_failure_status_def split: delivery_error.split)
  show "refused_status d \<in> {JFailed, JDiscarded, JUnknown}" by (simp add: refused_status_def)
qed

text \<open>A worker that has not begun to continue the Salesbot.\<close>

lemma run_discard_direct:
  assumes a: "alike j j'" "is_direct_instagram_dm j" "ph \<in> {K_Answering, K_Answered}"
  shows "runs w ((ph, j) # zs) (discard_direct env j' reason msg cust w) zs"
proof (cases msg)
  case None
  then show ?thesis using run_mark[OF a(1)] by (simp add: discard_direct_def)
next
  case (Some m)
  obtain r w1 where d: "deliver_response (we_delivery env) (we_media env) (we_source env) j' ''fallback'' [] m w = (r, w1)" by fastforce
  have one: "runs w ((ph, j) # zs) w1 ((ph, j) # zs)"
    using run_response[OF a(1), of w ph zs "we_delivery env" "we_media env" "we_source env" "''fallback''" "[]" m] d by simp
  show ?thesis
  proof (cases r)
    case (Inl e)
    then show ?thesis using Some d runs_trans[OF one run_mark[OF a(1) failure_statuses(1)]] by (simp add: discard_direct_def)
  next
    case (Inr res)
    obtain b w2 where w2: "await_delivery env j' res (pending_assistant_payload (map_option c_id cust) (dr_text res) None None [] ''discarded'') reason w1 = (b, w2)"
      by fastforce
    have "if b then runs w1 ((ph, j) # zs) w2 zs else w2 = w1"
      by (rule run_await[OF a(1,2) _ _ w2]) (use a(3) in \<open>auto simp: pending_assistant_payload_def\<close>)
    then show ?thesis using Some d Inr w2 runs_trans[OF one] runs_trans[OF one run_mark[OF a(1)]]
      by (auto simp: discard_direct_def split: if_splits)
  qed
qed

lemma run_discard_continuing:
  assumes a: "alike j j'" "ph \<in> {K_Answering, K_Answered}"
  shows "runs w ((ph, j) # zs) (discard_continuing env j' reason data w) zs"
proof -
  obtain b w1 where b: "begin_continuing env j' data w = (b, w1)" by fastforce
  note r1 = run_begin[OF a b, of zs]
  show ?thesis
  proof (cases b)
    case False
    then show ?thesis using b r1 run_drop by (simp add: discard_continuing_def)
  next
    case True
    obtain r w2 where c: "continue_salesbot env j' data w1 = (r, w2)" by fastforce
    have go: "runs w ((ph, j) # zs) w2 ((K_Concluding, j) # zs)" using r1 True runs_trans[OF _ run_continue[OF a(1) c]] by simp
    show ?thesis
    proof (cases r)
      case (Inl e)
      then show ?thesis using b True c runs_trans[OF go run_mark[OF a(1) failure_statuses(2)]] by (simp add: discard_continuing_def)
    next
      case (Inr resp)
      have "runs w2 ((K_Concluding, j) # zs) (on_db (\<lambda>d. snd (mark_job_discarded (we_now env) (jb_id j') (jb_lease j') reason resp d)) w2) zs"
        using k_discarded[of j "run_of w2 ((K_Concluding, j) # zs)" "we_now env" reason resp] a(1)
        by (intro runs_step) (simp add: at_upd on_db_def alike_def)
      then show ?thesis using b True c Inr runs_trans[OF go] by (simp add: discard_continuing_def)
    qed
  qed
qed

lemma run_discard:
  assumes "alike j j'" "ph \<in> {K_Answering, K_Answered}"
  shows "runs w ((ph, j) # zs) (continue_and_discard_job env j' reason fallback msg cust w) zs"
proof (cases "is_direct_instagram_dm j'")
  case True
  then have "is_direct_instagram_dm j" using assms(1) by (simp add: alike_def)
  then show ?thesis using True run_discard_direct[OF assms(1) _ assms(2)] by (simp add: continue_and_discard_job_def Let_def)
next
  case False
  then show ?thesis using run_discard_continuing[OF assms] by (simp add: continue_and_discard_job_def Let_def)
qed

lemma run_fail_ready:
  assumes a: "alike j j'" "ph \<in> {K_Answering, K_Answered}"
  shows "runs w ((ph, j) # zs) (fail_ready_job env j' err cust w) zs"
proof (cases "is_direct_instagram_dm j' \<or> opt_str (jb_url j') = []")
  case True
  then show ?thesis using run_mark[OF a(1)] run_discard[OF a] by (auto simp: fail_ready_job_def)
next
  case False
  define data where "data = continuation_json ''fail'' (we_prepare env delivery_failure_message (job_channel j') (job_interaction_type j'))"
  obtain b w1 where b: "begin_continuing env j' data w = (b, w1)" by fastforce
  note r1 = run_begin[OF a b, of zs]
  show ?thesis
  proof (cases b)
    case no: False
    then show ?thesis using False b r1 run_mark[OF a(1)] unfolding data_def by (simp add: fail_ready_job_def Let_def)
  next
    case True
    obtain r w2 where c: "continue_salesbot env j' data w1 = (r, w2)" by fastforce
    have go: "runs w ((ph, j) # zs) w2 ((K_Concluding, j) # zs)" using r1 True runs_trans[OF _ run_continue[OF a(1) c]] by simp
    show ?thesis using False b True c runs_trans[OF go run_mark[OF a(1)]] unfolding data_def
      by (simp add: fail_ready_job_def Let_def split: sum.split)
  qed
qed

lemma run_fallback_if_safe:
  assumes "alike j j'" "ph \<in> {K_Answering, K_Answered}"
  shows "send_direct_failure_fallback_if_safe env j' cust err w = (b, w') \<Longrightarrow> if b then runs w ((ph, j) # zs) w' zs else w' = w"
  using run_discard[OF assms] by (auto simp: send_direct_failure_fallback_if_safe_def split: if_splits)

lemma fallback_not_direct:
  "\<not> is_direct_instagram_dm j \<Longrightarrow> send_direct_failure_fallback_if_safe env j cust err w = (False, w)"
  by (simp add: send_direct_failure_fallback_if_safe_def)

lemma run_text_fallback:
  assumes "alike j j'"
  shows "runs w ((K_Falling, j) # zs) (process_provider_error_text_fallback env j' b w) zs"
proof (cases "is_direct_instagram_dm j' \<and> py_strip (pa_content b) \<noteq> []")
  case False
  then show ?thesis using run_mark[OF assms] by (auto simp: process_provider_error_text_fallback_def Let_def)
next
  case True
  then have dm: "is_direct_instagram_dm j" using assms by (simp add: alike_def)
  define body where "body = py_strip (pa_content b)"
  obtain r w1 where d: "deliver_response (we_delivery env) (we_media env) (we_source env) j' ''provider_error_fallback'' [] body w = (r, w1)"
    by fastforce
  have one: "runs w ((K_Falling, j) # zs) w1 ((K_Falling, j) # zs)"
    using run_response[OF assms, of w K_Falling zs "we_delivery env" "we_media env" "we_source env" "''provider_error_fallback''" "[]" body] d by simp
  show ?thesis
  proof (cases r)
    case (Inl e)
    then show ?thesis using True d runs_trans[OF one run_mark[OF assms]]
      unfolding body_def by (simp add: process_provider_error_text_fallback_def Let_def)
  next
    case (Inr res)
    obtain c w2 where w2: "await_delivery env j' res (b\<lparr>pa_content := dr_text res, pa_attachments := [], pa_final := ''sent'', pa_fallback := True\<rparr>)
        (jb_error j') w1 = (c, w2)" by fastforce
    have "if c then runs w1 ((K_Falling, j) # zs) w2 zs else w2 = w1" by (rule run_await[OF assms dm _ _ w2]) simp_all
    then show ?thesis using True d Inr w2 runs_trans[OF one] runs_trans[OF one run_mark[OF assms]]
      unfolding body_def by (auto simp: process_provider_error_text_fallback_def Let_def split: if_splits)
  qed
qed

section \<open>Answering\<close>

text \<open>Where an attempt leaves its worker: gone, or where its failure is handled.\<close>

definition covers :: "phase \<Rightarrow> kommo_job \<Rightarrow> (phase \<times> kommo_job) list \<Rightarrow> kommo_world \<Rightarrow> attempt \<Rightarrow> bool" where
  "covers ph j zs w res =
     (case fst res of
        Inr _ \<Rightarrow> runs w ((ph, j) # zs) (snd res) zs
      | Inl f \<Rightarrow> \<exists>ph' \<in> {K_Answering, K_Answered, K_Concluding}. runs w ((ph, j) # zs) (snd res) ((ph', j) # zs)
          \<and> (ph' = K_Concluding \<longrightarrow> fl_continued f \<and> \<not> is_direct_instagram_dm j)
          \<and> ((\<exists>e. fl_error f = WE_Audio e) \<longrightarrow> ph' = K_Answering))"

lemma covers_done: "runs w ((ph, j) # zs) w' zs \<Longrightarrow> covers ph j zs w (Inr (), w')"
  by (simp add: covers_def)

lemma covers_fails:
  "runs w ((ph, j) # zs) w' ((ph', j) # zs) \<Longrightarrow> ph' \<in> {K_Answering, K_Answered} \<Longrightarrow> fl_error f = WE_Delivery e
   \<Longrightarrow> covers ph j zs w (Inl f, w')"
  by (auto simp: covers_def)

lemma covers_trans: "runs w ((ph, j) # zs) w1 ((ph1, j) # zs) \<Longrightarrow> covers ph1 j zs w1 res \<Longrightarrow> covers ph j zs w res"
  unfolding covers_def by (cases "fst res") (auto intro: runs_trans)

lemma covers_continue:
  assumes a: "alike j j'" "\<not> is_direct_instagram_dm j" "ph \<in> {K_Answering, K_Answered}"
  shows "covers ph j zs w (continue_with_answer env j' c calls sent body data w)"
proof -
  obtain b w1 where b: "begin_continuing env j' data w = (b, w1)" by fastforce
  note r1 = run_begin[OF a(1,3) b, of zs]
  show ?thesis
  proof (cases b)
    case False
    then show ?thesis using b r1 run_drop covers_done by (simp add: continue_with_answer_def)
  next
    case True
    obtain r w2 where cs: "continue_salesbot env j' data w1 = (r, w2)" by fastforce
    have go: "runs w ((ph, j) # zs) w2 ((K_Concluding, j) # zs)" using r1 True runs_trans[OF _ run_continue[OF a(1) cs]] by simp
    have stuck: "covers ph j zs w (Inl f, w')" if f: "fl_continued f" "fl_error f = WE_Delivery e" "runs w2 ((K_Concluding, j) # zs) w' ((K_Concluding, j) # zs)" for f e w'
      using runs_trans[OF go f(3)] f(1,2) a(2) by (auto simp: covers_def)
    show ?thesis
    proof (cases r)
      case (Inl e)
      then show ?thesis using b True cs stuck by (simp add: continue_with_answer_def)
    next
      case (Inr resp)
      obtain q w3 where q: "(if sent then (Inr (), w2) else store_assistant env j' c calls body [] (Some JContinuing) w2) = (q, w3)" by fastforce
      have keep: "runs w2 ((K_Concluding, j) # zs) w3 ((K_Concluding, j) # zs)"
        using run_persist[of w2 "(K_Concluding, j) # zs" env j' c calls body "[]" "Some JContinuing"] q by (auto split: if_splits)
      have "runs w3 ((K_Concluding, j) # zs) (on_db (\<lambda>d. snd (mark_job_sent (we_now env) (jb_id j') (jb_lease j') resp d)) w3) zs"
        using k_sent[of j "run_of w3 ((K_Concluding, j) # zs)" "we_now env" resp] a(1)
        by (intro runs_step) (simp add: at_upd on_db_def alike_def)
      from runs_trans[OF go runs_trans[OF keep this]] have fin: "covers ph j zs w (Inr (), on_db (\<lambda>d. snd (mark_job_sent (we_now env) (jb_id j') (jb_lease j') resp d)) w3)"
        by (rule covers_done)
      have "continue_with_answer env j' c calls sent body data w = (case q of
          Inl e \<Rightarrow> (Inl \<lparr>fl_error = WE_Delivery e, fl_customer = Some c, fl_calls = calls, fl_continued = True, fl_sent = sent\<rparr>, w3)
        | Inr _ \<Rightarrow> (Inr (), on_db (\<lambda>d. snd (mark_job_sent (we_now env) (jb_id j') (jb_lease j') resp d)) w3))"
        using b True cs Inr q by (simp add: continue_with_answer_def Let_def split: sum.split)
      then show ?thesis using fin stuck[OF _ _ keep] by (simp split: sum.split)
    qed
  qed
qed

lemma covers_deliver:
  assumes a: "alike j j'"
  shows "covers K_Answered j zs w (deliver_answer env j' c result body w)"
proof -
  obtain r w1 where d: "deliver_response (we_delivery env) (we_media env) (we_source env) j' ''response'' result body w = (r, w1)" by fastforce
  have one: "runs w ((K_Answered, j) # zs) w1 ((K_Answered, j) # zs)"
    using run_response[OF a, of w K_Answered zs "we_delivery env" "we_media env" "we_source env" "''response''" result body] d by simp
  show ?thesis
  proof (cases r)
    case (Inl e)
    then show ?thesis using d covers_fails[OF one] by (simp add: deliver_answer_def)
  next
    case (Inr res)
    show ?thesis
    proof (cases "is_direct_instagram_dm j'")
      case True
      then have dm: "is_direct_instagram_dm j" using a by (simp add: alike_def)
      define pay where "pay = pending_assistant_payload (Some (c_id c)) (dr_text res)
          (case jget result ''text'' of JVal (PStr t) \<Rightarrow> Some t | _ \<Rightarrow> None) (result_calls result) (dr_attachments res) ''sent''"
      obtain b w2 where w2: "await_delivery env j' res pay None w1 = (b, w2)" by fastforce
      have "if b then runs w1 ((K_Answered, j) # zs) w2 zs else w2 = w1"
        by (rule run_await[OF a dm _ _ w2]) (simp_all add: pay_def pending_assistant_payload_def)
      then show ?thesis using d Inr True w2 covers_done[OF runs_trans[OF one]] covers_fails[OF one] unfolding pay_def
        by (simp add: deliver_answer_def Let_def split: if_splits)
    next
      case False
      then have nd: "\<not> is_direct_instagram_dm j" using a by (simp add: alike_def)
      show ?thesis
      proof (cases "dr_transport res = ''salesbot''")
        case True
        obtain raw why where m: "we_map env result [] = (raw, why)" by fastforce
        show ?thesis using d Inr False True m covers_done[OF runs_trans[OF one run_discard[OF a]]] covers_trans[OF one covers_continue[OF a nd]]
          by (simp add: deliver_answer_def Let_def)
      next
        case chats: False
        obtain q w2 where q: "store_assistant env j' c (result_calls result) (dr_text res) (dr_attachments res) None w1 = (q, w2)" by fastforce
        have two: "runs w ((K_Answered, j) # zs) w2 ((K_Answered, j) # zs)"
          using runs_trans[OF one run_persist[of w1 _ env j' c "result_calls result" "dr_text res" "dr_attachments res" None]] q by simp
        show ?thesis using d Inr False chats q covers_fails[OF two] covers_trans[OF two covers_continue[OF a nd]]
          by (simp add: deliver_answer_def Let_def split: sum.split)
      qed
    qed
  qed
qed

lemma covers_answer:
  assumes a: "alike j j'"
  shows "covers K_Answered j zs w (answer_text env j' c result w)"
proof -
  obtain raw why where m: "we_map env result (get_enabled_media_types (we_media env) j' result) = (raw, why)" by fastforce
  show ?thesis using m covers_done[OF run_discard[OF a]] covers_deliver[OF a] by (simp add: answer_text_def Let_def)
qed

lemma covers_reply:
  assumes a: "alike j j'"
  shows "covers K_Answering j zs w (reply_to_customer env j' c msg media w)"
proof -
  let ?w = "w\<lparr>kw_replies := kw_replies w @ [jb_id j']\<rparr>"
  have one: "runs w ((K_Answering, j) # zs) ?w ((K_Answered, j) # zs)"
    using k_reply[of j "run_of w ((K_Answering, j) # zs)"] a by (intro runs_step) (simp add: at_upd alike_def)
  show ?thesis
    using covers_fails[OF one] covers_trans[OF one covers_answer[OF a]] covers_done[OF runs_trans[OF one run_discard[OF a]]]
    by (simp add: reply_to_customer_def Let_def early_def split: sum.split)
qed

lemma covers_suppress:
  assumes a: "alike j j'"
  shows "covers K_Answering j zs w (suppress_ready env j' c reason w)"
proof -
  obtain r w1 where r: "store_user_message_if_suppressed env c j' w = (r, w1)" by fastforce
  have one: "runs w ((K_Answering, j) # zs) w1 ((K_Answering, j) # zs)" using run_user[of w "(K_Answering, j) # zs" env c j'] r by simp
  show ?thesis using r covers_fails[OF one] covers_done[OF runs_trans[OF one run_discard[OF a]]]
    by (simp add: suppress_ready_def early_def split: sum.split)
qed

lemma covers_attempt: "covers K_Answering j zs w (attempt_answer env j w)"
proof -
  have err: "covers K_Answering j zs w (Inl (early e c), w)" for e c by (auto simp: covers_def early_def)
  show ?thesis
    using err covers_done[OF run_discard[OF alike_refl]] covers_suppress[OF alike_message] covers_reply[OF alike_message]
    by (simp add: attempt_answer_def Let_def split: sum.split)
qed

section \<open>Failures\<close>

lemma run_give_up:
  assumes ph: "ph \<in> {K_Answering, K_Answered, K_Concluding}" "ph = K_Concluding \<longrightarrow> fl_continued f"
    and st: "st \<in> {JFailed, JDiscarded, JUnknown}"
  shows "runs w ((ph, j) # zs) (give_up env j f e st w) zs"
proof (cases "\<not> fl_continued f \<and> \<not> fl_sent f")
  case True
  then have p: "ph \<in> {K_Answering, K_Answered}" using ph by auto
  obtain b w1 where b: "send_direct_failure_fallback_if_safe env j (fl_customer f) (opt_str (error_note e)) w = (b, w1)" by fastforce
  show ?thesis using True b run_fallback_if_safe[OF alike_refl p b] run_mark[OF alike_refl st] run_discard[OF alike_refl p]
    by (cases b) (auto simp: give_up_def Let_def)
next
  case False
  then show ?thesis using run_mark[OF alike_refl st] by (auto simp: give_up_def Let_def)
qed

lemma run_failure:
  assumes ph: "ph \<in> {K_Answering, K_Answered, K_Concluding}" "ph = K_Concluding \<longrightarrow> fl_continued f \<and> \<not> is_direct_instagram_dm j"
    and audio: "(\<exists>e. fl_error f = WE_Audio e) \<longrightarrow> ph = K_Answering"
  shows "runs w ((ph, j) # zs) (handle_failure env j f w) zs"
proof (cases "fl_error f")
  case (WE_Audio a)
  obtain m retry where a: "a = Audio_Error m retry" by (cases a)
  have p: "ph = K_Answering" using audio WE_Audio by simp
  have "runs w ((K_Answering, j) # zs) (on_db (retry_ready_job (we_now env) (jb_id j) (jb_lease j) err) w) zs"
    if "jb_attempts j < max_job_attempts" for err
    using k_retry[of j "run_of w ((K_Answering, j) # zs)" "we_now env" err] that by (intro runs_step) (simp add: at_upd on_db_def)
  then show ?thesis using WE_Audio a p run_fail_ready[OF alike_refl, of K_Answering] by (simp add: handle_failure_def Let_def)
next
  case (WE_Delivery e)
  show ?thesis
  proof (cases e)
    case (Delivery_State m)
    obtain b w1 where b: "send_direct_failure_fallback_if_safe env j (fl_customer f) (opt_str (error_note e)) w = (b, w1)" by fastforce
    have "if b then runs w ((ph, j) # zs) w1 zs else w1 = w"
    proof (cases "ph = K_Concluding")
      case True
      then show ?thesis using ph(2) fallback_not_direct b by (simp split: if_splits)
    next
      case False
      then show ?thesis using run_fallback_if_safe[OF alike_refl _ b] ph(1) by auto
    qed
    then show ?thesis using WE_Delivery Delivery_State b run_mark[OF alike_refl] by (auto simp: handle_failure_def split: if_splits)
  next
    case (Delivery_Aborted m)
    then show ?thesis using WE_Delivery run_mark[OF alike_refl] by (simp add: handle_failure_def)
  next
    case (Delivery_Unsure m)
    then show ?thesis using WE_Delivery run_mark[OF alike_refl] by (simp add: handle_failure_def)
  next
    case (Delivery_Partial t atts ids)
    have "runs w ((ph, j) # zs) (store_partial env j f t atts w) ((ph, j) # zs)"
      using run_persist by (simp add: store_partial_def split: option.split)
    from runs_trans[OF this run_mark[OF alike_refl]] show ?thesis using WE_Delivery Delivery_Partial by (simp add: handle_failure_def)
  next
    case (Delivery_API b)
    then show ?thesis using WE_Delivery run_give_up[OF ph(1)] ph(2) failure_statuses(3) by (auto simp: handle_failure_def)
  next
    case (Delivery_Other m)
    then show ?thesis using WE_Delivery run_give_up[OF ph(1)] ph(2) by (auto simp: handle_failure_def)
  qed
qed

lemma run_ready:
  "runs w ((if is_fallback_job j then K_Falling else K_Answering, j) # zs) (process_ready_job env j w) zs"
proof (cases "is_fallback_job j")
  case True
  then show ?thesis using run_text_fallback[OF alike_refl] run_drop
    by (auto simp: process_ready_job_def is_fallback_job_def split: option.splits)
next
  case False
  obtain r w1 where r: "attempt_answer env j w = (r, w1)" by fastforce
  then have c: "covers K_Answering j zs w (r, w1)" using covers_attempt[of j zs w env] by simp
  show ?thesis
  proof (cases r)
    case (Inr u)
    then show ?thesis using False r c by (simp add: process_ready_job_def covers_def)
  next
    case (Inl f)
    then obtain ph where ph: "ph \<in> {K_Answering, K_Answered, K_Concluding}" "runs w ((K_Answering, j) # zs) w1 ((ph, j) # zs)"
      "ph = K_Concluding \<longrightarrow> fl_continued f \<and> \<not> is_direct_instagram_dm j" "(\<exists>e. fl_error f = WE_Audio e) \<longrightarrow> ph = K_Answering"
      using c unfolding covers_def by auto
    have "runs w ((K_Answering, j) # zs) (handle_failure env j f w1) zs" by (rule runs_trans[OF ph(2) run_failure[OF ph(1,3,4)]])
    then show ?thesis using False r Inl by (simp add: process_ready_job_def)
  qed
qed


section \<open>Preparing and launching\<close>

lemma run_suppress:
  "runs w ((ph, j) # zs) (suppress_job env j c d w) zs"
proof -
  obtain r w1 where r: "store_user_message_if_suppressed env c j w = (r, w1)" by fastforce
  have one: "runs w ((ph, j) # zs) w1 ((ph, j) # zs)" using run_user[of w "(ph, j) # zs" env c j] r by simp
  show ?thesis using r runs_trans[OF one run_mark[OF alike_refl]] failure_statuses(4)[of d]
    by (simp add: suppress_job_def split: sum.split)
qed

lemma run_prepare:
  assumes "is_direct_instagram_dm j" "is_valid_kommo_id (jb_talk j) = Inr True"
  shows "runs w ((K_Preparing, j) # zs) (prepare_after_decision env j c d w) zs"
proof -
  obtain b w1 where b: "superseded env j w = (b, w1)" by fastforce
  have one: "runs w ((K_Preparing, j) # zs) w1 ((K_Preparing, j) # zs)" using run_superseded[of w "(K_Preparing, j) # zs" env j] b by simp
  have gone: "runs w ((K_Preparing, j) # zs) w1 zs" by (rule runs_trans[OF one run_drop])
  have two: "runs w ((K_Preparing, j) # zs) (w1\<lparr>kw_db := snd (mark_direct_instagram_job_prepared now (jb_id j) (jb_lease j) waits secs defers reason (kw_db w1))\<rparr>) zs"
    for now waits secs defers reason
    using k_prepared[of j "run_of w1 ((K_Preparing, j) # zs)" now waits secs defers reason] assms
    by (intro runs_trans[OF one] runs_step) (simp add: at_upd)
  have three: "runs w ((K_Preparing, j) # zs) (snd (superseded env j (w1\<lparr>kw_db := snd (mark_direct_instagram_job_prepared now (jb_id j) (jb_lease j) waits secs defers reason (kw_db w1))\<rparr>))) zs"
    for now waits secs defers reason
    by (rule runs_trans[OF two run_superseded])
  show ?thesis unfolding prepare_after_decision_def Let_def
    using run_suppress gone two three b by (auto split: prod.split bool.split) (metis snd_conv)+
qed

lemma run_salesbot:
  "runs w ((K_Launching, j) # zs) (run_salesbot env j salesbot w) zs"
proof -
  let ?w = "w\<lparr>kw_launched := kw_launched w @ [jb_id j]\<rparr>"
  have one: "runs w ((K_Launching, j) # zs) ?w ((K_Launched, j) # zs)"
    using k_launch[of j "run_of w ((K_Launching, j) # zs)"] by (intro runs_step) (simp add: at_upd)
  have failed: "runs ?w ((K_Launched, j) # zs) (on_db (mark_waiting_job_failed now (jb_id j) (jb_lease j) err) ?w) zs" for now err
    using k_launch_failed[of j "run_of ?w ((K_Launched, j) # zs)" now err] by (intro runs_step) (simp add: at_upd on_db_def)
  have unsure: "runs ?w ((K_Launched, j) # zs) (on_db (record_uncertain_launch_warning now (jb_id j) err) ?w) zs" for now err
    using k_launch_unsure[of j "run_of ?w ((K_Launched, j) # zs)" now err] by (intro runs_step) (simp add: at_upd on_db_def)
  show ?thesis unfolding run_salesbot_def Let_def
    using runs_trans[OF one run_drop] runs_trans[OF one failed] runs_trans[OF one unsure] by (auto split: sum.split)
qed

lemma run_launch: "runs w ((K_Preparing, j) # zs) (launch_after_decision env j salesbot c d w) zs"
proof -
  obtain b db where m: "mark_job_waiting_for_salesbot (we_now env) (jb_id j) (jb_lease j) (kw_db w) = (b, db)" by fastforce
  have kept: "\<not> b \<Longrightarrow> db = kw_db w" using m by (auto simp: mark_job_waiting_for_salesbot_def upd_held_def set_jobs_none)
  have one: "b \<Longrightarrow> runs w ((K_Preparing, j) # zs) (w\<lparr>kw_db := db\<rparr>) ((K_Launching, j) # zs)"
    using k_wait[of j "run_of w ((K_Preparing, j) # zs)" "we_now env" db] m by (intro runs_step) (simp add: at_upd)
  show ?thesis unfolding launch_after_decision_def
    using m kept run_suppress run_mark[OF alike_refl] run_drop[of w] runs_trans[OF one run_salesbot] by (auto split: bool.split)
qed

lemma run_pending: "runs w ((K_Preparing, j) # zs) (snd (work_pending env j w)) zs"
proof (cases "is_direct_instagram_dm j")
  case True
  obtain b w1 where b: "superseded env j w = (b, w1)" by fastforce
  have one: "runs w ((K_Preparing, j) # zs) w1 ((K_Preparing, j) # zs)" using run_superseded[of w "(K_Preparing, j) # zs" env j] b by simp
  show ?thesis
    using True b run_drop[of w] run_mark[OF alike_refl] runs_trans[OF one run_drop] runs_trans[OF one run_mark[OF alike_refl]]
      runs_trans[OF one run_prepare[OF True]]
    by (auto simp: work_pending_def prepare_direct_instagram_dm_def split: sum.split bool.split)
next
  case False
  then show ?thesis using run_mark[OF alike_refl] run_launch
    by (auto simp: work_pending_def launch_salesbot_for_job_def split: sum.split)
qed


section \<open>Claimed jobs\<close>

text \<open>C16. Working on a claimed Kommo job, ready or pending, whatever the service, the assistant and the
  look-ups answer, is a run of the protocol that ends without the worker: every state the code of the
  workers reaches is one the protocol reaches.\<close>

theorem kommo_workers_refine:
  assumes "fresh_lease l s"
  shows "(\<forall>j db. claim_ready_job now l (run_db s) = (Some j, db) \<longrightarrow>
            kstep\<^sup>*\<^sup>* s (s\<lparr>kn_world := process_ready_job env j ((kn_world s)\<lparr>kw_db := db\<rparr>)\<rparr>))
       \<and> (\<forall>j db. claim_due_pending_job now l (run_db s) = (Inr (Some j), db) \<longrightarrow>
            kstep\<^sup>*\<^sup>* s (s\<lparr>kn_world := snd (work_pending env j ((kn_world s)\<lparr>kw_db := db\<rparr>))\<rparr>))"
proof -
  have claim: "kstep\<^sup>*\<^sup>* s (s\<lparr>kn_world := w\<rparr>)"
    if "kstep s (joins (ph, j) (with_db db s))" "runs ((kn_world s)\<lparr>kw_db := db\<rparr>) ((ph, j) # kn_workers s) w (kn_workers s)" for ph j db w
  proof -
    have "joins (ph, j) (with_db db s) = run_of ((kn_world s)\<lparr>kw_db := db\<rparr>) ((ph, j) # kn_workers s)"
      "s\<lparr>kn_world := w\<rparr> = run_of w (kn_workers s)" by (simp_all add: joins_def with_db_def run_of_def)
    then show ?thesis using that unfolding runs_def by (metis converse_rtranclp_into_rtranclp)
  qed
  show ?thesis
    using claim[OF k_claim_ready[OF _ assms] run_ready] claim[OF k_claim_pending[OF _ assms] run_pending] by blast
qed

theorem kommo_workers_refine_witness:
  "\<forall>env. kstep\<^sup>*\<^sup>* (with_db one_job no_jobs)
     ((with_db one_job no_jobs)\<lparr>kn_world := snd (work_pending env first_job ((kn_world no_jobs)\<lparr>kw_db := snd first_claim\<rparr>))\<rparr>)"
proof
  fix env
  have "fresh_lease ''lease-1'' (with_db one_job no_jobs)" using first_facts by (simp add: fresh_lease_def no_jobs_def)
  from kommo_workers_refine[OF this, of 20 env]
  show "kstep\<^sup>*\<^sup>* (with_db one_job no_jobs)
     ((with_db one_job no_jobs)\<lparr>kn_world := snd (work_pending env first_job ((kn_world no_jobs)\<lparr>kw_db := snd first_claim\<rparr>))\<rparr>)"
    using first_facts by (auto simp: first_claim_def prod_eq_iff with_db_def)
qed

end
