(* ===== verification/Urls.thy ===== *)
theory Urls
  imports Prelude
begin

text \<open>
  URLs as \<open>urllib.parse\<close> of Python 3.12 splits them, and the syntax of IP addresses (\<open>ipaddress\<close>), for the
  places where the program decides from a URL whom it talks to. Characters beyond ASCII stay within
  ISO 8859-1, where the compatibility normalisation of a host brings up no delimiter.
\<close>

section \<open>Parts of a string\<close>

definition before :: "char \<Rightarrow> string \<Rightarrow> string" where
  "before c s = takeWhile (\<lambda>x. x \<noteq> c) s"

definition after_first :: "char \<Rightarrow> string \<Rightarrow> string" where
  "after_first c s = drop 1 (dropWhile (\<lambda>x. x \<noteq> c) s)"

text \<open>\<open>rpartition\<close>: what comes after the last occurrence, or everything; and what comes before it.\<close>

definition after_last :: "char \<Rightarrow> string \<Rightarrow> string" where
  "after_last c s = rev (takeWhile (\<lambda>x. x \<noteq> c) (rev s))"

definition before_last :: "char \<Rightarrow> string \<Rightarrow> string" where
  "before_last c s = rev (drop 1 (dropWhile (\<lambda>x. x \<noteq> c) (rev s)))"

definition is_ascii_alpha :: "char \<Rightarrow> bool" where
  "is_ascii_alpha c = (let n = (of_char c :: nat) in (65 \<le> n \<and> n \<le> 90) \<or> (97 \<le> n \<and> n \<le> 122))"

definition is_alnum :: "char \<Rightarrow> bool" where
  "is_alnum c = (is_ascii_alpha c \<or> is_digit c)"

definition rstrip_chars :: "char list \<Rightarrow> string \<Rightarrow> string" where
  "rstrip_chars cs s = rev (dropWhile (\<lambda>c. c \<in> set cs) (rev s))"

definition ends_with :: "string \<Rightarrow> string \<Rightarrow> bool" where
  "ends_with e s = starts_with (rev e) (rev s)"

section \<open>IP addresses\<close>

definition ipv4_octet :: "string \<Rightarrow> bool" where
  "ipv4_octet s = (s \<noteq> [] \<and> list_all is_digit s \<and> length s \<le> 3 \<and> (s = ''0'' \<or> hd s \<noteq> CHR ''0'') \<and> digits_value s \<le> 255)"

definition is_ipv4 :: "string \<Rightarrow> bool" where
  "is_ipv4 s = (let ps = splits (\<lambda>c. c = CHR ''.'') s in length ps = 4 \<and> list_all ipv4_octet ps)"

definition hex_digit :: "char \<Rightarrow> bool" where
  "hex_digit c = (let n = (of_char c :: nat) in is_digit c \<or> (65 \<le> n \<and> n \<le> 70) \<or> (97 \<le> n \<and> n \<le> 102))"

definition hextet :: "string \<Rightarrow> bool" where
  "hextet s = (s \<noteq> [] \<and> list_all hex_digit s \<and> length s \<le> 4)"

text \<open>The groups between the colons; an empty group inside stands for the ones left out.\<close>

definition ipv6_groups :: "string list \<Rightarrow> bool" where
  "ipv6_groups ps =
     (let n = length ps; gaps = filter (\<lambda>i. ps ! i = []) [1 ..< n - 1] in
      n \<le> 9 \<and>
      (case gaps of
         [] \<Rightarrow> n = 8 \<and> list_all hextet ps
       | [g] \<Rightarrow>
           (let hi = (if hd ps = [] then g - 1 else g); lo = (if last ps = [] then n - g - 2 else n - g - 1) in
            (hd ps = [] \<longrightarrow> hi = 0) \<and> (last ps = [] \<longrightarrow> lo = 0) \<and> hi + lo < 8
            \<and> list_all hextet (take hi ps) \<and> list_all hextet (drop (n - lo) ps))
       | _ \<Rightarrow> False))"

definition is_ipv6 :: "string \<Rightarrow> bool" where
  "is_ipv6 s =
     (let ps = splits (\<lambda>c. c = CHR '':'') (before (CHR ''%'') s); zone = after_first (CHR ''%'') s in
      (CHR ''%'' \<in> set s \<longrightarrow> zone \<noteq> [] \<and> CHR ''%'' \<notin> set zone) \<and> CHR ''/'' \<notin> set s \<and> 3 \<le> length ps
      \<and> (if CHR ''.'' \<in> set (last ps) then is_ipv4 (last ps) \<and> ipv6_groups (butlast ps @ [''0'', ''0'']) else ipv6_groups ps))"

definition is_ip_address :: "string \<Rightarrow> bool" where
  "is_ip_address s = (is_ipv4 s \<or> is_ipv6 s)"

section \<open>Splitting\<close>

record split_url =
  su_scheme :: string
  su_netloc :: string
  su_path :: string
  su_params :: string
  su_query :: string
  su_fragment :: string

definition scheme_char :: "char \<Rightarrow> bool" where
  "scheme_char c = (is_alnum c \<or> c \<in> set ''+-.'')"

definition url_clean :: "string \<Rightarrow> string" where
  "url_clean s = filter (\<lambda>c. c \<notin> {CHR 0x09, CHR 0x0A, CHR 0x0D}) (dropWhile (\<lambda>c. (of_char c :: nat) \<le> 32) s)"

definition split_scheme :: "string \<Rightarrow> string \<times> string" where
  "split_scheme s =
     (let p = before (CHR '':'') s in
      if CHR '':'' \<in> set s \<and> p \<noteq> [] \<and> is_ascii_alpha (hd p) \<and> list_all scheme_char p
      then (py_lower p, after_first (CHR '':'') s) else ([], s))"

definition split_netloc :: "string \<Rightarrow> string \<times> string" where
  "split_netloc s =
     (if starts_with ''//'' s
      then (takeWhile (\<lambda>c. c \<notin> set ''/?#'') (drop 2 s), dropWhile (\<lambda>c. c \<notin> set ''/?#'') (drop 2 s)) else ([], s))"

definition bracketed_host_ok :: "string \<Rightarrow> bool" where
  "bracketed_host_ok h =
     (if starts_with ''v'' h
      then (let d = takeWhile hex_digit (drop 1 h); r = dropWhile hex_digit (drop 1 h) in
            d \<noteq> [] \<and> starts_with ''.'' r \<and> 2 \<le> length r)
      else is_ipv6 h)"

definition netloc_ok :: "string \<Rightarrow> bool" where
  "netloc_ok n =
     (let opens = (CHR ''['' \<in> set n); closes = (CHR '']'' \<in> set n) in
      opens = closes \<and> (opens \<longrightarrow> bracketed_host_ok (before (CHR '']'') (after_first (CHR ''['') n))))"

definition urlsplit :: "string \<Rightarrow> py_exc + split_url" where
  "urlsplit url =
     (case split_scheme (url_clean url) of (scheme, s1) \<Rightarrow>
      (case split_netloc s1 of (netloc, s2) \<Rightarrow>
       if \<not> netloc_ok netloc then Inl (ValueError ''Invalid IPv6 URL'')
       else (let s3 = before (CHR ''#'') s2 in
             Inr \<lparr>su_scheme = scheme, su_netloc = netloc, su_path = before (CHR ''?'') s3,
                  su_params = [], su_query = after_first (CHR ''?'') s3, su_fragment = after_first (CHR ''#'') s2\<rparr>)))"

text \<open>\<open>urlparse\<close> also takes the parameters off the last segment of the path.\<close>

definition params_schemes :: "string list" where
  "params_schemes = [[], ''ftp'', ''hdl'', ''prospero'', ''http'', ''https'', ''shttp'', ''rtsp'', ''sip'', ''sips'', ''mms'',
     ''sftp'', ''tel'']"

definition split_params :: "string \<Rightarrow> string \<times> string" where
  "split_params p =
     (let l = after_last (CHR ''/'') p in
      (if CHR ''/'' \<in> set p then before_last (CHR ''/'') p @ ''/'' @ before (CHR '';'') l else before (CHR '';'') p,
       after_first (CHR '';'') l))"

definition urlparse_as :: "string \<Rightarrow> string \<Rightarrow> py_exc + split_url" where
  "urlparse_as scheme url =
     (case urlsplit url of
        Inl e \<Rightarrow> Inl e
      | Inr u0 \<Rightarrow>
          (let u = (if su_scheme u0 = [] then u0\<lparr>su_scheme := scheme\<rparr> else u0) in
           Inr (if su_scheme u \<in> set params_schemes
                then u\<lparr>su_path := fst (split_params (su_path u)), su_params := snd (split_params (su_path u))\<rparr> else u)))"

definition urlparse :: "string \<Rightarrow> py_exc + split_url" where
  "urlparse url = urlparse_as [] url"

section \<open>The authority\<close>

definition su_userinfo :: "split_url \<Rightarrow> string option \<times> string option" where
  "su_userinfo u =
     (if CHR ''@'' \<in> set (su_netloc u)
      then (let i = before_last (CHR ''@'') (su_netloc u) in
            (Some (before (CHR '':'') i), if CHR '':'' \<in> set i then Some (after_first (CHR '':'') i) else None))
      else (None, None))"

definition su_username :: "split_url \<Rightarrow> string option" where
  "su_username u = fst (su_userinfo u)"

definition su_password :: "split_url \<Rightarrow> string option" where
  "su_password u = snd (su_userinfo u)"

definition su_hostinfo :: "split_url \<Rightarrow> string \<times> string" where
  "su_hostinfo u =
     (let h = after_last (CHR ''@'') (su_netloc u) in
      if CHR ''['' \<in> set h
      then (let b = after_first (CHR ''['') h in (before (CHR '']'') b, after_first (CHR '':'') (after_first (CHR '']'') b)))
      else (before (CHR '':'') h, after_first (CHR '':'') h))"

text \<open>The zone of an address keeps its case.\<close>

definition lower_host :: "string \<Rightarrow> string" where
  "lower_host h = py_lower (before (CHR ''%'') h) @ dropWhile (\<lambda>c. c \<noteq> CHR ''%'') h"

definition su_hostname :: "split_url \<Rightarrow> string" where
  "su_hostname u = lower_host (fst (su_hostinfo u))"

definition su_port :: "split_url \<Rightarrow> py_exc + nat option" where
  "su_port u =
     (let p = snd (su_hostinfo u) in
      if p = [] then Inr None
      else if \<not> list_all is_digit p then Inl (ValueError ''Port could not be cast to integer value'')
      else if 65535 < digits_value p then Inl (ValueError ''Port out of range 0-65535'')
      else Inr (Some (digits_value p)))"

definition has_userinfo :: "split_url \<Rightarrow> bool" where
  "has_userinfo u = ((case su_username u of None \<Rightarrow> False | Some n \<Rightarrow> n \<noteq> []) \<or> (case su_password u of None \<Rightarrow> False | Some n \<Rightarrow> n \<noteq> []))"

section \<open>Joining\<close>

text \<open>\<open>urlunparse\<close>: the schemes with an authority get \<open>//\<close> even where it is empty.\<close>

definition netloc_schemes :: "string list" where
  "netloc_schemes = [[], ''ftp'', ''http'', ''gopher'', ''nntp'', ''telnet'', ''imap'', ''wais'', ''file'', ''mms'', ''https'',
     ''shttp'', ''snews'', ''prospero'', ''rtsp'', ''rtspu'', ''rsync'', ''svn'', ''svn+ssh'', ''sftp'', ''nfs'', ''git'',
     ''git+ssh'', ''ws'', ''wss'', ''itms-services'']"

definition relative_schemes :: "string list" where
  "relative_schemes = [[], ''ftp'', ''http'', ''gopher'', ''nntp'', ''imap'', ''wais'', ''file'', ''https'', ''shttp'', ''mms'',
     ''prospero'', ''rtsp'', ''rtspu'', ''sftp'', ''svn'', ''svn+ssh'', ''ws'', ''wss'']"

definition urlunparse :: "split_url \<Rightarrow> string" where
  "urlunparse u =
     (let p0 = su_path u @ (if su_params u = [] then [] else '';'' @ su_params u);
          slashes = (su_netloc u \<noteq> [] \<or> (su_scheme u \<noteq> [] \<and> su_scheme u \<in> set netloc_schemes \<and> \<not> starts_with ''//'' p0));
          p1 = (if slashes then ''//'' @ su_netloc u @ (if p0 \<noteq> [] \<and> \<not> starts_with ''/'' p0 then ''/'' @ p0 else p0) else p0) in
      (if su_scheme u = [] then [] else su_scheme u @ '':'') @ p1
      @ (if su_query u = [] then [] else ''?'' @ su_query u) @ (if su_fragment u = [] then [] else ''#'' @ su_fragment u))"

text \<open>\<open>urljoin\<close>, with \<open>..\<close> and \<open>.\<close> taken out of the joined path.\<close>

fun resolve_segments :: "string list \<Rightarrow> string list \<Rightarrow> string list" where
  "resolve_segments acc [] = acc"
| "resolve_segments acc (x # xs) =
     resolve_segments (if x = ''..'' then butlast acc else if x = ''.'' then acc else acc @ [x]) xs"

definition path_segments :: "string \<Rightarrow> string list" where
  "path_segments p = splits (\<lambda>c. c = CHR ''/'') p"

definition join_paths :: "string \<Rightarrow> string \<Rightarrow> string" where
  "join_paths b p =
     (let bs = path_segments b;
          bs1 = (if last bs \<noteq> [] then butlast bs else bs);
          all = bs1 @ path_segments p;
          segs = (if starts_with ''/'' p then path_segments p
                  else if length all < 2 then all
                  else hd all # filter (\<lambda>x. x \<noteq> []) (butlast (tl all)) @ [last all]);
          r = resolve_segments [] segs @ (if last segs \<in> {''.'', ''..''} then [[]] else []);
          t = join_with ''/'' r in
      if t = [] then ''/'' else t)"

definition urljoin :: "string \<Rightarrow> string \<Rightarrow> py_exc + string" where
  "urljoin base url =
     (if base = [] then Inr url else if url = [] then Inr base
      else (case urlparse base of
              Inl e \<Rightarrow> Inl e
            | Inr b \<Rightarrow>
                (case urlparse_as (su_scheme b) url of
                   Inl e \<Rightarrow> Inl e
                 | Inr u \<Rightarrow>
                     (if su_scheme u \<noteq> su_scheme b \<or> su_scheme u \<notin> set relative_schemes then Inr url
                      else if su_scheme u \<in> set netloc_schemes \<and> su_netloc u \<noteq> [] then Inr (urlunparse u)
                      else (let v = (if su_scheme u \<in> set netloc_schemes then u\<lparr>su_netloc := su_netloc b\<rparr> else u) in
                            if su_path v = [] \<and> su_params v = []
                            then Inr (urlunparse (v\<lparr>su_path := su_path b, su_params := su_params b,
                                        su_query := (if su_query v = [] then su_query b else su_query v)\<rparr>))
                            else Inr (urlunparse (v\<lparr>su_path := join_paths (su_path b) (su_path v)\<rparr>)))))))"

section \<open>File names\<close>

text \<open>\<open>Path(p).name\<close> of a POSIX path.\<close>

definition path_name :: "string \<Rightarrow> string" where
  "path_name p = (case rev (filter (\<lambda>x. x \<noteq> [] \<and> x \<noteq> ''.'') (path_segments p)) of [] \<Rightarrow> [] | x # _ \<Rightarrow> x)"


section \<open>Identifiers\<close>

text \<open>\<open>uuid.UUID(text)\<close>: 32 characters, braces, hyphens and prefixes aside, that \<open>int(text, 16)\<close> reads, so a
  plus sign, a prefix \<open>0x\<close> and single underscores may be among them.\<close>

fun hex_digits :: "bool \<Rightarrow> string \<Rightarrow> bool" where
  "hex_digits prev [] = prev"
| "hex_digits prev (c # cs) =
     (if hex_digit c then hex_digits True cs else c = CHR ''_'' \<and> prev \<and> hex_digits False cs)"

definition hex_number :: "string \<Rightarrow> bool" where
  "hex_number s0 =
     (let s1 = py_strip s0;
          s2 = (case s1 of c # cs \<Rightarrow> if c = CHR ''+'' then cs else s1 | [] \<Rightarrow> []) in
      if py_lower (take 2 s2) = ''0x''
      then (case drop 2 s2 of CHR ''_'' # r \<Rightarrow> hex_digits False r | r \<Rightarrow> hex_digits False r)
      else hex_digits False s2)"

function remove_all :: "string \<Rightarrow> string \<Rightarrow> string" where
  "remove_all old s =
     (if old = [] \<or> s = [] then s
      else if starts_with old s then remove_all old (drop (length old) s) else hd s # remove_all old (tl s))"
  by pat_completeness auto
termination by (relation "measure (\<lambda>(old, s). length s)") auto

declare remove_all.simps [simp del]

definition uuid_number :: "string \<Rightarrow> string" where
  "uuid_number s = filter (\<lambda>c. c \<noteq> CHR ''-'') (strip_chars ''{}'' (remove_all ''uuid:'' (remove_all ''urn:'' s)))"

definition is_uuid :: "string \<Rightarrow> bool" where
  "is_uuid s = (length (uuid_number s) = 32 \<and> hex_number (uuid_number s))"

section \<open>Parsing what was put together\<close>

lemma before_notin [simp]: "c \<notin> set s \<Longrightarrow> before c s = s"
  by (auto simp: before_def takeWhile_eq_all_conv)

lemma after_first_notin [simp]: "c \<notin> set s \<Longrightarrow> after_first c s = []"
proof -
  assume "c \<notin> set s"
  then have "dropWhile (\<lambda>x. x \<noteq> c) s = []" by (auto simp: dropWhile_eq_Nil_conv)
  then show "after_first c s = []" unfolding after_first_def by (simp only: drop_Nil)
qed

lemma before_append [simp]: "c \<notin> set s \<Longrightarrow> before c (s @ c # t) = s"
  by (simp add: before_def takeWhile_append)

lemma after_first_append [simp]: "c \<notin> set s \<Longrightarrow> after_first c (s @ c # t) = t"
  by (simp add: after_first_def dropWhile_append)

lemma set_before: "set (before c s) \<subseteq> set s" "c \<notin> set (before c s)"
  by (auto simp: before_def dest: set_takeWhileD)

lemma set_after_first: "set (after_first c s) \<subseteq> set s"
  by (auto simp: after_first_def dest!: in_set_dropD dest: set_dropWhileD)

lemma set_after_last: "set (after_last c s) \<subseteq> set s" "c \<notin> set (after_last c s)"
  by (auto simp: after_last_def dest: set_takeWhileD)

lemma after_last_notin [simp]: "c \<notin> set s \<Longrightarrow> after_last c s = s"
proof -
  assume "c \<notin> set s"
  then have "takeWhile (\<lambda>x. x \<noteq> c) (rev s) = rev s" by (auto simp: takeWhile_eq_all_conv)
  then show "after_last c s = s" unfolding after_last_def by (simp only: rev_rev_ident)
qed

lemma after_last_append [simp]: "c \<notin> set t \<Longrightarrow> after_last c (s @ c # t) = t"
  by (simp add: after_last_def takeWhile_append)

lemma before_last_append [simp]: "c \<notin> set t \<Longrightarrow> before_last c (s @ c # t) = s"
  by (simp add: before_last_def dropWhile_append)

lemma last_split: "c \<in> set s \<Longrightarrow> s = before_last c s @ c # after_last c s"
proof -
  assume "c \<in> set s"
  then obtain a b where s: "s = a @ c # b" "c \<notin> set b" by (metis split_list_last)
  then show ?thesis by simp
qed

lemma set_split_params: "set (fst (split_params p)) \<subseteq> set p"
proof (cases "CHR ''/'' \<in> set p")
  case True
  then obtain a b where "p = a @ CHR ''/'' # b" "CHR ''/'' \<notin> set b" by (metis split_list_last)
  then show ?thesis using set_before(1)[of "CHR '';''" b] by (auto simp: split_params_def Let_def)
next
  case False
  then show ?thesis using set_before(1)[of "CHR '';''" p] by (simp add: split_params_def Let_def)
qed

lemma split_params_again: "split_params (fst (split_params p)) = (fst (split_params p), [])"
proof (cases "CHR ''/'' \<in> set p")
  case True
  then obtain a b where p: "p = a @ CHR ''/'' # b" "CHR ''/'' \<notin> set b" by (metis split_list_last)
  have "CHR ''/'' \<notin> set (before (CHR '';'') b)" using p(2) set_before(1)[of "CHR '';''" b] by blast
  moreover have "CHR '';'' \<notin> set (before (CHR '';'') b)" by (rule set_before(2))
  ultimately show ?thesis using p by (simp add: split_params_def Let_def)
next
  case False
  have "CHR ''/'' \<notin> set (before (CHR '';'') p)" using False set_before(1)[of "CHR '';''" p] by blast
  then show ?thesis using False set_before(2) by (simp add: split_params_def Let_def)
qed

lemma split_params_slash: "starts_with ''/'' p \<Longrightarrow> starts_with ''/'' (fst (split_params p))"
proof -
  assume "starts_with ''/'' p"
  then obtain q where p: "p = CHR ''/'' # q" by (cases p) (auto simp: starts_with_def)
  then obtain a b where ab: "p = a @ CHR ''/'' # b" "CHR ''/'' \<notin> set b" by (metis list.set_intros(1) split_list_last)
  have e: "fst (split_params p) = a @ CHR ''/'' # before (CHR '';'') b" unfolding ab(1) using ab(2) by (simp add: split_params_def Let_def)
  show ?thesis unfolding e using p ab(1) by (cases a) (auto simp: starts_with_def)
qed

text \<open>The parts of a parsed URL contain nothing that ends them.\<close>

definition clean_part :: "string \<Rightarrow> bool" where
  "clean_part s = (\<forall>c \<in> set s. c \<notin> {CHR 0x09, CHR 0x0A, CHR 0x0D} \<union> set ''#'')"

lemma url_clean_set: "c \<in> set (url_clean s) \<Longrightarrow> c \<notin> {CHR 0x09, CHR 0x0A, CHR 0x0D}"
  by (auto simp: url_clean_def)

lemma split_netloc_set: "set (snd (split_netloc s)) \<subseteq> set s"
  by (auto simp: split_netloc_def dest!: set_dropWhileD in_set_dropD)

lemma split_scheme_set: "set (snd (split_scheme s)) \<subseteq> set s"
  using set_after_first[of "CHR '':''" s] by (auto simp: split_scheme_def Let_def)

lemma split_netloc_rest:
  assumes "fst (split_netloc s) \<noteq> []" shows "snd (split_netloc s) = [] \<or> hd (snd (split_netloc s)) \<in> set ''/?#''"
proof -
  have "snd (split_netloc s) = dropWhile (\<lambda>c. c \<notin> set ''/?#'') (drop 2 s)" using assms by (auto simp: split_netloc_def)
  then show ?thesis using hd_dropWhile[of "\<lambda>c. c \<notin> set ''/?#''" "drop 2 s"] by metis
qed

lemma urlsplit_parts:
  assumes "urlsplit url = Inr u"
  shows "clean_part (su_path u)" "clean_part (su_query u)" "CHR ''?'' \<notin> set (su_path u)"
    "su_netloc u \<noteq> [] \<Longrightarrow> su_path u = [] \<or> starts_with ''/'' (su_path u)" "su_params u = []"
proof -
  define s1 where "s1 = snd (split_scheme (url_clean url))"
  define s2 where "s2 = snd (split_netloc s1)"
  define s3 where "s3 = before (CHR ''#'') s2"
  have u: "su_netloc u = fst (split_netloc s1)" "su_path u = before (CHR ''?'') s3" "su_query u = after_first (CHR ''?'') s3" "su_params u = []"
    using assms by (auto simp: urlsplit_def s1_def s2_def s3_def Let_def split: prod.splits if_splits)
  have "set s3 \<subseteq> set (url_clean url)" unfolding s3_def s2_def s1_def
    using set_before(1) split_netloc_set split_scheme_set by blast
  moreover have "CHR ''#'' \<notin> set s3" unfolding s3_def by (rule set_before(2))
  ultimately have "clean_part s3" using url_clean_set unfolding clean_part_def by fastforce
  then show "clean_part (su_path u)" "clean_part (su_query u)"
    using u set_before(1)[of "CHR ''?''" s3] set_after_first[of "CHR ''?''" s3] unfolding clean_part_def by auto
  show "CHR ''?'' \<notin> set (su_path u)" using u(2) set_before(2) by simp
  show "su_params u = []" by (rule u(4))
  assume "su_netloc u \<noteq> []"
  then have "s2 = [] \<or> hd s2 \<in> set ''/?#''" using split_netloc_rest[of s1] u(1) unfolding s2_def by simp
  then show "su_path u = [] \<or> starts_with ''/'' (su_path u)"
    unfolding u(2) s3_def by (cases s2) (auto simp: before_def starts_with_def)
qed

lemma urlparse_parts:
  assumes "urlparse url = Inr u" "su_netloc u \<noteq> []"
  shows "clean_part (su_path u)" "clean_part (su_query u)" "CHR ''?'' \<notin> set (su_path u)"
    "su_path u = [] \<or> starts_with ''/'' (su_path u)" "su_scheme u = ''https'' \<Longrightarrow> split_params (su_path u) = (su_path u, [])"
proof -
  obtain v where v: "urlsplit url = Inr v"
    "u = (if su_scheme v \<in> set params_schemes then v\<lparr>su_path := fst (split_params (su_path v)), su_params := snd (split_params (su_path v))\<rparr> else v)"
    using assms(1) by (auto simp: urlparse_def urlparse_as_def Let_def split: sum.splits if_splits)
  have n: "su_netloc v \<noteq> []" using assms(2) v(2) by (simp split: if_splits)
  note p = urlsplit_parts[OF v(1)]
  have sub: "set (fst (split_params (su_path v))) \<subseteq> set (su_path v)" by (rule set_split_params)
  show "clean_part (su_path u)" "clean_part (su_query u)" "CHR ''?'' \<notin> set (su_path u)"
    using p(1-3) sub v(2) by (auto simp: clean_part_def)
  have "fst (split_params []) = []" by (simp add: split_params_def)
  then show "su_path u = [] \<or> starts_with ''/'' (su_path u)" using p(4)[OF n] v(2) split_params_slash by auto
  assume "su_scheme u = ''https''"
  then have "su_scheme v \<in> set params_schemes" using v(2) by (simp add: params_schemes_def split: if_splits)
  then show "split_params (su_path u) = (su_path u, [])" using v(2) split_params_again by simp
qed

lemma urlsplit_https:
  assumes n: "n \<noteq> []" "\<forall>c \<in> set n. c \<notin> set ''/?#[]''" "clean_part n"
    and p: "starts_with ''/'' p" "clean_part p" "CHR ''?'' \<notin> set p" and q: "clean_part q"
  shows "urlsplit (''https://'' @ n @ p @ (if q = [] then [] else ''?'' @ q)) =
    Inr \<lparr>su_scheme = ''https'', su_netloc = n, su_path = p, su_params = [], su_query = q, su_fragment = []\<rparr>"
proof -
  let ?t = "p @ (if q = [] then [] else ''?'' @ q)"
  obtain p' where p': "p = CHR ''/'' # p'" using p(1) by (cases p) (auto simp: starts_with_def)
  have "url_clean (''https://'' @ n @ ?t) = ''https://'' @ n @ ?t"
    using n(3) p(2) q by (simp add: url_clean_def clean_part_def filter_id_conv)
  moreover have "split_scheme (''https://'' @ n @ ?t) = (''https'', ''//'' @ n @ ?t)"
  proof -
    have "list_all scheme_char ''https''" "is_ascii_alpha (CHR ''h'')" "py_lower ''https'' = ''https''" by code_simp+
    moreover have "before (CHR '':'') (''https://'' @ n @ ?t) = ''https''" "after_first (CHR '':'') (''https://'' @ n @ ?t) = ''//'' @ n @ ?t"
      by (simp_all add: before_def after_first_def)
    ultimately show ?thesis unfolding split_scheme_def Let_def by simp
  qed
  moreover have "split_netloc (''//'' @ n @ ?t) = (n, ?t)"
  proof -
    have "takeWhile (\<lambda>c. c \<notin> set ''/?#'') (n @ ?t) = n" using n(2) by (subst takeWhile_append2) (auto simp: p')
    moreover have "dropWhile (\<lambda>c. c \<notin> set ''/?#'') (n @ ?t) = ?t" using n(2) by (subst dropWhile_append2) (auto simp: p')
    ultimately show ?thesis unfolding split_netloc_def by (simp add: starts_with_def)
  qed
  moreover have "netloc_ok n" using n(2) by (auto simp: netloc_ok_def Let_def)
  moreover have "CHR ''#'' \<notin> set ?t" using p(2) q by (auto simp: clean_part_def)
  ultimately show ?thesis using p(3) by (auto simp: urlsplit_def Let_def)
qed

end
