(* ===== verification/Kommo_Auth.thy ===== *)
theory Kommo_Auth
  imports Urls
begin

text \<open>
  Who may call the program in Kommo's name, and where the program answers
  (\<open>integrations/kommo/auth.py\<close>): the webhook secret, the token of a Salesbot callback and the URL it
  returns to. The checks of the token library (\<open>jwt\<close>) are arguments.
\<close>

section \<open>Errors\<close>

text \<open>A \<open>KommoAuthError\<close> with its message and reason, or an exception the code lets through.\<close>

datatype auth_error = Auth_Error string string | Auth_Raised py_exc

definition auth_fail :: "string \<Rightarrow> string \<Rightarrow> auth_error + 'a" where
  "auth_fail message reason = Inl (Auth_Error message reason)"

section \<open>The webhook secret\<close>

text \<open>\<open>hmac.compare_digest\<close> takes strings of ASCII characters only.\<close>

definition is_ascii :: "string \<Rightarrow> bool" where
  "is_ascii s = list_all (\<lambda>c. (of_char c :: nat) < 128) s"

definition compare_digest :: "string \<Rightarrow> string \<Rightarrow> py_exc + bool" where
  "compare_digest a b =
     (if is_ascii a \<and> is_ascii b then Inr (a = b)
      else Inl (TypeError ''comparing strings with non-ASCII characters is not supported''))"

definition validate_webhook_secret :: "string \<Rightarrow> string \<Rightarrow> py_exc + bool" where
  "validate_webhook_secret supplied expected =
     (if supplied = [] \<or> expected = [] then Inr False else compare_digest supplied expected)"

section \<open>The return URL\<close>

definition subdomain_char :: "char \<Rightarrow> bool" where
  "subdomain_char c = (is_digit c \<or> (let n = (of_char c :: nat) in 97 \<le> n \<and> n \<le> 122))"

definition subdomain_ok :: "string \<Rightarrow> bool" where
  "subdomain_ok s = (s \<noteq> [] \<and> length s \<le> 63 \<and> subdomain_char (hd s) \<and> subdomain_char (last s)
     \<and> list_all (\<lambda>c. subdomain_char c \<or> c = CHR ''-'') s)"

definition kommo_account_hostname :: "string \<Rightarrow> auth_error + string" where
  "kommo_account_hostname subdomain =
     (let n = py_lower (py_strip subdomain) in
      if subdomain_ok n then Inr (n @ ''.kommo.com'')
      else auth_fail ''Invalid Kommo subdomain configuration'' ''invalid_return_url'')"

definition url_host :: "split_url \<Rightarrow> string" where
  "url_host u = rstrip_chars ''.'' (py_lower (su_hostname u))"

definition check_return_host :: "split_url \<Rightarrow> string \<Rightarrow> nat option \<Rightarrow> auth_error + string" where
  "check_return_host u allowed port =
     (if url_host u \<noteq> allowed then auth_fail ''return_url host is not the configured Kommo account'' ''invalid_return_url''
      else if url_host u \<in> {''localhost'', ''127.0.0.1'', ''::1''} then auth_fail ''return_url host is not allowed'' ''invalid_return_url''
      else if is_ip_address (url_host u) then auth_fail ''return_url host must not be an IP address'' ''invalid_return_url''
      else Inr (urlunparse \<lparr>su_scheme = ''https'',
                  su_netloc = (case port of None \<Rightarrow> allowed | Some p \<Rightarrow> allowed @ '':'' @ show_nat p),
                  su_path = (if su_path u = [] then ''/'' else su_path u), su_params = [], su_query = su_query u,
                  su_fragment = []\<rparr>))"

definition validate_return_url :: "string \<Rightarrow> string \<Rightarrow> auth_error + string" where
  "validate_return_url return_url subdomain =
     (if return_url = [] then auth_fail ''Missing return_url'' ''invalid_return_url''
      else case urlparse return_url of
        Inl e \<Rightarrow> Inl (Auth_Raised e)
      | Inr u \<Rightarrow>
         (case kommo_account_hostname subdomain of
            Inl e \<Rightarrow> Inl e
          | Inr allowed \<Rightarrow>
              if su_scheme u \<noteq> ''https'' then auth_fail ''return_url must use HTTPS'' ''invalid_return_url''
              else if has_userinfo u then auth_fail ''return_url must not include user information'' ''invalid_return_url''
              else (case su_port u of
                      Inl e \<Rightarrow> Inl (Auth_Raised e)
                    | Inr port \<Rightarrow>
                        if port \<notin> {None, Some 443} then auth_fail ''return_url uses an unexpected port'' ''invalid_return_url''
                        else check_return_host u allowed port)))"

section \<open>The token\<close>

datatype jwt_error = JWT_Missing_Claim | JWT_Expired | JWT_Immature | JWT_Issued_At | JWT_Issuer | JWT_Signature | JWT_Other

text \<open>The header of a token, and its claims once the library has checked signature, issuer and times.\<close>

record jwt_library =
  jl_header :: "string \<Rightarrow> unit + (string \<times> json) list"
  jl_decode :: "string \<Rightarrow> string \<Rightarrow> string \<Rightarrow> jwt_error + (string \<times> json) list"

record auth_config =
  ac_subdomain :: string
  ac_secret :: string
  ac_integration :: string

fun decode_failure :: "jwt_error \<Rightarrow> auth_error" where
  "decode_failure JWT_Missing_Claim = Auth_Error ''Salesbot token missing required claim'' ''missing_claim''"
| "decode_failure JWT_Expired = Auth_Error ''Expired Salesbot token'' ''expired_token''"
| "decode_failure JWT_Immature = Auth_Error ''Immature Salesbot token'' ''immature''"
| "decode_failure JWT_Issued_At = Auth_Error ''Invalid Salesbot token issued-at time'' ''invalid_entity_claims''"
| "decode_failure JWT_Issuer = Auth_Error ''Salesbot token issuer mismatch'' ''issuer_mismatch''"
| "decode_failure JWT_Signature = Auth_Error ''Invalid Salesbot token'' ''invalid_signature''"
| "decode_failure JWT_Other = Auth_Error ''Invalid Salesbot token'' ''invalid_signature''"

definition jwt_algorithms :: "string list" where
  "jwt_algorithms = [''HS256'', ''HS512'']"

definition positive_int_claim :: "(string \<times> json) list \<Rightarrow> string \<Rightarrow> auth_error + int" where
  "positive_int_claim claims key =
     (let bad = auth_fail (''Salesbot token missing '' @ key) ''invalid_entity_claims'' in
      case jget claims key of
        JVal v \<Rightarrow> (case py_int v of
            Inl _ \<Rightarrow> bad
          | Inr n \<Rightarrow> if n \<le> 0 then auth_fail (''Salesbot token invalid '' @ key) ''invalid_entity_claims'' else Inr n)
      | _ \<Rightarrow> bad)"

definition normalize_entity_type :: "json \<Rightarrow> auth_error + string" where
  "normalize_entity_type value =
     (let n = py_lower (py_strip (j_str_or_empty value)) in
      if n \<in> {''1'', ''contact'', ''contacts''} then Inr ''contacts''
      else if n \<in> {''2'', ''lead'', ''leads''} then Inr ''leads''
      else auth_fail ''Salesbot token invalid entity_type'' ''invalid_entity_claims'')"

definition json_or :: "json \<Rightarrow> json \<Rightarrow> json" where
  "json_or a b = (if j_truthy a then a else b)"

definition complete_claims :: "auth_config \<Rightarrow> string \<Rightarrow> (string \<times> json) list \<Rightarrow> auth_error + (string \<times> json) list" where
  "complete_claims cfg expected claims =
     (let sub = py_lower (py_strip (j_str_or_empty (jget claims ''subdomain'')));
          client = py_strip (j_str_or_empty (json_or (jget claims ''client_uid'') (jget claims ''client_uuid'')));
          s = (\<lambda>x. JVal (PStr x)) in
      if sub = [] then auth_fail ''Salesbot token missing subdomain'' ''subdomain_mismatch''
      else if sub \<noteq> expected then auth_fail ''Salesbot token subdomain mismatch'' ''subdomain_mismatch''
      else if client = [] then auth_fail ''Salesbot token missing client_uid'' ''integration_mismatch''
      else if client \<noteq> py_strip (ac_integration cfg) then auth_fail ''Salesbot token integration mismatch'' ''integration_mismatch''
      else let c1 = AList.update ''client_uuid'' (s client) (AList.update ''client_uid'' (s client) claims) in
      case positive_int_claim c1 ''account_id'' of
        Inl e \<Rightarrow> Inl e
      | Inr account \<Rightarrow>
         (let c2 = AList.update ''account_id'' (JVal (PInt account)) c1 in
          case positive_int_claim c2 ''entity_id'' of
            Inl e \<Rightarrow> Inl e
          | Inr entity \<Rightarrow>
             (let c3 = AList.update ''entity_id'' (s (show_int entity)) c2 in
              case normalize_entity_type (jget c3 ''entity_type'') of
                Inl e \<Rightarrow> Inl e
              | Inr kind \<Rightarrow> Inr (AList.update ''subdomain'' (s sub) (AList.update ''entity_type'' (s kind) c3)))))"

definition validate_salesbot_jwt :: "jwt_library \<Rightarrow> auth_config \<Rightarrow> string \<Rightarrow> auth_error + (string \<times> json) list" where
  "validate_salesbot_jwt lib cfg token =
     (if token = [] then auth_fail ''Missing Salesbot token'' ''missing_token''
      else case jl_header lib token of
        Inl _ \<Rightarrow> auth_fail ''Invalid Salesbot token header'' ''invalid_header''
      | Inr header \<Rightarrow>
         if jget header ''alg'' \<notin> set (map (\<lambda>a. JVal (PStr a)) jwt_algorithms)
         then auth_fail ''Unexpected Salesbot token algorithm'' ''unsupported_algorithm''
         else let expected = py_lower (py_strip (ac_subdomain cfg)) in
         (case kommo_account_hostname expected of
            Inl e \<Rightarrow> Inl e
          | Inr host \<Rightarrow>
             (case jl_decode lib token (ac_secret cfg) (''https://'' @ host) of
                Inl e \<Rightarrow> Inl (decode_failure e)
              | Inr claims \<Rightarrow> complete_claims cfg expected claims)))"


section \<open>Where a callback is answered\<close>

lemma subdomain_chars: "subdomain_ok n \<Longrightarrow> c \<in> set n \<Longrightarrow> c = CHR ''-'' \<or> subdomain_char c"
  by (auto simp: subdomain_ok_def list_all_iff)

text \<open>Characters that end no part of a URL and have no upper case.\<close>

definition host_char :: "char \<Rightarrow> bool" where
  "host_char c = (c \<notin> set ''/?#[]@:%'' \<and> c \<notin> {CHR 0x09, CHR 0x0A, CHR 0x0D} \<and> lower_char c = c)"

lemma host_charD: "host_char c \<Longrightarrow> c \<notin> set ''/?#[]@:%''" "host_char c \<Longrightarrow> c \<notin> {CHR 0x09, CHR 0x0A, CHR 0x0D}"
  "host_char c \<Longrightarrow> lower_char c = c"
  unfolding host_char_def by blast+

lemma subdomain_host_char: "subdomain_char c \<Longrightarrow> host_char c"
  unfolding host_char_def by (auto simp: subdomain_char_def is_digit_def lower_char_def Let_def)

lemma host_chars:
  assumes "subdomain_ok n" shows "list_all host_char (n @ ''.kommo.com'')"
proof -
  have lit: "host_char (CHR ''-'')" "list_all host_char ''.kommo.com''" by code_simp+
  then have "list_all host_char n" using subdomain_chars[OF assms] subdomain_host_char unfolding list_all_iff by blast
  then show ?thesis using lit(2) by (simp only: list_all_append)
qed

lemma host_itself:
  assumes n: "subdomain_ok n" and net: "netloc \<in> {n @ ''.kommo.com'', n @ ''.kommo.com:443''}"
    and u: "su_netloc u = netloc"
  shows "url_host u = n @ ''.kommo.com''" "\<not> has_userinfo u" "su_port u = Inr (if netloc = n @ ''.kommo.com'' then None else Some 443)"
proof -
  define h where "h = n @ ''.kommo.com''"
  have hc: "host_char c" if "c \<in> set h" for c using host_chars[OF n] that unfolding h_def list_all_iff by blast
  have nn: "netloc = h \<or> netloc = h @ CHR '':'' # ''443''" using net unfolding h_def by auto
  have no: "CHR ''@'' \<notin> set h" "CHR ''['' \<notin> set h" "CHR '':'' \<notin> set h" "CHR ''%'' \<notin> set h"
    using hc host_charD(1) by (metis list.set_intros)+
  have no': "CHR ''@'' \<notin> set netloc" "CHR ''['' \<notin> set netloc" using nn no by auto
  have "dropWhile (\<lambda>c. c \<noteq> CHR ''%'') h = []" using no(4) by (auto simp: dropWhile_eq_Nil_conv)
  moreover have low: "py_lower h = h" unfolding py_lower_def using hc host_charD(3) by (simp add: map_idI)
  ultimately have lh: "lower_host h = h" using before_notin[OF no(4)] by (simp only: lower_host_def append_Nil2)
  have info: "su_hostinfo u = (h, if netloc = h then [] else ''443'')"
    using no no' u nn by (auto simp: su_hostinfo_def Let_def)
  have "rstrip_chars ''.'' h = h" by (simp add: h_def rstrip_chars_def)
  then show "url_host u = n @ ''.kommo.com''" using info low lh by (simp add: url_host_def su_hostname_def h_def[symmetric])
  show "\<not> has_userinfo u" using no' u by (simp add: has_userinfo_def su_username_def su_password_def su_userinfo_def)
  have "digits_value ''443'' = 443" "list_all is_digit ''443''" by code_simp+
  then show "su_port u = Inr (if netloc = n @ ''.kommo.com'' then None else Some 443)"
    using info by (simp add: su_port_def h_def[symmetric])
qed

lemma host_netloc:
  assumes "list_all host_char (n @ ''.kommo.com'')" "netloc \<in> {n @ ''.kommo.com'', n @ ''.kommo.com:443''}"
  shows "\<forall>c \<in> set netloc. c \<notin> set ''/?#[]''" "clean_part netloc"
proof -
  define P where "P = (\<lambda>c. c \<notin> set ''/?#[]'' \<and> c \<notin> {CHR 0x09, CHR 0x0A, CHR 0x0D} \<union> set ''#'')"
  have lit: "list_all P '':443''" unfolding P_def by code_simp
  have h: "P c" if "host_char c" for c using host_charD(1,2)[OF that] unfolding P_def by auto
  have a: "list_all P (n @ ''.kommo.com'')" by (rule list.pred_mono_strong[OF assms(1)]) (rule h)
  have "netloc = n @ ''.kommo.com'' \<or> netloc = (n @ ''.kommo.com'') @ '':443''" using assms(2) by auto
  then have "list_all P netloc" using lit a list_all_append[of P] by metis
  then show "\<forall>c \<in> set netloc. c \<notin> set ''/?#[]''" "clean_part netloc" unfolding clean_part_def list_all_iff P_def by blast+
qed

lemma show_443: "show_nat 443 = ''443''"
  by code_simp

lemma urlunparse_https:
  assumes "netloc \<noteq> []" "starts_with ''/'' p"
  shows "urlunparse \<lparr>su_scheme = ''https'', su_netloc = netloc, su_path = p, su_params = [], su_query = q, su_fragment = []\<rparr>
    = ''https://'' @ netloc @ p @ (if q = [] then [] else ''?'' @ q)"
  using assms by (cases p) (auto simp: urlunparse_def Let_def starts_with_def)

text \<open>C21. The program answers a Salesbot only at the configured account: a return URL it accepts is
  rebuilt as an https URL of the account's host, with no user information and no port but 443, that keeps
  the path and the query, and it accepts the rebuilt URL as it is.\<close>

theorem return_url_canonical:
  assumes "validate_return_url url sub = Inr out"
  shows "\<exists>host u v. kommo_account_hostname sub = Inr host \<and> urlparse url = Inr u \<and> urlparse out = Inr v
     \<and> su_scheme v = ''https'' \<and> su_netloc v \<in> {host, host @ '':443''} \<and> url_host u = host
     \<and> su_path v = (if su_path u = [] then ''/'' else su_path u) \<and> su_query v = su_query u \<and> su_fragment v = []
     \<and> validate_return_url out sub = Inr out"
proof -
  obtain u where u: "urlparse url = Inr u" using assms by (auto simp: validate_return_url_def auth_fail_def split: if_splits sum.splits)
  obtain n where n: "subdomain_ok n" "kommo_account_hostname sub = Inr (n @ ''.kommo.com'')"
    using assms u by (auto simp: validate_return_url_def auth_fail_def kommo_account_hostname_def Let_def split: if_splits)
  obtain port where p: "su_scheme u = ''https''" "\<not> has_userinfo u" "su_port u = Inr port" "port \<in> {None, Some 443}"
    "check_return_host u (n @ ''.kommo.com'') port = Inr out"
    using assms u n(2) by (auto simp: validate_return_url_def auth_fail_def split: if_splits sum.splits)
  have h: "url_host u = n @ ''.kommo.com''" "\<not> is_ip_address (n @ ''.kommo.com'')"
    "n @ ''.kommo.com'' \<notin> {''localhost'', ''127.0.0.1'', ''::1''}"
    using p(5) by (auto simp: check_return_host_def auth_fail_def split: if_splits)
  define netloc where "netloc = (case port of None \<Rightarrow> n @ ''.kommo.com'' | Some p \<Rightarrow> (n @ ''.kommo.com'') @ '':'' @ show_nat p)"
  define path where "path = (if su_path u = [] then ''/'' else su_path u)"
  have net: "netloc \<in> {n @ ''.kommo.com'', n @ ''.kommo.com:443''}" using p(4) by (auto simp: netloc_def show_443)
  have "su_netloc u \<noteq> []"
  proof
    assume "su_netloc u = []"
    then have "url_host u = []"
      by (simp add: url_host_def su_hostname_def su_hostinfo_def Let_def lower_host_def py_lower_def rstrip_chars_def)
    then show False using h(1) by simp
  qed
  note parts = urlparse_parts[OF u this]
  have pp: "starts_with ''/'' path" "clean_part path" "CHR ''?'' \<notin> set path" "split_params path = (path, [])"
    using parts p(1) by (auto simp: path_def starts_with_def clean_part_def split_params_def after_last_def before_last_def Let_def)
  have out: "out = ''https://'' @ netloc @ path @ (if su_query u = [] then [] else ''?'' @ su_query u)"
    using p(5) h net urlunparse_https[OF _ pp(1), of netloc "su_query u"] netloc_def
    by (auto simp: check_return_host_def auth_fail_def path_def split: if_splits)
  have "list_all host_char (n @ ''.kommo.com'')" by (rule host_chars[OF n(1)])
  then have netchars: "\<forall>c \<in> set netloc. c \<notin> set ''/?#[]''" "clean_part netloc" using net by (rule host_netloc)+
  then have "urlsplit out = Inr \<lparr>su_scheme = ''https'', su_netloc = netloc, su_path = path, su_params = [], su_query = su_query u, su_fragment = []\<rparr>"
    unfolding out by (intro urlsplit_https netchars pp parts(2)) (use net in auto)
  then have v: "urlparse out = Inr \<lparr>su_scheme = ''https'', su_netloc = netloc, su_path = path, su_params = [], su_query = su_query u, su_fragment = []\<rparr>"
    (is "_ = Inr ?v") using pp(4) by (simp add: urlparse_def urlparse_as_def params_schemes_def Let_def)
  have pv: "su_netloc ?v = netloc" by simp
  note host = host_itself[OF n(1) net pv]
  have path_ne: "path \<noteq> []" using pp(1) by (auto simp: starts_with_def)
  have po: "(if netloc = n @ ''.kommo.com'' then None else Some 443) = port" using p(4) by (auto simp: netloc_def)
  have "check_return_host ?v (n @ ''.kommo.com'') port = Inr out"
    using host(1) h(2,3) path_ne out urlunparse_https[OF _ pp(1), of netloc "su_query u"] net
    by (auto simp: check_return_host_def netloc_def[symmetric])
  moreover have "out \<noteq> []" using out by simp
  ultimately have "validate_return_url out sub = Inr out"
    using v n(2) host(2,3) po p(4) unfolding validate_return_url_def by auto
  then show ?thesis using n(2) u v net h(1) by (auto simp: path_def)
qed

theorem return_url_canonical_witness:
  "validate_return_url ''HTTPS://Ab.kommo.com.:443/x;a?t#f'' ''ab'' = Inr ''https://ab.kommo.com:443/x?t''
   \<and> validate_return_url ''https://ab.kommo.com:443/x?t'' ''ab'' = Inr ''https://ab.kommo.com:443/x?t''"
proof -
  let ?u = "\<lparr>su_scheme = ''https'', su_netloc = ''Ab.kommo.com.:443'', su_path = ''/x'', su_params = ''a'', su_query = ''t'', su_fragment = ''f''\<rparr>"
  have "urlparse ''HTTPS://Ab.kommo.com.:443/x;a?t#f'' = Inr ?u" "kommo_account_hostname ''ab'' = Inr ''ab.kommo.com''"
    "url_host ?u = ''ab.kommo.com''" by code_simp+
  moreover have "snd (su_hostinfo ?u) = ''443''" "digits_value ''443'' = 443" "list_all is_digit ''443''" by code_simp+
  then have "su_port ?u = Inr (Some 443)" by (simp add: su_port_def)
  moreover have "\<not> has_userinfo ?u" "\<not> is_ip_address ''ab.kommo.com''" by code_simp+
  ultimately have "validate_return_url ''HTTPS://Ab.kommo.com.:443/x;a?t#f'' ''ab'' = Inr ''https://ab.kommo.com:443/x?t''"
    by (simp add: validate_return_url_def check_return_host_def show_443 urlunparse_https starts_with_def)
  from this return_url_canonical[OF this] show ?thesis by blast
qed


section \<open>What a token says\<close>

text \<open>The claims the handlers of a callback rely on, with their types.\<close>

definition claims_typed :: "auth_config \<Rightarrow> (string \<times> json) list \<Rightarrow> bool" where
  "claims_typed cfg c =
     (jget c ''subdomain'' = JVal (PStr (py_lower (py_strip (ac_subdomain cfg))))
      \<and> jget c ''client_uid'' = JVal (PStr (py_strip (ac_integration cfg))) \<and> jget c ''client_uuid'' = jget c ''client_uid''
      \<and> (case jget c ''account_id'' of JVal (PInt n) \<Rightarrow> 0 < n | _ \<Rightarrow> False)
      \<and> (case jget c ''entity_id'' of JVal (PStr t) \<Rightarrow> (case parse_int t of Some n \<Rightarrow> 0 < n | None \<Rightarrow> False) | _ \<Rightarrow> False)
      \<and> jget c ''entity_type'' \<in> {JVal (PStr ''leads''), JVal (PStr ''contacts'')})"

definition rewritten_claims :: "string list" where
  "rewritten_claims = [''subdomain'', ''client_uid'', ''client_uuid'', ''account_id'', ''entity_id'', ''entity_type'']"

lemma positive_int_claim_pos: "positive_int_claim c k = Inr n \<Longrightarrow> 0 < n"
  by (auto simp: positive_int_claim_def auth_fail_def Let_def split: json.splits sum.splits if_splits)

lemma normalize_entity_type_range: "normalize_entity_type v = Inr k \<Longrightarrow> k \<in> {''leads'', ''contacts''}"
  by (auto simp: normalize_entity_type_def auth_fail_def Let_def split: if_splits)


lemma digit_char: "d < 10 \<Longrightarrow> is_digit (char_of (48 + d)) \<and> digit_val (char_of (48 + d)) = d"
  by (simp add: is_digit_def digit_val_def)

lemma show_nat_ne: "show_nat n \<noteq> []"
  by (subst show_nat.simps) simp

lemma show_nat_digits: "list_all is_digit (show_nat n)"
proof (induction n rule: show_nat.induct)
  case (1 n)
  then show ?case using digit_char[of n] digit_char[of "n mod 10"] by (subst show_nat.simps) simp
qed

lemma parse_show_nat: "parse_digits acc p (show_nat n @ r) = parse_digits (acc * 10 ^ length (show_nat n) + n) True r"
proof (induction n arbitrary: acc p r rule: show_nat.induct)
  case (1 n)
  show ?case
  proof (cases "n < 10")
    case True
    then have "show_nat n = [char_of (48 + n)]" by (subst show_nat.simps) simp
    then show ?thesis using digit_char[OF True] by (simp add: mult.commute)
  next
    case False
    then have e: "show_nat n = show_nat (n div 10) @ [char_of (48 + n mod 10)]" by (subst show_nat.simps) simp
    have "parse_digits acc p (show_nat n @ r) = parse_digits (acc * 10 ^ length (show_nat (n div 10)) + n div 10) True (char_of (48 + n mod 10) # r)"
      using 1[OF False] unfolding e by simp
    also have "\<dots> = parse_digits (10 * (acc * 10 ^ length (show_nat (n div 10)) + n div 10) + n mod 10) True r"
      using digit_char[of "n mod 10"] by simp
    finally show ?thesis unfolding e by (simp add: algebra_simps)
  qed
qed

lemma digit_not: "is_digit c \<Longrightarrow> \<not> py_space c \<and> c \<noteq> CHR ''-'' \<and> c \<noteq> CHR ''+''"
  by (auto simp: is_digit_def py_space_def Let_def)

lemma dropWhile_not: "(\<And>x. x \<in> set xs \<Longrightarrow> \<not> P x) \<Longrightarrow> dropWhile P xs = xs"
  by (cases xs) auto

lemma strip_digits: "list_all is_digit s \<Longrightarrow> py_strip s = s"
proof -
  assume "list_all is_digit s"
  then have n: "\<not> py_space c" if "c \<in> set s" for c using that digit_not by (auto simp: list_all_iff)
  have "dropWhile py_space s = s" "dropWhile py_space (rev s) = rev s" using n by (auto intro: dropWhile_not)
  then show "py_strip s = s" by (simp add: py_strip_def py_lstrip_def)
qed

lemma space_lower: "py_space (lower_char c) = py_space c"
  by (auto simp: py_space_def lower_char_def Let_def)

lemma lower_lower: "lower_char (lower_char c) = lower_char c"
  by (auto simp: lower_char_def Let_def)

lemma dropWhile_lower: "dropWhile py_space (map lower_char s) = map lower_char (dropWhile py_space s)"
  by (induction s) (simp_all add: space_lower)

lemma strip_lower: "py_strip (py_lower s) = py_lower (py_strip s)"
  by (simp add: py_strip_def py_lstrip_def py_lower_def dropWhile_lower rev_map)

lemma lower_strip_again: "py_lower (py_strip (py_lower (py_strip s))) = py_lower (py_strip s)"
  by (simp add: strip_lower) (simp add: py_lower_def lower_lower o_def)

lemma parse_show_int: "0 \<le> n \<Longrightarrow> parse_int (show_int n) = Some n"
proof -
  assume n: "0 \<le> n"
  obtain c cs where s: "show_nat (nat n) = c # cs" using show_nat_ne by (metis list.exhaust)
  have "is_digit c" using show_nat_digits[of "nat n"] s by simp
  then show ?thesis using n s digit_not[of c] strip_digits[OF show_nat_digits, of "nat n"] parse_show_nat[of 0 False "nat n" "[]"]
    by (simp add: parse_int_def show_int_def)
qed

text \<open>C22. A token that is accepted was checked by the token library with the secret and the issuer of the
  configured account, and its claims then have the types the rest of the program relies on: the configured
  subdomain and integration, positive account and entity numbers, and a kind that is a lead or a contact;
  every other claim is as it was signed.\<close>

theorem salesbot_claims_typed:
  assumes "validate_salesbot_jwt lib cfg token = Inr c"
  shows "claims_typed cfg c \<and> (\<exists>host raw. kommo_account_hostname (ac_subdomain cfg) = Inr host
     \<and> jl_decode lib token (ac_secret cfg) (''https://'' @ host) = Inr raw
     \<and> (\<forall>k. k \<notin> set rewritten_claims \<longrightarrow> jget c k = jget raw k))"
proof -
  obtain host raw where d: "kommo_account_hostname (py_lower (py_strip (ac_subdomain cfg))) = Inr host"
    "jl_decode lib token (ac_secret cfg) (''https://'' @ host) = Inr raw"
    "complete_claims cfg (py_lower (py_strip (ac_subdomain cfg))) raw = Inr c"
    using assms by (auto simp: validate_salesbot_jwt_def auth_fail_def Let_def split: if_splits sum.splits)
  have "py_lower (py_strip (py_lower (py_strip (ac_subdomain cfg)))) = py_lower (py_strip (ac_subdomain cfg))"
    by (rule lower_strip_again)
  then have host: "kommo_account_hostname (ac_subdomain cfg) = Inr host" using d(1) by (simp add: kommo_account_hostname_def Let_def)
  define sub where "sub = py_lower (py_strip (ac_subdomain cfg))"
  define client where "client = py_strip (ac_integration cfg)"
  define c1 where "c1 = AList.update ''client_uuid'' (JVal (PStr client)) (AList.update ''client_uid'' (JVal (PStr client)) raw)"
  obtain n m k v where nmk: "positive_int_claim c1 ''account_id'' = Inr n"
    "positive_int_claim (AList.update ''account_id'' (JVal (PInt n)) c1) ''entity_id'' = Inr m" "normalize_entity_type v = Inr k"
    "c = AList.update ''subdomain'' (JVal (PStr sub)) (AList.update ''entity_type'' (JVal (PStr k))
       (AList.update ''entity_id'' (JVal (PStr (show_int m))) (AList.update ''account_id'' (JVal (PInt n)) c1)))"
    using d(3) unfolding c1_def sub_def client_def
    by (auto simp: complete_claims_def auth_fail_def Let_def split: if_splits sum.splits)
  have pos: "0 < n" "0 < m" using nmk(1,2) positive_int_claim_pos by blast+
  have "claims_typed cfg c" using pos normalize_entity_type_range[OF nmk(3)] parse_show_int[of m]
    unfolding claims_typed_def nmk(4) c1_def sub_def[symmetric] client_def[symmetric] by (auto simp: jget_update)
  moreover have "\<forall>k. k \<notin> set rewritten_claims \<longrightarrow> jget c k = jget raw k"
    unfolding nmk(4) c1_def by (simp add: jget_update rewritten_claims_def)
  ultimately show ?thesis using host d(2) by blast
qed

definition sample_lib :: jwt_library where
  "sample_lib = \<lparr>jl_header = \<lambda>_. Inr [(''alg'', JVal (PStr ''HS256''))],
     jl_decode = \<lambda>t secret issuer. if secret = ''key'' \<and> issuer = ''https://shop.kommo.com''
       then Inr [(''subdomain'', JVal (PStr ''Shop'')), (''client_uuid'', JVal (PStr ''app-1'')), (''account_id'', JVal (PStr ''7'')),
                 (''entity_id'', JVal (PInt 42)), (''entity_type'', JVal (PInt 2)), (''iat'', JVal (PInt 10))]
       else Inl JWT_Signature\<rparr>"

definition sample_auth :: auth_config where
  "sample_auth = \<lparr>ac_subdomain = '' shop'', ac_secret = ''key'', ac_integration = ''app-1''\<rparr>"

theorem salesbot_claims_typed_witness:
  "\<exists>c. validate_salesbot_jwt sample_lib sample_auth ''t'' = Inr c \<and> claims_typed sample_auth c
     \<and> jget c ''entity_type'' = JVal (PStr ''leads'')"
proof -
  have "case validate_salesbot_jwt sample_lib sample_auth ''t'' of Inr c \<Rightarrow> jget c ''entity_type'' = JVal (PStr ''leads'') | _ \<Rightarrow> False"
    by code_simp
  then obtain c where c: "validate_salesbot_jwt sample_lib sample_auth ''t'' = Inr c" "jget c ''entity_type'' = JVal (PStr ''leads'')"
    by (auto split: sum.splits)
  show ?thesis using c salesbot_claims_typed[OF c(1)] by blast
qed

end
