(* ===== verification/Kommo_Client.thy ===== *)
theory Kommo_Client
  imports Kommo_Auth Kommo_Jobs Broadcast
begin

text \<open>
  The client of the Kommo service (\<open>integrations/kommo/client.py\<close>): one request with its retries and the
  distance in time between requests, and the calls built on it. The service is an argument: how long a
  request takes and what it answers, given the requests made before. Requests are logged in order.
\<close>

section \<open>Requests and answers\<close>

record http_request =
  rq_method :: string
  rq_url :: string
  rq_json :: "json option"

text \<open>The status, the body as text and, where it is JSON, as a value, the content type and the header
  \<open>retry-after\<close>.\<close>

record http_response =
  hr_status :: int
  hr_text :: string
  hr_json :: "json option"
  hr_type :: string
  hr_retry :: "string option"

text \<open>An exchange as it was logged: when, what, and the status answered, if any answer came.\<close>

record exchange =
  xg_time :: rat
  xg_request :: http_request
  xg_status :: "int option"

record client_env =
  cl_answer :: "exchange list \<Rightarrow> http_request \<Rightarrow> rat \<times> (string + http_response)"
  cl_retry_date :: "rat \<Rightarrow> string \<Rightarrow> rat option"
  cl_subdomain :: string
  cl_base :: string

record client_state =
  ck_now :: rat
  ck_next :: rat
  ck_drive :: "string option"
  ck_log :: "exchange list"

text \<open>A \<open>KommoAPIError\<close>, or an exception the client lets through.\<close>

datatype client_error = CE_API api_error | CE_Raised py_exc

definition api_fail :: "string \<Rightarrow> client_error + 'a" where
  "api_fail m = Inl (CE_API (API_Error m None))"

section \<open>Error texts\<close>

text \<open>The messages of a request, which an error text must not repeat.\<close>

fun request_messages :: "json \<Rightarrow> string list" and request_messages_in :: "(string \<times> json) list \<Rightarrow> string list" where
  "request_messages (JVal v) = []"
| "request_messages (JList xs _) = concat (map request_messages xs)"
| "request_messages (JObj d _) = request_messages_in d"
| "request_messages_in [] = []"
| "request_messages_in ((k, v) # d) =
     (case v of JVal (PStr s) \<Rightarrow> if py_lower k = ''message'' \<and> s \<noteq> [] then [s] else [] | _ \<Rightarrow> request_messages v)
     @ request_messages_in d"

definition sanitize_error_text :: "string \<Rightarrow> json option \<Rightarrow> string" where
  "sanitize_error_text raw payload =
     (let t0 = py_strip (sub_runs py_space '' '' raw);
          t1 = foldl (\<lambda>t m. replace_all m ''[message redacted]'' t) t0 (case payload of None \<Rightarrow> [] | Some p \<Rightarrow> request_messages p);
          t = redact_urls False t1 in
      if list_ex (\<lambda>m. str_contains (py_lower m) (py_lower t)) redacted_markers
      then ''Kommo API error (details redacted)'' else take 500 t)"

definition safe_error_fields :: "string list" where
  "safe_error_fields = [''detail'', ''error'', ''title'', ''hint'', ''status'']"

definition safe_response_detail :: "http_response \<Rightarrow> json option \<Rightarrow> string" where
  "safe_response_detail r payload =
     (case (if str_contains ''json'' (py_lower (hr_type r)) then hr_json r else None) of
        Some (JObj d _) \<Rightarrow>
          sanitize_error_text (join_with ''; '' (dedupe (concat (map (\<lambda>f. case jget d f of
               JVal PNone \<Rightarrow> [] | JVal v \<Rightarrow> [py_str v] | _ \<Rightarrow> []) safe_error_fields)))) payload
      | _ \<Rightarrow> sanitize_error_text (hr_text r) payload)"

section \<open>One request\<close>

definition min_interval :: rat where
  "min_interval = 35 / 100"

definition max_retry_after :: rat where
  "max_retry_after = 60"

definition transient_statuses :: "int list" where
  "transient_statuses = [429, 500, 502, 503, 504]"

text \<open>Seconds, or a date of the header; \<open>retry_date\<close> reads the date as a distance from now.\<close>

definition retry_after_seconds :: "(string \<Rightarrow> rat option) \<Rightarrow> string option \<Rightarrow> rat option" where
  "retry_after_seconds retry_date value =
     (let t = py_strip (opt_str value) in
      if opt_str value = [] then None
      else map_option (\<lambda>d. max 0 (min d max_retry_after))
             (case parse_float t of Some d \<Rightarrow> Some d | None \<Rightarrow> retry_date t))"

definition wait_for_rate_limit :: "client_state \<Rightarrow> client_state" where
  "wait_for_rate_limit s = (let t = max (ck_now s) (ck_next s) in s\<lparr>ck_now := t, ck_next := t + min_interval\<rparr>)"

definition defer_requests :: "rat \<Rightarrow> client_state \<Rightarrow> client_state" where
  "defer_requests d s = s\<lparr>ck_next := max (ck_next s) (ck_now s + d)\<rparr>"

definition send_request :: "client_env \<Rightarrow> http_request \<Rightarrow> client_state \<Rightarrow> (string + http_response) \<times> client_state" where
  "send_request env r s0 =
     (let s = wait_for_rate_limit s0 in
      case cl_answer env (ck_log s) r of (d, a) \<Rightarrow>
        (a, s\<lparr>ck_now := ck_now s + max 0 d,
              ck_log := ck_log s @ [\<lparr>xg_time = ck_now s, xg_request = r,
                 xg_status = (case a of Inl _ \<Rightarrow> None | Inr h \<Rightarrow> Some (hr_status h))\<rparr>]\<rparr>))"

definition response_value :: "http_response \<Rightarrow> client_error + json" where
  "response_value h =
     (if hr_text h = [] then Inr (JVal PNone)
      else if str_contains ''json'' (hr_type h)
      then (case hr_json h of None \<Rightarrow> Inl (CE_Raised (ValueError ''invalid JSON'')) | Some v \<Rightarrow> Inr v)
      else Inr (JVal (PStr (hr_text h))))"

definition http_failure :: "http_response \<Rightarrow> json option \<Rightarrow> client_error + 'a" where
  "http_failure h payload =
     (let m = ''Kommo API returned HTTP '' @ show_int (hr_status h); d = safe_response_detail h payload in
      Inl (CE_API (API_Error (if d = [] then m else m @ '': '' @ d) (Some (hr_status h)))))"

text \<open>\<open>n\<close> counts the attempts left after this one, \<open>k\<close> the ones before it.\<close>

fun attempts_from ::
    "nat \<Rightarrow> nat \<Rightarrow> client_env \<Rightarrow> http_request \<Rightarrow> bool \<Rightarrow> int list \<Rightarrow> client_state \<Rightarrow> (client_error + json) \<times> client_state" where
  "attempts_from n k env r idempotent expected s0 =
     (case send_request env r s0 of
        (Inl e, s) \<Rightarrow>
          (case n of
             Suc m \<Rightarrow> if idempotent then attempts_from m (k + 1) env r idempotent expected (s\<lparr>ck_now := ck_now s + 1 / 2\<rparr>)
                      else (api_fail (sanitize_kommo_error e), s)
           | 0 \<Rightarrow> (api_fail (sanitize_kommo_error e), s))
      | (Inr h, s) \<Rightarrow>
          if hr_status h \<in> set expected then (response_value h, s)
          else (case n of
                  Suc m \<Rightarrow>
                    if hr_status h = 429 \<or> (idempotent \<and> hr_status h \<in> set transient_statuses)
                    then attempts_from m (k + 1) env r idempotent expected
                           (defer_requests (case retry_after_seconds (cl_retry_date env (ck_now s)) (hr_retry h) of
                                              Some d \<Rightarrow> d | None \<Rightarrow> of_nat (k + 1) / 2) s)
                    else (http_failure h (rq_json r), s)
                | 0 \<Rightarrow> (http_failure h (rq_json r), s)))"

declare attempts_from.simps [simp del]

definition absolute_url :: "client_env \<Rightarrow> string \<Rightarrow> string" where
  "absolute_url env path = (if starts_with ''https://'' path then path else cl_base env @ path)"

definition request ::
    "client_env \<Rightarrow> string \<Rightarrow> string \<Rightarrow> json option \<Rightarrow> bool \<Rightarrow> int list \<Rightarrow> client_state \<Rightarrow> (client_error + json) \<times> client_state" where
  "request env method path payload idempotent expected =
     attempts_from (if idempotent then 2 else 1) 0 env
       \<lparr>rq_method = method, rq_url = absolute_url env path, rq_json = payload\<rparr> idempotent expected"

definition default_statuses :: "int list" where
  "default_statuses = [200, 202, 204]"

text \<open>The client of an account, with its base address.\<close>

definition kommo_client ::
    "(exchange list \<Rightarrow> http_request \<Rightarrow> rat \<times> (string + http_response)) \<Rightarrow> (rat \<Rightarrow> string \<Rightarrow> rat option) \<Rightarrow> string \<Rightarrow> auth_error + client_env" where
  "kommo_client answers retry_date subdomain =
     (let sub = py_lower (py_strip subdomain) in
      case kommo_account_hostname sub of
        Inl e \<Rightarrow> Inl e
      | Inr host \<Rightarrow> Inr \<lparr>cl_answer = answers, cl_retry_date = retry_date, cl_subdomain = sub, cl_base = ''https://'' @ host\<rparr>)"


section \<open>The calls\<close>

type_synonym 'a client_call = "client_state \<Rightarrow> (client_error + 'a) \<times> client_state"

definition obj :: "(string \<times> json) list \<Rightarrow> json" where
  "obj d = JObj d []"

text \<open>\<open>int(value)\<close> of an identifier in a path; an error passes through.\<close>

definition path_id :: "string \<Rightarrow> client_error + string" where
  "path_id v = (case parse_int v of None \<Rightarrow> Inl (CE_Raised (ValueError ''invalid literal for int()'')) | Some n \<Rightarrow> Inr (show_int n))"

definition drive_url_ok :: "string \<Rightarrow> bool" where
  "drive_url_ok url =
     (case urlparse url of
        Inl _ \<Rightarrow> False
      | Inr u \<Rightarrow>
          (case su_port u of
             Inl _ \<Rightarrow> False
           | Inr port \<Rightarrow> su_scheme u = ''https'' \<and> \<not> has_userinfo u \<and> port \<in> {None, Some 443}
               \<and> ends_with ''.kommo.com'' (url_host u) \<and> su_path u \<in> {[], ''/''} \<and> su_query u = [] \<and> su_fragment u = []))"

definition get_drive_url :: "client_env \<Rightarrow> string client_call" where
  "get_drive_url env s =
     (if opt_str (ck_drive s) \<noteq> [] then (Inr (opt_str (ck_drive s)), s)
      else (case request env ''GET'' ''/api/v4/account?with=drive_url'' None True default_statuses s of
              (Inl e, s1) \<Rightarrow> (Inl e, s1)
            | (Inr account, s1) \<Rightarrow>
                (case (case account of JObj d _ \<Rightarrow> jget d ''drive_url'' | _ \<Rightarrow> JVal PNone) of
                   JVal (PStr v) \<Rightarrow>
                     (let url = rstrip_chars ''/'' (py_strip v) in
                      if drive_url_ok url then (Inr url, s1\<lparr>ck_drive := Some url\<rparr>)
                      else (api_fail ''Kommo account returned an invalid drive_url'', s1))
                 | _ \<Rightarrow> (api_fail ''Kommo account response is missing drive_url'', s1))))"

text \<open>An attachment is the type and the two identifiers of a file in the drive.\<close>

record talk_attachment =
  ta_type :: string
  ta_file :: string
  ta_version :: string

definition attachment_payload :: "talk_attachment \<Rightarrow> client_error + json" where
  "attachment_payload a =
     (if ta_type a \<notin> {''file'', ''video'', ''picture''} then api_fail ''Kommo attachment type is invalid''
      else if \<not> is_uuid (py_strip (ta_file a)) then api_fail ''Kommo attachment file UUID is invalid''
      else if \<not> is_uuid (py_strip (ta_version a)) then api_fail ''Kommo attachment version UUID is invalid''
      else Inr (obj [(''drive_uuid'', JVal (PStr (py_strip (ta_file a)))), (''drive_version_uuid'', JVal (PStr (py_strip (ta_version a)))),
                     (''type'', JVal (PStr (ta_type a)))]))"

definition talk_payload :: "string option \<Rightarrow> talk_attachment option \<Rightarrow> client_error + (string \<times> json) list" where
  "talk_payload body attachment =
     (let t = (if py_strip (opt_str body) = [] then [] else [(''text'', JVal (PStr (py_strip (opt_str body))))]) in
      case attachment of
        None \<Rightarrow> Inr t
      | Some a \<Rightarrow> (case attachment_payload a of Inl e \<Rightarrow> Inl e | Inr p \<Rightarrow> Inr (t @ [(''attachment'', p)])))"

definition talk_number :: "string \<Rightarrow> string \<Rightarrow> client_error + int" where
  "talk_number message talk =
     (case parse_int (py_strip talk) of None \<Rightarrow> api_fail message | Some n \<Rightarrow> if n \<le> 0 then api_fail message else Inr n)"

definition send_talk_message :: "client_env \<Rightarrow> string \<Rightarrow> string option \<Rightarrow> talk_attachment option \<Rightarrow> json client_call" where
  "send_talk_message env talk body attachment s =
     (case talk_number ''Kommo talk ID is invalid'' talk of
        Inl e \<Rightarrow> (Inl e, s)
      | Inr n \<Rightarrow>
         (case talk_payload body attachment of
            Inl e \<Rightarrow> (Inl e, s)
          | Inr p \<Rightarrow>
              if p = [] then (api_fail ''Kommo talk message requires text or an attachment'', s)
              else (case request env ''POST'' (''/api/v4/talks/'' @ show_int n @ ''/send_message'') (Some (obj p)) False [202] s of
                      (Inl e, s1) \<Rightarrow> (Inl e, s1)
                    | (Inr response, s1) \<Rightarrow>
                        (case response of
                           JObj d _ \<Rightarrow>
                             (case jget d ''id'' of
                                JVal (PStr i) \<Rightarrow> if py_strip i = [] then (api_fail ''Kommo send-message response is missing the message ID'', s1)
                                                 else (Inr response, s1)
                              | _ \<Rightarrow> (api_fail ''Kommo send-message response is missing the message ID'', s1))
                         | _ \<Rightarrow> (api_fail ''Kommo send-message response is invalid'', s1)))))"

definition find_delivery_status :: "string \<Rightarrow> json list \<Rightarrow> string option" where
  "find_delivery_status mid messages =
     (case filter (\<lambda>m. case m of JObj d _ \<Rightarrow> j_str_or_empty (jget d ''id'') = mid | _ \<Rightarrow> False) messages of
        JObj d _ # _ \<Rightarrow> (let t = py_lower (py_strip (j_str_or_empty (jget d ''delivery_status''))) in if t = [] then None else Some t)
      | _ \<Rightarrow> None)"

definition get_talk_message_delivery_status :: "client_env \<Rightarrow> string \<Rightarrow> string \<Rightarrow> string option client_call" where
  "get_talk_message_delivery_status env talk mid s =
     (let bad = ''Kommo delivery status identifiers are invalid'' in
      case talk_number bad talk of
        Inl e \<Rightarrow> (Inl e, s)
      | Inr n \<Rightarrow>
          if py_strip mid = [] then (api_fail bad, s)
          else (case request env ''GET'' (''/api/v4/talks/'' @ show_int n @ ''/messages?limit=250'') None True default_statuses s of
                  (Inl e, s1) \<Rightarrow> (Inl e, s1)
                | (Inr response, s1) \<Rightarrow>
                    (Inr (case (case response of JObj d _ \<Rightarrow> jget d ''_embedded'' | _ \<Rightarrow> JVal PNone) of
                            JObj d _ \<Rightarrow> (case jget d ''messages'' of JList ms _ \<Rightarrow> find_delivery_status (py_strip mid) ms | _ \<Rightarrow> None)
                          | _ \<Rightarrow> None), s1)))"

definition run_bot :: "client_env \<Rightarrow> string \<Rightarrow> string \<Rightarrow> int \<Rightarrow> unit client_call" where
  "run_bot env entity kind salesbot s =
     (if salesbot \<le> 0 then (api_fail ''Kommo Salesbot ID is invalid'', s)
      else (case parse_int entity of
              None \<Rightarrow> (Inl (CE_Raised (ValueError ''invalid literal for int()'')), s)
            | Some n \<Rightarrow>
                (case request env ''POST'' (''/api/v4/bots/'' @ show_int salesbot @ ''/run'')
                        (Some (obj [(''entity_id'', JVal (PInt n)), (''entity_type'', JVal (PStr kind))])) False [202] s of
                   (Inl e, s1) \<Rightarrow> (Inl e, s1) | (Inr _, s1) \<Rightarrow> (Inr (), s1))))"

definition get_by_id :: "client_env \<Rightarrow> string \<Rightarrow> string \<Rightarrow> json client_call" where
  "get_by_id env path v s =
     (case path_id v of Inl e \<Rightarrow> (Inl e, s) | Inr n \<Rightarrow> request env ''GET'' (path @ n) None True default_statuses s)"

definition get_lead :: "client_env \<Rightarrow> string \<Rightarrow> json client_call" where
  "get_lead env = get_by_id env ''/api/v4/leads/''"

definition get_contact :: "client_env \<Rightarrow> string \<Rightarrow> json client_call" where
  "get_contact env = get_by_id env ''/api/v4/contacts/''"

definition get_user :: "client_env \<Rightarrow> string \<Rightarrow> json client_call" where
  "get_user env = get_by_id env ''/api/v4/users/''"

definition get_lead_custom_field :: "client_env \<Rightarrow> string \<Rightarrow> json client_call" where
  "get_lead_custom_field env = get_by_id env ''/api/v4/leads/custom_fields/''"

definition write_lead :: "client_env \<Rightarrow> string \<Rightarrow> string \<Rightarrow> string \<Rightarrow> string \<Rightarrow> (string \<times> json) list \<Rightarrow> unit client_call" where
  "write_lead env method path key lead cols s =
     (case parse_int lead of
        None \<Rightarrow> (Inl (CE_Raised (ValueError ''invalid literal for int()'')), s)
      | Some n \<Rightarrow>
          (case request env method path (Some (JList [obj ((key, JVal (PInt n)) # cols)] [])) False default_statuses s of
             (Inl e, s1) \<Rightarrow> (Inl e, s1) | (Inr _, s1) \<Rightarrow> (Inr (), s1)))"

definition update_ai_mode :: "client_env \<Rightarrow> int \<Rightarrow> string \<Rightarrow> int \<Rightarrow> unit client_call" where
  "update_ai_mode env field lead enum = write_lead env ''PATCH'' ''/api/v4/leads'' ''id'' lead
     [(''custom_fields_values'', JList [obj [(''field_id'', JVal (PInt field)),
         (''values'', JList [obj [(''enum_id'', JVal (PInt enum))]] [])]] [])]"

definition add_note :: "client_env \<Rightarrow> string \<Rightarrow> string \<Rightarrow> unit client_call" where
  "add_note env lead body = write_lead env ''POST'' ''/api/v4/leads/notes'' ''entity_id'' lead
     [(''note_type'', JVal (PStr ''common'')), (''params'', obj [(''text'', JVal (PStr (take 2000 body)))])]"

definition add_tags :: "client_env \<Rightarrow> string \<Rightarrow> string list \<Rightarrow> unit client_call" where
  "add_tags env lead tags s =
     (let clean = filter (\<lambda>t. t \<noteq> []) (map py_strip tags) in
      if clean = [] then (Inr (), s)
      else write_lead env ''PATCH'' ''/api/v4/leads'' ''id'' lead
             [(''_embedded'', obj [(''tags'', JList (map (\<lambda>t. obj [(''name'', JVal (PStr t))]) clean) [])])] s)"

definition change_responsible_user :: "client_env \<Rightarrow> string \<Rightarrow> string \<Rightarrow> unit client_call" where
  "change_responsible_user env lead user s =
     (case parse_int user of
        None \<Rightarrow> (Inl (CE_Raised (ValueError ''invalid literal for int()'')), s)
      | Some u \<Rightarrow> write_lead env ''PATCH'' ''/api/v4/leads'' ''id'' lead [(''responsible_user_id'', JVal (PInt u))] s)"

definition post_continuation :: "client_env \<Rightarrow> string \<Rightarrow> string \<Rightarrow> json \<Rightarrow> json client_call" where
  "post_continuation env subdomain return_url data s =
     (case validate_return_url return_url subdomain of
        Inl (Auth_Error m _) \<Rightarrow> (Inl (CE_Raised (ValueError m)), s)
      | Inl (Auth_Raised e) \<Rightarrow> (Inl (CE_Raised e), s)
      | Inr url \<Rightarrow> request env ''POST'' url (Some (obj [(''data'', data)])) False [202] s)"


section \<open>How often a request goes out\<close>

text \<open>Why the next attempt was allowed to follow.\<close>

definition repeatable :: "bool \<Rightarrow> exchange \<Rightarrow> bool" where
  "repeatable idempotent x =
     (case xg_status x of None \<Rightarrow> idempotent | Some st \<Rightarrow> st = 429 \<or> (idempotent \<and> st \<in> set transient_statuses))"

lemma send_request_log:
  "ck_log (snd (send_request env r s)) = ck_log s @ [\<lparr>xg_time = max (ck_now s) (ck_next s), xg_request = r,
     xg_status = (case fst (send_request env r s) of Inl _ \<Rightarrow> None | Inr h \<Rightarrow> Some (hr_status h))\<rparr>]"
  by (simp add: send_request_def wait_for_rate_limit_def Let_def split: prod.split)

lemma attempts_log:
  assumes "attempts_from n k env r i ex s = (res, s')"
  shows "\<exists>new. ck_log s' = ck_log s @ new \<and> new \<noteq> [] \<and> length new \<le> n + 1
    \<and> (\<forall>x \<in> set new. xg_request x = r) \<and> (\<forall>x \<in> set (butlast new). repeatable i x)
    \<and> (\<forall>v. res = Inr v \<longrightarrow> (case xg_status (last new) of Some st \<Rightarrow> st \<in> set ex | None \<Rightarrow> False))"
  using assms
proof (induction n arbitrary: k s)
  case 0
  obtain a s1 where a: "send_request env r s = (a, s1)" by fastforce
  define x where "x = \<lparr>xg_time = max (ck_now s) (ck_next s), xg_request = r, xg_status = (case a of Inl _ \<Rightarrow> None | Inr h \<Rightarrow> Some (hr_status h))\<rparr>"
  have "ck_log s1 = ck_log s @ [x]" using send_request_log[of env r s] a by (simp add: x_def)
  moreover have "s' = s1" using 0 a by (auto simp: attempts_from.simps split: sum.splits if_splits)
  moreover have "\<forall>v. res = Inr v \<longrightarrow> (case xg_status x of Some st \<Rightarrow> st \<in> set ex | None \<Rightarrow> False)"
    using 0 a by (auto simp: attempts_from.simps x_def api_fail_def http_failure_def Let_def split: sum.splits if_splits)
  ultimately show ?case by (intro exI[of _ "[x]"]) (simp add: x_def)
next
  case (Suc m)
  obtain a s1 where a: "send_request env r s = (a, s1)" by fastforce
  define x where "x = \<lparr>xg_time = max (ck_now s) (ck_next s), xg_request = r, xg_status = (case a of Inl _ \<Rightarrow> None | Inr h \<Rightarrow> Some (hr_status h))\<rparr>"
  have x: "ck_log s1 = ck_log s @ [x]" using send_request_log[of env r s] a by (simp add: x_def)
  show ?case
  proof (cases "\<exists>t. ck_log t = ck_log s1 \<and> attempts_from m (k + 1) env r i ex t = (res, s') \<and> repeatable i x")
    case True
    then obtain t where t: "ck_log t = ck_log s1" "attempts_from m (k + 1) env r i ex t = (res, s')" "repeatable i x" by blast
    obtain new where new: "ck_log s' = ck_log t @ new" "new \<noteq> []" "length new \<le> m + 1" "\<forall>y \<in> set new. xg_request y = r"
      "\<forall>y \<in> set (butlast new). repeatable i y"
      "\<forall>v. res = Inr v \<longrightarrow> (case xg_status (last new) of Some st \<Rightarrow> st \<in> set ex | None \<Rightarrow> False)"
      using Suc.IH[OF t(2)] by blast
    have "xg_request x = r" by (simp add: x_def)
    then show ?thesis using new t(1,3) x by (intro exI[of _ "x # new"]) auto
  next
    case False
    then have "s' = s1 \<and> (\<forall>v. res = Inr v \<longrightarrow> (case xg_status x of Some st \<Rightarrow> st \<in> set ex | None \<Rightarrow> False))"
      using Suc.prems a
      by (auto simp: attempts_from.simps[of "Suc m"] x_def repeatable_def api_fail_def http_failure_def defer_requests_def Let_def
          split: sum.splits if_splits)
    then show ?thesis using x by (intro exI[of _ "[x]"]) (simp add: x_def)
  qed
qed


section \<open>The distance between requests\<close>

fun spaced :: "exchange list \<Rightarrow> bool" where
  "spaced (x # y # r) = (xg_time x + min_interval \<le> xg_time y \<and> spaced (y # r))"
| "spaced _ = True"

definition client_ok :: "client_state \<Rightarrow> bool" where
  "client_ok s = (spaced (ck_log s) \<and> (ck_log s = [] \<or> xg_time (last (ck_log s)) + min_interval \<le> ck_next s))"

text \<open>Calls running side by side share the state; between their requests time passes.\<close>

inductive client_step :: "client_env \<Rightarrow> client_state \<Rightarrow> client_state \<Rightarrow> bool" for env where
  cs_send: "client_step env s (snd (send_request env r s))"
| cs_defer: "client_step env s (defer_requests d s)"
| cs_drive: "client_step env s (s\<lparr>ck_drive := v\<rparr>)"
| cs_time: "0 \<le> d \<Longrightarrow> client_step env s (s\<lparr>ck_now := ck_now s + d\<rparr>)"

lemma spaced_append: "spaced xs \<Longrightarrow> xs = [] \<or> xg_time (last xs) + min_interval \<le> xg_time x \<Longrightarrow> spaced (xs @ [x])"
  by (induction xs rule: spaced.induct) auto

lemma client_step_ok: "client_step env s t \<Longrightarrow> client_ok s \<Longrightarrow> client_ok t"
proof (induction rule: client_step.induct)
  case (cs_send s r)
  have "ck_next (snd (send_request env r s)) = max (ck_now s) (ck_next s) + min_interval"
    by (simp add: send_request_def wait_for_rate_limit_def Let_def split: prod.split)
  then show ?case using cs_send spaced_append unfolding client_ok_def send_request_log by fastforce
qed (auto simp: client_ok_def defer_requests_def)

definition client_init :: "client_state \<Rightarrow> bool" where
  "client_init s = (ck_log s = [])"

interpretation kommo_calls: protocol client_init "client_step env" client_ok for env
proof unfold_locales
  show "client_ok s" if "client_init s" for s using that by (simp add: client_init_def client_ok_def)
  show "client_ok t" if "client_ok s" "client_step env s t" for s t using client_step_ok[OF that(2,1)] .
qed

lemma attempts_steps: "attempts_from n k env r i ex s = (res, s') \<Longrightarrow> (client_step env)\<^sup>*\<^sup>* s s'"
proof (induction n arbitrary: k s)
  case 0
  obtain a s1 where a: "send_request env r s = (a, s1)" by fastforce
  have "s' = s1" using 0 a by (auto simp: attempts_from.simps split: sum.splits if_splits)
  then show ?case using cs_send[of env s r] a by auto
next
  case (Suc m)
  obtain a s1 where a: "send_request env r s = (a, s1)" by fastforce
  have one: "client_step env s s1" using cs_send[of env s r] a by simp
  have two: "client_step env s1 (s1\<lparr>ck_now := ck_now s1 + 1 / 2\<rparr>)" by (rule cs_time) simp
  have "s' = s1 \<or> (\<exists>t. client_step env s1 t \<and> attempts_from m (k + 1) env r i ex t = (res, s'))"
    using Suc.prems a two cs_defer
    by (auto simp: attempts_from.simps[of "Suc m"] Let_def split: sum.splits if_splits)
  then show ?case using one Suc.IH by (meson converse_rtranclp_into_rtranclp r_into_rtranclp)
qed


lemma request_steps: "request env method path payload i ex s = (res, s') \<Longrightarrow> (client_step env)\<^sup>*\<^sup>* s s'"
  unfolding request_def by (rule attempts_steps)

lemma spaced_nth: "spaced xs \<Longrightarrow> Suc i < length xs \<Longrightarrow> xg_time (xs ! i) + min_interval \<le> xg_time (xs ! Suc i)"
proof (induction xs arbitrary: i rule: spaced.induct)
  case (1 x y r)
  then show ?case by (cases i) auto
qed auto

text \<open>With any number of calls running side by side, and whatever the service answers and however long
  it takes, two requests to the account are at least 0.35 seconds apart; every request of the client, with
  its retries, is such a run.\<close>

theorem requests_spaced:
  assumes "client_init s0" "(client_step env)\<^sup>*\<^sup>* s0 s"
  shows "(\<forall>i. Suc i < length (ck_log s) \<longrightarrow> xg_time (ck_log s ! i) + min_interval \<le> xg_time (ck_log s ! Suc i))
    \<and> (\<forall>method path payload i ex res s'. request env method path payload i ex s = (res, s') \<longrightarrow> (client_step env)\<^sup>*\<^sup>* s0 s')"
proof -
  have "client_ok s0" using assms(1) by (simp add: client_init_def client_ok_def)
  then have "client_ok s" using kommo_calls.steps_inv[OF assms(2)] by blast
  then show ?thesis using spaced_nth request_steps rtranclp_trans[OF assms(2)] unfolding client_ok_def by blast
qed

definition busy_env :: client_env where
  "busy_env = \<lparr>cl_answer = (\<lambda>xs r. (1 / 10, Inr \<lparr>hr_status = (if xs = [] then 429 else 202), hr_text = ''ok'', hr_json = None,
       hr_type = ''text'', hr_retry = Some ''2''\<rparr>)), cl_retry_date = (\<lambda>_ _. None), cl_subdomain = ''ab'', cl_base = ''https://ab.kommo.com''\<rparr>"

definition idle_client :: client_state where
  "idle_client = \<lparr>ck_now = 0, ck_next = 0, ck_drive = None, ck_log = []\<rparr>"

definition two_tries :: "(client_error + json) \<times> client_state" where
  "two_tries = request busy_env ''POST'' ''/x'' None False [202] idle_client"

lemma two_tries_log: "map (\<lambda>x. (xg_time x, xg_status x)) (ck_log (snd two_tries)) = [(0, Some 429), (21 / 10, Some 202)]"
  "fst two_tries = Inr (JVal (PStr ''ok''))"
proof -
  have "parse_float ''2'' = Some 2" "py_strip ''2'' = ''2''" "str_contains ''json'' ''text'' = False" by code_simp+
  then show "map (\<lambda>x. (xg_time x, xg_status x)) (ck_log (snd two_tries)) = [(0, Some 429), (21 / 10, Some 202)]"
    "fst two_tries = Inr (JVal (PStr ''ok''))"
    by (simp_all add: two_tries_def request_def numeral_nat attempts_from.simps send_request_def wait_for_rate_limit_def busy_env_def
        idle_client_def defer_requests_def retry_after_seconds_def opt_str_def max_retry_after_def min_interval_def
        transient_statuses_def response_value_def Let_def)
qed


theorem requests_spaced_witness:
  "\<exists>s. (client_step busy_env)\<^sup>*\<^sup>* idle_client s \<and> map xg_time (ck_log s) = [0, 21 / 10]
     \<and> xg_time (ck_log s ! 0) + min_interval \<le> xg_time (ck_log s ! 1)"
proof -
  have i: "client_init idle_client" by (simp add: client_init_def idle_client_def)
  have "request busy_env ''POST'' ''/x'' None False [202] idle_client = (fst two_tries, snd two_tries)" by (simp add: two_tries_def)
  then have run: "(client_step busy_env)\<^sup>*\<^sup>* idle_client (snd two_tries)" by (rule request_steps)
  have "map fst (map (\<lambda>x. (xg_time x, xg_status x)) (ck_log (snd two_tries))) = [0, 21 / 10]" unfolding two_tries_log(1) by simp
  then have t: "map xg_time (ck_log (snd two_tries)) = [0, 21 / 10]" by (simp add: comp_def)
  then have "length (ck_log (snd two_tries)) = 2" by (metis One_nat_def Suc_1 length_Cons length_map list.size(3))
  then show ?thesis using requests_spaced[OF i run] run t by (intro exI[of _ "snd two_tries"]) simp
qed

end
