(* ===== verification/Kommo_Files.thy ===== *)
theory Kommo_Files
  imports Kommo_Client Kommo_Delivery
begin

text \<open>
  Files of the Kommo drive (\<open>integrations/kommo/files.py\<close>): images downloaded from the catalog, uploads in
  parts, and messages with an attachment. A file is the list of its bytes. The services, the resolver of host
  names, the table of public addresses, the URL check of \<open>httpx\<close>, the hash and \<open>unquote\<close> are arguments; every
  call made is logged in order.
\<close>

section \<open>Calls, answers, errors\<close>

datatype file_call =
    Call_Image string string
  | Call_JSON string json
  | Call_Get string
  | Call_Chunk string string string

text \<open>What a download answers: status, \<open>location\<close>, \<open>content-length\<close>, the type, and the body as it streams in.\<close>

record image_reply =
  ir_status :: int
  ir_location :: "string option"
  ir_length :: "string option"
  ir_type :: string
  ir_chunks :: "string list"

record files_env =
  fe_client :: client_env
  fe_enabled :: bool
  fe_pdf :: "string option"
  fe_resolve :: "string \<Rightarrow> nat \<Rightarrow> unit + string list"
  fe_public :: "string \<Rightarrow> bool"
  fe_httpx :: "string \<Rightarrow> string \<Rightarrow> bool"
  fe_image :: "file_call list \<Rightarrow> file_call \<Rightarrow> string + image_reply"
  fe_service :: "file_call list \<Rightarrow> file_call \<Rightarrow> string + http_response"
  fe_sha :: "string \<Rightarrow> string"
  fe_unquote :: "string \<Rightarrow> string"
  fe_guess :: "string \<Rightarrow> string option"

record files_state =
  fs_client :: client_state
  fs_calls :: "file_call list"

text \<open>The subclasses of \<open>KommoAPIError\<close> for media that is switched off and for documents.\<close>

datatype file_error = FE_Client client_error | FE_Disabled string | FE_PDF string

type_synonym 'a files_call = "files_state \<Rightarrow> (file_error + 'a) \<times> files_state"

definition file_fail :: "string \<Rightarrow> file_error + 'a" where
  "file_fail m = Inl (FE_Client (CE_API (API_Error m None)))"

definition on_client :: "'a client_call \<Rightarrow> 'a files_call" where
  "on_client f s = (case f (fs_client s) of
      (Inl e, c) \<Rightarrow> (Inl (FE_Client e), s\<lparr>fs_client := c\<rparr>)
    | (Inr x, c) \<Rightarrow> (Inr x, s\<lparr>fs_client := c\<rparr>))"

definition log_call :: "file_call \<Rightarrow> files_state \<Rightarrow> files_state" where
  "log_call c s = s\<lparr>fs_calls := fs_calls s @ [c]\<rparr>"

section \<open>Checks\<close>

definition image_mime_types :: "string list" where
  "image_mime_types = [''image/jpeg'', ''image/png'', ''image/webp'']"

definition supported_mime_types :: "string list" where
  "supported_mime_types = image_mime_types @ [''application/pdf'']"

definition validate_file_name :: "string \<Rightarrow> file_error + string" where
  "validate_file_name name =
     (let n = path_name (py_strip name) in
      if n = [] \<or> n \<in> {''.'', ''..''} \<or> 255 < length n then file_fail ''Kommo upload file name is invalid'' else Inr n)"

definition main_type :: "string \<Rightarrow> string" where
  "main_type v = py_lower (py_strip (before (CHR '';'') v))"

definition validate_mime_type :: "string \<Rightarrow> file_error + string" where
  "validate_mime_type m =
     (if main_type m \<in> set supported_mime_types then Inr (main_type m) else file_fail ''Kommo upload MIME type is unsupported'')"

definition detect_image_mime :: "string \<Rightarrow> string option" where
  "detect_image_mime d =
     (if starts_with [CHR 0xFF, CHR 0xD8, CHR 0xFF] d then Some ''image/jpeg''
      else if starts_with [CHR 0x89, CHR ''P'', CHR ''N'', CHR ''G'', CHR 0x0D, CHR 0x0A, CHR 0x1A, CHR 0x0A] d then Some ''image/png''
      else if 12 \<le> length d \<and> starts_with ''RIFF'' d \<and> take 4 (drop 8 d) = ''WEBP'' then Some ''image/webp''
      else None)"

definition validate_file_signature :: "string \<Rightarrow> string \<Rightarrow> file_error + unit" where
  "validate_file_signature d m =
     (if m \<in> set image_mime_types \<and> detect_image_mime d \<noteq> Some m
      then file_fail ''File content does not match its image MIME type''
      else if m = ''application/pdf'' \<and> \<not> starts_with ''%PDF-'' d then file_fail ''File content is not a PDF''
      else Inr ())"

definition same_drive :: "split_url \<Rightarrow> split_url \<Rightarrow> nat option \<Rightarrow> bool" where
  "same_drive u drive port = (su_scheme u = ''https'' \<and> su_hostname u = su_hostname drive \<and> \<not> has_userinfo u
     \<and> port \<in> {None, Some 443} \<and> su_fragment u = [])"

definition upload_url_ok :: "string \<Rightarrow> string \<Rightarrow> bool" where
  "upload_url_ok url drive_url =
     (case (urlparse url, urlparse drive_url) of
        (Inr u, Inr d) \<Rightarrow> (case su_port u of Inl _ \<Rightarrow> False | Inr port \<Rightarrow> same_drive u d port \<and> su_path u \<noteq> [])
      | _ \<Rightarrow> False)"

definition next_upload_url :: "(string \<times> json) list \<Rightarrow> string \<Rightarrow> file_error + string" where
  "next_upload_url response drive_url =
     (case jget response ''next_url'' of
        JVal (PStr u) \<Rightarrow>
          if py_strip u = [] then file_fail ''Kommo chunk response is missing next_url''
          else if \<not> upload_url_ok u drive_url then file_fail ''Kommo returned an invalid upload URL''
          else Inr (py_strip u)
      | _ \<Rightarrow> file_fail ''Kommo chunk response is missing next_url'')"

section \<open>The service\<close>

definition files_response_json :: "int \<Rightarrow> http_response \<Rightarrow> file_error + (string \<times> json) list" where
  "files_response_json expected h =
     (if hr_status h \<noteq> expected
      then (let m = ''Kommo Files API returned HTTP '' @ show_int (hr_status h) @ ''; expected HTTP '' @ show_int expected;
                d = safe_response_detail h None in
            Inl (FE_Client (CE_API (API_Error (if d = [] then m else m @ '': '' @ d) (Some (hr_status h))))))
      else (case hr_json h of
              None \<Rightarrow> file_fail ''Kommo Files API returned invalid JSON''
            | Some (JObj d _) \<Rightarrow> Inr d
            | Some _ \<Rightarrow> file_fail ''Kommo Files API returned an invalid response''))"

definition call_service :: "files_env \<Rightarrow> file_call \<Rightarrow> int \<Rightarrow> (string \<times> json) list files_call" where
  "call_service env c expected s =
     ((case fe_service env (fs_calls s) c of
         Inl e \<Rightarrow> file_fail (sanitize_kommo_error e)
       | Inr h \<Rightarrow> files_response_json expected h), log_call c s)"

definition drive_of :: "files_env \<Rightarrow> string files_call" where
  "drive_of env = on_client (get_drive_url (fe_client env))"

record upload_session =
  us_drive :: string
  us_url :: string
  us_max_file :: int
  us_max_part :: int

text \<open>\<open>isinstance(value, int)\<close> holds for truth values too.\<close>

definition int_value :: "json \<Rightarrow> int option" where
  "int_value v = (case v of JVal (PInt n) \<Rightarrow> Some n | JVal (PBool b) \<Rightarrow> Some (if b then 1 else 0) | _ \<Rightarrow> None)"

definition read_session :: "string \<Rightarrow> int \<Rightarrow> (string \<times> json) list \<Rightarrow> file_error + upload_session" where
  "read_session drive bytes response =
     (case jget response ''upload_url'' of
        JVal (PStr url) \<Rightarrow>
          if py_strip url = [] then file_fail ''Kommo upload session is missing upload_url''
          else (case int_value (jget response ''max_file_size'') of
                  None \<Rightarrow> file_fail ''Kommo upload session has an invalid max_file_size''
                | Some max_file \<Rightarrow>
                    if max_file \<le> 0 then file_fail ''Kommo upload session has an invalid max_file_size''
                    else (case int_value (jget response ''max_part_size'') of
                            None \<Rightarrow> file_fail ''Kommo upload session has an invalid max_part_size''
                          | Some max_part \<Rightarrow>
                              if max_part \<le> 0 then file_fail ''Kommo upload session has an invalid max_part_size''
                              else if max_file < bytes
                              then file_fail (''File size '' @ show_int bytes @ '' exceeds Kommo'' @ [CHR 0x27] @ ''s maximum of '' @ show_int max_file @ '' bytes'')
                              else if \<not> upload_url_ok url drive then file_fail ''Kommo returned an invalid upload URL''
                              else Inr \<lparr>us_drive = drive, us_url = py_strip url, us_max_file = max_file, us_max_part = max_part\<rparr>))
      | _ \<Rightarrow> file_fail ''Kommo upload session is missing upload_url'')"

definition media_disabled :: "file_error + 'a" where
  "media_disabled = Inl (FE_Disabled ''Kommo Chats media is disabled; set KOMMO_CHATS_MEDIA_ENABLED=true to use it'')"

definition create_upload_session :: "files_env \<Rightarrow> string \<Rightarrow> int \<Rightarrow> string \<Rightarrow> upload_session files_call" where
  "create_upload_session env name bytes mime s =
     (if \<not> fe_enabled env then (media_disabled, s)
      else case validate_file_name name of
        Inl e \<Rightarrow> (Inl e, s)
      | Inr clean_name \<Rightarrow>
         (case validate_mime_type mime of
            Inl e \<Rightarrow> (Inl e, s)
          | Inr clean_mime \<Rightarrow>
              if bytes \<le> 0 then (file_fail ''Kommo upload file size is invalid'', s)
              else (case drive_of env s of
                      (Inl e, s1) \<Rightarrow> (Inl e, s1)
                    | (Inr drive, s1) \<Rightarrow>
                       (case call_service env (Call_JSON (drive @ ''/v1.0/sessions'')
                               (obj [(''file_name'', JVal (PStr clean_name)), (''file_size'', JVal (PInt bytes)),
                                     (''content_type'', JVal (PStr clean_mime))])) 200 s1 of
                          (Inl e, s2) \<Rightarrow> (Inl e, s2)
                        | (Inr response, s2) \<Rightarrow> (read_session drive bytes response, s2)))))"

section \<open>Parts\<close>

definition post_chunk :: "files_env \<Rightarrow> string \<Rightarrow> string \<Rightarrow> string \<Rightarrow> bool \<Rightarrow> (string \<times> json) list files_call" where
  "post_chunk env url chunk mime is_final s =
     (case drive_of env s of
        (Inl e, s1) \<Rightarrow> (Inl e, s1)
      | (Inr drive, s1) \<Rightarrow>
          if \<not> upload_url_ok url drive then (file_fail ''Kommo returned an invalid upload URL'', s1)
          else (case call_service env (Call_Chunk url chunk mime) (if is_final then 200 else 202) s1 of
                  (Inl e, s2) \<Rightarrow> (Inl e, s2)
                | (Inr body, s2) \<Rightarrow>
                    if is_final then (Inr body, s2)
                    else (case next_upload_url body drive of Inl e \<Rightarrow> (Inl e, s2) | Inr _ \<Rightarrow> (Inr body, s2))))"

fun upload_from ::
    "files_env \<Rightarrow> string \<Rightarrow> string \<Rightarrow> string \<Rightarrow> string list \<Rightarrow> (string \<times> json) list \<Rightarrow> (string \<times> json) list files_call" where
  "upload_from env drive mime url [] final s = (Inr final, s)"
| "upload_from env drive mime url (c # cs) final s =
     (case post_chunk env url c mime (cs = []) s of
        (Inl e, s1) \<Rightarrow> (Inl e, s1)
      | (Inr body, s1) \<Rightarrow>
          if cs = [] then (Inr body, s1)
          else (case next_upload_url body drive of
                  Inl e \<Rightarrow> (Inl e, s1)
                | Inr next \<Rightarrow> upload_from env drive mime next cs body s1))"

definition upload_chunks :: "files_env \<Rightarrow> upload_session \<Rightarrow> string list \<Rightarrow> string \<Rightarrow> (string \<times> json) list files_call" where
  "upload_chunks env session chunks mime s =
     (case drive_of env s of
        (Inl e, s1) \<Rightarrow> (Inl e, s1)
      | (Inr drive, s1) \<Rightarrow> upload_from env drive mime (us_url session) chunks [] s1)"

function parts_of :: "nat \<Rightarrow> 'a list \<Rightarrow> 'a list list" where
  "parts_of n xs = (if n = 0 \<or> xs = [] then [] else take n xs # parts_of n (drop n xs))"
  by pat_completeness auto
termination by (relation "measure (\<lambda>(n, xs). length xs)") auto

declare parts_of.simps [simp del]

section \<open>The uploaded file\<close>

definition bad_link :: "file_error + 'a" where
  "bad_link = file_fail ''Kommo response has an invalid self link''"

definition link_parts :: "string \<Rightarrow> file_error + (string option \<times> string option)" where
  "link_parts path =
     (case path_segments (strip_chars ''/'' path) of
        [a, b, f] \<Rightarrow>
          if [a, b] = [''v1.0'', ''files''] \<and> is_uuid (py_strip f) then Inr (Some (py_strip f), None) else bad_link
      | [a, b, f, k, v] \<Rightarrow>
          if [a, b, k] = [''v1.0'', ''files'', ''versions''] \<and> is_uuid (py_strip f) \<and> is_uuid (py_strip v)
          then Inr (Some (py_strip f), Some (py_strip v)) else bad_link
      | _ \<Rightarrow> bad_link)"

definition identifiers_from_self_link :: "(string \<times> json) list \<Rightarrow> string \<Rightarrow> file_error + (string option \<times> string option)" where
  "identifiers_from_self_link response drive_url =
     (case (case (case jget response ''_links'' of JObj d _ \<Rightarrow> jget d ''self'' | _ \<Rightarrow> JVal PNone) of
              JObj d _ \<Rightarrow> jget d ''href'' | _ \<Rightarrow> JVal PNone) of
        JVal PNone \<Rightarrow> Inr (None, None)
      | JVal (PStr href) \<Rightarrow>
          (case (urlparse (py_strip href), urlparse drive_url) of
             (Inr u, Inr d) \<Rightarrow>
               (case su_port u of
                  Inl _ \<Rightarrow> bad_link
                | Inr port \<Rightarrow> if same_drive u d port \<and> su_query u = [] then link_parts (su_path u) else bad_link)
           | _ \<Rightarrow> bad_link)
      | _ \<Rightarrow> bad_link)"

definition required_uuid :: "json \<Rightarrow> string \<Rightarrow> file_error + string" where
  "required_uuid v label =
     (case v of
        JVal (PStr t) \<Rightarrow> if is_uuid (py_strip t) then Inr (py_strip t)
                         else file_fail (''Kommo final upload response is missing a valid '' @ label)
      | _ \<Rightarrow> file_fail (''Kommo final upload response is missing a valid '' @ label))"

definition validate_identifiers :: "string \<Rightarrow> string \<Rightarrow> string option \<Rightarrow> string option \<Rightarrow> file_error + unit" where
  "validate_identifiers file version linked_file linked_version =
     (if py_lower file = py_lower version then file_fail ''Kommo response does not distinguish file and version UUIDs''
      else if opt_str linked_file \<noteq> [] \<and> py_lower (opt_str linked_file) \<noteq> py_lower file
      then file_fail ''Kommo response self link conflicts with the file UUID''
      else if opt_str linked_version \<noteq> [] \<and> py_lower (opt_str linked_version) \<noteq> py_lower version
      then file_fail ''Kommo response self link conflicts with the version UUID''
      else Inr ())"

definition file_identifiers :: "(string \<times> json) list \<Rightarrow> string \<Rightarrow> file_error + string \<times> string" where
  "file_identifiers response drive_url =
     (case required_uuid (jget response ''uuid'') ''file UUID'' of
        Inl e \<Rightarrow> Inl e
      | Inr file \<Rightarrow>
         (case required_uuid (jget response ''version_uuid'') ''file-version UUID'' of
            Inl e \<Rightarrow> Inl e
          | Inr version \<Rightarrow>
             (case identifiers_from_self_link response drive_url of
                Inl e \<Rightarrow> Inl e
              | Inr (lf, lv) \<Rightarrow>
                  (case validate_identifiers file version lf lv of Inl e \<Rightarrow> Inl e | Inr _ \<Rightarrow> Inr (file, version)))))"

definition validate_uploaded_file_metadata :: "(string \<times> json) list \<Rightarrow> int \<Rightarrow> file_error + unit" where
  "validate_uploaded_file_metadata response bytes =
     (case jget response ''size'' of
        JVal (PInt n) \<Rightarrow>
          if n \<noteq> bytes then file_fail ''Kommo final upload response has an unexpected file size''
          else (case jget response ''type'' of
                  JVal (PStr t) \<Rightarrow> if py_strip t = [] then file_fail ''Kommo final upload response is missing the file type'' else Inr ()
                | _ \<Rightarrow> file_fail ''Kommo final upload response is missing the file type'')
      | _ \<Rightarrow> file_fail ''Kommo final upload response is missing the file size'')"

text \<open>A version stated beside the uploaded one must be the same.\<close>

definition agreed_version :: "string \<Rightarrow> json \<Rightarrow> file_error + string" where
  "agreed_version version stated =
     (if stated = JVal PNone then Inr version
      else case required_uuid stated ''file-version UUID'' of
        Inl e \<Rightarrow> Inl e
      | Inr v \<Rightarrow> if py_lower v \<noteq> py_lower version
                 then file_fail ''Kommo final upload response has conflicting version UUIDs'' else Inr version)"

definition look_up_version ::
    "files_env \<Rightarrow> string \<Rightarrow> string \<Rightarrow> string \<Rightarrow> json \<Rightarrow> (string \<times> string) files_call" where
  "look_up_version env drive linked uploaded stated s =
     (case call_service env (Call_Get (drive @ ''/v1.0/files/'' @ linked)) 200 s of
        (Inl e, s1) \<Rightarrow> (Inl e, s1)
      | (Inr response, s1) \<Rightarrow>
          ((case file_identifiers response drive of
              Inl e \<Rightarrow> Inl e
            | Inr (file, active) \<Rightarrow>
                if py_lower file \<noteq> py_lower linked then file_fail ''Kommo file lookup conflicts with the upload response link''
                else (case (if py_lower uploaded = py_lower file then required_uuid stated ''file-version UUID''
                            else agreed_version uploaded stated) of
                        Inl e \<Rightarrow> Inl e
                      | Inr version \<Rightarrow>
                          if py_lower active \<noteq> py_lower version then file_fail ''Kommo file lookup does not contain the uploaded version''
                          else Inr (file, version))), s1))"

definition uploaded_ids ::
    "files_env \<Rightarrow> (string \<times> json) list \<Rightarrow> string \<Rightarrow> string option \<Rightarrow> string \<Rightarrow> (string \<times> string) files_call" where
  "uploaded_ids env response drive linked uploaded s =
     (if jget response ''file_uuid'' \<noteq> JVal PNone
      then ((case required_uuid (jget response ''file_uuid'') ''parent file UUID'' of
               Inl e \<Rightarrow> Inl e
             | Inr file \<Rightarrow>
                 (case agreed_version uploaded (jget response ''version_uuid'') of Inl e \<Rightarrow> Inl e | Inr v \<Rightarrow> Inr (file, v))), s)
      else if opt_str linked = [] then (file_fail ''Kommo final upload response is missing the parent file UUID'', s)
      else look_up_version env drive (opt_str linked) uploaded (jget response ''version_uuid'') s)"

definition resolve_uploaded_file ::
    "files_env \<Rightarrow> (string \<times> json) list \<Rightarrow> string \<Rightarrow> string \<Rightarrow> int \<Rightarrow> string \<Rightarrow> uploaded_file files_call" where
  "resolve_uploaded_file env response name mime bytes drive s =
     (case validate_uploaded_file_metadata response bytes of
        Inl e \<Rightarrow> (Inl e, s)
      | Inr _ \<Rightarrow>
     (case (case jget response ''uuid'' of JVal (PStr t) \<Rightarrow> if is_uuid (py_strip t) then Some (py_strip t) else None | _ \<Rightarrow> None) of
        None \<Rightarrow> (file_fail ''Kommo final upload response is missing a valid UUID'', s)
      | Some uploaded \<Rightarrow>
     (case identifiers_from_self_link response drive of
        Inl e \<Rightarrow> (Inl e, s)
      | Inr (lf, lv) \<Rightarrow>
     (case uploaded_ids env response drive lf uploaded s of
        (Inl e, s1) \<Rightarrow> (Inl e, s1)
      | (Inr (file, version), s1) \<Rightarrow>
          ((case validate_identifiers file version lf lv of
              Inl e \<Rightarrow> Inl e
            | Inr _ \<Rightarrow>
                (case validate_file_name name of
                   Inl e \<Rightarrow> Inl e
                 | Inr n \<Rightarrow> Inr \<lparr>uf_drive = file, uf_version = version, uf_name = n, uf_mime = mime, uf_size = bytes\<rparr>)), s1)))))"


section \<open>Uploading\<close>

definition upload :: "files_env \<Rightarrow> string \<Rightarrow> string \<Rightarrow> string \<Rightarrow> uploaded_file files_call" where
  "upload env data name mime s =
     (if \<not> fe_enabled env then (media_disabled, s)
      else if data = [] then (file_fail ''Kommo upload data must be non-empty bytes'', s)
      else case validate_mime_type mime of
        Inl e \<Rightarrow> (Inl e, s)
      | Inr m \<Rightarrow>
     (case validate_file_signature data m of
        Inl e \<Rightarrow> (Inl e, s)
      | Inr _ \<Rightarrow>
     (case create_upload_session env name (int (length data)) m s of
        (Inl e, s1) \<Rightarrow> (Inl e, s1)
      | (Inr session, s1) \<Rightarrow>
     (case upload_chunks env session (parts_of (nat (us_max_part session)) data) m s1 of
        (Inl e, s2) \<Rightarrow> (Inl e, s2)
      | (Inr result, s2) \<Rightarrow> resolve_uploaded_file env result name m (int (length data)) (us_drive session) s2))))"

text \<open>A file on disk: its name, the size the directory gives, and what reading it gives.\<close>

record disk_file =
  df_name :: string
  df_size :: int
  df_content :: string

function upload_read ::
    "files_env \<Rightarrow> string \<Rightarrow> string \<Rightarrow> nat \<Rightarrow> string \<Rightarrow> int \<Rightarrow> string \<Rightarrow> (string \<times> json) list files_call" where
  "upload_read env drive mime part url remaining content s =
     (let c = take (min part (nat remaining)) content; left = remaining - int (length c) in
      if c = [] then (file_fail ''Kommo upload file changed while it was being read'', s)
      else (case post_chunk env url c mime (left = 0) s of
              (Inl e, s1) \<Rightarrow> (Inl e, s1)
            | (Inr body, s1) \<Rightarrow>
                if left = 0 then (Inr body, s1)
                else (case next_upload_url body drive of
                        Inl e \<Rightarrow> (Inl e, s1)
                      | Inr next \<Rightarrow> upload_read env drive mime part next left (drop (length c) content) s1)))"
  by pat_completeness auto
termination by (relation "measure (\<lambda>(env, drive, mime, part, url, remaining, content, s). length content)") auto

declare upload_read.simps [simp del]

definition upload_file :: "files_env \<Rightarrow> disk_file option \<Rightarrow> string option \<Rightarrow> uploaded_file files_call" where
  "upload_file env file mime s =
     (if \<not> fe_enabled env then (media_disabled, s)
      else case file of
        None \<Rightarrow> (file_fail ''Kommo upload path is not an existing file'', s)
      | Some f \<Rightarrow>
          if df_size f \<le> 0 then (file_fail ''Kommo upload file is empty'', s)
          else (case validate_mime_type (opt_str (opt_or mime (fe_guess env (df_name f)))) of
                  Inl e \<Rightarrow> (Inl e, s)
                | Inr m \<Rightarrow>
     (case validate_file_signature (take 16 (df_content f)) m of
        Inl e \<Rightarrow> (Inl e, s)
      | Inr _ \<Rightarrow>
     (case create_upload_session env (df_name f) (df_size f) m s of
        (Inl e, s1) \<Rightarrow> (Inl e, s1)
      | (Inr session, s1) \<Rightarrow>
     (case drive_of env s1 of
        (Inl e, s2) \<Rightarrow> (Inl e, s2)
      | (Inr drive, s2) \<Rightarrow>
     (case upload_read env drive m (nat (us_max_part session)) (us_url session) (df_size f) (df_content f) s2 of
        (Inl e, s3) \<Rightarrow> (Inl e, s3)
      | (Inr result, s3) \<Rightarrow> resolve_uploaded_file env result (df_name f) m (df_size f) (us_drive session) s3))))))"

section \<open>Downloading an image\<close>

record downloaded_image =
  di_data :: string
  di_name :: string
  di_mime :: string
  di_hash :: string

definition max_image_bytes :: int where
  "max_image_bytes = 10 * 1024 * 1024"

definition image_url_port :: "split_url \<Rightarrow> nat" where
  "image_url_port u = (if su_scheme u = ''https'' then 443 else 80)"

definition local_host :: "string \<Rightarrow> bool" where
  "local_host h = (h = ''localhost'' \<or> ends_with ''.localhost'' h \<or> is_ip_address (strip_chars ''[]'' h))"

definition check_addresses :: "files_env \<Rightarrow> string \<Rightarrow> string list \<Rightarrow> file_error + string \<times> string list" where
  "check_addresses env url addresses =
     (if addresses = [] then file_fail ''Image URL hostname did not resolve to an address''
      else case filter (\<lambda>a. \<not> is_ip_address a \<or> \<not> fe_public env a) addresses of
        [] \<Rightarrow> Inr (url, addresses)
      | a # _ \<Rightarrow> if \<not> is_ip_address a then file_fail ''Image URL hostname resolved to an invalid address''
                 else file_fail ''Image URL hostname resolved to a non-public address'')"

definition validate_image_url :: "files_env \<Rightarrow> string \<Rightarrow> file_error + string \<times> string list" where
  "validate_image_url env url0 =
     (let url = py_strip url0 in
      case urlparse url of
        Inl _ \<Rightarrow> file_fail ''Image URL has an invalid hostname''
      | Inr u \<Rightarrow>
          if su_scheme u \<notin> {''http'', ''https''} \<or> url_host u = [] then file_fail ''Image URL must be HTTP or HTTPS''
          else (case su_port u of
                  Inl _ \<Rightarrow> file_fail ''Image URL contains an invalid port''
                | Inr port \<Rightarrow>
                    if has_userinfo u \<or> port \<notin> {None, Some (image_url_port u)}
                    then file_fail ''Image URL contains unsupported authority information''
                    else if local_host (url_host u) then file_fail ''Image URL host is not allowed''
                    else (case fe_resolve env (url_host u) (image_url_port u) of
                            Inl _ \<Rightarrow> file_fail ''Image URL hostname could not be resolved''
                          | Inr addresses \<Rightarrow> check_addresses env url addresses)))"

fun read_stream :: "int \<Rightarrow> int \<Rightarrow> string list \<Rightarrow> string \<Rightarrow> string option" where
  "read_stream limit sofar [] acc = Some acc"
| "read_stream limit sofar (c # cs) acc =
     (if limit < sofar + int (length c) then None else read_stream limit (sofar + int (length c)) cs (acc @ c))"

definition image_body :: "image_reply \<Rightarrow> file_error + string" where
  "image_body r =
     (if ir_status r \<noteq> 200
      then Inl (FE_Client (CE_API (API_Error (''Image download returned HTTP '' @ show_int (ir_status r)) (Some (ir_status r)))))
      else case (if opt_str (ir_length r) = [] then Some 0 else parse_int (opt_str (ir_length r))) of
        None \<Rightarrow> file_fail ''Image download returned an invalid Content-Length''
      | Some n \<Rightarrow>
          if n < 0 \<or> max_image_bytes < n then file_fail ''Image download exceeds the configured size limit''
          else (case read_stream max_image_bytes 0 (ir_chunks r) [] of
                  None \<Rightarrow> file_fail ''Image download exceeds the configured size limit''
                | Some d \<Rightarrow> Inr d))"

definition redirect_statuses :: "int list" where
  "redirect_statuses = [301, 302, 303, 307, 308]"

text \<open>\<open>n\<close> redirects may still be followed.\<close>

fun download_from :: "nat \<Rightarrow> files_env \<Rightarrow> string list \<Rightarrow> string \<Rightarrow> (string \<times> string \<times> string) files_call" where
  "download_from n env visited url0 s =
     (case validate_image_url env url0 of
        Inl e \<Rightarrow> (Inl e, s)
      | Inr (url, addresses) \<Rightarrow>
          if url \<in> set visited then (file_fail ''Image download redirect loop detected'', s)
          else if \<not> fe_httpx env url (hd addresses) then (file_fail ''Image URL is malformed'', s)
          else (let c = Call_Image url (hd addresses); s1 = log_call c s in
                case fe_image env (fs_calls s) c of
                  Inl e \<Rightarrow> (file_fail (sanitize_kommo_error e), s1)
                | Inr r \<Rightarrow>
                    if ir_status r \<in> set redirect_statuses
                    then (case n of
                            0 \<Rightarrow> (file_fail ''Image download exceeded the redirect limit'', s1)
                          | Suc m \<Rightarrow>
                              if py_strip (opt_str (ir_location r)) = [] then (file_fail ''Image download redirect is missing Location'', s1)
                              else (case urljoin url (py_strip (opt_str (ir_location r))) of
                                      Inl _ \<Rightarrow> (file_fail ''Image download redirect Location is malformed'', s1)
                                    | Inr next \<Rightarrow> download_from m env (visited @ [url]) next s1))
                    else (case image_body r of
                            Inl e \<Rightarrow> (Inl e, s1)
                          | Inr d \<Rightarrow> (Inr (d, main_type (ir_type r), url), s1))))"

declare download_from.simps [simp del]

definition max_image_redirects :: nat where
  "max_image_redirects = 3"

definition image_extension :: "string \<Rightarrow> string" where
  "image_extension m = (if m = ''image/jpeg'' then ''.jpg'' else if m = ''image/png'' then ''.png'' else ''.webp'')"

definition image_file_name :: "files_env \<Rightarrow> string \<Rightarrow> string \<Rightarrow> string" where
  "image_file_name env url m =
     (let c = (case urlparse url of Inl _ \<Rightarrow> [] | Inr u \<Rightarrow> path_name (fe_unquote env (su_path u))) in
      if c \<noteq> [] \<and> c \<notin> {''.'', ''..''} then take 255 c else ''product'' @ image_extension m)"

definition download_image :: "files_env \<Rightarrow> string \<Rightarrow> string option \<Rightarrow> downloaded_image files_call" where
  "download_image env url name s =
     (if \<not> fe_enabled env then (media_disabled, s)
      else case download_from max_image_redirects env [] url s of
        (Inl e, s1) \<Rightarrow> (Inl e, s1)
      | (Inr (d, header, final), s1) \<Rightarrow>
          ((let detected = detect_image_mime d in
            if header \<in> set image_mime_types \<and> Some header \<noteq> detected
            then file_fail ''Image content does not match its declared MIME type''
            else case (if header \<in> set image_mime_types then Some header else detected) of
              None \<Rightarrow> file_fail ''Downloaded content is not a supported image''
            | Some m \<Rightarrow>
                (case validate_file_name (opt_str (opt_or name (Some (image_file_name env final m)))) of
                   Inl e \<Rightarrow> Inl e
                 | Inr n \<Rightarrow> Inr \<lparr>di_data = d, di_name = n, di_mime = m, di_hash = fe_sha env d\<rparr>)), s1))"

definition upload_downloaded_image :: "files_env \<Rightarrow> downloaded_image \<Rightarrow> uploaded_file files_call" where
  "upload_downloaded_image env i s =
     (if fe_sha env (di_data i) \<noteq> di_hash i then (file_fail ''Downloaded Kommo image content hash is invalid'', s)
      else upload env (di_data i) (di_name i) (di_mime i) s)"

definition upload_image_from_url :: "files_env \<Rightarrow> string \<Rightarrow> string option \<Rightarrow> uploaded_file files_call" where
  "upload_image_from_url env url name s =
     (case download_image env url name s of
        (Inl e, s1) \<Rightarrow> (Inl e, s1)
      | (Inr i, s1) \<Rightarrow> upload_downloaded_image env i s1)"

section \<open>Sending\<close>

definition file_attachment :: "uploaded_file \<Rightarrow> string \<Rightarrow> talk_attachment" where
  "file_attachment f kind = \<lparr>ta_type = kind, ta_file = uf_drive f, ta_version = uf_version f\<rparr>"

definition send_image_to_talk :: "files_env \<Rightarrow> string \<Rightarrow> string \<Rightarrow> string option \<Rightarrow> string option \<Rightarrow> json files_call" where
  "send_image_to_talk env talk url body name s =
     (case upload_image_from_url env url name s of
        (Inl e, s1) \<Rightarrow> (Inl e, s1)
      | (Inr f, s1) \<Rightarrow> on_client (send_talk_message (fe_client env) talk body (Some (file_attachment f ''picture''))) s1)"

definition send_pdf_to_talk :: "files_env \<Rightarrow> string \<Rightarrow> disk_file option \<Rightarrow> string option \<Rightarrow> json files_call" where
  "send_pdf_to_talk env talk file body s =
     (if \<not> fe_enabled env then (media_disabled, s)
      else if opt_str (fe_pdf env) = []
      then (Inl (FE_PDF ''PDF Chats attachment type is not configured and must be validated in Kommo''), s)
      else case upload_file env file (Some ''application/pdf'') s of
        (Inl e, s1) \<Rightarrow> (Inl e, s1)
      | (Inr f, s1) \<Rightarrow> on_client (send_talk_message (fe_client env) talk body (Some (file_attachment f (opt_str (fe_pdf env))))) s1)"


section \<open>Where images come from\<close>

definition guarded_image :: "files_env \<Rightarrow> string \<Rightarrow> string \<Rightarrow> bool" where
  "guarded_image env url address =
     (case urlparse url of
        Inl _ \<Rightarrow> False
      | Inr u \<Rightarrow> su_scheme u \<in> {''http'', ''https''} \<and> \<not> has_userinfo u \<and> \<not> local_host (url_host u)
          \<and> (case fe_resolve env (url_host u) (image_url_port u) of
               Inl _ \<Rightarrow> False
             | Inr as \<Rightarrow> address \<in> set as \<and> list_all (\<lambda>a. is_ip_address a \<and> fe_public env a) as))"

lemma check_addresses_ok:
  assumes "check_addresses env url as = Inr r"
  shows "r = (url, as) \<and> as \<noteq> [] \<and> list_all (\<lambda>a. is_ip_address a \<and> fe_public env a) as"
proof -
  have "as \<noteq> []" using assms by (auto simp: check_addresses_def file_fail_def)
  moreover have "filter (\<lambda>a. \<not> is_ip_address a \<or> \<not> fe_public env a) as = []" "r = (url, as)"
    using assms by (auto simp: check_addresses_def file_fail_def simp del: filter_empty_conv split: list.splits if_splits)
  then show ?thesis using calculation by (auto simp: filter_empty_conv list_all_iff)
qed

lemma validate_image_guarded: "validate_image_url env url0 = Inr (url, as) \<Longrightarrow> guarded_image env url (hd as)"
proof -
  assume v: "validate_image_url env url0 = Inr (url, as)"
  define x where "x = py_strip url0"
  obtain u port bs where u: "urlparse x = Inr u" "su_scheme u \<in> {''http'', ''https''}" "su_port u = Inr port" "\<not> has_userinfo u"
    "\<not> local_host (url_host u)" "fe_resolve env (url_host u) (image_url_port u) = Inr bs" "check_addresses env x bs = Inr (url, as)"
    using v unfolding x_def by (auto simp: validate_image_url_def file_fail_def Let_def split: sum.splits if_splits)
  have "url = x" "as = bs" "as \<noteq> []" "list_all (\<lambda>a. is_ip_address a \<and> fe_public env a) as" using check_addresses_ok[OF u(7)] by auto
  then show ?thesis using u(1,2,4-6) by (simp add: guarded_image_def)
qed

lemma read_stream_length: "read_stream limit (int (length acc)) cs acc = Some d \<Longrightarrow> int (length acc) \<le> limit \<Longrightarrow> int (length d) \<le> limit"
proof (induction cs arbitrary: acc)
  case (Cons c cs)
  then show ?case using Cons.IH[of "acc @ c"] by (auto split: if_splits)
qed simp

lemma image_body_length: "image_body r = Inr d \<Longrightarrow> int (length d) \<le> max_image_bytes"
  using read_stream_length[of max_image_bytes "[]" "ir_chunks r" d]
  by (auto simp: image_body_def file_fail_def max_image_bytes_def split: if_splits option.splits)

lemma download_trace:
  assumes "download_from n env visited url0 s = (res, s')"
  shows "\<exists>new. fs_calls s' = fs_calls s @ map (\<lambda>(u, a). Call_Image u a) new \<and> length new \<le> n + 1
    \<and> (\<forall>(u, a) \<in> set new. guarded_image env u a) \<and> distinct (map fst new) \<and> set (map fst new) \<inter> set visited = {}
    \<and> fs_client s' = fs_client s
    \<and> (\<forall>d m u. res = Inr (d, m, u) \<longrightarrow> int (length d) \<le> max_image_bytes \<and> new \<noteq> [] \<and> u = fst (last new))"
  using assms
proof (induction n arbitrary: visited url0 s)
  case (0 visited url0 s)
  show ?case
  proof (cases "\<exists>url as. validate_image_url env url0 = Inr (url, as) \<and> url \<notin> set visited \<and> fe_httpx env url (hd as)")
    case False
    then have "s' = s" "\<forall>x. res \<noteq> Inr x" using 0 by (auto simp: download_from.simps file_fail_def split: sum.splits prod.splits if_splits)
    then show ?thesis by (intro exI[of _ "[]"]) auto
  next
    case True
    then obtain url as where v: "validate_image_url env url0 = Inr (url, as)" "url \<notin> set visited" "fe_httpx env url (hd as)" by blast
    then have "s' = log_call (Call_Image url (hd as)) s"
      "\<forall>d m u. res = Inr (d, m, u) \<longrightarrow> int (length d) \<le> max_image_bytes \<and> u = url"
      using 0 image_body_length by (auto simp: download_from.simps file_fail_def Let_def split: sum.splits if_splits)
    then show ?thesis using validate_image_guarded[OF v(1)] v(2) by (intro exI[of _ "[(url, hd as)]"]) (auto simp: log_call_def)
  qed
next
  case (Suc n visited url0 s)
  show ?case
  proof (cases "\<exists>url as. validate_image_url env url0 = Inr (url, as) \<and> url \<notin> set visited \<and> fe_httpx env url (hd as)")
    case False
    then have "s' = s" "\<forall>x. res \<noteq> Inr x" using Suc.prems by (auto simp: download_from.simps file_fail_def split: sum.splits prod.splits if_splits)
    then show ?thesis by (intro exI[of _ "[]"]) auto
  next
    case True
    then obtain url as where v: "validate_image_url env url0 = Inr (url, as)" "url \<notin> set visited" "fe_httpx env url (hd as)" by blast
    let ?s1 = "log_call (Call_Image url (hd as)) s"
    consider (stop) "s' = ?s1" "\<forall>d m u. res = Inr (d, m, u) \<longrightarrow> int (length d) \<le> max_image_bytes \<and> u = url"
      | (go) nx where "download_from n env (visited @ [url]) nx ?s1 = (res, s')"
      using Suc.prems v image_body_length by (auto simp: download_from.simps[of "Suc n"] file_fail_def Let_def split: sum.splits if_splits)
    then show ?thesis
    proof cases
      case stop
      then show ?thesis using validate_image_guarded[OF v(1)] v(2) by (intro exI[of _ "[(url, hd as)]"]) (auto simp: log_call_def)
    next
      case go
      then obtain new where new: "fs_calls s' = fs_calls ?s1 @ map (\<lambda>(u, a). Call_Image u a) new" "length new \<le> n + 1"
        "\<forall>(u, a) \<in> set new. guarded_image env u a" "distinct (map fst new)" "set (map fst new) \<inter> set (visited @ [url]) = {}"
        "fs_client s' = fs_client ?s1"
        "\<forall>d m u. res = Inr (d, m, u) \<longrightarrow> int (length d) \<le> max_image_bytes \<and> new \<noteq> [] \<and> u = fst (last new)"
        using Suc.IH[OF go] by blast
      then show ?thesis using validate_image_guarded[OF v(1)] v(2)
        by (intro exI[of _ "(url, hd as) # new"]) (auto simp: log_call_def)
    qed
  qed
qed

text \<open>C24. Downloading an image sends at most four requests, each to a different URL over HTTP or HTTPS without
  user information whose host is no local name and no address, and each to an address the host resolved to
  when all of them were public: a redirect leads nowhere else. What is downloaded is at most 10 MB, its type is
  the one its bytes show, and its hash is that of its bytes.\<close>

theorem image_downloads_guarded:
  assumes "download_image env url name s = (res, s')"
  shows "\<exists>new. fs_calls s' = fs_calls s @ map (\<lambda>(u, a). Call_Image u a) new \<and> length new \<le> 4
    \<and> (\<forall>(u, a) \<in> set new. guarded_image env u a) \<and> distinct (map fst new)
    \<and> (\<forall>i. res = Inr i \<longrightarrow> int (length (di_data i)) \<le> max_image_bytes \<and> detect_image_mime (di_data i) = Some (di_mime i)
         \<and> di_hash i = fe_sha env (di_data i))"
proof (cases "fe_enabled env")
  case False
  then show ?thesis using assms by (auto simp: download_image_def media_disabled_def)
next
  case True
  obtain r s1 where d: "download_from max_image_redirects env [] url s = (r, s1)" by fastforce
  have s': "s' = s1" using assms True d by (auto simp: download_image_def Let_def split: sum.splits prod.splits)
  obtain new where new: "fs_calls s1 = fs_calls s @ map (\<lambda>(u, a). Call_Image u a) new" "length new \<le> max_image_redirects + 1"
    "\<forall>(u, a) \<in> set new. guarded_image env u a" "distinct (map fst new)"
    "\<forall>d m u. r = Inr (d, m, u) \<longrightarrow> int (length d) \<le> max_image_bytes"
    using download_trace[OF d] by blast
  have "int (length (di_data i)) \<le> max_image_bytes \<and> detect_image_mime (di_data i) = Some (di_mime i) \<and> di_hash i = fe_sha env (di_data i)"
    if "res = Inr i" for i
    using assms True d that new(5)
    by (auto simp: download_image_def file_fail_def Let_def split: sum.splits option.splits if_splits)
  then show ?thesis using new s' by (intro exI[of _ new]) (simp add: max_image_redirects_def)
qed


section \<open>What is uploaded\<close>

text \<open>The address of the drive the client has cached.\<close>

definition drive_cached :: "files_state \<Rightarrow> bool" where
  "drive_cached s = (case ck_drive (fs_client s) of None \<Rightarrow> True | Some d \<Rightarrow> drive_url_ok d)"

lemma drive_url_ok_ne: "drive_url_ok d \<Longrightarrow> d \<noteq> []"
proof
  assume "drive_url_ok d" "d = []"
  moreover have "urlparse [] = Inr \<lparr>su_scheme = [], su_netloc = [], su_path = [], su_params = [], su_query = [], su_fragment = []\<rparr>" by code_simp
  ultimately show False by (simp add: drive_url_ok_def split: sum.splits)
qed

lemma attempts_drive: "ck_drive (snd (attempts_from n k env r i ex s)) = ck_drive s"
proof (induction n arbitrary: k s i)
  case (0 k s i)
  have "ck_drive (snd (send_request env r s)) = ck_drive s"
    by (simp add: send_request_def wait_for_rate_limit_def Let_def split: prod.split)
  then show ?case by (subst attempts_from.simps) (auto split: prod.split sum.split)
next
  case (Suc n k s i)
  have "ck_drive (snd (send_request env r s)) = ck_drive s"
    by (simp add: send_request_def wait_for_rate_limit_def Let_def split: prod.split)
  then show ?case by (subst attempts_from.simps) (auto simp: Suc.IH defer_requests_def Let_def split: prod.split sum.split)
qed

lemma drive_of_ok:
  assumes "drive_of env s = (Inr d, s1)" "drive_cached s"
  shows "fs_calls s1 = fs_calls s \<and> ck_drive (fs_client s1) = Some d \<and> drive_url_ok d"
proof (cases "opt_str (ck_drive (fs_client s)) = []")
  case False
  then show ?thesis using assms by (auto simp: drive_of_def on_client_def get_drive_url_def drive_cached_def opt_str_def split: option.splits)
next
  case True
  then show ?thesis using assms
    by (auto simp: drive_of_def on_client_def get_drive_url_def api_fail_def Let_def split: prod.splits sum.splits json.splits pyval.splits if_splits)
qed

lemma drive_of_again: "ck_drive (fs_client s) = Some d \<Longrightarrow> d \<noteq> [] \<Longrightarrow> drive_of env s = (Inr d, s)"
  by (simp add: drive_of_def on_client_def get_drive_url_def opt_str_def)

lemma call_service_state: "snd (call_service env c st s) = log_call c s"
  by (simp add: call_service_def)

lemma post_chunk_ok:
  assumes "post_chunk env url c m fin s = (Inr body, s1)" "ck_drive (fs_client s) = Some d" "d \<noteq> []"
  shows "upload_url_ok url d \<and> s1 = log_call (Call_Chunk url c m) s"
proof -
  obtain a s2 where a: "call_service env (Call_Chunk url c m) (if fin then 200 else 202) s = (a, s2)" by fastforce
  then have "s2 = log_call (Call_Chunk url c m) s" using call_service_state[of env "Call_Chunk url c m" _ s] by (metis snd_conv)
  then show ?thesis using assms(1) a drive_of_again[OF assms(2,3), of env]
    by (auto simp: post_chunk_def file_fail_def split: sum.splits if_splits)
qed

lemma log_call_sel [simp]: "fs_client (log_call c s) = fs_client s" "fs_calls (log_call c s) = fs_calls s @ [c]"
  by (simp_all add: log_call_def)

fun chunk_data :: "file_call \<Rightarrow> string" where
  "chunk_data (Call_Chunk u c m) = c"
| "chunk_data _ = []"

definition chunk_to :: "string \<Rightarrow> file_call \<Rightarrow> bool" where
  "chunk_to d c = (case c of Call_Chunk u b m \<Rightarrow> upload_url_ok u d | _ \<Rightarrow> False)"

lemma upload_from_ok:
  assumes "upload_from env d m url cs fin s = (Inr body, s1)" "ck_drive (fs_client s) = Some d" "d \<noteq> []"
  shows "\<exists>new. fs_calls s1 = fs_calls s @ new \<and> map chunk_data new = cs \<and> list_all (chunk_to d) new \<and> fs_client s1 = fs_client s"
  using assms
proof (induction cs arbitrary: url fin s)
  case (Cons c cs)
  obtain b s2 where p: "post_chunk env url c m (cs = []) s = (Inr b, s2)" using Cons.prems(1) by (auto split: prod.splits sum.splits)
  note ok = post_chunk_ok[OF p Cons.prems(2,3)]
  show ?case
  proof (cases "cs = []")
    case True
    then have "s1 = s2" using Cons.prems(1) p by simp
    then show ?thesis using ok True by (intro exI[of _ "[Call_Chunk url c m]"]) (simp add: chunk_to_def)
  next
    case False
    obtain nx where "upload_from env d m nx cs b s2 = (Inr body, s1)" using Cons.prems(1) p False by (auto split: sum.splits)
    from Cons.IH[OF this] ok Cons.prems(2,3) obtain new where
      "fs_calls s1 = fs_calls s2 @ new" "map chunk_data new = cs" "list_all (chunk_to d) new" "fs_client s1 = fs_client s2" by auto
    moreover have "chunk_to d (Call_Chunk url c m)" using ok by (simp add: chunk_to_def)
    ultimately show ?thesis using ok by (intro exI[of _ "Call_Chunk url c m # new"]) simp
  qed
qed simp

lemma parts_of_concat: "0 < n \<Longrightarrow> concat (parts_of n xs) = xs \<and> (\<forall>p \<in> set (parts_of n xs). p \<noteq> [] \<and> length p \<le> n)"
proof (induction n xs rule: parts_of.induct)
  case (1 n xs)
  show ?case
  proof (cases "xs = []")
    case True
    then show ?thesis by (simp add: parts_of.simps)
  next
    case False
    then have e: "parts_of n xs = take n xs # parts_of n (drop n xs)" using 1(2) by (subst parts_of.simps) simp
    have "concat (parts_of n (drop n xs)) = drop n xs \<and> (\<forall>p \<in> set (parts_of n (drop n xs)). p \<noteq> [] \<and> length p \<le> n)"
      using 1 False by simp
    then show ?thesis unfolding e using False 1(2) by simp
  qed
qed

lemma resolve_ok:
  assumes "resolve_uploaded_file env resp name m n d s = (Inr f, s1)"
  shows "uf_size f = n \<and> uf_mime f = m \<and> py_lower (uf_drive f) \<noteq> py_lower (uf_version f)
    \<and> (fs_calls s1 = fs_calls s \<or> (\<exists>i. fs_calls s1 = fs_calls s @ [Call_Get (d @ ''/v1.0/files/'' @ i)]))"
proof -
  obtain lf lv upl fid version where u: "uploaded_ids env resp d lf upl s = (Inr (fid, version), s1)"
    "validate_identifiers fid version lf lv = Inr ()" "uf_drive f = fid" "uf_version f = version" "uf_size f = n" "uf_mime f = m"
    using assms by (auto simp: resolve_uploaded_file_def file_fail_def split: sum.splits option.splits prod.splits json.splits pyval.splits if_splits)
  have "fs_calls s1 = fs_calls s \<or> (\<exists>i. fs_calls s1 = fs_calls s @ [Call_Get (d @ ''/v1.0/files/'' @ i)])"
    using u(1) by (auto simp: uploaded_ids_def look_up_version_def call_service_def file_fail_def split: if_splits prod.splits sum.splits)
  moreover have "py_lower fid \<noteq> py_lower version" using u(2) by (auto simp: validate_identifiers_def file_fail_def split: if_splits)
  ultimately show ?thesis using u by simp
qed

lemma read_session_ok:
  "read_session d n resp = Inr ses \<Longrightarrow> us_drive ses = d \<and> 0 < us_max_part ses \<and> n \<le> us_max_file ses"
  by (auto simp: read_session_def file_fail_def split: json.splits pyval.splits option.splits if_splits)

lemma session_ok:
  assumes "create_upload_session env name n m s = (Inr ses, s1)" "drive_cached s"
  shows "\<exists>pay. fs_calls s1 = fs_calls s @ [Call_JSON (us_drive ses @ ''/v1.0/sessions'') pay] \<and> drive_url_ok (us_drive ses)
    \<and> ck_drive (fs_client s1) = Some (us_drive ses) \<and> 0 < us_max_part ses \<and> n \<le> us_max_file ses"
proof -
  obtain d s2 resp pay where d: "drive_of env s = (Inr d, s2)"
    "call_service env (Call_JSON (d @ ''/v1.0/sessions'') pay) 200 s2 = (Inr resp, s1)" "read_session d n resp = Inr ses"
    using assms(1) by (auto simp: create_upload_session_def media_disabled_def file_fail_def split: if_splits sum.splits prod.splits)
  have "s1 = log_call (Call_JSON (d @ ''/v1.0/sessions'') pay) s2" using d(2) call_service_state by (metis snd_conv)
  then show ?thesis using drive_of_ok[OF d(1) assms(2)] read_session_ok[OF d(3)] by auto
qed

text \<open>An upload that succeeds announced its exact size to the drive of the account, which is an https
  address under kommo.com, and sent the file whole and in order: the parts put together are the file, none is
  empty, and each went to a URL of that drive. The file it returns has that
  size and distinct identifiers of file and version.\<close>

theorem upload_sends_whole_file:
  assumes "upload env data name mime s = (Inr f, s')" "drive_cached s"
  shows "\<exists>d pay parts tail. fs_calls s' = fs_calls s @ Call_JSON (d @ ''/v1.0/sessions'') pay # parts @ tail
    \<and> drive_url_ok d \<and> concat (map chunk_data parts) = data \<and> list_all (chunk_to d) parts
    \<and> (\<forall>p \<in> set parts. chunk_data p \<noteq> [])
    \<and> (tail = [] \<or> (\<exists>i. tail = [Call_Get (d @ ''/v1.0/files/'' @ i)]))
    \<and> uf_size f = int (length data) \<and> py_lower (uf_drive f) \<noteq> py_lower (uf_version f)"
proof -
  obtain m ses s1 s2 r where u: "create_upload_session env name (int (length data)) m s = (Inr ses, s1)"
    "upload_chunks env ses (parts_of (nat (us_max_part ses)) data) m s1 = (Inr r, s2)"
    "resolve_uploaded_file env r name m (int (length data)) (us_drive ses) s2 = (Inr f, s')"
    using assms(1) by (auto simp: upload_def media_disabled_def file_fail_def split: if_splits sum.splits prod.splits)
  obtain pay where s1: "fs_calls s1 = fs_calls s @ [Call_JSON (us_drive ses @ ''/v1.0/sessions'') pay]" "drive_url_ok (us_drive ses)"
    "ck_drive (fs_client s1) = Some (us_drive ses)" "0 < us_max_part ses" using session_ok[OF u(1) assms(2)] by blast
  note d = drive_url_ok_ne[OF s1(2)]
  have "upload_from env (us_drive ses) m (us_url ses) (parts_of (nat (us_max_part ses)) data) [] s1 = (Inr r, s2)"
    using u(2) drive_of_again[OF s1(3) d] by (simp add: upload_chunks_def)
  from upload_from_ok[OF this s1(3) d] obtain parts where p: "fs_calls s2 = fs_calls s1 @ parts"
    "map chunk_data parts = parts_of (nat (us_max_part ses)) data" "list_all (chunk_to (us_drive ses)) parts" by blast
  have part: "concat (parts_of (nat (us_max_part ses)) data) = data"
    "\<forall>q \<in> set (parts_of (nat (us_max_part ses)) data). q \<noteq> [] \<and> length q \<le> nat (us_max_part ses)"
    using parts_of_concat[of "nat (us_max_part ses)" data] s1(4) by auto
  have each: "chunk_data q \<noteq> [] \<and> int (length (chunk_data q)) \<le> us_max_part ses" if "q \<in> set parts" for q
  proof -
    have "chunk_data q \<in> set (parts_of (nat (us_max_part ses)) data)" using that p(2) by (metis list.set_map image_eqI)
    then show ?thesis using part(2) s1(4) by auto
  qed
  note f = resolve_ok[OF u(3)]
  then obtain tail where t: "fs_calls s' = fs_calls s2 @ tail" "tail = [] \<or> (\<exists>i. tail = [Call_Get (us_drive ses @ ''/v1.0/files/'' @ i)])"
    by auto
  have "concat (map chunk_data parts) = data" unfolding p(2) by (rule part(1))
  then show ?thesis using s1(1,2) p(1,3) each t f
    by (intro exI[of _ "us_drive ses"] exI[of _ pay] exI[of _ parts] exI[of _ tail]) simp
qed


section \<open>A file on disk\<close>

lemma parts_of_ne: "0 < n \<Longrightarrow> xs \<noteq> [] \<Longrightarrow> parts_of n xs = take n xs # parts_of n (drop n xs)"
  by (subst parts_of.simps) simp

lemma parts_of_Nil: "0 < n \<Longrightarrow> parts_of n xs = [] \<longleftrightarrow> xs = []"
  by (subst parts_of.simps) simp

lemma upload_read_from:
  assumes "0 < part" "content \<noteq> []"
  shows "upload_read env drive m part url (int (length content)) content s = upload_from env drive m url (parts_of part content) fin s"
  using assms
proof (induction "length content" arbitrary: content url s fin rule: less_induct)
  case less
  let ?c = "take part content" and ?r = "drop part content"
  have c: "take (min part (length content)) content = ?c" "?c \<noteq> []" using less.prems by (auto simp: min_def)
  have l: "int (length content) - int (length ?c) = int (length ?r)" "drop (length ?c) content = ?r" by (auto simp: min_def)
  have e: "(parts_of part ?r = []) = (?r = [])" "(int (length ?r) = 0) = (?r = [])" by (rule parts_of_Nil[OF less.prems(1)], simp only: of_nat_eq_0_iff length_0_conv)
  have rec: "upload_read env drive m part nx (int (length ?r)) ?r s1 = upload_from env drive m nx (parts_of part ?r) b s1"
    if "?r \<noteq> []" for nx s1 b
    by (rule less.hyps) (use that less.prems in auto)
  have rec2: "upload_read env drive m part nx (int (length content) - int part) ?r s1 = upload_from env drive m nx (parts_of part ?r) b s1"
    if "\<not> length content \<le> part" for nx s1 b
    using that rec[of nx s1 b] by (simp add: of_nat_diff)
  show ?case
    unfolding parts_of_ne[OF less.prems] upload_from.simps
    by (subst upload_read.simps) (simp only: Let_def nat_int c l e if_False rec split: prod.split sum.split if_split, auto simp: rec2)
qed

lemma signature_of_start: "validate_file_signature (take 16 d) m = validate_file_signature d m"
proof -
  have s: "starts_with p (take 16 d) = starts_with p d" if "length p \<le> 16" for p
    using that by (auto simp: starts_with_def min_def)
  have "take 4 (drop 8 (take 16 d)) = take 4 (drop 8 d)" by (simp add: drop_take)
  moreover have "(12 \<le> length (take 16 d)) = (12 \<le> length d)" by simp
  ultimately have "detect_image_mime (take 16 d) = detect_image_mime d" by (simp add: detect_image_mime_def s)
  moreover have "starts_with ''%PDF-'' (take 16 d) = starts_with ''%PDF-'' d" by (rule s) simp
  ultimately show ?thesis by (simp only: validate_file_signature_def)
qed

text \<open>C25. Uploading a file from disk, read part by part, is uploading its bytes from memory: the same calls in
  the same order and the same answer, whatever the service does, if the file has the size its directory
  entry gives.\<close>

theorem upload_file_streams:
  assumes "int (length (df_content f)) = df_size f" "df_content f \<noteq> []" "mime \<noteq> []"
  shows "upload_file env (Some f) (Some mime) s = upload env (df_content f) (df_name f) mime s"
proof -
  have n: "\<not> df_size f \<le> 0" "df_size f = int (length (df_content f))" using assms(1,2) by (auto simp flip: assms(1))
  have m: "opt_str (opt_or (Some mime) g) = mime" for g using assms(3) by (simp add: opt_or_def opt_str_def)
  have chunks: "(case drive_of env s1 of (Inl e, s2) \<Rightarrow> (Inl e, s2)
      | (Inr drive, s2) \<Rightarrow>
         (case upload_read env drive c (nat (us_max_part ses)) (us_url ses) (int (length (df_content f))) (df_content f) s2 of
            (Inl e, s3) \<Rightarrow> (Inl e, s3)
          | (Inr result, s3) \<Rightarrow> resolve_uploaded_file env result (df_name f) c (int (length (df_content f))) (us_drive ses) s3))
    = (case upload_chunks env ses (parts_of (nat (us_max_part ses)) (df_content f)) c s1 of
         (Inl e, s2) \<Rightarrow> (Inl e, s2)
       | (Inr result, s2) \<Rightarrow> resolve_uploaded_file env result (df_name f) c (int (length (df_content f))) (us_drive ses) s2)"
    if "create_upload_session env (df_name f) k c s0 = (Inr ses, s1)" for ses s1 c k s0
  proof -
    have "0 < nat (us_max_part ses)"
      using that read_session_ok by (auto simp: create_upload_session_def media_disabled_def file_fail_def split: if_splits sum.splits prod.splits)
    then show ?thesis using upload_read_from[OF _ assms(2)] by (simp add: upload_chunks_def split: prod.split sum.split)
  qed
  show ?thesis
    unfolding upload_file_def upload_def option.case m signature_of_start n(2)
    using assms(2) by (auto simp: chunks split: sum.split prod.split)
qed

section \<open>Examples\<close>

definition text_reply :: "int \<Rightarrow> (string \<times> json) list \<Rightarrow> http_response" where
  "text_reply st d = \<lparr>hr_status = st, hr_text = ''x'', hr_json = Some (obj d), hr_type = ''application/json'', hr_retry = None\<rparr>"

definition sample_uuid :: "char \<Rightarrow> string" where
  "sample_uuid c = replicate 32 c"

text \<open>A drive that takes parts of four bytes, and a host that sends on to another one.\<close>

definition sample_files :: files_env where
  "sample_files = \<lparr>fe_client = \<lparr>cl_answer = (\<lambda>_ _. (0, Inr (text_reply 200 []))), cl_retry_date = (\<lambda>_ _. None), cl_subdomain = ''a'',
       cl_base = ''https://a.kommo.com''\<rparr>,
     fe_enabled = True, fe_pdf = Some ''file'', fe_resolve = (\<lambda>h _. Inr [''9.9.9.9'']), fe_public = (\<lambda>a. a = ''9.9.9.9''), fe_httpx = (\<lambda>_ _. True),
     fe_image = (\<lambda>cs c. case c of Call_Image u _ \<Rightarrow>
         (if cs = [] then Inr \<lparr>ir_status = 302, ir_location = Some ''//n/y'', ir_length = None, ir_type = [], ir_chunks = []\<rparr>
          else Inr \<lparr>ir_status = 200, ir_location = None, ir_length = None, ir_type = ''image/jpeg; q'',
                 ir_chunks = [[CHR 0xFF, CHR 0xD8], [CHR 0xFF, CHR ''A'']]\<rparr>) | _ \<Rightarrow> Inl ''no''),
     fe_service = (\<lambda>cs c. case c of
         Call_JSON _ _ \<Rightarrow> Inr (text_reply 200 [(''upload_url'', JVal (PStr ''https://d.kommo.com/u'')), (''max_file_size'', JVal (PInt 9)),
             (''max_part_size'', JVal (PInt 4))])
       | Call_Chunk _ p _ \<Rightarrow>
           (if length p = 4 then Inr (text_reply 202 [(''next_url'', JVal (PStr ''https://d.kommo.com/v''))])
            else Inr (text_reply 200 [(''uuid'', JVal (PStr (sample_uuid CHR ''b''))), (''file_uuid'', JVal (PStr (sample_uuid CHR ''a''))),
               (''size'', JVal (PInt 7)), (''type'', JVal (PStr ''file''))]))
       | _ \<Rightarrow> Inl ''no''),
     fe_sha = (\<lambda>d. d), fe_unquote = (\<lambda>p. p), fe_guess = (\<lambda>_. None)\<rparr>"

definition sample_start :: files_state where
  "sample_start = \<lparr>fs_client = idle_client\<lparr>ck_drive := Some ''https://d.kommo.com''\<rparr>, fs_calls = []\<rparr>"

definition sample_upload :: "(file_error + uploaded_file) \<times> files_state" where
  "sample_upload = upload sample_files ''%PDF-12'' ''c.pdf'' ''application/pdf'' sample_start"

definition sample_download :: "(file_error + downloaded_image) \<times> files_state" where
  "sample_download = download_image sample_files ''https://m/x'' None sample_start"

lemma sample_upload_ok: "(case fst sample_upload of Inr f \<Rightarrow> uf_size f = 7 | Inl _ \<Rightarrow> False) \<and> length (fs_calls (snd sample_upload)) = 3"
  by code_simp


lemma sample_download_ok: "(case fst sample_download of Inr i \<Rightarrow> di_mime i = ''image/jpeg'' | Inl _ \<Rightarrow> False)
    \<and> fs_calls (snd sample_download) = [Call_Image ''https://m/x'' ''9.9.9.9'', Call_Image ''https://n/y'' ''9.9.9.9'']"
  by code_simp

lemma sample_drive: "drive_cached sample_start"
proof -
  have "drive_url_ok ''https://d.kommo.com''" by code_simp
  then show ?thesis by (simp add: drive_cached_def sample_start_def)
qed

theorem image_downloads_guarded_witness:
  "\<exists>new. fs_calls (snd sample_download) = map (\<lambda>(u, a). Call_Image u a) new \<and> length new = 2
     \<and> (\<forall>(u, a) \<in> set new. guarded_image sample_files u a)"
proof -
  have d: "download_image sample_files ''https://m/x'' None sample_start = (fst sample_download, snd sample_download)"
    by (simp add: sample_download_def)
  have z: "fs_calls sample_start = []" by (simp add: sample_start_def)
  obtain new where new: "fs_calls (snd sample_download) = map (\<lambda>(u, a). Call_Image u a) new" "\<forall>(u, a) \<in> set new. guarded_image sample_files u a"
    using image_downloads_guarded[OF d] unfolding z append_Nil by blast
  have "length new = length (fs_calls (snd sample_download))" unfolding new(1) by simp
  then have "length new = 2" unfolding conjunct2[OF sample_download_ok] by simp
  then show ?thesis using new by blast
qed

theorem upload_sends_whole_file_witness:
  "\<exists>d pay parts tail. fs_calls (snd sample_upload) = Call_JSON (d @ ''/v1.0/sessions'') pay # parts @ tail
     \<and> concat (map chunk_data parts) = ''%PDF-12''"
proof -
  obtain f where "fst sample_upload = Inr f" using sample_upload_ok by (cases "fst sample_upload") simp_all
  then have u: "upload sample_files ''%PDF-12'' ''c.pdf'' ''application/pdf'' sample_start = (Inr f, snd sample_upload)"
    by (simp add: sample_upload_def prod_eq_iff)
  have z: "fs_calls sample_start = []" by (simp add: sample_start_def)
  show ?thesis using upload_sends_whole_file[OF u sample_drive] unfolding z append_Nil by blast
qed


theorem upload_file_streams_witness:
  "upload_file sample_files (Some \<lparr>df_name = ''c.pdf'', df_size = 7, df_content = ''%PDF-12''\<rparr>) (Some ''application/pdf'') sample_start
   = sample_upload"
  unfolding sample_upload_def
  using upload_file_streams[of "\<lparr>df_name = ''c.pdf'', df_size = 7, df_content = ''%PDF-12''\<rparr>" "''application/pdf''" sample_files sample_start]
  by simp

end
