(* ===== verification/Instagram_Content.thy ===== *)
theory Instagram_Content
  imports Urls "HOL-Library.List_Lexorder" "HOL-Library.Char_ord"
begin

text \<open>
  Posts, Reels and Stories and the products they show (\<open>instagram_content/service.py\<close>,
  \<open>admin/instagram_content.py\<close> and the mapping part of \<open>integrations/meta_context/service.py\<close>): the normal
  form of a URL, the table with its unique indexes, how it is filled and how a post leads to its products.
\<close>

section \<open>URLs of content\<close>

record normalized_url =
  nu_url :: string
  nu_short :: "string option"
  nu_type :: string
  nu_media :: "string option"

definition url_error :: "string \<Rightarrow> string + 'a" where
  "url_error m = Inl m"

definition short_char :: "char \<Rightarrow> bool" where
  "short_char c = (is_alnum c \<or> c \<in> set ''_-'')"

definition username_char :: "char \<Rightarrow> bool" where
  "username_char c = (is_alnum c \<or> c \<in> set ''._'')"

text \<open>The segments of a path, without the one a final slash opens.\<close>

definition content_segments :: "string \<Rightarrow> string list" where
  "content_segments p = (let ps = path_segments p in if 4 \<le> length ps \<and> last ps = [] then butlast ps else ps)"

definition is_post :: "string \<Rightarrow> string \<Rightarrow> bool" where
  "is_post kind code = (kind \<in> {''p'', ''reel''} \<and> code \<noteq> [] \<and> list_all short_char code)"

definition is_story :: "string \<Rightarrow> string \<Rightarrow> string \<Rightarrow> bool" where
  "is_story kind user story = (kind = ''stories'' \<and> user \<noteq> [] \<and> length user \<le> 30 \<and> list_all username_char user
     \<and> story \<noteq> [] \<and> length story \<le> 30 \<and> list_all is_digit story \<and> py_lower user \<noteq> ''highlights'')"

definition post_address :: "string \<Rightarrow> string \<Rightarrow> normalized_url" where
  "post_address kind code = \<lparr>nu_url = ''https://www.instagram.com/'' @ kind @ ''/'' @ code @ ''/'', nu_short = Some code,
     nu_type = (if kind = ''reel'' then ''reel'' else ''post''), nu_media = None\<rparr>"

definition story_address :: "string \<Rightarrow> string \<Rightarrow> normalized_url" where
  "story_address user story = \<lparr>nu_url = ''https://www.instagram.com/stories/'' @ user @ ''/'' @ story @ ''/'', nu_short = Some story,
     nu_type = ''story'', nu_media = None\<rparr>"

definition content_of_path :: "string \<Rightarrow> string + normalized_url" where
  "content_of_path p =
     (let bad = url_error ''Only Instagram post, Reel, and Story URLs are supported.'' in
      case content_segments p of
        [[], kind, code] \<Rightarrow> if is_post (py_lower kind) code then Inr (post_address (py_lower kind) code) else bad
      | [[], kind, user, story] \<Rightarrow> if is_story (py_lower kind) user story then Inr (story_address user story) else bad
      | _ \<Rightarrow> bad)"

definition normalize_instagram_url :: "string \<Rightarrow> string + normalized_url" where
  "normalize_instagram_url value =
     (case urlsplit (py_strip value) of
        Inl _ \<Rightarrow> url_error ''Invalid Instagram URL.''
      | Inr u \<Rightarrow>
          (case su_port u of
             Inl _ \<Rightarrow> url_error ''Invalid Instagram URL.''
           | Inr port \<Rightarrow>
               if py_lower (su_scheme u) \<noteq> ''https'' then url_error ''Instagram URLs must use HTTPS.''
               else if has_userinfo u \<or> port \<noteq> None then url_error ''Instagram URL contains unsupported authority data.''
               else if py_lower (su_hostname u) \<notin> {''instagram.com'', ''www.instagram.com''} then url_error ''URL must use instagram.com.''
               else content_of_path (su_path u)))"

definition detect_instagram_content_type :: "string option \<Rightarrow> string option \<Rightarrow> string option \<Rightarrow> string option" where
  "detect_instagram_content_type product media permalink =
     (let p = py_upper (py_strip (case product of None \<Rightarrow> [] | Some x \<Rightarrow> x));
          m = py_upper (py_strip (case media of None \<Rightarrow> [] | Some x \<Rightarrow> x)) in
      if p = ''REELS'' then Some ''reel''
      else if m = ''CAROUSEL_ALBUM'' then Some ''carousel''
      else if (case permalink of None \<Rightarrow> False | Some l \<Rightarrow> l \<noteq> [] \<and>
                 (case normalize_instagram_url l of Inr n \<Rightarrow> nu_type n = ''reel'' | Inl _ \<Rightarrow> False)) then Some ''reel''
      else if p = ''FEED'' \<or> m \<in> {''IMAGE'', ''VIDEO''} then Some ''post''
      else None)"

section \<open>The tables\<close>

record content_row =
  ic_id :: string
  ic_type :: string
  ic_permalink :: "string option"
  ic_normal :: "string option"
  ic_short :: "string option"
  ic_media :: "string option"
  ic_caption :: "string option"
  ic_thumbnail :: "string option"
  ic_published :: "int option"
  ic_expires :: "int option"
  ic_status :: string

record content_product =
  ip_content :: string
  ip_sku :: string
  ip_order :: nat

record content_db =
  cd_rows :: "content_row list"
  cd_products :: "content_product list"

text \<open>A partial unique index: the values that are not null are distinct.\<close>

definition uniquely :: "('r \<Rightarrow> 'k option) \<Rightarrow> 'r list \<Rightarrow> bool" where
  "uniquely key t = distinct (map key (filter (\<lambda>r. key r \<noteq> None) t))"

definition stable_identifier :: "content_row \<Rightarrow> bool" where
  "stable_identifier r = (ic_normal r \<noteq> None \<or> ic_short r \<noteq> None \<or> ic_media r \<noteq> None)"

definition content_types :: "string list" where
  "content_types = [''post'', ''carousel'', ''reel'', ''story'']"

definition content_indexed :: "content_row list \<Rightarrow> bool" where
  "content_indexed t = (uniquely ic_normal t \<and> uniquely ic_short t \<and> uniquely ic_media t)"

definition content_checked :: "content_row list \<Rightarrow> bool" where
  "content_checked t = list_all (\<lambda>r. stable_identifier r \<and> ic_type r \<in> set content_types \<and> ic_status r \<in> {''active'', ''archived''}) t"

datatype content_error = Unique_Violation | Check_Violation

text \<open>A statement that breaks an index or a check changes nothing.\<close>

definition store_rows :: "content_row list \<Rightarrow> content_db \<Rightarrow> (content_error + unit) \<times> content_db" where
  "store_rows t db =
     (if \<not> content_checked t then (Inl Check_Violation, db)
      else if \<not> content_indexed t then (Inl Unique_Violation, db)
      else (Inr (), db\<lparr>cd_rows := t\<rparr>))"

definition with_id :: "string \<Rightarrow> content_row \<Rightarrow> bool" where
  "with_id i r = (ic_id r = i)"

section \<open>From a post to its products\<close>

datatype resolution =
    Not_Found "string option"
  | Ambiguous string "string option"
  | Resolved string "string list"

text \<open>A Story stops counting when it has expired.\<close>

definition live_content :: "int \<Rightarrow> content_row \<Rightarrow> bool" where
  "live_content now r = (ic_status r = ''active'' \<and>
     (ic_type r \<noteq> ''story'' \<or> (case ic_expires r of None \<Rightarrow> True | Some t \<Rightarrow> now < t)))"

definition clean_id :: "string option \<Rightarrow> string option" where
  "clean_id v = (let t = py_strip (case v of None \<Rightarrow> [] | Some x \<Rightarrow> x) in if t = [] then None else Some t)"

definition identified :: "string option \<Rightarrow> string option \<Rightarrow> content_row \<Rightarrow> bool" where
  "identified media normal r = ((media \<noteq> None \<and> ic_media r = media) \<or> (normal \<noteq> None \<and> ic_normal r = normal))"

definition products_of :: "content_db \<Rightarrow> string \<Rightarrow> string list" where
  "products_of db i = dedupe (map (\<lambda>p. py_strip (ip_sku p)) (filter (\<lambda>p. ip_sku p \<noteq> [])
     (sort_key ip_order (sort_key ip_sku (filter (\<lambda>p. ip_content p = i) (cd_products db))))))"

definition conflicting :: "string option \<Rightarrow> string option list \<Rightarrow> bool" where
  "conflicting wanted stored =
     (let vs = dedupe (map py_strip (concat (map (\<lambda>v. case v of None \<Rightarrow> [] | Some x \<Rightarrow> if x = [] then [] else [x]) stored))) in
      case wanted of None \<Rightarrow> False | Some w \<Rightarrow> vs \<noteq> [] \<and> set vs \<noteq> {w})"

definition normal_of :: "string option \<Rightarrow> string option" where
  "normal_of permalink = (case permalink of None \<Rightarrow> None | Some l \<Rightarrow>
     if l = [] then None else (case normalize_instagram_url l of Inl _ \<Rightarrow> None | Inr n \<Rightarrow> Some (nu_url n)))"

definition resolve_content_product_mapping :: "int \<Rightarrow> string option \<Rightarrow> string option \<Rightarrow> content_db \<Rightarrow> resolution" where
  "resolve_content_product_mapping now media_id permalink db =
     (let normal = normal_of permalink; media = clean_id media_id in
      if media = None \<and> normal = None then Not_Found None
      else let rows = filter (\<lambda>r. live_content now r \<and> identified media normal r) (cd_rows db) in
      case dedupe (map ic_id rows) of
        [] \<Rightarrow> Not_Found None
      | [i] \<Rightarrow>
          if conflicting media (map ic_media rows) \<or> conflicting normal (map ic_normal rows)
          then Ambiguous ''mapping_identifier_conflict'' (Some i)
          else (case products_of db i of [] \<Rightarrow> Not_Found (Some i) | skus \<Rightarrow> Resolved i skus)
      | _ \<Rightarrow> Ambiguous ''identifiers_resolve_to_different_mappings'' None)"

section \<open>Filling the tables\<close>

text \<open>A Story of the connected account, as the service lists it.\<close>

record story_details =
  sd_id :: string
  sd_permalink :: string
  sd_media :: "string option"
  sd_thumbnail :: "string option"
  sd_time :: "int option"

definition coalesced :: "'a option \<Rightarrow> 'a option \<Rightarrow> 'a option" where
  "coalesced a b = (case a of None \<Rightarrow> b | Some _ \<Rightarrow> a)"

text \<open>\<open>INSERT ... ON CONFLICT (media_id) DO UPDATE ... WHERE content_type = 'story'\<close>: the identifier of the row, or nothing.\<close>

definition upsert_media ::
    "content_row \<Rightarrow> (content_row \<Rightarrow> content_row) \<Rightarrow> content_db \<Rightarrow> (content_error + string option) \<times> content_db" where
  "upsert_media new merge db =
     (case filter (\<lambda>r. ic_media r = ic_media new) (cd_rows db) of
        [] \<Rightarrow> (case store_rows (cd_rows db @ [new]) db of (Inl e, d) \<Rightarrow> (Inl e, d) | (Inr _, d) \<Rightarrow> (Inr (Some (ic_id new)), d))
      | r # _ \<Rightarrow>
          if ic_type r \<noteq> ''story'' then (Inr None, db)
          else (case store_rows (upd_where (with_id (ic_id r)) merge (cd_rows db)) db of
                  (Inl e, d) \<Rightarrow> (Inl e, d) | (Inr _, d) \<Rightarrow> (Inr (Some (ic_id r)), d)))"

definition story_row :: "string \<Rightarrow> string \<Rightarrow> string option \<Rightarrow> int \<Rightarrow> int \<Rightarrow> content_row" where
  "story_row new_id media thumbnail published expires =
     \<lparr>ic_id = new_id, ic_type = ''story'', ic_permalink = None, ic_normal = None, ic_short = None, ic_media = Some media,
      ic_caption = None, ic_thumbnail = thumbnail, ic_published = Some published, ic_expires = Some expires, ic_status = ''active''\<rparr>"

definition upsert_current_story :: "int \<Rightarrow> int \<Rightarrow> string \<Rightarrow> story_details \<Rightarrow> content_db \<Rightarrow> (content_error + string option) \<times> content_db" where
  "upsert_current_story now ttl new_id story db =
     (case normalize_instagram_url (sd_permalink story) of
        Inl _ \<Rightarrow> (Inr None, db)
      | Inr n \<Rightarrow>
          if nu_type n \<noteq> ''story'' then (Inr None, db)
          else (let published = (case sd_time story of None \<Rightarrow> now | Some t \<Rightarrow> t);
                    thumbnail = (if (case sd_thumbnail story of None \<Rightarrow> [] | Some x \<Rightarrow> x) \<noteq> [] then sd_thumbnail story else sd_media story);
                    new = (story_row new_id (sd_id story) thumbnail published (published + 3600 * ttl))
                            \<lparr>ic_permalink := Some (sd_permalink story), ic_normal := Some (nu_url n), ic_short := nu_short n\<rparr> in
                upsert_media new
                  (\<lambda>r. r\<lparr>ic_permalink := ic_permalink new, ic_normal := ic_normal new, ic_short := ic_short new,
                         ic_thumbnail := coalesced (ic_thumbnail new) (ic_thumbnail r),
                         ic_published := coalesced (ic_published r) (ic_published new),
                         ic_expires := coalesced (ic_expires r) (ic_expires new)\<rparr>) db))"

text \<open>A Story a customer replied to, from its event.\<close>

datatype discovery = Story_Ignored | Story_Discovered string | Story_Conflict

definition discover_instagram_story ::
    "int \<Rightarrow> int \<Rightarrow> string \<Rightarrow> string option \<Rightarrow> string option \<Rightarrow> int option \<Rightarrow> content_db \<Rightarrow> (content_error + discovery) \<times> content_db" where
  "discover_instagram_story now ttl new_id story_id story_url event_time db =
     (case clean_id story_id of
        None \<Rightarrow> (Inr Story_Ignored, db)
      | Some media \<Rightarrow>
          (let found = (case event_time of None \<Rightarrow> now | Some t \<Rightarrow> t); new = story_row new_id media story_url found (found + 3600 * ttl) in
           case upsert_media new
                  (\<lambda>r. r\<lparr>ic_thumbnail := coalesced story_url (ic_thumbnail r), ic_published := coalesced (ic_published r) (Some found),
                         ic_expires := coalesced (ic_expires r) (ic_expires new)\<rparr>) db of
             (Inl e, d) \<Rightarrow> (Inl e, d)
           | (Inr None, d) \<Rightarrow> (Inr Story_Conflict, d)
           | (Inr (Some i), d) \<Rightarrow> (Inr (Story_Discovered i), d)))"

text \<open>The media of a comment, as the service describes it.\<close>

record media_details =
  md_id :: string
  md_permalink :: "string option"
  md_caption :: "string option"
  md_type :: "string option"
  md_product :: "string option"

datatype backfill = BF_Not_Found | BF_Conflict string | BF_Backfilled string | BF_Matched string

definition backfill_instagram_mapping :: "media_details \<Rightarrow> content_db \<Rightarrow> (content_error + backfill) \<times> content_db" where
  "backfill_instagram_mapping media db =
     (let n = (case md_permalink media of None \<Rightarrow> None | Some l \<Rightarrow>
                 if l = [] then None else (case normalize_instagram_url l of Inl _ \<Rightarrow> None | Inr n \<Rightarrow> Some n));
          normal = map_option nu_url n; short = (case n of None \<Rightarrow> None | Some x \<Rightarrow> nu_short x);
          type = detect_instagram_content_type (md_product media) (md_type media) (md_permalink media);
          rows = filter (\<lambda>r. ic_status r = ''active'' \<and> (ic_media r = Some (md_id media) \<or> (normal \<noteq> None \<and> ic_normal r = normal)
                                                    \<or> (short \<noteq> None \<and> ic_short r = short))) (cd_rows db) in
      case dedupe (map ic_id rows) of
        [] \<Rightarrow> (Inr BF_Not_Found, db)
      | [i] \<Rightarrow>
          (let had = ic_media (hd rows) in
           if (case had of None \<Rightarrow> False | Some m \<Rightarrow> m \<noteq> [] \<and> m \<noteq> md_id media) then (Inr (BF_Conflict ''mapping_has_different_media_id''), db)
           else if \<not> list_ex (\<lambda>r. with_id i r \<and> ic_media r \<in> {None, Some (md_id media)}) (cd_rows db)
           then (Inr (BF_Conflict ''mapping_media_id_changed''), db)
           else (case store_rows (upd_where (\<lambda>r. with_id i r \<and> ic_media r \<in> {None, Some (md_id media)})
                        (\<lambda>r. r\<lparr>ic_media := coalesced (ic_media r) (Some (md_id media)), ic_caption := coalesced (ic_caption r) (md_caption media),
                               ic_type := (case type of None \<Rightarrow> ic_type r | Some t \<Rightarrow> t)\<rparr>) (cd_rows db)) db of
                   (Inl Unique_Violation, d) \<Rightarrow> (Inr (BF_Conflict ''media_id_already_mapped''), d)
                 | (Inl e, d) \<Rightarrow> (Inl e, d)
                 | (Inr _, d) \<Rightarrow> (Inr (if (case had of None \<Rightarrow> [] | Some m \<Rightarrow> m) = [] then BF_Backfilled i else BF_Matched i), d)))
      | _ \<Rightarrow> (Inr (BF_Conflict ''identifiers_resolve_to_different_mappings''), db))"


section \<open>Administration\<close>

text \<open>The answers that are no success: an HTTP status with its detail, or an error of the database.\<close>

datatype admin_error = HTTP_Error int string | DB_Error content_error

definition http_error :: "int \<Rightarrow> string \<Rightarrow> admin_error + 'a" where
  "http_error st m = Inl (HTTP_Error st m)"

definition validate_product_skus :: "string list \<Rightarrow> string list \<Rightarrow> admin_error + string list" where
  "validate_product_skus skus known =
     (let ds = dedupe (filter (\<lambda>k. k \<noteq> []) (map py_strip skus)); unknown = filter (\<lambda>k. k \<notin> set (map py_strip known)) ds in
      if ds = [] then http_error 422 ''At least one product SKU is required.''
      else if 20 < length ds then http_error 422 ''No more than 20 product SKUs are allowed.''
      else if unknown \<noteq> [] then http_error 422 (''Unknown product SKU(s): '' @ join_with '', '' unknown)
      else Inr ds)"

definition replace_product_mappings :: "string \<Rightarrow> string list \<Rightarrow> content_db \<Rightarrow> content_db" where
  "replace_product_mappings i skus db = db\<lparr>cd_products := del_where (\<lambda>p. ip_content p = i) (cd_products db)
     @ map (\<lambda>(k, s). \<lparr>ip_content = i, ip_sku = s, ip_order = k\<rparr>) (enumerate 0 skus)\<rparr>"

text \<open>A violated index is reported as a conflict; the transaction leaves nothing behind.\<close>

definition settle_content :: "(content_error + unit) \<times> content_db \<Rightarrow> content_db \<Rightarrow> (content_db \<Rightarrow> content_db) \<Rightarrow> (admin_error + unit) \<times> content_db" where
  "settle_content r db after =
     (case r of
        (Inl Unique_Violation, _) \<Rightarrow> (http_error 409 ''This Instagram content is already mapped.'', db)
      | (Inl e, _) \<Rightarrow> (Inl (DB_Error e), db)
      | (Inr _, d) \<Rightarrow> (Inr (), after d))"

definition post_row :: "string \<Rightarrow> string \<Rightarrow> normalized_url \<Rightarrow> content_row" where
  "post_row new_id url n = \<lparr>ic_id = new_id, ic_type = nu_type n, ic_permalink = Some (py_strip url), ic_normal = Some (nu_url n),
     ic_short = nu_short n, ic_media = nu_media n, ic_caption = None, ic_thumbnail = None, ic_published = None, ic_expires = None,
     ic_status = ''active''\<rparr>"

definition find_story :: "string \<Rightarrow> story_details list \<Rightarrow> story_details option" where
  "find_story url stories =
     (case filter (\<lambda>x. case normalize_instagram_url (sd_permalink x) of Inr n \<Rightarrow> nu_url n = url | Inl _ \<Rightarrow> False) stories of
        [] \<Rightarrow> None | x # _ \<Rightarrow> Some x)"

definition create_story ::
    "int \<Rightarrow> int \<Rightarrow> string \<Rightarrow> normalized_url \<Rightarrow> string list \<Rightarrow> unit + story_details list \<Rightarrow> content_db \<Rightarrow> (admin_error + unit) \<times> content_db" where
  "create_story now ttl new_id n skus stories db =
     (case stories of
        Inl _ \<Rightarrow> (http_error 502 ''Current Instagram Stories could not be verified.'', db)
      | Inr xs \<Rightarrow>
         (case find_story (nu_url n) xs of
            None \<Rightarrow> (http_error 422 ''This Story is not currently available on the connected Instagram account.'', db)
          | Some x \<Rightarrow>
             (case upsert_current_story now ttl new_id x db of
                (Inl e, d) \<Rightarrow> settle_content (Inl e, d) db id
              | (Inr None, d) \<Rightarrow> (http_error 409 ''This Story conflicts with another mapping.'', db)
              | (Inr (Some i), d) \<Rightarrow> (if i = [] then (http_error 409 ''This Story conflicts with another mapping.'', db)
                                       else settle_content (Inr (), d) db (replace_product_mappings i skus)))))"

text \<open>\<open>known\<close> lists the SKUs of the grouped catalog, \<open>stories\<close> the Stories of the account, when the service answers.\<close>

definition create_instagram_content ::
    "int \<Rightarrow> int \<Rightarrow> string \<Rightarrow> string \<Rightarrow> string list \<Rightarrow> string list \<Rightarrow> unit + story_details list \<Rightarrow> content_db \<Rightarrow> (admin_error + unit) \<times> content_db" where
  "create_instagram_content now ttl new_id url skus known stories db =
     (case normalize_instagram_url url of
        Inl m \<Rightarrow> (http_error 422 m, db)
      | Inr n \<Rightarrow>
         (case validate_product_skus skus known of
            Inl e \<Rightarrow> (Inl e, db)
          | Inr ds \<Rightarrow>
              if nu_type n = ''story'' then create_story now ttl new_id n ds stories db
              else settle_content (store_rows (cd_rows db @ [post_row new_id url n]) db) db (replace_product_mappings new_id ds)))"

record content_update =
  cu_url :: "string option"
  cu_skus :: "string list option"
  cu_status :: "string option"

definition moved_row :: "string \<Rightarrow> normalized_url \<Rightarrow> content_row \<Rightarrow> content_row" where
  "moved_row url n r =
     (let r1 = r\<lparr>ic_permalink := Some (py_strip url)\<rparr> in
      if Some (nu_url n) = ic_normal r then r1
      else r1\<lparr>ic_type := nu_type n, ic_normal := Some (nu_url n), ic_short := nu_short n,
              ic_media := (if nu_media n = None \<or> nu_media n = Some [] then None else nu_media n), ic_caption := None\<rparr>)"

definition updated_row :: "normalized_url option \<Rightarrow> content_update \<Rightarrow> content_row \<Rightarrow> content_row" where
  "updated_row n u r =
     (let r1 = (case n of None \<Rightarrow> r | Some m \<Rightarrow> moved_row (case cu_url u of None \<Rightarrow> [] | Some x \<Rightarrow> x) m r) in
      case cu_status u of None \<Rightarrow> r1 | Some st \<Rightarrow> r1\<lparr>ic_status := st\<rparr>)"

definition update_instagram_content ::
    "string \<Rightarrow> content_update \<Rightarrow> string list \<Rightarrow> content_db \<Rightarrow> (admin_error + unit) \<times> content_db" where
  "update_instagram_content i u known db =
     (case filter (with_id i) (cd_rows db) of
        [] \<Rightarrow> (http_error 404 ''Instagram content mapping not found.'', db)
      | r # _ \<Rightarrow>
         (case (case cu_url u of None \<Rightarrow> Inr None
                | Some url \<Rightarrow> if ic_type r = ''story'' then Inr None
                              else (case normalize_instagram_url url of Inl m \<Rightarrow> Inl (HTTP_Error 422 m) | Inr n \<Rightarrow> Inr (Some n))) of
            Inl e \<Rightarrow> (Inl e, db)
          | Inr n \<Rightarrow>
         (case (case cu_skus u of None \<Rightarrow> Inr None
                | Some skus \<Rightarrow> (case validate_product_skus skus known of Inl e \<Rightarrow> Inl e | Inr ds \<Rightarrow> Inr (Some ds))) of
            Inl e \<Rightarrow> (Inl e, db)
          | Inr ds \<Rightarrow>
              settle_content (store_rows (upd_where (with_id i) (updated_row n u) (cd_rows db)) db) db
                (case ds of None \<Rightarrow> id | Some xs \<Rightarrow> replace_product_mappings i xs))))"

definition archive_instagram_content :: "string \<Rightarrow> content_db \<Rightarrow> (admin_error + unit) \<times> content_db" where
  "archive_instagram_content i db =
     (if list_ex (with_id i) (cd_rows db)
      then (Inr (), db\<lparr>cd_rows := upd_where (with_id i) (\<lambda>r. r\<lparr>ic_status := ''archived''\<rparr>) (cd_rows db)\<rparr>)
      else (http_error 404 ''Instagram content mapping not found.'', db))"

text \<open>The Stories of the account are looked up before the mappings are listed.\<close>

fun sync_stories :: "int \<Rightarrow> int \<Rightarrow> (nat \<Rightarrow> string) \<Rightarrow> nat \<Rightarrow> story_details list \<Rightarrow> content_db \<Rightarrow> (content_error + unit) \<times> content_db" where
  "sync_stories now ttl ids k [] db = (Inr (), db)"
| "sync_stories now ttl ids k (x # xs) db =
     (case upsert_current_story now ttl (ids k) x db of
        (Inl e, d) \<Rightarrow> (Inl e, d)
      | (Inr _, d) \<Rightarrow> sync_stories now ttl ids (k + 1) xs d)"

definition lifecycle_status :: "int \<Rightarrow> content_row \<Rightarrow> string" where
  "lifecycle_status now r =
     (if ic_status r = ''archived'' then ''archived''
      else if ic_type r = ''story'' \<and> (case ic_expires r of None \<Rightarrow> False | Some t \<Rightarrow> t \<le> now) then ''expired'' else ''active'')"


section \<open>The normal form\<close>

lemma splits_free: "(\<forall>x \<in> set s. \<not> P x) \<Longrightarrow> splits P s = [s]"
  by (induction s) auto

lemma splits_at: "(\<forall>x \<in> set s. \<not> P x) \<Longrightarrow> P c \<Longrightarrow> splits P (s @ c # t) = s # splits P t"
  by (induction s) (auto split: list.split)

lemma segments_at: "CHR ''/'' \<notin> set s \<Longrightarrow> path_segments (s @ CHR ''/'' # t) = s # path_segments t"
  by (auto simp: path_segments_def intro!: splits_at)

lemma segments_free: "CHR ''/'' \<notin> set s \<Longrightarrow> path_segments s = [s]"
  by (auto simp: path_segments_def intro!: splits_free)

lemma segments_slash: "CHR ''/'' \<notin> set s \<Longrightarrow> path_segments (s @ ''/'') = [s, []]"
  using segments_at[of s "[]"] by (simp add: path_segments_def)

definition path_char :: "char \<Rightarrow> bool" where
  "path_char c = (c \<notin> set ''/?#'' \<and> c \<notin> {CHR 0x09, CHR 0x0A, CHR 0x0D})"

lemma path_charD: "path_char c \<Longrightarrow> c \<noteq> CHR ''/'' \<and> c \<noteq> CHR ''?'' \<and> c \<noteq> CHR ''#'' \<and> c \<notin> {CHR 0x09, CHR 0x0A, CHR 0x0D}"
  unfolding path_char_def by auto

lemma short_path_char: "short_char c \<Longrightarrow> path_char c"
  unfolding path_char_def by (auto simp: short_char_def is_alnum_def is_ascii_alpha_def is_digit_def Let_def)

lemma username_path_char: "username_char c \<Longrightarrow> path_char c"
  unfolding path_char_def by (auto simp: username_char_def is_alnum_def is_ascii_alpha_def is_digit_def Let_def)

lemma digit_path_char: "is_digit c \<Longrightarrow> path_char c"
  unfolding path_char_def by (auto simp: is_digit_def Let_def)

lemma lower_char_idem: "lower_char (lower_char c) = lower_char c"
  by (auto simp: lower_char_def Let_def)

lemma py_lower_idem: "py_lower (py_lower s) = py_lower s"
  by (simp add: py_lower_def lower_char_idem o_def)

lemma strip_url: "py_strip (''https://www.instagram.com/'' @ s @ ''/'') = ''https://www.instagram.com/'' @ s @ ''/''"
  by (simp add: py_strip_def py_space_def)

text \<open>A URL of the normal host is split into its path.\<close>

lemma normalize_path:
  assumes p: "\<forall>c \<in> set p. path_char c \<or> c = CHR ''/''"
  shows "normalize_instagram_url (''https://www.instagram.com/'' @ p @ ''/'') = content_of_path (''/'' @ p @ ''/'')"
proof -
  let ?n = "''www.instagram.com''" and ?p = "''/'' @ p @ ''/''"
  have n: "?n \<noteq> []" "\<forall>c \<in> set ?n. c \<notin> set ''/?#[]''" "clean_part ?n" by (simp, code_simp, simp add: clean_part_def)
  have cp: "clean_part ?p" "CHR ''?'' \<notin> set ?p" "starts_with ''/'' ?p" "clean_part []"
    using p path_charD by (auto simp: clean_part_def starts_with_def)
  have e: "''https://www.instagram.com/'' @ p @ ''/'' = ''https://'' @ ?n @ ?p @ (if [] = [] then [] else ''?'' @ [])" by simp
  have u: "urlsplit (py_strip (''https://www.instagram.com/'' @ p @ ''/'')) =
     Inr \<lparr>su_scheme = ''https'', su_netloc = ?n, su_path = ?p, su_params = [], su_query = [], su_fragment = []\<rparr>" (is "_ = Inr ?u")
    unfolding strip_url using urlsplit_https[OF n cp(3,1,2,4)] by (simp only: e[symmetric])
  have i: "su_hostinfo ?u = (?n, [])" "\<not> has_userinfo ?u" by code_simp+
  have "lower_host ?n = ?n" "py_lower ?n = ?n" "py_lower ''https'' = ''https''" by code_simp+
  then show ?thesis using u i by (simp add: normalize_instagram_url_def su_port_def su_hostname_def)
qed

lemma content_of_post:
  assumes "is_post k code" shows "content_of_path (''/'' @ (k @ ''/'' @ code) @ ''/'') = Inr (post_address k code)"
proof -
  have f: "CHR ''/'' \<notin> set code" using assms short_path_char path_charD unfolding is_post_def list_all_iff by blast
  have k: "CHR ''/'' \<notin> set k" "py_lower k = k" using assms by (auto simp: is_post_def py_lower_def lower_char_def Let_def)
  have "path_segments (''/'' @ (k @ ''/'' @ code) @ ''/'') = [[], k, code, []]"
    using segments_at[of "[]"] segments_at[OF k(1)] segments_slash[OF f] by simp
  then have "content_segments (''/'' @ (k @ ''/'' @ code) @ ''/'') = [[], k, code]" by (simp add: content_segments_def)
  then show ?thesis using assms k(2) by (simp add: content_of_path_def)
qed

lemma content_of_story:
  assumes "is_story ''stories'' user story"
  shows "content_of_path (''/'' @ (''stories/'' @ user @ ''/'' @ story) @ ''/'') = Inr (story_address user story)"
proof -
  have f: "CHR ''/'' \<notin> set user" "CHR ''/'' \<notin> set story"
    using assms username_path_char digit_path_char path_charD unfolding is_story_def list_all_iff by blast+
  have "path_segments (''/'' @ (''stories/'' @ user @ ''/'' @ story) @ ''/'') = [[], ''stories'', user, story, []]"
    using segments_at[of "[]"] segments_at[of "''stories''"] segments_at[OF f(1)] segments_slash[OF f(2)] by simp
  moreover have "py_lower ''stories'' = ''stories''" by code_simp
  ultimately show ?thesis using assms by (simp add: content_of_path_def content_segments_def)
qed

lemma content_of_path_cases:
  assumes "content_of_path p = Inr n"
  obtains k code where "is_post k code" "n = post_address k code" | k user story where "is_story k user story" "n = story_address user story"
  using assms that unfolding content_of_path_def url_error_def Let_def by (auto split: list.splits if_splits)

text \<open>C27. A URL that is accepted has a normal form on www.instagram.com that is accepted as itself, so two
  ways to write a post, a Reel or a Story are stored and looked up as the same content, whatever scheme
  case, host, query or final slash they come with.\<close>

theorem instagram_url_normal_form:
  assumes "normalize_instagram_url v = Inr n"
  shows "normalize_instagram_url (nu_url n) = Inr n \<and> starts_with ''https://www.instagram.com/'' (nu_url n)"
proof -
  obtain p where "content_of_path p = Inr n"
    using assms by (auto simp: normalize_instagram_url_def url_error_def split: sum.splits if_splits)
  then show ?thesis
  proof (cases rule: content_of_path_cases)
    case (1 k code)
    have "list_all path_char ''p''" "list_all path_char ''reel''" by code_simp+
    then have "\<forall>c \<in> set k. path_char c" using 1(1) by (auto simp: is_post_def list_all_iff)
    moreover have "\<forall>c \<in> set code. path_char c" using 1(1) short_path_char unfolding is_post_def list_all_iff by blast
    ultimately have "\<forall>c \<in> set (k @ ''/'' @ code). path_char c \<or> c = CHR ''/''" by auto
    from normalize_path[OF this] content_of_post[OF 1(1)] show ?thesis unfolding 1(2) by (simp add: starts_with_def post_address_def)
  next
    case (2 k user story)
    have k: "is_story ''stories'' user story" using 2(1) by (simp add: is_story_def)
    have "list_all (\<lambda>c. path_char c \<or> c = CHR ''/'') ''stories/''" by code_simp
    moreover have "\<forall>c \<in> set user \<union> set story. path_char c"
      using k username_path_char digit_path_char unfolding is_story_def list_all_iff by blast
    ultimately have "\<forall>c \<in> set (''stories/'' @ user @ ''/'' @ story). path_char c \<or> c = CHR ''/''" unfolding list_all_iff by auto
    from normalize_path[OF this] content_of_story[OF k] show ?thesis unfolding 2(2) by (simp add: starts_with_def story_address_def)
  qed
qed

theorem instagram_url_normal_form_witness:
  "normalize_instagram_url (nu_url (post_address ''reel'' ''Ab_1'')) = Inr (post_address ''reel'' ''Ab_1'')"
proof -
  have "normalize_instagram_url ''HTTPS://instagram.com/REEL/Ab_1?x=1'' = Inr (post_address ''reel'' ''Ab_1'')" by code_simp
  from instagram_url_normal_form[OF this] show ?thesis by simp
qed


section \<open>Assigned products are found again\<close>

lemma products_of_replaced:
  assumes "distinct ds" "\<forall>k \<in> set ds. k \<noteq> [] \<and> py_strip k = k"
  shows "products_of (replace_product_mappings i ds db) i = ds"
proof -
  let ?ps = "map (\<lambda>(k, s). \<lparr>ip_content = i, ip_sku = s, ip_order = k\<rparr>) (enumerate 0 ds)"
  have o: "map ip_order ?ps = [0..<length ds]" and s: "map ip_sku ?ps = ds"
    by (simp_all add: case_prod_beta comp_def map_fst_enumerate[of 0 ds, unfolded map_eq_conv] flip: map_map[of ip_order] map_map[of ip_sku])
  have "sort_key ip_order (sort_key ip_sku ?ps) = ?ps"
  proof (rule map_sorted_distinct_set_unique[of ip_order])
    have d: "distinct (map ip_order ?ps)" "sorted (map ip_order ?ps)" unfolding o by simp_all
    then show "inj_on ip_order (set (sort_key ip_order (sort_key ip_sku ?ps)) \<union> set ?ps)" unfolding distinct_map by simp
    show "distinct (map ip_order ?ps)" "sorted (map ip_order ?ps)" by (fact d)+
    have "distinct ?ps" "inj_on ip_order (set ?ps)" using d(1) unfolding distinct_map by simp_all
    then show "distinct (map ip_order (sort_key ip_order (sort_key ip_sku ?ps)))" by (simp add: distinct_map)
  qed simp_all
  moreover have "filter (\<lambda>p. ip_content p = i) (cd_products (replace_product_mappings i ds db)) = ?ps"
    by (auto simp: replace_product_mappings_def del_where_def filter_empty_conv filter_id_conv)
  moreover have "filter (\<lambda>p. ip_sku p \<noteq> []) ?ps = ?ps"
    using assms(2) by (auto simp: filter_id_conv dest: in_set_enumerate_eq[THEN iffD1])
  moreover have "map (\<lambda>p. py_strip (ip_sku p)) ?ps = ds"
  proof -
    have "map (\<lambda>p. py_strip (ip_sku p)) ?ps = map py_strip (map ip_sku ?ps)" by (simp only: map_map comp_def)
    also have "\<dots> = ds" unfolding s by (rule map_idI) (use assms(2) in blast)
    finally show ?thesis .
  qed
  ultimately show ?thesis using assms(1) by (simp add: products_of_def dedupe_distinct)
qed

lemma validated_skus:
  assumes "validate_product_skus skus known = Inr ds"
  shows "ds = dedupe (filter (\<lambda>k. k \<noteq> []) (map py_strip skus)) \<and> ds \<noteq> [] \<and> length ds \<le> 20 \<and> distinct ds
     \<and> (\<forall>k \<in> set ds. k \<noteq> [] \<and> py_strip k = k \<and> k \<in> set (map py_strip known))"
proof -
  let ?ds = "dedupe (filter (\<lambda>k. k \<noteq> []) (map py_strip skus))"
  have "\<not> 20 < length ?ds" "?ds \<noteq> []" "filter (\<lambda>k. k \<notin> set (map py_strip known)) ?ds = []" "ds = ?ds"
    using assms unfolding validate_product_skus_def http_error_def Let_def by (auto split: if_splits)
  then show ?thesis unfolding filter_empty_conv by auto
qed

lemma uniquely_single:
  assumes "uniquely key (t @ [r])" "key r = Some v"
  shows "filter (\<lambda>x. key x = Some v) (t @ [r]) = [r]"
proof -
  have "Some v \<notin> set (map key (filter (\<lambda>x. key x \<noteq> None) t))" using assms by (auto simp: uniquely_def)
  then have "\<forall>x \<in> set t. key x \<noteq> Some v" by force
  then show ?thesis using assms(2) by (simp add: filter_empty_conv)
qed

lemma normal_url_stripped:
  assumes "normalize_instagram_url v = Inr n" shows "nu_url n \<noteq> [] \<and> py_strip (nu_url n) = nu_url n"
proof -
  obtain p where "content_of_path p = Inr n"
    using assms by (auto simp: normalize_instagram_url_def url_error_def split: sum.splits if_splits)
  then have "\<exists>s. nu_url n = ''https://www.instagram.com/'' @ s @ ''/''"
  proof (cases rule: content_of_path_cases)
    case (1 k code)
    then have "nu_url n = ''https://www.instagram.com/'' @ (k @ ''/'' @ code) @ ''/''" by (simp add: post_address_def)
    then show ?thesis by blast
  next
    case (2 k user story)
    then have "nu_url n = ''https://www.instagram.com/'' @ (''stories/'' @ user @ ''/'' @ story) @ ''/''"
      by (simp add: story_address_def)
    then show ?thesis by blast
  qed
  then obtain s where "nu_url n = ''https://www.instagram.com/'' @ s @ ''/''" by blast
  then show ?thesis using strip_url[of s] by simp
qed

text \<open>C26. The products an administrator assigns to a new post are the ones a customer's comment leads to: the
  cleaned SKUs without repetition, in the order of the request, for every way to write the URL of the post,
  at any later time, and whatever the table already holds.\<close>

theorem created_content_resolves:
  assumes "create_instagram_content now ttl i url skus known stories db = (Inr (), db')"
    and "normalize_instagram_url url = Inr n" "nu_type n \<noteq> ''story''"
    and "normalize_instagram_url v = Inr n"
  shows "resolve_content_product_mapping later None (Some v) db' =
     Resolved i (dedupe (filter (\<lambda>k. k \<noteq> []) (map py_strip skus)))"
proof -
  let ?r = "post_row i url n"
  obtain ds where ds: "validate_product_skus skus known = Inr ds"
    using assms(1,2) by (auto simp: create_instagram_content_def split: sum.splits)
  have v: "ds = dedupe (filter (\<lambda>k. k \<noteq> []) (map py_strip skus))" "ds \<noteq> []" "distinct ds"
      "\<forall>k \<in> set ds. k \<noteq> [] \<and> py_strip k = k" using validated_skus[OF ds] by blast+
  have st: "store_rows (cd_rows db @ [?r]) db = (Inr (), db\<lparr>cd_rows := cd_rows db @ [?r]\<rparr>)"
      "content_indexed (cd_rows db @ [?r])"
      "db' = replace_product_mappings i ds (db\<lparr>cd_rows := cd_rows db @ [?r]\<rparr>)"
    using assms(1-3) ds
    by (auto simp: create_instagram_content_def settle_content_def store_rows_def http_error_def split: if_splits)
  let ?u = "Some (nu_url n)"
  have r: "ic_normal ?r = ?u" "ic_id ?r = i" "live_content later ?r" using assms(3) by (auto simp: post_row_def live_content_def)
  have rows: "cd_rows db' = cd_rows db @ [?r]" by (simp add: st(3) replace_product_mappings_def)
  have u: "nu_url n \<noteq> []" "py_strip (nu_url n) = nu_url n" using normal_url_stripped[OF assms(4)] by auto
  have "normalize_instagram_url [] = Inl ''Instagram URLs must use HTTPS.''" by code_simp
  then have "v \<noteq> []" using assms(4) by auto
  then have nv: "normal_of (Some v) = ?u" using assms(4) by (simp add: normal_of_def)
  have one: "filter (\<lambda>x. ic_normal x = ?u) (cd_rows db') = [?r]"
    unfolding rows by (rule uniquely_single) (use st(2) r(1) in \<open>auto simp: content_indexed_def\<close>)
  have "filter (\<lambda>x. live_content later x \<and> identified None ?u x) (cd_rows db') =
      filter (live_content later) (filter (\<lambda>x. ic_normal x = ?u) (cd_rows db'))"
    by (simp add: identified_def conj_commute)
  then have f: "filter (\<lambda>x. live_content later x \<and> identified None ?u x) (cd_rows db') = [?r]" using one r(3) by simp
  have "products_of db' i = ds" unfolding st(3) by (rule products_of_replaced[OF v(3,4)])
  moreover have "clean_id None = None" by code_simp
  moreover have "\<not> conflicting ?u [?u]" "\<not> conflicting None xs" for xs
    using u by (simp_all add: conflicting_def dedupe_def)
  ultimately have "resolve_content_product_mapping later None (Some v) db' = Resolved i ds"
    using v(2) r(1,2) f nv by (simp add: resolve_content_product_mapping_def dedupe_def split: list.splits)
  then show ?thesis by (simp only: v(1))
qed

theorem created_content_resolves_witness:
  "resolve_content_product_mapping 5 None (Some ''HTTPS://instagram.com/P/Ab_1?x=1'')
     (snd (create_instagram_content 0 24 ''c1'' ''https://www.instagram.com/p/Ab_1'' ['' B'', ''A'', ''B''] [''A'', ''B''] (Inl ()) \<lparr>cd_rows = [], cd_products = []\<rparr>))
   = Resolved ''c1'' [''B'', ''A'']"
proof -
  let ?c = "create_instagram_content 0 24 ''c1'' ''https://www.instagram.com/p/Ab_1'' ['' B'', ''A'', ''B''] [''A'', ''B''] (Inl ()) \<lparr>cd_rows = [], cd_products = []\<rparr>"
  have "fst ?c = Inr ()" by code_simp
  then have c: "?c = (Inr (), snd ?c)" by (metis prod.collapse)
  have n: "normalize_instagram_url ''https://www.instagram.com/p/Ab_1'' = Inr (post_address ''p'' ''Ab_1'')" by code_simp
  have v: "normalize_instagram_url ''HTTPS://instagram.com/P/Ab_1?x=1'' = Inr (post_address ''p'' ''Ab_1'')" by code_simp
  have t: "nu_type (post_address ''p'' ''Ab_1'') \<noteq> ''story''" by code_simp
  have "dedupe (filter (\<lambda>k. k \<noteq> []) (map py_strip ['' B'', ''A'', ''B''])) = [''B'', ''A'']" by code_simp
  with created_content_resolves[OF c n t v, of 5] show ?thesis by simp
qed

end
