(* ===== verification/Meta_Events.thy ===== *)
theory Meta_Events
  imports Kommo_Auth Kommo_Jobs
begin

text \<open>
  Events of Instagram that Meta delivers beside Kommo (\<open>integrations/meta_context/parser.py\<close>,
  \<open>normalization.py\<close>, \<open>models.py\<close>, \<open>store_context_event\<close> of \<open>service.py\<close> and
  \<open>webhooks/meta_instagram_context.py\<close>): comments and replies to Stories, read from a signed body and stored
  once. Times are whole seconds; reading a date in ISO form is the argument \<open>dates\<close>.
\<close>

section \<open>Names\<close>

definition casefold :: "string \<Rightarrow> string" where
  "casefold s = concat (map casefold_char s)"

definition normalize_username :: "string option \<Rightarrow> string option" where
  "normalize_username v =
     (let t = dropWhile (\<lambda>c. c = CHR ''@'') (casefold (py_strip (opt_str v))) in if t = [] then None else Some t)"

definition profile_hosts :: "string list" where
  "profile_hosts = [''instagram.com'', ''www.instagram.com'', ''m.instagram.com'']"

definition username_from_profile_url :: "string option \<Rightarrow> string option" where
  "username_from_profile_url v =
     (if py_strip (opt_str v) = [] then None
      else case urlsplit (py_strip (opt_str v)) of
        Inl _ \<Rightarrow> None
      | Inr u \<Rightarrow>
          if casefold (su_hostname u) \<notin> set profile_hosts then None
          else (case filter (\<lambda>p. p \<noteq> []) (path_segments (su_path u)) of
                  [name] \<Rightarrow> normalize_username (Some name) | _ \<Rightarrow> None))"

definition text_hash :: "(string \<Rightarrow> string) \<Rightarrow> string option \<Rightarrow> string" where
  "text_hash sha v = sha (normalize_message_text (opt_str v))"

section \<open>Reading an event\<close>

record context_event =
  ce_external :: string
  ce_type :: string
  ce_account :: "string option"
  ce_sender :: "string option"
  ce_username :: "string option"
  ce_text :: string
  ce_time :: int
  ce_comment :: "string option"
  ce_parent :: "string option"
  ce_message :: "string option"
  ce_media :: "string option"
  ce_product_type :: "string option"
  ce_story :: "string option"
  ce_story_url :: "string option"

definition context_text :: "json \<Rightarrow> string option" where
  "context_text v = (let t = py_strip (j_str_or_empty v) in if t = [] then None else Some t)"

definition dict_or_empty :: "json \<Rightarrow> (string \<times> json) list" where
  "dict_or_empty v = (case v of JObj d _ \<Rightarrow> d | _ \<Rightarrow> [])"

definition is_true :: "json \<Rightarrow> bool" where
  "is_true v = (v = JVal (PBool True))"

definition first_text :: "(string \<times> json) list \<Rightarrow> string \<Rightarrow> json \<Rightarrow> string option" where
  "first_text d k other = context_text (json_or (jget d k) other)"

text \<open>\<open>str(value).replace(".", "", 1).isdigit()\<close>.\<close>

definition number_text :: "string \<Rightarrow> bool" where
  "number_text s = (let t = before (CHR ''.'') s @ after_first (CHR ''.'') s in t \<noteq> [] \<and> list_all py_isdigit t)"

definition is_number :: "json \<Rightarrow> bool" where
  "is_number v = (case v of JVal (PBool _) \<Rightarrow> True | JVal (PInt _) \<Rightarrow> True | JVal (PFloat _ _) \<Rightarrow> True | _ \<Rightarrow> False)"

text \<open>The years a date can have, 1 to 9999, in seconds.\<close>

definition date_of_number :: "rat \<Rightarrow> int option" where
  "date_of_number n =
     (let t = (if 10000000000 < n then n / 1000 else n) in
      if - 62135596800 \<le> t \<and> t < 253402300800 then Some \<lfloor>t\<rfloor> else None)"

definition timestamp :: "(string \<Rightarrow> int option) \<Rightarrow> json \<Rightarrow> py_exc + int option" where
  "timestamp dates v =
     (if v = JVal PNone \<or> v = JVal (PStr []) then Inr None
      else if is_number v \<or> number_text (j_str v)
      then (case j_float v of Inl e \<Rightarrow> Inl e | Inr n \<Rightarrow> Inr (date_of_number n))
      else Inr (dates (j_str v)))"

fun first_time :: "(string \<Rightarrow> int option) \<Rightarrow> json list \<Rightarrow> int \<Rightarrow> py_exc + int" where
  "first_time dates [] t = Inr t"
| "first_time dates (v # vs) t =
     (case timestamp dates v of Inl e \<Rightarrow> Inl e | Inr (Some x) \<Rightarrow> Inr x | Inr None \<Rightarrow> first_time dates vs t)"

definition own_message :: "(string \<times> json) list \<Rightarrow> (string \<times> json) list \<Rightarrow> bool" where
  "own_message v m = (list_ex (\<lambda>k. is_true (jget m k)) [''is_echo'', ''is_self'', ''is_deleted'', ''deleted'']
     \<or> is_true (jget v ''is_echo'') \<or> is_true (jget v ''is_self''))"

definition parse_story_reply ::
    "(string \<Rightarrow> int option) \<Rightarrow> int \<Rightarrow> string option \<Rightarrow> int option \<Rightarrow> json \<Rightarrow> py_exc + context_event option" where
  "parse_story_reply dates now account entry_time value =
     (case value of
        JObj v _ \<Rightarrow>
         (case jget v ''message'' of
            JObj m _ \<Rightarrow>
             (let sender = dict_or_empty (jget v ''sender''); sid = context_text (jget sender ''id'');
                  story = dict_or_empty (jget (dict_or_empty (jget m ''reply_to'')) ''story'');
                  story_id = context_text (jget story ''id''); mid = first_text m ''mid'' (jget m ''message_id'') in
              if own_message v m \<or> sid = account \<or> story_id = None \<or> mid = None \<or> sid = None then Inr None
              else (case first_time dates [jget v ''timestamp'', jget m ''timestamp''] (case entry_time of Some t \<Rightarrow> t | None \<Rightarrow> now) of
                      Inl e \<Rightarrow> Inl e
                    | Inr t \<Rightarrow> Inr (Some \<lparr>ce_external = opt_str mid, ce_type = ''story_reply'', ce_account = account, ce_sender = sid,
                        ce_username = context_text (jget sender ''username''), ce_text = opt_str (context_text (jget m ''text'')), ce_time = t,
                        ce_comment = None, ce_parent = None, ce_message = mid, ce_media = story_id, ce_product_type = None,
                        ce_story = story_id, ce_story_url = context_text (jget story ''url'')\<rparr>)))
          | _ \<Rightarrow> Inr None)
      | _ \<Rightarrow> Inr None)"

definition comment_event_of ::
    "(string \<times> json) list \<Rightarrow> string option \<Rightarrow> string option \<Rightarrow> int \<Rightarrow> context_event" where
  "comment_event_of v account sid t =
     (let media = dict_or_empty (jget v ''media''); from = dict_or_empty (jget v ''from'');
          sender = (if from = [] then dict_or_empty (jget v ''sender'') else from);
          parent = dict_or_empty (jget v ''parent'');
          cid = first_text v ''comment_id'' (jget v ''id''); mid = first_text v ''message_id'' (jget v ''mid'') in
      \<lparr>ce_external = opt_str (case context_text (jget v ''event_id'') of Some x \<Rightarrow> Some x | None \<Rightarrow> (case cid of Some x \<Rightarrow> Some x | None \<Rightarrow> mid)),
       ce_type = ''comment'', ce_account = account, ce_sender = sid,
       ce_username = first_text sender ''username'' (jget v ''sender_username''),
       ce_text = opt_str (first_text v ''text'' (jget v ''message'')), ce_time = t, ce_comment = cid,
       ce_parent = context_text (json_or (json_or (jget v ''parent_comment_id'') (jget v ''parent_id'')) (jget parent ''id'')),
       ce_message = mid, ce_media = first_text v ''media_id'' (jget media ''id''),
       ce_product_type = first_text v ''media_product_type'' (jget media ''media_product_type''),
       ce_story = context_text (jget v ''story_id''), ce_story_url = context_text (jget v ''story_url'')\<rparr>)"

definition parse_comment_value ::
    "(string \<Rightarrow> int option) \<Rightarrow> int \<Rightarrow> string option \<Rightarrow> string option \<Rightarrow> int option \<Rightarrow> json \<Rightarrow> py_exc + context_event option" where
  "parse_comment_value dates now field account entry_time value =
     (case value of
        JObj v _ \<Rightarrow>
         (let f = casefold (opt_str field); from = dict_or_empty (jget v ''from'');
              sender = (if from = [] then dict_or_empty (jget v ''sender'') else from);
              sid = first_text sender ''id'' (jget v ''sender_id'');
              effective = (case context_text (jget v ''instagram_account_id'') of Some a \<Rightarrow> Some a | None \<Rightarrow> account) in
          if f \<noteq> [] \<and> f \<notin> {''comments'', ''comment''} then Inr None
          else if is_true (jget v ''is_echo'') \<or> is_true (jget v ''is_self'') \<or> (sid \<noteq> None \<and> sid = effective) then Inr None
          else (let e = comment_event_of v effective sid 0 in
                if ce_comment e = None \<and> ce_message e = None then Inr None
                else if f = [] \<and> ce_text e = [] \<and> ce_media e = None then Inr None
                else (case first_time dates [jget v ''created_time'', jget v ''timestamp''] (case entry_time of Some t \<Rightarrow> t | None \<Rightarrow> now) of
                        Inl x \<Rightarrow> Inl x
                      | Inr t \<Rightarrow> Inr (Some (comment_event_of v effective sid t)))))
      | _ \<Rightarrow> Inr None)"

section \<open>Reading a body\<close>

text \<open>What a loop over \<open>value or []\<close> goes through.\<close>

definition items_of :: "json \<Rightarrow> py_exc + json list" where
  "items_of v =
     (if \<not> j_truthy v then Inr []
      else case v of
        JList xs _ \<Rightarrow> Inr xs
      | JObj d _ \<Rightarrow> Inr (map (\<lambda>(k, _). JVal (PStr k)) d)
      | JVal (PStr s) \<Rightarrow> Inr (map (\<lambda>c. JVal (PStr [c])) s)
      | _ \<Rightarrow> Inl (TypeError ''object is not iterable''))"

fun gather :: "('a \<Rightarrow> py_exc + 'b list) \<Rightarrow> 'a list \<Rightarrow> py_exc + 'b list" where
  "gather f [] = Inr []"
| "gather f (x # xs) =
     (case f x of
        Inl e \<Rightarrow> Inl e
      | Inr ys \<Rightarrow> (case gather f xs of Inl e \<Rightarrow> Inl e | Inr zs \<Rightarrow> Inr (ys @ zs)))"

definition listed :: "py_exc + 'a option \<Rightarrow> py_exc + 'a list" where
  "listed r = (case r of Inl e \<Rightarrow> Inl e | Inr None \<Rightarrow> Inr [] | Inr (Some x) \<Rightarrow> Inr [x])"

definition change_of :: "json \<Rightarrow> (string option \<times> json) list" where
  "change_of c = (case c of JObj d _ \<Rightarrow> [(context_text (jget d ''field''), jget d ''value'')] | _ \<Rightarrow> [])"

definition field_values :: "json \<Rightarrow> json list" where
  "field_values raw = (case raw of JList xs _ \<Rightarrow> xs | _ \<Rightarrow> [raw])"

definition parse_entry :: "(string \<Rightarrow> int option) \<Rightarrow> int \<Rightarrow> json \<Rightarrow> py_exc + context_event list" where
  "parse_entry dates now entry =
     (case entry of
        JObj d _ \<Rightarrow>
         (let account = context_text (jget d ''id'') in
          case timestamp dates (jget d ''time'') of
            Inl e \<Rightarrow> Inl e
          | Inr time \<Rightarrow>
         (case items_of (jget d ''messaging'') of
            Inl e \<Rightarrow> Inl e
          | Inr ms \<Rightarrow>
         (case gather (\<lambda>m. listed (parse_story_reply dates now account time m)) ms of
            Inl e \<Rightarrow> Inl e
          | Inr replies \<Rightarrow>
         (case items_of (jget d ''changes'') of
            Inl e \<Rightarrow> Inl e
          | Inr cs \<Rightarrow>
             (let direct = (if map_of d ''value'' = None then [] else [(context_text (jget d ''field''), jget d ''value'')]);
                  candidates = direct @ concat (map change_of cs) in
              case gather (\<lambda>(f, raw). gather (\<lambda>v. listed (parse_comment_value dates now f account time v)) (field_values raw)) candidates of
                Inl e \<Rightarrow> Inl e
              | Inr comments \<Rightarrow> Inr (replies @ comments))))))
      | _ \<Rightarrow> Inr [])"

definition parse_instagram_context_events :: "(string \<Rightarrow> int option) \<Rightarrow> int \<Rightarrow> json \<Rightarrow> py_exc + context_event list" where
  "parse_instagram_context_events dates now payload =
     (case payload of
        JObj d _ \<Rightarrow>
          if jget d ''object'' \<noteq> JVal (PStr ''instagram'') then Inr []
          else (case items_of (jget d ''entry'') of Inl e \<Rightarrow> Inl e | Inr es \<Rightarrow> gather (parse_entry dates now) es)
      | _ \<Rightarrow> Inr [])"

section \<open>The table\<close>

record context_row =
  cx_id :: string
  cx_external :: string
  cx_type :: string
  cx_account :: "string option"
  cx_sender :: "string option"
  cx_username :: "string option"
  cx_text :: "string option"
  cx_hash :: string
  cx_time :: int
  cx_comment :: "string option"
  cx_parent :: "string option"
  cx_message :: "string option"
  cx_media :: "string option"
  cx_media_type :: "string option"
  cx_product_type :: "string option"
  cx_story :: "string option"
  cx_story_url :: "string option"
  cx_permalink :: "string option"
  cx_caption :: "string option"
  cx_media_time :: "int option"
  cx_thumbnail :: "string option"
  cx_status :: string
  cx_job :: "string option"
  cx_details :: "(string \<times> json) list"
  cx_expires :: int
  cx_created :: int

definition context_row_of :: "int \<Rightarrow> int \<Rightarrow> (string \<Rightarrow> string) \<Rightarrow> string \<Rightarrow> context_event \<Rightarrow> context_row" where
  "context_row_of now hours sha new_id e = \<lparr>cx_id = new_id, cx_external = ce_external e, cx_type = ce_type e, cx_account = ce_account e,
     cx_sender = ce_sender e, cx_username = ce_username e, cx_text = Some (ce_text e), cx_hash = text_hash sha (Some (ce_text e)),
     cx_time = ce_time e, cx_comment = ce_comment e, cx_parent = ce_parent e, cx_message = ce_message e, cx_media = ce_media e,
     cx_media_type = None, cx_product_type = ce_product_type e, cx_story = ce_story e, cx_story_url = ce_story_url e,
     cx_permalink = None, cx_caption = None, cx_media_time = None, cx_thumbnail = None, cx_status = ''pending'', cx_job = None,
     cx_details = [], cx_expires = now + 3600 * hours, cx_created = now\<rparr>"

definition repeats :: "context_event \<Rightarrow> context_row \<Rightarrow> bool" where
  "repeats e r = (cx_external r = ce_external e \<or> (ce_comment e \<noteq> None \<and> cx_comment r = ce_comment e)
     \<or> (ce_message e \<noteq> None \<and> cx_message r = ce_message e))"

datatype stored_event = Event_Created string | Event_Duplicate string

definition store_context_event ::
    "int \<Rightarrow> int \<Rightarrow> (string \<Rightarrow> string) \<Rightarrow> string \<Rightarrow> context_event \<Rightarrow> context_row list \<Rightarrow> stored_event \<times> context_row list" where
  "store_context_event now hours sha new_id e t =
     (case sort_key (\<lambda>r. - cx_created r) (filter (repeats e) t) of
        [] \<Rightarrow> (Event_Created new_id, t @ [context_row_of now hours sha new_id e])
      | r # _ \<Rightarrow> (Event_Duplicate (cx_id r), t))"

section \<open>The webhook\<close>

record webhook_config =
  cc_comments :: bool
  cc_stories :: bool
  cc_account :: string
  cc_hours :: int

definition wanted_event :: "webhook_config \<Rightarrow> context_event \<Rightarrow> bool" where
  "wanted_event cfg e = (\<not> (ce_type e = ''comment'' \<and> \<not> cc_comments cfg) \<and> \<not> (ce_type e = ''story_reply'' \<and> \<not> cc_stories cfg)
     \<and> ce_account e = Some (cc_account cfg))"

fun store_events ::
    "webhook_config \<Rightarrow> int \<Rightarrow> (string \<Rightarrow> string) \<Rightarrow> (nat \<Rightarrow> string) \<Rightarrow> nat \<Rightarrow> context_event list \<Rightarrow> context_row list \<Rightarrow> string list \<times> context_row list" where
  "store_events cfg now sha ids k [] t = ([], t)"
| "store_events cfg now sha ids k (e # es) t =
     (if \<not> wanted_event cfg e then store_events cfg now sha ids k es t
      else (case store_context_event now (cc_hours cfg) sha (ids k) e t of
              (Event_Created i, t1) \<Rightarrow> (case store_events cfg now sha ids (k + 1) es t1 of (ns, t2) \<Rightarrow> (i # ns, t2))
            | (Event_Duplicate _, t1) \<Rightarrow> store_events cfg now sha ids (k + 1) es t1))"

text \<open>The answer is an HTTP status, or an exception of the parser; the identifiers are the events to process
  after the answer. \<open>signed\<close> says whether the signature of the body is right, \<open>body\<close> is what its JSON decodes to.\<close>

definition handle_instagram_context ::
    "webhook_config \<Rightarrow> (string \<Rightarrow> int option) \<Rightarrow> int \<Rightarrow> (string \<Rightarrow> string) \<Rightarrow> (nat \<Rightarrow> string) \<Rightarrow> bool \<Rightarrow> json option \<Rightarrow> context_row list
      \<Rightarrow> (py_exc + int) \<times> string list \<times> context_row list" where
  "handle_instagram_context cfg dates now sha ids signed body t =
     (if \<not> (cc_comments cfg \<or> cc_stories cfg) \<or> \<not> signed then (Inr 403, [], t)
      else case body of
        None \<Rightarrow> (Inr 400, [], t)
      | Some payload \<Rightarrow>
         (case parse_instagram_context_events dates now payload of
            Inl e \<Rightarrow> (Inl e, [], t)
          | Inr es \<Rightarrow> (case store_events cfg now sha ids 0 es t of (ns, t1) \<Rightarrow> (Inr 200, ns, t1))))"


section \<open>Stored once\<close>

definition context_indexed :: "context_row list \<Rightarrow> bool" where
  "context_indexed t = (distinct (map cx_external t) \<and> unique_among (\<lambda>r. cx_comment r \<noteq> None) cx_comment t
     \<and> unique_among (\<lambda>r. cx_message r \<noteq> None) cx_message t \<and> unique_among (\<lambda>r. cx_job r \<noteq> None) cx_job t)"

lemma store_context_cases:
  assumes "store_context_event now hours sha new_id e t = (r, t')"
  shows "(r = Event_Created new_id \<and> t' = t @ [context_row_of now hours sha new_id e] \<and> \<not> list_ex (repeats e) t)
    \<or> (\<exists>i. r = Event_Duplicate i) \<and> t' = t \<and> list_ex (repeats e) t"
proof -
  have "sort_key (\<lambda>r. - cx_created r) (filter (repeats e) t) = [] \<longleftrightarrow> \<not> list_ex (repeats e) t"
    by (metis filter_False filter_empty_conv list_ex_iff set_empty set_sort)
  then show ?thesis using assms by (auto simp: store_context_event_def split: list.splits)
qed

lemma repeats_own: "repeats e (context_row_of now hours sha i e)"
  by (simp add: repeats_def context_row_of_def)

lemma store_indexed:
  assumes "context_indexed t" "\<not> list_ex (repeats e) t"
  shows "context_indexed (t @ [context_row_of now hours sha i e])"
  using assms by (auto simp: context_indexed_def unique_among_def repeats_def context_row_of_def list_ex_iff)

lemma store_events_grow: "\<exists>new. snd (store_events cfg now sha ids k es t) = t @ new
    \<and> (\<forall>e \<in> set es. wanted_event cfg e \<longrightarrow> list_ex (repeats e) (t @ new)) \<and> (context_indexed t \<longrightarrow> context_indexed (t @ new))"
proof (induction es arbitrary: k t)
  case (Cons e es)
  show ?case
  proof (cases "wanted_event cfg e")
    case False
    then show ?thesis using Cons.IH[of k t] by auto
  next
    case True
    obtain r t1 where s: "store_context_event now (cc_hours cfg) sha (ids k) e t = (r, t1)" by fastforce
    have snd: "snd (store_events cfg now sha ids k (e # es) t) = snd (store_events cfg now sha ids (k + 1) es t1)"
      using True s by (auto split: stored_event.split prod.split)
    obtain new where new: "snd (store_events cfg now sha ids (k + 1) es t1) = t1 @ new"
      "\<forall>e \<in> set es. wanted_event cfg e \<longrightarrow> list_ex (repeats e) (t1 @ new)" "context_indexed t1 \<longrightarrow> context_indexed (t1 @ new)"
      using Cons.IH[of "k + 1" t1] by blast
    from store_context_cases[OF s] show ?thesis
    proof
      assume "r = Event_Created (ids k) \<and> t1 = t @ [context_row_of now (cc_hours cfg) sha (ids k) e] \<and> \<not> list_ex (repeats e) t"
      then show ?thesis using new store_indexed[of t e] repeats_own
        by (intro exI[of _ "[context_row_of now (cc_hours cfg) sha (ids k) e] @ new"]) (auto simp: snd simp del: store_events.simps)
    next
      assume "(\<exists>i. r = Event_Duplicate i) \<and> t1 = t \<and> list_ex (repeats e) t"
      then show ?thesis using new by (intro exI[of _ new]) (auto simp: snd list_ex_append simp del: store_events.simps)
    qed
  qed
qed simp

lemma store_events_known:
  "(\<forall>e \<in> set es. wanted_event cfg e \<longrightarrow> list_ex (repeats e) t) \<Longrightarrow> store_events cfg now sha ids k es t = ([], t)"
proof (induction es arbitrary: k)
  case (Cons e es)
  obtain r t1 where s: "store_context_event now (cc_hours cfg) sha (ids k) e t = (r, t1)" by fastforce
  from store_context_cases[OF s] Cons show ?case using s by auto
qed simp

text \<open>An event without its time, which for some bodies is the time of the delivery.\<close>

definition timeless :: "py_exc + context_event list \<Rightarrow> py_exc + context_event list" where
  "timeless r = (case r of Inl e \<Rightarrow> Inl e | Inr es \<Rightarrow> Inr (map (\<lambda>e. e\<lparr>ce_time := 0\<rparr>) es))"

lemma first_time_error: "first_time dates vs t = Inl e \<longleftrightarrow> first_time dates vs t' = Inl e"
  by (induction vs) (auto split: sum.split option.split)

lemma time_only:
  assumes "\<And>x y. (g x)\<lparr>ce_time := 0\<rparr> = (g y)\<lparr>ce_time := 0\<rparr>"
  shows "timeless (listed (case first_time dates vs t of Inl e \<Rightarrow> Inl e | Inr x \<Rightarrow> Inr (Some (g x)))) =
     timeless (listed (case first_time dates vs t' of Inl e \<Rightarrow> Inl e | Inr x \<Rightarrow> Inr (Some (g x))))"
proof (cases "first_time dates vs t")
  case (Inl e)
  then have "first_time dates vs t' = Inl e" using first_time_error by blast
  then show ?thesis using Inl by simp
next
  case (Inr x)
  then have "first_time dates vs t' \<noteq> Inl e" for e using first_time_error[of dates vs t' e t] by simp
  then obtain y where "first_time dates vs t' = Inr y" by (cases "first_time dates vs t'") auto
  then show ?thesis using Inr assms[of x y] by (simp add: timeless_def listed_def)
qed

lemma listed_if: "timeless (listed (if c then x else y)) = (if c then timeless (listed x) else timeless (listed y))"
  by simp

lemma story_timeless: "timeless (listed (parse_story_reply dates now a time m)) = timeless (listed (parse_story_reply dates later a time m))"
proof (cases m)
  case m: (JObj v x)
  show ?thesis
  proof (cases "jget v ''message''")
    case (JObj w y)
    show ?thesis unfolding m parse_story_reply_def json.case Let_def JObj listed_if
      by (intro if_cong refl time_only) simp
  qed (simp_all add: m parse_story_reply_def)
qed (simp_all add: parse_story_reply_def)

lemma comment_timeless: "timeless (listed (parse_comment_value dates now f a time v)) = timeless (listed (parse_comment_value dates later f a time v))"
proof (cases v)
  case (JObj w x)
  have e: "(comment_event_of w b c x)\<lparr>ce_time := 0\<rparr> = (comment_event_of w b c y)\<lparr>ce_time := 0\<rparr>" for w b c x y
    by (simp add: comment_event_of_def Let_def)
  show ?thesis unfolding JObj parse_comment_value_def json.case Let_def listed_if
    by (intro if_cong refl time_only e)
qed (simp_all add: parse_comment_value_def)

lemma gather_timeless:
  assumes "\<And>x. x \<in> set xs \<Longrightarrow> timeless (f x) = timeless (g x)" shows "timeless (gather f xs) = timeless (gather g xs)"
  using assms
proof (induction xs)
  case (Cons x xs)
  have "timeless (f x) = timeless (g x)" "timeless (gather f xs) = timeless (gather g xs)" using Cons by auto
  then show ?case by (auto simp: timeless_def split: sum.splits)
qed simp

lemma timeless_append:
  "timeless x = timeless x' \<Longrightarrow> timeless y = timeless y' \<Longrightarrow>
   timeless (case x of Inl e \<Rightarrow> Inl e | Inr xs \<Rightarrow> (case z of Inl e \<Rightarrow> Inl e | Inr _ \<Rightarrow> (case y of Inl e \<Rightarrow> Inl e | Inr ys \<Rightarrow> Inr (xs @ ys)))) =
   timeless (case x' of Inl e \<Rightarrow> Inl e | Inr xs \<Rightarrow> (case z of Inl e \<Rightarrow> Inl e | Inr _ \<Rightarrow> (case y' of Inl e \<Rightarrow> Inl e | Inr ys \<Rightarrow> Inr (xs @ ys))))"
  by (auto simp: timeless_def split: sum.splits)

lemma entry_timeless: "timeless (parse_entry dates now d) = timeless (parse_entry dates later d)"
proof (cases d)
  case (JObj x t)
  have r: "timeless (gather (\<lambda>m. listed (parse_story_reply dates now a e m)) ms) = timeless (gather (\<lambda>m. listed (parse_story_reply dates later a e m)) ms)"
    for a e ms by (rule gather_timeless) (rule story_timeless)
  have c: "timeless (gather (\<lambda>(f, raw). gather (\<lambda>v. listed (parse_comment_value dates now f a e v)) (field_values raw)) cs) =
      timeless (gather (\<lambda>(f, raw). gather (\<lambda>v. listed (parse_comment_value dates later f a e v)) (field_values raw)) cs)" for a e cs
    by (rule gather_timeless) (auto intro!: gather_timeless comment_timeless)
  show ?thesis
  proof (cases "timestamp dates (jget x ''time'')")
    case (Inr e)
    show ?thesis
    proof (cases "items_of (jget x ''messaging'')")
      case i: (Inr ms)
      show ?thesis
      proof (cases "items_of (jget x ''changes'')")
        case c': (Inr cs)
        show ?thesis using timeless_append[OF r[of "context_text (jget x ''id'')" e ms] c[of "context_text (jget x ''id'')" e
            "(if map_of x ''value'' = None then [] else [(context_text (jget x ''field''), jget x ''value'')]) @ concat (map change_of cs)"],
            of "Inr cs :: py_exc + json list"]
          unfolding JObj parse_entry_def json.case Let_def Inr i c' sum.case by blast
      next
        case c': (Inl y)
        show ?thesis using timeless_append[OF r[of "context_text (jget x ''id'')" e ms] c[of "context_text (jget x ''id'')" e
            "(if map_of x ''value'' = None then [] else [(context_text (jget x ''field''), jget x ''value'')]) @ concat (map change_of [])"],
            of "Inl y :: py_exc + json list"]
          unfolding JObj parse_entry_def json.case Let_def Inr i c' sum.case by blast
      qed
    qed (simp add: JObj parse_entry_def Inr)
  qed (simp add: JObj parse_entry_def)
qed (simp_all add: parse_entry_def)

lemma parse_timeless: "timeless (parse_instagram_context_events dates now b) = timeless (parse_instagram_context_events dates later b)"
  unfolding parse_instagram_context_events_def
  by (auto split: json.split sum.split intro!: gather_timeless entry_timeless)

lemma repeats_timeless [simp]: "repeats (e\<lparr>ce_time := 0\<rparr>) r = repeats e r" "wanted_event cfg (e\<lparr>ce_time := 0\<rparr>) = wanted_event cfg e"
  by (simp_all add: repeats_def wanted_event_def)


text \<open>A comment without a time, delivered twice.\<close>

definition sample_body :: json where
  "sample_body = JObj [(''object'', JVal (PStr ''instagram'')), (''entry'', JList [JObj [(''id'', JVal (PStr ''a'')), (''changes'', JList [JObj
     [(''field'', JVal (PStr ''comments'')), (''value'', JObj [(''id'', JVal (PStr ''c'')), (''text'', JVal (PStr ''hi''))] [])] []] [])] []] [])] []"

definition sample_contexts :: webhook_config where
  "sample_contexts = \<lparr>cc_comments = True, cc_stories = False, cc_account = ''a'', cc_hours = 24\<rparr>"

definition first_delivery :: "(py_exc + int) \<times> string list \<times> context_row list" where
  "first_delivery = handle_instagram_context sample_contexts (\<lambda>_. None) 5 (\<lambda>t. t) (\<lambda>k. ''e'') True (Some sample_body) []"


end
