(* ===== verification/Meta_Correlation.thy ===== *)
theory Meta_Correlation
  imports Meta_Events Instagram_Content Channel_Mappings Kommo_Protocol
begin

text \<open>
  Matching events of Instagram with the Kommo jobs that wait for them (\<open>integrations/meta_context/correlation.py\<close>)
  and what follows a match (\<open>service.py\<close>): candidates and their scores, the mutual best pair, ambiguities,
  deadlines, the enrichment from the media service and the release with the products of the post. A
  correlation is one transaction. Times in JSON are seconds, and a list or object that is only stored carries
  no text.
\<close>

section \<open>Settings and state\<close>

record correlation_env =
  ne_now :: int
  ne_sha :: "string \<Rightarrow> string"
  ne_comment_window :: int
  ne_story_window :: int
  ne_story_hours :: int
  ne_mappings :: "mapping_row list"
  ne_enabled :: bool

record correlation_db =
  xd_events :: "context_row list"
  xd_kommo :: kommo_db
  xd_content :: content_db

abbreviation xd_jobs :: "correlation_db \<Rightarrow> kommo_job list" where
  "xd_jobs db \<equiv> kj_jobs (xd_kommo db)"

definition set_events :: "(context_row \<Rightarrow> bool) \<Rightarrow> (context_row \<Rightarrow> context_row) \<Rightarrow> correlation_db \<Rightarrow> correlation_db" where
  "set_events p f db = db\<lparr>xd_events := upd_where p f (xd_events db)\<rparr>"

definition job_scope :: "kommo_job \<Rightarrow> string" where
  "job_scope j = py_lower (py_strip (if jb_interaction j = [] then private_message_scope else jb_interaction j))"

definition story_event :: "context_row \<Rightarrow> bool" where
  "story_event e = (cx_type e = ''story_reply'')"

definition scope_of_event :: "context_row \<Rightarrow> string" where
  "scope_of_event e = (if story_event e then private_message_scope else instagram_comment_scope)"

definition event_type_for_job :: "kommo_job \<Rightarrow> string" where
  "event_type_for_job j = (if job_scope j = private_message_scope then ''story_reply'' else ''comment'')"

definition event_window :: "correlation_env \<Rightarrow> context_row \<Rightarrow> int" where
  "event_window env e = (if story_event e then ne_story_window env else ne_comment_window env)"

definition job_window :: "correlation_env \<Rightarrow> kommo_job \<Rightarrow> int" where
  "job_window env j = (if job_scope j = private_message_scope then ne_story_window env else ne_comment_window env)"

section \<open>When a job's message came\<close>

definition own_receipts :: "kommo_job \<Rightarrow> kommo_db \<Rightarrow> kommo_receipt list" where
  "own_receipts j db = sort_key (\<lambda>r. - kr_created r) (filter (\<lambda>r. kr_job r = jb_id j \<and> Some (kr_message r) = jb_external j) (kj_receipts db))"

definition valid_iat :: "rat \<Rightarrow> rat option" where
  "valid_iat n = (if 0 \<le> n \<and> n \<le> 32503680000 then Some n else None)"

definition issued_at :: "kommo_job \<Rightarrow> rat option" where
  "issued_at j = (case jb_claims j of
      None \<Rightarrow> None
    | Some d \<Rightarrow> (case jget d ''iat'' of JVal (PInt n) \<Rightarrow> valid_iat (of_int n) | JVal (PFloat q _) \<Rightarrow> valid_iat q | _ \<Rightarrow> None))"

text \<open>The time and where it comes from: the receipt, the token of the callback, or the job itself.\<close>

definition job_time :: "kommo_job \<Rightarrow> kommo_db \<Rightarrow> rat \<times> string" where
  "job_time j db =
     (case filter (\<lambda>r. kr_received r \<noteq> None) (own_receipts j db) of
        r # _ \<Rightarrow> (of_int (case kr_received r of None \<Rightarrow> 0 | Some t \<Rightarrow> t), ''incoming_message_timestamp'')
      | [] \<Rightarrow>
         (case issued_at j of
            Some t \<Rightarrow> (t, ''salesbot_jwt_iat'')
          | None \<Rightarrow>
             (case own_receipts j db of
                r # _ \<Rightarrow> (of_int (kr_created r), ''callback_receipt_timestamp'')
              | [] \<Rightarrow> (of_int (jb_created j), ''job_created_at''))))"

definition receipt_at :: "kommo_receipt \<Rightarrow> int" where
  "receipt_at r = (case kr_received r of None \<Rightarrow> kr_created r | Some t \<Rightarrow> t)"

definition distance :: "context_row \<Rightarrow> rat \<Rightarrow> rat" where
  "distance e t = \<bar>of_int (cx_time e) - t\<bar>"

section \<open>Candidates\<close>

definition open_event :: "int \<Rightarrow> context_row \<Rightarrow> bool" where
  "open_event now e = (cx_status e \<in> {''pending'', ''ambiguous''} \<and> cx_job e = None \<and> now < cx_expires e)"

definition load_event :: "int \<Rightarrow> string \<Rightarrow> context_row list \<Rightarrow> context_row option" where
  "load_event now i t = find (\<lambda>e. cx_id e = i \<and> cx_type e \<in> {''comment'', ''story_reply''} \<and> open_event now e) t"

definition open_job :: "kommo_job \<Rightarrow> bool" where
  "open_job j = (jb_status j = JContext \<and> jb_channel j = Some ''instagram'' \<and> jb_context j \<in> {''pending'', ''ambiguous''} \<and> jb_event j = None)"

definition load_job :: "string \<Rightarrow> kommo_job list \<Rightarrow> kommo_job option" where
  "load_job i t = find (\<lambda>j. jb_id j = i \<and> open_job j) t"

definition receipt_matches :: "string \<Rightarrow> string \<Rightarrow> int \<Rightarrow> context_row \<Rightarrow> kommo_job \<Rightarrow> kommo_receipt \<Rightarrow> bool" where
  "receipt_matches scope hash window e j r = (kr_job r = jb_id j \<and> kr_channel r = Some ''instagram'' \<and> kr_interaction r = scope
     \<and> kr_hash r = hash \<and> distance e (of_int (receipt_at r)) \<le> of_int window)"

definition candidate_jobs :: "correlation_env \<Rightarrow> int \<Rightarrow> context_row \<Rightarrow> correlation_db \<Rightarrow> kommo_job list" where
  "candidate_jobs env window e db = sort_key jb_created (filter (\<lambda>j. open_job j \<and> jb_interaction j = scope_of_event e
     \<and> (list_ex (receipt_matches (scope_of_event e) (text_hash (ne_sha env) (cx_text e)) window e j) (kj_receipts (xd_kommo db))
        \<or> distance e (fst (job_time j (xd_kommo db))) \<le> of_int window)) (xd_jobs db))"

definition candidate_events :: "correlation_env \<Rightarrow> int \<Rightarrow> kommo_job \<Rightarrow> correlation_db \<Rightarrow> context_row list" where
  "candidate_events env window j db = sort_key cx_time (filter (\<lambda>e. cx_type e = event_type_for_job j \<and> open_event (ne_now env) e
     \<and> (list_ex (receipt_matches (job_scope j) (cx_hash e) window e j) (kj_receipts (xd_kommo db))
        \<or> distance e (fst (job_time j (xd_kommo db))) \<le> of_int window)) (xd_events db))"

text \<open>The nearest receipt first; among equal distances the older one.\<close>

definition matching_receipts :: "correlation_env \<Rightarrow> int \<Rightarrow> context_row \<Rightarrow> kommo_job \<Rightarrow> correlation_db \<Rightarrow> kommo_receipt list" where
  "matching_receipts env window e j db =
     (let hash = text_hash (ne_sha env) (cx_text e) in
      if hash = [] then []
      else sort_key (\<lambda>r. distance e (of_int (receipt_at r))) (sort_key kr_created
             (filter (receipt_matches (job_scope j) hash window e j) (kj_receipts (xd_kommo db)))))"

definition only_customer :: "(mapping_row \<Rightarrow> bool) \<Rightarrow> mapping_row list \<Rightarrow> string option" where
  "only_customer p maps = (case dedupe (map mp_customer (filter (\<lambda>m. mp_channel m = ''instagram'' \<and> p m) maps)) of
      [c] \<Rightarrow> clean_id (Some c) | _ \<Rightarrow> None)"

definition same_identifier :: "string option \<Rightarrow> string option \<Rightarrow> bool" where
  "same_identifier wanted stored = (wanted \<noteq> None \<and> stored = wanted)"

definition verified_customer_ids :: "correlation_env \<Rightarrow> context_row \<Rightarrow> kommo_job \<Rightarrow> string option \<times> string option" where
  "verified_customer_ids env e j =
     (let sender = py_strip (opt_str (cx_sender e)) in
      if sender = [] \<or> \<not> story_event e then (None, None)
      else (only_customer (\<lambda>m. mp_provider m = ''meta'' \<and> mp_author m = Some sender) (ne_mappings env),
            only_customer (\<lambda>m. mp_provider m = ''kommo'' \<and> (same_identifier (jb_contact j) (mp_contact m)
               \<or> same_identifier (jb_lead j) (mp_lead m) \<or> same_identifier (jb_chat j) (mp_chat m)
               \<or> same_identifier (jb_talk j) (mp_talk m) \<or> same_identifier (jb_author j) (mp_author m))) (ne_mappings env)))"

record candidate =
  cn_event :: context_row
  cn_job :: kommo_job
  cn_score :: int
  cn_distance :: rat
  cn_signals :: "string list"
  cn_receipt :: "kommo_receipt option"
  cn_receipts :: nat
  cn_text_source :: "string option"
  cn_time_source :: string

definition job_context :: "kommo_job \<Rightarrow> (string \<times> json) list" where
  "job_context j = (if job_scope j = private_message_scope then jb_content j else jb_public j)"

definition job_usernames :: "kommo_job \<Rightarrow> string list" where
  "job_usernames j = concat (map (\<lambda>v. case v of None \<Rightarrow> [] | Some x \<Rightarrow> [x])
     [normalize_username (kn_username (jb_names j)), normalize_username (kn_sender (jb_names j)),
      username_from_profile_url (kn_url (jb_names j)), username_from_profile_url (kn_sender_url (jb_names j))])"

text \<open>The signals of a pair, each with its points.\<close>

record pair_facts =
  pf_comment :: bool
  pf_identity :: bool
  pf_username :: bool
  pf_text :: bool
  pf_receipt :: bool
  pf_distance :: rat

definition pair_signals :: "pair_facts \<Rightarrow> (int \<times> string) list" where
  "pair_signals p = (if pf_comment p then [(100, ''comment_id'')] else [])
     @ (if pf_identity p then [(120, ''customer_identity'')] else [])
     @ (if pf_username p then [(40, ''username'')] else [])
     @ (if pf_text p then [(30, if pf_receipt p then ''receipt_text'' else ''text'')] else [])
     @ [if pf_distance p \<le> 5 then (20, ''time_5s'') else if pf_distance p \<le> 15 then (10, ''time_15s'') else (5, ''time_window'')]"

definition same_comment :: "context_row \<Rightarrow> kommo_job \<Rightarrow> bool" where
  "same_comment e j = (let c = jget (job_context j) ''comment_id'' in
     opt_str (cx_comment e) \<noteq> [] \<and> j_truthy c \<and> opt_str (cx_comment e) = j_str c)"

definition pair_facts_of ::
    "correlation_env \<Rightarrow> context_row \<Rightarrow> kommo_job \<Rightarrow> kommo_receipt option \<Rightarrow> rat \<Rightarrow> pair_facts" where
  "pair_facts_of env e j r t =
     (let u = normalize_username (cx_username e); ids = verified_customer_ids env e j in
      \<lparr>pf_comment = same_comment e j, pf_identity = (fst ids \<noteq> None \<and> fst ids = snd ids),
       pf_username = (u \<noteq> None \<and> u \<in> Some ` set (job_usernames j)),
       pf_text = (r \<noteq> None \<or> text_hash (ne_sha env) (cx_text e) = text_hash (ne_sha env) (Some (jb_message j))),
       pf_receipt = (r \<noteq> None), pf_distance = distance e t\<rparr>)"

text \<open>Customers that are known and differ, or names that are known and differ, rule a pair out.\<close>

definition contradicts :: "correlation_env \<Rightarrow> context_row \<Rightarrow> kommo_job \<Rightarrow> pair_facts \<Rightarrow> bool" where
  "contradicts env e j p =
     (let ids = verified_customer_ids env e j in
      (fst ids \<noteq> None \<and> snd ids \<noteq> None \<and> \<not> pf_identity p)
      \<or> (\<not> pf_identity p \<and> normalize_username (cx_username e) \<noteq> None \<and> job_usernames j \<noteq> [] \<and> \<not> pf_username p))"

definition score_candidate ::
    "correlation_env \<Rightarrow> int \<Rightarrow> context_row \<Rightarrow> kommo_job \<Rightarrow> correlation_db \<Rightarrow> candidate option" where
  "score_candidate env window e j db =
     (let rs = matching_receipts env window e j db; r = (case rs of [] \<Rightarrow> None | x # _ \<Rightarrow> Some x);
          t = (case r of None \<Rightarrow> fst (job_time j (xd_kommo db)) | Some x \<Rightarrow> of_int (receipt_at x));
          p = pair_facts_of env e j r t in
      if of_int window < pf_distance p \<or> \<not> (pf_comment p \<or> pf_text p) \<or> contradicts env e j p then None
      else Some \<lparr>cn_event = e, cn_job = j, cn_score = sum_list (map fst (pair_signals p)), cn_distance = pf_distance p,
             cn_signals = map snd (pair_signals p), cn_receipt = r, cn_receipts = length rs,
             cn_text_source = (if pf_receipt p then Some ''receipt'' else if pf_text p then Some ''combined_message'' else None),
             cn_time_source = (case r of
                 None \<Rightarrow> snd (job_time j (xd_kommo db))
               | Some x \<Rightarrow> if kr_received x \<noteq> None then ''receipt_received_at'' else ''receipt_created_at'')\<rparr>)"

definition for_event :: "correlation_env \<Rightarrow> int \<Rightarrow> context_row \<Rightarrow> correlation_db \<Rightarrow> candidate list" where
  "for_event env window e db = List.map_filter (\<lambda>j. score_candidate env window e j db) (candidate_jobs env window e db)"

definition for_job :: "correlation_env \<Rightarrow> int \<Rightarrow> kommo_job \<Rightarrow> correlation_db \<Rightarrow> candidate list" where
  "for_job env window j db = List.map_filter (\<lambda>e. score_candidate env window e j db) (candidate_events env window j db)"

section \<open>The decision\<close>

datatype anchor = Event_Anchor string | Job_Anchor string

datatype correlation = C_Missing | C_Pending | C_Ambiguous nat int | C_Matched string string int

definition put_details :: "(string \<times> json) list \<Rightarrow> context_row \<Rightarrow> context_row" where
  "put_details d e = e\<lparr>cx_details := AList.merge d (cx_details e)\<rparr>"

definition merge_event_details :: "string \<Rightarrow> (string \<times> json) list \<Rightarrow> correlation_db \<Rightarrow> correlation_db" where
  "merge_event_details i d = set_events (\<lambda>e. cx_id e = i) (put_details d)"

definition js :: "string \<Rightarrow> json" where
  "js s = JVal (PStr s)"

definition most_receipts :: "candidate list \<Rightarrow> nat" where
  "most_receipts cs = fold max (map cn_receipts cs) 0"

definition mark_ambiguous :: "int \<Rightarrow> candidate list \<Rightarrow> correlation_db \<Rightarrow> correlation_db" where
  "mark_ambiguous now cs db =
     (let n = most_receipts cs;
          d = [(''reason'', js (if 1 < n then ''multiple_matching_receipts'' else ''equal_best_candidates'')),
               (''candidate_count'', JVal (PInt (int (if 1 < n then n else length cs))))];
          db1 = fold (\<lambda>i. set_events (\<lambda>e. cx_id e = i \<and> cx_job e = None) (\<lambda>e. put_details d (e\<lparr>cx_status := ''ambiguous''\<rparr>)))
                  (dedupe (map (\<lambda>c. cx_id (cn_event c)) cs)) db in
      db1\<lparr>xd_kommo := fold (mark_job_ambiguous now) (dedupe (map (\<lambda>c. jb_id (cn_job c)) cs)) (xd_kommo db1)\<rparr>)"

definition opt_js :: "string option \<Rightarrow> json" where
  "opt_js v = (case v of None \<Rightarrow> JVal PNone | Some s \<Rightarrow> js s)"

definition present_values :: "(string \<times> json) list \<Rightarrow> (string \<times> json) list" where
  "present_values = filter (\<lambda>(_, v). v \<noteq> JVal PNone)"

definition match_values :: "context_row \<Rightarrow> (string \<times> json) list" where
  "match_values e = present_values
     (if story_event e
      then [(''source'', js ''story_reply''), (''story_id'', opt_js (cx_story e)), (''story_url'', opt_js (cx_story_url e)),
            (''meta_sender_id'', opt_js (cx_sender e)), (''sender_username'', opt_js (cx_username e)),
            (''mapping_status'', js ''pending''), (''meta_context_event_id'', js (cx_id e))]
      else [(''comment_id'', opt_js (cx_comment e)), (''parent_comment_id'', opt_js (cx_parent e)), (''media_id'', opt_js (cx_media e)),
            (''post_id'', opt_js (cx_media e)), (''post_url'', opt_js (cx_permalink e)), (''post_caption'', opt_js (cx_caption e)),
            (''sender_username'', opt_js (cx_username e)), (''context_provider'', js ''meta''), (''correlation_status'', js ''matched'')])"

definition match_details :: "candidate \<Rightarrow> kommo_db \<Rightarrow> (string \<times> json) list" where
  "match_details c db = present_values
     [(''score'', JVal (PInt (cn_score c))), (''signals'', JList (map js (cn_signals c)) []),
      (''timestamp_difference_seconds'', JVal (PFloat (cn_distance c) [])),
      (''job_timestamp_source'', js (snd (job_time (cn_job c) db))),
      (''job_correlation_timestamp'', JVal (PFloat (case cn_receipt c of Some r \<Rightarrow> of_int (receipt_at r) | None \<Rightarrow> fst (job_time (cn_job c) db)) [])),
      (''text_match_source'', opt_js (cn_text_source c)), (''matched_external_message_id'', opt_js (map_option kr_message (cn_receipt c))),
      (''matched_receipt_timestamp_source'', js (cn_time_source c)),
      (''verified_sender_reused'', JVal (PBool (''customer_identity'' \<in> set (cn_signals c))))]"

text \<open>The unique index on the matched job can refuse the second statement; then the transaction has no effect.\<close>

definition persist_match :: "int \<Rightarrow> candidate \<Rightarrow> correlation_db \<Rightarrow> (py_exc + bool) \<times> correlation_db" where
  "persist_match now c db =
     (let e = cn_event c; jid = jb_id (cn_job c) in
      case match_context now jid (cx_id e) (story_event e) (cn_score c) (cx_username e) (match_values e) (xd_kommo db) of
        (Inl x, _) \<Rightarrow> (Inl x, db)
      | (Inr _, k) \<Rightarrow>
          if \<not> list_ex (\<lambda>j. awaits_context jid j \<and> jb_event j = None) (xd_jobs db) then (Inr False, db)
          else (let db1 = set_events (\<lambda>r. cx_id r = cx_id e \<and> cx_job r = None)
                       (\<lambda>r. put_details (match_details c (xd_kommo db)) (r\<lparr>cx_status := ''matched'', cx_job := Some jid\<rparr>)) db in
                if context_indexed (xd_events db1) then (Inr True, db1\<lparr>xd_kommo := k\<rparr>) else (Inl unique_violation, db)))"

definition top_score :: "candidate list \<Rightarrow> int" where
  "top_score cs = fold (\<lambda>c m. max (cn_score c) m) cs 0"

definition winners :: "candidate list \<Rightarrow> candidate list" where
  "winners cs = filter (\<lambda>c. cn_score c = top_score cs) cs"

definition same_pair :: "candidate \<Rightarrow> candidate \<Rightarrow> bool" where
  "same_pair c d = (cx_id (cn_event c) = cx_id (cn_event d) \<and> jb_id (cn_job c) = jb_id (cn_job d))"

definition opposite_candidates :: "correlation_env \<Rightarrow> anchor \<Rightarrow> int \<Rightarrow> candidate \<Rightarrow> correlation_db \<Rightarrow> candidate list" where
  "opposite_candidates env a window c db =
     (case a of Event_Anchor _ \<Rightarrow> for_job env window (cn_job c) db | Job_Anchor _ \<Rightarrow> for_event env window (cn_event c) db)"

definition ambiguous_among :: "int \<Rightarrow> candidate list \<Rightarrow> correlation_db \<Rightarrow> (py_exc + correlation) \<times> correlation_db" where
  "ambiguous_among now cs db = (Inr (C_Ambiguous (length cs) (top_score cs)), mark_ambiguous now cs db)"

definition settle_pair :: "correlation_env \<Rightarrow> anchor \<Rightarrow> int \<Rightarrow> candidate \<Rightarrow> correlation_db \<Rightarrow> (py_exc + correlation) \<times> correlation_db" where
  "settle_pair env a window c db =
     (let opposite = opposite_candidates env a window c db in
      if opposite = [] then (Inr C_Pending, db)
      else case winners opposite of
        [d] \<Rightarrow>
          if \<not> same_pair c d then (Inr C_Pending, db)
          else (case persist_match (ne_now env) c db of
                  (Inl x, db1) \<Rightarrow> (Inl x, db1)
                | (Inr False, db1) \<Rightarrow> (Inr C_Pending, db1)
                | (Inr True, db1) \<Rightarrow> (Inr (C_Matched (cx_id (cn_event c)) (jb_id (cn_job c)) (cn_score c)), db1))
      | ds \<Rightarrow> ambiguous_among (ne_now env) ds db)"

definition choose_pair :: "correlation_env \<Rightarrow> anchor \<Rightarrow> int \<Rightarrow> candidate list \<Rightarrow> correlation_db \<Rightarrow> (py_exc + correlation) \<times> correlation_db" where
  "choose_pair env a window cs db =
     (let many = filter (\<lambda>c. 1 < cn_receipts c) cs in
      if cs = [] then (Inr C_Pending, db)
      else if many \<noteq> [] then (Inr (C_Ambiguous (most_receipts many) (top_score many)), mark_ambiguous (ne_now env) many db)
      else case winners cs of [c] \<Rightarrow> settle_pair env a window c db | ws \<Rightarrow> ambiguous_among (ne_now env) ws db)"

definition correlate :: "correlation_env \<Rightarrow> anchor \<Rightarrow> correlation_db \<Rightarrow> (py_exc + correlation) \<times> correlation_db" where
  "correlate env a db =
     (case a of
        Event_Anchor i \<Rightarrow>
          (case load_event (ne_now env) i (xd_events db) of
             None \<Rightarrow> (Inr C_Missing, db)
           | Some e \<Rightarrow> choose_pair env a (event_window env e) (for_event env (event_window env e) e db) db)
      | Job_Anchor i \<Rightarrow>
          (case load_job i (xd_jobs db) of
             None \<Rightarrow> (Inr C_Missing, db)
           | Some j \<Rightarrow> choose_pair env a (job_window env j) (for_job env (job_window env j) j db) db))"


section \<open>After a match\<close>

definition retry_minutes :: int where
  "retry_minutes = 30"

definition mapping_retry_is_due :: "int \<Rightarrow> (string \<times> json) list \<Rightarrow> bool" where
  "mapping_retry_is_due now d =
     (jget d ''mapping_status'' \<noteq> js ''not_found''
      \<or> (case jget d ''mapping_next_retry_at'' of JVal (PInt t) \<Rightarrow> t = 0 \<or> t \<le> now | _ \<Rightarrow> True))"

definition drop_details :: "string list \<Rightarrow> context_row \<Rightarrow> context_row" where
  "drop_details ks e = e\<lparr>cx_details := filter (\<lambda>(k, _). k \<notin> set ks) (cx_details e)\<rparr>"

definition record_mapping_not_found :: "int \<Rightarrow> string \<Rightarrow> correlation_db \<Rightarrow> correlation_db" where
  "record_mapping_not_found now i = set_events (\<lambda>e. cx_id e = i)
     (\<lambda>e. put_details [(''mapping_status'', js ''not_found''), (''mapping_next_retry_at'', JVal (PInt (now + 60 * retry_minutes)))]
            (drop_details [''mapping_error'', ''mapping_conflict''] e))"

definition record_mapping_status :: "string \<Rightarrow> string \<Rightarrow> bool option \<Rightarrow> correlation_db \<Rightarrow> correlation_db" where
  "record_mapping_status i st applied = set_events (\<lambda>e. cx_id e = i)
     (\<lambda>e. put_details ((''mapping_status'', js st) # (case applied of None \<Rightarrow> [] | Some b \<Rightarrow> [(''product_mapping_applied'', JVal (PBool b))]))
            (drop_details [''mapping_next_retry_at'', ''mapping_error'', ''mapping_conflict''] e))"

text \<open>A value of a context as an identifier, when it has one.\<close>

definition value_text :: "(string \<times> json) list \<Rightarrow> string \<Rightarrow> string option" where
  "value_text d k = (if j_truthy (jget d k) then Some (j_str (jget d k)) else None)"

definition json_list :: "json list \<Rightarrow> json" where
  "json_list xs = JList xs []"

definition released_values :: "context_row \<Rightarrow> (string \<times> json) list \<Rightarrow> string \<Rightarrow> string list \<Rightarrow> (string \<times> json) list" where
  "released_values e ctx content skus = present_values
     (if story_event e
      then [(''source'', js ''story_reply''), (''content_id'', js content), (''story_id'', opt_js (opt_or (cx_story e) (cx_media e))),
            (''story_url'', opt_js (cx_story_url e)), (''product_skus'', json_list (map js skus)),
            (''selected_product_sku'', case skus of [k] \<Rightarrow> js k | _ \<Rightarrow> JVal PNone), (''mapping_status'', js ''resolved''),
            (''meta_context_event_id'', js (cx_id e))]
      else [(''media_id'', json_or (opt_js (cx_media e)) (jget ctx ''media_id'')), (''post_id'', json_or (opt_js (cx_media e)) (jget ctx ''post_id'')),
            (''post_url'', json_or (opt_js (cx_permalink e)) (jget ctx ''post_url'')),
            (''post_caption'', json_or (opt_js (cx_caption e)) (jget ctx ''post_caption'')),
            (''product_skus'', json_list (map js skus)), (''mapping_status'', js ''resolved''),
            (''product_sku'', case skus of [k] \<Rightarrow> js k | _ \<Rightarrow> JVal PNone)])"

definition waiting_match :: "string \<Rightarrow> correlation_db \<Rightarrow> (context_row \<times> kommo_job) option" where
  "waiting_match i db =
     (case find (\<lambda>e. cx_id e = i \<and> cx_status e = ''matched'') (xd_events db) of
        None \<Rightarrow> None
      | Some e \<Rightarrow>
         (case find (\<lambda>j. cx_job e = Some (jb_id j) \<and> jb_event j = Some (cx_id e) \<and> jb_status j = JContext \<and> jb_context j = ''matched'') (xd_jobs db) of
            None \<Rightarrow> None | Some j \<Rightarrow> Some (e, j)))"

datatype release = R_Not_Waiting | R_Waiting | R_Ready string

definition release_with :: "int \<Rightarrow> context_row \<Rightarrow> kommo_job \<Rightarrow> (string \<times> json) list \<Rightarrow> string \<Rightarrow> correlation_db \<Rightarrow> release \<times> correlation_db" where
  "release_with now e j values st db =
     (R_Ready (jb_id j), record_mapping_status (cx_id e) st (Some True)
        (db\<lparr>xd_kommo := release_matched now (jb_id j) (story_event e) values (xd_kommo db)\<rparr>))"

definition resolve_and_release_matched_job :: "correlation_env \<Rightarrow> bool \<Rightarrow> string \<Rightarrow> correlation_db \<Rightarrow> release \<times> correlation_db" where
  "resolve_and_release_matched_job env force i db =
     (case waiting_match i db of
        None \<Rightarrow> (R_Not_Waiting, db)
      | Some (e, j) \<Rightarrow>
          if \<not> force \<and> \<not> mapping_retry_is_due (ne_now env) (cx_details e) then (R_Waiting, db)
          else (let ctx = (if story_event e then jb_content j else jb_public j) in
                case resolve_content_product_mapping (ne_now env)
                       (opt_or (if story_event e then cx_story e else cx_media e) (value_text ctx ''media_id''))
                       (opt_or (cx_permalink e) (opt_or (value_text ctx ''post_url'') (value_text ctx ''permalink''))) (xd_content db) of
                  Not_Found _ \<Rightarrow> (R_Waiting, record_mapping_not_found (ne_now env) (cx_id e) db)
                | Resolved content skus \<Rightarrow> release_with (ne_now env) e j (released_values e ctx content skus) ''resolved'' db
                | Ambiguous _ _ \<Rightarrow> release_with (ne_now env) e j [(''mapping_status'', js ''ambiguous'')] ''ambiguous'' db))"

section \<open>Deadlines\<close>

definition release_if_due :: "int \<Rightarrow> string \<Rightarrow> correlation_db \<Rightarrow> correlation_db" where
  "release_if_due now jid db = db\<lparr>xd_kommo := snd (release_timed_out now jid (xd_kommo db))\<rparr>"

text \<open>\<open>ORDER BY context_deadline_at, created_at\<close>, rows without a deadline last.\<close>

definition by_deadline :: "kommo_job list \<Rightarrow> kommo_job list" where
  "by_deadline t = (let s = sort_key (\<lambda>j. case jb_deadline j of None \<Rightarrow> 0 | Some t \<Rightarrow> t) (sort_key jb_created t) in
     filter (\<lambda>j. jb_deadline j \<noteq> None) s @ filter (\<lambda>j. jb_deadline j = None) s)"

definition gate_job :: "correlation_env \<Rightarrow> kommo_job \<Rightarrow> correlation_db \<Rightarrow> correlation_db" where
  "gate_job env row db =
     (case (if jb_context row \<noteq> ''matched'' then correlate env (Job_Anchor (jb_id row)) db else (Inr C_Missing, db)) of
        (Inl _, db1) \<Rightarrow> db1
      | (Inr r, db1) \<Rightarrow>
          (let matched = (case r of C_Matched _ _ _ \<Rightarrow> True | _ \<Rightarrow> False);
               eid = (case r of C_Matched i _ _ \<Rightarrow> Some i | _ \<Rightarrow> jb_event row) in
           case eid of None \<Rightarrow> db1 | Some i \<Rightarrow> snd (resolve_and_release_matched_job env matched i db1)))"

definition expire_events :: "int \<Rightarrow> correlation_db \<Rightarrow> correlation_db" where
  "expire_events now = set_events
     (\<lambda>e. cx_status e \<in> {''pending'', ''ambiguous'', ''matched''} \<and> cx_expires e \<le> now
        \<and> (cx_text e \<noteq> None \<or> cx_sender e \<noteq> None \<or> cx_username e \<noteq> None))
     (\<lambda>e. e\<lparr>cx_status := (if cx_status e = ''matched'' then ''matched'' else ''expired''), cx_text := None, cx_sender := None, cx_username := None\<rparr>)"

definition gate_and_release :: "correlation_env \<Rightarrow> kommo_job \<Rightarrow> correlation_db \<Rightarrow> correlation_db" where
  "gate_and_release env row db = release_if_due (ne_now env) (jb_id row) (gate_job env row db)"

definition process_waiting_context_jobs :: "correlation_env \<Rightarrow> nat \<Rightarrow> correlation_db \<Rightarrow> correlation_db" where
  "process_waiting_context_jobs env limit db = expire_events (ne_now env)
     (fold (gate_and_release env) (take limit (by_deadline (filter (\<lambda>j. jb_status j = JContext) (xd_jobs db)))) db)"

definition past_deadline :: "int \<Rightarrow> kommo_job \<Rightarrow> bool" where
  "past_deadline now j = (jb_status j = JContext \<and> (case jb_deadline j of None \<Rightarrow> False | Some t \<Rightarrow> t \<le> now))"

definition release_timed_out_context_jobs :: "int \<Rightarrow> nat \<Rightarrow> correlation_db \<Rightarrow> correlation_db" where
  "release_timed_out_context_jobs now limit db =
     fold (\<lambda>j. release_if_due now (jb_id j)) (take limit (by_deadline (filter (past_deadline now) (xd_jobs db)))) db"

section \<open>Processing an event\<close>

text \<open>The media service answers with a description, a known error, or any other exception.\<close>

record media_answer = media_details +
  ma_time :: "int option"
  ma_thumbnail :: "string option"

datatype media_failure = Media_API_Error string | Media_Other

definition save_media_enrichment :: "string \<Rightarrow> media_answer \<Rightarrow> correlation_db \<Rightarrow> correlation_db" where
  "save_media_enrichment i m = set_events (\<lambda>e. cx_id e = i)
     (\<lambda>e. e\<lparr>cx_media := Some (md_id m), cx_permalink := md_permalink m, cx_caption := md_caption m, cx_media_type := md_type m,
            cx_product_type := coalesce (md_product m) (cx_product_type e), cx_media_time := ma_time m, cx_thumbnail := ma_thumbnail m\<rparr>)"

definition enriched :: "media_answer \<Rightarrow> context_row \<Rightarrow> context_row" where
  "enriched m e = e\<lparr>cx_media := Some (md_id m), cx_permalink := md_permalink m, cx_caption := md_caption m, cx_media_type := md_type m,
     cx_product_type := opt_or (md_product m) (cx_product_type e), cx_media_time := ma_time m, cx_thumbnail := ma_thumbnail m\<rparr>"

definition enrichment_values :: "context_row \<Rightarrow> (string \<times> json) list" where
  "enrichment_values e = present_values
     [(''media_id'', opt_js (cx_media e)), (''post_id'', opt_js (cx_media e)), (''post_url'', opt_js (cx_permalink e)),
      (''post_caption'', opt_js (cx_caption e)), (''media_type'', opt_js (cx_media_type e)), (''media_product_type'', opt_js (cx_product_type e)),
      (''content_type'', opt_js (detect_instagram_content_type (cx_product_type e) (cx_media_type e) (cx_permalink e)))]"

definition update_matched_job_context :: "int \<Rightarrow> string \<Rightarrow> context_row \<Rightarrow> correlation_db \<Rightarrow> correlation_db" where
  "update_matched_job_context now i e db =
     (if story_event e \<or> enrichment_values e = [] then db
      else case find (\<lambda>r. cx_id r = i \<and> cx_status r = ''matched'') (xd_events db) of
        None \<Rightarrow> db
      | Some r \<Rightarrow>
         (case cx_job r of
            None \<Rightarrow> db
          | Some jid \<Rightarrow>
              if list_ex (\<lambda>j. jb_id j = jid \<and> jb_event j = Some i) (xd_jobs db)
              then merge_event_details i [(''job_context_enriched'', JVal (PBool True))]
                     (db\<lparr>xd_kommo := enrich_matched now jid i (enrichment_values e) (xd_kommo db)\<rparr>)
              else db))"

definition needs_media :: "context_row \<Rightarrow> bool" where
  "needs_media e = (cx_type e = ''comment'' \<and> opt_str (cx_media e) \<noteq> [] \<and> opt_str (cx_permalink e) = []
     \<and> jget (cx_details e) ''media_enrichment_status'' \<noteq> js ''succeeded'')"

text \<open>The row of the event with what was learnt, whether the service gave a permalink now, and the tables.\<close>

definition enrich_event :: "(string \<Rightarrow> media_failure + media_answer) \<Rightarrow> context_row \<Rightarrow> correlation_db \<Rightarrow> context_row \<times> bool \<times> correlation_db" where
  "enrich_event get_media e db =
     (if \<not> needs_media e then (e, False, db)
      else case get_media (opt_str (cx_media e)) of
        Inl (Media_API_Error m) \<Rightarrow> (e, False, merge_event_details (cx_id e) [(''meta_api_error'', js m)] db)
      | Inl Media_Other \<Rightarrow> (e, False, merge_event_details (cx_id e) [(''meta_api_error'', js ''Media enrichment failed'')] db)
      | Inr m \<Rightarrow> (enriched m e, opt_str (md_permalink m) \<noteq> [],
                  merge_event_details (cx_id e) [(''media_enrichment_status'', js ''succeeded'')] (save_media_enrichment (cx_id e) m db)))"

definition backfill_event :: "correlation_env \<Rightarrow> context_row \<Rightarrow> (string \<times> json) list \<Rightarrow> bool \<Rightarrow> correlation_db \<Rightarrow> correlation_db" where
  "backfill_event env e details now_known db =
     (if cx_type e = ''comment'' \<and> opt_str (cx_media e) \<noteq> [] \<and> opt_str (cx_permalink e) \<noteq> []
         \<and> jget details ''mapping_status'' \<notin> set (map js [''matched'', ''backfilled'', ''conflict''])
         \<and> (mapping_retry_is_due (ne_now env) details \<or> now_known)
      then (case backfill_instagram_mapping \<lparr>md_id = opt_str (cx_media e), md_permalink = cx_permalink e, md_caption = cx_caption e,
                   md_type = cx_media_type e, md_product = cx_product_type e\<rparr> (xd_content db) of
              (Inl _, _) \<Rightarrow> merge_event_details (cx_id e) [(''mapping_error'', js ''Mapping backfill failed'')] db
            | (Inr r, c) \<Rightarrow>
                (let db1 = db\<lparr>xd_content := c\<rparr> in
                 case r of
                   BF_Conflict m \<Rightarrow> merge_event_details (cx_id e) [(''mapping_status'', js ''conflict''), (''mapping_conflict'', js m)] db1
                 | BF_Matched _ \<Rightarrow> record_mapping_status (cx_id e) ''matched'' None db1
                 | BF_Backfilled _ \<Rightarrow> record_mapping_status (cx_id e) ''backfilled'' None db1
                 | BF_Not_Found \<Rightarrow> record_mapping_not_found (ne_now env) (cx_id e) db1))
      else db)"

definition story_discovery :: "correlation_env \<Rightarrow> string \<Rightarrow> context_row \<Rightarrow> content_db \<Rightarrow> (content_error + discovery) \<times> content_db" where
  "story_discovery env new_id e c =
     (if story_event e
      then discover_instagram_story (ne_now env) (ne_story_hours env) new_id (cx_story e) (cx_story_url e) (Some (cx_time e)) c
      else (Inr Story_Ignored, c))"

definition correlated :: "correlation_env \<Rightarrow> string \<Rightarrow> correlation_db \<Rightarrow> correlation \<times> correlation_db" where
  "correlated env i db = (case correlate env (Event_Anchor i) db of (Inl _, d) \<Rightarrow> (C_Pending, d) | (Inr r, d) \<Rightarrow> (r, d))"

definition is_match :: "correlation \<Rightarrow> bool" where
  "is_match r = (case r of C_Matched _ _ _ \<Rightarrow> True | _ \<Rightarrow> False)"

text \<open>\<open>e\<close> is the row as it was read at the start.\<close>

definition follow_event ::
    "correlation_env \<Rightarrow> (string \<Rightarrow> media_failure + media_answer) \<Rightarrow> context_row \<Rightarrow> correlation_db \<Rightarrow> correlation \<times> correlation_db" where
  "follow_event env get_media e db =
     (let i = cx_id e;
          (r, db1) = correlated env i db;
          db2 = snd (resolve_and_release_matched_job env (is_match r) i db1);
          (e1, now_known, db3) = enrich_event get_media e db2;
          db4 = (if opt_str (cx_media e1) \<noteq> [] then update_matched_job_context (ne_now env) i e1 db3 else db3);
          db5 = backfill_event env e1 (cx_details e) now_known db4 in
      (r, snd (resolve_and_release_matched_job env now_known i db5)))"

text \<open>A failed discovery of a Story ends the processing; the other failures are noted and it goes on.\<close>

definition process_context_event ::
    "correlation_env \<Rightarrow> string \<Rightarrow> (string \<Rightarrow> media_failure + media_answer) \<Rightarrow> string \<Rightarrow> correlation_db \<Rightarrow> (content_error + correlation) \<times> correlation_db" where
  "process_context_event env new_id get_media i db =
     (case find (\<lambda>e. cx_id e = i) (xd_events db) of
        None \<Rightarrow> (Inr C_Missing, db)
      | Some e \<Rightarrow>
         (case story_discovery env new_id e (xd_content db) of
            (Inl x, _) \<Rightarrow> (Inl x, db)
          | (Inr _, c) \<Rightarrow> (case follow_event env get_media e (db\<lparr>xd_content := c\<rparr>) of (r, db1) \<Rightarrow> (Inr r, db1))))"

definition detail_text :: "context_row \<Rightarrow> string \<Rightarrow> string" where
  "detail_text e k = (case jget (cx_details e) k of JVal PNone \<Rightarrow> [] | JVal (PBool b) \<Rightarrow> (if b then ''true'' else ''false'') | v \<Rightarrow> j_str v)"

definition awaits_products :: "int \<Rightarrow> correlation_db \<Rightarrow> context_row \<Rightarrow> bool" where
  "awaits_products now db e = (list_ex (\<lambda>j. cx_job e = Some (jb_id j) \<and> jb_status j = JContext) (xd_jobs db)
     \<and> detail_text e ''product_mapping_applied'' \<noteq> ''true'' \<and> detail_text e ''mapping_status'' \<notin> {''ambiguous'', ''conflict''}
     \<and> (detail_text e ''mapping_status'' \<noteq> ''not_found''
        \<or> (case jget (cx_details e) ''mapping_next_retry_at'' of JVal (PInt t) \<Rightarrow> t \<le> now | _ \<Rightarrow> True)))"

definition pending_event :: "int \<Rightarrow> correlation_db \<Rightarrow> context_row \<Rightarrow> bool" where
  "pending_event now db e = (now < cx_expires e \<and>
     (cx_status e \<in> {''pending'', ''ambiguous''}
      \<or> (cx_status e = ''matched'' \<and> cx_media e \<noteq> None
         \<and> ((cx_type e = ''comment'' \<and> cx_permalink e = None \<and> detail_text e ''media_enrichment_status'' \<noteq> ''succeeded'')
            \<or> (cx_type e = ''comment'' \<and> detail_text e ''job_context_enriched'' \<noteq> ''true'')
            \<or> awaits_products now db e))))"

fun process_events ::
    "correlation_env \<Rightarrow> (nat \<Rightarrow> string) \<Rightarrow> nat \<Rightarrow> (string \<Rightarrow> media_failure + media_answer) \<Rightarrow> string list \<Rightarrow> correlation_db \<Rightarrow> (content_error + unit) \<times> correlation_db" where
  "process_events env ids k get_media [] db = (Inr (), db)"
| "process_events env ids k get_media (i # rest) db =
     (case process_context_event env (ids k) get_media i db of
        (Inl x, db1) \<Rightarrow> (Inl x, db1)
      | (Inr _, db1) \<Rightarrow> process_events env ids (k + 1) get_media rest db1)"

definition process_pending_context_events ::
    "correlation_env \<Rightarrow> (nat \<Rightarrow> string) \<Rightarrow> (string \<Rightarrow> media_failure + media_answer) \<Rightarrow> nat \<Rightarrow> correlation_db \<Rightarrow> (content_error + unit) \<times> correlation_db" where
  "process_pending_context_events env ids get_media limit db =
     (if \<not> ne_enabled env then (Inr (), db)
      else process_events env ids 0 get_media
             (map cx_id (take limit (sort_key cx_created (filter (pending_event (ne_now env) db) (xd_events db))))) db)"

end
