(* ===== verification/Kommo_Links.thy ===== *)
theory Kommo_Links
  imports Kommo_Runs
begin

text \<open>
  Which Kommo jobs name an event of Instagram (\<open>meta_context_event_id\<close>): only the match of the correlation
  changes it. Every other step of the queue keeps the event of every job, and new jobs name none.
\<close>

definition links_kept :: "kommo_job list \<Rightarrow> kommo_job list \<Rightarrow> bool" where
  "links_kept t u = ((\<forall>j \<in> set t. \<exists>k \<in> set u. jb_id k = jb_id j \<and> jb_event k = jb_event j)
     \<and> (\<forall>k \<in> set u. jb_event k = None \<or> (\<exists>j \<in> set t. jb_id k = jb_id j \<and> jb_event k = jb_event j)))"

lemma links_refl [simp]: "links_kept t t"
  by (auto simp: links_kept_def)

lemma links_trans: "links_kept t u \<Longrightarrow> links_kept u v \<Longrightarrow> links_kept t v"
  unfolding links_kept_def by metis

lemma links_append: "jb_event j = None \<Longrightarrow> links_kept t (t @ [j])"
  by (auto simp: links_kept_def)

lemma links_upd: "(\<And>j. j \<in> set t \<Longrightarrow> p j \<Longrightarrow> jb_id (f j) = jb_id j \<and> jb_event (f j) = jb_event j) \<Longrightarrow> links_kept t (upd_where p f t)"
  unfolding links_kept_def upd_where_def by (auto intro: bexI rev_bexI)

lemma links_store: "links_kept (kj_jobs db) t \<Longrightarrow> links_kept (kj_jobs db) (kj_jobs (snd (store_jobs t db)))"
  by (simp add: store_jobs_def)

lemma links_held: "(\<And>j. jb_id (f j) = jb_id j \<and> jb_event (f j) = jb_event j) \<Longrightarrow> links_kept t (upd_where (held jid st l) f t)"
  by (rule links_upd)

lemma link_receive: "links_kept (kj_jobs db) (kj_jobs (snd (record_incoming_event now new_id stamp sha e db)))"
proof (cases "find_by kr_message (external_id stamp e) (kj_receipts db)")
  case None
  show ?thesis
  proof (cases "latest_pending e db")
    case (Some j)
    have "links_kept (kj_jobs db) (upd_where (\<lambda>r. jb_id r = jb_id j) (merge_event now e (external_id stamp e)) (kj_jobs db))"
      by (rule links_upd) (simp add: merge_event_def split: prod.split)
    then show ?thesis using None Some by (simp add: record_incoming_event_def Let_def)
  qed (use None in \<open>auto simp: record_incoming_event_def Let_def store_jobs_def event_job_def blank_job_def intro!: links_append\<close>)
qed (simp add: record_incoming_event_def Let_def)

lemma link_superseded: "links_kept (kj_jobs db) (kj_jobs (snd (discard_superseded now jid db)))"
  unfolding discard_superseded_def Let_def snd_conv set_jobs_sel
  by (rule links_upd) (simp add: superseded_row_def finished_def)

lemma link_recent: "links_kept (kj_jobs db) (kj_jobs (snd (discard_recent_private_jobs now sha window ms v msg db)))"
  using link_superseded[of db now] by (simp add: discard_recent_private_jobs_def Let_def split: option.split prod.split) (metis snd_conv)

lemma link_callback: "links_kept (kj_jobs db) (kj_jobs (snd (persist_salesbot_callback now new_id sha cfg ms d url claims db)))"
proof (cases "callback_values d url claims")
  case (Inr v)
  have made: "links_kept (kj_jobs db) (kj_jobs (snd (create_ready_comment_job now new_id sha cfg ms d v db)))"
    using link_recent[of db now sha "xc_window cfg" ms v]
    by (auto simp: create_ready_comment_job_def Let_def store_jobs_def split: sum.split prod.split option.split
        intro!: links_trans[OF _ links_append] simp: comment_job_def blank_job_def)
  show ?thesis
  proof (cases "callback_target v (kj_jobs db)")
    case (Some j)
    have "links_kept (kj_jobs db) (upd_where (by_id (jb_id j)) (called_back now v) (kj_jobs db))"
      by (rule links_upd) (simp add: called_back_def)
    then show ?thesis using Inr Some by (simp add: persist_salesbot_callback_def answer_callback_def)
  qed (use Inr made in \<open>simp add: persist_salesbot_callback_def answer_callback_def split: option.split\<close>)
qed (simp add: persist_salesbot_callback_def)

lemma link_persist:
  assumes "db2 = db \<or> (\<exists>p h. db2 = set_jobs p (\<lambda>j. j\<lparr>jb_persisted := Some now, jb_updated := now\<rparr>) (db\<lparr>kj_history := h\<rparr>))"
  shows "links_kept (kj_jobs db) (kj_jobs db2)"
  using assms by (auto intro!: links_upd)

lemma link_looking: "links_kept (kj_jobs db) (kj_jobs (snd (look_at_deliveries now handoff provider job ds b db)))"
proof (induction now handoff provider job ds b db rule: look_at_deliveries.induct)
  case (2 now handoff provider job d ds b db)
  have "links_kept (kj_jobs db) (kj_jobs (fail_waiting_delivery now handoff job mid st media db))" for mid st media
    by (auto simp: fail_waiting_delivery_def Let_def fallback_row_def refused_row_def finished_def split: option.split intro!: links_upd)
  then show ?case using "2.IH" by (simp add: Let_def split: answer.split)
qed simp

lemma link_finalize: "links_kept (kj_jobs db) (kj_jobs (snd (finalize_waiting_delivery now jid db)))"
proof (cases "find (\<lambda>j. jb_id j = jid \<and> jb_status j = JDelivery) (kj_jobs db)")
  case (Some job)
  obtain e db1 where r: "(case jb_assistant job of None \<Rightarrow> (Inr (), db) | Some b \<Rightarrow> persist_waiting_assistant_message now job b db) = (e, db1)"
    by fastforce
  have "links_kept (kj_jobs db) (kj_jobs db1)"
  proof (cases "jb_assistant job")
    case (Some b)
    then show ?thesis using link_persist[OF persist_waiting_cases[of now job b db]] r by simp
  qed (use r in simp)
  moreover have "links_kept (kj_jobs db1) (kj_jobs (set_jobs q (delivered_row now st) db1))" for q st
    unfolding set_jobs_sel by (rule links_upd) (simp add: delivered_row_def)
  ultimately show ?thesis using Some r
    by (auto simp: finalize_waiting_delivery_def split: sum.split intro: links_trans)
qed (simp add: finalize_waiting_delivery_def)

lemma link_look: "links_kept (kj_jobs db) (kj_jobs (snd (reconcile_waiting_for_delivery_job now handoff provider j db)))"
proof -
  define rows where "rows = sort_key ob_created (filter (\<lambda>d. chats_of (jb_id j) d
      \<and> (case ob_provider d of None \<Rightarrow> False | Some i \<Rightarrow> i \<in> set (provider_message_ids j))) (kj_outbound db))"
  obtain b db2 where look: "look_at_deliveries now handoff provider j rows True db = (b, db2)" by fastforce
  have kept: "links_kept (kj_jobs db) (kj_jobs db2)" using link_looking[of db now handoff provider j rows True] look by simp
  have "snd (reconcile_waiting_for_delivery_job now handoff provider j db)
      = (if rows = [] then db else if b then snd (finalize_waiting_delivery now (jb_id j) db2) else db2)"
    using look unfolding reconcile_waiting_for_delivery_job_def Let_def rows_def[symmetric] by (simp split: bool.split)
  then show ?thesis using kept links_trans[OF kept link_finalize] by simp
qed

lemma link_claim_delivery: "claim_waiting_for_delivery_job now db = (Some j, db') \<Longrightarrow> links_kept (kj_jobs db) (kj_jobs db')"
  by (auto simp: claim_waiting_for_delivery_job_def looked_at_def split: list.splits intro!: links_upd)

lemma link_recover: "links_kept (kj_jobs db) (kj_jobs (snd (recover_stale_jobs now db)))"
proof -
  let ?again = "\<lambda>j. stale_unstarted now j \<and> jb_attempts j < max_job_attempts"
  define db1 where "db1 = set_jobs (stale_waiting now) (timed_out_row now) db"
  obtain r db2 where s: "store_jobs (upd_where ?again (reset_row now) (kj_jobs db1)) db1 = (r, db2)" by fastforce
  have one: "links_kept (kj_jobs db) (kj_jobs db1)" unfolding db1_def set_jobs_sel
    by (rule links_upd) (simp add: timed_out_row_def finished_def)
  have "links_kept (kj_jobs db1) (upd_where ?again (reset_row now) (kj_jobs db1))"
    by (rule links_upd) (simp add: reset_row_def)
  from links_store[OF this] have two: "links_kept (kj_jobs db1) (kj_jobs db2)" using s by simp
  have three: "links_kept (kj_jobs db3) (kj_jobs (set_jobs (stale_uncertain now) (uncertain_row now) db3))" for db3
    unfolding set_jobs_sel by (rule links_upd) (simp add: uncertain_row_def finished_def)
  have four: "links_kept (kj_jobs db3) (kj_jobs (set_jobs (\<lambda>j. stale_unstarted now j \<and> max_job_attempts \<le> jb_attempts j) (exhausted_row now) db3))" for db3
    unfolding set_jobs_sel by (rule links_upd) (simp add: exhausted_row_def finished_def)
  have "snd (recover_stale_jobs now db) = (case r of Inl x \<Rightarrow> db2 | Inr _ \<Rightarrow>
      set_jobs (\<lambda>j. stale_unstarted now j \<and> max_job_attempts \<le> jb_attempts j) (exhausted_row now)
        (set_jobs (stale_uncertain now) (uncertain_row now) db2))"
    using s by (simp add: recover_stale_jobs_def Let_def db1_def split: sum.split)
  then show ?thesis using links_trans[OF one links_trans[OF two]] links_trans[OF three four]
    by (simp split: sum.split)
qed

text \<open>Every step of the queue but the match.\<close>

lemma link_step:
  assumes "kstep s t"
  shows "links_kept (run_jobs s) (run_jobs t)
    \<or> (\<exists>now jid event story score sender ctx. t = with_db (snd (match_context now jid event story score sender ctx (run_db s))) s)"
  using assms
proof (induction rule: kstep.induct)
  case (k_receive e s now new_id stamp sha)
  then show ?case using link_receive by simp
next
  case (k_claim_pending now l s j db)
  obtain c :: kommo_job where "store_jobs (upd_where (by_id (jb_id c)) (claimed now l None) (run_jobs s)) (run_db s) = (Inr (), db)"
    using k_claim_pending.hyps(1) by (auto simp: claim_due_pending_job_def split: option.splits sum.splits prod.splits)
  then have c: "db = snd (store_jobs (upd_where (by_id (jb_id c)) (claimed now l None) (run_jobs s)) (run_db s))" by simp
  have "links_kept (run_jobs s) (upd_where (by_id (jb_id c)) (claimed now l None) (run_jobs s))"
    by (rule links_upd) (simp add: claimed_def)
  then show ?case using links_store[of "run_db s"] c by simp
next
  case (k_claim_ready now l s j db)
  obtain c :: kommo_job where c: "db = set_jobs (by_id (jb_id c)) (claimed now l (Some now)) (run_db s)"
    using k_claim_ready.hyps(1) by (auto simp: claim_ready_job_def split: option.splits)
  then show ?case by (auto simp: claimed_def intro!: links_upd)
next
  case (k_prepared j s now wait_context secs suppress reason)
  then show ?case by (auto simp: mark_direct_instagram_job_prepared_def prepared_row_def intro!: links_upd)
next
  case (k_superseded s now sha window ms job)
  then show ?case using link_superseded by (simp add: discard_private_job_if_superseded_def Let_def)
next
  case (k_wait j s now db)
  then have "db = snd (mark_job_waiting_for_salesbot now (jb_id j) (jb_lease j) (run_db s))" by simp
  then show ?case by (auto simp: mark_job_waiting_for_salesbot_def intro!: links_upd)
next
  case (k_launch_failed j s now err)
  then show ?case by (auto simp: mark_waiting_job_failed_def finished_def intro!: links_upd)
next
  case (k_launch_unsure j s now err)
  then show ?case by (auto simp: record_uncertain_launch_warning_def intro!: links_upd)
next
  case (k_retry j s now err)
  then show ?case by (auto simp: retry_ready_job_def intro!: links_upd)
next
  case (k_persist s now cid channel job content calls atts expected)
  then show ?case using link_persist[OF store_assistant_cases] by simp
next
  case (k_begin ph j s now data db)
  then have "db = snd (mark_job_continuing now (jb_id j) (jb_lease j) data (run_db s))" by simp
  then show ?case by (auto simp: mark_job_continuing_def intro!: links_upd)
next
  case (k_sent j s now resp)
  then show ?case by (auto simp: mark_job_sent_def finished_def intro!: links_upd)
next
  case (k_discarded j s now reason resp)
  then show ?case by (auto simp: mark_job_discarded_def finished_def intro!: links_upd)
next
  case (k_mark ph j s st now err)
  then show ?case by (auto simp: mark_job_def marked_def intro!: links_upd)
next
  case (k_send s now send m)
  then show ?case by (simp add: send_claimed_sel)
next
  case (k_await ph j s payload now ids reason db)
  then have "db = snd (mark_direct_job_waiting_for_delivery now (jb_id j) (jb_lease j) ids payload reason (run_db s))" by simp
  then show ?case by (auto simp: mark_direct_job_waiting_for_delivery_def Let_def waiting_row_def intro!: links_upd)
next
  case (k_look now s j db handoff provider)
  then show ?case using links_trans[OF link_claim_delivery link_look] by simp
next
  case (k_request s now mid)
  then show ?case by (auto simp: request_delivery_reconciliation_def Let_def intro!: links_upd)
next
  case (k_callback s now new_id sha cfg ms d url claims)
  then show ?case using link_callback by simp
next
  case (k_recover s now)
  then show ?case using link_recover by simp
next
  case (k_timed_out s now jid)
  then show ?case by (auto simp: release_timed_out_def Let_def intro!: links_upd)
next
  case (k_match s now jid event story score sender ctx)
  then show ?case by blast
next
  case (k_ambiguous s now jid)
  then show ?case by (auto simp: mark_job_ambiguous_def intro!: links_upd)
next
  case (k_enrich s now jid event ctx)
  then show ?case by (auto simp: enrich_matched_def intro!: links_upd)
next
  case (k_release s now jid story ctx)
  then show ?case by (auto simp: release_matched_def intro!: links_upd)
qed (simp_all)

end
