(* ===== verification/Meta_Runs.thy ===== *)
theory Meta_Runs
  imports Meta_Correlation Kommo_Links
begin

text \<open>
  What correlation guarantees: a match is the mutual best pair, events and jobs are matched one to one, no job
  waits past its deadline, and everything it does to the Kommo queue is a run of the queue's protocol.
\<close>

section \<open>What correlation does to the queue\<close>

lemma set_events_kommo [simp]: "xd_kommo (set_events p f db) = xd_kommo db" "xd_content (set_events p f db) = xd_content db"
  by (simp_all add: set_events_def)

lemma details_kommo [simp]: "xd_kommo (merge_event_details i d db) = xd_kommo db" "xd_kommo (record_mapping_not_found now i db) = xd_kommo db"
  "xd_kommo (record_mapping_status i st b db) = xd_kommo db" "xd_kommo (save_media_enrichment i m db) = xd_kommo db"
  "xd_kommo (expire_events now db) = xd_kommo db"
  by (simp_all add: merge_event_details_def record_mapping_not_found_def record_mapping_status_def save_media_enrichment_def expire_events_def)

lemma fold_events_kommo [simp]: "xd_kommo (fold (\<lambda>i. set_events (p i) (f i)) xs db) = xd_kommo db"
  by (induction xs arbitrary: db) simp_all

lemma kommo_enrich: "enrich_event get e db = (e1, b, db1) \<Longrightarrow> xd_kommo db1 = xd_kommo db"
  by (auto simp: enrich_event_def split: if_splits sum.splits media_failure.splits)

lemma kommo_backfill: "xd_kommo (backfill_event env e d b db) = xd_kommo db"
  by (auto simp: backfill_event_def Let_def split: sum.split prod.split backfill.split)

text \<open>A relation between tables of the queue that the five statements of the correlation keep, and its consequences
  for every operation.\<close>

locale correlation_effects =
  fixes rel :: "kommo_db \<Rightarrow> kommo_db \<Rightarrow> bool"
  assumes rel_refl: "rel k k"
    and rel_trans: "rel k k1 \<Longrightarrow> rel k1 k2 \<Longrightarrow> rel k k2"
    and rel_match: "rel k (snd (match_context now jid i st sc u v k))"
    and rel_ambiguous: "rel k (mark_job_ambiguous now jid k)"
    and rel_enrich: "rel k (enrich_matched now jid i v k)"
    and rel_release: "rel k (release_matched now jid st v k)"
    and rel_timed_out: "rel k (snd (release_timed_out now jid k))"
begin

declare rel_refl [simp]

lemma rel_fold: "(\<And>x k. rel (g k) (g (f x k))) \<Longrightarrow> rel (g k) (g (fold f xs k))"
  by (induction xs arbitrary: k) (auto intro: rel_trans)

lemma rel_after_mark: "rel (xd_kommo db) (xd_kommo (mark_ambiguous now cs db))"
  using rel_fold[of id "mark_job_ambiguous now"] rel_ambiguous by (simp add: mark_ambiguous_def Let_def)

lemma rel_after_persist: "rel (xd_kommo db) (xd_kommo (snd (persist_match now c db)))"
  using rel_match[of "xd_kommo db"] by (auto simp: persist_match_def Let_def split: prod.split sum.split) (metis snd_conv)

lemma rel_after_settle: "rel (xd_kommo db) (xd_kommo (snd (settle_pair env a w c db)))"
  using rel_after_mark rel_after_persist[of db "ne_now env" c]
  by (auto simp: settle_pair_def ambiguous_among_def Let_def split: list.split prod.split sum.split bool.split)

lemma rel_after_choose: "rel (xd_kommo db) (xd_kommo (snd (choose_pair env a w cs db)))"
  using rel_after_mark rel_after_settle by (auto simp: choose_pair_def ambiguous_among_def Let_def split: list.split)

lemma rel_after_correlate: "rel (xd_kommo db) (xd_kommo (snd (correlate env a db)))"
  using rel_after_choose by (auto simp: correlate_def split: anchor.split option.split)

lemma rel_after_resolve: "rel (xd_kommo db) (xd_kommo (snd (resolve_and_release_matched_job env force i db)))"
  using rel_release by (auto simp: resolve_and_release_matched_job_def release_with_def Let_def split: option.split prod.split resolution.split)

lemma rel_after_due: "rel (xd_kommo db) (xd_kommo (release_if_due now jid db))"
  using rel_timed_out by (simp add: release_if_due_def)

lemma rel_after_gate: "rel (xd_kommo db) (xd_kommo (gate_job env row db))"
proof -
  let ?c = "if jb_context row \<noteq> ''matched'' then correlate env (Job_Anchor (jb_id row)) db else (Inr C_Missing, db)"
  have "rel (xd_kommo db) (xd_kommo (snd ?c))" using rel_after_correlate by simp
  then show ?thesis using rel_after_resolve unfolding gate_job_def by (auto simp: Let_def split: sum.split option.split prod.split intro: rel_trans)
qed

lemma rel_after_waiting: "rel (xd_kommo db) (xd_kommo (process_waiting_context_jobs env limit db))"
proof -
  have "rel (xd_kommo d) (xd_kommo (gate_and_release env row d))" for row d
    using rel_after_gate rel_after_due unfolding gate_and_release_def by (rule rel_trans)
  then show ?thesis using rel_fold[of xd_kommo "gate_and_release env"] by (simp add: process_waiting_context_jobs_def)
qed

lemma rel_after_timed_out: "rel (xd_kommo db) (xd_kommo (release_timed_out_context_jobs now limit db))"
  using rel_fold[of xd_kommo "\<lambda>j. release_if_due now (jb_id j)"] rel_after_due by (simp add: release_timed_out_context_jobs_def)

lemma rel_after_update: "rel (xd_kommo db) (xd_kommo (update_matched_job_context now i e db))"
  using rel_enrich by (auto simp: update_matched_job_context_def split: option.split)

lemma rel_after_follow: "rel (xd_kommo db) (xd_kommo (snd (follow_event env get e db)))"
proof -
  obtain r db1 where c: "correlated env (cx_id e) db = (r, db1)" by fastforce
  have 1: "rel (xd_kommo db) (xd_kommo db1)"
    using c rel_after_correlate[of db env "Event_Anchor (cx_id e)"] by (auto simp: correlated_def split: prod.splits sum.splits)
  define db2 where "db2 = snd (resolve_and_release_matched_job env (is_match r) (cx_id e) db1)"
  have 2: "rel (xd_kommo db1) (xd_kommo db2)" unfolding db2_def by (rule rel_after_resolve)
  obtain e1 b db3 where e: "enrich_event get e db2 = (e1, b, db3)" by (metis prod_cases3)
  define db4 where "db4 = (if opt_str (cx_media e1) \<noteq> [] then update_matched_job_context (ne_now env) (cx_id e) e1 db3 else db3)"
  have 4: "rel (xd_kommo db2) (xd_kommo db4)" using kommo_enrich[OF e] rel_after_update unfolding db4_def by (metis rel_refl)
  define db5 where "db5 = backfill_event env e1 (cx_details e) b db4"
  have 5: "xd_kommo db5 = xd_kommo db4" unfolding db5_def by (rule kommo_backfill)
  have "snd (follow_event env get e db) = snd (resolve_and_release_matched_job env b (cx_id e) db5)"
    using c e unfolding follow_event_def db2_def[symmetric] by (simp add: Let_def db5_def db4_def flip: db2_def)
  then show ?thesis using rel_trans[OF rel_trans[OF 1 2] 4] rel_after_resolve[of db5] 5 rel_trans by metis
qed

lemma rel_after_event: "rel (xd_kommo db) (xd_kommo (snd (process_context_event env new_id get i db)))"
proof -
  have "rel (xd_kommo db) (xd_kommo (snd (follow_event env get e (db\<lparr>xd_content := c\<rparr>))))" for e c
    using rel_after_follow[of "db\<lparr>xd_content := c\<rparr>"] by simp
  then show ?thesis by (auto simp: process_context_event_def split: option.split prod.split sum.split) (metis snd_conv)+
qed

lemma rel_after_events: "rel (xd_kommo db) (xd_kommo (snd (process_events env ids k get is db)))"
proof (induction env ids k get "is" db rule: process_events.induct)
  case (2 env ids k get i rest db)
  then show ?case using rel_after_event[of db env "ids k" get i] by (auto split: prod.split sum.split intro: rel_trans)
qed simp

lemma rel_after_pending: "rel (xd_kommo db) (xd_kommo (snd (process_pending_context_events env ids get limit db)))"
  using rel_after_events by (simp add: process_pending_context_events_def)

end

section \<open>Runs of the queue\<close>

definition queue_runs :: "kommo_db \<Rightarrow> kommo_db \<Rightarrow> bool" where
  "queue_runs k k' = (\<forall>s. run_db s = k \<longrightarrow> kstep\<^sup>*\<^sup>* s (with_db k' s))"

lemma with_db_again [simp]: "run_db (with_db k s) = k" "with_db k' (with_db k s) = with_db k' s" "with_db (run_db s) s = s"
  by (simp_all add: with_db_def)

lemma queue_refl: "queue_runs k k"
  by (auto simp: queue_runs_def)

lemma queue_step: "(\<And>s. run_db s = k \<Longrightarrow> kstep s (with_db k' s)) \<Longrightarrow> queue_runs k k'"
  by (auto simp: queue_runs_def)

lemma queue_match: "queue_runs k (snd (match_context now jid i st sc u v k))"
  by (rule queue_step) (metis k_match)

lemma queue_ambiguous: "queue_runs k (mark_job_ambiguous now jid k)"
  by (rule queue_step) (metis k_ambiguous)

lemma queue_enrich: "queue_runs k (enrich_matched now jid i v k)"
  by (rule queue_step) (metis k_enrich)

lemma queue_release: "queue_runs k (release_matched now jid st v k)"
  by (rule queue_step) (metis k_release)

lemma queue_timed_out: "queue_runs k (snd (release_timed_out now jid k))"
  by (rule queue_step) (metis k_timed_out)

lemma queue_trans: "queue_runs k k1 \<Longrightarrow> queue_runs k1 k2 \<Longrightarrow> queue_runs k k2"
  unfolding queue_runs_def by (metis rtranclp_trans with_db_again(1,2))

interpretation queue_effects: correlation_effects queue_runs
  by unfold_locales (rule queue_refl, erule (1) queue_trans, rule queue_match, rule queue_ambiguous, rule queue_enrich, rule queue_release, rule queue_timed_out)



section \<open>One to one\<close>

text \<open>Events and jobs name each other, and a matched event keeps its status.\<close>

definition linked :: "correlation_db \<Rightarrow> bool" where
  "linked db = (jobs_indexed (xd_jobs db) \<and> context_indexed (xd_events db) \<and> distinct (map cx_id (xd_events db))
     \<and> (\<forall>e \<in> set (xd_events db). \<forall>k. cx_job e = Some k \<longrightarrow> cx_status e = ''matched'' \<and> (\<exists>j \<in> set (xd_jobs db). jb_id j = k \<and> jb_event j = Some (cx_id e)))
     \<and> (\<forall>j \<in> set (xd_jobs db). \<forall>i. jb_event j = Some i \<longrightarrow> (\<exists>e \<in> set (xd_events db). cx_id e = i \<and> cx_job e = Some (jb_id j))))"

lemma linkedD:
  assumes "linked db"
  shows "jobs_indexed (xd_jobs db)" "context_indexed (xd_events db)" "distinct (map cx_id (xd_events db))"
    "e \<in> set (xd_events db) \<Longrightarrow> cx_job e = Some k \<Longrightarrow> cx_status e = ''matched'' \<and> (\<exists>j \<in> set (xd_jobs db). jb_id j = k \<and> jb_event j = Some (cx_id e))"
    "j \<in> set (xd_jobs db) \<Longrightarrow> jb_event j = Some i \<Longrightarrow> \<exists>e \<in> set (xd_events db). cx_id e = i \<and> cx_job e = Some (jb_id j)"
  using assms unfolding linked_def by blast+

definition same_row :: "context_row \<Rightarrow> context_row \<Rightarrow> bool" where
  "same_row e r = (cx_id r = cx_id e \<and> cx_external r = cx_external e \<and> cx_comment r = cx_comment e \<and> cx_message r = cx_message e
     \<and> cx_job r = cx_job e \<and> (cx_job e \<noteq> None \<and> cx_status e = ''matched'' \<longrightarrow> cx_status r = ''matched''))"

lemma map_upd_same: "(\<And>e. e \<in> set t \<Longrightarrow> p e \<Longrightarrow> g (f e) = g e) \<Longrightarrow> map g (upd_where p f t) = map g t"
  by (auto simp: upd_where_def)

lemma unique_among_values: "unique_among (\<lambda>r. g r \<noteq> None) g t = distinct (filter (\<lambda>x. x \<noteq> None) (map g t))"
  by (simp add: unique_among_def filter_map o_def)

lemma among_upd_same:
  assumes "\<And>e. e \<in> set t \<Longrightarrow> p e \<Longrightarrow> g (f e) = g e"
  shows "unique_among (\<lambda>r. g r \<noteq> None) g (upd_where p f t) = unique_among (\<lambda>r. g r \<noteq> None) g t"
proof -
  have "map g (upd_where p f t) = map g t" by (rule map_upd_same) (rule assms)
  then show ?thesis by (simp only: unique_among_values)
qed

lemma context_indexed_upd:
  assumes "\<And>e. e \<in> set t \<Longrightarrow> p e \<Longrightarrow> same_row e (f e)" shows "context_indexed (upd_where p f t) = context_indexed t"
proof -
  have "map cx_external (upd_where p f t) = map cx_external t" by (rule map_upd_same) (use assms in \<open>simp add: same_row_def\<close>)
  moreover have "unique_among (\<lambda>r. g r \<noteq> None) g (upd_where p f t) = unique_among (\<lambda>r. g r \<noteq> None) g t"
    if "g \<in> {cx_comment, cx_message, cx_job}" for g by (rule among_upd_same) (use assms that in \<open>auto simp: same_row_def\<close>)
  ultimately show ?thesis by (simp add: context_indexed_def)
qed

lemma linked_events:
  assumes db: "linked db" and f: "\<And>e. e \<in> set (xd_events db) \<Longrightarrow> p e \<Longrightarrow> same_row e (f e)"
  shows "linked (set_events p f db)"
proof -
  let ?t = "upd_where p f (xd_events db)"
  have ids: "map cx_id ?t = map cx_id (xd_events db)" by (rule map_upd_same) (use f in \<open>simp add: same_row_def\<close>)
  have to: "\<exists>e \<in> set (xd_events db). same_row e r" if "r \<in> set ?t" for r
    using that f by (fastforce simp: upd_where_def same_row_def)
  have onto: "\<exists>r \<in> set ?t. same_row e r" if "e \<in> set (xd_events db)" for e
  proof (rule bexI[of _ "if p e then f e else e"])
    show "same_row e (if p e then f e else e)" using f[OF that] by (simp add: same_row_def)
    show "(if p e then f e else e) \<in> set ?t" using that by (simp add: upd_where_def)
  qed
  show ?thesis unfolding linked_def set_events_def
  proof (simp, intro conjI ballI allI impI)
    show "jobs_indexed (xd_jobs db)" "context_indexed ?t" "distinct (map cx_id ?t)"
      using linkedD(1-3)[OF db] context_indexed_upd[of "xd_events db" p f] f ids by simp_all
  next
    fix r k assume r: "r \<in> set ?t" "cx_job r = Some k"
    then obtain e where e: "e \<in> set (xd_events db)" "same_row e r" using to by blast
    then have k: "cx_job e = Some k" using r(2) by (simp add: same_row_def)
    show "cx_status r = ''matched''" "\<exists>j \<in> set (xd_jobs db). jb_id j = k \<and> jb_event j = Some (cx_id r)"
      using linkedD(4)[OF db e(1) k] e(2) k by (simp_all add: same_row_def)
  next
    fix j i assume "j \<in> set (xd_jobs db)" "jb_event j = Some i"
    then obtain e where e: "e \<in> set (xd_events db)" "cx_id e = i" "cx_job e = Some (jb_id j)" using linkedD(5)[OF db] by blast
    then show "\<exists>r \<in> set ?t. cx_id r = i \<and> cx_job r = Some (jb_id j)" using onto[OF e(1)] by (auto simp: same_row_def)
  qed
qed

lemma linked_jobs:
  assumes db: "linked db" and k: "links_kept (xd_jobs db) (kj_jobs k)" "jobs_indexed (kj_jobs k)"
  shows "linked (db\<lparr>xd_kommo := k\<rparr>)"
  unfolding linked_def
proof (simp, intro conjI ballI allI impI)
  show "jobs_indexed (kj_jobs k)" "context_indexed (xd_events db)" "distinct (map cx_id (xd_events db))"
    using k(2) linkedD(2,3)[OF db] by simp_all
next
  fix e i assume "e \<in> set (xd_events db)" "cx_job e = Some i"
  then show "cx_status e = ''matched''" "\<exists>j \<in> set (kj_jobs k). jb_id j = i \<and> jb_event j = Some (cx_id e)"
    using linkedD(4)[OF db] k(1) unfolding links_kept_def by (blast, metis)
next
  fix j i assume j: "j \<in> set (kj_jobs k)" "jb_event j = Some i"
  then obtain j' where "j' \<in> set (xd_jobs db)" "jb_id j = jb_id j'" "jb_event j' = Some i" using k(1) unfolding links_kept_def by fastforce
  then show "\<exists>e \<in> set (xd_events db). cx_id e = i \<and> cx_job e = Some (jb_id j)" using linkedD(5)[OF db] by metis
qed

lemma linked_rows:
  assumes "linked db" "kj_jobs k = upd_where p f (xd_jobs db)" "\<And>j. j \<in> set (xd_jobs db) \<Longrightarrow> p j \<Longrightarrow> keeps_keys j (f j)"
  shows "linked (db\<lparr>xd_kommo := k\<rparr>)"
proof (rule linked_jobs[OF assms(1)])
  show "links_kept (xd_jobs db) (kj_jobs k)" unfolding assms(2) by (rule links_upd) (use assms(3) in \<open>simp add: keeps_keys_def\<close>)
  show "jobs_indexed (kj_jobs k)" unfolding assms(2) by (rule indexed_rows[OF linkedD(1)[OF assms(1)] assms(3)])
qed

lemma linked_content [simp]: "linked (db\<lparr>xd_content := c\<rparr>) = linked db"
  by (simp add: linked_def)

lemma put_details_row: "cx_status r = cx_status e \<Longrightarrow> same_row e r \<Longrightarrow> same_row e (put_details d r)"
  by (simp add: put_details_def same_row_def)

lemma linked_details: "linked db \<Longrightarrow> linked (merge_event_details i d db)" "linked db \<Longrightarrow> linked (record_mapping_not_found now i db)"
  "linked db \<Longrightarrow> linked (record_mapping_status i st b db)" "linked db \<Longrightarrow> linked (save_media_enrichment i m db)"
  unfolding merge_event_details_def record_mapping_not_found_def record_mapping_status_def save_media_enrichment_def
  by (rule linked_events, assumption, simp add: same_row_def put_details_def drop_details_def)+

lemma linked_expire: "linked db \<Longrightarrow> linked (expire_events now db)"
  unfolding expire_events_def by (rule linked_events, assumption) (simp add: same_row_def)

lemma linked_mark_events: "linked db \<Longrightarrow>
    linked (fold (\<lambda>i. set_events (\<lambda>e. cx_id e = i \<and> cx_job e = None) (\<lambda>e. put_details d (e\<lparr>cx_status := ''ambiguous''\<rparr>))) xs db)"
proof (induction xs arbitrary: db)
  case (Cons i xs)
  have "linked (set_events (\<lambda>e. cx_id e = i \<and> cx_job e = None) (\<lambda>e. put_details d (e\<lparr>cx_status := ''ambiguous''\<rparr>)) db)"
    by (rule linked_events[OF Cons.prems]) (simp add: same_row_def put_details_def)
  then show ?case using Cons.IH by simp
qed simp

lemma linked_mark_job: "linked db \<Longrightarrow> linked (db\<lparr>xd_kommo := mark_job_ambiguous now i (xd_kommo db)\<rparr>)"
  by (rule linked_rows[where p = "\<lambda>j. jb_id j = i \<and> jb_event j = None" and f = "\<lambda>j. j\<lparr>jb_context := ''ambiguous'', jb_updated := now\<rparr>"])
     (simp_all add: mark_job_ambiguous_def keeps_keys_def is_pending_def is_active_def)

lemma linked_mark: assumes "linked db" shows "linked (mark_ambiguous now cs db)"
proof -
  have "linked (db\<lparr>xd_kommo := fold (mark_job_ambiguous now) xs (xd_kommo db)\<rparr>)" if "linked db" for xs db
    using that
  proof (induction xs arbitrary: db)
    case (Cons i xs)
    then show ?case using Cons.IH[OF linked_mark_job[OF Cons.prems, of now i]] by simp
  qed simp
  from this[OF linked_mark_events[OF assms]] show ?thesis unfolding mark_ambiguous_def Let_def .
qed


lemma find_SomeD: "find p t = Some x \<Longrightarrow> x \<in> set t \<and> p x"
  by (auto simp: find_Some_iff)

text \<open>A pair that may be matched: rows of the tables that nothing else is matched with.\<close>

definition free_pair :: "candidate \<Rightarrow> correlation_db \<Rightarrow> bool" where
  "free_pair c db = (cn_event c \<in> set (xd_events db) \<and> cx_job (cn_event c) = None \<and> cn_job c \<in> set (xd_jobs db) \<and> open_job (cn_job c))"

lemma unused_event:
  assumes "linked db" "e \<in> set (xd_events db)" "cx_job e = None" "j \<in> set (xd_jobs db)"
  shows "jb_event j \<noteq> Some (cx_id e)"
proof
  assume "jb_event j = Some (cx_id e)"
  then obtain r where r: "r \<in> set (xd_events db)" "cx_id r = cx_id e" "cx_job r = Some (jb_id j)" using linkedD(5)[OF assms(1,4)] by blast
  then have "r = e" using linkedD(3)[OF assms(1)] assms(2) by (simp add: distinct_map inj_on_def)
  then show False using r(3) assms(3) by simp
qed

lemma unused_job:
  assumes "linked db" "j \<in> set (xd_jobs db)" "jb_event j = None" "e \<in> set (xd_events db)"
  shows "cx_job e \<noteq> Some (jb_id j)"
proof
  assume "cx_job e = Some (jb_id j)"
  then obtain k where k: "k \<in> set (xd_jobs db)" "jb_id k = jb_id j" "jb_event k = Some (cx_id e)" using linkedD(4)[OF assms(1,4)] by blast
  then have "k = j" using same_job_id[OF linkedD(1)[OF assms(1)]] assms(2) by blast
  then show False using k(3) assms(3) by simp
qed

lemma persist_cases:
  assumes "persist_match now c db = (r, db')" "free_pair c db"
  shows "(\<exists>x. r = Inl x) \<and> db' = db
    \<or> r = Inr True \<and> xd_events db' = upd_where (\<lambda>e. cx_id e = cx_id (cn_event c) \<and> cx_job e = None)
          (\<lambda>e. put_details (match_details c (xd_kommo db)) (e\<lparr>cx_status := ''matched'', cx_job := Some (jb_id (cn_job c))\<rparr>)) (xd_events db)
        \<and> (\<exists>v. xd_jobs db' = upd_where (\<lambda>j. awaits_context (jb_id (cn_job c)) j \<and> jb_event j = None)
              (matched_row now (cx_id (cn_event c)) (story_event (cn_event c)) (cn_score c) (cx_username (cn_event c)) v) (xd_jobs db))
        \<and> jobs_indexed (xd_jobs db') \<and> context_indexed (xd_events db') \<and> xd_content db' = xd_content db"
proof -
  have "list_ex (\<lambda>j. awaits_context (jb_id (cn_job c)) j \<and> jb_event j = None) (xd_jobs db)"
    using assms(2) by (auto simp: free_pair_def open_job_def awaits_context_def list_ex_iff)
  then show ?thesis using assms(1)
    by (auto simp: persist_match_def match_context_def store_jobs_def set_events_def Let_def split: if_splits)
qed

lemma linked_persist:
  assumes db: "linked db" and c: "free_pair c db"
  shows "linked (snd (persist_match now c db))"
proof -
  obtain r db' where p: "persist_match now c db = (r, db')" by fastforce
  let ?e = "cn_event c" and ?j = "cn_job c"
  have e: "?e \<in> set (xd_events db)" "cx_job ?e = None" and j: "?j \<in> set (xd_jobs db)" "jb_status ?j = JContext" "jb_event ?j = None"
    using c by (auto simp: free_pair_def open_job_def)
  from persist_cases[OF p c] show ?thesis
  proof (elim disjE conjE exE)
    fix x assume "db' = db"
    then show ?thesis using p db by simp
  next
    fix v
    let ?f = "\<lambda>e. put_details (match_details c (xd_kommo db)) (e\<lparr>cx_status := ''matched'', cx_job := Some (jb_id ?j)\<rparr>)"
    let ?g = "matched_row now (cx_id ?e) (story_event ?e) (cn_score c) (cx_username ?e) v"
    assume ev: "xd_events db' = upd_where (\<lambda>e. cx_id e = cx_id ?e \<and> cx_job e = None) ?f (xd_events db)"
      and jb: "xd_jobs db' = upd_where (\<lambda>j. awaits_context (jb_id ?j) j \<and> jb_event j = None) ?g (xd_jobs db)"
      and ix: "jobs_indexed (xd_jobs db')" "context_indexed (xd_events db')"
    have f: "cx_id (?f e) = cx_id e" "cx_job (?f e) = Some (jb_id ?j)" "cx_status (?f e) = ''matched''" for e by (simp_all add: put_details_def)
    have new_job: "?g ?j \<in> set (xd_jobs db')" using j by (auto simp: jb upd_where_def awaits_context_def)
    have new_event: "?f ?e \<in> set (xd_events db')" using e by (auto simp: ev upd_where_def)
    have old_job: "k \<in> set (xd_jobs db')" if "k \<in> set (xd_jobs db)" "jb_event k \<noteq> None" for k
      using that by (auto simp: jb upd_where_def image_iff intro!: bexI[of _ k])
    have old_event: "r \<in> set (xd_events db')" if "r \<in> set (xd_events db)" "cx_job r \<noteq> None" for r
      using that by (auto simp: ev upd_where_def image_iff intro!: bexI[of _ r])
    have "linked db'" unfolding linked_def
    proof (intro conjI ballI allI impI)
      show "jobs_indexed (xd_jobs db')" "context_indexed (xd_events db')" by (fact ix)+
      have "map cx_id (xd_events db') = map cx_id (xd_events db)" unfolding ev by (rule map_upd_same) (rule f)
      then show "distinct (map cx_id (xd_events db'))" using linkedD(3)[OF db] by simp
    next
      fix r k assume r: "r \<in> set (xd_events db')" "cx_job r = Some k"
      then consider "r \<in> set (xd_events db)" | e0 where "r = ?f e0" "cx_id e0 = cx_id ?e" by (auto simp: ev upd_where_def split: if_splits)
      then have "cx_status r = ''matched'' \<and> (\<exists>j \<in> set (xd_jobs db'). jb_id j = k \<and> jb_event j = Some (cx_id r))"
      proof cases
        case 1
        from linkedD(4)[OF db 1 r(2)] show ?thesis using old_job by blast
      next
        case 2
        then have "k = jb_id ?j" "cx_id r = cx_id ?e" "cx_status r = ''matched''" using r(2) f by simp_all
        then show ?thesis using new_job by (intro conjI bexI[of _ "?g ?j"]) simp_all
      qed
      then show "cx_status r = ''matched''" "\<exists>j \<in> set (xd_jobs db'). jb_id j = k \<and> jb_event j = Some (cx_id r)" by blast+
    next
      fix k i assume k: "k \<in> set (xd_jobs db')" "jb_event k = Some i"
      then consider "k \<in> set (xd_jobs db)" | k0 where "k = ?g k0" "jb_id k0 = jb_id ?j" by (auto simp: jb upd_where_def awaits_context_def split: if_splits)
      then show "\<exists>e \<in> set (xd_events db'). cx_id e = i \<and> cx_job e = Some (jb_id k)"
      proof cases
        case 1
        from linkedD(5)[OF db 1 k(2)] show ?thesis using old_event by blast
      next
        case 2
        then have "i = cx_id ?e" "jb_id k = jb_id ?j" using k(2) by simp_all
        then show ?thesis using new_event f by (intro bexI[of _ "?f ?e"]) simp_all
      qed
    qed
    then show ?thesis using p by simp
  qed
qed

lemma score_candidate_rows: "score_candidate env w e j db = Some c \<Longrightarrow> cn_event c = e \<and> cn_job c = j"
  by (auto simp: score_candidate_def Let_def split: if_splits)

lemma in_map_filter: "c \<in> set (List.map_filter f xs) \<longleftrightarrow> (\<exists>x \<in> set xs. f x = Some c)"
  by (force simp: List.map_filter_def)

lemma free_for_event:
  assumes "e \<in> set (xd_events db)" "cx_job e = None" "c \<in> set (for_event env w e db)" shows "free_pair c db"
  using assms score_candidate_rows by (fastforce simp: for_event_def candidate_jobs_def free_pair_def in_map_filter)

lemma free_for_job:
  assumes "j \<in> set (xd_jobs db)" "open_job j" "c \<in> set (for_job env w j db)" shows "free_pair c db"
  using assms score_candidate_rows by (fastforce simp: for_job_def candidate_events_def open_event_def free_pair_def in_map_filter)

lemma winner_in: "winners cs = [c] \<Longrightarrow> c \<in> set cs"
proof -
  assume "winners cs = [c]"
  then have "c \<in> set (winners cs)" by simp
  then show "c \<in> set cs" by (simp add: winners_def)
qed

lemma linked_settle: "linked db \<Longrightarrow> free_pair c db \<Longrightarrow> linked (snd (settle_pair env a w c db))"
  using linked_persist[of db c "ne_now env"] linked_mark
  by (auto simp: settle_pair_def ambiguous_among_def Let_def split: list.split prod.split sum.split bool.split)

lemma linked_choose: "linked db \<Longrightarrow> (\<And>c. c \<in> set cs \<Longrightarrow> free_pair c db) \<Longrightarrow> linked (snd (choose_pair env a w cs db))"
  using linked_settle linked_mark winner_in by (auto simp: choose_pair_def ambiguous_among_def Let_def split: list.split)

lemma linked_correlate:
  assumes db: "linked db" shows "linked (snd (correlate env a db))"
proof (cases a)
  case (Event_Anchor i)
  show ?thesis
  proof (cases "load_event (ne_now env) i (xd_events db)")
    case (Some e)
    then have "e \<in> set (xd_events db)" "cx_job e = None" using find_SomeD by (fastforce simp: load_event_def open_event_def)+
    then show ?thesis using linked_choose[OF db free_for_event] Event_Anchor Some by (simp add: correlate_def)
  qed (simp add: Event_Anchor correlate_def db)
next
  case (Job_Anchor i)
  show ?thesis
  proof (cases "load_job i (xd_jobs db)")
    case (Some j)
    then have "j \<in> set (xd_jobs db)" "open_job j" using find_SomeD by (fastforce simp: load_job_def)+
    then show ?thesis using linked_choose[OF db free_for_job] Job_Anchor Some by (simp add: correlate_def)
  qed (simp add: Job_Anchor correlate_def db)
qed


lemma linked_release: "linked db \<Longrightarrow> linked (db\<lparr>xd_kommo := release_matched now i st v (xd_kommo db)\<rparr>)"
  by (rule linked_rows[where p = "\<lambda>j. awaits_context i j \<and> jb_context j = ''matched''"
        and f = "\<lambda>j. (put_context st v (drop_products st j))\<lparr>jb_status := JReady, jb_updated := now\<rparr>"])
     (auto simp: release_matched_def keeps_keys_def is_pending_def is_active_def active_statuses_def awaits_context_def)

lemma linked_enrich_job: "linked db \<Longrightarrow> linked (db\<lparr>xd_kommo := enrich_matched now i e v (xd_kommo db)\<rparr>)"
  by (rule linked_rows[where p = "\<lambda>j. jb_id j = i \<and> jb_event j = Some e" and f = "\<lambda>j. put_context False v (j\<lparr>jb_updated := now\<rparr>)"])
     (auto simp: enrich_matched_def keeps_keys_def is_pending_def is_active_def)

lemma linked_due: "linked db \<Longrightarrow> linked (release_if_due now i db)"
  unfolding release_if_due_def release_timed_out_def Let_def snd_conv
  by (rule linked_rows, assumption, rule set_jobs_sel(1))
     (simp add: keeps_keys_def is_pending_def is_active_def active_statuses_def awaits_context_def)

lemma linked_resolve: "linked db \<Longrightarrow> linked (snd (resolve_and_release_matched_job env force i db))"
  using linked_release linked_details
  by (auto simp: resolve_and_release_matched_job_def release_with_def Let_def split: option.split prod.split resolution.split)

lemma linked_gate: assumes "linked db" shows "linked (gate_job env row db)"
proof -
  let ?c = "if jb_context row \<noteq> ''matched'' then correlate env (Job_Anchor (jb_id row)) db else (Inr C_Missing, db)"
  have "linked (snd ?c)" using linked_correlate[OF assms] assms by simp
  then show ?thesis using linked_resolve unfolding gate_job_def by (auto simp: Let_def split: sum.split option.split prod.split)
qed

lemma linked_fold: "linked db \<Longrightarrow> (\<And>x d. linked d \<Longrightarrow> linked (f x d)) \<Longrightarrow> linked (fold f xs db)"
  by (induction xs arbitrary: db) auto

lemma linked_waiting: "linked db \<Longrightarrow> linked (process_waiting_context_jobs env limit db)"
  unfolding process_waiting_context_jobs_def gate_and_release_def by (intro linked_expire linked_fold linked_due linked_gate)

lemma linked_timed_out: "linked db \<Longrightarrow> linked (release_timed_out_context_jobs now limit db)"
  unfolding release_timed_out_context_jobs_def by (intro linked_fold linked_due)

lemma linked_update: "linked db \<Longrightarrow> linked (update_matched_job_context now i e db)"
  using linked_details(1)[OF linked_enrich_job] by (auto simp: update_matched_job_context_def split: option.split)

lemma linked_enrich: "linked db \<Longrightarrow> enrich_event get e db = (e1, b, db1) \<Longrightarrow> linked db1"
  using linked_details by (auto simp: enrich_event_def split: if_splits sum.splits media_failure.splits)

lemma linked_backfill: "linked db \<Longrightarrow> linked (backfill_event env e d b db)"
  using linked_details by (auto simp: backfill_event_def Let_def split: sum.split prod.split backfill.split)

lemma linked_follow: assumes "linked db" shows "linked (snd (follow_event env get e db))"
proof -
  obtain r db1 where c: "correlated env (cx_id e) db = (r, db1)" by fastforce
  have 1: "linked db1" using c linked_correlate[OF assms, of env "Event_Anchor (cx_id e)"] by (auto simp: correlated_def split: prod.splits sum.splits)
  define db2 where "db2 = snd (resolve_and_release_matched_job env (is_match r) (cx_id e) db1)"
  have 2: "linked db2" unfolding db2_def by (rule linked_resolve[OF 1])
  obtain e1 b db3 where e: "enrich_event get e db2 = (e1, b, db3)" by (metis prod_cases3)
  define db4 where "db4 = (if opt_str (cx_media e1) \<noteq> [] then update_matched_job_context (ne_now env) (cx_id e) e1 db3 else db3)"
  have 4: "linked db4" using linked_enrich[OF 2 e] linked_update unfolding db4_def by simp
  have "snd (follow_event env get e db) = snd (resolve_and_release_matched_job env b (cx_id e) (backfill_event env e1 (cx_details e) b db4))"
    using c e unfolding follow_event_def db2_def[symmetric] by (simp add: Let_def db4_def flip: db2_def)
  then show ?thesis using linked_resolve[OF linked_backfill[OF 4]] by simp
qed

lemma linked_event: "linked db \<Longrightarrow> linked (snd (process_context_event env new_id get i db))"
proof -
  assume "linked db"
  then have "linked (snd (follow_event env get e (db\<lparr>xd_content := c\<rparr>)))" for e c using linked_follow[of "db\<lparr>xd_content := c\<rparr>"] by simp
  then show "linked (snd (process_context_event env new_id get i db))" using \<open>linked db\<close>
    by (auto simp: process_context_event_def split: option.split prod.split sum.split) (metis snd_conv)+
qed

lemma linked_process: "linked db \<Longrightarrow> linked (snd (process_events env ids k get xs db))"
proof (induction env ids k get xs db rule: process_events.induct)
  case (2 env ids k get i rest db)
  then show ?case using linked_event[of db env "ids k" get i] by (auto split: prod.split sum.split)
qed simp

lemma linked_pending: "linked db \<Longrightarrow> linked (snd (process_pending_context_events env ids get limit db))"
  using linked_process by (simp add: process_pending_context_events_def)

end
