(* ===== verification/Meta_Protocol.thy ===== *)
theory Meta_Protocol
  imports Meta_Runs
begin

text \<open>
  The queue and the correlation at work together: a state is a run of the queue with the tables of Instagram
  events and contents beside it, a step is one of the queue or one operation of the correlation, and the
  invariant is that of the queue with the links between events and jobs.
\<close>

record meta_run =
  mt_queue :: kommo_run
  mt_events :: "context_row list"
  mt_content :: content_db

definition tables :: "meta_run \<Rightarrow> correlation_db" where
  "tables s = \<lparr>xd_events = mt_events s, xd_kommo = run_db (mt_queue s), xd_content = mt_content s\<rparr>"

definition with_tables :: "correlation_db \<Rightarrow> meta_run \<Rightarrow> meta_run" where
  "with_tables db s = s\<lparr>mt_queue := with_db (xd_kommo db) (mt_queue s), mt_events := xd_events db, mt_content := xd_content db\<rparr>"

lemma tables_sel [simp]: "xd_events (tables s) = mt_events s" "xd_kommo (tables s) = run_db (mt_queue s)" "xd_content (tables s) = mt_content s"
  by (simp_all add: tables_def)

lemma tables_with [simp]: "tables (with_tables db s) = db" "mt_queue (with_tables db s) = with_db (xd_kommo db) (mt_queue s)"
  by (simp_all add: tables_def with_tables_def)

text \<open>A match of the queue's protocol, which only the correlation makes.\<close>

definition match_step :: "kommo_run \<Rightarrow> kommo_run \<Rightarrow> bool" where
  "match_step s t = (\<exists>now jid event story score sender ctx. t = with_db (snd (match_context now jid event story score sender ctx (run_db s))) s)"

definition fresh_events :: "(nat \<Rightarrow> string) \<Rightarrow> context_row list \<Rightarrow> bool" where
  "fresh_events ids t = (inj ids \<and> (\<forall>e \<in> set t. cx_id e \<notin> range ids))"

text \<open>The operations of the correlation are steps as a whole and by the transactions they consist of, so that a
  worker may stop, or another one work, between two of them.\<close>

inductive mstep :: "meta_run \<Rightarrow> meta_run \<Rightarrow> bool" where
  m_queue: "kstep (mt_queue s) q \<Longrightarrow> \<not> match_step (mt_queue s) q \<Longrightarrow> mstep s (s\<lparr>mt_queue := q\<rparr>)"
| m_webhook: "fresh_events ids (mt_events s) \<Longrightarrow>
     mstep s (s\<lparr>mt_events := snd (snd (handle_instagram_context cfg dates now sha ids signed body (mt_events s)))\<rparr>)"
| m_content: "mstep s (s\<lparr>mt_content := c\<rparr>)"
| m_event: "mstep s (with_tables (snd (process_context_event env new_id get_media i (tables s))) s)"
| m_pending: "mstep s (with_tables (snd (process_pending_context_events env ids get_media limit (tables s))) s)"
| m_waiting: "mstep s (with_tables (process_waiting_context_jobs env limit (tables s)) s)"
| m_timed_out: "mstep s (with_tables (release_timed_out_context_jobs now limit (tables s)) s)"
| m_correlate: "mstep s (with_tables (snd (correlate env a (tables s))) s)"
| m_resolve: "mstep s (with_tables (snd (resolve_and_release_matched_job env force i (tables s))) s)"
| m_due: "mstep s (with_tables (release_if_due now i (tables s)) s)"
| m_update: "mstep s (with_tables (update_matched_job_context now i e (tables s)) s)"
| m_details: "mstep s (with_tables (merge_event_details i d (tables s)) s)"
| m_media: "mstep s (with_tables (save_media_enrichment i m (tables s)) s)"
| m_expire: "mstep s (with_tables (expire_events now (tables s)) s)"

definition minit :: "meta_run \<Rightarrow> bool" where
  "minit s = (kinit (mt_queue s) \<and> mt_events s = [])"

definition minv :: "meta_run \<Rightarrow> bool" where
  "minv s = (kinv (mt_queue s) \<and> linked (tables s))"

section \<open>The invariant\<close>

lemma linked_add:
  assumes db: "linked db" and r: "cx_job r = None" "\<forall>e \<in> set (xd_events db). cx_id e \<noteq> cx_id r" "context_indexed (xd_events db @ [r])"
  shows "linked (db\<lparr>xd_events := xd_events db @ [r]\<rparr>)"
  unfolding linked_def
proof (simp, intro conjI ballI allI impI)
  show "jobs_indexed (xd_jobs db)" "context_indexed (xd_events db @ [r])" "distinct (map cx_id (xd_events db))" "cx_id r \<notin> cx_id ` set (xd_events db)"
    using linkedD(1,3)[OF db] r(2,3) by auto
next
  fix e k assume "e \<in> set (xd_events db)" "cx_job e = Some k"
  then show "cx_status e = ''matched''" "\<exists>j \<in> set (xd_jobs db). jb_id j = k \<and> jb_event j = Some (cx_id e)"
    using linkedD(4)[OF db] by blast+
next
  fix j i assume "j \<in> set (xd_jobs db)" "jb_event j = Some i"
  then show "(cx_id r = i \<and> cx_job r = Some (jb_id j)) \<or> (\<exists>e \<in> set (xd_events db). cx_id e = i \<and> cx_job e = Some (jb_id j))"
    using linkedD(5)[OF db] by blast
qed (use r(1) in simp_all)

lemma linked_store_events:
  assumes "linked db" "inj ids" "\<And>n e. k \<le> n \<Longrightarrow> e \<in> set (xd_events db) \<Longrightarrow> cx_id e \<noteq> ids n"
  shows "linked (db\<lparr>xd_events := snd (store_events cfg now sha ids k es (xd_events db))\<rparr>)"
  using assms
proof (induction es arbitrary: k db)
  case (Cons e es)
  show ?case
  proof (cases "wanted_event cfg e")
    case True
    obtain r t1 where s: "store_context_event now (cc_hours cfg) sha (ids k) e (xd_events db) = (r, t1)" by fastforce
    define row where "row = context_row_of now (cc_hours cfg) sha (ids k) e"
    have row: "cx_id row = ids k" "cx_job row = None" by (simp_all add: row_def context_row_of_def)
    define db1 where "db1 = db\<lparr>xd_events := t1\<rparr>"
    have "linked db1 \<and> (\<forall>e \<in> set t1. \<forall>n \<ge> k + 1. cx_id e \<noteq> ids n)"
      using store_context_cases[OF s]
    proof
      assume a: "r = Event_Created (ids k) \<and> t1 = xd_events db @ [context_row_of now (cc_hours cfg) sha (ids k) e] \<and> \<not> list_ex (repeats e) (xd_events db)"
      then have "linked db1" unfolding db1_def row_def[symmetric]
        using linked_add[OF Cons.prems(1) row(2)] row(1) Cons.prems(3)[of k] store_indexed[OF linkedD(2)[OF Cons.prems(1)], of e now "cc_hours cfg" sha "ids k"]
        by (simp add: row_def)
      moreover have "ids k \<noteq> ids n" if "k + 1 \<le> n" for n using that injD[OF Cons.prems(2), of k n] by fastforce
      ultimately show ?thesis using a Cons.prems(3) row by (auto simp flip: row_def)
    next
      assume "(\<exists>i. r = Event_Duplicate i) \<and> t1 = xd_events db \<and> list_ex (repeats e) (xd_events db)"
      then show ?thesis using Cons.prems by (simp add: db1_def)
    qed
    then have "linked (db1\<lparr>xd_events := snd (store_events cfg now sha ids (k + 1) es (xd_events db1))\<rparr>)"
      using Cons.IH[of db1 "k + 1"] Cons.prems(2) by (simp add: db1_def)
    moreover have "snd (store_events cfg now sha ids k (e # es) (xd_events db)) = snd (store_events cfg now sha ids (k + 1) es t1)"
      using True s by (auto split: stored_event.split prod.split)
    ultimately show ?thesis by (simp add: db1_def)
  qed (use Cons in simp)
qed simp

lemma linked_webhook:
  assumes "linked db" "fresh_events ids (xd_events db)"
  shows "linked (db\<lparr>xd_events := snd (snd (handle_instagram_context cfg dates now sha ids signed body (xd_events db)))\<rparr>)"
proof -
  have "cx_id e \<noteq> ids n" if "e \<in> set (xd_events db)" for n e using that assms(2) unfolding fresh_events_def by (metis rangeI)
  then have "linked (db\<lparr>xd_events := snd (store_events cfg now sha ids 0 es (xd_events db))\<rparr>)" for es
    using linked_store_events[OF assms(1)] assms(2) by (simp add: fresh_events_def)
  then show ?thesis using assms(1) by (auto simp: handle_instagram_context_def snd_def split: option.split sum.split prod.split)
qed

lemma kinv_tables: "kinv (mt_queue s) \<Longrightarrow> queue_runs (run_db (mt_queue s)) (xd_kommo db) \<Longrightarrow> kinv (mt_queue (with_tables db s))"
  using kommo_queue.steps_inv by (auto simp: queue_runs_def)

lemma minv_tables:
  "minv s \<Longrightarrow> queue_runs (xd_kommo (tables s)) (xd_kommo db) \<Longrightarrow> linked db \<Longrightarrow> minv (with_tables db s)"
  using kinv_tables[of s db] by (simp add: minv_def)

lemma minv_step: "mstep s t \<Longrightarrow> minv s \<Longrightarrow> minv t"
proof (induction rule: mstep.induct)
  case (m_queue s q)
  have k: "kinv q" using kommo_queue.step_inv[OF m_queue.hyps(1)] m_queue.prems by (simp add: minv_def)
  have "links_kept (run_jobs (mt_queue s)) (run_jobs q)" using link_step[OF m_queue.hyps(1)] m_queue.hyps(2) by (auto simp: match_step_def)
  then have "linked ((tables s)\<lparr>xd_kommo := run_db q\<rparr>)"
    using linked_jobs[of "tables s" "run_db q"] m_queue.prems kinvD(1)[OF k] by (simp add: minv_def)
  then show ?case using k by (simp add: minv_def tables_def)
next
  case (m_webhook ids s cfg dates now sha signed body)
  then have "linked ((tables s)\<lparr>xd_events := snd (snd (handle_instagram_context cfg dates now sha ids signed body (mt_events s)))\<rparr>)"
    using linked_webhook[of "tables s" ids] by (simp add: minv_def)
  then show ?case using m_webhook.prems by (simp add: minv_def tables_def)
next
  case (m_content s c)
  then show ?case using linked_content[of c "tables s"] by (simp add: minv_def tables_def)
next
  case (m_event s env new_id get_media i)
  then show ?case using minv_tables[OF _ queue_effects.rel_after_event linked_event] by (simp add: minv_def)
next
  case (m_pending s env ids get_media limit)
  have "queue_runs (xd_kommo (tables s)) (xd_kommo (snd (process_pending_context_events env ids get_media limit (tables s))))"
    by (rule queue_effects.rel_after_pending)
  then show ?case using minv_tables[OF _ _ linked_pending] m_pending by (simp add: minv_def)
next
  case (m_waiting s env limit)
  then show ?case using minv_tables[OF _ queue_effects.rel_after_waiting linked_waiting] by (simp add: minv_def)
next
  case (m_timed_out s now limit)
  then show ?case using minv_tables[OF _ queue_effects.rel_after_timed_out linked_timed_out] by (simp add: minv_def)
next
  case (m_correlate s env a)
  then show ?case using minv_tables[OF _ queue_effects.rel_after_correlate linked_correlate] by (simp add: minv_def)
next
  case (m_resolve s env force i)
  then show ?case using minv_tables[OF _ queue_effects.rel_after_resolve linked_resolve] by (simp add: minv_def)
next
  case (m_due s now i)
  then show ?case using minv_tables[OF _ queue_effects.rel_after_due linked_due] by (simp add: minv_def)
next
  case (m_update s now i e)
  then show ?case using minv_tables[OF _ queue_effects.rel_after_update linked_update] by (simp add: minv_def)
next
  case (m_details s i d)
  then show ?case using minv_tables linked_details(1) by (simp add: minv_def)
next
  case (m_media s i m)
  then show ?case using minv_tables linked_details(4) by (simp add: minv_def)
next
  case (m_expire s now)
  then show ?case using minv_tables linked_expire by (simp add: minv_def)
qed

lemma minv_init: "minit s \<Longrightarrow> minv s"
  using kommo_queue.init_inv[of "mt_queue s"]
  by (auto simp: minit_def minv_def linked_def kinit_def context_indexed_def unique_among_def jobs_indexed_def)

interpretation correlating: protocol minit mstep minv
  by unfold_locales (rule minv_init, assumption, rule minv_step)


section \<open>A sample\<close>

text \<open>The reply to a story as the webhook of Meta brings it, and the message the Kommo webhook brings for it.\<close>

definition story_body :: json where
  "story_body = JObj [(''object'', js ''instagram''), (''entry'', JList [JObj [(''id'', js ''a''), (''messaging'', JList [JObj
     [(''sender'', JObj [(''id'', js ''u'')] []), (''message'', JObj [(''mid'', js ''m''), (''text'', js ''hola''),
        (''reply_to'', JObj [(''story'', JObj [(''id'', js ''s'')] [])] [])] [])] []] [])] []] [])] []"

definition story_contexts :: webhook_config where
  "story_contexts = \<lparr>cc_comments = False, cc_stories = True, cc_account = ''a'', cc_hours = 24\<rparr>"

definition event_ids :: "nat \<Rightarrow> string" where
  "event_ids k = CHR ''e'' # replicate k (CHR ''e'')"

definition story_stored :: "context_row list" where
  "story_stored = snd (snd (handle_instagram_context story_contexts (\<lambda>_. None) 18 (\<lambda>t. t) event_ids True (Some story_body) []))"

definition dm_stored :: kommo_db where
  "dm_stored = received 0 ''j'' (sample_message ''instagram'' ''m1'') (run_db no_jobs)"

definition dm_claim :: "(py_exc + kommo_job option) \<times> kommo_db" where
  "dm_claim = claim_due_pending_job 20 ''lease'' dm_stored"

definition dm_job :: kommo_job where
  "dm_job = (case fst dm_claim of Inr (Some j) \<Rightarrow> j | _ \<Rightarrow> blank_job 0 [] [])"

definition dm_waiting :: kommo_db where
  "dm_waiting = snd (mark_direct_instagram_job_prepared 21 ''j'' (Some ''lease'') True 30 False None (snd dm_claim))"

definition sample_correlation :: correlation_env where
  "sample_correlation = \<lparr>ne_now = 22, ne_sha = (\<lambda>t. t), ne_comment_window = 60, ne_story_window = 60, ne_story_hours = 24,
     ne_mappings = [], ne_enabled = True\<rparr>"


definition sample_event :: context_row where
  "sample_event = \<lparr>cx_id = ''e'', cx_external = ''m'', cx_type = ''story_reply'', cx_account = Some ''a'', cx_sender = Some ''u'',
     cx_username = None, cx_text = Some ''hola'', cx_hash = ''hola'', cx_time = 18, cx_comment = None, cx_parent = None,
     cx_message = Some ''m'', cx_media = Some ''s'', cx_media_type = None, cx_product_type = None, cx_story = Some ''s'',
     cx_story_url = None, cx_permalink = None, cx_caption = None, cx_media_time = None, cx_thumbnail = None,
     cx_status = ''pending'', cx_job = None, cx_details = [], cx_expires = 86418, cx_created = 18\<rparr>"

definition sample_job :: kommo_job where
  "sample_job = (blank_job 0 ''j'' ''kommo:private_message:chat-1'')
     \<lparr>jb_external := Some ''m1'', jb_lead := Some ''l1'', jb_contact := Some ''c1'', jb_chat := Some ''chat-1'', jb_talk := Some ''77'',
      jb_channel := Some ''instagram'', jb_interaction := ''private_message'', jb_message := ''hola'', jb_type := Some ''text'',
      jb_status := JContext, jb_attempts := 1, jb_buffer := 15, jb_updated := 21, jb_context := ''pending'', jb_deadline := Some 51\<rparr>"

definition sample_receipt :: kommo_receipt where
  "sample_receipt = \<lparr>kr_message = ''m1'', kr_job = ''j'', kr_correlation = ''kommo:private_message:chat-1'', kr_lead = Some ''l1'',
     kr_contact = Some ''c1'', kr_chat = Some ''chat-1'', kr_talk = Some ''77'', kr_author = None, kr_origin = None,
     kr_channel = Some ''instagram'', kr_interaction = ''private_message'', kr_status = ''created'', kr_received = Some 0,
     kr_text = ''hola'', kr_hash = ''hola'', kr_created = 0\<rparr>"

definition sample_tables :: correlation_db where
  "sample_tables = \<lparr>xd_events = [sample_event], xd_kommo = \<lparr>kj_jobs = [sample_job], kj_receipts = [sample_receipt], kj_outbound = [],
     kj_history = []\<rparr>, xd_content = \<lparr>cd_rows = [], cd_products = []\<rparr>\<rparr>"


lemma story_sample_facts:
  "story_stored = xd_events sample_tables" "dm_waiting = xd_kommo sample_tables"
  "fst dm_claim = Inr (Some dm_job)" "jb_id dm_job = ''j''" "jb_lease dm_job = Some ''lease''"
  "Some ''lease'' \<notin> set (map jb_lease (kj_jobs dm_stored))" "is_direct_instagram_dm dm_job"
  "is_valid_kommo_id (jb_talk dm_job) = Inr True"
  by code_simp+


section \<open>The mutual best pair\<close>

lemma unique_id: "distinct (map f t) \<Longrightarrow> a \<in> set t \<Longrightarrow> b \<in> set t \<Longrightarrow> f a = f b \<Longrightarrow> a = b"
  by (simp add: distinct_map inj_on_def)

lemma top_score_ge: "d \<in> set cs \<Longrightarrow> cn_score d \<le> top_score cs"
proof -
  have "m \<le> fold (\<lambda>c m. max (cn_score c) m) cs m \<and> (\<forall>d \<in> set cs. cn_score d \<le> fold (\<lambda>c m. max (cn_score c) m) cs m)" for m
    by (induction cs arbitrary: m) (simp, metis (no_types, lifting) fold_simps(2) max.bounded_iff set_ConsD)
  then show "d \<in> set cs \<Longrightarrow> cn_score d \<le> top_score cs" by (simp add: top_score_def)
qed

lemma winners_unique: "winners cs = [c] \<Longrightarrow> d \<in> set cs \<Longrightarrow> d = c \<or> cn_score d < cn_score c"
proof -
  assume w: "winners cs = [c]" and d: "d \<in> set cs"
  have "c \<in> set (winners cs)" using w by simp
  then have top: "cn_score c = top_score cs" by (simp add: winners_def)
  show "d = c \<or> cn_score d < cn_score c"
  proof (cases "cn_score d = top_score cs")
    case True
    then have "d \<in> set (winners cs)" using d by (simp add: winners_def)
    then show ?thesis using w by simp
  qed (use top top_score_ge[OF d] in simp)
qed

lemma winners_single: "0 \<le> cn_score c \<Longrightarrow> winners [c] = [c]"
  by (simp add: winners_def top_score_def)

text \<open>What a match rests on: both rows are open, and each is the best that the other has.\<close>

definition mutual_best :: "correlation_env \<Rightarrow> int \<Rightarrow> candidate \<Rightarrow> correlation_db \<Rightarrow> bool" where
  "mutual_best env w c db = (let e = cn_event c; j = cn_job c in
     e \<in> set (xd_events db) \<and> open_event (ne_now env) e \<and> j \<in> set (xd_jobs db) \<and> open_job j \<and> score_candidate env w e j db = Some c
     \<and> (\<forall>d \<in> set (for_event env w e db) \<union> set (for_job env w j db). d = c \<or> cn_score d < cn_score c))"

lemma mutual_bestI:
  assumes "cn_event c = e" "cn_job c = j" "e \<in> set (xd_events db)" "open_event (ne_now env) e" "j \<in> set (xd_jobs db)" "open_job j"
    and "score_candidate env w e j db = Some c" "winners (for_event env w e db) = [c]" "winners (for_job env w j db) = [c]"
  shows "mutual_best env w c db"
  unfolding mutual_best_def Let_def assms(1,2) using assms(3-7) winners_unique[OF assms(8)] winners_unique[OF assms(9)] by blast

lemma for_eventD: "c \<in> set (for_event env w e db) \<Longrightarrow>
    cn_event c = e \<and> cn_job c \<in> set (xd_jobs db) \<and> open_job (cn_job c) \<and> score_candidate env w e (cn_job c) db = Some c"
  using score_candidate_rows by (fastforce simp: for_event_def candidate_jobs_def in_map_filter)

lemma for_jobD: "c \<in> set (for_job env w j db) \<Longrightarrow>
    cn_job c = j \<and> cn_event c \<in> set (xd_events db) \<and> open_event (ne_now env) (cn_event c) \<and> score_candidate env w (cn_event c) j db = Some c"
  using score_candidate_rows by (fastforce simp: for_job_def candidate_events_def in_map_filter)

lemma choose_matched:
  assumes "choose_pair env a w cs db = (Inr (C_Matched i k sc), db')"
  obtains c d where "winners cs = [c]" "winners (opposite_candidates env a w c db) = [d]" "same_pair c d"
    "persist_match (ne_now env) c db = (Inr True, db')" "i = cx_id (cn_event c)" "k = jb_id (cn_job c)" "sc = cn_score c"
  using assms
  by (auto simp: choose_pair_def settle_pair_def ambiguous_among_def Let_def split: list.splits if_splits prod.splits sum.splits bool.splits)

lemma correlate_matched:
  assumes r: "correlate env a db = (Inr (C_Matched i k sc), db')" and l: "linked db"
  obtains c w where "mutual_best env w c db" "w \<in> {event_window env (cn_event c), job_window env (cn_job c)}"
    "persist_match (ne_now env) c db = (Inr True, db')" "i = cx_id (cn_event c)" "k = jb_id (cn_job c)" "sc = cn_score c"
    "a = Event_Anchor i \<or> a = Job_Anchor k"
proof (cases a)
  case (Event_Anchor x)
  then obtain e where e: "load_event (ne_now env) x (xd_events db) = Some e"
      "choose_pair env a (event_window env e) (for_event env (event_window env e) e db) db = (Inr (C_Matched i k sc), db')"
    using r by (auto simp: correlate_def split: option.splits)
  let ?w = "event_window env e"
  have row: "e \<in> set (xd_events db)" "cx_id e = x" "open_event (ne_now env) e" using e(1) find_SomeD by (fastforce simp: load_event_def)+
  obtain c d where c: "winners (for_event env ?w e db) = [c]" "winners (for_job env ?w (cn_job c) db) = [d]" "same_pair c d"
      "persist_match (ne_now env) c db = (Inr True, db')" "i = cx_id (cn_event c)" "k = jb_id (cn_job c)" "sc = cn_score c"
    using choose_matched[OF e(2)] Event_Anchor by (auto simp: opposite_candidates_def)
  note cf = for_eventD[OF winner_in[OF c(1)]] and df = for_jobD[OF winner_in[OF c(2)]]
  have d: "cn_event d = e" using unique_id[OF linkedD(3)[OF l]] df cf row(1) c(3) by (metis same_pair_def)
  have "score_candidate env ?w e (cn_job c) db = Some d" using df unfolding d by blast
  moreover have "score_candidate env ?w e (cn_job c) db = Some c" using cf by blast
  ultimately have "d = c" by (metis option.inject)
  then have w: "winners (for_job env ?w (cn_job c) db) = [c]" using c(2) by simp
  have m: "mutual_best env ?w c db" by (rule mutual_bestI[OF _ refl _ _ _ _ _ c(1) w]) (use cf row in simp_all)
  show ?thesis by (rule that[OF m _ c(4-7)]) (use cf Event_Anchor c(5) row in simp_all)
next
  case (Job_Anchor x)
  then obtain j where j: "load_job x (xd_jobs db) = Some j"
      "choose_pair env a (job_window env j) (for_job env (job_window env j) j db) db = (Inr (C_Matched i k sc), db')"
    using r by (auto simp: correlate_def split: option.splits)
  let ?w = "job_window env j"
  have row: "j \<in> set (xd_jobs db)" "jb_id j = x" "open_job j" using j(1) find_SomeD by (fastforce simp: load_job_def)+
  obtain c d where c: "winners (for_job env ?w j db) = [c]" "winners (for_event env ?w (cn_event c) db) = [d]" "same_pair c d"
      "persist_match (ne_now env) c db = (Inr True, db')" "i = cx_id (cn_event c)" "k = jb_id (cn_job c)" "sc = cn_score c"
    using choose_matched[OF j(2)] Job_Anchor by (auto simp: opposite_candidates_def)
  note cf = for_jobD[OF winner_in[OF c(1)]] and df = for_eventD[OF winner_in[OF c(2)]]
  have d: "cn_job d = j" using same_job_id[OF linkedD(1)[OF l]] df cf row(1) c(3) by (metis same_pair_def)
  have "score_candidate env ?w (cn_event c) j db = Some d" using df unfolding d by blast
  moreover have "score_candidate env ?w (cn_event c) j db = Some c" using cf by blast
  ultimately have "d = c" by (metis option.inject)
  then have w: "winners (for_event env ?w (cn_event c) db) = [c]" using c(2) by simp
  have m: "mutual_best env ?w c db" by (rule mutual_bestI[OF refl _ _ _ _ _ _ w c(1)]) (use cf row in simp_all)
  show ?thesis by (rule that[OF m _ c(4-7)]) (use cf Job_Anchor c(6) row in simp_all)
qed

text \<open>The rows a match has written.\<close>

lemma persisted_rows:
  assumes "persist_match now c db = (Inr True, db')" "mutual_best env w c db"
  shows "\<exists>e \<in> set (xd_events db'). cx_id e = cx_id (cn_event c) \<and> cx_job e = Some (jb_id (cn_job c)) \<and> cx_status e = ''matched''"
    "\<exists>j \<in> set (xd_jobs db'). jb_id j = jb_id (cn_job c) \<and> jb_event j = Some (cx_id (cn_event c))"
proof -
  have m: "cn_event c \<in> set (xd_events db)" "cx_job (cn_event c) = None" "cn_job c \<in> set (xd_jobs db)" "open_job (cn_job c)"
    using assms(2) by (auto simp: mutual_best_def Let_def open_event_def)
  then have f: "free_pair c db" by (simp add: free_pair_def)
  from persist_cases[OF assms(1) f] obtain v where
    ev: "xd_events db' = upd_where (\<lambda>e. cx_id e = cx_id (cn_event c) \<and> cx_job e = None)
        (\<lambda>e. put_details (match_details c (xd_kommo db)) (e\<lparr>cx_status := ''matched'', cx_job := Some (jb_id (cn_job c))\<rparr>)) (xd_events db)"
    and jb: "xd_jobs db' = upd_where (\<lambda>j. awaits_context (jb_id (cn_job c)) j \<and> jb_event j = None)
        (matched_row now (cx_id (cn_event c)) (story_event (cn_event c)) (cn_score c) (cx_username (cn_event c)) v) (xd_jobs db)"
    by auto
  show "\<exists>e \<in> set (xd_events db'). cx_id e = cx_id (cn_event c) \<and> cx_job e = Some (jb_id (cn_job c)) \<and> cx_status e = ''matched''"
    unfolding ev using m by (intro bexI[of _ "put_details (match_details c (xd_kommo db)) ((cn_event c)\<lparr>cx_status := ''matched'', cx_job := Some (jb_id (cn_job c))\<rparr>)"])
      (auto simp: upd_where_def put_details_def)
  show "\<exists>j \<in> set (xd_jobs db'). jb_id j = jb_id (cn_job c) \<and> jb_event j = Some (cx_id (cn_event c))"
    unfolding jb using m by (intro bexI[of _ "matched_row now (cx_id (cn_event c)) (story_event (cn_event c)) (cn_score c) (cx_username (cn_event c)) v (cn_job c)"])
      (auto simp: upd_where_def open_job_def awaits_context_def)
qed


section \<open>The sample is matched\<close>

lemma sample_steps:
  "candidate_events sample_correlation 60 sample_job sample_tables = [sample_event]"
  "candidate_jobs sample_correlation 60 sample_event sample_tables = [sample_job]"
  "load_job ''j'' (xd_jobs sample_tables) = Some sample_job" "job_window sample_correlation sample_job = 60"
  "open_job sample_job" "ne_now sample_correlation = 22" "cx_id sample_event = ''e''" "jb_id sample_job = ''j''"
  by code_simp+

lemma sample_score:
  "case score_candidate sample_correlation 60 sample_event sample_job sample_tables of None \<Rightarrow> False
     | Some c \<Rightarrow> cn_score c = 35 \<and> cn_receipts c = 1"
  by code_simp

lemma sample_persist:
  assumes "cn_event c = sample_event" "cn_job c = sample_job" shows "\<exists>db'. persist_match 22 c sample_tables = (Inr True, db')"
proof -
  have "awaits_context ''j'' sample_job" "jb_event sample_job = None" by code_simp+
  moreover have "jobs_indexed [r]" "context_indexed [x]" for r x
    by (simp_all add: jobs_indexed_def context_indexed_def unique_among_def)
  ultimately show ?thesis using assms sample_steps(7,8)
    by (simp add: persist_match_def match_context_def store_jobs_def set_events_def sample_tables_def upd_where_def Let_def)
qed

lemma sample_correlated: "\<exists>db'. correlate sample_correlation (Job_Anchor ''j'') sample_tables = (Inr (C_Matched ''e'' ''j'' 35), db')"
proof -
  obtain c where c: "score_candidate sample_correlation 60 sample_event sample_job sample_tables = Some c" "cn_score c = 35" "cn_receipts c = 1"
    using sample_score by (auto split: option.splits)
  have rows: "cn_event c = sample_event" "cn_job c = sample_job" using score_candidate_rows[OF c(1)] by simp_all
  have "for_job sample_correlation 60 sample_job sample_tables = [c]" "for_event sample_correlation 60 sample_event sample_tables = [c]"
    using c(1) sample_steps(1,2) by (simp_all add: for_job_def for_event_def)
  moreover obtain db' where "persist_match 22 c sample_tables = (Inr True, db')" using sample_persist[OF rows] by blast
  moreover have "winners [c] = [c]" by (rule winners_single) (simp add: c(2))
  ultimately show ?thesis using c(2,3) rows sample_steps(3-8)
    by (simp add: correlate_def choose_pair_def settle_pair_def opposite_candidates_def same_pair_def Let_def)
qed

lemma sample_linked: "linked sample_tables"
proof -
  have "jb_event sample_job = None" "cx_job sample_event = None" by code_simp+
  then show ?thesis by (simp add: linked_def sample_tables_def jobs_indexed_def context_indexed_def unique_among_def)
qed

text \<open>C39. A match is the best for both sides. When the correlation answers that an event and a job match, both were open,
  their score is the answered one, every other candidate of that event and of that job scores less, the question was
  about one of the two, and afterwards the two rows name each other.\<close>

theorem match_is_mutual_best:
  assumes "correlate env a db = (Inr (C_Matched i k sc), db')" "linked db"
  shows "(\<exists>e j c w. e \<in> set (xd_events db) \<and> cx_id e = i \<and> open_event (ne_now env) e \<and> j \<in> set (xd_jobs db) \<and> jb_id j = k \<and> open_job j
       \<and> w \<in> {event_window env e, job_window env j} \<and> score_candidate env w e j db = Some c \<and> cn_score c = sc
       \<and> (\<forall>d \<in> set (for_event env w e db) \<union> set (for_job env w j db). d = c \<or> cn_score d < sc))
     \<and> (a = Event_Anchor i \<or> a = Job_Anchor k)
     \<and> (\<exists>e \<in> set (xd_events db'). cx_id e = i \<and> cx_job e = Some k \<and> cx_status e = ''matched'')
     \<and> (\<exists>j \<in> set (xd_jobs db'). jb_id j = k \<and> jb_event j = Some i)"
proof -
  obtain c w where c: "mutual_best env w c db" "w \<in> {event_window env (cn_event c), job_window env (cn_job c)}"
      "persist_match (ne_now env) c db = (Inr True, db')" "i = cx_id (cn_event c)" "k = jb_id (cn_job c)" "sc = cn_score c"
      "a = Event_Anchor i \<or> a = Job_Anchor k"
    using correlate_matched[OF assms] by blast
  show ?thesis using persisted_rows[OF c(3,1)] c(1,2,7) unfolding mutual_best_def Let_def c(4-6) by blast
qed

theorem match_is_mutual_best_witness:
  "\<exists>db'. correlate sample_correlation (Job_Anchor ''j'') sample_tables = (Inr (C_Matched ''e'' ''j'' 35), db')
     \<and> (\<exists>j \<in> set (xd_jobs db'). jb_id j = ''j'' \<and> jb_event j = Some ''e'')"
  using sample_correlated match_is_mutual_best[OF _ sample_linked] by blast


definition meta_start :: meta_run where
  "meta_start = \<lparr>mt_queue = no_jobs, mt_events = [], mt_content = \<lparr>cd_rows = [], cd_products = []\<rparr>\<rparr>"

lemma no_match: "length (run_jobs t) \<noteq> length (run_jobs s) \<Longrightarrow> \<not> match_step s t" "kn_workers t \<noteq> kn_workers s \<Longrightarrow> \<not> match_step s t"
  by (auto simp: match_step_def match_context_def store_jobs_def)

lemma matched_reach: "\<exists>s e j. reach minit mstep s \<and> e \<in> set (mt_events s) \<and> j \<in> set (run_jobs (mt_queue s))
    \<and> cx_job e = Some (jb_id j) \<and> jb_id j = ''j''"
proof -
  let ?q1 = "with_db dm_stored no_jobs"
  let ?q2 = "joins (K_Preparing, dm_job) (with_db (snd dm_claim) ?q1)"
  let ?q3 = "moves (K_Preparing, dm_job) [] (with_db dm_waiting ?q2)"
  let ?s = "\<lambda>q. meta_start\<lparr>mt_queue := q\<rparr>"
  let ?s4 = "(?s ?q3)\<lparr>mt_events := story_stored\<rparr>"
  have "reach minit mstep (?s no_jobs)" by (rule reach_init) (simp add: minit_def meta_start_def kinit_def no_jobs_def)
  moreover have "mstep (?s no_jobs) (?s ?q1)"
  proof -
    have "kstep no_jobs ?q1" unfolding dm_stored_def received_def by (rule k_receive) (simp add: sample_message_def)
    moreover have "length (kj_jobs dm_stored) = 1" by code_simp
    ultimately show ?thesis using m_queue[of "?s no_jobs" ?q1] no_match(1)[of ?q1 no_jobs] by (simp add: no_jobs_def)
  qed
  moreover have "mstep (?s ?q1) (?s ?q2)"
  proof -
    have "kstep ?q1 ?q2" by (rule k_claim_pending[where now = 20 and l = "''lease''"])
      (use story_sample_facts(3-6) in \<open>simp_all add: dm_claim_def prod_eq_iff fresh_lease_def no_jobs_def\<close>)
    then show ?thesis using m_queue[of "?s ?q1" ?q2] no_match(2)[of ?q2 ?q1] by (simp add: no_jobs_def)
  qed
  moreover have "mstep (?s ?q2) (?s ?q3)"
  proof -
    have "kstep ?q2 ?q3" using k_prepared[of dm_job ?q2 21 True 30 False None] story_sample_facts(4,5,7,8) by (simp add: dm_waiting_def)
    then show ?thesis using m_queue[of "?s ?q2" ?q3] no_match(2)[of ?q3 ?q2] by (simp add: no_jobs_def)
  qed
  moreover have "mstep (?s ?q3) ?s4"
  proof -
    have "inj event_ids" by (auto simp: inj_def event_ids_def)
    then have "fresh_events event_ids (mt_events (?s ?q3))" by (simp add: fresh_events_def meta_start_def)
    from m_webhook[OF this, of story_contexts "\<lambda>_. None" 18 "\<lambda>t. t" True "Some story_body"]
    show ?thesis by (simp add: story_stored_def meta_start_def)
  qed
  ultimately have "reach minit mstep ?s4" by (meson reach_step)
  moreover have tables: "tables ?s4 = sample_tables" using story_sample_facts(1,2) by (simp add: tables_def sample_tables_def meta_start_def)
  obtain db' where m: "correlate sample_correlation (Job_Anchor ''j'') sample_tables = (Inr (C_Matched ''e'' ''j'' 35), db')"
    using sample_correlated by blast
  have "mstep ?s4 (with_tables db' ?s4)" using m_correlate[of ?s4 sample_correlation "Job_Anchor ''j''"] m tables by simp
  ultimately have reached: "reach minit mstep (with_tables db' ?s4)" by (meson reach_step)
  obtain c w where c: "mutual_best sample_correlation w c sample_tables" "persist_match (ne_now sample_correlation) c sample_tables = (Inr True, db')"
      "''j'' = jb_id (cn_job c)"
    using correlate_matched[OF m sample_linked] by blast
  obtain e j where "e \<in> set (xd_events db')" "cx_job e = Some ''j''" "j \<in> set (xd_jobs db')" "jb_id j = ''j''"
    using persisted_rows[OF c(2,1)] c(3) by auto
  then show ?thesis using reached by (intro exI[of _ "with_tables db' ?s4"] exI[of _ e] exI[of _ j]) (simp add: with_tables_def)
qed

section \<open>One to one\<close>

text \<open>C38. Whatever the queue, the webhook and the correlation do, in whatever order, events of Instagram and Kommo
  jobs are matched one to one: an event names a job exactly when the job names the event, what is named is in the
  other table, and no two events name one job nor two jobs one event.\<close>

theorem matches_one_to_one:
  assumes "reach minit mstep s"
  shows "(\<forall>e \<in> set (mt_events s). \<forall>j \<in> set (run_jobs (mt_queue s)). cx_job e = Some (jb_id j) \<longleftrightarrow> jb_event j = Some (cx_id e))
    \<and> (\<forall>e \<in> set (mt_events s). \<forall>k. cx_job e = Some k \<longrightarrow> cx_status e = ''matched''
         \<and> (\<exists>j \<in> set (run_jobs (mt_queue s)). jb_id j = k) \<and> (\<forall>e' \<in> set (mt_events s). cx_job e' = Some k \<longrightarrow> e' = e))
    \<and> (\<forall>j \<in> set (run_jobs (mt_queue s)). \<forall>i. jb_event j = Some i \<longrightarrow>
         (\<exists>e \<in> set (mt_events s). cx_id e = i) \<and> (\<forall>j' \<in> set (run_jobs (mt_queue s)). jb_event j' = Some i \<longrightarrow> j' = j))"
proof (intro conjI ballI allI impI)
  have l: "linked (tables s)" using correlating.reach_inv[OF assms] by (simp add: minv_def)
  note d = linkedD[OF l, simplified]
  have same: "j = j'" if "jb_id j = jb_id j'" "j \<in> set (run_jobs (mt_queue s))" "j' \<in> set (run_jobs (mt_queue s))" for j j'
    using same_job_id[OF d(1)] that by blast
  show "cx_job e = Some (jb_id j) \<longleftrightarrow> jb_event j = Some (cx_id e)" if "e \<in> set (mt_events s)" "j \<in> set (run_jobs (mt_queue s))" for e j
    using that d(4,5) same unique_id[OF d(3)] by metis
  show "cx_status e = ''matched''" "\<exists>j \<in> set (run_jobs (mt_queue s)). jb_id j = k" if "e \<in> set (mt_events s)" "cx_job e = Some k" for e k
    using d(4)[OF that] by blast+
  show "e' = e" if "e \<in> set (mt_events s)" "cx_job e = Some k" "e' \<in> set (mt_events s)" "cx_job e' = Some k" for e e' k
    using that d(4) same unique_id[OF d(3)] by (metis option.inject)
  show "\<exists>e \<in> set (mt_events s). cx_id e = i" if "j \<in> set (run_jobs (mt_queue s))" "jb_event j = Some i" for j i
    using d(5)[OF that] by blast
  show "j' = j" if "j \<in> set (run_jobs (mt_queue s))" "jb_event j = Some i" "j' \<in> set (run_jobs (mt_queue s))" "jb_event j' = Some i" for j j' i
    using that d(5) same unique_id[OF d(3)] by (metis option.inject)
qed

theorem matches_one_to_one_witness:
  "\<exists>s e j. reach minit mstep s \<and> e \<in> set (mt_events s) \<and> j \<in> set (run_jobs (mt_queue s)) \<and> cx_job e = Some (jb_id j) \<and> jb_event j = Some (cx_id e)"
  using matched_reach matches_one_to_one by meson


section \<open>Deadlines\<close>

text \<open>No statement of the correlation makes a job overdue.\<close>

definition fewer_overdue :: "int \<Rightarrow> kommo_db \<Rightarrow> kommo_db \<Rightarrow> bool" where
  "fewer_overdue now k k' = (\<forall>j' \<in> set (kj_jobs k'). past_deadline now j' \<longrightarrow> (\<exists>j \<in> set (kj_jobs k). jb_id j = jb_id j' \<and> past_deadline now j))"

lemma fewer_upd:
  assumes "kj_jobs k' = upd_where p f (kj_jobs k)" "\<And>j. p j \<Longrightarrow> jb_id (f j) = jb_id j \<and> (past_deadline now (f j) \<longrightarrow> past_deadline now j)"
  shows "fewer_overdue now k k'"
  using assms by (fastforce simp: fewer_overdue_def upd_where_def split: if_splits)

lemma fewer_refl [simp]: "fewer_overdue now k k"
  by (auto simp: fewer_overdue_def)

lemma fewer_match: "fewer_overdue now k (snd (match_context t jid i st sc u v k))"
proof -
  have "fewer_overdue now k (k\<lparr>kj_jobs := upd_where (\<lambda>j. awaits_context jid j \<and> jb_event j = None) (matched_row t i st sc u v) (kj_jobs k)\<rparr>)"
    by (rule fewer_upd[where p = "\<lambda>j. awaits_context jid j \<and> jb_event j = None" and f = "matched_row t i st sc u v"])
      (simp_all add: past_deadline_def)
  then show ?thesis by (simp add: match_context_def store_jobs_def)
qed

interpretation overdue: correlation_effects "fewer_overdue now" for now
proof
  show "fewer_overdue now k k2" if "fewer_overdue now k k1" "fewer_overdue now k1 k2" for k k1 k2
    using that unfolding fewer_overdue_def by metis
  show "fewer_overdue now k (snd (match_context t jid i st sc u v k))" for k t jid i st sc u v by (rule fewer_match)
  show "fewer_overdue now k (mark_job_ambiguous t jid k)" for k t jid
    unfolding mark_job_ambiguous_def by (rule fewer_upd[OF set_jobs_sel(1)]) (simp add: past_deadline_def)
  show "fewer_overdue now k (enrich_matched t jid i v k)" for k t jid i v
    unfolding enrich_matched_def by (rule fewer_upd[OF set_jobs_sel(1)]) (simp add: past_deadline_def)
  show "fewer_overdue now k (release_matched t jid st v k)" for k t jid st v
    unfolding release_matched_def by (rule fewer_upd[OF set_jobs_sel(1)]) (simp add: past_deadline_def)
  show "fewer_overdue now k (snd (release_timed_out t jid k))" for k t jid
    unfolding release_timed_out_def Let_def snd_conv by (rule fewer_upd[OF set_jobs_sel(1)]) (simp add: past_deadline_def)
qed simp

definition overdue_ids :: "int \<Rightarrow> correlation_db \<Rightarrow> string set" where
  "overdue_ids now db = {jb_id j | j. j \<in> set (xd_jobs db) \<and> past_deadline now j}"

lemma overdue_fewer:
  assumes "fewer_overdue now (xd_kommo db) (xd_kommo db')" shows "overdue_ids now db' \<subseteq> overdue_ids now db"
proof
  fix i assume "i \<in> overdue_ids now db'"
  then obtain j' where "j' \<in> set (xd_jobs db')" "past_deadline now j'" "i = jb_id j'" unfolding overdue_ids_def by blast
  then obtain j where "j \<in> set (xd_jobs db)" "jb_id j = i" "past_deadline now j" using assms unfolding fewer_overdue_def by metis
  then show "i \<in> overdue_ids now db" unfolding overdue_ids_def by blast
qed

lemma overdue_released: "i \<notin> overdue_ids now (release_if_due now i db)"
proof
  assume "i \<in> overdue_ids now (release_if_due now i db)"
  then obtain j' where j': "j' \<in> set (xd_jobs (release_if_due now i db))" "past_deadline now j'" "jb_id j' = i" unfolding overdue_ids_def by blast
  let ?p = "\<lambda>j. awaits_context i j \<and> (case jb_deadline j of None \<Rightarrow> False | Some t \<Rightarrow> t \<le> now)"
  obtain f where f: "xd_jobs (release_if_due now i db) = upd_where ?p f (xd_jobs db)" "\<And>j. jb_status (f j) = JReady"
    by (rule that[of "\<lambda>j. j\<lparr>jb_status := JReady, jb_context := ''timed_out'',
          jb_public := (if jb_interaction j = instagram_comment_scope
                        then AList.update ''mapping_status'' (JVal (PStr ''timed_out'')) (jb_public j) else jb_public j),
          jb_content := (if jb_interaction j = private_message_scope then [] else jb_content j),
          jb_error := Some ''Meta Instagram context deadline elapsed'', jb_updated := now\<rparr>"])
      (simp_all add: release_if_due_def release_timed_out_def Let_def)
  from j'(1) obtain j where "j \<in> set (xd_jobs db)" "j' = (if ?p j then f j else j)" unfolding f(1) upd_where_def by auto
  then show False using j'(2,3) f(2)[of j] by (simp add: past_deadline_def awaits_context_def split: if_splits)
qed

lemma overdue_fold:
  assumes "\<And>x d. overdue_ids now (f x d) \<subseteq> overdue_ids now d" "\<And>x d. h x \<notin> overdue_ids now (f x d)"
  shows "overdue_ids now (fold f xs db) \<subseteq> overdue_ids now db \<and> overdue_ids now (fold f xs db) \<inter> h ` set xs = {}"
proof (induction xs arbitrary: db)
  case (Cons x xs)
  have "overdue_ids now (fold f xs (f x db)) \<subseteq> overdue_ids now (f x db)" "overdue_ids now (fold f xs (f x db)) \<inter> h ` set xs = {}"
    using Cons.IH[of "f x db"] by blast+
  then show ?case using assms(1)[of x db] assms(2)[of x db] by auto
qed simp

lemma overdue_gate: "overdue_ids (ne_now env) (gate_and_release env row d) \<subseteq> overdue_ids (ne_now env) d"
  unfolding gate_and_release_def by (rule overdue_fewer, rule overdue.rel_trans, rule overdue.rel_after_gate, rule overdue.rel_after_due)

lemma by_deadline_rows: "set (by_deadline t) = set t" "length (by_deadline t) = length t"
proof -
  have "length (filter p s) + length (filter (\<lambda>x. \<not> p x) s) = length s" for p and s :: "kommo_job list"
    by (rule sum_length_filter_compl)
  from this[of "\<lambda>j. jb_deadline j \<noteq> None"] show "length (by_deadline t) = length t" by (simp add: by_deadline_def Let_def)
  show "set (by_deadline t) = set t" by (auto simp: by_deadline_def Let_def)
qed

lemma all_taken: "length (filter p t) \<le> limit \<Longrightarrow> set (take limit (by_deadline (filter p t))) = {j \<in> set t. p j}"
  by (simp add: by_deadline_rows)

text \<open>C40. Deadlines are met. After a pass over the waiting jobs none of those it took, the first by deadline up to its limit,
  is still waiting past its deadline, whatever went wrong in the correlation of this job or of the others; a pass whose limit
  covers the waiting jobs leaves none overdue. The pass that only releases does the same for the overdue jobs.\<close>

theorem deadlines_met:
  "(\<forall>row \<in> set (take limit (by_deadline (filter (\<lambda>j. jb_status j = JContext) (xd_jobs db)))).
      \<forall>j \<in> set (xd_jobs (process_waiting_context_jobs env limit db)). jb_id j = jb_id row \<longrightarrow> \<not> past_deadline (ne_now env) j)
   \<and> (length (filter (\<lambda>j. jb_status j = JContext) (xd_jobs db)) \<le> limit \<longrightarrow>
      (\<forall>j \<in> set (xd_jobs (process_waiting_context_jobs env limit db)). \<not> past_deadline (ne_now env) j))
   \<and> (length (filter (past_deadline now) (xd_jobs db)) \<le> limit \<longrightarrow>
      (\<forall>j \<in> set (xd_jobs (release_timed_out_context_jobs now limit db)). \<not> past_deadline now j))"
proof -
  let ?t = "ne_now env" and ?rows = "take limit (by_deadline (filter (\<lambda>j. jb_status j = JContext) (xd_jobs db)))"
  have waiting: "overdue_ids ?t (process_waiting_context_jobs env limit db) \<subseteq> overdue_ids ?t db
      \<and> overdue_ids ?t (process_waiting_context_jobs env limit db) \<inter> jb_id ` set ?rows = {}"
    using overdue_fold[of ?t "gate_and_release env" jb_id ?rows db] overdue_gate overdue_released
    by (simp add: process_waiting_context_jobs_def overdue_ids_def gate_and_release_def)
  have out: "overdue_ids now (release_timed_out_context_jobs now limit db) \<subseteq> overdue_ids now db
      \<and> overdue_ids now (release_timed_out_context_jobs now limit db) \<inter> jb_id ` set (take limit (by_deadline (filter (past_deadline now) (xd_jobs db)))) = {}"
    unfolding release_timed_out_context_jobs_def
    by (rule overdue_fold) (use overdue_fewer[OF overdue.rel_after_due] overdue_released in auto)
  show ?thesis
  proof (intro conjI impI)
    show "\<forall>row \<in> set ?rows. \<forall>j \<in> set (xd_jobs (process_waiting_context_jobs env limit db)). jb_id j = jb_id row \<longrightarrow> \<not> past_deadline ?t j"
      using waiting unfolding overdue_ids_def by blast
    assume "length (filter (\<lambda>j. jb_status j = JContext) (xd_jobs db)) \<le> limit"
    from all_taken[OF this] have "overdue_ids ?t db \<subseteq> jb_id ` set ?rows" by (auto simp: overdue_ids_def past_deadline_def)
    then have "overdue_ids ?t (process_waiting_context_jobs env limit db) = {}" using waiting by blast
    then show "\<forall>j \<in> set (xd_jobs (process_waiting_context_jobs env limit db)). \<not> past_deadline ?t j" unfolding overdue_ids_def by blast
  next
    assume "length (filter (past_deadline now) (xd_jobs db)) \<le> limit"
    from all_taken[OF this] have "overdue_ids now db \<subseteq> jb_id ` set (take limit (by_deadline (filter (past_deadline now) (xd_jobs db))))"
      by (auto simp: overdue_ids_def)
    then have "overdue_ids now (release_timed_out_context_jobs now limit db) = {}" using out by blast
    then show "\<forall>j \<in> set (xd_jobs (release_timed_out_context_jobs now limit db)). \<not> past_deadline now j" unfolding overdue_ids_def by blast
  qed
qed

theorem deadlines_met_witness:
  "past_deadline 60 sample_job \<and> filter (past_deadline 60) (xd_jobs (process_waiting_context_jobs (sample_correlation\<lparr>ne_now := 60\<rparr>) 5 sample_tables)) = []"
proof -
  have "length (filter (\<lambda>j. jb_status j = JContext) (xd_jobs sample_tables)) \<le> 5" by (simp add: sample_tables_def)
  moreover have "past_deadline 60 sample_job" by code_simp
  moreover have now: "ne_now (sample_correlation\<lparr>ne_now := 60\<rparr>) = 60" by simp
  ultimately show ?thesis
    using deadlines_met[where db = sample_tables and limit = 5 and env = "sample_correlation\<lparr>ne_now := 60\<rparr>", THEN conjunct2, THEN conjunct1]
    unfolding now filter_empty_conv by blast
qed

end
