(* ===== verification/Spec2Isabelle.thy ===== *)
theory Spec2Isabelle
  imports Inventory Payment_Methods Shipping Customers Orders Reservations Stock_Ledger Order_Protocol Order_Runs Inbound_Queue Conversations Sessions Kommo_State Channel_Mappings Escalations Checkout Checkout_Runs Broadcast_Protocol Kommo_Runs Kommo_Sends Kommo_Refinement
    Kommo_Files Instagram_Content Meta_Protocol
begin

text \<open>
  A model of the store backend of the repository (Python, \<open>src/store/app\<close>): an assistant sells over
  WhatsApp and Instagram from a Google Sheets catalog, keeps customers, conversations, checkout drafts and
  orders in PostgreSQL, takes stock out of the sheet when an order is made, and is paused and resumed by
  people and by Kommo. The model follows the code function by function: a definition has the name of the
  function it translates (without a leading underscore), a table is a list of records, one per row, and a
  database transaction is one step, because the code holds the row locks it needs. \<open>NOW()\<close> and
  generated ids are arguments, times are seconds as \<open>int\<close>, columns of JSON text are the values they
  encode. What the program calls over the network (Google Sheets, the Meta and Kommo clients) is an
  argument: which call answers what, or fails. Every raise of the code is a value of \<open>py_exc + 'a\<close>.

  Parts and theories.
  \<^item> Prelude: strings, conversions and dictionaries of the language, rows and SQL statements, the
    locale \<open>protocol\<close> (steps that keep an invariant).
  \<^item> Catalog (\<open>catalog/sheets.py\<close>): rows of the sheet, the cache with its back-off, sizes, grouping.
  \<^item> Inventory (\<open>catalog/sheets.py\<close>): the ledger worksheet and the one function that changes stock,
    \<open>update_stock\<close>, with a fault possible at each sheet call. Stock_Ledger states what its clients may
    rely on as the locale of a stock ledger and interprets it on these definitions.
  \<^item> Customers (\<open>customer_identity.py\<close>, \<open>crm/customers.py\<close>), Payment_Methods (\<open>payment_methods.py\<close>),
    Shipping (\<open>shipping.py\<close>).
  \<^item> Orders (\<open>crm/orders.py\<close>): items, amounts, queries, payment updates with their proofs, the deletion
    transaction. Reservations: the parts of the same file that alternate between database and sheet.
    Order_Protocol is their step relation, one step per transaction or sheet call of any number of
    concurrent runs, with its invariant; Order_Runs shows that the functions are runs of that relation.
  \<^item> Inbound_Buffer (\<open>webhooks/inbound_buffer.py\<close>): the queue of incoming messages with receipts, leases
    and fenced sends. Inbound_Queue is its step relation and invariant.
  \<^item> Conversations (\<open>crm/conversations.py\<close>): stored messages and the history a model is prompted with.
  \<^item> Sessions (\<open>crm/sessions.py\<close>): checkout drafts, the workflow row of a customer, story contexts.
  \<^item> Channel_Mappings (\<open>crm/channel_mappings.py\<close>), Kommo_State (\<open>integrations/kommo/state.py\<close>) and
    Escalations (\<open>crm/escalations.py\<close>): identifiers of other systems, the AI mode of a lead, pauses of the
    assistant and their expiry.
  \<^item> Checkout (\<open>ai/checkout/service.py\<close>, the search of \<open>ai/tools/catalog.py\<close>): what the assistant may
    do to a draft and when a draft becomes an order. Checkout_Runs composes it with the sessions, the
    delivery quotes and the reservations, each the modelled one.
  \<^item> Broadcast (\<open>broadcast/sender.py\<close>, the operations of \<open>broadcast/api.py\<close> and
    \<open>broadcast/scheduler.py\<close> on campaigns): audience, delivery ledger, executions. Broadcast_Protocol is
    its step relation with concurrent senders and its invariant.
  \<^item> Kommo_Jobs, Kommo_Callbacks, Kommo_Workers (\<open>integrations/kommo/jobs.py\<close>, \<open>models.py\<close>) and
    Kommo_Delivery (\<open>integrations/kommo/delivery.py\<close>): the durable queue of Kommo messages with its
    statements, the signed callbacks of the Salesbot, the workers, and the outbound messages they claim
    and send. Kommo_Protocol makes every statement a step of any number of workers and proves the
    invariant, with the release of jobs that wait for a context (\<open>integrations/meta_context\<close>); Kommo_Runs
    has the properties of reachable states, Kommo_Sends those of the messages of one direct job, and
    Kommo_Refinement shows that the workers' functions are runs of that relation.
  \<^item> Urls: the parts of a URL, IP addresses and UUIDs as the standard library reads them. Kommo_Auth
    (\<open>integrations/kommo/auth.py\<close>): webhook secret, return URL, Salesbot token. Kommo_Client
    (\<open>integrations/kommo/client.py\<close>): one request with its rate limit, retries and error texts, and the
    calls built on it, with the log of what was sent. Kommo_Files (\<open>integrations/kommo/files.py\<close>):
    uploads in parts, guarded downloads of images, media messages.
  \<^item> Instagram_Content (\<open>instagram_content/service.py\<close>, \<open>admin/instagram_content.py\<close>, parts of
    \<open>integrations/meta_context/service.py\<close>): the table that leads from a post or Story to products.
  \<^item> Meta_Events (\<open>webhooks/meta_instagram_context.py\<close>, \<open>parser.py\<close>, \<open>normalization.py\<close>, \<open>models.py\<close> of
    \<open>integrations/meta_context\<close>): what the webhook of Meta says of comments and replies to Stories, and the table
    it fills. Meta_Correlation (\<open>correlation.py\<close>, \<open>service.py\<close>): which Kommo job waits for which event,
    with the enrichment of the event and the release of the job. Kommo_Links shows that no other statement of the
    queue touches a match, Meta_Runs states as the locale \<open>correlation_effects\<close> what the correlation does to
    the queue and interprets it twice, and Meta_Protocol is the step relation of queue, webhook and
    correlation together.

  What the lemmas show. Stock: an operation id is applied at most once, an update that raises has changed
  nothing unless its batch was applied and the ledger says so, and the stock of a SKU differs from the net
  of its ledger by a constant. Orders: in every reachable state of the protocol the reservation status of
  an order tells the truth about the ledger, deleting and expiring an order returns the stock exactly if
  it was taken, creation and deletion refine the protocol, proofs of payment are used once, an order
  becomes paid only with its stock held. Queue: per sender the tables implement a first-in first-out
  queue, a message is accepted once, a batch with an accepted reply is never processed again, a worker
  that lost its lease does nothing. Sessions: a draft survives being stored, an update refines a map from
  customers to sessions. Escalations: the expiry job resumes exactly what is due, resuming is all or
  nothing. Conversations: prompts alternate. Broadcasts: a campaign reaches
  a recipient at most once, and only opted-in ones. Customers, shipping, payment methods: round trips,
  idempotence and the branches of the validators. Checkout: an order is made only from a complete,
  confirmed draft, and the order that is made holds its stock. Kommo: a job launches, answers and
  continues at most once, finished jobs stay finished, an unfinished one always has a statement that
  takes it on, and all but one of the direct messages of a job were refused or reported as failed; return
  URLs stay on the account's host, requests are repeated only when that is safe, images come from public
  addresses only, uploads are whole. Instagram: the ways to write a URL have one normal form, and products
  assigned to a post are found again. A redelivered webhook stores nothing, events and jobs are matched one to one
  in every state that queue and correlation reach together, a match is the best of both sides, the correlation
  keeps to the protocol of the queue, and no job waits past its deadline once a pass has taken it.

  Bounds. Recursions are structural or come with a measure, no fuel is used. Lists the code bounds are
  bounded the same way (three unpaid orders, three sends, a hundred rows per expiry run, twenty products
  per story). Floats are exact rationals and strings are over the first 256 code points, as Prelude says.

  Not modelled: HTTP servers and clients, the language-model providers, prompts and the tool loop, vision,
  transcription and documents, the admin and master services (settings, bot, store provisioning), analytics
  and exports, logging, configuration, migrations, because they are glue around libraries and services or produce text that is only
  shown. The deletion of old rows (\<open>data_retention.py\<close>) is left out too, so the properties of reachable states are
  about rows that are still stored. The Kommo webhook and customer profile, routing and the payment verifier
  are logic that a continuation would model next.
\<close>

end
